(* ===== verification/Prelude.thy ===== *)
theory Prelude
  imports Main "HOL-Library.Word"
begin

text \<open>
  Shared vocabulary of the development: the machine types of the Go sources, errors as values,
  the sequencing combinator for fallible code, and the generic lemmas on byte slices that the
  codec theories rest on.

  A Go \<^verbatim>\<open>[]byte\<close> is a list of 8-bit words; a slice position \<^verbatim>\<open>b[offset:]\<close> is
  \<open>drop offset b\<close>.  Where the code distinguishes a nil slice from an empty one the model uses
  an \<open>option\<close>.  A Go \<^verbatim>\<open>int\<close> is a mathematical integer (the sources never leave its 64-bit range:
  lengths, offsets and 32-bit tag lengths only); \<^verbatim>\<open>uint8\<close>, \<^verbatim>\<open>uint16\<close>, \<^verbatim>\<open>uint32\<close>, \<^verbatim>\<open>uint64\<close> and
  the signed types of the same widths are words, read through \<open>unat\<close> or \<open>sint\<close>.
\<close>

unbundle bit_operations_syntax

section \<open>Machine types and errors\<close>

type_synonym u8 = "8 word"
type_synonym u16 = "16 word"
type_synonym u32 = "32 word"
type_synonym u64 = "64 word"
type_synonym bytes = "8 word list"

text \<open>
  An error value carries its message (the format string, for \<^verbatim>\<open>fmt.Errorf\<close>); a run-time panic is
  a value of its own, so that no theorem can mistake it for an ordinary return.
\<close>

datatype go_error = Err string | Panic

type_synonym 'a result = "go_error + 'a"

text \<open>
  \<^verbatim>\<open>x, err := f(); if err != nil { return err }\<close> is \<open>bind_res f (\<lambda>x. ...)\<close>.
\<close>

definition bind_res :: "'e + 'a \<Rightarrow> ('a \<Rightarrow> 'e + 'b) \<Rightarrow> 'e + 'b" where
  "bind_res m f = (case m of Inl e \<Rightarrow> Inl e | Inr x \<Rightarrow> f x)"

lemma bind_res_simps [simp]:
  "bind_res (Inl e) f = Inl e"
  "bind_res (Inr x) f = f x"
  by (simp_all add: bind_res_def)

lemma bind_res_cong [fundef_cong]:
  "m = m' \<Longrightarrow> (\<And>x. m' = Inr x \<Longrightarrow> f x = f' x) \<Longrightarrow> bind_res m f = bind_res m' f'"
  by (auto simp: bind_res_def split: sum.splits)

lemma bind_res_eq_Inr: "bind_res m f = Inr y \<longleftrightarrow> (\<exists>x. m = Inr x \<and> f x = Inr y)"
  by (auto simp: bind_res_def split: sum.splits)

lemma bind_res_eq_Inl:
  "bind_res m f = Inl e \<longleftrightarrow> m = Inl e \<or> (\<exists>x. m = Inr x \<and> f x = Inl e)"
  by (auto simp: bind_res_def split: sum.splits)

lemma bind_res_assoc: "bind_res (bind_res m f) g = bind_res m (\<lambda>x. bind_res (f x) g)"
  by (auto simp: bind_res_def split: sum.splits)

text \<open>A guard \<^verbatim>\<open>if c { return err }\<close>.\<close>

definition fail_if :: "bool \<Rightarrow> 'e \<Rightarrow> 'e + unit" where
  "fail_if c e = (if c then Inl e else Inr ())"

lemma fail_if_simps [simp]:
  "fail_if True e = Inl e"
  "fail_if False e = Inr ()"
  by (simp_all add: fail_if_def)

lemma fail_if_eq_Inr [simp]: "fail_if c e = Inr u \<longleftrightarrow> \<not> c"
  by (simp add: fail_if_def)

lemma bind_fail_if: "bind_res (fail_if c e) f = (if c then Inl e else f ())"
  by (simp add: fail_if_def)

text \<open>\<open>map_res\<close> is a loop \<^verbatim>\<open>for _, x := range xs\<close> that converts each element and stops at an error.\<close>

fun map_res :: "('a \<Rightarrow> 'e + 'b) \<Rightarrow> 'a list \<Rightarrow> 'e + 'b list" where
  "map_res f [] = Inr []"
| "map_res f (x # xs) = bind_res (f x) (\<lambda>y. bind_res (map_res f xs) (\<lambda>ys. Inr (y # ys)))"

lemma map_res_Inr:
  "(\<And>x. x \<in> set xs \<Longrightarrow> f x = Inr (g x)) \<Longrightarrow> map_res f xs = Inr (map g xs)"
  by (induction xs) auto

lemma map_res_length: "map_res f xs = Inr ys \<Longrightarrow> length ys = length xs"
  by (induction xs arbitrary: ys) (auto simp: bind_res_eq_Inr)

lemma map_res_nth:
  "map_res f xs = Inr ys \<Longrightarrow> i < length xs \<Longrightarrow> f (xs ! i) = Inr (ys ! i)"
  by (induction xs arbitrary: ys i) (auto simp: bind_res_eq_Inr nth_Cons split: nat.splits)

lemma map_res_append:
  "map_res f (xs @ ys) = bind_res (map_res f xs) (\<lambda>us. bind_res (map_res f ys) (\<lambda>vs. Inr (us @ vs)))"
  by (induction xs) (auto simp: bind_res_def split: sum.splits)

lemma unat_less: "unat (v :: 'a::len word) < 2 ^ LENGTH('a)"
  by (rule unsigned_less)

section \<open>Slices at an offset\<close>

text \<open>
  The collection \<open>slice_simps\<close> turns the codec's offset arithmetic into facts about the suffix
  \<open>drop offset b\<close>: a decoder that has reached \<open>offset\<close> with \<open>drop offset b = xs @ rest\<close> reads
  \<open>xs\<close> and stands at \<open>offset + length xs\<close> in front of \<open>rest\<close>.
\<close>

named_theorems slice_simps

lemma drop_advance: "drop off b = xs @ rest \<Longrightarrow> drop (off + length xs) b = rest"
  by (metis add.commute append_eq_conv_conj drop_drop)

lemma drop_advance_n: "drop off b = xs @ rest \<Longrightarrow> n = length xs \<Longrightarrow> drop (off + n) b = rest"
  by (simp add: drop_advance)

lemma drop_length_bound: "drop off b = xs @ rest \<Longrightarrow> xs \<noteq> [] \<Longrightarrow> off + length xs + length rest = length b"
  by (metis add.assoc append_is_Nil_conv drop_eq_Nil2 le_add_diff_inverse length_append length_drop
      linorder_le_cases)

lemma slice_take [slice_simps]: "take (length xs) (xs @ rest) = xs"
  by simp

lemma int_length_drop:
  "off \<le> length b \<Longrightarrow> int (length b) - int off = int (length (drop off b))"
  by simp

definition subslice :: "'a list \<Rightarrow> nat \<Rightarrow> nat \<Rightarrow> 'a list" where
  "subslice b from to = take (to - from) (drop from b)"

lemma subslice_at:
  "drop off b = xs @ rest \<Longrightarrow> subslice b off (off + length xs) = xs"
  by (simp add: subslice_def)

lemma subslice_at_n:
  "drop off b = xs @ rest \<Longrightarrow> n = off + length xs \<Longrightarrow> subslice b off n = xs"
  by (simp add: subslice_def)

end
