(* ===== verification/Integers.thy ===== *)
theory Integers
  imports Prelude
begin

text \<open>
  The integer codecs of \<^verbatim>\<open>bacnet/types\<close>: \<^verbatim>\<open>unsigned.go\<close>, \<^verbatim>\<open>signed.go\<close>, \<^verbatim>\<open>signed_util.go\<close> and
  \<^verbatim>\<open>encoding_util.go\<close>.  Each \<^verbatim>\<open>MarshalBinary\<close> is a function to bytes, each \<^verbatim>\<open>UnmarshalBinary\<close> a
  function to a result (the receiver's new value).  \<^verbatim>\<open>binary.BigEndian\<close> is written out.  The lemmas
  show that the variable-length encodings are shortest, and that decoding inverts encoding.
\<close>

section \<open>Big-endian access (encoding/binary)\<close>

definition PutUint16 :: "u16 \<Rightarrow> bytes" where
  "PutUint16 v = [ucast (drop_bit 8 v), ucast v]"

definition BE_Uint16 :: "bytes \<Rightarrow> u16" where
  "BE_Uint16 b = ucast (b ! 1) OR push_bit 8 (ucast (b ! 0))"

definition PutUint32 :: "u32 \<Rightarrow> bytes" where
  "PutUint32 v = [ucast (drop_bit 24 v), ucast (drop_bit 16 v), ucast (drop_bit 8 v), ucast v]"

definition BE_Uint32 :: "bytes \<Rightarrow> u32" where
  "BE_Uint32 b = ucast (b ! 3) OR push_bit 8 (ucast (b ! 2))
     OR push_bit 16 (ucast (b ! 1)) OR push_bit 24 (ucast (b ! 0))"

definition PutUint64 :: "u64 \<Rightarrow> bytes" where
  "PutUint64 v = [ucast (drop_bit 56 v), ucast (drop_bit 48 v), ucast (drop_bit 40 v),
     ucast (drop_bit 32 v), ucast (drop_bit 24 v), ucast (drop_bit 16 v), ucast (drop_bit 8 v),
     ucast v]"

definition BE_Uint64 :: "bytes \<Rightarrow> u64" where
  "BE_Uint64 b = ucast (b ! 7) OR push_bit 8 (ucast (b ! 6)) OR push_bit 16 (ucast (b ! 5))
     OR push_bit 24 (ucast (b ! 4)) OR push_bit 32 (ucast (b ! 3)) OR push_bit 40 (ucast (b ! 2))
     OR push_bit 48 (ucast (b ! 1)) OR push_bit 56 (ucast (b ! 0))"

section \<open>unsigned.go\<close>

definition Uint16_MarshalBinary :: "u16 \<Rightarrow> bytes" where
  "Uint16_MarshalBinary u = PutUint16 u"

definition Uint16_UnmarshalBinary :: "bytes \<Rightarrow> u16 result" where
  "Uint16_UnmarshalBinary b =
     (if length b \<noteq> 2 then Inl (Err ''uint16 expects exactly 2 octets'')
      else Inr (BE_Uint16 b))"

definition Uint24_MarshalBinary :: "u32 \<Rightarrow> bytes" where
  "Uint24_MarshalBinary u = [ucast (drop_bit 16 u), ucast (drop_bit 8 u), ucast u]"

definition Uint24_UnmarshalBinary :: "bytes \<Rightarrow> u32 result" where
  "Uint24_UnmarshalBinary b =
     (if length b \<noteq> 3 then Inl (Err ''uint24 expects exactly 3 octets'')
      else Inr ((push_bit 16 (ucast (b ! 0)) AND 0x00FF0000)
        OR (push_bit 8 (ucast (b ! 1)) AND 0x0000FF00)
        OR (ucast (b ! 2) AND 0x000000FF)))"

definition Uint32_MarshalBinary :: "u32 \<Rightarrow> bytes" where
  "Uint32_MarshalBinary u = PutUint32 u"

definition Uint32_UnmarshalBinary :: "bytes \<Rightarrow> u32 result" where
  "Uint32_UnmarshalBinary b =
     (if length b \<noteq> 4 then Inl (Err ''uint32 expects exactly 4 octets'')
      else Inr (BE_Uint32 b))"

section \<open>signed.go\<close>

definition Int8_MarshalBinary :: "u8 \<Rightarrow> bytes" where
  "Int8_MarshalBinary i = [i]"

definition Int8_UnmarshalBinary :: "bytes \<Rightarrow> u8 result" where
  "Int8_UnmarshalBinary b =
     (if length b \<noteq> 1 then Inl (Err ''int8 expects exactly 1 octet'') else Inr (b ! 0))"

definition Int16_MarshalBinary :: "u16 \<Rightarrow> bytes" where
  "Int16_MarshalBinary i = PutUint16 i"

definition Int16_UnmarshalBinary :: "bytes \<Rightarrow> u16 result" where
  "Int16_UnmarshalBinary b =
     (if length b \<noteq> 2 then Inl (Err ''int16 expects exactly 2 octets'') else Inr (BE_Uint16 b))"

definition Int24_MarshalBinary :: "u32 \<Rightarrow> bytes" where
  "Int24_MarshalBinary i = [ucast (drop_bit 16 i), ucast (drop_bit 8 i), ucast i]"

definition Int24_UnmarshalBinary :: "bytes \<Rightarrow> u32 result" where
  "Int24_UnmarshalBinary b =
     (if length b \<noteq> 3 then Inl (Err ''int24 expects exactly 3 octets'')
      else (let v = push_bit 16 (ucast (b ! 0)) OR push_bit 8 (ucast (b ! 1)) OR ucast (b ! 2)
            in Inr (if b ! 0 AND 0x80 \<noteq> 0 then v OR 0xff000000 else v)))"

definition Int32_MarshalBinary :: "u32 \<Rightarrow> bytes" where
  "Int32_MarshalBinary i = PutUint32 i"

definition Int32_UnmarshalBinary :: "bytes \<Rightarrow> u32 result" where
  "Int32_UnmarshalBinary b =
     (if length b \<noteq> 4 then Inl (Err ''int32 expects exactly 4 octets'') else Inr (BE_Uint32 b))"

section \<open>signed\_util.go\<close>

definition GetIntLen :: "int \<Rightarrow> nat" where
  "GetIntLen val =
     (if val \<le> 127 \<and> val \<ge> - 128 then 1
      else if val \<le> 32767 \<and> val \<ge> - 32768 then 2
      else if val \<le> 8388607 \<and> val \<ge> - 8388608 then 3
      else 4)"

definition GetUintLen :: "u64 \<Rightarrow> nat" where
  "GetUintLen val =
     (if val \<le> 255 then 1
      else if val \<le> 65535 then 2
      else if val \<le> 16777215 then 3
      else 4)"

section \<open>encoding\_util.go\<close>

text \<open>
  \<^verbatim>\<open>b, _ = ...\<close> and \<^verbatim>\<open>_ = i.UnmarshalBinary(b)\<close> drop the error and keep the receiver's initial
  zero: \<open>or_zero\<close>.
\<close>

definition or_zero :: "'a::zero result \<Rightarrow> 'a" where
  "or_zero r = (case r of Inl _ \<Rightarrow> 0 | Inr v \<Rightarrow> v)"

definition EncodeVarInt :: "u32 \<Rightarrow> bytes" where
  "EncodeVarInt val =
     (let n = GetIntLen (sint val) in
      if n = 1 then Int8_MarshalBinary (ucast val)
      else if n = 2 then Int16_MarshalBinary (ucast val)
      else if n = 3 then Int24_MarshalBinary val
      else Int32_MarshalBinary val)"

definition DecodeVarInt :: "bytes \<Rightarrow> u32" where
  "DecodeVarInt b =
     (let n = length b in
      if n = 1 then scast (or_zero (Int8_UnmarshalBinary b))
      else if n = 2 then scast (or_zero (Int16_UnmarshalBinary b))
      else if n = 3 then or_zero (Int24_UnmarshalBinary b)
      else or_zero (Int32_UnmarshalBinary b))"

definition EncodeVarUint :: "u32 \<Rightarrow> bytes" where
  "EncodeVarUint value =
     (let n = GetUintLen (ucast value) in
      if n = 1 then [ucast value]
      else if n = 2 then Uint16_MarshalBinary (ucast value)
      else if n = 3 then Uint24_MarshalBinary value
      else Uint32_MarshalBinary value)"

definition DecodeVarUint :: "bytes \<Rightarrow> u32" where
  "DecodeVarUint b =
     (let n = length b in
      if n = 0 then 0
      else if n = 1 then ucast (b ! 0)
      else if n = 2 then ucast (or_zero (Uint16_UnmarshalBinary b))
      else if n = 3 then or_zero (Uint24_UnmarshalBinary b)
      else or_zero (Uint32_UnmarshalBinary b))"

section \<open>Joining and splitting bytes\<close>

lemma ucast_byte: "(ucast (ucast x :: u8) :: 'a::len word) = take_bit 8 (x :: 'a word)"
  by (rule bit_word_eqI) (auto simp: bit_simps)

lemma ucast_word16: "(ucast (ucast x :: u16) :: 'a::len word) = take_bit 16 (x :: 'a word)"
  by (rule bit_word_eqI) (auto simp: bit_simps)

lemma take_bit_join:
  "take_bit m v OR push_bit m (take_bit k (drop_bit m v)) = take_bit (m + k) (v :: 'a::len word)"
  by (rule bit_word_eqI) (auto simp: bit_simps)

lemma take_bit_join_num:
  fixes v :: "'a::len word"
  shows "take_bit (numeral m) v OR push_bit (numeral m) (take_bit (numeral k) (drop_bit (numeral m) v))
           = take_bit (numeral (m + k)) v"
    and "take_bit (numeral m) v
           OR push_bit (numeral m) (take_bit (numeral k) (drop_bit (numeral m) v)) OR r
           = take_bit (numeral (m + k)) v OR r"
  by (simp_all add: take_bit_join flip: or.assoc)

lemmas join_bytes = ucast_byte take_bit_join_num take_bit_word_eq_self

lemma byte_high:
  "bit (a::u8) (8 + n) = False" "bit a (16 + n) = False" "bit a (24 + n) = False"
  by (auto simp: bit_word.rep_eq dest: bit_imp_le_length)

lemma BE_Uint16_Put [simp]: "BE_Uint16 (PutUint16 v) = v"
  by (simp add: BE_Uint16_def PutUint16_def join_bytes)

lemma BE_Uint32_Put [simp]: "BE_Uint32 (PutUint32 v) = v"
  by (simp add: BE_Uint32_def PutUint32_def join_bytes)

lemma BE_Uint64_Put [simp]: "BE_Uint64 (PutUint64 v) = v"
  by (simp add: BE_Uint64_def PutUint64_def join_bytes)

lemma PutUint16_BE: "PutUint16 (BE_Uint16 [a, b]) = [a, b]"
  unfolding BE_Uint16_def PutUint16_def
  by (auto intro!: bit_word_eqI simp: bit_simps byte_high)

lemma PutUint32_BE: "PutUint32 (BE_Uint32 [a, b, c, d]) = [a, b, c, d]"
  unfolding BE_Uint32_def PutUint32_def
  by (auto intro!: bit_word_eqI simp: bit_simps byte_high)

lemma length_Put [simp]:
  "length (PutUint16 v) = 2" "length (PutUint32 w) = 4" "length (PutUint64 x) = 8"
  by (simp_all add: PutUint16_def PutUint32_def PutUint64_def)

lemma length_Uint24 [simp]: "length (Uint24_MarshalBinary v) = 3"
  by (simp add: Uint24_MarshalBinary_def)

lemma mask24:
  "(push_bit 16 (ucast (a::u8)) AND 0x00FF0000 :: u32) = push_bit 16 (ucast a)"
  "(push_bit 8 (ucast (a::u8)) AND 0x0000FF00 :: u32) = push_bit 8 (ucast a)"
  "(ucast (a::u8) AND 0x000000FF :: u32) = ucast a"
proof -
  have "(ucast a AND mask 8 :: u32) = ucast a"
    by (rule bit_word_eqI) (auto simp: bit_simps byte_high dest: bit_imp_le_length)
  then have 0: "(ucast a AND 0xFF :: u32) = ucast a" by (simp add: mask_eq_exp_minus_1)
  then show "(ucast a AND 0x000000FF :: u32) = ucast a" .
  have "push_bit 8 (ucast a AND 0xFF :: u32) = push_bit 8 (ucast a) AND 0xFF00"
    by (simp add: push_bit_and)
  with 0 show "(push_bit 8 (ucast a) AND 0x0000FF00 :: u32) = push_bit 8 (ucast a)" by simp
  have "push_bit 16 (ucast a AND 0xFF :: u32) = push_bit 16 (ucast a) AND 0xFF0000"
    by (simp add: push_bit_and)
  with 0 show "(push_bit 16 (ucast a) AND 0x00FF0000 :: u32) = push_bit 16 (ucast a)" by simp
qed

lemma Uint24_Unmarshal3:
  "Uint24_UnmarshalBinary [a, b, c] = Inr (ucast c OR push_bit 8 (ucast b) OR push_bit 16 (ucast a))"
  by (simp add: Uint24_UnmarshalBinary_def mask24 ac_simps)

lemma Uint24_roundtrip: "Uint24_UnmarshalBinary (Uint24_MarshalBinary v) = Inr (take_bit 24 v)"
  by (simp add: Uint24_MarshalBinary_def Uint24_Unmarshal3 join_bytes)

lemma take_bit_small: "unat v < 2 ^ n \<Longrightarrow> take_bit n v = (v :: 'a::len word)"
  by (simp add: word_unat_eq_iff unsigned_take_bit_eq take_bit_nat_eq_self)

section \<open>Variable-length unsigned integers\<close>

lemma GetUintLen_u32:
  "GetUintLen (ucast (v::u32)) =
     (if unat v < 2 ^ 8 then 1 else if unat v < 2 ^ 16 then 2 else if unat v < 2 ^ 24 then 3 else 4)"
proof -
  have "unat (ucast v :: u64) = unat v"
    using unat_less [of v] by (simp add: unsigned_ucast_eq take_bit_nat_eq_self)
  then show ?thesis by (simp add: GetUintLen_def word_le_nat_alt)
qed

lemma EncodeVarUint_cases:
  obtains (one) "unat v < 2 ^ 8" "EncodeVarUint v = [ucast v]"
  | (two) "2 ^ 8 \<le> unat v" "unat v < 2 ^ 16" "EncodeVarUint v = PutUint16 (ucast v)"
  | (three) "2 ^ 16 \<le> unat v" "unat v < 2 ^ 24" "EncodeVarUint v = Uint24_MarshalBinary v"
  | (four) "2 ^ 24 \<le> unat v" "EncodeVarUint v = PutUint32 v"
proof -
  consider "unat v < 2 ^ 8" | "2 ^ 8 \<le> unat v" "unat v < 2 ^ 16"
    | "2 ^ 16 \<le> unat v" "unat v < 2 ^ 24" | "2 ^ 24 \<le> unat v"
    by linarith
  then show thesis
    by cases (auto intro: that simp: EncodeVarUint_def GetUintLen_u32
        Uint16_MarshalBinary_def Uint32_MarshalBinary_def)
qed

lemma ucast_ucast_small:
  "unat v < 2 ^ 16 \<Longrightarrow> (ucast (ucast v :: u16) :: u32) = v"
  "unat v < 2 ^ 8 \<Longrightarrow> (ucast (ucast v :: u8) :: u32) = v"
  by (simp_all add: take_bit_small ucast_byte ucast_word16)

lemma DecodeVarUint_EncodeVarUint [simp]: "DecodeVarUint (EncodeVarUint v) = v"
proof (cases v rule: EncodeVarUint_cases)
  case one
  then show ?thesis by (simp add: DecodeVarUint_def ucast_ucast_small)
next
  case two
  then show ?thesis
    by (simp add: DecodeVarUint_def Uint16_UnmarshalBinary_def or_zero_def ucast_ucast_small)
next
  case three
  then have "take_bit 24 v = v" by (simp add: take_bit_small)
  with three show ?thesis
    by (simp add: DecodeVarUint_def or_zero_def Uint24_roundtrip)
next
  case four
  then show ?thesis
    by (simp add: DecodeVarUint_def Uint32_UnmarshalBinary_def or_zero_def)
qed

lemma length_EncodeVarUint: "length (EncodeVarUint v) \<in> {1..4}"
  by (cases v rule: EncodeVarUint_cases) auto

lemma length_EncodeVarUint_int [simp]:
  "1 \<le> int (length (EncodeVarUint v))" "int (length (EncodeVarUint v)) \<le> 4"
  "Suc 0 \<le> length (EncodeVarUint v)" "length (EncodeVarUint v) \<le> 4" "EncodeVarUint v \<noteq> []"
  using length_EncodeVarUint [of v] by auto

text \<open>Every encoding of at most four bytes decodes to its big-endian value.\<close>

fun be_value :: "bytes \<Rightarrow> nat" where
  "be_value [] = 0"
| "be_value (x # xs) = unat x * 256 ^ length xs + be_value xs"

lemma be_value_bound: "be_value b < 256 ^ length b"
proof (induction b)
  case (Cons x xs)
  have "unat x < 256" using unat_less [of x] by simp
  then have "unat x * 256 ^ length xs + 256 ^ length xs \<le> 256 * 256 ^ length xs"
    by (metis add.commute less_eq_Suc_le mult_Suc mult_le_mono1)
  with Cons have "unat x * 256 ^ length xs + be_value xs < 256 * 256 ^ length xs" by linarith
  then show ?case by simp
qed simp

lemma unat_or_push:
  fixes x y :: "'a::len word"
  assumes "unat x < 2 ^ n" "unat x + unat y * 2 ^ n < 2 ^ LENGTH('a)"
  shows "unat (x OR push_bit n y) = unat x + unat y * 2 ^ n"
proof -
  have "x AND push_bit n y = 0"
  proof (rule bit_word_eqI)
    fix i assume "i < LENGTH('a)"
    have "\<not> bit x i" if "n \<le> i"
    proof -
      have "take_bit n x = x" using assms(1) by (rule take_bit_small)
      with that show ?thesis by (metis bit_take_bit_iff not_le)
    qed
    then show "bit (x AND push_bit n y) i = bit (0::'a word) i"
      by (auto simp: bit_simps)
  qed
  then have "x OR push_bit n y = x + push_bit n y" by (simp add: disjunctive_add_eq_or)
  moreover have p: "unat (push_bit n y) = unat y * 2 ^ n"
    using assms(2)
    by (simp add: unsigned_push_bit_eq push_bit_eq_mult [of n "unat y"] take_bit_nat_eq_self)
  ultimately show ?thesis using assms(2) by (simp add: unat_add_lem [THEN iffD1])
qed

lemma unat_horner:
  fixes x :: u8 and y :: u32
  assumes "unat y < 2 ^ 24"
  shows "unat (ucast x OR push_bit 8 y :: u32) = unat x + unat y * 256"
proof -
  have u: "unat (ucast x :: u32) = unat x" "unat x < 256"
    using unat_less [of x] by (simp_all add: unsigned_ucast_eq take_bit_nat_eq_self)
  then show ?thesis using unat_or_push [of "ucast x" 8 y] assms by simp
qed

lemma unat_ucast_byte [simp]: "unat (ucast (x :: u8) :: u32) = unat x"
  using unat_less [of x] by (simp add: unsigned_ucast_eq take_bit_nat_eq_self)

lemma byte_bound: "unat (x :: u8) < 256"
  using unat_less [of x] by simp

lemma unat_BE_bytes:
  "unat (ucast y OR push_bit 8 (ucast x) :: u32) = be_value [x, y]"
  "unat (ucast z OR push_bit 8 (ucast y) OR push_bit 16 (ucast x) :: u32) = be_value [x, y, z]"
  "unat (BE_Uint32 [x, y, z, w]) = be_value [x, y, z, w]"
proof -
  note bounds = byte_bound [of x] byte_bound [of y] byte_bound [of z] byte_bound [of w]
  have 1: "unat (ucast y OR push_bit 8 (ucast x) :: u32) = unat y + unat x * 256" for x y :: u8
    using byte_bound [of x] byte_bound [of y] by (subst unat_horner) auto
  have 2: "unat (ucast z OR push_bit 8 (ucast y OR push_bit 8 (ucast x)) :: u32)
      = unat z + (unat y + unat x * 256) * 256" for x y z :: u8
    using byte_bound [of x] byte_bound [of y] byte_bound [of z] by (subst unat_horner) (auto simp: 1)
  have 3: "unat (ucast w OR push_bit 8 (ucast z OR push_bit 8 (ucast y OR push_bit 8 (ucast x))) :: u32)
      = unat w + (unat z + (unat y + unat x * 256) * 256) * 256"
    using bounds 2 [of z y x] by (subst unat_horner) (auto simp: push_bit_or)
  show "unat (ucast y OR push_bit 8 (ucast x) :: u32) = be_value [x, y]"
    by (simp add: 1)
  show "unat (ucast z OR push_bit 8 (ucast y) OR push_bit 16 (ucast x) :: u32) = be_value [x, y, z]"
    using 2 [of z y x] by (simp add: push_bit_or)
  show "unat (BE_Uint32 [x, y, z, w]) = be_value [x, y, z, w]"
    using 3 by (simp add: push_bit_or BE_Uint32_def)
qed

lemma ucast_BE_Uint16: "(ucast (BE_Uint16 [x, y]) :: u32) = ucast y OR push_bit 8 (ucast x)"
  unfolding BE_Uint16_def by (rule bit_word_eqI) (auto simp: bit_simps dest: bit_imp_le_length)

lemma unat_DecodeVarUint:
  assumes "length b \<le> 4"
  shows "unat (DecodeVarUint b) = be_value b"
proof -
  from assms consider "b = []" | x where "b = [x]" | x y where "b = [x, y]"
    | x y z where "b = [x, y, z]" | x y z w where "b = [x, y, z, w]"
    by (auto simp: length_Suc_conv le_Suc_eq numeral_eq_Suc)
  then show ?thesis
    by cases (simp_all add: DecodeVarUint_def or_zero_def Uint16_UnmarshalBinary_def
        Uint32_UnmarshalBinary_def Uint24_Unmarshal3 ucast_BE_Uint16 unat_BE_bytes del: be_value.simps(2),
        simp_all)
qed

lemma EncodeVarUint_shortest:
  assumes "be_value b = unat v" "b \<noteq> []"
  shows "length (EncodeVarUint v) \<le> length b"
proof -
  have lt: "unat v < 256 ^ length b" using be_value_bound [of b] assms(1) by simp
  have len: "Suc 0 \<le> length b" using assms(2) by (cases b) auto
  have pow: "n < length b" if "(256::nat) ^ n \<le> unat v" for n
    by (rule power_less_imp_less_exp [of "256::nat"]) (use lt that in linarith)+
  show ?thesis
    using len pow [of 1] pow [of 2] pow [of 3] by (cases v rule: EncodeVarUint_cases) auto
qed

section \<open>Variable-length signed integers\<close>

lemma sint_small_bits:
  fixes v :: u32
  assumes "- (2 ^ k) \<le> sint v" "sint v < 2 ^ k" "n < 32"
  shows "bit v n = bit v (min k n)"
proof -
  have "bit (sint v) n = bit (signed_take_bit k (sint v)) n"
    using assms by (simp add: signed_take_bit_int_eq_self)
  then show ?thesis
    using assms(3) by (simp add: bit_signed_take_bit_iff bit_sint_iff)
qed

lemma scast_ucast_small:
  fixes v :: u32
  shows "- 128 \<le> sint v \<Longrightarrow> sint v \<le> 127 \<Longrightarrow> scast (ucast v :: u8) = v"
    and "- 32768 \<le> sint v \<Longrightarrow> sint v \<le> 32767 \<Longrightarrow> scast (ucast v :: u16) = v"
proof -
  show "scast (ucast v :: u8) = v" if "- 128 \<le> sint v" "sint v \<le> 127"
  proof (rule bit_word_eqI)
    fix n :: nat assume n: "n < LENGTH(32)"
    with that have "bit v n = bit v (min 7 n)" using sint_small_bits [of 7 v n] by simp
    then show "bit (scast (ucast v :: u8) :: u32) n = bit v n"
      using n by (simp add: bit_simps min_less_iff_disj)
  qed
  show "scast (ucast v :: u16) = v" if "- 32768 \<le> sint v" "sint v \<le> 32767"
  proof (rule bit_word_eqI)
    fix n :: nat assume n: "n < LENGTH(32)"
    with that have "bit v n = bit v (min 15 n)" using sint_small_bits [of 15 v n] by simp
    then show "bit (scast (ucast v :: u16) :: u32) n = bit v n"
      using n by (simp add: bit_simps min_less_iff_disj)
  qed
qed

lemma Int24_roundtrip:
  assumes "- 8388608 \<le> sint v" "sint v \<le> 8388607"
  shows "Int24_UnmarshalBinary (Int24_MarshalBinary v) = Inr v"
proof -
  have top: "bit v n = bit v (min 23 n)" if "n < 32" for n
    using sint_small_bits [of 23 v n] assms that by simp
  have sign: "(ucast (drop_bit 16 v) AND 0x80 \<noteq> (0::u8)) = bit v 23"
  proof -
    have "(ucast (drop_bit 16 v) AND 0x80 \<noteq> (0::u8)) = bit (ucast (drop_bit 16 v) :: u8) 7"
      using and_exp_eq_0_iff_not_bit [of "ucast (drop_bit 16 v) :: u8" 7] by simp
    then show ?thesis by (simp add: bit_simps)
  qed
  have hi: "bit (0xff000000 :: u32) n = (24 \<le> n \<and> n < 32)" for n
  proof -
    have "(0xff000000 :: u32) = push_bit 24 (mask 8)" by (simp add: mask_eq_exp_minus_1)
    then have "bit (0xff000000 :: u32) n = bit (push_bit 24 (mask 8) :: u32) n" by (rule arg_cong)
    also have "\<dots> = (24 \<le> n \<and> n < 32)" by (auto simp: bit_push_bit_iff bit_mask_iff)
    finally show ?thesis .
  qed
  let ?j = "push_bit 16 (ucast (ucast (drop_bit 16 v) :: u8)) OR push_bit 8 (ucast (ucast (drop_bit 8 v) :: u8)) OR ucast (ucast v :: u8) :: u32"
  have "?j = take_bit 24 v"
    by (simp add: join_bytes or.commute or.left_commute)
  moreover have "(if bit v 23 then take_bit 24 v OR 0xff000000 else take_bit 24 v) = v"
  proof (rule bit_word_eqI)
    fix n :: nat assume "n < LENGTH(32)"
    then have n: "n < 32" by simp
    show "bit (if bit v 23 then take_bit 24 v OR 0xff000000 else take_bit 24 v) n = bit v n"
    proof (cases "n < 24")
      case True
      then show ?thesis using hi [of n] by (simp add: bit_or_iff bit_take_bit_iff)
    next
      case False
      then have "bit v n = bit v 23" using top [OF n] by (simp add: min_def)
      with False n show ?thesis using hi [of n] by (simp add: bit_or_iff bit_take_bit_iff)
    qed
  qed
  ultimately show ?thesis
    by (simp add: Int24_UnmarshalBinary_def Int24_MarshalBinary_def sign Let_def)
qed

lemma DecodeVarInt_EncodeVarInt [simp]: "DecodeVarInt (EncodeVarInt v) = v"
proof -
  consider "- 128 \<le> sint v" "sint v \<le> 127"
    | "\<not> (- 128 \<le> sint v \<and> sint v \<le> 127)" "- 32768 \<le> sint v" "sint v \<le> 32767"
    | "\<not> (- 128 \<le> sint v \<and> sint v \<le> 127)" "\<not> (- 32768 \<le> sint v \<and> sint v \<le> 32767)"
      "- 8388608 \<le> sint v" "sint v \<le> 8388607"
    | "\<not> (- 128 \<le> sint v \<and> sint v \<le> 127)" "\<not> (- 32768 \<le> sint v \<and> sint v \<le> 32767)"
      "\<not> (- 8388608 \<le> sint v \<and> sint v \<le> 8388607)"
    by linarith
  then show ?thesis
  proof cases
    case 1
    then show ?thesis
      by (simp add: EncodeVarInt_def GetIntLen_def DecodeVarInt_def Int8_MarshalBinary_def
        Int8_UnmarshalBinary_def or_zero_def scast_ucast_small)
  next
    case 2
    then show ?thesis
      by (auto simp add: EncodeVarInt_def GetIntLen_def DecodeVarInt_def Int16_MarshalBinary_def
        Int16_UnmarshalBinary_def or_zero_def scast_ucast_small)
  next
    case 3
    then have "Int24_UnmarshalBinary (Int24_MarshalBinary v) = Inr v" by (simp add: Int24_roundtrip)
    moreover have "EncodeVarInt v = Int24_MarshalBinary v"
      using 3 by (auto simp add: EncodeVarInt_def GetIntLen_def)
    ultimately show ?thesis
      by (simp add: DecodeVarInt_def or_zero_def Int24_MarshalBinary_def)
  next
    case 4
    then show ?thesis
      by (auto simp add: EncodeVarInt_def GetIntLen_def DecodeVarInt_def Int32_MarshalBinary_def
        Int32_UnmarshalBinary_def or_zero_def)
  qed
qed

lemma length_EncodeVarInt: "length (EncodeVarInt v) = GetIntLen (sint v)"
  by (auto simp: EncodeVarInt_def GetIntLen_def Int8_MarshalBinary_def Int16_MarshalBinary_def Int24_MarshalBinary_def Int32_MarshalBinary_def)

section \<open>Properties\<close>

text \<open>Unsigned integers on the wire: decoding what \<^verbatim>\<open>EncodeVarUint\<close> wrote gives the value back for
  every 32-bit value, the encoding has one to four octets, and no other octet string of at most four
  octets that decodes to the same value is shorter.\<close>

theorem EncodeVarUint_correct:
  "DecodeVarUint (EncodeVarUint v) = v \<and> length (EncodeVarUint v) \<in> {1..4} \<and>
   (\<forall>b. b \<noteq> [] \<and> length b \<le> 4 \<and> DecodeVarUint b = v \<longrightarrow> length (EncodeVarUint v) \<le> length b)"
  using length_EncodeVarUint by (auto intro: EncodeVarUint_shortest simp flip: unat_DecodeVarUint)

theorem EncodeVarUint_correct_witness:
  "DecodeVarUint [0, 1, 44] = 300 \<and> length (EncodeVarUint 300) \<le> 3"
proof -
  have "DecodeVarUint [0, 1, 44] = 300" by code_simp
  moreover have "(\<forall>b. b \<noteq> [] \<and> length b \<le> 4 \<and> DecodeVarUint b = 300 \<longrightarrow> length (EncodeVarUint 300) \<le> length b)"
    using EncodeVarUint_correct [of 300] by blast
  from spec [OF this, of "[0, 1, 44]"] calculation show ?thesis by simp
qed

text \<open>Signed integers on the wire: decoding what \<^verbatim>\<open>EncodeVarInt\<close> wrote gives the value back for every
  32-bit value, and the number of octets is the one that \<^verbatim>\<open>GetIntLen\<close> announces.\<close>

theorem EncodeVarInt_correct:
  "DecodeVarInt (EncodeVarInt v) = v \<and> length (EncodeVarInt v) = GetIntLen (sint v)"
  by (simp add: length_EncodeVarInt)

end
