(* ===== verification/Tags.thy ===== *)
theory Tags
  imports Integers
begin

text \<open>
  BACnet tag headers, \<^verbatim>\<open>bacnet/types/tag.go\<close>.  \<^verbatim>\<open>encodeTag\<close> returns the header bytes; its nil result
  (a length outside the unsigned 32-bit range) is the empty list, which is what the callers then write.
  \<^verbatim>\<open>DecodeTag\<close> returns the receiver's new value together with the header length, zero for a truncated
  header.  The tag pool hands out zeroed tags, so \<^verbatim>\<open>GetTag\<close> is \<open>Tag_zero\<close>.
\<close>

record Tag =
  TagNumber :: u8
  LenValue :: int
  Context :: bool
  Extended :: bool
  Opening :: bool
  Closing :: bool

definition Tag_zero :: Tag where
  "Tag_zero = \<lparr>TagNumber = 0, LenValue = 0, Context = False, Extended = False,
     Opening = False, Closing = False\<rparr>"

definition Is :: "Tag \<Rightarrow> u8 \<Rightarrow> bool" where
  "Is ct n = (TagNumber ct = n)"

definition IsContext :: "Tag \<Rightarrow> u8 \<Rightarrow> bool" where
  "IsContext ct n = (Context ct \<and> Is ct n)"

definition Isnt :: "Tag \<Rightarrow> u8 \<Rightarrow> bool" where
  "Isnt ct n = (TagNumber ct \<noteq> n)"

definition encodeTag :: "Tag \<Rightarrow> u8 \<Rightarrow> bool \<Rightarrow> bytes" where
  "encodeTag ct first constructed =
     (let b0 = (if TagNumber ct \<le> 14 then first OR push_bit 4 (TagNumber ct) else first OR 0xf0);
          ext = (if TagNumber ct \<le> 14 then [] else [TagNumber ct]);
          len = LenValue ct
      in if constructed then b0 # ext
         else if len < 0 \<or> len > 4294967295 then []
         else if len \<le> 4 then (b0 OR word_of_int len) # ext
         else if len \<le> 253 then (b0 OR 5) # ext @ [word_of_int len]
         else if len \<le> 65535 then
           (b0 OR 5) # ext @ [254, word_of_int (drop_bit 8 len), word_of_int len]
         else (let value = word_of_int len :: u32 in
           (b0 OR 5) # ext @ [255, ucast (drop_bit 24 value), ucast (drop_bit 16 value),
             ucast (drop_bit 8 value), ucast value]))"

definition EncodeOpeningTag :: "Tag \<Rightarrow> bytes" where
  "EncodeOpeningTag ct = encodeTag ct (0x08 OR 6) True"

definition EncodeClosingTag :: "Tag \<Rightarrow> bytes" where
  "EncodeClosingTag ct = encodeTag ct (0x08 OR 7) True"

definition EncodeContextTag :: "Tag \<Rightarrow> bytes" where
  "EncodeContextTag ct = encodeTag ct 0x08 False"

definition EncodeTag :: "Tag \<Rightarrow> bytes" where
  "EncodeTag ct = encodeTag ct 0 False"

text \<open>The second half of \<^verbatim>\<open>DecodeTag\<close>: the switch on the low three bits, at position \<open>index\<close>.\<close>

definition DecodeTagLength :: "bytes \<Rightarrow> u8 \<Rightarrow> Tag \<Rightarrow> nat \<Rightarrow> Tag \<times> nat" where
  "DecodeTagLength b first ct index =
     (let k = first AND 0x07 in
      if k = 5 then
        (let ct = ct\<lparr>Extended := True\<rparr> in
         if length b \<le> index then (Tag_zero, 0)
         else (let marker = b ! index; index = index + 1 in
           if marker = 255 then
             (if int (length b) - int index < 4 then (Tag_zero, 0)
              else (ct\<lparr>LenValue := uint (push_bit 24 (ucast (b ! index)) OR
                        push_bit 16 (ucast (b ! (index + 1))) OR
                        push_bit 8 (ucast (b ! (index + 2))) OR ucast (b ! (index + 3)) :: u32)\<rparr>,
                    index + 4))
           else if marker = 254 then
             (if int (length b) - int index < 2 then (Tag_zero, 0)
              else (ct\<lparr>LenValue := uint (push_bit 8 (ucast (b ! index)) OR
                        ucast (b ! (index + 1)) :: u16)\<rparr>, index + 2))
           else (ct\<lparr>LenValue := uint marker\<rparr>, index)))
      else if k = 6 then (ct\<lparr>Opening := True\<rparr>, index)
      else if k = 7 then (ct\<lparr>Closing := True\<rparr>, index)
      else (ct\<lparr>LenValue := uint (first AND 0x07)\<rparr>, index))"

definition DecodeTag :: "bytes \<Rightarrow> Tag \<times> nat" where
  "DecodeTag b =
     (if b = [] then (Tag_zero, 0)
      else (let first = b ! 0; ct = Tag_zero\<lparr>Context := (first AND 8 \<noteq> 0)\<rparr> in
        if first AND 0xf0 = 0xf0 then
          (if length b \<le> 1 then (Tag_zero, 0)
           else DecodeTagLength b first (ct\<lparr>TagNumber := b ! 1, Extended := True\<rparr>) 2)
        else DecodeTagLength b first (ct\<lparr>TagNumber := drop_bit 4 first\<rparr>) 1))"

section \<open>Encoding and decoding headers\<close>

lemma hi_nibble: "(x::u8) AND 0xf0 = push_bit 4 (drop_bit 4 x)"
proof (rule bit_word_eqI)
  fix n :: nat assume "n < LENGTH(8)"
  then have n: "n < 8" by simp
  have "(0xf0 :: u8) = push_bit 4 (mask 4)" by (simp add: mask_eq_exp_minus_1)
  then have "bit (0xf0 :: u8) n = bit (push_bit 4 (mask 4) :: u8) n" by (rule arg_cong)
  also have "\<dots> = (4 \<le> n)" using n by (auto simp: bit_push_bit_iff bit_mask_iff)
  finally show "bit (x AND 0xf0) n = bit (push_bit 4 (drop_bit 4 x)) n"
    using n by (auto simp: bit_and_iff bit_push_bit_iff bit_drop_bit_eq)
qed

lemma nibbles:
  assumes "unat t < 16" "unat f < 16"
  shows "drop_bit 4 (f OR push_bit 4 t) = (t::u8)"
    and "(f OR push_bit 4 t) AND 7 = f AND 7"
    and "(f OR push_bit 4 t) AND 8 = f AND 8"
    and "t \<le> 14 \<Longrightarrow> (f OR push_bit 4 t) AND 0xf0 \<noteq> 0xf0"
proof -
  have t: "take_bit 4 t = t" and f: "take_bit 4 f = f" using assms by (simp_all add: take_bit_small)
  have tb: "bit t n \<Longrightarrow> n < 4" and fb: "bit f n \<Longrightarrow> n < 4" for n
    using t f by (metis bit_take_bit_iff)+
  show d: "drop_bit 4 (f OR push_bit 4 t) = t"
    by (rule bit_word_eqI) (auto simp: bit_simps dest: tb fb)
  have 7: "(7::u8) = mask 3" by (simp add: mask_eq_exp_minus_1)
  have 8: "bit (8::u8) n = (n = 3)" for n
  proof -
    have "bit (8::u8) n = bit (2 ^ 3 :: u8) n" by (rule arg_cong) simp
    then show ?thesis by (simp only: bit_exp_iff possible_bit_word) auto
  qed
  show "(f OR push_bit 4 t) AND 7 = f AND 7"
    unfolding 7 by (rule bit_word_eqI) (auto simp: bit_simps)
  show "(f OR push_bit 4 t) AND 8 = f AND 8"
  proof (rule bit_word_eqI)
    fix n :: nat
    show "bit ((f OR push_bit 4 t) AND 8) n = bit (f AND 8) n"
      by (cases "n = 3") (simp_all only: bit_and_iff bit_or_iff bit_push_bit_iff 8, simp_all)
  qed
  show "(f OR push_bit 4 t) AND 0xf0 \<noteq> 0xf0" if "t \<le> 14"
  proof
    assume "(f OR push_bit 4 t) AND 0xf0 = 0xf0"
    then have "push_bit 4 t = (0xf0::u8)" by (simp only: hi_nibble d)
    then have "drop_bit 4 (push_bit 4 t) = (15::u8)" by simp
    moreover have "drop_bit 4 (push_bit 4 t) = t"
      by (rule bit_word_eqI) (auto simp: bit_simps dest: tb)
    ultimately show False using that by simp
  qed
qed


text \<open>What \<^verbatim>\<open>DecodeTag\<close> makes of a header that the encoder wrote.\<close>

definition decoded_tag :: "u8 \<Rightarrow> int \<Rightarrow> bool \<Rightarrow> bool \<Rightarrow> bool \<Rightarrow> Tag" where
  "decoded_tag n len ctx opn cls =
     \<lparr>TagNumber = n, LenValue = len, Context = ctx, Extended = (14 < n \<or> 4 < len),
       Opening = opn, Closing = cls\<rparr>"

lemma decoded_tag_sel [simp]:
  "TagNumber (decoded_tag n len ctx opn cls) = n"
  "LenValue (decoded_tag n len ctx opn cls) = len"
  "Context (decoded_tag n len ctx opn cls) = ctx"
  "Opening (decoded_tag n len ctx opn cls) = opn"
  "Closing (decoded_tag n len ctx opn cls) = cls"
  "IsContext (decoded_tag n len ctx opn cls) m = (ctx \<and> n = m)"
  by (simp_all add: decoded_tag_def IsContext_def Is_def)

lemma uint_word_of_int_len:
  "0 \<le> len \<Longrightarrow> len \<le> 4294967295 \<Longrightarrow> uint (word_of_int len :: u32) = len"
  "0 \<le> len \<Longrightarrow> len \<le> 65535 \<Longrightarrow> uint (word_of_int len :: u16) = len"
  "0 \<le> len \<Longrightarrow> len \<le> 255 \<Longrightarrow> uint (word_of_int len :: u8) = len"
  by (simp_all add: uint_word_of_int)


text \<open>The first octet with its tag-number extension, for a low nibble \<open>f\<close>.\<close>

definition tag_head :: "u8 \<Rightarrow> u8 \<Rightarrow> bytes" where
  "tag_head f n = (if n \<le> 14 then [f OR push_bit 4 n] else [f OR 0xf0, n])"

lemma tag_head_nth:
  "i = length (tag_head f n) + k \<Longrightarrow> (tag_head f n @ ys) ! i = ys ! k"
  by (simp add: nth_append)

lemma length_tag_head: "length (tag_head f n) = (if n \<le> 14 then 1 else 2)"
  by (simp add: tag_head_def)

lemma encodeTag_head:
  "encodeTag ct f True = tag_head f (TagNumber ct)"
  "0 \<le> LenValue ct \<Longrightarrow> LenValue ct \<le> 4 \<Longrightarrow>
     encodeTag ct f False = tag_head (f OR word_of_int (LenValue ct)) (TagNumber ct)"
  "5 \<le> LenValue ct \<Longrightarrow> LenValue ct \<le> 253 \<Longrightarrow>
     encodeTag ct f False = tag_head (f OR 5) (TagNumber ct) @ [word_of_int (LenValue ct)]"
  "254 \<le> LenValue ct \<Longrightarrow> LenValue ct \<le> 65535 \<Longrightarrow>
     encodeTag ct f False = tag_head (f OR 5) (TagNumber ct) @ 254 # PutUint16 (word_of_int (LenValue ct))"
  "65536 \<le> LenValue ct \<Longrightarrow> LenValue ct \<le> 4294967295 \<Longrightarrow>
     encodeTag ct f False = tag_head (f OR 5) (TagNumber ct) @ 255 # PutUint32 (word_of_int (LenValue ct))"
proof -
  have d8: "word_of_int (drop_bit 8 len) = (ucast (drop_bit 8 (word_of_int len :: u16)) :: u8)"
    if "0 \<le> len" "len \<le> 65535" for len
    by (rule bit_word_eqI) (auto simp: bit_simps)
  have d0: "word_of_int len = (ucast (word_of_int len :: u16) :: u8)" for len
    by (rule bit_word_eqI) (auto simp: bit_simps)
  show "254 \<le> LenValue ct \<Longrightarrow> LenValue ct \<le> 65535 \<Longrightarrow>
     encodeTag ct f False = tag_head (f OR 5) (TagNumber ct) @ 254 # PutUint16 (word_of_int (LenValue ct))"
    by (auto simp: encodeTag_def tag_head_def Let_def PutUint16_def ac_simps simp flip: d8 d0)
qed (auto simp: encodeTag_def tag_head_def Let_def ac_simps PutUint32_def)

lemma DecodeTag_head:
  assumes "unat f < 16"
  shows "DecodeTag (tag_head f n @ rest)
     = DecodeTagLength (tag_head f n @ rest) f
         (Tag_zero\<lparr>Context := (f AND 8 \<noteq> 0), TagNumber := n, Extended := 14 < n\<rparr>) (length (tag_head f n))"
proof (cases "n \<le> 14")
  case True
  then have "unat n < 16" by (simp add: word_le_nat_alt)
  note nb = nibbles [OF this assms]
  have "DecodeTagLength b (f OR push_bit 4 n) = DecodeTagLength b f" for b
    by (rule ext)+ (simp add: DecodeTagLength_def nb Let_def)
  moreover have "\<not> 14 < n" using True by (simp add: linorder_not_less)
  ultimately show ?thesis using True nb by (simp add: DecodeTag_def tag_head_def Tag_zero_def)
next
  case False
  have nb: "(f OR 0xf0) AND 0xf0 = 0xf0" "(f OR 0xf0) AND 7 = f AND 7" "(f OR 0xf0) AND 8 = f AND 8"
    by (simp_all add: bit.conj_disj_distrib2)
  have "DecodeTagLength b (f OR 0xf0) = DecodeTagLength b f" for b
    by (rule ext)+ (simp add: DecodeTagLength_def nb Let_def)
  moreover have "14 < n" using False by simp
  ultimately show ?thesis using False nb
    by (simp add: DecodeTag_def tag_head_def numeral_2_eq_2 del: not_le linorder_not_le)
qed

lemma DecodeTag_open_close:
  "DecodeTag (EncodeOpeningTag ct @ rest)
     = (decoded_tag (TagNumber ct) 0 True True False, length (EncodeOpeningTag ct))"
  "DecodeTag (EncodeClosingTag ct @ rest)
     = (decoded_tag (TagNumber ct) 0 True False True, length (EncodeClosingTag ct))"
  by (simp_all add: EncodeOpeningTag_def EncodeClosingTag_def encodeTag_head DecodeTag_head
      DecodeTagLength_def decoded_tag_def Tag_zero_def)

lemma DecodeTag_primitive:
  assumes "0 \<le> LenValue ct" "LenValue ct \<le> 4294967295" "f = 0 \<or> f = 8"
  shows "DecodeTag (encodeTag ct f False @ rest)
     = (decoded_tag (TagNumber ct) (LenValue ct) (f = 8) False False, length (encodeTag ct f False))"
proof -
  let ?len = "LenValue ct" and ?n = "TagNumber ct"
  consider "0 \<le> ?len" "?len \<le> 4" | "5 \<le> ?len" "?len \<le> 253" | "254 \<le> ?len" "?len \<le> 65535"
    | "65536 \<le> ?len" "?len \<le> 4294967295"
    using assms by linarith
  then show ?thesis
  proof cases
    case 1
    then have "?len = 0 \<or> ?len = 1 \<or> ?len = 2 \<or> ?len = 3 \<or> ?len = 4" by linarith
    with assms(3) show ?thesis
      by (auto simp: encodeTag_head DecodeTag_head DecodeTagLength_def decoded_tag_def Tag_zero_def)
  next
    case 2
    then have "word_of_int ?len \<noteq> (255::u8)" "word_of_int ?len \<noteq> (254::u8)"
      using uint_word_of_int_len(3) [of ?len] by (auto simp: word_uint_eq_iff)
    with 2 assms(3) show ?thesis
      by (auto simp: encodeTag_head DecodeTag_head DecodeTagLength_def decoded_tag_def Tag_zero_def
        Let_def uint_word_of_int_len)
  next
    case 3
    have "BE_Uint16 (PutUint16 (word_of_int ?len)) = word_of_int ?len" by simp
    then have "push_bit 8 (ucast (PutUint16 (word_of_int ?len) ! 0)) OR
        ucast (PutUint16 (word_of_int ?len) ! 1) = (word_of_int ?len :: u16)"
      by (simp add: BE_Uint16_def or.commute)
    with 3 assms(3) show ?thesis
      by (auto simp: encodeTag_head DecodeTag_head DecodeTagLength_def decoded_tag_def Tag_zero_def
        Let_def nth_append uint_word_of_int_len)
  next
    case 4
    have "BE_Uint32 (PutUint32 (word_of_int ?len)) = word_of_int ?len" by simp
    then have "push_bit 24 (ucast (PutUint32 (word_of_int ?len) ! 0)) OR
        push_bit 16 (ucast (PutUint32 (word_of_int ?len) ! 1)) OR
        push_bit 8 (ucast (PutUint32 (word_of_int ?len) ! 2)) OR
        ucast (PutUint32 (word_of_int ?len) ! 3) = (word_of_int ?len :: u32)"
      by (simp add: BE_Uint32_def ac_simps)
    with 4 assms(3) show ?thesis
      by (auto simp: encodeTag_head DecodeTag_head DecodeTagLength_def decoded_tag_def Tag_zero_def
        Let_def nth_append uint_word_of_int_len)
  qed
qed

lemma DecodeTag_EncodeContextTag:
  assumes "0 \<le> LenValue ct" "LenValue ct \<le> 4294967295"
  shows "DecodeTag (EncodeContextTag ct @ rest)
     = (decoded_tag (TagNumber ct) (LenValue ct) True False False, length (EncodeContextTag ct))"
  unfolding EncodeContextTag_def using assms by (subst DecodeTag_primitive) auto

lemma DecodeTag_EncodeTag:
  assumes "0 \<le> LenValue ct" "LenValue ct \<le> 4294967295"
  shows "DecodeTag (EncodeTag ct @ rest)
     = (decoded_tag (TagNumber ct) (LenValue ct) False False False, length (EncodeTag ct))"
  unfolding EncodeTag_def using assms by (subst DecodeTag_primitive) auto

lemma length_encodeTag:
  assumes "constructed \<or> 0 \<le> LenValue ct \<and> LenValue ct \<le> 4294967295"
  shows "0 < length (encodeTag ct f constructed)" "length (encodeTag ct f constructed) \<le> 7"
  using assms by (auto simp: encodeTag_def Let_def)

definition tag_wf :: "Tag \<Rightarrow> bool" where
  "tag_wf t \<longleftrightarrow> 0 \<le> LenValue t \<and> LenValue t \<le> 4294967295 \<and> \<not> (Opening t \<and> Closing t)
     \<and> (Opening t \<or> Closing t \<longrightarrow> LenValue t = 0)"

lemma uint_bounds:
  "uint (w::u8) \<le> 255" "uint (x::u16) \<le> 65535" "uint (y::u32) \<le> 4294967295"
  using uint_bounded [of w] uint_bounded [of x] uint_bounded [of y] by simp_all

lemma DecodeTagLength_bounds:
  assumes "DecodeTagLength b first ct index = (t, h)" "index \<le> length b" "index \<le> 2" "0 < index"
    and "LenValue ct = 0" "\<not> Opening ct" "\<not> Closing ct"
  shows "tag_wf t" "h \<le> length b" "h \<le> 7" "h = 0 \<longrightarrow> t = Tag_zero"
proof -
  have z: "tag_wf Tag_zero" by (simp add: tag_wf_def Tag_zero_def)
  have u: "uint w \<le> 4294967295" for w :: u8 using uint_bounds(1) [of w] by linarith
  have u2: "uint w \<le> 4294967295" for w :: u16 using uint_bounds(2) [of w] by linarith
  have "tag_wf t \<and> h \<le> length b \<and> h \<le> 7 \<and> (h = 0 \<longrightarrow> t = Tag_zero)"
  proof (cases "first AND 7 = 5 \<and> index < length b")
    case False
    with assms z u show ?thesis
      by (auto simp: DecodeTagLength_def Let_def tag_wf_def split: if_splits)
  next
    case True
    then show ?thesis
      using assms z uint_bounds u u2
      by (auto simp: DecodeTagLength_def Let_def tag_wf_def simp del: of_nat_Suc split: if_splits)
  qed
  then show "tag_wf t" "h \<le> length b" "h \<le> 7" "h = 0 \<longrightarrow> t = Tag_zero" by blast+
qed

lemma DecodeTag_unfold:
  assumes "b \<noteq> []" "b ! 0 AND 0xf0 = 0xf0 \<longrightarrow> 1 < length b"
  shows "DecodeTag b = DecodeTagLength b (b ! 0)
    (Tag_zero\<lparr>Context := (b ! 0 AND 8 \<noteq> 0),
       TagNumber := (if b ! 0 AND 0xf0 = 0xf0 then b ! 1 else drop_bit 4 (b ! 0)),
       Extended := (b ! 0 AND 0xf0 = 0xf0)\<rparr>)
    (if b ! 0 AND 0xf0 = 0xf0 then 2 else 1)"
  using assms by (auto simp: DecodeTag_def Let_def Tag_zero_def)

lemma DecodeTag_fail:
  "b = [] \<or> (b ! 0 AND 0xf0 = 0xf0 \<and> length b \<le> 1) \<Longrightarrow> DecodeTag b = (Tag_zero, 0)"
  by (auto simp: DecodeTag_def Let_def)

lemma DecodeTag_bounds:
  assumes "DecodeTag b = (t, h)"
  shows "tag_wf t" "h \<le> length b" "h \<le> 7" "h = 0 \<longrightarrow> t = Tag_zero"
proof -
  have z: "tag_wf Tag_zero" by (simp add: tag_wf_def Tag_zero_def)
  have "tag_wf t \<and> h \<le> length b \<and> h \<le> 7 \<and> (h = 0 \<longrightarrow> t = Tag_zero)"
  proof (cases "b = [] \<or> (b ! 0 AND 0xf0 = 0xf0 \<and> length b \<le> 1)")
    case True
    with assms z DecodeTag_fail [of b] show ?thesis by simp
  next
    case False
    then have ne: "b \<noteq> []" "b ! 0 AND 0xf0 = 0xf0 \<longrightarrow> 1 < length b" by auto
    then have i: "(if b ! 0 AND 0xf0 = 0xf0 then 2 else 1) \<le> length b"
      by (auto simp: Suc_le_eq)
    have i2: "(if b ! 0 AND 0xf0 = 0xf0 then 2 else 1) \<le> (2::nat)"
      "0 < (if b ! 0 AND 0xf0 = 0xf0 then 2 else (1::nat))" by simp_all
    show ?thesis
      using DecodeTagLength_bounds [OF assms [unfolded DecodeTag_unfold [OF ne]] i i2]
      by (simp add: Tag_zero_def)
  qed
  then show "tag_wf t" "h \<le> length b" "h \<le> 7" "h = 0 \<longrightarrow> t = Tag_zero" by blast+
qed

lemma DecodeTagLength_append:
  assumes "DecodeTagLength b f ct i = (t, h)" "0 < h" "i \<le> length b"
  shows "DecodeTagLength (b @ rest) f ct i = (t, h)"
proof (cases "f AND 7 = 5")
  case False
  with assms show ?thesis by (simp add: DecodeTagLength_def Let_def split: if_splits)
next
  case True
  with assms(1,2) have i: "i < length b" by (simp add: DecodeTagLength_def Let_def split: if_splits)
  consider "b ! i = 255" | "b ! i = 254" | "b ! i \<noteq> 255" "b ! i \<noteq> 254" by blast
  then show ?thesis
  proof cases
    case 1
    with True assms(1,2) i have "i + 4 < length b" by (simp add: DecodeTagLength_def Let_def split: if_splits)
    with 1 True assms(1) i show ?thesis by (simp add: DecodeTagLength_def Let_def nth_append)
  next
    case 2
    with True assms(1,2) i have "i + 2 < length b" by (simp add: DecodeTagLength_def Let_def split: if_splits)
    with 2 True assms(1) i show ?thesis by (simp add: DecodeTagLength_def Let_def nth_append)
  next
    case 3
    with True assms(1) i show ?thesis by (simp add: DecodeTagLength_def Let_def nth_append)
  qed
qed

lemma DecodeTag_append:
  assumes "DecodeTag b = (t, h)" "0 < h"
  shows "DecodeTag (b @ rest) = (t, h)"
proof -
  have ne: "b \<noteq> []" "b ! 0 AND 0xf0 = 0xf0 \<longrightarrow> 1 < length b"
  proof -
    have "\<not> (b = [] \<or> (b ! 0 AND 0xf0 = 0xf0 \<and> length b \<le> 1))"
    proof
      assume "b = [] \<or> (b ! 0 AND 0xf0 = 0xf0 \<and> length b \<le> 1)"
      from DecodeTag_fail [OF this] assms show False by simp
    qed
    then show "b \<noteq> []" "b ! 0 AND 0xf0 = 0xf0 \<longrightarrow> 1 < length b" by auto
  qed
  then have nth: "(b @ rest) ! 0 = b ! 0" "b ! 0 AND 0xf0 = 0xf0 \<longrightarrow> (b @ rest) ! 1 = b ! 1"
    by (auto simp: nth_append)
  have ne': "b @ rest \<noteq> []" "(b @ rest) ! 0 AND 0xf0 = 0xf0 \<longrightarrow> 1 < length (b @ rest)"
    using ne nth by auto
  have "(if b ! 0 AND 0xf0 = 0xf0 then 2 else 1) \<le> length b" using ne by (auto simp: Suc_le_eq)
  from DecodeTagLength_append [OF assms(1) [unfolded DecodeTag_unfold [OF ne]] assms(2) this, of rest]
  show ?thesis unfolding DecodeTag_unfold [OF ne'] using nth by (simp cong: if_cong)
qed

section \<open>Properties\<close>

text \<open>C36. Tags on the wire: \<^verbatim>\<open>DecodeTag\<close> reads back the number, the class and the length of a
  context or application tag, and the number of an opening or closing tag, for every tag number and every
  32-bit length, and consumes exactly the octets the encoder wrote, whatever follows.\<close>

theorem Tag_roundtrip:
  assumes "0 \<le> LenValue ct" "LenValue ct \<le> 4294967295"
  shows "DecodeTag (EncodeTag ct @ rest) = (decoded_tag (TagNumber ct) (LenValue ct) False False False, length (EncodeTag ct))
    \<and> DecodeTag (EncodeContextTag ct @ rest)
      = (decoded_tag (TagNumber ct) (LenValue ct) True False False, length (EncodeContextTag ct))
    \<and> DecodeTag (EncodeOpeningTag ct @ rest) = (decoded_tag (TagNumber ct) 0 True True False, length (EncodeOpeningTag ct))
    \<and> DecodeTag (EncodeClosingTag ct @ rest) = (decoded_tag (TagNumber ct) 0 True False True, length (EncodeClosingTag ct))"
  using DecodeTag_EncodeTag [OF assms] DecodeTag_EncodeContextTag [OF assms] DecodeTag_open_close by auto

theorem Tag_roundtrip_witness:
  "EncodeContextTag (Tag_zero\<lparr>TagNumber := 15, LenValue := 300\<rparr>) = [0xfd, 15, 254, 1, 44]
   \<and> DecodeTag [0xfd, 15, 254, 1, 44, 7] = (decoded_tag 15 300 True False False, 5)"
proof -
  have e: "EncodeContextTag (Tag_zero\<lparr>TagNumber := 15, LenValue := 300\<rparr>) = [0xfd, 15, 254, 1, 44]" by code_simp
  from Tag_roundtrip [of "Tag_zero\<lparr>TagNumber := 15, LenValue := 300\<rparr>" "[7]", unfolded e] e show ?thesis by simp
qed

text \<open>\<^verbatim>\<open>DecodeTag\<close> is safe on arbitrary octets: it never claims more octets than there are and at most
  seven, the tag it reports is well formed, it consumes nothing only when it also yields the zero tag, and a tag
  it did read does not change when more octets follow.\<close>

theorem DecodeTag_safe:
  assumes "DecodeTag b = (t, h)"
  shows "tag_wf t \<and> h \<le> length b \<and> h \<le> 7 \<and> (h = 0 \<longrightarrow> t = Tag_zero)
    \<and> (0 < h \<longrightarrow> DecodeTag (b @ rest) = (t, h))"
  using DecodeTag_bounds [OF assms] DecodeTag_append [OF assms] by auto

theorem DecodeTag_safe_witness:
  "DecodeTag [0x1a, 1, 2] = (decoded_tag 1 2 True False False, 1) \<and> DecodeTag [0x1a, 1, 2, 3] = (decoded_tag 1 2 True False False, 1)"
proof -
  have d: "DecodeTag [0x1a, 1, 2] = (decoded_tag 1 2 True False False, 1)" by code_simp
  from DecodeTag_safe [OF d, of "[3]"] d show ?thesis by simp
qed

end
