(* ===== verification/Primitives.thy ===== *)
theory Primitives
  imports Tags
begin

text \<open>
  The primitive application types of \<^verbatim>\<open>bacnet/types\<close>: \<^verbatim>\<open>object_id.go\<close>, \<^verbatim>\<open>real.go\<close>, \<^verbatim>\<open>double.go\<close>,
  \<^verbatim>\<open>character_string.go\<close>, \<^verbatim>\<open>bit_string.go\<close>, \<^verbatim>\<open>date.go\<close>, \<^verbatim>\<open>time.go\<close>, \<^verbatim>\<open>max_apdu.go\<close>, \<^verbatim>\<open>max_segments.go\<close>.
  A float is its IEEE bit pattern, which is what \<^verbatim>\<open>math.Float32bits\<close> and \<^verbatim>\<open>math.Float32frombits\<close> expose;
  a Go string is its bytes.  A nil slice and an empty one are both \<open>[]\<close>: the decoders reject both.
\<close>

section \<open>object\_id.go\<close>

definition BacnetMaxInstance :: u32 where "BacnetMaxInstance = 0x3FFFFF"
definition BacnetMaxObject :: u32 where "BacnetMaxObject = 0x3FF"

record ObjectId =
  oid_Type :: u16
  oid_Instance :: u16
  extendedInstance :: u32

definition ObjectId_zero :: ObjectId where
  "ObjectId_zero = \<lparr>oid_Type = 0, oid_Instance = 0, extendedInstance = 0\<rparr>"

definition InstanceNumber :: "ObjectId \<Rightarrow> u32" where
  "InstanceNumber o1 =
     (if extendedInstance o1 \<noteq> 0 \<and> ucast (extendedInstance o1) = oid_Instance o1
      then extendedInstance o1 else ucast (oid_Instance o1))"

definition SetInstanceNumber :: "ObjectId \<Rightarrow> u32 \<Rightarrow> ObjectId result" where
  "SetInstanceNumber o1 inst =
     (if inst > BacnetMaxInstance then Inl (Err ''object instance %d exceeds %d'')
      else Inr (o1\<lparr>oid_Instance := ucast inst,
                   extendedInstance := (if inst > 65535 then inst else 0)\<rparr>))"

definition ObjectId_MarshalBinary :: "ObjectId \<Rightarrow> bytes" where
  "ObjectId_MarshalBinary o1 =
     (let val = ucast (oid_Type o1) AND BacnetMaxObject;
          val = push_bit 22 val;
          val = val OR (InstanceNumber o1 AND BacnetMaxInstance)
      in Uint32_MarshalBinary val)"

definition ObjectId_UnmarshalBinary :: "ObjectId \<Rightarrow> bytes \<Rightarrow> ObjectId result" where
  "ObjectId_UnmarshalBinary o1 b =
     (if length b \<noteq> 4 then Inl (Err ''object identifier expects exactly 4 octets'')
      else bind_res (Uint32_UnmarshalBinary b) (\<lambda>v.
        SetInstanceNumber (o1\<lparr>oid_Type := ucast (drop_bit 22 v AND BacnetMaxObject)\<rparr>)
          (v AND BacnetMaxInstance)))"

section \<open>real.go and double.go\<close>

definition Real_MarshalBinary :: "u32 \<Rightarrow> bytes" where
  "Real_MarshalBinary r = PutUint32 r"

definition Real_UnmarshalBinary :: "bytes \<Rightarrow> u32 result" where
  "Real_UnmarshalBinary b =
     (if length b \<noteq> 4 then Inl (Err ''real expects 4 octets'') else Inr (BE_Uint32 b))"

definition Double_MarshalBinary :: "u64 \<Rightarrow> bytes" where
  "Double_MarshalBinary d = PutUint64 d"

definition Double_UnmarshalBinary :: "bytes \<Rightarrow> u64 result" where
  "Double_UnmarshalBinary b =
     (if length b \<noteq> 8 then Inl (Err ''double expects 8 octets'') else Inr (BE_Uint64 b))"

section \<open>character\_string.go and bit\_string.go\<close>

record CharacterString =
  cs_Value :: bytes
  cs_Encoding :: u8

definition CharacterString_Length :: "CharacterString \<Rightarrow> nat" where
  "CharacterString_Length cs = length (cs_Value cs) + 1"

definition CharacterString_MarshalBinary :: "CharacterString \<Rightarrow> bytes" where
  "CharacterString_MarshalBinary cs = [cs_Encoding cs] @ cs_Value cs"

definition CharacterString_UnmarshalBinary :: "bytes \<Rightarrow> CharacterString result" where
  "CharacterString_UnmarshalBinary b =
     (if length b = 0 then Inl (Err ''received an empty byte slice'')
      else Inr \<lparr>cs_Value = drop 1 b, cs_Encoding = b ! 0\<rparr>)"

text \<open>\<^verbatim>\<open>bits.Reverse8\<close> is \<open>word_reverse\<close> at width 8.\<close>

definition Reverse8 :: "u8 \<Rightarrow> u8" where
  "Reverse8 x = word_reverse x"

definition BitString_MarshalBinary :: "bytes \<Rightarrow> bytes" where
  "BitString_MarshalBinary bs = 0 # map Reverse8 bs"

definition BitString_UnmarshalBinary :: "bytes \<Rightarrow> bytes result" where
  "BitString_UnmarshalBinary b =
     (if length b = 0 then Inl (Err ''received an empty byte slice'')
      else if b ! 0 > 7 then Inl (Err ''bit string unused-bit count exceeds seven'')
      else Inr (map Reverse8 (drop 1 b)))"

section \<open>date.go and time.go\<close>

record Date =
  d_Year :: u16
  d_Month :: u8
  d_Day :: u8
  d_Weekday :: u8

definition Date_MarshalBinary :: "Date \<Rightarrow> bytes" where
  "Date_MarshalBinary d = [ucast (d_Year d - 1900), d_Month d, d_Day d, d_Weekday d]"

definition Date_UnmarshalBinary :: "bytes \<Rightarrow> Date result" where
  "Date_UnmarshalBinary b =
     (if length b \<noteq> 4 then Inl (Err ''date expects 4 octets'')
      else Inr \<lparr>d_Year = ucast (b ! 0) + 1900, d_Month = b ! 1, d_Day = b ! 2, d_Weekday = b ! 3\<rparr>)"

record Time =
  t_Hour :: u8
  t_Min :: u8
  t_Sec :: u8
  t_Hundredths :: u8

definition Time_MarshalBinary :: "Time \<Rightarrow> bytes" where
  "Time_MarshalBinary t = [t_Hour t, t_Min t, t_Sec t, t_Hundredths t]"

definition Time_UnmarshalBinary :: "bytes \<Rightarrow> Time result" where
  "Time_UnmarshalBinary b =
     (if length b \<noteq> 4 then Inl (Err ''time binary must have 4 octets'')
      else Inr \<lparr>t_Hour = b ! 0, t_Min = b ! 1, t_Sec = b ! 2, t_Hundredths = b ! 3\<rparr>)"

section \<open>max\_apdu.go and max\_segments.go\<close>

definition MaxApduValue_UnmarshalBinary :: "bytes \<Rightarrow> u16 result" where
  "MaxApduValue_UnmarshalBinary b =
     (if length b \<noteq> 1 then Inl (Err ''maxApdu expects one octet'')
      else (let k = b ! 0 AND 0x0F in
        Inr (if k = 0 then 50 else if k = 1 then 128 else if k = 2 then 206 else if k = 3 then 480
             else if k = 4 then 1024 else if k = 5 then 1476 else 0)))"

definition MaxSegments_UnmarshalBinary :: "bytes \<Rightarrow> u8 result" where
  "MaxSegments_UnmarshalBinary b =
     (if length b \<noteq> 1 then Inl (Err ''max segments expects exactly 1 octet'')
      else (let k = b ! 0 AND 0xF0 in
        Inr (if k = 0 then 0 else if k = 0x10 then 2 else if k = 0x20 then 4 else if k = 0x30 then 8
             else if k = 0x40 then 16 else if k = 0x50 then 32 else if k = 0x60 then 64
             else if k = 0x70 then 65 else 0)))"

section \<open>Round trips of the primitive types\<close>

text \<open>
  An object identifier the wire can carry: a 10-bit type and a 22-bit instance, with the instance
  represented the way \<^verbatim>\<open>SetInstanceNumber\<close> leaves it.
\<close>

definition oid_wf :: "ObjectId \<Rightarrow> bool" where
  "oid_wf o1 \<longleftrightarrow> ucast (oid_Type o1) \<le> BacnetMaxObject \<and> InstanceNumber o1 \<le> BacnetMaxInstance
     \<and> (extendedInstance o1 = 0
        \<or> extendedInstance o1 > 65535 \<and> ucast (extendedInstance o1) = oid_Instance o1)"

lemma SetInstanceNumber_eq:
  assumes "inst \<le> BacnetMaxInstance"
  shows "\<exists>o2. SetInstanceNumber o1 inst = Inr o2 \<and> InstanceNumber o2 = inst \<and> oid_Type o2 = oid_Type o1"
proof -
  have s: "(ucast (ucast inst :: u16) :: u32) = inst" if "\<not> inst > 65535"
    using that ucast_ucast_small(1) [of inst] by (simp add: word_le_nat_alt not_less)
  show ?thesis
    using assms s by (auto simp: SetInstanceNumber_def InstanceNumber_def not_less)
qed

lemma SetInstanceNumber_wf:
  assumes "SetInstanceNumber o1 inst = Inr o2" "ucast (oid_Type o1) \<le> BacnetMaxObject"
  shows "oid_wf o2" "InstanceNumber o2 = inst"
proof -
  have i: "inst \<le> BacnetMaxInstance" using assms(1) by (auto simp: SetInstanceNumber_def split: if_splits)
  with SetInstanceNumber_eq [of inst o1] assms(1)
  show n: "InstanceNumber o2 = inst" by auto
  have "o2 = o1\<lparr>oid_Instance := ucast inst, extendedInstance := (if inst > 65535 then inst else 0)\<rparr>"
    using assms(1) i by (simp add: SetInstanceNumber_def not_less [symmetric])
  then have "oid_Type o2 = oid_Type o1" "extendedInstance o2 = 0
      \<or> extendedInstance o2 > 65535 \<and> ucast (extendedInstance o2) = oid_Instance o2"
    by simp_all
  with assms(2) n i show "oid_wf o2" by (simp add: oid_wf_def)
qed

lemma ObjectId_word_fields:
  fixes t i :: u32
  assumes "t \<le> 0x3FF" "i \<le> 0x3FFFFF"
  shows "drop_bit 22 (push_bit 22 t OR i) = t" "(push_bit 22 t OR i) AND 0x3FFFFF = i"
    "t AND 0x3FF = t" "i AND 0x3FFFFF = i"
proof -
  have m: "(0x3FF::u32) = mask 10" "(0x3FFFFF::u32) = mask 22" by (simp_all add: mask_eq_exp_minus_1)
  have t: "take_bit 10 t = t" and i: "take_bit 22 i = i"
    using assms by (simp_all add: take_bit_small word_le_nat_alt)
  have tb: "bit t n \<Longrightarrow> n < 10" and ib: "bit i n \<Longrightarrow> n < 22" for n
    using t i by (metis bit_take_bit_iff)+
  show "drop_bit 22 (push_bit 22 t OR i) = t"
    by (rule bit_word_eqI) (auto simp: bit_simps dest: tb ib)
  show "(push_bit 22 t OR i) AND 0x3FFFFF = i"
    unfolding m by (rule bit_word_eqI) (auto simp: bit_simps dest: tb ib)
  show "t AND 0x3FF = t" "i AND 0x3FFFFF = i"
    unfolding m using t i by (simp_all add: take_bit_eq_mask)
qed

lemma ucast_u16_u32 [simp]: "ucast (ucast (w::u16) :: u32) = w"
  by (rule bit_word_eqI) (simp add: bit_simps)

lemma ObjectId_roundtrip:
  assumes "oid_wf o1"
  shows "ObjectId_UnmarshalBinary o0 (ObjectId_MarshalBinary o1) = Inr o1"
proof -
  let ?t = "ucast (oid_Type o1) :: u32" and ?i = "InstanceNumber o1"
  have b: "?t \<le> 0x3FF" "?i \<le> 0x3FFFFF"
    using assms by (simp_all add: oid_wf_def BacnetMaxObject_def BacnetMaxInstance_def)
  note f = ObjectId_word_fields [OF b]
  have ii: "ucast ?i = oid_Instance o1" "(if ?i > 65535 then ?i else 0) = extendedInstance o1"
  proof -
    have "(ucast (oid_Instance o1) :: u32) \<le> 65535"
      using unat_less [of "oid_Instance o1"]
      by (simp add: word_le_nat_alt unsigned_ucast_eq take_bit_nat_eq_self)
    then show "ucast ?i = oid_Instance o1" "(if ?i > 65535 then ?i else 0) = extendedInstance o1"
      using assms by (auto simp: oid_wf_def InstanceNumber_def not_less)
  qed
  have "ObjectId_UnmarshalBinary o0 (ObjectId_MarshalBinary o1)
      = SetInstanceNumber (o0\<lparr>oid_Type := oid_Type o1\<rparr>) ?i"
    using f by (simp add: ObjectId_UnmarshalBinary_def ObjectId_MarshalBinary_def Uint32_MarshalBinary_def
        Uint32_UnmarshalBinary_def BacnetMaxObject_def BacnetMaxInstance_def)
  also have "\<dots> = Inr o1"
    using b ii by (simp add: SetInstanceNumber_def BacnetMaxInstance_def not_less [symmetric])
  finally show ?thesis .
qed

lemma length_ObjectId_MarshalBinary [simp]: "length (ObjectId_MarshalBinary o1) = 4"
  by (simp add: ObjectId_MarshalBinary_def Uint32_MarshalBinary_def Let_def)

lemma ObjectId_UnmarshalBinary_total:
  assumes "length b = 4"
  shows "\<exists>o2. ObjectId_UnmarshalBinary o1 b = Inr o2 \<and> oid_wf o2"
proof -
  let ?v = "BE_Uint32 b"
  let ?o = "o1\<lparr>oid_Type := ucast (drop_bit 22 ?v AND BacnetMaxObject)\<rparr>"
  have le: "?v AND BacnetMaxInstance \<le> BacnetMaxInstance" by (rule word_and_le1)
  have ty: "ucast (oid_Type ?o) \<le> BacnetMaxObject"
  proof -
    have "drop_bit 22 ?v AND BacnetMaxObject \<le> BacnetMaxObject" by (rule word_and_le1)
    then have "drop_bit 22 ?v AND BacnetMaxObject \<le> 1023" by (simp only: BacnetMaxObject_def)
    then have "unat (drop_bit 22 ?v AND BacnetMaxObject) < 2 ^ 16" by (simp add: word_le_nat_alt)
    then show ?thesis
      by (simp add: ucast_ucast_small(1) word_and_le1)
  qed
  from SetInstanceNumber_eq [OF le, of ?o]
  obtain o2 where o2: "SetInstanceNumber ?o (?v AND BacnetMaxInstance) = Inr o2" by blast
  have "oid_wf o2" by (rule SetInstanceNumber_wf(1) [OF o2 ty])
  with o2 show ?thesis
    using assms by (simp add: ObjectId_UnmarshalBinary_def Uint32_UnmarshalBinary_def)
qed

lemma Real_roundtrip [simp]: "Real_UnmarshalBinary (Real_MarshalBinary r) = Inr r"
  by (simp add: Real_UnmarshalBinary_def Real_MarshalBinary_def)

lemma Double_roundtrip [simp]: "Double_UnmarshalBinary (Double_MarshalBinary d) = Inr d"
  by (simp add: Double_UnmarshalBinary_def Double_MarshalBinary_def)

lemma CharacterString_roundtrip [simp]:
  "CharacterString_UnmarshalBinary (CharacterString_MarshalBinary cs) = Inr cs"
  by (simp add: CharacterString_UnmarshalBinary_def CharacterString_MarshalBinary_def)

lemma Reverse8_Reverse8 [simp]: "Reverse8 (Reverse8 x) = x"
  by (simp add: Reverse8_def)

lemma BitString_roundtrip [simp]: "BitString_UnmarshalBinary (BitString_MarshalBinary bs) = Inr bs"
  by (simp add: BitString_UnmarshalBinary_def BitString_MarshalBinary_def comp_def)

lemma Date_roundtrip:
  assumes "1900 \<le> d_Year d" "d_Year d \<le> 2155"
  shows "Date_UnmarshalBinary (Date_MarshalBinary d) = Inr d"
proof -
  have "unat (d_Year d - 1900) < 2 ^ 8"
    using assms by (simp add: unat_sub word_le_nat_alt)
  then have "(ucast (ucast (d_Year d - 1900) :: u8) :: u16) = d_Year d - 1900"
    by (simp add: ucast_byte take_bit_small)
  then show ?thesis by (simp add: Date_UnmarshalBinary_def Date_MarshalBinary_def)
qed

lemma Time_roundtrip [simp]: "Time_UnmarshalBinary (Time_MarshalBinary t) = Inr t"
  by (simp add: Time_UnmarshalBinary_def Time_MarshalBinary_def)

lemma length_primitives [simp]:
  "length (Real_MarshalBinary r) = 4" "length (Double_MarshalBinary x) = 8"
  "length (Date_MarshalBinary d) = 4" "length (Time_MarshalBinary t) = 4"
  "length (CharacterString_MarshalBinary cs) = CharacterString_Length cs"
  "length (BitString_MarshalBinary bs) = length bs + 1"
  by (simp_all add: Real_MarshalBinary_def Double_MarshalBinary_def Date_MarshalBinary_def
      Time_MarshalBinary_def CharacterString_MarshalBinary_def CharacterString_Length_def
      BitString_MarshalBinary_def)

lemma ObjectId_word_joined:
  fixes v :: u32
  shows "push_bit 22 (ucast (ucast (drop_bit 22 v AND 0x3FF) :: u16) AND 0x3FF) OR (v AND 0x3FFFFF) = v"
proof -
  have m: "(0x3FF::u32) = mask 10" "(0x3FFFFF::u32) = mask 22" by (simp_all add: mask_eq_exp_minus_1)
  show ?thesis unfolding m
    by (rule bit_word_eqI) (auto simp: bit_simps not_less le_iff_add add.commute)
qed

lemma ObjectId_octets:
  assumes "length b = 4"
  shows "\<exists>o2. ObjectId_UnmarshalBinary o1 b = Inr o2 \<and> oid_wf o2 \<and> ObjectId_MarshalBinary o2 = b"
proof -
  from assms obtain x y z w where b: "b = [x, y, z, w]" by (auto simp: length_Suc_conv numeral_eq_Suc)
  obtain o2 where o2: "ObjectId_UnmarshalBinary o1 b = Inr o2" "oid_wf o2"
    using ObjectId_UnmarshalBinary_total [OF assms] by blast
  let ?v = "BE_Uint32 b"
  have s: "SetInstanceNumber (o1\<lparr>oid_Type := ucast (drop_bit 22 ?v AND BacnetMaxObject)\<rparr>) (?v AND BacnetMaxInstance) = Inr o2"
    using o2(1) assms by (simp add: ObjectId_UnmarshalBinary_def Uint32_UnmarshalBinary_def split: if_splits)
  then have t: "oid_Type o2 = ucast (drop_bit 22 ?v AND BacnetMaxObject)"
    and i: "InstanceNumber o2 = ?v AND BacnetMaxInstance"
    using SetInstanceNumber_eq [of "?v AND BacnetMaxInstance" "o1\<lparr>oid_Type := ucast (drop_bit 22 ?v AND BacnetMaxObject)\<rparr>"]
    by (auto simp: SetInstanceNumber_def split: if_splits)
  have "ObjectId_MarshalBinary o2 = PutUint32 ?v"
    using ObjectId_word_joined [of ?v]
    by (simp add: ObjectId_MarshalBinary_def Uint32_MarshalBinary_def t i BacnetMaxObject_def BacnetMaxInstance_def Let_def and.assoc)
  with o2 show ?thesis by (auto simp: b PutUint32_BE)
qed

section \<open>Properties\<close>

text \<open>Object identifiers: every object type and every 22-bit instance number that
  \<^verbatim>\<open>SetInstanceNumber\<close> accepts survives the four octets of the wire, and four arbitrary octets always decode
  to a well-formed identifier that encodes back to the same octets.\<close>

theorem ObjectId_wire:
  "(SetInstanceNumber o1 inst = Inr o2 \<and> ucast (oid_Type o1) \<le> BacnetMaxObject \<longrightarrow>
     ObjectId_UnmarshalBinary o0 (ObjectId_MarshalBinary o2) = Inr o2 \<and> InstanceNumber o2 = inst)
   \<and> (length b = 4 \<longrightarrow> (\<exists>o3. ObjectId_UnmarshalBinary o0 b = Inr o3 \<and> oid_wf o3 \<and> ObjectId_MarshalBinary o3 = b))"
  using SetInstanceNumber_wf ObjectId_roundtrip ObjectId_octets by blast

theorem ObjectId_wire_witness:
  "\<exists>o3. SetInstanceNumber (ObjectId_zero\<lparr>oid_Type := 8\<rparr>) 4194302 = Inr o3 \<and> InstanceNumber o3 = 4194302
     \<and> ObjectId_UnmarshalBinary ObjectId_zero (ObjectId_MarshalBinary o3) = Inr o3"
proof -
  let ?o = "ObjectId_zero\<lparr>oid_Type := 8\<rparr>"
  let ?r = "?o\<lparr>oid_Instance := ucast (4194302 :: u32), extendedInstance := 4194302\<rparr>"
  have s: "SetInstanceNumber ?o 4194302 = Inr ?r" "ucast (oid_Type ?o) \<le> BacnetMaxObject"
    by (simp_all add: SetInstanceNumber_def BacnetMaxInstance_def BacnetMaxObject_def ObjectId_zero_def)
  from ObjectId_wire [of ?o 4194302 ?r ObjectId_zero "[]"] s show ?thesis by blast
qed

end
