(* ===== verification/Go_Float.thy ===== *)
theory Go_Float
  imports Integers
begin

text \<open>
  The IEEE 754 conversions behind Go's \<^verbatim>\<open>float32\<close> and \<^verbatim>\<open>float64\<close>: a float is its bit pattern, a finite
  one stands for \<open>\<plusminus> m * 2 ^ e\<close>, and the conversions round to nearest, ties to even.  They are the
  conversions \<^verbatim>\<open>reflect.Value.Convert\<close> performs for \<^verbatim>\<open>bacnet/types/property_value.go\<close> and the explicit
  conversions of \<^verbatim>\<open>simulator\<close>.  A conversion of a NaN keeps the upper payload bits and sets the quiet
  bit, and a float out of the integer range converts to the low bits of the indefinite integer, as on
  amd64 (the language leaves both open).
\<close>

datatype float_class =
    Finite bool nat int   \<comment> \<open>sign, significand, exponent of two\<close>
  | Infinite bool
  | NotANumber bool nat   \<comment> \<open>sign and fraction bits\<close>

fun bit_length :: "nat \<Rightarrow> nat" where
  "bit_length m = (if m = 0 then 0 else Suc (bit_length (m div 2)))"

declare bit_length.simps [simp del]

text \<open>
  A format has \<open>p\<close> significand bits (hidden bit included), the exponent of two \<open>emin\<close> of its
  smallest subnormal, and \<open>2 * bias + 1\<close> as its all-ones exponent field.
\<close>

record float_format =
  ff_p :: nat
  ff_emin :: int
  ff_expmax :: nat

definition binary32 :: float_format where
  "binary32 = \<lparr>ff_p = 24, ff_emin = -149, ff_expmax = 255\<rparr>"

definition binary64 :: float_format where
  "binary64 = \<lparr>ff_p = 53, ff_emin = -1074, ff_expmax = 2047\<rparr>"

definition classify :: "float_format \<Rightarrow> bool \<Rightarrow> nat \<Rightarrow> nat \<Rightarrow> float_class" where
  "classify ff s ex frac =
     (if ex = ff_expmax ff then (if frac = 0 then Infinite s else NotANumber s frac)
      else if ex = 0 then Finite s frac (ff_emin ff)
      else Finite s (2 ^ (ff_p ff - 1) + frac) (ff_emin ff + int ex - 1))"

definition classify32 :: "u32 \<Rightarrow> float_class" where
  "classify32 w = (let n = unat w in classify binary32 (n div 2 ^ 31 \<noteq> 0) (n div 2 ^ 23 mod 256) (n mod 2 ^ 23))"

definition classify64 :: "u64 \<Rightarrow> float_class" where
  "classify64 w = (let n = unat w in classify binary64 (n div 2 ^ 63 \<noteq> 0) (n div 2 ^ 52 mod 2048) (n mod 2 ^ 52))"

definition round_shift :: "nat \<Rightarrow> nat \<Rightarrow> nat" where
  "round_shift m k =
     (let q = m div 2 ^ k; r = m mod 2 ^ k in
      if 2 * r > 2 ^ k \<or> 2 * r = 2 ^ k \<and> odd q then q + 1 else q)"

text \<open>Exponent and fraction fields of \<open>m * 2 ^ e\<close> rounded to the format.\<close>

definition round_fields :: "float_format \<Rightarrow> nat \<Rightarrow> int \<Rightarrow> nat \<times> nat" where
  "round_fields ff m e =
     (if m = 0 then (0, 0)
      else (let p = ff_p ff;
                E = max (e + int (bit_length m) - int p) (ff_emin ff);
                q = (if E \<le> e then m * 2 ^ nat (e - E) else round_shift m (nat (E - e)));
                (q, E) = (if q = 2 ^ p then (2 ^ (p - 1), E + 1) else (q, E))
            in if q < 2 ^ (p - 1) then (0, q)
               else if E - ff_emin ff + 1 \<ge> int (ff_expmax ff) then (ff_expmax ff, 0)
               else (nat (E - ff_emin ff + 1), q - 2 ^ (p - 1))))"

definition compose32 :: "bool \<Rightarrow> nat \<times> nat \<Rightarrow> u32" where
  "compose32 s ef = word_of_nat ((if s then 2 ^ 31 else 0) + fst ef * 2 ^ 23 + snd ef)"

definition compose64 :: "bool \<Rightarrow> nat \<times> nat \<Rightarrow> u64" where
  "compose64 s ef = word_of_nat ((if s then 2 ^ 63 else 0) + fst ef * 2 ^ 52 + snd ef)"

definition Float64_of :: "float_class \<Rightarrow> u64" where
  "Float64_of c = (case c of
       Finite s m e \<Rightarrow> compose64 s (round_fields binary64 m e)
     | Infinite s \<Rightarrow> compose64 s (2047, 0)
     | NotANumber s f \<Rightarrow> compose64 s (2047, f))"

definition Float32_of :: "float_class \<Rightarrow> u32" where
  "Float32_of c = (case c of
       Finite s m e \<Rightarrow> compose32 s (round_fields binary32 m e)
     | Infinite s \<Rightarrow> compose32 s (255, 0)
     | NotANumber s f \<Rightarrow> compose32 s (255, f))"

definition quiet :: "nat \<Rightarrow> nat \<Rightarrow> nat" where
  "quiet qbit f = (if f < qbit then f + qbit else f)"

text \<open>\<^verbatim>\<open>float64(x)\<close> for a \<^verbatim>\<open>float32\<close>, and \<^verbatim>\<open>float32(y)\<close> for a \<^verbatim>\<open>float64\<close>.\<close>

definition f32_to_f64 :: "u32 \<Rightarrow> u64" where
  "f32_to_f64 w = (case classify32 w of
       NotANumber s f \<Rightarrow> Float64_of (NotANumber s (quiet (2 ^ 51) (f * 2 ^ 29)))
     | c \<Rightarrow> Float64_of c)"

definition f64_to_f32 :: "u64 \<Rightarrow> u32" where
  "f64_to_f32 w = (case classify64 w of
       NotANumber s f \<Rightarrow> Float32_of (NotANumber s (quiet (2 ^ 22) (f div 2 ^ 29)))
     | c \<Rightarrow> Float32_of c)"

definition int_to_f64 :: "int \<Rightarrow> u64" where
  "int_to_f64 n = Float64_of (Finite (n < 0) (nat \<bar>n\<bar>) 0)"

definition int_to_f32 :: "int \<Rightarrow> u32" where
  "int_to_f32 n = Float32_of (Finite (n < 0) (nat \<bar>n\<bar>) 0)"

text \<open>Truncation towards zero of a finite float; \<open>None\<close> for an infinity or a NaN.\<close>

definition f64_trunc :: "u64 \<Rightarrow> int option" where
  "f64_trunc w = (case classify64 w of
       Finite s m e \<Rightarrow>
         (let a = (if 0 \<le> e then int m * 2 ^ nat e else int m div 2 ^ nat (- e))
          in Some (if s then - a else a))
     | _ \<Rightarrow> None)"

definition f64_to_uint32 :: "u64 \<Rightarrow> u32" where
  "f64_to_uint32 w = (case f64_trunc w of
       Some n \<Rightarrow> if - (2 ^ 63) \<le> n \<and> n < 2 ^ 64 then word_of_int n else 0
     | None \<Rightarrow> 0)"

definition f64_to_int32 :: "u64 \<Rightarrow> u32" where
  "f64_to_int32 w = (case f64_trunc w of
       Some n \<Rightarrow> if - (2 ^ 63) \<le> n \<and> n < 2 ^ 63 then word_of_int n else 0
     | None \<Rightarrow> 0)"

definition is_NaN32 :: "u32 \<Rightarrow> bool" where
  "is_NaN32 w = (case classify32 w of NotANumber _ _ \<Rightarrow> True | _ \<Rightarrow> False)"

definition is_NaN64 :: "u64 \<Rightarrow> bool" where
  "is_NaN64 w = (case classify64 w of NotANumber _ _ \<Rightarrow> True | _ \<Rightarrow> False)"

section \<open>Arithmetic and comparison\<close>

text \<open>A finite float scaled to the exponent \<open>e\<close>, at most its own.\<close>

definition scaled :: "bool \<Rightarrow> nat \<Rightarrow> int \<Rightarrow> int \<Rightarrow> int" where
  "scaled s m e0 e = (let a = int m * 2 ^ nat (e0 - e) in if s then - a else a)"

text \<open>The difference, rounded once; \<^verbatim>\<open>x - x\<close> is \<open>+0\<close>, and a NaN operand stays one.\<close>

definition f64_sub :: "u64 \<Rightarrow> u64 \<Rightarrow> u64" where
  "f64_sub a b = (case (classify64 a, classify64 b) of
       (NotANumber s f, _) \<Rightarrow> Float64_of (NotANumber s (quiet (2 ^ 51) f))
     | (_, NotANumber s f) \<Rightarrow> Float64_of (NotANumber s (quiet (2 ^ 51) f))
     | (Infinite s, Infinite s') \<Rightarrow> if s = s' then Float64_of (NotANumber True (2 ^ 51)) else Float64_of (Infinite s)
     | (Infinite s, Finite _ _ _) \<Rightarrow> Float64_of (Infinite s)
     | (Finite _ _ _, Infinite s) \<Rightarrow> Float64_of (Infinite (\<not> s))
     | (Finite s m e, Finite s' m' e') \<Rightarrow>
         (let e0 = min e e'; d = scaled s m e e0 - scaled s' m' e' e0
          in Float64_of (Finite (if d = 0 then s \<and> \<not> s' else d < 0) (nat \<bar>d\<bar>) e0)))"

definition f64_abs :: "u64 \<Rightarrow> u64" where
  "f64_abs a = a AND NOT (push_bit 63 1)"

definition f64_le :: "u64 \<Rightarrow> u64 \<Rightarrow> bool" where
  "f64_le a b = (case (classify64 a, classify64 b) of
       (NotANumber _ _, _) \<Rightarrow> False
     | (_, NotANumber _ _) \<Rightarrow> False
     | (Infinite s, Infinite s') \<Rightarrow> s \<or> \<not> s'
     | (Infinite s, Finite _ _ _) \<Rightarrow> s
     | (Finite _ _ _, Infinite s) \<Rightarrow> \<not> s
     | (Finite s m e, Finite s' m' e') \<Rightarrow> scaled s m e (min e e') \<le> scaled s' m' e' (min e e'))"

definition f64_eq :: "u64 \<Rightarrow> u64 \<Rightarrow> bool" where
  "f64_eq a b \<longleftrightarrow> f64_le a b \<and> f64_le b a"

definition f64_less :: "u64 \<Rightarrow> u64 \<Rightarrow> bool" where
  "f64_less a b \<longleftrightarrow> f64_le a b \<and> \<not> f64_le b a"

definition f32_eq :: "u32 \<Rightarrow> u32 \<Rightarrow> bool" where
  "f32_eq a b \<longleftrightarrow> f64_eq (f32_to_f64 a) (f32_to_f64 b)"

section \<open>Widening is exact and narrowing undoes it\<close>

lemma bit_length_bounds:
  "m < 2 ^ bit_length m" "0 < m \<Longrightarrow> 2 ^ (bit_length m - 1) \<le> m" "0 < m \<Longrightarrow> 0 < bit_length m"
proof -
  have "m < 2 ^ bit_length m \<and> (0 < m \<longrightarrow> 2 ^ (bit_length m - 1) \<le> m \<and> 0 < bit_length m)"
  proof (induction m rule: less_induct)
    case (less m)
    show ?case
    proof (cases "m < 2")
      case True
      then have "m = 0 \<or> m = 1" by auto
      then show ?thesis by (auto simp: bit_length.simps [of 0] bit_length.simps [of "Suc 0"])
    next
      case False
      then have "m div 2 < m" "0 < m div 2" by auto
      with less [of "m div 2"]
      have *: "m div 2 < 2 ^ bit_length (m div 2)" "2 ^ (bit_length (m div 2) - 1) \<le> m div 2"
        "0 < bit_length (m div 2)" by auto
      obtain k where k: "bit_length (m div 2) = Suc k" using *(3) gr0_conv_Suc by blast
      have bl: "bit_length m = Suc (Suc k)" using False k by (simp add: bit_length.simps [of m])
      have lo: "2 * 2 ^ k \<le> m" and hi: "m < 2 * 2 ^ Suc k"
        using * unfolding k by simp_all
      show ?thesis unfolding bl using lo hi by simp
    qed
  qed
  then show "m < 2 ^ bit_length m" "0 < m \<Longrightarrow> 2 ^ (bit_length m - 1) \<le> m"
    "0 < m \<Longrightarrow> 0 < bit_length m" by auto
qed

lemma bit_length_unique:
  assumes "2 ^ k \<le> m" "m < 2 ^ Suc k"
  shows "bit_length m = Suc k"
proof -
  have m: "0 < m" using assms(1) by (metis less_le_trans zero_less_numeral zero_less_power)
  note b = bit_length_bounds [of m]
  have "2 ^ k < (2::nat) ^ bit_length m" using assms(1) b(1) by linarith
  then have 1: "k < bit_length m" by (simp add: power_strict_increasing_iff)
  have "2 ^ (bit_length m - 1) < (2::nat) ^ Suc k" using assms(2) b(2) m by linarith
  then have "bit_length m - 1 < Suc k" by (simp only: power_strict_increasing_iff one_less_numeral_iff semiring_norm)
  with 1 b(3) m show ?thesis by linarith
qed

lemma bit_length_shift: "0 < m \<Longrightarrow> bit_length (m * 2 ^ j) = bit_length m + j"
proof -
  assume m: "0 < m"
  note b = bit_length_bounds [of m]
  obtain k where k: "bit_length m = Suc k" using b(3) [OF m] gr0_conv_Suc by blast
  have "2 ^ (k + j) \<le> m * 2 ^ j" "m * 2 ^ j < 2 ^ Suc (k + j)"
    using b(1,2) m unfolding k by (simp_all add: power_add)
  then show ?thesis unfolding k by (simp add: bit_length_unique)
qed

lemma round_shift_exact: "round_shift (m * 2 ^ k) k = m"
  by (simp add: round_shift_def)


text \<open>A significand and exponent as a decoded float of the format has them.\<close>

definition canonical :: "float_format \<Rightarrow> nat \<Rightarrow> int \<Rightarrow> bool" where
  "canonical ff m e \<longleftrightarrow> (m < 2 ^ (ff_p ff - 1) \<and> e = ff_emin ff)
     \<or> (2 ^ (ff_p ff - 1) \<le> m \<and> m < 2 ^ ff_p ff \<and> ff_emin ff \<le> e
        \<and> e - ff_emin ff + 1 < int (ff_expmax ff))"

definition fields_of :: "float_format \<Rightarrow> nat \<Rightarrow> int \<Rightarrow> nat \<times> nat" where
  "fields_of ff m e = (if m < 2 ^ (ff_p ff - 1) then (0, m) else (nat (e - ff_emin ff + 1), m - 2 ^ (ff_p ff - 1)))"

lemma bit_length_le: "m < 2 ^ k \<Longrightarrow> bit_length m \<le> k"
proof (cases "m = 0")
  case False
  assume "m < 2 ^ k"
  with bit_length_bounds(2) [of m] False have "2 ^ (bit_length m - 1) < (2::nat) ^ k" by linarith
  then have "bit_length m - 1 < k"
    by (simp only: power_strict_increasing_iff one_less_numeral_iff semiring_norm)
  then show ?thesis by linarith
qed (simp add: bit_length.simps)

text \<open>Rounding a value that the format represents, however it is scaled, is exact.\<close>

lemma round_fields_exact:
  assumes "canonical ff m e" "0 < m" "0 < ff_p ff"
  shows "round_fields ff (m * 2 ^ j) (e - int j) = fields_of ff m e"
proof -
  let ?p = "ff_p ff" and ?k = "bit_length m"
  have kp: "?k \<le> ?p"
    using assms by (auto simp: canonical_def intro!: bit_length_le elim: less_le_trans)
  have lt: "m < 2 ^ ?p" using bit_length_bounds(1) [of m] kp
    by (meson less_le_trans one_le_numeral power_increasing)
  have E: "max (e - int j + int (bit_length (m * 2 ^ j)) - int ?p) (ff_emin ff) = e"
  proof (cases "m < 2 ^ (?p - 1)")
    case True
    then have "?k \<le> ?p - 1" by (rule bit_length_le)
    with True assms show ?thesis by (auto simp: canonical_def bit_length_shift)
  next
    case False
    then have "?k = Suc (?p - 1)" using lt assms(3) by (intro bit_length_unique) auto
    with False assms show ?thesis by (auto simp: canonical_def bit_length_shift)
  qed
  have q: "(if e \<le> e - int j then m * 2 ^ j * 2 ^ nat (e - int j - e)
      else round_shift (m * 2 ^ j) (nat (e - (e - int j)))) = m"
    by (simp add: round_shift_exact)
  show ?thesis
    using assms lt unfolding round_fields_def Let_def E q
    by (auto simp: fields_of_def canonical_def)
qed

lemma classify_fields:
  assumes "canonical ff m e" "0 < ff_p ff" "0 < ff_expmax ff"
  shows "classify ff s (fst (fields_of ff m e)) (snd (fields_of ff m e)) = Finite s m e"
  using assms by (auto simp: classify_def fields_of_def canonical_def)

lemma fields_of_bounds:
  assumes "canonical ff m e" "0 < ff_p ff" "0 < ff_expmax ff"
  shows "fst (fields_of ff m e) < ff_expmax ff" "snd (fields_of ff m e) < 2 ^ (ff_p ff - 1)"
proof -
  have "(2::nat) ^ ff_p ff = 2 * 2 ^ (ff_p ff - 1)" using assms(2) by (cases "ff_p ff") auto
  with assms show "fst (fields_of ff m e) < ff_expmax ff" "snd (fields_of ff m e) < 2 ^ (ff_p ff - 1)"
    by (auto simp: fields_of_def canonical_def)
qed

lemma compose_fields_nat:
  assumes "f < B" "x < A"
  shows "((if s then A * B else 0) + x * B + f) div (A * B) = (if s then 1 else (0::nat))"
    "((if s then A * B else 0) + x * B + f) div B mod A = x"
    "((if s then A * B else 0) + x * B + f) mod B = f"
proof -
  have "x * B + f < A * B"
  proof -
    have "x * B + f < (x + 1) * B" using assms(1) by simp
    also have "\<dots> \<le> A * B" using assms(2) by (intro mult_right_mono) auto
    finally show ?thesis .
  qed
  moreover have "0 < A * B" using assms by auto
  ultimately show "((if s then A * B else 0) + x * B + f) div (A * B) = (if s then 1 else (0::nat))"
    using div_add_self1 [of "A * B" "x * B + f"] by (auto simp: add.assoc)
  have "(if s then A * B else 0) + x * B + f = f + ((if s then A else 0) + x) * B" by (simp add: algebra_simps)
  then show "((if s then A * B else 0) + x * B + f) div B mod A = x"
    "((if s then A * B else 0) + x * B + f) mod B = f"
    using assms by auto
qed

lemma nat_word64: "n < 2 ^ 64 \<Longrightarrow> unat (word_of_nat n :: u64) = n"
  by (simp add: unsigned_of_nat take_bit_nat_eq_self)

lemma classify64_compose64:
  assumes "ex < 2048" "f < 2 ^ 52"
  shows "classify64 (compose64 s (ex, f)) = classify binary64 s ex f"
proof -
  have "(if s then 2048 * 2 ^ 52 else 0) + ex * 2 ^ 52 + f < (2::nat) ^ 64"
    using assms by auto
  note u = nat_word64 [OF this]
  have e: "(2::nat) ^ 63 = 2048 * 2 ^ 52" by simp
  show ?thesis
    unfolding classify64_def compose64_def Let_def fst_conv snd_conv e u
      compose_fields_nat [OF assms(2,1), of s] by simp
qed

lemma split_fields_nat: "n div (B * A) * (B * A) + n div B mod A * B + n mod B = (n::nat)"
proof -
  have "n div (B * A) * (B * A) + n div B mod A * B = (n div B div A * A + n div B mod A) * B"
    by (subst div_mult2_eq) (simp only: distrib_right mult.assoc mult.commute [of A B])
  then show ?thesis by (simp only: div_mult_mod_eq)
qed

lemma compose32_fields:
  "compose32 (unat w div 2 ^ 31 \<noteq> 0) (unat w div 2 ^ 23 mod 256, unat w mod 2 ^ 23) = w"
proof -
  let ?n = "unat w"
  have "?n < 2 ^ 32" using unat_less [of w] by simp
  then have "?n div 2 ^ 31 < 2" by (auto simp: div_less_iff_less_mult)
  then have "(if ?n div 2 ^ 31 \<noteq> 0 then 2 ^ 31 else 0) = ?n div 2 ^ 31 * 2 ^ 31" by auto
  moreover have "?n div 2 ^ 31 * 2 ^ 31 + ?n div 2 ^ 23 mod 256 * 2 ^ 23 + ?n mod 2 ^ 23 = ?n"
    using split_fields_nat [of ?n "2 ^ 23" 256] by simp
  ultimately show ?thesis by (simp add: compose32_def del: power_numeral)
qed

lemma classify32_cases:
  obtains
    (finite) s m e where "classify32 w = Finite s m e" "canonical binary32 m e"
      "w = compose32 s (fields_of binary32 m e)"
  | (infinite) s where "classify32 w = Infinite s" "w = compose32 s (255, 0)"
  | (nan) s f where "classify32 w = NotANumber s f"
proof -
  define s where "s \<longleftrightarrow> unat w div 2 ^ 31 \<noteq> 0"
  define x where "x = unat w div 2 ^ 23 mod 256"
  define f where "f = unat w mod 2 ^ 23"
  have w: "w = compose32 s (x, f)" unfolding s_def x_def f_def by (rule compose32_fields [symmetric])
  have b: "x < 256" "f < 2 ^ 23" by (simp_all add: x_def f_def)
  have c: "classify32 w = classify binary32 s x f"
    by (simp only: classify32_def Let_def s_def x_def f_def)
  consider "x = 255" "f = 0" | "x = 255" "f \<noteq> 0" | "x = 0" | "0 < x" "x < 255" using b by linarith
  then show thesis
  proof cases
    case 1
    with c w show thesis by (intro infinite) (auto simp: classify_def binary32_def)
  next
    case 2
    with c show thesis by (intro nan) (auto simp: classify_def binary32_def)
  next
    case 3
    show thesis
    proof (rule finite)
      show "classify32 w = Finite s f (-149)" using 3 c by (simp add: classify_def binary32_def)
      show "canonical binary32 f (-149)" using b by (simp add: canonical_def binary32_def)
      show "w = compose32 s (fields_of binary32 f (-149))" using 3 w b by (simp add: fields_of_def binary32_def)
    qed
  next
    case 4
    show thesis
    proof (rule finite)
      show "classify32 w = Finite s (2 ^ 23 + f) (-149 + int x - 1)"
        using 4 c by (simp add: classify_def binary32_def)
      show "canonical binary32 (2 ^ 23 + f) (-149 + int x - 1)"
        using 4 b by (simp add: canonical_def binary32_def)
      show "w = compose32 s (fields_of binary32 (2 ^ 23 + f) (-149 + int x - 1))"
        using 4 w b by (simp add: fields_of_def binary32_def)
    qed
  qed
qed

text \<open>
  Every finite \<^verbatim>\<open>float32\<close> is a canonical \<^verbatim>\<open>float64\<close> after scaling its significand to 53 bits.
\<close>

lemma widen_finite:
  assumes "canonical binary32 m e" "0 < m"
  shows "classify64 (Float64_of (Finite s m e))
     = Finite s (m * 2 ^ (53 - bit_length m)) (e - int (53 - bit_length m))"
proof -
  let ?j = "53 - bit_length m" and ?e = "e - int (53 - bit_length m)"
  have k: "bit_length m \<le> 24" "0 < bit_length m"
    using assms bit_length_bounds(3) [of m]
    by (auto simp: canonical_def binary32_def intro!: bit_length_le)
  have lo: "2 ^ 52 \<le> m * 2 ^ ?j" and hi: "m * 2 ^ ?j < 2 ^ 53"
  proof -
    have "bit_length (m * 2 ^ ?j) = 53" using assms(2) k by (simp add: bit_length_shift)
    with bit_length_bounds(1,2) [of "m * 2 ^ ?j"] assms(2)
    show "2 ^ 52 \<le> m * 2 ^ ?j" "m * 2 ^ ?j < 2 ^ 53" by simp_all
  qed
  have e: "-149 \<le> e" "e \<le> 104" using assms(1) by (auto simp: canonical_def binary32_def)
  have can: "canonical binary64 (m * 2 ^ ?j) ?e"
    using lo hi e k by (simp add: canonical_def binary64_def)
  have p: "0 < ff_p binary64" "0 < ff_expmax binary64" by (simp_all add: binary64_def)
  have "round_fields binary64 m e = fields_of binary64 (m * 2 ^ ?j) ?e"
  proof -
    have E: "max (e + int (bit_length m) - 53) (-1074) = ?e" using e k by simp
    have "m * 2 ^ nat (e - ?e) = m * 2 ^ ?j" by simp
    with hi lo assms(2) e k show ?thesis
      unfolding round_fields_def Let_def
      by (simp add: binary64_def E fields_of_def del: power_numeral of_nat_diff)
  qed
  moreover have "classify64 (compose64 s (fields_of binary64 (m * 2 ^ ?j) ?e))
      = classify binary64 s (fst (fields_of binary64 (m * 2 ^ ?j) ?e)) (snd (fields_of binary64 (m * 2 ^ ?j) ?e))"
    using fields_of_bounds [OF can p] classify64_compose64 [of "fst (fields_of binary64 (m * 2 ^ ?j) ?e)"
        "snd (fields_of binary64 (m * 2 ^ ?j) ?e)" s]
    by (simp add: binary64_def)
  ultimately show ?thesis
    using classify_fields [OF can p] by (simp add: Float64_of_def)
qed

lemma f64_to_f32_f32_to_f64:
  assumes "\<not> is_NaN32 w"
  shows "f64_to_f32 (f32_to_f64 w) = w"
proof (cases w rule: classify32_cases)
  case (finite s m e)
  show ?thesis
  proof (cases "m = 0")
    case True
    with finite have "w = compose32 s (0, 0)" by (simp add: fields_of_def binary32_def)
    moreover have "classify64 (compose64 s (0, 0)) = Finite s 0 (-1074)"
      by (simp add: classify64_compose64 classify_def binary64_def)
    ultimately show ?thesis using finite(1) True
      by (simp add: f64_to_f32_def f32_to_f64_def Float64_of_def Float32_of_def round_fields_def)
  next
    case False
    with finite have "classify64 (f32_to_f64 w)
        = Finite s (m * 2 ^ (53 - bit_length m)) (e - int (53 - bit_length m))"
      by (simp add: f32_to_f64_def widen_finite)
    then have "f64_to_f32 (f32_to_f64 w) = compose32 s
        (round_fields binary32 (m * 2 ^ (53 - bit_length m)) (e - int (53 - bit_length m)))"
      by (simp add: f64_to_f32_def Float32_of_def)
    also have "\<dots> = compose32 s (fields_of binary32 m e)"
      using round_fields_exact [OF finite(2), of "53 - bit_length m"] False by (simp add: binary32_def)
    finally show ?thesis using finite(3) by simp
  qed
next
  case (infinite s)
  then show ?thesis
    by (simp add: f64_to_f32_def f32_to_f64_def Float64_of_def Float32_of_def classify64_compose64
        classify_def binary64_def)
next
  case (nan s f)
  with assms show ?thesis by (simp add: is_NaN32_def)
qed

end
