(* ===== verification/Property_Value.thy ===== *)
theory Property_Value
  imports Primitives Go_Float
begin

text \<open>
  Application-tagged values, \<^verbatim>\<open>bacnet/types/property_value.go\<close>.  The \<^verbatim>\<open>interface{}\<close> a value is carried
  in becomes the datatype \<open>go_value\<close>: one constructor per dynamic type the code asserts, switches on
  or converts; the numeric types that it names nowhere (\<^verbatim>\<open>int8\<close>, \<^verbatim>\<open>int16\<close>, complex numbers) are left out.  The reflective conversions are total on it; on a nil interface \<^verbatim>\<open>reflect.TypeOf\<close>
  yields a nil type whose method call panics, which is the value \<open>Inl Panic\<close>.
\<close>

datatype go_value =
    VNil
  | VBool bool
  | VInt u64              \<comment> \<open>int, int64\<close>
  | VUint u64             \<comment> \<open>uint\<close>
  | VUint64 u64
  | VInt32 u32
  | VUint32 u32           \<comment> \<open>uint32 and its aliases\<close>
  | VUint16 u16
  | VUint8 u8
  | VFloat32 u32
  | VFloat64 u64
  | VReal u32
  | VDouble u64
  | VBytes bytes
  | VString bytes
  | VCharacterString CharacterString
  | VBitString bytes
  | VDate Date
  | VDatePtr "Date option"
  | VTime Time
  | VTimePtr "Time option"
  | VObjectId ObjectId
  | VObjectIdPtr "ObjectId option"
  | VOther nat            \<comment> \<open>any other dynamic type that is not numeric\<close>

text \<open>Application tag numbers, \<^verbatim>\<open>bacnet/types/data_type.go\<close>.\<close>

abbreviation (input) TagNull :: u8 where "TagNull \<equiv> 0"
abbreviation (input) TagBoolean :: u8 where "TagBoolean \<equiv> 1"
abbreviation (input) TagUnsigned :: u8 where "TagUnsigned \<equiv> 2"
abbreviation (input) TagSigned :: u8 where "TagSigned \<equiv> 3"
abbreviation (input) TagReal :: u8 where "TagReal \<equiv> 4"
abbreviation (input) TagDouble :: u8 where "TagDouble \<equiv> 5"
abbreviation (input) TagOctetString :: u8 where "TagOctetString \<equiv> 6"
abbreviation (input) TagCharacterString :: u8 where "TagCharacterString \<equiv> 7"
abbreviation (input) TagBitString :: u8 where "TagBitString \<equiv> 8"
abbreviation (input) TagEnumerated :: u8 where "TagEnumerated \<equiv> 9"
abbreviation (input) TagDate :: u8 where "TagDate \<equiv> 10"
abbreviation (input) TagTime :: u8 where "TagTime \<equiv> 11"
abbreviation (input) TagObjectId :: u8 where "TagObjectId \<equiv> 12"

record PropertyValue =
  pv_Type :: u8
  pv_Value :: go_value

definition invalidVal :: go_error where
  "invalidVal = Err ''invalid value %x for type %x''"

section \<open>Reflective conversions\<close>

text \<open>
  \<^verbatim>\<open>reflect.TypeOf(v).ConvertibleTo(T)\<close> for a numeric \<open>T\<close> holds exactly for the numeric kinds.
\<close>

definition convertible_numeric :: "go_value \<Rightarrow> bool" where
  "convertible_numeric v = (case v of
       VInt _ \<Rightarrow> True | VUint _ \<Rightarrow> True | VUint64 _ \<Rightarrow> True | VInt32 _ \<Rightarrow> True | VUint32 _ \<Rightarrow> True | VUint16 _ \<Rightarrow> True
     | VUint8 _ \<Rightarrow> True | VFloat32 _ \<Rightarrow> True | VFloat64 _ \<Rightarrow> True | VReal _ \<Rightarrow> True | VDouble _ \<Rightarrow> True
     | _ \<Rightarrow> False)"

definition ConvertibleTo :: "go_value \<Rightarrow> bool result" where
  "ConvertibleTo v = (if v = VNil then Inl Panic else Inr (convertible_numeric v))"

definition convert_uint32 :: "go_value \<Rightarrow> u32" where
  "convert_uint32 v = (case v of
       VInt n \<Rightarrow> ucast n | VUint n \<Rightarrow> ucast n | VUint64 n \<Rightarrow> ucast n | VInt32 n \<Rightarrow> n | VUint32 n \<Rightarrow> n
     | VUint16 n \<Rightarrow> ucast n | VUint8 n \<Rightarrow> ucast n
     | VFloat32 f \<Rightarrow> f64_to_uint32 (f32_to_f64 f) | VReal f \<Rightarrow> f64_to_uint32 (f32_to_f64 f)
     | VFloat64 f \<Rightarrow> f64_to_uint32 f | VDouble f \<Rightarrow> f64_to_uint32 f | _ \<Rightarrow> 0)"

definition convert_int32 :: "go_value \<Rightarrow> u32" where
  "convert_int32 v = (case v of
       VInt n \<Rightarrow> ucast n | VUint n \<Rightarrow> ucast n | VUint64 n \<Rightarrow> ucast n | VInt32 n \<Rightarrow> n | VUint32 n \<Rightarrow> n
     | VUint16 n \<Rightarrow> ucast n | VUint8 n \<Rightarrow> ucast n
     | VFloat32 f \<Rightarrow> f64_to_int32 (f32_to_f64 f) | VReal f \<Rightarrow> f64_to_int32 (f32_to_f64 f)
     | VFloat64 f \<Rightarrow> f64_to_int32 f | VDouble f \<Rightarrow> f64_to_int32 f | _ \<Rightarrow> 0)"

definition convert_float64 :: "go_value \<Rightarrow> u64" where
  "convert_float64 v = (case v of
       VInt n \<Rightarrow> int_to_f64 (sint n) | VUint n \<Rightarrow> int_to_f64 (uint n) | VUint64 n \<Rightarrow> int_to_f64 (uint n)
     | VInt32 n \<Rightarrow> int_to_f64 (sint n) | VUint32 n \<Rightarrow> int_to_f64 (uint n)
     | VUint16 n \<Rightarrow> int_to_f64 (uint n) | VUint8 n \<Rightarrow> int_to_f64 (uint n)
     | VFloat32 f \<Rightarrow> f32_to_f64 f | VReal f \<Rightarrow> f32_to_f64 f
     | VFloat64 f \<Rightarrow> f | VDouble f \<Rightarrow> f | _ \<Rightarrow> 0)"

text \<open>
  \<^verbatim>\<open>float32(reflect.ValueOf(v).Convert(typeOfFloat32).Float())\<close>: integers round through \<^verbatim>\<open>float64\<close>
  (\<^verbatim>\<open>reflect\<close> stores \<^verbatim>\<open>float64(v.Int())\<close> as a \<^verbatim>\<open>float32\<close>), then widen and narrow again.
\<close>

definition convert_float32 :: "go_value \<Rightarrow> u32" where
  "convert_float32 v = f64_to_f32 (f32_to_f64 (case v of
       VFloat32 f \<Rightarrow> f | VReal f \<Rightarrow> f | _ \<Rightarrow> f64_to_f32 (convert_float64 v)))"

section \<open>Reading a value\<close>

definition ReadAsObject :: "PropertyValue \<Rightarrow> ObjectId option" where
  "ReadAsObject p = (case pv_Value p of VObjectId v \<Rightarrow> Some v | _ \<Rightarrow> None)"

definition IsNumeric :: "PropertyValue \<Rightarrow> bool result" where
  "IsNumeric p = ConvertibleTo (pv_Value p)"

definition ReadAsFloat64 :: "PropertyValue \<Rightarrow> u64 result" where
  "ReadAsFloat64 p = bind_res (IsNumeric p) (\<lambda>n. Inr (if n then convert_float64 (pv_Value p) else 0))"

definition ReadAsFloat64Unsafe :: "PropertyValue \<Rightarrow> u64 result" where
  "ReadAsFloat64Unsafe p =
     (if convertible_numeric (pv_Value p) then Inr (convert_float64 (pv_Value p)) else Inl Panic)"

definition ValueLength :: "bytes \<Rightarrow> int \<times> nat" where
  "ValueLength b = (let (t, bytesRead) = DecodeTag b in
     if bytesRead = 0 then (0, 0)
     else if TagNumber t = TagNull \<or> TagNumber t = TagBoolean then (0, bytesRead)
     else (LenValue t, bytesRead))"

section \<open>Encoding\<close>

text \<open>
  \<^verbatim>\<open>MarshalBinary\<close> stores a converted number back into \<^verbatim>\<open>p.Value\<close>: \<open>PropertyValue_coerce\<close> is the receiver
  after the call (an error leaves it as it was), and the bytes are computed from it.
\<close>

definition coerce_number :: "PropertyValue \<Rightarrow> bool \<Rightarrow> go_value \<Rightarrow> PropertyValue result" where
  "coerce_number p asserted converted =
     (if asserted then Inr p
      else bind_res (ConvertibleTo (pv_Value p)) (\<lambda>ok.
        if \<not> ok then Inl invalidVal else Inr (p\<lparr>pv_Value := converted\<rparr>)))"

definition PropertyValue_coerce :: "PropertyValue \<Rightarrow> PropertyValue result" where
  "PropertyValue_coerce p =
     (let v = pv_Value p; t = pv_Type p in
      if t = TagUnsigned \<or> t = TagEnumerated then
        coerce_number p (case v of VUint32 _ \<Rightarrow> True | _ \<Rightarrow> False) (VUint32 (convert_uint32 v))
      else if t = TagSigned then
        coerce_number p (case v of VInt32 _ \<Rightarrow> True | _ \<Rightarrow> False) (VInt32 (convert_int32 v))
      else if t = TagReal then
        coerce_number p (case v of VFloat32 _ \<Rightarrow> True | _ \<Rightarrow> False) (VFloat32 (convert_float32 v))
      else if t = TagDouble then
        coerce_number p (case v of VFloat64 _ \<Rightarrow> True | _ \<Rightarrow> False) (VFloat64 (convert_float64 v))
      else Inr p)"

definition app_tag :: "u8 \<Rightarrow> nat \<Rightarrow> bytes" where
  "app_tag t len = EncodeTag (Tag_zero\<lparr>TagNumber := t, LenValue := int len\<rparr>)"

definition PropertyValue_encode :: "PropertyValue \<Rightarrow> bytes result" where
  "PropertyValue_encode p =
    (let t = pv_Type p; emit = (\<lambda>payload. Inr (app_tag t (length payload) @ payload)) in
     if t = TagNull then Inr (app_tag t 0)
     else if t = TagBoolean then Inr (app_tag t (if pv_Value p = VBool True then 1 else 0))
     else if t = TagUnsigned \<or> t = TagEnumerated then
       (case pv_Value p of VUint32 v \<Rightarrow> emit (EncodeVarUint v) | _ \<Rightarrow> Inl Panic)
     else if t = TagSigned then
       (case pv_Value p of VInt32 v \<Rightarrow> emit (EncodeVarInt v) | _ \<Rightarrow> Inl Panic)
     else if t = TagReal then
       (case pv_Value p of VFloat32 v \<Rightarrow> Inr (app_tag t 4 @ Real_MarshalBinary v) | _ \<Rightarrow> Inl Panic)
     else if t = TagDouble then
       (case pv_Value p of VFloat64 v \<Rightarrow> Inr (app_tag t 8 @ Double_MarshalBinary v) | _ \<Rightarrow> Inl Panic)
     else if t = TagOctetString then
       (case pv_Value p of VBytes v \<Rightarrow> emit v | _ \<Rightarrow> Inl invalidVal)
     else if t = TagCharacterString then
       (case pv_Value p of
          VCharacterString v \<Rightarrow> Inr (app_tag t (CharacterString_Length v) @ CharacterString_MarshalBinary v)
        | _ \<Rightarrow> Inl invalidVal)
     else if t = TagBitString then
       (case pv_Value p of VBitString v \<Rightarrow> emit (BitString_MarshalBinary v) | _ \<Rightarrow> Inl invalidVal)
     else if t = TagDate then
       (case pv_Value p of
          VDatePtr (Some v) \<Rightarrow> Inr (app_tag t 4 @ Date_MarshalBinary v)
        | VDate v \<Rightarrow> Inr (app_tag t 4 @ Date_MarshalBinary v) | _ \<Rightarrow> Inl invalidVal)
     else if t = TagTime then
       (case pv_Value p of
          VTimePtr (Some v) \<Rightarrow> Inr (app_tag t 4 @ Time_MarshalBinary v)
        | VTime v \<Rightarrow> Inr (app_tag t 4 @ Time_MarshalBinary v) | _ \<Rightarrow> Inl invalidVal)
     else if t = TagObjectId then
       (case pv_Value p of
          VObjectIdPtr (Some v) \<Rightarrow> Inr (app_tag t 4 @ ObjectId_MarshalBinary v)
        | VObjectId v \<Rightarrow> Inr (app_tag t 4 @ ObjectId_MarshalBinary v) | _ \<Rightarrow> Inl invalidVal)
     else Inl (Err ''unsupported application tag: %d''))"

definition PropertyValue_MarshalBinary :: "PropertyValue \<Rightarrow> bytes result" where
  "PropertyValue_MarshalBinary p = bind_res (PropertyValue_coerce p) PropertyValue_encode"

section \<open>Decoding\<close>

definition PropertyValue_payload :: "u8 \<Rightarrow> int \<Rightarrow> int \<Rightarrow> bytes \<Rightarrow> go_value result" where
  "PropertyValue_payload t lenValue payloadLength payload =
     (if t = TagNull then Inr VNil
      else if t = TagBoolean then Inr (VBool (lenValue \<noteq> 0))
      else if t = TagUnsigned \<or> t = TagEnumerated then
        (if payloadLength < 1 \<or> payloadLength > 4
         then Inl (Err ''unsigned value expects between 1 and 4 octets'')
         else Inr (VUint32 (DecodeVarUint payload)))
      else if t = TagSigned then
        (if payloadLength < 1 \<or> payloadLength > 4
         then Inl (Err ''signed value expects between 1 and 4 octets'')
         else Inr (VInt32 (DecodeVarInt payload)))
      else if t = TagReal then bind_res (Real_UnmarshalBinary payload) (\<lambda>v. Inr (VReal v))
      else if t = TagDouble then bind_res (Double_UnmarshalBinary payload) (\<lambda>v. Inr (VDouble v))
      else if t = TagOctetString then Inr (VBytes payload)
      else if t = TagCharacterString then
        bind_res (CharacterString_UnmarshalBinary payload) (\<lambda>v. Inr (VCharacterString v))
      else if t = TagBitString then bind_res (BitString_UnmarshalBinary payload) (\<lambda>v. Inr (VBitString v))
      else if t = TagDate then
        (if payloadLength \<noteq> 4 then Inl (Err ''date expects 4 octets'')
         else bind_res (Date_UnmarshalBinary payload) (\<lambda>v. Inr (VDate v)))
      else if t = TagTime then bind_res (Time_UnmarshalBinary payload) (\<lambda>v. Inr (VTime v))
      else if t = TagObjectId then
        bind_res (ObjectId_UnmarshalBinary ObjectId_zero payload) (\<lambda>v. Inr (VObjectId v))
      else Inl (Err ''unsupported application tag: %d''))"

definition PropertyValue_UnmarshalBinary :: "bytes \<Rightarrow> PropertyValue result" where
  "PropertyValue_UnmarshalBinary b =
     (if length b = 0 then Inl (Err ''received an empty byte slice'')
      else (let (t, r) = DecodeTag b in
        if r = 0 then Inl (Err ''malformed application tag'')
        else if Context t \<or> Opening t \<or> Closing t then Inl (Err ''expected an application tag'')
        else (let payloadLength = (if TagNumber t = TagNull \<or> TagNumber t = TagBoolean then 0 else LenValue t) in
          if payloadLength < 0 \<or> int (length b) - int r < payloadLength
          then Inl (Err ''application value is truncated'')
          else bind_res (PropertyValue_payload (TagNumber t) (LenValue t) payloadLength
                   (subslice b r (r + nat payloadLength)))
                 (\<lambda>v. Inr \<lparr>pv_Type = TagNumber t, pv_Value = v\<rparr>))))"

section \<open>What a value becomes on the wire\<close>

text \<open>
  \<open>wire_value p\<close> is the value a peer decodes from the encoding of \<open>p\<close>; \<open>wire_ok p\<close> collects the
  limits of the encoding: a payload length of at most 32 bits, a year the octet can carry and an
  object identifier in range.
\<close>

definition wire_value :: "PropertyValue \<Rightarrow> PropertyValue" where
  "wire_value p = p\<lparr>pv_Value :=
     (if pv_Type p = TagNull then VNil
      else if pv_Type p = TagBoolean then VBool (pv_Value p = VBool True)
      else (case pv_Value p of
          VFloat32 f \<Rightarrow> VReal f | VFloat64 f \<Rightarrow> VDouble f | VDatePtr (Some d) \<Rightarrow> VDate d
        | VTimePtr (Some t) \<Rightarrow> VTime t | VObjectIdPtr (Some o1) \<Rightarrow> VObjectId o1 | v \<Rightarrow> v))\<rparr>"

definition wire_ok_value :: "go_value \<Rightarrow> bool" where
  "wire_ok_value v = (case v of
       VBytes b \<Rightarrow> length b \<le> 4294967295
     | VCharacterString c \<Rightarrow> CharacterString_Length c \<le> 4294967295
     | VBitString b \<Rightarrow> length b < 4294967295
     | VDate d \<Rightarrow> 1900 \<le> d_Year d \<and> d_Year d \<le> 2155
     | VDatePtr (Some d) \<Rightarrow> 1900 \<le> d_Year d \<and> d_Year d \<le> 2155
     | VObjectId o1 \<Rightarrow> oid_wf o1
     | VObjectIdPtr (Some o1) \<Rightarrow> oid_wf o1
     | _ \<Rightarrow> True)"

definition wire_ok :: "PropertyValue \<Rightarrow> bool" where
  "wire_ok p = wire_ok_value (pv_Value p)"

lemma DecodeTag_app_tag:
  assumes "n \<le> 4294967295"
  shows "DecodeTag (app_tag t n @ rest) = (decoded_tag t (int n) False False False, length (app_tag t n))"
  unfolding app_tag_def using assms by (subst DecodeTag_EncodeTag) (simp_all add: Tag_zero_def)

lemma length_app_tag: "n \<le> 4294967295 \<Longrightarrow> 0 < length (app_tag t n)"
  unfolding app_tag_def EncodeTag_def by (rule length_encodeTag) simp

lemma Unmarshal_app_tag:
  assumes "length pl \<le> 4294967295" "t \<noteq> TagNull" "t \<noteq> TagBoolean"
  shows "PropertyValue_UnmarshalBinary (app_tag t (length pl) @ pl @ rest)
     = bind_res (PropertyValue_payload t (int (length pl)) (int (length pl)) pl)
         (\<lambda>v. Inr \<lparr>pv_Type = t, pv_Value = v\<rparr>)"
  using assms length_app_tag [OF assms(1), of t]
  by (simp add: PropertyValue_UnmarshalBinary_def DecodeTag_app_tag subslice_def Let_def)

lemma Unmarshal_app_tag_len:
  assumes "n \<le> 4294967295" "t = TagNull \<or> t = TagBoolean"
  shows "PropertyValue_UnmarshalBinary (app_tag t n @ rest)
     = Inr \<lparr>pv_Type = t, pv_Value = (if t = TagNull then VNil else VBool (n \<noteq> 0))\<rparr>"
  using assms length_app_tag [OF assms(1), of t]
  by (auto simp: PropertyValue_UnmarshalBinary_def DecodeTag_app_tag PropertyValue_payload_def)

text \<open>The payload of each type decodes to its wire value.\<close>

lemma EncodeVar_length:
  "1 \<le> length (EncodeVarUint v)" "length (EncodeVarUint v) \<le> 4"
  "1 \<le> length (EncodeVarInt w)" "length (EncodeVarInt w) \<le> 4"
  using length_EncodeVarUint [of v] by (auto simp: length_EncodeVarInt GetIntLen_def)

lemma payload_decodes:
  "PropertyValue_payload 2 n (int (length (EncodeVarUint v))) (EncodeVarUint v) = Inr (VUint32 v)"
  "PropertyValue_payload 9 n (int (length (EncodeVarUint v))) (EncodeVarUint v) = Inr (VUint32 v)"
  "PropertyValue_payload 3 n (int (length (EncodeVarInt w))) (EncodeVarInt w) = Inr (VInt32 w)"
  "PropertyValue_payload 4 n m (Real_MarshalBinary f) = Inr (VReal f)"
  "PropertyValue_payload 5 n m (Double_MarshalBinary d) = Inr (VDouble d)"
  "PropertyValue_payload 6 n m bs = Inr (VBytes bs)"
  "PropertyValue_payload 7 n m (CharacterString_MarshalBinary cs) = Inr (VCharacterString cs)"
  "PropertyValue_payload 8 n m (BitString_MarshalBinary bs) = Inr (VBitString bs)"
  "1900 \<le> d_Year dt \<Longrightarrow> d_Year dt \<le> 2155 \<Longrightarrow>
     PropertyValue_payload 10 n 4 (Date_MarshalBinary dt) = Inr (VDate dt)"
  "PropertyValue_payload 11 n m (Time_MarshalBinary tm) = Inr (VTime tm)"
  "oid_wf o1 \<Longrightarrow> PropertyValue_payload 12 n m (ObjectId_MarshalBinary o1) = Inr (VObjectId o1)"
  using EncodeVar_length(1,2) [of v] EncodeVar_length(3,4) [of w]
  by (simp_all add: PropertyValue_payload_def Date_roundtrip ObjectId_roundtrip Suc_le_eq not_less)

lemma Unmarshal_app_tag_n:
  assumes "n = length pl" "length pl \<le> 4294967295" "t \<noteq> TagNull" "t \<noteq> TagBoolean"
    and "PropertyValue_payload t (int (length pl)) (int (length pl)) pl = Inr v"
  shows "PropertyValue_UnmarshalBinary (app_tag t n @ pl @ rest) = Inr \<lparr>pv_Type = t, pv_Value = v\<rparr>"
  using Unmarshal_app_tag [OF assms(2-4)] assms by simp

lemma coerce_number_Inr:
  "coerce_number p a c = Inr q \<longleftrightarrow>
     (if a then q = p else convertible_numeric (pv_Value p) \<and> q = p\<lparr>pv_Value := c\<rparr>)"
  by (auto simp: coerce_number_def ConvertibleTo_def bind_res_eq_Inr convertible_numeric_def)

lemma coerce_cases:
  assumes "PropertyValue_coerce p = Inr q"
  obtains (same) "q = p" | (num) v where "q = p\<lparr>pv_Value := v\<rparr>" "wire_ok q" "PropertyValue_coerce q = Inr q"
proof (cases "q = p")
  case False
  have t: "PropertyValue_coerce (p\<lparr>pv_Value := VUint32 x\<rparr>) = Inr (p\<lparr>pv_Value := VUint32 x\<rparr>)"
    if "pv_Type p = 2 \<or> pv_Type p = 9" for x
    using that by (auto simp: PropertyValue_coerce_def coerce_number_def)
  show thesis
    using assms False t that(2)
    by (force simp: PropertyValue_coerce_def coerce_number_Inr Let_def wire_ok_def wire_ok_value_def
      split: if_splits)
qed (use same in blast)

lemma coerce_Type: "PropertyValue_coerce p = Inr q \<Longrightarrow> pv_Type q = pv_Type p"
  by (erule coerce_cases) simp_all

lemma coerce_wire_ok: "PropertyValue_coerce p = Inr q \<Longrightarrow> wire_ok p \<Longrightarrow> wire_ok q"
  by (erule coerce_cases) simp_all

lemma coerce_idem:
  assumes "PropertyValue_coerce p = Inr q"
  shows "PropertyValue_coerce q = Inr q"
  by (rule coerce_cases [OF assms]) (use assms in simp_all)

text \<open>Marshalling is stable under the normalisation it performs on its receiver.\<close>

lemma Marshal_coerce:
  assumes "PropertyValue_coerce p = Inr q"
  shows "PropertyValue_MarshalBinary q = PropertyValue_MarshalBinary p"
  using coerce_idem [OF assms] assms by (simp add: PropertyValue_MarshalBinary_def)

text \<open>What \<^verbatim>\<open>MarshalBinary\<close> accepts, and the header and payload it writes, by type.\<close>

lemma PropertyValue_encode_cases:
  assumes "PropertyValue_encode p = Inr b"
  obtains
    (null) "pv_Type p = 0" "b = app_tag 0 0"
  | (bool) "pv_Type p = 1" "b = app_tag 1 (if pv_Value p = VBool True then 1 else 0)"
  | (unsigned) v where "pv_Type p \<in> {2, 9}" "pv_Value p = VUint32 v"
      "b = app_tag (pv_Type p) (length (EncodeVarUint v)) @ EncodeVarUint v"
  | (signed) v where "pv_Type p = 3" "pv_Value p = VInt32 v"
      "b = app_tag 3 (length (EncodeVarInt v)) @ EncodeVarInt v"
  | (real) v where "pv_Type p = 4" "pv_Value p = VFloat32 v" "b = app_tag 4 4 @ Real_MarshalBinary v"
  | (double) v where "pv_Type p = 5" "pv_Value p = VFloat64 v" "b = app_tag 5 8 @ Double_MarshalBinary v"
  | (octets) v where "pv_Type p = 6" "pv_Value p = VBytes v" "b = app_tag 6 (length v) @ v"
  | (chars) v where "pv_Type p = 7" "pv_Value p = VCharacterString v"
      "b = app_tag 7 (CharacterString_Length v) @ CharacterString_MarshalBinary v"
  | (bits) v where "pv_Type p = 8" "pv_Value p = VBitString v"
      "b = app_tag 8 (length (BitString_MarshalBinary v)) @ BitString_MarshalBinary v"
  | (date) v where "pv_Type p = 10" "pv_Value p = VDate v \<or> pv_Value p = VDatePtr (Some v)"
      "b = app_tag 10 4 @ Date_MarshalBinary v"
  | (time) v where "pv_Type p = 11" "pv_Value p = VTime v \<or> pv_Value p = VTimePtr (Some v)"
      "b = app_tag 11 4 @ Time_MarshalBinary v"
  | (oid) v where "pv_Type p = 12" "pv_Value p = VObjectId v \<or> pv_Value p = VObjectIdPtr (Some v)"
      "b = app_tag 12 4 @ ObjectId_MarshalBinary v"
proof -
  consider "pv_Type p = 0" | "pv_Type p = 1" | "pv_Type p \<in> {2, 9}" | "pv_Type p = 3" | "pv_Type p = 4"
    | "pv_Type p = 5" | "pv_Type p = 6" | "pv_Type p = 7" | "pv_Type p = 8" | "pv_Type p = 10"
    | "pv_Type p = 11" | "pv_Type p = 12" | "pv_Type p \<notin> {0,1,2,3,4,5,6,7,8,9,10,11,12}" by auto
  then show thesis
  proof cases
    case 1 with assms null show thesis by (simp add: PropertyValue_encode_def)
  next
    case 2 with assms bool show thesis by (simp add: PropertyValue_encode_def)
  next
    case 3 with assms unsigned show thesis
      by (cases "pv_Value p") (auto simp: PropertyValue_encode_def Let_def)
  next
    case 4 with assms signed show thesis by (cases "pv_Value p") (auto simp: PropertyValue_encode_def Let_def)
  next
    case 5 with assms real show thesis by (cases "pv_Value p") (auto simp: PropertyValue_encode_def Let_def)
  next
    case 6 with assms double show thesis by (cases "pv_Value p") (auto simp: PropertyValue_encode_def Let_def)
  next
    case 7 with assms octets show thesis by (cases "pv_Value p") (auto simp: PropertyValue_encode_def Let_def)
  next
    case 8 with assms chars show thesis by (cases "pv_Value p") (auto simp: PropertyValue_encode_def Let_def)
  next
    case 9 with assms bits show thesis by (cases "pv_Value p") (auto simp: PropertyValue_encode_def Let_def)
  next
    case 10 with assms date show thesis
      by (cases "pv_Value p") (auto simp: PropertyValue_encode_def Let_def split: option.splits)
  next
    case 11 with assms time show thesis
      by (cases "pv_Value p") (auto simp: PropertyValue_encode_def Let_def split: option.splits)
  next
    case 12 with assms oid show thesis
      by (cases "pv_Value p") (auto simp: PropertyValue_encode_def Let_def split: option.splits)
  next
    case 13 with assms show thesis by (simp add: PropertyValue_encode_def)
  qed
qed

text \<open>
  Every encoding the code produces decodes, in front of any continuation, to the wire value of
  the (normalised) receiver.
\<close>

lemma PropertyValue_decodes:
  assumes "PropertyValue_MarshalBinary p = Inr b" "wire_ok p"
  shows "\<exists>q. PropertyValue_coerce p = Inr q \<and> PropertyValue_UnmarshalBinary (b @ rest) = Inr (wire_value q)"
proof -
  from assms(1) obtain q where q: "PropertyValue_coerce p = Inr q"
    by (auto simp: PropertyValue_MarshalBinary_def bind_res_eq_Inr)
  have b: "PropertyValue_encode q = Inr b" using q assms(1) by (simp add: PropertyValue_MarshalBinary_def)
  have ok: "wire_ok q" using coerce_wire_ok [OF q] assms(2) .
  from b have "PropertyValue_UnmarshalBinary (b @ rest) = Inr (wire_value q)"
  proof (cases rule: PropertyValue_encode_cases)
    case (unsigned v)
    have "length (EncodeVarUint v) \<le> 4294967295" using EncodeVar_length(2) [of v] by linarith
    with unsigned show ?thesis
      by (auto simp: Unmarshal_app_tag_n [OF _ _ _ _ payload_decodes(1)]
        Unmarshal_app_tag_n [OF _ _ _ _ payload_decodes(2)] wire_value_def)
  next
    case (signed v)
    have "length (EncodeVarInt v) \<le> 4294967295" using EncodeVar_length(4) [of v] by linarith
    with signed show ?thesis by (auto simp: Unmarshal_app_tag_n payload_decodes wire_value_def)
  next
    case (chars v)
    with ok show ?thesis
      by (auto simp: Unmarshal_app_tag_n payload_decodes wire_value_def wire_ok_def wire_ok_value_def)
  next
    case (bits v)
    with ok show ?thesis
      by (auto simp: Unmarshal_app_tag_n payload_decodes wire_value_def wire_ok_def wire_ok_value_def)
  qed (use ok in \<open>auto simp: Unmarshal_app_tag_len Unmarshal_app_tag_n payload_decodes wire_value_def
      wire_ok_def wire_ok_value_def\<close>)
  with q show ?thesis by blast
qed

section \<open>Decoded values re-encode\<close>

text \<open>
  The values \<^verbatim>\<open>UnmarshalBinary\<close> produces: the Go type fits the tag, and the payload respects the
  limits of the encoding.
\<close>

definition decoded_wf :: "PropertyValue \<Rightarrow> bool" where
  "decoded_wf p \<longleftrightarrow> wire_ok p \<and> (case pv_Value p of
       VNil \<Rightarrow> pv_Type p = TagNull
     | VBool _ \<Rightarrow> pv_Type p = TagBoolean
     | VUint32 _ \<Rightarrow> pv_Type p = TagUnsigned \<or> pv_Type p = TagEnumerated
     | VInt32 _ \<Rightarrow> pv_Type p = TagSigned
     | VReal _ \<Rightarrow> pv_Type p = TagReal
     | VDouble _ \<Rightarrow> pv_Type p = TagDouble
     | VBytes _ \<Rightarrow> pv_Type p = TagOctetString
     | VCharacterString _ \<Rightarrow> pv_Type p = TagCharacterString
     | VBitString _ \<Rightarrow> pv_Type p = TagBitString
     | VDate _ \<Rightarrow> pv_Type p = TagDate
     | VTime _ \<Rightarrow> pv_Type p = TagTime
     | VObjectId _ \<Rightarrow> pv_Type p = TagObjectId
     | _ \<Rightarrow> False)"

lemma Date_UnmarshalBinary_year:
  assumes "Date_UnmarshalBinary b = Inr d"
  shows "1900 \<le> d_Year d" "d_Year d \<le> 2155"
proof -
  have u: "unat (b ! 0) < 256" using unat_less [of "b ! 0"] by simp
  have "unat (ucast (b ! 0) + 1900 :: u16) = unat (b ! 0) + 1900"
    using u by (simp add: unat_word_ariths unsigned_ucast_eq take_bit_nat_eq_self)
  moreover have "d_Year d = ucast (b ! 0) + 1900"
    using assms by (auto simp: Date_UnmarshalBinary_def split: if_splits)
  ultimately show "1900 \<le> d_Year d" "d_Year d \<le> 2155" using u by (simp_all add: word_le_nat_alt)
qed

lemma payload_wf:
  assumes "PropertyValue_payload t l n pl = Inr v" "int (length pl) = n" "n \<le> 4294967295"
  shows "decoded_wf \<lparr>pv_Type = t, pv_Value = v\<rparr>"
  using assms ObjectId_UnmarshalBinary_total [of pl ObjectId_zero]
  by (auto simp: PropertyValue_payload_def decoded_wf_def wire_ok_def wire_ok_value_def bind_res_eq_Inr
      CharacterString_UnmarshalBinary_def CharacterString_Length_def BitString_UnmarshalBinary_def
      ObjectId_UnmarshalBinary_def Date_UnmarshalBinary_year split: if_splits)

lemma Unmarshal_decoded_wf:
  assumes "PropertyValue_UnmarshalBinary b = Inr p"
  shows "decoded_wf p"
proof -
  obtain t r where t: "DecodeTag b = (t, r)" by fastforce
  let ?n = "if TagNumber t = TagNull \<or> TagNumber t = TagBoolean then 0 else LenValue t"
  from assms t obtain v where v: "PropertyValue_payload (TagNumber t) (LenValue t) ?n (subslice b r (r + nat ?n)) = Inr v"
    and p: "p = \<lparr>pv_Type = TagNumber t, pv_Value = v\<rparr>" and n: "0 \<le> ?n" "?n \<le> int (length b) - int r"
    unfolding PropertyValue_UnmarshalBinary_def Let_def prod.case bind_res_eq_Inr
    by (auto simp: bind_res_eq_Inr simp del: if_split_asm split: if_splits)
  have len: "int (length (subslice b r (r + nat ?n))) = ?n"
    using n by (simp add: subslice_def)
  have "?n \<le> 4294967295" using DecodeTag_bounds(1) [OF t] by (simp add: tag_wf_def)
  from payload_wf [OF v len this] show ?thesis by (simp only: p)
qed

definition no_NaN32 :: "PropertyValue \<Rightarrow> bool" where
  "no_NaN32 p = (case pv_Value p of VReal f \<Rightarrow> \<not> is_NaN32 f | _ \<Rightarrow> True)"

lemma decoded_reencodes:
  assumes "decoded_wf p" "no_NaN32 p"
  shows "\<exists>b. PropertyValue_MarshalBinary p = Inr b
    \<and> (\<forall>rest. PropertyValue_UnmarshalBinary (b @ rest) = Inr p)"
proof -
  have "\<exists>q. PropertyValue_coerce p = Inr q \<and> wire_value q = p \<and> (\<exists>b. PropertyValue_encode q = Inr b)"
    using assms
    by (cases p; cases "pv_Value p")
       (auto simp: decoded_wf_def no_NaN32_def PropertyValue_encode_def
          PropertyValue_coerce_def coerce_number_def ConvertibleTo_def convertible_numeric_def wire_value_def
          convert_float32_def convert_float64_def f64_to_f32_f32_to_f64)
  then obtain b q where bq: "PropertyValue_MarshalBinary p = Inr b" "PropertyValue_coerce p = Inr q" "wire_value q = p"
    by (auto simp: PropertyValue_MarshalBinary_def)
  have "wire_ok p" using assms by (simp add: decoded_wf_def)
  from PropertyValue_decodes [OF bq(1) this] bq show ?thesis by auto
qed

section \<open>Properties\<close>

text \<open>C34. Property values: whatever \<^verbatim>\<open>PropertyValue.MarshalBinary\<close> accepts and writes, \<^verbatim>\<open>UnmarshalBinary\<close> reads
  back as the value the encoder coerced to the declared application tag, without looking at the octets that follow.\<close>

theorem PropertyValue_roundtrip:
  assumes "PropertyValue_MarshalBinary p = Inr b" "wire_ok p"
  shows "\<exists>q. PropertyValue_coerce p = Inr q \<and> PropertyValue_UnmarshalBinary (b @ rest) = Inr (wire_value q)"
  using assms by (rule PropertyValue_decodes)

theorem PropertyValue_roundtrip_witness:
  "\<exists>q. PropertyValue_coerce \<lparr>pv_Type = 2, pv_Value = VUint32 300\<rparr> = Inr q
    \<and> PropertyValue_UnmarshalBinary [0x22, 1, 44, 9] = Inr (wire_value q)"
proof -
  let ?p = "\<lparr>pv_Type = 2, pv_Value = VUint32 300\<rparr>"
  have "PropertyValue_MarshalBinary ?p = Inr [0x22, 1, 44]" "wire_ok ?p" by code_simp+
  from PropertyValue_roundtrip [OF this, of "[9]"] show ?thesis by simp
qed

text \<open>A value that \<^verbatim>\<open>UnmarshalBinary\<close> produced can be written again, and reading that gives the
  same value: nothing a client or the simulator decodes is lost when it is passed on.  The one exception is a REAL
  that is a NaN, whose payload the float conversions quiet.\<close>

theorem PropertyValue_reencode:
  assumes "PropertyValue_UnmarshalBinary b = Inr p" "no_NaN32 p"
  shows "\<exists>b'. PropertyValue_MarshalBinary p = Inr b' \<and> (\<forall>rest. PropertyValue_UnmarshalBinary (b' @ rest) = Inr p)"
  using Unmarshal_decoded_wf [OF assms(1)] assms(2) by (rule decoded_reencodes)

theorem PropertyValue_reencode_witness:
  "\<exists>b'. PropertyValue_MarshalBinary \<lparr>pv_Type = 9, pv_Value = VUint32 5\<rparr> = Inr b'
     \<and> (\<forall>rest. PropertyValue_UnmarshalBinary (b' @ rest) = Inr \<lparr>pv_Type = 9, pv_Value = VUint32 5\<rparr>)"
proof -
  have "PropertyValue_UnmarshalBinary [0x92, 0, 5] = Inr \<lparr>pv_Type = 9, pv_Value = VUint32 5\<rparr>"
    "no_NaN32 \<lparr>pv_Type = 9, pv_Value = VUint32 5\<rparr>" by code_simp+
  from PropertyValue_reencode [OF this] show ?thesis .
qed

end
