(* ===== verification/Cursor.thy ===== *)
theory Cursor
  imports Tags
begin

text \<open>
  The tag cursor every service decoder of the sources carries as a pair of closures over
  \<^verbatim>\<open>(b, offset)\<close>: \<^verbatim>\<open>decode\<close> reads a tag header at the offset and \<^verbatim>\<open>readValue\<close> (or \<^verbatim>\<open>readPrimitive\<close>)
  the contents behind it.  The closures of the various decoders differ in their error texts only,
  which are arguments here.  \<open>ctx_tag\<close>, \<open>open_tag\<close> and \<open>close_tag\<close> are the encoders' idiom of setting
  \<^verbatim>\<open>TagNumber\<close> and \<^verbatim>\<open>LenValue\<close> of a pooled tag and writing it.
\<close>

definition ctx_tag :: "u8 \<Rightarrow> nat \<Rightarrow> bytes" where
  "ctx_tag n len = EncodeContextTag (Tag_zero\<lparr>TagNumber := n, LenValue := int len\<rparr>)"

definition open_tag :: "u8 \<Rightarrow> bytes" where
  "open_tag n = EncodeOpeningTag (Tag_zero\<lparr>TagNumber := n\<rparr>)"

definition close_tag :: "u8 \<Rightarrow> bytes" where
  "close_tag n = EncodeClosingTag (Tag_zero\<lparr>TagNumber := n\<rparr>)"

definition tag_at :: "string \<Rightarrow> string \<Rightarrow> bytes \<Rightarrow> nat \<Rightarrow> (Tag \<times> nat) result" where
  "tag_at eof malformed b off =
     (if length b \<le> off then Inl (Err eof)
      else (let (tag, h) = DecodeTag (drop off b) in
        if h = 0 then Inl (Err malformed) else Inr (tag, h)))"

definition value_at :: "string \<Rightarrow> bytes \<Rightarrow> nat \<Rightarrow> Tag \<Rightarrow> nat \<Rightarrow> (bytes \<times> nat) result" where
  "value_at truncated b off tag h =
     (if LenValue tag < 0 \<or> int (length b) - int off - int h < LenValue tag then Inl (Err truncated)
      else Inr (subslice b (off + h) (off + h + nat (LenValue tag)), off + h + nat (LenValue tag)))"

text \<open>
  A decoder's demand for a particular tag, \<^verbatim>\<open>if headerLength == 0 || !... { return bad }\<close> behind the
  end-of-data test, and for the contents of a primitive one.  \<open>P\<close> is the condition on the tag and \<open>Q\<close>
  the part of it that the source reports together with a truncation.
\<close>

definition expect_tag :: "string \<Rightarrow> string \<Rightarrow> (Tag \<Rightarrow> bool) \<Rightarrow> bytes \<Rightarrow> nat \<Rightarrow> (Tag \<times> nat) result" where
  "expect_tag eof bad P b off =
     (if length b \<le> off then Inl (Err eof)
      else (let (tag, h) = DecodeTag (drop off b) in
        if h = 0 \<or> \<not> P tag then Inl (Err bad) else Inr (tag, h)))"

definition expect_value ::
  "string \<Rightarrow> string \<Rightarrow> string \<Rightarrow> (Tag \<Rightarrow> bool) \<Rightarrow> (Tag \<Rightarrow> bool) \<Rightarrow> bytes \<Rightarrow> nat \<Rightarrow> (bytes \<times> nat) result" where
  "expect_value eof bad truncated P Q b off =
     bind_res (expect_tag eof bad P b off) (\<lambda>(tag, h).
       if \<not> Q tag \<or> int (length b) - int off - int h < LenValue tag then Inl (Err truncated)
       else Inr (subslice b (off + h) (off + h + nat (LenValue tag)), off + h + nat (LenValue tag)))"

definition primitive_context :: "u8 \<Rightarrow> Tag \<Rightarrow> bool" where
  "primitive_context n tag \<longleftrightarrow> IsContext tag n \<and> \<not> Opening tag \<and> \<not> Closing tag"

definition length_between :: "int \<Rightarrow> int \<Rightarrow> Tag \<Rightarrow> bool" where
  "length_between lo hi tag \<longleftrightarrow> \<not> (LenValue tag < lo \<or> LenValue tag > hi)"

definition opening_context :: "u8 \<Rightarrow> Tag \<Rightarrow> bool" where
  "opening_context n tag \<longleftrightarrow> IsContext tag n \<and> Opening tag"

definition closing_context :: "u8 \<Rightarrow> Tag \<Rightarrow> bool" where
  "closing_context n tag \<longleftrightarrow> IsContext tag n \<and> Closing tag"

definition any_length :: "Tag \<Rightarrow> bool" where
  "any_length tag \<longleftrightarrow> True"

text \<open>The optional unsigned context value that several decoders peek for.\<close>

definition optional_unsigned :: "u8 \<Rightarrow> string \<Rightarrow> bytes \<Rightarrow> nat \<Rightarrow> (bytes option \<times> nat) result" where
  "optional_unsigned n truncated b off =
     (if length b \<le> off then Inr (None, off)
      else (let (tag, h) = DecodeTag (drop off b) in
        if h > 0 \<and> primitive_context n tag then
          (if \<not> length_between 1 4 tag \<or> int (length b) - int off - int h < LenValue tag
           then Inl (Err truncated)
           else Inr (Some (subslice b (off + h) (off + h + nat (LenValue tag))), off + h + nat (LenValue tag)))
        else Inr (None, off)))"

section \<open>Headers and values written by the encoders\<close>

lemma DecodeTag_ctx_tag:
  "len \<le> 4294967295 \<Longrightarrow>
     DecodeTag (ctx_tag n len @ rest) = (decoded_tag n (int len) True False False, length (ctx_tag n len))"
  unfolding ctx_tag_def by (subst DecodeTag_EncodeContextTag) (simp_all add: Tag_zero_def)

lemma DecodeTag_open_tag:
  "DecodeTag (open_tag n @ rest) = (decoded_tag n 0 True True False, length (open_tag n))"
  unfolding open_tag_def by (simp add: DecodeTag_open_close Tag_zero_def)

lemma DecodeTag_close_tag:
  "DecodeTag (close_tag n @ rest) = (decoded_tag n 0 True False True, length (close_tag n))"
  unfolding close_tag_def by (simp add: DecodeTag_open_close Tag_zero_def)

lemma tag_nonempty [simp]:
  "len \<le> 4294967295 \<Longrightarrow> ctx_tag n len \<noteq> []" "open_tag n \<noteq> []" "close_tag n \<noteq> []"
  using length_encodeTag(1) [of False "Tag_zero\<lparr>TagNumber := n, LenValue := int len\<rparr>" 8]
    length_encodeTag(1) [of True "Tag_zero\<lparr>TagNumber := n\<rparr>"]
  by (auto simp: ctx_tag_def open_tag_def close_tag_def EncodeContextTag_def EncodeOpeningTag_def
      EncodeClosingTag_def Tag_zero_def)

lemma tag_at_step:
  assumes "drop off b = hdr @ rest" "DecodeTag (hdr @ rest) = (t, length hdr)" "hdr \<noteq> []"
  shows "tag_at e m b off = Inr (t, length hdr)"
proof -
  have "off < length b" using assms(1,3) by (metis append_is_Nil_conv drop_eq_Nil2 not_le)
  then show ?thesis using assms by (simp add: tag_at_def)
qed

lemma tag_at_ctx:
  "drop off b = ctx_tag n len @ rest \<Longrightarrow> len \<le> 4294967295 \<Longrightarrow>
     tag_at e m b off = Inr (decoded_tag n (int len) True False False, length (ctx_tag n len))"
  by (rule tag_at_step) (simp_all add: DecodeTag_ctx_tag)

lemma tag_at_open:
  "drop off b = open_tag n @ rest \<Longrightarrow>
     tag_at e m b off = Inr (decoded_tag n 0 True True False, length (open_tag n))"
  by (rule tag_at_step) (simp_all add: DecodeTag_open_tag)

lemma tag_at_close:
  "drop off b = close_tag n @ rest \<Longrightarrow>
     tag_at e m b off = Inr (decoded_tag n 0 True False True, length (close_tag n))"
  by (rule tag_at_step) (simp_all add: DecodeTag_close_tag)

lemma value_at_step:
  assumes "drop off b = hdr @ val @ rest" "h = length hdr" "LenValue t = int (length val)"
    and "hdr \<noteq> []"
  shows "value_at e b off t h = Inr (val, off + length hdr + length val)"
proof -
  have l: "off + length hdr + length val + length rest = length b"
    using drop_length_bound [OF assms(1,4)] by simp
  have "drop (off + length hdr) b = val @ rest" using drop_advance [OF assms(1)] .
  with l assms(2,3) show ?thesis by (simp add: value_at_def subslice_at_n)
qed

lemma tag_at_Inr:
  assumes "tag_at e m b off = Inr (t, h)"
  shows "0 < h" "off + h \<le> length b" "off < length b" "tag_wf t" "DecodeTag (drop off b) = (t, h)"
proof -
  from assms have d: "DecodeTag (drop off b) = (t, h)" and lt: "off < length b" and h: "0 < h"
    by (auto simp: tag_at_def split: if_splits prod.splits)
  show "0 < h" "off < length b" "DecodeTag (drop off b) = (t, h)" by fact+
  from DecodeTag_bounds(2) [OF d] lt show "off + h \<le> length b" by simp
  from DecodeTag_bounds(1) [OF d] show "tag_wf t" .
qed

lemma tag_at_total:
  "tag_at e m b off = Inl (Err e) \<or> tag_at e m b off = Inl (Err m) \<or> (\<exists>t h. tag_at e m b off = Inr (t, h))"
  by (auto simp: tag_at_def split: prod.splits)

lemma value_at_Inr:
  assumes "value_at e b off t h = Inr (v, off')"
  shows "int (length v) = LenValue t" "off' = off + h + length v" "off' \<le> length b \<or> off' = off + h"
    "v = subslice b (off + h) off'"
  using assms by (auto simp: value_at_def subslice_def split: if_splits)

lemmas tag_predicates = primitive_context_def length_between_def opening_context_def closing_context_def
  any_length_def

lemma decoded_tag_predicates [simp]:
  "primitive_context m (decoded_tag n len ctx opn cls) \<longleftrightarrow> ctx \<and> n = m \<and> \<not> opn \<and> \<not> cls"
  "opening_context m (decoded_tag n len ctx opn cls) \<longleftrightarrow> ctx \<and> n = m \<and> opn"
  "closing_context m (decoded_tag n len ctx opn cls) \<longleftrightarrow> ctx \<and> n = m \<and> cls"
  "length_between lo hi (decoded_tag n len ctx opn cls) \<longleftrightarrow> lo \<le> len \<and> len \<le> hi"
  "any_length t"
  by (auto simp: tag_predicates)

lemma drop_lt_length: "drop off b = xs @ rest \<Longrightarrow> xs \<noteq> [] \<Longrightarrow> off < length b"
  by (metis append_is_Nil_conv drop_eq_Nil2 not_le)

lemma expect_tag_step:
  assumes "drop off b = hdr @ rest" "DecodeTag (hdr @ rest) = (t, length hdr)" "hdr \<noteq> []" "P t"
  shows "expect_tag e m P b off = Inr (t, length hdr)"
  using drop_lt_length [OF assms(1,3)] assms by (simp add: expect_tag_def)

lemma expect_tag_open:
  "drop off b = open_tag n @ rest \<Longrightarrow> P (decoded_tag n 0 True True False) \<Longrightarrow>
     expect_tag e m P b off = Inr (decoded_tag n 0 True True False, length (open_tag n))"
  by (rule expect_tag_step) (simp_all add: DecodeTag_open_tag)

lemma expect_tag_close:
  "drop off b = close_tag n @ rest \<Longrightarrow> P (decoded_tag n 0 True False True) \<Longrightarrow>
     expect_tag e m P b off = Inr (decoded_tag n 0 True False True, length (close_tag n))"
  by (rule expect_tag_step) (simp_all add: DecodeTag_close_tag)

lemma expect_value_step:
  assumes "drop off b = hdr @ val @ rest" "DecodeTag (hdr @ val @ rest) = (t, length hdr)" "hdr \<noteq> []"
    and "LenValue t = int (length val)" "P t" "Q t"
  shows "expect_value e m tr P Q b off = Inr (val, off + length hdr + length val)"
proof -
  have l: "off + length hdr + length val + length rest = length b"
    using drop_length_bound [OF assms(1,3)] by simp
  have "drop (off + length hdr) b = val @ rest" using drop_advance [OF assms(1)] .
  moreover have "expect_tag e m P b off = Inr (t, length hdr)"
    by (rule expect_tag_step [OF assms(1)]) (use assms in simp_all)
  ultimately show ?thesis using l assms(4,6)
    by (simp add: expect_value_def subslice_at_n)
qed

lemma expect_value_ctx:
  assumes "drop off b = ctx_tag n (length val) @ val @ rest" "length val \<le> 4294967295"
    and "P (decoded_tag n (int (length val)) True False False)" "Q (decoded_tag n (int (length val)) True False False)"
  shows "expect_value e m tr P Q b off = Inr (val, off + length (ctx_tag n (length val)) + length val)"
  by (rule expect_value_step [OF assms(1) DecodeTag_ctx_tag [OF assms(2)]]) (use assms in simp_all)

lemma optional_unsigned_ctx:
  assumes "drop off b = ctx_tag n (length val) @ val @ rest" "1 \<le> length val" "length val \<le> 4"
  shows "optional_unsigned n tr b off = Inr (Some val, off + length (ctx_tag n (length val)) + length val)"
proof -
  have u: "length val \<le> 4294967295" using assms(3) by linarith
  have l: "off + length (ctx_tag n (length val)) + length val + length rest = length b"
    using drop_length_bound [OF assms(1)] u by simp
  have "drop (off + length (ctx_tag n (length val))) b = val @ rest" using drop_advance [OF assms(1)] .
  moreover have "0 < length (ctx_tag n (length val))" using u by simp
  moreover have "off < length b" using drop_lt_length [OF assms(1)] u by simp
  ultimately show ?thesis
    using l assms DecodeTag_ctx_tag [OF u, of n "val @ rest"]
    by (simp add: optional_unsigned_def subslice_at_n)
qed

text \<open>The peek skips over anything that is not the primitive context tag it looks for.\<close>

lemma optional_unsigned_skip:
  assumes "drop off b = hdr @ rest" "DecodeTag (hdr @ rest) = (t, h)" "\<not> primitive_context n t"
  shows "optional_unsigned n tr b off = Inr (None, off)"
  using assms by (simp add: optional_unsigned_def)

lemma optional_unsigned_open:
  "drop off b = open_tag m @ rest \<Longrightarrow> optional_unsigned n tr b off = Inr (None, off)"
  by (rule optional_unsigned_skip [OF _ DecodeTag_open_tag]) simp_all

lemma optional_unsigned_close:
  "drop off b = close_tag m @ rest \<Longrightarrow> optional_unsigned n tr b off = Inr (None, off)"
  by (rule optional_unsigned_skip [OF _ DecodeTag_close_tag]) simp_all

lemma optional_unsigned_other:
  "drop off b = ctx_tag m len @ rest \<Longrightarrow> len \<le> 4294967295 \<Longrightarrow> m \<noteq> n \<Longrightarrow>
     optional_unsigned n tr b off = Inr (None, off)"
  by (rule optional_unsigned_skip [OF _ DecodeTag_ctx_tag]) simp_all

lemma optional_unsigned_end: "length b \<le> off \<Longrightarrow> optional_unsigned n tr b off = Inr (None, off)"
  by (simp add: optional_unsigned_def)

lemma expect_tag_Inr:
  assumes "expect_tag e m P b off = Inr (t, h)"
  shows "0 < h" "off + h \<le> length b" "P t" "tag_wf t"
proof -
  from assms have d: "DecodeTag (drop off b) = (t, h)" and lt: "off < length b" and h: "0 < h" and P: "P t"
    by (auto simp: expect_tag_def split: if_splits prod.splits)
  show "0 < h" "P t" by fact+
  from DecodeTag_bounds(2) [OF d] lt show "off + h \<le> length b" by simp
  from DecodeTag_bounds(1) [OF d] show "tag_wf t" .
qed

lemma expect_value_Inr:
  assumes "expect_value e m tr P Q b off = Inr (v, off')"
  shows "off < off'" "off' \<le> length b" "length v \<le> off' - off"
proof -
  from assms obtain t h where t: "expect_tag e m P b off = Inr (t, h)"
    and q: "\<not> (int (length b) - int off - int h < LenValue t)"
    and v: "v = subslice b (off + h) (off + h + nat (LenValue t))" and o: "off' = off + h + nat (LenValue t)"
    by (auto simp: expect_value_def bind_res_eq_Inr split: if_splits)
  from expect_tag_Inr [OF t] q v o show "off < off'" "off' \<le> length b" "length v \<le> off' - off"
    by (auto simp: tag_wf_def subslice_def)
qed

lemma optional_unsigned_Inr:
  assumes "optional_unsigned n tr b off = Inr (v, off')"
  shows "off \<le> off'" "off \<le> length b \<Longrightarrow> off' \<le> length b"
proof -
  obtain t h where t: "DecodeTag (drop off b) = (t, h)" by fastforce
  show "off \<le> off'" "off \<le> length b \<Longrightarrow> off' \<le> length b"
    using assms t DecodeTag_bounds(1,2) [OF t]
    by (auto simp: optional_unsigned_def tag_wf_def split: if_splits)
qed

end
