(* ===== verification/Property.thy ===== *)
theory Property
  imports Property_Value Cursor
begin

text \<open>
  Properties with their values, \<^verbatim>\<open>bacnet/types/property.go\<close>: the parameters of ReadProperty and
  WriteProperty.  \<^verbatim>\<open>Values\<close> is a slice of pointers, so its elements are options; \<^verbatim>\<open>EncodedValue\<close> is an
  option because the code tests it against nil.  \<^verbatim>\<open>UnmarshalBinary\<close> returns the receiver's new contents.
\<close>

definition BacnetArrayAll :: u32 where "BacnetArrayAll = 4294967295"

record Property =
  p_IPAddress :: bytes
  p_ObjectId :: "ObjectId option"
  p_ID :: u32
  p_Index :: u32
  p_HasIndex :: bool
  p_Values :: "PropertyValue option list"
  p_EncodedValue :: "bytes option"
  p_Priority :: u8
  p_Length :: nat

definition Property_zero :: Property where
  "Property_zero = \<lparr>p_IPAddress = [], p_ObjectId = None, p_ID = 0, p_Index = 0, p_HasIndex = False,
     p_Values = [], p_EncodedValue = None, p_Priority = 0, p_Length = 0\<rparr>"

definition ReadValuesAsObjects :: "Property \<Rightarrow> (ObjectId option) list result" where
  "ReadValuesAsObjects p =
     map_res (\<lambda>v. case v of None \<Rightarrow> Inl Panic | Some v \<Rightarrow> Inr (ReadAsObject v)) (p_Values p)"

section \<open>Encoding\<close>

text \<open>The loop \<^verbatim>\<open>for _, value := range p.Values\<close>.\<close>

fun marshal_values :: "PropertyValue option list \<Rightarrow> bytes result" where
  "marshal_values [] = Inr []"
| "marshal_values (None # vs) = Inl (Err ''property contains a nil value'')"
| "marshal_values (Some v # vs) =
     bind_res (PropertyValue_MarshalBinary v) (\<lambda>x. bind_res (marshal_values vs) (\<lambda>xs. Inr (x @ xs)))"

definition Property_MarshalBinary :: "Property \<Rightarrow> bytes result" where
  "Property_MarshalBinary p =
     (let oid = (case p_ObjectId p of None \<Rightarrow> [] | Some o1 \<Rightarrow> ctx_tag 0 4 @ ObjectId_MarshalBinary o1);
          propertyID = EncodeVarUint (p_ID p);
          pid = ctx_tag 1 (length propertyID) @ propertyID;
          index = EncodeVarUint (p_Index p);
          idx = (if p_HasIndex p \<or> (p_Index p \<noteq> 0 \<and> p_Index p \<noteq> BacnetArrayAll)
                 then ctx_tag 2 (length index) @ index else [])
      in if length (p_Values p) > 0 \<or> p_EncodedValue p \<noteq> None
         then bind_res (case p_EncodedValue p of Some e \<Rightarrow> Inr e | None \<Rightarrow> marshal_values (p_Values p))
                (\<lambda>content. Inr (oid @ pid @ idx @ open_tag 3 @ content @ close_tag 3))
         else Inr (oid @ pid @ idx))"

section \<open>Decoding\<close>

text \<open>
  The scan for the closing tag that matches, with its stack of open tag numbers (innermost first).
  The result is the offset of the contents' end and the offset after the closing tag.  The scan occurs
  twice in the sources with different texts for an unclosed value, hence the argument \<open>u\<close>.
\<close>

function value_bounds :: "string \<Rightarrow> bytes \<Rightarrow> nat \<Rightarrow> u8 list \<Rightarrow> (nat \<times> nat) result" where
  "value_bounds u b off stack =
     (if length b \<le> off then Inl (Err u)
      else (let (tag, h) = DecodeTag (drop off b) in
        if h = 0 then Inl (Err ''malformed tag in property value'')
        else if Opening tag then value_bounds u b (off + h) (TagNumber tag # stack)
        else if Closing tag then
          (if stack = [] \<or> hd stack \<noteq> TagNumber tag
           then Inl (Err ''mismatched closing tag in property value'')
           else if tl stack = [] then Inr (off, off + h)
           else value_bounds u b (off + h) (tl stack))
        else (let payloadLength =
                (if \<not> Context tag \<and> (TagNumber tag = TagNull \<or> TagNumber tag = TagBoolean)
                 then 0 else LenValue tag) in
          if payloadLength < 0 \<or> int (length b) - int (off + h) < payloadLength
          then Inl (Err ''property value is truncated'')
          else value_bounds u b (off + h + nat payloadLength) stack)))"
  by pat_completeness auto
termination by (relation "measure (\<lambda>(u, b, off, stack). length b - off)") auto

declare value_bounds.simps [simp del]

definition propertyValueBounds :: "bytes \<Rightarrow> nat \<Rightarrow> u8 \<Rightarrow> (nat \<times> nat) result" where
  "propertyValueBounds b off outerTag = value_bounds ''property value is not closed'' b off [outerTag]"

abbreviation (input) prop_tag_at where
  "prop_tag_at \<equiv> tag_at ''unexpected end of property data'' ''malformed property tag''"

text \<open>
  The loop over the contents: \<open>None\<close> stands for the early return with \<^verbatim>\<open>EncodedValue\<close> set, on a
  context, opening or closing tag.
\<close>

function property_values_loop ::
  "bytes \<Rightarrow> nat \<Rightarrow> nat \<Rightarrow> PropertyValue list \<Rightarrow> PropertyValue list option result" where
  "property_values_loop b contentEnd off values =
     (if contentEnd \<le> off then Inr (Some values)
      else bind_res (prop_tag_at b off) (\<lambda>(tag, h).
        if Context tag \<or> Opening tag \<or> Closing tag then Inr None
        else (let payloadLength = (if TagNumber tag = TagNull \<or> TagNumber tag = TagBoolean
                                   then 0 else LenValue tag) in
          if payloadLength < 0 \<or> int (length b) - int off - int h < payloadLength
          then Inl (Err ''property value is truncated'')
          else bind_res (PropertyValue_UnmarshalBinary (subslice b off (off + h + nat payloadLength)))
            (\<lambda>v. property_values_loop b contentEnd (off + h + nat payloadLength) (values @ [v])))))"
  by pat_completeness auto
termination
  by (relation "measure (\<lambda>(b, e, off, vs). e - off)") (auto dest: tag_at_Inr(1))

declare property_values_loop.simps [simp del]

text \<open>The constructed value: the part of \<^verbatim>\<open>UnmarshalBinary\<close> from its opening tag on.\<close>

definition property_value_part :: "bytes \<Rightarrow> nat \<Rightarrow> u8 \<Rightarrow> Property \<Rightarrow> Property result" where
  "property_value_part b off outer p =
     bind_res (prop_tag_at b off) (\<lambda>(tag, h).
       if \<not> IsContext tag outer \<or> \<not> Opening tag then Inl (Err ''expected opening property value tag'')
       else bind_res (propertyValueBounds b (off + h) outer) (\<lambda>(contentEnd, valueEnd).
         bind_res (property_values_loop b contentEnd (off + h) []) (\<lambda>vs. case vs of
           None \<Rightarrow> Inr (p\<lparr>p_Values := [], p_EncodedValue := Some (subslice b (off + h) contentEnd),
                           p_Length := valueEnd\<rparr>)
         | Some vs \<Rightarrow> Inr (p\<lparr>p_Values := map Some vs, p_EncodedValue := None, p_Length := valueEnd\<rparr>))))"

text \<open>Property identifier, optional array index and optional value, at the tag number \<open>tagStart\<close>.\<close>

definition property_index_part :: "bytes \<Rightarrow> nat \<Rightarrow> u8 \<Rightarrow> Property \<Rightarrow> (Property \<times> nat) result" where
  "property_index_part b off n p =
     (if off < length b then
        bind_res (prop_tag_at b off) (\<lambda>(tag, h).
          if IsContext tag n \<and> \<not> Opening tag \<and> \<not> Closing tag then
            (if LenValue tag < 1 \<or> LenValue tag > 4 then Inl (Err ''invalid property array index length'')
             else bind_res (value_at ''property value is truncated'' b off tag h) (\<lambda>(value, off).
               Inr (p\<lparr>p_Index := DecodeVarUint value, p_HasIndex := True\<rparr>, off)))
          else Inr (p, off))
      else Inr (p, off))"

definition property_rest :: "bytes \<Rightarrow> nat \<Rightarrow> u8 \<Rightarrow> Property \<Rightarrow> Property result" where
  "property_rest b off tagStart p =
     bind_res (prop_tag_at b off) (\<lambda>(tag, h).
       if \<not> IsContext tag tagStart \<or> Opening tag \<or> Closing tag \<or> LenValue tag < 1 \<or> LenValue tag > 4
       then Inl (Err ''unexpected property identifier tag'')
       else bind_res (value_at ''property value is truncated'' b off tag h) (\<lambda>(value, off).
         bind_res (property_index_part b off (tagStart + 1)
                     (p\<lparr>p_ID := DecodeVarUint value, p_Index := 4294967295, p_HasIndex := False\<rparr>))
           (\<lambda>(p, off).
             if off = length b then Inr (p\<lparr>p_Values := [], p_EncodedValue := None, p_Length := off\<rparr>)
             else property_value_part b off (tagStart + 2) p)))"

definition Property_UnmarshalBinary :: "Property \<Rightarrow> bytes \<Rightarrow> Property result" where
  "Property_UnmarshalBinary p0 b =
     (if length b = 0 then Inl (Err ''received an empty byte slice'')
      else (let (firstTag, h0) = DecodeTag b in
        if h0 = 0 then Inl (Err ''malformed property tag'')
        else (let full = (IsContext firstTag 0 \<and> \<not> Opening firstTag \<and> \<not> Closing firstTag
                          \<and> LenValue firstTag = 4);
                  p = Property_zero\<lparr>p_IPAddress := p_IPAddress p0,
                                    p_ObjectId := (if full then None else p_ObjectId p0)\<rparr>
              in if full then
                   bind_res (prop_tag_at b 0) (\<lambda>(tag, h).
                     if \<not> IsContext tag 0 \<or> Opening tag \<or> Closing tag \<or> LenValue tag \<noteq> 4
                     then Inl (Err ''unexpected object identifier tag'')
                     else bind_res (value_at ''property value is truncated'' b 0 tag h) (\<lambda>(value, off).
                       bind_res (ObjectId_UnmarshalBinary ObjectId_zero value) (\<lambda>o1.
                         property_rest b off 1 (p\<lparr>p_ObjectId := Some o1\<rparr>))))
                 else property_rest b 0 0 p)))"

section \<open>Nested constructed data\<close>

text \<open>
  The reference grammar of a constructed value: primitive elements with a context or application tag,
  the two application types whose tag carries the value, and bracketed sequences.
\<close>

datatype tlv =
    TPrim bool u8 bytes      \<comment> \<open>context?, tag number, payload\<close>
  | TFlag u8 nat             \<comment> \<open>application null or boolean with its length field\<close>
  | TCons u8 "tlv list"

fun enc_tlv :: "tlv \<Rightarrow> bytes" and enc_tlvs :: "tlv list \<Rightarrow> bytes" where
  "enc_tlv (TPrim ctx n pl) = (if ctx then ctx_tag n (length pl) else app_tag n (length pl)) @ pl"
| "enc_tlv (TFlag n v) = app_tag n v"
| "enc_tlv (TCons n ts) = open_tag n @ enc_tlvs ts @ close_tag n"
| "enc_tlvs [] = []"
| "enc_tlvs (t # ts) = enc_tlv t @ enc_tlvs ts"

fun tlv_ok :: "tlv \<Rightarrow> bool" and tlvs_ok :: "tlv list \<Rightarrow> bool" where
  "tlv_ok (TPrim ctx n pl) = (length pl \<le> 4294967295 \<and> (ctx \<or> n \<noteq> TagNull \<and> n \<noteq> TagBoolean))"
| "tlv_ok (TFlag n v) = ((n = TagNull \<or> n = TagBoolean) \<and> v \<le> 4294967295)"
| "tlv_ok (TCons n ts) = tlvs_ok ts"
| "tlvs_ok [] = True"
| "tlvs_ok (t # ts) = (tlv_ok t \<and> tlvs_ok ts)"

lemma app_tag_nonempty [simp]: "n \<le> 4294967295 \<Longrightarrow> app_tag t n \<noteq> []"
  using length_app_tag [of n t] by auto

lemma tag_at_app:
  "drop off b = app_tag n len @ rest \<Longrightarrow> len \<le> 4294967295 \<Longrightarrow>
     tag_at e m b off = Inr (decoded_tag n (int len) False False False, length (app_tag n len))"
  by (rule tag_at_step) (simp_all add: DecodeTag_app_tag)

text \<open>One step of the bounds scan over a header that decodes.\<close>

lemma bounds_step:
  assumes "drop off b = hdr @ rest" "DecodeTag (hdr @ rest) = (t, length hdr)" "hdr \<noteq> []"
  shows "value_bounds u b off stack =
     (if Opening t then value_bounds u b (off + length hdr) (TagNumber t # stack)
      else if Closing t then
        (if stack = [] \<or> hd stack \<noteq> TagNumber t
         then Inl (Err ''mismatched closing tag in property value'')
         else if tl stack = [] then Inr (off, off + length hdr)
         else value_bounds u b (off + length hdr) (tl stack))
      else (let n = (if \<not> Context t \<and> (TagNumber t = TagNull \<or> TagNumber t = TagBoolean)
                     then 0 else LenValue t) in
        if n < 0 \<or> int (length rest) < n then Inl (Err ''property value is truncated'')
        else value_bounds u b (off + length hdr + nat n) stack))"
proof -
  have "off + length hdr + length rest = length b" using drop_length_bound [OF assms(1,3)] .
  then have "\<not> length b \<le> off" "int (length b) - int (off + length hdr) = int (length rest)"
    using assms(3) by (auto simp flip: length_greater_0_conv)
  then show ?thesis
    using assms by (subst value_bounds.simps) (simp add: Let_def)
qed

lemma bounds_close:
  assumes "drop off b = close_tag n @ rest"
  shows "value_bounds u b off (n # stack) =
     (if stack = [] then Inr (off, off + length (close_tag n))
      else value_bounds u b (off + length (close_tag n)) stack)"
  by (subst bounds_step [OF assms DecodeTag_close_tag]) simp_all

lemma bounds_open:
  assumes "drop off b = open_tag n @ rest"
  shows "value_bounds u b off stack = value_bounds u b (off + length (open_tag n)) (n # stack)"
  by (subst bounds_step [OF assms DecodeTag_open_tag]) simp_all

text \<open>The scan passes over any well-formed sequence of elements and leaves its stack as it was.\<close>

lemma bounds_skip:
  shows "tlv_ok t \<Longrightarrow> stack \<noteq> [] \<Longrightarrow> drop off b = enc_tlv t @ rest \<Longrightarrow>
      value_bounds u b off stack = value_bounds u b (off + length (enc_tlv t)) stack"
    and "tlvs_ok ts \<Longrightarrow> stack \<noteq> [] \<Longrightarrow> drop off b = enc_tlvs ts @ rest \<Longrightarrow>
      value_bounds u b off stack = value_bounds u b (off + length (enc_tlvs ts)) stack"
proof (induction t and ts arbitrary: off stack rest and off stack rest rule: enc_tlv_enc_tlvs.induct)
  case (1 ctx n pl)
  show ?case
  proof (cases ctx)
    case True
    with 1 have d: "drop off b = ctx_tag n (length pl) @ (pl @ rest)" and l: "length pl \<le> 4294967295" by simp_all
    show ?thesis
      by (subst bounds_step [OF d DecodeTag_ctx_tag [OF l]]) (use True l in \<open>simp_all add: add.assoc\<close>)
  next
    case False
    with 1 have d: "drop off b = app_tag n (length pl) @ (pl @ rest)" and l: "length pl \<le> 4294967295" by simp_all
    show ?thesis
      by (subst bounds_step [OF d DecodeTag_app_tag [OF l]]) (use False l 1(1) in \<open>simp_all add: add.assoc\<close>)
  qed
next
  case (2 n v)
  then have d: "drop off b = app_tag n v @ rest" and l: "v \<le> 4294967295" by simp_all
  show ?case by (subst bounds_step [OF d DecodeTag_app_tag [OF l]]) (use 2 in simp_all)
next
  case (3 n ts)
  then have d: "drop off b = open_tag n @ (enc_tlvs ts @ close_tag n @ rest)" by simp
  note a = drop_advance [OF d]
  from 3 have ok: "tlvs_ok ts" by simp
  have ih: "value_bounds u b (off + length (open_tag n)) (n # stack)
      = value_bounds u b (off + length (open_tag n) + length (enc_tlvs ts)) (n # stack)"
    using 3(1) [OF ok _ a] by simp
  show ?case
    unfolding bounds_open [OF d] ih bounds_close [OF drop_advance [OF a]]
    using 3(3) by (simp add: add.assoc)
next
  case 4
  then show ?case by simp
next
  case (5 t ts)
  then have d: "drop off b = enc_tlv t @ (enc_tlvs ts @ rest)" by simp
  have "value_bounds u b off stack = value_bounds u b (off + length (enc_tlv t)) stack"
    by (rule 5(1) [OF _ _ d]) (use 5 in simp_all)
  also have "\<dots> = value_bounds u b (off + length (enc_tlv t) + length (enc_tlvs ts)) stack"
    by (rule 5(2) [OF _ _ drop_advance [OF d]]) (use 5 in simp_all)
  finally show ?case by (simp add: add.assoc)
qed

lemma bounds_enc_tlvs:
  assumes "tlvs_ok ts" "drop off b = enc_tlvs ts @ close_tag n @ rest"
  shows "value_bounds u b off [n]
     = Inr (off + length (enc_tlvs ts), off + length (enc_tlvs ts) + length (close_tag n))"
  using bounds_skip(2) [OF assms(1) _ assms(2), of "[n]"] bounds_close [OF drop_advance [OF assms(2)], of u "[]"]
  by simp

text \<open>Conversely, whatever the scan returns lies inside the slice and ends in a closing tag.\<close>

lemma value_bounds_sound:
  "value_bounds u b off stack = Inr (s, e) \<Longrightarrow>
     off \<le> s \<and> s < e \<and> e \<le> length b \<and> (\<exists>t. DecodeTag (drop s b) = (t, e - s) \<and> Closing t)"
proof (induction u b off stack arbitrary: s e rule: value_bounds.induct)
  case (1 u b off stack)
  obtain t h where t: "DecodeTag (drop off b) = (t, h)" by fastforce
  have h: "h \<le> length b - off" using DecodeTag_bounds(2) [OF t] by simp
  from 1(4) t have lt: "off < length b" and h0: "0 < h"
    by (subst (asm) value_bounds.simps; auto split: if_splits)+
  consider "Opening t" | "\<not> Opening t" "Closing t" | "\<not> Opening t" "\<not> Closing t" by blast
  then show ?case
  proof cases
    case 1
    with "1.prems" t h0 lt have "value_bounds u b (off + h) (TagNumber t # stack) = Inr (s, e)"
      by (subst (asm) value_bounds.simps) simp
    with "1.IH"(1) [OF _ _ t [symmetric]] 1 lt h0 show ?thesis by fastforce
  next
    case 2
    show ?thesis
    proof (cases "tl stack = []")
      case True
      with "1.prems" t h0 lt 2 have "s = off" "e = off + h"
        by (subst (asm) value_bounds.simps; simp split: if_splits)+
      then show ?thesis using t h h0 lt 2 by auto
    next
      case False
      with "1.prems" t h0 lt 2 have "value_bounds u b (off + h) (tl stack) = Inr (s, e)"
        and "\<not> (stack = [] \<or> hd stack \<noteq> TagNumber t)"
        by (subst (asm) value_bounds.simps; simp split: if_splits)+
      with "1.IH"(2) [OF _ _ t [symmetric]] 2 lt h0 False show ?thesis by fastforce
    qed
  next
    case 3
    let ?n = "if \<not> Context t \<and> (TagNumber t = TagNull \<or> TagNumber t = TagBoolean) then 0 else LenValue t"
    have "value_bounds u b off stack =
        (if ?n < 0 \<or> int (length b) - int (off + h) < ?n then Inl (Err ''property value is truncated'')
         else value_bounds u b (off + h + nat ?n) stack)"
      using t h0 lt 3 by (subst value_bounds.simps) (simp only: Let_def prod.case if_False not_le [symmetric], simp)
    then have r: "value_bounds u b (off + h + nat ?n) stack = Inr (s, e)"
      and g: "\<not> (?n < 0 \<or> int (length b) - int (off + h) < ?n)"
      using "1.prems" by (metis Inl_Inr_False)+
    show ?thesis
      using "1.IH"(3) [OF _ _ t [symmetric] _ _ _ refl g r] lt h0 3 by fastforce
  qed
qed

section \<open>Round trips\<close>

text \<open>\<open>wire_of v\<close> is the value a peer reads after \<open>v\<close> has been marshalled.\<close>

definition wire_of :: "PropertyValue \<Rightarrow> PropertyValue" where
  "wire_of v = (case PropertyValue_coerce v of Inr q \<Rightarrow> wire_value q | Inl _ \<Rightarrow> v)"

lemma Unmarshal_Marshal:
  "PropertyValue_MarshalBinary v = Inr b \<Longrightarrow> wire_ok v \<Longrightarrow>
     PropertyValue_UnmarshalBinary (b @ rest) = Inr (wire_of v)"
  using PropertyValue_decodes [of v b rest] by (auto simp: wire_of_def)

lemma wire_of_decoded: "decoded_wf v \<Longrightarrow> no_NaN32 v \<Longrightarrow> wire_of v = v"
proof -
  assume v: "decoded_wf v" "no_NaN32 v"
  from decoded_reencodes [OF v] obtain b where b: "PropertyValue_MarshalBinary v = Inr b"
    "PropertyValue_UnmarshalBinary (b @ []) = Inr v" by blast
  have "wire_ok v" using v(1) by (simp add: decoded_wf_def)
  from Unmarshal_Marshal [OF b(1) this, of "[]"] b(2) show "wire_of v = v" by simp
qed

lemma length_EncodeVar_u32 [simp]:
  "length (EncodeVarUint v) \<le> 4294967295" "length (EncodeVarInt v) \<le> 4294967295"
  "\<not> 4 < length (EncodeVarUint v)" "\<not> 4 < length (EncodeVarInt v)"
  using EncodeVar_length(2) [of v] EncodeVar_length(4) [of v] by linarith+

text \<open>A marshalled value is one element: an application tag and as many octets as it announces.\<close>

lemma marshalled_element:
  assumes "PropertyValue_MarshalBinary v = Inr b" "wire_ok v"
  shows "\<exists>n len pl. b = app_tag n len @ pl \<and> len \<le> 4294967295
    \<and> length pl = (if n = TagNull \<or> n = TagBoolean then 0 else len)"
proof -
  from assms(1) obtain q where q: "PropertyValue_coerce v = Inr q" and b: "PropertyValue_encode q = Inr b"
    by (auto simp: PropertyValue_MarshalBinary_def bind_res_eq_Inr)
  have ok: "wire_ok q" using coerce_wire_ok [OF q assms(2)] .
  have build: "\<exists>n len pl. b = app_tag n len @ pl \<and> len \<le> 4294967295
      \<and> length pl = (if n = TagNull \<or> n = TagBoolean then 0 else len)"
    if "b = app_tag n (length pl) @ pl" "length pl \<le> 4294967295" "n \<noteq> TagNull" "n \<noteq> TagBoolean" for n pl
    using that by force
  from b show ?thesis
  proof (cases rule: PropertyValue_encode_cases)
    case null then show ?thesis by (intro exI [of _ 0] exI [of _ "[]"] exI [of _ "0::nat"]) simp
  next
    case bool then show ?thesis
      by (intro exI [of _ 1] exI [of _ "if pv_Value q = VBool True then 1 else 0"] exI [of _ "[]"]) auto
  next
    case (unsigned x) then show ?thesis using length_EncodeVar_u32 by (intro build) auto
  next
    case (signed x) then show ?thesis using length_EncodeVar_u32 by (intro build) auto
  next
    case (octets x) then show ?thesis using ok by (intro build) (auto simp: wire_ok_def wire_ok_value_def)
  next
    case (chars x) then show ?thesis using ok
      by (intro build [of _ "CharacterString_MarshalBinary x"]) (auto simp: wire_ok_def wire_ok_value_def)
  next
    case (bits x) then show ?thesis using ok by (intro build) (auto simp: wire_ok_def wire_ok_value_def)
  next
    case (real x) then show ?thesis by (intro build [of 4 "Real_MarshalBinary x"]) simp_all
  next
    case (double x) then show ?thesis by (intro build [of 5 "Double_MarshalBinary x"]) simp_all
  next
    case (date x) then show ?thesis by (intro build [of 10 "Date_MarshalBinary x"]) simp_all
  next
    case (time x) then show ?thesis by (intro build [of 11 "Time_MarshalBinary x"]) simp_all
  next
    case (oid x) then show ?thesis by (intro build [of 12 "ObjectId_MarshalBinary x"]) simp_all
  qed
qed

lemma values_loop_step:
  assumes "PropertyValue_MarshalBinary v = Inr x" "wire_ok v" "drop off b = x @ rest" "off < e"
  shows "property_values_loop b e off acc = property_values_loop b e (off + length x) (acc @ [wire_of v])"
proof -
  from marshalled_element [OF assms(1,2)] obtain n len pl where
    x: "x = app_tag n len @ pl" and len: "len \<le> 4294967295"
    and pl: "length pl = (if n = TagNull \<or> n = TagBoolean then 0 else len)" by blast
  have d: "drop off b = app_tag n len @ (pl @ rest)" using assms(3) x by simp
  note ta = tag_at_app [OF d len]
  have lb: "off + length (app_tag n len) + length pl + length rest = length b"
    using drop_length_bound [OF d] len by simp
  have u: "PropertyValue_UnmarshalBinary (subslice b off (off + (length (app_tag n len) + length pl))) = Inr (wire_of v)"
    using Unmarshal_Marshal [OF assms(1,2), of "[]"] assms(3) x by (simp add: subslice_def)
  show ?thesis
    using assms(4) lb u pl by (subst property_values_loop.simps) (auto simp: ta Let_def x add.assoc)
qed

lemma values_loop_marshalled:
  assumes "marshal_values (map Some vs) = Inr content" "\<forall>v \<in> set vs. wire_ok v"
    and "drop off b = content @ rest"
  shows "property_values_loop b (off + length content) off acc = Inr (Some (acc @ map wire_of vs))"
  using assms
proof (induction vs arbitrary: content off acc)
  case Nil
  then show ?case by (subst property_values_loop.simps) simp
next
  case (Cons v vs)
  from Cons.prems(1) obtain x xs where x: "PropertyValue_MarshalBinary v = Inr x"
    and xs: "marshal_values (map Some vs) = Inr xs" and c: "content = x @ xs"
    by (auto simp: bind_res_eq_Inr)
  have ok: "wire_ok v" "\<forall>v \<in> set vs. wire_ok v" using Cons.prems(2) by simp_all
  have d: "drop off b = x @ (xs @ rest)" using Cons.prems(3) c by simp
  have "x \<noteq> []" using marshalled_element [OF x ok(1)] by force
  then have "property_values_loop b (off + length content) off acc
      = property_values_loop b (off + length content) (off + length x) (acc @ [wire_of v])"
    using c by (intro values_loop_step [OF x ok(1) d]) simp
  also have "\<dots> = Inr (Some ((acc @ [wire_of v]) @ map wire_of vs))"
    using Cons.IH [OF xs ok(2) drop_advance [OF d], of "acc @ [wire_of v]"] c by (simp add: add.assoc)
  finally show ?case by simp
qed

lemma marshal_values_tlvs:
  assumes "marshal_values (map Some vs) = Inr content" "\<forall>v \<in> set vs. wire_ok v"
  shows "\<exists>ts. tlvs_ok ts \<and> content = enc_tlvs ts"
  using assms
proof (induction vs arbitrary: content)
  case Nil
  then show ?case by (intro exI [of _ "[]"]) simp
next
  case (Cons v vs)
  from Cons.prems(1) obtain x xs where x: "PropertyValue_MarshalBinary v = Inr x"
    and xs: "marshal_values (map Some vs) = Inr xs" and c: "content = x @ xs"
    by (auto simp: bind_res_eq_Inr)
  from Cons.IH [OF xs] Cons.prems(2) obtain ts where ts: "tlvs_ok ts" "xs = enc_tlvs ts" by auto
  from marshalled_element [OF x] Cons.prems(2) obtain n len pl where
    e: "x = app_tag n len @ pl" "len \<le> 4294967295"
    "length pl = (if n = TagNull \<or> n = TagBoolean then 0 else len)" by auto
  define t where "t = (if n = TagNull \<or> n = TagBoolean then TFlag n len else TPrim False n pl)"
  have "tlv_ok t" "enc_tlv t = x" using e by (auto simp: t_def)
  with ts c show ?case by (intro exI [of _ "t # ts"]) simp
qed

text \<open>The receiver after decoding what \<open>p\<close> encodes to, on a receiver with address \<open>ip\<close>.\<close>

definition has_index :: "Property \<Rightarrow> bool" where
  "has_index p \<longleftrightarrow> p_HasIndex p \<or> (p_Index p \<noteq> 0 \<and> p_Index p \<noteq> BacnetArrayAll)"

definition decoded_property :: "bytes \<Rightarrow> Property \<Rightarrow> PropertyValue option list \<Rightarrow> bytes option \<Rightarrow> nat \<Rightarrow> Property" where
  "decoded_property ip p vs enc len =
     \<lparr>p_IPAddress = ip, p_ObjectId = p_ObjectId p, p_ID = p_ID p,
      p_Index = (if has_index p then p_Index p else BacnetArrayAll), p_HasIndex = has_index p,
      p_Values = vs, p_EncodedValue = enc, p_Priority = 0, p_Length = len\<rparr>"

definition index_bytes :: "Property \<Rightarrow> bytes" where
  "index_bytes p = (if has_index p then ctx_tag 2 (length (EncodeVarUint (p_Index p))) @ EncodeVarUint (p_Index p) else [])"

lemma index_part_decodes:
  assumes "drop off b = index_bytes p @ rest" "rest = [] \<or> (\<exists>c. rest = open_tag 3 @ c)" "off \<le> length b"
  shows "property_index_part b off 2 q = Inr (q\<lparr>p_Index := (if has_index p then p_Index p else p_Index q),
     p_HasIndex := (has_index p \<or> p_HasIndex q)\<rparr>, off + length (index_bytes p))"
proof (cases "has_index p")
  case True
  let ?i = "EncodeVarUint (p_Index p)"
  from assms True have d: "drop off b = ctx_tag 2 (length ?i) @ (?i @ rest)" by (simp add: index_bytes_def)
  note va = value_at_step [OF d refl, of "decoded_tag 2 (int (length ?i)) True False False"]
  have "off < length b" using d by (metis append_is_Nil_conv drop_eq_Nil2 length_EncodeVar_u32(1) not_le tag_nonempty(1))
  then show ?thesis
    using True va by (simp add: property_index_part_def tag_at_ctx [OF d] index_bytes_def)
next
  case False
  show ?thesis
  proof (cases "rest = []")
    case True
    with False assms have "off = length b" by (simp add: index_bytes_def)
    with False show ?thesis by (simp add: property_index_part_def index_bytes_def)
  next
    case ne: False
    with False assms obtain c where d: "drop off b = open_tag 3 @ c" by (auto simp: index_bytes_def)
    then have "off < length b" by (metis append_is_Nil_conv drop_eq_Nil2 not_le tag_nonempty(2))
    with False show ?thesis by (simp add: property_index_part_def tag_at_open [OF d] index_bytes_def)
  qed
qed

lemma property_rest_decodes:
  assumes "drop off b = (ctx_tag 1 (length (EncodeVarUint (p_ID p))) @ EncodeVarUint (p_ID p)) @ index_bytes p @ rest"
    and "rest = [] \<or> (\<exists>c. rest = open_tag 3 @ c)"
  shows "property_rest b off 1 q =
    (let q' = q\<lparr>p_ID := p_ID p, p_Index := (if has_index p then p_Index p else BacnetArrayAll), p_HasIndex := has_index p\<rparr>;
         off' = length b - length rest
     in if rest = [] then Inr (q'\<lparr>p_Values := [], p_EncodedValue := None, p_Length := off'\<rparr>)
        else property_value_part b off' 3 q')"
proof -
  let ?i = "EncodeVarUint (p_ID p)"
  have d: "drop off b = ctx_tag 1 (length ?i) @ (?i @ index_bytes p @ rest)" using assms(1) by simp
  have lb: "off + length (ctx_tag 1 (length ?i)) + length ?i + length (index_bytes p) + length rest = length b"
    using drop_length_bound [OF d] by simp
  note d2 = drop_advance [OF drop_advance [OF d]]
  have va: "value_at ''property value is truncated'' b off (decoded_tag 1 (int (length ?i)) True False False)
      (length (ctx_tag 1 (length ?i))) = Inr (?i, off + length (ctx_tag 1 (length ?i)) + length ?i)"
    by (rule value_at_step [OF d]) simp_all
  have ip: "property_index_part b (off + length (ctx_tag 1 (length ?i)) + length ?i) 2 r
      = Inr (r\<lparr>p_Index := (if has_index p then p_Index p else p_Index r),
          p_HasIndex := (has_index p \<or> p_HasIndex r)\<rparr>, length b - length rest)" for r
    using index_part_decodes [OF d2 assms(2)] lb by simp
  have k: "(length b - length rest = length b) = (rest = [])"
    using lb by (cases rest) auto
  show ?thesis
    unfolding property_rest_def
    by (simp add: k tag_at_ctx [OF d] va ip BacnetArrayAll_def Let_def cong: if_cong)
qed

lemma value_part_values:
  assumes "drop off b = open_tag n @ content @ close_tag n @ rest"
    and "marshal_values (map Some vs) = Inr content" "\<forall>v \<in> set vs. wire_ok v"
  shows "property_value_part b off n q =
     Inr (q\<lparr>p_Values := map (Some \<circ> wire_of) vs, p_EncodedValue := None, p_Length := length b - length rest\<rparr>)"
proof -
  from marshal_values_tlvs [OF assms(2,3)] obtain ts where ts: "tlvs_ok ts" "content = enc_tlvs ts" by blast
  note d2 = drop_advance [OF assms(1)]
  have lb: "off + length (open_tag n) + length content + length (close_tag n) + length rest = length b"
    using drop_length_bound [OF assms(1)] by simp
  note bd = bounds_enc_tlvs [OF ts(1), OF d2 [unfolded ts(2)], folded ts(2)]
  note lp = values_loop_marshalled [OF assms(2,3) d2, of "[]"]
  show ?thesis unfolding property_value_part_def propertyValueBounds_def using lb
    by (simp add: tag_at_open [OF assms(1)] bd lp comp_def)
qed

text \<open>An element that is not an application value.\<close>

fun tlv_structured :: "tlv \<Rightarrow> bool" where
  "tlv_structured (TPrim ctx n pl) = ctx"
| "tlv_structured (TFlag n v) = False"
| "tlv_structured (TCons n ts) = True"

lemma value_part_encoded:
  assumes "drop off b = open_tag n @ enc_tlvs (t # ts) @ close_tag n @ rest"
    and "tlvs_ok (t # ts)" "tlv_structured t"
  shows "property_value_part b off n q =
     Inr (q\<lparr>p_Values := [], p_EncodedValue := Some (enc_tlvs (t # ts)), p_Length := length b - length rest\<rparr>)"
proof -
  note d2 = drop_advance [OF assms(1)]
  have lb: "off + length (open_tag n) + length (enc_tlvs (t # ts)) + length (close_tag n) + length rest = length b"
    using drop_length_bound [OF assms(1)] by simp
  note bd = bounds_enc_tlvs [OF assms(2) d2]
  have lp: "property_values_loop b (off + length (open_tag n) + length (enc_tlvs (t # ts))) (off + length (open_tag n)) []
      = Inr None"
  proof (cases t)
    case (TPrim ctx m pl)
    with assms have d: "drop (off + length (open_tag n)) b = ctx_tag m (length pl) @ (pl @ enc_tlvs ts @ close_tag n @ rest)"
      and l: "length pl \<le> 4294967295" using d2 by simp_all
    show ?thesis using TPrim assms(3) l
      by (subst property_values_loop.simps) (simp add: tag_at_ctx [OF d l])
  next
    case (TCons m us)
    then have d: "drop (off + length (open_tag n)) b
        = open_tag m @ (enc_tlvs us @ close_tag m @ enc_tlvs ts @ close_tag n @ rest)" using d2 by simp
    show ?thesis using TCons by (subst property_values_loop.simps) (simp add: tag_at_open [OF d])
  qed (use assms(3) in simp)
  have "subslice b (off + length (open_tag n)) (off + length (open_tag n) + length (enc_tlvs (t # ts))) = enc_tlvs (t # ts)"
    using subslice_at [OF d2] .
  then show ?thesis unfolding property_value_part_def propertyValueBounds_def using lb
    by (simp add: tag_at_open [OF assms(1)] bd lp del: enc_tlvs.simps)
qed

lemma Property_full:
  assumes "b = ctx_tag 0 4 @ ObjectId_MarshalBinary o1 @ rest" "oid_wf o1"
  shows "Property_UnmarshalBinary p0 b = property_rest b (length (ctx_tag 0 4) + 4) 1
    (Property_zero\<lparr>p_IPAddress := p_IPAddress p0, p_ObjectId := Some o1\<rparr>)"
proof -
  have d: "drop 0 b = ctx_tag 0 4 @ (ObjectId_MarshalBinary o1 @ rest)" using assms by simp
  have dt: "DecodeTag b = (decoded_tag 0 4 True False False, length (ctx_tag 0 4))"
    using DecodeTag_ctx_tag [of 4 0 "ObjectId_MarshalBinary o1 @ rest"] assms by simp
  have ne: "0 < length (ctx_tag 0 4)" "b \<noteq> []" using assms by simp_all
  have va: "value_at ''property value is truncated'' b 0 (decoded_tag 0 4 True False False) (length (ctx_tag 0 4))
      = Inr (ObjectId_MarshalBinary o1, length (ctx_tag 0 4) + 4)"
    by (subst value_at_step [OF d]) simp_all
  have ta: "prop_tag_at b 0 = Inr (decoded_tag 0 4 True False False, length (ctx_tag 0 4))"
    using tag_at_ctx [OF d] by simp
  show ?thesis
    using ne by (simp add: Property_UnmarshalBinary_def dt ta va ObjectId_roundtrip [OF assms(2)])
qed

lemma Property_parts:
  assumes "p_ObjectId p = Some o1" "oid_wf o1"
    and "b = ctx_tag 0 4 @ ObjectId_MarshalBinary o1
      @ (ctx_tag 1 (length (EncodeVarUint (p_ID p))) @ EncodeVarUint (p_ID p)) @ index_bytes p @ rest"
    and "rest = [] \<or> (\<exists>c. rest = open_tag 3 @ c)"
  shows "Property_UnmarshalBinary p0 b =
    (if rest = [] then Inr (decoded_property (p_IPAddress p0) p [] None (length b))
     else property_value_part b (length b - length rest) 3 (decoded_property (p_IPAddress p0) p [] None 0))"
proof -
  have "drop (length (ctx_tag 0 4) + 4) b
      = (ctx_tag 1 (length (EncodeVarUint (p_ID p))) @ EncodeVarUint (p_ID p)) @ index_bytes p @ rest"
    using assms(3) by simp
  from property_rest_decodes [OF this assms(4)] show ?thesis
    unfolding Property_full [OF assms(3,2)]
    by (simp add: Let_def decoded_property_def Property_zero_def assms(1) BacnetArrayAll_def)
qed

text \<open>ReadProperty parameters, and a property with a list of application values.\<close>

lemma Property_roundtrip_values:
  assumes "p_ObjectId p = Some o1" "oid_wf o1" "p_EncodedValue p = None" "p_Values p = map Some vs"
    and "\<forall>v \<in> set vs. wire_ok v" "Property_MarshalBinary p = Inr b" "vs \<noteq> [] \<or> rest = []"
  shows "Property_UnmarshalBinary p0 (b @ rest)
     = Inr (decoded_property (p_IPAddress p0) p (map (Some \<circ> wire_of) vs) None (length b))"
proof (cases "vs = []")
  case True
  with assms have "b @ rest = ctx_tag 0 4 @ ObjectId_MarshalBinary o1
      @ (ctx_tag 1 (length (EncodeVarUint (p_ID p))) @ EncodeVarUint (p_ID p)) @ index_bytes p @ []"
    by (auto simp: Property_MarshalBinary_def index_bytes_def has_index_def Let_def split: if_splits)
  from Property_parts [OF assms(1,2) this] True assms(7) show ?thesis by simp
next
  case False
  with assms obtain content where c: "marshal_values (map Some vs) = Inr content"
    and b: "b @ rest = ctx_tag 0 4 @ ObjectId_MarshalBinary o1
      @ (ctx_tag 1 (length (EncodeVarUint (p_ID p))) @ EncodeVarUint (p_ID p)) @ index_bytes p
      @ (open_tag 3 @ content @ close_tag 3 @ rest)"
    by (auto simp: Property_MarshalBinary_def index_bytes_def has_index_def Let_def bind_res_eq_Inr split: if_splits)
  let ?v = "open_tag 3 @ content @ close_tag 3 @ rest"
  have "drop (length (b @ rest) - length ?v) (b @ rest) = ?v" by (simp only: b) simp
  from value_part_values [OF this c assms(5)] show ?thesis
    by (subst Property_parts [OF assms(1,2) b]) (auto simp: decoded_property_def)
qed

text \<open>A property whose value is constructed comes back as its encoded contents.\<close>

lemma Property_roundtrip_encoded:
  assumes "p_ObjectId p = Some o1" "oid_wf o1" "p_EncodedValue p = Some (enc_tlvs (t # ts))"
    and "tlvs_ok (t # ts)" "tlv_structured t" "Property_MarshalBinary p = Inr b"
  shows "Property_UnmarshalBinary p0 (b @ rest)
     = Inr (decoded_property (p_IPAddress p0) p [] (Some (enc_tlvs (t # ts))) (length b))"
proof -
  have b: "b @ rest = ctx_tag 0 4 @ ObjectId_MarshalBinary o1
      @ (ctx_tag 1 (length (EncodeVarUint (p_ID p))) @ EncodeVarUint (p_ID p)) @ index_bytes p
      @ (open_tag 3 @ enc_tlvs (t # ts) @ close_tag 3 @ rest)"
    using assms by (auto simp: Property_MarshalBinary_def index_bytes_def has_index_def Let_def)
  let ?v = "open_tag 3 @ enc_tlvs (t # ts) @ close_tag 3 @ rest"
  have "drop (length (b @ rest) - length ?v) (b @ rest) = ?v" by (simp only: b) simp
  from value_part_encoded [OF this assms(4,5)] show ?thesis
    by (subst Property_parts [OF assms(1,2) b]) (auto simp: decoded_property_def)
qed

section \<open>Properties\<close>

text \<open>\<^verbatim>\<open>propertyValueBounds\<close> finds the closing tag that matches: behind any well-formed, arbitrarily
  nested tagged contents it returns the end of exactly those contents and the offset after their closing tag, and
  on arbitrary octets any bounds it returns lie inside the buffer and enclose a closing tag.\<close>

theorem propertyValueBounds_correct:
  "(tlvs_ok ts \<and> drop off b = enc_tlvs ts @ close_tag n @ rest \<longrightarrow>
      propertyValueBounds b off n = Inr (off + length (enc_tlvs ts), off + length (enc_tlvs ts) + length (close_tag n)))
   \<and> (propertyValueBounds b off n = Inr (s, e) \<longrightarrow>
      off \<le> s \<and> s < e \<and> e \<le> length b \<and> (\<exists>t. DecodeTag (drop s b) = (t, e - s) \<and> Closing t))"
  unfolding propertyValueBounds_def using bounds_enc_tlvs value_bounds_sound by blast

theorem propertyValueBounds_correct_witness:
  "propertyValueBounds [0x3e, 0x1e, 0x21, 5, 0x1f, 0x3f, 9] 1 3 = Inr (5, 6)"
proof -
  let ?ts = "[TCons 1 [TPrim False 2 [5]]]"
  have e: "enc_tlvs ?ts = [0x1e, 0x21, 5, 0x1f]" "close_tag 3 = [0x3f]" by code_simp+
  have "tlvs_ok ?ts" by simp
  with propertyValueBounds_correct [of ?ts 1 "[0x3e, 0x1e, 0x21, 5, 0x1f, 0x3f, 9]" 3 "[9]" 5 6]
  show ?thesis by (simp add: e del: enc_tlvs.simps enc_tlv.simps)
qed

end
