(* ===== verification/Service_Pdus.thy ===== *)
theory Service_Pdus
  imports Property
begin

text \<open>
  The service payloads of \<^verbatim>\<open>bacnet/pdu\<close> with a flat structure: \<^verbatim>\<open>read_property.go\<close>, \<^verbatim>\<open>write_property.go\<close>,
  \<^verbatim>\<open>time_sync.go\<close>, \<^verbatim>\<open>who_has.go\<close>, \<^verbatim>\<open>cov_request.go\<close>, \<^verbatim>\<open>cov_notification.go\<close>, and the I-Am payload
  of \<^verbatim>\<open>bacnet/types/device.go\<close>.  A decoder returns the receiver's new contents.
\<close>

section \<open>read\_property.go and write\_property.go\<close>

definition ReadPropertyPdu_MarshalBinary :: "Property \<Rightarrow> bytes result" where
  "ReadPropertyPdu_MarshalBinary p = Property_MarshalBinary p"

definition ReadPropertyPdu_UnmarshalBinary :: "bool \<Rightarrow> bytes \<Rightarrow> Property result" where
  "ReadPropertyPdu_UnmarshalBinary requireValue data =
     bind_res (Property_UnmarshalBinary Property_zero data) (\<lambda>p.
       if requireValue \<and> length (p_Values p) = 0
       then Inl (Err ''ReadProperty acknowledgement has no value'') else Inr p)"

record WriteProperty =
  wp_Property :: "Property option"
  wp_Priority :: u8

definition WriteProperty_MarshalBinary :: "WriteProperty \<Rightarrow> bytes result" where
  "WriteProperty_MarshalBinary p =
     (case wp_Property p of
        None \<Rightarrow> Inl (Err ''property is required'')
      | Some property \<Rightarrow>
          if wp_Priority p > 16 then Inl (Err ''write priority must be between 1 and 16'')
          else bind_res (Property_MarshalBinary property) (\<lambda>propBytes.
            if wp_Priority p > 0 then Inr (propBytes @ ctx_tag 4 1 @ [wp_Priority p])
            else Inr propBytes))"

section \<open>Flat runs of application values\<close>

text \<open>\<^verbatim>\<open>decodePropertyResultValues\<close> of \<^verbatim>\<open>read_property_multiple.go\<close>.\<close>

function result_values_loop :: "bytes \<Rightarrow> nat \<Rightarrow> PropertyValue list \<Rightarrow> PropertyValue list result" where
  "result_values_loop b off values =
     (if length b \<le> off then Inr values
      else (let (tag, h) = DecodeTag (drop off b) in
        if h = 0 then Inl (Err ''malformed property value tag'')
        else if Context tag \<or> Opening tag \<or> Closing tag
        then Inl (Err ''unexpected constructed tag in property value list'')
        else (let payloadLength = (if TagNumber tag = TagNull \<or> TagNumber tag = TagBoolean
                                   then 0 else LenValue tag) in
          if payloadLength < 0 \<or> int (length b) - int off - int h < payloadLength
          then Inl (Err ''property value is truncated'')
          else bind_res (PropertyValue_UnmarshalBinary (subslice b off (off + h + nat payloadLength)))
            (\<lambda>v. result_values_loop b (off + h + nat payloadLength) (values @ [v])))))"
  by pat_completeness auto
termination by (relation "measure (\<lambda>(b, off, vs). length b - off)") auto

declare result_values_loop.simps [simp del]

definition decodePropertyResultValues :: "bytes \<Rightarrow> PropertyValue list result" where
  "decodePropertyResultValues b = result_values_loop b 0 []"

section \<open>time\_sync.go\<close>

record TimeSyncPdu =
  ts_Date :: Date
  ts_Time :: Time

definition TimeSyncPdu_MarshalBinary :: "TimeSyncPdu \<Rightarrow> bytes result" where
  "TimeSyncPdu_MarshalBinary p =
     bind_res (PropertyValue_MarshalBinary \<lparr>pv_Type = TagDate, pv_Value = VDate (ts_Date p)\<rparr>) (\<lambda>d.
     bind_res (PropertyValue_MarshalBinary \<lparr>pv_Type = TagTime, pv_Value = VTime (ts_Time p)\<rparr>) (\<lambda>t.
       Inr (d @ t)))"

definition TimeSyncPdu_UnmarshalBinary :: "bytes \<Rightarrow> TimeSyncPdu result" where
  "TimeSyncPdu_UnmarshalBinary b =
     bind_res (decodePropertyResultValues b) (\<lambda>values.
       if length values \<noteq> 2
       then Inl (Err ''time synchronization expects exactly two application-tagged values'')
       else (case pv_Value (values ! 0) of
           VDate d \<Rightarrow>
             if pv_Type (values ! 0) \<noteq> TagDate then Inl (Err ''expected a date'')
             else (case pv_Value (values ! 1) of
                 VTime t \<Rightarrow> if pv_Type (values ! 1) \<noteq> TagTime then Inl (Err ''expected a time'')
                            else Inr \<lparr>ts_Date = d, ts_Time = t\<rparr>
               | _ \<Rightarrow> Inl (Err ''expected a time''))
         | _ \<Rightarrow> Inl (Err ''expected a date'')))"

section \<open>who\_has.go\<close>

record WhoHas =
  wh_LowLimit :: u32
  wh_HighLimit :: u32
  wh_HasRange :: bool
  wh_ObjectId :: "ObjectId option"
  wh_ObjectName :: bytes

definition context_unsigned :: "u8 \<Rightarrow> u32 \<Rightarrow> bytes" where
  "context_unsigned n v = (let x = EncodeVarUint v in ctx_tag n (length x) @ x)"

definition WhoHas_MarshalBinary :: "WhoHas \<Rightarrow> bytes result" where
  "WhoHas_MarshalBinary p =
     (if (wh_ObjectId p \<noteq> None) = (wh_ObjectName p \<noteq> [])
      then Inl (Err ''who-has requires exactly one of an object identifier or an object name'')
      else (let range = (if wh_HasRange p then context_unsigned 0 (wh_LowLimit p) @ context_unsigned 1 (wh_HighLimit p)
                         else []) in
        case wh_ObjectId p of
          Some o1 \<Rightarrow> (let x = ObjectId_MarshalBinary o1 in Inr (range @ ctx_tag 2 (length x) @ x))
        | None \<Rightarrow> (let x = CharacterString_MarshalBinary \<lparr>cs_Value = wh_ObjectName p, cs_Encoding = 0\<rparr> in
                    Inr (range @ ctx_tag 3 (length x) @ x))))"

text \<open>The optional range in front of the object selector, and the tag of the selector.\<close>

definition WhoHas_range :: "bytes \<Rightarrow> Tag \<Rightarrow> nat \<Rightarrow> (bool \<times> u32 \<times> u32 \<times> nat \<times> Tag \<times> nat) result" where
  "WhoHas_range b tag h =
     (if primitive_context 0 tag then
        (if \<not> length_between 1 4 tag \<or> int (length b) - int h < LenValue tag
         then Inl (Err ''device instance range low limit is truncated'')
         else (let low = DecodeVarUint (subslice b h (h + nat (LenValue tag)));
                   off = h + nat (LenValue tag) in
           bind_res (expect_value ''who-has range is missing a high limit''
                       ''expected a device instance range high limit''
                       ''device instance range high limit is truncated''
                       (primitive_context 1) (length_between 1 4) b off) (\<lambda>(high, off).
           bind_res (tag_at ''who-has is missing an object selector'' ''malformed who-has request'' b off)
             (\<lambda>(tag, h). Inr (True, low, DecodeVarUint high, off, tag, h)))))
      else Inr (False, 0, 0, 0, tag, h))"

definition WhoHas_UnmarshalBinary :: "bytes \<Rightarrow> WhoHas result" where
  "WhoHas_UnmarshalBinary b =
     (if length b = 0 then Inl (Err ''received an empty byte slice'')
      else (let (tag, h) = DecodeTag b in
        if h = 0 then Inl (Err ''malformed who-has request'')
        else bind_res (WhoHas_range b tag h) (\<lambda>(hasRange, low, high, off, tag, h).
          let value = subslice b (off + h) (off + h + nat (LenValue tag)); off' = off + h + nat (LenValue tag) in
          bind_res
            (if primitive_context 2 tag then
               (if LenValue tag \<noteq> 4 \<or> int (length b) - int off - int h < LenValue tag
                then Inl (Err ''object identifier is truncated'')
                else bind_res (ObjectId_UnmarshalBinary ObjectId_zero value) (\<lambda>o1. Inr (Some o1, [])))
             else if primitive_context 3 tag then
               (if LenValue tag < 1 \<or> int (length b) - int off - int h < LenValue tag
                then Inl (Err ''object name is truncated'')
                else bind_res (CharacterString_UnmarshalBinary value) (\<lambda>cs. Inr (None, cs_Value cs)))
             else Inl (Err ''expected an object identifier or object name''))
            (\<lambda>(objectId, objectName).
              if off' \<noteq> length b then Inl (Err ''unexpected trailing data after who-has request'')
              else Inr \<lparr>wh_LowLimit = low, wh_HighLimit = high, wh_HasRange = hasRange,
                        wh_ObjectId = objectId, wh_ObjectName = objectName\<rparr>))))"

record IHave =
  ih_DeviceId :: ObjectId
  ih_ObjectId :: ObjectId
  ih_ObjectName :: bytes

definition IHave_MarshalBinary :: "IHave \<Rightarrow> bytes result" where
  "IHave_MarshalBinary p =
     bind_res (PropertyValue_MarshalBinary \<lparr>pv_Type = TagObjectId, pv_Value = VObjectId (ih_DeviceId p)\<rparr>) (\<lambda>x.
     bind_res (PropertyValue_MarshalBinary \<lparr>pv_Type = TagObjectId, pv_Value = VObjectId (ih_ObjectId p)\<rparr>) (\<lambda>y.
     bind_res (PropertyValue_MarshalBinary \<lparr>pv_Type = TagCharacterString,
         pv_Value = VCharacterString \<lparr>cs_Value = ih_ObjectName p, cs_Encoding = 0\<rparr>\<rparr>) (\<lambda>z. Inr (x @ y @ z))))"

definition IHave_UnmarshalBinary :: "bytes \<Rightarrow> IHave result" where
  "IHave_UnmarshalBinary b =
     bind_res (decodePropertyResultValues b) (\<lambda>values.
       if length values \<noteq> 3 then Inl (Err ''i-have expects exactly three application-tagged values'')
       else (case pv_Value (values ! 0) of
         VObjectId d \<Rightarrow>
           if pv_Type (values ! 0) \<noteq> TagObjectId then Inl (Err ''expected a device object identifier'')
           else (case pv_Value (values ! 1) of
             VObjectId o1 \<Rightarrow>
               if pv_Type (values ! 1) \<noteq> TagObjectId then Inl (Err ''expected an object identifier'')
               else (case pv_Value (values ! 2) of
                 VCharacterString cs \<Rightarrow>
                   if pv_Type (values ! 2) \<noteq> TagCharacterString then Inl (Err ''expected an object name'')
                   else Inr \<lparr>ih_DeviceId = d, ih_ObjectId = o1, ih_ObjectName = cs_Value cs\<rparr>
               | _ \<Rightarrow> Inl (Err ''expected an object name''))
           | _ \<Rightarrow> Inl (Err ''expected an object identifier''))
       | _ \<Rightarrow> Inl (Err ''expected a device object identifier'')))"

section \<open>cov\_request.go\<close>

record SubscribeCov =
  sc_ProcessIdentifier :: u8
  sc_ProcessIdentifier32 :: u32
  sc_ObjectId :: "ObjectId option"
  sc_Cancel :: bool
  sc_Timeout :: u32
  sc_IssueConfirmed :: bool
  sc_Lifetime :: u32
  sc_HasLifetime :: bool

definition SubscribeCov_zero :: SubscribeCov where
  "SubscribeCov_zero = \<lparr>sc_ProcessIdentifier = 0, sc_ProcessIdentifier32 = 0, sc_ObjectId = None,
     sc_Cancel = False, sc_Timeout = 0, sc_IssueConfirmed = False, sc_Lifetime = 0, sc_HasLifetime = False\<rparr>"

definition SubscribeCov_processID :: "SubscribeCov \<Rightarrow> u32" where
  "SubscribeCov_processID p =
     (if sc_ProcessIdentifier32 p = 0 then ucast (sc_ProcessIdentifier p) else sc_ProcessIdentifier32 p)"

definition SubscribeCov_MarshalBinary :: "SubscribeCov \<Rightarrow> bytes result" where
  "SubscribeCov_MarshalBinary p =
     (case sc_ObjectId p of
        None \<Rightarrow> Inl (Err ''COV subscription object identifier is required'')
      | Some o1 \<Rightarrow>
          Inr (context_unsigned 0 (SubscribeCov_processID p)
            @ ctx_tag 1 4 @ ObjectId_MarshalBinary o1
            @ (if \<not> sc_Cancel p
               then ctx_tag 2 1 @ [if sc_IssueConfirmed p then 1 else 0]
                 @ (if sc_HasLifetime p then context_unsigned 3 (sc_Lifetime p) else [])
               else [])))"

definition length_at_least :: "int \<Rightarrow> Tag \<Rightarrow> bool" where
  "length_at_least lo tag \<longleftrightarrow> \<not> LenValue tag < lo"

definition SubscribeCov_confirmed :: "bytes \<Rightarrow> nat \<Rightarrow> SubscribeCov \<Rightarrow> (SubscribeCov \<times> nat) result" where
  "SubscribeCov_confirmed b off p =
     (let (tag, h) = DecodeTag (drop off b) in
      if h > 0 \<and> primitive_context 2 tag then
        (if LenValue tag \<noteq> 1 \<or> off + h + 1 > length b
         then Inl (Err ''invalid SubscribeCOV issueConfirmedNotifications value'')
         else (let v = b ! (off + h) in
           if v \<noteq> 0 \<and> v \<noteq> 1 then Inl (Err ''invalid SubscribeCOV issueConfirmedNotifications value'')
           else Inr (p\<lparr>sc_IssueConfirmed := (v \<noteq> 0)\<rparr>, off + h + 1)))
      else Inr (p, off))"

definition SubscribeCov_lifetime :: "bytes \<Rightarrow> nat \<Rightarrow> SubscribeCov \<Rightarrow> (SubscribeCov \<times> nat) result" where
  "SubscribeCov_lifetime b off p =
     (if off < length b then
        bind_res (expect_value ''expected SubscribeCOV lifetime tag'' ''expected SubscribeCOV lifetime tag''
            ''SubscribeCOV lifetime value is truncated'' (primitive_context 3) (length_at_least 1) b off)
          (\<lambda>(value, off). Inr (p\<lparr>sc_Lifetime := DecodeVarUint value, sc_HasLifetime := True\<rparr>, off))
      else Inr (p, off))"

definition SubscribeCov_UnmarshalBinary :: "bytes \<Rightarrow> SubscribeCov result" where
  "SubscribeCov_UnmarshalBinary b =
     bind_res (expect_value ''expected SubscribeCOV process identifier tag''
         ''expected SubscribeCOV process identifier tag''
         ''SubscribeCOV process identifier value is truncated'' (primitive_context 0) (length_at_least 1) b 0)
       (\<lambda>(value, off).
     let p = SubscribeCov_zero\<lparr>sc_ProcessIdentifier32 := DecodeVarUint value,
               sc_ProcessIdentifier := ucast (DecodeVarUint value)\<rparr> in
     bind_res (expect_value ''expected SubscribeCOV monitored object identifier tag''
         ''expected SubscribeCOV monitored object identifier tag''
         ''SubscribeCOV monitored object identifier is truncated''
         (\<lambda>tag. primitive_context 1 tag \<and> LenValue tag = 4) any_length b off) (\<lambda>(value, off).
     bind_res (ObjectId_UnmarshalBinary ObjectId_zero value) (\<lambda>o1.
     let p = p\<lparr>sc_ObjectId := Some o1\<rparr> in
     if off = length b then Inr (p\<lparr>sc_Cancel := True\<rparr>)
     else bind_res (SubscribeCov_confirmed b off p) (\<lambda>(p, off).
       bind_res (SubscribeCov_lifetime b off p) (\<lambda>(p, off).
         if off \<noteq> length b then Inl (Err ''unexpected trailing SubscribeCOV data'') else Inr p)))))"

section \<open>cov\_notification.go\<close>

record CovNotification =
  cn_ProcessIdentifier :: u8
  cn_ProcessIdentifier32 :: u32
  cn_DeviceObjectId :: ObjectId
  cn_ObjectId :: ObjectId
  cn_TimeRemaining :: u32
  cn_Properties :: "Property list"
  cn_Priority :: u8

abbreviation (input) ObjectTypeDevice :: u16 where "ObjectTypeDevice \<equiv> 8"

definition readContextValue :: "u8 \<Rightarrow> int \<Rightarrow> int \<Rightarrow> bytes \<Rightarrow> nat \<Rightarrow> (bytes \<times> nat) result" where
  "readContextValue n lo hi =
     expect_value ''COV notification is truncated'' ''expected context tag %d''
       ''COV notification value is truncated'' (primitive_context n) (length_between lo hi)"

text \<open>The optional priority after a property of the list.\<close>

definition cov_priority :: "bytes \<Rightarrow> nat \<Rightarrow> (u8 option \<times> nat) result" where
  "cov_priority b off =
     (if off < length b then
        (let (tag, h) = DecodeTag (drop off b) in
         if h = 0 then Inl (Err ''malformed COV priority tag'')
         else if primitive_context 3 tag then
           (if \<not> length_between 1 4 tag \<or> int (length b) - int off - int h < LenValue tag
            then Inl (Err ''COV priority is truncated'')
            else (let priority = DecodeVarUint (subslice b (off + h) (off + h + nat (LenValue tag))) in
              if priority < 1 \<or> priority > 16 then Inl (Err ''COV priority must be between 1 and 16'')
              else Inr (Some (ucast priority), off + h + nat (LenValue tag))))
         else Inr (None, off))
      else Inr (None, off))"

lemma cov_priority_mono: "cov_priority b off = Inr (p, off') \<Longrightarrow> off \<le> off'"
  by (auto simp: cov_priority_def Let_def split: if_splits prod.splits)

function cov_properties_loop ::
  "bytes \<Rightarrow> ObjectId \<Rightarrow> nat \<Rightarrow> Property list \<Rightarrow> u8 \<Rightarrow> (Property list \<times> u8 \<times> nat) result" where
  "cov_properties_loop b oid off properties prio =
     (if length b \<le> off then Inl (Err ''COV list-of-values is not closed'')
      else (let (tag, h) = DecodeTag (drop off b) in
        if h = 0 then Inl (Err ''malformed COV property tag'')
        else if closing_context 4 tag then Inr (properties, prio, off + h)
        else bind_res (Property_UnmarshalBinary (Property_zero\<lparr>p_ObjectId := Some oid\<rparr>) (drop off b)) (\<lambda>p.
          if p_Length p \<le> 0 then Inl (Err ''COV property consumed no data'')
          else bind_res (cov_priority b (off + p_Length p)) (\<lambda>(pr, off').
            case pr of
              Some x \<Rightarrow> cov_properties_loop b oid off' (properties @ [p\<lparr>p_Priority := x\<rparr>]) x
            | None \<Rightarrow> cov_properties_loop b oid off' (properties @ [p]) prio))))"
  by pat_completeness auto
termination
  by (relation "measure (\<lambda>(b, oid, off, ps, prio). length b - off)") (auto dest!: cov_priority_mono)

declare cov_properties_loop.simps [simp del]

definition CovNotification_UnmarshalBinary :: "bytes \<Rightarrow> CovNotification result" where
  "CovNotification_UnmarshalBinary b =
     (if length b = 0 then Inl (Err ''received an empty byte slice'')
      else bind_res (readContextValue 0 1 4 b 0) (\<lambda>(processID, off).
      bind_res (readContextValue 1 4 4 b off) (\<lambda>(deviceObjectID, off).
      bind_res (ObjectId_UnmarshalBinary ObjectId_zero deviceObjectID) (\<lambda>dev.
      if oid_Type dev \<noteq> ObjectTypeDevice then Inl (Err ''COV initiating object is not a device'')
      else bind_res (readContextValue 2 4 4 b off) (\<lambda>(monitoredObjectID, off).
      bind_res (ObjectId_UnmarshalBinary ObjectId_zero monitoredObjectID) (\<lambda>oid.
      bind_res (readContextValue 3 1 4 b off) (\<lambda>(timeRemaining, off).
      bind_res (expect_tag ''COV notification has no list-of-values'' ''expected opening list-of-values tag''
                  (opening_context 4) b off) (\<lambda>(_, h).
      bind_res (cov_properties_loop b oid (off + h) [] 0) (\<lambda>(properties, prio, off).
      if off \<noteq> length b then Inl (Err ''unexpected trailing COV notification data'')
      else if length properties = 0 then Inl (Err ''COV notification has an empty list-of-values'')
      else Inr \<lparr>cn_ProcessIdentifier = ucast (DecodeVarUint processID),
                cn_ProcessIdentifier32 = DecodeVarUint processID, cn_DeviceObjectId = dev, cn_ObjectId = oid,
                cn_TimeRemaining = DecodeVarUint timeRemaining, cn_Properties = properties,
                cn_Priority = prio\<rparr>)))))))))"

section \<open>device.go: I-Am\<close>

record Device =
  dev_ObjectId :: "ObjectId option"
  dev_DeviceID :: u16
  dev_DeviceInstance :: u32
  dev_IPAddress :: bytes
  dev_MaxAPDU :: u32
  dev_VendorID :: u16
  dev_Segmentation :: u8
  dev_Port :: u16

definition Device_Reset :: Device where
  "Device_Reset = \<lparr>dev_ObjectId = None, dev_DeviceID = 0, dev_DeviceInstance = 0, dev_IPAddress = [],
     dev_MaxAPDU = 0, dev_VendorID = 0, dev_Segmentation = 0, dev_Port = 0\<rparr>"

definition readApplicationValue :: "u8 \<Rightarrow> int \<Rightarrow> int \<Rightarrow> bytes \<Rightarrow> nat \<Rightarrow> (bytes \<times> nat) result" where
  "readApplicationValue n lo hi =
     expect_value ''I-Am data is truncated'' ''invalid I-Am application tag''
       ''invalid I-Am application value length''
       (\<lambda>tag. \<not> Context tag \<and> \<not> Opening tag \<and> \<not> Closing tag \<and> TagNumber tag = n) (length_between lo hi)"

definition Device_UnmarshalBinary :: "Device \<Rightarrow> bytes \<Rightarrow> Device result" where
  "Device_UnmarshalBinary d data =
     (if length data = 0 then Inl (Err ''received an empty byte slice'')
      else bind_res (readApplicationValue 12 4 4 data 0) (\<lambda>(objectID, off).
      bind_res (ObjectId_UnmarshalBinary ObjectId_zero objectID) (\<lambda>o1.
      if oid_Type o1 \<noteq> ObjectTypeDevice then Inl (Err ''object type isn't a device'')
      else bind_res (readApplicationValue 2 1 4 data off) (\<lambda>(maxAPDU, off).
      bind_res (readApplicationValue 9 1 4 data off) (\<lambda>(segmentation, off).
      let seg = ucast (DecodeVarUint segmentation) :: u8 in
      if seg \<ge> 4 then Inl (Err ''invalid segmentation value'')
      else bind_res (readApplicationValue 2 1 2 data off) (\<lambda>(vendorID, off).
      if off \<noteq> length data then Inl (Err ''unexpected trailing I-Am data'')
      else Inr (d\<lparr>dev_ObjectId := Some o1, dev_DeviceID := oid_Instance o1,
                  dev_DeviceInstance := InstanceNumber o1, dev_MaxAPDU := DecodeVarUint maxAPDU,
                  dev_Segmentation := seg, dev_VendorID := ucast (DecodeVarUint vendorID)\<rparr>)))))))"

section \<open>Round trips\<close>

lemma result_values_step:
  assumes "PropertyValue_MarshalBinary v = Inr x" "wire_ok v" "drop off b = x @ rest"
  shows "result_values_loop b off acc = result_values_loop b (off + length x) (acc @ [wire_of v])"
proof -
  from marshalled_element [OF assms(1,2)] obtain n len pl where
    x: "x = app_tag n len @ pl" and len: "len \<le> 4294967295"
    and pl: "length pl = (if n = TagNull \<or> n = TagBoolean then 0 else len)" by blast
  have d: "drop off b = app_tag n len @ (pl @ rest)" using assms(3) x by simp
  have dt: "DecodeTag (drop off b) = (decoded_tag n (int len) False False False, length (app_tag n len))"
    unfolding d by (rule DecodeTag_app_tag [OF len])
  have lb: "off + length (app_tag n len) + length pl + length rest = length b"
    using drop_length_bound [OF d] len by simp
  have lt: "\<not> length b \<le> off" "app_tag n len \<noteq> []"
    using drop_lt_length [OF d] len length_app_tag [OF len, of n] by simp_all
  have u: "PropertyValue_UnmarshalBinary (subslice b off (off + (length (app_tag n len) + length pl))) = Inr (wire_of v)"
    using Unmarshal_Marshal [OF assms(1,2), of "[]"] assms(3) x by (simp add: subslice_def)
  show ?thesis
    using lb u pl by (subst result_values_loop.simps) (auto simp: lt dt Let_def x add.assoc)
qed

lemma result_values_marshalled:
  assumes "marshal_values (map Some vs) = Inr content" "\<forall>v \<in> set vs. wire_ok v"
    and "drop off b = content"
  shows "result_values_loop b off acc = Inr (acc @ map wire_of vs)"
  using assms
proof (induction vs arbitrary: content off acc)
  case Nil
  then show ?case by (subst result_values_loop.simps) simp
next
  case (Cons v vs)
  from Cons.prems(1) obtain x xs where x: "PropertyValue_MarshalBinary v = Inr x"
    and xs: "marshal_values (map Some vs) = Inr xs" and c: "content = x @ xs"
    by (auto simp: bind_res_eq_Inr)
  have ok: "wire_ok v" "\<forall>v \<in> set vs. wire_ok v" using Cons.prems(2) by simp_all
  have d: "drop off b = x @ xs" using Cons.prems(3) c by simp
  have "result_values_loop b off acc = result_values_loop b (off + length x) (acc @ [wire_of v])"
    by (rule result_values_step [OF x ok(1) d])
  also have "\<dots> = Inr ((acc @ [wire_of v]) @ map wire_of vs)"
    by (rule Cons.IH [OF xs ok(2) drop_advance [OF d]])
  finally show ?case by simp
qed

lemma decodePropertyResultValues_marshalled:
  "marshal_values (map Some vs) = Inr content \<Longrightarrow> \<forall>v \<in> set vs. wire_ok v \<Longrightarrow>
     decodePropertyResultValues content = Inr (map wire_of vs)"
  using result_values_marshalled [of vs content 0 content "[]"] by (simp add: decodePropertyResultValues_def)

lemma marshal_non_number:
  "pv_Type p \<notin> {2, 3, 4, 5, 9} \<Longrightarrow> PropertyValue_coerce p = Inr p"
  by (simp add: PropertyValue_coerce_def)

lemma TimeSync_roundtrip:
  assumes "1900 \<le> d_Year (ts_Date p)" "d_Year (ts_Date p) \<le> 2155"
  shows "\<exists>b. TimeSyncPdu_MarshalBinary p = Inr b \<and> TimeSyncPdu_UnmarshalBinary b = Inr p"
proof -
  let ?vs = "[\<lparr>pv_Type = TagDate, pv_Value = VDate (ts_Date p)\<rparr>, \<lparr>pv_Type = TagTime, pv_Value = VTime (ts_Time p)\<rparr>]"
  let ?b = "(app_tag 10 4 @ Date_MarshalBinary (ts_Date p)) @ (app_tag 11 4 @ Time_MarshalBinary (ts_Time p))"
  have m: "marshal_values (map Some ?vs) = Inr ?b"
    by (simp add: PropertyValue_MarshalBinary_def marshal_non_number PropertyValue_encode_def)
  have "decodePropertyResultValues ?b = Inr (map wire_of ?vs)"
    by (rule decodePropertyResultValues_marshalled [OF m]) (use assms in \<open>simp add: wire_ok_def wire_ok_value_def\<close>)
  moreover have "map wire_of ?vs = ?vs"
    by (simp add: wire_of_def marshal_non_number wire_value_def)
  moreover have "TimeSyncPdu_MarshalBinary p = Inr ?b"
    by (simp add: TimeSyncPdu_MarshalBinary_def PropertyValue_MarshalBinary_def marshal_non_number PropertyValue_encode_def)
  ultimately show ?thesis
    by (intro exI [of _ ?b]) (simp add: TimeSyncPdu_UnmarshalBinary_def)
qed

lemma IHave_roundtrip:
  assumes "oid_wf (ih_DeviceId p)" "oid_wf (ih_ObjectId p)" "length (ih_ObjectName p) < 4294967295"
  shows "\<exists>b. IHave_MarshalBinary p = Inr b \<and> IHave_UnmarshalBinary b = Inr p"
proof -
  let ?cs = "\<lparr>cs_Value = ih_ObjectName p, cs_Encoding = 0\<rparr>"
  let ?vs = "[\<lparr>pv_Type = TagObjectId, pv_Value = VObjectId (ih_DeviceId p)\<rparr>,
    \<lparr>pv_Type = TagObjectId, pv_Value = VObjectId (ih_ObjectId p)\<rparr>,
    \<lparr>pv_Type = TagCharacterString, pv_Value = VCharacterString ?cs\<rparr>]"
  let ?b = "(app_tag 12 4 @ ObjectId_MarshalBinary (ih_DeviceId p)) @ (app_tag 12 4 @ ObjectId_MarshalBinary (ih_ObjectId p))
    @ (app_tag 7 (CharacterString_Length ?cs) @ CharacterString_MarshalBinary ?cs)"
  have m: "marshal_values (map Some ?vs) = Inr ?b"
    by (simp add: PropertyValue_MarshalBinary_def marshal_non_number PropertyValue_encode_def)
  have "decodePropertyResultValues ?b = Inr (map wire_of ?vs)"
    by (rule decodePropertyResultValues_marshalled [OF m])
      (use assms in \<open>simp add: wire_ok_def wire_ok_value_def CharacterString_Length_def\<close>)
  moreover have "map wire_of ?vs = ?vs"
    by (simp add: wire_of_def marshal_non_number wire_value_def)
  moreover have "IHave_MarshalBinary p = Inr ?b"
    by (simp add: IHave_MarshalBinary_def PropertyValue_MarshalBinary_def marshal_non_number PropertyValue_encode_def)
  ultimately show ?thesis
    by (intro exI [of _ ?b]) (simp add: IHave_UnmarshalBinary_def)
qed

text \<open>An unsigned context value, as it is written and as the two reading idioms see it.\<close>

lemma context_unsigned_nonempty [simp]: "context_unsigned n v \<noteq> []"
  by (simp add: context_unsigned_def Let_def)

lemma expect_context_unsigned:
  assumes "drop off b = context_unsigned n v @ rest"
    and "P (decoded_tag n (int (length (EncodeVarUint v))) True False False)"
    and "Q (decoded_tag n (int (length (EncodeVarUint v))) True False False)"
  shows "expect_value e m tr P Q b off = Inr (EncodeVarUint v, off + length (context_unsigned n v))"
proof -
  have d: "drop off b = ctx_tag n (length (EncodeVarUint v)) @ EncodeVarUint v @ rest"
    using assms(1) by (simp add: context_unsigned_def Let_def)
  from expect_value_ctx [OF d] assms(2,3) show ?thesis by (simp add: context_unsigned_def Let_def)
qed

lemma length_between_var [simp]:
  "length_between 1 4 (decoded_tag n (int (length (EncodeVarUint v))) ctx opn cls)"
  "length_at_least 1 (decoded_tag n (int (length (EncodeVarUint v))) ctx opn cls)"
  using EncodeVar_length(1,2) [of v] by (simp_all add: length_at_least_def)

lemma DecodeTag_context_unsigned:
  "DecodeTag (context_unsigned n v @ rest) = (decoded_tag n (int (length (EncodeVarUint v))) True False False,
     length (ctx_tag n (length (EncodeVarUint v))))"
  by (simp add: context_unsigned_def Let_def DecodeTag_ctx_tag)

lemma WhoHas_range_present:
  assumes "b = context_unsigned 0 low @ context_unsigned 1 high @ sel" "sel = ctx_tag n len @ rest"
    "len \<le> 4294967295" "DecodeTag b = (tag, h)"
  shows "WhoHas_range b tag h = Inr (True, low, high, length b - length sel,
     decoded_tag n (int len) True False False, length (ctx_tag n len))"
proof -
  let ?l = "EncodeVarUint low"
  have t: "tag = decoded_tag 0 (int (length ?l)) True False False" "h = length (ctx_tag 0 (length ?l))"
    using assms(1,4) DecodeTag_context_unsigned [of 0 low] by auto
  have h: "h + length ?l = length (context_unsigned 0 low)" using t by (simp add: context_unsigned_def Let_def)
  have sub: "subslice b h (h + length ?l) = ?l"
    using assms(1) t by (simp add: subslice_def context_unsigned_def Let_def)
  have d: "drop (length (context_unsigned 0 low)) b = context_unsigned 1 high @ sel" using assms(1) by simp
  have d2: "drop (length (context_unsigned 0 low) + length (context_unsigned 1 high)) b = ctx_tag n len @ rest"
    using drop_advance [OF d] assms(2) by simp
  have ta: "tag_at e m b (length (context_unsigned 0 low) + length (context_unsigned 1 high))
      = Inr (decoded_tag n (int len) True False False, length (ctx_tag n len))" for e m
    by (rule tag_at_ctx [OF d2 assms(3)])
  have hb: "\<not> int (length b) - int h < int (length ?l)" using h assms(1) by simp
  have lb: "length (context_unsigned 0 low) + length (context_unsigned 1 high) = length b - length sel"
    using assms(1) by simp
  show ?thesis
    using hb sub h
    by (simp add: WhoHas_range_def t(1) Let_def expect_context_unsigned [OF d] ta flip: lb)
qed

text \<open>The selector at offset \<open>off\<close>, behind the range when there is one.\<close>

lemma WhoHas_roundtrip:
  assumes "WhoHas_MarshalBinary p = Inr b" "case wh_ObjectId p of Some o1 \<Rightarrow> oid_wf o1 | None \<Rightarrow> True"
    and "length (wh_ObjectName p) < 4294967295"
  shows "WhoHas_UnmarshalBinary b = Inr (if wh_HasRange p then p else p\<lparr>wh_LowLimit := 0, wh_HighLimit := 0\<rparr>)"
proof -
  let ?cs = "\<lparr>cs_Value = wh_ObjectName p, cs_Encoding = 0\<rparr>"
  define n :: u8 where "n = (if wh_ObjectId p = None then 3 else 2)"
  define x where "x = (case wh_ObjectId p of Some o1 \<Rightarrow> ObjectId_MarshalBinary o1 | None \<Rightarrow> CharacterString_MarshalBinary ?cs)"
  define range where "range = (if wh_HasRange p then context_unsigned 0 (wh_LowLimit p) @ context_unsigned 1 (wh_HighLimit p) else [])"
  from assms(1) have b: "b = range @ ctx_tag n (length x) @ x" and one: "(wh_ObjectId p \<noteq> None) \<noteq> (wh_ObjectName p \<noteq> [])"
    by (auto simp: WhoHas_MarshalBinary_def n_def x_def range_def Let_def split: if_splits option.splits)
  have lx: "length x \<le> 4294967295"
    using assms(3) by (auto simp: x_def CharacterString_Length_def split: option.splits)
  obtain tag h where dt: "DecodeTag b = (tag, h)" by fastforce
  have h0: "h \<noteq> 0" "b \<noteq> []"
    using dt b lx by (auto simp: range_def DecodeTag_context_unsigned DecodeTag_ctx_tag split: if_splits)
  have r: "WhoHas_range b tag h = Inr (wh_HasRange p, if wh_HasRange p then wh_LowLimit p else 0,
      if wh_HasRange p then wh_HighLimit p else 0, length range,
      decoded_tag n (int (length x)) True False False, length (ctx_tag n (length x)))"
  proof (cases "wh_HasRange p")
    case True
    have "b = context_unsigned 0 (wh_LowLimit p) @ context_unsigned 1 (wh_HighLimit p) @ (ctx_tag n (length x) @ x)"
      using b True by (simp add: range_def)
    from WhoHas_range_present [OF this refl lx dt] b True show ?thesis by (simp add: range_def)
  next
    case False
    with b dt lx show ?thesis by (auto simp: WhoHas_range_def range_def DecodeTag_ctx_tag n_def)
  qed
  have sub: "subslice b (length range + length (ctx_tag n (length x))) (length range + length (ctx_tag n (length x)) + length x) = x"
    by (simp add: b subslice_def)
  have lb: "length range + length (ctx_tag n (length x)) + length x = length b" by (simp add: b)
  show ?thesis
  proof (cases "wh_ObjectId p")
    case None
    then have "CharacterString_UnmarshalBinary x = Inr ?cs" "\<not> int (length x) < 1" "n = 3"
      by (simp_all add: x_def n_def CharacterString_Length_def)
    with None sub lb h0 show ?thesis
      by (cases p) (simp add: WhoHas_UnmarshalBinary_def dt r Let_def)
  next
    case (Some o1)
    then have "ObjectId_UnmarshalBinary ObjectId_zero x = Inr o1" "length x = 4" "n = 2"
      using assms(2) by (simp_all add: x_def n_def ObjectId_roundtrip)
    moreover have "wh_ObjectName p = []" using one Some by simp
    ultimately show ?thesis using Some sub lb h0
      by (cases p) (simp add: WhoHas_UnmarshalBinary_def dt r Let_def)
  qed
qed

text \<open>The receiver after decoding a SubscribeCOV request: a cancellation carries nothing but the identifiers.\<close>

definition decoded_subscribe :: "SubscribeCov \<Rightarrow> SubscribeCov" where
  "decoded_subscribe p =
     SubscribeCov_zero\<lparr>sc_ProcessIdentifier32 := SubscribeCov_processID p,
       sc_ProcessIdentifier := ucast (SubscribeCov_processID p), sc_ObjectId := sc_ObjectId p,
       sc_Cancel := sc_Cancel p, sc_IssueConfirmed := (\<not> sc_Cancel p \<and> sc_IssueConfirmed p),
       sc_HasLifetime := (\<not> sc_Cancel p \<and> sc_HasLifetime p),
       sc_Lifetime := (if \<not> sc_Cancel p \<and> sc_HasLifetime p then sc_Lifetime p else 0)\<rparr>"

lemma SubscribeCov_confirmed_decodes:
  assumes "drop off b = ctx_tag 2 1 @ [if c then 1 else 0] @ rest"
  shows "SubscribeCov_confirmed b off p = Inr (p\<lparr>sc_IssueConfirmed := c\<rparr>, off + length (ctx_tag 2 1) + 1)"
proof -
  let ?v = "[if c then 1 else 0 :: u8]"
  have dt: "DecodeTag (drop off b) = (decoded_tag 2 1 True False False, length (ctx_tag 2 1))"
    unfolding assms using DecodeTag_ctx_tag [of 1 2] by simp
  have lb: "off + length (ctx_tag 2 1) + 1 + length rest = length b"
    using drop_length_bound [OF assms] by simp
  have "b ! (off + length (ctx_tag 2 1)) = hd (drop (off + length (ctx_tag 2 1)) b)"
    using lb by (simp add: hd_drop_conv_nth)
  then have "b ! (off + length (ctx_tag 2 1)) = (if c then 1 else 0)"
    using drop_advance [OF assms] by simp
  with lb show ?thesis by (simp add: SubscribeCov_confirmed_def dt)
qed

lemma SubscribeCov_lifetime_decodes:
  assumes "drop off b = (if has then context_unsigned 3 v else [])" "off \<le> length b"
  shows "SubscribeCov_lifetime b off p
    = Inr (if has then p\<lparr>sc_Lifetime := v, sc_HasLifetime := True\<rparr> else p, length b)"
proof (cases has)
  case True
  with assms have d: "drop off b = context_unsigned 3 v @ []" by simp
  have "off < length b" "off + length (context_unsigned 3 v) = length b"
    using drop_lt_length [OF d] drop_length_bound [OF d] by simp_all
  with True show ?thesis by (simp add: SubscribeCov_lifetime_def expect_context_unsigned [OF d])
next
  case False
  with assms show ?thesis by (simp add: SubscribeCov_lifetime_def)
qed

lemma SubscribeCov_roundtrip:
  assumes "SubscribeCov_MarshalBinary p = Inr b" "sc_ObjectId p = Some o1" "oid_wf o1"
  shows "SubscribeCov_UnmarshalBinary b = Inr (decoded_subscribe p)"
proof -
  let ?pid = "SubscribeCov_processID p"
  define life where "life = (if sc_HasLifetime p then context_unsigned 3 (sc_Lifetime p) else [])"
  define tl where "tl = (if \<not> sc_Cancel p then ctx_tag 2 1 @ [if sc_IssueConfirmed p then 1 else 0] @ life else [])"
  have b: "b = context_unsigned 0 ?pid @ ctx_tag 1 4 @ ObjectId_MarshalBinary o1 @ tl"
    using assms(1) unfolding SubscribeCov_MarshalBinary_def assms(2) tl_def life_def by simp
  have d0: "drop 0 b = context_unsigned 0 ?pid @ (ctx_tag 1 4 @ ObjectId_MarshalBinary o1 @ tl)" using b by simp
  note e0 = expect_context_unsigned [OF d0]
  have d1: "drop (length (context_unsigned 0 ?pid)) b = ctx_tag 1 (length (ObjectId_MarshalBinary o1)) @ ObjectId_MarshalBinary o1 @ tl"
    using b by simp
  note e1 = expect_value_ctx [OF d1, simplified]
  let ?off = "length (context_unsigned 0 ?pid) + length (ctx_tag 1 4) + 4"
  have d2: "drop ?off b = tl" using b by simp
  have lb: "?off + length tl = length b" using b by simp
  show ?thesis
  proof (cases "sc_Cancel p")
    case True
    then have "?off = length b" using lb by (simp add: tl_def)
    with True show ?thesis
      by (simp add: SubscribeCov_UnmarshalBinary_def e0 e1 ObjectId_roundtrip [OF assms(3)]
          decoded_subscribe_def assms(2) Let_def SubscribeCov_zero_def)
  next
    case False
    then have d3: "drop ?off b = ctx_tag 2 1 @ [if sc_IssueConfirmed p then 1 else 0] @ life"
      using d2 by (simp add: tl_def)
    define off3 where "off3 = ?off + length (ctx_tag 2 1) + 1"
    note c = SubscribeCov_confirmed_decodes [OF d3, folded off3_def]
    have d4: "drop off3 b = life" using drop_advance [OF drop_advance [OF d3]] by (simp add: off3_def)
    have o4: "off3 \<le> length b" "?off \<noteq> length b" using lb False by (simp_all add: tl_def off3_def)
    note l = SubscribeCov_lifetime_decodes [OF d4 [unfolded life_def] o4(1)]
    show ?thesis using False o4(2)
      by (simp add: SubscribeCov_UnmarshalBinary_def e0 e1 ObjectId_roundtrip [OF assms(3)] c l
          decoded_subscribe_def assms(2) Let_def SubscribeCov_zero_def)
  qed
qed

end
