(* ===== verification/Pdu_Multiple.thy ===== *)
theory Pdu_Multiple
  imports Service_Pdus
begin

text \<open>
  ReadPropertyMultiple and WritePropertyMultiple, \<^verbatim>\<open>bacnet/pdu/read_property_multiple.go\<close> and
  \<^verbatim>\<open>bacnet/pdu/write_property_multiple.go\<close>: nested sequences of access specifications and results.
  \<^verbatim>\<open>PropertyResult.Values\<close> is an option because the encoder distinguishes a nil list from an empty one.
\<close>

section \<open>Data\<close>

record PropertyReference =
  rf_ID :: u32
  rf_Index :: u32
  rf_HasIndex :: bool

record ReadAccessSpec =
  ras_ObjectId :: "ObjectId option"
  ras_Properties :: "PropertyReference list"

record PropertyAccessError =
  pae_Class :: u32
  pae_Code :: u32

record PropertyResult =
  pres_ID :: u32
  pres_Index :: u32
  pres_HasIndex :: bool
  pres_Values :: "PropertyValue option list option"
  pres_Error :: "PropertyAccessError option"

record ReadAccessResult =
  rar_ObjectId :: "ObjectId option"
  rar_Results :: "PropertyResult list"

record PropertyWrite =
  pw_ID :: u32
  pw_Index :: u32
  pw_HasIndex :: bool
  pw_Values :: "PropertyValue option list"
  pw_Priority :: u8
  pw_HasPriority :: bool

record WriteAccessSpec =
  was_ObjectId :: "ObjectId option"
  was_Properties :: "PropertyWrite list"

record WritePropertyMultipleError =
  wpe_Class :: u32
  wpe_Code :: u32
  wpe_ObjectId :: "ObjectId option"
  wpe_ID :: u32
  wpe_Index :: u32
  wpe_HasIndex :: bool

section \<open>Pieces shared by the decoders\<close>

definition optional_context :: "bool \<Rightarrow> u8 \<Rightarrow> u32 \<Rightarrow> bytes" where
  "optional_context has n v = (if has then context_unsigned n v else [])"

text \<open>Object identifier and opening list tag at the head of a specification or result.\<close>

definition access_head :: "string \<Rightarrow> string \<Rightarrow> string \<Rightarrow> bytes \<Rightarrow> (ObjectId \<times> nat) result" where
  "access_head noelem nolist badlist b =
     bind_res (expect_value noelem ''expected an object identifier tag'' ''object identifier is truncated''
         (\<lambda>tag. primitive_context 0 tag \<and> LenValue tag = 4) any_length b 0) (\<lambda>(value, off).
     bind_res (ObjectId_UnmarshalBinary ObjectId_zero value) (\<lambda>o1.
     bind_res (expect_tag nolist badlist (opening_context 1) b off) (\<lambda>(_, h).
       Inr (o1, off + h))))"

definition enumerated_value :: "Tag \<Rightarrow> bool" where
  "enumerated_value tag \<longleftrightarrow> \<not> Context tag \<and> TagNumber tag = TagEnumerated \<and> \<not> Opening tag \<and> \<not> Closing tag
     \<and> length_between 1 4 tag"

text \<open>The loop \<^verbatim>\<open>for _, value := range values\<close> over an error class and an error code.\<close>

definition two_enumerated :: "string \<Rightarrow> string \<Rightarrow> string \<Rightarrow> bytes \<Rightarrow> nat \<Rightarrow> (u32 \<times> u32 \<times> nat) result" where
  "two_enumerated eof invalid truncated b off =
     bind_res (expect_value eof invalid truncated enumerated_value any_length b off) (\<lambda>(x, off).
     bind_res (expect_value eof invalid truncated enumerated_value any_length b off) (\<lambda>(y, off).
       Inr (DecodeVarUint x, DecodeVarUint y, off)))"

definition enumerated :: "u32 \<Rightarrow> PropertyValue" where
  "enumerated v = \<lparr>pv_Type = TagEnumerated, pv_Value = VUint32 v\<rparr>"

definition propertyResultValueBounds :: "bytes \<Rightarrow> nat \<Rightarrow> u8 \<Rightarrow> (nat \<times> nat) result" where
  "propertyResultValueBounds b off outerTag = value_bounds ''unterminated property value'' b off [outerTag]"

section \<open>ReadPropertyMultiple request\<close>

definition encode_reference :: "PropertyReference \<Rightarrow> bytes" where
  "encode_reference r = context_unsigned 0 (rf_ID r) @ optional_context (rf_HasIndex r) 1 (rf_Index r)"

definition ReadAccessSpec_MarshalBinary :: "ReadAccessSpec \<Rightarrow> bytes result" where
  "ReadAccessSpec_MarshalBinary s =
     (case ras_ObjectId s of
        None \<Rightarrow> Inl (Err ''read access specification requires an object identifier'')
      | Some o1 \<Rightarrow>
          if length (ras_Properties s) = 0
          then Inl (Err ''read access specification requires at least one property'')
          else Inr (ctx_tag 0 4 @ ObjectId_MarshalBinary o1 @ open_tag 1
                    @ concat (map encode_reference (ras_Properties s)) @ close_tag 1))"

definition ReadPropertyMultiplePdu_MarshalBinary :: "ReadAccessSpec list \<Rightarrow> bytes result" where
  "ReadPropertyMultiplePdu_MarshalBinary specs =
     (if length specs = 0
      then Inl (Err ''ReadPropertyMultiple request requires at least one read access specification'')
      else bind_res (map_res ReadAccessSpec_MarshalBinary specs) (\<lambda>xs. Inr (concat xs)))"

lemma tag_at_progress:
  "tag_at e m b off = Inr (t, h) \<Longrightarrow> off + h \<le> off' \<Longrightarrow> length b - off' < length b - off"
  using tag_at_Inr(1,3) [of e m b off t h] by simp

lemma reference_progress:
  "value_at e b off tag h = Inr (v, o1) \<Longrightarrow> optional_unsigned n tr b o1 = Inr (i, o2) \<Longrightarrow> off + h \<le> o2"
  using value_at_Inr(2) [of e b off tag h v o1] optional_unsigned_Inr(1) [of n tr b o1 i o2] by simp

function reference_loop :: "bytes \<Rightarrow> nat \<Rightarrow> PropertyReference list \<Rightarrow> (PropertyReference list \<times> nat) result" where
  "reference_loop b off acc =
     bind_res (tag_at ''read access specification property list is not closed''
                 ''malformed property reference tag'' b off) (\<lambda>(tag, h).
       if closing_context 1 tag then Inr (acc, off + h)
       else if \<not> (primitive_context 0 tag \<and> length_between 1 4 tag)
       then Inl (Err ''expected a property identifier tag'')
       else bind_res (value_at ''property identifier is truncated'' b off tag h) (\<lambda>(value, off').
         bind_res (optional_unsigned 1 ''property array index is truncated'' b off') (\<lambda>(index, off'').
           reference_loop b off'' (acc @ [(case index of
               Some x \<Rightarrow> \<lparr>rf_ID = DecodeVarUint value, rf_Index = DecodeVarUint x, rf_HasIndex = True\<rparr>
             | None \<Rightarrow> \<lparr>rf_ID = DecodeVarUint value, rf_Index = 0, rf_HasIndex = False\<rparr>)]))))"
  by pat_completeness auto
termination
  by (relation "measure (\<lambda>(b, off, acc). length b - off)")
    (auto intro: tag_at_progress reference_progress)

declare reference_loop.simps [simp del]

definition decodeReadAccessSpec :: "bytes \<Rightarrow> (ReadAccessSpec \<times> nat) result" where
  "decodeReadAccessSpec b =
     bind_res (access_head ''read access specification is empty''
         ''read access specification has no property list'' ''expected an opening property list tag'' b)
       (\<lambda>(o1, off).
     bind_res (reference_loop b off []) (\<lambda>(refs, off).
       if length refs = 0 then Inl (Err ''read access specification requires at least one property'')
       else Inr (\<lparr>ras_ObjectId = Some o1, ras_Properties = refs\<rparr>, off)))"

definition ReadAccessSpec_UnmarshalBinary :: "bytes \<Rightarrow> ReadAccessSpec result" where
  "ReadAccessSpec_UnmarshalBinary b =
     bind_res (decodeReadAccessSpec b) (\<lambda>(spec, consumed).
       if consumed \<noteq> length b then Inl (Err ''unexpected trailing data after read access specification'')
       else Inr spec)"

text \<open>
  The loop \<^verbatim>\<open>for offset < len(b)\<close> that decodes a SEQUENCE OF \<open>d\<close>.  The sources' loop runs on
  \<^verbatim>\<open>b[offset:]\<close>; an element that consumed nothing would make it run for ever, which the fuel turns into
  \<open>None\<close>.  \<open>decode_sequence_total\<close> below shows that this does not happen.
\<close>

fun decode_sequence :: "nat \<Rightarrow> (bytes \<Rightarrow> ('a \<times> nat) result) \<Rightarrow> bytes \<Rightarrow> nat \<Rightarrow> 'a list \<Rightarrow> 'a list result option" where
  "decode_sequence 0 d b off acc = None"
| "decode_sequence (Suc k) d b off acc =
     (if length b \<le> off then Some (Inr acc)
      else (case d (drop off b) of
          Inl e \<Rightarrow> Some (Inl e)
        | Inr (x, consumed) \<Rightarrow> decode_sequence k d b (off + consumed) (acc @ [x])))"

text \<open>Every element of the sequence takes at least one octet, so one more step than octets is enough.\<close>

definition sequence_of :: "(bytes \<Rightarrow> ('a \<times> nat) result) \<Rightarrow> bytes \<Rightarrow> 'a list result option" where
  "sequence_of d b = decode_sequence (length b + 1) d b 0 []"

definition unmarshal_sequence :: "string \<Rightarrow> (bytes \<Rightarrow> ('a \<times> nat) result) \<Rightarrow> bytes \<Rightarrow> 'a list result option" where
  "unmarshal_sequence noelem d b =
     (if length b = 0 then Some (Inl (Err ''received an empty byte slice''))
      else (case sequence_of d b of
          None \<Rightarrow> None
        | Some (Inl e) \<Rightarrow> Some (Inl e)
        | Some (Inr xs) \<Rightarrow> Some (if length xs = 0 then Inl (Err noelem) else Inr xs)))"

definition ReadPropertyMultiplePdu_UnmarshalBinary :: "bytes \<Rightarrow> ReadAccessSpec list result option" where
  "ReadPropertyMultiplePdu_UnmarshalBinary b =
     unmarshal_sequence ''ReadPropertyMultiple request is empty'' decodeReadAccessSpec b"

section \<open>ReadPropertyMultiple acknowledgement\<close>

text \<open>One property result: the loop body of \<^verbatim>\<open>ReadAccessResult.MarshalBinary\<close>.\<close>

fun marshal_result_values :: "PropertyValue option list \<Rightarrow> bytes result" where
  "marshal_result_values [] = Inr []"
| "marshal_result_values (None # vs) = Inl (Err ''property result contains a nil value'')"
| "marshal_result_values (Some v # vs) = bind_res (PropertyValue_MarshalBinary v) (\<lambda>x.
     bind_res (marshal_result_values vs) (\<lambda>xs. Inr (x @ xs)))"

definition encode_result :: "PropertyResult \<Rightarrow> bytes result" where
  "encode_result p =
     (if pres_Values p \<noteq> None \<and> pres_Error p \<noteq> None
      then Inl (Err ''property result cannot have both values and an error'')
      else if pres_Values p = None \<and> pres_Error p = None
      then Inl (Err ''property result requires values or an error'')
      else (let head = context_unsigned 2 (pres_ID p) @ optional_context (pres_HasIndex p) 3 (pres_Index p) in
        case pres_Error p of
          Some e \<Rightarrow>
            bind_res (PropertyValue_MarshalBinary (enumerated (pae_Class e))) (\<lambda>class.
            bind_res (PropertyValue_MarshalBinary (enumerated (pae_Code e))) (\<lambda>code.
              Inr (head @ open_tag 5 @ class @ code @ close_tag 5)))
        | None \<Rightarrow>
            bind_res (marshal_result_values (case pres_Values p of Some vs \<Rightarrow> vs | None \<Rightarrow> [])) (\<lambda>content.
              Inr (head @ open_tag 4 @ content @ close_tag 4))))"

definition ReadAccessResult_MarshalBinary :: "ReadAccessResult \<Rightarrow> bytes result" where
  "ReadAccessResult_MarshalBinary r =
     (case rar_ObjectId r of
        None \<Rightarrow> Inl (Err ''read access result requires an object identifier'')
      | Some o1 \<Rightarrow>
          if length (rar_Results r) = 0
          then Inl (Err ''read access result requires at least one property result'')
          else bind_res (map_res encode_result (rar_Results r)) (\<lambda>xs.
            Inr (ctx_tag 0 4 @ ObjectId_MarshalBinary o1 @ open_tag 1 @ concat xs @ close_tag 1)))"

definition ReadPropertyMultipleAck_MarshalBinary :: "ReadAccessResult list \<Rightarrow> bytes result" where
  "ReadPropertyMultipleAck_MarshalBinary results =
     (if length results = 0 then Inl (Err ''ReadPropertyMultiple ack requires at least one result'')
      else bind_res (map_res ReadAccessResult_MarshalBinary results) (\<lambda>xs. Inr (concat xs)))"

text \<open>
  The optional array index between an identifier and its value, and the tag behind it, as both the
  result decoder (tag 3) and the write decoder (tag 1) read them.
\<close>

definition index_and_next :: "u8 \<Rightarrow> string \<Rightarrow> string \<Rightarrow> bytes \<Rightarrow> nat \<Rightarrow> (u32 option \<times> nat \<times> Tag \<times> nat) result" where
  "index_and_next n truncated malformed b off =
     bind_res (tag_at truncated malformed b off) (\<lambda>(tag, h).
       if primitive_context n tag then
         (if \<not> length_between 1 4 tag \<or> int (length b) - int off - int h < LenValue tag
          then Inl (Err ''property array index is truncated'')
          else (let off' = off + h + nat (LenValue tag) in
            bind_res (tag_at truncated malformed b off') (\<lambda>(tag', h').
              Inr (Some (DecodeVarUint (subslice b (off + h) off')), off', tag', h'))))
       else Inr (None, off, tag, h))"

definition result_value_part :: "bytes \<Rightarrow> nat \<Rightarrow> Tag \<Rightarrow> nat \<Rightarrow> PropertyResult \<Rightarrow> (PropertyResult \<times> nat) result" where
  "result_value_part b off tag h p =
     (if opening_context 4 tag then
        bind_res (propertyResultValueBounds b (off + h) 4) (\<lambda>(contentEnd, valueEnd).
        bind_res (decodePropertyResultValues (subslice b (off + h) contentEnd)) (\<lambda>values.
          Inr (p\<lparr>pres_Values := Some (map Some values)\<rparr>, valueEnd)))
      else if opening_context 5 tag then
        bind_res (two_enumerated ''property error result is truncated''
            ''property error result contains an invalid tag'' ''property error result value is truncated''
            b (off + h)) (\<lambda>(class, code, off).
        bind_res (expect_tag ''property error result is not closed''
            ''expected a closing property error tag'' (closing_context 5) b off) (\<lambda>(_, h).
          Inr (p\<lparr>pres_Error := Some \<lparr>pae_Class = class, pae_Code = code\<rparr>\<rparr>, off + h)))
      else Inl (Err ''expected a property value or error tag''))"

definition decode_result :: "bytes \<Rightarrow> nat \<Rightarrow> Tag \<Rightarrow> nat \<Rightarrow> (PropertyResult \<times> nat) result" where
  "decode_result b off tag h =
     (if \<not> (primitive_context 2 tag \<and> length_between 1 4 tag)
      then Inl (Err ''expected a property identifier tag'')
      else bind_res (value_at ''property identifier is truncated'' b off tag h) (\<lambda>(value, off).
        bind_res (index_and_next 3 ''property result is truncated'' ''malformed property result tag'' b off)
          (\<lambda>(index, off, tag, h).
            result_value_part b off tag h
              \<lparr>pres_ID = DecodeVarUint value, pres_Index = (case index of Some i \<Rightarrow> i | None \<Rightarrow> 0),
               pres_HasIndex = (index \<noteq> None), pres_Values = None, pres_Error = None\<rparr>)))"

lemma index_and_next_mono:
  assumes "index_and_next n t m b off = Inr (i, off', tag, h)"
  shows "off \<le> off'"
  using assms by (auto simp: index_and_next_def bind_res_eq_Inr Let_def split: if_splits)

lemma two_enumerated_mono:
  assumes "two_enumerated e i t b off = Inr (x, y, off')"
  shows "off < off'"
  using assms by (auto simp: two_enumerated_def bind_res_eq_Inr dest!: expect_value_Inr(1))

lemma decode_result_mono:
  assumes "decode_result b off tag h = Inr (p, off')"
  shows "off + h \<le> off'"
proof -
  from assms obtain v o1 i o2 t2 h2 q where v: "value_at ''property identifier is truncated'' b off tag h = Inr (v, o1)"
    and i: "index_and_next 3 ''property result is truncated'' ''malformed property result tag'' b o1 = Inr (i, o2, t2, h2)"
    and r: "result_value_part b o2 t2 h2 q = Inr (p, off')"
    by (auto simp: decode_result_def bind_res_eq_Inr split: if_splits)
  have "o2 \<le> off'"
    using r by (auto simp: result_value_part_def bind_res_eq_Inr propertyResultValueBounds_def
        dest!: two_enumerated_mono value_bounds_sound split: if_splits)
  with value_at_Inr(2) [OF v] index_and_next_mono [OF i] show ?thesis by simp
qed

function result_loop :: "bytes \<Rightarrow> nat \<Rightarrow> PropertyResult list \<Rightarrow> (PropertyResult list \<times> nat) result" where
  "result_loop b off acc =
     bind_res (tag_at ''read access result list is not closed'' ''malformed read access result tag'' b off)
       (\<lambda>(tag, h).
       if closing_context 1 tag then Inr (acc, off + h)
       else bind_res (decode_result b off tag h) (\<lambda>(p, off').
         result_loop b off' (acc @ [p])))"
  by pat_completeness auto
termination
  by (relation "measure (\<lambda>(b, off, acc). length b - off)")
    (auto intro: tag_at_progress decode_result_mono)

declare result_loop.simps [simp del]

definition decodeReadAccessResult :: "bytes \<Rightarrow> (ReadAccessResult \<times> nat) result" where
  "decodeReadAccessResult b =
     bind_res (access_head ''read access result is empty'' ''read access result has no result list''
         ''expected an opening result list tag'' b) (\<lambda>(o1, off).
     bind_res (result_loop b off []) (\<lambda>(results, off).
       if length results = 0 then Inl (Err ''read access result requires at least one property result'')
       else Inr (\<lparr>rar_ObjectId = Some o1, rar_Results = results\<rparr>, off)))"

definition ReadAccessResult_UnmarshalBinary :: "bytes \<Rightarrow> ReadAccessResult result" where
  "ReadAccessResult_UnmarshalBinary b =
     bind_res (decodeReadAccessResult b) (\<lambda>(r, consumed).
       if consumed \<noteq> length b then Inl (Err ''unexpected trailing data after read access result'') else Inr r)"

definition ReadPropertyMultipleAck_UnmarshalBinary :: "bytes \<Rightarrow> ReadAccessResult list result option" where
  "ReadPropertyMultipleAck_UnmarshalBinary b =
     unmarshal_sequence ''ReadPropertyMultiple ack is empty'' decodeReadAccessResult b"

section \<open>WritePropertyMultiple request\<close>

fun marshal_write_values :: "PropertyValue option list \<Rightarrow> bytes result" where
  "marshal_write_values [] = Inr []"
| "marshal_write_values (None # vs) = Inl (Err ''property write contains a nil value'')"
| "marshal_write_values (Some v # vs) = bind_res (PropertyValue_MarshalBinary v) (\<lambda>x.
     bind_res (marshal_write_values vs) (\<lambda>xs. Inr (x @ xs)))"

definition encode_write :: "PropertyWrite \<Rightarrow> bytes result" where
  "encode_write p =
     (if length (pw_Values p) = 0 then Inl (Err ''property write requires at least one value'')
      else bind_res (marshal_write_values (pw_Values p)) (\<lambda>content.
        if pw_HasPriority p \<and> (pw_Priority p < 1 \<or> pw_Priority p > 16)
        then Inl (Err ''write priority must be between 1 and 16'')
        else Inr (context_unsigned 0 (pw_ID p) @ optional_context (pw_HasIndex p) 1 (pw_Index p)
          @ open_tag 2 @ content @ close_tag 2 @ optional_context (pw_HasPriority p) 3 (ucast (pw_Priority p)))))"

definition WriteAccessSpec_MarshalBinary :: "WriteAccessSpec \<Rightarrow> bytes result" where
  "WriteAccessSpec_MarshalBinary s =
     (case was_ObjectId s of
        None \<Rightarrow> Inl (Err ''write access specification requires an object identifier'')
      | Some o1 \<Rightarrow>
          if length (was_Properties s) = 0
          then Inl (Err ''write access specification requires at least one property'')
          else bind_res (map_res encode_write (was_Properties s)) (\<lambda>xs.
            Inr (ctx_tag 0 4 @ ObjectId_MarshalBinary o1 @ open_tag 1 @ concat xs @ close_tag 1)))"

definition WritePropertyMultiplePdu_MarshalBinary :: "WriteAccessSpec list \<Rightarrow> bytes result" where
  "WritePropertyMultiplePdu_MarshalBinary specs =
     (if length specs = 0
      then Inl (Err ''WritePropertyMultiple request requires at least one write access specification'')
      else bind_res (map_res WriteAccessSpec_MarshalBinary specs) (\<lambda>xs. Inr (concat xs)))"

text \<open>The optional priority behind the value.\<close>

definition write_priority :: "bytes \<Rightarrow> nat \<Rightarrow> PropertyWrite \<Rightarrow> (PropertyWrite \<times> nat) result" where
  "write_priority b off p =
     bind_res (optional_unsigned 3 ''write priority is truncated'' b off) (\<lambda>(x, off).
       case x of
         None \<Rightarrow> Inr (p, off)
       | Some x \<Rightarrow> (let priority = DecodeVarUint x in
           if priority < 1 \<or> priority > 16 then Inl (Err ''write priority must be between 1 and 16'')
           else Inr (p\<lparr>pw_Priority := ucast priority, pw_HasPriority := True\<rparr>, off)))"

definition write_value_part :: "bytes \<Rightarrow> nat \<Rightarrow> Tag \<Rightarrow> nat \<Rightarrow> PropertyWrite \<Rightarrow> (PropertyWrite \<times> nat) result" where
  "write_value_part b off tag h p =
     (if \<not> opening_context 2 tag then Inl (Err ''expected an opening property value tag'')
      else bind_res (propertyResultValueBounds b (off + h) 2) (\<lambda>(contentEnd, valueEnd).
      bind_res (decodePropertyResultValues (subslice b (off + h) contentEnd)) (\<lambda>values.
        if length values = 0 then Inl (Err ''property write requires at least one value'')
        else write_priority b valueEnd (p\<lparr>pw_Values := map Some values\<rparr>))))"

definition decode_write :: "bytes \<Rightarrow> nat \<Rightarrow> Tag \<Rightarrow> nat \<Rightarrow> (PropertyWrite \<times> nat) result" where
  "decode_write b off tag h =
     (if \<not> (primitive_context 0 tag \<and> length_between 1 4 tag)
      then Inl (Err ''expected a property identifier tag'')
      else bind_res (value_at ''property identifier is truncated'' b off tag h) (\<lambda>(value, off).
        bind_res (index_and_next 1 ''property write is truncated'' ''malformed property write tag'' b off)
          (\<lambda>(index, off, tag, h).
            write_value_part b off tag h
              \<lparr>pw_ID = DecodeVarUint value, pw_Index = (case index of Some i \<Rightarrow> i | None \<Rightarrow> 0),
               pw_HasIndex = (index \<noteq> None), pw_Values = [], pw_Priority = 0, pw_HasPriority = False\<rparr>)))"

lemma decode_write_mono:
  assumes "decode_write b off tag h = Inr (p, off')"
  shows "off + h \<le> off'"
proof -
  from assms obtain v o1 i o2 t2 h2 q where v: "value_at ''property identifier is truncated'' b off tag h = Inr (v, o1)"
    and i: "index_and_next 1 ''property write is truncated'' ''malformed property write tag'' b o1 = Inr (i, o2, t2, h2)"
    and r: "write_value_part b o2 t2 h2 q = Inr (p, off')"
    by (auto simp: decode_write_def bind_res_eq_Inr split: if_splits)
  have "o2 \<le> off'"
    using r by (auto simp: write_value_part_def write_priority_def bind_res_eq_Inr propertyResultValueBounds_def Let_def
        dest!: optional_unsigned_Inr(1) value_bounds_sound split: if_splits option.splits)
  with value_at_Inr(2) [OF v] index_and_next_mono [OF i] show ?thesis by simp
qed

function write_loop :: "bytes \<Rightarrow> nat \<Rightarrow> PropertyWrite list \<Rightarrow> (PropertyWrite list \<times> nat) result" where
  "write_loop b off acc =
     bind_res (tag_at ''write access specification property list is not closed''
                 ''malformed property write tag'' b off) (\<lambda>(tag, h).
       if closing_context 1 tag then Inr (acc, off + h)
       else bind_res (decode_write b off tag h) (\<lambda>(p, off'). write_loop b off' (acc @ [p])))"
  by pat_completeness auto
termination
  by (relation "measure (\<lambda>(b, off, acc). length b - off)")
    (auto intro: tag_at_progress decode_write_mono)

declare write_loop.simps [simp del]

definition decodeWriteAccessSpec :: "bytes \<Rightarrow> (WriteAccessSpec \<times> nat) result" where
  "decodeWriteAccessSpec b =
     bind_res (access_head ''write access specification is empty''
         ''write access specification has no property list'' ''expected an opening property list tag'' b)
       (\<lambda>(o1, off).
     bind_res (write_loop b off []) (\<lambda>(ps, off).
       if length ps = 0 then Inl (Err ''write access specification requires at least one property'')
       else Inr (\<lparr>was_ObjectId = Some o1, was_Properties = ps\<rparr>, off)))"

definition WriteAccessSpec_UnmarshalBinary :: "bytes \<Rightarrow> WriteAccessSpec result" where
  "WriteAccessSpec_UnmarshalBinary b =
     bind_res (decodeWriteAccessSpec b) (\<lambda>(spec, consumed).
       if consumed \<noteq> length b then Inl (Err ''unexpected trailing data after write access specification'')
       else Inr spec)"

definition WritePropertyMultiplePdu_UnmarshalBinary :: "bytes \<Rightarrow> WriteAccessSpec list result option" where
  "WritePropertyMultiplePdu_UnmarshalBinary b =
     unmarshal_sequence ''WritePropertyMultiple request is empty'' decodeWriteAccessSpec b"

section \<open>WritePropertyMultiple error\<close>

definition WritePropertyMultipleError_MarshalBinary :: "WritePropertyMultipleError \<Rightarrow> bytes result" where
  "WritePropertyMultipleError_MarshalBinary e =
     (case wpe_ObjectId e of
        None \<Rightarrow> Inl (Err ''write property multiple error requires an object identifier'')
      | Some o1 \<Rightarrow>
          bind_res (PropertyValue_MarshalBinary (enumerated (wpe_Class e))) (\<lambda>class.
          bind_res (PropertyValue_MarshalBinary (enumerated (wpe_Code e))) (\<lambda>code.
            Inr (open_tag 0 @ class @ code @ close_tag 0 @ open_tag 1
              @ ctx_tag 0 4 @ ObjectId_MarshalBinary o1 @ context_unsigned 1 (wpe_ID e)
              @ optional_context (wpe_HasIndex e) 2 (wpe_Index e) @ close_tag 1))))"

definition WritePropertyMultipleError_unmarshal :: "bytes \<Rightarrow> (WritePropertyMultipleError \<times> nat) result" where
  "WritePropertyMultipleError_unmarshal b =
     bind_res (expect_tag ''expected an opening error type tag'' ''expected an opening error type tag''
         (opening_context 0) b 0) (\<lambda>(_, off).
     bind_res (two_enumerated ''write property multiple error is truncated''
         ''write property multiple error contains an invalid tag''
         ''write property multiple error value is truncated'' b off) (\<lambda>(class, code, off).
     bind_res (expect_tag ''write property multiple error is not closed'' ''expected a closing error type tag''
         (closing_context 0) b off) (\<lambda>(_, h). let off = off + h in
     bind_res (expect_tag ''write property multiple error is missing the failed reference''
         ''expected an opening failed-reference tag'' (opening_context 1) b off) (\<lambda>(_, h). let off = off + h in
     bind_res (expect_value ''write property multiple error is missing an object identifier''
         ''expected an object identifier tag'' ''object identifier is truncated''
         (\<lambda>tag. primitive_context 0 tag \<and> LenValue tag = 4) any_length b off) (\<lambda>(value, off).
     bind_res (ObjectId_UnmarshalBinary ObjectId_zero value) (\<lambda>o1.
     bind_res (expect_value ''write property multiple error is missing a property identifier''
         ''expected a property identifier tag'' ''property identifier is truncated''
         (\<lambda>tag. primitive_context 1 tag \<and> length_between 1 4 tag) any_length b off) (\<lambda>(pid, off).
     bind_res (optional_unsigned 2 ''property array index is truncated'' b off) (\<lambda>(index, off).
     bind_res (expect_tag ''write property multiple error is not closed''
         ''expected a closing failed-reference tag'' (closing_context 1) b off) (\<lambda>(_, h).
       Inr (\<lparr>wpe_Class = class, wpe_Code = code, wpe_ObjectId = Some o1, wpe_ID = DecodeVarUint pid,
             wpe_Index = (case index of Some x \<Rightarrow> DecodeVarUint x | None \<Rightarrow> 0),
             wpe_HasIndex = (index \<noteq> None)\<rparr>, off + h))))))))))"

definition WritePropertyMultipleError_UnmarshalBinary :: "bytes \<Rightarrow> WritePropertyMultipleError result" where
  "WritePropertyMultipleError_UnmarshalBinary b =
     bind_res (WritePropertyMultipleError_unmarshal b) (\<lambda>(e, consumed).
       if consumed \<noteq> length b then Inl (Err ''unexpected trailing data after write property multiple error'')
       else Inr e)"

section \<open>Sequences of elements\<close>

text \<open>
  What a SEQUENCE OF decoder needs of its element decoder to terminate: an element that decodes has
  consumed at least one octet and no more than there are.
\<close>

locale element_decoder =
  fixes dec :: "bytes \<Rightarrow> ('a \<times> nat) result"
  assumes dec_progress: "dec b = Inr (x, n) \<Longrightarrow> 0 < n \<and> n \<le> length b"
begin

lemma decode_sequence_total: "length b - off < k \<Longrightarrow> off \<le> length b \<Longrightarrow> decode_sequence k dec b off acc \<noteq> None"
proof (induction k arbitrary: off acc)
  case (Suc k)
  show ?case
  proof (cases "length b \<le> off")
    case False
    show ?thesis
    proof (cases "dec (drop off b)")
      case (Inr p)
      then obtain x n where p: "dec (drop off b) = Inr (x, n)" by (cases p) auto
      with dec_progress [OF p] False Suc.prems have "length b - (off + n) < k" "off + n \<le> length b" by auto
      from Suc.IH [OF this] p False show ?thesis by simp
    qed (use False in simp)
  qed simp
qed simp

lemma sequence_of_total: "sequence_of dec b \<noteq> None"
  unfolding sequence_of_def by (rule decode_sequence_total) simp_all

lemma unmarshal_sequence_total: "\<exists>r. unmarshal_sequence e dec b = Some r"
  using sequence_of_total [of b] by (auto simp: unmarshal_sequence_def split: option.splits sum.splits)

end

text \<open>
  An element codec: in front of any continuation the decoder recovers what the encoder wrote, as the
  wire sees it, and consumes exactly the octets of the encoding.
\<close>

locale element_codec = element_decoder dec for dec :: "bytes \<Rightarrow> ('a \<times> nat) result" +
  fixes enc :: "'a \<Rightarrow> bytes result" and ok :: "'a \<Rightarrow> bool" and view :: "'a \<Rightarrow> 'a"
  assumes dec_enc: "ok x \<Longrightarrow> enc x = Inr b \<Longrightarrow> dec (b @ rest) = Inr (view x, length b)"
begin

lemma enc_nonempty: "ok x \<Longrightarrow> enc x = Inr b \<Longrightarrow> b \<noteq> []"
  using dec_enc [of x b "[]"] dec_progress [of b "view x" "length b"] by auto

lemma decode_sequence_enc:
  assumes "map_res enc xs = Inr bs" "\<forall>x \<in> set xs. ok x" "drop off b = concat bs"
    "length xs < k"
  shows "decode_sequence k dec b off acc = Some (Inr (acc @ map view xs))"
  using assms
proof (induction xs arbitrary: bs off acc k)
  case Nil
  then show ?case by (cases k) auto
next
  case (Cons x xs)
  from Cons.prems(1) obtain y ys where y: "enc x = Inr y" "map_res enc xs = Inr ys" "bs = y # ys"
    by (auto simp: bind_res_eq_Inr)
  obtain k' where k: "k = Suc k'" using Cons.prems(4) by (cases k) auto
  have ok: "ok x" "\<forall>x \<in> set xs. ok x" using Cons.prems(2) by simp_all
  have d: "drop off b = y @ concat ys" using Cons.prems(3) y by simp
  have lt: "\<not> length b \<le> off" using drop_lt_length [OF d enc_nonempty [OF ok(1) y(1)]] by simp
  have "decode_sequence k' dec b (off + length y) (acc @ [view x]) = Some (Inr ((acc @ [view x]) @ map view xs))"
    by (rule Cons.IH [OF y(2) ok(2) drop_advance [OF d]]) (use Cons.prems(4) k in simp)
  moreover have "dec (drop off b) = Inr (view x, length y)" unfolding d by (rule dec_enc [OF ok(1) y(1)])
  ultimately show ?case using lt by (simp add: k)
qed

lemma length_concat_enc:
  assumes "map_res enc xs = Inr bs" "\<forall>x \<in> set xs. ok x"
  shows "length xs \<le> length (concat bs)"
  using assms
proof (induction xs arbitrary: bs)
  case (Cons x xs)
  then obtain y ys where y: "enc x = Inr y" "map_res enc xs = Inr ys" "bs = y # ys"
    by (auto simp: bind_res_eq_Inr)
  have "0 < length y" using enc_nonempty [OF _ y(1)] Cons.prems(2) by simp
  moreover have "length xs \<le> length (concat ys)" using Cons.IH [OF y(2)] Cons.prems(2) by simp
  ultimately show ?case using y(3) by (simp del: length_greater_0_conv)
qed simp

lemma unmarshal_sequence_enc:
  assumes "map_res enc xs = Inr bs" "\<forall>x \<in> set xs. ok x" "xs \<noteq> []"
  shows "unmarshal_sequence e dec (concat bs) = Some (Inr (map view xs))"
proof -
  have l: "length xs < length (concat bs) + 1" using length_concat_enc [OF assms(1,2)] by simp
  have "0 < length xs" using assms(3) by simp
  with length_concat_enc [OF assms(1,2)] have "concat bs \<noteq> []" by (auto simp del: concat_eq_Nil_conv)
  with decode_sequence_enc [OF assms(1,2) _ l, of 0 "concat bs" "[]"] assms(3) show ?thesis
    by (simp add: unmarshal_sequence_def sequence_of_def del: concat_eq_Nil_conv)
qed

end

section \<open>Progress of the element decoders\<close>

lemma access_head_progress:
  assumes "access_head e1 e2 e3 b = Inr (o1, off)"
  shows "0 < off" "off \<le> length b"
proof -
  from assms obtain v o2 t h where v: "expect_value e1 ''expected an object identifier tag'' ''object identifier is truncated''
      (\<lambda>tag. primitive_context 0 tag \<and> LenValue tag = 4) any_length b 0 = Inr (v, o2)"
    and t: "expect_tag e2 e3 (opening_context 1) b o2 = Inr (t, h)" and o: "off = o2 + h"
    by (auto simp: access_head_def bind_res_eq_Inr)
  from expect_value_Inr(1) [OF v] expect_tag_Inr(2) [OF t] o show "0 < off" "off \<le> length b" by simp_all
qed

text \<open>Each of the three property loops ends behind a closing tag inside the slice.\<close>

lemma reference_loop_bounds:
  "reference_loop b off acc = Inr (xs, off') \<Longrightarrow> off < off' \<and> off' \<le> length b"
proof (induction b off acc arbitrary: xs off' rule: reference_loop.induct)
  case (1 b off acc)
  from "1.prems" obtain t h where t: "tag_at ''read access specification property list is not closed''
      ''malformed property reference tag'' b off = Inr (t, h)"
    by (subst (asm) reference_loop.simps) (auto simp: bind_res_eq_Inr)
  show ?case
  proof (cases "closing_context 1 t")
    case True
    with "1.prems" t tag_at_Inr(1,2) [OF t] show ?thesis
      by (subst (asm) reference_loop.simps) auto
  next
    case False
    with "1.prems" t obtain v o1 i o2 acc' where p: "primitive_context 0 t \<and> length_between 1 4 t"
      and v: "value_at ''property identifier is truncated'' b off t h = Inr (v, o1)"
      and i: "optional_unsigned 1 ''property array index is truncated'' b o1 = Inr (i, o2)"
      and r: "reference_loop b o2 (acc @ [(case i of
               Some x \<Rightarrow> \<lparr>rf_ID = DecodeVarUint v, rf_Index = DecodeVarUint x, rf_HasIndex = True\<rparr>
             | None \<Rightarrow> \<lparr>rf_ID = DecodeVarUint v, rf_Index = 0, rf_HasIndex = False\<rparr>)]) = Inr (xs, off')"
      by (subst (asm) reference_loop.simps) (auto simp: bind_res_eq_Inr split: if_splits)
    have "o2 < off' \<and> off' \<le> length b"
      by (rule "1.IH" [OF t refl False _ v refl i refl r]) (use p in simp)
    with reference_progress [OF v i] tag_at_Inr(1) [OF t] show ?thesis by simp
  qed
qed

lemma result_loop_bounds:
  "result_loop b off acc = Inr (xs, off') \<Longrightarrow> off < off' \<and> off' \<le> length b"
proof (induction b off acc arbitrary: xs off' rule: result_loop.induct)
  case (1 b off acc)
  from "1.prems" obtain t h where t: "tag_at ''read access result list is not closed''
      ''malformed read access result tag'' b off = Inr (t, h)"
    by (subst (asm) result_loop.simps) (auto simp: bind_res_eq_Inr)
  show ?case
  proof (cases "closing_context 1 t")
    case True
    with "1.prems" t tag_at_Inr(1,2) [OF t] show ?thesis by (subst (asm) result_loop.simps) auto
  next
    case False
    with "1.prems" t obtain p o2 where p: "decode_result b off t h = Inr (p, o2)"
      and r: "result_loop b o2 (acc @ [p]) = Inr (xs, off')"
      by (subst (asm) result_loop.simps) (auto simp: bind_res_eq_Inr split: if_splits)
    from "1.IH" [OF t refl False p refl r] decode_result_mono [OF p] tag_at_Inr(1) [OF t] show ?thesis by simp
  qed
qed

lemma write_loop_bounds:
  "write_loop b off acc = Inr (xs, off') \<Longrightarrow> off < off' \<and> off' \<le> length b"
proof (induction b off acc arbitrary: xs off' rule: write_loop.induct)
  case (1 b off acc)
  from "1.prems" obtain t h where t: "tag_at ''write access specification property list is not closed''
      ''malformed property write tag'' b off = Inr (t, h)"
    by (subst (asm) write_loop.simps) (auto simp: bind_res_eq_Inr)
  show ?case
  proof (cases "closing_context 1 t")
    case True
    with "1.prems" t tag_at_Inr(1,2) [OF t] show ?thesis by (subst (asm) write_loop.simps) auto
  next
    case False
    with "1.prems" t obtain p o2 where p: "decode_write b off t h = Inr (p, o2)"
      and r: "write_loop b o2 (acc @ [p]) = Inr (xs, off')"
      by (subst (asm) write_loop.simps) (auto simp: bind_res_eq_Inr split: if_splits)
    from "1.IH" [OF t refl False p refl r] decode_write_mono [OF p] tag_at_Inr(1) [OF t] show ?thesis by simp
  qed
qed

lemma decodeReadAccessSpec_progress: "decodeReadAccessSpec b = Inr (x, n) \<Longrightarrow> 0 < n \<and> n \<le> length b"
  by (auto simp: decodeReadAccessSpec_def bind_res_eq_Inr dest!: access_head_progress(1) reference_loop_bounds
      split: if_splits)

lemma decodeReadAccessResult_progress: "decodeReadAccessResult b = Inr (x, n) \<Longrightarrow> 0 < n \<and> n \<le> length b"
  by (auto simp: decodeReadAccessResult_def bind_res_eq_Inr dest!: access_head_progress(1) result_loop_bounds
      split: if_splits)

lemma decodeWriteAccessSpec_progress: "decodeWriteAccessSpec b = Inr (x, n) \<Longrightarrow> 0 < n \<and> n \<le> length b"
  by (auto simp: decodeWriteAccessSpec_def bind_res_eq_Inr dest!: access_head_progress(1) write_loop_bounds
      split: if_splits)

section \<open>Round trips of the elements\<close>

lemma context_unsigned_at:
  assumes "drop off b = context_unsigned n v @ rest"
  shows "tag_at e m b off = Inr (decoded_tag n (int (length (EncodeVarUint v))) True False False,
      length (ctx_tag n (length (EncodeVarUint v))))"
    and "value_at t b off (decoded_tag n (int (length (EncodeVarUint v))) True False False)
      (length (ctx_tag n (length (EncodeVarUint v)))) = Inr (EncodeVarUint v, off + length (context_unsigned n v))"
    and "optional_unsigned n t b off = Inr (Some (EncodeVarUint v), off + length (context_unsigned n v))"
proof -
  have d: "drop off b = ctx_tag n (length (EncodeVarUint v)) @ EncodeVarUint v @ rest"
    using assms by (simp add: context_unsigned_def Let_def)
  show "tag_at e m b off = Inr (decoded_tag n (int (length (EncodeVarUint v))) True False False,
      length (ctx_tag n (length (EncodeVarUint v))))" by (rule tag_at_ctx [OF d]) simp
  have "value_at t b off (decoded_tag n (int (length (EncodeVarUint v))) True False False)
      (length (ctx_tag n (length (EncodeVarUint v)))) = Inr (EncodeVarUint v,
        off + length (ctx_tag n (length (EncodeVarUint v))) + length (EncodeVarUint v))"
    by (rule value_at_step [OF d]) simp_all
  then show "value_at t b off (decoded_tag n (int (length (EncodeVarUint v))) True False False)
      (length (ctx_tag n (length (EncodeVarUint v)))) = Inr (EncodeVarUint v, off + length (context_unsigned n v))"
    by (simp add: context_unsigned_def Let_def add.assoc)
  show "optional_unsigned n t b off = Inr (Some (EncodeVarUint v), off + length (context_unsigned n v))"
    using optional_unsigned_ctx [OF d, of t] EncodeVar_length(1,2) [of v]
    by (simp add: context_unsigned_def Let_def add.assoc)
qed

text \<open>What can follow an optional context value with tag \<open>n\<close>: another tag.\<close>

definition other_tag :: "u8 \<Rightarrow> bytes \<Rightarrow> bool" where
  "other_tag n rest \<longleftrightarrow> \<not> (0 < snd (DecodeTag rest) \<and> primitive_context n (fst (DecodeTag rest)))"

lemma other_tag_intros [simp]:
  "other_tag n (open_tag m @ rest)" "other_tag n (close_tag m @ rest)"
  "m \<noteq> n \<Longrightarrow> other_tag n (context_unsigned m v @ rest)"
  by (simp_all add: other_tag_def DecodeTag_open_tag DecodeTag_close_tag DecodeTag_context_unsigned)

lemma optional_context_at:
  assumes "drop off b = optional_context has n v @ rest" "other_tag n rest"
  shows "optional_unsigned n t b off
     = Inr (if has then Some (EncodeVarUint v) else None, off + length (optional_context has n v))"
proof (cases has)
  case True
  with assms context_unsigned_at(3) [of off b n v rest t] show ?thesis by (simp add: optional_context_def)
next
  case False
  with assms have "drop off b = rest" by (simp add: optional_context_def)
  with assms(2) False show ?thesis
    by (auto simp: optional_unsigned_def optional_context_def other_tag_def split: prod.splits)
qed

lemma access_head_at:
  assumes "b = ctx_tag 0 4 @ ObjectId_MarshalBinary o1 @ open_tag 1 @ rest" "oid_wf o1"
  shows "access_head e1 e2 e3 b = Inr (o1, length (ctx_tag 0 4) + 4 + length (open_tag 1))"
    and "drop (length (ctx_tag 0 4) + 4 + length (open_tag 1)) b = rest"
proof -
  have d: "drop 0 b = ctx_tag 0 (length (ObjectId_MarshalBinary o1)) @ ObjectId_MarshalBinary o1 @ open_tag 1 @ rest"
    using assms(1) by simp
  note v = expect_value_ctx [OF d, simplified]
  have d2: "drop (length (ctx_tag 0 4) + 4) b = open_tag 1 @ rest" using assms(1) by simp
  show "access_head e1 e2 e3 b = Inr (o1, length (ctx_tag 0 4) + 4 + length (open_tag 1))"
    by (simp add: access_head_def v ObjectId_roundtrip [OF assms(2)] expect_tag_open [OF d2])
  show "drop (length (ctx_tag 0 4) + 4 + length (open_tag 1)) b = rest" using assms(1) by simp
qed

subsection \<open>Read access specifications\<close>

definition ref_view :: "PropertyReference \<Rightarrow> PropertyReference" where
  "ref_view r = \<lparr>rf_ID = rf_ID r, rf_Index = (if rf_HasIndex r then rf_Index r else 0),
     rf_HasIndex = rf_HasIndex r\<rparr>"

definition spec_view :: "ReadAccessSpec \<Rightarrow> ReadAccessSpec" where
  "spec_view s = s\<lparr>ras_Properties := map ref_view (ras_Properties s)\<rparr>"

definition spec_ok :: "ReadAccessSpec \<Rightarrow> bool" where
  "spec_ok s = (case ras_ObjectId s of None \<Rightarrow> False | Some o1 \<Rightarrow> oid_wf o1)"

lemma reference_loop_step:
  assumes "drop off b = encode_reference r @ rest" "other_tag 1 rest"
  shows "reference_loop b off acc = reference_loop b (off + length (encode_reference r)) (acc @ [ref_view r])"
proof -
  have d: "drop off b = context_unsigned 0 (rf_ID r) @ (optional_context (rf_HasIndex r) 1 (rf_Index r) @ rest)"
    using assms(1) by (simp add: encode_reference_def)
  note c = context_unsigned_at [OF d]
  note oc = optional_context_at [OF drop_advance [OF d] assms(2)]
  show ?thesis
    by (subst reference_loop.simps)
      (auto simp: c oc ref_view_def encode_reference_def add.assoc)
qed

lemma other_tag_references:
  "other_tag 1 (concat (map encode_reference rs) @ close_tag 1 @ rest)"
  by (cases rs) (simp_all add: encode_reference_def)

lemma reference_loop_encoded:
  "drop off b = concat (map encode_reference rs) @ close_tag 1 @ rest \<Longrightarrow>
   reference_loop b off acc = Inr (acc @ map ref_view rs,
     off + length (concat (map encode_reference rs)) + length (close_tag 1))"
proof (induction rs arbitrary: off acc)
  case Nil
  then show ?case by (subst reference_loop.simps) (simp add: tag_at_close)
next
  case (Cons r rs)
  then have d: "drop off b = encode_reference r @ (concat (map encode_reference rs) @ close_tag 1 @ rest)" by simp
  show ?case
    unfolding reference_loop_step [OF d other_tag_references] Cons.IH [OF drop_advance [OF d]] by simp
qed

lemma decodeReadAccessSpec_encoded:
  assumes "spec_ok s" "ReadAccessSpec_MarshalBinary s = Inr b"
  shows "decodeReadAccessSpec (b @ rest) = Inr (spec_view s, length b)"
proof -
  from assms obtain o1 where o1: "ras_ObjectId s = Some o1" "oid_wf o1" and ne: "ras_Properties s \<noteq> []"
    and b: "b @ rest = ctx_tag 0 4 @ ObjectId_MarshalBinary o1 @ open_tag 1
        @ (concat (map encode_reference (ras_Properties s)) @ close_tag 1 @ rest)"
    and lb: "length b = length (ctx_tag 0 4) + 4 + length (open_tag 1)
        + length (concat (map encode_reference (ras_Properties s))) + length (close_tag 1)"
    by (auto simp: spec_ok_def ReadAccessSpec_MarshalBinary_def split: option.splits if_splits)
  note h = access_head_at [OF b o1(2)]
  show ?thesis
    using ne o1(1) lb
    by (cases s) (simp add: decodeReadAccessSpec_def h(1) reference_loop_encoded [OF h(2)] spec_view_def)
qed

interpretation read_spec: element_codec decodeReadAccessSpec ReadAccessSpec_MarshalBinary spec_ok spec_view
  by unfold_locales (auto simp: decodeReadAccessSpec_encoded dest: decodeReadAccessSpec_progress)

subsection \<open>Values and errors inside a result or a write\<close>

lemma index_and_next_at:
  assumes "drop off b = optional_context has n v @ open_tag k @ rest"
  shows "index_and_next n t m b off = Inr (if has then Some v else None,
     off + length (optional_context has n v), decoded_tag k 0 True True False, length (open_tag k))"
proof (cases has)
  case True
  then have d: "drop off b = context_unsigned n v @ (open_tag k @ rest)"
    using assms by (simp add: optional_context_def)
  let ?l = "length (ctx_tag n (length (EncodeVarUint v)))"
  have l: "length (context_unsigned n v) = ?l + length (EncodeVarUint v)" by (simp add: context_unsigned_def Let_def)
  note a = drop_advance [OF d]
  have lb: "off + length (context_unsigned n v) \<le> length b" using drop_length_bound [OF d] by simp
  have sub: "subslice b (off + ?l) (off + ?l + length (EncodeVarUint v)) = EncodeVarUint v"
    by (rule subslice_at, rule drop_advance [of _ _ "ctx_tag n (length (EncodeVarUint v))"])
      (simp add: d context_unsigned_def Let_def)
  have ta: "tag_at t m b (off + ?l + length (EncodeVarUint v)) = Inr (decoded_tag k 0 True True False, length (open_tag k))"
    using tag_at_open [OF a] l by (simp add: add.assoc)
  show ?thesis
    using True lb l sub ta
    by (simp add: index_and_next_def context_unsigned_at(1) [OF d] Let_def optional_context_def add.assoc)
next
  case False
  then have "drop off b = open_tag k @ rest" using assms by (simp add: optional_context_def)
  from tag_at_open [OF this] False show ?thesis
    by (simp add: index_and_next_def optional_context_def)
qed

lemma marshal_enumerated:
  "PropertyValue_MarshalBinary (enumerated v) = Inr (app_tag 9 (length (EncodeVarUint v)) @ EncodeVarUint v)"
  by (simp add: PropertyValue_MarshalBinary_def PropertyValue_coerce_def coerce_number_def enumerated_def
      PropertyValue_encode_def)

lemma expect_enumerated:
  assumes "drop off b = (app_tag 9 (length (EncodeVarUint v)) @ EncodeVarUint v) @ rest"
  shows "expect_value e i t enumerated_value any_length b off
     = Inr (EncodeVarUint v, off + length (app_tag 9 (length (EncodeVarUint v)) @ EncodeVarUint v))"
proof -
  have d: "drop off b = app_tag 9 (length (EncodeVarUint v)) @ EncodeVarUint v @ rest" using assms by simp
  have "expect_value e i t enumerated_value any_length b off
      = Inr (EncodeVarUint v, off + length (app_tag 9 (length (EncodeVarUint v))) + length (EncodeVarUint v))"
    by (rule expect_value_step [OF d DecodeTag_app_tag])
      (simp_all add: enumerated_value_def del: decoded_tag_predicates(4))
  then show ?thesis by (simp add: add.assoc)
qed

lemma two_enumerated_at:
  assumes "drop off b = x @ y @ rest" "PropertyValue_MarshalBinary (enumerated c) = Inr x"
    "PropertyValue_MarshalBinary (enumerated d) = Inr y"
  shows "two_enumerated e i t b off = Inr (c, d, off + length x + length y)"
proof -
  note a = expect_enumerated [OF assms(1) [unfolded assms(2,3) [unfolded marshal_enumerated sum.inject, symmetric]]]
  have d2: "drop (off + length x) b = y @ rest" using drop_advance [OF assms(1)] .
  note a2 = expect_enumerated [OF d2 [unfolded assms(3) [unfolded marshal_enumerated sum.inject, symmetric]]]
  show ?thesis
    using a a2 assms(2,3) by (auto simp: two_enumerated_def marshal_enumerated)
qed

lemma marshal_values_variants:
  "marshal_result_values vs = Inr c \<longleftrightarrow> marshal_values vs = Inr c"
  "marshal_write_values vs = Inr c \<longleftrightarrow> marshal_values vs = Inr c"
proof -
  show "marshal_result_values vs = Inr c \<longleftrightarrow> marshal_values vs = Inr c"
    by (induction vs arbitrary: c rule: marshal_result_values.induct) (auto simp: bind_res_eq_Inr)
  show "marshal_write_values vs = Inr c \<longleftrightarrow> marshal_values vs = Inr c"
    by (induction vs arbitrary: c rule: marshal_write_values.induct) (auto simp: bind_res_eq_Inr)
qed

lemma marshal_values_Some: "marshal_values vs = Inr c \<Longrightarrow> \<exists>us. vs = map Some us"
proof (induction vs arbitrary: c rule: marshal_values.induct)
  case (3 v vs)
  then obtain us where "vs = map Some us" by (auto simp: bind_res_eq_Inr)
  then show ?case by (intro exI [of _ "v # us"]) simp
qed simp_all

text \<open>The values between an opening tag \<open>n\<close> and its closing tag.\<close>

lemma bracketed_values_at:
  assumes "drop off b = open_tag n @ content @ close_tag n @ rest"
    and "marshal_values (map Some us) = Inr content" "\<forall>u \<in> set us. wire_ok u"
  shows "propertyResultValueBounds b (off + length (open_tag n)) n
      = Inr (off + length (open_tag n) + length content, off + length (open_tag n) + length content + length (close_tag n))"
    and "decodePropertyResultValues (subslice b (off + length (open_tag n)) (off + length (open_tag n) + length content))
      = Inr (map wire_of us)"
proof -
  from marshal_values_tlvs [OF assms(2,3)] obtain ts where ts: "tlvs_ok ts" "content = enc_tlvs ts" by blast
  note d2 = drop_advance [OF assms(1)]
  show "propertyResultValueBounds b (off + length (open_tag n)) n
      = Inr (off + length (open_tag n) + length content, off + length (open_tag n) + length content + length (close_tag n))"
    unfolding propertyResultValueBounds_def ts(2) by (rule bounds_enc_tlvs [OF ts(1) d2 [unfolded ts(2)]])
  show "decodePropertyResultValues (subslice b (off + length (open_tag n)) (off + length (open_tag n) + length content))
      = Inr (map wire_of us)"
    unfolding subslice_at [OF d2] by (rule decodePropertyResultValues_marshalled [OF assms(2,3)])
qed

subsection \<open>Read access results\<close>

definition values_ok :: "PropertyValue option list \<Rightarrow> bool" where
  "values_ok vs \<longleftrightarrow> list_all (\<lambda>v. case v of Some u \<Rightarrow> wire_ok u | None \<Rightarrow> True) vs"

definition result_view :: "PropertyResult \<Rightarrow> PropertyResult" where
  "result_view p = \<lparr>pres_ID = pres_ID p, pres_Index = (if pres_HasIndex p then pres_Index p else 0),
     pres_HasIndex = pres_HasIndex p, pres_Values = map_option (map (map_option wire_of)) (pres_Values p),
     pres_Error = pres_Error p\<rparr>"

definition result_ok :: "PropertyResult \<Rightarrow> bool" where
  "result_ok p = (case pres_Values p of Some vs \<Rightarrow> values_ok vs | None \<Rightarrow> True)"

definition rar_view :: "ReadAccessResult \<Rightarrow> ReadAccessResult" where
  "rar_view r = r\<lparr>rar_Results := map result_view (rar_Results r)\<rparr>"

definition rar_ok :: "ReadAccessResult \<Rightarrow> bool" where
  "rar_ok r \<longleftrightarrow> (case rar_ObjectId r of None \<Rightarrow> False | Some o1 \<Rightarrow> oid_wf o1) \<and> list_all result_ok (rar_Results r)"

lemma values_ok_map: "values_ok (map Some us) \<longleftrightarrow> (\<forall>u \<in> set us. wire_ok u)"
  by (simp add: values_ok_def list_all_iff)

lemma map_wire_of_Some: "map (map_option wire_of) (map Some us) = map Some (map wire_of us)"
  by simp

lemma result_loop_step:
  assumes "encode_result p = Inr x" "result_ok p" "drop off b = x @ rest"
  shows "result_loop b off acc = result_loop b (off + length x) (acc @ [result_view p])"
proof -
  let ?c = "context_unsigned 2 (pres_ID p)" and ?i = "optional_context (pres_HasIndex p) 3 (pres_Index p)"
  obtain k body where x: "x = ?c @ ?i @ open_tag k @ body"
    and part: "\<And>off q. drop off b = open_tag k @ body @ rest \<Longrightarrow>
       result_value_part b off (decoded_tag k 0 True True False) (length (open_tag k))
         (q\<lparr>pres_Values := None, pres_Error := None\<rparr>)
       = Inr (q\<lparr>pres_Values := pres_Values (result_view p), pres_Error := pres_Error p\<rparr>, off + length (open_tag k @ body))"
  proof (cases "pres_Error p")
    case (Some e)
    with assms(1) obtain y z where y: "PropertyValue_MarshalBinary (enumerated (pae_Class e)) = Inr y"
      and z: "PropertyValue_MarshalBinary (enumerated (pae_Code e)) = Inr z"
      and x: "x = ?c @ ?i @ open_tag 5 @ (y @ z @ close_tag 5)" and nv: "pres_Values p = None"
      by (auto simp: encode_result_def bind_res_eq_Inr Let_def split: if_splits)
    show thesis
    proof (rule that [OF x])
      fix off q assume d: "drop off b = open_tag 5 @ (y @ z @ close_tag 5) @ rest"
      have d2: "drop (off + length (open_tag 5)) b = y @ z @ (close_tag 5 @ rest)" using drop_advance [OF d] by simp
      note te = two_enumerated_at [OF d2 y z]
      have d3: "drop (off + length (open_tag 5) + length y + length z) b = close_tag 5 @ rest"
        using drop_advance [OF drop_advance [OF d2]] by simp
      show "result_value_part b off (decoded_tag 5 0 True True False) (length (open_tag 5))
         (q\<lparr>pres_Values := None, pres_Error := None\<rparr>)
       = Inr (q\<lparr>pres_Values := pres_Values (result_view p), pres_Error := pres_Error p\<rparr>,
           off + length (open_tag 5 @ (y @ z @ close_tag 5)))"
        using nv Some
        by (simp add: result_value_part_def te expect_tag_close [OF d3, unfolded add.assoc] result_view_def add.assoc)
    qed
  next
    case None
    with assms(1) obtain vs content where vs: "pres_Values p = Some vs" and c: "marshal_values vs = Inr content"
      and x: "x = ?c @ ?i @ open_tag 4 @ (content @ close_tag 4)"
      by (auto simp: encode_result_def bind_res_eq_Inr Let_def marshal_values_variants split: if_splits)
    from marshal_values_Some [OF c] obtain us where us: "vs = map Some us" by blast
    have ok: "\<forall>u \<in> set us. wire_ok u" using assms(2) vs us by (simp add: result_ok_def values_ok_map)
    show thesis
    proof (rule that [OF x])
      fix off q assume d: "drop off b = open_tag 4 @ (content @ close_tag 4) @ rest"
      then have d': "drop off b = open_tag 4 @ content @ close_tag 4 @ rest" by simp
      note bv = bracketed_values_at [OF d' c [unfolded us] ok]
      show "result_value_part b off (decoded_tag 4 0 True True False) (length (open_tag 4))
         (q\<lparr>pres_Values := None, pres_Error := None\<rparr>)
       = Inr (q\<lparr>pres_Values := pres_Values (result_view p), pres_Error := pres_Error p\<rparr>,
           off + length (open_tag 4 @ (content @ close_tag 4)))"
        using None vs us
        by (cases q) (simp add: result_value_part_def bv, simp add: result_view_def add.assoc comp_def)
    qed
  qed
  have d: "drop off b = ?c @ (?i @ open_tag k @ body @ rest)" using assms(3) x by simp
  note ca = context_unsigned_at [OF d]
  note d2 = drop_advance [OF d]
  note ia = index_and_next_at [OF d2]
  note pt = part [OF drop_advance [OF d2],
    of "\<lparr>pres_ID = pres_ID p, pres_Index = (if pres_HasIndex p then pres_Index p else 0),
         pres_HasIndex = pres_HasIndex p, pres_Values = None, pres_Error = None\<rparr>"]
  have "decode_result b off (decoded_tag 2 (int (length (EncodeVarUint (pres_ID p)))) True False False)
      (length (ctx_tag 2 (length (EncodeVarUint (pres_ID p))))) = Inr (result_view p, off + length x)"
    using pt unfolding x decode_result_def
    by (cases "pres_HasIndex p") (simp_all add: ca ia result_view_def add.assoc)
  then show ?thesis
    by (subst result_loop.simps) (simp add: ca)
qed

lemma result_loop_encoded:
  "map_res encode_result ps = Inr xs \<Longrightarrow> list_all result_ok ps \<Longrightarrow> drop off b = concat xs @ close_tag 1 @ rest \<Longrightarrow>
   result_loop b off acc = Inr (acc @ map result_view ps, off + length (concat xs) + length (close_tag 1))"
proof (induction ps arbitrary: xs off acc)
  case Nil
  then show ?case by (subst result_loop.simps) (simp add: tag_at_close)
next
  case (Cons p ps)
  then obtain y ys where y: "encode_result p = Inr y" "map_res encode_result ps = Inr ys" "xs = y # ys"
    by (auto simp: bind_res_eq_Inr)
  have d: "drop off b = y @ (concat ys @ close_tag 1 @ rest)" using Cons.prems(3) y by simp
  have ok: "result_ok p" "list_all result_ok ps" using Cons.prems(2) by simp_all
  show ?case
    unfolding result_loop_step [OF y(1) ok(1) d] Cons.IH [OF y(2) ok(2) drop_advance [OF d]] using y(3) by simp
qed

lemma decodeReadAccessResult_encoded:
  assumes "rar_ok r" "ReadAccessResult_MarshalBinary r = Inr b"
  shows "decodeReadAccessResult (b @ rest) = Inr (rar_view r, length b)"
proof -
  from assms obtain o1 xs where o1: "rar_ObjectId r = Some o1" "oid_wf o1" and ne: "rar_Results r \<noteq> []"
    and xs: "map_res encode_result (rar_Results r) = Inr xs" and ok: "list_all result_ok (rar_Results r)"
    and b: "b @ rest = ctx_tag 0 4 @ ObjectId_MarshalBinary o1 @ open_tag 1 @ (concat xs @ close_tag 1 @ rest)"
    and lb: "length b = length (ctx_tag 0 4) + 4 + length (open_tag 1) + length (concat xs) + length (close_tag 1)"
    by (auto simp: rar_ok_def ReadAccessResult_MarshalBinary_def bind_res_eq_Inr split: option.splits if_splits)
  note h = access_head_at [OF b o1(2)]
  show ?thesis
    using ne o1(1) lb
    by (cases r) (simp add: decodeReadAccessResult_def h(1) result_loop_encoded [OF xs ok h(2)] rar_view_def)
qed

interpretation read_result: element_codec decodeReadAccessResult ReadAccessResult_MarshalBinary rar_ok rar_view
  by unfold_locales (auto simp: decodeReadAccessResult_encoded dest: decodeReadAccessResult_progress)

subsection \<open>Write access specifications\<close>

definition write_view :: "PropertyWrite \<Rightarrow> PropertyWrite" where
  "write_view p = \<lparr>pw_ID = pw_ID p, pw_Index = (if pw_HasIndex p then pw_Index p else 0),
     pw_HasIndex = pw_HasIndex p, pw_Values = map (map_option wire_of) (pw_Values p),
     pw_Priority = (if pw_HasPriority p then pw_Priority p else 0), pw_HasPriority = pw_HasPriority p\<rparr>"

definition was_view :: "WriteAccessSpec \<Rightarrow> WriteAccessSpec" where
  "was_view s = s\<lparr>was_Properties := map write_view (was_Properties s)\<rparr>"

definition was_ok :: "WriteAccessSpec \<Rightarrow> bool" where
  "was_ok s \<longleftrightarrow> (case was_ObjectId s of None \<Rightarrow> False | Some o1 \<Rightarrow> oid_wf o1)
     \<and> list_all (\<lambda>p. values_ok (pw_Values p)) (was_Properties s)"

lemma ucast_u8_u32 [simp]: "ucast (ucast (w::u8) :: u32) = w"
  by (rule bit_word_eqI) (simp add: bit_simps)

lemma priority_u32:
  "(ucast (w::u8) :: u32) < 1 \<longleftrightarrow> w < 1" "(ucast (w::u8) :: u32) > 16 \<longleftrightarrow> w > 16"
  by (simp_all add: word_less_nat_alt unsigned_ucast_eq take_bit_nat_eq_self unat_less
      order.strict_trans [OF unat_less [of w]])

lemma write_priority_at:
  assumes "drop off b = optional_context (pw_HasPriority p) 3 (ucast (pw_Priority p)) @ rest" "other_tag 3 rest"
    and "pw_HasPriority p \<longrightarrow> \<not> (pw_Priority p < 1 \<or> pw_Priority p > 16)"
  shows "write_priority b off q = Inr (if pw_HasPriority p then q\<lparr>pw_Priority := pw_Priority p, pw_HasPriority := True\<rparr> else q,
     off + length (optional_context (pw_HasPriority p) 3 (ucast (pw_Priority p))))"
  using assms(3) by (simp add: write_priority_def optional_context_at [OF assms(1,2)] priority_u32 del: word_less_1)

lemma write_loop_step:
  assumes "encode_write p = Inr x" "values_ok (pw_Values p)" "drop off b = x @ rest" "other_tag 3 rest"
  shows "write_loop b off acc = write_loop b (off + length x) (acc @ [write_view p])"
proof -
  let ?c = "context_unsigned 0 (pw_ID p)" and ?i = "optional_context (pw_HasIndex p) 1 (pw_Index p)"
    and ?p = "optional_context (pw_HasPriority p) 3 (ucast (pw_Priority p))"
  from assms(1) obtain content where c: "marshal_values (pw_Values p) = Inr content" and ne: "pw_Values p \<noteq> []"
    and pr: "pw_HasPriority p \<longrightarrow> \<not> (pw_Priority p < 1 \<or> pw_Priority p > 16)"
    and x: "x = ?c @ ?i @ open_tag 2 @ content @ close_tag 2 @ ?p"
    by (auto simp: encode_write_def bind_res_eq_Inr marshal_values_variants split: if_splits)
  from marshal_values_Some [OF c] obtain us where us: "pw_Values p = map Some us" by blast
  have ok: "\<forall>u \<in> set us. wire_ok u" using assms(2) us by (simp add: values_ok_map)
  have d: "drop off b = ?c @ (?i @ open_tag 2 @ content @ close_tag 2 @ ?p @ rest)" using assms(3) x by simp
  note ca = context_unsigned_at [OF d]
  note d2 = drop_advance [OF d]
  note ia = index_and_next_at [OF d2]
  note d3 = drop_advance [OF d2]
  note bv = bracketed_values_at [OF d3 c [unfolded us] ok]
  note d4 = drop_advance [OF drop_advance [OF drop_advance [OF d3]]]
  note wp = write_priority_at [OF d4 assms(4) pr]
  have "decode_write b off (decoded_tag 0 (int (length (EncodeVarUint (pw_ID p)))) True False False)
      (length (ctx_tag 0 (length (EncodeVarUint (pw_ID p))))) = Inr (write_view p, off + length x)"
    using ne us unfolding x decode_write_def write_value_part_def
    by (simp add: ca ia bv wp) (simp add: write_view_def add.assoc)
  then show ?thesis by (subst write_loop.simps) (simp add: ca)
qed

lemma other_tag_writes:
  assumes "map_res encode_write ps = Inr xs"
  shows "other_tag 3 (concat xs @ close_tag 1 @ rest)"
  using assms
  by (cases ps) (auto simp: bind_res_eq_Inr encode_write_def split: if_splits)

lemma write_loop_encoded:
  "map_res encode_write ps = Inr xs \<Longrightarrow> list_all (\<lambda>p. values_ok (pw_Values p)) ps \<Longrightarrow>
   drop off b = concat xs @ close_tag 1 @ rest \<Longrightarrow>
   write_loop b off acc = Inr (acc @ map write_view ps, off + length (concat xs) + length (close_tag 1))"
proof (induction ps arbitrary: xs off acc)
  case Nil
  then show ?case by (subst write_loop.simps) (simp add: tag_at_close)
next
  case (Cons p ps)
  then obtain y ys where y: "encode_write p = Inr y" "map_res encode_write ps = Inr ys" "xs = y # ys"
    by (auto simp: bind_res_eq_Inr)
  have d: "drop off b = y @ (concat ys @ close_tag 1 @ rest)" using Cons.prems(3) y by simp
  have ok: "values_ok (pw_Values p)" "list_all (\<lambda>p. values_ok (pw_Values p)) ps" using Cons.prems(2) by simp_all
  show ?case
    unfolding write_loop_step [OF y(1) ok(1) d other_tag_writes [OF y(2)]]
      Cons.IH [OF y(2) ok(2) drop_advance [OF d]] using y(3) by simp
qed

lemma decodeWriteAccessSpec_encoded:
  assumes "was_ok s" "WriteAccessSpec_MarshalBinary s = Inr b"
  shows "decodeWriteAccessSpec (b @ rest) = Inr (was_view s, length b)"
proof -
  from assms obtain o1 xs where o1: "was_ObjectId s = Some o1" "oid_wf o1" and ne: "was_Properties s \<noteq> []"
    and xs: "map_res encode_write (was_Properties s) = Inr xs"
    and ok: "list_all (\<lambda>p. values_ok (pw_Values p)) (was_Properties s)"
    and b: "b @ rest = ctx_tag 0 4 @ ObjectId_MarshalBinary o1 @ open_tag 1 @ (concat xs @ close_tag 1 @ rest)"
    and lb: "length b = length (ctx_tag 0 4) + 4 + length (open_tag 1) + length (concat xs) + length (close_tag 1)"
    by (auto simp: was_ok_def WriteAccessSpec_MarshalBinary_def bind_res_eq_Inr split: option.splits if_splits)
  note h = access_head_at [OF b o1(2)]
  show ?thesis
    using ne o1(1) lb
    by (cases s) (simp add: decodeWriteAccessSpec_def h(1) write_loop_encoded [OF xs ok h(2)] was_view_def)
qed

interpretation write_spec: element_codec decodeWriteAccessSpec WriteAccessSpec_MarshalBinary was_ok was_view
  by unfold_locales (auto simp: decodeWriteAccessSpec_encoded dest: decodeWriteAccessSpec_progress)

section \<open>Whole payloads\<close>

lemma ReadPropertyMultiple_roundtrip:
  assumes "ReadPropertyMultiplePdu_MarshalBinary specs = Inr b" "\<forall>s \<in> set specs. spec_ok s"
  shows "ReadPropertyMultiplePdu_UnmarshalBinary b = Some (Inr (map spec_view specs))"
proof -
  from assms(1) obtain xs where xs: "map_res ReadAccessSpec_MarshalBinary specs = Inr xs" "specs \<noteq> []" "b = concat xs"
    by (auto simp: ReadPropertyMultiplePdu_MarshalBinary_def bind_res_eq_Inr split: if_splits)
  from read_spec.unmarshal_sequence_enc [OF xs(1) assms(2) xs(2)] xs(3) show ?thesis
    by (simp add: ReadPropertyMultiplePdu_UnmarshalBinary_def)
qed

lemma ReadPropertyMultipleAck_roundtrip:
  assumes "ReadPropertyMultipleAck_MarshalBinary rs = Inr b" "\<forall>r \<in> set rs. rar_ok r"
  shows "ReadPropertyMultipleAck_UnmarshalBinary b = Some (Inr (map rar_view rs))"
proof -
  from assms(1) obtain xs where xs: "map_res ReadAccessResult_MarshalBinary rs = Inr xs" "rs \<noteq> []" "b = concat xs"
    by (auto simp: ReadPropertyMultipleAck_MarshalBinary_def bind_res_eq_Inr split: if_splits)
  from read_result.unmarshal_sequence_enc [OF xs(1) assms(2) xs(2)] xs(3) show ?thesis
    by (simp add: ReadPropertyMultipleAck_UnmarshalBinary_def)
qed

lemma WritePropertyMultiple_roundtrip:
  assumes "WritePropertyMultiplePdu_MarshalBinary specs = Inr b" "\<forall>s \<in> set specs. was_ok s"
  shows "WritePropertyMultiplePdu_UnmarshalBinary b = Some (Inr (map was_view specs))"
proof -
  from assms(1) obtain xs where xs: "map_res WriteAccessSpec_MarshalBinary specs = Inr xs" "specs \<noteq> []" "b = concat xs"
    by (auto simp: WritePropertyMultiplePdu_MarshalBinary_def bind_res_eq_Inr split: if_splits)
  from write_spec.unmarshal_sequence_enc [OF xs(1) assms(2) xs(2)] xs(3) show ?thesis
    by (simp add: WritePropertyMultiplePdu_UnmarshalBinary_def)
qed

definition wpe_view :: "WritePropertyMultipleError \<Rightarrow> WritePropertyMultipleError" where
  "wpe_view e = e\<lparr>wpe_Index := (if wpe_HasIndex e then wpe_Index e else 0)\<rparr>"

lemma WritePropertyMultipleError_unmarshal_encoded:
  assumes "WritePropertyMultipleError_MarshalBinary e = Inr b" "wpe_ObjectId e = Some o1" "oid_wf o1"
  shows "WritePropertyMultipleError_unmarshal (b @ rest) = Inr (wpe_view e, length b)"
proof -
  let ?i = "context_unsigned 1 (wpe_ID e)" and ?x = "optional_context (wpe_HasIndex e) 2 (wpe_Index e)"
  from assms(1,2) obtain x y where x: "PropertyValue_MarshalBinary (enumerated (wpe_Class e)) = Inr x"
    and y: "PropertyValue_MarshalBinary (enumerated (wpe_Code e)) = Inr y"
    and b: "b = open_tag 0 @ x @ y @ close_tag 0 @ open_tag 1 @ ctx_tag 0 4 @ ObjectId_MarshalBinary o1 @ ?i @ ?x @ close_tag 1"
    by (auto simp: WritePropertyMultipleError_MarshalBinary_def bind_res_eq_Inr)
  let ?b = "b @ rest"
  have d0: "drop 0 ?b = open_tag 0 @ (x @ y @ close_tag 0 @ open_tag 1 @ ctx_tag 0 4 @ ObjectId_MarshalBinary o1
      @ ?i @ ?x @ close_tag 1 @ rest)" by (simp add: b)
  have d1: "drop (length (open_tag 0)) ?b = x @ y @ (close_tag 0 @ open_tag 1 @ ctx_tag 0 4 @ ObjectId_MarshalBinary o1
      @ ?i @ ?x @ close_tag 1 @ rest)" using drop_advance [OF d0] by simp
  note d2 = drop_advance [OF drop_advance [OF d1]]
  note d3 = drop_advance [OF d2]
  note d4 = drop_advance [OF d3]
  have d4': "drop (length (open_tag 0) + length x + length y + length (close_tag 0) + length (open_tag 1)) ?b
     = ctx_tag 0 (length (ObjectId_MarshalBinary o1)) @ ObjectId_MarshalBinary o1 @ (?i @ ?x @ close_tag 1 @ rest)"
    using d4 by simp
  note d5 = drop_advance [OF drop_advance [OF d4']]
  note d6 = drop_advance [OF d5]
  note d7 = drop_advance [OF d6]
  note steps = expect_tag_open [OF d0] two_enumerated_at [OF d1 x y] expect_tag_close [OF d2] expect_tag_open [OF d3]
    expect_value_ctx [OF d4'] ObjectId_roundtrip [OF assms(3)] expect_context_unsigned [OF d5]
    optional_context_at [OF d6] expect_tag_close [OF d7]
  show ?thesis
    unfolding WritePropertyMultipleError_unmarshal_def
    using steps assms(2)
    by (cases e) (auto simp: wpe_view_def b Let_def length_EncodeVarUint)
qed

lemma WritePropertyMultipleError_roundtrip:
  assumes "WritePropertyMultipleError_MarshalBinary e = Inr b" "wpe_ObjectId e = Some o1" "oid_wf o1"
  shows "WritePropertyMultipleError_UnmarshalBinary b = Inr (wpe_view e)"
  using WritePropertyMultipleError_unmarshal_encoded [OF assms, of "[]"]
  by (simp add: WritePropertyMultipleError_UnmarshalBinary_def)

section \<open>Properties\<close>

text \<open>C37. The sequence decoders of ReadPropertyMultiple and WritePropertyMultiple end on every octet
  string: each element consumes at least one octet, so the loops run at most once per octet.\<close>

theorem sequence_decoders_terminate:
  "\<exists>x y z. ReadPropertyMultiplePdu_UnmarshalBinary b = Some x \<and> ReadPropertyMultipleAck_UnmarshalBinary b = Some y
     \<and> WritePropertyMultiplePdu_UnmarshalBinary b = Some z"
  unfolding ReadPropertyMultiplePdu_UnmarshalBinary_def ReadPropertyMultipleAck_UnmarshalBinary_def
    WritePropertyMultiplePdu_UnmarshalBinary_def
  using read_spec.unmarshal_sequence_total read_result.unmarshal_sequence_total write_spec.unmarshal_sequence_total
  by blast

end
