(* ===== verification/Apdu.thy ===== *)
theory Apdu
  imports Pdu_Multiple
begin

text \<open>
  Application protocol data units, \<^verbatim>\<open>bacnet/pdu/apdu.go\<close>.  The interface fields \<^verbatim>\<open>RequestData\<close> and
  \<^verbatim>\<open>ResponseData\<close> are datatypes with one constructor per service payload the package implements.
  \<^verbatim>\<open>UnmarshalBinary\<close> keeps the sender address and port of its receiver, which are arguments; the receiver's
  contents after a failed call are never read (\<^verbatim>\<open>ParseRequest\<close> releases it), so an error carries none.
\<close>

datatype request_data =
    ReqReadProperty Property
  | ReqWriteProperty WriteProperty
  | ReqSubscribeCov SubscribeCov
  | ReqWhoHas WhoHas
  | ReqTimeSync TimeSyncPdu
  | ReqReadPropertyMultiple "ReadAccessSpec list"
  | ReqWritePropertyMultiple "WriteAccessSpec list"

definition request_MarshalBinary :: "request_data \<Rightarrow> bytes result" where
  "request_MarshalBinary d = (case d of
       ReqReadProperty p \<Rightarrow> ReadPropertyPdu_MarshalBinary p
     | ReqWriteProperty p \<Rightarrow> WriteProperty_MarshalBinary p
     | ReqSubscribeCov p \<Rightarrow> SubscribeCov_MarshalBinary p
     | ReqWhoHas p \<Rightarrow> WhoHas_MarshalBinary p
     | ReqTimeSync p \<Rightarrow> TimeSyncPdu_MarshalBinary p
     | ReqReadPropertyMultiple s \<Rightarrow> ReadPropertyMultiplePdu_MarshalBinary s
     | ReqWritePropertyMultiple s \<Rightarrow> WritePropertyMultiplePdu_MarshalBinary s)"

datatype response_data =
    RespReadProperty Property
  | RespCovNotification CovNotification
  | RespReadPropertyMultiple "ReadAccessResult list"
  | RespDevice Device
  | RespIHave IHave
  | RespWpmError WritePropertyMultipleError

abbreviation (input) PduTypeConfirmedServiceRequest :: u8 where "PduTypeConfirmedServiceRequest \<equiv> 0"
abbreviation (input) PduTypeUnconfirmedServiceRequest :: u8 where "PduTypeUnconfirmedServiceRequest \<equiv> 0x10"
abbreviation (input) PduTypeSimpleAck :: u8 where "PduTypeSimpleAck \<equiv> 0x20"
abbreviation (input) PduTypeComplexAck :: u8 where "PduTypeComplexAck \<equiv> 0x30"
abbreviation (input) PduTypeSegmentAck :: u8 where "PduTypeSegmentAck \<equiv> 0x40"
abbreviation (input) PduTypeError :: u8 where "PduTypeError \<equiv> 0x50"
abbreviation (input) PduTypeReject :: u8 where "PduTypeReject \<equiv> 0x60"
abbreviation (input) PduTypeAbort :: u8 where "PduTypeAbort \<equiv> 0x70"

abbreviation (input) ConfirmedServiceCovNotification :: u8 where "ConfirmedServiceCovNotification \<equiv> 1"
abbreviation (input) ConfirmedServiceSubscribeCov :: u8 where "ConfirmedServiceSubscribeCov \<equiv> 5"
abbreviation (input) ConfirmedServiceReadProperty :: u8 where "ConfirmedServiceReadProperty \<equiv> 12"
abbreviation (input) ConfirmedServiceReadPropertyMultiple :: u8 where "ConfirmedServiceReadPropertyMultiple \<equiv> 14"
abbreviation (input) ConfirmedServiceWriteProperty :: u8 where "ConfirmedServiceWriteProperty \<equiv> 15"
abbreviation (input) ConfirmedServiceWritePropertyMultiple :: u8 where "ConfirmedServiceWritePropertyMultiple \<equiv> 16"
abbreviation (input) UnconfirmedServiceIAm :: u8 where "UnconfirmedServiceIAm \<equiv> 0"
abbreviation (input) UnconfirmedServiceIHave :: u8 where "UnconfirmedServiceIHave \<equiv> 1"
abbreviation (input) UnconfirmedServiceCovNotification :: u8 where "UnconfirmedServiceCovNotification \<equiv> 2"

record Apdu =
  a_PduType :: u8
  a_InvokeID :: u8
  a_MaxSegments :: u8
  a_MaxApdu :: u16
  a_Segmented :: bool
  a_MoreFollows :: bool
  a_SegmentedResponseAccepted :: bool
  a_Server :: bool
  a_SequenceNumber :: u8
  a_ProposedWindowSize :: u8
  a_ServiceChoice :: u8
  a_Failed :: bool
  a_RequestData :: "request_data option"
  a_ResponseData :: "response_data option"
  a_Payload :: bytes
  a_Errored :: bool
  a_ErrorClass :: u32
  a_ErrorCode :: u32
  a_Aborted :: bool
  a_AbortReason :: u8
  a_Rejected :: bool
  a_RejectReason :: u8
  a_SenderIP :: bytes
  a_BacnetPort :: u16

definition Apdu_Reset :: Apdu where
  "Apdu_Reset = \<lparr>a_PduType = 0, a_InvokeID = 0, a_MaxSegments = 0, a_MaxApdu = 0, a_Segmented = False,
     a_MoreFollows = False, a_SegmentedResponseAccepted = False, a_Server = False, a_SequenceNumber = 0,
     a_ProposedWindowSize = 0, a_ServiceChoice = 0, a_Failed = False, a_RequestData = None,
     a_ResponseData = None, a_Payload = [], a_Errored = False, a_ErrorClass = 0, a_ErrorCode = 0,
     a_Aborted = False, a_AbortReason = 0, a_Rejected = False, a_RejectReason = 0, a_SenderIP = [],
     a_BacnetPort = 0\<rparr>"

section \<open>Encoding\<close>

definition maxSegmentsCode :: "u8 \<Rightarrow> u8 result" where
  "maxSegmentsCode v =
     (if v = 0 then Inr 0 else if v = 2 then Inr 1 else if v = 4 then Inr 2 else if v = 8 then Inr 3
      else if v = 16 then Inr 4 else if v = 32 then Inr 5 else if v = 64 then Inr 6 else if v = 65 then Inr 7
      else Inl (Err ''invalid max segments value: %d''))"

definition maxApduCode :: "u16 \<Rightarrow> u8 result" where
  "maxApduCode v =
     (if v = 50 then Inr 0 else if v = 128 then Inr 1 else if v = 206 then Inr 2 else if v = 480 then Inr 3
      else if v = 1024 then Inr 4 else if v = 1476 then Inr 5
      else Inl (Err ''invalid max APDU value: %d''))"

definition error_bytes :: "u32 \<Rightarrow> u32 \<Rightarrow> bytes" where
  "error_bytes class code =
     concat (map (\<lambda>v. let encoded = EncodeVarUint v in app_tag TagEnumerated (length encoded) @ encoded) [class, code])"

definition Apdu_header :: "Apdu \<Rightarrow> bytes result" where
  "Apdu_header a =
     (let pduType = a_PduType a AND 0xf0;
          first = a_PduType a OR (if a_Segmented a then 0x08 else 0) OR (if a_MoreFollows a then 0x04 else 0)
      in if pduType = PduTypeConfirmedServiceRequest then
           (if a_Segmented a then Inl (Err ''segmented messages are not supported'')
            else bind_res (maxSegmentsCode (a_MaxSegments a)) (\<lambda>segments.
              bind_res (maxApduCode (a_MaxApdu a)) (\<lambda>maxApdu.
                Inr [first OR (if a_SegmentedResponseAccepted a then 0x02 else 0),
                     push_bit 4 segments OR maxApdu, a_InvokeID a, a_ServiceChoice a])))
         else if pduType = PduTypeUnconfirmedServiceRequest then Inr [first, a_ServiceChoice a]
         else if pduType = PduTypeSimpleAck then Inr [first, a_InvokeID a, a_ServiceChoice a]
         else if pduType = PduTypeComplexAck then
           (if a_Segmented a then Inl (Err ''segmented messages are not supported'')
            else Inr [first, a_InvokeID a, a_ServiceChoice a])
         else if pduType = PduTypeError then
           Inr ([first, a_InvokeID a, a_ServiceChoice a]
                @ (if length (a_Payload a) > 0 then a_Payload a else error_bytes (a_ErrorClass a) (a_ErrorCode a)))
         else if pduType = PduTypeReject then Inr [first, a_InvokeID a, a_RejectReason a]
         else if pduType = PduTypeAbort then
           Inr [first OR (if a_Server a then 0x01 else 0), a_InvokeID a, a_AbortReason a]
         else Inl (Err ''unsupported pdu type: %d''))"

definition Apdu_MarshalBinary :: "Apdu \<Rightarrow> bytes result" where
  "Apdu_MarshalBinary a =
     bind_res (Apdu_header a) (\<lambda>head.
       let pduType = a_PduType a AND 0xf0 in
       if pduType = PduTypeConfirmedServiceRequest \<or> pduType = PduTypeUnconfirmedServiceRequest
          \<or> pduType = PduTypeComplexAck
       then (case a_RequestData a of
           Some d \<Rightarrow> bind_res (request_MarshalBinary d) (\<lambda>data. Inr (head @ data))
         | None \<Rightarrow> Inr (head @ (if length (a_Payload a) > 0 then a_Payload a else [])))
       else Inr head)"

section \<open>Decoding\<close>

text \<open>
  The sequence decoder of the acknowledgement always ends (\<open>read_result.unmarshal_sequence_total\<close>),
  so the last case never applies.
\<close>

definition terminating :: "'a result option \<Rightarrow> 'a result" where
  "terminating r = (case r of Some x \<Rightarrow> x | None \<Rightarrow> Inl Panic)"

definition decodeConfirmedApdu :: "Apdu \<Rightarrow> bytes \<Rightarrow> Apdu result" where
  "decodeConfirmedApdu a data =
     (if a_ServiceChoice a = ConfirmedServiceReadProperty then
        bind_res (ReadPropertyPdu_UnmarshalBinary (a_PduType a = PduTypeComplexAck) data) (\<lambda>p.
          Inr (a\<lparr>a_ResponseData := Some (RespReadProperty p)\<rparr>))
      else if a_ServiceChoice a = ConfirmedServiceCovNotification then
        bind_res (CovNotification_UnmarshalBinary data) (\<lambda>n.
          Inr (a\<lparr>a_ResponseData := Some (RespCovNotification n)\<rparr>))
      else if a_ServiceChoice a = ConfirmedServiceReadPropertyMultiple then
        (if a_PduType a \<noteq> PduTypeComplexAck then Inr a
         else bind_res (terminating (ReadPropertyMultipleAck_UnmarshalBinary data)) (\<lambda>r.
           Inr (a\<lparr>a_ResponseData := Some (RespReadPropertyMultiple r)\<rparr>)))
      else Inr a)"

definition decodeUnconfirmedApdu :: "Apdu \<Rightarrow> bytes \<Rightarrow> Apdu result" where
  "decodeUnconfirmedApdu a data =
     (if a_ServiceChoice a = UnconfirmedServiceIAm then
        bind_res (Device_UnmarshalBinary (Device_Reset\<lparr>dev_IPAddress := a_SenderIP a, dev_Port := a_BacnetPort a\<rparr>) data)
          (\<lambda>d. Inr (a\<lparr>a_ResponseData := Some (RespDevice d)\<rparr>))
      else if a_ServiceChoice a = UnconfirmedServiceCovNotification then
        bind_res (CovNotification_UnmarshalBinary data) (\<lambda>n.
          Inr (a\<lparr>a_ResponseData := Some (RespCovNotification n)\<rparr>))
      else if a_ServiceChoice a = UnconfirmedServiceIHave then
        bind_res (IHave_UnmarshalBinary data) (\<lambda>n. Inr (a\<lparr>a_ResponseData := Some (RespIHave n)\<rparr>))
      else Inr a)"

definition readByte :: "bytes \<Rightarrow> (u8 \<times> bytes) result" where
  "readByte b = (case b of [] \<Rightarrow> Inl (Err ''APDU is truncated'') | x # xs \<Rightarrow> Inr (x, xs))"

definition apdu_unconfirmed :: "Apdu \<Rightarrow> bytes \<Rightarrow> Apdu result" where
  "apdu_unconfirmed a b =
     bind_res (readByte b) (\<lambda>(service, b).
       decodeUnconfirmedApdu (a\<lparr>a_ServiceChoice := service, a_Payload := b\<rparr>) b)"

text \<open>Sequence number and window size of a segmented message.\<close>

definition segment_fields :: "bytes \<Rightarrow> (u8 \<times> u8 \<times> bytes) result" where
  "segment_fields b = bind_res (readByte b) (\<lambda>(s, b). bind_res (readByte b) (\<lambda>(w, b). Inr (s, w, b)))"

definition apdu_confirmed :: "Apdu \<Rightarrow> u8 \<Rightarrow> bytes \<Rightarrow> Apdu result" where
  "apdu_confirmed a first b =
     (let seg = (first AND 0x08 \<noteq> 0) in
      bind_res (readByte b) (\<lambda>(maximums, b).
      bind_res (MaxSegments_UnmarshalBinary [maximums]) (\<lambda>maxSegments.
      bind_res (MaxApduValue_UnmarshalBinary [maximums]) (\<lambda>maxApdu.
      bind_res (readByte b) (\<lambda>(invokeID, b).
      bind_res (if seg then segment_fields b else Inr (0, 0, b)) (\<lambda>(sequence, window, b).
      bind_res (readByte b) (\<lambda>(service, b).
      let a = a\<lparr>a_SegmentedResponseAccepted := (first AND 0x02 \<noteq> 0), a_Segmented := seg,
                a_MoreFollows := (seg \<and> first AND 0x04 \<noteq> 0), a_MaxSegments := maxSegments,
                a_MaxApdu := maxApdu, a_InvokeID := invokeID, a_SequenceNumber := sequence,
                a_ProposedWindowSize := window, a_ServiceChoice := service, a_Payload := b\<rparr>
      in if seg then Inr a else decodeConfirmedApdu a b)))))))"

definition apdu_simple_ack :: "Apdu \<Rightarrow> bytes \<Rightarrow> Apdu result" where
  "apdu_simple_ack a b =
     bind_res (readByte b) (\<lambda>(invokeID, b). bind_res (readByte b) (\<lambda>(service, b).
       Inr (a\<lparr>a_InvokeID := invokeID, a_ServiceChoice := service\<rparr>)))"

definition apdu_complex_ack :: "Apdu \<Rightarrow> u8 \<Rightarrow> bytes \<Rightarrow> Apdu result" where
  "apdu_complex_ack a first b =
     bind_res (readByte b) (\<lambda>(invokeID, b).
       if first AND 0x08 \<noteq> 0 then
         bind_res (segment_fields b) (\<lambda>_. Inl (Err ''segmented messages are not supported''))
       else bind_res (readByte b) (\<lambda>(service, b).
         decodeConfirmedApdu (a\<lparr>a_InvokeID := invokeID, a_ServiceChoice := service, a_Payload := b\<rparr>) b))"

text \<open>A tag header that starts a WritePropertyMultiple error production.\<close>

definition is_wpm_error :: "bytes \<Rightarrow> bool" where
  "is_wpm_error b = (let (peek, h) = DecodeTag b in h > 0 \<and> opening_context 0 peek)"

definition apdu_error :: "Apdu \<Rightarrow> bytes \<Rightarrow> Apdu result" where
  "apdu_error a b =
     bind_res (readByte b) (\<lambda>(invokeID, b). bind_res (readByte b) (\<lambda>(service, b).
       let a = a\<lparr>a_Failed := True, a_Errored := True, a_InvokeID := invokeID, a_ServiceChoice := service\<rparr> in
       if service = ConfirmedServiceWritePropertyMultiple \<and> 0 < length b \<and> is_wpm_error b then
         bind_res (WritePropertyMultipleError_UnmarshalBinary b) (\<lambda>e.
           Inr (a\<lparr>a_ErrorClass := wpe_Class e, a_ErrorCode := wpe_Code e,
                  a_ResponseData := Some (RespWpmError e), a_Payload := b\<rparr>))
       else bind_res (two_enumerated ''error APDU is truncated'' ''error APDU contains an invalid tag''
                ''error APDU value is truncated'' b 0) (\<lambda>(class, code, off).
           Inr (a\<lparr>a_ErrorClass := class, a_ErrorCode := code, a_Payload := drop off b\<rparr>))))"

definition apdu_reject :: "Apdu \<Rightarrow> bytes \<Rightarrow> Apdu result" where
  "apdu_reject a b =
     bind_res (readByte b) (\<lambda>(invokeID, b). bind_res (readByte b) (\<lambda>(reason, b).
       Inr (a\<lparr>a_Failed := True, a_Rejected := True, a_InvokeID := invokeID, a_RejectReason := reason\<rparr>)))"

definition apdu_abort :: "Apdu \<Rightarrow> u8 \<Rightarrow> bytes \<Rightarrow> Apdu result" where
  "apdu_abort a first b =
     bind_res (readByte b) (\<lambda>(invokeID, b). bind_res (readByte b) (\<lambda>(reason, b).
       Inr (a\<lparr>a_Failed := True, a_Aborted := True, a_Server := (first AND 0x01 \<noteq> 0),
              a_InvokeID := invokeID, a_AbortReason := reason\<rparr>)))"

definition Apdu_UnmarshalBinary :: "bytes \<Rightarrow> u16 \<Rightarrow> bytes \<Rightarrow> Apdu result" where
  "Apdu_UnmarshalBinary senderIP port b =
     (case b of
        [] \<Rightarrow> Inl (Err ''APDU is empty'')
      | first # rest \<Rightarrow>
          (let pduType = first AND 0xf0;
               a = Apdu_Reset\<lparr>a_SenderIP := senderIP, a_BacnetPort := port, a_PduType := pduType\<rparr>
           in if pduType = PduTypeUnconfirmedServiceRequest then apdu_unconfirmed a rest
              else if pduType = PduTypeConfirmedServiceRequest then apdu_confirmed a first rest
              else if pduType = PduTypeSimpleAck then apdu_simple_ack a rest
              else if pduType = PduTypeComplexAck then apdu_complex_ack a first rest
              else if pduType = PduTypeError then apdu_error a rest
              else if pduType = PduTypeReject then apdu_reject a rest
              else if pduType = PduTypeAbort then apdu_abort a first rest
              else if pduType = PduTypeSegmentAck then Inl (Err ''segmented messages are not supported'')
              else Inl (Err ''unsupported pdu type: %d'')))"

section \<open>Round trips by PDU type\<close>

lemma readByte_simps [simp]: "readByte (x # xs) = Inr (x, xs)" "readByte [] = Inl (Err ''APDU is truncated'')"
  by (simp_all add: readByte_def)

lemma maximums_octet:
  assumes "maxSegmentsCode v = Inr c" "maxApduCode w = Inr d"
  shows "MaxSegments_UnmarshalBinary [push_bit 4 c OR d] = Inr v"
    "MaxApduValue_UnmarshalBinary [push_bit 4 c OR d] = Inr w"
proof -
  have c: "(v, c) \<in> {(0,0), (2,1), (4,2), (8,3), (16,4), (32,5), (64,6), (65,7)}"
    using assms(1) by (auto simp: maxSegmentsCode_def split: if_splits)
  have d: "(w, d) \<in> {(50,0), (128,1), (206,2), (480,3), (1024,4), (1476,5)}"
    using assms(2) by (auto simp: maxApduCode_def split: if_splits)
  show "MaxSegments_UnmarshalBinary [push_bit 4 c OR d] = Inr v"
    using c d by (auto simp: MaxSegments_UnmarshalBinary_def)
  show "MaxApduValue_UnmarshalBinary [push_bit 4 c OR d] = Inr w"
    using c d by (auto simp: MaxApduValue_UnmarshalBinary_def)
qed

text \<open>The service parameters of a request or of a complex acknowledgement.\<close>

definition apdu_body :: "Apdu \<Rightarrow> bytes result" where
  "apdu_body a = (case a_RequestData a of Some d \<Rightarrow> request_MarshalBinary d | None \<Rightarrow> Inr (a_Payload a))"

lemma Apdu_MarshalBinary_body:
  assumes "a_PduType a AND 0xf0 \<in> {0, 0x10, 0x30}"
  shows "Apdu_MarshalBinary a
     = bind_res (Apdu_header a) (\<lambda>head. bind_res (apdu_body a) (\<lambda>data. Inr (head @ data)))"
  using assms by (cases "a_RequestData a") (auto simp: Apdu_MarshalBinary_def apdu_body_def Let_def)

definition received :: "bytes \<Rightarrow> u16 \<Rightarrow> u8 \<Rightarrow> Apdu" where
  "received ip port t = Apdu_Reset\<lparr>a_SenderIP := ip, a_BacnetPort := port, a_PduType := t\<rparr>"

definition received_request :: "bytes \<Rightarrow> u16 \<Rightarrow> Apdu \<Rightarrow> bytes \<Rightarrow> Apdu" where
  "received_request ip port a data = (received ip port 0)\<lparr>
     a_SegmentedResponseAccepted := a_SegmentedResponseAccepted a, a_MaxSegments := a_MaxSegments a,
     a_MaxApdu := a_MaxApdu a, a_InvokeID := a_InvokeID a, a_ServiceChoice := a_ServiceChoice a,
     a_Payload := data\<rparr>"

lemma Apdu_confirmed_received:
  assumes "Apdu_MarshalBinary a = Inr b" "a_PduType a = PduTypeConfirmedServiceRequest" "\<not> a_MoreFollows a"
  shows "\<exists>data. apdu_body a = Inr data \<and> length b = 4 + length data
    \<and> Apdu_UnmarshalBinary ip port b = decodeConfirmedApdu (received_request ip port a data) data"
proof -
  from assms obtain c d data where c: "maxSegmentsCode (a_MaxSegments a) = Inr c" "maxApduCode (a_MaxApdu a) = Inr d"
    and s: "\<not> a_Segmented a" and data: "apdu_body a = Inr data"
    and b: "b = [if a_SegmentedResponseAccepted a then 2 else 0, push_bit 4 c OR d, a_InvokeID a, a_ServiceChoice a] @ data"
    by (auto simp: Apdu_MarshalBinary_body Apdu_header_def bind_res_eq_Inr Let_def split: if_splits)
  have "Apdu_UnmarshalBinary ip port b = decodeConfirmedApdu (received_request ip port a data) data"
    unfolding b using maximums_octet [OF c]
    by (auto simp: Apdu_UnmarshalBinary_def apdu_confirmed_def received_request_def received_def
        Apdu_Reset_def Let_def)
  with data b show ?thesis by simp
qed

lemma Apdu_unconfirmed_received:
  assumes "Apdu_MarshalBinary a = Inr b" "a_PduType a = PduTypeUnconfirmedServiceRequest"
    "\<not> a_MoreFollows a" "\<not> a_Segmented a"
  shows "\<exists>data. apdu_body a = Inr data \<and> length b = 2 + length data
    \<and> Apdu_UnmarshalBinary ip port b = decodeUnconfirmedApdu
        ((received ip port PduTypeUnconfirmedServiceRequest)\<lparr>a_ServiceChoice := a_ServiceChoice a, a_Payload := data\<rparr>) data"
proof -
  from assms obtain data where data: "apdu_body a = Inr data" and b: "b = [0x10, a_ServiceChoice a] @ data"
    by (auto simp: Apdu_MarshalBinary_body Apdu_header_def bind_res_eq_Inr Let_def split: if_splits)
  with data show ?thesis
    by (simp add: Apdu_UnmarshalBinary_def apdu_unconfirmed_def received_def)
qed

lemma Apdu_complex_ack_received:
  assumes "Apdu_MarshalBinary a = Inr b" "a_PduType a = PduTypeComplexAck" "\<not> a_MoreFollows a"
  shows "\<exists>data. apdu_body a = Inr data \<and> length b = 3 + length data
    \<and> Apdu_UnmarshalBinary ip port b = decodeConfirmedApdu ((received ip port PduTypeComplexAck)\<lparr>
        a_InvokeID := a_InvokeID a, a_ServiceChoice := a_ServiceChoice a, a_Payload := data\<rparr>) data"
proof -
  from assms obtain data where data: "apdu_body a = Inr data" and b: "b = [0x30, a_InvokeID a, a_ServiceChoice a] @ data"
    by (auto simp: Apdu_MarshalBinary_body Apdu_header_def bind_res_eq_Inr Let_def split: if_splits)
  with data show ?thesis
    by (simp add: Apdu_UnmarshalBinary_def apdu_complex_ack_def received_def)
qed

lemma Apdu_simple_ack_received:
  assumes "Apdu_MarshalBinary a = Inr b" "a_PduType a = PduTypeSimpleAck" "\<not> a_MoreFollows a" "\<not> a_Segmented a"
  shows "Apdu_UnmarshalBinary ip port b = Inr ((received ip port PduTypeSimpleAck)\<lparr>
      a_InvokeID := a_InvokeID a, a_ServiceChoice := a_ServiceChoice a\<rparr>)"
  using assms
  by (auto simp: Apdu_MarshalBinary_def Apdu_header_def Apdu_UnmarshalBinary_def apdu_simple_ack_def received_def Let_def)

lemma Apdu_reject_received:
  assumes "Apdu_MarshalBinary a = Inr b" "a_PduType a = PduTypeReject" "\<not> a_MoreFollows a" "\<not> a_Segmented a"
  shows "Apdu_UnmarshalBinary ip port b = Inr ((received ip port PduTypeReject)\<lparr>
      a_Failed := True, a_Rejected := True, a_InvokeID := a_InvokeID a, a_RejectReason := a_RejectReason a\<rparr>)"
  using assms
  by (auto simp: Apdu_MarshalBinary_def Apdu_header_def Apdu_UnmarshalBinary_def apdu_reject_def received_def Let_def)

lemma Apdu_abort_received:
  assumes "Apdu_MarshalBinary a = Inr b" "a_PduType a = PduTypeAbort" "\<not> a_MoreFollows a" "\<not> a_Segmented a"
  shows "Apdu_UnmarshalBinary ip port b = Inr ((received ip port PduTypeAbort)\<lparr>
      a_Failed := True, a_Aborted := True, a_Server := a_Server a, a_InvokeID := a_InvokeID a,
      a_AbortReason := a_AbortReason a\<rparr>)"
  using assms
  by (auto simp: Apdu_MarshalBinary_def Apdu_header_def Apdu_UnmarshalBinary_def apdu_abort_def received_def Let_def)

lemma error_bytes_received:
  "two_enumerated e i t (error_bytes c d) 0 = Inr (c, d, length (error_bytes c d))"
proof -
  have "drop 0 (error_bytes c d) = (app_tag 9 (length (EncodeVarUint c)) @ EncodeVarUint c)
      @ (app_tag 9 (length (EncodeVarUint d)) @ EncodeVarUint d) @ []"
    by (simp add: error_bytes_def Let_def)
  from two_enumerated_at [OF this marshal_enumerated marshal_enumerated] show ?thesis
    by (simp add: error_bytes_def Let_def)
qed

lemma error_bytes_not_wpm: "\<not> is_wpm_error (error_bytes c d)"
proof -
  have "error_bytes c d = app_tag 9 (length (EncodeVarUint c)) @ EncodeVarUint c
      @ app_tag 9 (length (EncodeVarUint d)) @ EncodeVarUint d" by (simp add: error_bytes_def Let_def)
  then show ?thesis by (simp add: is_wpm_error_def DecodeTag_app_tag)
qed

lemma Apdu_error_received:
  assumes "Apdu_MarshalBinary a = Inr b" "a_PduType a = PduTypeError" "\<not> a_MoreFollows a" "\<not> a_Segmented a"
    "a_Payload a = []"
  shows "Apdu_UnmarshalBinary ip port b = Inr ((received ip port PduTypeError)\<lparr>
      a_Failed := True, a_Errored := True, a_InvokeID := a_InvokeID a, a_ServiceChoice := a_ServiceChoice a,
      a_ErrorClass := a_ErrorClass a, a_ErrorCode := a_ErrorCode a\<rparr>)"
  using assms
  by (auto simp: Apdu_MarshalBinary_def Apdu_header_def Apdu_UnmarshalBinary_def apdu_error_def received_def
      error_bytes_received error_bytes_not_wpm Let_def Apdu_Reset_def)

text \<open>An error PDU that carries a WritePropertyMultiple error production names the failed write.\<close>

lemma is_wpm_error_marshalled:
  "WritePropertyMultipleError_MarshalBinary e = Inr x \<Longrightarrow> is_wpm_error x \<and> x \<noteq> []"
  by (auto simp: WritePropertyMultipleError_MarshalBinary_def bind_res_eq_Inr is_wpm_error_def
      DecodeTag_open_tag split: option.splits)

lemma Apdu_wpm_error_received:
  assumes "Apdu_MarshalBinary a = Inr b" "a_PduType a = PduTypeError" "\<not> a_MoreFollows a" "\<not> a_Segmented a"
    "WritePropertyMultipleError_MarshalBinary e = Inr (a_Payload a)" "wpe_ObjectId e = Some o1" "oid_wf o1"
    "a_ServiceChoice a = ConfirmedServiceWritePropertyMultiple"
  shows "Apdu_UnmarshalBinary ip port b = Inr ((received ip port PduTypeError)\<lparr>
      a_Failed := True, a_Errored := True, a_InvokeID := a_InvokeID a, a_ServiceChoice := a_ServiceChoice a,
      a_ErrorClass := wpe_Class e, a_ErrorCode := wpe_Code e, a_ResponseData := Some (RespWpmError (wpe_view e)),
      a_Payload := a_Payload a\<rparr>)"
proof -
  note w = is_wpm_error_marshalled [OF assms(5)] WritePropertyMultipleError_roundtrip [OF assms(5-7)]
  have "b = [0x50, a_InvokeID a, 16] @ a_Payload a"
    using assms w(1) by (auto simp: Apdu_MarshalBinary_def Apdu_header_def Let_def)
  with w assms(8) show ?thesis
    by (simp add: Apdu_UnmarshalBinary_def apdu_error_def received_def Let_def wpe_view_def)
qed

end
