(* ===== verification/Npdu.thy ===== *)
theory Npdu
  imports Primitives
begin

text \<open>
  The two outer layers of a BACnet/IP datagram: the BVLC header (\<^verbatim>\<open>bacnet/types/header.go\<close>) and the
  network protocol control information (\<^verbatim>\<open>bacnet/pdu/npci.go\<close>).  The decoders read from a
  \<^verbatim>\<open>bytes.Buffer\<close>; \<open>ReadByte\<close> and \<open>Next\<close> are its two reading operations on the unread portion.
\<close>

section \<open>bytes.Buffer\<close>

definition ReadByte :: "bytes \<Rightarrow> (u8 \<times> bytes) result" where
  "ReadByte buf = (case buf of [] \<Rightarrow> Inl (Err ''EOF'') | x # xs \<Rightarrow> Inr (x, xs))"

definition Next :: "nat \<Rightarrow> bytes \<Rightarrow> bytes \<times> bytes" where
  "Next n buf = (take n buf, drop n buf)"

lemma ReadByte_simps [simp]: "ReadByte [] = Inl (Err ''EOF'')" "ReadByte (x # xs) = Inr (x, xs)"
  by (simp_all add: ReadByte_def)

lemma Next_append: "n = length xs \<Longrightarrow> Next n (xs @ ys) = (xs, ys)"
  by (simp add: Next_def)

section \<open>header.go\<close>

definition BACnetProtocol :: u8 where "BACnetProtocol = 0x81"
definition BACnetVersion :: u8 where "BACnetVersion = 1"

abbreviation (input) BvlcFunctionOriginalUnicastNpdu :: u8 where "BvlcFunctionOriginalUnicastNpdu \<equiv> 10"
abbreviation (input) BvlcFunctionOriginalBroadcastNpdu :: u8 where "BvlcFunctionOriginalBroadcastNpdu \<equiv> 11"

record Header =
  h_ProtocolType :: u8
  h_Function :: u8
  h_BvlcLength :: u16
  h_NsduLength :: u16

definition IsBroadcast :: "Header \<Rightarrow> bool" where
  "IsBroadcast h \<longleftrightarrow> h_Function h = BvlcFunctionOriginalBroadcastNpdu"

definition Header_MarshalBinary :: "Header \<Rightarrow> bytes" where
  "Header_MarshalBinary h = [BACnetProtocol, h_Function h] @ Uint16_MarshalBinary (h_BvlcLength h)"

definition Header_UnmarshalBinary :: "bytes \<Rightarrow> Header result" where
  "Header_UnmarshalBinary b =
     (if length b = 0 then Inl (Err ''received an empty byte slice'')
      else bind_res (ReadByte b) (\<lambda>(protocolType, buf).
        if protocolType \<noteq> BACnetProtocol then Inl (Err ''expected protocol to be %x but got %x'')
        else bind_res (ReadByte buf) (\<lambda>(function, buf).
          if function \<noteq> BvlcFunctionOriginalUnicastNpdu \<and> function \<noteq> BvlcFunctionOriginalBroadcastNpdu
          then Inl (Err ''unsupported BVLC function: %d'')
          else (let (x, buf) = Next 2 buf in
            if length x \<noteq> 2 then Inl (Err ''unexpected number of bytes'')
            else bind_res (Uint16_UnmarshalBinary x) (\<lambda>bvlcLength.
              if bvlcLength < 4 then Inl (Err ''BVLC length is smaller than its header'')
              else Inr \<lparr>h_ProtocolType = protocolType, h_Function = function,
                        h_BvlcLength = bvlcLength, h_NsduLength = bvlcLength - 4\<rparr>)))))"

section \<open>npci.go\<close>

definition MaxMacLen :: nat where "MaxMacLen = 7"

definition BITS01 :: u8 where "BITS01 = 3"

record Npci =
  n_ProtocolVersion :: u8
  n_NetworkLayerMessage :: bool
  n_IsConfirmed :: bool
  n_ExpectingReply :: bool
  n_Priority :: u8
  n_HopCount :: u8
  n_ControlOctet :: u8
  n_Length :: nat
  n_DestinationNet :: u16
  n_DestinationLength :: u8
  n_DestinationMAC :: "bytes option"
  n_DestinationIP :: bytes
  n_SourceNet :: u16
  n_SourceLength :: u8
  n_SourceMAC :: "bytes option"
  n_SourceIP :: bytes

definition Npci_Reset :: Npci where
  "Npci_Reset = \<lparr>n_ProtocolVersion = BACnetVersion, n_NetworkLayerMessage = False, n_IsConfirmed = False,
     n_ExpectingReply = False, n_Priority = 0, n_HopCount = 255, n_ControlOctet = 0, n_Length = 0,
     n_DestinationNet = 0, n_DestinationLength = 0, n_DestinationMAC = None, n_DestinationIP = [],
     n_SourceNet = 0, n_SourceLength = 0, n_SourceMAC = None, n_SourceIP = []\<rparr>"

definition mac_bytes :: "bytes option \<Rightarrow> bytes" where
  "mac_bytes m = (case m of None \<Rightarrow> [] | Some x \<Rightarrow> x)"

definition control_octet :: "Npci \<Rightarrow> u8" where
  "control_octet n = (if n_DestinationNet n > 0 then 0x20 else 0) OR (if n_SourceNet n > 0 then 0x08 else 0)
     OR (if n_ExpectingReply n then 0x04 else 0) OR (n_Priority n AND BITS01)"

definition Npci_MarshalBinary :: "Npci \<Rightarrow> bytes result" where
  "Npci_MarshalBinary n =
     (let destination = mac_bytes (n_DestinationMAC n); source = mac_bytes (n_SourceMAC n) in
      if n_NetworkLayerMessage n then Inl (Err ''network layer messages are not supported'')
      else if length destination > MaxMacLen then Inl (Err ''destination MAC is too long'')
      else if n_DestinationLength n \<noteq> 0 \<and> unat (n_DestinationLength n) \<noteq> length destination
      then Inl (Err ''destination MAC length does not match address'')
      else if length source > MaxMacLen then Inl (Err ''source MAC is too long'')
      else if n_SourceLength n \<noteq> 0 \<and> unat (n_SourceLength n) \<noteq> length source
      then Inl (Err ''source MAC length does not match address'')
      else if n_SourceNet n \<noteq> 0 \<and> length source = 0 then Inl (Err ''source network requires a source MAC'')
      else Inr ([n_ProtocolVersion n, control_octet n]
        @ (if n_DestinationNet n > 0
           then Uint16_MarshalBinary (n_DestinationNet n) @ [word_of_nat (length destination)] @ destination else [])
        @ (if n_SourceNet n > 0
           then Uint16_MarshalBinary (n_SourceNet n) @ [word_of_nat (length source)] @ source else [])
        @ (if n_DestinationNet n > 0 then [n_HopCount n] else [])))"

text \<open>The network number, length and address of a destination or source.\<close>

definition read_address :: "bytes \<Rightarrow> (u16 \<times> u8 \<times> bytes option \<times> bytes) result" where
  "read_address buf =
     (let (x, buf) = Next 2 buf in
      if length x \<noteq> 2 then Inl (Err ''byte slice is too short'')
      else bind_res (Uint16_UnmarshalBinary x) (\<lambda>net.
        bind_res (ReadByte buf) (\<lambda>(len, buf).
          if unat len > 0 then
            (let (address, buf) = Next (unat len) buf in
             if length address \<noteq> unat len then Inl (Err ''byte slice is too short'')
             else Inr (net, len, Some address, buf))
          else Inr (net, len, None, buf))))"

definition optional_address :: "bool \<Rightarrow> bytes \<Rightarrow> (u16 \<times> u8 \<times> bytes option \<times> bytes) result" where
  "optional_address present buf = (if present then read_address buf else Inr (0, 0, None, buf))"

definition optional_hop_count :: "u16 \<Rightarrow> bytes \<Rightarrow> (u8 \<times> bytes) result" where
  "optional_hop_count dnet buf = (if dnet \<noteq> 0 then ReadByte buf else Inr (255, buf))"

definition Npci_UnmarshalBinary :: "bytes \<Rightarrow> Npci result" where
  "Npci_UnmarshalBinary b =
     bind_res (ReadByte b) (\<lambda>(version, buf).
     if version \<noteq> BACnetVersion then Inl (Err ''expected protocol version to be %d but got %d'')
     else bind_res (ReadByte buf) (\<lambda>(control, buf).
     if control AND 0x80 \<noteq> 0 then Inl (Err ''network layer messages aren't supported'')
     else bind_res (optional_address (control AND 0x20 \<noteq> 0) buf) (\<lambda>(dnet, dlen, dmac, buf).
     bind_res (optional_address (control AND 0x08 \<noteq> 0) buf) (\<lambda>(snet, slen, smac, buf).
     bind_res (optional_hop_count dnet buf) (\<lambda>(hop, buf).
     Inr (Npci_Reset\<lparr>n_ProtocolVersion := version, n_ControlOctet := control, n_HopCount := hop,
       n_DestinationNet := dnet, n_DestinationLength := dlen, n_DestinationMAC := dmac,
       n_SourceNet := snet, n_SourceLength := slen, n_SourceMAC := smac,
       n_ExpectingReply := (control AND 0x04 \<noteq> 0), n_Priority := control AND BITS01,
       n_Length := length b - length buf\<rparr>))))))"

section \<open>Round trips\<close>

lemma Uint16_codec [simp]: "Uint16_UnmarshalBinary (Uint16_MarshalBinary v) = Inr v"
  by (simp add: Uint16_UnmarshalBinary_def Uint16_MarshalBinary_def)

lemma length_Uint16_MarshalBinary [simp]: "length (Uint16_MarshalBinary v) = 2"
  by (simp add: Uint16_MarshalBinary_def)

lemma Header_roundtrip:
  assumes "h_Function h = 10 \<or> h_Function h = 11" "4 \<le> h_BvlcLength h"
  shows "Header_UnmarshalBinary (Header_MarshalBinary h @ rest)
     = Inr (h\<lparr>h_ProtocolType := BACnetProtocol, h_NsduLength := h_BvlcLength h - 4\<rparr>)"
proof -
  have "Next 2 (Uint16_MarshalBinary (h_BvlcLength h) @ rest) = (Uint16_MarshalBinary (h_BvlcLength h), rest)"
    by (rule Next_append) simp
  with assms show ?thesis by (auto simp: Header_UnmarshalBinary_def Header_MarshalBinary_def)
qed

lemma read_address_written:
  assumes "length a \<le> MaxMacLen"
  shows "read_address (Uint16_MarshalBinary net @ [word_of_nat (length a)] @ a @ rest)
     = Inr (net, word_of_nat (length a), (if a = [] then None else Some a), rest)"
proof -
  have "unat (word_of_nat (length a) :: u8) = length a"
    using assms by (simp add: unsigned_of_nat take_bit_nat_eq_self MaxMacLen_def)
  moreover have "Next 2 (Uint16_MarshalBinary net @ y) = (Uint16_MarshalBinary net, y)" for y
    by (rule Next_append) simp
  ultimately show ?thesis by (auto simp: read_address_def Next_append)
qed

lemma control_octet_bits:
  "control_octet n AND 0x80 = 0"
  "control_octet n AND 0x20 \<noteq> 0 \<longleftrightarrow> n_DestinationNet n > 0"
  "control_octet n AND 0x08 \<noteq> 0 \<longleftrightarrow> n_SourceNet n > 0"
  "control_octet n AND 0x04 \<noteq> 0 \<longleftrightarrow> n_ExpectingReply n"
  "control_octet n AND BITS01 = n_Priority n AND BITS01"
proof -
  have k: "((x::u8) AND 3) AND 0x80 = 0" "(x AND 3) AND 0x20 = 0" "(x AND 3) AND 8 = 0"
    "(x AND 3) AND 4 = 0" for x
    by (simp_all add: and.assoc)
  show "control_octet n AND 0x80 = 0"
    "control_octet n AND 0x20 \<noteq> 0 \<longleftrightarrow> n_DestinationNet n > 0"
    "control_octet n AND 0x08 \<noteq> 0 \<longleftrightarrow> n_SourceNet n > 0"
    "control_octet n AND 0x04 \<noteq> 0 \<longleftrightarrow> n_ExpectingReply n"
    "control_octet n AND BITS01 = n_Priority n AND BITS01"
    unfolding control_octet_def using k [of "n_Priority n"]
    by (simp_all add: bit.conj_disj_distrib2 BITS01_def)
qed

text \<open>The receiver after decoding what \<open>n\<close> encodes to.\<close>

definition decoded_npci :: "Npci \<Rightarrow> nat \<Rightarrow> Npci" where
  "decoded_npci n len = Npci_Reset\<lparr>n_ProtocolVersion := n_ProtocolVersion n, n_ControlOctet := control_octet n,
     n_ExpectingReply := n_ExpectingReply n, n_Priority := n_Priority n AND BITS01, n_Length := len,
     n_HopCount := (if n_DestinationNet n > 0 then n_HopCount n else 255),
     n_DestinationNet := n_DestinationNet n,
     n_DestinationLength := (if n_DestinationNet n > 0 then word_of_nat (length (mac_bytes (n_DestinationMAC n))) else 0),
     n_DestinationMAC := (if n_DestinationNet n > 0 \<and> mac_bytes (n_DestinationMAC n) \<noteq> []
                          then n_DestinationMAC n else None),
     n_SourceNet := n_SourceNet n,
     n_SourceLength := (if n_SourceNet n > 0 then word_of_nat (length (mac_bytes (n_SourceMAC n))) else 0),
     n_SourceMAC := (if n_SourceNet n > 0 then n_SourceMAC n else None)\<rparr>"

lemma mac_bytes_Some: "mac_bytes m \<noteq> [] \<Longrightarrow> Some (mac_bytes m) = m"
  by (simp add: mac_bytes_def split: option.splits)

lemma Npci_roundtrip:
  assumes "Npci_MarshalBinary n = Inr b" "n_ProtocolVersion n = BACnetVersion"
  shows "Npci_UnmarshalBinary (b @ rest) = Inr (decoded_npci n (length b))"
proof -
  let ?d = "mac_bytes (n_DestinationMAC n)" and ?s = "mac_bytes (n_SourceMAC n)"
  from assms(1) have d: "length ?d \<le> MaxMacLen" and s: "length ?s \<le> MaxMacLen"
    and sn: "n_SourceNet n \<noteq> 0 \<longrightarrow> ?s \<noteq> []"
    and b: "b = [n_ProtocolVersion n, control_octet n]
        @ (if n_DestinationNet n > 0
           then Uint16_MarshalBinary (n_DestinationNet n) @ [word_of_nat (length ?d)] @ ?d else [])
        @ (if n_SourceNet n > 0
           then Uint16_MarshalBinary (n_SourceNet n) @ [word_of_nat (length ?s)] @ ?s else [])
        @ (if n_DestinationNet n > 0 then [n_HopCount n] else [])"
    by (auto simp: Npci_MarshalBinary_def Let_def split: if_splits)
  note ra = read_address_written [OF d, simplified] read_address_written [OF s, simplified]
  show ?thesis
    using assms(2) sn
    by (cases "n_DestinationNet n > 0"; cases "n_SourceNet n > 0")
       (auto simp: Npci_UnmarshalBinary_def optional_address_def optional_hop_count_def b control_octet_bits ra decoded_npci_def mac_bytes_Some
          word_neq_0_conv [symmetric])
qed

lemma ReadByte_Inr: "ReadByte buf = Inr (x, r) \<longleftrightarrow> buf = x # r"
  by (auto simp: ReadByte_def split: list.splits)

lemma read_address_shorter: "read_address buf = Inr (n, l, m, r) \<Longrightarrow> length r \<le> length buf"
proof -
  assume "read_address buf = Inr (n, l, m, r)"
  then obtain buf' where "drop 2 buf = l # buf'" "length r \<le> length buf'"
    by (auto simp: read_address_def Next_def ReadByte_Inr bind_res_eq_Inr Let_def split: if_splits)
  then have "length r \<le> length (drop 2 buf)" by simp
  then show ?thesis by simp
qed

text \<open>A decoded NPCI never claims more octets than the datagram holds, and at least two.\<close>

lemma Npci_Length_bounds:
  assumes "Npci_UnmarshalBinary b = Inr n"
  shows "2 \<le> n_Length n" "n_Length n \<le> length b"
proof -
  have opt: "length r \<le> length buf" if "optional_address c buf = Inr (x, l, m, r)" for c buf x l m r
    using that by (auto simp: optional_address_def dest: read_address_shorter split: if_splits)
  from assms obtain v c buf dn dl dm buf1 sn sl sm buf2 hop buf3 where
    b: "b = v # c # buf"
    and d: "optional_address (c AND 0x20 \<noteq> 0) buf = Inr (dn, dl, dm, buf1)"
    and s: "optional_address (c AND 0x08 \<noteq> 0) buf1 = Inr (sn, sl, sm, buf2)"
    and h: "optional_hop_count dn buf2 = Inr (hop, buf3)"
    and n: "n_Length n = length b - length buf3"
    by (auto simp: Npci_UnmarshalBinary_def bind_res_eq_Inr ReadByte_Inr split: if_splits)
  have "length buf3 \<le> length buf2"
    using h by (auto simp: optional_hop_count_def ReadByte_Inr split: if_splits)
  with opt [OF d] opt [OF s] n b show "2 \<le> n_Length n" "n_Length n \<le> length b" by auto
qed

end
