(* ===== verification/Request.thy ===== *)
theory Request
  imports Apdu Npdu
begin

text \<open>
  Whole BACnet/IP datagrams, \<^verbatim>\<open>bacnet/request.go\<close>: BVLC header, NPCI and APDU in one packet.  The transport
  sender is its IP octets and port.  \<^verbatim>\<open>MarshalBinary\<close> also stores the lengths it computes in the
  header; \<open>Request_header\<close> is that header.
\<close>

record Request =
  r_Header :: Header
  r_Npci :: Npci
  r_Apdu :: Apdu

definition MaxApdu :: nat where "MaxApdu = 1476"

definition Request_Reset :: Request where
  "Request_Reset = \<lparr>r_Header = \<lparr>h_ProtocolType = BACnetProtocol, h_Function = 0, h_BvlcLength = 0, h_NsduLength = 0\<rparr>,
     r_Npci = Npci_Reset, r_Apdu = Apdu_Reset\<lparr>a_MaxApdu := 1476\<rparr>\<rparr>"

definition Request_header :: "Request \<Rightarrow> nat \<Rightarrow> Header" where
  "Request_header r nsdu = (r_Header r)\<lparr>h_NsduLength := word_of_nat nsdu, h_BvlcLength := word_of_nat nsdu + 4\<rparr>"

definition Request_MarshalBinary :: "Request \<Rightarrow> bytes result" where
  "Request_MarshalBinary r =
     bind_res (Apdu_MarshalBinary (r_Apdu r)) (\<lambda>apduCommonBytes.
     bind_res (Npci_MarshalBinary (r_Npci r)) (\<lambda>npciBytes.
       let commonApduLen = length apduCommonBytes; npciLen = length npciBytes in
       if commonApduLen > MaxApdu then Inl (Err ''APDU exceeds the unsegmented maximum'')
       else if 4 + commonApduLen + npciLen > 65535
       then Inl (Err ''BACnet/IP datagram exceeds the BVLC length field'')
       else Inr (Header_MarshalBinary (Request_header r (commonApduLen + npciLen)) @ npciBytes @ apduCommonBytes)))"

definition Request_UnmarshalBinary :: "bytes \<Rightarrow> u16 \<Rightarrow> bytes \<Rightarrow> Request result" where
  "Request_UnmarshalBinary senderIP senderPort b =
     (if length b < 6 then Inl (Err ''byte slice is too short'')
      else (let (hdr, buf) = Next 4 b in
        bind_res (Header_UnmarshalBinary hdr) (\<lambda>header.
          if unat (h_BvlcLength header) \<noteq> length b
          then Inl (Err ''BVLC length does not match datagram length'')
          else if length buf \<noteq> unat (h_NsduLength header) then Inl (Err ''byte slice is too short'')
          else bind_res (Npci_UnmarshalBinary buf) (\<lambda>npci.
            let (_, buf) = Next (n_Length npci) buf in
            bind_res (Apdu_UnmarshalBinary senderIP senderPort buf) (\<lambda>apdu.
              Inr \<lparr>r_Header = header, r_Npci = npci, r_Apdu = apdu\<rparr>)))))"

text \<open>A nil sender is \<open>None\<close>.\<close>

definition ParseRequest :: "bytes \<Rightarrow> (bytes \<times> u16) option \<Rightarrow> Request result" where
  "ParseRequest b sender =
     (case sender of
        None \<Rightarrow> Inl (Err ''sender cannot be nil'')
      | Some (ip, port) \<Rightarrow> Request_UnmarshalBinary ip port b)"

text \<open>The packet contents that \<^verbatim>\<open>SetConfirmedService\<close> and \<^verbatim>\<open>SetUnconfirmedService\<close> prepare.\<close>

definition SetConfirmedService :: "u8 \<Rightarrow> request_data option \<Rightarrow> u8 \<Rightarrow> Request" where
  "SetConfirmedService choice data invokeID =
     Request_Reset\<lparr>
       r_Apdu := (r_Apdu Request_Reset)\<lparr>a_ServiceChoice := choice, a_PduType := PduTypeConfirmedServiceRequest,
                    a_RequestData := data, a_InvokeID := invokeID\<rparr>,
       r_Header := (r_Header Request_Reset)\<lparr>h_Function := BvlcFunctionOriginalUnicastNpdu\<rparr>,
       r_Npci := Npci_Reset\<lparr>n_IsConfirmed := True, n_ExpectingReply := True\<rparr>\<rparr>"

definition SetUnconfirmedService :: "u8 \<Rightarrow> request_data option \<Rightarrow> Request" where
  "SetUnconfirmedService choice data =
     Request_Reset\<lparr>
       r_Apdu := (r_Apdu Request_Reset)\<lparr>a_ServiceChoice := choice, a_PduType := PduTypeUnconfirmedServiceRequest,
                    a_RequestData := data\<rparr>,
       r_Header := (r_Header Request_Reset)\<lparr>h_Function := BvlcFunctionOriginalBroadcastNpdu\<rparr>,
       r_Npci := Npci_Reset\<lparr>n_DestinationNet := 65535\<rparr>\<rparr>"

definition Successful :: "Request \<Rightarrow> bool" where
  "Successful r \<longleftrightarrow> \<not> a_Failed (r_Apdu r)"

section \<open>Layers\<close>

lemma length_Header_MarshalBinary [simp]: "length (Header_MarshalBinary h) = 4"
  by (simp add: Header_MarshalBinary_def)

lemma Npci_MarshalBinary_length: "Npci_MarshalBinary n = Inr b \<Longrightarrow> 2 \<le> length b"
  by (auto simp: Npci_MarshalBinary_def Let_def split: if_splits)

lemma unat_u16: "n \<le> 65535 \<Longrightarrow> unat (word_of_nat n :: u16) = n"
  by (simp add: unsigned_of_nat take_bit_nat_eq_self)

text \<open>
  A marshalled packet parses, layer by layer: the header as it was computed, the NPCI as the wire
  carries it, and whatever the APDU decoder makes of exactly the APDU octets.
\<close>

lemma Request_layers:
  assumes "Request_MarshalBinary r = Inr b" "h_Function (r_Header r) = 10 \<or> h_Function (r_Header r) = 11"
    "n_ProtocolVersion (r_Npci r) = BACnetVersion"
  obtains apdu npci where "Apdu_MarshalBinary (r_Apdu r) = Inr apdu" "Npci_MarshalBinary (r_Npci r) = Inr npci"
    "length b = 4 + length npci + length apdu" "length apdu \<le> MaxApdu"
    "Request_UnmarshalBinary ip port b = bind_res (Apdu_UnmarshalBinary ip port apdu) (\<lambda>a.
        Inr \<lparr>r_Header = (Request_header r (length apdu + length npci))\<lparr>h_ProtocolType := BACnetProtocol\<rparr>,
             r_Npci = decoded_npci (r_Npci r) (length npci), r_Apdu = a\<rparr>)"
proof -
  from assms(1) obtain apdu npci where a: "Apdu_MarshalBinary (r_Apdu r) = Inr apdu"
    and n: "Npci_MarshalBinary (r_Npci r) = Inr npci" and la: "length apdu \<le> MaxApdu"
    and le: "4 + length apdu + length npci \<le> 65535"
    and b: "b = Header_MarshalBinary (Request_header r (length apdu + length npci)) @ npci @ apdu"
    by (auto simp: Request_MarshalBinary_def bind_res_eq_Inr Let_def split: if_splits)
  let ?h = "Request_header r (length apdu + length npci)" and ?n = "length apdu + length npci"
  have n2: "2 \<le> length npci" by (rule Npci_MarshalBinary_length [OF n])
  have un: "unat (word_of_nat ?n :: u16) = ?n" by (rule unat_u16) (use le in simp)
  have ub: "unat (word_of_nat ?n + 4 :: u16) = ?n + 4"
    using un le by (simp add: unat_word_ariths)
  have f: "h_Function ?h = 10 \<or> h_Function ?h = 11" using assms(2) by (simp add: Request_header_def)
  have l4: "4 \<le> h_BvlcLength ?h" using ub by (simp add: Request_header_def word_le_nat_alt)
  have h: "Header_UnmarshalBinary (Header_MarshalBinary ?h) = Inr (?h\<lparr>h_ProtocolType := BACnetProtocol\<rparr>)"
    using Header_roundtrip [OF f l4, of "[]"] by (simp add: Request_header_def)
  have nx: "Next 4 b = (Header_MarshalBinary ?h, npci @ apdu)" unfolding b by (rule Next_append) simp
  have np: "Npci_UnmarshalBinary (npci @ apdu) = Inr (decoded_npci (r_Npci r) (length npci))"
    by (rule Npci_roundtrip [OF n assms(3)])
  have hl: "unat (h_BvlcLength ?h) = ?n + 4" "unat (h_NsduLength ?h) = ?n"
    using un ub by (simp_all add: Request_header_def del: of_nat_add)
  have lb: "length b = length npci + length apdu + 4" by (simp add: b)
  have nl: "n_Length (decoded_npci (r_Npci r) (length npci)) = length npci" by (simp add: decoded_npci_def)
  have "Request_UnmarshalBinary ip port b = bind_res (Apdu_UnmarshalBinary ip port apdu) (\<lambda>a.
        Inr \<lparr>r_Header = ?h\<lparr>h_ProtocolType := BACnetProtocol\<rparr>,
             r_Npci = decoded_npci (r_Npci r) (length npci), r_Apdu = a\<rparr>)"
    unfolding Request_UnmarshalBinary_def nx prod.case Let_def
    using n2 lb hl by (simp add: h np nl Next_append)
  with lb show ?thesis by (intro that [OF a n _ la]) simp_all
qed

text \<open>Conversely a datagram is accepted only if its BVLC length field is its real length.\<close>

lemma Request_length_field:
  assumes "Request_UnmarshalBinary ip port b = Inr r"
  shows "unat (h_BvlcLength (r_Header r)) = length b" "6 \<le> length b"
    "n_Length (r_Npci r) + 4 \<le> length b"
proof -
  from assms obtain h n a where b6: "6 \<le> length b"
    and h: "Header_UnmarshalBinary (take 4 b) = Inr h" and l: "unat (h_BvlcLength h) = length b"
    and n: "Npci_UnmarshalBinary (drop 4 b) = Inr n" and r: "r = \<lparr>r_Header = h, r_Npci = n, r_Apdu = a\<rparr>"
    by (auto simp: Request_UnmarshalBinary_def Next_def bind_res_eq_Inr Let_def split: if_splits)
  from Npci_Length_bounds(2) [OF n] b6 l r
  show "unat (h_BvlcLength (r_Header r)) = length b" "6 \<le> length b"
    "n_Length (r_Npci r) + 4 \<le> length b" by auto
qed

text \<open>What the simplifier needs to compute the octets of a concrete packet.\<close>

lemmas packet_defs = Request_MarshalBinary_def Request_Reset_def Apdu_Reset_def Apdu_MarshalBinary_def Apdu_header_def
  Npci_Reset_def Npci_MarshalBinary_def mac_bytes_def control_octet_def Request_header_def Header_MarshalBinary_def
  MaxApdu_def BITS01_def BACnetVersion_def BACnetProtocol_def Uint16_MarshalBinary_def PutUint16_def MaxMacLen_def Let_def
  SetConfirmedService_def SetUnconfirmedService_def

section \<open>Packets of the client at the receiver\<close>

lemma SetConfirmedService_sel [simp]:
  "h_Function (r_Header (SetConfirmedService c d i)) = BvlcFunctionOriginalUnicastNpdu"
  "n_ProtocolVersion (r_Npci (SetConfirmedService c d i)) = BACnetVersion"
  "a_PduType (r_Apdu (SetConfirmedService c d i)) = PduTypeConfirmedServiceRequest"
  "\<not> a_MoreFollows (r_Apdu (SetConfirmedService c d i))"
  "a_RequestData (r_Apdu (SetConfirmedService c d i)) = d"
  "a_InvokeID (r_Apdu (SetConfirmedService c d i)) = i"
  "a_ServiceChoice (r_Apdu (SetConfirmedService c d i)) = c"
  by (simp_all add: SetConfirmedService_def Request_Reset_def Npci_Reset_def Apdu_Reset_def)

lemma SetUnconfirmedService_sel [simp]:
  "h_Function (r_Header (SetUnconfirmedService c d)) = BvlcFunctionOriginalBroadcastNpdu"
  "n_ProtocolVersion (r_Npci (SetUnconfirmedService c d)) = BACnetVersion"
  "a_PduType (r_Apdu (SetUnconfirmedService c d)) = PduTypeUnconfirmedServiceRequest"
  "\<not> a_MoreFollows (r_Apdu (SetUnconfirmedService c d))"
  "\<not> a_Segmented (r_Apdu (SetUnconfirmedService c d))"
  "a_RequestData (r_Apdu (SetUnconfirmedService c d)) = d"
  "a_ServiceChoice (r_Apdu (SetUnconfirmedService c d)) = c"
  by (simp_all add: SetUnconfirmedService_def Request_Reset_def Npci_Reset_def Apdu_Reset_def)


text \<open>
  One packet through all layers.  The APDU decoder of the receiver sees exactly the service
  parameters the sender marshalled.
\<close>

lemma confirmed_request_received:
  assumes "Request_MarshalBinary (SetConfirmedService c (Some d) i) = Inr b"
  obtains data h n where "request_MarshalBinary d = Inr data" "\<not> IsBroadcast h" "n_ExpectingReply n" "n_SourceNet n = 0"
    "n_DestinationNet n = 0" "n_SourceMAC n = None" "n_SourceLength n = 0"
    "ParseRequest b (Some (ip, port)) = bind_res (decodeConfirmedApdu
         (received_request ip port (r_Apdu (SetConfirmedService c (Some d) i)) data) data) (\<lambda>a.
        Inr \<lparr>r_Header = h, r_Npci = n, r_Apdu = a\<rparr>)"
proof -
  let ?r = "SetConfirmedService c (Some d) i"
  have f: "h_Function (r_Header ?r) = 10 \<or> h_Function (r_Header ?r) = 11" and v: "n_ProtocolVersion (r_Npci ?r) = BACnetVersion"
    by simp_all
  obtain apdu npci where a: "Apdu_MarshalBinary (r_Apdu ?r) = Inr apdu" and "Npci_MarshalBinary (r_Npci ?r) = Inr npci"
    "length b = 4 + length npci + length apdu" "length apdu \<le> MaxApdu"
    and u: "Request_UnmarshalBinary ip port b = bind_res (Apdu_UnmarshalBinary ip port apdu) (\<lambda>a.
        Inr \<lparr>r_Header = (Request_header ?r (length apdu + length npci))\<lparr>h_ProtocolType := BACnetProtocol\<rparr>,
             r_Npci = decoded_npci (r_Npci ?r) (length npci), r_Apdu = a\<rparr>)" by (rule Request_layers [OF assms f v])
  from Apdu_confirmed_received [OF a, of ip port] obtain data where
    d: "request_MarshalBinary d = Inr data"
    "Apdu_UnmarshalBinary ip port apdu = decodeConfirmedApdu (received_request ip port (r_Apdu ?r) data) data"
    by (auto simp: apdu_body_def)
  show ?thesis
    by (rule that [OF d(1), of "(Request_header ?r (length apdu + length npci))\<lparr>h_ProtocolType := BACnetProtocol\<rparr>"
          "decoded_npci (r_Npci ?r) (length npci)"])
      (use d u in \<open>simp_all add: ParseRequest_def decoded_npci_def Request_header_def IsBroadcast_def
          SetConfirmedService_def Request_Reset_def Npci_Reset_def\<close>)
qed

lemma unconfirmed_request_received:
  assumes "Request_MarshalBinary (SetUnconfirmedService c (Some d)) = Inr b"
  obtains data h n where "request_MarshalBinary d = Inr data" "IsBroadcast h" "\<not> n_ExpectingReply n" "n_SourceNet n = 0"
    "n_DestinationNet n = 65535" "n_SourceMAC n = None" "n_SourceLength n = 0"
    "ParseRequest b (Some (ip, port)) = bind_res (decodeUnconfirmedApdu ((received ip port PduTypeUnconfirmedServiceRequest)\<lparr>
         a_ServiceChoice := c, a_Payload := data\<rparr>) data) (\<lambda>a. Inr \<lparr>r_Header = h, r_Npci = n, r_Apdu = a\<rparr>)"
proof -
  let ?r = "SetUnconfirmedService c (Some d)"
  have f: "h_Function (r_Header ?r) = 10 \<or> h_Function (r_Header ?r) = 11" and v: "n_ProtocolVersion (r_Npci ?r) = BACnetVersion"
    by simp_all
  obtain apdu npci where a: "Apdu_MarshalBinary (r_Apdu ?r) = Inr apdu" and "Npci_MarshalBinary (r_Npci ?r) = Inr npci"
    "length b = 4 + length npci + length apdu" "length apdu \<le> MaxApdu"
    and u: "Request_UnmarshalBinary ip port b = bind_res (Apdu_UnmarshalBinary ip port apdu) (\<lambda>a.
        Inr \<lparr>r_Header = (Request_header ?r (length apdu + length npci))\<lparr>h_ProtocolType := BACnetProtocol\<rparr>,
             r_Npci = decoded_npci (r_Npci ?r) (length npci), r_Apdu = a\<rparr>)" by (rule Request_layers [OF assms f v])
  from Apdu_unconfirmed_received [OF a, of ip port] obtain data where
    d: "request_MarshalBinary d = Inr data"
    "Apdu_UnmarshalBinary ip port apdu = decodeUnconfirmedApdu ((received ip port PduTypeUnconfirmedServiceRequest)\<lparr>
         a_ServiceChoice := c, a_Payload := data\<rparr>) data"
    by (auto simp: apdu_body_def)
  show ?thesis
    by (rule that [OF d(1), of "(Request_header ?r (length apdu + length npci))\<lparr>h_ProtocolType := BACnetProtocol\<rparr>"
          "decoded_npci (r_Npci ?r) (length npci)"])
      (use d u in \<open>simp_all add: ParseRequest_def decoded_npci_def Request_header_def IsBroadcast_def
          SetUnconfirmedService_def Request_Reset_def Npci_Reset_def\<close>)
qed

section \<open>Properties\<close>

text \<open>A datagram is accepted only when its BVLC length field is its real length, and the NPCI the parser
  skips lies inside it: octets beyond the declared packet are never read.\<close>

theorem Request_length_checked:
  assumes "Request_UnmarshalBinary ip port b = Inr r"
  shows "unat (h_BvlcLength (r_Header r)) = length b \<and> 6 \<le> length b \<and> n_Length (r_Npci r) + 4 \<le> length b"
  using Request_length_field [OF assms] by simp

theorem Request_length_checked_witness:
  "\<exists>r. Request_UnmarshalBinary [10, 0, 0, 1] 47808 [0x81, 10, 0, 9, 1, 0, 0x20, 7, 15] = Inr r
     \<and> unat (h_BvlcLength (r_Header r)) = 9 \<and> a_InvokeID (r_Apdu r) = 7"
proof -
  let ?b = "[0x81, 10, 0, 9, 1, 0, 0x20, 7, 15] :: bytes"
  have "case Request_UnmarshalBinary [10, 0, 0, 1] 47808 ?b of Inr r \<Rightarrow> a_InvokeID (r_Apdu r) = 7 | Inl _ \<Rightarrow> False"
    by code_simp
  then obtain r where r: "Request_UnmarshalBinary [10, 0, 0, 1] 47808 ?b = Inr r" "a_InvokeID (r_Apdu r) = 7"
    by (auto split: sum.splits)
  from Request_length_checked [OF r(1)] r show ?thesis by auto
qed

end
