(* ===== verification/Transaction.thy ===== *)
theory Transaction
  imports Prelude
begin

text \<open>
  Invoke IDs, \<^verbatim>\<open>bacnet/transaction.go\<close>: the two package maps under their mutex as one record, and the
  reservation loop.  A destination is the text \<^verbatim>\<open>net.IP.String\<close> gives for it; a nil IP is \<open>None\<close>.
  The step relation adds the calls under way as a ghost list, with both places that give an identifier back; its
  invariant says that the package maps describe the calls that wait for an answer exactly.
\<close>

section \<open>Decimal text and keys\<close>

text \<open>\<^verbatim>\<open>strconv.Itoa\<close> of a non-negative number.\<close>

fun itoa :: "nat \<Rightarrow> string" where
  "itoa n = (if n < 10 then [char_of (48 + n)] else itoa (n div 10) @ [char_of (48 + n mod 10)])"

declare itoa.simps [simp del]

definition genTxId :: "string \<Rightarrow> u8 \<Rightarrow> string" where
  "genTxId addressStr num = addressStr @ ''.'' @ itoa (unat num)"

definition atoi :: "string \<Rightarrow> nat" where
  "atoi s = foldl (\<lambda>acc c. 10 * acc + (of_char c - 48)) 0 s"

lemma atoi_append: "atoi (s @ [c]) = 10 * atoi s + (of_char c - 48)"
  by (simp add: atoi_def)

lemma of_char_digit: "d < 10 \<Longrightarrow> of_char (char_of (48 + d :: nat) :: char) = 48 + d"
  by simp

lemma atoi_itoa [simp]: "atoi (itoa n) = n"
proof (induction n rule: itoa.induct)
  case (1 n)
  show ?case
  proof (cases "n < 10")
    case True
    then show ?thesis by (subst itoa.simps) (simp add: atoi_def of_char_digit)
  next
    case False
    have "n mod 10 < 10" by simp
    note of_char_digit [OF this]
    with 1 [OF False] False show ?thesis by (subst itoa.simps) (simp add: atoi_append)
  qed
qed

lemma itoa_inj: "itoa m = itoa n \<longleftrightarrow> m = n"
  by (metis atoi_itoa)

lemma itoa_digits: "c \<in> set (itoa n) \<Longrightarrow> \<exists>d < (10::nat). c = char_of (48 + d)"
proof (induction n rule: itoa.induct)
  case (1 n)
  show ?case
  proof (cases "n < 10")
    case True
    with 1(2) show ?thesis by (subst (asm) itoa.simps) auto
  next
    case False
    with 1(2) have "c \<in> set (itoa (n div 10)) \<or> c = char_of (48 + n mod 10)"
      by (subst (asm) itoa.simps) auto
    then show ?thesis
    proof
      assume "c \<in> set (itoa (n div 10))"
      then show ?thesis by (rule 1(1) [OF False])
    next
      assume "c = char_of (48 + n mod 10)"
      moreover have "n mod 10 < 10" by simp
      ultimately show ?thesis by blast
    qed
  qed
qed

lemma dot_notin_itoa: "CHR ''.'' \<notin> set (itoa n)"
proof
  assume "CHR ''.'' \<in> set (itoa n)"
  from itoa_digits [OF this] obtain d where d: "d < 10" "CHR ''.'' = char_of (48 + d :: nat)" by blast
  then have "of_char (CHR ''.'') = 48 + d" using of_char_digit [of d] by simp
  then show False by simp
qed

lemma split_last_dot:
  assumes "a @ CHR ''.'' # s = b @ CHR ''.'' # t" "CHR ''.'' \<notin> set s" "CHR ''.'' \<notin> set t"
  shows "a = b \<and> s = t"
proof -
  have "rev s @ CHR ''.'' # rev a = rev t @ CHR ''.'' # rev b"
    using arg_cong [OF assms(1), of rev] by simp
  moreover from this have "takeWhile (\<lambda>c. c \<noteq> CHR ''.'') (rev s @ CHR ''.'' # rev a)
      = takeWhile (\<lambda>c. c \<noteq> CHR ''.'') (rev t @ CHR ''.'' # rev b)" by simp
  then have "rev s = rev t" using assms(2,3) by (subst (asm) (1 2) takeWhile_append2) auto
  ultimately have "rev s = rev t \<and> rev a = rev b" by simp
  then show ?thesis by simp
qed

lemma genTxId_inj: "genTxId a m = genTxId b n \<longleftrightarrow> a = b \<and> m = n"
  using split_last_dot [of a "itoa (unat m)" b "itoa (unat n)"] dot_notin_itoa
  by (auto simp: genTxId_def itoa_inj word_unat_eq_iff)

section \<open>The reservation table\<close>

record TxState =
  transactions :: "string \<rightharpoonup> bool"
  transactionNext :: "string \<rightharpoonup> u8"

definition TxState_init :: TxState where
  "TxState_init = \<lparr>transactions = Map.empty, transactionNext = Map.empty\<rparr>"

definition ErrInvokeIDExhausted :: go_error where
  "ErrInvokeIDExhausted = Err ''no BACnet invoke ID is available''"

text \<open>Lookups in a Go map yield the zero value for an absent key.\<close>

definition tx_reserved :: "TxState \<Rightarrow> string \<Rightarrow> u8 \<Rightarrow> bool" where
  "tx_reserved st a k = (transactions st (genTxId a k) = Some True)"

definition next_id :: "u8 \<Rightarrow> u8" where
  "next_id k = (if k + 1 = 0 then 1 else k + 1)"

definition tx_reserve :: "TxState \<Rightarrow> string \<Rightarrow> u8 \<Rightarrow> TxState" where
  "tx_reserve st a k = st\<lparr>transactions := (transactions st)(genTxId a k \<mapsto> True),
     transactionNext := (transactionNext st)(a \<mapsto> next_id k)\<rparr>"

fun invoke_loop :: "nat \<Rightarrow> TxState \<Rightarrow> string \<Rightarrow> u8 \<Rightarrow> (u8 \<times> TxState) result" where
  "invoke_loop 0 st a invokeID = Inl ErrInvokeIDExhausted"
| "invoke_loop (Suc i) st a invokeID =
     (if \<not> tx_reserved st a invokeID
      then Inr (invokeID, tx_reserve st a invokeID)
      else invoke_loop i st a (next_id invokeID))"

definition start_id :: "TxState \<Rightarrow> string \<Rightarrow> u8" where
  "start_id st a = (let k = (case transactionNext st a of Some k \<Rightarrow> k | None \<Rightarrow> 0) in if k = 0 then 1 else k)"

definition TryGetInvokeID :: "TxState \<Rightarrow> string option \<Rightarrow> (u8 \<times> TxState) result" where
  "TryGetInvokeID st address =
     (case address of
        None \<Rightarrow> Inl (Err ''received a nil device IP'')
      | Some a \<Rightarrow> invoke_loop 255 st a (start_id st a))"

text \<open>\<^verbatim>\<open>GetInvokeID\<close> drops the error: an exhausted table gives the invalid ID zero.\<close>

definition GetInvokeID :: "TxState \<Rightarrow> string option \<Rightarrow> u8 \<times> TxState" where
  "GetInvokeID st address = (case TryGetInvokeID st address of Inr r \<Rightarrow> r | Inl _ \<Rightarrow> (0, st))"

definition ReleaseInvokeID :: "TxState \<Rightarrow> string option \<Rightarrow> u8 \<Rightarrow> TxState" where
  "ReleaseInvokeID st address invokeId =
     (case address of
        None \<Rightarrow> st
      | Some a \<Rightarrow> if invokeId = 0 then st
                 else st\<lparr>transactions := (transactions st)(genTxId a invokeId := None)\<rparr>)"

section \<open>The loop visits every identifier\<close>

lemma unat_next_id: "k \<noteq> 0 \<Longrightarrow> unat (next_id k) = unat k mod 255 + 1"
proof -
  assume "k \<noteq> 0"
  have lt: "unat k < 256" using unat_less [of k] by simp
  show ?thesis
  proof (cases "unat k = 255")
    case True
    then have "k = 255" by (simp add: word_unat_eq_iff)
    with True show ?thesis by (simp add: next_id_def)
  next
    case False
    with lt have u: "unat (k + 1) = unat k + 1" by (simp add: unat_word_ariths)
    then have "k + 1 \<noteq> 0" by (metis Suc_eq_plus1 nat.simps(3) unat_0)
    with u False lt show ?thesis by (simp add: next_id_def)
  qed
qed

lemma next_id_nonzero [simp]: "next_id k \<noteq> 0"
  by (simp add: next_id_def)

lemma unat_iterate_next_id:
  "k \<noteq> 0 \<Longrightarrow> (next_id ^^ j) k \<noteq> 0 \<and> unat ((next_id ^^ j) k) = (unat k - 1 + j) mod 255 + 1"
proof (induction j)
  case 0
  have "unat k < 256" "unat k \<noteq> 0" using 0 unat_less [of k] by (simp_all add: unat_eq_zero)
  then show ?case using 0 by simp
next
  case (Suc j)
  then have ih: "(next_id ^^ j) k \<noteq> 0" "unat ((next_id ^^ j) k) = (unat k - 1 + j) mod 255 + 1" by simp_all
  have "unat ((next_id ^^ Suc j) k) = ((unat k - 1 + j) mod 255 + 1) mod 255 + 1"
    using unat_next_id [OF ih(1)] ih(2) by simp
  also have "\<dots> = (unat k - 1 + Suc j) mod 255 + 1" by (simp add: mod_Suc_eq)
  finally show ?case by simp
qed

lemma next_id_reaches:
  assumes "k \<noteq> 0" "t \<noteq> 0"
  shows "\<exists>j < 255. (next_id ^^ j) k = t"
proof -
  define j where "j = (unat t - 1 + 255 - (unat k - 1)) mod 255"
  have b: "unat k < 256" "unat t < 256" "0 < unat k" "0 < unat t"
    using assms unat_less [of k] unat_less [of t] by (simp_all add: unat_gt_0)
  have "(unat k - 1 + j) mod 255 = (unat k - 1 + (unat t - 1 + 255 - (unat k - 1))) mod 255"
    by (simp add: j_def mod_add_right_eq)
  also have "unat k - 1 + (unat t - 1 + 255 - (unat k - 1)) = unat t - 1 + 255" using b by simp
  also have "(unat t - 1 + 255) mod 255 = unat t - 1" using b by (simp only: mod_add_self2) simp
  finally have "(unat k - 1 + j) mod 255 + 1 = unat t" using b by simp
  with unat_iterate_next_id [OF assms(1), of j] have "(next_id ^^ j) k = t" by (simp add: word_unat_eq_iff)
  moreover have "j < 255" by (simp add: j_def)
  ultimately show ?thesis by blast
qed

lemma invoke_loop_Inr:
  "invoke_loop n st a k = Inr (i, st') \<Longrightarrow>
     \<exists>j < n. i = (next_id ^^ j) k \<and> \<not> tx_reserved st a i \<and> st' = tx_reserve st a i
       \<and> (\<forall>m < j. tx_reserved st a ((next_id ^^ m) k))"
proof (induction n arbitrary: k)
  case (Suc n)
  show ?case
  proof (cases "tx_reserved st a k")
    case False
    with Suc.prems show ?thesis by (intro exI [of _ 0]) auto
  next
    case True
    with Suc.prems Suc.IH [of "next_id k"] obtain j where j: "j < n" "i = (next_id ^^ j) (next_id k)"
      "\<not> tx_reserved st a i" "st' = tx_reserve st a i" "\<forall>m < j. tx_reserved st a ((next_id ^^ m) (next_id k))" by auto
    have "tx_reserved st a ((next_id ^^ m) k)" if "m < Suc j" for m
      using that True j(5) by (cases m) (simp_all add: funpow_swap1)
    with j show ?thesis by (intro exI [of _ "Suc j"]) (simp add: funpow_swap1)
  qed
qed simp

lemma invoke_loop_Inl: "invoke_loop n st a k = Inl e \<Longrightarrow> e = ErrInvokeIDExhausted \<and> (\<forall>j < n. tx_reserved st a ((next_id ^^ j) k))"
proof (induction n arbitrary: k)
  case (Suc n)
  then have r: "tx_reserved st a k" "invoke_loop n st a (next_id k) = Inl e" by (auto split: if_splits)
  from Suc.IH [OF r(2)] have ih: "e = ErrInvokeIDExhausted" "\<forall>j < n. tx_reserved st a ((next_id ^^ j) (next_id k))" by simp_all
  have "tx_reserved st a ((next_id ^^ j) k)" if "j < Suc n" for j
    using that r(1) ih(2) by (cases j) (simp_all add: funpow_swap1)
  with ih(1) show ?case by blast
qed simp

lemma start_id_nonzero [simp]: "start_id st a \<noteq> 0"
  by (simp add: start_id_def Let_def)

text \<open>A reservation is fresh, valid, and changes no other reservation.\<close>

lemma TryGetInvokeID_Inr:
  assumes "TryGetInvokeID st (Some a) = Inr (i, st')"
  shows "i \<noteq> 0" "\<not> tx_reserved st a i"
    "tx_reserved st' b k \<longleftrightarrow> tx_reserved st b k \<or> (b = a \<and> k = i)"
proof -
  from invoke_loop_Inr [of 255 st a "start_id st a" i st'] assms
  obtain j where j: "i = (next_id ^^ j) (start_id st a)" "\<not> tx_reserved st a i"
    "st' = tx_reserve st a i" by (auto simp: TryGetInvokeID_def)
  from unat_iterate_next_id [of "start_id st a" j] j(1) show "i \<noteq> 0" by simp
  show "\<not> tx_reserved st a i" by (rule j(2))
  show "tx_reserved st' b k \<longleftrightarrow> tx_reserved st b k \<or> (b = a \<and> k = i)"
    unfolding j(3) by (auto simp: tx_reserved_def tx_reserve_def genTxId_inj)
qed

text \<open>The reservation fails exactly when all 255 identifiers of the destination are taken.\<close>

lemma TryGetInvokeID_exhausted:
  "TryGetInvokeID st (Some a) = Inl ErrInvokeIDExhausted \<longleftrightarrow> (\<forall>k. k \<noteq> 0 \<longrightarrow> tx_reserved st a k)"
proof
  assume "TryGetInvokeID st (Some a) = Inl ErrInvokeIDExhausted"
  then have "\<forall>j < 255. tx_reserved st a ((next_id ^^ j) (start_id st a))"
    using invoke_loop_Inl [of 255 st a "start_id st a"] by (simp add: TryGetInvokeID_def)
  then show "\<forall>k. k \<noteq> 0 \<longrightarrow> tx_reserved st a k" using next_id_reaches [of "start_id st a"] by auto
next
  assume all: "\<forall>k. k \<noteq> 0 \<longrightarrow> tx_reserved st a k"
  show "TryGetInvokeID st (Some a) = Inl ErrInvokeIDExhausted"
  proof (cases "TryGetInvokeID st (Some a)")
    case (Inl e)
    with invoke_loop_Inl [of 255 st a "start_id st a" e] show ?thesis by (simp add: TryGetInvokeID_def)
  next
    case (Inr p)
    then obtain i st' where "TryGetInvokeID st (Some a) = Inr (i, st')" by (cases p) auto
    from TryGetInvokeID_Inr(1,2) [OF this] all show ?thesis by simp
  qed
qed

lemma ReleaseInvokeID_reserved:
  "k \<noteq> 0 \<Longrightarrow> tx_reserved (ReleaseInvokeID st (Some a) k) b j \<longleftrightarrow> tx_reserved st b j \<and> \<not> (b = a \<and> j = k)"
  by (auto simp: tx_reserved_def ReleaseInvokeID_def genTxId_inj)

section \<open>Calls and the two releases\<close>

text \<open>
  A call reserves an identifier.  It is given back when the answer is dispatched (\<^verbatim>\<open>Server.handle\<close>) and once more when
  the caller is done (\<^verbatim>\<open>Request.cleanupTransaction\<close>), which comes at any later time; a call without an answer gives it
  back there only.  The calls under way are a ghost list: \<open>tc_open\<close> says that the answer has not been dispatched, and
  \<open>tc_seen\<close> has the identifiers of the other calls to the peer that were under way when the call reserved its own or
  have reserved one since.
\<close>

record tx_call =
  tc_peer :: string
  tc_id :: u8
  tc_open :: bool
  tc_seen :: "u8 list"

abbreviation tc_key :: "tx_call \<Rightarrow> string \<times> u8" where
  "tc_key c \<equiv> (tc_peer c, tc_id c)"

definition new_call :: "string \<Rightarrow> u8 \<Rightarrow> tx_call list \<Rightarrow> tx_call" where
  "new_call a k calls = \<lparr>tc_peer = a, tc_id = k, tc_open = True, tc_seen = map tc_id (filter (\<lambda>c. tc_peer c = a) calls)\<rparr>"

definition passed_by :: "string \<Rightarrow> u8 \<Rightarrow> tx_call \<Rightarrow> tx_call" where
  "passed_by a k c = (if tc_peer c = a then c\<lparr>tc_seen := k # tc_seen c\<rparr> else c)"

inductive tx_step :: "TxState \<times> tx_call list \<Rightarrow> TxState \<times> tx_call list \<Rightarrow> bool" where
  reserve: "TryGetInvokeID st (Some a) = Inr (k, st') \<Longrightarrow>
     tx_step (st, calls) (st', new_call a k calls # map (passed_by a k) calls)"
| exhausted: "TryGetInvokeID st (Some a) = Inl e \<Longrightarrow> tx_step (st, calls) (st, calls)"
| answer: "tc_open c \<Longrightarrow>
     tx_step (st, xs @ c # ys) (ReleaseInvokeID st (Some (tc_peer c)) (tc_id c), xs @ c\<lparr>tc_open := False\<rparr> # ys)"
| finish: "tx_step (st, xs @ c # ys) (ReleaseInvokeID st (Some (tc_peer c)) (tc_id c), xs @ ys)"

text \<open>No call is still under way when its 255th successor or companion to the same peer appears.\<close>

definition in_window :: "tx_call list \<Rightarrow> bool" where
  "in_window calls \<longleftrightarrow> (\<forall>c \<in> set calls. length (tc_seen c) \<le> 254)"

abbreviation tx_run :: "TxState \<times> tx_call list \<Rightarrow> TxState \<times> tx_call list \<Rightarrow> bool" where
  "tx_run \<equiv> (\<lambda>s s'. tx_step s s' \<and> in_window (snd s'))\<^sup>*\<^sup>*"

lemma new_call_sel [simp]:
  "tc_peer (new_call a k calls) = a" "tc_id (new_call a k calls) = k" "tc_open (new_call a k calls)"
  "tc_seen (new_call a k calls) = map tc_id (filter (\<lambda>c. tc_peer c = a) calls)"
  by (simp_all add: new_call_def)

lemma passed_by_sel [simp]:
  "tc_peer (passed_by a k c) = tc_peer c" "tc_id (passed_by a k c) = tc_id c" "tc_open (passed_by a k c) = tc_open c"
  "tc_seen (passed_by a k c) = (if tc_peer c = a then k # tc_seen c else tc_seen c)"
  by (simp_all add: passed_by_def)

text \<open>The pointer of the peer has moved from the call's identifier over identifiers the call has seen.\<close>

definition behind :: "TxState \<Rightarrow> tx_call \<Rightarrow> bool" where
  "behind st c \<longleftrightarrow> (\<exists>n. start_id st (tc_peer c) = (next_id ^^ Suc n) (tc_id c)
     \<and> (\<forall>m. 0 < m \<and> m \<le> n \<longrightarrow> (next_id ^^ m) (tc_id c) \<in> set (tc_seen c)))"

definition tx_inv :: "TxState \<times> tx_call list \<Rightarrow> bool" where
  "tx_inv s \<longleftrightarrow> distinct (map tc_key (snd s)) \<and> (\<forall>c \<in> set (snd s). tc_id c \<noteq> 0 \<and> behind (fst s) c)
     \<and> (\<forall>a k. tx_reserved (fst s) a k \<longleftrightarrow> (\<exists>c \<in> set (snd s). tc_key c = (a, k) \<and> tc_open c))
     \<and> (\<forall>c \<in> set (snd s). \<forall>d \<in> set (snd s). tc_peer c = tc_peer d \<longrightarrow> tc_id d = tc_id c \<or> tc_id d \<in> set (tc_seen c))"

lemma tx_inv_init: "tx_inv (TxState_init, [])"
  by (simp add: tx_inv_def tx_reserved_def TxState_init_def)

lemma start_id_tx_reserve: "start_id (tx_reserve st a i) b = (if b = a then next_id i else start_id st b)"
  by (simp add: start_id_def tx_reserve_def)

lemma start_id_Release [simp]: "start_id (ReleaseInvokeID st b k) a = start_id st a"
  by (simp add: start_id_def ReleaseInvokeID_def split: option.split)

lemma behind_cong: "tc_peer c = tc_peer d \<Longrightarrow> tc_id c = tc_id d \<Longrightarrow> tc_seen c = tc_seen d \<Longrightarrow>
   start_id st (tc_peer c) = start_id st' (tc_peer c) \<Longrightarrow> behind st c \<longleftrightarrow> behind st' d"
  by (simp add: behind_def)

text \<open>A run over the cycle that comes back to its start has visited the 254 other identifiers.\<close>

lemma next_id_cycle:
  assumes "k \<noteq> 0"
  shows "(next_id ^^ m) k = (next_id ^^ n) k \<longleftrightarrow> m mod 255 = n mod 255"
proof -
  note u = unat_iterate_next_id [OF assms]
  have "(next_id ^^ m) k = (next_id ^^ n) k \<longleftrightarrow> (unat k - 1 + m) mod 255 = (unat k - 1 + n) mod 255"
    using u [of m] u [of n] by (simp add: word_unat_eq_iff)
  also have "\<dots> \<longleftrightarrow> m mod 255 = n mod 255"
    by (simp add: nat_mod_eq_iff add.assoc)
  finally show ?thesis .
qed

lemma cycle_seen:
  assumes "k \<noteq> 0" "\<And>m. 0 < m \<Longrightarrow> m < 255 \<Longrightarrow> (next_id ^^ m) k \<in> set xs"
  shows "254 \<le> length xs"
proof -
  have inj: "inj_on (\<lambda>m. (next_id ^^ m) k) {1..254}"
    by (rule inj_onI) (use next_id_cycle [OF assms(1)] in auto)
  have "(\<lambda>m. (next_id ^^ m) k) ` {1..254} \<subseteq> set xs" using assms(2) by auto
  from card_mono [OF _ this] have "card {1..254::nat} \<le> card (set xs)" using card_image [OF inj] by simp
  then show ?thesis using card_length [of xs] by simp
qed

lemma TryGetInvokeID_run:
  "TryGetInvokeID st (Some a) = Inr (i, st') \<Longrightarrow>
     \<exists>j. i = (next_id ^^ j) (start_id st a) \<and> st' = tx_reserve st a i
       \<and> (\<forall>m < j. tx_reserved st a ((next_id ^^ m) (start_id st a)))"
  unfolding TryGetInvokeID_def option.case by (drule invoke_loop_Inr) blast

text \<open>Within the window a reservation stops before it comes round to the identifier of a call under way.\<close>

lemma reserve_behind:
  assumes got: "TryGetInvokeID st (Some a) = Inr (i, st')"
    and c: "tc_id c \<noteq> 0" "behind st c" "tc_peer c = a" "length (tc_seen c) < 254"
    and seen: "\<And>k. tx_reserved st a k \<Longrightarrow> k = tc_id c \<or> k \<in> set (tc_seen c)"
  shows "i \<noteq> tc_id c" "behind st' (passed_by a i c)"
proof -
  let ?f = "\<lambda>m. (next_id ^^ m) (tc_id c)"
  obtain j where j: "i = (next_id ^^ j) (start_id st a)" "st' = tx_reserve st a i"
    and skip: "\<And>m. m < j \<Longrightarrow> tx_reserved st a ((next_id ^^ m) (start_id st a))"
    using TryGetInvokeID_run [OF got] by blast
  obtain n where n: "start_id st a = ?f (Suc n)" "\<And>m. 0 < m \<Longrightarrow> m \<le> n \<Longrightarrow> ?f m \<in> set (tc_seen c)"
    using c(2,3) by (auto simp: behind_def)
  have it: "(next_id ^^ m) (start_id st a) = ?f (Suc n + m)" for m
    unfolding n(1) by (subst add.commute) (simp add: funpow_add funpow_swap1)
  have walked: "?f m \<in> set (tc_seen c)" if "0 < m" "m < Suc n + j" "m mod 255 \<noteq> 0" for m
  proof (cases "m \<le> n")
    case False
    then have "tx_reserved st a (?f m)" using skip [of "m - Suc n"] it [of "m - Suc n"] that(2) by simp
    then show ?thesis using seen next_id_cycle [OF c(1), of m 0] that(3) by fastforce
  qed (use that n(2) in simp)
  have lt: "Suc n + j < 255"
  proof (rule ccontr)
    assume "\<not> Suc n + j < 255"
    then have "254 \<le> length (tc_seen c)" by (intro cycle_seen [OF c(1)] walked) auto
    with c(4) show False by simp
  qed
  then show "i \<noteq> tc_id c" using next_id_cycle [OF c(1), of "Suc n + j" 0] it [of j] j(1) by simp
  have "next_id i = ?f (Suc (Suc n + j))" using it [of j] j(1) by simp
  moreover have "?f m \<in> set (i # tc_seen c)" if "0 < m" "m \<le> Suc n + j" for m
    using walked [of m] that lt it [of j] j(1) by (cases "m = Suc n + j") auto
  ultimately show "behind st' (passed_by a i c)"
    unfolding behind_def using c(3) j(2) by (intro exI [of _ "Suc n + j"]) (simp add: start_id_tx_reserve)
qed

lemma tx_inv_reserve:
  assumes got: "TryGetInvokeID st (Some a) = Inr (k, st')"
    and inv: "tx_inv (st, calls)" and win: "in_window (map (passed_by a k) calls)"
  shows "tx_inv (st', new_call a k calls # map (passed_by a k) calls)"
proof -
  note t = TryGetInvokeID_Inr [OF got]
  have r: "\<And>b j. tx_reserved st b j \<longleftrightarrow> (\<exists>c \<in> set calls. tc_key c = (b, j) \<and> tc_open c)"
    and c: "\<And>c. c \<in> set calls \<Longrightarrow> tc_id c \<noteq> 0" "\<And>c. c \<in> set calls \<Longrightarrow> behind st c"
    and seen: "\<And>c d. c \<in> set calls \<Longrightarrow> d \<in> set calls \<Longrightarrow> tc_peer c = tc_peer d \<Longrightarrow> tc_id d = tc_id c \<or> tc_id d \<in> set (tc_seen c)"
    and dis: "distinct (map tc_key calls)" using inv by (auto simp: tx_inv_def)
  have st': "st' = tx_reserve st a k" using TryGetInvokeID_run [OF got] by blast
  have fresh: "k \<noteq> tc_id c" "behind st' (passed_by a k c)" if d: "c \<in> set calls" "tc_peer c = a" for c
  proof -
    have "length (tc_seen c) < 254" using win d by (fastforce simp: in_window_def)
    moreover have "\<And>j. tx_reserved st a j \<Longrightarrow> j = tc_id c \<or> j \<in> set (tc_seen c)" using r seen [OF d(1)] d(2) by force
    ultimately show "k \<noteq> tc_id c" "behind st' (passed_by a k c)" using reserve_behind [OF got c(1,2)] d by blast+
  qed
  have other: "behind st' (passed_by a k c)" if d: "c \<in> set calls" for c
  proof (cases "tc_peer c = a")
    case False
    then have "behind st' (passed_by a k c) \<longleftrightarrow> behind st c" by (intro behind_cong) (simp_all add: st' start_id_tx_reserve)
    with c(2) d show ?thesis by simp
  qed (use fresh d in simp)
  have new: "behind st' (new_call a k calls)"
    unfolding behind_def by (intro exI [of _ 0]) (simp add: st' start_id_tx_reserve)
  have keys: "map tc_key (map (passed_by a k) calls) = map tc_key calls" by simp
  have d': "distinct (map tc_key (new_call a k calls # map (passed_by a k) calls))"
    using dis fresh(1) by (fastforce simp: comp_def)
  have r': "tx_reserved st' b j \<longleftrightarrow> (\<exists>c \<in> set (new_call a k calls # map (passed_by a k) calls). tc_key c = (b, j) \<and> tc_open c)" for b j
    using t(3) [of b j] r by auto
  have s': "\<forall>c \<in> set (new_call a k calls # map (passed_by a k) calls). \<forall>d \<in> set (new_call a k calls # map (passed_by a k) calls).
      tc_peer c = tc_peer d \<longrightarrow> tc_id d = tc_id c \<or> tc_id d \<in> set (tc_seen c)"
    using seen by (auto split: if_splits)
  show ?thesis unfolding tx_inv_def fst_conv snd_conv
    using d' r' s' c(1) other new t(1) by auto
qed

text \<open>A release takes the reservation of its own call only, since no other call under way has the same identifier.\<close>

lemma tx_inv_release:
  assumes inv: "tx_inv (st, xs @ c # ys)"
  shows "tx_inv (ReleaseInvokeID st (Some (tc_peer c)) (tc_id c), xs @ ys)"
    and "tx_inv (ReleaseInvokeID st (Some (tc_peer c)) (tc_id c), xs @ c\<lparr>tc_open := False\<rparr> # ys)"
proof -
  let ?st = "ReleaseInvokeID st (Some (tc_peer c)) (tc_id c)"
  have r: "\<And>b j. tx_reserved st b j \<longleftrightarrow> (\<exists>c \<in> set (xs @ c # ys). tc_key c = (b, j) \<and> tc_open c)"
    and i: "\<forall>c \<in> set (xs @ c # ys). tc_id c \<noteq> 0 \<and> behind st c"
    and seen: "\<forall>c' \<in> set (xs @ c # ys). \<forall>d \<in> set (xs @ c # ys). tc_peer c' = tc_peer d \<longrightarrow> tc_id d = tc_id c' \<or> tc_id d \<in> set (tc_seen c')"
    and dis: "distinct (map tc_key (xs @ c # ys))" using inv unfolding tx_inv_def fst_conv snd_conv by blast+
  have b: "behind ?st d \<longleftrightarrow> behind st d" for d by (rule behind_cong) simp_all
  have b': "behind ?st (c\<lparr>tc_open := False\<rparr>) \<longleftrightarrow> behind st c" by (rule behind_cong) simp_all
  have "tc_id c \<noteq> 0" using i by simp
  note rel = ReleaseInvokeID_reserved [OF this, of st "tc_peer c"]
  have other: "tc_key d \<noteq> tc_key c" if "d \<in> set (xs @ ys)" for d
    using dis that by (auto simp: image_iff)
  have r': "tx_reserved ?st b j \<longleftrightarrow> (\<exists>c \<in> set (xs @ ys). tc_key c = (b, j) \<and> tc_open c)" for b j
    unfolding rel r using other by force
  show "tx_inv (?st, xs @ ys)" unfolding tx_inv_def fst_conv snd_conv using r' i b seen dis by auto
  show "tx_inv (?st, xs @ c\<lparr>tc_open := False\<rparr> # ys)" unfolding tx_inv_def fst_conv snd_conv
    using r' i b b' seen dis by auto
qed

lemma tx_inv_step:
  assumes "tx_step s s'" "in_window (snd s')" "tx_inv s"
  shows "tx_inv s'"
  using assms by (cases rule: tx_step.cases) (auto simp: in_window_def intro!: tx_inv_reserve intro: tx_inv_release)

lemma tx_inv_reachable: "tx_run (TxState_init, []) s \<Longrightarrow> tx_inv s"
  by (induction rule: rtranclp_induct) (auto intro: tx_inv_init tx_inv_step)

lemma tx_run_step: "tx_run s s' \<Longrightarrow> tx_step s' s'' \<Longrightarrow> in_window (snd s'') \<Longrightarrow> tx_run s s''"
  by (erule rtranclp.rtrancl_into_rtrancl) simp

lemma TryGetInvokeID_free:
  assumes "\<not> tx_reserved st a (start_id st a)"
  shows "TryGetInvokeID st (Some a) = Inr (start_id st a, tx_reserve st a (start_id st a))"
proof -
  have "(255::nat) = Suc 254" by simp
  with assms show ?thesis by (simp only: TryGetInvokeID_def option.case invoke_loop.simps if_True not_False_eq_True)
qed

lemma tx_reserved_init [simp]: "\<not> tx_reserved TxState_init b k"
  by (simp add: TxState_init_def tx_reserved_def)

lemma TryGetInvokeID_init:
  "TryGetInvokeID TxState_init (Some a) = Inr (1, tx_reserve TxState_init a 1)"
  using TryGetInvokeID_free [of TxState_init a] by (simp add: start_id_def TxState_init_def tx_reserved_def)

section \<open>The late second release\<close>

text \<open>
  Without the window the second release of a call takes the reservation of a later call that was given the same
  identifier, and a third call then shares it.
\<close>

lemma tx_spin:
  assumes "\<not> tx_reserved st a (start_id st a)"
  shows "\<exists>st'. tx_step\<^sup>*\<^sup>* (st, calls) (st', map (passed_by a (start_id st a)) calls)
    \<and> tx_reserved st' = tx_reserved st \<and> start_id st' a = next_id (start_id st a)"
proof -
  let ?k = "start_id st a" let ?st = "tx_reserve st a (start_id st a)"
  have "tx_step (st, calls) (?st, [] @ new_call a ?k calls # map (passed_by a ?k) calls)"
    using tx_step.reserve [OF TryGetInvokeID_free [OF assms]] by simp
  moreover have "tx_step (?st, [] @ new_call a ?k calls # map (passed_by a ?k) calls)
      (ReleaseInvokeID ?st (Some a) ?k, map (passed_by a ?k) calls)"
    using tx_step.finish [of ?st "[]" "new_call a ?k calls"] by simp
  moreover have "tx_reserved (ReleaseInvokeID ?st (Some a) ?k) = tx_reserved st"
    using assms TryGetInvokeID_Inr(3) [OF TryGetInvokeID_free [OF assms]] by (auto simp: fun_eq_iff ReleaseInvokeID_reserved)
  ultimately show ?thesis by (intro exI [of _ "ReleaseInvokeID ?st (Some a) ?k"]) (auto simp: start_id_tx_reserve)
qed

lemma tx_spins:
  "(\<And>m. m < n \<Longrightarrow> \<not> tx_reserved st a ((next_id ^^ m) (start_id st a))) \<Longrightarrow>
   \<exists>st' calls'. tx_step\<^sup>*\<^sup>* (st, calls) (st', calls') \<and> map tc_key calls' = map tc_key calls \<and> map tc_open calls' = map tc_open calls
     \<and> tx_reserved st' = tx_reserved st \<and> start_id st' a = (next_id ^^ n) (start_id st a)"
proof (induction n arbitrary: st calls)
  case (Suc n)
  obtain st1 where s: "tx_step\<^sup>*\<^sup>* (st, calls) (st1, map (passed_by a (start_id st a)) calls)"
    and r: "tx_reserved st1 = tx_reserved st" and p: "start_id st1 a = next_id (start_id st a)"
    using tx_spin [of st a calls] Suc.prems [of 0] by auto
  have "\<And>m. m < n \<Longrightarrow> \<not> tx_reserved st1 a ((next_id ^^ m) (start_id st1 a))"
    using Suc.prems [of "Suc _"] by (simp add: r p funpow_swap1)
  from Suc.IH [OF this, of "map (passed_by a (start_id st a)) calls"] obtain st' calls' where
    "tx_step\<^sup>*\<^sup>* (st1, map (passed_by a (start_id st a)) calls) (st', calls')" "map tc_key calls' = map tc_key calls"
    "map tc_open calls' = map tc_open calls" "tx_reserved st' = tx_reserved st" "start_id st' a = (next_id ^^ Suc n) (start_id st a)"
    by (auto simp: r p comp_def funpow_swap1)
  with s show ?case by (meson rtranclp_trans)
qed (auto intro!: exI)

text \<open>From a state without reservations whose pointer is at 2 the pointer comes round to 1, which is then handed out.\<close>

lemma one_handed_out:
  assumes "\<And>k. \<not> tx_reserved st ''p'' k" "start_id st ''p'' = 2"
  shows "\<exists>st' c calls'. tx_step\<^sup>*\<^sup>* (st, calls) (st', c # calls') \<and> tc_key c = (''p'', 1) \<and> tc_open c
    \<and> map tc_key calls' = map tc_key calls \<and> map tc_open calls' = map tc_open calls
    \<and> (\<forall>k. tx_reserved st' ''p'' k \<longleftrightarrow> k = 1) \<and> start_id st' ''p'' = 2"
proof -
  have two: "next_id 1 = 2" by (simp add: next_id_def)
  have "(next_id ^^ 254) 2 = (next_id ^^ Suc 254) 1" by (simp only: funpow_Suc_right o_apply two)
  then have "(next_id ^^ 254) 2 = 1" using next_id_cycle [of 1 255 0] by simp
  with tx_spins [of 254 st "''p''" calls] assms obtain st1 calls1 where
    s: "tx_step\<^sup>*\<^sup>* (st, calls) (st1, calls1)" "map tc_key calls1 = map tc_key calls" "map tc_open calls1 = map tc_open calls"
      "tx_reserved st1 = tx_reserved st" "start_id st1 ''p'' = 1" by auto
  have "\<not> tx_reserved st1 ''p'' (start_id st1 ''p'')" using assms(1) s(4) by simp
  note free = TryGetInvokeID_free [OF this, unfolded s(5)]
  let ?st = "tx_reserve st1 ''p'' 1"
  have "tx_step\<^sup>*\<^sup>* (st, calls) (?st, new_call ''p'' 1 calls1 # map (passed_by ''p'' 1) calls1)"
    using s(1) tx_step.reserve [OF free] by (rule rtranclp.rtrancl_into_rtrancl)
  moreover have "\<forall>k. tx_reserved ?st ''p'' k \<longleftrightarrow> k = 1" using TryGetInvokeID_Inr(3) [OF free] assms(1) s(4) by simp
  ultimately show ?thesis using s(2,3)
    by (intro exI [of _ ?st] exI [of _ "new_call ''p'' 1 calls1"] exI [of _ "map (passed_by ''p'' 1) calls1"])
      (auto simp: comp_def start_id_tx_reserve two)
qed

lemma late_release_shares_id:
  "\<exists>st c d. tx_step\<^sup>*\<^sup>* (TxState_init, []) (st, [c, d]) \<and> tc_open c \<and> tc_open d \<and> tc_key c = tc_key d"
proof -
  note first = tx_step.reserve [OF TryGetInvokeID_init, of "[]" "''p''"]
  let ?A = "new_call ''p'' 1 []" let ?st1 = "tx_reserve TxState_init ''p'' 1"
  let ?st2 = "ReleaseInvokeID ?st1 (Some ''p'') 1"
  have "tx_step (?st1, [?A]) (?st2, [?A\<lparr>tc_open := False\<rparr>])" using tx_step.answer [of ?A ?st1 "[]" "[]"] by simp
  with first have to2: "tx_step\<^sup>*\<^sup>* (TxState_init, []) (?st2, [?A\<lparr>tc_open := False\<rparr>])" by auto
  have "\<not> tx_reserved ?st2 ''p'' k" for k
    using TryGetInvokeID_Inr(3) [OF TryGetInvokeID_init, of "''p''" "''p''" k] by (simp add: ReleaseInvokeID_reserved)
  moreover have "start_id ?st2 ''p'' = 2" by (simp add: start_id_tx_reserve next_id_def)
  ultimately obtain st3 b as where to3: "tx_step\<^sup>*\<^sup>* (?st2, [?A\<lparr>tc_open := False\<rparr>]) (st3, b # as)" "tc_key b = (''p'', 1)" "tc_open b"
      "map tc_key as = [(''p'', 1)]" "\<forall>k. tx_reserved st3 ''p'' k \<longleftrightarrow> k = 1" "start_id st3 ''p'' = 2"
    using one_handed_out [of ?st2 "[?A\<lparr>tc_open := False\<rparr>]"] by auto
  then obtain a' where as: "as = [a']" "tc_key a' = (''p'', 1)" by auto
  let ?st4 = "ReleaseInvokeID st3 (Some ''p'') 1"
  have fin: "tx_step (st3, [b, a']) (?st4, [b])" using tx_step.finish [of st3 "[b]" a' "[]"] as(2) by simp
  have "\<not> tx_reserved ?st4 ''p'' k" for k using to3(5) by (simp add: ReleaseInvokeID_reserved)
  moreover have "start_id ?st4 ''p'' = 2" using to3(6) by simp
  ultimately obtain st5 c bs where to5: "tx_step\<^sup>*\<^sup>* (?st4, [b]) (st5, c # bs)" "tc_key c = (''p'', 1)" "tc_open c"
      "map tc_key bs = [tc_key b]" "map tc_open bs = [tc_open b]"
    using one_handed_out [of ?st4 "[b]"] by auto
  then obtain b' where bs: "bs = [b']" "tc_key b' = (''p'', 1)" "tc_open b'" using to3(2,3) by auto
  have "tx_step\<^sup>*\<^sup>* (TxState_init, []) (st5, [c, b'])"
    using to2 to3(1) fin to5(1) unfolding as(1) bs(1) by (meson rtranclp.rtrancl_into_rtrancl rtranclp_trans)
  with to5(2,3) bs(2,3) show ?thesis by (intro exI conjI) (assumption | simp)+
qed

section \<open>Properties\<close>

text \<open>\<^verbatim>\<open>TryGetInvokeID\<close> fails exactly when all 255 identifiers of the peer are reserved; otherwise it
  returns an identifier that is not zero and was free, and reserves that one and no other.\<close>

theorem TryGetInvokeID_correct:
  "(TryGetInvokeID st (Some a) = Inl ErrInvokeIDExhausted \<longleftrightarrow> (\<forall>k. k \<noteq> 0 \<longrightarrow> tx_reserved st a k))
   \<and> (\<forall>i st'. TryGetInvokeID st (Some a) = Inr (i, st') \<longrightarrow> i \<noteq> 0 \<and> \<not> tx_reserved st a i
        \<and> (\<forall>b k. tx_reserved st' b k \<longleftrightarrow> tx_reserved st b k \<or> (b = a \<and> k = i)))"
  by (intro conjI allI impI TryGetInvokeID_exhausted) (simp_all add: TryGetInvokeID_Inr)

theorem TryGetInvokeID_correct_witness:
  "\<exists>st'. TryGetInvokeID TxState_init (Some ''10.0.0.1:47808'') = Inr (1, st') \<and> tx_reserved st' ''10.0.0.1:47808'' 1
     \<and> \<not> tx_reserved st' ''10.0.0.2:47808'' 1"
proof -
  let ?a = "''10.0.0.1:47808''"
  define st' where "st' = tx_reserve TxState_init ?a 1"
  have t: "TryGetInvokeID TxState_init (Some ?a) = Inr (1, st')" unfolding st'_def by (rule TryGetInvokeID_init)
  have r: "tx_reserved st' b k \<longleftrightarrow> b = ?a \<and> k = 1" for b k
    using conjunct2 [OF TryGetInvokeID_correct [of TxState_init ?a], rule_format, OF t] by simp
  show ?thesis by (rule exI [of _ st']) (simp add: t r)
qed

text \<open>C35. A call gives its invoke ID back when its answer is dispatched and a second time when the caller is done.
  Whatever the interleaving of reservations, answers and second releases, as long as no call is still under way when
  more than 254 other calls to the same peer were under way at its start or have started since: no two calls under way
  to a peer share an invoke ID, none has the ID zero, and the table holds exactly those of the calls that still wait for
  their answer.\<close>

theorem invoke_ids_unique:
  "tx_run (TxState_init, []) (st, calls) \<Longrightarrow>
     distinct (map tc_key calls) \<and> (\<forall>a. (a, 0) \<notin> tc_key ` set calls)
     \<and> (\<forall>a k. tx_reserved st a k \<longleftrightarrow> (\<exists>c \<in> set calls. tc_key c = (a, k) \<and> tc_open c))"
  by (drule tx_inv_reachable) (auto simp: tx_inv_def)

theorem invoke_ids_unique_witness:
  "\<exists>st c d. tx_run (TxState_init, []) (st, [c, d]) \<and> tc_key c = (''p'', 2) \<and> tc_key d = (''p'', 1)
     \<and> (\<forall>a k. tx_reserved st a k \<longleftrightarrow> (a, k) = (''p'', 2))"
proof -
  let ?A = "new_call ''p'' 1 []" let ?st1 = "tx_reserve TxState_init ''p'' 1"
  let ?st2 = "ReleaseInvokeID ?st1 (Some ''p'') 1" let ?B = "?A\<lparr>tc_open := False\<rparr>" let ?st3 = "tx_reserve ?st2 ''p'' 2"
  note t = TryGetInvokeID_init [of "''p''"]
  have "start_id ?st2 ''p'' = 2" by (simp add: start_id_tx_reserve next_id_def)
  moreover have "\<not> tx_reserved ?st2 ''p'' 2"
    using TryGetInvokeID_Inr(3) [OF t, of "''p''" 2] by (simp add: ReleaseInvokeID_reserved)
  ultimately have u: "TryGetInvokeID ?st2 (Some ''p'') = Inr (2, ?st3)" using TryGetInvokeID_free [of ?st2 "''p''"] by simp
  let ?C = "new_call ''p'' 2 [?B]" let ?D = "passed_by ''p'' 2 ?B"
  have w: "in_window (snd (?st1, [?A]))" "in_window (snd (?st2, [?B]))" "in_window (snd (?st3, [?C, ?D]))"
    by (simp_all add: in_window_def)
  have "tx_step (TxState_init, []) (?st1, [?A])" using tx_step.reserve [OF t, of "[]"] by simp
  note r1 = tx_run_step [OF rtranclp.rtrancl_refl this w(1)]
  have "tx_step (?st1, [?A]) (?st2, [?B])" using tx_step.answer [of ?A ?st1 "[]" "[]"] by simp
  note r2 = tx_run_step [OF r1 this w(2)]
  have "tx_step (?st2, [?B]) (?st3, [?C, ?D])" using tx_step.reserve [OF u, of "[?B]"] by simp
  note r = tx_run_step [OF r2 this w(3)]
  note table = invoke_ids_unique [OF r, THEN conjunct2, THEN conjunct2, rule_format]
  have "tx_reserved ?st3 a k \<longleftrightarrow> (a, k) = (''p'', 2)" for a k unfolding table by auto
  then show ?thesis by (intro exI [of _ ?st3] exI [of _ ?C] exI [of _ ?D] conjI r) simp_all
qed

end
