(* ===== verification/Net.thy ===== *)
theory Net
  imports Transaction
begin

text \<open>
  IP and UDP addresses as the sources use them from the Go package \<^verbatim>\<open>net\<close>.  A \<^verbatim>\<open>net.IP\<close> is its octets,
  \<open>None\<close> for nil; \<open>IP_String\<close> is the text its method \<^verbatim>\<open>String\<close> gives, which the handler and transaction
  tables use as keys.
\<close>

section \<open>Addresses\<close>

type_synonym ip = "bytes option"

record UDPAddr =
  ua_IP :: ip
  ua_Port :: nat

definition ip_octets :: "ip \<Rightarrow> bytes" where
  "ip_octets x = (case x of None \<Rightarrow> [] | Some b \<Rightarrow> b)"

definition v4_prefix :: bytes where
  "v4_prefix = replicate 10 0 @ [255, 255]"

definition IP_To4 :: "bytes \<Rightarrow> bytes option" where
  "IP_To4 x = (if length x = 4 then Some x
     else if length x = 16 \<and> take 12 x = v4_prefix then Some (drop 12 x) else None)"

definition IP_Equal :: "bytes \<Rightarrow> bytes \<Rightarrow> bool" where
  "IP_Equal x y =
     (if length x = length y then x = y
      else if length x = 4 \<and> length y = 16 then take 12 y = v4_prefix \<and> x = drop 12 y
      else if length x = 16 \<and> length y = 4 then take 12 x = v4_prefix \<and> y = drop 12 x
      else False)"

definition hex_digit :: "nat \<Rightarrow> char" where
  "hex_digit d = ''0123456789abcdef'' ! d"

fun hex_nat :: "nat \<Rightarrow> string" where
  "hex_nat n = (if n < 16 then [hex_digit n] else hex_nat (n div 16) @ [hex_digit (n mod 16)])"

definition hex_byte :: "u8 \<Rightarrow> string" where
  "hex_byte b = [hex_digit (unat b div 16), hex_digit (unat b mod 16)]"

fun join :: "string \<Rightarrow> string list \<Rightarrow> string" where
  "join sep [] = []"
| "join sep [x] = x"
| "join sep (x # y # zs) = x @ sep @ join sep (y # zs)"

fun groups16 :: "bytes \<Rightarrow> nat list" where
  "groups16 (x # y # zs) = (unat x * 256 + unat y) # groups16 zs"
| "groups16 _ = []"

text \<open>The first longest run of at least two zero groups is written as two colons.\<close>

definition zero_run :: "nat list \<Rightarrow> nat \<Rightarrow> nat" where
  "zero_run gs i = length (takeWhile (\<lambda>g. g = 0) (drop i gs))"

definition longest_zero_run :: "nat list \<Rightarrow> (nat \<times> nat) option" where
  "longest_zero_run gs =
     foldl (\<lambda>best i. let l = zero_run gs i in
              if l \<ge> 2 \<and> (case best of None \<Rightarrow> True | Some (s, n) \<Rightarrow> l > n) then Some (i, l) else best)
       None [0..<length gs]"

definition IPv6_text :: "bytes \<Rightarrow> string" where
  "IPv6_text x =
     (let gs = groups16 x in
      case longest_zero_run gs of
        None \<Rightarrow> join '':'' (map hex_nat gs)
      | Some (s, n) \<Rightarrow> join '':'' (map hex_nat (take s gs)) @ ''::'' @ join '':'' (map hex_nat (drop (s + n) gs)))"

definition IP_String :: "bytes \<Rightarrow> string" where
  "IP_String x =
     (if x = [] then ''<nil>''
      else case IP_To4 x of
        Some v \<Rightarrow> join ''.'' (map (\<lambda>b. itoa (unat b)) v)
      | None \<Rightarrow> if length x = 16 then IPv6_text x else ''?'' @ concat (map hex_byte x))"

definition hexString :: "bytes \<Rightarrow> string" where
  "hexString x = concat (map hex_byte x)"

text \<open>A host that contains a colon or a percent sign is put in brackets.\<close>

definition JoinHostPort :: "string \<Rightarrow> string \<Rightarrow> string" where
  "JoinHostPort host port =
     (if CHR '':'' \<in> set host \<or> CHR ''%'' \<in> set host then ''['' @ host @ '']:'' @ port else host @ '':'' @ port)"

lemma IP_String_v4: "IP_String [a, b, c, d] = itoa (unat a) @ ''.'' @ itoa (unat b) @ ''.'' @ itoa (unat c) @ ''.'' @ itoa (unat d)"
  by (simp add: IP_String_def IP_To4_def del: itoa.simps)

end
