(* ===== verification/Names.thy ===== *)
theory Names
  imports Prelude
begin

text \<open>
  The display names of error classes, error codes, reject reasons and abort reasons, \<^verbatim>\<open>error_class.go\<close>,
  \<^verbatim>\<open>error_code.go\<close>, \<^verbatim>\<open>reject_reason.go\<close> and \<^verbatim>\<open>abort_reason.go\<close>.  The error messages of the client are made
  of them.  Each switch is the list of its cases in source order.
\<close>

definition lookup_name :: "string \<Rightarrow> ('a \<times> string) list \<Rightarrow> 'a \<Rightarrow> string" where
  "lookup_name d t k = (case map_of t k of Some n \<Rightarrow> n | None \<Rightarrow> d)"

definition ErrorClass_String :: "u32 \<Rightarrow> string" where
  "ErrorClass_String = lookup_name ''unknown''
    [(0, ''device''), (1, ''object''), (2, ''property''), (3, ''resources''), (4, ''security''),
     (5, ''services''), (6, ''vt''), (7, ''communication'')]"

definition ErrorCode_names_1 :: "(u32 \<times> string) list" where
  "ErrorCode_names_1 =
    [(0, ''ErrorCodeOther''), (3, ''ErrorCodeDeviceBusy''), (2, ''ErrorCodeConfigurationInProgress''),
     (25, ''ErrorCodeOperationalProblem''), (4, ''ErrorCodeDynamicCreationNotSupported''),
     (17, ''ErrorCodeNoObjectsOfSpecifiedType''), (23, ''ErrorCodeObjectDeletionNotPermitted''),
     (24, ''ErrorCodeObjectIdentifierAlreadyExists''), (27, ''ErrorCodeReadAccessDenied''),
     (31, ''ErrorCodeUnknownObject''), (36, ''ErrorCodeUnsupportedObjectType''),
     (41, ''ErrorCodeCharacterSetNotSupported''), (47, ''ErrorCodeDatatypeNotSupported''),
     (8, ''ErrorCodeInconsistentSelectionCriterion''), (42, ''ErrorCodeInvalidArrayIndex''),
     (9, ''ErrorCodeInvalidDataType''), (44, ''ErrorCodeNotCovProperty''),
     (45, ''ErrorCodeOptionalFunctionalityNotSupported''), (50, ''ErrorCodePropertyIsNotAnArray''),
     (32, ''ErrorCodeUnknownProperty''), (37, ''ErrorCodeValueOutOfRange''),
     (40, ''ErrorCodeWriteAccessDenied''), (18, ''ErrorCodeNoSpaceForObject''),
     (19, ''ErrorCodeNoSpaceToAddListElement''), (20, ''ErrorCodeNoSpaceToWriteProperty''),
     (1, ''ErrorCodeAuthenticationFailed''), (6, ''ErrorCodeIncompatibleSecurityLevels''),
     (12, ''ErrorCodeInvalidOperatorName''), (15, ''ErrorCodeKeyGenerationError''),
     (26, ''ErrorCodePasswordFailure''), (28, ''ErrorCodeSecurityNotSupported''), (30, ''ErrorCodeTimeout''),
     (43, ''ErrorCodeCovSubscriptionFailed''), (48, ''ErrorCodeDuplicateName''),
     (49, ''ErrorCodeDuplicateObjectId''), (5, ''ErrorCodeFileAccessDenied''),
     (7, ''ErrorCodeInconsistentParameters''), (46, ''ErrorCodeInvalidConfigurationData''),
     (10, ''ErrorCodeInvalidFileAccessMethod''), (11, ''ErrorCodeInvalidFileStartPosition''),
     (13, ''ErrorCodeInvalidParameterDataType''), (14, ''ErrorCodeInvalidTimeStamp''),
     (16, ''ErrorCodeMissingRequiredParameter''), (22, ''ErrorCodePropertyIsNotAList''),
     (29, ''ErrorCodeServiceRequestDenied''), (34, ''ErrorCodeUnknownVtClass''),
     (35, ''ErrorCodeUnknownVtSession''), (21, ''ErrorCodeNoVtSessionsAvailable''),
     (38, ''ErrorCodeVtSessionAlreadyClosed''), (39, ''ErrorCodeVtSessionTerminationFailure''),
     (33, ''ErrorCodeReserved1''), (51, ''ErrorCodeAbortBufferOverflow''),
     (52, ''ErrorCodeAbortInvalidApduInThisState''), (53, ''ErrorCodeAbortPreemptedByHigherPriorityTask''),
     (54, ''ErrorCodeAbortSegmentationNotSupported''), (55, ''ErrorCodeAbortProprietary''),
     (56, ''ErrorCodeAbortOther''), (57, ''ErrorCodeInvalidTag''), (58, ''ErrorCodeNetworkDown''),
     (59, ''ErrorCodeRejectBufferOverflow''), (60, ''ErrorCodeRejectInconsistentParameters''),
     (61, ''ErrorCodeRejectInvalidParameterDataType''), (62, ''ErrorCodeRejectInvalidTag''),
     (63, ''ErrorCodeRejectMissingRequiredParameter''), (64, ''ErrorCodeRejectParameterOutOfRange''),
     (65, ''ErrorCodeRejectTooManyArguments''), (66, ''ErrorCodeRejectUndefinedEnumeration''),
     (67, ''ErrorCodeRejectUnrecognizedService'')]"

definition ErrorCode_names_2 :: "(u32 \<times> string) list" where
  "ErrorCode_names_2 =
    [(68, ''ErrorCodeRejectProprietary''), (69, ''ErrorCodeRejectOther''), (70, ''ErrorCodeUnknownDevice''),
     (71, ''ErrorCodeUnknownRoute''), (72, ''ErrorCodeValueNotInitialized''),
     (73, ''ErrorCodeInvalidEventState''), (74, ''ErrorCodeNoAlarmConfigured''),
     (75, ''ErrorCodeLogBufferFull''), (76, ''ErrorCodeLoggedValuePurged''),
     (77, ''ErrorCodeNoPropertySpecified''), (78, ''ErrorCodeNotConfiguredForTriggeredLogging''),
     (79, ''ErrorCodeUnknownSubscription''), (80, ''ErrorCodeParameterOutOfRange''),
     (81, ''ErrorCodeListElementNotFound''), (82, ''ErrorCodeBusy''),
     (83, ''ErrorCodeCommunicationDisabled''), (84, ''ErrorCodeSuccess''), (85, ''ErrorCodeAccessDenied''),
     (86, ''ErrorCodeBadDestinationAddress''), (87, ''ErrorCodeBadDestinationDeviceId''),
     (88, ''ErrorCodeBadSignature''), (89, ''ErrorCodeBadSourceAddress''), (90, ''ErrorCodeBadTimestamp''),
     (91, ''ErrorCodeCannotUseKey''), (92, ''ErrorCodeCannotVerifyMessageId''),
     (93, ''ErrorCodeCorrectKeyRevision''), (94, ''ErrorCodeDestinationDeviceIdRequired''),
     (95, ''ErrorCodeDuplicateMessage''), (96, ''ErrorCodeEncryptionNotConfigured''),
     (97, ''ErrorCodeEncryptionRequired''), (98, ''ErrorCodeIncorrectKey''),
     (99, ''ErrorCodeInvalidKeyData''), (100, ''ErrorCodeKeyUpdateInProgress''),
     (101, ''ErrorCodeMalformedMessage''), (102, ''ErrorCodeNotKeyServer''),
     (103, ''ErrorCodeSecurityNotConfigured''), (104, ''ErrorCodeSourceSecurityRequired''),
     (105, ''ErrorCodeTooManyKeys''), (106, ''ErrorCodeUnknownAuthenticationType''),
     (107, ''ErrorCodeUnknownKey''), (108, ''ErrorCodeUnknownKeyRevision''),
     (109, ''ErrorCodeUnknownSourceMessage''), (110, ''ErrorCodeNotRouterToDnet''),
     (111, ''ErrorCodeRouterBusy''), (112, ''ErrorCodeUnknownNetworkMessage''),
     (113, ''ErrorCodeMessageTooLong''), (114, ''ErrorCodeSecurityError''),
     (115, ''ErrorCodeAddressingError''), (116, ''ErrorCodeWriteBdtFailed''),
     (117, ''ErrorCodeReadBdtFailed''), (118, ''ErrorCodeRegisterForeignDeviceFailed''),
     (119, ''ErrorCodeReadFdtFailed''), (120, ''ErrorCodeDeleteFdtEntryFailed''),
     (121, ''ErrorCodeDistributeBroadcastFailed''), (122, ''ErrorCodeUnknownFileSize''),
     (123, ''ErrorCodeAbortApduTooLong''), (124, ''ErrorCodeAbortApplicationExceededReplyTime''),
     (125, ''ErrorCodeAbortOutOfResources''), (126, ''ErrorCodeAbortTsmTimeout''),
     (127, ''ErrorCodeAbortWindowSizeOutOfRange''), (128, ''ErrorCodeFileFull''),
     (129, ''ErrorCodeInconsistentConfiguration''), (130, ''ErrorCodeInconsistentObjectType''),
     (131, ''ErrorCodeInternalError''), (132, ''ErrorCodeNotConfigured''), (133, ''ErrorCodeOutOfMemory''),
     (134, ''ErrorCodeValueTooLong''), (135, ''ErrorCodeAbortInsufficientSecurity''),
     (136, ''ErrorCodeAbortSecurityError'')]"

definition ErrorCode_String :: "u32 \<Rightarrow> string" where
  "ErrorCode_String = lookup_name ''Unknown error code'' (ErrorCode_names_1 @ ErrorCode_names_2)"

definition RejectReason_String :: "u8 \<Rightarrow> string" where
  "RejectReason_String = lookup_name ''unknown reason''
    [(1, ''buffer overflow''), (2, ''inconsistent parameters''), (3, ''invalid parameter data type''),
     (4, ''invalid tag''), (5, ''missing required parameter''), (6, ''parameter out of range''),
     (7, ''too many arguments''), (8, ''undefined enumeration''), (9, ''unrecognized service'')]"

definition AbortReason_String :: "u8 \<Rightarrow> string" where
  "AbortReason_String = lookup_name ''unknown reason''
    [(1, ''buffer overflow''), (2, ''invalid APDU in this state''),
     (3, ''preempted by higher priority task''), (4, ''segmentation not supported''),
     (5, ''security error''), (6, ''insufficient security'')]"

end
