(* ===== verification/Server.thy ===== *)
theory Server
  imports Request Net Names "HOL-Library.AList"
begin

text \<open>
  The client endpoint, \<^verbatim>\<open>bacnet/server.go\<close> with the transaction half of \<^verbatim>\<open>bacnet/request.go\<close>: the tables of
  response handlers, the dispatch of received datagrams, and the life cycle of a request.

  Channels live in a store inside the state: a channel is a number, its contents a capacity and a
  queue.  Every map of the source is guarded by a mutex that its operations hold, so each operation
  is one step.
  The operating system's \<^verbatim>\<open>WriteToUDP\<close> is the argument \<open>wr\<close>, which gives the error of a write, if any;
  the state logs what was handed to it.
\<close>

section \<open>State\<close>

text \<open>Channel zero is the nil channel; it has no contents.\<close>

type_synonym chan = nat

definition nil_chan :: chan where "nil_chan = 0"

record Chan =
  ch_cap :: nat
  ch_queue :: "Request list"

record confirmedHandler =
  handler :: chan
  expectedService :: u8
  matchService :: bool

record Server =
  ServerAddr :: "UDPAddr option"
  UnicastConn :: "nat option"   \<comment> \<open>the local port of the open socket\<close>
  BroadcastAddr :: "UDPAddr option"
  BroadcastPort :: u16
  closing :: bool
  listening :: bool
  started :: bool               \<comment> \<open>the channel \<^verbatim>\<open>start\<close> is closed\<close>
  closed :: bool                \<comment> \<open>the channel \<^verbatim>\<open>close\<close> is closed\<close>
  rcvErrors :: bool
  srv_errors :: "go_error list" \<comment> \<open>the contents of the error channel\<close>
  cHandlers :: "string \<rightharpoonup> confirmedHandler"
  ucHandlers :: "u8 \<rightharpoonup> (u64 \<times> chan) list"
  ucHandlerID :: u64
  covHandlers :: "string \<rightharpoonup> chan"
  srv_chans :: "chan \<rightharpoonup> Chan"
  srv_next :: chan              \<comment> \<open>the next unused channel\<close>
  srv_tx :: TxState             \<comment> \<open>the package's table of invoke identifiers\<close>
  srv_sent :: "(bytes \<times> UDPAddr) list"

definition Configure :: "u16 \<Rightarrow> bool \<Rightarrow> TxState \<Rightarrow> Server" where
  "Configure listenPort receiveErrors tx =
     \<lparr>ServerAddr = None, UnicastConn = None, BroadcastAddr = None, BroadcastPort = listenPort,
      closing = False, listening = False, started = False, closed = False, rcvErrors = receiveErrors,
      srv_errors = [], cHandlers = Map.empty, ucHandlers = Map.empty, ucHandlerID = 0,
      covHandlers = Map.empty, srv_chans = Map.empty, srv_next = 1, srv_tx = tx, srv_sent = []\<rparr>"

section \<open>Channels\<close>

definition make_chan :: "nat \<Rightarrow> Server \<Rightarrow> chan \<times> Server" where
  "make_chan cap s = (srv_next s,
     s\<lparr>srv_chans := (srv_chans s)(srv_next s \<mapsto> \<lparr>ch_cap = cap, ch_queue = []\<rparr>), srv_next := srv_next s + 1\<rparr>)"

definition deliverRequest :: "chan \<Rightarrow> Request \<Rightarrow> Server \<Rightarrow> bool \<times> Server" where
  "deliverRequest h req s =
     (case srv_chans s h of
        None \<Rightarrow> (False, s)
      | Some c \<Rightarrow> if length (ch_queue c) < ch_cap c
                 then (True, s\<lparr>srv_chans := (srv_chans s)(h \<mapsto> c\<lparr>ch_queue := ch_queue c @ [req]\<rparr>)\<rparr>)
                 else (False, s))"

definition receive_from :: "chan \<Rightarrow> Server \<Rightarrow> (Request \<times> Server) option" where
  "receive_from h s =
     (case srv_chans s h of
        None \<Rightarrow> None
      | Some c \<Rightarrow> (case ch_queue c of
          [] \<Rightarrow> None
        | r # rs \<Rightarrow> Some (r, s\<lparr>srv_chans := (srv_chans s)(h \<mapsto> c\<lparr>ch_queue := rs\<rparr>)\<rparr>)))"

definition drain :: "chan \<Rightarrow> Server \<Rightarrow> Server" where
  "drain h s =
     (case srv_chans s h of
        None \<Rightarrow> s
      | Some c \<Rightarrow> s\<lparr>srv_chans := (srv_chans s)(h \<mapsto> c\<lparr>ch_queue := []\<rparr>)\<rparr>)"

section \<open>Handler tables\<close>

definition SetConfirmedHandler :: "ip \<Rightarrow> u8 \<Rightarrow> chan \<Rightarrow> Server \<Rightarrow> Server" where
  "SetConfirmedHandler deviceIP invokeId h s =
     (case deviceIP of None \<Rightarrow> s
      | Some x \<Rightarrow> if invokeId = 0 then s
          else s\<lparr>cHandlers := (cHandlers s)(genTxId (IP_String x) invokeId \<mapsto>
                 \<lparr>handler = h, expectedService = 0, matchService = False\<rparr>)\<rparr>)"

definition setConfirmedHandlerForService :: "ip \<Rightarrow> u8 \<Rightarrow> u8 \<Rightarrow> chan \<Rightarrow> Server \<Rightarrow> Server" where
  "setConfirmedHandlerForService deviceIP invokeID service h s =
     (case deviceIP of None \<Rightarrow> s
      | Some x \<Rightarrow> if invokeID = 0 then s
          else s\<lparr>cHandlers := (cHandlers s)(genTxId (IP_String x) invokeID \<mapsto>
                 \<lparr>handler = h, expectedService = service, matchService = True\<rparr>)\<rparr>)"

definition getConfirmedHandler :: "ip \<Rightarrow> u8 \<Rightarrow> Server \<Rightarrow> chan option" where
  "getConfirmedHandler deviceIP invokeId s =
     (case deviceIP of None \<Rightarrow> None
      | Some x \<Rightarrow> if invokeId = 0 then None
          else map_option handler (cHandlers s (genTxId (IP_String x) invokeId)))"

definition RemoveConfirmedHandler :: "ip \<Rightarrow> u8 \<Rightarrow> Server \<Rightarrow> Server" where
  "RemoveConfirmedHandler deviceIP invokeId s =
     (case deviceIP of None \<Rightarrow> s
      | Some x \<Rightarrow> if invokeId = 0 then s
          else s\<lparr>cHandlers := (cHandlers s)(genTxId (IP_String x) invokeId := None)\<rparr>)"

text \<open>The service of a response that names one must be the service that was asked for.\<close>

definition service_mismatch :: "confirmedHandler \<Rightarrow> Request \<Rightarrow> bool" where
  "service_mismatch h req \<longleftrightarrow> matchService h
     \<and> a_PduType (r_Apdu req) \<in> {PduTypeSimpleAck, PduTypeComplexAck, PduTypeError}
     \<and> a_ServiceChoice (r_Apdu req) \<noteq> expectedService h"

definition deliverConfirmedHandler :: "ip \<Rightarrow> u8 \<Rightarrow> Request \<Rightarrow> Server \<Rightarrow> (bool \<times> bool) \<times> Server" where
  "deliverConfirmedHandler deviceIP invokeID req s =
     (case deviceIP of None \<Rightarrow> ((False, False), s)
      | Some x \<Rightarrow> if invokeID = 0 then ((False, False), s)
          else (let key = genTxId (IP_String x) invokeID in
            case cHandlers s key of
              None \<Rightarrow> ((False, False), s)
            | Some h \<Rightarrow> if service_mismatch h req then ((False, False), s)
                else (let (delivered, s) = deliverRequest (handler h) req (s\<lparr>cHandlers := (cHandlers s)(key := None)\<rparr>)
                      in ((True, delivered), s))))"

definition covHandlerKey :: "bytes \<Rightarrow> u32 \<Rightarrow> string" where
  "covHandlerKey deviceIP processID = IP_String deviceIP @ ''.'' @ itoa (unat processID)"

definition deliverCovHandler :: "ip \<Rightarrow> u32 \<Rightarrow> Request \<Rightarrow> Server \<Rightarrow> (bool \<times> bool) \<times> Server" where
  "deliverCovHandler deviceIP processID req s =
     (case deviceIP of None \<Rightarrow> ((False, False), s)
      | Some x \<Rightarrow> (case covHandlers s (covHandlerKey x processID) of
          None \<Rightarrow> ((False, False), s)
        | Some h \<Rightarrow> if h = nil_chan then ((False, False), s)
                   else (let (delivered, s) = deliverRequest h req s in ((True, delivered), s))))"

definition getCovHandler :: "ip \<Rightarrow> u32 \<Rightarrow> Server \<Rightarrow> chan option" where
  "getCovHandler deviceIP processId s =
     (case deviceIP of None \<Rightarrow> None
      | Some x \<Rightarrow> (case covHandlers s (covHandlerKey x processId) of
          None \<Rightarrow> None | Some h \<Rightarrow> if h = nil_chan then None else Some h))"

definition SetCovHandlerWithProcessID :: "ip \<Rightarrow> u32 \<Rightarrow> chan \<Rightarrow> Server \<Rightarrow> Server" where
  "SetCovHandlerWithProcessID deviceIP processId h s =
     (case deviceIP of None \<Rightarrow> s
      | Some x \<Rightarrow> s\<lparr>covHandlers := (covHandlers s)(covHandlerKey x processId \<mapsto> h)\<rparr>)"

definition SetCovHandler :: "ip \<Rightarrow> u8 \<Rightarrow> chan \<Rightarrow> Server \<Rightarrow> Server" where
  "SetCovHandler deviceIP processId h s = SetCovHandlerWithProcessID deviceIP (ucast processId) h s"

definition RemoveCovHandlerWithProcessID :: "ip \<Rightarrow> u32 \<Rightarrow> Server \<Rightarrow> Server" where
  "RemoveCovHandlerWithProcessID deviceIP processId s =
     (case deviceIP of None \<Rightarrow> s
      | Some x \<Rightarrow> s\<lparr>covHandlers := (covHandlers s)(covHandlerKey x processId := None)\<rparr>)"

definition RemoveCovHandler :: "ip \<Rightarrow> u8 \<Rightarrow> Server \<Rightarrow> Server" where
  "RemoveCovHandler deviceIP processId s = RemoveCovHandlerWithProcessID deviceIP (ucast processId) s"

text \<open>
  The handlers of an unconfirmed service, a Go map from tokens to channels: an association list whose
  order is the order of one iteration.
\<close>

definition uc_list :: "u8 \<Rightarrow> Server \<Rightarrow> (u64 \<times> chan) list" where
  "uc_list service s = (case ucHandlers s service of None \<Rightarrow> [] | Some hs \<Rightarrow> hs)"

definition getUnconfirmedHandlers :: "u8 \<Rightarrow> Server \<Rightarrow> chan list" where
  "getUnconfirmedHandlers service s = map snd (uc_list service s)"

definition SetUnconfirmedHandler :: "u8 \<Rightarrow> chan \<Rightarrow> Server \<Rightarrow> Server" where
  "SetUnconfirmedHandler service h s = s\<lparr>ucHandlers := (ucHandlers s)(service \<mapsto> [(0, h)])\<rparr>"

definition addUnconfirmedHandler :: "u8 \<Rightarrow> chan \<Rightarrow> Server \<Rightarrow> u64 \<times> Server" where
  "addUnconfirmedHandler service h s =
     (let t = ucHandlerID s + 1; token = (if t = 0 then t + 1 else t) in
      (token, s\<lparr>ucHandlerID := token,
                ucHandlers := (ucHandlers s)(service \<mapsto> AList.update token h (uc_list service s))\<rparr>))"

definition removeUnconfirmedHandler :: "u8 \<Rightarrow> u64 \<Rightarrow> Server \<Rightarrow> Server" where
  "removeUnconfirmedHandler service token s =
     (let hs = AList.delete token (uc_list service s) in
      s\<lparr>ucHandlers := (ucHandlers s)(service := (if hs = [] then None else Some hs))\<rparr>)"

definition RemoveUnconfirmedHandler :: "u8 \<Rightarrow> Server \<Rightarrow> Server" where
  "RemoveUnconfirmedHandler service s = s\<lparr>ucHandlers := (ucHandlers s)(service := None)\<rparr>"

text \<open>
  The first handler gets the packet that was parsed already; the others get their own copy, parsed from
  the same octets.
\<close>

fun dispatch_loop :: "bool \<Rightarrow> chan list \<Rightarrow> Request \<Rightarrow> Request result \<Rightarrow> Server \<Rightarrow> Server" where
  "dispatch_loop first [] req copy s = s"
| "dispatch_loop first (h # hs) req copy s =
     (if first then dispatch_loop False hs req copy (snd (deliverRequest h req s))
      else (case copy of
          Inl _ \<Rightarrow> dispatch_loop first hs req copy s
        | Inr message \<Rightarrow> dispatch_loop False hs req copy (snd (deliverRequest h message s))))"

definition dispatchUnconfirmed :: "u8 \<Rightarrow> Request \<Rightarrow> Request result \<Rightarrow> Server \<Rightarrow> bool \<times> Server" where
  "dispatchUnconfirmed service req copy s =
     (let handlers = getUnconfirmedHandlers service s in
      if handlers = [] then (False, s) else (True, dispatch_loop True handlers req copy s))"

section \<open>Received datagrams\<close>

definition isLocalSender :: "UDPAddr option \<Rightarrow> Server \<Rightarrow> bool" where
  "isLocalSender address s =
     (case (address, ServerAddr s) of
        (Some a, Some sa) \<Rightarrow>
          IP_Equal (ip_octets (ua_IP a)) (ip_octets (ua_IP sa))
          \<and> (case UnicastConn s of None \<Rightarrow> ua_Port a = ua_Port sa | Some local \<Rightarrow> ua_Port a = local)
      | _ \<Rightarrow> False)"

definition sender_of :: "UDPAddr \<Rightarrow> bytes \<times> u16" where
  "sender_of a = (ip_octets (ua_IP a), word_of_nat (ua_Port a))"

definition cov_data :: "Request \<Rightarrow> CovNotification option" where
  "cov_data req = (case a_ResponseData (r_Apdu req) of Some (RespCovNotification n) \<Rightarrow> Some n | _ \<Rightarrow> None)"

text \<open>A COV notification goes to its subscription, if there is one.\<close>

definition handle_cov :: "ip \<Rightarrow> Request \<Rightarrow> Server \<Rightarrow> bool \<times> Server" where
  "handle_cov deviceIP req s =
     (case cov_data req of
        None \<Rightarrow> (False, s)
      | Some n \<Rightarrow> (let ((found, delivered), s) = deliverCovHandler deviceIP (cn_ProcessIdentifier32 n) req s in (found, s)))"

definition handle_cov_if :: "bool \<Rightarrow> ip \<Rightarrow> Request \<Rightarrow> Server \<Rightarrow> bool \<times> Server" where
  "handle_cov_if is_cov deviceIP req s = (if is_cov then handle_cov deviceIP req s else (False, s))"

text \<open>
  \<^verbatim>\<open>Release\<close> of a parsed packet only returns it to the pool: it has no server, no invoke address and no queue.
\<close>

definition handle_parsed :: "bytes \<Rightarrow> UDPAddr \<Rightarrow> Request \<Rightarrow> Server \<Rightarrow> Server" where
  "handle_parsed data address req s =
     (let deviceIP = ua_IP address; invokeID = a_InvokeID (r_Apdu req); service = a_ServiceChoice (r_Apdu req) in
      if invokeID > 0 then
        (let (done, s) = handle_cov_if (service = ConfirmedServiceCovNotification \<and> a_PduType (r_Apdu req) \<noteq> PduTypeSimpleAck)
                            deviceIP req s in
         if done then s
         else (let ((found, delivered), s) = deliverConfirmedHandler deviceIP invokeID req s in
           if found then s\<lparr>srv_tx := ReleaseInvokeID (srv_tx s) (map_option IP_String deviceIP) invokeID\<rparr> else s))
      else
        (let (done, s) = handle_cov_if (service = UnconfirmedServiceCovNotification) deviceIP req s in
         if done then s
         else snd (dispatchUnconfirmed service req (ParseRequest data (Some (sender_of address))) s)))"

definition handle :: "bytes \<Rightarrow> UDPAddr option \<Rightarrow> Server \<Rightarrow> Server" where
  "handle data address s =
     (if isLocalSender address s then s
      else (case address of
          None \<Rightarrow> s
        | Some a \<Rightarrow> (case ParseRequest data (Some (sender_of a)) of
            Inl _ \<Rightarrow> s
          | Inr req \<Rightarrow> handle_parsed data a req s)))"

section \<open>Life cycle of the endpoint\<close>

definition ErrServerAlreadyListening :: go_error where
  "ErrServerAlreadyListening = Err ''server is already listening''"

definition ErrServerShutdown :: go_error where
  "ErrServerShutdown = Err ''server is shut down''"

definition reportError :: "go_error \<Rightarrow> Server \<Rightarrow> Server" where
  "reportError e s =
     (if \<not> rcvErrors s then s
      else if length (srv_errors s) < 50 then s\<lparr>srv_errors := srv_errors s @ [e]\<rparr> else s)"

definition reserveListener :: "Server \<Rightarrow> unit result \<times> Server" where
  "reserveListener s =
     (if closing s then (Inl ErrServerShutdown, s)
      else if listening s then (Inl ErrServerAlreadyListening, s)
      else (Inr (), s\<lparr>listening := True\<rparr>))"

definition cancelListenerStart :: "Server \<Rightarrow> Server" where
  "cancelListenerStart s = s\<lparr>listening := False\<rparr>"

definition installConnections :: "nat \<Rightarrow> UDPAddr \<Rightarrow> UDPAddr \<Rightarrow> Server \<Rightarrow> unit result \<times> Server" where
  "installConnections localPort serverAddr broadcastAddr s =
     (if closing s then (Inl ErrServerShutdown, s)
      else (Inr (), s\<lparr>UnicastConn := Some localPort, ServerAddr := Some serverAddr, BroadcastAddr := Some broadcastAddr\<rparr>))"

definition markStarted :: "Server \<Rightarrow> Server" where
  "markStarted s = s\<lparr>started := True\<rparr>"

text \<open>The argument is the result of closing the socket; \<^verbatim>\<open>closeOnce\<close> makes every later call a no-op.\<close>

definition closeConn :: "go_error option \<Rightarrow> Server \<Rightarrow> Server" where
  "closeConn closeErr s =
     (if closed s then s
      else (let s = s\<lparr>closing := True, listening := False\<rparr>;
                s = (case (UnicastConn s, closeErr) of (Some _, Some e) \<Rightarrow> reportError e s | _ \<Rightarrow> s)
            in s\<lparr>closed := True\<rparr>))"

definition Server_Send :: "(bytes \<Rightarrow> UDPAddr \<Rightarrow> go_error option) \<Rightarrow> bytes \<Rightarrow> UDPAddr option \<Rightarrow> Server \<Rightarrow> unit result \<times> Server" where
  "Server_Send wr b dest s =
     (if UnicastConn s = None then (Inl (Err ''server is not listening''), s)
      else (case dest of
          None \<Rightarrow> (Inl (Err ''destination cannot be nil''), s)
        | Some d \<Rightarrow> (case wr b d of Some e \<Rightarrow> (Inl e, s) | None \<Rightarrow> (Inr (), s\<lparr>srv_sent := srv_sent s @ [(b, d)]\<rparr>))))"

section \<open>What one datagram can change\<close>

lemma deliverRequest_cases:
  obtains (sent) c where "srv_chans s h = Some c" "length (ch_queue c) < ch_cap c"
      "deliverRequest h req s = (True, s\<lparr>srv_chans := (srv_chans s)(h \<mapsto> c\<lparr>ch_queue := ch_queue c @ [req]\<rparr>)\<rparr>)"
    | (dropped) "deliverRequest h req s = (False, s)"
proof (cases "srv_chans s h")
  case (Some c)
  then show ?thesis by (cases "length (ch_queue c) < ch_cap c") (auto intro: that simp: deliverRequest_def)
qed (auto intro: that simp: deliverRequest_def)

text \<open>Everything but the channel contents.\<close>

definition tables :: "Server \<Rightarrow> Server" where
  "tables s = s\<lparr>srv_chans := Map.empty\<rparr>"

lemma tables_deliverRequest: "deliverRequest h req s = (d, s') \<Longrightarrow> tables s' = tables s"
  by (cases rule: deliverRequest_cases [of s h req]) (auto simp: tables_def)

lemma tables_snd_deliverRequest [simp]: "tables (snd (deliverRequest h req s)) = tables s"
  by (rule tables_deliverRequest [of _ _ _ "fst (deliverRequest h req s)"]) simp

lemma tables_dispatch_loop [simp]: "tables (dispatch_loop first hs req copy s) = tables s"
  by (induction first hs req copy s rule: dispatch_loop.induct) (auto split: sum.splits)

lemma tables_dispatchUnconfirmed [simp]: "tables (snd (dispatchUnconfirmed service req copy s)) = tables s"
  by (simp add: dispatchUnconfirmed_def Let_def)

lemma tables_handle_cov: "handle_cov_if c x req s = (d, s') \<Longrightarrow> tables s' = tables s"
  by (auto simp: handle_cov_if_def handle_cov_def deliverCovHandler_def dest: tables_deliverRequest
      split: option.splits prod.splits if_splits)

lemma tables_eqD:
  "tables s = tables t \<Longrightarrow> cHandlers s = cHandlers t \<and> ucHandlers s = ucHandlers t \<and> covHandlers s = covHandlers t
     \<and> srv_tx s = srv_tx t \<and> srv_sent s = srv_sent t \<and> UnicastConn s = UnicastConn t \<and> srv_next s = srv_next t
     \<and> ServerAddr s = ServerAddr t"
  by (cases s; cases t) (simp add: tables_def)

text \<open>A queue never holds more than the capacity of its channel.\<close>

definition chans_ok :: "Server \<Rightarrow> bool" where
  "chans_ok s \<longleftrightarrow> (\<forall>h c. srv_chans s h = Some c \<longrightarrow> length (ch_queue c) \<le> ch_cap c)"

text \<open>
  The effect on the tables, in one line each: a confirmed response either changes nothing or takes
  its handler out and gives the identifier back.
\<close>

definition taken :: "string \<Rightarrow> u8 \<Rightarrow> Server \<Rightarrow> Server" where
  "taken a k s = s\<lparr>cHandlers := (cHandlers s)(genTxId a k := None), srv_tx := ReleaseInvokeID (srv_tx s) (Some a) k\<rparr>"

lemma deliverConfirmed_nil [simp]: "deliverConfirmedHandler None k req s = ((False, False), s)"
  by (simp add: deliverConfirmedHandler_def)

lemma deliverConfirmed_tables:
  assumes "deliverConfirmedHandler (Some x) k req s = ((found, delivered), s')"
  shows "tables s' = (if found then tables (s\<lparr>cHandlers := (cHandlers s)(genTxId (IP_String x) k := None)\<rparr>) else tables s)"
    "found \<longleftrightarrow> k \<noteq> 0 \<and> (\<exists>h. cHandlers s (genTxId (IP_String x) k) = Some h \<and> \<not> service_mismatch h req)"
  using assms
  by (auto simp: deliverConfirmedHandler_def Let_def dest: tables_deliverRequest split: option.splits prod.splits if_splits)

lemma tables_tx: "tables s = tables t \<Longrightarrow> tables (s\<lparr>srv_tx := x\<rparr>) = tables (t\<lparr>srv_tx := x\<rparr>)"
  by (cases s; cases t) (simp add: tables_def)

lemma handle_parsed_tables:
  "tables (handle_parsed data a req s) = tables s
   \<or> (\<exists>x h. ua_IP a = Some x \<and> a_InvokeID (r_Apdu req) \<noteq> 0
        \<and> cHandlers s (genTxId (IP_String x) (a_InvokeID (r_Apdu req))) = Some h \<and> \<not> service_mismatch h req
        \<and> tables (handle_parsed data a req s) = tables (taken (IP_String x) (a_InvokeID (r_Apdu req)) s))"
proof -
  let ?k = "a_InvokeID (r_Apdu req)"
  obtain d1 s1 where 1: "handle_cov_if (a_ServiceChoice (r_Apdu req) = ConfirmedServiceCovNotification
      \<and> a_PduType (r_Apdu req) \<noteq> PduTypeSimpleAck) (ua_IP a) req s = (d1, s1)" by fastforce
  obtain d2 s2 where 2: "handle_cov_if (a_ServiceChoice (r_Apdu req) = UnconfirmedServiceCovNotification)
      (ua_IP a) req s = (d2, s2)" by fastforce
  obtain f d s3 where 3: "deliverConfirmedHandler (ua_IP a) ?k req s1 = ((f, d), s3)" by (metis surj_pair)
  have t1: "tables s1 = tables s" using 1 by (rule tables_handle_cov)
  have t2: "tables s2 = tables s" using 2 by (rule tables_handle_cov)
  show ?thesis
  proof (cases "?k > 0")
    case False
    with 2 t2 show ?thesis by (simp add: handle_parsed_def Let_def)
  next
    case True
    show ?thesis
    proof (cases "\<not> d1 \<and> f")
      case False
      have "tables s3 = tables s" if "\<not> f"
        using 3 that t1 by (cases "ua_IP a") (auto dest: deliverConfirmed_tables(1))
      with False True 1 3 t1 show ?thesis by (auto simp: handle_parsed_def Let_def)
    next
      case f: True
      with 3 obtain x where x: "ua_IP a = Some x" by (cases "ua_IP a") (auto simp: deliverConfirmedHandler_def)
      note dc = deliverConfirmed_tables [OF 3 [unfolded x]]
      have c: "cHandlers s1 = cHandlers s" "srv_tx s1 = srv_tx s" using tables_eqD [OF t1] by auto
      have e: "tables s3 = tables (s1\<lparr>cHandlers := (cHandlers s1)(genTxId (IP_String x) ?k := None)\<rparr>)"
        using dc(1) f by simp
      have "srv_tx s3 = srv_tx s" using tables_eqD [OF e] c by simp
      moreover have "tables (s3\<lparr>srv_tx := y\<rparr>) = tables (s\<lparr>cHandlers := (cHandlers s)(genTxId (IP_String x) ?k := None), srv_tx := y\<rparr>)" for y
        using e t1 c by (cases s; cases s1; cases s3) (simp add: tables_def)
      ultimately have "tables (handle_parsed data a req s) = tables (taken (IP_String x) ?k s)"
        using True f 1 3 x by (simp add: handle_parsed_def Let_def taken_def)
      with dc(2) f x c show ?thesis by auto
    qed
  qed
qed

lemma handle_tables:
  "tables (handle data (Some a) s) = tables s
   \<or> (\<exists>x k. ua_IP a = Some x \<and> k \<noteq> 0 \<and> cHandlers s (genTxId (IP_String x) k) \<noteq> None
        \<and> tables (handle data (Some a) s) = tables (taken (IP_String x) k s))"
proof (cases "\<not> isLocalSender (Some a) s \<and> (\<exists>req. ParseRequest data (Some (sender_of a)) = Inr req)")
  case True
  then obtain req where "handle data (Some a) s = handle_parsed data a req s" by (auto simp: handle_def)
  with handle_parsed_tables [of data a req s] show ?thesis by auto
qed (auto simp: handle_def split: sum.splits)

lemma chans_ok_deliverRequest: "deliverRequest h req s = (d, s') \<Longrightarrow> chans_ok s \<Longrightarrow> chans_ok s'"
  by (cases rule: deliverRequest_cases [of s h req]) (auto simp: chans_ok_def split: if_splits)

lemma chans_ok_snd_deliverRequest: "chans_ok s \<Longrightarrow> chans_ok (snd (deliverRequest h req s))"
  by (rule chans_ok_deliverRequest [of h req s "fst (deliverRequest h req s)"]) simp_all

lemma chans_ok_dispatch_loop: "chans_ok s \<Longrightarrow> chans_ok (dispatch_loop first hs req copy s)"
  by (induction first hs req copy s rule: dispatch_loop.induct)
    (auto split: sum.splits intro: chans_ok_snd_deliverRequest)

lemma chans_ok_cov: "handle_cov_if c x req s = (d, s') \<Longrightarrow> chans_ok s \<Longrightarrow> chans_ok s'"
  by (auto simp: handle_cov_if_def handle_cov_def deliverCovHandler_def dest: chans_ok_deliverRequest
      split: option.splits prod.splits if_splits)

lemma chans_ok_update [simp]:
  "chans_ok (s\<lparr>cHandlers := y\<rparr>) = chans_ok s" "chans_ok (s\<lparr>srv_tx := x\<rparr>) = chans_ok s"
  by (simp_all add: chans_ok_def)

lemma chans_ok_confirmed: "deliverConfirmedHandler x k req s = (r, s') \<Longrightarrow> chans_ok s \<Longrightarrow> chans_ok s'"
  by (auto simp: deliverConfirmedHandler_def Let_def dest: chans_ok_deliverRequest split: option.splits prod.splits if_splits)

lemma chans_ok_handle_parsed:
  assumes "chans_ok s"
  shows "chans_ok (handle_parsed data a req s)"
  using assms
  by (auto simp: handle_parsed_def dispatchUnconfirmed_def Let_def chans_ok_dispatch_loop
      dest: chans_ok_cov chans_ok_confirmed split: prod.splits if_splits)

lemma chans_ok_handle: "chans_ok s \<Longrightarrow> chans_ok (handle data a s)"
  by (auto simp: handle_def chans_ok_handle_parsed split: option.splits sum.splits)

section \<open>Responses to outstanding requests\<close>

text \<open>A parsed packet that the confirmed dispatch looks at.\<close>

definition response_for :: "u8 \<Rightarrow> Request \<Rightarrow> bool" where
  "response_for k req \<longleftrightarrow> a_InvokeID (r_Apdu req) = k \<and> k \<noteq> 0
     \<and> (a_ServiceChoice (r_Apdu req) \<noteq> ConfirmedServiceCovNotification \<or> a_PduType (r_Apdu req) = PduTypeSimpleAck)"

lemma handle_response:
  assumes "\<not> isLocalSender (Some a) s" "ParseRequest data (Some (sender_of a)) = Inr req" "response_for k req"
    and "ua_IP a = Some x" "cHandlers s (genTxId (IP_String x) k) = Some h" "\<not> service_mismatch h req"
    and "srv_chans s (handler h) = Some c" "length (ch_queue c) < ch_cap c"
  shows "handle data (Some a) s
    = (taken (IP_String x) k s)\<lparr>srv_chans := (srv_chans s)(handler h \<mapsto> c\<lparr>ch_queue := ch_queue c @ [req]\<rparr>)\<rparr>"
proof -
  have k: "a_InvokeID (r_Apdu req) = k" "k > 0" using assms(3) by (auto simp: response_for_def word_neq_0_conv)
  have nc: "handle_cov_if (a_ServiceChoice (r_Apdu req) = ConfirmedServiceCovNotification
      \<and> a_PduType (r_Apdu req) \<noteq> PduTypeSimpleAck) (Some x) req s = (False, s)"
    using assms(3) by (auto simp: response_for_def handle_cov_if_def)
  have dr: "deliverRequest (handler h) req (s\<lparr>cHandlers := (cHandlers s)(genTxId (IP_String x) k := None)\<rparr>)
    = (True, s\<lparr>cHandlers := (cHandlers s)(genTxId (IP_String x) k := None),
               srv_chans := (srv_chans s)(handler h \<mapsto> c\<lparr>ch_queue := ch_queue c @ [req]\<rparr>)\<rparr>)"
    using assms(7,8) by (simp add: deliverRequest_def)
  have dc: "deliverConfirmedHandler (Some x) k req s = ((True, True),
      s\<lparr>cHandlers := (cHandlers s)(genTxId (IP_String x) k := None),
        srv_chans := (srv_chans s)(handler h \<mapsto> c\<lparr>ch_queue := ch_queue c @ [req]\<rparr>)\<rparr>)"
    using k(2) assms(5,6) dr by (simp add: deliverConfirmedHandler_def)
  show ?thesis
    using assms(1,2,4) k nc dc by (simp add: handle_def handle_parsed_def Let_def taken_def)
qed

lemma handle_ignored:
  assumes "ParseRequest data (Some (sender_of a)) = Inr req" "response_for k req" "ua_IP a = Some x"
    and "\<forall>h. cHandlers s (genTxId (IP_String x) k) = Some h \<longrightarrow> service_mismatch h req"
  shows "handle data (Some a) s = s"
proof -
  have k: "a_InvokeID (r_Apdu req) = k" "k > 0" using assms(2) by (auto simp: response_for_def word_neq_0_conv)
  have nc: "handle_cov_if (a_ServiceChoice (r_Apdu req) = ConfirmedServiceCovNotification
      \<and> a_PduType (r_Apdu req) \<noteq> PduTypeSimpleAck) (Some x) req s = (False, s)"
    using assms(2) by (auto simp: response_for_def handle_cov_if_def)
  have "deliverConfirmedHandler (Some x) k req s = ((False, False), s)"
    using assms(4) by (auto simp: deliverConfirmedHandler_def Let_def split: option.splits)
  with assms(1,3) k nc show ?thesis by (simp add: handle_def handle_parsed_def Let_def)
qed

end
