(* ===== verification/Client.thy ===== *)
theory Client
  imports Server
begin

text \<open>
  Requests of the client: the transaction half of \<^verbatim>\<open>bacnet/request.go\<close> and the calls built on it,
  \<^verbatim>\<open>read_property.go\<close>, \<^verbatim>\<open>writeprop.go\<close>, \<^verbatim>\<open>read_property_multiple.go\<close>, \<^verbatim>\<open>write_property_multiple.go\<close>,
  \<^verbatim>\<open>cov_request.go\<close>, \<^verbatim>\<open>who-is.go\<close>, \<^verbatim>\<open>who_has.go\<close> and \<^verbatim>\<open>time_sync.go\<close>.

  A call sends, then waits in a \<^verbatim>\<open>select\<close>.  What other goroutines do to the endpoint while it waits is the
  argument \<open>env\<close>, and the argument of type \<open>wait\<close> says which case of the \<^verbatim>\<open>select\<close> fires; the result \<open>None\<close> is a
  wait for a response that is not there.
\<close>

section \<open>Requests\<close>

record ClientRequest =
  cr_packet :: Request
  cr_tx :: chan
  cr_server :: bool
  cr_invokeAddress :: ip
  cr_unconfirmedService :: u8
  cr_unconfirmedToken :: u64

definition NewRequest :: ClientRequest where
  "NewRequest = \<lparr>cr_packet = Request_Reset, cr_tx = nil_chan, cr_server = False, cr_invokeAddress = None,
     cr_unconfirmedService = 0, cr_unconfirmedToken = 0\<rparr>"

definition InvokeID :: "ClientRequest \<Rightarrow> u8" where
  "InvokeID r = a_InvokeID (r_Apdu (cr_packet r))"

definition cleanupTransaction :: "ClientRequest \<Rightarrow> Server \<Rightarrow> ClientRequest \<times> Server" where
  "cleanupTransaction r s =
     (let s = (if cr_server r \<and> InvokeID r \<noteq> 0 \<and> cr_invokeAddress r \<noteq> None
               then RemoveConfirmedHandler (cr_invokeAddress r) (InvokeID r) s else s);
          s = (if InvokeID r \<noteq> 0 \<and> cr_invokeAddress r \<noteq> None
               then s\<lparr>srv_tx := ReleaseInvokeID (srv_tx s) (map_option IP_String (cr_invokeAddress r)) (InvokeID r)\<rparr>
               else s);
          s = (if cr_server r \<and> cr_unconfirmedToken r \<noteq> 0
               then removeUnconfirmedHandler (cr_unconfirmedService r) (cr_unconfirmedToken r) s else s)
      in (r\<lparr>cr_server := False, cr_invokeAddress := None, cr_unconfirmedToken := 0\<rparr>, s))"

text \<open>The responses in the queue are parsed packets, whose own release has no effect on the endpoint.\<close>

definition releaseQueuedResponses :: "ClientRequest \<Rightarrow> Server \<Rightarrow> Server" where
  "releaseQueuedResponses r s = drain (cr_tx r) s"

definition Release :: "ClientRequest \<Rightarrow> Server \<Rightarrow> Server" where
  "Release r s = (let (r, s) = cleanupTransaction r s in releaseQueuedResponses r s)"

text \<open>\<^verbatim>\<open>append(net.IP(nil), address...)\<close> is nil also for an empty address.\<close>

definition copy_ip :: "ip \<Rightarrow> ip" where
  "copy_ip x = (case x of None \<Rightarrow> None | Some b \<Rightarrow> if b = [] then None else Some b)"

definition startConfirmedService ::
    "u8 \<Rightarrow> request_data option \<Rightarrow> ip \<Rightarrow> ClientRequest \<Rightarrow> Server \<Rightarrow> ClientRequest \<times> Server" where
  "startConfirmedService choice data address r s =
     (let s = Release r s;
          (invokeID, tx) = GetInvokeID (srv_tx s) (map_option IP_String address);
          (ch, s) = make_chan 1 (s\<lparr>srv_tx := tx\<rparr>)
      in (NewRequest\<lparr>cr_packet := SetConfirmedService choice data invokeID, cr_invokeAddress := copy_ip address,
                     cr_tx := ch\<rparr>, s))"

definition startUnconfirmedService ::
    "u8 \<Rightarrow> request_data option \<Rightarrow> ClientRequest \<Rightarrow> Server \<Rightarrow> ClientRequest \<times> Server" where
  "startUnconfirmedService choice data r s =
     (let s = Release r s; (ch, s) = make_chan 10 s
      in (NewRequest\<lparr>cr_packet := SetUnconfirmedService choice data, cr_tx := ch\<rparr>, s))"

type_synonym writer = "bytes \<Rightarrow> UDPAddr \<Rightarrow> go_error option"

definition getUdpAddr :: "ip \<Rightarrow> u16 \<Rightarrow> UDPAddr" where
  "getUdpAddr x port = \<lparr>ua_IP = x, ua_Port = unat port\<rparr>"

definition Broadcast :: "writer \<Rightarrow> u8 \<Rightarrow> ClientRequest \<Rightarrow> Server \<Rightarrow> unit result \<times> ClientRequest \<times> Server" where
  "Broadcast wr responseChoice r s =
     (case Request_MarshalBinary (cr_packet r) of
        Inl e \<Rightarrow> (Inl e, r, s)
      | Inr data \<Rightarrow>
          (let (token, s) = addUnconfirmedHandler responseChoice (cr_tx r) s;
               r = r\<lparr>cr_server := True, cr_unconfirmedService := responseChoice, cr_unconfirmedToken := token\<rparr>;
               (res, s) = Server_Send wr data (BroadcastAddr s) s
           in case res of
                Inl e \<Rightarrow> (Inl e, cleanupTransaction r s)
              | Inr _ \<Rightarrow> (Inr (), r, s)))"

definition Send :: "writer \<Rightarrow> ip \<Rightarrow> ClientRequest \<Rightarrow> Server \<Rightarrow> unit result \<times> ClientRequest \<times> Server" where
  "Send wr dest r s =
     (if dest = None then (Inl (Err ''destination cannot be nil''), cleanupTransaction r s)
      else if InvokeID r = 0 then (Inl ErrInvokeIDExhausted, r, s)
      else (case Request_MarshalBinary (cr_packet r) of
          Inl e \<Rightarrow> (Inl e, cleanupTransaction r s)
        | Inr data \<Rightarrow>
            (let r = r\<lparr>cr_server := True\<rparr>;
                 s = setConfirmedHandlerForService dest (InvokeID r) (a_ServiceChoice (r_Apdu (cr_packet r))) (cr_tx r) s;
                 (res, s) = Server_Send wr data (Some (getUdpAddr dest (BroadcastPort s))) s
             in case res of
                  Inl e \<Rightarrow> (Inl e, cleanupTransaction r s)
                | Inr _ \<Rightarrow> (Inr (), r, s))))"

section \<open>Outcomes\<close>

definition ErrorMessage :: "Request \<Rightarrow> string" where
  "ErrorMessage r = ErrorClass_String (a_ErrorClass (r_Apdu r)) @ '' '' @ ErrorCode_String (a_ErrorCode (r_Apdu r))"

text \<open>The chain of tests every call ends with when the response is not a success.\<close>

definition request_error :: "Request \<Rightarrow> go_error" where
  "request_error r =
     (if a_Errored (r_Apdu r) then Err (ErrorMessage r)
      else if a_Aborted (r_Apdu r) then Err (AbortReason_String (a_AbortReason (r_Apdu r)))
      else if a_Rejected (r_Apdu r) then Err (RejectReason_String (a_RejectReason (r_Apdu r)))
      else Err ''internal error'')"

datatype wait = WCtxDone go_error | WTimeout | WData

definition await :: "wait \<Rightarrow> chan \<Rightarrow> Server \<Rightarrow> (Request result \<times> Server) option" where
  "await w ch s =
     (case w of
        WCtxDone e \<Rightarrow> Some (Inl e, s)
      | WTimeout \<Rightarrow> Some (Inl (Err ''timeout''), s)
      | WData \<Rightarrow> map_option (\<lambda>(r, s). (Inr r, s)) (receive_from ch s))"

text \<open>The shape the confirmed calls share; \<open>finish\<close> reads the response.\<close>

definition confirmed_call ::
    "writer \<Rightarrow> (Server \<Rightarrow> Server) \<Rightarrow> wait \<Rightarrow> u8 \<Rightarrow> request_data \<Rightarrow> ip \<Rightarrow> (Request \<Rightarrow> go_error + 'a) \<Rightarrow> Server \<Rightarrow>
     ('a result \<times> Server) option" where
  "confirmed_call wr env w choice data address finish s =
     (let (r, s) = startConfirmedService choice (Some data) address NewRequest s;
          (res, r, s) = Send wr address r s
      in case res of
           Inl e \<Rightarrow> Some (Inl e, Release r s)
         | Inr _ \<Rightarrow> (case await w (cr_tx r) (env s) of
             None \<Rightarrow> None
           | Some (answer, s) \<Rightarrow> Some (bind_res answer finish, Release r s)))"

definition empty_ip :: "ip \<Rightarrow> bool" where
  "empty_ip x \<longleftrightarrow> (case x of None \<Rightarrow> True | Some b \<Rightarrow> IP_Equal b [0, 0, 0, 0])"

definition nil_device :: go_error where
  "nil_device = Err ''received a nil or empty device IP''"

text \<open>The range check of the calls that take a whole object identifier.\<close>

definition check_object :: "ObjectId \<Rightarrow> unit result" where
  "check_object object =
     (if InstanceNumber object > BacnetMaxInstance then Inl (Err ''object instance %d exceeds maximum of %d'')
      else if ucast (oid_Type object) \<ge> BacnetMaxObject + 1 then Inl (Err ''object type %d exceeds maximum of %d'')
      else Inr ())"

section \<open>ReadProperty and WriteProperty\<close>

definition read_payload :: "ObjectId \<Rightarrow> u32 \<Rightarrow> request_data" where
  "read_payload object propertyId = ReqReadProperty (Property_zero\<lparr>p_ObjectId := Some object, p_ID := propertyId\<rparr>)"

definition read_answer :: "Request \<Rightarrow> PropertyValue option list result" where
  "read_answer r =
     (if Successful r then
        (case a_ResponseData (r_Apdu r) of
           Some (RespReadProperty p) \<Rightarrow> Inr (p_Values p)
         | _ \<Rightarrow> Inl (Err ''could not parse response''))
      else Inl (request_error r))"

definition readProperty ::
    "writer \<Rightarrow> (Server \<Rightarrow> Server) \<Rightarrow> wait \<Rightarrow> ip \<Rightarrow> ObjectId \<Rightarrow> u32 \<Rightarrow> Server \<Rightarrow>
     (PropertyValue option list result \<times> Server) option" where
  "readProperty wr env w address object propertyId s =
     (if empty_ip address then Some (Inl nil_device, s)
      else confirmed_call wr env w ConfirmedServiceReadProperty (read_payload object propertyId) address read_answer s)"

definition ReadProperty ::
    "writer \<Rightarrow> (Server \<Rightarrow> Server) \<Rightarrow> wait \<Rightarrow> ip \<Rightarrow> u16 \<Rightarrow> u16 \<Rightarrow> u32 \<Rightarrow> Server \<Rightarrow>
     (PropertyValue option list result \<times> Server) option" where
  "ReadProperty wr env w address objectType objectInstance propertyId s =
     readProperty wr env w address (ObjectId_zero\<lparr>oid_Type := objectType, oid_Instance := objectInstance\<rparr>) propertyId s"

definition ReadObjectProperty ::
    "writer \<Rightarrow> (Server \<Rightarrow> Server) \<Rightarrow> wait \<Rightarrow> ip \<Rightarrow> ObjectId \<Rightarrow> u32 \<Rightarrow> Server \<Rightarrow>
     (PropertyValue option list result \<times> Server) option" where
  "ReadObjectProperty wr env w address object propertyId s =
     (case check_object object of
        Inl e \<Rightarrow> Some (Inl e, s)
      | Inr _ \<Rightarrow> readProperty wr env w address object propertyId s)"

definition write_payload :: "ObjectId \<Rightarrow> u32 \<Rightarrow> u8 \<Rightarrow> u8 \<Rightarrow> go_value \<Rightarrow> request_data" where
  "write_payload object propertyId tag priority val =
     ReqWriteProperty \<lparr>wp_Property = Some (Property_zero\<lparr>p_ObjectId := Some object,
         p_Values := [Some \<lparr>pv_Type = tag, pv_Value = val\<rparr>], p_ID := propertyId\<rparr>), wp_Priority = priority\<rparr>"

definition done_answer :: "Request \<Rightarrow> unit result" where
  "done_answer r = (if Successful r then Inr () else Inl (request_error r))"

definition writeProperty ::
    "writer \<Rightarrow> (Server \<Rightarrow> Server) \<Rightarrow> wait \<Rightarrow> ip \<Rightarrow> ObjectId \<Rightarrow> u32 \<Rightarrow> u8 \<Rightarrow> u8 \<Rightarrow> go_value \<Rightarrow> Server \<Rightarrow>
     (unit result \<times> Server) option" where
  "writeProperty wr env w deviceAddress object propertyId tag priority val s =
     (if empty_ip deviceAddress then Some (Inl nil_device, s)
      else confirmed_call wr env w ConfirmedServiceWriteProperty (write_payload object propertyId tag priority val)
             deviceAddress done_answer s)"

definition Server_WriteProperty ::
    "writer \<Rightarrow> (Server \<Rightarrow> Server) \<Rightarrow> wait \<Rightarrow> ip \<Rightarrow> u16 \<Rightarrow> u16 \<Rightarrow> u32 \<Rightarrow> u8 \<Rightarrow> u8 \<Rightarrow> go_value \<Rightarrow> Server \<Rightarrow>
     (unit result \<times> Server) option" where
  "Server_WriteProperty wr env w deviceAddress objectType objectInstance propertyId tag priority val s =
     writeProperty wr env w deviceAddress (ObjectId_zero\<lparr>oid_Type := objectType, oid_Instance := objectInstance\<rparr>)
       propertyId tag priority val s"

definition WriteObjectProperty ::
    "writer \<Rightarrow> (Server \<Rightarrow> Server) \<Rightarrow> wait \<Rightarrow> ip \<Rightarrow> ObjectId \<Rightarrow> u32 \<Rightarrow> u8 \<Rightarrow> u8 \<Rightarrow> go_value \<Rightarrow> Server \<Rightarrow>
     (unit result \<times> Server) option" where
  "WriteObjectProperty wr env w deviceAddress object propertyId tag priority val s =
     (case check_object object of
        Inl e \<Rightarrow> Some (Inl e, s)
      | Inr _ \<Rightarrow> writeProperty wr env w deviceAddress object propertyId tag priority val s)"

section \<open>ReadPropertyMultiple and WritePropertyMultiple\<close>

type_synonym read_spec = "ObjectId \<times> PropertyReference list"

definition rpm_payload :: "read_spec list \<Rightarrow> request_data" where
  "rpm_payload specs = ReqReadPropertyMultiple
     (map (\<lambda>(object, properties). \<lparr>ras_ObjectId = Some object, ras_Properties = properties\<rparr>) specs)"

definition rpm_answer :: "Request \<Rightarrow> ReadAccessResult list result" where
  "rpm_answer r =
     (if Successful r then
        (case a_ResponseData (r_Apdu r) of
           Some (RespReadPropertyMultiple rs) \<Rightarrow> Inr rs
         | _ \<Rightarrow> Inl (Err ''could not parse response''))
      else Inl (request_error r))"

definition ReadPropertyMultiple ::
    "writer \<Rightarrow> (Server \<Rightarrow> Server) \<Rightarrow> wait \<Rightarrow> ip \<Rightarrow> read_spec list \<Rightarrow> Server \<Rightarrow>
     (ReadAccessResult list result \<times> Server) option" where
  "ReadPropertyMultiple wr env w address specs s =
     (if empty_ip address then Some (Inl nil_device, s)
      else if specs = [] then Some (Inl (Err ''received no read access specifications''), s)
      else confirmed_call wr env w ConfirmedServiceReadPropertyMultiple (rpm_payload specs) address rpm_answer s)"

record WriteAccessSpecProperty =
  wsp_ID :: u32
  wsp_Index :: u32
  wsp_HasIndex :: bool
  wsp_Tag :: u8
  wsp_Value :: go_value
  wsp_Priority :: u8
  wsp_HasPriority :: bool

type_synonym write_spec = "ObjectId \<times> WriteAccessSpecProperty list"

definition property_write :: "WriteAccessSpecProperty \<Rightarrow> PropertyWrite" where
  "property_write p =
     \<lparr>pw_ID = wsp_ID p, pw_Index = wsp_Index p, pw_HasIndex = wsp_HasIndex p,
      pw_Values = [Some \<lparr>pv_Type = wsp_Tag p, pv_Value = wsp_Value p\<rparr>],
      pw_Priority = wsp_Priority p, pw_HasPriority = wsp_HasPriority p\<rparr>"

definition wpm_payload :: "write_spec list \<Rightarrow> request_data" where
  "wpm_payload specs = ReqWritePropertyMultiple
     (map (\<lambda>(object, properties). \<lparr>was_ObjectId = Some object, was_Properties = map property_write properties\<rparr>) specs)"

text \<open>The outcome is nil, a plain error or a \<^verbatim>\<open>*WritePropertyMultipleError\<close>.\<close>

datatype wpm_outcome = WpmOk | WpmFailed WritePropertyMultipleError | WpmError go_error

definition wpm_answer :: "Request \<Rightarrow> wpm_outcome" where
  "wpm_answer r =
     (if Successful r then WpmOk
      else if a_Errored (r_Apdu r) then
        (case a_ResponseData (r_Apdu r) of
           Some (RespWpmError e) \<Rightarrow> WpmFailed e
         | _ \<Rightarrow> WpmError (Err (ErrorMessage r)))
      else WpmError (request_error r))"

definition WritePropertyMultiple ::
    "writer \<Rightarrow> (Server \<Rightarrow> Server) \<Rightarrow> wait \<Rightarrow> ip \<Rightarrow> write_spec list \<Rightarrow> Server \<Rightarrow> (wpm_outcome \<times> Server) option" where
  "WritePropertyMultiple wr env w address specs s =
     (if empty_ip address then Some (WpmError nil_device, s)
      else if specs = [] then Some (WpmError (Err ''received no write access specifications''), s)
      else map_option (\<lambda>(r, s). (case r of Inl e \<Rightarrow> WpmError e | Inr x \<Rightarrow> x, s))
        (confirmed_call wr env w ConfirmedServiceWritePropertyMultiple (wpm_payload specs) address
           (\<lambda>r. Inr (wpm_answer r)) s))"

section \<open>SubscribeCOV\<close>

record CovOptions =
  co_ProcessID :: u32
  co_Confirmed :: bool
  co_LifetimeSeconds :: u32
  co_Indefinite :: bool
  co_Cancel :: bool

definition newSubscribeCovPayload :: "ObjectId \<Rightarrow> CovOptions \<Rightarrow> SubscribeCov" where
  "newSubscribeCovPayload object opts =
     (let payload = SubscribeCov_zero\<lparr>sc_ObjectId := Some object, sc_ProcessIdentifier := ucast (co_ProcessID opts),
                      sc_ProcessIdentifier32 := co_ProcessID opts, sc_Cancel := co_Cancel opts\<rparr> in
      if \<not> co_Cancel opts
      then payload\<lparr>sc_IssueConfirmed := co_Confirmed opts, sc_HasLifetime := True,
                   sc_Lifetime := (if \<not> co_Indefinite opts then co_LifetimeSeconds opts else 0)\<rparr>
      else payload)"

record CovNotifier =
  cvn_subscriptionId :: u32
  cvn_handler :: chan
  cvn_deviceIP :: ip

text \<open>
  The subscription's channel is installed before the request is sent and taken out again unless the
  call succeeds with a new subscription.
\<close>

definition subscribeCov ::
    "writer \<Rightarrow> (Server \<Rightarrow> Server) \<Rightarrow> wait \<Rightarrow> ip \<Rightarrow> ObjectId \<Rightarrow> CovOptions \<Rightarrow> Server \<Rightarrow>
     (CovNotifier option result \<times> Server) option" where
  "subscribeCov wr env w deviceIP object opts s =
     (if empty_ip deviceIP then Some (Inl nil_device, s)
      else
        (let (h, s) = make_chan 128 s;
             s = SetCovHandlerWithProcessID deviceIP (co_ProcessID opts) h s;
             notifier = \<lparr>cvn_subscriptionId = co_ProcessID opts, cvn_handler = h, cvn_deviceIP = deviceIP\<rparr>
         in map_option (\<lambda>(res, s). case res of
                Inr (Some n) \<Rightarrow> (Inr (Some n), s)
              | _ \<Rightarrow> (res, RemoveCovHandlerWithProcessID deviceIP (co_ProcessID opts) s))
              (confirmed_call wr env w ConfirmedServiceSubscribeCov (ReqSubscribeCov (newSubscribeCovPayload object opts))
                 deviceIP (\<lambda>r. if Successful r then Inr (if co_Cancel opts then None else Some notifier)
                               else Inl (request_error r)) s)))"

definition legacy_options :: "u32 \<Rightarrow> bool \<Rightarrow> CovOptions" where
  "legacy_options processID cancel =
     \<lparr>co_ProcessID = processID, co_Confirmed = True, co_LifetimeSeconds = 0, co_Indefinite = True, co_Cancel = cancel\<rparr>"

definition SubscribeCovWithProcessID ::
    "writer \<Rightarrow> (Server \<Rightarrow> Server) \<Rightarrow> wait \<Rightarrow> ip \<Rightarrow> u16 \<Rightarrow> u16 \<Rightarrow> u32 \<Rightarrow> bool \<Rightarrow> Server \<Rightarrow>
     (CovNotifier option result \<times> Server) option" where
  "SubscribeCovWithProcessID wr env w deviceIP objectType objectInstance processID cancel s =
     subscribeCov wr env w deviceIP (ObjectId_zero\<lparr>oid_Type := objectType, oid_Instance := objectInstance\<rparr>)
       (legacy_options processID cancel) s"

definition Server_SubscribeCov ::
    "writer \<Rightarrow> (Server \<Rightarrow> Server) \<Rightarrow> wait \<Rightarrow> ip \<Rightarrow> u16 \<Rightarrow> u16 \<Rightarrow> u8 \<Rightarrow> bool \<Rightarrow> Server \<Rightarrow>
     (CovNotifier option result \<times> Server) option" where
  "Server_SubscribeCov wr env w deviceIP objectType objectInstance processID cancel s =
     SubscribeCovWithProcessID wr env w deviceIP objectType objectInstance (ucast processID) cancel s"

definition SubscribeCovWithOptions ::
    "writer \<Rightarrow> (Server \<Rightarrow> Server) \<Rightarrow> wait \<Rightarrow> ip \<Rightarrow> ObjectId \<Rightarrow> CovOptions \<Rightarrow> Server \<Rightarrow>
     (CovNotifier option result \<times> Server) option" where
  "SubscribeCovWithOptions wr env w deviceIP object opts s =
     (case check_object object of
        Inl e \<Rightarrow> Some (Inl e, s)
      | Inr _ \<Rightarrow> subscribeCov wr env w deviceIP object opts s)"

definition SubscribeCovObject ::
    "writer \<Rightarrow> (Server \<Rightarrow> Server) \<Rightarrow> wait \<Rightarrow> ip \<Rightarrow> ObjectId \<Rightarrow> u32 \<Rightarrow> bool \<Rightarrow> Server \<Rightarrow>
     (CovNotifier option result \<times> Server) option" where
  "SubscribeCovObject wr env w deviceIP object processID cancel s =
     SubscribeCovWithOptions wr env w deviceIP object (legacy_options processID cancel) s"

text \<open>The acknowledgement of a confirmed notification.\<close>

definition ack_packet :: "u8 \<Rightarrow> Request" where
  "ack_packet invokeID =
     Request_Reset\<lparr>
       r_Apdu := (r_Apdu Request_Reset)\<lparr>a_ServiceChoice := ConfirmedServiceCovNotification, a_RequestData := None,
                    a_PduType := PduTypeSimpleAck, a_InvokeID := invokeID\<rparr>,
       r_Npci := Npci_Reset\<lparr>n_ExpectingReply := False, n_IsConfirmed := True\<rparr>,
       r_Header := (r_Header Request_Reset)\<lparr>h_Function := BvlcFunctionOriginalUnicastNpdu\<rparr>\<rparr>"

definition sendAck :: "writer \<Rightarrow> u8 \<Rightarrow> UDPAddr option \<Rightarrow> Server \<Rightarrow> unit result \<times> Server" where
  "sendAck wr invokeID sender s =
     (case Request_MarshalBinary (ack_packet invokeID) of
        Inl e \<Rightarrow> (Inl e, s)
      | Inr data \<Rightarrow> Server_Send wr data sender s)"

text \<open>One turn of the loop \<^verbatim>\<open>startListening\<close>: what it puts on the notifier's channels.\<close>

datatype notice = NoticeData CovNotification | NoticeError go_error

definition listen_turn :: "writer \<Rightarrow> UDPAddr option \<Rightarrow> Request \<Rightarrow> Server \<Rightarrow> notice \<times> Server" where
  "listen_turn wr sender data s =
     (if Successful data then
        (case cov_data data of
           Some val \<Rightarrow>
             if a_PduType (r_Apdu data) = PduTypeConfirmedServiceRequest then
               (case sendAck wr (a_InvokeID (r_Apdu data)) sender s of
                  (Inl e, s) \<Rightarrow> (NoticeError e, s)
                | (Inr _, s) \<Rightarrow> (NoticeData val, s))
             else (NoticeData val, s)
         | None \<Rightarrow> (NoticeError (Err ''error decoding response''), s))
      else (NoticeError (request_error data), s))"

section \<open>Broadcasts\<close>

definition SendWhoIsBroadcast :: "writer \<Rightarrow> Server \<Rightarrow> ClientRequest result \<times> Server" where
  "SendWhoIsBroadcast wr s =
     (let (r, s) = startUnconfirmedService 8 None NewRequest s;
          (res, r, s) = Broadcast wr UnconfirmedServiceIAm r s
      in case res of Inl e \<Rightarrow> (Inl e, Release r s) | Inr _ \<Rightarrow> (Inr r, s))"

text \<open>What the collecting goroutine does with one response.\<close>

definition collect_device :: "Request \<Rightarrow> Device option" where
  "collect_device r =
     (if Successful r then (case a_ResponseData (r_Apdu r) of Some (RespDevice d) \<Rightarrow> Some d | _ \<Rightarrow> None) else None)"

definition Server_WhoHas :: "writer \<Rightarrow> WhoHas \<Rightarrow> Server \<Rightarrow> ClientRequest result \<times> Server" where
  "Server_WhoHas wr query s =
     (if (wh_ObjectId query \<noteq> None) = (wh_ObjectName query \<noteq> [])
      then (Inl (Err ''exactly one of ObjectId or ObjectName must be set''), s)
      else
        (let (r, s) = startUnconfirmedService 7 (Some (ReqWhoHas query)) NewRequest s;
             (res, r, s) = Broadcast wr UnconfirmedServiceIHave r s
         in case res of Inl e \<Rightarrow> (Inl e, Release r s) | Inr _ \<Rightarrow> (Inr r, s)))"

record IHaveResult =
  ihr_Device :: bytes
  ihr_DeviceId :: ObjectId
  ihr_ObjectId :: ObjectId
  ihr_ObjectName :: bytes

definition collect_ihave :: "Request \<Rightarrow> IHaveResult option" where
  "collect_ihave r =
     (if Successful r then
        (case a_ResponseData (r_Apdu r) of
           Some (RespIHave v) \<Rightarrow> Some \<lparr>ihr_Device = a_SenderIP (r_Apdu r), ihr_DeviceId = ih_DeviceId v,
             ihr_ObjectId = ih_ObjectId v, ihr_ObjectName = ih_ObjectName v\<rparr>
         | _ \<Rightarrow> None)
      else None)"

text \<open>The calendar fields of a Go time.\<close>

record go_time =
  gt_Year :: int
  gt_Month :: int
  gt_Day :: int
  gt_Weekday :: int   \<comment> \<open>Sunday is zero\<close>
  gt_Hour :: int
  gt_Minute :: int
  gt_Second :: int
  gt_Nanosecond :: int

definition bacnetDateTime :: "go_time \<Rightarrow> Date \<times> Time" where
  "bacnetDateTime t =
     (\<lparr>d_Year = word_of_int (gt_Year t), d_Month = word_of_int (gt_Month t), d_Day = word_of_int (gt_Day t),
       d_Weekday = (if gt_Weekday t = 0 then 7 else word_of_int (gt_Weekday t))\<rparr>,
      \<lparr>t_Hour = word_of_int (gt_Hour t), t_Min = word_of_int (gt_Minute t), t_Sec = word_of_int (gt_Second t),
       t_Hundredths = word_of_int (gt_Nanosecond t div 10000000)\<rparr>)"

definition sendTimeSync :: "writer \<Rightarrow> u8 \<Rightarrow> go_time \<Rightarrow> Server \<Rightarrow> unit result \<times> Server" where
  "sendTimeSync wr choice t s =
     (let (date, clock) = bacnetDateTime t;
          (r, s) = startUnconfirmedService choice (Some (ReqTimeSync \<lparr>ts_Date = date, ts_Time = clock\<rparr>)) NewRequest s
      in case Request_MarshalBinary (cr_packet r) of
           Inl e \<Rightarrow> (Inl e, Release r s)
         | Inr data \<Rightarrow> (let (res, s) = Server_Send wr data (BroadcastAddr s) s in (res, Release r s)))"

definition SendTimeSync :: "writer \<Rightarrow> go_time \<Rightarrow> Server \<Rightarrow> unit result \<times> Server" where
  "SendTimeSync wr t s = sendTimeSync wr 6 t s"

definition SendUTCTimeSync :: "writer \<Rightarrow> (go_time \<Rightarrow> go_time) \<Rightarrow> go_time \<Rightarrow> Server \<Rightarrow> unit result \<times> Server" where
  "SendUTCTimeSync wr utc t s = sendTimeSync wr 9 (utc t) s"

section \<open>util.go\<close>

definition getSignedLen :: "int \<Rightarrow> u32" where
  "getSignedLen val =
     (if val \<le> 127 \<and> val \<ge> - 32768 then 1
      else if val \<le> 32767 \<and> val \<ge> - 32768 then 2
      else if val \<le> 8388607 \<and> val \<ge> - 8388607 then 3 else 4)"

definition getUnsignedLen :: "u64 \<Rightarrow> u32" where
  "getUnsignedLen val =
     (if val \<le> 255 then 1 else if val \<le> 65535 then 2 else if val \<le> 16777215 then 3 else 4)"

section \<open>Calls leave nothing behind\<close>

text \<open>Fewer handlers and fewer reserved identifiers, and none that are new or different.\<close>

definition shrinks :: "Server \<Rightarrow> Server \<Rightarrow> bool" where
  "shrinks s' s \<longleftrightarrow> cHandlers s' \<subseteq>\<^sub>m cHandlers s
     \<and> (\<forall>a k. tx_reserved (srv_tx s') a k \<longrightarrow> tx_reserved (srv_tx s) a k)"

lemma shrinks_refl [simp]: "shrinks s s"
  by (simp add: shrinks_def)

lemma shrinks_trans [trans]: "shrinks s t \<Longrightarrow> shrinks t u \<Longrightarrow> shrinks s u"
  by (auto simp: shrinks_def intro: map_le_trans)

lemma shrinks_tables: "tables s = tables t \<Longrightarrow> shrinks s u \<longleftrightarrow> shrinks t u"
  by (auto simp: shrinks_def dest: tables_eqD)

lemma ReleaseInvokeID_le: "tx_reserved (ReleaseInvokeID st a k) b j \<Longrightarrow> tx_reserved st b j"
  by (auto simp: ReleaseInvokeID_def tx_reserved_def split: option.splits if_splits)

lemma taken_shrinks: "shrinks (taken a k s) s"
  by (auto simp: shrinks_def taken_def map_le_def dest: ReleaseInvokeID_le)

lemma handle_shrinks: "shrinks (handle data a s) s"
proof (cases a)
  case (Some b)
  with handle_tables [of data b s] taken_shrinks show ?thesis by (metis shrinks_refl shrinks_tables)
qed (simp add: handle_def isLocalSender_def)

lemma map_le_without: "f \<subseteq>\<^sub>m g(key \<mapsto> h) \<Longrightarrow> f(key := None) \<subseteq>\<^sub>m g"
  by (auto simp: map_le_def dom_def split: if_splits)

lemma tx_reserve_reserved: "tx_reserved (tx_reserve st a k) b j \<longleftrightarrow> tx_reserved st b j \<or> (b = a \<and> j = k)"
  by (auto simp: tx_reserve_def tx_reserved_def genTxId_inj)

lemma drain_core [simp]: "cHandlers (drain h s) = cHandlers s" "srv_tx (drain h s) = srv_tx s"
  by (simp_all add: drain_def split: option.splits)

lemma await_core: "await w ch s = Some (ans, s') \<Longrightarrow> cHandlers s' = cHandlers s \<and> srv_tx s' = srv_tx s"
  by (auto simp: await_def receive_from_def split: wait.splits option.splits list.splits)

lemma Server_Send_core: "Server_Send wr b d s = (res, s') \<Longrightarrow> cHandlers s' = cHandlers s \<and> srv_tx s' = srv_tx s"
  by (auto simp: Server_Send_def split: option.splits if_splits)

lemma Release_idle:
  "cr_unconfirmedToken r = 0 \<Longrightarrow> InvokeID r = 0 \<or> cr_invokeAddress r = None \<Longrightarrow>
     cHandlers (Release r s) = cHandlers s \<and> srv_tx (Release r s) = srv_tx s"
  by (auto simp: Release_def cleanupTransaction_def releaseQueuedResponses_def Let_def)

lemma cleanup_registered:
  "cr_unconfirmedToken r = 0 \<Longrightarrow> InvokeID r \<noteq> 0 \<Longrightarrow> cr_invokeAddress r = Some x \<Longrightarrow> cr_server r \<Longrightarrow>
     cleanupTransaction r s = (r\<lparr>cr_server := False, cr_invokeAddress := None\<rparr>, taken (IP_String x) (InvokeID r) s)"
  by (cases r) (simp add: cleanupTransaction_def RemoveConfirmedHandler_def taken_def InvokeID_def Let_def)

lemma cleanup_unsent:
  "cr_unconfirmedToken r = 0 \<Longrightarrow> InvokeID r \<noteq> 0 \<Longrightarrow> cr_invokeAddress r = Some x \<Longrightarrow> \<not> cr_server r \<Longrightarrow>
     cleanupTransaction r s = (r\<lparr>cr_server := False, cr_invokeAddress := None\<rparr>,
       s\<lparr>srv_tx := ReleaseInvokeID (srv_tx s) (Some (IP_String x)) (InvokeID r)\<rparr>)"
  by (cases r) (simp add: cleanupTransaction_def InvokeID_def Let_def)

lemma Release_registered:
  "cr_unconfirmedToken r = 0 \<Longrightarrow> InvokeID r \<noteq> 0 \<Longrightarrow> cr_invokeAddress r = Some x \<Longrightarrow> cr_server r \<Longrightarrow>
     cHandlers (Release r s) = (cHandlers s)(genTxId (IP_String x) (InvokeID r) := None)
     \<and> srv_tx (Release r s) = ReleaseInvokeID (srv_tx s) (Some (IP_String x)) (InvokeID r)"
  by (simp add: Release_def cleanup_registered releaseQueuedResponses_def taken_def)

lemma InvokeID_update [simp]:
  "InvokeID (r\<lparr>cr_server := a\<rparr>) = InvokeID r" "InvokeID (r\<lparr>cr_invokeAddress := b\<rparr>) = InvokeID r"
  by (simp_all add: InvokeID_def)

lemma start_fields:
  assumes "startConfirmedService choice data (Some x) NewRequest s = (r, s1)" "x \<noteq> []"
  shows "cr_invokeAddress r = Some x" "\<not> cr_server r" "cr_unconfirmedToken r = 0"
    "cHandlers s1 = cHandlers s" "(InvokeID r, srv_tx s1) = GetInvokeID (srv_tx s) (Some (IP_String x))"
    "cr_packet r = SetConfirmedService choice data (InvokeID r)"
  using assms
  by (auto simp: startConfirmedService_def Release_def cleanupTransaction_def releaseQueuedResponses_def NewRequest_def
      copy_ip_def make_chan_def InvokeID_def Let_def split: prod.splits)

lemma TryGetInvokeID_reserves: "TryGetInvokeID st (Some a) = Inr (k, tx) \<Longrightarrow> tx = tx_reserve st a k"
  unfolding TryGetInvokeID_def option.case by (drule invoke_loop_Inr) blast

lemma GetInvokeID_zero: "(0, tx) = GetInvokeID st (Some a) \<Longrightarrow> tx = st"
  by (auto simp: GetInvokeID_def dest: TryGetInvokeID_Inr(1) split: sum.splits)

lemma GetInvokeID_nonzero: "(k, tx) = GetInvokeID st (Some a) \<Longrightarrow> k \<noteq> 0 \<Longrightarrow> tx = tx_reserve st a k \<and> \<not> tx_reserved st a k"
  by (auto simp: GetInvokeID_def dest: TryGetInvokeID_reserves TryGetInvokeID_Inr(2) split: sum.splits)

lemma Send_cases [consumes 4, case_names exhausted failed sent]:
  assumes "cr_invokeAddress r = Some x" "\<not> cr_server r" "cr_unconfirmedToken r = 0"
    and "Send wr (Some x) r s = (res, r2, s2)"
  obtains "res = Inl ErrInvokeIDExhausted" "InvokeID r = 0" "r2 = r" "s2 = s"
  | e where "res = Inl e" "InvokeID r \<noteq> 0" "cr_invokeAddress r2 = None" "cr_unconfirmedToken r2 = 0"
      "cHandlers s2 = cHandlers s \<or> cHandlers s2 = (cHandlers s)(genTxId (IP_String x) (InvokeID r) := None)"
      "srv_tx s2 = ReleaseInvokeID (srv_tx s) (Some (IP_String x)) (InvokeID r)"
  | h where "res = Inr ()" "InvokeID r \<noteq> 0" "r2 = r\<lparr>cr_server := True\<rparr>"
      "cHandlers s2 = (cHandlers s)(genTxId (IP_String x) (InvokeID r) \<mapsto> h)" "srv_tx s2 = srv_tx s"
proof (cases "InvokeID r = 0")
  case True
  with assms(4) show ?thesis by (intro that(1)) (auto simp: Send_def)
next
  case k: False
  show ?thesis
  proof (cases "Request_MarshalBinary (cr_packet r)")
    case (Inl e)
    with assms k show ?thesis by (intro that(2)) (auto simp: Send_def cleanup_unsent)
  next
    case (Inr data)
    let ?h = "\<lparr>handler = cr_tx r, expectedService = a_ServiceChoice (r_Apdu (cr_packet r)), matchService = True\<rparr>"
    let ?s = "s\<lparr>cHandlers := (cHandlers s)(genTxId (IP_String x) (InvokeID r) \<mapsto> ?h)\<rparr>"
    obtain o1 s3 where o1: "Server_Send wr data (Some (getUdpAddr (Some x) (BroadcastPort s))) ?s = (o1, s3)" by fastforce
    note core = Server_Send_core [OF o1]
    from assms(4) Inr k o1 have e: "(res, r2, s2) = (case o1 of
        Inl e \<Rightarrow> (Inl e, cleanupTransaction (r\<lparr>cr_server := True\<rparr>) s3) | Inr _ \<Rightarrow> (Inr (), r\<lparr>cr_server := True\<rparr>, s3))"
      by (simp add: Send_def setConfirmedHandlerForService_def Let_def)
    show ?thesis
    proof (cases o1)
      case (Inl err)
      with e core assms k show ?thesis by (intro that(2)) (auto simp: cleanup_registered taken_def)
    next
      case (Inr u)
      with e core k show ?thesis by (intro that(3)) auto
    qed
  qed
qed

text \<open>What a waiting call relies on: the rest of the program only delivers responses.\<close>

locale background =
  fixes env :: "Server \<Rightarrow> Server"
  assumes env_shrinks: "shrinks (env s) s"
begin

text \<open>A registered request and its clean-up cancel out, whatever the environment does in between.\<close>

lemma register_and_release:
  assumes "shrinks s2 (s\<lparr>cHandlers := (cHandlers s)(genTxId a k \<mapsto> h), srv_tx := tx_reserve (srv_tx s) a k\<rparr>)" "k \<noteq> 0"
  shows "shrinks (taken a k (env s2)) s"
proof -
  have "shrinks (env s2) (s\<lparr>cHandlers := (cHandlers s)(genTxId a k \<mapsto> h), srv_tx := tx_reserve (srv_tx s) a k\<rparr>)"
    using env_shrinks assms(1) by (rule shrinks_trans)
  then show ?thesis
    unfolding shrinks_def taken_def
    by (simp add: ReleaseInvokeID_reserved [OF assms(2)] tx_reserve_reserved) (blast intro: map_le_without)
qed

lemma confirmed_call_no_leak:
  assumes "confirmed_call wr env w choice data (Some x) finish s = Some (res, s')" "x \<noteq> []"
  shows "shrinks s' s"
proof -
  let ?a = "IP_String x"
  obtain r s1 where st: "startConfirmedService choice (Some data) (Some x) NewRequest s = (r, s1)" by fastforce
  obtain o1 r2 s2 where se: "Send wr (Some x) r s1 = (o1, r2, s2)" by (metis surj_pair)
  note r = start_fields [OF st assms(2)]
  from assms(1) st se have call: "confirmed_call wr env w choice data (Some x) finish s
     = (case o1 of Inl e \<Rightarrow> Some (Inl e, Release r2 s2)
        | Inr _ \<Rightarrow> (case await w (cr_tx r2) (env s2) of None \<Rightarrow> None
          | Some (answer, s) \<Rightarrow> Some (bind_res answer finish, Release r2 s)))"
    by (simp add: confirmed_call_def)
  from r(1,2,3) se show ?thesis
  proof (cases rule: Send_cases)
    case exhausted
    with call assms(1) have "s' = Release r s1" by simp
    moreover have "srv_tx s1 = srv_tx s" using exhausted r(5) GetInvokeID_zero by simp
    ultimately show ?thesis using exhausted r(3,4) by (simp add: shrinks_def Release_idle)
  next
    case (failed e)
    with call assms(1) have "s' = Release r2 s2" by simp
    moreover have "srv_tx s1 = tx_reserve (srv_tx s) ?a (InvokeID r)" using GetInvokeID_nonzero [OF r(5)] failed(2) by simp
    ultimately show ?thesis
      using failed r(4) by (auto simp: shrinks_def Release_idle ReleaseInvokeID_reserved tx_reserve_reserved map_le_def
          split: if_splits)
  next
    case (sent h)
    with call assms(1) obtain ans s3 where s3: "await w (cr_tx r2) (env s2) = Some (ans, s3)" "s' = Release r2 s3"
      by (auto split: option.splits)
    have s2: "shrinks s2 (s\<lparr>cHandlers := (cHandlers s)(genTxId ?a (InvokeID r) \<mapsto> h),
        srv_tx := tx_reserve (srv_tx s) ?a (InvokeID r)\<rparr>)"
      using sent r(4) GetInvokeID_nonzero [OF r(5)] by (simp add: shrinks_def)
    have "shrinks (taken ?a (InvokeID r) (env s2)) s" by (rule register_and_release [OF s2 sent(2)])
    then show ?thesis
      using s3 sent r(1,3) await_core [OF s3(1)] by (simp add: shrinks_def Release_registered taken_def)
  qed
qed

end

definition received_all :: "(bytes \<times> UDPAddr) list \<Rightarrow> Server \<Rightarrow> Server" where
  "received_all ds s = fold (\<lambda>(data, a) s. handle data (Some a) s) ds s"

lemma received_all_shrinks: "shrinks (received_all ds s) s"
proof (induction ds arbitrary: s)
  case (Cons d ds)
  have "shrinks (received_all ds (handle (fst d) (Some (snd d)) s)) s"
    using Cons handle_shrinks by (rule shrinks_trans)
  then show ?case by (simp add: received_all_def case_prod_unfold)
qed (simp add: received_all_def)

interpretation rx: background "received_all ds" for ds
  by unfold_locales (rule received_all_shrinks)

section \<open>A call that is answered\<close>

lemma receive_from_head:
  "srv_chans s h = Some c \<Longrightarrow> ch_queue c = r # rs \<Longrightarrow> \<exists>s'. receive_from h s = Some (r, s') \<and> srv_sent s' = srv_sent s"
  by (simp add: receive_from_def)

lemma srv_sent_Release [simp]: "srv_sent (Release r s) = srv_sent s"
  by (auto simp: Release_def cleanupTransaction_def releaseQueuedResponses_def drain_def RemoveConfirmedHandler_def
      removeUnconfirmedHandler_def Let_def split: option.splits)

lemma confirmed_call_answered:
  assumes "GetInvokeID (srv_tx s) (Some (IP_String x)) = (k, tx)" "k \<noteq> 0" "x \<noteq> []"
    and "Request_MarshalBinary (SetConfirmedService choice (Some data) k) = Inr b"
    and "UnicastConn s \<noteq> None" "wr b (getUdpAddr (Some x) (BroadcastPort s)) = None"
    and "\<not> isLocalSender (Some a) s" "ua_IP a = Some x"
    and "ParseRequest d (Some (sender_of a)) = Inr resp" "response_for k resp"
    and "a_PduType (r_Apdu resp) \<in> {PduTypeSimpleAck, PduTypeComplexAck, PduTypeError} \<longrightarrow> a_ServiceChoice (r_Apdu resp) = choice"
  shows "\<exists>s'. confirmed_call wr (handle d (Some a)) WData choice data (Some x) finish s = Some (finish resp, s')
    \<and> srv_sent s' = srv_sent s @ [(b, getUdpAddr (Some x) (BroadcastPort s))]"
proof -
  let ?key = "genTxId (IP_String x) k" and ?s0 = "drain nil_chan s" and ?ch = "srv_next s"
  let ?h = "\<lparr>handler = ?ch, expectedService = choice, matchService = True\<rparr>"
  let ?r = "NewRequest\<lparr>cr_packet := SetConfirmedService choice (Some data) k, cr_invokeAddress := Some x, cr_tx := ?ch\<rparr>"
  let ?s1 = "?s0\<lparr>srv_tx := tx, srv_chans := (srv_chans ?s0)(?ch \<mapsto> \<lparr>ch_cap = 1, ch_queue = []\<rparr>), srv_next := ?ch + 1\<rparr>"
  let ?s2 = "?s1\<lparr>cHandlers := (cHandlers s)(?key \<mapsto> ?h), srv_sent := srv_sent s @ [(b, getUdpAddr (Some x) (BroadcastPort s))]\<rparr>"
  have dr: "srv_next ?s0 = srv_next s" "BroadcastPort ?s0 = BroadcastPort s" "UnicastConn ?s0 = UnicastConn s"
    "srv_sent ?s0 = srv_sent s" "isLocalSender (Some a) ?s0 = isLocalSender (Some a) s"
    by (simp_all add: drain_def isLocalSender_def split: option.splits)
  have st: "startConfirmedService choice (Some data) (Some x) NewRequest s = (?r, ?s1)"
    using assms(1,3) dr
    by (simp add: startConfirmedService_def Release_def cleanupTransaction_def releaseQueuedResponses_def NewRequest_def
        copy_ip_def make_chan_def InvokeID_def Let_def Request_Reset_def Apdu_Reset_def)
  have se: "Send wr (Some x) ?r ?s1 = (Inr (), ?r\<lparr>cr_server := True\<rparr>, ?s2)"
    using assms(2,4,5,6) dr
    by (simp add: Send_def InvokeID_def setConfirmedHandlerForService_def Server_Send_def Let_def)
  have h: "handle d (Some a) ?s2 = (taken (IP_String x) k ?s2)\<lparr>srv_chans := (srv_chans ?s2)(?ch \<mapsto> \<lparr>ch_cap = 1, ch_queue = [resp]\<rparr>)\<rparr>"
  proof -
    have "\<not> isLocalSender (Some a) ?s2" using assms(7) dr(5) by (simp add: isLocalSender_def split: option.splits)
    moreover have "\<not> service_mismatch ?h resp" using assms(11) by (auto simp: service_mismatch_def)
    ultimately show ?thesis
      using handle_response [of a ?s2 d resp k x ?h "\<lparr>ch_cap = 1, ch_queue = []\<rparr>"] assms(8-10) by simp
  qed
  have "srv_chans (handle d (Some a) ?s2) ?ch = Some \<lparr>ch_cap = 1, ch_queue = [resp]\<rparr>" unfolding h by simp
  then obtain s4 where s4: "receive_from ?ch (handle d (Some a) ?s2) = Some (resp, s4)"
    and sent: "srv_sent s4 = srv_sent (handle d (Some a) ?s2)" using receive_from_head by fastforce
  have tx: "cr_tx (?r\<lparr>cr_server := True\<rparr>) = ?ch" by simp
  show ?thesis
    unfolding confirmed_call_def st se Let_def prod.case sum.case await_def wait.case tx s4 option.map option.case
    using sent unfolding h by (simp add: taken_def)
qed

section \<open>Only a matching response completes a call\<close>

text \<open>Every channel a table refers to was made before: the next one is fresh.\<close>

definition channels_below :: "Server \<Rightarrow> bool" where
  "channels_below s \<longleftrightarrow> (\<forall>key h. cHandlers s key = Some h \<longrightarrow> handler h < srv_next s)
     \<and> (\<forall>service hs. ucHandlers s service = Some hs \<longrightarrow> (\<forall>h \<in> snd ` set hs. h < srv_next s))
     \<and> (\<forall>key h. covHandlers s key = Some h \<longrightarrow> h < srv_next s)"

text \<open>A datagram that answers request \<open>k\<close> to the peer \<open>a\<close> for the service \<open>choice\<close>, and the packet it holds.\<close>

definition answers :: "string \<Rightarrow> u8 \<Rightarrow> u8 \<Rightarrow> bytes \<times> UDPAddr \<Rightarrow> Request \<Rightarrow> bool" where
  "answers a k choice d resp \<longleftrightarrow> (\<exists>y. ua_IP (snd d) = Some y \<and> IP_String y = a)
     \<and> ParseRequest (fst d) (Some (sender_of (snd d))) = Inr resp \<and> a_InvokeID (r_Apdu resp) = k
     \<and> (a_PduType (r_Apdu resp) \<in> {PduTypeSimpleAck, PduTypeComplexAck, PduTypeError} \<longrightarrow> a_ServiceChoice (r_Apdu resp) = choice)"

text \<open>The channel \<open>ch\<close> belongs to that request alone, and holds only answers to it out of \<open>ds\<close>.\<close>

definition owned :: "string \<Rightarrow> u8 \<Rightarrow> u8 \<Rightarrow> chan \<Rightarrow> Server \<Rightarrow> bool" where
  "owned a k choice ch s \<longleftrightarrow>
     (\<forall>key h. cHandlers s key = Some h \<and> handler h = ch \<longrightarrow> key = genTxId a k \<and> expectedService h = choice \<and> matchService h)
     \<and> (\<forall>service. ch \<notin> snd ` set (uc_list service s)) \<and> (\<forall>key. covHandlers s key \<noteq> Some ch)"

definition awaits :: "string \<Rightarrow> u8 \<Rightarrow> u8 \<Rightarrow> chan \<Rightarrow> (bytes \<times> UDPAddr) set \<Rightarrow> Server \<Rightarrow> bool" where
  "awaits a k choice ch ds s \<longleftrightarrow> owned a k choice ch s
     \<and> (\<forall>c. srv_chans s ch = Some c \<longrightarrow> (\<forall>r \<in> set (ch_queue c). \<exists>d \<in> ds. answers a k choice d r))"

lemma uc_list_update [simp]:
  "uc_list service (s\<lparr>cHandlers := x\<rparr>) = uc_list service s" "uc_list service (s\<lparr>srv_tx := y\<rparr>) = uc_list service s"
  by (simp_all add: uc_list_def)

lemma owned_tables: "tables s' = tables s \<Longrightarrow> owned a k choice ch s' \<longleftrightarrow> owned a k choice ch s"
  by (drule tables_eqD) (simp add: owned_def uc_list_def)

lemma owned_remove: "owned a k choice ch s \<Longrightarrow> owned a k choice ch (s\<lparr>cHandlers := (cHandlers s)(key := None)\<rparr>)"
  unfolding owned_def by (simp split: if_splits) blast

lemma awaits_tx [simp]: "awaits a k choice ch ds (s\<lparr>srv_tx := y\<rparr>) = awaits a k choice ch ds s"
  by (simp add: awaits_def owned_def)

lemma awaits_tables:
  "tables s' = tables s \<Longrightarrow> srv_chans s' ch = srv_chans s ch \<Longrightarrow> awaits a k choice ch ds s' \<longleftrightarrow> awaits a k choice ch ds s"
  using owned_tables [of s' s a k choice ch] by (simp add: awaits_def)

lemma deliverRequest_other: "h \<noteq> ch \<Longrightarrow> srv_chans (snd (deliverRequest h req s)) ch = srv_chans s ch"
  by (cases rule: deliverRequest_cases [of s h req]) auto

lemma dispatch_loop_other: "ch \<notin> set hs \<Longrightarrow> srv_chans (dispatch_loop first hs req copy s) ch = srv_chans s ch"
  by (induction first hs req copy s rule: dispatch_loop.induct) (auto simp: deliverRequest_other split: sum.splits)

lemma handle_cov_other:
  "handle_cov_if c x req s = (d, s') \<Longrightarrow> (\<And>key. covHandlers s key \<noteq> Some ch) \<Longrightarrow> srv_chans s' ch = srv_chans s ch"
  using deliverRequest_other [of _ ch req s]
  by (auto simp: handle_cov_if_def handle_cov_def deliverCovHandler_def split: option.splits prod.splits if_splits; metis snd_conv)

lemma awaits_handle_cov: "handle_cov_if c x req s = (d, s') \<Longrightarrow> awaits a k choice ch ds s \<Longrightarrow> awaits a k choice ch ds s'"
  using awaits_tables [OF tables_handle_cov, of c x req s d s' ch a k choice ds] handle_cov_other [of c x req s d s' ch]
  by (auto simp: awaits_def owned_def)

lemma awaits_dispatch: "awaits a k choice ch ds s \<Longrightarrow> awaits a k choice ch ds (snd (dispatchUnconfirmed service req copy s))"
  using awaits_tables [of "snd (dispatchUnconfirmed service req copy s)" s ch a k choice ds]
  by (auto simp: dispatchUnconfirmed_def getUnconfirmedHandlers_def Let_def dispatch_loop_other awaits_def owned_def)

lemma awaits_confirmed:
  assumes "awaits a k choice ch ds s" "deliverConfirmedHandler (ua_IP adr) (a_InvokeID (r_Apdu req)) req s = (r, s')"
    and "ParseRequest data (Some (sender_of adr)) = Inr req" "(data, adr) \<in> ds"
  shows "awaits a k choice ch ds s'"
proof (cases "s' = s")
  case False
  let ?k = "a_InvokeID (r_Apdu req)"
  from False assms(2) obtain x h where x: "ua_IP adr = Some x" "cHandlers s (genTxId (IP_String x) ?k) = Some h" "\<not> service_mismatch h req"
    and k0: "?k \<noteq> 0"
    and s': "s' = snd (deliverRequest (handler h) req (s\<lparr>cHandlers := (cHandlers s)(genTxId (IP_String x) ?k := None)\<rparr>))"
    by (auto simp: deliverConfirmedHandler_def Let_def split: option.splits if_splits prod.splits)
  let ?s = "s\<lparr>cHandlers := (cHandlers s)(genTxId (IP_String x) ?k := None)\<rparr>"
  have aw: "awaits a k choice ch ds ?s" using assms(1) by (simp add: awaits_def owned_remove)
  show ?thesis
  proof (cases "handler h = ch")
    case False
    with aw show ?thesis unfolding s' by (subst awaits_tables [of _ ?s]) (simp_all add: deliverRequest_other)
  next
    case True
    with assms(1) x have e: "genTxId (IP_String x) ?k = genTxId a k" "expectedService h = choice" "matchService h"
      by (auto simp: awaits_def owned_def)
    then have "answers a k choice (data, adr) req"
      using x assms(3) by (auto simp: answers_def service_mismatch_def genTxId_inj)
    moreover have "owned a k choice ch s'"
      using aw owned_tables [OF tables_snd_deliverRequest, of a k choice ch] by (simp add: s' awaits_def)
    ultimately show ?thesis using aw assms(4) unfolding s'
      by (cases rule: deliverRequest_cases [of ?s "handler h" req]) (use True in \<open>auto simp: awaits_def\<close>)
  qed
qed (use assms(1) in simp)

lemma awaits_handle_parsed:
  assumes "awaits a k choice ch ds s" "(data, adr) \<in> ds" "ParseRequest data (Some (sender_of adr)) = Inr req"
  shows "awaits a k choice ch ds (handle_parsed data adr req s)"
proof -
  obtain d1 s1 where 1: "handle_cov_if (a_ServiceChoice (r_Apdu req) = ConfirmedServiceCovNotification
      \<and> a_PduType (r_Apdu req) \<noteq> PduTypeSimpleAck) (ua_IP adr) req s = (d1, s1)" by fastforce
  obtain d2 s2 where 2: "handle_cov_if (a_ServiceChoice (r_Apdu req) = UnconfirmedServiceCovNotification)
      (ua_IP adr) req s = (d2, s2)" by fastforce
  obtain f d s3 where 3: "deliverConfirmedHandler (ua_IP adr) (a_InvokeID (r_Apdu req)) req s1 = ((f, d), s3)" by (metis surj_pair)
  have a1: "awaits a k choice ch ds s1" by (rule awaits_handle_cov [OF 1 assms(1)])
  have a2: "awaits a k choice ch ds s2" by (rule awaits_handle_cov [OF 2 assms(1)])
  have a3: "awaits a k choice ch ds s3" by (rule awaits_confirmed [OF a1 3 assms(3,2)])
  from 1 2 3 a1 a2 a3 awaits_dispatch [OF a2] show ?thesis by (simp add: handle_parsed_def Let_def)
qed

lemma awaits_handle: "awaits a k choice ch ds s \<Longrightarrow> (data, adr) \<in> ds \<Longrightarrow> awaits a k choice ch ds (handle data (Some adr) s)"
  by (auto simp: handle_def awaits_handle_parsed split: sum.splits)

lemma awaits_received: "awaits a k choice ch ds s \<Longrightarrow> set es \<subseteq> ds \<Longrightarrow> awaits a k choice ch ds (received_all es s)"
proof (induction es arbitrary: s)
  case (Cons e es)
  then have "awaits a k choice ch ds (received_all es (handle (fst e) (Some (snd e)) s))" by (intro Cons.IH awaits_handle) auto
  then show ?case by (simp add: received_all_def case_prod_unfold)
qed (simp add: received_all_def)

lemma Send_sent:
  assumes "Send wr (Some x) r s = (Inr u, r2, s2)" "cr_invokeAddress r = Some x"
  shows "r2 = r\<lparr>cr_server := True\<rparr>" "InvokeID r \<noteq> 0"
    "\<exists>b. s2 = s\<lparr>cHandlers := (cHandlers s)(genTxId (IP_String x) (InvokeID r) \<mapsto>
        \<lparr>handler = cr_tx r, expectedService = a_ServiceChoice (r_Apdu (cr_packet r)), matchService = True\<rparr>), srv_sent := srv_sent s @ [b]\<rparr>"
  using assms
  by (auto simp: Send_def setConfirmedHandlerForService_def Server_Send_def Let_def split: if_splits sum.splits option.splits)

lemma start_channel:
  assumes "startConfirmedService choice data (Some x) NewRequest s = (r, s1)" "x \<noteq> []"
  shows "cr_tx r = srv_next s" "srv_chans s1 (srv_next s) = Some \<lparr>ch_cap = 1, ch_queue = []\<rparr>"
    "ucHandlers s1 = ucHandlers s" "covHandlers s1 = covHandlers s" "srv_next s1 = srv_next s + 1"
  using assms
  by (auto simp: startConfirmedService_def Release_def cleanupTransaction_def releaseQueuedResponses_def NewRequest_def
      copy_ip_def make_chan_def drain_def Let_def split: prod.splits option.splits)

lemma confirmed_call_matched:
  assumes "channels_below s" "x \<noteq> []"
    and "confirmed_call wr (received_all ds) w choice data (Some x) finish s = Some (Inr v, s')"
  shows "\<exists>d \<in> set ds. \<exists>resp. answers (IP_String x) (fst (GetInvokeID (srv_tx s) (Some (IP_String x)))) choice d resp
    \<and> a_InvokeID (r_Apdu resp) \<noteq> 0 \<and> finish resp = Inr v"
proof -
  let ?a = "IP_String x"
  obtain r s1 where st: "startConfirmedService choice (Some data) (Some x) NewRequest s = (r, s1)" by fastforce
  note r = start_fields [OF st assms(2)] and ch = start_channel [OF st assms(2)]
  obtain u r2 s2 s3 resp where se: "Send wr (Some x) r s1 = (Inr u, r2, s2)"
    and aw: "await w (cr_tx r2) (received_all ds s2) = Some (Inr resp, s3)" and fin: "finish resp = Inr v"
    using assms(3) st by (fastforce simp: confirmed_call_def bind_res_eq_Inr split: prod.splits sum.splits option.splits)
  note s2 = Send_sent [OF se r(1)]
  have k: "InvokeID r = fst (GetInvokeID (srv_tx s) (Some ?a))" using r(5) by (metis fst_conv)
  have c: "a_ServiceChoice (r_Apdu (cr_packet r)) = choice" using r(6) by (simp add: SetConfirmedService_def)
  have "owned ?a (InvokeID r) choice (srv_next s) s2"
  proof -
    have "key = genTxId ?a (InvokeID r) \<and> expectedService h = choice \<and> matchService h"
      if "cHandlers s2 key = Some h" "handler h = srv_next s" for key h
      using that s2(3) r(4) c assms(1) by (fastforce simp: channels_below_def split: if_splits)
    moreover have "ucHandlers s2 = ucHandlers s" "covHandlers s2 = covHandlers s" using s2(3) ch(3,4) by auto
    moreover have "srv_next s \<notin> snd ` set (uc_list service s)" for service
      using assms(1) unfolding channels_below_def uc_list_def by (cases "ucHandlers s service") fastforce+
    moreover have "covHandlers s key \<noteq> Some (srv_next s)" for key using assms(1) by (auto simp: channels_below_def)
    ultimately show ?thesis by (simp add: owned_def uc_list_def) blast
  qed
  then have "awaits ?a (InvokeID r) choice (srv_next s) (set ds) s2"
    using s2(3) ch(2) by (auto simp: awaits_def)
  from awaits_received [OF this order_refl] aw ch(1) s2(1) obtain d where "d \<in> set ds" "answers ?a (InvokeID r) choice d resp"
    by (fastforce simp: await_def receive_from_def awaits_def split: wait.splits option.splits list.splits)
  moreover from this(2) s2(2) have "a_InvokeID (r_Apdu resp) \<noteq> 0" by (simp add: answers_def)
  ultimately show ?thesis using fin k by auto
qed


text \<open>What else a call leaves as it was.\<close>

definition frame :: "Server \<Rightarrow> (u8 \<rightharpoonup> (u64 \<times> chan) list) \<times> (string \<rightharpoonup> chan) \<times> nat" where
  "frame s = (ucHandlers s, covHandlers s, srv_next s)"

lemma frame_received [simp]: "frame (received_all ds s) = frame s"
proof (induction ds arbitrary: s)
  case (Cons d ds)
  have "frame (handle data (Some a) s) = frame s" for data a s
    using handle_tables [of data a s] by (auto simp: frame_def taken_def dest!: tables_eqD)
  with Cons show ?case by (simp add: received_all_def case_prod_unfold)
qed (simp add: received_all_def)

lemma frame_drain [simp]: "frame (drain h s) = frame s"
  by (simp add: frame_def drain_def split: option.splits)

lemma frame_cleanup: "cr_unconfirmedToken r = 0 \<Longrightarrow> frame (snd (cleanupTransaction r s)) = frame s"
  by (auto simp: cleanupTransaction_def frame_def RemoveConfirmedHandler_def Let_def split: option.splits)

lemma frame_Release: "cr_unconfirmedToken r = 0 \<Longrightarrow> frame (Release r s) = frame s"
  using frame_cleanup [of r s] by (auto simp: Release_def releaseQueuedResponses_def split: prod.splits)

lemma frame_await: "await w ch s = Some (ans, s') \<Longrightarrow> frame s' = frame s"
  by (auto simp: await_def receive_from_def frame_def split: wait.splits option.splits list.splits)

lemma frame_Server_Send: "Server_Send wr b d s = (res, s') \<Longrightarrow> frame s' = frame s"
  by (auto simp: Server_Send_def frame_def split: option.splits if_splits)

lemma frame_handler [simp]: "frame (setConfirmedHandlerForService d k c h s) = frame s"
  by (auto simp: setConfirmedHandlerForService_def frame_def split: option.splits)

lemma token_cleanup [simp]: "cr_unconfirmedToken (fst (cleanupTransaction r s)) = 0"
  by (simp add: cleanupTransaction_def Let_def)

lemma frame_Send:
  assumes "Send wr d r s = (res, r2, s2)" "cr_unconfirmedToken r = 0"
  shows "frame s2 = frame s \<and> cr_unconfirmedToken r2 = 0"
proof -
  have c: "cleanupTransaction r' t = (r2, s2) \<Longrightarrow> cr_unconfirmedToken r' = 0 \<Longrightarrow> frame s2 = frame t \<and> cr_unconfirmedToken r2 = 0" for r' t
    using frame_cleanup [of r' t] token_cleanup [of r' t] by simp
  from assms c [of r s] c [of "r\<lparr>cr_server := True\<rparr>"] show ?thesis
    by (auto simp: Send_def Let_def dest!: frame_Server_Send split: if_splits sum.splits prod.splits)
qed

lemma frame_confirmed_call:
  assumes "confirmed_call wr (received_all ds) w choice data (Some x) finish s = Some (res, s')" "x \<noteq> []"
  shows "frame s' = (ucHandlers s, covHandlers s, srv_next s + 1)"
proof -
  obtain r s1 where st: "startConfirmedService choice (Some data) (Some x) NewRequest s = (r, s1)" by fastforce
  note r = start_fields(3) [OF st assms(2)] and ch = start_channel(3-5) [OF st assms(2)]
  obtain o1 r2 s2 where se: "Send wr (Some x) r s1 = (o1, r2, s2)" by (metis surj_pair)
  have f: "frame s2 = (ucHandlers s, covHandlers s, srv_next s + 1)" and t: "cr_unconfirmedToken r2 = 0"
    using frame_Send [OF se r] ch by (auto simp: frame_def)
  from assms(1) st se f t show ?thesis
    by (auto simp: confirmed_call_def frame_Release dest!: frame_await split: sum.splits option.splits)
qed

lemma channels_below_shrinks:
  assumes "channels_below s" "shrinks s' s" "frame s' = (ucHandlers s, covHandlers s, n)" "srv_next s \<le> n"
  shows "channels_below s'"
proof -
  have "cHandlers s key = Some h" if "cHandlers s' key = Some h" for key h
    using that assms(2) by (auto simp: shrinks_def map_le_def dom_def)
  with assms(1,3,4) show ?thesis by (fastforce simp: channels_below_def frame_def)
qed

text \<open>A state of the endpoint between calls, and what every confirmed call keeps of it.\<close>

lemma confirmed_call_clean:
  assumes "confirmed_call wr (received_all ds) w choice data (Some x) finish s = Some (res, s')" "x \<noteq> []" "channels_below s"
  shows "shrinks s' s \<and> channels_below s'"
  using rx.confirmed_call_no_leak [OF assms(1,2)] channels_below_shrinks [OF assms(3) _ frame_confirmed_call [OF assms(1,2)]] by simp


lemma confirmed_request_encodes:
  assumes "request_MarshalBinary d = Inr data" "length data \<le> 1472"
  shows "\<exists>b. Request_MarshalBinary (SetConfirmedService c (Some d) k) = Inr b"
proof -
  let ?r = "SetConfirmedService c (Some d) k"
  have a: "Apdu_MarshalBinary (r_Apdu ?r) = Inr ([0, 5, k, c] @ data)"
    using assms(1) by (simp add: Apdu_MarshalBinary_def Apdu_header_def SetConfirmedService_def Request_Reset_def Apdu_Reset_def
        maxSegmentsCode_def maxApduCode_def)
  have n: "Npci_MarshalBinary (r_Npci ?r) = Inr [1, 4]"
    by (simp add: SetConfirmedService_def Request_Reset_def Npci_Reset_def Npci_MarshalBinary_def control_octet_def mac_bytes_def
        MaxMacLen_def BACnetVersion_def BITS01_def)
  show ?thesis using assms(2) by (simp add: Request_MarshalBinary_def a n MaxApdu_def Let_def)
qed

text \<open>What the PDU type and the service of a received packet are, by what was decoded from it.\<close>

lemma decodeConfirmedApdu_fields:
  assumes "decodeConfirmedApdu a data = Inr a'"
  shows "a_PduType a' = a_PduType a" "a_ServiceChoice a' = a_ServiceChoice a" "a_InvokeID a' = a_InvokeID a" "a_Failed a' = a_Failed a"
    "a_ResponseData a' = Some (RespReadProperty p) \<Longrightarrow> a_ResponseData a = Some (RespReadProperty p) \<or> a_ServiceChoice a' = ConfirmedServiceReadProperty"
    "a_ResponseData a' = Some (RespReadPropertyMultiple q) \<Longrightarrow> a_ResponseData a = Some (RespReadPropertyMultiple q)
       \<or> (a_ServiceChoice a' = ConfirmedServiceReadPropertyMultiple \<and> a_PduType a' = PduTypeComplexAck)"
  using assms by (auto simp: decodeConfirmedApdu_def bind_res_eq_Inr split: if_splits)

lemma decodeUnconfirmedApdu_fields:
  assumes "decodeUnconfirmedApdu a data = Inr a'"
  shows "a_InvokeID a' = a_InvokeID a"
  using assms by (auto simp: decodeUnconfirmedApdu_def bind_res_eq_Inr split: if_splits)

lemma received_pdu:
  assumes "Apdu_UnmarshalBinary ip port b = Inr a" "a_InvokeID a \<noteq> 0" "\<not> a_Failed a"
  shows "a_PduType a \<in> {PduTypeConfirmedServiceRequest, PduTypeSimpleAck, PduTypeComplexAck}"
    "a_ResponseData a = Some (RespReadProperty p) \<Longrightarrow> a_ServiceChoice a = ConfirmedServiceReadProperty"
    "a_ResponseData a = Some (RespReadPropertyMultiple q) \<Longrightarrow>
       a_ServiceChoice a = ConfirmedServiceReadPropertyMultiple \<and> a_PduType a = PduTypeComplexAck"
  using assms
  by (auto simp: Apdu_UnmarshalBinary_def apdu_unconfirmed_def apdu_confirmed_def apdu_simple_ack_def apdu_complex_ack_def
      apdu_error_def apdu_reject_def apdu_abort_def Apdu_Reset_def bind_res_eq_Inr Let_def
      dest: decodeConfirmedApdu_fields decodeUnconfirmedApdu_fields split: list.splits if_splits)

lemma parsed_apdu: "ParseRequest b sender = Inr r \<Longrightarrow> \<exists>ip port b'. Apdu_UnmarshalBinary ip port b' = Inr (r_Apdu r)"
  by (auto simp: ParseRequest_def Request_UnmarshalBinary_def bind_res_eq_Inr Let_def case_prod_unfold split: option.splits if_splits)
    blast

lemma successful_answer:
  assumes "answers a k choice d resp" "a_InvokeID (r_Apdu resp) \<noteq> 0" "Successful resp"
  shows "a_PduType (r_Apdu resp) = PduTypeConfirmedServiceRequest
      \<or> a_PduType (r_Apdu resp) \<in> {PduTypeSimpleAck, PduTypeComplexAck} \<and> a_ServiceChoice (r_Apdu resp) = choice"
    "read_answer resp = Inr vs \<Longrightarrow> a_ServiceChoice (r_Apdu resp) = ConfirmedServiceReadProperty"
    "rpm_answer resp = Inr rs \<Longrightarrow> a_ServiceChoice (r_Apdu resp) = ConfirmedServiceReadPropertyMultiple
      \<and> a_PduType (r_Apdu resp) = PduTypeComplexAck"
proof -
  obtain ip port b where "Apdu_UnmarshalBinary ip port b = Inr (r_Apdu resp)"
    using assms(1) parsed_apdu unfolding answers_def by blast
  note r = received_pdu [OF this assms(2) assms(3) [unfolded Successful_def]]
  show "a_PduType (r_Apdu resp) = PduTypeConfirmedServiceRequest
      \<or> a_PduType (r_Apdu resp) \<in> {PduTypeSimpleAck, PduTypeComplexAck} \<and> a_ServiceChoice (r_Apdu resp) = choice"
    using r(1) assms(1) by (auto simp: answers_def)
  show "read_answer resp = Inr vs \<Longrightarrow> a_ServiceChoice (r_Apdu resp) = ConfirmedServiceReadProperty"
    using r(2) by (auto simp: read_answer_def split: if_splits option.splits response_data.splits)
  show "rpm_answer resp = Inr rs \<Longrightarrow> a_ServiceChoice (r_Apdu resp) = ConfirmedServiceReadPropertyMultiple
      \<and> a_PduType (r_Apdu resp) = PduTypeComplexAck"
    using r(3) by (auto simp: rpm_answer_def split: if_splits option.splits response_data.splits)
qed

lemma answer_Successful: "read_answer r = Inr vs \<Longrightarrow> Successful r" "rpm_answer r = Inr rs \<Longrightarrow> Successful r" "done_answer r = Inr u \<Longrightarrow> Successful r"
  by (auto simp: read_answer_def rpm_answer_def done_answer_def split: if_splits)

text \<open>C4. A call succeeds only on its own answer.  Whatever datagrams reach the endpoint while a read, a write or a
  ReadPropertyMultiple waits: when the call returns success, the result was taken from one of those datagrams that came from
  the address the request went to, with the invoke ID of the request, which is not zero.  For a read the datagram is of the
  service ReadProperty; for a ReadPropertyMultiple it is a complex acknowledgement of that service; for a write it is an
  acknowledgement of the service WriteProperty or, since the type of the PDU is not checked otherwise, a confirmed request.\<close>

theorem only_matching_answers:
  assumes "channels_below s" "x \<noteq> []"
  shows "(\<forall>vs s'. ReadObjectProperty wr (received_all ds) w (Some x) object pid s = Some (Inr vs, s') \<longrightarrow>
        (\<exists>d \<in> set ds. \<exists>resp. answers (IP_String x) (fst (GetInvokeID (srv_tx s) (Some (IP_String x)))) ConfirmedServiceReadProperty d resp
          \<and> a_InvokeID (r_Apdu resp) \<noteq> 0 \<and> a_ServiceChoice (r_Apdu resp) = ConfirmedServiceReadProperty \<and> read_answer resp = Inr vs))
    \<and> (\<forall>s'. WriteObjectProperty wr (received_all ds) w (Some x) object pid tag priority val s = Some (Inr (), s') \<longrightarrow>
        (\<exists>d \<in> set ds. \<exists>resp. answers (IP_String x) (fst (GetInvokeID (srv_tx s) (Some (IP_String x)))) ConfirmedServiceWriteProperty d resp
          \<and> a_InvokeID (r_Apdu resp) \<noteq> 0 \<and> Successful resp
          \<and> (a_PduType (r_Apdu resp) \<in> {PduTypeSimpleAck, PduTypeComplexAck} \<and> a_ServiceChoice (r_Apdu resp) = ConfirmedServiceWriteProperty
             \<or> a_PduType (r_Apdu resp) = PduTypeConfirmedServiceRequest)))
    \<and> (\<forall>rs s'. ReadPropertyMultiple wr (received_all ds) w (Some x) specs s = Some (Inr rs, s') \<longrightarrow>
        (\<exists>d \<in> set ds. \<exists>resp. answers (IP_String x) (fst (GetInvokeID (srv_tx s) (Some (IP_String x)))) ConfirmedServiceReadPropertyMultiple d resp
          \<and> a_InvokeID (r_Apdu resp) \<noteq> 0 \<and> a_PduType (r_Apdu resp) = PduTypeComplexAck
          \<and> a_ServiceChoice (r_Apdu resp) = ConfirmedServiceReadPropertyMultiple \<and> rpm_answer resp = Inr rs))"
proof (intro conjI allI impI)
  fix vs s' assume "ReadObjectProperty wr (received_all ds) w (Some x) object pid s = Some (Inr vs, s')"
  then have "confirmed_call wr (received_all ds) w ConfirmedServiceReadProperty (read_payload object pid) (Some x) read_answer s
      = Some (Inr vs, s')" by (auto simp: ReadObjectProperty_def readProperty_def split: sum.splits if_splits)
  from confirmed_call_matched [OF assms this] show "\<exists>d \<in> set ds. \<exists>resp. answers (IP_String x)
      (fst (GetInvokeID (srv_tx s) (Some (IP_String x)))) ConfirmedServiceReadProperty d resp
      \<and> a_InvokeID (r_Apdu resp) \<noteq> 0 \<and> a_ServiceChoice (r_Apdu resp) = ConfirmedServiceReadProperty \<and> read_answer resp = Inr vs"
    by (meson answer_Successful(1) successful_answer(2))
next
  fix s' assume "WriteObjectProperty wr (received_all ds) w (Some x) object pid tag priority val s = Some (Inr (), s')"
  then have "confirmed_call wr (received_all ds) w ConfirmedServiceWriteProperty (write_payload object pid tag priority val) (Some x) done_answer s
      = Some (Inr (), s')" by (auto simp: WriteObjectProperty_def writeProperty_def split: sum.splits if_splits)
  from confirmed_call_matched [OF assms this] show "\<exists>d \<in> set ds. \<exists>resp. answers (IP_String x)
      (fst (GetInvokeID (srv_tx s) (Some (IP_String x)))) ConfirmedServiceWriteProperty d resp
      \<and> a_InvokeID (r_Apdu resp) \<noteq> 0 \<and> Successful resp
      \<and> (a_PduType (r_Apdu resp) \<in> {PduTypeSimpleAck, PduTypeComplexAck} \<and> a_ServiceChoice (r_Apdu resp) = ConfirmedServiceWriteProperty
         \<or> a_PduType (r_Apdu resp) = PduTypeConfirmedServiceRequest)"
    by (meson answer_Successful(3) successful_answer(1))
next
  fix rs s' assume "ReadPropertyMultiple wr (received_all ds) w (Some x) specs s = Some (Inr rs, s')"
  then have "confirmed_call wr (received_all ds) w ConfirmedServiceReadPropertyMultiple (rpm_payload specs) (Some x) rpm_answer s
      = Some (Inr rs, s')" by (auto simp: ReadPropertyMultiple_def split: if_splits)
  from confirmed_call_matched [OF assms this] show "\<exists>d \<in> set ds. \<exists>resp. answers (IP_String x)
      (fst (GetInvokeID (srv_tx s) (Some (IP_String x)))) ConfirmedServiceReadPropertyMultiple d resp
      \<and> a_InvokeID (r_Apdu resp) \<noteq> 0 \<and> a_PduType (r_Apdu resp) = PduTypeComplexAck
      \<and> a_ServiceChoice (r_Apdu resp) = ConfirmedServiceReadPropertyMultiple \<and> rpm_answer resp = Inr rs"
    by (meson answer_Successful(2) successful_answer(3))
qed

lemma channels_below_init: "channels_below (Configure port errs tx)"
  by (simp add: channels_below_def Configure_def)

lemma local_address: "\<not> empty_ip (Some [10, 0, 0, 1])"
  by code_simp

text \<open>
  A write of an unsigned value while one datagram arrives from the peer: with the invoke ID of the request, and not a
  failure.
\<close>

abbreviation demo_endpoint :: Server where
  "demo_endpoint \<equiv> (Configure 47808 True TxState_init)\<lparr>UnicastConn := Some 47808\<rparr>"

abbreviation demo_peer :: UDPAddr where
  "demo_peer \<equiv> \<lparr>ua_IP = Some [10, 0, 0, 1], ua_Port = 47808\<rparr>"

lemma demo_write_done:
  assumes "case ParseRequest b (Some ([10, 0, 0, 1], 47808)) of Inl _ \<Rightarrow> False | Inr resp \<Rightarrow> response_for 1 resp \<and> Successful resp
      \<and> (a_PduType (r_Apdu resp) \<in> {PduTypeSimpleAck, PduTypeComplexAck, PduTypeError} \<longrightarrow> a_ServiceChoice (r_Apdu resp) = ConfirmedServiceWriteProperty)"
  shows "\<exists>s'. WriteObjectProperty (\<lambda>_ _. None) (received_all [(b, demo_peer)]) WData (Some [10, 0, 0, 1]) ObjectId_zero 85 2 0 (VUint32 2) demo_endpoint
     = Some (Inr (), s')"
proof -
  let ?s = demo_endpoint and ?x = "[10, 0, 0, 1] :: bytes" and ?d = "write_payload ObjectId_zero 85 2 0 (VUint32 2)"
  have tx: "GetInvokeID (srv_tx ?s) (Some (IP_String ?x)) = (1, tx_reserve TxState_init (IP_String ?x) 1)"
    by (simp add: GetInvokeID_def TryGetInvokeID_init Configure_def)
  have data: "request_MarshalBinary ?d = Inr [0x0c, 0, 0, 0, 0, 0x19, 85, 0x3e, 0x21, 2, 0x3f]" by code_simp
  obtain q where q: "Request_MarshalBinary (SetConfirmedService ConfirmedServiceWriteProperty (Some ?d) 1) = Inr q"
    using confirmed_request_encodes [OF data] by fastforce
  have snd: "sender_of demo_peer = (?x, 47808)" by (simp add: sender_of_def ip_octets_def)
  obtain resp where p: "ParseRequest b (Some (sender_of demo_peer)) = Inr resp" "response_for 1 resp" "Successful resp"
    "a_PduType (r_Apdu resp) \<in> {PduTypeSimpleAck, PduTypeComplexAck, PduTypeError} \<longrightarrow> a_ServiceChoice (r_Apdu resp) = ConfirmedServiceWriteProperty"
    using assms unfolding snd by (auto split: sum.splits)
  have chk: "check_object ObjectId_zero = Inr ()" by code_simp
  obtain s' where s': "confirmed_call (\<lambda>_ _. None) (handle b (Some demo_peer)) WData ConfirmedServiceWriteProperty ?d (Some ?x) done_answer ?s = Some (done_answer resp, s')"
    using confirmed_call_answered [OF tx _ _ q, of "\<lambda>_ _. None" demo_peer b resp done_answer] p
    by (auto simp: isLocalSender_def Configure_def)
  have "received_all [(b, demo_peer)] = handle b (Some demo_peer)" by (simp add: received_all_def fun_eq_iff)
  then show ?thesis
    using s' p(3) chk local_address by (simp add: WriteObjectProperty_def writeProperty_def done_answer_def)
qed

text \<open>The type of the PDU is not checked: a request to change a subscription that carries the invoke ID ends the write with success.\<close>

lemma request_completes_write:
  "\<exists>s'. WriteObjectProperty (\<lambda>_ _. None) (received_all [([0x81, 10, 0, 10, 1, 0, 0, 5, 1, 5], demo_peer)])
     WData (Some [10, 0, 0, 1]) ObjectId_zero 85 2 0 (VUint32 2) demo_endpoint = Some (Inr (), s')"
  by (rule demo_write_done) code_simp

theorem only_matching_answers_witness:
  "\<exists>s' d resp. WriteObjectProperty (\<lambda>_ _. None) (received_all [([0x81, 10, 0, 9, 1, 0, 0x20, 1, 15], demo_peer)])
       WData (Some [10, 0, 0, 1]) ObjectId_zero 85 2 0 (VUint32 2) demo_endpoint = Some (Inr (), s')
     \<and> answers (IP_String [10, 0, 0, 1]) 1 ConfirmedServiceWriteProperty d resp \<and> Successful resp"
proof -
  let ?x = "[10, 0, 0, 1] :: bytes" and ?b = "[0x81, 10, 0, 9, 1, 0, 0x20, 1, 15] :: bytes"
  have tx: "GetInvokeID (srv_tx demo_endpoint) (Some (IP_String ?x)) = (1, tx_reserve TxState_init (IP_String ?x) 1)"
    by (simp add: GetInvokeID_def TryGetInvokeID_init Configure_def)
  have "\<exists>s'. WriteObjectProperty (\<lambda>_ _. None) (received_all [(?b, demo_peer)]) WData (Some ?x) ObjectId_zero 85 2 0 (VUint32 2) demo_endpoint = Some (Inr (), s')"
    by (rule demo_write_done) code_simp
  then obtain s' where w: "WriteObjectProperty (\<lambda>_ _. None) (received_all [(?b, demo_peer)]) WData (Some ?x) ObjectId_zero 85 2 0 (VUint32 2) demo_endpoint
    = Some (Inr (), s')" by blast
  have "channels_below demo_endpoint" using channels_below_init [of 47808 True TxState_init] by (simp add: channels_below_def)
  from conjunct1 [OF conjunct2 [OF only_matching_answers [OF this, of ?x "\<lambda>_ _. None" "[(?b, demo_peer)]" WData]]] w tx
  show ?thesis by fastforce
qed

lemma WritePropertyMultiple_call:
  "WritePropertyMultiple wr env w address specs s = Some (r, s') \<Longrightarrow> s' = s \<or> (\<exists>q. confirmed_call wr env w
     ConfirmedServiceWritePropertyMultiple (wpm_payload specs) address (\<lambda>r. Inr (wpm_answer r)) s = Some (q, s'))"
  unfolding WritePropertyMultiple_def by (auto split: if_splits)

text \<open>C5. Calls leave nothing behind.  However a confirmed call ends, by an answer, a time-out, a cancelled context or a send
  that fails, and whatever datagrams arrive meanwhile: no handler and no invoke ID is left in the tables that was not there
  before the call, so no identifier is lost and a late answer finds nobody.\<close>

theorem calls_leave_nothing:
  assumes "channels_below s" "x \<noteq> []"
  shows "(\<forall>r s'. ReadObjectProperty wr (received_all ds) w (Some x) object pid s = Some (r, s') \<longrightarrow> shrinks s' s \<and> channels_below s')
    \<and> (\<forall>r s'. WriteObjectProperty wr (received_all ds) w (Some x) object pid tag priority val s = Some (r, s') \<longrightarrow> shrinks s' s \<and> channels_below s')
    \<and> (\<forall>r s'. ReadPropertyMultiple wr (received_all ds) w (Some x) rspecs s = Some (r, s') \<longrightarrow> shrinks s' s \<and> channels_below s')
    \<and> (\<forall>r s'. WritePropertyMultiple wr (received_all ds) w (Some x) wspecs s = Some (r, s') \<longrightarrow> shrinks s' s \<and> channels_below s')"
  using assms
  by (auto simp: ReadObjectProperty_def readProperty_def WriteObjectProperty_def writeProperty_def ReadPropertyMultiple_def
      dest!: WritePropertyMultiple_call confirmed_call_clean [OF _ assms(2,1)] split: sum.splits if_splits)

lemma timeout_returns: "\<exists>r s'. confirmed_call wr env WTimeout choice data address finish s = Some (r, s')"
  by (auto simp: confirmed_call_def await_def split: prod.splits sum.splits)

theorem calls_leave_nothing_witness:
  "\<exists>r s'. ReadObjectProperty (\<lambda>_ _. None) (received_all []) WTimeout (Some [10, 0, 0, 1]) ObjectId_zero 85 (Configure 47808 True TxState_init) = Some (r, s')
     \<and> shrinks s' (Configure 47808 True TxState_init) \<and> channels_below s'"
proof -
  let ?s = "Configure 47808 True TxState_init"
  have "check_object ObjectId_zero = Inr ()" by code_simp
  then obtain r s' where "ReadObjectProperty (\<lambda>_ _. None) (received_all []) WTimeout (Some [10, 0, 0, 1]) ObjectId_zero 85 ?s = Some (r, s')"
    using timeout_returns local_address by (fastforce simp: ReadObjectProperty_def readProperty_def)
  moreover have "\<forall>r s'. ReadObjectProperty (\<lambda>_ _. None) (received_all []) WTimeout (Some [10, 0, 0, 1]) ObjectId_zero 85 ?s = Some (r, s')
      \<longrightarrow> shrinks s' ?s \<and> channels_below s'"
    by (rule conjunct1 [OF calls_leave_nothing [OF channels_below_init]]) simp
  ultimately show ?thesis by blast
qed

text \<open>C26. The subscription table.  A COV subscription call changes the entry of its device and process only: when it succeeds in
  subscribing, the entry is the fresh channel of the notifier it returns; when it fails, or cancels, there is no entry, also if
  there was one before the call.\<close>

theorem subscription_table:
  assumes "subscribeCov wr (received_all ds) w (Some x) object opts s = Some (res, s')" "x \<noteq> []" "\<not> empty_ip (Some x)"
  shows "covHandlers s' = (covHandlers s)(covHandlerKey x (co_ProcessID opts) := (case res of Inr (Some n) \<Rightarrow> Some (srv_next s) | _ \<Rightarrow> None))
    \<and> (\<forall>n. res = Inr (Some n) \<longrightarrow> \<not> co_Cancel opts
         \<and> n = \<lparr>cvn_subscriptionId = co_ProcessID opts, cvn_handler = srv_next s, cvn_deviceIP = Some x\<rparr>)"
proof -
  let ?key = "covHandlerKey x (co_ProcessID opts)" and ?n = "\<lparr>cvn_subscriptionId = co_ProcessID opts, cvn_handler = srv_next s, cvn_deviceIP = Some x\<rparr>"
  let ?s = "SetCovHandlerWithProcessID (Some x) (co_ProcessID opts) (srv_next s) (snd (make_chan 128 s))"
  let ?fin = "\<lambda>r. if Successful r then Inr (if co_Cancel opts then None else Some ?n) else Inl (request_error r)"
  have s0: "covHandlers ?s = (covHandlers s)(?key \<mapsto> srv_next s)" by (simp add: SetCovHandlerWithProcessID_def make_chan_def)
  obtain r1 s1 where call: "confirmed_call wr (received_all ds) w ConfirmedServiceSubscribeCov
      (ReqSubscribeCov (newSubscribeCovPayload object opts)) (Some x) ?fin ?s = Some (r1, s1)"
    and res: "(case r1 of Inr (Some n) \<Rightarrow> (Inr (Some n), s1) | _ \<Rightarrow> (r1, RemoveCovHandlerWithProcessID (Some x) (co_ProcessID opts) s1)) = (res, s')"
    using assms(1,3) by (auto simp: subscribeCov_def make_chan_def Let_def)
  have c: "covHandlers s1 = (covHandlers s)(?key \<mapsto> srv_next s)"
    using frame_confirmed_call [OF call assms(2)] s0 by (simp add: frame_def)
  have "\<not> co_Cancel opts \<and> n = ?n" if "r1 = Inr (Some n)" for n
    using call that by (auto simp: confirmed_call_def bind_res_eq_Inr split: prod.splits sum.splits option.splits if_splits)
  with res c show ?thesis by (auto simp: RemoveCovHandlerWithProcessID_def split: sum.splits option.splits)
qed


lemma subscribe_timeout: "subscribeCov wr env WTimeout address object opts s \<noteq> None"
proof -
  have "confirmed_call wr env WTimeout choice data address finish t \<noteq> None" for choice data t
    and finish :: "Request \<Rightarrow> CovNotifier option result" using timeout_returns [of wr env choice data address finish t] by auto
  then show ?thesis by (simp add: subscribeCov_def make_chan_def Let_def del: not_None_eq)
qed

theorem subscription_table_witness:
  "\<exists>res s'. subscribeCov (\<lambda>_ _. None) (received_all []) WTimeout (Some [10, 0, 0, 1]) ObjectId_zero (legacy_options 7 True)
       (Configure 47808 True TxState_init) = Some (res, s') \<and> covHandlers s' (covHandlerKey [10, 0, 0, 1] 7) = None"
proof -
  let ?s = "Configure 47808 True TxState_init" and ?o = "legacy_options 7 True"
  obtain res s' where r: "subscribeCov (\<lambda>_ _. None) (received_all []) WTimeout (Some [10, 0, 0, 1]) ObjectId_zero ?o ?s = Some (res, s')"
    using subscribe_timeout by (metis not_None_eq surj_pair)
  have "co_Cancel ?o" "co_ProcessID ?o = 7" by (simp_all add: legacy_options_def)
  with subscription_table [OF r _ local_address] have "covHandlers s' (covHandlerKey [10, 0, 0, 1] 7) = None"
    by (auto split: sum.splits option.splits)
  with r show ?thesis by blast
qed

end
