(* ===== verification/Sim_Model.thy ===== *)
theory Sim_Model
  imports Property_Value "HOL-Library.AList"
begin

text \<open>
  The object model of the simulator, \<^verbatim>\<open>simulator/model.go\<close>: properties with their command priorities,
  the properties synthesized from an object's state, devices and the network.

  A Go map is an association list, which gives one order of its iteration; a lookup of an absent key
  yields \<open>None\<close>, as a nil pointer.  Objects and properties sit behind pointers that only their device
  holds, so an update of an object is an update of the device.  A copy (\<^verbatim>\<open>cloneValues\<close>) is the value itself.
\<close>

section \<open>Values and errors\<close>

definition MaxObjectInstance :: u32 where "MaxObjectInstance = 0x3fffff"
definition PrioritySlots :: u8 where "PrioritySlots = 16"

definition ErrUnknownDevice :: go_error where "ErrUnknownDevice = Err ''unknown device''"
definition ErrUnknownObject :: go_error where "ErrUnknownObject = Err ''unknown object''"
definition ErrUnknownProperty :: go_error where "ErrUnknownProperty = Err ''unknown property''"
definition ErrWriteDenied :: go_error where "ErrWriteDenied = Err ''write access denied''"
definition ErrInvalidPriority :: go_error where "ErrInvalidPriority = Err ''invalid priority''"
definition ErrReservedPriority :: go_error where "ErrReservedPriority = Err ''reserved priority''"
definition ErrValueOutOfRange :: go_error where "ErrValueOutOfRange = Err ''value out of range''"
definition ErrInvalidDataType :: go_error where "ErrInvalidDataType = Err ''invalid data type''"
definition ErrPropertyNotArray :: go_error where "ErrPropertyNotArray = Err ''property is not an array''"
definition ErrInvalidArrayIndex :: go_error where "ErrInvalidArrayIndex = Err ''invalid array index''"

lemmas model_errors = ErrUnknownDevice_def ErrUnknownObject_def ErrUnknownProperty_def ErrWriteDenied_def
  ErrInvalidPriority_def ErrReservedPriority_def ErrValueOutOfRange_def ErrInvalidDataType_def
  ErrPropertyNotArray_def ErrInvalidArrayIndex_def

record ObjectID =
  id_Type :: u16
  id_Instance :: u32

text \<open>
  The \<^verbatim>\<open>interface{}\<close> of a simulated value holds the simulator's own object identifier beside the types
  the codec knows.
\<close>

datatype sim_any = AnyID ObjectID | Any go_value

record SimValue =
  v_Tag :: u8
  v_Value :: sim_any

definition is_null :: "SimValue \<Rightarrow> bool" where
  "is_null v \<longleftrightarrow> v_Tag v = 0 \<or> v_Value v = Any VNil"

record SimProperty =
  sp_ID :: u32
  sp_Values :: "SimValue list"
  sp_Writable :: bool
  sp_Array :: bool
  sp_COVIncrement :: u64
  sp_RelinquishDefault :: "SimValue option"
  sp_MinimumUnsigned :: u32
  sp_MaximumUnsigned :: u32
  sp_Scalar :: bool
  sp_ExpectedTag :: u8
  sp_priorities :: "SimValue option list"

text \<open>The zero value of the struct: an array of sixteen nil priorities.\<close>

definition SimProperty_zero :: SimProperty where
  "SimProperty_zero = \<lparr>sp_ID = 0, sp_Values = [], sp_Writable = False, sp_Array = False, sp_COVIncrement = 0,
     sp_RelinquishDefault = None, sp_MinimumUnsigned = 0, sp_MaximumUnsigned = 0, sp_Scalar = False,
     sp_ExpectedTag = 0, sp_priorities = replicate 16 None\<rparr>"

section \<open>Reading and writing a property\<close>

fun first_set :: "'a option list \<Rightarrow> 'a option" where
  "first_set [] = None"
| "first_set (None # xs) = first_set xs"
| "first_set (Some v # xs) = Some v"

definition effectiveValues :: "SimProperty \<Rightarrow> SimValue list" where
  "effectiveValues p =
     (case sp_RelinquishDefault p of
        None \<Rightarrow> sp_Values p
      | Some d \<Rightarrow> (case first_set (sp_priorities p) of Some v \<Rightarrow> [v] | None \<Rightarrow> [d]))"

definition SimProperty_Read :: "SimProperty \<Rightarrow> u32 option \<Rightarrow> SimValue list result" where
  "SimProperty_Read p arrayIndex =
     (case arrayIndex of
        None \<Rightarrow> Inr (effectiveValues p)
      | Some index \<Rightarrow>
          if \<not> sp_Array p then Inl ErrPropertyNotArray
          else (let values = effectiveValues p in
            if index = 0 then Inr [\<lparr>v_Tag = 2, v_Value = Any (VUint32 (word_of_nat (length values)))\<rparr>]
            else if index = NOT 0 then Inr values
            else if index > word_of_nat (length values) then Inl ErrInvalidArrayIndex
            else Inr [values ! (unat (index - 1))]))"

definition validateValues :: "SimProperty \<Rightarrow> SimValue list \<Rightarrow> unit result" where
  "validateValues p values =
     (let scalar =
        (if \<not> sp_Scalar p then None
         else if length values \<noteq> 1 then Some (Inl ErrInvalidDataType)
         else if is_null (values ! 0)
         then Some (if sp_RelinquishDefault p \<noteq> None then Inr () else Inl ErrInvalidDataType)
         else if v_Tag (values ! 0) \<noteq> sp_ExpectedTag p then Some (Inl ErrInvalidDataType)
         else None)
      in case scalar of Some r \<Rightarrow> r
       | None \<Rightarrow>
           if sp_MaximumUnsigned p = 0 \<or> length values = 0 \<or> is_null (values ! 0) then Inr ()
           else (case v_Value (values ! 0) of
               Any (VUint32 value) \<Rightarrow>
                 if value < sp_MinimumUnsigned p \<or> value > sp_MaximumUnsigned p then Inl ErrValueOutOfRange else Inr ()
             | _ \<Rightarrow> Inl ErrValueOutOfRange))"

definition validateWriteAllowingReadOnly :: "SimProperty \<Rightarrow> SimValue list \<Rightarrow> u8 \<Rightarrow> bool \<Rightarrow> u8 result" where
  "validateWriteAllowingReadOnly p values priority writable =
     (if \<not> writable then Inl ErrWriteDenied
      else if length values = 0 then Inl (Err ''property value is required'')
      else bind_res (validateValues p values) (\<lambda>_.
        if sp_RelinquishDefault p \<noteq> None then
          (let priority = (if priority = 0 then PrioritySlots else priority) in
           if priority < 1 \<or> priority > PrioritySlots then Inl ErrInvalidPriority
           else if priority = 6 then Inl ErrReservedPriority
           else Inr priority)
        else if priority \<noteq> 0 then Inl ErrInvalidPriority
        else Inr 0))"

definition validateWrite :: "SimProperty \<Rightarrow> SimValue list \<Rightarrow> u8 \<Rightarrow> u8 result" where
  "validateWrite p values priority = validateWriteAllowingReadOnly p values priority (sp_Writable p)"

definition validateWriteBypassingWritable :: "SimProperty \<Rightarrow> SimValue list \<Rightarrow> u8 \<Rightarrow> u8 result" where
  "validateWriteBypassingWritable p values priority = validateWriteAllowingReadOnly p values priority True"

text \<open>The mutation; indexing an empty slice, or a slot outside the array, panics.\<close>

definition apply_write :: "SimProperty \<Rightarrow> SimValue list \<Rightarrow> u8 \<Rightarrow> SimProperty result" where
  "apply_write p values priority =
     (if sp_RelinquishDefault p \<noteq> None then
        (if values = [] \<or> length (sp_priorities p) \<le> unat (priority - 1) then Inl Panic
         else Inr (p\<lparr>sp_priorities := (sp_priorities p)[unat (priority - 1) :=
                       (if is_null (values ! 0) then None else Some (values ! 0))]\<rparr>))
      else Inr (p\<lparr>sp_Values := values\<rparr>))"

definition SimProperty_Write :: "SimProperty \<Rightarrow> SimValue list \<Rightarrow> u8 \<Rightarrow> SimProperty result" where
  "SimProperty_Write p values priority =
     bind_res (validateWrite p values priority) (\<lambda>resolvedPriority. apply_write p values resolvedPriority)"

definition writeBypassingWritable :: "SimProperty \<Rightarrow> SimValue list \<Rightarrow> u8 \<Rightarrow> SimProperty result" where
  "writeBypassingWritable p values priority =
     bind_res (validateWriteAllowingReadOnly p values priority True) (\<lambda>resolvedPriority. apply_write p values resolvedPriority)"

section \<open>Synthesized properties\<close>

abbreviation (input) PropertyAll :: u32 where "PropertyAll \<equiv> 8"
abbreviation (input) PropertyEventState :: u32 where "PropertyEventState \<equiv> 36"
abbreviation (input) PropertyLocalDate :: u32 where "PropertyLocalDate \<equiv> 56"
abbreviation (input) PropertyLocalTime :: u32 where "PropertyLocalTime \<equiv> 57"
abbreviation (input) PropertyOutOfService :: u32 where "PropertyOutOfService \<equiv> 81"
abbreviation (input) PropertyPresentValue :: u32 where "PropertyPresentValue \<equiv> 85"
abbreviation (input) PropertyPriorityArray :: u32 where "PropertyPriorityArray \<equiv> 87"
abbreviation (input) PropertyReliability :: u32 where "PropertyReliability \<equiv> 103"
abbreviation (input) PropertyRelinquishDefault :: u32 where "PropertyRelinquishDefault \<equiv> 104"
abbreviation (input) PropertyStatusFlags :: u32 where "PropertyStatusFlags \<equiv> 111"

record SimObject =
  so_ID :: ObjectID
  so_Name :: bytes
  so_Properties :: "(u32 \<times> SimProperty) list"
  so_OutOfService :: bool

definition priorityArrayProperty :: "SimProperty \<Rightarrow> SimProperty" where
  "priorityArrayProperty p = SimProperty_zero\<lparr>sp_ID := PropertyPriorityArray, sp_Array := True,
     sp_Values := map (\<lambda>slot. case slot of None \<Rightarrow> \<lparr>v_Tag = TagNull, v_Value = Any VNil\<rparr> | Some v \<Rightarrow> v) (sp_priorities p)\<rparr>"

definition relinquishDefaultProperty :: "SimValue \<Rightarrow> SimProperty" where
  "relinquishDefaultProperty d = SimProperty_zero\<lparr>sp_ID := PropertyRelinquishDefault, sp_Values := [d]\<rparr>"

definition statusFlagsBitString :: "bool \<Rightarrow> bytes" where
  "statusFlagsBitString outOfService = [if outOfService then 8 else 0]"

definition statusFlagsProperty :: "SimObject \<Rightarrow> SimProperty" where
  "statusFlagsProperty obj = SimProperty_zero\<lparr>sp_ID := PropertyStatusFlags,
     sp_Values := [\<lparr>v_Tag = TagBitString, v_Value = Any (VBitString (statusFlagsBitString (so_OutOfService obj)))\<rparr>]\<rparr>"

definition eventStateProperty :: SimProperty where
  "eventStateProperty = SimProperty_zero\<lparr>sp_ID := PropertyEventState,
     sp_Values := [\<lparr>v_Tag = TagEnumerated, v_Value = Any (VUint32 0)\<rparr>]\<rparr>"

definition reliabilityProperty :: SimProperty where
  "reliabilityProperty = SimProperty_zero\<lparr>sp_ID := PropertyReliability,
     sp_Values := [\<lparr>v_Tag = TagEnumerated, v_Value = Any (VUint32 0)\<rparr>]\<rparr>"

definition outOfServiceProperty :: "SimObject \<Rightarrow> SimProperty" where
  "outOfServiceProperty obj = SimProperty_zero\<lparr>sp_ID := PropertyOutOfService, sp_Writable := True, sp_Scalar := True,
     sp_ExpectedTag := TagBoolean,
     sp_Values := [\<lparr>v_Tag = TagBoolean, v_Value = Any (VBool (so_OutOfService obj))\<rparr>]\<rparr>"

abbreviation get_property :: "SimObject \<Rightarrow> u32 \<Rightarrow> SimProperty option" where
  "get_property obj propertyID \<equiv> map_of (so_Properties obj) propertyID"

definition status_property :: "SimObject \<Rightarrow> u32 \<Rightarrow> SimProperty option" where
  "status_property obj propertyID =
     (if id_Type (so_ID obj) = 8 then None
      else if propertyID = PropertyStatusFlags then Some (statusFlagsProperty obj)
      else if propertyID = PropertyEventState then Some eventStateProperty
      else if propertyID = PropertyReliability then Some reliabilityProperty
      else if propertyID = PropertyOutOfService then Some (outOfServiceProperty obj)
      else None)"

definition synthesizedProperty :: "SimObject \<Rightarrow> u32 \<Rightarrow> SimProperty option" where
  "synthesizedProperty obj propertyID =
     (case get_property obj PropertyPresentValue of
        None \<Rightarrow> status_property obj propertyID
      | Some pv \<Rightarrow>
          if propertyID = PropertyPriorityArray
          then (if sp_RelinquishDefault pv \<noteq> None then Some (priorityArrayProperty pv) else None)
          else if propertyID = PropertyRelinquishDefault
          then map_option relinquishDefaultProperty (sp_RelinquishDefault pv)
          else status_property obj propertyID)"

section \<open>Devices\<close>

record SimDevice =
  sd_ID :: u32
  sd_Name :: bytes
  sd_Address :: bytes
  sd_Port :: u16
  sd_VendorID :: u16
  sd_ModelName :: bytes
  sd_Objects :: "(ObjectID \<times> SimObject) list"

definition Device_Object :: "SimDevice \<Rightarrow> ObjectID \<Rightarrow> SimObject result" where
  "Device_Object d oid = (case map_of (sd_Objects d) oid of None \<Rightarrow> Inl ErrUnknownObject | Some obj \<Rightarrow> Inr obj)"

definition Device_ReadProperty :: "SimDevice \<Rightarrow> ObjectID \<Rightarrow> u32 \<Rightarrow> u32 option \<Rightarrow> SimValue list result" where
  "Device_ReadProperty d oid propertyID arrayIndex =
     (case map_of (sd_Objects d) oid of
        None \<Rightarrow> Inl ErrUnknownObject
      | Some obj \<Rightarrow>
          (case get_property obj propertyID of
             Some property \<Rightarrow> SimProperty_Read property arrayIndex
           | None \<Rightarrow> (case synthesizedProperty obj propertyID of
               Some synthesized \<Rightarrow> SimProperty_Read synthesized arrayIndex
             | None \<Rightarrow> Inl ErrUnknownProperty)))"

definition validateSynthesizedWrite :: "SimObject \<Rightarrow> u32 \<Rightarrow> SimValue list \<Rightarrow> u8 \<Rightarrow> unit result" where
  "validateSynthesizedWrite obj propertyID values priority =
     (case synthesizedProperty obj propertyID of
        None \<Rightarrow> Inl ErrUnknownProperty
      | Some synthesized \<Rightarrow>
          if propertyID \<noteq> PropertyOutOfService then Inl ErrWriteDenied
          else bind_res (validateWrite synthesized values priority) (\<lambda>_. Inr ()))"

text \<open>Writes to a non-commandable Present_Value are accepted while the object is out of service.\<close>

definition bypasses_writable :: "SimObject \<Rightarrow> u32 \<Rightarrow> SimProperty \<Rightarrow> bool" where
  "bypasses_writable obj propertyID property \<longleftrightarrow>
     propertyID = PropertyPresentValue \<and> so_OutOfService obj \<and> sp_RelinquishDefault property = None"

definition ValidateWrite :: "SimDevice \<Rightarrow> ObjectID \<Rightarrow> u32 \<Rightarrow> SimValue list \<Rightarrow> u8 \<Rightarrow> unit result" where
  "ValidateWrite d oid propertyID values priority =
     (case map_of (sd_Objects d) oid of
        None \<Rightarrow> Inl ErrUnknownObject
      | Some obj \<Rightarrow>
          (case get_property obj propertyID of
             None \<Rightarrow> validateSynthesizedWrite obj propertyID values priority
           | Some property \<Rightarrow>
               if bypasses_writable obj propertyID property
               then bind_res (validateWriteBypassingWritable property values priority) (\<lambda>_. Inr ())
               else bind_res (validateWrite property values priority) (\<lambda>_. Inr ())))"

definition writeSynthesizedProperty :: "SimObject \<Rightarrow> u32 \<Rightarrow> SimValue list \<Rightarrow> u8 \<Rightarrow> SimObject result" where
  "writeSynthesizedProperty obj propertyID values priority =
     (case synthesizedProperty obj propertyID of
        None \<Rightarrow> Inl ErrUnknownProperty
      | Some synthesized \<Rightarrow>
          if propertyID \<noteq> PropertyOutOfService then Inl ErrWriteDenied
          else bind_res (validateWrite synthesized values priority) (\<lambda>_.
            if values = [] then Inl Panic
            else Inr (obj\<lparr>so_OutOfService := (v_Value (values ! 0) = Any (VBool True))\<rparr>)))"

definition set_property :: "u32 \<Rightarrow> SimProperty \<Rightarrow> SimObject \<Rightarrow> SimObject" where
  "set_property propertyID p obj = obj\<lparr>so_Properties := AList.update propertyID p (so_Properties obj)\<rparr>"

definition set_object :: "ObjectID \<Rightarrow> SimObject \<Rightarrow> SimDevice \<Rightarrow> SimDevice" where
  "set_object oid obj d = d\<lparr>sd_Objects := AList.update oid obj (sd_Objects d)\<rparr>"

definition Object_WriteProperty :: "SimObject \<Rightarrow> u32 \<Rightarrow> SimValue list \<Rightarrow> u8 \<Rightarrow> SimObject result" where
  "Object_WriteProperty obj propertyID values priority =
     (case get_property obj propertyID of
        None \<Rightarrow> writeSynthesizedProperty obj propertyID values priority
      | Some property \<Rightarrow>
          bind_res (if bypasses_writable obj propertyID property
                    then writeBypassingWritable property values priority
                    else SimProperty_Write property values priority)
            (\<lambda>p. Inr (set_property propertyID p obj)))"

definition Device_WriteProperty ::
    "SimDevice \<Rightarrow> ObjectID \<Rightarrow> u32 \<Rightarrow> SimValue list \<Rightarrow> u8 \<Rightarrow> unit result \<times> SimDevice" where
  "Device_WriteProperty d oid propertyID values priority =
     (case map_of (sd_Objects d) oid of
        None \<Rightarrow> (Inl ErrUnknownObject, d)
      | Some obj \<Rightarrow>
          (case Object_WriteProperty obj propertyID values priority of
             Inl e \<Rightarrow> (Inl e, d)
           | Inr obj' \<Rightarrow> (Inr (), set_object oid obj' d)))"

text \<open>\<^verbatim>\<open>scalarProperty\<close> is declared in \<^verbatim>\<open>scenario.go\<close>.\<close>

definition scalarProperty :: "u32 \<Rightarrow> u8 \<Rightarrow> sim_any \<Rightarrow> bool \<Rightarrow> SimProperty" where
  "scalarProperty pid tag value writable = SimProperty_zero\<lparr>sp_ID := pid, sp_Writable := writable,
     sp_Values := [\<lparr>v_Tag = tag, v_Value = value\<rparr>], sp_Scalar := True, sp_ExpectedTag := tag\<rparr>"

definition SetLocalTime :: "Date \<Rightarrow> Time \<Rightarrow> SimDevice \<Rightarrow> SimDevice" where
  "SetLocalTime date clock d =
     (let deviceID = \<lparr>id_Type = 8, id_Instance = sd_ID d\<rparr> in
      case map_of (sd_Objects d) deviceID of
        None \<Rightarrow> d
      | Some obj \<Rightarrow>
          set_object deviceID
            (set_property PropertyLocalTime (scalarProperty PropertyLocalTime TagTime (Any (VTime clock)) False)
              (set_property PropertyLocalDate (scalarProperty PropertyLocalDate TagDate (Any (VDate date)) False) obj)) d)"

section \<open>The network\<close>

type_synonym SimNetwork = "(u32 \<times> SimDevice) list"

definition NewNetwork :: SimNetwork where "NewNetwork = []"

definition AddDevice :: "SimDevice option \<Rightarrow> SimNetwork \<Rightarrow> unit result \<times> SimNetwork" where
  "AddDevice device n =
     (case device of
        None \<Rightarrow> (Inl (Err ''device is required''), n)
      | Some d \<Rightarrow>
          if sd_ID d > MaxObjectInstance then (Inl (Err ''device id %d exceeds BACnet object-instance range''), n)
          else if map_of n (sd_ID d) \<noteq> None then (Inl (Err ''duplicate device id %d''), n)
          else (Inr (), AList.update (sd_ID d) d n))"

definition Network_Device :: "SimNetwork \<Rightarrow> u32 \<Rightarrow> SimDevice result" where
  "Network_Device n did = (case map_of n did of None \<Rightarrow> Inl ErrUnknownDevice | Some d \<Rightarrow> Inr d)"

section \<open>The command priorities\<close>

text \<open>
  The specification of a commandable property: a table of commands by priority, of which the one with
  the lowest number is in effect, and the relinquish default when there is none.
\<close>

definition commands :: "SimProperty \<Rightarrow> nat \<rightharpoonup> SimValue" where
  "commands p k = (if 1 \<le> k \<and> k \<le> length (sp_priorities p) then sp_priorities p ! (k - 1) else None)"

definition in_effect :: "(nat \<rightharpoonup> SimValue) \<Rightarrow> SimValue \<Rightarrow> SimValue" where
  "in_effect cmds d = (if dom cmds = {} then d else the (cmds (LEAST k. k \<in> dom cmds)))"

definition command_of :: "SimValue \<Rightarrow> SimValue option" where
  "command_of v = (if is_null v then None else Some v)"

lemma first_set_None: "first_set xs = None \<longleftrightarrow> (\<forall>i<length xs. xs ! i = None)"
  by (induction xs rule: first_set.induct) (auto simp: All_less_Suc2)

lemma first_set_Some:
  "first_set xs = Some v \<longleftrightarrow> (\<exists>i<length xs. xs ! i = Some v \<and> (\<forall>j<i. xs ! j = None))"
proof (induction xs rule: first_set.induct)
  case (3 w xs)
  show ?case by (auto simp: Ex_less_Suc2 intro: exI [of _ 0])
qed (auto simp: Ex_less_Suc2 All_less_Suc2)

lemma effectiveValues_spec:
  assumes "sp_RelinquishDefault p = Some d"
  shows "effectiveValues p = [in_effect (commands p) d]"
proof (cases "first_set (sp_priorities p)")
  case None
  then have "dom (commands p) = {}" by (auto simp: first_set_None commands_def dom_def)
  with None assms show ?thesis by (simp add: effectiveValues_def in_effect_def)
next
  case (Some v)
  then obtain i where i: "i < length (sp_priorities p)" "sp_priorities p ! i = Some v"
    "\<And>j. j < i \<Longrightarrow> sp_priorities p ! j = None" by (auto simp: first_set_Some)
  have k: "commands p (Suc i) = Some v" using i by (simp add: commands_def)
  have "(LEAST k. k \<in> dom (commands p)) = Suc i"
  proof (rule Least_equality)
    show "Suc i \<in> dom (commands p)" using k by auto
    fix y assume "y \<in> dom (commands p)"
    then have "\<not> y - 1 < i" "1 \<le> y" using i(3) [of "y - 1"] by (auto simp: commands_def split: if_splits)
    then show "Suc i \<le> y" by linarith
  qed
  with k Some assms show ?thesis by (auto simp: effectiveValues_def in_effect_def)
qed

section \<open>Well-formed properties\<close>

definition admissible :: "SimProperty \<Rightarrow> SimValue \<Rightarrow> bool" where
  "admissible p v \<longleftrightarrow> \<not> is_null v \<and> (sp_Scalar p \<longrightarrow> v_Tag v = sp_ExpectedTag p)
     \<and> (sp_MaximumUnsigned p \<noteq> 0 \<longrightarrow> (\<exists>n. v_Value v = Any (VUint32 n) \<and> sp_MinimumUnsigned p \<le> n \<and> n \<le> sp_MaximumUnsigned p))"

definition property_inv :: "SimProperty \<Rightarrow> bool" where
  "property_inv p \<longleftrightarrow> length (sp_priorities p) = 16 \<and> sp_priorities p ! 5 = None
     \<and> (case sp_RelinquishDefault p of
          Some d \<Rightarrow> (sp_Scalar p \<longrightarrow> admissible p d \<and> (\<forall>v. Some v \<in> set (sp_priorities p) \<longrightarrow> admissible p v))
        | None \<Rightarrow> (sp_Scalar p \<longrightarrow> (\<exists>v. sp_Values p = [v] \<and> admissible p v)))"

text \<open>What a write can change: the stored values and the priorities.\<close>

definition configuration :: "SimProperty \<Rightarrow> SimProperty" where
  "configuration p = p\<lparr>sp_Values := [], sp_priorities := []\<rparr>"

lemma validateValues_scalar:
  assumes "validateValues p values = Inr u" "sp_Scalar p"
  shows "\<exists>v. values = [v] \<and> (is_null v \<and> sp_RelinquishDefault p \<noteq> None \<or> admissible p v)"
  using assms
  by (cases "values") (auto simp: validateValues_def admissible_def Let_def split: if_splits sim_any.splits go_value.splits)

lemma validateWrite_resolved:
  assumes "validateWriteAllowingReadOnly p values priority w = Inr k" "sp_RelinquishDefault p \<noteq> None"
  shows "k = (if priority = 0 then 16 else priority)"
  using assms by (auto simp: validateWriteAllowingReadOnly_def bind_res_eq_Inr Let_def PrioritySlots_def split: if_splits)

lemma validateWrite_priority:
  assumes "validateWriteAllowingReadOnly p values priority w = Inr k" "sp_RelinquishDefault p \<noteq> None"
  shows "1 \<le> unat k \<and> unat k \<le> 16 \<and> unat k \<noteq> 6 \<and> unat (k - 1) = unat k - 1 \<and> values \<noteq> []"
proof -
  have k: "\<not> k < 1" "\<not> k > 16" "k \<noteq> 6" "values \<noteq> []"
    using assms by (auto simp: validateWriteAllowingReadOnly_def bind_res_eq_Inr Let_def PrioritySlots_def split: if_splits)
  then have "1 \<le> k" "k \<le> 16" by (simp_all only: not_less)
  then have n: "1 \<le> unat k" "unat k \<le> 16" by (simp_all add: word_le_nat_alt)
  have "unat k \<noteq> unat (6 :: u8)" using k(3) by (simp only: unsigned_word_eqI word_unat_eq_iff not_False_eq_True)
  with n k show ?thesis by (simp add: unat_minus_one)
qed

lemma apply_write_commands:
  assumes "validateWriteAllowingReadOnly p values priority w = Inr k" "sp_RelinquishDefault p = Some d"
    and "length (sp_priorities p) = 16"
  shows "\<exists>p'. apply_write p values k = Inr p' \<and> p' = p\<lparr>sp_priorities := (sp_priorities p)[unat k - 1 := command_of (values ! 0)]\<rparr>
    \<and> commands p' = (commands p)(unat k := command_of (values ! 0))"
proof -
  note k = validateWrite_priority [OF assms(1)]
  have lt: "unat k - 1 < 16" using k assms(2) by auto
  have "commands (p\<lparr>sp_priorities := (sp_priorities p)[unat k - 1 := c]\<rparr>) = (commands p)(unat k := c)" for c
    using k assms(2,3) by (intro ext) (auto simp: commands_def nth_list_update fun_upd_def)
  with k lt assms show ?thesis by (simp add: apply_write_def command_of_def)
qed

lemma apply_write_plain:
  "sp_RelinquishDefault p = None \<Longrightarrow> apply_write p values k = Inr (p\<lparr>sp_Values := values\<rparr>)"
  by (simp add: apply_write_def)

lemma apply_write_configuration:
  "apply_write p values k = Inr p' \<Longrightarrow> configuration p' = configuration p"
  by (auto simp: apply_write_def configuration_def split: if_splits)

lemma admissible_cong:
  "sp_Scalar p' = sp_Scalar p \<Longrightarrow> sp_ExpectedTag p' = sp_ExpectedTag p \<Longrightarrow> sp_MaximumUnsigned p' = sp_MaximumUnsigned p
    \<Longrightarrow> sp_MinimumUnsigned p' = sp_MinimumUnsigned p \<Longrightarrow> admissible p' v = admissible p v"
  by (simp add: admissible_def)

lemma validated_values:
  "validateWriteAllowingReadOnly p values priority w = Inr k \<Longrightarrow> validateValues p values = Inr ()"
  by (auto simp: validateWriteAllowingReadOnly_def bind_res_eq_Inr split: if_splits)

lemma apply_write_inv:
  assumes v: "validateWriteAllowingReadOnly p values priority w = Inr k" and i: "property_inv p"
  shows "\<exists>p'. apply_write p values k = Inr p' \<and> property_inv p'"
proof (cases "sp_RelinquishDefault p")
  case None
  with i v validateValues_scalar [OF validated_values [OF v]]
  have "property_inv (p\<lparr>sp_Values := values\<rparr>)"
    by (auto simp: property_inv_def admissible_def)
  with None show ?thesis by (simp add: apply_write_plain)
next
  case (Some d)
  have n: "length (sp_priorities p) = 16" using i by (simp add: property_inv_def)
  note k = validateWrite_priority [OF v]
  obtain p' where p': "apply_write p values k = Inr p'"
    "p' = p\<lparr>sp_priorities := (sp_priorities p)[unat k - 1 := command_of (values ! 0)]\<rparr>"
    using apply_write_commands [OF v Some n] by blast
  have "unat k - 1 \<noteq> 5" using k Some by auto
  then have "sp_priorities p' ! 5 = None" using i by (simp add: p'(2) property_inv_def)
  moreover have "admissible p' u" if "sp_Scalar p" "Some u \<in> set (sp_priorities p')" for u
  proof -
    have "Some u \<in> insert (command_of (values ! 0)) (set (sp_priorities p))"
      using that(2) set_update_subset_insert by (fastforce simp: p'(2))
    then have "admissible p u" using i Some that(1) validateValues_scalar [OF validated_values [OF v]]
      by (auto simp: property_inv_def command_of_def split: if_splits)
    then show ?thesis by (simp add: p'(2) admissible_def)
  qed
  moreover have "sp_Scalar p \<longrightarrow> admissible p' d" using i Some by (simp add: property_inv_def p'(2) admissible_def)
  ultimately have "property_inv p'" using n Some p'(2) by (simp add: property_inv_def)
  with p'(1) show ?thesis by blast
qed

lemma effective_admissible:
  assumes "property_inv p" "sp_Scalar p"
  shows "\<exists>v. effectiveValues p = [v] \<and> admissible p v"
proof (cases "sp_RelinquishDefault p")
  case None
  with assms show ?thesis by (auto simp: effectiveValues_def property_inv_def)
next
  case (Some d)
  have "Some v \<in> set (sp_priorities p)" if "first_set (sp_priorities p) = Some v" for v
    using that by (auto simp: first_set_Some) (metis nth_mem)
  with Some assms show ?thesis by (auto simp: effectiveValues_def property_inv_def split: option.splits)
qed


section \<open>Well-formed devices\<close>

definition object_inv :: "SimObject \<Rightarrow> bool" where
  "object_inv obj \<longleftrightarrow> distinct (map fst (so_Properties obj))
     \<and> (\<forall>pid p. get_property obj pid = Some p \<longrightarrow> property_inv p)"

definition device_inv :: "SimDevice \<Rightarrow> bool" where
  "device_inv d \<longleftrightarrow> distinct (map fst (sd_Objects d))
     \<and> (\<forall>oid obj. map_of (sd_Objects d) oid = Some obj \<longrightarrow> so_ID obj = oid \<and> object_inv obj)"

lemma get_set_property [simp]:
  "get_property (set_property pid p obj) pid' = (if pid' = pid then Some p else get_property obj pid')"
  by (simp add: set_property_def update_conv')

lemma set_property_sel [simp]:
  "so_ID (set_property pid p obj) = so_ID obj" "so_Name (set_property pid p obj) = so_Name obj"
  "so_OutOfService (set_property pid p obj) = so_OutOfService obj"
  by (simp_all add: set_property_def)

lemma get_set_object [simp]:
  "map_of (sd_Objects (set_object oid obj d)) oid' = (if oid' = oid then Some obj else map_of (sd_Objects d) oid')"
  by (simp add: set_object_def update_conv')

lemma set_object_sel [simp]:
  "sd_ID (set_object oid obj d) = sd_ID d" "sd_VendorID (set_object oid obj d) = sd_VendorID d"
  by (simp_all add: set_object_def)

lemma object_inv_set_property:
  "object_inv obj \<Longrightarrow> property_inv p \<Longrightarrow> object_inv (set_property pid p obj)"
  by (auto simp: object_inv_def set_property_def update_conv' distinct_update)

lemma device_inv_set_object:
  "device_inv d \<Longrightarrow> object_inv obj \<Longrightarrow> so_ID obj = oid \<Longrightarrow> device_inv (set_object oid obj d)"
  by (auto simp: device_inv_def set_object_def update_conv' distinct_update)

text \<open>Both ways to write a stored property apply the same validated mutation.\<close>

definition write_allowed :: "SimObject \<Rightarrow> u32 \<Rightarrow> SimProperty \<Rightarrow> bool" where
  "write_allowed obj pid p \<longleftrightarrow> sp_Writable p \<or> bypasses_writable obj pid p"

lemma Object_WriteProperty_stored:
  assumes "get_property obj pid = Some p"
  shows "Object_WriteProperty obj pid values priority =
    bind_res (validateWriteAllowingReadOnly p values priority (write_allowed obj pid p)) (\<lambda>k.
      bind_res (apply_write p values k) (\<lambda>p'. Inr (set_property pid p' obj)))"
  using assms
  by (auto simp: Object_WriteProperty_def SimProperty_Write_def writeBypassingWritable_def validateWrite_def
      write_allowed_def bind_res_assoc)

lemma ValidateWrite_stored:
  assumes "map_of (sd_Objects d) oid = Some obj" "get_property obj pid = Some p"
  shows "ValidateWrite d oid pid values priority =
    bind_res (validateWriteAllowingReadOnly p values priority (write_allowed obj pid p)) (\<lambda>_. Inr ())"
  using assms
  by (auto simp: ValidateWrite_def validateWrite_def validateWriteBypassingWritable_def write_allowed_def)

lemma Object_WriteProperty_synthesized:
  assumes "get_property obj pid = None"
  shows "Object_WriteProperty obj pid values priority =
    bind_res (validateSynthesizedWrite obj pid values priority) (\<lambda>_.
      Inr (obj\<lparr>so_OutOfService := (v_Value (values ! 0) = Any (VBool True))\<rparr>))"
proof -
  have "values \<noteq> []" if "validateWrite p values priority = Inr k" for p k
    using that by (auto simp: validateWrite_def validateWriteAllowingReadOnly_def split: if_splits)
  then show ?thesis using assms
    by (auto simp: Object_WriteProperty_def writeSynthesizedProperty_def validateSynthesizedWrite_def bind_res_def
        split: option.splits sum.splits)
qed

lemma Object_WriteProperty_validated:
  assumes "object_inv obj" "map_of (sd_Objects d) oid = Some obj"
  shows "bind_res (Object_WriteProperty obj pid values priority) (\<lambda>_. Inr ()) = ValidateWrite d oid pid values priority"
proof (cases "get_property obj pid")
  case None
  with assms show ?thesis
    by (simp add: Object_WriteProperty_synthesized bind_res_assoc ValidateWrite_def) (simp add: bind_res_def split: sum.splits)
next
  case (Some p)
  then have "property_inv p" using assms(1) by (auto simp: object_inv_def)
  with apply_write_inv show ?thesis
    by (fastforce simp: Object_WriteProperty_stored [OF Some] ValidateWrite_stored [OF assms(2) Some] bind_res_def
        split: sum.splits)
qed

lemma Object_WriteProperty_inv:
  assumes "object_inv obj" "Object_WriteProperty obj pid values priority = Inr obj'"
  shows "object_inv obj' \<and> so_ID obj' = so_ID obj \<and> so_Name obj' = so_Name obj"
proof (cases "get_property obj pid")
  case None
  with assms show ?thesis by (auto simp: Object_WriteProperty_synthesized bind_res_eq_Inr object_inv_def)
next
  case (Some p)
  then have "property_inv p" using assms(1) by (auto simp: object_inv_def)
  with apply_write_inv assms show ?thesis
    by (fastforce simp: Object_WriteProperty_stored [OF Some] bind_res_eq_Inr intro: object_inv_set_property)
qed

lemma device_inv_object:
  "device_inv d \<Longrightarrow> map_of (sd_Objects d) oid = Some obj \<Longrightarrow> so_ID obj = oid"
  "device_inv d \<Longrightarrow> map_of (sd_Objects d) oid = Some obj \<Longrightarrow> object_inv obj"
  by (auto simp: device_inv_def)

lemma device_inv_WriteProperty:
  assumes "device_inv d"
  shows "device_inv (snd (Device_WriteProperty d oid pid values priority))"
proof (cases "map_of (sd_Objects d) oid")
  case (Some obj)
  note obj = device_inv_object [OF assms Some]
  show ?thesis using assms obj
    by (auto simp: Device_WriteProperty_def Some split: sum.splits dest!: Object_WriteProperty_inv [OF obj(2)]
        intro: device_inv_set_object)
qed (simp add: Device_WriteProperty_def assms)

lemma property_inv_scalar: "\<not> is_null \<lparr>v_Tag = tag, v_Value = x\<rparr> \<Longrightarrow> property_inv (scalarProperty pid tag x w)"
  by (simp add: property_inv_def scalarProperty_def SimProperty_zero_def admissible_def)

lemma device_inv_SetLocalTime: 
  assumes "device_inv d"
  shows "device_inv (SetLocalTime date clock d)"
proof (cases "map_of (sd_Objects d) \<lparr>id_Type = 8, id_Instance = sd_ID d\<rparr>")
  case (Some obj)
  note obj = device_inv_object [OF assms Some]
  have "property_inv (scalarProperty PropertyLocalDate TagDate (Any (VDate date)) False)"
    "property_inv (scalarProperty PropertyLocalTime TagTime (Any (VTime clock)) False)"
    by (simp_all add: property_inv_scalar is_null_def)
  then show ?thesis using assms obj
    by (simp add: SetLocalTime_def Some device_inv_set_object object_inv_set_property)
qed (simp add: SetLocalTime_def assms)

lemma WriteProperty_ValidateWrite:
  assumes "device_inv d"
  shows "fst (Device_WriteProperty d oid pid values priority) = ValidateWrite d oid pid values priority"
proof (cases "map_of (sd_Objects d) oid")
  case None
  then show ?thesis by (simp add: Device_WriteProperty_def ValidateWrite_def)
next
  case (Some obj)
  with assms have "object_inv obj" by (simp add: device_inv_def)
  from Object_WriteProperty_validated [OF this Some, of pid "values" priority] show ?thesis
    by (auto simp: Device_WriteProperty_def Some bind_res_def split: sum.splits)
qed

lemma ValidateWrite_not_Panic: "ValidateWrite d oid pid values priority \<noteq> Inl Panic"
proof -
  have v: "validateWriteAllowingReadOnly p vs k w \<noteq> Inl Panic" for p vs k w
    by (auto simp: validateWriteAllowingReadOnly_def validateValues_def bind_res_eq_Inl Let_def model_errors
        split: if_splits sim_any.splits go_value.splits)
  show ?thesis
    using v by (auto simp: ValidateWrite_def validateSynthesizedWrite_def validateWrite_def validateWriteBypassingWritable_def
        bind_res_eq_Inl model_errors split: option.splits)
qed

section \<open>Properties of reads and writes\<close>

lemma validateWrite_nonempty: "validateWriteAllowingReadOnly p values priority w = Inr k \<Longrightarrow> values \<noteq> []"
  by (auto simp: validateWriteAllowingReadOnly_def split: if_splits)

lemma WriteProperty_stored_commandable:
  assumes "device_inv d" "map_of (sd_Objects d) oid = Some obj" "get_property obj pid = Some p"
    and "sp_RelinquishDefault p = Some def" "Device_WriteProperty d oid pid values priority = (Inr (), d')"
  shows "\<exists>p'. d' = set_object oid (set_property pid p' obj) d \<and> sp_RelinquishDefault p' = Some def
    \<and> commands p' = (commands p)((if priority = 0 then 16 else unat priority) := command_of (values ! 0))
    \<and> length (sp_priorities p') = 16 \<and> sp_Array p' = sp_Array p"
proof -
  have inv: "property_inv p" using device_inv_object(2) [OF assms(1,2)] assms(3) by (auto simp: object_inv_def)
  then have n: "length (sp_priorities p) = 16" by (simp add: property_inv_def)
  obtain k p' where k: "validateWriteAllowingReadOnly p values priority (write_allowed obj pid p) = Inr k"
    and p': "apply_write p values k = Inr p'" and d': "d' = set_object oid (set_property pid p' obj) d"
    using assms(5) by (auto simp: Device_WriteProperty_def assms(2) Object_WriteProperty_stored [OF assms(3)] bind_res_eq_Inr
        bind_res_eq_Inl split: sum.splits)
  have "unat k = (if priority = 0 then 16 else unat priority)" using validateWrite_resolved [OF k] assms(4) by simp
  with apply_write_commands [OF k assms(4) n] p' d' n assms(4) show ?thesis by auto
qed

text \<open>C10. A commandable property refines a table of commands by priority.  An accepted write to the Present_Value sets
  or, for a NULL, relinquishes the command at the priority of the write, 16 when it names none, and no other command;
  reading the Present_Value then gives the command with the lowest number that is set, and the relinquish default
  when there is none.  Reading the synthesized Priority_Array gives the table slot by slot, with NULL in the
  empty slots, and Relinquish_Default the default.\<close>

theorem command_priorities_refined:
  assumes "device_inv d" "map_of (sd_Objects d) oid = Some obj" "get_property obj PropertyPresentValue = Some p"
    and "sp_RelinquishDefault p = Some def"
    and "get_property obj PropertyPriorityArray = None" "get_property obj PropertyRelinquishDefault = None"
    and "Device_WriteProperty d oid PropertyPresentValue values priority = (Inr (), d')"
    and "cmds = (commands p)((if priority = 0 then 16 else unat priority) := command_of (values ! 0))"
  shows "Device_ReadProperty d' oid PropertyPresentValue None = Inr [in_effect cmds def]
    \<and> Device_ReadProperty d' oid PropertyRelinquishDefault None = Inr [def]
    \<and> (\<forall>i. 1 \<le> i \<and> i \<le> 16 \<longrightarrow> Device_ReadProperty d' oid PropertyPriorityArray (Some (word_of_nat i)) =
          Inr [case cmds i of Some v \<Rightarrow> v | None \<Rightarrow> \<lparr>v_Tag = TagNull, v_Value = Any VNil\<rparr>])"
proof -
  obtain p' where d': "d' = set_object oid (set_property PropertyPresentValue p' obj) d"
    and r: "sp_RelinquishDefault p' = Some def" and c: "commands p' = cmds" and n: "length (sp_priorities p') = 16"
    using WriteProperty_stored_commandable [OF assms(1-4,7)] assms(8) by blast
  have "Device_ReadProperty d' oid PropertyPriorityArray (Some (word_of_nat i)) =
      Inr [case cmds i of Some v \<Rightarrow> v | None \<Rightarrow> \<lparr>v_Tag = TagNull, v_Value = Any VNil\<rparr>]" if i: "1 \<le> i" "i \<le> 16" for i
  proof -
    have w: "unat (word_of_nat i :: u32) = i" using i by (simp add: unsigned_of_nat take_bit_nat_eq_self)
    then have "word_of_nat i \<noteq> (0 :: u32)" "word_of_nat i \<noteq> (- 1 :: u32)" "\<not> (16 :: u32) < word_of_nat i"
      using i by (auto simp: word_less_nat_alt unsigned_minus_1_eq_mask mask_eq_exp_minus_1)
    moreover have "unat (word_of_nat i - 1 :: u32) = i - 1" using w i \<open>word_of_nat i \<noteq> (0 :: u32)\<close> by (simp add: unat_minus_one)
    moreover have "commands p' i = sp_priorities p' ! (i - 1)" using i n by (simp add: commands_def)
    ultimately show ?thesis using r n i assms(5) c
      by (simp add: Device_ReadProperty_def d' synthesizedProperty_def priorityArrayProperty_def SimProperty_Read_def
          effectiveValues_def SimProperty_zero_def)
  qed
  moreover have "Device_ReadProperty d' oid PropertyPresentValue None = Inr [in_effect cmds def]"
    by (simp add: Device_ReadProperty_def d' SimProperty_Read_def effectiveValues_spec [OF r] c)
  moreover have "Device_ReadProperty d' oid PropertyRelinquishDefault None = Inr [def]" using r assms(6)
    by (simp add: Device_ReadProperty_def d' SimProperty_Read_def synthesizedProperty_def relinquishDefaultProperty_def
        effectiveValues_def SimProperty_zero_def)
  ultimately show ?thesis by blast
qed


theorem command_priorities_refined_witness:
  "let p = SimProperty_zero\<lparr>sp_ID := 85, sp_Writable := True, sp_Scalar := True, sp_ExpectedTag := 9,
             sp_RelinquishDefault := Some \<lparr>v_Tag = 9, v_Value = Any (VUint32 0)\<rparr>\<rparr>;
       oid = \<lparr>id_Type = 4, id_Instance = 1\<rparr>;
       d = \<lparr>sd_ID = 5, sd_Name = [], sd_Address = [], sd_Port = 0, sd_VendorID = 0, sd_ModelName = [],
            sd_Objects = [(oid, \<lparr>so_ID = oid, so_Name = [], so_Properties = [(85, p)], so_OutOfService = False\<rparr>)]\<rparr>
   in Device_ReadProperty (snd (Device_WriteProperty d oid 85 [\<lparr>v_Tag = 9, v_Value = Any (VUint32 1)\<rparr>] 8)) oid 87 (Some 8)
      = Inr [\<lparr>v_Tag = 9, v_Value = Any (VUint32 1)\<rparr>]"
proof -
  let ?p = "SimProperty_zero\<lparr>sp_ID := 85, sp_Writable := True, sp_Scalar := True, sp_ExpectedTag := 9,
             sp_RelinquishDefault := Some \<lparr>v_Tag = 9, v_Value = Any (VUint32 0)\<rparr>\<rparr> :: SimProperty"
  let ?oid = "\<lparr>id_Type = 4, id_Instance = 1\<rparr> :: ObjectID"
  let ?obj = "\<lparr>so_ID = ?oid, so_Name = [], so_Properties = [(85, ?p)], so_OutOfService = False\<rparr> :: SimObject"
  let ?d = "\<lparr>sd_ID = 5, sd_Name = [], sd_Address = [], sd_Port = 0, sd_VendorID = 0, sd_ModelName = [],
            sd_Objects = [(?oid, ?obj)]\<rparr> :: SimDevice"
  let ?vs = "[\<lparr>v_Tag = 9, v_Value = Any (VUint32 1)\<rparr> :: SimValue]"
  have inv: "device_inv ?d"
    by (simp add: device_inv_def object_inv_def property_inv_def SimProperty_zero_def admissible_def is_null_def)
  have w: "Device_WriteProperty ?d ?oid 85 ?vs 8 = (Inr (), snd (Device_WriteProperty ?d ?oid 85 ?vs 8))"
    by code_simp
  from command_priorities_refined [OF inv _ _ _ _ _ w refl, of ?obj ?p "\<lparr>v_Tag = 9, v_Value = Any (VUint32 0)\<rparr>"]
  have "\<forall>i. 1 \<le> i \<and> i \<le> 16 \<longrightarrow> Device_ReadProperty (snd (Device_WriteProperty ?d ?oid 85 ?vs 8)) ?oid 87 (Some (word_of_nat i)) =
          Inr [case ((commands ?p)((if 8 = (0 :: u8) then 16 else unat (8 :: u8)) := command_of (?vs ! 0))) i of
            Some v \<Rightarrow> v | None \<Rightarrow> \<lparr>v_Tag = 0, v_Value = Any VNil\<rparr>]" by simp
  from this [rule_format, of 8] show ?thesis by (simp add: command_of_def is_null_def Let_def)
qed

text \<open>C11. A write has the outcome its validation predicts: on every well-formed device \<^verbatim>\<open>WriteProperty\<close> succeeds
  exactly when \<^verbatim>\<open>ValidateWrite\<close> does, fails with the same error otherwise, never panics, and a write that fails
  leaves the device as it was.\<close>

theorem write_validated:
  assumes "device_inv d"
  shows "fst (Device_WriteProperty d oid pid values priority) = ValidateWrite d oid pid values priority
    \<and> ValidateWrite d oid pid values priority \<noteq> Inl Panic
    \<and> (\<forall>e. fst (Device_WriteProperty d oid pid values priority) = Inl e \<longrightarrow> snd (Device_WriteProperty d oid pid values priority) = d)"
proof -
  note ValidateWrite_not_Panic
  moreover have "snd (Device_WriteProperty d oid pid values priority) = d"
    if "fst (Device_WriteProperty d oid pid values priority) = Inl e" for e
    using that by (auto simp: Device_WriteProperty_def split: option.splits sum.splits)
  ultimately show ?thesis using WriteProperty_ValidateWrite [OF assms] by blast
qed

theorem write_validated_witness:
  "let d = \<lparr>sd_ID = 5, sd_Name = [], sd_Address = [], sd_Port = 0, sd_VendorID = 0, sd_ModelName = [], sd_Objects = []\<rparr>
   in Device_WriteProperty d \<lparr>id_Type = 2, id_Instance = 1\<rparr> 85 [] 0 = (Inl ErrUnknownObject, d)"
proof -
  let ?d = "\<lparr>sd_ID = 5, sd_Name = [], sd_Address = [], sd_Port = 0, sd_VendorID = 0, sd_ModelName = [], sd_Objects = []\<rparr> :: SimDevice"
  have "device_inv ?d" by (simp add: device_inv_def)
  from write_validated [OF this, of "\<lparr>id_Type = 2, id_Instance = 1\<rparr>" 85 "[]" 0] show ?thesis
    by (simp add: ValidateWrite_def Let_def prod_eq_iff)
qed

text \<open>C12. A write that is accepted takes effect and touches nothing else: the properties of every other object, and every
  other stored property of the object, read as before; a property that is not commandable reads back as the values
  written; a commandable one reads as the command with the lowest number, the written one being set, or relinquished by
  a NULL, at the priority of the write, and as the relinquish default when no command is set; and Out_Of_Service reads
  back as the Boolean written, with Status_Flags following it.\<close>

theorem write_effect:
  assumes "device_inv d" "map_of (sd_Objects d) oid = Some obj"
    and "Device_WriteProperty d oid pid values priority = (Inr (), d')"
  shows "(\<forall>oid' pid' i. oid' \<noteq> oid \<longrightarrow> Device_ReadProperty d' oid' pid' i = Device_ReadProperty d oid' pid' i)
    \<and> (\<forall>pid' i. pid' \<noteq> pid \<and> get_property obj pid' \<noteq> None \<longrightarrow> Device_ReadProperty d' oid pid' i = Device_ReadProperty d oid pid' i)
    \<and> (\<forall>p. get_property obj pid = Some p \<and> sp_RelinquishDefault p = None \<longrightarrow> Device_ReadProperty d' oid pid None = Inr values)
    \<and> (\<forall>p def. get_property obj pid = Some p \<and> sp_RelinquishDefault p = Some def \<longrightarrow> Device_ReadProperty d' oid pid None =
          Inr [in_effect ((commands p)((if priority = 0 then 16 else unat priority) := command_of (values ! 0))) def])
    \<and> (get_property obj pid = None \<longrightarrow> pid = PropertyOutOfService
        \<and> (\<exists>b. values = [\<lparr>v_Tag = TagBoolean, v_Value = b\<rparr>]
            \<and> Device_ReadProperty d' oid PropertyOutOfService None = Inr [\<lparr>v_Tag = TagBoolean, v_Value = Any (VBool (b = Any (VBool True)))\<rparr>]
            \<and> (get_property obj PropertyStatusFlags = None \<longrightarrow> Device_ReadProperty d' oid PropertyStatusFlags None =
                 Inr [\<lparr>v_Tag = TagBitString, v_Value = Any (VBitString [if b = Any (VBool True) then 8 else 0])\<rparr>])))"
proof (cases "get_property obj pid")
  case (Some p)
  obtain k p' where p': "apply_write p values k = Inr p'" and d': "d' = set_object oid (set_property pid p' obj) d"
    using assms(3) by (auto simp: Device_WriteProperty_def assms(2) Object_WriteProperty_stored [OF Some] bind_res_eq_Inr
        bind_res_eq_Inl split: sum.splits)
  have "sp_Values p' = values \<and> sp_RelinquishDefault p' = None" if "sp_RelinquishDefault p = None"
    using p' that by (auto simp: apply_write_plain)
  moreover have "Device_ReadProperty d' oid pid None =
      Inr [in_effect ((commands p)((if priority = 0 then 16 else unat priority) := command_of (values ! 0))) def]"
    if rd: "sp_RelinquishDefault p = Some def" for def
  proof -
    obtain q where "d' = set_object oid (set_property pid q obj) d" "sp_RelinquishDefault q = Some def"
      "commands q = (commands p)((if priority = 0 then 16 else unat priority) := command_of (values ! 0))"
      using WriteProperty_stored_commandable [OF assms(1,2) Some rd assms(3)] by blast
    then show ?thesis by (simp add: Device_ReadProperty_def SimProperty_Read_def effectiveValues_spec)
  qed
  ultimately show ?thesis using Some
    by (auto simp: Device_ReadProperty_def d' assms(2) SimProperty_Read_def effectiveValues_def)
next
  case None
  from assms(3) obtain obj' where "Object_WriteProperty obj pid values priority = Inr obj'" and d': "d' = set_object oid obj' d"
    by (auto simp: Device_WriteProperty_def assms(2) split: sum.splits)
  then have s: "validateSynthesizedWrite obj pid values priority = Inr ()"
    and obj': "obj' = obj\<lparr>so_OutOfService := (v_Value (values ! 0) = Any (VBool True))\<rparr>"
    by (auto simp: Object_WriteProperty_synthesized [OF None] bind_res_eq_Inr)
  have pid: "pid = PropertyOutOfService" and syn: "synthesizedProperty obj pid = Some (outOfServiceProperty obj)"
    and v: "validateValues (outOfServiceProperty obj) values = Inr ()"
    using s by (auto simp: validateSynthesizedWrite_def synthesizedProperty_def status_property_def validateWrite_def
        validateWriteAllowingReadOnly_def bind_res_eq_Inr split: option.splits if_splits)
  obtain b where b: "values = [\<lparr>v_Tag = TagBoolean, v_Value = b\<rparr>]"
    using validateValues_scalar [OF v]
    by (auto simp: outOfServiceProperty_def SimProperty_zero_def admissible_def) (metis SimValue.surjective unit.exhaust)
  have nd: "id_Type (so_ID obj) \<noteq> 8" using syn pid
    by (auto simp: synthesizedProperty_def status_property_def split: option.splits if_splits)
  show ?thesis using None pid b nd
    by (auto simp: Device_ReadProperty_def d' obj' assms(2) synthesizedProperty_def status_property_def SimProperty_Read_def
        outOfServiceProperty_def statusFlagsProperty_def statusFlagsBitString_def effectiveValues_def SimProperty_zero_def
        split: option.splits)
qed


text \<open>A command at priority 10 while one at priority 8 is set: the earlier one stays in effect.\<close>

theorem write_effect_witness:
  "let p = SimProperty_zero\<lparr>sp_ID := 85, sp_Writable := True, sp_Scalar := True, sp_ExpectedTag := 9,
             sp_RelinquishDefault := Some \<lparr>v_Tag = 9, v_Value = Any (VUint32 0)\<rparr>,
             sp_priorities := (replicate 16 None)[7 := Some \<lparr>v_Tag = 9, v_Value = Any (VUint32 1)\<rparr>]\<rparr>;
       oid = \<lparr>id_Type = 4, id_Instance = 1\<rparr>;
       d = \<lparr>sd_ID = 5, sd_Name = [], sd_Address = [], sd_Port = 0, sd_VendorID = 0, sd_ModelName = [],
            sd_Objects = [(oid, \<lparr>so_ID = oid, so_Name = [], so_Properties = [(85, p)], so_OutOfService = False\<rparr>)]\<rparr>
   in Device_ReadProperty (snd (Device_WriteProperty d oid 85 [\<lparr>v_Tag = 9, v_Value = Any (VUint32 0)\<rparr>] 10)) oid 85 None
      = Inr [in_effect ((commands p)(10 \<mapsto> \<lparr>v_Tag = 9, v_Value = Any (VUint32 0)\<rparr>)) \<lparr>v_Tag = 9, v_Value = Any (VUint32 0)\<rparr>]
     \<and> Device_ReadProperty (snd (Device_WriteProperty d oid 85 [\<lparr>v_Tag = 9, v_Value = Any (VUint32 0)\<rparr>] 10)) oid 85 None
      = Inr [\<lparr>v_Tag = 9, v_Value = Any (VUint32 1)\<rparr>]"
proof -
  let ?p = "SimProperty_zero\<lparr>sp_ID := 85, sp_Writable := True, sp_Scalar := True, sp_ExpectedTag := 9,
             sp_RelinquishDefault := Some \<lparr>v_Tag = 9, v_Value = Any (VUint32 0)\<rparr>,
             sp_priorities := (replicate 16 None)[7 := Some \<lparr>v_Tag = 9, v_Value = Any (VUint32 1)\<rparr>]\<rparr> :: SimProperty"
  let ?oid = "\<lparr>id_Type = 4, id_Instance = 1\<rparr> :: ObjectID"
  let ?obj = "\<lparr>so_ID = ?oid, so_Name = [], so_Properties = [(85, ?p)], so_OutOfService = False\<rparr> :: SimObject"
  let ?d = "\<lparr>sd_ID = 5, sd_Name = [], sd_Address = [], sd_Port = 0, sd_VendorID = 0, sd_ModelName = [],
            sd_Objects = [(?oid, ?obj)]\<rparr> :: SimDevice"
  let ?vs = "[\<lparr>v_Tag = 9, v_Value = Any (VUint32 0)\<rparr> :: SimValue]"
  have inv: "device_inv ?d"
    by (auto simp: device_inv_def object_inv_def property_inv_def SimProperty_zero_def admissible_def is_null_def
        set_conv_nth nth_list_update split: if_splits)
  have w: "Device_WriteProperty ?d ?oid 85 ?vs 10 = (Inr (), snd (Device_WriteProperty ?d ?oid 85 ?vs 10))" by code_simp
  have r: "Device_ReadProperty (snd (Device_WriteProperty ?d ?oid 85 ?vs 10)) ?oid 85 None = Inr [\<lparr>v_Tag = 9, v_Value = Any (VUint32 1)\<rparr>]"
    by code_simp
  from write_effect [OF inv _ w, of ?obj]
  have "Device_ReadProperty (snd (Device_WriteProperty ?d ?oid 85 ?vs 10)) ?oid 85 None
      = Inr [in_effect ((commands ?p)((if 10 = (0 :: u8) then 16 else unat (10 :: u8)) := command_of (?vs ! 0))) \<lparr>v_Tag = 9, v_Value = Any (VUint32 0)\<rparr>]"
    by simp
  with r show ?thesis by (simp add: command_of_def is_null_def Let_def)
qed

end
