(* ===== verification/Sim_Services.thy ===== *)
theory Sim_Services
  imports Sim_Model Pdu_Multiple Request
begin

text \<open>
  The simulator's own service codecs, \<^verbatim>\<open>simulator/services.go\<close>.  A decoder that has reached \<^verbatim>\<open>offset\<close> looks at
  \<^verbatim>\<open>data[offset:]\<close> only, so the model passes that suffix.
\<close>

section \<open>Data\<close>

record SimReference =
  sr_ID :: u32
  sr_ArrayIndex :: "u32 option"

record SimReadSpec =
  rs_Object :: ObjectID
  rs_Properties :: "SimReference list"

record SimResult =
  re_Reference :: SimReference
  re_Values :: "SimValue list"
  re_ErrorClass :: u32
  re_ErrorCode :: u32

record SimReadResult =
  ra_Object :: ObjectID
  ra_Results :: "SimResult list"

record SubscribeCOVRequest =
  sq_ProcessIdentifier :: u32
  sq_Object :: ObjectID
  sq_Confirmed :: bool
  sq_Lifetime :: u32
  sq_Cancel :: bool

record SimWrite =
  sw_Reference :: SimReference
  sw_Values :: "SimValue list"
  sw_Priority :: u8

record SimWriteSpec =
  ws_Object :: ObjectID
  ws_Properties :: "SimWrite list"

definition errWritePriorityOutOfRange :: go_error where
  "errWritePriorityOutOfRange = Err ''WriteProperty priority is out of range''"

section \<open>Conversions\<close>

definition toBACnetObjectID :: "ObjectID \<Rightarrow> ObjectId result" where
  "toBACnetObjectID x = SetInstanceNumber (ObjectId_zero\<lparr>oid_Type := id_Type x\<rparr>) (id_Instance x)"

definition fromBACnetObjectID :: "ObjectId \<Rightarrow> ObjectID" where
  "fromBACnetObjectID x = \<lparr>id_Type = oid_Type x, id_Instance = InstanceNumber x\<rparr>"

text \<open>An identifier of the simulator in a value of another type is a type the codec does not know.\<close>

definition toPropertyValue :: "SimValue \<Rightarrow> PropertyValue result" where
  "toPropertyValue x =
     bind_res
       (case v_Value x of
          AnyID oid \<Rightarrow>
            if v_Tag x = TagObjectId then bind_res (toBACnetObjectID oid) (\<lambda>o1. Inr (VObjectIdPtr (Some o1)))
            else Inr (VOther 0)
        | Any (VString s) \<Rightarrow>
            if v_Tag x = TagCharacterString then Inr (VCharacterString \<lparr>cs_Value = s, cs_Encoding = 0\<rparr>)
            else Inr (VString s)
        | Any v \<Rightarrow> Inr v)
       (\<lambda>v. Inr \<lparr>pv_Type = v_Tag x, pv_Value = v\<rparr>)"

definition fromPropertyValue :: "PropertyValue option \<Rightarrow> SimValue result" where
  "fromPropertyValue x =
     (case x of
        None \<Rightarrow> Inl (Err ''nil property value'')
      | Some p \<Rightarrow> Inr \<lparr>v_Tag = pv_Type p,
          v_Value = (case pv_Value p of
             VCharacterString c \<Rightarrow> Any (VString (cs_Value c))
           | VObjectId o1 \<Rightarrow> AnyID (fromBACnetObjectID o1)
           | v \<Rightarrow> Any v)\<rparr>)"

section \<open>Context tags\<close>

definition decodeContext :: "bytes \<Rightarrow> u8 \<Rightarrow> (bytes \<times> nat) result" where
  "decodeContext data number =
     (if length data = 0 then Inl (Err ''context value is truncated'')
      else (let (tag, headerLength) = DecodeTag data in
        if headerLength = 0 \<or> \<not> IsContext tag number \<or> Opening tag \<or> Closing tag \<or> LenValue tag < 0
           \<or> int (length data) - int headerLength < LenValue tag
        then Inl (Err ''expected context tag %d'')
        else (let end = headerLength + nat (LenValue tag) in Inr (subslice data headerLength end, end))))"

definition decodeContextUnsigned :: "bytes \<Rightarrow> u8 \<Rightarrow> (u32 \<times> nat) result" where
  "decodeContextUnsigned data number =
     (case decodeContext data number of
        Inl e \<Rightarrow> Inl (Err ''invalid unsigned context tag %d'')
      | Inr (value, consumed) \<Rightarrow>
          if length value < 1 \<or> length value > 4 then Inl (Err ''invalid unsigned context tag %d'')
          else Inr (DecodeVarUint value, consumed))"

definition tryDecodeContextUnsigned :: "bytes \<Rightarrow> u8 \<Rightarrow> (u32 \<times> nat) option" where
  "tryDecodeContextUnsigned data number =
     (if length data = 0 then None
      else (let (tag, headerLength) = DecodeTag data in
        if headerLength = 0 \<or> \<not> IsContext tag number \<or> Opening tag \<or> Closing tag then None
        else (case decodeContextUnsigned data number of Inl _ \<Rightarrow> None | Inr r \<Rightarrow> Some r)))"

definition isConstructedTag :: "bytes \<Rightarrow> u8 \<Rightarrow> bool \<Rightarrow> nat result" where
  "isConstructedTag data number opening =
     (if length data = 0 then Inl (Err ''constructed tag is truncated'')
      else (let (tag, headerLength) = DecodeTag data in
        if headerLength = 0 then Inl (Err ''constructed tag is malformed'')
        else if \<not> IsContext tag number \<or> Opening tag \<noteq> opening \<or> Closing tag = opening then Inr 0
        else Inr headerLength))"

definition decodeConstructedTag :: "bytes \<Rightarrow> u8 \<Rightarrow> bool \<Rightarrow> nat result" where
  "decodeConstructedTag data number opening =
     (case isConstructedTag data number opening of
        Inl _ \<Rightarrow> Inl (Err ''expected constructed tag %d'')
      | Inr consumed \<Rightarrow> if consumed = 0 then Inl (Err ''expected constructed tag %d'') else Inr consumed)"

definition writeContext :: "u8 \<Rightarrow> bytes \<Rightarrow> bytes" where
  "writeContext number value = EncodeContextTag (Tag_zero\<lparr>TagNumber := number, LenValue := int (length value)\<rparr>) @ value"

definition writeConstructedTag :: "u8 \<Rightarrow> bool \<Rightarrow> bytes" where
  "writeConstructedTag number opening =
     (if opening then EncodeOpeningTag (Tag_zero\<lparr>TagNumber := number\<rparr>)
      else EncodeClosingTag (Tag_zero\<lparr>TagNumber := number\<rparr>))"

text \<open>The optional array index behind a property identifier.\<close>

definition optional_index :: "bytes \<Rightarrow> u32 option \<times> bytes" where
  "optional_index data =
     (if data = [] then (None, data)
      else (case tryDecodeContextUnsigned data 1 of
          Some (index, consumed) \<Rightarrow> (Some index, drop consumed data)
        | None \<Rightarrow> (None, data)))"

section \<open>ReadProperty and WriteProperty\<close>

definition property_reference :: "Property \<Rightarrow> SimReference" where
  "property_reference p = \<lparr>sr_ID = p_ID p, sr_ArrayIndex = (if p_HasIndex p then Some (p_Index p) else None)\<rparr>"

definition decodeReadProperty :: "bytes \<Rightarrow> (ObjectID \<times> SimReference) result" where
  "decodeReadProperty data =
     bind_res (Property_UnmarshalBinary Property_zero data) (\<lambda>p.
       case p_ObjectId p of
         None \<Rightarrow> Inl (Err ''invalid ReadProperty request'')
       | Some o1 \<Rightarrow>
           if p_Length p \<noteq> length data then Inl (Err ''invalid ReadProperty request'')
           else Inr (fromBACnetObjectID o1, property_reference p))"

definition encodeReadPropertyResult :: "ObjectID \<Rightarrow> SimReference \<Rightarrow> SimValue list \<Rightarrow> bytes result" where
  "encodeReadPropertyResult obj reference values =
     bind_res (toBACnetObjectID obj) (\<lambda>o1.
     bind_res (map_res toPropertyValue values) (\<lambda>vs.
       Property_MarshalBinary (Property_zero\<lparr>p_ObjectId := Some o1, p_ID := sr_ID reference,
         p_HasIndex := (sr_ArrayIndex reference \<noteq> None),
         p_Index := (case sr_ArrayIndex reference of Some i \<Rightarrow> i | None \<Rightarrow> 0),
         p_Values := map Some vs\<rparr>)))"

definition decodeWriteProperty :: "bytes \<Rightarrow> (ObjectID \<times> SimReference \<times> SimValue list \<times> u8) result" where
  "decodeWriteProperty data =
     bind_res (Property_UnmarshalBinary Property_zero data) (\<lambda>p.
       case p_ObjectId p of
         None \<Rightarrow> Inl (Err ''invalid WriteProperty request'')
       | Some o1 \<Rightarrow>
           if length (p_Values p) = 0 \<or> p_Length p > length data then Inl (Err ''invalid WriteProperty request'')
           else bind_res (map_res fromPropertyValue (p_Values p)) (\<lambda>values.
             bind_res
               (if p_Length p < length data then
                  (case decodeContextUnsigned (drop (p_Length p) data) 4 of
                     Inl _ \<Rightarrow> Inl (Err ''invalid WriteProperty priority'')
                   | Inr (value, consumed) \<Rightarrow>
                       if p_Length p + consumed \<noteq> length data then Inl (Err ''invalid WriteProperty priority'')
                       else if value < 1 \<or> value > ucast PrioritySlots then Inl errWritePriorityOutOfRange
                       else Inr (ucast value))
                else Inr 0)
               (\<lambda>priority. Inr (fromBACnetObjectID o1, property_reference p, values, priority))))"

section \<open>Discovery and time\<close>

definition decodeWhoIs :: "bytes \<Rightarrow> (u32 \<times> u32) option result" where
  "decodeWhoIs data =
     (if length data = 0 then Inr None
      else (case decodeContextUnsigned data 0 of
          Inl _ \<Rightarrow> Inl (Err ''invalid Who-Is low limit'')
        | Inr (low, consumed) \<Rightarrow>
            if low > MaxObjectInstance then Inl (Err ''invalid Who-Is low limit'')
            else (case decodeContextUnsigned (drop consumed data) 1 of
                Inl _ \<Rightarrow> Inl (Err ''invalid Who-Is high limit'')
              | Inr (high, second) \<Rightarrow>
                  if high > MaxObjectInstance \<or> consumed + second \<noteq> length data \<or> low > high
                  then Inl (Err ''invalid Who-Is high limit'')
                  else Inr (Some (low, high)))))"

definition encode_value :: "SimValue \<Rightarrow> bytes result" where
  "encode_value x = bind_res (toPropertyValue x) PropertyValue_MarshalBinary"

definition encode_values :: "SimValue list \<Rightarrow> bytes result" where
  "encode_values xs = bind_res (map_res encode_value xs) (\<lambda>bs. Inr (concat bs))"

definition encodeIAm :: "SimDevice option \<Rightarrow> bytes result" where
  "encodeIAm device =
     (case device of
        None \<Rightarrow> Inl (Err ''device is required'')
      | Some d \<Rightarrow> encode_values
          [\<lparr>v_Tag = TagObjectId, v_Value = AnyID \<lparr>id_Type = ObjectTypeDevice, id_Instance = sd_ID d\<rparr>\<rparr>,
           \<lparr>v_Tag = TagUnsigned, v_Value = Any (VUint32 (word_of_nat MaxApdu))\<rparr>,
           \<lparr>v_Tag = TagEnumerated, v_Value = Any (VUint32 3)\<rparr>,
           \<lparr>v_Tag = TagUnsigned, v_Value = Any (VUint32 (ucast (sd_VendorID d)))\<rparr>])"

definition decodeWhoHas :: "bytes \<Rightarrow> WhoHas result" where
  "decodeWhoHas data =
     bind_res (WhoHas_UnmarshalBinary data) (\<lambda>query.
       if wh_HasRange query \<and> (wh_LowLimit query > MaxObjectInstance \<or> wh_HighLimit query > MaxObjectInstance
            \<or> wh_LowLimit query > wh_HighLimit query)
       then Inl (Err ''invalid Who-Has device instance range'') else Inr query)"

definition decodeTimeSync :: "bytes \<Rightarrow> TimeSyncPdu result" where
  "decodeTimeSync data = TimeSyncPdu_UnmarshalBinary data"

definition encodeIHave :: "SimDevice option \<Rightarrow> SimObject option \<Rightarrow> bytes result" where
  "encodeIHave device obj =
     (case device of
        None \<Rightarrow> Inl (Err ''device is required'')
      | Some d \<Rightarrow>
          (case obj of
             None \<Rightarrow> Inl (Err ''object is required'')
           | Some x \<Rightarrow>
               bind_res (SetInstanceNumber (ObjectId_zero\<lparr>oid_Type := ObjectTypeDevice\<rparr>) (sd_ID d)) (\<lambda>deviceID.
               bind_res (toBACnetObjectID (so_ID x)) (\<lambda>objectID.
                 IHave_MarshalBinary \<lparr>ih_DeviceId = deviceID, ih_ObjectId = objectID, ih_ObjectName = so_Name x\<rparr>))))"


section \<open>ReadPropertyMultiple\<close>

text \<open>Every value a decoder accepts takes at least one octet, so the loops end.\<close>

lemma decodeContext_bounds:
  assumes "decodeContext data number = Inr (value, consumed)"
  shows "0 < consumed" "consumed \<le> length data" "length value \<le> consumed"
  using assms DecodeTag_bounds
  by (fastforce simp: decodeContext_def subslice_def Let_def split: if_splits prod.splits)+

lemma decodeContextUnsigned_bounds:
  assumes "decodeContextUnsigned data number = Inr (v, consumed)"
  shows "0 < consumed" "consumed \<le> length data"
  using assms decodeContext_bounds
  by (fastforce simp: decodeContextUnsigned_def split: sum.splits if_splits prod.splits)+

lemma isConstructedTag_bounds:
  "isConstructedTag data number opening = Inr n \<Longrightarrow> data \<noteq> [] \<and> n \<le> length data"
  using DecodeTag_bounds by (fastforce simp: isConstructedTag_def split: if_splits prod.splits)

lemma decodeConstructedTag_bounds:
  "decodeConstructedTag data number opening = Inr n \<Longrightarrow> 0 < n \<and> n \<le> length data"
  using isConstructedTag_bounds
  by (fastforce simp: decodeConstructedTag_def split: if_splits sum.splits)

lemma optional_index_length: "(index, rest) = optional_index data \<Longrightarrow> length rest \<le> length data"
  by (auto simp: optional_index_def split: option.splits if_splits)

function rpm_references :: "bytes \<Rightarrow> SimReference list \<Rightarrow> (SimReference list \<times> bytes) result" where
  "rpm_references data refs =
     bind_res (isConstructedTag data 1 False) (\<lambda>closing.
       if closing > 0 then Inr (refs, drop closing data)
       else (case decodeContextUnsigned data 0 of
           Inl _ \<Rightarrow> Inl (Err ''invalid ReadPropertyMultiple property identifier'')
         | Inr (propertyID, consumed) \<Rightarrow>
             (case optional_index (drop consumed data) of (index, rest) \<Rightarrow>
                rpm_references rest (refs @ [\<lparr>sr_ID = propertyID, sr_ArrayIndex = index\<rparr>]))))"
  by pat_completeness auto
termination
proof (relation "measure (\<lambda>(data, refs). length data)", goal_cases)
  case (2 data refs closing r propertyID consumed index rest)
  then have "0 < consumed" "consumed \<le> length data" using decodeContextUnsigned_bounds by auto
  moreover have "length rest \<le> length (drop consumed data)" using 2 by (blast intro: optional_index_length)
  ultimately show ?case by auto
qed simp

definition access_object :: "string \<Rightarrow> bytes \<Rightarrow> (ObjectID \<times> bytes) result" where
  "access_object invalid data =
     (case decodeContext data 0 of
        Inl _ \<Rightarrow> Inl (Err invalid)
      | Inr (objectBytes, consumed) \<Rightarrow>
          if length objectBytes \<noteq> 4 then Inl (Err invalid)
          else bind_res (ObjectId_UnmarshalBinary ObjectId_zero objectBytes) (\<lambda>o1.
            bind_res (decodeConstructedTag (drop consumed data) 1 True) (\<lambda>opening.
              Inr (fromBACnetObjectID o1, drop (consumed + opening) data))))"

lemma access_object_length:
  "access_object invalid data = Inr (obj, rest) \<Longrightarrow> length rest < length data"
  using decodeContext_bounds
  by (fastforce simp: access_object_def bind_res_eq_Inr split: sum.splits if_splits prod.splits)

lemma rpm_references_length: "rpm_references data refs = Inr (refs', rest) \<Longrightarrow> length rest \<le> length data"
proof (induction data refs rule: rpm_references.induct)
  case (1 data refs)
  from 1(2) obtain closing where c: "isConstructedTag data 1 False = Inr closing" by (auto simp: bind_res_eq_Inr)
  show ?case
  proof (cases "closing > 0")
    case True
    with 1(2) c show ?thesis by (subst (asm) rpm_references.simps) auto
  next
    case False
    with 1(2) c obtain pid k idx rest' where d: "decodeContextUnsigned data 0 = Inr (pid, k)"
      "optional_index (drop k data) = (idx, rest')"
      "rpm_references rest' (refs @ [\<lparr>sr_ID = pid, sr_ArrayIndex = idx\<rparr>]) = Inr (refs', rest)"
      by (subst (asm) rpm_references.simps) (auto split: sum.splits prod.splits)
    from 1(1) [OF c False d(1) refl d(2) [symmetric] d(3)] optional_index_length [OF d(2) [symmetric]] show ?thesis by simp
  qed
qed

declare rpm_references.simps [simp del]

function rpm_specs :: "bytes \<Rightarrow> SimReadSpec list \<Rightarrow> SimReadSpec list result" where
  "rpm_specs data specs =
     (if data = [] then Inr specs
      else (case access_object ''invalid ReadPropertyMultiple object identifier'' data of
          Inl e \<Rightarrow> Inl e
        | Inr (obj, rest) \<Rightarrow>
            (case rpm_references rest [] of
               Inl e \<Rightarrow> Inl e
             | Inr (refs, rest') \<Rightarrow>
                 if length refs = 0 then Inl (Err ''ReadPropertyMultiple property list is empty'')
                 else rpm_specs rest' (specs @ [\<lparr>rs_Object = obj, rs_Properties = refs\<rparr>]))))"
  by pat_completeness auto
termination
proof (relation "measure (\<lambda>(data, specs). length data)", goal_cases)
  case (2 data specs x obj rest y refs rest')
  then have "length rest < length data" "length rest' \<le> length rest"
    by (auto dest: access_object_length rpm_references_length)
  then show ?case by simp
qed simp

declare rpm_specs.simps [simp del]

definition decodeReadPropertyMultiple :: "bytes \<Rightarrow> SimReadSpec list result" where
  "decodeReadPropertyMultiple data =
     bind_res (rpm_specs data []) (\<lambda>specs.
       if length specs = 0 then Inl (Err ''ReadPropertyMultiple request is empty'') else Inr specs)"


section \<open>WritePropertyMultiple\<close>

definition wpm_value :: "bytes \<Rightarrow> (SimValue \<times> nat) result" where
  "wpm_value data =
     (if data = [] then Inl (Err ''WritePropertyMultiple value list is not closed'')
      else (let (tag, headerLength) = DecodeTag data in
        if headerLength = 0 \<or> Context tag \<or> Opening tag \<or> Closing tag
        then Inl (Err ''invalid WritePropertyMultiple value tag'')
        else (let payloadLength = (if TagNumber tag = TagNull \<or> TagNumber tag = TagBoolean then 0 else LenValue tag) in
          if payloadLength < 0 \<or> int (length data) - int headerLength < payloadLength
          then Inl (Err ''WritePropertyMultiple value is truncated'')
          else (let encodedLength = headerLength + nat payloadLength in
            bind_res (PropertyValue_UnmarshalBinary (take encodedLength data)) (\<lambda>propertyValue.
            bind_res (fromPropertyValue (Some propertyValue)) (\<lambda>converted.
              Inr (converted, encodedLength)))))))"

lemma wpm_value_bounds: "wpm_value data = Inr (v, n) \<Longrightarrow> 0 < n \<and> n \<le> length data"
  using DecodeTag_bounds(2)
  by (fastforce simp: wpm_value_def bind_res_eq_Inr Let_def split: if_splits prod.splits)

function wpm_values :: "bytes \<Rightarrow> SimValue list \<Rightarrow> (SimValue list \<times> bytes) result" where
  "wpm_values data values =
     bind_res (isConstructedTag data 2 False) (\<lambda>closing.
       if closing > 0 then Inr (values, drop closing data)
       else (case wpm_value data of
           Inl e \<Rightarrow> Inl e
         | Inr (v, n) \<Rightarrow> wpm_values (drop n data) (values @ [v])))"
  by pat_completeness auto
termination
proof (relation "measure (\<lambda>(data, values). length data)", goal_cases)
  case (2 data "values" closing r v n)
  then have "wpm_value data = Inr (v, n)" by simp
  then show ?case using wpm_value_bounds by fastforce
qed simp

declare wpm_values.simps [simp del]

lemma wpm_values_length: "wpm_values data values = Inr (values', rest) \<Longrightarrow> length rest \<le> length data"
proof (induction data "values" rule: wpm_values.induct)
  case (1 data "values")
  from 1(2) obtain closing where c: "isConstructedTag data 2 False = Inr closing"
    by (subst (asm) wpm_values.simps) (auto simp: bind_res_eq_Inr)
  show ?case
  proof (cases "closing > 0")
    case True
    with 1(2) c show ?thesis by (subst (asm) wpm_values.simps) auto
  next
    case False
    with 1(2) c obtain v n where d: "wpm_value data = Inr (v, n)" "wpm_values (drop n data) (values @ [v]) = Inr (values', rest)"
      by (subst (asm) wpm_values.simps) (auto split: sum.splits prod.splits)
    from 1(1) [OF c False d(1) refl d(2)] show ?thesis by simp
  qed
qed

text \<open>One property write: identifier, optional index, values and optional priority.\<close>

definition wpm_write :: "bytes \<Rightarrow> (SimWrite \<times> bytes) result" where
  "wpm_write data =
     (case decodeContextUnsigned data 0 of
        Inl _ \<Rightarrow> Inl (Err ''invalid WritePropertyMultiple property identifier'')
      | Inr (propertyID, consumed) \<Rightarrow>
          (let (index, rest) = optional_index (drop consumed data);
               write = \<lparr>sw_Reference = \<lparr>sr_ID = propertyID, sr_ArrayIndex = index\<rparr>, sw_Values = [], sw_Priority = 0\<rparr>
           in case decodeConstructedTag rest 2 True of
                Inl _ \<Rightarrow> Inl (Err ''expected WritePropertyMultiple value list'')
              | Inr valuesOpening \<Rightarrow>
                  bind_res (wpm_values (drop valuesOpening rest) []) (\<lambda>(values, rest).
                    if length values = 0
                    then Inl (Err ''WritePropertyMultiple property write requires at least one value'')
                    else (let write = write\<lparr>sw_Values := values\<rparr> in
                      if rest = [] then Inr (write, rest)
                      else (case tryDecodeContextUnsigned rest 3 of
                          None \<Rightarrow> Inr (write, rest)
                        | Some (priority, optional) \<Rightarrow>
                            if priority < 1 \<or> priority > ucast PrioritySlots then Inl errWritePriorityOutOfRange
                            else Inr (write\<lparr>sw_Priority := ucast priority\<rparr>, drop optional rest))))))"

lemma wpm_write_length:
  assumes "wpm_write data = Inr (w, rest)"
  shows "length rest < length data"
proof -
  obtain pid k where d: "decodeContextUnsigned data 0 = Inr (pid, k)" using assms
    by (auto simp: wpm_write_def split: sum.splits)
  obtain index r1 where o1: "(index, r1) = optional_index (drop k data)" by (metis surj_pair)
  have "length r1 < length data" using optional_index_length [OF o1] decodeContextUnsigned_bounds [OF d] by simp
  moreover from assms d o1 [symmetric] obtain n vs r2 where "wpm_values (drop n r1) [] = Inr (vs, r2)" "length rest \<le> length r2"
    by (auto simp: wpm_write_def bind_res_eq_Inr Let_def split: sum.splits option.splits if_splits)
  moreover from this(1) have "length r2 \<le> length (drop n r1)" by (rule wpm_values_length)
  ultimately show ?thesis by simp
qed

function wpm_writes :: "bytes \<Rightarrow> SimWrite list \<Rightarrow> (SimWrite list \<times> bytes) result" where
  "wpm_writes data writes =
     bind_res (isConstructedTag data 1 False) (\<lambda>closing.
       if closing > 0 then Inr (writes, drop closing data)
       else (case wpm_write data of
           Inl e \<Rightarrow> Inl e
         | Inr (write, rest) \<Rightarrow> wpm_writes rest (writes @ [write])))"
  by pat_completeness auto
termination
proof (relation "measure (\<lambda>(data, writes). length data)", goal_cases)
  case (2 data writes closing r w rest)
  then have "wpm_write data = Inr (w, rest)" by simp
  then show ?case using wpm_write_length by fastforce
qed simp

declare wpm_writes.simps [simp del]

lemma wpm_writes_length: "wpm_writes data writes = Inr (writes', rest) \<Longrightarrow> length rest \<le> length data"
proof (induction data writes rule: wpm_writes.induct)
  case (1 data writes)
  from 1(2) obtain closing where c: "isConstructedTag data 1 False = Inr closing"
    by (subst (asm) wpm_writes.simps) (auto simp: bind_res_eq_Inr)
  show ?case
  proof (cases "closing > 0")
    case True
    with 1(2) c show ?thesis by (subst (asm) wpm_writes.simps) auto
  next
    case False
    with 1(2) c obtain w r where d: "wpm_write data = Inr (w, r)" "wpm_writes r (writes @ [w]) = Inr (writes', rest)"
      by (subst (asm) wpm_writes.simps) (auto split: sum.splits prod.splits)
    from 1(1) [OF c False d(1) refl d(2)] wpm_write_length [OF d(1)] show ?thesis by simp
  qed
qed

function wpm_specs :: "bytes \<Rightarrow> SimWriteSpec list \<Rightarrow> SimWriteSpec list result" where
  "wpm_specs data specs =
     (if data = [] then Inr specs
      else (case access_object ''invalid WritePropertyMultiple object identifier'' data of
          Inl e \<Rightarrow> Inl e
        | Inr (obj, rest) \<Rightarrow>
            (case wpm_writes rest [] of
               Inl e \<Rightarrow> Inl e
             | Inr (writes, rest') \<Rightarrow>
                 if length writes = 0 then Inl (Err ''WritePropertyMultiple property list is empty'')
                 else wpm_specs rest' (specs @ [\<lparr>ws_Object = obj, ws_Properties = writes\<rparr>]))))"
  by pat_completeness auto
termination
proof (relation "measure (\<lambda>(data, specs). length data)", goal_cases)
  case (2 data specs x obj rest y writes rest')
  then have "length rest < length data" "length rest' \<le> length rest"
    by (auto dest: access_object_length wpm_writes_length)
  then show ?case by simp
qed simp

declare wpm_specs.simps [simp del]

definition decodeWritePropertyMultiple :: "bytes \<Rightarrow> SimWriteSpec list result" where
  "decodeWritePropertyMultiple data =
     bind_res (wpm_specs data []) (\<lambda>specs.
       if length specs = 0 then Inl (Err ''WritePropertyMultiple request is empty'') else Inr specs)"

section \<open>Answers and notifications\<close>

definition enumerated_value :: "u32 \<Rightarrow> bytes result" where
  "enumerated_value v = PropertyValue_MarshalBinary \<lparr>pv_Type = TagEnumerated, pv_Value = VUint32 v\<rparr>"

definition encode_sim_result :: "SimResult \<Rightarrow> bytes result" where
  "encode_sim_result result =
     (let reference = writeContext 2 (EncodeVarUint (sr_ID (re_Reference result)))
            @ (case sr_ArrayIndex (re_Reference result) of Some i \<Rightarrow> writeContext 3 (EncodeVarUint i) | None \<Rightarrow> [])
      in if re_ErrorCode result \<noteq> 0 then
           bind_res (enumerated_value (re_ErrorClass result)) (\<lambda>class.
           bind_res (enumerated_value (re_ErrorCode result)) (\<lambda>code.
             Inr (reference @ writeConstructedTag 5 True @ class @ code @ writeConstructedTag 5 False)))
         else bind_res (encode_values (re_Values result)) (\<lambda>vs.
             Inr (reference @ writeConstructedTag 4 True @ vs @ writeConstructedTag 4 False)))"

definition encode_sim_access :: "SimReadResult \<Rightarrow> bytes result" where
  "encode_sim_access access =
     bind_res (toBACnetObjectID (ra_Object access)) (\<lambda>o1.
     bind_res (map_res encode_sim_result (ra_Results access)) (\<lambda>rs.
       Inr (writeContext 0 (ObjectId_MarshalBinary o1) @ writeConstructedTag 1 True @ concat rs @ writeConstructedTag 1 False)))"

definition encodeReadPropertyMultipleResult :: "SimReadResult list \<Rightarrow> bytes result" where
  "encodeReadPropertyMultipleResult results =
     bind_res (map_res encode_sim_access results) (\<lambda>bs. Inr (concat bs))"

definition decodeSubscribeCOV :: "bytes \<Rightarrow> SubscribeCOVRequest result" where
  "decodeSubscribeCOV data =
     (case decodeContextUnsigned data 0 of
        Inl _ \<Rightarrow> Inl (Err ''invalid SubscribeCOV process identifier'')
      | Inr (processIdentifier, consumed) \<Rightarrow>
          (case decodeContext (drop consumed data) 1 of
             Inl _ \<Rightarrow> Inl (Err ''invalid SubscribeCOV object identifier'')
           | Inr (objectBytes, second) \<Rightarrow>
               if length objectBytes \<noteq> 4 then Inl (Err ''invalid SubscribeCOV object identifier'')
               else (let consumed = consumed + second in
                 bind_res (ObjectId_UnmarshalBinary ObjectId_zero objectBytes) (\<lambda>o1.
                   let request = \<lparr>sq_ProcessIdentifier = processIdentifier, sq_Object = fromBACnetObjectID o1,
                                  sq_Confirmed = False, sq_Lifetime = 0, sq_Cancel = False\<rparr> in
                   if consumed = length data then Inr (request\<lparr>sq_Cancel := True\<rparr>)
                   else (let (tag, h) = DecodeTag (drop consumed data) in
                     bind_res
                       (if h > 0 \<and> IsContext tag 2 \<and> \<not> Opening tag \<and> \<not> Closing tag then
                          (case decodeContext (drop consumed data) 2 of
                             Inl _ \<Rightarrow> Inl (Err ''invalid SubscribeCOV confirmed-notification flag'')
                           | Inr (confirmed, second) \<Rightarrow>
                               if length confirmed \<noteq> 1 \<or> confirmed ! 0 \<noteq> 0 \<and> confirmed ! 0 \<noteq> 1
                               then Inl (Err ''invalid SubscribeCOV confirmed-notification flag'')
                               else Inr (request\<lparr>sq_Confirmed := (confirmed ! 0 \<noteq> 0)\<rparr>, consumed + second))
                        else Inr (request, consumed)) (\<lambda>(request, consumed).
                     bind_res
                       (if consumed < length data then
                          (case decodeContextUnsigned (drop consumed data) 3 of
                             Inl _ \<Rightarrow> Inl (Err ''invalid SubscribeCOV lifetime'')
                           | Inr (lifetime, second) \<Rightarrow> Inr (request\<lparr>sq_Lifetime := lifetime\<rparr>, consumed + second))
                        else Inr (request, consumed)) (\<lambda>(request, consumed).
                     if consumed \<noteq> length data then Inl (Err ''unexpected trailing SubscribeCOV data'')
                     else Inr request)))))))"

definition encode_cov_property :: "SimResult \<Rightarrow> bytes result" where
  "encode_cov_property property =
     bind_res (encode_values (re_Values property)) (\<lambda>vs.
       Inr (writeContext 0 (EncodeVarUint (sr_ID (re_Reference property)))
          @ (case sr_ArrayIndex (re_Reference property) of Some i \<Rightarrow> writeContext 1 (EncodeVarUint i) | None \<Rightarrow> [])
          @ writeConstructedTag 2 True @ vs @ writeConstructedTag 2 False))"

definition encodeCOVNotification :: "u32 \<Rightarrow> u32 \<Rightarrow> ObjectID \<Rightarrow> u32 \<Rightarrow> SimResult list \<Rightarrow> bytes result" where
  "encodeCOVNotification processID deviceID obj timeRemaining properties =
     bind_res (toBACnetObjectID \<lparr>id_Type = ObjectTypeDevice, id_Instance = deviceID\<rparr>) (\<lambda>deviceObject.
     bind_res (toBACnetObjectID obj) (\<lambda>monitoredObject.
     bind_res (map_res encode_cov_property properties) (\<lambda>ps.
       Inr (writeContext 0 (EncodeVarUint processID) @ writeContext 1 (ObjectId_MarshalBinary deviceObject)
          @ writeContext 2 (ObjectId_MarshalBinary monitoredObject) @ writeContext 3 (EncodeVarUint timeRemaining)
          @ writeConstructedTag 4 True @ concat ps @ writeConstructedTag 4 False))))"

end
