(* ===== verification/Sim_Subscriptions.thy ===== *)
theory Sim_Subscriptions
  imports Sim_Model "HOL-Library.List_Lexorder" "HOL-Library.Char_ord"
begin

text \<open>
  The simulator's clock and its registry of COV subscriptions, \<^verbatim>\<open>simulator/clock.go\<close> and
  \<^verbatim>\<open>simulator/subscriptions.go\<close>.  A \<^verbatim>\<open>time.Time\<close> is a number of nanoseconds with the zero time at 0.  The
  \<^verbatim>\<open>Clock\<close> interface is the locale \<open>clock\<close>: a clock is a state of any type and \<open>Now\<close> reads it and returns
  the state after the reading.  The registry is refined to a finite map of the subscriptions that have not
  expired at a point in time.
\<close>

section \<open>Clocks\<close>

type_synonym time = int
type_synonym duration = int

abbreviation (input) Second :: duration where "Second \<equiv> 1000000000"

locale clock =
  fixes Now :: "'c \<Rightarrow> time \<times> 'c"
  assumes Now_mono: "fst (Now c) \<le> fst (Now (snd (Now c)))"

record ManualClock =
  mcl_now :: time

definition NewManualClock :: "time \<Rightarrow> ManualClock" where
  "NewManualClock now = \<lparr>mcl_now = now\<rparr>"

definition ManualClock_Now :: "ManualClock \<Rightarrow> time \<times> ManualClock" where
  "ManualClock_Now c = (mcl_now c, c)"

definition ManualClock_Advance :: "duration \<Rightarrow> ManualClock \<Rightarrow> ManualClock" where
  "ManualClock_Advance duration c = c\<lparr>mcl_now := mcl_now c + duration\<rparr>"

text \<open>
  \<^verbatim>\<open>time.Now()\<close>: the readings come from the system, each at least the one before (the monotonic clock
  reading); \<open>rc_steps\<close> are the times that will pass between them.
\<close>

record RealClock =
  rc_now :: time
  rc_steps :: "nat \<Rightarrow> nat"

definition RealClock_Now :: "RealClock \<Rightarrow> time \<times> RealClock" where
  "RealClock_Now c = (rc_now c, c\<lparr>rc_now := rc_now c + int (rc_steps c 0), rc_steps := rc_steps c \<circ> Suc\<rparr>)"

interpretation manual: clock ManualClock_Now
  by unfold_locales (simp add: ManualClock_Now_def)

interpretation real: clock RealClock_Now
  by unfold_locales (simp add: RealClock_Now_def)

section \<open>Subscriptions\<close>

datatype SubscriptionKey = SubscriptionKey (k_Subscriber: string) (k_ProcessID: u32) (k_Object: ObjectID)

text \<open>The order in which \<^verbatim>\<open>Active\<close> sorts: by subscriber, process, object type and instance.\<close>

definition key_less :: "SubscriptionKey \<Rightarrow> SubscriptionKey \<Rightarrow> bool" where
  "key_less a b =
     (if k_Subscriber a \<noteq> k_Subscriber b then k_Subscriber a < k_Subscriber b
      else if k_ProcessID a \<noteq> k_ProcessID b then k_ProcessID a < k_ProcessID b
      else if id_Type (k_Object a) \<noteq> id_Type (k_Object b) then id_Type (k_Object a) < id_Type (k_Object b)
      else id_Instance (k_Object a) < id_Instance (k_Object b))"

instantiation SubscriptionKey :: linorder
begin

definition less_SubscriptionKey :: "SubscriptionKey \<Rightarrow> SubscriptionKey \<Rightarrow> bool" where
  "less_SubscriptionKey a b = key_less a b"

definition less_eq_SubscriptionKey :: "SubscriptionKey \<Rightarrow> SubscriptionKey \<Rightarrow> bool" where
  "less_eq_SubscriptionKey a b \<longleftrightarrow> a = b \<or> key_less a b"

instance
proof
  fix a b c :: SubscriptionKey
  have irrefl: "\<not> key_less a a" for a by (simp add: key_less_def)
  have trans: "key_less a b \<Longrightarrow> key_less b c \<Longrightarrow> key_less a c" for a b c
    by (auto simp: key_less_def split: if_splits)
  have total: "a = b \<or> key_less a b \<or> key_less b a" for a b
    by (cases a; cases b) (auto simp: key_less_def neq_iff intro: ObjectID.equality split: if_splits)
  show "(a < b) = (a \<le> b \<and> \<not> b \<le> a)" "a \<le> a" "a \<le> b \<Longrightarrow> b \<le> c \<Longrightarrow> a \<le> c"
    "a \<le> b \<Longrightarrow> b \<le> a \<Longrightarrow> a = b" "a \<le> b \<or> b \<le> a"
    using irrefl trans total unfolding less_SubscriptionKey_def less_eq_SubscriptionKey_def by blast+
qed

end

record Subscription =
  su_Key :: SubscriptionKey
  su_Confirmed :: bool
  su_Lifetime :: duration
  su_ExpiresAt :: time
  su_LastValue :: "SimValue list"

record 'c SubscriptionRegistry =
  sr_clock :: 'c
  sr_items :: "(SubscriptionKey \<times> Subscription) list"

definition NewSubscriptionRegistry :: "'c \<Rightarrow> 'c SubscriptionRegistry" where
  "NewSubscriptionRegistry c = \<lparr>sr_clock = c, sr_items = []\<rparr>"

text \<open>Reading the registry's clock.\<close>

definition read_clock :: "('c \<Rightarrow> time \<times> 'c) \<Rightarrow> 'c SubscriptionRegistry \<Rightarrow> time \<times> 'c SubscriptionRegistry" where
  "read_clock now r = (let (t, c) = now (sr_clock r) in (t, r\<lparr>sr_clock := c\<rparr>))"

definition Subscribe :: "('c \<Rightarrow> time \<times> 'c) \<Rightarrow> Subscription \<Rightarrow> 'c SubscriptionRegistry \<Rightarrow> 'c SubscriptionRegistry" where
  "Subscribe now subscription r =
     (let (expires, r) = (if su_Lifetime subscription > 0
            then (let (t, r) = read_clock now r in (t + su_Lifetime subscription, r)) else (0, r))
      in r\<lparr>sr_items := AList.update (su_Key subscription) (subscription\<lparr>su_ExpiresAt := expires\<rparr>) (sr_items r)\<rparr>)"

definition Cancel :: "SubscriptionKey \<Rightarrow> 'c SubscriptionRegistry \<Rightarrow> bool \<times> 'c SubscriptionRegistry" where
  "Cancel key r = (if map_of (sr_items r) key = None then (False, r)
     else (True, r\<lparr>sr_items := AList.delete key (sr_items r)\<rparr>))"

definition expired :: "time \<Rightarrow> Subscription \<Rightarrow> bool" where
  "expired t s \<longleftrightarrow> su_ExpiresAt s \<noteq> 0 \<and> \<not> t < su_ExpiresAt s"

definition removeExpiredLocked :: "('c \<Rightarrow> time \<times> 'c) \<Rightarrow> 'c SubscriptionRegistry \<Rightarrow> 'c SubscriptionRegistry" where
  "removeExpiredLocked now r = (let (t, r) = read_clock now r in
     r\<lparr>sr_items := filter (\<lambda>(_, s). \<not> expired t s) (sr_items r)\<rparr>)"

definition Active :: "('c \<Rightarrow> time \<times> 'c) \<Rightarrow> 'c SubscriptionRegistry \<Rightarrow> Subscription list \<times> 'c SubscriptionRegistry" where
  "Active now r = (let r = removeExpiredLocked now r in (sort_key su_Key (map snd (sr_items r)), r))"

definition UpdateLastValue ::
    "('c \<Rightarrow> time \<times> 'c) \<Rightarrow> SubscriptionKey \<Rightarrow> SimValue list \<Rightarrow> 'c SubscriptionRegistry \<Rightarrow> bool \<times> 'c SubscriptionRegistry" where
  "UpdateLastValue now key values r =
     (let r = removeExpiredLocked now r in
      case map_of (sr_items r) key of
        None \<Rightarrow> (False, r)
      | Some item \<Rightarrow> (True, r\<lparr>sr_items := AList.update key (item\<lparr>su_LastValue := values\<rparr>) (sr_items r)\<rparr>))"

section \<open>The registry as a map of live subscriptions\<close>

definition items_inv :: "(SubscriptionKey \<times> Subscription) list \<Rightarrow> bool" where
  "items_inv items \<longleftrightarrow> distinct (map fst items) \<and> (\<forall>item \<in> set items. su_Key (snd item) = fst item)"

abbreviation registry_inv :: "'c SubscriptionRegistry \<Rightarrow> bool" where
  "registry_inv r \<equiv> items_inv (sr_items r)"

definition unexpired :: "time \<Rightarrow> (SubscriptionKey \<rightharpoonup> Subscription) \<Rightarrow> (SubscriptionKey \<rightharpoonup> Subscription)" where
  "unexpired t m key = Option.bind (m key) (\<lambda>s. if expired t s then None else Some s)"

definition live :: "time \<Rightarrow> 'c SubscriptionRegistry \<Rightarrow> SubscriptionKey \<rightharpoonup> Subscription" where
  "live t r = unexpired t (map_of (sr_items r))"

definition reading :: "('c \<Rightarrow> time \<times> 'c) \<Rightarrow> 'c SubscriptionRegistry \<Rightarrow> time" where
  "reading now r = fst (now (sr_clock r))"

text \<open>What the registry promises of its operations, on the map.\<close>

definition spec_Subscribe :: "time \<Rightarrow> Subscription \<Rightarrow> (SubscriptionKey \<rightharpoonup> Subscription) \<Rightarrow> (SubscriptionKey \<rightharpoonup> Subscription)" where
  "spec_Subscribe t s m = m(su_Key s \<mapsto> s\<lparr>su_ExpiresAt := (if su_Lifetime s > 0 then t + su_Lifetime s else 0)\<rparr>)"

definition spec_UpdateLastValue ::
    "SubscriptionKey \<Rightarrow> SimValue list \<Rightarrow> (SubscriptionKey \<rightharpoonup> Subscription) \<Rightarrow> (SubscriptionKey \<rightharpoonup> Subscription)" where
  "spec_UpdateLastValue key values m = m(key := map_option (\<lambda>s. s\<lparr>su_LastValue := values\<rparr>) (m key))"

lemma map_of_filter_values:
  "distinct (map fst xs) \<Longrightarrow> map_of (filter (\<lambda>(_, s). P s) xs) k = Option.bind (map_of xs k) (\<lambda>s. if P s then Some s else None)"
proof (induction xs)
  case (Cons x xs)
  then have "fst x = k \<Longrightarrow> map_of xs k = None" by (auto simp: map_of_eq_None_iff)
  with Cons show ?case by (cases x) auto
qed simp

lemma distinct_filter_fst: "distinct (map fst xs) \<Longrightarrow> distinct (map fst (filter P xs))"
  by (induction xs) auto

lemma expired_mono: "expired t s \<Longrightarrow> t \<le> t' \<Longrightarrow> expired t' s"
  by (auto simp: expired_def)

lemma registry_inv_init: "registry_inv (NewSubscriptionRegistry c)"
  by (simp add: items_inv_def NewSubscriptionRegistry_def)

lemma set_AList_update: "set (AList.update k v xs) \<subseteq> insert (k, v) (set xs)"
  by (induction xs) auto

lemma items_inv_update: "items_inv xs \<Longrightarrow> su_Key s = key \<Longrightarrow> items_inv (AList.update key s xs)"
  using set_AList_update [of key s xs] by (force simp: items_inv_def distinct_update)

lemma items_inv_filter: "items_inv xs \<Longrightarrow> items_inv (filter P xs)"
  by (simp add: items_inv_def distinct_filter_fst)

lemma items_inv_lookup: "items_inv xs \<Longrightarrow> map_of xs key = Some s \<Longrightarrow> su_Key s = key"
  by (force simp: items_inv_def dest: map_of_SomeD)

lemma live_clock [simp]: "live t (r\<lparr>sr_clock := c\<rparr>) = live t r"
  by (simp add: live_def fun_eq_iff)

lemma read_clock_eq: "read_clock now r = (reading now r, r\<lparr>sr_clock := snd (now (sr_clock r))\<rparr>)"
  by (simp add: read_clock_def reading_def case_prod_beta)

lemma removeExpiredLocked_eq:
  "removeExpiredLocked now r = r\<lparr>sr_clock := snd (now (sr_clock r)),
     sr_items := filter (\<lambda>(_, s). \<not> expired (reading now r) s) (sr_items r)\<rparr>"
  by (simp add: removeExpiredLocked_def read_clock_eq)

lemma items_removeExpired:
  assumes "registry_inv r"
  shows "map_of (sr_items (removeExpiredLocked now r)) = live (reading now r) r"
  using assms by (auto simp: fun_eq_iff items_inv_def removeExpiredLocked_eq map_of_filter_values live_def unexpired_def
      split: Option.bind_splits)

lemma registry_inv_removeExpired: "registry_inv r \<Longrightarrow> registry_inv (removeExpiredLocked now r)"
  by (simp add: removeExpiredLocked_eq items_inv_filter)

lemma live_removeExpired:
  assumes "registry_inv r" "reading now r \<le> t"
  shows "live t (removeExpiredLocked now r) = live t r"
  unfolding live_def [of t] items_removeExpired [OF assms(1)]
  using expired_mono [OF _ assms(2)]
  by (auto simp: live_def unexpired_def fun_eq_iff split: Option.bind_splits)

lemma registry_inv_Subscribe: "registry_inv r \<Longrightarrow> registry_inv (Subscribe now s r)"
  by (simp add: Subscribe_def read_clock_eq items_inv_update)

lemma live_Subscribe:
  "live t (Subscribe now s r) = unexpired t (spec_Subscribe (reading now r) s (live t r))"
  by (auto simp: fun_eq_iff live_def unexpired_def Subscribe_def read_clock_eq spec_Subscribe_def update_conv'
      split: Option.bind_splits)

lemma registry_inv_Cancel: "registry_inv r \<Longrightarrow> registry_inv (snd (Cancel key r))"
  by (simp add: Cancel_def AList.delete_eq items_inv_filter)

lemma live_Cancel: "live t (snd (Cancel key r)) = (live t r)(key := None)"
  by (auto simp: live_def unexpired_def Cancel_def delete_conv' fun_eq_iff)

lemma Active_snd: "snd (Active now r) = removeExpiredLocked now r"
  by (simp add: Active_def Let_def)

lemma Active_lookup:
  assumes "registry_inv r"
  shows "s \<in> set (fst (Active now r)) \<longleftrightarrow> live (reading now r) r (su_Key s) = Some s"
proof -
  let ?items = "sr_items (removeExpiredLocked now r)"
  have i: "registry_inv (removeExpiredLocked now r)" by (rule registry_inv_removeExpired [OF assms])
  then have d: "distinct (map fst ?items)" "\<And>key s. (key, s) \<in> set ?items \<Longrightarrow> su_Key s = key"
    using items_inv_lookup [OF i] by (auto simp: items_inv_def)
  have "s \<in> set (fst (Active now r)) \<longleftrightarrow> (\<exists>key. (key, s) \<in> set ?items)" by (force simp: Active_def Let_def)
  also have "\<dots> \<longleftrightarrow> map_of ?items (su_Key s) = Some s" using d by (auto simp: map_of_is_SomeI dest: map_of_SomeD)
  finally show ?thesis by (simp add: items_removeExpired [OF assms])
qed

lemma Active_sorted:
  assumes "registry_inv r"
  shows "sorted_wrt (<) (map su_Key (fst (Active now r)))"
proof -
  let ?items = "sr_items (removeExpiredLocked now r)"
  have i: "registry_inv (removeExpiredLocked now r)" by (rule registry_inv_removeExpired [OF assms])
  then have "map su_Key (map snd ?items) = map fst ?items" by (force simp: items_inv_def)
  with i have "distinct (map su_Key (map snd ?items))" by (simp only: items_inv_def)
  then have "distinct (map su_Key (fst (Active now r)))"
    by (metis Active_def fst_conv distinct_map distinct_sort set_sort)
  moreover have "sorted (map su_Key (fst (Active now r)))" by (simp add: Active_def Let_def)
  ultimately show ?thesis by (simp add: strict_sorted_iff)
qed

lemma UpdateLastValue_live:
  assumes "registry_inv r" "reading now r \<le> t"
  shows "live t (snd (UpdateLastValue now key values r)) = spec_UpdateLastValue key values (live t r)"
    "fst (UpdateLastValue now key values r) \<longleftrightarrow> live (reading now r) r key \<noteq> None"
    "registry_inv (snd (UpdateLastValue now key values r))"
proof -
  let ?r = "removeExpiredLocked now r"
  note items = items_removeExpired [OF assms(1)]
  note inv = registry_inv_removeExpired [OF assms(1), of now]
  have keep: "live t (?r\<lparr>sr_items := AList.update key (s\<lparr>su_LastValue := values\<rparr>) (sr_items ?r)\<rparr>)
      = spec_UpdateLastValue key values (live t ?r)" if "map_of (sr_items ?r) key = Some s" for s
    using that by (auto simp: live_def unexpired_def spec_UpdateLastValue_def update_conv' fun_eq_iff expired_def
        split: Option.bind_splits)
  have none: "live t ?r key = None" if "map_of (sr_items ?r) key = None"
    using that by (simp add: live_def unexpired_def)
  show "live t (snd (UpdateLastValue now key values r)) = spec_UpdateLastValue key values (live t r)"
    using keep none live_removeExpired [OF assms]
    by (auto simp: UpdateLastValue_def Let_def spec_UpdateLastValue_def fun_eq_iff split: option.splits)
  show "fst (UpdateLastValue now key values r) \<longleftrightarrow> live (reading now r) r key \<noteq> None"
    by (auto simp: UpdateLastValue_def Let_def items [symmetric] split: option.splits)
  show "registry_inv (snd (UpdateLastValue now key values r))"
    using inv by (auto simp: UpdateLastValue_def Let_def split: option.splits intro!: items_inv_update dest: items_inv_lookup)
qed


text \<open>
  The registry over the history of a clock: a sequence of operations, each at the time its clock reads.  The
  specification keeps the map and the time of the last reading.
\<close>

datatype registry_op =
    OpSubscribe Subscription
  | OpCancel SubscriptionKey
  | OpActive
  | OpUpdate SubscriptionKey "SimValue list"

definition run_op :: "('c \<Rightarrow> time \<times> 'c) \<Rightarrow> registry_op \<Rightarrow> 'c SubscriptionRegistry \<Rightarrow> 'c SubscriptionRegistry" where
  "run_op now op r = (case op of
       OpSubscribe s \<Rightarrow> Subscribe now s r
     | OpCancel key \<Rightarrow> snd (Cancel key r)
     | OpActive \<Rightarrow> snd (Active now r)
     | OpUpdate key vs \<Rightarrow> snd (UpdateLastValue now key vs r))"

definition spec_op :: "time \<Rightarrow> registry_op \<Rightarrow> (SubscriptionKey \<rightharpoonup> Subscription) \<Rightarrow> (SubscriptionKey \<rightharpoonup> Subscription)" where
  "spec_op t op m = (case op of
       OpSubscribe s \<Rightarrow> spec_Subscribe t s m
     | OpCancel key \<Rightarrow> m(key := None)
     | OpActive \<Rightarrow> m
     | OpUpdate key vs \<Rightarrow> spec_UpdateLastValue key vs m)"

lemma unexpired_idem [simp]: "unexpired t (live t r) = live t r"
  by (auto simp: live_def unexpired_def fun_eq_iff split: Option.bind_splits)

lemma run_op_inv: "registry_inv r \<Longrightarrow> registry_inv (run_op now op r)"
  by (cases op) (simp_all add: run_op_def registry_inv_Subscribe registry_inv_Cancel Active_snd
      registry_inv_removeExpired UpdateLastValue_live(3) [OF _ order.refl])

lemma run_op_refines:
  assumes "registry_inv r" "reading now r \<le> t"
  shows "live t (run_op now op r) = unexpired t (spec_op (reading now r) op (live t r))"
proof (cases op)
  case (OpCancel key)
  then show ?thesis by (auto simp: run_op_def spec_op_def live_Cancel) (auto simp: live_def unexpired_def fun_eq_iff split: Option.bind_splits)
next
  case (OpUpdate key vs)
  have "unexpired t (spec_UpdateLastValue key vs (live t r)) = spec_UpdateLastValue key vs (live t r)"
    by (auto simp: live_def unexpired_def spec_UpdateLastValue_def expired_def fun_eq_iff split: Option.bind_splits)
  with OpUpdate show ?thesis by (simp add: run_op_def spec_op_def UpdateLastValue_live(1) [OF assms])
qed (simp_all add: run_op_def spec_op_def live_Subscribe Active_snd live_removeExpired [OF assms])

text \<open>A history of operations, with the times at which the clock would read before each of them.\<close>

fun run_ops :: "('c \<Rightarrow> time \<times> 'c) \<Rightarrow> registry_op list \<Rightarrow> 'c SubscriptionRegistry \<Rightarrow> 'c SubscriptionRegistry" where
  "run_ops now [] r = r"
| "run_ops now (op # ops) r = run_ops now ops (run_op now op r)"

fun op_times :: "('c \<Rightarrow> time \<times> 'c) \<Rightarrow> registry_op list \<Rightarrow> 'c SubscriptionRegistry \<Rightarrow> time list" where
  "op_times now [] r = []"
| "op_times now (op # ops) r = reading now r # op_times now ops (run_op now op r)"

definition spec_ops :: "time list \<Rightarrow> registry_op list \<Rightarrow> (SubscriptionKey \<rightharpoonup> Subscription) \<Rightarrow> (SubscriptionKey \<rightharpoonup> Subscription)" where
  "spec_ops ts ops = fold (\<lambda>(t, op). spec_op t op) (zip ts ops)"

lemma unexpired_spec_op: "unexpired t (spec_op t0 op (unexpired t m)) = unexpired t (spec_op t0 op m)"
  by (cases op) (auto simp: spec_op_def spec_Subscribe_def spec_UpdateLastValue_def unexpired_def fun_eq_iff expired_def
      split: Option.bind_splits)

lemma unexpired_spec_ops: "unexpired t (spec_ops ts ops (unexpired t m)) = unexpired t (spec_ops ts ops m)"
proof (induction "zip ts ops" arbitrary: ts ops m)
  case Nil
  then show ?case by (simp add: spec_ops_def) (auto simp: unexpired_def fun_eq_iff split: Option.bind_splits)
next
  case (Cons x xs)
  then obtain t0 ts' op ops' where "ts = t0 # ts'" "ops = op # ops'" "xs = zip ts' ops'"
    by (cases ts; cases ops) auto
  with Cons.hyps(1) [of ts' ops'] show ?case by (simp add: spec_ops_def) (metis unexpired_spec_op)
qed

lemma run_ops_inv: "registry_inv r \<Longrightarrow> registry_inv (run_ops now ops r)"
  by (induction ops arbitrary: r) (auto intro: run_op_inv)

context clock
begin

lemma reading_mono: "reading Now r \<le> reading Now (run_op Now op r)"
proof -
  have "sr_clock (run_op Now op r) = sr_clock r \<or> sr_clock (run_op Now op r) = snd (Now (sr_clock r))"
    by (cases op) (auto simp: run_op_def Subscribe_def Cancel_def Active_snd UpdateLastValue_def read_clock_eq
        removeExpiredLocked_eq Let_def split: option.splits)
  with Now_mono [of "sr_clock r"] show ?thesis by (auto simp: reading_def)
qed

lemma reading_mono_ops: "reading Now r \<le> reading Now (run_ops Now ops r)"
  by (induction ops arbitrary: r) (auto intro: order.trans [OF reading_mono])

lemma run_ops_refines:
  assumes "registry_inv r" "reading Now (run_ops Now ops r) \<le> t"
  shows "live t (run_ops Now ops r) = unexpired t (spec_ops (op_times Now ops r) ops (live t r))"
  using assms
proof (induction ops arbitrary: r)
  case (Cons op ops)
  let ?r = "run_op Now op r"
  have t: "reading Now r \<le> t" using Cons.prems(2) reading_mono_ops [of ?r ops] reading_mono [of r op] by simp
  have "live t (run_ops Now ops ?r) = unexpired t (spec_ops (op_times Now ops ?r) ops (live t ?r))"
    using Cons run_op_inv by auto
  also have "\<dots> = unexpired t (spec_ops (op_times Now ops ?r) ops (spec_op (reading Now r) op (live t r)))"
    by (simp add: run_op_refines [OF Cons.prems(1) t] unexpired_spec_ops)
  finally show ?case by (simp add: spec_ops_def)
qed (simp add: spec_ops_def)

end

text \<open>C9. Whatever sequence of subscribe, cancel, list and update operations the registry has been through, and
  whichever clock drives it (one whose readings do not go back), the subscriptions it holds at the present time are
  those of the specification: the latest subscription of each key that was not cancelled, with the last value recorded
  for it, as long as its lifetime has not run out; a lifetime of zero never runs out.  \<^verbatim>\<open>Active\<close> lists exactly these,
  each once, in the order of subscriber, process identifier and object.\<close>

theorem registry_refines:
  assumes "clock now" "r = run_ops now ops (NewSubscriptionRegistry c)" "t = reading now r"
  shows "live t r = unexpired t (spec_ops (op_times now ops (NewSubscriptionRegistry c)) ops Map.empty)
    \<and> (\<forall>s. s \<in> set (fst (Active now r)) \<longleftrightarrow> live t r (su_Key s) = Some s)
    \<and> sorted_wrt (<) (map su_Key (fst (Active now r)))"
proof -
  have i: "registry_inv (NewSubscriptionRegistry c)" "registry_inv r"
    by (simp_all add: registry_inv_init run_ops_inv assms(2))
  have "live t (NewSubscriptionRegistry c) = Map.empty"
    by (simp add: live_def unexpired_def NewSubscriptionRegistry_def fun_eq_iff)
  then show ?thesis
    using clock.run_ops_refines [OF assms(1) i(1), of ops t] Active_lookup [OF i(2)] Active_sorted [OF i(2)] assms(2,3) by auto
qed

theorem registry_refines_witness:
  "let s = \<lparr>su_Key = SubscriptionKey ''10.0.0.9:47808'' 7 \<lparr>id_Type = 0, id_Instance = 1\<rparr>, su_Confirmed = False,
             su_Lifetime = 60 * Second, su_ExpiresAt = 0, su_LastValue = []\<rparr>;
       r = run_ops RealClock_Now [OpSubscribe s, OpActive] (NewSubscriptionRegistry \<lparr>rc_now = 5, rc_steps = (\<lambda>_. 40000000000)\<rparr>)
   in live (reading RealClock_Now r) r (su_Key s) = None"
proof -
  let ?s = "\<lparr>su_Key = SubscriptionKey ''10.0.0.9:47808'' 7 \<lparr>id_Type = 0, id_Instance = 1\<rparr>, su_Confirmed = False,
             su_Lifetime = 60 * Second, su_ExpiresAt = 0, su_LastValue = []\<rparr> :: Subscription"
  let ?c = "\<lparr>rc_now = 5, rc_steps = (\<lambda>_. 40000000000)\<rparr> :: RealClock"
  show ?thesis
    using registry_refines [OF real.clock_axioms refl refl, of "[OpSubscribe ?s, OpActive]" ?c]
    by (simp add: Let_def run_op_def Subscribe_def read_clock_def Active_def removeExpiredLocked_def reading_def
        NewSubscriptionRegistry_def RealClock_Now_def spec_ops_def spec_op_def spec_Subscribe_def unexpired_def expired_def)
qed

end
