(* ===== verification/Safety.thy ===== *)
theory Safety
  imports Request
begin

text \<open>
  Absence of run-time panics.  \<open>safe r\<close> says that a computation did not panic; the rules of the
  collection \<open>safe_intros\<close> follow the control flow of the code, so that a decoder is safe by
  unfolding it.
\<close>

named_theorems safe_intros

definition safe :: "'a result \<Rightarrow> bool" where
  "safe r \<longleftrightarrow> r \<noteq> Inl Panic"

lemma safe_simps [simp]: "safe (Inr x)" "safe (Inl e) \<longleftrightarrow> e \<noteq> Panic"
  by (simp_all add: safe_def)

lemma safe_InlD: "safe r \<Longrightarrow> r = Inl e \<Longrightarrow> e \<noteq> Panic"
  by simp

lemma safe_bind [intro, safe_intros]:
  "safe m \<Longrightarrow> (\<And>x. m = Inr x \<Longrightarrow> safe (f x)) \<Longrightarrow> safe (bind_res m f)"
  by (auto simp: safe_def bind_res_eq_Inl)

lemma safe_fail_if [simp]: "safe (fail_if c (Err e))"
  by (simp add: fail_if_def)

lemma safe_if [safe_intros]: "(c \<Longrightarrow> safe a) \<Longrightarrow> (\<not> c \<Longrightarrow> safe b) \<Longrightarrow> safe (if c then a else b)"
  by simp

lemma safe_prod [safe_intros]: "(\<And>x y. p = (x, y) \<Longrightarrow> safe (f x y)) \<Longrightarrow> safe (case p of (x, y) \<Rightarrow> f x y)"
  by (cases p) simp

lemma safe_option [safe_intros]:
  "(p = None \<Longrightarrow> safe a) \<Longrightarrow> (\<And>x. p = Some x \<Longrightarrow> safe (f x)) \<Longrightarrow> safe (case p of None \<Rightarrow> a | Some x \<Rightarrow> f x)"
  by (cases p) simp_all

lemma safe_list [safe_intros]:
  "(xs = [] \<Longrightarrow> safe a) \<Longrightarrow> (\<And>y ys. xs = y # ys \<Longrightarrow> safe (f y ys)) \<Longrightarrow> safe (case xs of [] \<Rightarrow> a | y # ys \<Rightarrow> f y ys)"
  by (cases xs) simp_all

lemma safe_Let [safe_intros]: "(\<And>x. x = a \<Longrightarrow> safe (f x)) \<Longrightarrow> safe (let x = a in f x)"
  by simp

lemma safe_map_res [safe_intros]: "(\<And>x. x \<in> set xs \<Longrightarrow> safe (f x)) \<Longrightarrow> safe (map_res f xs)"
  by (induction xs) (auto intro!: safe_bind)

section \<open>Values\<close>

lemmas payload_decoders = Real_UnmarshalBinary_def Double_UnmarshalBinary_def CharacterString_UnmarshalBinary_def
  BitString_UnmarshalBinary_def Date_UnmarshalBinary_def Time_UnmarshalBinary_def ObjectId_UnmarshalBinary_def
  MaxApduValue_UnmarshalBinary_def MaxSegments_UnmarshalBinary_def Uint16_UnmarshalBinary_def
  Uint32_UnmarshalBinary_def SetInstanceNumber_def

lemma safe_payload_decoders [simp]:
  "safe (Real_UnmarshalBinary b)" "safe (Double_UnmarshalBinary b)" "safe (CharacterString_UnmarshalBinary b)"
  "safe (BitString_UnmarshalBinary b)" "safe (Date_UnmarshalBinary b)" "safe (Time_UnmarshalBinary b)"
  "safe (ObjectId_UnmarshalBinary o1 b)" "safe (MaxApduValue_UnmarshalBinary b)" "safe (MaxSegments_UnmarshalBinary b)"
  "safe (Uint16_UnmarshalBinary b)"
  by (auto simp: payload_decoders Let_def split: list.splits intro!: safe_intros)

lemma safe_PropertyValue_UnmarshalBinary [simp]: "safe (PropertyValue_UnmarshalBinary b)"
  unfolding PropertyValue_UnmarshalBinary_def PropertyValue_payload_def by (auto intro!: safe_intros)

text \<open>Encoding a value panics only on a missing value under a numeric tag.\<close>

definition encodable :: "PropertyValue \<Rightarrow> bool" where
  "encodable p \<longleftrightarrow> (pv_Value p = VNil \<longrightarrow> pv_Type p \<notin> {TagUnsigned, TagSigned, TagReal, TagDouble, TagEnumerated})"

lemma safe_PropertyValue_MarshalBinary [intro]:
  assumes "encodable p"
  shows "safe (PropertyValue_MarshalBinary p)"
  unfolding PropertyValue_MarshalBinary_def
proof (rule safe_bind)
  show "safe (PropertyValue_coerce p)"
    using assms by (auto simp: encodable_def PropertyValue_coerce_def coerce_number_def ConvertibleTo_def invalidVal_def
        Let_def intro!: safe_intros)
  fix q
  assume q: "PropertyValue_coerce p = Inr q"
  have "pv_Type q \<in> {TagUnsigned, TagEnumerated} \<Longrightarrow> \<exists>v. pv_Value q = VUint32 v"
    "pv_Type q = TagSigned \<Longrightarrow> \<exists>v. pv_Value q = VInt32 v" "pv_Type q = TagReal \<Longrightarrow> \<exists>v. pv_Value q = VFloat32 v"
    "pv_Type q = TagDouble \<Longrightarrow> \<exists>v. pv_Value q = VFloat64 v"
    using q by (cases "pv_Value p"; simp add: PropertyValue_coerce_def coerce_number_def bind_res_eq_Inr Let_def split: if_splits;
        fastforce)+
  then show "safe (PropertyValue_encode q)"
    unfolding PropertyValue_encode_def Let_def
    by (intro safe_if) (auto simp: invalidVal_def split: go_value.split option.split)
qed

section \<open>Cursors\<close>

lemma safe_cursor [simp]:
  "safe (tag_at e m b off)" "safe (value_at e b off tag h)" "safe (expect_tag e m P b off)"
  "safe (expect_value e m t P Q b off)" "safe (optional_unsigned n t b off)"
  by (auto simp: tag_at_def value_at_def expect_tag_def expect_value_def optional_unsigned_def
      intro!: safe_intros split: prod.splits)

lemma safe_value_bounds [simp]: "safe (value_bounds u b off stack)"
proof (induction u b off stack rule: value_bounds.induct)
  case (1 u b off stack)
  show ?case by (subst value_bounds.simps) (auto intro!: safe_intros 1)
qed

lemma safe_property_values_loop [simp]: "safe (property_values_loop b e off vs)"
proof (induction b e off vs rule: property_values_loop.induct)
  case (1 b e off vs)
  show ?case by (subst property_values_loop.simps) (auto intro!: safe_intros 1)
qed

lemma safe_Property_UnmarshalBinary [simp]: "safe (Property_UnmarshalBinary p b)"
  by (auto simp: Property_UnmarshalBinary_def property_rest_def property_index_part_def property_value_part_def
      propertyValueBounds_def Let_def intro!: safe_intros)

lemma safe_result_values_loop [simp]: "safe (result_values_loop b off vs)"
proof (induction b off vs rule: result_values_loop.induct)
  case (1 b off vs)
  show ?case by (subst result_values_loop.simps) (auto intro!: safe_intros 1)
qed

lemma safe_cov_properties_loop [simp]: "safe (cov_properties_loop b oid off ps prio)"
proof (induction b oid off ps prio rule: cov_properties_loop.induct)
  case (1 b oid off ps prio)
  have c: "safe (cov_priority b off)" for b off by (auto simp: cov_priority_def Let_def intro!: safe_intros)
  show ?case by (subst cov_properties_loop.simps) (auto intro!: safe_intros 1 c)
qed

section \<open>Services\<close>

lemma safe_pdu_decoders [simp]:
  "safe (ReadPropertyPdu_UnmarshalBinary r b)" "safe (decodePropertyResultValues b)"
  "safe (TimeSyncPdu_UnmarshalBinary b)" "safe (IHave_UnmarshalBinary b)" "safe (CovNotification_UnmarshalBinary b)"
  "safe (Device_UnmarshalBinary d b)"
  by (auto simp: ReadPropertyPdu_UnmarshalBinary_def decodePropertyResultValues_def TimeSyncPdu_UnmarshalBinary_def
      IHave_UnmarshalBinary_def CovNotification_UnmarshalBinary_def readContextValue_def Device_UnmarshalBinary_def
      readApplicationValue_def Let_def intro!: safe_intros split: go_value.splits)

lemma safe_WhoHas_UnmarshalBinary [simp]: "safe (WhoHas_UnmarshalBinary b)"
  by (auto simp: WhoHas_UnmarshalBinary_def WhoHas_range_def Let_def intro!: safe_intros)

lemma safe_two_enumerated [simp]: "safe (two_enumerated e i t b off)"
  by (auto simp: two_enumerated_def intro!: safe_intros)

lemma safe_access_head [simp]: "safe (access_head e i t b)"
  by (auto simp: access_head_def intro!: safe_intros)

lemma safe_decode_result [simp]: "safe (decode_result b off tag h)"
  by (auto simp: decode_result_def result_value_part_def index_and_next_def propertyResultValueBounds_def Let_def
      intro!: safe_intros)

lemma safe_result_loop [simp]: "safe (result_loop b off acc)"
proof (induction b off acc rule: result_loop.induct)
  case (1 b off acc)
  show ?case by (subst result_loop.simps) (auto intro!: safe_intros 1)
qed

lemma safe_decodeReadAccessResult [simp]: "safe (decodeReadAccessResult b)"
  by (auto simp: decodeReadAccessResult_def intro!: safe_intros)

lemma safe_WritePropertyMultipleError [simp]: "safe (WritePropertyMultipleError_UnmarshalBinary b)"
  by (auto simp: WritePropertyMultipleError_UnmarshalBinary_def WritePropertyMultipleError_unmarshal_def Let_def
      intro!: safe_intros)

text \<open>A sequence of safe elements is safe, and it always ends.\<close>

lemma safe_decode_sequence:
  fixes d :: "bytes \<Rightarrow> ('b \<times> nat) result"
  shows "(\<And>b. safe (d b)) \<Longrightarrow> decode_sequence k d b off acc = Some r \<Longrightarrow> safe r"
proof (induction k arbitrary: off acc)
  case (Suc k)
  have "e \<noteq> Panic" if "d (drop off b) = Inl e" for e
    using Suc.prems(1) [of "drop off b"] that by simp
  with Suc show ?case by (auto split: if_splits sum.splits)
qed simp

lemma safe_unmarshal_sequence:
  fixes d :: "bytes \<Rightarrow> ('b \<times> nat) result"
  assumes "\<And>b. safe (d b)" "unmarshal_sequence e d b = Some r"
  shows "safe r"
proof -
  have "safe s" if "sequence_of d b = Some s" for s
    using that unfolding sequence_of_def by (rule safe_decode_sequence [OF assms(1)])
  with assms(2) show ?thesis
    by (auto simp: unmarshal_sequence_def split: if_splits option.splits sum.splits)
qed

lemma safe_ReadPropertyMultipleAck [simp]: "safe (terminating (ReadPropertyMultipleAck_UnmarshalBinary b))"
proof -
  obtain r where r: "ReadPropertyMultipleAck_UnmarshalBinary b = Some r"
    using read_result.unmarshal_sequence_total unfolding ReadPropertyMultipleAck_UnmarshalBinary_def by blast
  then have "safe r" unfolding ReadPropertyMultipleAck_UnmarshalBinary_def
    by (rule safe_unmarshal_sequence [OF safe_decodeReadAccessResult])
  with r show ?thesis by (simp add: terminating_def)
qed

section \<open>Packets\<close>

lemma safe_ReadByte [simp]: "safe (readByte b)" "safe (ReadByte b)"
  by (auto simp: readByte_def ReadByte_def intro!: safe_intros split: list.splits)

lemma safe_Npci_UnmarshalBinary [simp]: "safe (Npci_UnmarshalBinary b)"
  by (auto simp: Npci_UnmarshalBinary_def optional_address_def read_address_def optional_hop_count_def Let_def
      intro!: safe_intros)

lemma safe_Header_UnmarshalBinary [simp]: "safe (Header_UnmarshalBinary b)"
  by (auto simp: Header_UnmarshalBinary_def Let_def intro!: safe_intros)

lemma safe_decodeConfirmedApdu [simp]: "safe (decodeConfirmedApdu a b)" "safe (decodeUnconfirmedApdu a b)"
  by (auto simp: decodeConfirmedApdu_def decodeUnconfirmedApdu_def intro!: safe_intros)

lemma safe_Apdu_UnmarshalBinary [simp]: "safe (Apdu_UnmarshalBinary ip port b)"
proof -
  have s: "safe (segment_fields b)" for b by (auto simp: segment_fields_def intro!: safe_intros)
  show ?thesis
    by (auto simp: Apdu_UnmarshalBinary_def apdu_unconfirmed_def apdu_confirmed_def apdu_simple_ack_def
        apdu_complex_ack_def apdu_error_def apdu_reject_def apdu_abort_def Let_def intro!: safe_intros s)
qed

lemma safe_ParseRequest [simp]: "safe (ParseRequest b sender)"
  by (auto simp: ParseRequest_def Request_UnmarshalBinary_def Let_def intro!: safe_intros)

end
