(* ===== verification/Transport.thy ===== *)
theory Transport
  imports Net "HOL-Library.AList"
begin

text \<open>
  The transport interface and the in-memory network, \<^verbatim>\<open>bacnet/transport/transport.go\<close>.  Connections are
  numbers in the network's store; the listener map is an association list, which gives one order of its
  iteration.  A \<^verbatim>\<open>select\<close> takes one of its ready cases; the argument \<open>sel\<close> says which.
\<close>

record Endpoint =
  ep_IP :: bytes
  ep_Port :: u16
  ep_Network :: u16
  ep_MAC :: bytes

definition NewEndpoint :: "bytes \<Rightarrow> u16 \<Rightarrow> Endpoint" where
  "NewEndpoint x port = \<lparr>ep_IP = x, ep_Port = port, ep_Network = 0, ep_MAC = []\<rparr>"

definition Endpoint_String :: "Endpoint \<Rightarrow> string" where
  "Endpoint_String e =
     (if ep_Network e \<noteq> 0 then ''network='' @ itoa (unat (ep_Network e)) @ '' mac='' @ hexString (ep_MAC e)
      else JoinHostPort (IP_String (ep_IP e)) (itoa (unat (ep_Port e))))"

definition Endpoint_UDPAddr :: "Endpoint \<Rightarrow> UDPAddr" where
  "Endpoint_UDPAddr e = \<lparr>ua_IP = (if ep_IP e = [] then None else Some (ep_IP e)), ua_Port = unat (ep_Port e)\<rparr>"

definition EndpointFromUDP :: "UDPAddr option \<Rightarrow> Endpoint" where
  "EndpointFromUDP address =
     (case address of
        None \<Rightarrow> \<lparr>ep_IP = [], ep_Port = 0, ep_Network = 0, ep_MAC = []\<rparr>
      | Some a \<Rightarrow> NewEndpoint (ip_octets (ua_IP a)) (word_of_nat (ua_Port a)))"

record Datagram =
  dg_Payload :: bytes
  dg_Source :: Endpoint
  dg_Destination :: Endpoint

record MemoryConn =
  mc_endpoint :: Endpoint
  mc_inbound :: "Datagram list"
  mc_closed :: bool

record MemoryNetwork =
  listeners :: "(string \<times> nat) list"
  mn_conns :: "nat \<rightharpoonup> MemoryConn"
  mn_next :: nat

definition NewMemoryNetwork :: MemoryNetwork where
  "NewMemoryNetwork = \<lparr>listeners = [], mn_conns = Map.empty, mn_next = 0\<rparr>"

definition ErrClosed :: go_error where "ErrClosed = Err ''transport is closed''"
definition ErrQueueFull :: go_error where "ErrQueueFull = Err ''transport receive queue is full''"

definition Listen :: "Endpoint \<Rightarrow> MemoryNetwork \<Rightarrow> nat result \<times> MemoryNetwork" where
  "Listen endpoint n =
     (let key = Endpoint_String endpoint in
      if map_of (listeners n) key \<noteq> None then (Inl (Err ''endpoint %s is already in use''), n)
      else (Inr (mn_next n),
        n\<lparr>mn_conns := (mn_conns n)(mn_next n \<mapsto> \<lparr>mc_endpoint = endpoint, mc_inbound = [], mc_closed = False\<rparr>),
          listeners := AList.update key (mn_next n) (listeners n), mn_next := mn_next n + 1\<rparr>))"

definition inbound_capacity :: nat where "inbound_capacity = 256"

definition select_case :: "nat \<Rightarrow> 'a list \<Rightarrow> 'a option" where
  "select_case sel ready = (if ready = [] then None else Some (ready ! (sel mod length ready)))"

definition enqueue :: "nat \<Rightarrow> nat \<Rightarrow> Datagram \<Rightarrow> MemoryNetwork \<Rightarrow> bool \<times> MemoryNetwork" where
  "enqueue sel i datagram n =
     (case mn_conns n i of
        None \<Rightarrow> (False, n)
      | Some c \<Rightarrow>
          (case select_case sel ((if mc_closed c then [False] else []) @ (if length (mc_inbound c) < inbound_capacity then [True] else [])) of
             Some True \<Rightarrow> (True, n\<lparr>mn_conns := (mn_conns n)(i \<mapsto> c\<lparr>mc_inbound := mc_inbound c @ [datagram]\<rparr>)\<rparr>)
           | _ \<Rightarrow> (False, n)))"

definition isBroadcast :: "bytes \<Rightarrow> bool" where
  "isBroadcast x \<longleftrightarrow> IP_To4 x = Some [255, 255, 255, 255]"

text \<open>The loop over the listeners of a broadcast.\<close>

fun broadcast_loop :: "nat \<Rightarrow> (string \<times> nat) list \<Rightarrow> Endpoint \<Rightarrow> Endpoint \<Rightarrow> bytes \<Rightarrow> bool \<Rightarrow> MemoryNetwork \<Rightarrow> bool \<times> MemoryNetwork" where
  "broadcast_loop sel [] source destination payload delivered n = (delivered, n)"
| "broadcast_loop sel ((key, i) # ls) source destination payload delivered n =
     (case mn_conns n i of
        None \<Rightarrow> broadcast_loop sel ls source destination payload delivered n
      | Some c \<Rightarrow>
          if ep_Port (mc_endpoint c) \<noteq> ep_Port destination \<or> Endpoint_String (mc_endpoint c) = Endpoint_String source
          then broadcast_loop sel ls source destination payload delivered n
          else (let (ok, n) = enqueue sel i \<lparr>dg_Payload = payload, dg_Source = source, dg_Destination = mc_endpoint c\<rparr> n
                in broadcast_loop sel ls source destination payload (delivered \<or> ok) n))"

definition deliver :: "nat \<Rightarrow> Endpoint \<Rightarrow> Endpoint \<Rightarrow> bytes \<Rightarrow> MemoryNetwork \<Rightarrow> unit result \<times> MemoryNetwork" where
  "deliver sel source destination payload n =
     (if isBroadcast (ep_IP destination) then
        (let (delivered, n) = broadcast_loop sel (listeners n) source destination payload False n
         in (if delivered then Inr () else Inl (Err ''no listeners for broadcast port %d''), n))
      else (case map_of (listeners n) (Endpoint_String destination) of
          None \<Rightarrow> (Inl (Err ''endpoint %s is not listening''), n)
        | Some i \<Rightarrow>
            (let (ok, n') = enqueue sel i \<lparr>dg_Payload = payload, dg_Source = source, dg_Destination = destination\<rparr> n
             in if ok then (Inr (), n')
                else (Inl (if map_option mc_closed (mn_conns n i) = Some True then ErrClosed else ErrQueueFull), n'))))"

text \<open>\<open>ctx\<close> is the error of a context that is done; \<open>None\<close> as a result is a read that waits.\<close>

definition MemoryConn_Read :: "nat \<Rightarrow> go_error option \<Rightarrow> nat \<Rightarrow> MemoryNetwork \<Rightarrow> (Datagram result \<times> MemoryNetwork) option" where
  "MemoryConn_Read sel ctx i n =
     (case mn_conns n i of
        None \<Rightarrow> None
      | Some c \<Rightarrow>
          map_option (\<lambda>x. (x, case x of Inl _ \<Rightarrow> n | Inr _ \<Rightarrow> n\<lparr>mn_conns := (mn_conns n)(i \<mapsto> c\<lparr>mc_inbound := tl (mc_inbound c)\<rparr>)\<rparr>))
            (select_case sel ((case ctx of Some e \<Rightarrow> [Inl e] | None \<Rightarrow> []) @ (if mc_closed c then [Inl ErrClosed] else [])
               @ (case mc_inbound c of [] \<Rightarrow> [] | d # _ \<Rightarrow> [Inr d]))))"

definition MemoryConn_Write :: "nat \<Rightarrow> go_error option \<Rightarrow> nat \<Rightarrow> Endpoint \<Rightarrow> bytes \<Rightarrow> MemoryNetwork \<Rightarrow> unit result \<times> MemoryNetwork" where
  "MemoryConn_Write sel ctx i destination payload n =
     (case mn_conns n i of
        None \<Rightarrow> (Inl Panic, n)
      | Some c \<Rightarrow>
          (case select_case sel ((case ctx of Some e \<Rightarrow> [e] | None \<Rightarrow> []) @ (if mc_closed c then [ErrClosed] else [])) of
             Some e \<Rightarrow> (Inl e, n)
           | None \<Rightarrow> deliver sel (mc_endpoint c) destination payload n))"

definition MemoryConn_Close :: "nat \<Rightarrow> MemoryNetwork \<Rightarrow> MemoryNetwork" where
  "MemoryConn_Close i n =
     (case mn_conns n i of
        None \<Rightarrow> n
      | Some c \<Rightarrow>
          if mc_closed c then n
          else n\<lparr>mn_conns := (mn_conns n)(i \<mapsto> c\<lparr>mc_closed := True\<rparr>),
                 listeners := AList.delete (Endpoint_String (mc_endpoint c)) (listeners n)\<rparr>)"

section \<open>The listeners are the open connections\<close>

definition net_inv :: "MemoryNetwork \<Rightarrow> bool" where
  "net_inv n \<longleftrightarrow> distinct (map fst (listeners n))
     \<and> (\<forall>key i. map_of (listeners n) key = Some i \<longleftrightarrow>
          (\<exists>c. mn_conns n i = Some c \<and> \<not> mc_closed c \<and> Endpoint_String (mc_endpoint c) = key))
     \<and> (\<forall>i c. mn_conns n i = Some c \<longrightarrow> i < mn_next n \<and> length (mc_inbound c) \<le> inbound_capacity)"

lemma net_invD:
  assumes "net_inv n"
  shows "distinct (map fst (listeners n))"
    "map_of (listeners n) key = Some i \<longleftrightarrow> (\<exists>c. mn_conns n i = Some c \<and> \<not> mc_closed c \<and> Endpoint_String (mc_endpoint c) = key)"
    "mn_conns n i = Some c \<Longrightarrow> i < mn_next n" "mn_conns n i = Some c \<Longrightarrow> length (mc_inbound c) \<le> inbound_capacity"
  using assms unfolding net_inv_def by blast+

lemma net_inv_fresh: "net_inv n \<Longrightarrow> mn_conns n (mn_next n) = None"
  using net_invD(3) [of n "mn_next n"] by fastforce

lemma same_endpoint:
  assumes "net_inv n" "mn_conns n i = Some c" "\<not> mc_closed c" "mn_conns n j = Some d" "\<not> mc_closed d"
    and "Endpoint_String (mc_endpoint c) = Endpoint_String (mc_endpoint d)"
  shows "i = j"
  using net_invD(2) [OF assms(1)] assms(2-6) by (metis option.inject)

inductive net_step :: "MemoryNetwork \<Rightarrow> MemoryNetwork \<Rightarrow> bool" where
  net_listen: "Listen e n = (r, n') \<Longrightarrow> net_step n n'"
| net_read: "MemoryConn_Read sel ctx i n = Some (r, n') \<Longrightarrow> net_step n n'"
| net_write: "MemoryConn_Write sel ctx i destination payload n = (r, n') \<Longrightarrow> net_step n n'"
| net_close: "net_step n (MemoryConn_Close i n)"

inductive_cases net_stepE: "net_step n n'"

text \<open>Replacing the queue of a connection by one that fits.\<close>

definition set_inbound :: "nat \<Rightarrow> Datagram list \<Rightarrow> MemoryNetwork \<Rightarrow> MemoryNetwork" where
  "set_inbound i q n = (case mn_conns n i of None \<Rightarrow> n | Some c \<Rightarrow> n\<lparr>mn_conns := (mn_conns n)(i \<mapsto> c\<lparr>mc_inbound := q\<rparr>)\<rparr>)"

lemma net_inv_set_inbound: "net_inv n \<Longrightarrow> length q \<le> inbound_capacity \<Longrightarrow> net_inv (set_inbound i q n)"
  by (auto simp: net_inv_def set_inbound_def split: option.splits)

lemma listeners_set_inbound [simp]: "listeners (set_inbound i q n) = listeners n"
  by (simp add: set_inbound_def split: option.splits)

lemma enqueue_open:
  assumes "mn_conns n i = Some c" "\<not> mc_closed c"
  shows "enqueue sel i d n = (if length (mc_inbound c) < inbound_capacity then (True, set_inbound i (mc_inbound c @ [d]) n) else (False, n))"
  using assms by (simp add: enqueue_def select_case_def set_inbound_def)

lemma enqueue_cases:
  obtains c where "mn_conns n i = Some c" "length (mc_inbound c) < inbound_capacity" "enqueue sel i d n = (True, set_inbound i (mc_inbound c @ [d]) n)"
    | "enqueue sel i d n = (False, n)"
proof (cases "mn_conns n i")
  case (Some c)
  have "sel mod Suc (Suc 0) = 0 \<or> sel mod Suc (Suc 0) = 1" using mod_less_divisor [of "Suc (Suc 0)" sel] by linarith
  with Some have "length (mc_inbound c) < inbound_capacity \<and> enqueue sel i d n = (True, set_inbound i (mc_inbound c @ [d]) n) \<or> enqueue sel i d n = (False, n)"
    by (auto simp: enqueue_def select_case_def set_inbound_def)
  with Some that show ?thesis by blast
qed (simp add: enqueue_def that)

lemma net_inv_enqueue: "net_inv n \<Longrightarrow> net_inv (snd (enqueue sel i d n))"
  by (cases rule: enqueue_cases [of n i sel d]) (auto intro!: net_inv_set_inbound)

lemma net_inv_broadcast: "net_inv n \<Longrightarrow> net_inv (snd (broadcast_loop sel ls source destination payload delivered n))"
proof (induction sel ls source destination payload delivered n rule: broadcast_loop.induct)
  case (2 sel key i ls source destination payload delivered n)
  then show ?case
    using net_inv_enqueue [OF "2.prems", of sel i]
    by (auto simp: case_prod_unfold Let_def split: option.splits)
qed simp

lemma net_inv_deliver: "net_inv n \<Longrightarrow> net_inv (snd (deliver sel source destination payload n))"
  using net_inv_broadcast [of n sel "listeners n" source destination payload False] net_inv_enqueue [of n sel]
  by (auto simp: deliver_def case_prod_unfold Let_def split: option.splits)

lemma net_inv_Listen:
  assumes "net_inv n" "Listen e n = (r, n')"
  shows "net_inv n'"
proof (cases "map_of (listeners n) (Endpoint_String e)")
  case None
  let ?i = "mn_next n" and ?key = "Endpoint_String e"
  from None assms(2) have n': "n' = n\<lparr>mn_conns := (mn_conns n)(?i \<mapsto> \<lparr>mc_endpoint = e, mc_inbound = [], mc_closed = False\<rparr>),
      listeners := AList.update ?key ?i (listeners n), mn_next := ?i + 1\<rparr>" by (simp add: Listen_def Let_def)
  have none: "\<not> (\<exists>c. mn_conns n i = Some c \<and> \<not> mc_closed c \<and> Endpoint_String (mc_endpoint c) = ?key)" for i
    using net_invD(2) [OF assms(1), of ?key i] None by simp
  note inv = net_invD [OF assms(1)]
  have "map_of (listeners n') key = Some i \<longleftrightarrow> (\<exists>c. mn_conns n' i = Some c \<and> \<not> mc_closed c \<and> Endpoint_String (mc_endpoint c) = key)" for key i
    using inv(2) [of key i] net_inv_fresh [OF assms(1)] none [of i] None unfolding n' by (auto simp: update_conv' simp del: map_of_eq_Some_iff)
  moreover have "distinct (map fst (listeners n'))" using inv(1) unfolding n' by (simp add: distinct_update)
  moreover have "i < mn_next n' \<and> length (mc_inbound c) \<le> inbound_capacity" if "mn_conns n' i = Some c" for i c
    using that inv(3,4) unfolding n' by (auto simp: less_SucI split: if_splits)
  ultimately show ?thesis by (simp add: net_inv_def)
qed (use assms in \<open>simp add: Listen_def Let_def\<close>)

lemma net_inv_Close: "net_inv n \<Longrightarrow> net_inv (MemoryConn_Close i n)"
proof (cases "mn_conns n i")
  case (Some c)
  assume inv: "net_inv n"
  show ?thesis
  proof (cases "mc_closed c")
    case False
    let ?key = "Endpoint_String (mc_endpoint c)"
    note u = same_endpoint [OF inv Some False] and d = net_invD [OF inv]
    let ?n = "n\<lparr>mn_conns := (mn_conns n)(i \<mapsto> c\<lparr>mc_closed := True\<rparr>), listeners := AList.delete ?key (listeners n)\<rparr>"
    have "map_of (listeners ?n) key = Some j \<longleftrightarrow> (\<exists>c. mn_conns ?n j = Some c \<and> \<not> mc_closed c \<and> Endpoint_String (mc_endpoint c) = key)" for key j
    proof (cases "j = i")
      case True
      then show ?thesis using d(2) [of key i] Some False by (simp add: delete_conv' del: map_of_eq_Some_iff)
    next
      case other: False
      have "key \<noteq> ?key" if "mn_conns n j = Some c'" "\<not> mc_closed c'" "Endpoint_String (mc_endpoint c') = key" for c'
        using u [OF that(1,2)] that(3) other by auto
      then show ?thesis using d(2) [of key j] other by (auto simp: delete_conv' simp del: map_of_eq_Some_iff)
    qed
    moreover have "distinct (map fst (listeners ?n))" using d(1) by (simp add: distinct_delete)
    moreover have "j < mn_next ?n \<and> length (mc_inbound c') \<le> inbound_capacity" if "mn_conns ?n j = Some c'" for j c'
      using that d(3,4) Some by (auto split: if_splits)
    ultimately have "net_inv ?n" by (simp add: net_inv_def)
    with Some False show ?thesis by (simp add: MemoryConn_Close_def)
  qed (use Some inv in \<open>simp add: MemoryConn_Close_def\<close>)
qed (simp add: MemoryConn_Close_def)

lemma MemoryConn_Read_cases:
  assumes "MemoryConn_Read sel ctx i n = Some (r, n')"
  obtains e where "r = Inl e" "n' = n"
    | c d ds where "mn_conns n i = Some c" "mc_inbound c = d # ds" "r = Inr d" "n' = set_inbound i ds n"
proof -
  obtain c x where c: "mn_conns n i = Some c" and sel: "select_case sel ((case ctx of Some e \<Rightarrow> [Inl e] | None \<Rightarrow> []) @
      (if mc_closed c then [Inl ErrClosed] else []) @ (case mc_inbound c of [] \<Rightarrow> [] | d # _ \<Rightarrow> [Inr d])) = Some x"
    and x: "r = x" "n' = (case x of Inl _ \<Rightarrow> n | Inr _ \<Rightarrow> n\<lparr>mn_conns := (mn_conns n)(i \<mapsto> c\<lparr>mc_inbound := tl (mc_inbound c)\<rparr>)\<rparr>)"
    using assms by (auto simp: MemoryConn_Read_def split: option.splits)
  have "x \<in> set ((case ctx of Some e \<Rightarrow> [Inl e] | None \<Rightarrow> []) @
      (if mc_closed c then [Inl ErrClosed] else []) @ (case mc_inbound c of [] \<Rightarrow> [] | d # _ \<Rightarrow> [Inr d]))"
    using sel unfolding select_case_def by (metis length_greater_0_conv mod_less_divisor nth_mem option.inject option.distinct(1))
  with c x show ?thesis
    by (cases x; cases "mc_inbound c") (auto intro: that simp: set_inbound_def split: option.splits if_splits)
qed

lemma net_inv_Read: "net_inv n \<Longrightarrow> MemoryConn_Read sel ctx i n = Some (r, n') \<Longrightarrow> net_inv n'"
  by (erule MemoryConn_Read_cases) (auto intro!: net_inv_set_inbound dest: net_invD(4))

lemma net_inv_Write: "net_inv n \<Longrightarrow> MemoryConn_Write sel ctx i destination payload n = (r, n') \<Longrightarrow> net_inv n'"
  using net_inv_deliver [of n sel _ destination payload] by (auto simp: MemoryConn_Write_def split: option.splits; metis snd_conv)

lemma net_inv_step: "net_step n n' \<Longrightarrow> net_inv n \<Longrightarrow> net_inv n'"
  by (erule net_stepE) (auto intro: net_inv_Listen net_inv_Read net_inv_Close net_inv_Write)

section \<open>Who receives a datagram\<close>

definition receives :: "Endpoint \<Rightarrow> Endpoint \<Rightarrow> MemoryConn \<Rightarrow> bool" where
  "receives source destination c \<longleftrightarrow> \<not> mc_closed c \<and> ep_Port (mc_endpoint c) = ep_Port destination
     \<and> Endpoint_String (mc_endpoint c) \<noteq> Endpoint_String source \<and> length (mc_inbound c) < inbound_capacity"

definition with_datagram :: "Endpoint \<Rightarrow> bytes \<Rightarrow> MemoryConn \<Rightarrow> MemoryConn" where
  "with_datagram source payload c = c\<lparr>mc_inbound := mc_inbound c @ [\<lparr>dg_Payload = payload, dg_Source = source, dg_Destination = mc_endpoint c\<rparr>]\<rparr>"

lemma conns_set_inbound:
  "mn_conns n i = Some c \<Longrightarrow> mn_conns (set_inbound i q n) j = (if j = i then Some (c\<lparr>mc_inbound := q\<rparr>) else mn_conns n j)"
  by (simp add: set_inbound_def)

lemma broadcast_loop_conns:
  assumes "distinct (map snd ls)" "\<forall>i \<in> snd ` set ls. \<exists>c. mn_conns n i = Some c \<and> \<not> mc_closed c"
  shows "mn_conns (snd (broadcast_loop sel ls source destination payload delivered n)) j
      = (if j \<in> snd ` set ls then map_option (\<lambda>c. if receives source destination c then with_datagram source payload c else c) (mn_conns n j)
         else mn_conns n j)
    \<and> (fst (broadcast_loop sel ls source destination payload delivered n)
      \<longleftrightarrow> delivered \<or> (\<exists>i \<in> snd ` set ls. \<exists>c. mn_conns n i = Some c \<and> receives source destination c))"
  using assms
proof (induction ls arbitrary: n delivered)
  case (Cons l ls)
  obtain key i where l: "l = (key, i)" by (cases l)
  obtain c where c: "mn_conns n i = Some c" "\<not> mc_closed c" using Cons.prems(2) l by auto
  have i: "i \<notin> snd ` set ls" "distinct (map snd ls)" using Cons.prems(1) l by auto
  have rest: "\<forall>i \<in> snd ` set ls. \<exists>c. mn_conns n i = Some c \<and> \<not> mc_closed c" using Cons.prems(2) by auto
  note IH = Cons.IH [OF i(2)]
  show ?case
  proof (cases "receives source destination c")
    case True
    let ?d = "\<lparr>dg_Payload = payload, dg_Source = source, dg_Destination = mc_endpoint c\<rparr>"
    let ?n = "set_inbound i (mc_inbound c @ [?d]) n"
    have e: "enqueue sel i ?d n = (True, ?n)" using True c by (simp add: enqueue_open receives_def)
    have oth: "mn_conns ?n k = (if k = i then Some (with_datagram source payload c) else mn_conns n k)" for k
      using c by (simp add: conns_set_inbound with_datagram_def)
    have "\<forall>k \<in> snd ` set ls. \<exists>c. mn_conns ?n k = Some c \<and> \<not> mc_closed c" using rest i(1) oth by metis
    from IH [OF this, of True] have j: "mn_conns (snd (broadcast_loop sel ls source destination payload True ?n)) j
        = (if j \<in> snd ` set ls then map_option (\<lambda>c. if receives source destination c then with_datagram source payload c else c) (mn_conns ?n j)
           else mn_conns ?n j)" and f: "fst (broadcast_loop sel ls source destination payload True ?n)" by simp_all
    have b: "broadcast_loop sel (l # ls) source destination payload delivered n = broadcast_loop sel ls source destination payload True ?n"
      using True c e by (simp add: l receives_def)
    show ?thesis unfolding b using True c l i j f oth by auto
  next
    case False
    have b: "broadcast_loop sel (l # ls) source destination payload delivered n = broadcast_loop sel ls source destination payload delivered n"
      using False c by (auto simp: l receives_def enqueue_open)
    show ?thesis unfolding b using IH [OF rest, of delivered] False c l i by auto
  qed
qed simp

lemma listeners_distinct: "net_inv n \<Longrightarrow> distinct (map snd (listeners n))"
proof -
  assume inv: "net_inv n"
  have "key = key'" if "(key, i) \<in> set (listeners n)" "(key', i) \<in> set (listeners n)" for key key' i
    using that net_invD(1,2) [OF inv] by (metis map_of_is_SomeI option.inject)
  then have "inj_on snd (set (listeners n))" by (auto simp: inj_on_def)
  then show ?thesis using net_invD(1) [OF inv] by (simp add: distinct_map)
qed

lemma listeners_open: "net_inv n \<Longrightarrow> i \<in> snd ` set (listeners n) \<longleftrightarrow> (\<exists>c. mn_conns n i = Some c \<and> \<not> mc_closed c)"
proof -
  assume inv: "net_inv n"
  have "i \<in> snd ` set (listeners n) \<longleftrightarrow> (\<exists>key. map_of (listeners n) key = Some i)"
    using net_invD(1) [OF inv] by (force simp: image_iff)
  then show ?thesis using net_invD(2) [OF inv] by auto
qed

lemma deliver_broadcast:
  assumes "net_inv n" "isBroadcast (ep_IP destination)" "deliver sel source destination payload n = (r, n')"
  shows "mn_conns n' i = map_option (\<lambda>c. if receives source destination c then with_datagram source payload c else c) (mn_conns n i)"
    and "r = Inr () \<longleftrightarrow> (\<exists>i c. mn_conns n i = Some c \<and> receives source destination c)"
proof -
  let ?l = "broadcast_loop sel (listeners n) source destination payload False n"
  have "\<forall>i \<in> snd ` set (listeners n). \<exists>c. mn_conns n i = Some c \<and> \<not> mc_closed c" using listeners_open [OF assms(1)] by blast
  note b = broadcast_loop_conns [OF listeners_distinct [OF assms(1)] this, of sel source destination payload False]
  have n': "n' = snd ?l" "r = (if fst ?l then Inr () else Inl (Err ''no listeners for broadcast port %d''))"
    using assms(2,3) by (auto simp: deliver_def case_prod_unfold Let_def)
  show "mn_conns n' i = map_option (\<lambda>c. if receives source destination c then with_datagram source payload c else c) (mn_conns n i)"
  proof (cases "i \<in> snd ` set (listeners n)")
    case False
    then have "\<not> receives source destination c" if "mn_conns n i = Some c" for c
      using that listeners_open [OF assms(1), of i] by (simp add: receives_def)
    with False b [of i] n'(1) show ?thesis by (cases "mn_conns n i") simp_all
  qed (use b [of i] n'(1) in simp)
  have "receives source destination c \<Longrightarrow> mn_conns n k = Some c \<Longrightarrow> k \<in> snd ` set (listeners n)" for k c
    using listeners_open [OF assms(1), of k] by (simp add: receives_def)
  then have "fst ?l \<longleftrightarrow> (\<exists>i c. mn_conns n i = Some c \<and> receives source destination c)"
    using b [of i] by blast
  then show "r = Inr () \<longleftrightarrow> (\<exists>i c. mn_conns n i = Some c \<and> receives source destination c)" using n'(2) by simp
qed

definition at_endpoint :: "Endpoint \<Rightarrow> MemoryConn \<Rightarrow> bool" where
  "at_endpoint destination c \<longleftrightarrow> \<not> mc_closed c \<and> Endpoint_String (mc_endpoint c) = Endpoint_String destination
     \<and> length (mc_inbound c) < inbound_capacity"

lemma deliver_unicast:
  assumes "net_inv n" "\<not> isBroadcast (ep_IP destination)" "deliver sel source destination payload n = (r, n')"
  shows "mn_conns n' i = map_option (\<lambda>c. if at_endpoint destination c
        then c\<lparr>mc_inbound := mc_inbound c @ [\<lparr>dg_Payload = payload, dg_Source = source, dg_Destination = destination\<rparr>]\<rparr> else c) (mn_conns n i)"
    and "r = Inr () \<longleftrightarrow> (\<exists>i c. mn_conns n i = Some c \<and> at_endpoint destination c)"
proof -
  let ?d = "\<lparr>dg_Payload = payload, dg_Source = source, dg_Destination = destination\<rparr>"
  have "(mn_conns n' i = map_option (\<lambda>c. if at_endpoint destination c then c\<lparr>mc_inbound := mc_inbound c @ [?d]\<rparr> else c) (mn_conns n i))
    \<and> (r = Inr () \<longleftrightarrow> (\<exists>i c. mn_conns n i = Some c \<and> at_endpoint destination c))"
  proof (cases "map_of (listeners n) (Endpoint_String destination)")
    case None
    then have no: "\<not> at_endpoint destination c" if "mn_conns n k = Some c" for k c
      using that net_invD(2) [OF assms(1), of "Endpoint_String destination" k] by (auto simp: at_endpoint_def)
    with None assms(2,3) show ?thesis by (cases "mn_conns n i") (auto simp: deliver_def)
  next
    case (Some k)
    then obtain c where c: "mn_conns n k = Some c" "\<not> mc_closed c" "Endpoint_String (mc_endpoint c) = Endpoint_String destination"
      using net_invD(2) [OF assms(1)] by blast
    have u: "k' = k" if "mn_conns n k' = Some c'" "at_endpoint destination c'" for k' c'
      using same_endpoint [OF assms(1) that(1) _ c(1,2)] that(2) c(3) by (simp add: at_endpoint_def)
    have a: "at_endpoint destination c \<longleftrightarrow> length (mc_inbound c) < inbound_capacity" using c by (simp add: at_endpoint_def)
    show ?thesis
    proof (cases "length (mc_inbound c) < inbound_capacity")
      case True
      then have "n' = set_inbound k (mc_inbound c @ [?d]) n" "r = Inr ()"
        using assms(2,3) Some c by (simp_all add: deliver_def enqueue_open)
      moreover have "(\<exists>i c. mn_conns n i = Some c \<and> at_endpoint destination c)" using c a True by blast
      ultimately show ?thesis using u [of i] c a True
        by (cases "mn_conns n i") (auto simp: conns_set_inbound [OF c(1)])
    next
      case False
      then have "n' = n" "r = Inl ErrQueueFull" using assms(2,3) Some c by (simp_all add: deliver_def enqueue_open)
      moreover have "\<not> at_endpoint destination c'" if "mn_conns n k' = Some c'" for k' c'
        using u [OF that] that c(1) a False by auto
      ultimately show ?thesis by (cases "mn_conns n i") auto
    qed
  qed
  then show "mn_conns n' i = map_option (\<lambda>c. if at_endpoint destination c then c\<lparr>mc_inbound := mc_inbound c @ [?d]\<rparr> else c) (mn_conns n i)"
    and "r = Inr () \<longleftrightarrow> (\<exists>i c. mn_conns n i = Some c \<and> at_endpoint destination c)" by blast+
qed

lemma net_inv_reachable: "net_step\<^sup>*\<^sup>* NewMemoryNetwork n \<Longrightarrow> net_inv n"
  by (induction rule: rtranclp_induct) (simp add: net_inv_def NewMemoryNetwork_def, rule net_inv_step)

section \<open>Properties\<close>

text \<open>The in-memory network after any sequence of listening, reading, writing and closing: two open connections never share
  an endpoint; listening on an endpoint succeeds exactly when no open connection has it, so a closed one can be taken again;
  and no receive queue holds more than its 256 datagrams.\<close>

theorem memory_network_inv:
  assumes "net_step\<^sup>*\<^sup>* NewMemoryNetwork n"
  shows "(\<forall>i j c d. mn_conns n i = Some c \<and> \<not> mc_closed c \<and> mn_conns n j = Some d \<and> \<not> mc_closed d
        \<and> Endpoint_String (mc_endpoint c) = Endpoint_String (mc_endpoint d) \<longrightarrow> i = j)
    \<and> (\<forall>e. (\<exists>i. fst (Listen e n) = Inr i)
        \<longleftrightarrow> \<not> (\<exists>i c. mn_conns n i = Some c \<and> \<not> mc_closed c \<and> Endpoint_String (mc_endpoint c) = Endpoint_String e))
    \<and> (\<forall>i c. mn_conns n i = Some c \<longrightarrow> length (mc_inbound c) \<le> 256)"
proof -
  have inv: "net_inv n" using assms by (rule net_inv_reachable)
  have l: "(\<exists>i. fst (Listen e n) = Inr i)
      \<longleftrightarrow> \<not> (\<exists>i c. mn_conns n i = Some c \<and> \<not> mc_closed c \<and> Endpoint_String (mc_endpoint c) = Endpoint_String e)" for e
  proof -
    have "(\<exists>i. fst (Listen e n) = Inr i) \<longleftrightarrow> map_of (listeners n) (Endpoint_String e) = None" by (simp add: Listen_def Let_def)
    then show ?thesis using net_invD(2) [OF inv, of "Endpoint_String e"] by (metis not_None_eq)
  qed
  show ?thesis
    by (intro conjI allI l impI) (elim conjE, rule same_endpoint [OF inv], assumption+, simp add: net_invD(4) [OF inv, unfolded inbound_capacity_def])
qed

theorem memory_network_inv_witness:
  "\<exists>n. net_step\<^sup>*\<^sup>* NewMemoryNetwork n \<and> fst (Listen (NewEndpoint [10, 0, 0, 1] 5) n) = Inl (Err ''endpoint %s is already in use'')
     \<and> (\<exists>i. fst (Listen (NewEndpoint [10, 0, 0, 2] 5) n) = Inr i)"
proof -
  let ?e = "NewEndpoint [10, 0, 0, 1] 5" and ?e2 = "NewEndpoint [10, 0, 0, 2] 5"
  let ?n = "snd (Listen ?e NewMemoryNetwork)"
  have r: "net_step\<^sup>*\<^sup>* NewMemoryNetwork ?n" by (rule r_into_rtranclp) (rule net_listen [of ?e _ "fst (Listen ?e NewMemoryNetwork)"], simp)
  have c: "mn_conns ?n = [0 \<mapsto> \<lparr>mc_endpoint = ?e, mc_inbound = [], mc_closed = False\<rparr>]"
    by (simp add: Listen_def NewMemoryNetwork_def)
  have ne: "Endpoint_String ?e \<noteq> Endpoint_String ?e2" by code_simp
  have "(\<exists>i. fst (Listen ?e2 ?n) = Inr i)"
    using conjunct1 [OF conjunct2 [OF memory_network_inv [OF r]], rule_format, of ?e2] ne unfolding c by (auto split: if_splits)
  moreover have "fst (Listen ?e ?n) = Inl (Err ''endpoint %s is already in use'')" by (simp add: Listen_def NewMemoryNetwork_def Let_def)
  ultimately show ?thesis using r by blast
qed

text \<open>C22. Delivery in the in-memory network.  A write from an open connection puts one copy of the datagram at the end of the queue of
  exactly these connections: for a broadcast, the open ones with that port, room in the queue and another endpoint than the
  sender's; otherwise the open one at the destination, if its queue has room.  All other queues stay as they are, and the write reports
  success exactly when somebody received it.\<close>

theorem memory_delivery:
  assumes "net_step\<^sup>*\<^sup>* NewMemoryNetwork n" "mn_conns n j = Some w" "\<not> mc_closed w"
    and "MemoryConn_Write sel None j destination payload n = (r, n')"
  shows "if isBroadcast (ep_IP destination)
    then (\<forall>i. mn_conns n' i = map_option (\<lambda>c. if receives (mc_endpoint w) destination c then with_datagram (mc_endpoint w) payload c else c) (mn_conns n i))
      \<and> (r = Inr () \<longleftrightarrow> (\<exists>i c. mn_conns n i = Some c \<and> receives (mc_endpoint w) destination c))
    else (\<forall>i. mn_conns n' i = map_option (\<lambda>c. if at_endpoint destination c
          then c\<lparr>mc_inbound := mc_inbound c @ [\<lparr>dg_Payload = payload, dg_Source = mc_endpoint w, dg_Destination = destination\<rparr>]\<rparr> else c) (mn_conns n i))
      \<and> (r = Inr () \<longleftrightarrow> (\<exists>i c. mn_conns n i = Some c \<and> at_endpoint destination c))"
proof -
  have inv: "net_inv n" using assms(1) by (rule net_inv_reachable)
  have d: "deliver sel (mc_endpoint w) destination payload n = (r, n')"
    using assms(2-4) by (simp add: MemoryConn_Write_def select_case_def)
  show ?thesis using deliver_broadcast [OF inv _ d] deliver_unicast [OF inv _ d] by simp
qed

theorem memory_delivery_witness:
  "\<exists>n r n'. net_step\<^sup>*\<^sup>* NewMemoryNetwork n \<and> MemoryConn_Write 0 None 0 (NewEndpoint [10, 0, 0, 1] 47808) [1, 2] n = (r, n') \<and> r = Inr ()
     \<and> map_option mc_inbound (mn_conns n' 0) = Some [\<lparr>dg_Payload = [1, 2], dg_Source = NewEndpoint [10, 0, 0, 1] 47808,
          dg_Destination = NewEndpoint [10, 0, 0, 1] 47808\<rparr>]"
proof -
  let ?e = "NewEndpoint [10, 0, 0, 1] 47808" let ?n = "snd (Listen ?e NewMemoryNetwork)"
  have r: "net_step\<^sup>*\<^sup>* NewMemoryNetwork ?n" by (rule r_into_rtranclp) (rule net_listen [of ?e _ "fst (Listen ?e NewMemoryNetwork)"], simp)
  have c: "mn_conns ?n 0 = Some \<lparr>mc_endpoint = ?e, mc_inbound = [], mc_closed = False\<rparr>"
    by (simp add: Listen_def NewMemoryNetwork_def)
  have nb: "\<not> isBroadcast (ep_IP ?e)" by code_simp
  obtain r n' where w: "MemoryConn_Write 0 None 0 ?e [1, 2] ?n = (r, n')" by fastforce
  have a: "at_endpoint ?e \<lparr>mc_endpoint = ?e, mc_inbound = [], mc_closed = False\<rparr>" by (simp add: at_endpoint_def inbound_capacity_def)
  note m = memory_delivery [OF r c _ w, simplified nb if_False]
  have "map_option mc_inbound (mn_conns n' 0) = Some [\<lparr>dg_Payload = [1, 2], dg_Source = ?e, dg_Destination = ?e\<rparr>]"
    using conjunct1 [OF m, rule_format, of 0] a unfolding c by simp
  moreover have "r = Inr ()" using conjunct2 [OF m] c a by auto
  ultimately show ?thesis using r w by blast
qed

end
