(* ===== verification/Responder.thy ===== *)
theory Responder
  imports Safety Transport Names
begin

text \<open>
  The responder, \<^verbatim>\<open>bacnet/responder/response.go\<close> and \<^verbatim>\<open>bacnet/responder/server.go\<close>: it parses a datagram, finds
  the handler for its PDU type and service, and writes the handler's responses.  A handler is a function
  on the application's state; the transport's \<^verbatim>\<open>Write\<close> is the argument \<open>wr\<close>, a function on the
  connection's state, with the context already applied.
\<close>

section \<open>Responses\<close>

record Response =
  rs_PDUType :: u8
  rs_ServiceChoice :: u8
  rs_Payload :: bytes
  rs_ErrorClass :: u32
  rs_ErrorCode :: u32
  rs_RejectReason :: u8
  rs_AbortReason :: u8
  rs_InvokeID :: u8
  rs_Destination :: "Endpoint option"
  rs_Broadcast :: bool

definition Response_zero :: Response where
  "Response_zero = \<lparr>rs_PDUType = 0, rs_ServiceChoice = 0, rs_Payload = [], rs_ErrorClass = 0, rs_ErrorCode = 0,
     rs_RejectReason = 0, rs_AbortReason = 0, rs_InvokeID = 0, rs_Destination = None, rs_Broadcast = False\<rparr>"

definition SimpleACK :: Response where
  "SimpleACK = Response_zero\<lparr>rs_PDUType := PduTypeSimpleAck\<rparr>"

definition ComplexACK :: "bytes \<Rightarrow> Response" where
  "ComplexACK payload = Response_zero\<lparr>rs_PDUType := PduTypeComplexAck, rs_Payload := payload\<rparr>"

definition ErrorResponse :: "u32 \<Rightarrow> u32 \<Rightarrow> Response" where
  "ErrorResponse class code = Response_zero\<lparr>rs_PDUType := PduTypeError, rs_ErrorClass := class, rs_ErrorCode := code\<rparr>"

definition Reject :: "u8 \<Rightarrow> Response" where
  "Reject reason = Response_zero\<lparr>rs_PDUType := PduTypeReject, rs_RejectReason := reason\<rparr>"

definition Abort :: "u8 \<Rightarrow> Response" where
  "Abort reason = Response_zero\<lparr>rs_PDUType := PduTypeAbort, rs_AbortReason := reason\<rparr>"

definition Unconfirmed :: "u8 \<Rightarrow> bytes \<Rightarrow> Response" where
  "Unconfirmed serviceChoice payload =
     Response_zero\<lparr>rs_PDUType := PduTypeUnconfirmedServiceRequest, rs_ServiceChoice := serviceChoice, rs_Payload := payload\<rparr>"

definition Confirmed :: "u8 \<Rightarrow> u8 \<Rightarrow> bytes \<Rightarrow> Response" where
  "Confirmed serviceChoice invokeID payload =
     Response_zero\<lparr>rs_PDUType := PduTypeConfirmedServiceRequest, rs_ServiceChoice := serviceChoice,
       rs_InvokeID := invokeID, rs_Payload := payload\<rparr>"

definition To :: "Endpoint \<Rightarrow> Response \<Rightarrow> Response" where
  "To endpoint r = r\<lparr>rs_Destination := Some endpoint\<rparr>"

definition AsBroadcast :: "Response \<Rightarrow> Response" where
  "AsBroadcast r = r\<lparr>rs_Broadcast := True\<rparr>"

section \<open>Encoding a response\<close>

definition AbortReasonSegmentationNotSupported :: u8 where "AbortReasonSegmentationNotSupported = 4"
definition RejectReasonUnrecognizedService :: u8 where "RejectReasonUnrecognizedService = 9"

text \<open>The network header: a routed source becomes the destination, unless the response is a broadcast.\<close>

definition response_npci :: "Npci \<Rightarrow> Response \<Rightarrow> Npci" where
  "response_npci incoming response =
     (let n = Npci_Reset\<lparr>n_Priority := n_Priority incoming\<rparr>;
          n = (case n_SourceMAC incoming of
                 Some mac \<Rightarrow> if n_SourceNet incoming \<noteq> 0
                   then n\<lparr>n_DestinationNet := n_SourceNet incoming, n_DestinationLength := word_of_nat (length mac),
                          n_DestinationMAC := Some mac\<rparr> else n
               | None \<Rightarrow> n);
          n = (if rs_Broadcast response
               then n\<lparr>n_DestinationNet := 0xffff, n_DestinationLength := 0, n_DestinationMAC := None\<rparr> else n)
      in if rs_PDUType response AND 0xf0 = PduTypeConfirmedServiceRequest then n\<lparr>n_ExpectingReply := True\<rparr> else n)"

definition correlated :: "Apdu \<Rightarrow> Apdu \<Rightarrow> Apdu" where
  "correlated incoming a = a\<lparr>a_InvokeID := a_InvokeID incoming, a_ServiceChoice := a_ServiceChoice incoming\<rparr>"

definition response_apdu :: "Apdu \<Rightarrow> Response \<Rightarrow> Apdu result" where
  "response_apdu incoming response =
     (let pduType = rs_PDUType response AND 0xf0;
          confirmed = (a_PduType incoming AND 0xf0 = PduTypeConfirmedServiceRequest);
          a = (r_Apdu Request_Reset)\<lparr>a_PduType := pduType\<rparr>
      in if pduType = PduTypeSimpleAck then
           (if \<not> confirmed then Inl (Err ''responder: SimpleACK requires a confirmed request'')
            else if length (rs_Payload response) \<noteq> 0 then Inl (Err ''responder: SimpleACK cannot contain a payload'')
            else Inr (correlated incoming a))
         else if pduType = PduTypeComplexAck then
           (if \<not> confirmed then Inl (Err ''responder: ComplexACK requires a confirmed request'')
            else Inr ((correlated incoming a)\<lparr>a_Payload := rs_Payload response\<rparr>))
         else if pduType = PduTypeError then
           (if \<not> confirmed then Inl (Err ''responder: Error APDU requires a confirmed request'')
            else Inr ((correlated incoming a)\<lparr>a_ErrorClass := rs_ErrorClass response,
                   a_ErrorCode := rs_ErrorCode response, a_Payload := rs_Payload response\<rparr>))
         else if pduType = PduTypeReject then
           (if \<not> confirmed then Inl (Err ''responder: Reject requires a confirmed request'')
            else Inr (a\<lparr>a_InvokeID := a_InvokeID incoming, a_RejectReason := rs_RejectReason response\<rparr>))
         else if pduType = PduTypeAbort then
           (if \<not> confirmed then Inl (Err ''responder: Abort requires a confirmed request'')
            else Inr (a\<lparr>a_PduType := PduTypeAbort, a_Server := True, a_InvokeID := a_InvokeID incoming,
                   a_AbortReason := rs_AbortReason response\<rparr>))
         else if pduType = PduTypeUnconfirmedServiceRequest then
           Inr (a\<lparr>a_ServiceChoice := rs_ServiceChoice response, a_Payload := rs_Payload response\<rparr>)
         else if pduType = PduTypeConfirmedServiceRequest then
           (if rs_InvokeID response = 0
            then Inl (Err ''responder: outgoing confirmed request requires a nonzero invoke ID'')
            else Inr (a\<lparr>a_InvokeID := rs_InvokeID response, a_ServiceChoice := rs_ServiceChoice response,
                   a_Payload := rs_Payload response\<rparr>))
         else Inl (Err ''responder: unsupported response PDU type %#x''))"

definition fallback_abort :: "Apdu \<Rightarrow> Apdu" where
  "fallback_abort incoming = Apdu_Reset\<lparr>a_PduType := PduTypeAbort, a_Server := True, a_InvokeID := a_InvokeID incoming,
     a_AbortReason := AbortReasonSegmentationNotSupported\<rparr>"

definition with_text :: "string \<Rightarrow> 'a result \<Rightarrow> 'a result" where
  "with_text t r = (case r of Inl Panic \<Rightarrow> Inl Panic | Inl (Err _) \<Rightarrow> Inl (Err t) | Inr x \<Rightarrow> Inr x)"

text \<open>The packet that answers \<open>incoming\<close>, with the Abort that replaces an acknowledgement the peer cannot take.\<close>

definition response_packet :: "Request \<Rightarrow> Response \<Rightarrow> Request result" where
  "response_packet incoming response =
     bind_res (response_apdu (r_Apdu incoming) response) (\<lambda>a.
     bind_res (with_text ''responder: encode response APDU: %v'' (Apdu_MarshalBinary a)) (\<lambda>apdu.
       let a' = (if rs_PDUType response AND 0xf0 = PduTypeComplexAck \<and> length apdu > unat (a_MaxApdu (r_Apdu incoming))
                 then fallback_abort (r_Apdu incoming) else a)
       in bind_res (with_text ''responder: encode fallback Abort APDU: %v'' (Apdu_MarshalBinary a')) (\<lambda>apdu'.
            if length apdu' > MaxApdu then Inl (Err ''responder: response APDU is %d octets, maximum is %d'')
            else Inr \<lparr>r_Header = (r_Header Request_Reset)\<lparr>h_Function :=
                        (if rs_Broadcast response then BvlcFunctionOriginalBroadcastNpdu else BvlcFunctionOriginalUnicastNpdu)\<rparr>,
                      r_Npci = response_npci (r_Npci incoming) response, r_Apdu = a'\<rparr>)))"

type_synonym 'c conn_writer = "Endpoint \<Rightarrow> bytes \<Rightarrow> 'c \<Rightarrow> unit result \<times> 'c"

definition writeResponse :: "'c conn_writer \<Rightarrow> Request \<Rightarrow> Endpoint \<Rightarrow> Response \<Rightarrow> 'c \<Rightarrow> unit result \<times> 'c" where
  "writeResponse wr incoming source response c =
     (let destination = (case rs_Destination response of Some d \<Rightarrow> d | None \<Rightarrow> source) in
      case response_packet incoming response of
        Inl e \<Rightarrow> (Inl e, c)
      | Inr packet \<Rightarrow>
          (case with_text ''responder: encode response: %v'' (Request_MarshalBinary packet) of
             Inl e \<Rightarrow> (Inl e, c)
           | Inr encoded \<Rightarrow> (let (r, c) = wr destination encoded c in (with_text ''responder: write response: %v'' r, c))))"

fun writeResponses :: "'c conn_writer \<Rightarrow> Request \<Rightarrow> Endpoint \<Rightarrow> Response list \<Rightarrow> 'c \<Rightarrow> unit result \<times> 'c" where
  "writeResponses wr incoming source [] c = (Inr (), c)"
| "writeResponses wr incoming source (r # rs) c =
     (case writeResponse wr incoming source r c of
        (Inl e, c) \<Rightarrow> (Inl e, c)
      | (Inr _, c) \<Rightarrow> writeResponses wr incoming source rs c)"

section \<open>Dispatch\<close>

record RRequest =
  rr_Packet :: Request
  rr_Source :: Endpoint
  rr_Destination :: Endpoint

type_synonym 'st Handler = "RRequest \<Rightarrow> 'st \<Rightarrow> Response list result \<times> 'st"
type_synonym 'st routes = "u8 \<times> u8 \<rightharpoonup> 'st Handler"

definition Handle :: "u8 \<Rightarrow> u8 \<Rightarrow> 'st Handler option \<Rightarrow> 'st routes \<Rightarrow> 'st routes" where
  "Handle pduType serviceChoice h routes = routes((pduType AND 0xf0, serviceChoice) := h)"

definition validateRoutingSource :: "Request \<Rightarrow> unit result" where
  "validateRoutingSource packet =
     (let n = r_Npci packet; macLength = length (mac_bytes (n_SourceMAC n)) in
      if n_SourceNet n = 0 then
        (if macLength \<noteq> 0 \<or> n_SourceLength n \<noteq> 0
         then Inl (Err ''responder: routed source address has no source network'') else Inr ())
      else if macLength = 0 \<or> n_SourceLength n = 0
      then Inl (Err ''responder: routed source network has no source address'')
      else if macLength \<noteq> unat (n_SourceLength n)
      then Inl (Err ''responder: routed source address length does not match source address'')
      else if macLength > MaxMacLen then Inl (Err ''responder: routed source address exceeds %d octets'')
      else Inr ())"

definition serve_packet ::
    "'st routes \<Rightarrow> 'c conn_writer \<Rightarrow> Datagram \<Rightarrow> Request \<Rightarrow> 'c \<Rightarrow> 'st \<Rightarrow> unit result \<times> 'c \<times> 'st" where
  "serve_packet routes wr datagram packet c st =
     (if a_PduType (r_Apdu packet) = PduTypeConfirmedServiceRequest \<and> a_Segmented (r_Apdu packet) then
        (let (r, c) = writeResponse wr packet (dg_Source datagram) (Abort AbortReasonSegmentationNotSupported) c in (r, c, st))
      else (let pduType = a_PduType (r_Apdu packet) AND 0xf0 in
        case routes (pduType, a_ServiceChoice (r_Apdu packet)) of
          None \<Rightarrow>
            if pduType = PduTypeConfirmedServiceRequest then
              (let (r, c) = writeResponse wr packet (dg_Source datagram) (Reject RejectReasonUnrecognizedService) c in (r, c, st))
            else (Inr (), c, st)
        | Some h \<Rightarrow>
            (case h \<lparr>rr_Packet = packet, rr_Source = dg_Source datagram, rr_Destination = dg_Destination datagram\<rparr> st of
               (Inl e, st) \<Rightarrow> (with_text ''responder: handler for PDU %#x service %d: %v'' (Inl e), c, st)
             | (Inr responses, st) \<Rightarrow>
                 (let (r, c) = writeResponses wr packet (dg_Source datagram) responses c in (r, c, st)))))"

definition ServeDatagram ::
    "'st routes \<Rightarrow> 'c conn_writer \<Rightarrow> Datagram \<Rightarrow> 'c \<Rightarrow> 'st \<Rightarrow> unit result \<times> 'c \<times> 'st" where
  "ServeDatagram routes wr datagram c st =
     (case ParseRequest (dg_Payload datagram) (Some (ep_IP (dg_Source datagram), ep_Port (dg_Source datagram))) of
        Inl e \<Rightarrow> (with_text ''responder: decode packet: %v'' (Inl e), c, st)
      | Inr packet \<Rightarrow>
          if unat (h_BvlcLength (r_Header packet)) \<noteq> length (dg_Payload datagram)
          then (Inl (Err ''responder: BVLC length is %d, datagram length is %d''), c, st)
          else (case validateRoutingSource packet of
              Inl e \<Rightarrow> (Inl e, c, st)
            | Inr _ \<Rightarrow> serve_packet routes wr datagram packet c st))"

text \<open>
  The receive loop over the datagrams that arrive before the transport fails; the errors go to the
  error handler and do not stop it.
\<close>

fun Serve :: "'st routes \<Rightarrow> 'c conn_writer \<Rightarrow> Datagram list \<Rightarrow> 'c \<Rightarrow> 'st \<Rightarrow> go_error list \<times> 'c \<times> 'st" where
  "Serve routes wr [] c st = ([], c, st)"
| "Serve routes wr (d # ds) c st =
     (let (r, c, st) = ServeDatagram routes wr d c st;
          (es, c, st) = Serve routes wr ds c st
      in ((case r of Inl e \<Rightarrow> [e] | Inr _ \<Rightarrow> []) @ es, c, st))"

section \<open>What reaches the requester\<close>

lemma with_text_Inr [simp]: "with_text t r = Inr x \<longleftrightarrow> r = Inr x"
  by (auto simp: with_text_def split: sum.splits go_error.splits)

lemma with_text_simps [simp]: "with_text t (Inr x) = Inr x" "with_text t (Inl (Err e)) = Inl (Err t)"
  by (simp_all add: with_text_def)

lemma high_nibble_idem [simp]: "(x AND 0xf0) AND 0xf0 = (x AND 0xf0 :: u8)"
  by (simp add: and.assoc)

lemma decodeConfirmedApdu_keeps:
  "decodeConfirmedApdu a data = Inr a' \<Longrightarrow> a_InvokeID a' = a_InvokeID a \<and> a_PduType a' = a_PduType a
     \<and> a_ServiceChoice a' = a_ServiceChoice a \<and> a_Failed a' = a_Failed a \<and> a_Payload a' = a_Payload a"
  by (auto simp: decodeConfirmedApdu_def bind_res_eq_Inr split: if_splits)

lemma Apdu_Unmarshal_invoke_id:
  assumes "Apdu_UnmarshalBinary ip port (first # k # rest) = Inr a" "first AND 0xf0 \<in> {0x20, 0x30, 0x50, 0x60, 0x70}"
  shows "a_InvokeID a = k" "a_PduType a = first AND 0xf0"
  using assms
  by (auto simp: Apdu_UnmarshalBinary_def apdu_simple_ack_def apdu_complex_ack_def apdu_error_def apdu_reject_def
      apdu_abort_def bind_res_eq_Inr Let_def Apdu_Reset_def split: if_splits dest: decodeConfirmedApdu_keeps)

definition answer_types :: "u8 set" where
  "answer_types = {PduTypeSimpleAck, PduTypeComplexAck, PduTypeError, PduTypeReject, PduTypeAbort}"

lemma marshalled_answer:
  assumes "Apdu_MarshalBinary a = Inr b" "a_PduType a \<in> answer_types" "\<not> a_Segmented a" "\<not> a_MoreFollows a"
  obtains first rest where "b = first # a_InvokeID a # rest" "first AND 0xf0 = a_PduType a"
  using assms
  by (auto simp: Apdu_MarshalBinary_def Apdu_header_def answer_types_def bind_res_eq_Inr Let_def split: if_splits option.splits)

lemma response_apdu_answer:
  assumes "response_apdu incoming response = Inr a" "rs_PDUType response AND 0xf0 \<in> answer_types"
  shows "a_InvokeID a = a_InvokeID incoming" "a_PduType a = rs_PDUType response AND 0xf0" "\<not> a_Segmented a"
    "\<not> a_MoreFollows a" "a_PduType incoming AND 0xf0 = PduTypeConfirmedServiceRequest"
  using assms
  by (auto simp: response_apdu_def correlated_def answer_types_def Let_def Request_Reset_def Apdu_Reset_def split: if_splits)

lemma response_npci_version [simp]: "n_ProtocolVersion (response_npci n r) = BACnetVersion"
  by (simp add: response_npci_def Npci_Reset_def Let_def split: option.splits)

lemma response_packet_parts:
  assumes "response_packet incoming response = Inr p"
  obtains a where "response_apdu (r_Apdu incoming) response = Inr a"
    "r_Apdu p = a \<or> r_Apdu p = fallback_abort (r_Apdu incoming) \<and> rs_PDUType response AND 0xf0 = PduTypeComplexAck"
    "r_Npci p = response_npci (r_Npci incoming) response"
    "h_Function (r_Header p) = (if rs_Broadcast response then 11 else 10)"
  using assms by (auto simp: response_packet_def bind_res_eq_Inr Let_def split: if_splits)

lemma response_packet_answer:
  assumes "response_packet incoming response = Inr p" "rs_PDUType response AND 0xf0 \<in> answer_types"
  shows "a_PduType (r_Apdu p) \<in> answer_types" "a_InvokeID (r_Apdu p) = a_InvokeID (r_Apdu incoming)"
    "\<not> a_Segmented (r_Apdu p)" "\<not> a_MoreFollows (r_Apdu p)"
    "a_PduType (r_Apdu incoming) AND 0xf0 = PduTypeConfirmedServiceRequest"
proof -
  obtain a where a: "response_apdu (r_Apdu incoming) response = Inr a"
    "r_Apdu p = a \<or> r_Apdu p = fallback_abort (r_Apdu incoming) \<and> rs_PDUType response AND 0xf0 = PduTypeComplexAck"
    using assms(1) by (rule response_packet_parts)
  note r = response_apdu_answer [OF a(1) assms(2)]
  from a(2) r assms(2) show "a_PduType (r_Apdu p) \<in> answer_types" "a_InvokeID (r_Apdu p) = a_InvokeID (r_Apdu incoming)"
    "\<not> a_Segmented (r_Apdu p)" "\<not> a_MoreFollows (r_Apdu p)"
    "a_PduType (r_Apdu incoming) AND 0xf0 = PduTypeConfirmedServiceRequest"
    by (auto simp: fallback_abort_def Apdu_Reset_def answer_types_def)
qed

text \<open>The network header a receiver decodes: a routed request is answered along its route.\<close>

lemma response_route:
  assumes "n_SourceNet n \<noteq> 0" "n_SourceMAC n = Some mac" "mac \<noteq> []" "\<not> rs_Broadcast r"
  shows "n_DestinationNet (decoded_npci (response_npci n r) len) = n_SourceNet n"
    "n_DestinationMAC (decoded_npci (response_npci n r) len) = Some mac"
  using assms by (simp_all add: response_npci_def decoded_npci_def Let_def mac_bytes_def word_neq_0_conv)

lemmas response_defs = response_packet_def response_apdu_def response_npci_def correlated_def fallback_abort_def
  SimpleACK_def ComplexACK_def ErrorResponse_def Reject_def Abort_def Unconfirmed_def Confirmed_def Response_zero_def

lemma response_npci_marshals:
  assumes "validateRoutingSource packet = Inr ()"
  shows "\<exists>b. Npci_MarshalBinary (response_npci (r_Npci packet) response) = Inr b \<and> length b \<le> 13"
proof (cases "n_SourceNet (r_Npci packet) \<noteq> 0 \<and> \<not> rs_Broadcast response")
  case True
  then obtain mac where mac: "n_SourceMAC (r_Npci packet) = Some mac" "mac \<noteq> []" "length mac \<le> 7"
    using assms by (cases "n_SourceMAC (r_Npci packet)")
      (auto simp: validateRoutingSource_def mac_bytes_def Let_def MaxMacLen_def split: if_splits)
  have u: "unat (word_of_nat (length mac) :: u8) = length mac"
    using mac(3) by (simp add: unsigned_of_nat take_bit_nat_eq_self)
  show ?thesis
    using True mac u
    by (auto simp: response_npci_def Npci_MarshalBinary_def Npci_Reset_def mac_bytes_def MaxMacLen_def Let_def)
next
  case False
  then show ?thesis
    by (auto simp: response_npci_def Npci_MarshalBinary_def Npci_Reset_def mac_bytes_def MaxMacLen_def Let_def split: option.splits)
qed

lemma response_encodes:
  assumes "validateRoutingSource incoming = Inr ()" "response_packet incoming response = Inr p"
  shows "\<exists>b. Request_MarshalBinary p = Inr b"
proof -
  from assms(2) obtain apdu where a: "Apdu_MarshalBinary (r_Apdu p) = Inr apdu" "length apdu \<le> MaxApdu"
    and n: "r_Npci p = response_npci (r_Npci incoming) response"
    by (auto simp: response_packet_def bind_res_eq_Inr Let_def not_less split: if_splits)
  from response_npci_marshals [OF assms(1), of response] obtain b where
    "Npci_MarshalBinary (r_Npci p) = Inr b" "length b \<le> 13" using n by auto
  with a show ?thesis by (simp add: Request_MarshalBinary_def MaxApdu_def Let_def)
qed

lemma answer_written:
  assumes "validateRoutingSource incoming = Inr ()" "response_packet incoming response = Inr p"
    and "destination = (case rs_Destination response of Some d \<Rightarrow> d | None \<Rightarrow> source)"
  obtains b apdu npci where "writeResponse wr incoming source response c
      = (with_text ''responder: write response: %v'' (fst (wr destination b c)), snd (wr destination b c))"
    "Apdu_MarshalBinary (r_Apdu p) = Inr apdu"
    "\<forall>ip port. Request_UnmarshalBinary ip port b = bind_res (Apdu_UnmarshalBinary ip port apdu) (\<lambda>a.
        Inr \<lparr>r_Header = (Request_header p (length apdu + length (npci :: bytes)))\<lparr>h_ProtocolType := BACnetProtocol\<rparr>,
             r_Npci = decoded_npci (r_Npci p) (length npci), r_Apdu = a\<rparr>)"
proof -
  from response_encodes [OF assms(1,2)] obtain b where b: "Request_MarshalBinary p = Inr b" ..
  obtain a where f: "h_Function (r_Header p) = (if rs_Broadcast response then 11 else 10)"
    and "r_Npci p = response_npci (r_Npci incoming) response"
    using assms(2) by (rule response_packet_parts)
  then have h: "h_Function (r_Header p) = 10 \<or> h_Function (r_Header p) = 11" and v: "n_ProtocolVersion (r_Npci p) = BACnetVersion"
    by simp_all
  from b obtain apdu npci where m: "Apdu_MarshalBinary (r_Apdu p) = Inr apdu" "Npci_MarshalBinary (r_Npci p) = Inr npci"
    by (auto simp: Request_MarshalBinary_def bind_res_eq_Inr)
  have u: "Request_UnmarshalBinary ip port b = bind_res (Apdu_UnmarshalBinary ip port apdu) (\<lambda>a.
        Inr \<lparr>r_Header = (Request_header p (length apdu + length npci))\<lparr>h_ProtocolType := BACnetProtocol\<rparr>,
             r_Npci = decoded_npci (r_Npci p) (length npci), r_Apdu = a\<rparr>)" for ip port
    by (rule Request_layers [OF b h v, of ip port]) (use m in simp)
  have w: "writeResponse wr incoming source response c
      = (with_text ''responder: write response: %v'' (fst (wr destination b c)), snd (wr destination b c))"
    using assms(2,3) b by (simp add: writeResponse_def case_prod_unfold Let_def)
  show ?thesis by (rule that [OF w m(1), of npci]) (intro allI u)
qed

lemma refusal_packets:
  assumes "a_PduType (r_Apdu incoming) = PduTypeConfirmedServiceRequest"
  shows "response_packet incoming (Abort reason) = Inr \<lparr>r_Header = (r_Header Request_Reset)\<lparr>h_Function := 10\<rparr>,
      r_Npci = response_npci (r_Npci incoming) (Abort reason),
      r_Apdu = (r_Apdu Request_Reset)\<lparr>a_PduType := PduTypeAbort, a_Server := True,
        a_InvokeID := a_InvokeID (r_Apdu incoming), a_AbortReason := reason\<rparr>\<rparr>"
    and "response_packet incoming (Reject reason) = Inr \<lparr>r_Header = (r_Header Request_Reset)\<lparr>h_Function := 10\<rparr>,
      r_Npci = response_npci (r_Npci incoming) (Reject reason),
      r_Apdu = (r_Apdu Request_Reset)\<lparr>a_PduType := PduTypeReject,
        a_InvokeID := a_InvokeID (r_Apdu incoming), a_RejectReason := reason\<rparr>\<rparr>"
  using assms
  by (simp_all add: response_packet_def response_apdu_def Abort_def Reject_def Response_zero_def packet_defs)

section \<open>The contract of an application\<close>

text \<open>
  What the responder needs of the handlers registered with it to keep going: an invariant of the
  application's state that every handler keeps, and under which no handler panics.  The responder then keeps
  the invariant and does not panic, whatever datagrams arrive, over any transport.
\<close>

lemma safe_with_text [simp]: "safe (with_text t r) \<longleftrightarrow> safe r"
  by (auto simp: with_text_def safe_def split: sum.splits go_error.splits)

lemma safe_Apdu_header [simp]: "safe (Apdu_header a)"
  by (auto simp: Apdu_header_def maxSegmentsCode_def maxApduCode_def Let_def intro!: safe_intros)

lemma safe_response_apdu [simp]: "safe (response_apdu incoming response)"
  by (simp add: response_apdu_def Let_def)

lemma response_apdu_payload: "response_apdu incoming response = Inr a \<Longrightarrow> a_RequestData a = None"
  by (auto simp: response_apdu_def correlated_def Request_Reset_def Apdu_Reset_def Let_def split: if_splits)

lemma safe_Apdu_MarshalBinary: "a_RequestData a = None \<Longrightarrow> safe (Apdu_MarshalBinary a)"
  by (auto simp: Apdu_MarshalBinary_def Let_def intro!: safe_intros)

lemma fallback_abort_data: "a_RequestData (fallback_abort incoming) = None"
  by (simp add: fallback_abort_def Apdu_Reset_def)

lemma safe_response_packet [simp]: "safe (response_packet incoming response)"
  by (auto simp: response_packet_def fallback_abort_data Let_def
      intro!: safe_intros safe_Apdu_MarshalBinary dest!: response_apdu_payload)

lemma safe_Npci_MarshalBinary [simp]: "safe (Npci_MarshalBinary n)"
  unfolding Npci_MarshalBinary_def by (intro safe_Let safe_if) simp_all

lemma safe_Request_MarshalBinary: "a_RequestData (r_Apdu p) = None \<Longrightarrow> safe (Request_MarshalBinary p)"
  unfolding Request_MarshalBinary_def by (intro safe_bind safe_Let safe_if) (simp_all add: safe_Apdu_MarshalBinary)

lemma response_packet_data: "response_packet incoming response = Inr p \<Longrightarrow> a_RequestData (r_Apdu p) = None"
  by (auto simp: response_packet_def bind_res_eq_Inr fallback_abort_def Apdu_Reset_def Let_def
      dest: response_apdu_payload split: if_splits)

text \<open>A transport that reports its failures as errors.\<close>

definition writer_safe :: "'c conn_writer \<Rightarrow> bool" where
  "writer_safe wr \<longleftrightarrow> (\<forall>destination b c. safe (fst (wr destination b c)))"

lemma with_text_Panic [simp]: "with_text t r = Inl Panic \<longleftrightarrow> r = Inl Panic"
  using safe_with_text [of t r] by (simp add: safe_def)

lemma safe_writeResponse:
  assumes "writer_safe wr"
  shows "safe (fst (writeResponse wr incoming source response c))"
proof (cases "response_packet incoming response")
  case (Inl e)
  with safe_response_packet [of incoming response] show ?thesis by (simp add: writeResponse_def Let_def del: safe_response_packet)
next
  case (Inr p)
  have s: "safe (with_text ''responder: encode response: %v'' (Request_MarshalBinary p))"
    using safe_Request_MarshalBinary [OF response_packet_data [OF Inr]] by simp
  show ?thesis
    using assms safe_InlD [OF s] by (auto simp: writeResponse_def Inr writer_safe_def Let_def case_prod_unfold split: sum.splits)
qed

lemma safe_writeResponses: "writer_safe wr \<Longrightarrow> safe (fst (writeResponses wr incoming source rs c))"
proof (induction rs arbitrary: c)
  case (Cons r rs)
  from safe_writeResponse [OF Cons.prems, of incoming source r c] Cons show ?case by (auto split: prod.splits sum.splits)
qed simp

locale application =
  fixes routes :: "'st routes" and inv :: "'st \<Rightarrow> bool"
  assumes handler_keeps: "routes key = Some h \<Longrightarrow> inv st \<Longrightarrow> inv (snd (h request st))"
    and handler_safe: "routes key = Some h \<Longrightarrow> inv st \<Longrightarrow> safe (fst (h request st))"
begin

lemma serve_packet_keeps: "inv st \<Longrightarrow> inv (snd (snd (serve_packet routes wr d packet c st)))"
  using handler_keeps by (fastforce simp: serve_packet_def Let_def case_prod_unfold split: option.splits sum.splits)

lemma serve_packet_safe:
  assumes "inv st" "writer_safe wr"
  shows "safe (fst (serve_packet routes wr d packet c st))"
  using assms safe_InlD [OF handler_safe [OF _ assms(1)]]
  by (auto simp: serve_packet_def Let_def case_prod_unfold safe_writeResponse safe_writeResponses split: option.splits sum.splits)

lemma ServeDatagram_keeps: "inv st \<Longrightarrow> inv (snd (snd (ServeDatagram routes wr d c st)))"
  by (auto simp: ServeDatagram_def serve_packet_keeps split: sum.splits)

lemma ServeDatagram_safe:
  assumes "inv st" "writer_safe wr"
  shows "safe (fst (ServeDatagram routes wr d c st))"
proof -
  have v: "safe (validateRoutingSource packet)" for packet by (simp add: validateRoutingSource_def Let_def)
  show ?thesis using assms safe_InlD [OF safe_ParseRequest] safe_InlD [OF v]
    by (auto simp: ServeDatagram_def serve_packet_safe split: sum.splits)
qed

lemma Serve_keeps: "inv st \<Longrightarrow> inv (snd (snd (Serve routes wr ds c st)))"
proof (induction ds arbitrary: c st)
  case (Cons d ds)
  from Cons.IH ServeDatagram_keeps [OF Cons.prems, of wr d c] show ?case by (simp add: Let_def case_prod_unfold)
qed simp

lemma Serve_safe: "inv st \<Longrightarrow> writer_safe wr \<Longrightarrow> Panic \<notin> set (fst (Serve routes wr ds c st))"
proof (induction ds arbitrary: c st)
  case (Cons d ds)
  from Cons.IH [OF ServeDatagram_keeps [OF Cons.prems(1), of wr d c] Cons.prems(2)] ServeDatagram_safe [OF Cons.prems, of d c]
  show ?case by (auto simp: Let_def case_prod_unfold safe_def split: sum.splits)
qed simp

end

section \<open>Properties\<close>

lemma fallback_octets: "Apdu_MarshalBinary (fallback_abort incoming) = Inr [0x71, a_InvokeID incoming, 4]"
  by (simp add: Apdu_MarshalBinary_def Apdu_header_def fallback_abort_def Apdu_Reset_def AbortReasonSegmentationNotSupported_def Let_def)

text \<open>The acknowledgements with a payload and the errors with one are the only answers whose decoding depends on the handler.\<close>

lemma answer_decodes:
  assumes "response_packet incoming response = Inr p" "Apdu_MarshalBinary (r_Apdu p) = Inr apdu"
    and "rs_PDUType response AND 0xf0 \<in> answer_types" "Apdu_UnmarshalBinary ip port apdu = Inl e"
  shows "rs_PDUType response AND 0xf0 = PduTypeComplexAck \<or> rs_PDUType response AND 0xf0 = PduTypeError \<and> rs_Payload response \<noteq> []"
proof (rule ccontr)
  assume n: "\<not> ?thesis"
  obtain a where a: "response_apdu (r_Apdu incoming) response = Inr a" "r_Apdu p = a"
    using assms(1) n by (auto elim!: response_packet_parts)
  note r = response_apdu_answer [OF a(1) assms(3)]
  have pay: "a_PduType a = PduTypeError \<Longrightarrow> a_Payload a = []"
    using n a(1) r(2) by (auto simp: response_apdu_def Let_def correlated_def split: if_splits)
  from n assms(2-4) a(2) r pay show False
    using Apdu_simple_ack_received [of a apdu ip port] Apdu_reject_received [of a apdu ip port] Apdu_abort_received [of a apdu ip port]
      Apdu_error_received [of a apdu ip port] by (auto simp: answer_types_def)
qed

text \<open>C23. What the responder sends for an acknowledgement, an error, a reject or an abort of a handler.  If it cannot be
  encoded as an answer to the request, nothing is sent.  Otherwise the request was a confirmed one and exactly one datagram
  is sent, to the destination the response names and, if it names none, to where the request came from.  It decodes, unless
  it has a payload of the handler that does not, to a packet of the response's PDU type, or to an Abort in place of a complex
  acknowledgement, with the invoke ID of the request; a request that came through a router is answered to the network and
  address it came from.\<close>

theorem response_correlated:
  assumes "validateRoutingSource incoming = Inr ()" "rs_PDUType response AND 0xf0 \<in> answer_types"
  shows "case response_packet incoming response of
      Inl e \<Rightarrow> writeResponse wr incoming source response c = (Inl e, c)
    | Inr p \<Rightarrow> a_PduType (r_Apdu incoming) AND 0xf0 = PduTypeConfirmedServiceRequest
        \<and> (\<exists>destination b. destination = (case rs_Destination response of Some d \<Rightarrow> d | None \<Rightarrow> source)
            \<and> writeResponse wr incoming source response c
                = (with_text ''responder: write response: %v'' (fst (wr destination b c)), snd (wr destination b c))
            \<and> (\<forall>ip port. case Request_UnmarshalBinary ip port b of
                Inl _ \<Rightarrow> rs_PDUType response AND 0xf0 = PduTypeComplexAck
                  \<or> rs_PDUType response AND 0xf0 = PduTypeError \<and> rs_Payload response \<noteq> []
              | Inr r \<Rightarrow> a_InvokeID (r_Apdu r) = a_InvokeID (r_Apdu incoming)
                  \<and> (a_PduType (r_Apdu r) = rs_PDUType response AND 0xf0
                     \<or> rs_PDUType response AND 0xf0 = PduTypeComplexAck \<and> a_PduType (r_Apdu r) = PduTypeAbort)
                  \<and> (\<forall>mac. n_SourceNet (r_Npci incoming) \<noteq> 0 \<and> n_SourceMAC (r_Npci incoming) = Some mac \<and> \<not> rs_Broadcast response
                      \<longrightarrow> n_DestinationNet (r_Npci r) = n_SourceNet (r_Npci incoming) \<and> n_DestinationMAC (r_Npci r) = Some mac)))"
proof (cases "response_packet incoming response")
  case (Inl e)
  then show ?thesis by (simp add: writeResponse_def Let_def)
next
  case (Inr p)
  define destination where "destination = (case rs_Destination response of Some d \<Rightarrow> d | None \<Rightarrow> source)"
  note pa = response_packet_answer [OF Inr assms(2)]
  obtain a where a: "response_apdu (r_Apdu incoming) response = Inr a"
    "r_Apdu p = a \<or> r_Apdu p = fallback_abort (r_Apdu incoming) \<and> rs_PDUType response AND 0xf0 = PduTypeComplexAck"
    "r_Npci p = response_npci (r_Npci incoming) response" using Inr by (rule response_packet_parts)
  have ty: "a_PduType (r_Apdu p) = rs_PDUType response AND 0xf0
      \<or> rs_PDUType response AND 0xf0 = PduTypeComplexAck \<and> a_PduType (r_Apdu p) = PduTypeAbort"
    using a(2) response_apdu_answer(2) [OF a(1) assms(2)] by (auto simp: fallback_abort_def)
  obtain b apdu npci where w: "writeResponse wr incoming source response c
      = (with_text ''responder: write response: %v'' (fst (wr destination b c)), snd (wr destination b c))"
    and m: "Apdu_MarshalBinary (r_Apdu p) = Inr apdu"
    and u: "\<forall>ip port. Request_UnmarshalBinary ip port b = bind_res (Apdu_UnmarshalBinary ip port apdu) (\<lambda>a.
        Inr \<lparr>r_Header = (Request_header p (length apdu + length (npci :: bytes)))\<lparr>h_ProtocolType := BACnetProtocol\<rparr>,
             r_Npci = decoded_npci (r_Npci p) (length npci), r_Apdu = a\<rparr>)"
    by (rule answer_written [OF assms(1) Inr destination_def, where wr = wr and c = c])
  from marshalled_answer [OF m pa(1,3,4)] obtain first rest where
    h: "apdu = first # a_InvokeID (r_Apdu p) # rest" "first AND 0xf0 = a_PduType (r_Apdu p)" .
  have f: "first AND 0xf0 \<in> {0x20, 0x30, 0x50, 0x60, 0x70}" using h(2) pa(1) by (simp add: answer_types_def)
  have "mac \<noteq> []" if "n_SourceNet (r_Npci incoming) \<noteq> 0" "n_SourceMAC (r_Npci incoming) = Some mac" for mac
    using that assms(1) by (auto simp: validateRoutingSource_def mac_bytes_def Let_def split: if_splits)
  note route = response_route [OF _ _ this, of "r_Npci incoming"]
  have "case Request_UnmarshalBinary ip port b of
                Inl _ \<Rightarrow> rs_PDUType response AND 0xf0 = PduTypeComplexAck
                  \<or> rs_PDUType response AND 0xf0 = PduTypeError \<and> rs_Payload response \<noteq> []
              | Inr r \<Rightarrow> a_InvokeID (r_Apdu r) = a_InvokeID (r_Apdu incoming)
                  \<and> (a_PduType (r_Apdu r) = rs_PDUType response AND 0xf0
                     \<or> rs_PDUType response AND 0xf0 = PduTypeComplexAck \<and> a_PduType (r_Apdu r) = PduTypeAbort)
                  \<and> (\<forall>mac. n_SourceNet (r_Npci incoming) \<noteq> 0 \<and> n_SourceMAC (r_Npci incoming) = Some mac \<and> \<not> rs_Broadcast response
                      \<longrightarrow> n_DestinationNet (r_Npci r) = n_SourceNet (r_Npci incoming) \<and> n_DestinationMAC (r_Npci r) = Some mac)" for ip port
  proof (cases "Apdu_UnmarshalBinary ip port apdu")
    case (Inl e)
    with answer_decodes [OF Inr m assms(2)] u show ?thesis by simp
  next
    case (Inr a')
    with Apdu_Unmarshal_invoke_id [OF Inr [unfolded h(1)] f] pa(2) h(2) ty u route a(3) show ?thesis by simp
  qed
  with Inr pa(5) w show ?thesis by (auto simp: destination_def)
qed

text \<open>A write that came through a router from station 1 of network 5 and is acknowledged.\<close>

theorem response_correlated_witness:
  "\<exists>b r. writeResponse (\<lambda>dest x sent. (Inr (), sent @ [(dest, x)]))
       ((SetConfirmedService 15 None 7)\<lparr>r_Npci := Npci_Reset\<lparr>n_SourceNet := 5, n_SourceLength := 1, n_SourceMAC := Some [1]\<rparr>\<rparr>)
       (NewEndpoint [10, 0, 0, 9] 47808) SimpleACK [] = (Inr (), [(NewEndpoint [10, 0, 0, 9] 47808, b)])
     \<and> Request_UnmarshalBinary [10, 0, 0, 1] 47808 b = Inr r \<and> a_InvokeID (r_Apdu r) = 7 \<and> a_PduType (r_Apdu r) = PduTypeSimpleAck
     \<and> n_DestinationNet (r_Npci r) = 5 \<and> n_DestinationMAC (r_Npci r) = Some [1]"
proof -
  let ?i = "(SetConfirmedService 15 None 7)\<lparr>r_Npci := Npci_Reset\<lparr>n_SourceNet := 5, n_SourceLength := 1, n_SourceMAC := Some [1]\<rparr>\<rparr>"
  let ?wr = "\<lambda>dest x sent. (Inr (), sent @ [(dest, x)]) :: unit result \<times> (Endpoint \<times> bytes) list"
  let ?src = "NewEndpoint [10, 0, 0, 9] 47808"
  have v: "validateRoutingSource ?i = Inr ()"
    by (simp add: validateRoutingSource_def mac_bytes_def MaxMacLen_def SetConfirmedService_def Request_Reset_def Npci_Reset_def)
  have t: "rs_PDUType SimpleACK AND 0xf0 \<in> answer_types" by (simp add: SimpleACK_def answer_types_def)
  have i: "a_InvokeID (r_Apdu ?i) = 7" "n_SourceNet (r_Npci ?i) = 5" "n_SourceMAC (r_Npci ?i) = Some [1]"
    by (simp_all add: SetConfirmedService_def)
  have k: "rs_PDUType SimpleACK AND 0xf0 = 0x20" "rs_Destination SimpleACK = None" "\<not> rs_Broadcast SimpleACK"
    by (simp_all add: SimpleACK_def Response_zero_def)
  obtain p where "response_packet ?i SimpleACK = Inr p" by (simp add: response_defs packet_defs)
  with response_correlated [OF v t, of ?wr ?src "[]"] obtain destination b where
    "destination = (case rs_Destination SimpleACK of Some d \<Rightarrow> d | None \<Rightarrow> ?src)"
    and w: "writeResponse ?wr ?i ?src SimpleACK []
      = (with_text ''responder: write response: %v'' (fst (?wr destination b [])), snd (?wr destination b []))"
    and d: "case Request_UnmarshalBinary [10, 0, 0, 1] 47808 b of
                Inl _ \<Rightarrow> rs_PDUType SimpleACK AND 0xf0 = PduTypeComplexAck
                  \<or> rs_PDUType SimpleACK AND 0xf0 = PduTypeError \<and> rs_Payload SimpleACK \<noteq> []
              | Inr r \<Rightarrow> a_InvokeID (r_Apdu r) = a_InvokeID (r_Apdu ?i)
                  \<and> (a_PduType (r_Apdu r) = rs_PDUType SimpleACK AND 0xf0
                     \<or> rs_PDUType SimpleACK AND 0xf0 = PduTypeComplexAck \<and> a_PduType (r_Apdu r) = PduTypeAbort)
                  \<and> (\<forall>mac. n_SourceNet (r_Npci ?i) \<noteq> 0 \<and> n_SourceMAC (r_Npci ?i) = Some mac \<and> \<not> rs_Broadcast SimpleACK
                      \<longrightarrow> n_DestinationNet (r_Npci r) = n_SourceNet (r_Npci ?i) \<and> n_DestinationMAC (r_Npci r) = Some mac)"
    by (simp only: sum.case) blast
  then have "writeResponse ?wr ?i ?src SimpleACK [] = (Inr (), [(?src, b)])" using k(2) by simp
  moreover obtain r where "Request_UnmarshalBinary [10, 0, 0, 1] 47808 b = Inr r" "a_InvokeID (r_Apdu r) = 7"
    "a_PduType (r_Apdu r) = 0x20" "n_DestinationNet (r_Npci r) = 5" "n_DestinationMAC (r_Npci r) = Some [1]"
    using d i k by (cases "Request_UnmarshalBinary [10, 0, 0, 1] 47808 b") auto
  ultimately show ?thesis by blast
qed

text \<open>C24. Size limits: no APDU the responder sends is longer than 1476 octets, and an acknowledgement is never longer
  than the requester said it accepts.  When it would be, the octets sent are instead those of an Abort PDU of the server
  with the invoke ID of the request and the reason 4, segmentation not supported; in every other case they are those of
  the response.\<close>

theorem response_size:
  assumes "response_packet incoming response = Inr p"
  shows "\<exists>a full apdu. response_apdu (r_Apdu incoming) response = Inr a \<and> Apdu_MarshalBinary a = Inr full
    \<and> Apdu_MarshalBinary (r_Apdu p) = Inr apdu \<and> length apdu \<le> 1476
    \<and> (a_PduType (r_Apdu p) = PduTypeComplexAck \<longrightarrow> length apdu \<le> unat (a_MaxApdu (r_Apdu incoming)))
    \<and> apdu = (if rs_PDUType response AND 0xf0 = PduTypeComplexAck \<and> length full > unat (a_MaxApdu (r_Apdu incoming))
        then [0x71, a_InvokeID (r_Apdu incoming), 4] else full)
    \<and> (apdu \<noteq> full \<longrightarrow> a_PduType (r_Apdu p) = PduTypeAbort
        \<and> AbortReason_String (a_AbortReason (r_Apdu p)) = ''segmentation not supported'')"
proof -
  have na: "a_PduType a \<noteq> PduTypeComplexAck" if "response_apdu i r = Inr a" "rs_PDUType r AND 0xf0 \<noteq> PduTypeComplexAck" for i r a
    using that by (auto simp: response_apdu_def correlated_def Let_def split: if_splits)
  have fb: "a_PduType (fallback_abort i) = PduTypeAbort" "AbortReason_String (a_AbortReason (fallback_abort i)) = ''segmentation not supported''" for i
    by (simp_all add: fallback_abort_def AbortReasonSegmentationNotSupported_def AbortReason_String_def lookup_name_def)
  let ?big = "\<lambda>full. rs_PDUType response AND 0xf0 = PduTypeComplexAck \<and> length full > unat (a_MaxApdu (r_Apdu incoming))"
  from assms obtain a full where a: "response_apdu (r_Apdu incoming) response = Inr a" "Apdu_MarshalBinary a = Inr full"
    unfolding response_packet_def bind_res_eq_Inr with_text_Inr by blast
  let ?a = "if ?big full then fallback_abort (r_Apdu incoming) else a"
  from assms obtain apdu where m: "Apdu_MarshalBinary ?a = Inr apdu" and
    q: "(if length apdu > MaxApdu then Inl (Err ''responder: response APDU is %d octets, maximum is %d'')
         else Inr \<lparr>r_Header = (r_Header Request_Reset)\<lparr>h_Function :=
                     (if rs_Broadcast response then BvlcFunctionOriginalBroadcastNpdu else BvlcFunctionOriginalUnicastNpdu)\<rparr>,
                   r_Npci = response_npci (r_Npci incoming) response, r_Apdu = ?a\<rparr>) = Inr p"
    unfolding response_packet_def a bind_res_simps with_text_simps Let_def bind_res_eq_Inr with_text_Inr by blast
  have le: "length apdu \<le> MaxApdu" using q by (cases "length apdu > MaxApdu") (simp_all add: not_less)
  then have "r_Apdu p = ?a" using q by (simp only: not_less [symmetric] if_False sum.inject) auto
  with m le have p: "r_Apdu p = ?a" "Apdu_MarshalBinary (r_Apdu p) = Inr apdu" "length apdu \<le> 1476" by (simp_all add: MaxApdu_def)
  show ?thesis
  proof (cases "?big full")
    case True
    with a p fallback_octets [of "r_Apdu incoming"] fb [of "r_Apdu incoming"] show ?thesis by simp
  next
    case False
    then have "apdu = full" "r_Apdu p = a" using a(2) p(1,2) by auto
    with a p(2,3) False na [OF a(1)] show ?thesis by (cases "rs_PDUType response AND 0xf0 = PduTypeComplexAck") (auto simp: not_less)
  qed
qed

text \<open>An acknowledgement of 63 octets for a requester that takes 50.\<close>

theorem response_size_witness:
  "\<exists>i p. i = (SetConfirmedService 12 None 9)\<lparr>r_Apdu := (r_Apdu (SetConfirmedService 12 None 9))\<lparr>a_MaxApdu := 50\<rparr>\<rparr>
     \<and> response_packet i (ComplexACK (replicate 60 0)) = Inr p \<and> Apdu_MarshalBinary (r_Apdu p) = Inr [0x71, 9, 4]
     \<and> a_PduType (r_Apdu p) = PduTypeAbort"
proof -
  let ?i = "(SetConfirmedService 12 None 9)\<lparr>r_Apdu := (r_Apdu (SetConfirmedService 12 None 9))\<lparr>a_MaxApdu := 50\<rparr>\<rparr>"
  let ?r = "ComplexACK (replicate 60 0)"
  obtain p where p: "response_packet ?i ?r = Inr p" by (simp add: response_defs packet_defs)
  have full: "Apdu_MarshalBinary a = Inr full \<Longrightarrow> length full = 63" if "response_apdu (r_Apdu ?i) ?r = Inr a" for a full
    using that by (auto simp: response_defs packet_defs)
  have i: "a_InvokeID (r_Apdu ?i) = 9" "unat (a_MaxApdu (r_Apdu ?i)) = 50" "rs_PDUType ?r AND 0xf0 = 0x30"
    by (simp_all add: SetConfirmedService_def ComplexACK_def)
  from response_size [OF p] full i p show ?thesis by fastforce
qed

text \<open>C25. A confirmed request for a service without a handler is answered with exactly one datagram to where the
  request came from: a Reject with the reason that the service is not recognized, which a client decodes as such under
  the invoke ID of its request.  A segmented request is answered in the same way by an Abort with the reason that
  segmentation is not supported.  The application's state does not change.\<close>

theorem unhandled_request_answered:
  assumes "ParseRequest (dg_Payload d) (Some (ep_IP (dg_Source d), ep_Port (dg_Source d))) = Inr packet"
    and "validateRoutingSource packet = Inr ()" "a_PduType (r_Apdu packet) = PduTypeConfirmedServiceRequest"
    and "a_Segmented (r_Apdu packet) \<or> routes (PduTypeConfirmedServiceRequest, a_ServiceChoice (r_Apdu packet)) = None"
  shows "\<exists>b. ServeDatagram routes wr d c st = (with_text ''responder: write response: %v'' (fst (wr (dg_Source d) b c)),
        snd (wr (dg_Source d) b c), st)
    \<and> (\<exists>r. Request_UnmarshalBinary ip port b = Inr r \<and> a_InvokeID (r_Apdu r) = a_InvokeID (r_Apdu packet)
        \<and> (if a_Segmented (r_Apdu packet)
           then a_Aborted (r_Apdu r) \<and> AbortReason_String (a_AbortReason (r_Apdu r)) = ''segmentation not supported''
           else a_Rejected (r_Apdu r) \<and> RejectReason_String (a_RejectReason (r_Apdu r)) = ''unrecognized service''))"
proof -
  let ?resp = "if a_Segmented (r_Apdu packet) then Abort AbortReasonSegmentationNotSupported
               else Reject RejectReasonUnrecognizedService"
  note refusal = refusal_packets [OF assms(3)]
  obtain p where p: "response_packet packet ?resp = Inr p" using refusal by (cases "a_Segmented (r_Apdu packet)") auto
  have nd: "dg_Source d = (case rs_Destination ?resp of Some e \<Rightarrow> e | None \<Rightarrow> dg_Source d)" by (simp add: Abort_def Reject_def Response_zero_def)
  obtain b apdu npci where w: "writeResponse wr packet (dg_Source d) ?resp c
      = (with_text ''responder: write response: %v'' (fst (wr (dg_Source d) b c)), snd (wr (dg_Source d) b c))"
    and m: "Apdu_MarshalBinary (r_Apdu p) = Inr apdu"
    and u: "\<forall>ip port. Request_UnmarshalBinary ip port b = bind_res (Apdu_UnmarshalBinary ip port apdu) (\<lambda>a.
        Inr \<lparr>r_Header = (Request_header p (length apdu + length (npci :: bytes)))\<lparr>h_ProtocolType := BACnetProtocol\<rparr>,
             r_Npci = decoded_npci (r_Npci p) (length npci), r_Apdu = a\<rparr>)" by (rule answer_written [OF assms(2) p nd, where wr = wr and c = c])
  have "unat (h_BvlcLength (r_Header packet)) = length (dg_Payload d)"
    using assms(1) Request_length_field(1) by (simp add: ParseRequest_def)
  then have serve: "ServeDatagram routes wr d c st = (let (r, c) = writeResponse wr packet (dg_Source d) ?resp c in (r, c, st))"
    using assms by (auto simp: ServeDatagram_def serve_packet_def Let_def)
  have "\<exists>r. Request_UnmarshalBinary ip port b = Inr r \<and> a_InvokeID (r_Apdu r) = a_InvokeID (r_Apdu packet)
        \<and> (if a_Segmented (r_Apdu packet)
           then a_Aborted (r_Apdu r) \<and> AbortReason_String (a_AbortReason (r_Apdu r)) = ''segmentation not supported''
           else a_Rejected (r_Apdu r) \<and> RejectReason_String (a_RejectReason (r_Apdu r)) = ''unrecognized service'')"
  proof (cases "a_Segmented (r_Apdu packet)")
    case True
    with p refusal(1) have "r_Apdu p = (r_Apdu Request_Reset)\<lparr>a_PduType := PduTypeAbort, a_Server := True,
        a_InvokeID := a_InvokeID (r_Apdu packet), a_AbortReason := AbortReasonSegmentationNotSupported\<rparr>" by auto
    with Apdu_abort_received [OF m, of ip port] u True show ?thesis
      by (simp add: Request_Reset_def Apdu_Reset_def AbortReasonSegmentationNotSupported_def AbortReason_String_def lookup_name_def)
  next
    case False
    with p refusal(2) have "r_Apdu p = (r_Apdu Request_Reset)\<lparr>a_PduType := PduTypeReject,
        a_InvokeID := a_InvokeID (r_Apdu packet), a_RejectReason := RejectReasonUnrecognizedService\<rparr>" by auto
    with Apdu_reject_received [OF m, of ip port] u False show ?thesis
      by (simp add: Request_Reset_def Apdu_Reset_def RejectReasonUnrecognizedService_def RejectReason_String_def lookup_name_def)
  qed
  moreover have "ServeDatagram routes wr d c st = (with_text ''responder: write response: %v'' (fst (wr (dg_Source d) b c)),
        snd (wr (dg_Source d) b c), st)" using serve w by simp
  ultimately show ?thesis by (intro exI [of _ b] conjI)
qed

theorem unhandled_request_answered_witness:
  "\<exists>b r. ServeDatagram (Map.empty :: unit routes) (\<lambda>dest x sent. (Inr (), sent @ [x]))
       \<lparr>dg_Payload = [0x81, 10, 0, 10, 1, 4, 0, 5, 5, 99], dg_Source = NewEndpoint [10, 0, 0, 9] 47808,
        dg_Destination = NewEndpoint [10, 0, 0, 1] 47808\<rparr> [] () = (Inr (), [b], ())
     \<and> Request_UnmarshalBinary [10, 0, 0, 1] 47808 b = Inr r \<and> a_InvokeID (r_Apdu r) = 5 \<and> a_Rejected (r_Apdu r)"
proof -
  let ?d = "\<lparr>dg_Payload = [0x81, 10, 0, 10, 1, 4, 0, 5, 5, 99], dg_Source = NewEndpoint [10, 0, 0, 9] 47808,
        dg_Destination = NewEndpoint [10, 0, 0, 1] 47808\<rparr> :: Datagram"
  let ?wr = "\<lambda>(dest :: Endpoint) (x :: bytes) (sent :: bytes list). (Inr () :: unit result, sent @ [x])"
  have "case ParseRequest (dg_Payload ?d) (Some (ep_IP (dg_Source ?d), ep_Port (dg_Source ?d))) of
      Inr p \<Rightarrow> validateRoutingSource p = Inr () \<and> a_PduType (r_Apdu p) = 0 \<and> \<not> a_Segmented (r_Apdu p)
        \<and> a_InvokeID (r_Apdu p) = 5 | Inl _ \<Rightarrow> False" by code_simp
  then obtain p where p: "ParseRequest (dg_Payload ?d) (Some (ep_IP (dg_Source ?d), ep_Port (dg_Source ?d))) = Inr p"
    "validateRoutingSource p = Inr ()" "a_PduType (r_Apdu p) = 0" "\<not> a_Segmented (r_Apdu p)" "a_InvokeID (r_Apdu p) = 5"
    by (auto split: sum.splits)
  have "a_Segmented (r_Apdu p) \<or> (Map.empty :: unit routes) (0, a_ServiceChoice (r_Apdu p)) = None" by simp
  from unhandled_request_answered [OF p(1-3) this, of ?wr "[]" "()" "[10, 0, 0, 1]" 47808] p(4,5) show ?thesis by auto
qed

end
