(* ===== verification/Sim_Application.thy ===== *)
theory Sim_Application
  imports Sim_Services Sim_Subscriptions Responder "HOL-Library.Signed_Division"
begin

text \<open>
  A simulated device behind BACnet services, \<^verbatim>\<open>simulator/application.go\<close>: one handler per service on the
  application's state, registered with the responder.  The clock is the argument \<open>now\<close>; a panic of a
  handler is the result \<open>Inl Panic\<close>.
\<close>

section \<open>State\<close>

record 'c Application =
  ap_Device :: SimDevice
  ap_Subscriptions :: "'c SubscriptionRegistry"
  ap_subscribers :: "(SubscriptionKey \<times> Endpoint) list"
  ap_invokeID :: u8

definition NewApplication :: "SimDevice \<Rightarrow> 'c \<Rightarrow> 'c Application" where
  "NewApplication device c = \<lparr>ap_Device = device, ap_Subscriptions = NewSubscriptionRegistry c,
     ap_subscribers = [], ap_invokeID = 0\<rparr>"

type_synonym 'c Now = "'c \<Rightarrow> time \<times> 'c"

text \<open>\<^verbatim>\<open>if err != nil { h(err) }\<close>; a panic is not an error value.\<close>

definition catch_res :: "'a result \<Rightarrow> (string \<Rightarrow> 'b result) \<Rightarrow> ('a \<Rightarrow> 'b result) \<Rightarrow> 'b result" where
  "catch_res r h f = (case r of Inl Panic \<Rightarrow> Inl Panic | Inl (Err e) \<Rightarrow> h e | Inr x \<Rightarrow> f x)"

lemma catch_res_simps [simp]:
  "catch_res (Inr x) h f = f x" "catch_res (Inl (Err e)) h f = h e" "catch_res (Inl Panic) h f = Inl Panic"
  by (simp_all add: catch_res_def)

section \<open>Errors on the wire\<close>

definition modelErrorClassCode :: "go_error \<Rightarrow> u32 \<times> u32" where
  "modelErrorClassCode e =
     (if e = ErrUnknownObject then (1, 31)
      else if e = ErrUnknownProperty then (2, 32)
      else if e = ErrPropertyNotArray then (2, 50)
      else if e = ErrInvalidArrayIndex then (2, 42)
      else if e = ErrWriteDenied \<or> e = ErrReservedPriority then (2, 40)
      else if e = ErrInvalidPriority \<or> e = ErrValueOutOfRange then (2, 37)
      else if e = ErrInvalidDataType then (2, 9)
      else (5, 29))"

definition modelError :: "go_error \<Rightarrow> Response" where
  "modelError e = (let (class, code) = modelErrorClassCode e in ErrorResponse class code)"

definition RejectReasonInvalidTag :: u8 where "RejectReasonInvalidTag = 4"
definition RejectReasonParameterOutOfRange :: u8 where "RejectReasonParameterOutOfRange = 6"

section \<open>Discovery and time\<close>

definition IPv4bcast :: bytes where
  "IPv4bcast = v4_prefix @ [255, 255, 255, 255]"

definition broadcast_reply :: "RRequest \<Rightarrow> u8 \<Rightarrow> bytes \<Rightarrow> Response list" where
  "broadcast_reply request service payload =
     [AsBroadcast (To (NewEndpoint IPv4bcast (ep_Port (rr_Destination request))) (Unconfirmed service payload))]"

abbreviation payload_of :: "RRequest \<Rightarrow> bytes" where
  "payload_of request \<equiv> a_Payload (r_Apdu (rr_Packet request))"

definition handleWhoIs :: "'c Application Handler" where
  "handleWhoIs request a =
     (catch_res (decodeWhoIs (payload_of request)) (\<lambda>_. Inr []) (\<lambda>range.
        case range of
          Some (low, high) \<Rightarrow>
            if sd_ID (ap_Device a) < low \<or> sd_ID (ap_Device a) > high then Inr []
            else bind_res (encodeIAm (Some (ap_Device a))) (\<lambda>payload. Inr (broadcast_reply request UnconfirmedServiceIAm payload))
        | None \<Rightarrow>
            bind_res (encodeIAm (Some (ap_Device a))) (\<lambda>payload. Inr (broadcast_reply request UnconfirmedServiceIAm payload))), a)"

text \<open>The search stops at the first object that matches, in the order the map is iterated.\<close>

definition find_object :: "WhoHas \<Rightarrow> SimDevice \<Rightarrow> SimObject option" where
  "find_object query d =
     find (\<lambda>obj. case wh_ObjectId query of
             Some o1 \<Rightarrow> fromBACnetObjectID o1 = so_ID obj
           | None \<Rightarrow> so_Name obj = wh_ObjectName query) (map snd (sd_Objects d))"

definition handleWhoHas :: "'c Application Handler" where
  "handleWhoHas request a =
     (catch_res (decodeWhoHas (payload_of request)) (\<lambda>_. Inr []) (\<lambda>query.
        if wh_HasRange query \<and> (sd_ID (ap_Device a) < wh_LowLimit query \<or> sd_ID (ap_Device a) > wh_HighLimit query) then Inr []
        else (case find_object query (ap_Device a) of
            None \<Rightarrow> Inr []
          | Some found \<Rightarrow>
              bind_res (encodeIHave (Some (ap_Device a)) (Some found)) (\<lambda>payload.
                Inr (broadcast_reply request UnconfirmedServiceIHave payload)))), a)"

definition handleTimeSync :: "'c Application Handler" where
  "handleTimeSync request a =
     (case decodeTimeSync (payload_of request) of
        Inl Panic \<Rightarrow> (Inl Panic, a)
      | Inl (Err _) \<Rightarrow> (Inr [], a)
      | Inr sync \<Rightarrow> (Inr [], a\<lparr>ap_Device := SetLocalTime (ts_Date sync) (ts_Time sync) (ap_Device a)\<rparr>))"

section \<open>Reading\<close>

definition handleReadProperty :: "'c Application Handler" where
  "handleReadProperty request a =
     (catch_res (decodeReadProperty (payload_of request)) (\<lambda>_. Inr [Reject RejectReasonInvalidTag]) (\<lambda>(obj, reference).
      catch_res (Device_ReadProperty (ap_Device a) obj (sr_ID reference) (sr_ArrayIndex reference))
        (\<lambda>e. Inr [modelError (Err e)]) (\<lambda>values.
      catch_res (encodeReadPropertyResult obj reference values)
        (\<lambda>_. Inr [ErrorResponse 2 47]) (\<lambda>payload. Inr [ComplexACK payload]))), a)"

definition expandPropertyReferences :: "SimDevice \<Rightarrow> SimReadSpec \<Rightarrow> SimReference list" where
  "expandPropertyReferences device specification =
     (if length (rs_Properties specification) \<noteq> 1 \<or> sr_ID (rs_Properties specification ! 0) \<noteq> PropertyAll
      then rs_Properties specification
      else (case Device_Object device (rs_Object specification) of
          Inl _ \<Rightarrow> rs_Properties specification
        | Inr obj \<Rightarrow>
            (let ids = map (unat \<circ> fst) (so_Properties obj)
                 @ (if id_Type (so_ID obj) \<noteq> ObjectTypeDevice
                    then [unat (PropertyStatusFlags :: u32), unat (PropertyEventState :: u32),
                          unat (PropertyReliability :: u32), unat (PropertyOutOfService :: u32)] else [])
                 @ (case get_property obj PropertyPresentValue of
                      Some pv \<Rightarrow> if sp_RelinquishDefault pv \<noteq> None
                        then [unat (PropertyPriorityArray :: u32), unat (PropertyRelinquishDefault :: u32)] else []
                    | None \<Rightarrow> [])
             in map (\<lambda>i. \<lparr>sr_ID = word_of_nat i, sr_ArrayIndex = None\<rparr>) (sort ids))))"

definition read_reference :: "SimDevice \<Rightarrow> ObjectID \<Rightarrow> SimReference \<Rightarrow> SimResult result" where
  "read_reference device obj reference =
     catch_res (Device_ReadProperty device obj (sr_ID reference) (sr_ArrayIndex reference))
       (\<lambda>e. Inr \<lparr>re_Reference = reference, re_Values = [], re_ErrorClass = rs_ErrorClass (modelError (Err e)),
                 re_ErrorCode = rs_ErrorCode (modelError (Err e))\<rparr>)
       (\<lambda>values. Inr \<lparr>re_Reference = reference, re_Values = values, re_ErrorClass = 0, re_ErrorCode = 0\<rparr>)"

definition handleReadPropertyMultiple :: "'c Application Handler" where
  "handleReadPropertyMultiple request a =
     (catch_res (decodeReadPropertyMultiple (payload_of request)) (\<lambda>_. Inr [Reject RejectReasonInvalidTag]) (\<lambda>specifications.
      bind_res (map_res (\<lambda>specification.
          bind_res (map_res (read_reference (ap_Device a) (rs_Object specification))
                (expandPropertyReferences (ap_Device a) specification)) (\<lambda>results.
            Inr \<lparr>ra_Object = rs_Object specification, ra_Results = results\<rparr>)) specifications) (\<lambda>results.
      bind_res (encodeReadPropertyMultipleResult results) (\<lambda>payload. Inr [ComplexACK payload]))), a)"

section \<open>Change of value\<close>

definition nextInvokeID :: "'c Application \<Rightarrow> u8 \<times> 'c Application" where
  "nextInvokeID a = (let k = ap_invokeID a + 1; k = (if k = 0 then 1 else k) in (k, a\<lparr>ap_invokeID := k\<rparr>))"

definition activeSubscriptions :: "'c Now \<Rightarrow> 'c Application \<Rightarrow> Subscription list \<times> 'c Application" where
  "activeSubscriptions now a =
     (let (active, r) = Active now (ap_Subscriptions a) in
      (active, a\<lparr>ap_Subscriptions := r,
         ap_subscribers := filter (\<lambda>(key, _). key \<in> set (map su_Key active)) (ap_subscribers a)\<rparr>))"

definition subscription_for :: "'c Now \<Rightarrow> SubscriptionKey \<Rightarrow> 'c Application \<Rightarrow> Subscription \<times> 'c Application" where
  "subscription_for now key a =
     (let (active, a) = activeSubscriptions now a in
      (case find (\<lambda>s. su_Key s = key) active of
         Some s \<Rightarrow> s
       | None \<Rightarrow> \<lparr>su_Key = key, su_Confirmed = False, su_Lifetime = 0, su_ExpiresAt = 0, su_LastValue = []\<rparr>, a))"

text \<open>\<^verbatim>\<open>reflect.DeepEqual\<close> on two interface values: the same dynamic type and equal contents; floats compare as floats.\<close>

definition DeepEqual :: "sim_any \<Rightarrow> sim_any \<Rightarrow> bool" where
  "DeepEqual x y = (case (x, y) of
       (Any (VFloat32 f), Any (VFloat32 g)) \<Rightarrow> f32_eq f g
     | (Any (VReal f), Any (VReal g)) \<Rightarrow> f32_eq f g
     | (Any (VFloat64 f), Any (VFloat64 g)) \<Rightarrow> f64_eq f g
     | (Any (VDouble f), Any (VDouble g)) \<Rightarrow> f64_eq f g
     | _ \<Rightarrow> x = y)"

text \<open>One element of the comparison: \<open>Some\<close> when the increment decides, as it does for numbers.\<close>

definition numeric_change :: "u64 \<Rightarrow> SimValue \<Rightarrow> SimValue \<Rightarrow> bool option result" where
  "numeric_change increment old new =
     (if \<not> f64_less 0 increment then Inr None
      else (case (toPropertyValue old, toPropertyValue new) of
          (Inr oldValue, Inr newValue) \<Rightarrow>
            bind_res (IsNumeric oldValue) (\<lambda>n1. if \<not> n1 then Inr None
            else bind_res (IsNumeric newValue) (\<lambda>n2. if \<not> n2 then Inr None
            else bind_res (ReadAsFloat64 newValue) (\<lambda>f. bind_res (ReadAsFloat64 oldValue) (\<lambda>g.
              Inr (Some (f64_le increment (f64_abs (f64_sub f g))))))))
        | _ \<Rightarrow> Inr None))"

fun values_changed :: "u64 \<Rightarrow> SimValue list \<Rightarrow> SimValue list \<Rightarrow> bool result" where
  "values_changed increment (old # olds) (new # news) =
     bind_res (numeric_change increment old new) (\<lambda>c.
       case c of
         Some changed \<Rightarrow> if changed then Inr True else values_changed increment olds news
       | None \<Rightarrow>
           if v_Tag old \<noteq> v_Tag new \<or> \<not> DeepEqual (v_Value old) (v_Value new) then Inr True
           else values_changed increment olds news)"
| "values_changed increment _ _ = Inr False"

definition covChanged :: "SimDevice \<Rightarrow> ObjectID \<Rightarrow> SimValue list \<Rightarrow> SimValue list \<Rightarrow> bool result" where
  "covChanged device oid previous current =
     (if length previous \<noteq> length current then Inr True
      else (case Device_Object device oid of
          Inl _ \<Rightarrow> Inr False
        | Inr obj \<Rightarrow>
            values_changed (case get_property obj PropertyPresentValue of Some p \<Rightarrow> sp_COVIncrement p | None \<Rightarrow> 0)
              previous current))"

text \<open>\<^verbatim>\<open>Time.Sub\<close> saturates at the range of a 64-bit duration; the sum below it wraps.\<close>

definition time_Sub :: "time \<Rightarrow> time \<Rightarrow> duration" where
  "time_Sub t u = max (- (2 ^ 63)) (min (2 ^ 63 - 1) (t - u))"

definition remaining_seconds :: "duration \<Rightarrow> u32" where
  "remaining_seconds remaining =
     (if remaining > 0 then word_of_int (sint (word_of_int (remaining + Second - 1) :: u64) sdiv Second) else 0)"

definition notification :: "'c Now \<Rightarrow> Subscription \<Rightarrow> Endpoint \<Rightarrow> SimValue list \<Rightarrow> 'c Application \<Rightarrow> Response result \<times> 'c Application" where
  "notification now subscription endpoint values a =
     (let (timeRemaining, a) =
        (if su_ExpiresAt subscription \<noteq> 0
         then (let (t, r) = read_clock now (ap_Subscriptions a)
               in (remaining_seconds (time_Sub (su_ExpiresAt subscription) t), a\<lparr>ap_Subscriptions := r\<rparr>))
         else (0, a))
      in case encodeCOVNotification (k_ProcessID (su_Key subscription)) (sd_ID (ap_Device a)) (k_Object (su_Key subscription))
             timeRemaining [\<lparr>re_Reference = \<lparr>sr_ID = PropertyPresentValue, sr_ArrayIndex = None\<rparr>, re_Values = values,
               re_ErrorClass = 0, re_ErrorCode = 0\<rparr>] of
           Inl e \<Rightarrow> (Inl e, a)
         | Inr payload \<Rightarrow>
             if su_Confirmed subscription
             then (let (k, a) = nextInvokeID a in (Inr (To endpoint (Confirmed ConfirmedServiceCovNotification k payload)), a))
             else (Inr (To endpoint (Unconfirmed UnconfirmedServiceCovNotification payload)), a))"

text \<open>The loop over the active subscriptions; \<open>None\<close> of the body is \<^verbatim>\<open>continue\<close>.\<close>

definition notify_one :: "'c Now \<Rightarrow> ObjectID \<Rightarrow> Subscription \<Rightarrow> 'c Application \<Rightarrow> Response option result \<times> 'c Application" where
  "notify_one now oid subscription a =
     (if k_Object (su_Key subscription) \<noteq> oid then (Inr None, a)
      else (case Device_ReadProperty (ap_Device a) oid PropertyPresentValue None of
          Inl _ \<Rightarrow> (Inr None, a)
        | Inr values \<Rightarrow>
            (case map_of (ap_subscribers a) (su_Key subscription) of
               None \<Rightarrow> (Inr None, a)
             | Some endpoint \<Rightarrow>
                 (case covChanged (ap_Device a) oid (su_LastValue subscription) values of
                    Inl e \<Rightarrow> (Inl e, a)
                  | Inr changed \<Rightarrow>
                      if \<not> changed then (Inr None, a)
                      else (case notification now subscription endpoint values a of
                          (Inl Panic, a) \<Rightarrow> (Inl Panic, a)
                        | (Inl (Err _), a) \<Rightarrow> (Inr None, a)
                        | (Inr n, a) \<Rightarrow>
                            (Inr (Some n), a\<lparr>ap_Subscriptions :=
                               snd (UpdateLastValue now (su_Key subscription) values (ap_Subscriptions a))\<rparr>))))))"

fun notify_loop :: "'c Now \<Rightarrow> ObjectID \<Rightarrow> Subscription list \<Rightarrow> 'c Application \<Rightarrow> Response list result \<times> 'c Application" where
  "notify_loop now oid [] a = (Inr [], a)"
| "notify_loop now oid (s # ss) a =
     (case notify_one now oid s a of
        (Inl e, a) \<Rightarrow> (Inl e, a)
      | (Inr r, a) \<Rightarrow>
          (case notify_loop now oid ss a of
             (Inl e, a) \<Rightarrow> (Inl e, a)
           | (Inr rs, a) \<Rightarrow> (Inr (case r of Some n \<Rightarrow> n # rs | None \<Rightarrow> rs), a)))"

definition notifications :: "'c Now \<Rightarrow> ObjectID \<Rightarrow> 'c Application \<Rightarrow> Response list result \<times> 'c Application" where
  "notifications now oid a = (let (active, a) = activeSubscriptions now a in notify_loop now oid active a)"


section \<open>Writing\<close>

definition decode_refusal :: "string \<Rightarrow> Response" where
  "decode_refusal e = (if Err e = errWritePriorityOutOfRange then Reject RejectReasonParameterOutOfRange
     else Reject RejectReasonInvalidTag)"

definition handleWriteProperty :: "'c Now \<Rightarrow> 'c Application Handler" where
  "handleWriteProperty now request a =
     (case decodeWriteProperty (payload_of request) of
        Inl Panic \<Rightarrow> (Inl Panic, a)
      | Inl (Err e) \<Rightarrow> (Inr [decode_refusal e], a)
      | Inr (obj, reference, values, priority) \<Rightarrow>
          if sr_ArrayIndex reference \<noteq> None then (Inr [ErrorResponse 2 42], a)
          else (case Device_WriteProperty (ap_Device a) obj (sr_ID reference) values priority of
              (Inl Panic, d) \<Rightarrow> (Inl Panic, a\<lparr>ap_Device := d\<rparr>)
            | (Inl e, d) \<Rightarrow> (Inr [modelError e], a\<lparr>ap_Device := d\<rparr>)
            | (Inr _, d) \<Rightarrow>
                (case notifications now obj (a\<lparr>ap_Device := d\<rparr>) of
                   (Inl e, a) \<Rightarrow> (Inl e, a)
                 | (Inr ns, a) \<Rightarrow> (Inr (SimpleACK # ns), a))))"

definition writePropertyMultipleError :: "u32 \<Rightarrow> u32 \<Rightarrow> ObjectID \<Rightarrow> u32 \<Rightarrow> u32 option \<Rightarrow> Response result" where
  "writePropertyMultipleError class code obj propertyID arrayIndex =
     bind_res (toBACnetObjectID obj) (\<lambda>o1.
     bind_res (WritePropertyMultipleError_MarshalBinary \<lparr>wpe_Class = class, wpe_Code = code, wpe_ObjectId = Some o1,
         wpe_ID = propertyID, wpe_Index = (case arrayIndex of Some i \<Rightarrow> i | None \<Rightarrow> 0),
         wpe_HasIndex = (arrayIndex \<noteq> None)\<rparr>) (\<lambda>payload.
       Inr (Response_zero\<lparr>rs_PDUType := PduTypeError, rs_ErrorClass := class, rs_ErrorCode := code, rs_Payload := payload\<rparr>)))"

text \<open>The answer to a failed write; a panic is one of the handler.\<close>

definition wpm_failure :: "go_error \<Rightarrow> ObjectID \<Rightarrow> u32 \<Rightarrow> Response result" where
  "wpm_failure e obj propertyID =
     (if e = Panic then Inl Panic
      else (let (class, code) = modelErrorClassCode e in writePropertyMultipleError class code obj propertyID None))"

text \<open>The first pass over one specification, then over all: the answer to the first write that does not validate.\<close>

fun wpm_check_writes :: "SimDevice \<Rightarrow> ObjectID \<Rightarrow> SimWrite list \<Rightarrow> Response result option" where
  "wpm_check_writes d obj [] = None"
| "wpm_check_writes d obj (w # ws) =
     (case sr_ArrayIndex (sw_Reference w) of
        Some i \<Rightarrow> Some (writePropertyMultipleError 2 42 obj (sr_ID (sw_Reference w)) (Some i))
      | None \<Rightarrow>
          (case ValidateWrite d obj (sr_ID (sw_Reference w)) (sw_Values w) (sw_Priority w) of
             Inl e \<Rightarrow> Some (wpm_failure e obj (sr_ID (sw_Reference w)))
           | Inr _ \<Rightarrow> wpm_check_writes d obj ws))"

fun wpm_check :: "SimDevice \<Rightarrow> SimWriteSpec list \<Rightarrow> Response result option" where
  "wpm_check d [] = None"
| "wpm_check d (s # ss) =
     (case wpm_check_writes d (ws_Object s) (ws_Properties s) of Some r \<Rightarrow> Some r | None \<Rightarrow> wpm_check d ss)"

text \<open>The second pass: the writes, and the objects written in the order of their first specification.\<close>

fun wpm_apply_writes :: "SimDevice \<Rightarrow> ObjectID \<Rightarrow> SimWrite list \<Rightarrow> Response result option \<times> SimDevice" where
  "wpm_apply_writes d obj [] = (None, d)"
| "wpm_apply_writes d obj (w # ws) =
     (case Device_WriteProperty d obj (sr_ID (sw_Reference w)) (sw_Values w) (sw_Priority w) of
        (Inl e, d) \<Rightarrow> (Some (wpm_failure e obj (sr_ID (sw_Reference w))), d)
      | (Inr _, d) \<Rightarrow> wpm_apply_writes d obj ws)"

fun wpm_apply :: "SimDevice \<Rightarrow> SimWriteSpec list \<Rightarrow> ObjectID list \<Rightarrow> (Response result + ObjectID list) \<times> SimDevice" where
  "wpm_apply d [] changed = (Inr changed, d)"
| "wpm_apply d (s # ss) changed =
     (case wpm_apply_writes d (ws_Object s) (ws_Properties s) of
        (Some r, d) \<Rightarrow> (Inl r, d)
      | (None, d) \<Rightarrow> wpm_apply d ss (if ws_Object s \<in> set changed then changed else changed @ [ws_Object s]))"

fun notify_all :: "'c Now \<Rightarrow> ObjectID list \<Rightarrow> 'c Application \<Rightarrow> Response list result \<times> 'c Application" where
  "notify_all now [] a = (Inr [], a)"
| "notify_all now (oid # oids) a =
     (case notifications now oid a of
        (Inl e, a) \<Rightarrow> (Inl e, a)
      | (Inr rs, a) \<Rightarrow>
          (case notify_all now oids a of
             (Inl e, a) \<Rightarrow> (Inl e, a)
           | (Inr rs', a) \<Rightarrow> (Inr (rs @ rs'), a)))"

definition single :: "Response result \<Rightarrow> Response list result" where
  "single r = bind_res r (\<lambda>x. Inr [x])"

definition handleWritePropertyMultiple :: "'c Now \<Rightarrow> 'c Application Handler" where
  "handleWritePropertyMultiple now request a =
     (case decodeWritePropertyMultiple (payload_of request) of
        Inl Panic \<Rightarrow> (Inl Panic, a)
      | Inl (Err e) \<Rightarrow> (Inr [decode_refusal e], a)
      | Inr specifications \<Rightarrow>
          (case wpm_check (ap_Device a) specifications of
             Some r \<Rightarrow> (single r, a)
           | None \<Rightarrow>
               (case wpm_apply (ap_Device a) specifications [] of
                  (Inl r, d) \<Rightarrow> (single r, a\<lparr>ap_Device := d\<rparr>)
                | (Inr changed, d) \<Rightarrow>
                    (case notify_all now changed (a\<lparr>ap_Device := d\<rparr>) of
                       (Inl e, a) \<Rightarrow> (Inl e, a)
                     | (Inr ns, a) \<Rightarrow> (Inr (SimpleACK # ns), a)))))"

section \<open>Subscribing\<close>

definition handleSubscribeCOV :: "'c Now \<Rightarrow> 'c Application Handler" where
  "handleSubscribeCOV now request a =
     (case decodeSubscribeCOV (payload_of request) of
        Inl Panic \<Rightarrow> (Inl Panic, a)
      | Inl (Err _) \<Rightarrow> (Inr [Reject RejectReasonInvalidTag], a)
      | Inr subscription \<Rightarrow>
          (case Device_Object (ap_Device a) (sq_Object subscription) of
             Inl e \<Rightarrow> (Inr [modelError e], a)
           | Inr _ \<Rightarrow>
               (case Device_ReadProperty (ap_Device a) (sq_Object subscription) PropertyPresentValue None of
                  Inl e \<Rightarrow> (Inr [if e = ErrUnknownProperty then ErrorResponse 2 44 else modelError e], a)
                | Inr values \<Rightarrow>
                    (let key = SubscriptionKey (Endpoint_String (rr_Source request)) (sq_ProcessIdentifier subscription)
                                 (sq_Object subscription) in
                     if sq_Cancel subscription
                     then (Inr [SimpleACK], a\<lparr>ap_Subscriptions := snd (Cancel key (ap_Subscriptions a)),
                             ap_subscribers := AList.delete key (ap_subscribers a)\<rparr>)
                     else (let a = a\<lparr>ap_Subscriptions := Subscribe now
                                 \<lparr>su_Key = key, su_Confirmed = sq_Confirmed subscription,
                                  su_Lifetime = uint (sq_Lifetime subscription) * Second, su_ExpiresAt = 0,
                                  su_LastValue = values\<rparr> (ap_Subscriptions a),
                               ap_subscribers := AList.update key (rr_Source request) (ap_subscribers a)\<rparr>;
                               (active, a) = subscription_for now key a
                           in case notification now active (rr_Source request) values a of
                                (Inl e, a) \<Rightarrow> (Inl e, a)
                              | (Inr n, a) \<Rightarrow> (Inr [SimpleACK, n], a))))))"

section \<open>Routes\<close>

definition Register :: "'c Now \<Rightarrow> 'c Application routes \<Rightarrow> 'c Application routes" where
  "Register now routes =
     Handle PduTypeConfirmedServiceRequest ConfirmedServiceSubscribeCov (Some (handleSubscribeCOV now))
    (Handle PduTypeConfirmedServiceRequest ConfirmedServiceReadPropertyMultiple (Some handleReadPropertyMultiple)
    (Handle PduTypeConfirmedServiceRequest ConfirmedServiceWritePropertyMultiple (Some (handleWritePropertyMultiple now))
    (Handle PduTypeConfirmedServiceRequest ConfirmedServiceWriteProperty (Some (handleWriteProperty now))
    (Handle PduTypeConfirmedServiceRequest ConfirmedServiceReadProperty (Some handleReadProperty)
    (Handle PduTypeUnconfirmedServiceRequest 9 (Some handleTimeSync)
    (Handle PduTypeUnconfirmedServiceRequest 6 (Some handleTimeSync)
    (Handle PduTypeUnconfirmedServiceRequest 7 (Some handleWhoHas)
    (Handle PduTypeUnconfirmedServiceRequest 8 (Some handleWhoIs) routes))))))))"

end
