(* ===== verification/Sim_Scenario.thy ===== *)
theory Sim_Scenario
  imports Sim_Model Net
begin

text \<open>
  Scenarios, \<^verbatim>\<open>simulator/scenario.go\<close>: the description of a simulated network, its defaults, its validation and
  the devices built from it.  The JSON and YAML decoders are arguments of \<open>DecodeScenario\<close>.  A Go string is its
  octets; \<open>ascii\<close> is a literal.  \<^verbatim>\<open>Validate\<close> makes commandable objects writable in place, so it returns the
  scenario after the call.
\<close>

section \<open>Strings\<close>

definition ascii :: "string \<Rightarrow> bytes" where
  "ascii s = map of_char s"

text \<open>
  \<^verbatim>\<open>strings.ToLower\<close> as far as a comparison with an ASCII literal can see: besides the letters, only the
  Kelvin sign and the dotted capital I have a lower case inside ASCII.
\<close>

fun ToLower :: "bytes \<Rightarrow> bytes" where
  "ToLower [] = []"
| "ToLower (c # cs) =
     (if 65 \<le> c \<and> c \<le> 90 then (c + 32) # ToLower cs
      else if c = 0xc4 \<and> take 1 cs = [0xb0] then 105 # ToLower (drop 1 cs)
      else if c = 0xe2 \<and> take 2 cs = [0x84, 0xaa] then 107 # ToLower (drop 2 cs)
      else c # ToLower cs)"

text \<open>The UTF-8 encodings of the white space of \<^verbatim>\<open>strings.TrimSpace\<close>.\<close>

definition spaces :: "bytes list" where
  "spaces = [[9], [10], [11], [12], [13], [32], [0xc2, 0x85], [0xc2, 0xa0], [0xe1, 0x9a, 0x80]]
     @ map (\<lambda>i. [0xe2, 0x80, 0x80 + word_of_nat i]) [0..<11]
     @ [[0xe2, 0x80, 0xa8], [0xe2, 0x80, 0xa9], [0xe2, 0x80, 0xaf], [0xe2, 0x81, 0x9f], [0xe3, 0x80, 0x80]]"

definition leading :: "bytes list \<Rightarrow> bytes \<Rightarrow> nat option" where
  "leading ws b = map_option length (find (\<lambda>w. take (length w) b = w) ws)"

fun trim_front :: "nat \<Rightarrow> bytes list \<Rightarrow> bytes \<Rightarrow> bytes" where
  "trim_front 0 ws b = b"
| "trim_front (Suc n) ws b = (case leading ws b of None \<Rightarrow> b | Some k \<Rightarrow> trim_front n ws (drop k b))"

definition TrimSpace :: "bytes \<Rightarrow> bytes" where
  "TrimSpace b = (let b = trim_front (length b) spaces b in rev (trim_front (length b) (map rev spaces) (rev b)))"

section \<open>Specifications\<close>

record NetworkConfig =
  nc_Mode :: bytes
  nc_Interface :: bytes
  nc_Port :: u16

record ObjectSpec =
  os_Type :: bytes
  os_Instance :: u32
  os_Name :: bytes
  os_Description :: bytes
  os_PresentValue :: go_value
  os_Units :: u32
  os_Writable :: bool
  os_Commandable :: bool
  os_RelinquishDefault :: go_value
  os_InitialPriority :: u8
  os_NumberOfStates :: u32
  os_COVIncrement :: u64
  os_OutOfService :: bool

record DeviceSpec =
  ds_ID :: u32
  ds_Address :: bytes
  ds_Port :: u16
  ds_Name :: bytes
  ds_VendorID :: u16
  ds_VendorName :: bytes
  ds_ModelName :: bytes
  ds_ProtocolRevision :: u8
  ds_Objects :: "ObjectSpec list"

record Scenario =
  sc_Version :: int
  sc_Network :: NetworkConfig
  sc_Devices :: "DeviceSpec list"

definition ScenarioVersion :: int where "ScenarioVersion = 1"

section \<open>Present values\<close>

definition object_type_names :: "(string \<times> u16) list" where
  "object_type_names =
     [(''analog-input'', 0), (''analog-output'', 1), (''analog-value'', 2),
      (''binary-input'', 3), (''binary-output'', 4), (''binary-value'', 5),
      (''multistate-input'', 13), (''multistate-output'', 14), (''multistate-value'', 19),
      (''multi-state-input'', 13), (''multi-state-output'', 14), (''multi-state-value'', 19)]"

definition objectTypeNumber :: "bytes \<Rightarrow> u16 result" where
  "objectTypeNumber name =
     (let normalized = ToLower (map (\<lambda>c. if c = 95 then 45 else c) (TrimSpace name)) in
      case map_of (map (\<lambda>(n, t). (ascii n, t)) object_type_names) normalized of
        None \<Rightarrow> Inl (Err ''object type %q is not supported'')
      | Some t \<Rightarrow> Inr t)"

definition isMultiStateObjectType :: "u16 \<Rightarrow> bool" where
  "isMultiStateObjectType t \<longleftrightarrow> t = 13 \<or> t = 14 \<or> t = 19"

definition numericFloat64 :: "go_value \<Rightarrow> u64 result" where
  "numericFloat64 v = (case v of
       VFloat64 f \<Rightarrow> Inr f
     | VFloat32 f \<Rightarrow> Inr (f32_to_f64 f)
     | VInt n \<Rightarrow> Inr (int_to_f64 (sint n))
     | VUint64 n \<Rightarrow> Inr (int_to_f64 (uint n))
     | _ \<Rightarrow> Inl (Err ''%v is not numeric''))"

text \<open>\<^verbatim>\<open>typed == math.Trunc(typed)\<close>: no fraction, and not a NaN.\<close>

definition f64_integral :: "u64 \<Rightarrow> bool" where
  "f64_integral w = (case classify64 w of
       Finite s m e \<Rightarrow> 0 \<le> e \<or> m mod 2 ^ nat (- e) = 0 | Infinite _ \<Rightarrow> True | NotANumber _ _ \<Rightarrow> False)"

definition numericUint32 :: "go_value \<Rightarrow> u32 result" where
  "numericUint32 v = (case v of
       VUint32 n \<Rightarrow> Inr n
     | VUint64 n \<Rightarrow> if n > 0xffffffff then Inl (Err ''%v exceeds the unsigned 32-bit range'') else Inr (ucast n)
     | VInt n \<Rightarrow>
         if sint n < 0 then Inl (Err ''%d is negative'')
         else if n > 0xffffffff then Inl (Err ''%v exceeds the unsigned 32-bit range'') else Inr (ucast n)
     | VFloat64 f \<Rightarrow>
         if f64_less f 0 \<or> f64_less (int_to_f64 4294967295) f \<or> \<not> f64_integral f
         then Inl (Err ''%v is not an unsigned integer'') else Inr (f64_to_uint32 f)
     | _ \<Rightarrow> Inl (Err ''%v is not an unsigned integer''))"

definition MaxFloat32 :: u64 where "MaxFloat32 = 0x47efffffe0000000"
definition MinFloat32 :: u64 where "MinFloat32 = 0xc7efffffe0000000"

definition f64_finite :: "u64 \<Rightarrow> bool" where
  "f64_finite w = (case classify64 w of Finite _ _ _ \<Rightarrow> True | _ \<Rightarrow> False)"

definition normalize_analog :: "go_value \<Rightarrow> (u8 \<times> go_value) result" where
  "normalize_analog v =
     bind_res (numericFloat64 (if v = VNil then VFloat64 0 else v)) (\<lambda>number.
       if \<not> f64_finite number \<or> f64_less MaxFloat32 number \<or> f64_less number MinFloat32
       then Inl (Err ''analog present value is outside the BACnet REAL range'')
       else Inr (TagReal, VFloat32 (f64_to_f32 number)))"

definition binary_word :: "bytes \<Rightarrow> bool option" where
  "binary_word s =
     (if ToLower s \<in> set (map ascii [''active'', ''true'', ''1'']) then Some True
      else if ToLower s \<in> set (map ascii [''inactive'', ''false'', ''0'']) then Some False else None)"

definition normalize_binary :: "go_value \<Rightarrow> (u8 \<times> go_value) result" where
  "normalize_binary v =
     (case (case v of VNil \<Rightarrow> Some False | VBool b \<Rightarrow> Some b | VString s \<Rightarrow> binary_word s | _ \<Rightarrow> None) of
        Some b \<Rightarrow> Inr (TagEnumerated, VUint32 (if b then 1 else 0))
      | None \<Rightarrow>
          bind_res (numericUint32 v) (\<lambda>number.
            if number > 1 then Inl (Err ''binary present value must be 0 or 1'') else Inr (TagEnumerated, VUint32 number)))"

definition normalize_multistate :: "go_value \<Rightarrow> (u8 \<times> go_value) result" where
  "normalize_multistate v =
     bind_res (numericUint32 (if v = VNil then VUint32 1 else v)) (\<lambda>number.
       if number = 0 then Inl (Err ''multi-state present value starts at 1'') else Inr (TagUnsigned, VUint32 number))"

definition normalizePresentValue :: "u16 \<Rightarrow> go_value \<Rightarrow> (u8 \<times> go_value) result" where
  "normalizePresentValue objectType v =
     (if objectType = 0 \<or> objectType = 1 \<or> objectType = 2 then normalize_analog v
      else if objectType = 3 \<or> objectType = 4 \<or> objectType = 5 then normalize_binary v
      else normalize_multistate v)"

section \<open>Validation\<close>

text \<open>\<^verbatim>\<open>value.(uint32)\<close> panics on another type.\<close>

definition as_uint32 :: "go_value \<Rightarrow> u32 result" where
  "as_uint32 v = (case v of VUint32 n \<Rightarrow> Inr n | _ \<Rightarrow> Inl Panic)"

definition validateObjectSpecValues :: "u16 \<Rightarrow> ObjectSpec \<Rightarrow> unit result" where
  "validateObjectSpecValues objectType spec =
     bind_res (normalizePresentValue objectType (os_PresentValue spec)) (\<lambda>(_, presentValue).
       if \<not> isMultiStateObjectType objectType then Inr ()
       else if os_NumberOfStates spec = 0 then Inl (Err ''number_of_states must be greater than zero'')
       else bind_res (as_uint32 presentValue) (\<lambda>n.
         if n > os_NumberOfStates spec then Inl (Err ''present_value exceeds number_of_states'')
         else if os_Commandable spec \<and> os_RelinquishDefault spec \<noteq> VNil then
           bind_res (normalizePresentValue objectType (os_RelinquishDefault spec)) (\<lambda>(_, defaultValue).
           bind_res (as_uint32 defaultValue) (\<lambda>m.
             if m > os_NumberOfStates spec then Inl (Err ''relinquish_default exceeds number_of_states'') else Inr ()))
         else Inr ()))"

definition wrap_error :: "string \<Rightarrow> 'a result \<Rightarrow> 'a result" where
  "wrap_error t r = (case r of Inl Panic \<Rightarrow> Inl Panic | Inl (Err _) \<Rightarrow> Inl (Err t) | Inr x \<Rightarrow> Inr x)"

text \<open>The checks on one object, in two parts: up to its name, and after the writable flag has been set.\<close>

definition object_identity :: "ObjectID list \<Rightarrow> ObjectSpec \<Rightarrow> ObjectID result" where
  "object_identity seen spec =
     bind_res (wrap_error ''device %d: %v'' (objectTypeNumber (os_Type spec))) (\<lambda>objectType.
       let oid = \<lparr>id_Type = objectType, id_Instance = os_Instance spec\<rparr> in
       if os_Instance spec > MaxObjectInstance then Inl (Err ''device %d object %s instance is out of range'')
       else if oid \<in> set seen then Inl (Err ''device %d has duplicate object %s'')
       else if TrimSpace (os_Name spec) = [] then Inl (Err ''device %d object %s name is required'')
       else Inr oid)"

definition object_values :: "ObjectID \<Rightarrow> ObjectSpec \<Rightarrow> unit result" where
  "object_values oid spec =
     (if f64_less (os_COVIncrement spec) 0 \<or> \<not> f64_finite (os_COVIncrement spec)
      then Inl (Err ''device %d object %s has an invalid cov_increment'')
      else if os_InitialPriority spec \<noteq> 0 \<and> (\<not> os_Commandable spec \<or> os_PresentValue spec = VNil)
      then Inl (Err ''device %d object %s initial_priority requires commandable and present_value'')
      else if os_InitialPriority spec \<noteq> 0 \<and> (os_InitialPriority spec > PrioritySlots \<or> os_InitialPriority spec = 6)
      then Inl (Err ''device %d object %s has an invalid initial_priority'')
      else wrap_error ''device %d object %s: %v'' (validateObjectSpecValues (id_Type oid) spec))"

definition make_writable :: "ObjectSpec \<Rightarrow> ObjectSpec" where
  "make_writable spec = (if os_Commandable spec \<and> \<not> os_Writable spec then spec\<lparr>os_Writable := True\<rparr> else spec)"

fun validate_objects :: "ObjectID list \<Rightarrow> ObjectSpec list \<Rightarrow> unit result \<times> ObjectSpec list" where
  "validate_objects seen [] = (Inr (), [])"
| "validate_objects seen (spec # specs) =
     (case object_identity seen spec of
        Inl e \<Rightarrow> (Inl e, spec # specs)
      | Inr oid \<Rightarrow>
          (let spec = make_writable spec in
           case object_values oid spec of
             Inl e \<Rightarrow> (Inl e, spec # specs)
           | Inr _ \<Rightarrow> (let (r, specs) = validate_objects (oid # seen) specs in (r, spec # specs))))"

definition device_identity :: "bytes \<Rightarrow> u32 list \<Rightarrow> bytes list \<Rightarrow> DeviceSpec \<Rightarrow> bytes list result" where
  "device_identity mode ids endpoints spec =
     (let endpoint = ds_Address spec @ ascii '':'' @ ascii (itoa (unat (ds_Port spec))) in
      if ds_ID spec > MaxObjectInstance then Inl (Err ''device %d exceeds BACnet object-instance range'')
      else if ds_ID spec \<in> set ids then Inl (Err ''duplicate device id %d'')
      else if TrimSpace (ds_Name spec) = [] then Inl (Err ''device %d name is required'')
      else if mode = ascii ''multi-ip'' \<and> TrimSpace (ds_Address spec) = []
      then Inl (Err ''device %d address is required in multi-ip mode'')
      else if mode \<noteq> ascii ''single-device'' then
        (if endpoint \<in> set endpoints then Inl (Err ''duplicate device endpoint %s'') else Inr (endpoint # endpoints))
      else Inr endpoints)"

fun validate_devices :: "bytes \<Rightarrow> u32 list \<Rightarrow> bytes list \<Rightarrow> DeviceSpec list \<Rightarrow> unit result \<times> DeviceSpec list" where
  "validate_devices mode ids endpoints [] = (Inr (), [])"
| "validate_devices mode ids endpoints (spec # specs) =
     (case device_identity mode ids endpoints spec of
        Inl e \<Rightarrow> (Inl e, spec # specs)
      | Inr endpoints \<Rightarrow>
          (case validate_objects [\<lparr>id_Type = 8, id_Instance = ds_ID spec\<rparr>] (ds_Objects spec) of
             (Inl e, objs) \<Rightarrow> (Inl e, spec\<lparr>ds_Objects := objs\<rparr> # specs)
           | (Inr _, objs) \<Rightarrow>
               (let (r, specs) = validate_devices mode (ds_ID spec # ids) endpoints specs
                in (r, spec\<lparr>ds_Objects := objs\<rparr> # specs))))"

definition Scenario_Validate :: "Scenario \<Rightarrow> unit result \<times> Scenario" where
  "Scenario_Validate s =
     (let mode = nc_Mode (sc_Network s) in
      if sc_Version s \<noteq> ScenarioVersion then (Inl (Err ''scenario version %d is not supported''), s)
      else if mode \<notin> set (map ascii [''single-device'', ''multi-ip'', ''multi-port''])
      then (Inl (Err ''network mode %q is not supported''), s)
      else if length (sc_Devices s) = 0 then (Inl (Err ''at least one device is required''), s)
      else if mode = ascii ''single-device'' \<and> length (sc_Devices s) \<noteq> 1
      then (Inl (Err ''single-device mode requires exactly one device''), s)
      else (let (r, devices) = validate_devices mode [] [] (sc_Devices s) in (r, s\<lparr>sc_Devices := devices\<rparr>)))"

section \<open>Defaults and decoding\<close>

definition default_device :: "u16 \<Rightarrow> DeviceSpec \<Rightarrow> DeviceSpec" where
  "default_device port d =
     (let d = (if ds_Port d = 0 then d\<lparr>ds_Port := port\<rparr> else d);
          d = (if ds_VendorName d = [] then d\<lparr>ds_VendorName := ascii ''GoBAC''\<rparr> else d);
          d = (if ds_ModelName d = [] then d\<lparr>ds_ModelName := ascii ''GoBAC Simulator''\<rparr> else d)
      in if ds_ProtocolRevision d = 0 then d\<lparr>ds_ProtocolRevision := 14\<rparr> else d)"

definition applyScenarioDefaults :: "Scenario \<Rightarrow> Scenario" where
  "applyScenarioDefaults s =
     (let s = (if sc_Version s = 0 then s\<lparr>sc_Version := ScenarioVersion\<rparr> else s);
          n = sc_Network s;
          n = (if nc_Mode n = [] then n\<lparr>nc_Mode :=
                 (if length (sc_Devices s) = 1 then ascii ''single-device'' else ascii ''multi-ip'')\<rparr> else n);
          n = (if nc_Port n = 0 then n\<lparr>nc_Port := 0xbac0\<rparr> else n)
      in s\<lparr>sc_Network := n, sc_Devices := map (default_device (nc_Port n)) (sc_Devices s)\<rparr>)"

definition DecodeScenario :: "(bytes \<Rightarrow> Scenario result) \<Rightarrow> (bytes \<Rightarrow> Scenario result) \<Rightarrow> bytes result \<Rightarrow> bytes \<Rightarrow> Scenario result" where
  "DecodeScenario json yaml reader format =
     bind_res reader (\<lambda>data.
     bind_res (if ToLower format = ascii ''json'' then json data
               else if ToLower format \<in> {ascii ''yaml'', ascii ''yml'', []} then yaml data
               else Inl (Err ''unsupported scenario format %q'')) (\<lambda>scenario.
       case Scenario_Validate (applyScenarioDefaults scenario) of
         (Inl e, _) \<Rightarrow> Inl e
       | (Inr _, s) \<Rightarrow> Inr s))"

section \<open>Building\<close>

abbreviation (input) PropertyDescription :: u32 where "PropertyDescription \<equiv> 28"
abbreviation (input) PropertyMaxApduLengthAccepted :: u32 where "PropertyMaxApduLengthAccepted \<equiv> 62"
abbreviation (input) PropertyModelName :: u32 where "PropertyModelName \<equiv> 70"
abbreviation (input) PropertyNumberOfStates :: u32 where "PropertyNumberOfStates \<equiv> 74"
abbreviation (input) PropertyObjectIdentifier :: u32 where "PropertyObjectIdentifier \<equiv> 75"
abbreviation (input) PropertyObjectList :: u32 where "PropertyObjectList \<equiv> 76"
abbreviation (input) PropertyObjectName :: u32 where "PropertyObjectName \<equiv> 77"
abbreviation (input) PropertyObjectType :: u32 where "PropertyObjectType \<equiv> 79"
abbreviation (input) PropertyProtocolVersion :: u32 where "PropertyProtocolVersion \<equiv> 98"
abbreviation (input) PropertySegmentationSupported :: u32 where "PropertySegmentationSupported \<equiv> 107"
abbreviation (input) PropertyUnits :: u32 where "PropertyUnits \<equiv> 117"
abbreviation (input) PropertyVendorIdentifier :: u32 where "PropertyVendorIdentifier \<equiv> 120"
abbreviation (input) PropertyVendorName :: u32 where "PropertyVendorName \<equiv> 121"
abbreviation (input) PropertyProtocolRevision :: u32 where "PropertyProtocolRevision \<equiv> 139"

text \<open>\<^verbatim>\<open>object.Properties[id] = scalarProperty(id, tag, value, false)\<close>.\<close>

definition add_scalar :: "u32 \<Rightarrow> u8 \<Rightarrow> sim_any \<Rightarrow> SimObject \<Rightarrow> SimObject" where
  "add_scalar pid tag v = set_property pid (scalarProperty pid tag v False)"

definition addCommonProperties :: "bytes \<Rightarrow> bytes \<Rightarrow> SimObject \<Rightarrow> SimObject" where
  "addCommonProperties name description obj =
     (let obj = add_scalar PropertyObjectIdentifier TagObjectId (AnyID (so_ID obj)) obj;
          obj = add_scalar PropertyObjectName TagCharacterString (Any (VString name)) obj;
          obj = add_scalar PropertyObjectType TagEnumerated (Any (VUint32 (ucast (id_Type (so_ID obj))))) obj
      in if description \<noteq> [] then add_scalar PropertyDescription TagCharacterString (Any (VString description)) obj else obj)"

text \<open>The Present_Value of an object: its range, and the command priorities of a commandable one.\<close>

definition present_value :: "u16 \<Rightarrow> ObjectSpec \<Rightarrow> SimProperty result" where
  "present_value objectType spec =
     bind_res (normalizePresentValue objectType (os_PresentValue spec)) (\<lambda>(tag, normalized).
       let p = (scalarProperty PropertyPresentValue tag (Any normalized) (os_Writable spec))\<lparr>sp_COVIncrement := os_COVIncrement spec\<rparr>;
           p = (if isMultiStateObjectType objectType
                then p\<lparr>sp_MinimumUnsigned := 1, sp_MaximumUnsigned := os_NumberOfStates spec\<rparr> else p)
       in if \<not> os_Commandable spec then Inr p
          else bind_res (normalizePresentValue objectType (os_RelinquishDefault spec)) (\<lambda>(defaultTag, defaultValue).
            let (defaultTag, defaultValue) =
                  (if os_RelinquishDefault spec = VNil then (tag, normalized) else (defaultTag, defaultValue));
                p = p\<lparr>sp_RelinquishDefault := Some \<lparr>v_Tag = defaultTag, v_Value = Any defaultValue\<rparr>\<rparr>;
                priority = (if os_InitialPriority spec = 0 then PrioritySlots else os_InitialPriority spec)
            in if os_PresentValue spec = VNil then Inr p
               else if 16 \<le> unat (priority - 1) then Inl Panic
               else Inr (p\<lparr>sp_priorities := (sp_priorities p)[unat (priority - 1) := Some \<lparr>v_Tag = tag, v_Value = Any normalized\<rparr>]\<rparr>)))"

definition buildObject :: "ObjectSpec \<Rightarrow> SimObject result" where
  "buildObject spec =
     bind_res (objectTypeNumber (os_Type spec)) (\<lambda>objectType.
       let obj = addCommonProperties (os_Name spec) (os_Description spec)
             \<lparr>so_ID = \<lparr>id_Type = objectType, id_Instance = os_Instance spec\<rparr>, so_Name = os_Name spec,
              so_Properties = [], so_OutOfService = os_OutOfService spec\<rparr>
       in bind_res (present_value objectType spec) (\<lambda>p.
         let obj = set_property PropertyPresentValue p obj;
             obj = (if os_Units spec \<noteq> 0 then add_scalar PropertyUnits TagEnumerated (Any (VUint32 (os_Units spec))) obj else obj)
         in Inr (if os_NumberOfStates spec \<noteq> 0
                 then add_scalar PropertyNumberOfStates TagUnsigned (Any (VUint32 (os_NumberOfStates spec))) obj else obj)))"

definition device_object :: "DeviceSpec \<Rightarrow> SimObject" where
  "device_object spec =
     (let obj = addCommonProperties (ds_Name spec) []
            \<lparr>so_ID = \<lparr>id_Type = 8, id_Instance = ds_ID spec\<rparr>, so_Name = ds_Name spec, so_Properties = [], so_OutOfService = False\<rparr>;
          obj = add_scalar PropertyVendorIdentifier TagUnsigned (Any (VUint32 (ucast (ds_VendorID spec)))) obj;
          obj = add_scalar PropertyVendorName TagCharacterString (Any (VString (ds_VendorName spec))) obj;
          obj = add_scalar PropertyModelName TagCharacterString (Any (VString (ds_ModelName spec))) obj;
          obj = add_scalar PropertyMaxApduLengthAccepted TagUnsigned (Any (VUint32 1476)) obj;
          obj = add_scalar PropertySegmentationSupported TagEnumerated (Any (VUint32 3)) obj;
          obj = add_scalar PropertyProtocolVersion TagUnsigned (Any (VUint32 1)) obj
      in add_scalar PropertyProtocolRevision TagUnsigned (Any (VUint32 (ucast (ds_ProtocolRevision spec)))) obj)"

text \<open>The device object is in the map before the others are added, and gets its object list at the end.\<close>

definition buildDevice :: "DeviceSpec \<Rightarrow> SimDevice result" where
  "buildDevice spec =
     (let deviceID = \<lparr>id_Type = 8, id_Instance = ds_ID spec\<rparr>;
          objectList = (\<lambda>objs. map (\<lambda>oid. \<lparr>v_Tag = TagObjectId, v_Value = AnyID oid\<rparr>) (deviceID # map so_ID objs))
      in bind_res (wrap_error ''device %d: %v'' (map_res buildObject (ds_Objects spec))) (\<lambda>objs.
        Inr \<lparr>sd_ID = ds_ID spec, sd_Name = ds_Name spec, sd_Address = ds_Address spec, sd_Port = ds_Port spec,
             sd_VendorID = ds_VendorID spec, sd_ModelName = ds_ModelName spec,
             sd_Objects = fold (\<lambda>obj. AList.update (so_ID obj) obj) objs
               [(deviceID, set_property PropertyObjectList
                   (SimProperty_zero\<lparr>sp_ID := PropertyObjectList, sp_Array := True, sp_Values := objectList objs\<rparr>)
                   (device_object spec))]\<rparr>))"

fun add_devices :: "DeviceSpec list \<Rightarrow> SimNetwork \<Rightarrow> SimNetwork result" where
  "add_devices [] n = Inr n"
| "add_devices (spec # specs) n =
     bind_res (buildDevice spec) (\<lambda>d.
       case AddDevice (Some d) n of (Inl e, _) \<Rightarrow> Inl e | (Inr _, n) \<Rightarrow> add_devices specs n)"

definition BuildNetwork :: "Scenario \<Rightarrow> SimNetwork result" where
  "BuildNetwork s =
     (case Scenario_Validate s of
        (Inl e, _) \<Rightarrow> Inl e
      | (Inr _, s) \<Rightarrow> add_devices (sc_Devices s) NewNetwork)"

section \<open>What a scenario builds\<close>

text \<open>The datatype of a Present_Value by object type.\<close>

definition present_tag :: "u16 \<Rightarrow> u8" where
  "present_tag t = (if t = 0 \<or> t = 1 \<or> t = 2 then TagReal else if t = 3 \<or> t = 4 \<or> t = 5 then TagEnumerated else TagUnsigned)"

lemma normalizePresentValue_value:
  assumes "normalizePresentValue t v = Inr (tag, x)"
  shows "tag = present_tag t" "x \<noteq> VNil" "present_tag t \<noteq> TagReal \<Longrightarrow> \<exists>n. x = VUint32 n"
    "present_tag t = TagUnsigned \<Longrightarrow> x \<noteq> VUint32 0"
  using assms
  by (auto simp: normalizePresentValue_def normalize_analog_def normalize_binary_def normalize_multistate_def present_tag_def
      bind_res_eq_Inr split: if_splits option.splits)

lemma present_tag_nonzero [simp]: "present_tag t \<noteq> 0"
  by (simp add: present_tag_def)

lemma wrap_error_Inr [simp]: "wrap_error t r = Inr x \<longleftrightarrow> r = Inr x"
  by (auto simp: wrap_error_def split: sum.splits go_error.splits)

lemma multistate_tag: "isMultiStateObjectType t \<Longrightarrow> present_tag t = TagUnsigned"
  by (auto simp: isMultiStateObjectType_def present_tag_def)

lemma as_uint32_Inr [simp]: "as_uint32 v = Inr n \<longleftrightarrow> v = VUint32 n"
  by (cases v) (auto simp: as_uint32_def)

text \<open>What validation establishes of the values of an object.\<close>

lemma object_values_range:
  assumes "object_values oid spec = Inr ()" "isMultiStateObjectType (id_Type oid)"
  shows "\<exists>n. normalizePresentValue (id_Type oid) (os_PresentValue spec) = Inr (TagUnsigned, VUint32 n) \<and> 1 \<le> n \<and> n \<le> os_NumberOfStates spec"
    "os_Commandable spec \<Longrightarrow> os_RelinquishDefault spec \<noteq> VNil \<Longrightarrow>
       \<exists>n. normalizePresentValue (id_Type oid) (os_RelinquishDefault spec) = Inr (TagUnsigned, VUint32 n) \<and> 1 \<le> n \<and> n \<le> os_NumberOfStates spec"
    "os_NumberOfStates spec \<noteq> 0"
proof -
  from assms have v: "validateObjectSpecValues (id_Type oid) spec = Inr ()"
    by (auto simp: object_values_def split: if_splits)
  have t: "present_tag (id_Type oid) = TagUnsigned" by (rule multistate_tag [OF assms(2)])
  have one: "1 \<le> n" if "normalizePresentValue (id_Type oid) v = Inr (tag, VUint32 n)" for v tag n
    using normalizePresentValue_value(4) [OF that t] by (auto simp: word_le_nat_alt Suc_le_eq unat_gt_0)
  from v assms(2) show "os_NumberOfStates spec \<noteq> 0" by (auto simp: validateObjectSpecValues_def bind_res_eq_Inr split: if_splits)
  from v assms(2) obtain tag n where n: "normalizePresentValue (id_Type oid) (os_PresentValue spec) = Inr (tag, VUint32 n)" "n \<le> os_NumberOfStates spec"
    by (auto simp: validateObjectSpecValues_def bind_res_eq_Inr not_less split: if_splits)
  with normalizePresentValue_value(1) [OF n(1)] t one [OF n(1)]
  show "\<exists>n. normalizePresentValue (id_Type oid) (os_PresentValue spec) = Inr (TagUnsigned, VUint32 n) \<and> 1 \<le> n \<and> n \<le> os_NumberOfStates spec" by auto
  show "\<exists>n. normalizePresentValue (id_Type oid) (os_RelinquishDefault spec) = Inr (TagUnsigned, VUint32 n) \<and> 1 \<le> n \<and> n \<le> os_NumberOfStates spec"
    if "os_Commandable spec" "os_RelinquishDefault spec \<noteq> VNil"
  proof -
    from v assms(2) that obtain tag m where m: "normalizePresentValue (id_Type oid) (os_RelinquishDefault spec) = Inr (tag, VUint32 m)" "m \<le> os_NumberOfStates spec"
      by (auto simp: validateObjectSpecValues_def bind_res_eq_Inr not_less split: if_splits)
    with normalizePresentValue_value(1) [OF m(1)] t one [OF m(1)] show ?thesis by auto
  qed
qed

text \<open>The Present_Value of an object of a given type, over all of its life.\<close>

definition present_ok :: "u16 \<Rightarrow> u32 \<Rightarrow> SimProperty \<Rightarrow> bool" where
  "present_ok t states p \<longleftrightarrow> sp_Scalar p \<and> sp_ExpectedTag p = present_tag t
     \<and> (if isMultiStateObjectType t then sp_MinimumUnsigned p = 1 \<and> sp_MaximumUnsigned p = states \<and> states \<noteq> 0
        else sp_MaximumUnsigned p = 0)"

lemma admissible_present:
  assumes "present_ok t states p" "normalizePresentValue t v = Inr (tag, x)"
    and "isMultiStateObjectType t \<Longrightarrow> \<exists>n. x = VUint32 n \<and> 1 \<le> n \<and> n \<le> states"
  shows "admissible p \<lparr>v_Tag = tag, v_Value = Any x\<rparr>"
  using assms(1,3) normalizePresentValue_value [OF assms(2)]
  by (auto simp: admissible_def present_ok_def is_null_def split: if_splits)

lemma present_value_ok:
  assumes v: "object_values oid spec = Inr ()" and p: "present_value (id_Type oid) spec = Inr p"
  shows "present_ok (id_Type oid) (os_NumberOfStates spec) p \<and> property_inv p"
proof -
  let ?t = "id_Type oid" let ?n = "os_NumberOfStates spec"
  obtain tag x where x: "normalizePresentValue ?t (os_PresentValue spec) = Inr (tag, x)"
    using p by (auto simp: present_value_def bind_res_eq_Inr)
  define q where "q = (let q = (scalarProperty PropertyPresentValue tag (Any x) (os_Writable spec))\<lparr>sp_COVIncrement := os_COVIncrement spec\<rparr>
      in if isMultiStateObjectType ?t then q\<lparr>sp_MinimumUnsigned := 1, sp_MaximumUnsigned := ?n\<rparr> else q)"
  note range = object_values_range [OF v]
  have q: "present_ok ?t ?n q" "sp_Values q = [\<lparr>v_Tag = tag, v_Value = Any x\<rparr>]" "sp_RelinquishDefault q = None"
    "sp_priorities q = replicate 16 None"
    using range(3) normalizePresentValue_value(1) [OF x]
    by (auto simp: q_def Let_def present_ok_def scalarProperty_def SimProperty_zero_def)
  have upd: "present_ok ?t ?n (q\<lparr>sp_RelinquishDefault := r, sp_priorities := ps\<rparr>)"
      "admissible (q\<lparr>sp_RelinquishDefault := r, sp_priorities := ps\<rparr>) w = admissible q w" for r ps w
    using q(1) by (auto simp: present_ok_def admissible_def)
  have ax: "admissible q \<lparr>v_Tag = tag, v_Value = Any x\<rparr>" using range(1) by (intro admissible_present [OF q(1) x]) (auto simp: x)
  show ?thesis
  proof (cases "os_Commandable spec")
    case False
    then have "p = q" using p x by (auto simp: present_value_def q_def Let_def)
    with q ax show ?thesis by (auto simp: property_inv_def)
  next
    case True
    then obtain dtag dx where d: "normalizePresentValue ?t (os_RelinquishDefault spec) = Inr (dtag, dx)"
      using p x by (auto simp: present_value_def bind_res_eq_Inr Let_def)
    define def where "def = (if os_RelinquishDefault spec = VNil then \<lparr>v_Tag = tag, v_Value = Any x\<rparr> else \<lparr>v_Tag = dtag, v_Value = Any dx\<rparr>)"
    define k where "k = (if os_InitialPriority spec = 0 then PrioritySlots else os_InitialPriority spec)"
    have ad: "admissible q def"
      using ax range(2) [OF _ True] by (auto simp: def_def d intro!: admissible_present [OF q(1) d])
    have pk: "p = q\<lparr>sp_RelinquishDefault := Some def, sp_priorities := (if os_PresentValue spec = VNil then replicate 16 None
         else (replicate 16 None)[unat (k - 1) := Some \<lparr>v_Tag = tag, v_Value = Any x\<rparr>])\<rparr>"
      using p x d True by (auto simp: present_value_def q_def Let_def def_def k_def scalarProperty_def SimProperty_zero_def split: if_splits)
    have "k \<noteq> 6" using v by (auto simp: object_values_def k_def PrioritySlots_def split: if_splits)
    have k6: "unat (k - 1) \<noteq> 5"
    proof
      assume "unat (k - 1) = 5"
      then have "word_of_nat (unat (k - 1)) = (5 :: u8)" by simp
      then have "k = 5 + 1" by (simp add: diff_eq_eq)
      with \<open>k \<noteq> 6\<close> show False by simp
    qed
    show ?thesis using upd ad ax q k6 by (auto simp: pk property_inv_def nth_list_update dest: set_update_subset_insert [THEN subsetD])
  qed
qed


text \<open>
  Objects as a scenario builds them and as they stay: the Present_Value has the type of the object, and a multi-state
  object has a read-only Number_Of_States that bounds it; the properties that hold lists are read-only, and a device
  object has no Present_Value.
\<close>

definition fixed_list :: "SimProperty \<Rightarrow> bool" where
  "fixed_list p \<longleftrightarrow> sp_Scalar p \<or> (\<not> sp_Writable p \<and> sp_RelinquishDefault p = None \<and> (\<forall>v \<in> set (sp_Values p). v_Value v \<noteq> Any VNil))"

definition object_profile :: "SimObject \<Rightarrow> bool" where
  "object_profile obj \<longleftrightarrow> object_inv obj \<and> (\<forall>pid p. get_property obj pid = Some p \<longrightarrow> fixed_list p)
     \<and> (id_Type (so_ID obj) = 8 \<longrightarrow> get_property obj PropertyPresentValue = None) \<and> (id_Type (so_ID obj) \<noteq> 8 \<longrightarrow>
     (\<exists>p states. get_property obj PropertyPresentValue = Some p \<and> present_ok (id_Type (so_ID obj)) states p
        \<and> (isMultiStateObjectType (id_Type (so_ID obj)) \<longrightarrow>
             get_property obj PropertyNumberOfStates = Some (scalarProperty PropertyNumberOfStates TagUnsigned (Any (VUint32 states)) False))))"

definition objects_ok :: "(ObjectID \<times> SimObject) list \<Rightarrow> bool" where
  "objects_ok objs \<longleftrightarrow> distinct (map fst objs) \<and> (\<forall>oid obj. map_of objs oid = Some obj \<longrightarrow> so_ID obj = oid \<and> object_profile obj)"

definition device_profile :: "SimDevice \<Rightarrow> bool" where
  "device_profile d \<longleftrightarrow> objects_ok (sd_Objects d)"

lemma device_profile_inv: "device_profile d \<Longrightarrow> device_inv d"
  by (simp add: device_profile_def objects_ok_def device_inv_def object_profile_def)

lemma objects_ok_update: "objects_ok objs \<Longrightarrow> object_profile obj \<Longrightarrow> so_ID obj = oid \<Longrightarrow> objects_ok (AList.update oid obj objs)"
  by (simp add: objects_ok_def distinct_update update_conv' del: map_of_eq_Some_iff)

lemma objects_ok_fold:
  "objects_ok objs \<Longrightarrow> (\<And>obj. obj \<in> set xs \<Longrightarrow> object_profile obj) \<Longrightarrow> objects_ok (fold (\<lambda>obj. AList.update (so_ID obj) obj) xs objs)"
  by (induction xs arbitrary: objs) (auto intro: objects_ok_update)

lemma fixed_list_scalar [simp]: "fixed_list (scalarProperty pid tag v w)"
  by (simp add: fixed_list_def scalarProperty_def)

lemma fixed_list_common:
  "(\<And>pid p. get_property obj pid = Some p \<Longrightarrow> fixed_list p) \<Longrightarrow> get_property (addCommonProperties name description obj) pid = Some p \<Longrightarrow> fixed_list p"
  by (auto simp: addCommonProperties_def Let_def add_scalar_def split: if_splits)

lemma get_common_none:
  "get_property obj pid = None \<Longrightarrow> pid \<notin> {PropertyObjectIdentifier, PropertyObjectName, PropertyObjectType, PropertyDescription}
    \<Longrightarrow> get_property (addCommonProperties name description obj) pid = None"
  by (simp add: addCommonProperties_def Let_def add_scalar_def)

lemma object_inv_empty: "object_inv \<lparr>so_ID = i, so_Name = n, so_Properties = [], so_OutOfService = b\<rparr>"
  by (simp add: object_inv_def)

lemma add_scalar_sel [simp]:
  "so_ID (add_scalar pid tag v obj) = so_ID obj"
  "get_property (add_scalar pid tag v obj) pid' = (if pid' = pid then Some (scalarProperty pid tag v False) else get_property obj pid')"
  by (simp_all add: add_scalar_def)

lemma object_inv_add_scalar:
  "object_inv obj \<Longrightarrow> tag \<noteq> 0 \<Longrightarrow> v \<noteq> Any VNil \<Longrightarrow> object_inv (add_scalar pid tag v obj)"
  by (simp add: add_scalar_def object_inv_set_property property_inv_scalar is_null_def)

lemma object_inv_common: "object_inv obj \<Longrightarrow> object_inv (addCommonProperties name description obj)"
  by (simp add: addCommonProperties_def Let_def object_inv_add_scalar)

lemma so_ID_common [simp]: "so_ID (addCommonProperties name description obj) = so_ID obj"
  by (simp add: addCommonProperties_def Let_def)

lemma objectTypeNumber_range:
  assumes "objectTypeNumber name = Inr t"
  shows "t \<noteq> 8"
proof -
  from assms have "t \<in> snd ` set object_type_names"
    by (auto simp: objectTypeNumber_def Let_def split: option.splits dest!: map_of_SomeD) force
  then show ?thesis by (auto simp: object_type_names_def)
qed

lemma buildObject_profile:
  assumes "buildObject spec = Inr obj" "objectTypeNumber (os_Type spec) = Inr (id_Type oid)" "id_Instance oid = os_Instance spec"
    and "object_values oid spec = Inr ()"
  shows "object_profile obj \<and> so_ID obj = oid"
proof -
  obtain t where oid: "oid = \<lparr>id_Type = t, id_Instance = os_Instance spec\<rparr>" using assms(3) by (cases oid) simp
  obtain p where p: "present_value (id_Type oid) spec = Inr p" and obj: "obj =
     (let obj = set_property PropertyPresentValue p (addCommonProperties (os_Name spec) (os_Description spec)
             \<lparr>so_ID = oid, so_Name = os_Name spec, so_Properties = [], so_OutOfService = os_OutOfService spec\<rparr>);
          obj = (if os_Units spec \<noteq> 0 then add_scalar PropertyUnits TagEnumerated (Any (VUint32 (os_Units spec))) obj else obj)
      in if os_NumberOfStates spec \<noteq> 0
         then add_scalar PropertyNumberOfStates TagUnsigned (Any (VUint32 (os_NumberOfStates spec))) obj else obj)"
    using assms(1) by (auto simp: buildObject_def assms(2) bind_res_eq_Inr Let_def oid)
  note pv = present_value_ok [OF assms(4) p]
  have "os_NumberOfStates spec \<noteq> 0" if "isMultiStateObjectType (id_Type oid)" using pv that by (simp add: present_ok_def)
  moreover have "fixed_list p" using pv by (simp add: fixed_list_def present_ok_def)
  then have "fixed_list q" if "get_property obj pid = Some q" for pid q
    using that fixed_list_common [of "\<lparr>so_ID = oid, so_Name = os_Name spec, so_Properties = [], so_OutOfService = os_OutOfService spec\<rparr>"]
    by (auto simp: obj Let_def split: if_splits)
  moreover have "id_Type oid \<noteq> 8" using objectTypeNumber_range [OF assms(2)] by simp
  moreover have "object_inv obj" "so_ID obj = oid" using pv
    by (auto simp: obj Let_def intro!: object_inv_add_scalar object_inv_set_property object_inv_common object_inv_empty)
  moreover have "get_property obj PropertyPresentValue = Some p"
    "isMultiStateObjectType (id_Type oid) \<Longrightarrow> get_property obj PropertyNumberOfStates =
       Some (scalarProperty PropertyNumberOfStates TagUnsigned (Any (VUint32 (os_NumberOfStates spec))) False)"
    using calculation(1) by (auto simp: obj Let_def)
  ultimately show ?thesis using pv unfolding object_profile_def by blast
qed

lemma device_object_inv: "object_inv (device_object spec) \<and> so_ID (device_object spec) = \<lparr>id_Type = 8, id_Instance = ds_ID spec\<rparr>
    \<and> get_property (device_object spec) PropertyPresentValue = None \<and> (\<forall>pid p. get_property (device_object spec) pid = Some p \<longrightarrow> fixed_list p)"
  using fixed_list_common [of "\<lparr>so_ID = \<lparr>id_Type = 8, id_Instance = ds_ID spec\<rparr>, so_Name = ds_Name spec, so_Properties = [], so_OutOfService = False\<rparr>"]
  by (auto simp: device_object_def Let_def object_inv_add_scalar object_inv_common object_inv_empty get_common_none split: if_splits)

text \<open>What validation establishes of the objects of a device.\<close>

definition objspec_ok :: "ObjectSpec \<Rightarrow> bool" where
  "objspec_ok spec \<longleftrightarrow> (\<exists>oid. objectTypeNumber (os_Type spec) = Inr (id_Type oid) \<and> id_Instance oid = os_Instance spec
     \<and> object_values oid spec = Inr ())"

lemma validate_objects_ok: "validate_objects seen specs = (Inr (), specs') \<Longrightarrow> \<forall>spec \<in> set specs'. objspec_ok spec"
proof (induction seen specs arbitrary: specs' rule: validate_objects.induct)
  case (2 seen spec specs)
  from 2(2) obtain oid rest where oid: "object_identity seen spec = Inr oid" and v: "object_values oid (make_writable spec) = Inr ()"
    and r: "validate_objects (oid # seen) specs = (Inr (), rest)" and s': "specs' = make_writable spec # rest"
    by (auto simp: Let_def split: sum.splits prod.splits)
  have "objspec_ok (make_writable spec)" unfolding objspec_ok_def using oid v
    by (intro exI [of _ oid]) (auto simp: object_identity_def bind_res_eq_Inr Let_def make_writable_def split: if_splits)
  with 2(1) [OF oid refl v r] s' show ?case by simp
qed simp

lemma buildDevice_profile:
  assumes "buildDevice spec = Inr d" "\<forall>o1 \<in> set (ds_Objects spec). objspec_ok o1"
  shows "device_profile d \<and> sd_ID d = ds_ID spec"
proof -
  obtain objs where objs: "map_res buildObject (ds_Objects spec) = Inr objs"
    and d: "sd_ID d = ds_ID spec" "sd_Objects d = fold (\<lambda>obj. AList.update (so_ID obj) obj) objs
      [(\<lparr>id_Type = 8, id_Instance = ds_ID spec\<rparr>, set_property PropertyObjectList (SimProperty_zero\<lparr>sp_ID := PropertyObjectList,
         sp_Array := True, sp_Values := map (\<lambda>oid. \<lparr>v_Tag = TagObjectId, v_Value = AnyID oid\<rparr>)
           (\<lparr>id_Type = 8, id_Instance = ds_ID spec\<rparr> # map so_ID objs)\<rparr>) (device_object spec))]"
    using assms(1) by (auto simp: buildDevice_def bind_res_eq_Inr Let_def)
  have "object_profile obj" if "obj \<in> set objs" for obj
  proof -
    from that obtain i where i: "i < length objs" "objs ! i = obj" by (auto simp: in_set_conv_nth)
    then have "buildObject (ds_Objects spec ! i) = Inr obj" "ds_Objects spec ! i \<in> set (ds_Objects spec)"
      using map_res_nth [OF objs] map_res_length [OF objs] by auto
    with assms(2) buildObject_profile show ?thesis by (fastforce simp: objspec_ok_def)
  qed
  moreover have "property_inv (SimProperty_zero\<lparr>sp_ID := pid, sp_Array := True, sp_Values := vs\<rparr>)" for pid vs
    by (simp add: property_inv_def SimProperty_zero_def)
  then have "objects_ok [(\<lparr>id_Type = 8, id_Instance = ds_ID spec\<rparr>, set_property PropertyObjectList
      (SimProperty_zero\<lparr>sp_ID := PropertyObjectList, sp_Array := True, sp_Values := vs\<rparr>) (device_object spec))]"
    if "\<forall>v \<in> set vs. v_Value v \<noteq> Any VNil" for vs
    using that device_object_inv [of spec]
    by (auto simp: objects_ok_def object_profile_def object_inv_set_property fixed_list_def SimProperty_zero_def split: if_splits)
  ultimately show ?thesis by (simp add: device_profile_def d(1) d(2) objects_ok_fold)
qed


lemma validate_devices_ok:
  "validate_devices mode ids endpoints specs = (Inr (), specs') \<Longrightarrow> \<forall>spec \<in> set specs'. \<forall>o1 \<in> set (ds_Objects spec). objspec_ok o1"
proof (induction mode ids endpoints specs arbitrary: specs' rule: validate_devices.induct)
  case (2 mode ids endpoints spec specs)
  from 2(2) obtain eps objs rest where e: "device_identity mode ids endpoints spec = Inr eps"
    and o1: "validate_objects [\<lparr>id_Type = 8, id_Instance = ds_ID spec\<rparr>] (ds_Objects spec) = (Inr (), objs)"
    and r: "validate_devices mode (ds_ID spec # ids) eps specs = (Inr (), rest)" and s': "specs' = spec\<lparr>ds_Objects := objs\<rparr> # rest"
    by (auto simp: Let_def split: sum.splits prod.splits)
  with 2(1) [OF e o1 [symmetric] refl r] validate_objects_ok [OF o1] s' show ?case by auto
qed simp

lemma add_devices_profile:
  assumes "add_devices specs n = Inr n'" "\<forall>spec \<in> set specs. \<forall>o1 \<in> set (ds_Objects spec). objspec_ok o1"
    and "\<And>i d. map_of n i = Some d \<Longrightarrow> device_profile d \<and> sd_ID d = i"
  shows "map_of n' i = Some d \<Longrightarrow> device_profile d \<and> sd_ID d = i"
  using assms
proof (induction specs arbitrary: n)
  case (Cons spec specs)
  from Cons.prems(2) obtain d1 where d1: "buildDevice spec = Inr d1"
    "(case AddDevice (Some d1) n of (Inl e, _) \<Rightarrow> Inl e | (Inr _, n) \<Rightarrow> add_devices specs n) = Inr n'"
    by (auto simp: bind_res_eq_Inr)
  then obtain d0 n0 where d0: "buildDevice spec = Inr d0" "AddDevice (Some d0) n = (Inr (), n0)" "add_devices specs n0 = Inr n'"
    by (cases "AddDevice (Some d1) n") (auto split: sum.splits)
  have p0: "device_profile d0" using buildDevice_profile [OF d0(1)] Cons.prems(3) by simp
  have "map_of n0 = (map_of n)(sd_ID d0 \<mapsto> d0)"
    using d0(2) by (auto simp: AddDevice_def update_conv' split: if_splits)
  then have "device_profile e \<and> sd_ID e = j" if "map_of n0 j = Some e" for j e
    using that p0 Cons.prems(4) by (auto split: if_splits)
  with Cons.IH [OF Cons.prems(1) d0(3)] Cons.prems(3) show ?case by simp
qed simp

lemma BuildNetwork_profile:
  assumes "BuildNetwork s = Inr n" "Network_Device n i = Inr d"
  shows "device_profile d \<and> sd_ID d = i"
proof -
  from assms(1) obtain s' where v: "Scenario_Validate s = (Inr (), s')" and a: "add_devices (sc_Devices s') NewNetwork = Inr n"
    by (auto simp: BuildNetwork_def split: prod.splits sum.splits)
  have "\<forall>spec \<in> set (sc_Devices s'). \<forall>o1 \<in> set (ds_Objects spec). objspec_ok o1"
    using v validate_devices_ok by (fastforce simp: Scenario_Validate_def Let_def split: if_splits prod.splits)
  from add_devices_profile [OF a this] assms(2) show ?thesis
    by (simp add: NewNetwork_def Network_Device_def split: option.splits)
qed


section \<open>The profile over the life of a device\<close>

lemma present_ok_configuration: "configuration p' = configuration p \<Longrightarrow> present_ok t n p' = present_ok t n p"
proof -
  assume c: "configuration p' = configuration p"
  have "sp_Scalar p' = sp_Scalar p" "sp_ExpectedTag p' = sp_ExpectedTag p" "sp_MinimumUnsigned p' = sp_MinimumUnsigned p"
    "sp_MaximumUnsigned p' = sp_MaximumUnsigned p"
    using arg_cong [OF c, of sp_Scalar] arg_cong [OF c, of sp_ExpectedTag] arg_cong [OF c, of sp_MinimumUnsigned]
      arg_cong [OF c, of sp_MaximumUnsigned] by (simp_all add: configuration_def)
  then show ?thesis by (simp add: present_ok_def)
qed

lemma Object_WriteProperty_profile:
  assumes "object_profile obj" "Object_WriteProperty obj pid values priority = Inr obj'"
  shows "object_profile obj' \<and> so_ID obj' = so_ID obj"
proof -
  have inv: "object_inv obj" using assms(1) by (simp add: object_profile_def)
  note keep = Object_WriteProperty_inv [OF inv assms(2)]
  show ?thesis
  proof (cases "get_property obj pid")
    case None
    then have "get_property obj' = get_property obj"
      using assms(2) by (auto simp: Object_WriteProperty_synthesized [OF None] bind_res_eq_Inr)
    with assms(1) keep show ?thesis by (simp add: object_profile_def)
  next
    case (Some p)
    obtain k p' where w: "validateWriteAllowingReadOnly p values priority (write_allowed obj pid p) = Inr k"
      and p': "apply_write p values k = Inr p'" and obj': "obj' = set_property pid p' obj"
      using assms(2) by (auto simp: Object_WriteProperty_stored [OF Some] bind_res_eq_Inr)
    have wa: "write_allowed obj pid p" using w by (auto simp: validateWriteAllowingReadOnly_def split: if_splits)
    then have "sp_Scalar p" using assms(1) Some
      by (cases "id_Type (so_ID obj) = 8") (fastforce simp: object_profile_def fixed_list_def write_allowed_def bypasses_writable_def present_ok_def)+
    then have "fixed_list p'" using p' by (auto simp: apply_write_def fixed_list_def split: if_splits)
    moreover from wa have "pid = PropertyNumberOfStates \<Longrightarrow> sp_Writable p" by (auto simp: write_allowed_def bypasses_writable_def)
    ultimately show ?thesis
      using assms(1) keep Some present_ok_configuration [OF apply_write_configuration [OF p']]
      by (auto simp: object_profile_def obj' scalarProperty_def SimProperty_zero_def)
  qed
qed

lemma device_profile_object:
  "device_profile d \<Longrightarrow> map_of (sd_Objects d) oid = Some obj \<Longrightarrow> object_profile obj"
  "device_profile d \<Longrightarrow> map_of (sd_Objects d) oid = Some obj \<Longrightarrow> so_ID obj = oid"
  by (auto simp: device_profile_def objects_ok_def)

lemma device_profile_set_object:
  "device_profile d \<Longrightarrow> object_profile obj \<Longrightarrow> so_ID obj = oid \<Longrightarrow> device_profile (set_object oid obj d)"
  by (simp add: device_profile_def set_object_def objects_ok_update)

lemma device_profile_WriteProperty:
  assumes "device_profile d"
  shows "device_profile (snd (Device_WriteProperty d oid pid values priority))"
proof (cases "map_of (sd_Objects d) oid")
  case (Some obj)
  note obj = device_profile_object [OF assms Some]
  show ?thesis using assms obj
    by (auto simp: Device_WriteProperty_def Some split: sum.splits dest!: Object_WriteProperty_profile [OF obj(1)]
        intro: device_profile_set_object)
qed (simp add: Device_WriteProperty_def assms)

lemma device_profile_SetLocalTime:
  assumes "device_profile d"
  shows "device_profile (SetLocalTime date clock d)"
proof (cases "map_of (sd_Objects d) \<lparr>id_Type = 8, id_Instance = sd_ID d\<rparr>")
  case (Some obj)
  note obj = device_profile_object [OF assms Some]
  have "object_profile (set_property PropertyLocalTime (scalarProperty PropertyLocalTime TagTime (Any (VTime clock)) False)
      (set_property PropertyLocalDate (scalarProperty PropertyLocalDate TagDate (Any (VDate date)) False) obj))"
    using obj by (simp add: object_profile_def object_inv_set_property property_inv_scalar is_null_def)
  then show ?thesis using assms obj by (simp add: SetLocalTime_def Some device_profile_set_object)
qed (simp add: SetLocalTime_def assms)

lemma device_profile_present:
  assumes "device_profile d" "map_of (sd_Objects d) oid = Some obj" "id_Type oid \<noteq> 8"
  shows "\<exists>v. Device_ReadProperty d oid PropertyPresentValue None = Inr [v] \<and> v_Tag v = present_tag (id_Type oid) \<and> v_Value v \<noteq> Any VNil
    \<and> (isMultiStateObjectType (id_Type oid) \<longrightarrow> (\<exists>n states. v_Value v = Any (VUint32 n) \<and> 1 \<le> n \<and> n \<le> states
         \<and> Device_ReadProperty d oid PropertyNumberOfStates None = Inr [\<lparr>v_Tag = TagUnsigned, v_Value = Any (VUint32 states)\<rparr>]))"
proof -
  note obj = device_profile_object [OF assms(1,2)]
  obtain p states where p: "get_property obj PropertyPresentValue = Some p" "present_ok (id_Type oid) states p" "property_inv p"
    and s: "isMultiStateObjectType (id_Type oid) \<Longrightarrow>
      get_property obj PropertyNumberOfStates = Some (scalarProperty PropertyNumberOfStates TagUnsigned (Any (VUint32 states)) False)"
    using obj assms(3) by (auto simp: object_profile_def object_inv_def)
  obtain v where v: "effectiveValues p = [v]" "admissible p v"
    using effective_admissible [OF p(3)] p(2) by (auto simp: present_ok_def)
  have "Device_ReadProperty d oid PropertyPresentValue None = Inr [v]"
    by (simp add: Device_ReadProperty_def assms(2) p(1) SimProperty_Read_def v(1))
  moreover have "Device_ReadProperty d oid PropertyNumberOfStates None = Inr [\<lparr>v_Tag = TagUnsigned, v_Value = Any (VUint32 states)\<rparr>]"
    if "isMultiStateObjectType (id_Type oid)"
    by (simp add: Device_ReadProperty_def assms(2) s [OF that] SimProperty_Read_def effectiveValues_def scalarProperty_def SimProperty_zero_def)
  ultimately show ?thesis using v(2) p(2) by (auto simp: admissible_def present_ok_def is_null_def)
qed

end
