(* ===== verification/Sim_System.thy ===== *)
theory Sim_System
  imports Sim_Application Sim_Scenario Safety
begin

text \<open>
  The simulator as it runs: a device built from a scenario, behind the responder, with the handlers of
  the application.  The handlers satisfy the responder's contract for an invariant of the application's state, so
  that the invariant holds after any traffic.
\<close>

section \<open>Decoders and encoders do not panic\<close>

lemma safe_tag_decoders [simp]:
  "safe (decodeContext data number)" "safe (decodeContextUnsigned data number)" "safe (isConstructedTag data number b)"
  "safe (decodeConstructedTag data number b)"
  by (auto simp: decodeContext_def decodeContextUnsigned_def isConstructedTag_def decodeConstructedTag_def Let_def
      intro!: safe_intros split: sum.splits prod.splits)

lemma safe_access_object [simp]: "safe (access_object t data)"
  by (auto simp: access_object_def intro!: safe_intros split: sum.splits)

lemma safe_rpm_references [simp]: "safe (rpm_references data refs)"
proof (induction data refs rule: rpm_references.induct)
  case (1 data refs)
  then show ?case by (subst rpm_references.simps) (auto intro!: safe_intros split: sum.splits)
qed

lemma safe_rpm_specs [simp]: "safe (rpm_specs data specs)"
proof (induction data specs rule: rpm_specs.induct)
  case (1 data specs)
  then show ?case by (subst rpm_specs.simps) (auto intro!: safe_intros split: sum.splits dest!: safe_InlD [OF safe_access_object] safe_InlD [OF safe_rpm_references])
qed

lemma safe_wpm_value [simp]: "safe (wpm_value data)"
  by (auto simp: wpm_value_def fromPropertyValue_def Let_def intro!: safe_intros)

lemma safe_wpm_values [simp]: "safe (wpm_values data vs)"
proof (induction data vs rule: wpm_values.induct)
  case (1 data vs)
  then show ?case by (subst wpm_values.simps) (auto intro!: safe_intros split: sum.splits dest!: safe_InlD [OF safe_wpm_value])
qed

lemma safe_wpm_write [simp]: "safe (wpm_write data)"
  by (auto simp: wpm_write_def errWritePriorityOutOfRange_def Let_def intro!: safe_intros split: sum.splits)

lemma safe_wpm_writes [simp]: "safe (wpm_writes data vs)"
proof (induction data vs rule: wpm_writes.induct)
  case (1 data vs)
  then show ?case by (subst wpm_writes.simps) (auto intro!: safe_intros split: sum.splits dest!: safe_InlD [OF safe_wpm_write])
qed

lemma safe_wpm_specs [simp]: "safe (wpm_specs data specs)"
proof (induction data specs rule: wpm_specs.induct)
  case (1 data specs)
  then show ?case by (subst wpm_specs.simps) (auto intro!: safe_intros split: sum.splits dest!: safe_InlD [OF safe_access_object] safe_InlD [OF safe_wpm_writes])
qed

lemma safe_service_decoders [simp]:
  "safe (decodeReadProperty data)" "safe (decodeWhoIs data)" "safe (decodeWhoHas data)" "safe (decodeTimeSync data)"
  "safe (decodeReadPropertyMultiple data)" "safe (decodeWritePropertyMultiple data)"
  by (auto simp: decodeReadProperty_def decodeWhoIs_def decodeWhoHas_def decodeTimeSync_def decodeReadPropertyMultiple_def
      decodeWritePropertyMultiple_def intro!: safe_intros split: sum.splits)

lemma safe_decodeWriteProperty [simp]: "safe (decodeWriteProperty data)"
  by (auto simp: decodeWriteProperty_def fromPropertyValue_def errWritePriorityOutOfRange_def intro!: safe_intros split: sum.splits)

lemma safe_decodeSubscribeCOV [simp]: "safe (decodeSubscribeCOV data)"
  by (auto simp: decodeSubscribeCOV_def Let_def intro!: safe_intros split: sum.splits)

text \<open>A value that is missing is a NULL, so that it encodes.\<close>

definition value_ok :: "SimValue \<Rightarrow> bool" where
  "value_ok v \<longleftrightarrow> (v_Value v = Any VNil \<longrightarrow> v_Tag v = TagNull)"

lemma safe_toBACnetObjectID [simp]: "safe (toBACnetObjectID x)"
  by (simp add: toBACnetObjectID_def SetInstanceNumber_def)

lemma safe_toPropertyValue [simp]: "safe (toPropertyValue v)"
  by (auto simp: toPropertyValue_def intro!: safe_intros split: sim_any.splits go_value.splits)

lemma toPropertyValue_encodable: "toPropertyValue v = Inr p \<Longrightarrow> value_ok v \<Longrightarrow> encodable p"
  by (auto simp: toPropertyValue_def bind_res_eq_Inr value_ok_def encodable_def split: sim_any.splits go_value.splits if_splits)

lemma safe_encode_values: "(\<And>v. v \<in> set vs \<Longrightarrow> value_ok v) \<Longrightarrow> safe (encode_values vs)"
  by (auto simp: encode_values_def encode_value_def intro!: safe_intros safe_PropertyValue_MarshalBinary toPropertyValue_encodable)

lemma safe_encodeIAm [simp]: "safe (encodeIAm (Some d))"
  by (auto simp: encodeIAm_def value_ok_def intro!: safe_encode_values)

lemma safe_encodeIHave [simp]: "safe (encodeIHave (Some d) (Some obj))"
  by (auto simp: encodeIHave_def IHave_MarshalBinary_def encodable_def SetInstanceNumber_def intro!: safe_intros safe_PropertyValue_MarshalBinary)

lemma safe_marshal_values: "(\<And>v. Some v \<in> set vs \<Longrightarrow> encodable v) \<Longrightarrow> safe (marshal_values vs)"
  by (induction vs rule: marshal_values.induct) (auto intro!: safe_intros safe_PropertyValue_MarshalBinary)

lemma safe_encodeReadPropertyResult:
  assumes "\<And>v. v \<in> set vs \<Longrightarrow> value_ok v"
  shows "safe (encodeReadPropertyResult obj reference vs)"
proof -
  have "encodable p" if "map_res toPropertyValue vs = Inr ps" "p \<in> set ps" for ps p
  proof -
    from that obtain i where i: "i < length ps" "ps ! i = p" by (auto simp: in_set_conv_nth)
    then have "toPropertyValue (vs ! i) = Inr p" "vs ! i \<in> set vs"
      using map_res_nth [OF that(1)] map_res_length [OF that(1)] by auto
    with assms toPropertyValue_encodable show ?thesis by blast
  qed
  then show ?thesis
    by (auto simp: encodeReadPropertyResult_def Property_MarshalBinary_def Property_zero_def Let_def intro!: safe_intros safe_marshal_values)
qed

lemma safe_encode_sim_result: "(\<And>v. v \<in> set (re_Values r) \<Longrightarrow> value_ok v) \<Longrightarrow> safe (encode_sim_result r)"
  by (auto simp: encode_sim_result_def Sim_Services.enumerated_value_def encodable_def Let_def
      intro!: safe_intros safe_encode_values safe_PropertyValue_MarshalBinary)

lemma safe_encodeReadPropertyMultipleResult:
  "(\<And>access r v. access \<in> set results \<Longrightarrow> r \<in> set (ra_Results access) \<Longrightarrow> v \<in> set (re_Values r) \<Longrightarrow> value_ok v)
    \<Longrightarrow> safe (encodeReadPropertyMultipleResult results)"
  by (auto simp: encodeReadPropertyMultipleResult_def encode_sim_access_def intro!: safe_intros safe_encode_sim_result)

lemma safe_encodeCOVNotification:
  "(\<And>r v. r \<in> set ps \<Longrightarrow> v \<in> set (re_Values r) \<Longrightarrow> value_ok v) \<Longrightarrow> safe (encodeCOVNotification pid did obj t ps)"
  by (auto simp: encodeCOVNotification_def encode_cov_property_def intro!: safe_intros safe_encode_values)

lemma safe_writePropertyMultipleError [simp]: "safe (writePropertyMultipleError class code obj pid i)"
  by (auto simp: writePropertyMultipleError_def WritePropertyMultipleError_MarshalBinary_def enumerated_def encodable_def
      intro!: safe_intros safe_PropertyValue_MarshalBinary)

section \<open>Reading a device\<close>

definition non_nil :: "SimValue list \<Rightarrow> bool" where
  "non_nil vs \<longleftrightarrow> (\<forall>v \<in> set vs. v_Value v \<noteq> Any VNil)"

lemma admissible_non_nil: "admissible p v \<Longrightarrow> v_Value v \<noteq> Any VNil"
  by (simp add: admissible_def is_null_def)

lemma effective_non_nil:
  assumes "property_inv p" "fixed_list p"
  shows "non_nil (effectiveValues p)"
proof (cases "sp_Scalar p")
  case True
  with effective_admissible [OF assms(1)] show ?thesis by (auto simp: non_nil_def dest: admissible_non_nil)
next
  case False
  with assms(2) show ?thesis by (simp add: fixed_list_def non_nil_def effectiveValues_def)
qed

lemma read_values:
  assumes "SimProperty_Read p i = Inr vs" "v \<in> set vs"
  shows "v \<in> set (effectiveValues p) \<or> (\<exists>n. v = \<lparr>v_Tag = 2, v_Value = Any (VUint32 n)\<rparr>)"
proof (cases i)
  case (Some k)
  have "k \<noteq> 0 \<Longrightarrow> \<not> k > word_of_nat n \<Longrightarrow> unat (k - 1) < n" for n
  proof -
    assume k: "k \<noteq> 0" "\<not> k > word_of_nat n"
    then have "unat k \<le> unat (word_of_nat n :: u32)" by (simp add: word_le_nat_alt not_less)
    also have "\<dots> \<le> n" by (simp add: unsigned_of_nat)
    finally show "unat (k - 1) < n" using k by (simp add: unat_minus_one) (metis Suc_le_lessD Suc_pred unat_gt_0)
  qed
  with assms Some show ?thesis by (auto simp: SimProperty_Read_def Let_def split: if_splits)
qed (use assms in \<open>simp add: SimProperty_Read_def\<close>)

lemma present_values:
  assumes "object_profile obj" "get_property obj PropertyPresentValue = Some p" "sp_RelinquishDefault p = Some d"
  shows "v_Value d \<noteq> Any VNil" "Some v \<in> set (sp_priorities p) \<Longrightarrow> v_Value v \<noteq> Any VNil"
proof -
  have "property_inv p" "sp_Scalar p"
    using assms(1,2) by (cases "id_Type (so_ID obj) = 8"; auto simp: object_profile_def object_inv_def present_ok_def)+
  with assms(3) show "v_Value d \<noteq> Any VNil" "Some v \<in> set (sp_priorities p) \<Longrightarrow> v_Value v \<noteq> Any VNil"
    by (auto simp: property_inv_def dest: admissible_non_nil)
qed

lemma read_value_ok:
  assumes "device_profile d" "Device_ReadProperty d oid pid i = Inr vs" "v \<in> set vs"
  shows "value_ok v"
proof -
  obtain obj where obj: "map_of (sd_Objects d) oid = Some obj" using assms(2) by (auto simp: Device_ReadProperty_def split: option.splits)
  note prof = device_profile_object(1) [OF assms(1) obj]
  obtain p where p: "SimProperty_Read p i = Inr vs" "get_property obj pid = Some p \<or> synthesizedProperty obj pid = Some p"
    using assms(2) by (auto simp: Device_ReadProperty_def obj split: option.splits)
  have "value_ok w" if "w \<in> set (effectiveValues p)" for w
  proof (cases "get_property obj pid = Some p")
    case True
    then have "property_inv p" "fixed_list p" using prof by (auto simp: object_profile_def object_inv_def)
    with effective_non_nil that show ?thesis by (auto simp: non_nil_def value_ok_def)
  next
    case False
    with p have s: "synthesizedProperty obj pid = Some p" by simp
    from s that present_values [OF prof] show ?thesis
      by (auto simp: synthesizedProperty_def status_property_def priorityArrayProperty_def relinquishDefaultProperty_def
          statusFlagsProperty_def eventStateProperty_def reliabilityProperty_def outOfServiceProperty_def effectiveValues_def
          SimProperty_zero_def value_ok_def split: option.splits if_splits)
  qed
  with read_values [OF p(1) assms(3)] show ?thesis by (auto simp: value_ok_def)
qed

lemma read_present_non_nil:
  assumes "device_profile d" "Device_ReadProperty d oid PropertyPresentValue None = Inr vs"
  shows "non_nil vs"
proof -
  obtain obj where obj: "map_of (sd_Objects d) oid = Some obj" using assms(2) by (auto simp: Device_ReadProperty_def split: option.splits)
  note prof = device_profile_object [OF assms(1) obj]
  have "id_Type oid \<noteq> 8"
  proof
    assume t: "id_Type oid = 8"
    with prof have "get_property obj PropertyPresentValue = None" by (simp add: object_profile_def)
    with assms(2) show False by (auto simp: Device_ReadProperty_def obj synthesizedProperty_def status_property_def split: if_splits)
  qed
  from device_profile_present [OF assms(1) obj this] assms(2) show ?thesis by (auto simp: non_nil_def)
qed

lemma safe_ReadProperty [simp]: "safe (Device_ReadProperty d oid pid i)"
  by (auto simp: Device_ReadProperty_def SimProperty_Read_def model_errors Let_def intro!: safe_intros)

lemma safe_WriteProperty: "device_profile d \<Longrightarrow> safe (fst (Device_WriteProperty d oid pid values priority))"
  using ValidateWrite_not_Panic WriteProperty_ValidateWrite [OF device_profile_inv] by (simp add: safe_def)

lemma values_ok_of_non_nil: "non_nil vs \<Longrightarrow> v \<in> set vs \<Longrightarrow> value_ok v"
  by (simp add: non_nil_def value_ok_def)

section \<open>The application's invariant\<close>

definition values_kept :: "'c SubscriptionRegistry \<Rightarrow> bool" where
  "values_kept r \<longleftrightarrow> (\<forall>(key, s) \<in> set (sr_items r). non_nil (su_LastValue s))"

definition object_ids :: "SimDevice \<Rightarrow> ObjectID set" where
  "object_ids d = dom (map_of (sd_Objects d))"

text \<open>The device has the objects \<open>ids\<close>, well-formed as the scenario built them, and a subscription holds a value.\<close>

definition application_inv :: "ObjectID set \<Rightarrow> 'c Application \<Rightarrow> bool" where
  "application_inv ids a \<longleftrightarrow> device_profile (ap_Device a) \<and> object_ids (ap_Device a) = ids \<and> values_kept (ap_Subscriptions a)"

lemma object_ids_WriteProperty [simp]: "object_ids (snd (Device_WriteProperty d oid pid vs k)) = object_ids d"
  by (auto simp: object_ids_def Device_WriteProperty_def split: option.splits sum.splits if_splits)

lemma object_ids_SetLocalTime [simp]: "object_ids (SetLocalTime date t d) = object_ids d"
  by (auto simp: object_ids_def SetLocalTime_def Let_def split: option.splits if_splits)

lemma values_kept_update: "values_kept r \<Longrightarrow> non_nil (su_LastValue s) \<Longrightarrow> values_kept (r\<lparr>sr_items := AList.update key s (sr_items r)\<rparr>)"
  using set_AList_update [of key s "sr_items r"] by (auto simp: values_kept_def)

lemma values_kept_clock [simp]: "values_kept (r\<lparr>sr_clock := c\<rparr>) = values_kept r"
  by (simp add: values_kept_def)

lemma values_kept_read_clock [simp]: "values_kept (snd (read_clock now r)) = values_kept r"
  by (simp add: read_clock_eq)

lemma values_kept_removeExpired: "values_kept r \<Longrightarrow> values_kept (removeExpiredLocked now r)"
  by (auto simp: values_kept_def removeExpiredLocked_eq)

lemma values_kept_Subscribe: "values_kept r \<Longrightarrow> non_nil (su_LastValue s) \<Longrightarrow> values_kept (Subscribe now s r)"
  by (auto simp: Subscribe_def values_kept_def Let_def case_prod_unfold read_clock_eq dest!: set_AList_update [THEN subsetD])

lemma values_kept_Cancel: "values_kept r \<Longrightarrow> values_kept (snd (Cancel key r))"
  by (auto simp: values_kept_def Cancel_def AList.delete_eq)

lemma values_kept_UpdateLastValue: "values_kept r \<Longrightarrow> non_nil vs \<Longrightarrow> values_kept (snd (UpdateLastValue now key vs r))"
  by (auto simp: UpdateLastValue_def Let_def values_kept_removeExpired intro!: values_kept_update split: option.splits)

lemma values_kept_Active: "values_kept r \<Longrightarrow> s \<in> set (fst (Active now r)) \<Longrightarrow> non_nil (su_LastValue s)"
  by (auto simp: Active_def Let_def values_kept_def removeExpiredLocked_eq)

lemma activeSubscriptions_inv:
  assumes "activeSubscriptions now a = (active, a')" "application_inv ids a"
  shows "application_inv ids a'" "ap_Device a' = ap_Device a" "s \<in> set active \<Longrightarrow> non_nil (su_LastValue s)"
  using assms values_kept_removeExpired [of "ap_Subscriptions a" now] values_kept_Active [of "ap_Subscriptions a" _ now]
  by (auto simp: activeSubscriptions_def application_inv_def Let_def case_prod_unfold Active_snd)

lemma safe_covChanged:
  assumes "non_nil previous" "non_nil current"
  shows "safe (covChanged d oid previous current)"
proof -
  have t: "pv_Value p \<noteq> VNil" if "toPropertyValue v = Inr p" "v_Value v \<noteq> Any VNil" for v p
    using that by (auto simp: toPropertyValue_def bind_res_eq_Inr split: sim_any.splits go_value.splits if_splits)
  have n: "safe (numeric_change inc x y)" if "v_Value x \<noteq> Any VNil" "v_Value y \<noteq> Any VNil" for inc x y
    using t [OF _ that(1)] t [OF _ that(2)]
    by (auto simp: numeric_change_def IsNumeric_def ReadAsFloat64_def ConvertibleTo_def split: sum.splits)
  have "safe (values_changed inc xs ys)" if "non_nil xs" "non_nil ys" for inc xs ys
    using that by (induction inc xs ys rule: values_changed.induct)
      (auto simp: non_nil_def intro!: safe_intros n split: option.splits)
  with assms show ?thesis by (auto simp: covChanged_def split: sum.splits)
qed

lemma notification_inv:
  assumes "notification now s endpoint vs a = (r, a')" "application_inv ids a" "non_nil vs"
  shows "application_inv ids a'" "ap_Device a' = ap_Device a" "safe r"
proof -
  have e: "safe (encodeCOVNotification pid did obj t [\<lparr>re_Reference = ref, re_Values = vs, re_ErrorClass = 0, re_ErrorCode = 0\<rparr>])"
    for pid did obj t ref
    using assms(3) by (auto intro!: safe_encodeCOVNotification dest: values_ok_of_non_nil)
  show "application_inv ids a'" "ap_Device a' = ap_Device a" "safe r"
    using assms(1,2) safe_InlD [OF e]
    by (auto simp: notification_def application_inv_def nextInvokeID_def read_clock_eq Let_def case_prod_unfold
        split: if_splits sum.splits)
qed

lemma notify_one_inv:
  assumes "notify_one now oid s a = (r, a')" "application_inv ids a" "non_nil (su_LastValue s)"
  shows "application_inv ids a' \<and> ap_Device a' = ap_Device a \<and> safe r"
proof (cases "k_Object (su_Key s) \<noteq> oid")
  case False
  show ?thesis
  proof (cases "Device_ReadProperty (ap_Device a) oid PropertyPresentValue None")
    case (Inr vs)
    have nn: "non_nil vs" using assms(2) Inr by (auto simp: application_inv_def intro: read_present_non_nil)
    note c = safe_covChanged [OF assms(3) nn, of "ap_Device a" oid]
    show ?thesis
    proof (cases "map_of (ap_subscribers a) (su_Key s)")
      case (Some endpoint)
      note n = notification_inv [OF prod.collapse [symmetric] assms(2) nn, of now s endpoint]
      show ?thesis using assms(1,2) False Inr Some c n
        by (auto simp: notify_one_def application_inv_def values_kept_UpdateLastValue nn split: sum.splits if_splits prod.splits go_error.splits)
    qed (use assms False Inr in \<open>auto simp: notify_one_def\<close>)
  qed (use assms False in \<open>auto simp: notify_one_def\<close>)
qed (use assms in \<open>auto simp: notify_one_def\<close>)

lemma notify_loop_inv:
  assumes "application_inv ids a" "\<And>s. s \<in> set ss \<Longrightarrow> non_nil (su_LastValue s)" "notify_loop now oid ss a = (r, a')"
  shows "application_inv ids a' \<and> ap_Device a' = ap_Device a \<and> safe r"
  using assms
proof (induction ss arbitrary: a r a')
  case (Cons s ss)
  obtain r1 a1 where one: "notify_one now oid s a = (r1, a1)" by (cases "notify_one now oid s a")
  note n = notify_one_inv [OF one Cons.prems(1)]
  obtain r2 a2 where rest: "notify_loop now oid ss a1 = (r2, a2)" by (cases "notify_loop now oid ss a1")
  have nn: "non_nil (su_LastValue s)" using Cons.prems(2) by simp
  from n [OF nn] Cons.IH [OF _ _ rest] Cons.prems one rest show ?case by (auto split: sum.splits option.splits)
qed auto

lemma notifications_inv:
  assumes "application_inv ids a" "notifications now oid a = (r, a')"
  shows "application_inv ids a' \<and> ap_Device a' = ap_Device a \<and> safe r"
proof -
  obtain active a1 where act: "activeSubscriptions now a = (active, a1)" by (cases "activeSubscriptions now a")
  note n = activeSubscriptions_inv [OF act assms(1)]
  have l: "notify_loop now oid active a1 = (r, a')" using assms(2) act by (simp add: notifications_def)
  from notify_loop_inv [OF n(1) n(3) l] n(2) show ?thesis by simp
qed

lemma notify_all_inv:
  "application_inv ids a \<Longrightarrow> notify_all now oids a = (r, a') \<Longrightarrow> application_inv ids a' \<and> ap_Device a' = ap_Device a \<and> safe r"
proof (induction oids arbitrary: a r a')
  case (Cons oid oids)
  obtain r1 a1 where one: "notifications now oid a = (r1, a1)" by (cases "notifications now oid a")
  obtain r2 a2 where rest: "notify_all now oids a1 = (r2, a2)" by (cases "notify_all now oids a1")
  from notifications_inv [OF Cons.prems(1) one] Cons.IH [OF _ rest] Cons.prems(2) one rest show ?case
    by (auto split: sum.splits)
qed auto

section \<open>The handlers keep the contract\<close>

definition handler_ok :: "('st \<Rightarrow> bool) \<Rightarrow> 'st Handler \<Rightarrow> bool" where
  "handler_ok P h \<longleftrightarrow> (\<forall>request st. P st \<longrightarrow> P (snd (h request st)) \<and> safe (fst (h request st)))"

lemma safe_catch_res:
  "safe r \<Longrightarrow> (\<And>e. r = Inl (Err e) \<Longrightarrow> safe (h e)) \<Longrightarrow> (\<And>x. r = Inr x \<Longrightarrow> safe (f x)) \<Longrightarrow> safe (catch_res r h f)"
  by (auto simp: catch_res_def split: sum.splits go_error.splits)

lemma handleWhoIs_ok: "handler_ok (application_inv ids) handleWhoIs"
  by (auto simp: handler_ok_def handleWhoIs_def intro!: safe_catch_res safe_intros)

lemma handleWhoHas_ok: "handler_ok (application_inv ids) handleWhoHas"
  by (auto simp: handler_ok_def handleWhoHas_def intro!: safe_catch_res safe_intros)

lemma handleTimeSync_ok: "handler_ok (application_inv ids) handleTimeSync"
  by (auto simp: handler_ok_def handleTimeSync_def application_inv_def device_profile_SetLocalTime
      dest!: safe_InlD [OF safe_service_decoders(4)] split: sum.splits go_error.splits)

lemma handleReadProperty_ok: "handler_ok (application_inv ids) handleReadProperty"
  by (auto simp: handler_ok_def handleReadProperty_def application_inv_def
      intro!: safe_catch_res safe_intros safe_encodeReadPropertyResult dest: read_value_ok)

lemma read_reference_ok:
  assumes "device_profile d"
  shows "safe (read_reference d obj reference)"
    "read_reference d obj reference = Inr r \<Longrightarrow> v \<in> set (re_Values r) \<Longrightarrow> value_ok v"
  using assms by (auto simp: read_reference_def catch_res_def split: sum.splits go_error.splits
      intro!: safe_catch_res dest: read_value_ok dest!: safe_InlD [OF safe_ReadProperty])

lemma map_res_all: "map_res f xs = Inr ys \<Longrightarrow> y \<in> set ys \<Longrightarrow> \<exists>x \<in> set xs. f x = Inr y"
  by (induction xs arbitrary: ys) (auto simp: bind_res_eq_Inr)

lemma read_access_ok:
  assumes "device_profile d" "map_res (\<lambda>spec. bind_res (map_res (read_reference d (rs_Object spec)) (refs spec)) (\<lambda>results.
      Inr \<lparr>ra_Object = rs_Object spec, ra_Results = results\<rparr>)) specs = Inr accesses"
    and "access \<in> set accesses" "r \<in> set (ra_Results access)" "v \<in> set (re_Values r)"
  shows "value_ok v"
proof -
  obtain spec results where "map_res (read_reference d (rs_Object spec)) (refs spec) = Inr results" "ra_Results access = results"
    using map_res_all [OF assms(2,3)] by (auto simp: bind_res_eq_Inr)
  then obtain reference where "read_reference d (rs_Object spec) reference = Inr r" using assms(4) map_res_all by force
  then show ?thesis using read_reference_ok(2) [OF assms(1)] assms(5) by blast
qed

lemma handleReadPropertyMultiple_ok: "handler_ok (application_inv ids) handleReadPropertyMultiple"
  by (auto simp: handler_ok_def handleReadPropertyMultiple_def application_inv_def
      intro!: safe_catch_res safe_intros safe_encodeReadPropertyMultipleResult read_reference_ok(1) intro: read_access_ok)

lemma handleWriteProperty_ok:
  fixes now :: "'c Now"
  shows "handler_ok (application_inv ids) (handleWriteProperty now)"
  unfolding handler_ok_def
proof (intro allI impI)
  fix request and a :: "'c Application"
  assume a: "application_inv ids a"
  show "application_inv ids (snd (handleWriteProperty now request a)) \<and> safe (fst (handleWriteProperty now request a))"
  proof (cases "decodeWriteProperty (payload_of request)")
    case (Inl e)
    then have "e \<noteq> Panic" by (rule safe_InlD [OF safe_decodeWriteProperty])
    with Inl a show ?thesis by (auto simp: handleWriteProperty_def split: go_error.split)
  next
    case (Inr x)
    obtain obj reference vs priority where x: "x = (obj, reference, vs, priority)" by (cases x)
    let ?w = "Device_WriteProperty (ap_Device a) obj (sr_ID reference) vs priority"
    let ?a = "a\<lparr>ap_Device := snd ?w\<rparr>"
    have w: "application_inv ids ?a" "safe (fst ?w)"
      using a by (auto simp: application_inv_def intro: device_profile_WriteProperty safe_WriteProperty)
    have n: "application_inv ids (snd (notifications now obj ?a))" "safe (fst (notifications now obj ?a))"
      using notifications_inv [OF w(1) prod.collapse [symmetric]] by blast+
    show ?thesis using a w n
      by (auto simp: handleWriteProperty_def Inr x case_prod_unfold split: sum.split go_error.split)
  qed
qed

lemma wpm_failure_safe: "e \<noteq> Panic \<Longrightarrow> safe (wpm_failure e obj pid)"
  by (simp add: wpm_failure_def case_prod_unfold Let_def)

lemma wpm_check_safe: "wpm_check d specs = Some r \<Longrightarrow> safe r"
proof -
  have w: "wpm_check_writes d obj ws = Some r \<Longrightarrow> safe r" for obj ws r
    using ValidateWrite_not_Panic [of d obj]
    by (induction ws) (auto split: option.splits sum.splits intro!: wpm_failure_safe)
  show "wpm_check d specs = Some r \<Longrightarrow> safe r"
    by (induction specs) (auto split: option.splits dest: w)
qed

lemma wpm_apply_writes_ok:
  "device_profile d \<Longrightarrow> wpm_apply_writes d obj ws = (r, d') \<Longrightarrow> device_profile d' \<and> object_ids d' = object_ids d \<and> (\<forall>x. r = Some x \<longrightarrow> safe x)"
proof (induction ws arbitrary: d)
  case (Cons w ws)
  let ?w = "Device_WriteProperty d obj (sr_ID (sw_Reference w)) (sw_Values w) (sw_Priority w)"
  obtain r1 d1 where w: "?w = (r1, d1)" by (cases ?w)
  then have "device_profile d1" "object_ids d1 = object_ids d" "safe r1"
    using device_profile_WriteProperty [OF Cons.prems(1)] safe_WriteProperty [OF Cons.prems(1)] object_ids_WriteProperty
    by (metis fst_conv snd_conv)+
  with Cons w show ?case by (auto split: sum.splits intro!: wpm_failure_safe)
qed auto

lemma wpm_apply_ok:
  "device_profile d \<Longrightarrow> wpm_apply d specs ch = (r, d') \<Longrightarrow> device_profile d' \<and> object_ids d' = object_ids d \<and> (\<forall>x. r = Inl x \<longrightarrow> safe x)"
proof (induction specs arbitrary: d ch)
  case (Cons s specs)
  obtain r1 d1 where one: "wpm_apply_writes d (ws_Object s) (ws_Properties s) = (r1, d1)" by (cases "wpm_apply_writes d (ws_Object s) (ws_Properties s)")
  from wpm_apply_writes_ok [OF Cons.prems(1) one] Cons one show ?case by (auto split: option.splits)
qed auto

lemma handleWritePropertyMultiple_ok:
  fixes now :: "'c Now"
  shows "handler_ok (application_inv ids) (handleWritePropertyMultiple now)"
  unfolding handler_ok_def
proof (intro allI impI)
  fix request and a :: "'c Application"
  assume a: "application_inv ids a"
  have s: "safe (single r) = safe r" for r :: "Response result" by (cases r) (auto simp: single_def)
  show "application_inv ids (snd (handleWritePropertyMultiple now request a)) \<and> safe (fst (handleWritePropertyMultiple now request a))"
  proof (cases "decodeWritePropertyMultiple (payload_of request)")
    case (Inl e)
    then have "e \<noteq> Panic" by (rule safe_InlD [OF safe_service_decoders(6)])
    with Inl a show ?thesis by (auto simp: handleWritePropertyMultiple_def split: go_error.split)
  next
    case (Inr specs)
    let ?w = "wpm_apply (ap_Device a) specs []"
    let ?a = "a\<lparr>ap_Device := snd ?w\<rparr>"
    have w: "application_inv ids ?a" "fst ?w = Inl r \<Longrightarrow> safe r" for r
      using a wpm_apply_ok [of "ap_Device a", OF _ prod.collapse [symmetric]] by (auto simp: application_inv_def)
    have n: "application_inv ids (snd (notify_all now changed ?a))" "safe (fst (notify_all now changed ?a))" for changed
      using notify_all_inv [OF w(1) prod.collapse [symmetric]] by blast+
    show ?thesis using a w n(1) safe_InlD [OF n(2)]
      by (auto simp: handleWritePropertyMultiple_def Inr case_prod_unfold s wpm_check_safe split: sum.split option.split)
  qed
qed

lemma handleSubscribeCOV_ok:
  fixes now :: "'c Now"
  shows "handler_ok (application_inv ids) (handleSubscribeCOV now)"
  unfolding handler_ok_def
proof (intro allI impI)
  fix request and a :: "'c Application"
  assume a: "application_inv ids a"
  note d = safe_InlD [OF safe_decodeSubscribeCOV]
  have n: "application_inv ids a'' \<and> safe r" if "Device_ReadProperty (ap_Device a) oid PropertyPresentValue None = Inr vs"
      "subscription_for now key (a\<lparr>ap_Subscriptions := Subscribe now s (ap_Subscriptions a), ap_subscribers := u\<rparr>) = (active, a')"
      "notification now active endpoint vs a' = (r, a'')" "su_LastValue s = vs" for oid vs key s u active a' endpoint r a''
  proof -
    have nn: "non_nil vs" using a that(1) by (auto simp: application_inv_def intro: read_present_non_nil)
    have i: "application_inv ids (a\<lparr>ap_Subscriptions := Subscribe now s (ap_Subscriptions a), ap_subscribers := u\<rparr>)"
      using a nn that(4) by (simp add: application_inv_def values_kept_Subscribe)
    have "application_inv ids a'"
      using that(2) activeSubscriptions_inv(1) [OF prod.collapse [symmetric] i, of now]
      by (auto simp: subscription_for_def Let_def case_prod_unfold)
    from notification_inv [OF that(3) this nn] show ?thesis by simp
  qed
  show "application_inv ids (snd (handleSubscribeCOV now request a)) \<and> safe (fst (handleSubscribeCOV now request a))"
    using a by (auto simp: handleSubscribeCOV_def application_inv_def values_kept_Cancel Let_def
        split: sum.splits prod.splits go_error.splits dest!: d n)
qed

lemma Register_ok:
  fixes now :: "'c Now"
  assumes "Register now Map.empty key = Some h"
  shows "handler_ok (application_inv ids) h"
  using assms handleWhoIs_ok handleWhoHas_ok handleTimeSync_ok handleReadProperty_ok handleReadPropertyMultiple_ok
    handleWriteProperty_ok handleWritePropertyMultiple_ok handleSubscribeCOV_ok
  by (auto simp: Register_def Handle_def split: if_splits)

interpretation sim: application "Register now Map.empty" "application_inv ids" for now :: "'c Now" and ids
  by unfold_locales (auto dest!: Register_ok [where ids = ids] simp: handler_ok_def)

lemma application_inv_init:
  "device_profile d \<Longrightarrow> application_inv (object_ids d) (NewApplication d c)"
  by (simp add: application_inv_def NewApplication_def NewSubscriptionRegistry_def values_kept_def)

text \<open>Notifying the subscribers does not fail: an error of one notification only drops that notification.\<close>

lemma numeric_change_errors: "numeric_change inc x y = Inl e \<Longrightarrow> e = Panic"
  by (simp add: numeric_change_def IsNumeric_def ReadAsFloat64_def ConvertibleTo_def bind_res_def split: if_splits sum.splits)

lemma values_changed_errors: "values_changed inc xs ys = Inl e \<Longrightarrow> e = Panic"
proof (induction inc xs ys rule: values_changed.induct)
  case (1 inc old olds new news)
  show ?case
  proof (cases "numeric_change inc old new")
    case (Inl e')
    with 1(3) numeric_change_errors [of inc old new] show ?thesis by simp
  next
    case (Inr c)
    note IH = 1(1) [OF Inr] 1(2) [OF Inr]
    show ?thesis
    proof (cases c)
      case None
      show ?thesis
      proof (cases "v_Tag old \<noteq> v_Tag new \<or> \<not> DeepEqual (v_Value old) (v_Value new)")
        case False
        with IH(1) [OF None this] 1(3) Inr None show ?thesis by simp
      qed (use 1(3) Inr None in auto)
    next
      case (Some b)
      with IH(2) 1(3) Inr show ?thesis by (simp split: if_splits)
    qed
  qed
qed simp_all

lemma covChanged_errors: "covChanged d oid previous current = Inl e \<Longrightarrow> e = Panic"
  using values_changed_errors by (auto simp: covChanged_def split: if_splits sum.splits)

lemma notify_loop_errors: "notify_loop now oid ss a = (Inl e, a') \<Longrightarrow> e = Panic"
proof (induction ss arbitrary: a)
  case (Cons s ss)
  have "notify_one now oid s a = (Inl e, a2) \<Longrightarrow> e = Panic" for e a2
    by (auto simp: notify_one_def dest: covChanged_errors split: if_splits sum.splits option.splits prod.splits go_error.splits)
  with Cons show ?case by (auto split: prod.splits sum.splits)
qed simp

lemma notifications_return:
  assumes "application_inv ids a"
  shows "\<exists>ns a'. notifications now oid a = (Inr ns, a') \<and> ap_Device a' = ap_Device a"
proof -
  obtain r a' where r: "notifications now oid a = (r, a')" by (cases "notifications now oid a")
  have "r \<noteq> Inl e" for e
    using notifications_inv [OF assms r] r notify_loop_errors
    by (fastforce simp: notifications_def case_prod_unfold Let_def)
  with r notifications_inv [OF assms r] show ?thesis by (cases r) auto
qed

section \<open>Properties\<close>

text \<open>C3. Types and ranges hold for ever.  Take a device of a network that a scenario builds, behind the responder with the
  simulator's handlers, and let any datagrams arrive, well-formed or not, over a transport that does not itself panic: the
  simulator does not panic; the device still has the same objects; and the Present_Value of each of them reads as one value,
  of the application tag of the object's type, which for a multi-state object is a state between 1 and its
  Number_Of_States.\<close>

theorem simulator_types:
  assumes "BuildNetwork s = Inr n" "Network_Device n i = Inr d" "writer_safe wr"
    and "Serve (Register now Map.empty) wr datagrams c (NewApplication d clk) = (errors, c', a)"
  shows "Panic \<notin> set errors \<and> object_ids (ap_Device a) = object_ids d
    \<and> (\<forall>oid \<in> object_ids d. id_Type oid \<noteq> 8 \<longrightarrow>
        (\<exists>v. Device_ReadProperty (ap_Device a) oid PropertyPresentValue None = Inr [v]
          \<and> v_Tag v = present_tag (id_Type oid) \<and> v_Value v \<noteq> Any VNil
          \<and> (isMultiStateObjectType (id_Type oid) \<longrightarrow> (\<exists>k states. v_Value v = Any (VUint32 k) \<and> 1 \<le> k \<and> k \<le> states
               \<and> Device_ReadProperty (ap_Device a) oid PropertyNumberOfStates None
                   = Inr [\<lparr>v_Tag = TagUnsigned, v_Value = Any (VUint32 states)\<rparr>]))))"
proof -
  have "device_profile d" using BuildNetwork_profile [OF assms(1,2)] ..
  note init = application_inv_init [OF this, of clk]
  have "application_inv (object_ids d) a" "Panic \<notin> set errors"
    using sim.Serve_keeps [OF init, of now wr datagrams c] sim.Serve_safe [OF init assms(3), of now datagrams c] assms(4) by simp_all
  then show ?thesis using device_profile_present by (fastforce simp: application_inv_def object_ids_def)
qed

text \<open>A scenario with one device and one multi-state object of three states.\<close>

definition one_device :: Scenario where
  "one_device = \<lparr>sc_Version = 1, sc_Network = \<lparr>nc_Mode = ascii ''single-device'', nc_Interface = [], nc_Port = 47808\<rparr>,
     sc_Devices = [\<lparr>ds_ID = 5, ds_Address = [], ds_Port = 47808, ds_Name = ascii ''d'', ds_VendorID = 1, ds_VendorName = [],
        ds_ModelName = [], ds_ProtocolRevision = 14,
        ds_Objects = [\<lparr>os_Type = ascii ''multi-state-value'', os_Instance = 1, os_Name = ascii ''m'', os_Description = [],
          os_PresentValue = VNil, os_Units = 0, os_Writable = True, os_Commandable = False, os_RelinquishDefault = VNil,
          os_InitialPriority = 0, os_NumberOfStates = 3, os_COVIncrement = 0, os_OutOfService = False\<rparr>]\<rparr>]\<rparr>"

lemma one_device_parts:
  "TrimSpace (ascii ''m'') = ascii ''m''" "TrimSpace (ascii ''d'') = ascii ''d''"
  "objectTypeNumber (ascii ''multi-state-value'') = Inr 19" "ascii ''d'' \<noteq> []" "ascii ''m'' \<noteq> []"
  "ascii ''single-device'' \<noteq> ascii ''multi-ip''"
  by code_simp+

lemma f64_zero: "f64_finite 0" "\<not> f64_less 0 0"
  by (simp_all add: f64_finite_def f64_less_def classify64_def classify_def binary64_def)

lemmas build_defs = one_device_def BuildNetwork_def Scenario_Validate_def device_identity_def object_identity_def make_writable_def
  object_values_def validateObjectSpecValues_def normalizePresentValue_def normalize_multistate_def numericUint32_def
  isMultiStateObjectType_def as_uint32_def wrap_error_def buildDevice_def buildObject_def present_value_def AddDevice_def
  Network_Device_def NewNetwork_def ScenarioVersion_def MaxObjectInstance_def

lemma one_device_builds:
  "\<exists>n d. BuildNetwork one_device = Inr n \<and> Network_Device n 5 = Inr d
     \<and> map fst (sd_Objects d) = [\<lparr>id_Type = 8, id_Instance = 5\<rparr>, \<lparr>id_Type = 19, id_Instance = 1\<rparr>]"
  by (simp add: build_defs one_device_parts f64_zero Let_def)

theorem simulator_types_witness:
  "\<exists>n d errors c a v k states. BuildNetwork one_device = Inr n \<and> Network_Device n 5 = Inr d
     \<and> Serve (Register ManualClock_Now Map.empty) (\<lambda>destination b sent. (Inr (), sent @ [b]))
         [\<lparr>dg_Payload = [0x81, 10, 0, 10, 1, 4, 0, 5, 5, 99], dg_Source = NewEndpoint [10, 0, 0, 9] 47808,
           dg_Destination = NewEndpoint [10, 0, 0, 1] 47808\<rparr>] [] (NewApplication d (NewManualClock 0)) = (errors, c, a)
     \<and> Panic \<notin> set errors
     \<and> Device_ReadProperty (ap_Device a) \<lparr>id_Type = 19, id_Instance = 1\<rparr> 85 None = Inr [v]
     \<and> v_Value v = Any (VUint32 k) \<and> 1 \<le> k \<and> k \<le> states"
proof -
  let ?wr = "\<lambda>(destination :: Endpoint) (b :: bytes) (sent :: bytes list). (Inr () :: unit result, sent @ [b])"
  let ?ds = "[\<lparr>dg_Payload = [0x81, 10, 0, 10, 1, 4, 0, 5, 5, 99], dg_Source = NewEndpoint [10, 0, 0, 9] 47808,
           dg_Destination = NewEndpoint [10, 0, 0, 1] 47808\<rparr>] :: Datagram list"
  obtain n d where n: "BuildNetwork one_device = Inr n" and d: "Network_Device n 5 = Inr d"
    and ids: "map fst (sd_Objects d) = [\<lparr>id_Type = 8, id_Instance = 5\<rparr>, \<lparr>id_Type = 19, id_Instance = 1\<rparr>]"
    using one_device_builds by auto
  obtain errors c a where s: "Serve (Register ManualClock_Now Map.empty) ?wr ?ds [] (NewApplication d (NewManualClock 0)) = (errors, c, a)"
    by (metis prod_cases3)
  have wr: "writer_safe ?wr" by (simp add: writer_safe_def)
  have "set (map fst (sd_Objects d)) = object_ids d" by (simp add: object_ids_def dom_map_of_conv_image_fst)
  then have "\<lparr>id_Type = 19, id_Instance = 1\<rparr> \<in> object_ids d" unfolding ids by auto
  with simulator_types [OF n d wr s] obtain v k states where
    "Device_ReadProperty (ap_Device a) \<lparr>id_Type = 19, id_Instance = 1\<rparr> 85 None = Inr [v]"
    "v_Value v = Any (VUint32 k)" "1 \<le> k" "k \<le> states" "Panic \<notin> set errors"
    by (fastforce simp: isMultiStateObjectType_def)
  with n d s show ?thesis by blast
qed

end
