(* ===== verification/Sim_Atomicity.thy ===== *)
theory Sim_Atomicity
  imports Sim_System
begin

text \<open>
  WritePropertyMultiple in the simulator: \<^verbatim>\<open>handleWritePropertyMultiple\<close> checks every write before it performs the
  first one.  The check is enough for writes that do not touch Out_Of_Service, and not for others.
\<close>

section \<open>A write does not change what other writes need\<close>

lemma apply_write_shape:
  assumes "apply_write p values priority = Inr q"
  shows "sp_RelinquishDefault q = sp_RelinquishDefault p" "sp_Writable q = sp_Writable p" "sp_Scalar q = sp_Scalar p"
    "sp_ExpectedTag q = sp_ExpectedTag p" "sp_MaximumUnsigned q = sp_MaximumUnsigned p" "sp_MinimumUnsigned q = sp_MinimumUnsigned p"
  using assms by (auto simp: apply_write_def split: if_splits)

lemma validate_shape:
  assumes "sp_RelinquishDefault q = sp_RelinquishDefault p" "sp_Scalar q = sp_Scalar p"
    "sp_ExpectedTag q = sp_ExpectedTag p" "sp_MaximumUnsigned q = sp_MaximumUnsigned p" "sp_MinimumUnsigned q = sp_MinimumUnsigned p"
  shows "validateWriteAllowingReadOnly q values priority w = validateWriteAllowingReadOnly p values priority w"
  unfolding validateWriteAllowingReadOnly_def validateValues_def assms ..

lemma Object_WriteProperty_shape:
  assumes "Object_WriteProperty obj pid values priority = Inr obj'" "pid \<noteq> PropertyOutOfService"
  obtains p q where "get_property obj pid = Some p" "obj' = set_property pid q obj"
    "\<forall>vs k w. validateWriteAllowingReadOnly q vs k w = validateWriteAllowingReadOnly p vs k w"
    "sp_RelinquishDefault q = sp_RelinquishDefault p" "sp_Writable q = sp_Writable p"
proof (cases "get_property obj pid")
  case None
  with assms show ?thesis
    by (auto simp: Object_WriteProperty_def writeSynthesizedProperty_def split: option.splits)
next
  case (Some p)
  with assms(1) obtain k q where q: "apply_write p values k = Inr q" "obj' = set_property pid q obj"
    by (auto simp: Object_WriteProperty_def writeBypassingWritable_def SimProperty_Write_def bind_res_eq_Inr split: if_splits)
  note s = apply_write_shape [OF q(1)]
  show ?thesis using that [OF Some q(2) _ s(1,2)] validate_shape [OF s(1,3-6)] by blast
qed

lemma synthesizedProperty_shape:
  assumes "get_property obj pid = Some p" "sp_RelinquishDefault q = sp_RelinquishDefault p"
  shows "(synthesizedProperty (set_property pid q obj) pid' = None) = (synthesizedProperty obj pid' = None)"
    and "synthesizedProperty (set_property pid q obj) PropertyOutOfService = synthesizedProperty obj PropertyOutOfService"
  using assms
  by (auto simp: synthesizedProperty_def status_property_def outOfServiceProperty_def split: option.splits)

lemma validateSynthesizedWrite_shape:
  assumes "get_property obj pid = Some p" "sp_RelinquishDefault q = sp_RelinquishDefault p"
  shows "validateSynthesizedWrite (set_property pid q obj) pid' vs k = validateSynthesizedWrite obj pid' vs k"
  using synthesizedProperty_shape(1) [OF assms, of pid'] synthesizedProperty_shape(2) [OF assms]
  by (cases "pid' = PropertyOutOfService") (auto simp: validateSynthesizedWrite_def split: option.splits)

lemma ValidateWrite_stable:
  assumes "Device_WriteProperty d oid pid values priority = (Inr u, d')" "pid \<noteq> PropertyOutOfService"
  shows "ValidateWrite d' oid' pid' vs k = ValidateWrite d oid' pid' vs k"
proof -
  from assms(1) obtain obj obj' where obj: "map_of (sd_Objects d) oid = Some obj"
    and w: "Object_WriteProperty obj pid values priority = Inr obj'" and d': "d' = set_object oid obj' d"
    by (auto simp: Device_WriteProperty_def split: option.splits sum.splits)
  from w assms(2) obtain p q where p: "get_property obj pid = Some p" and q: "obj' = set_property pid q obj"
    and v: "\<forall>vs k w. validateWriteAllowingReadOnly q vs k w = validateWriteAllowingReadOnly p vs k w"
    and r: "sp_RelinquishDefault q = sp_RelinquishDefault p" "sp_Writable q = sp_Writable p"
    by (rule Object_WriteProperty_shape)
  show ?thesis
  proof (cases "oid' = oid")
    case True
    have obj': "map_of (sd_Objects d') oid = Some (set_property pid q obj)" by (simp add: d' q)
    have a: "write_allowed (set_property pid q obj) z y = write_allowed obj z y" for z y by (simp add: write_allowed_def bypasses_writable_def)
    show ?thesis
    proof (cases "get_property obj pid'")
      case None
      then have "pid' \<noteq> pid" using p by auto
      with None show ?thesis using True obj obj' validateSynthesizedWrite_shape [OF p r(1)] by (simp add: ValidateWrite_def)
    next
      case (Some y)
      note old = ValidateWrite_stored [OF obj Some]
      show ?thesis
      proof (cases "pid' = pid")
        case same: True
        have "write_allowed obj pid q = write_allowed obj pid p" using r by (simp add: write_allowed_def bypasses_writable_def)
        moreover have "get_property (set_property pid q obj) pid' = Some q" using same by simp
        note ValidateWrite_stored [OF obj' this]
        ultimately show ?thesis using same True old v p Some by (auto simp: a)
      next
        case False
        then have "get_property (set_property pid q obj) pid' = Some y" using Some by simp
        from ValidateWrite_stored [OF obj' this] True old show ?thesis by (simp add: a)
      qed
    qed
  qed (simp add: ValidateWrite_def d')
qed


section \<open>The two passes\<close>

text \<open>All writes of a request, one after the other.\<close>

definition written :: "SimWriteSpec \<Rightarrow> SimDevice \<Rightarrow> SimDevice" where
  "written s = fold (\<lambda>w d. snd (Device_WriteProperty d (ws_Object s) (sr_ID (sw_Reference w)) (sw_Values w) (sw_Priority w))) (ws_Properties s)"

definition plain :: "SimWriteSpec \<Rightarrow> bool" where
  "plain s \<longleftrightarrow> (\<forall>w \<in> set (ws_Properties s). sr_ID (sw_Reference w) \<noteq> PropertyOutOfService)"

lemma wpm_apply_writes_all:
  assumes "device_inv d" "wpm_check_writes d obj ws = None" "\<forall>w \<in> set ws. sr_ID (sw_Reference w) \<noteq> PropertyOutOfService"
  shows "\<exists>d'. wpm_apply_writes d obj ws = (None, d') \<and> device_inv d'
    \<and> d' = fold (\<lambda>w d. snd (Device_WriteProperty d obj (sr_ID (sw_Reference w)) (sw_Values w) (sw_Priority w))) ws d
    \<and> (\<forall>oid pid vs k. ValidateWrite d' oid pid vs k = ValidateWrite d oid pid vs k)"
  using assms
proof (induction ws arbitrary: d)
  case (Cons w ws)
  let ?w = "Device_WriteProperty d obj (sr_ID (sw_Reference w)) (sw_Values w) (sw_Priority w)"
  have v: "ValidateWrite d obj (sr_ID (sw_Reference w)) (sw_Values w) (sw_Priority w) = Inr ()" and rest: "wpm_check_writes d obj ws = None"
    using Cons.prems(2) by (auto split: option.splits sum.splits)
  obtain d1 where d1: "?w = (Inr (), d1)"
    using WriteProperty_ValidateWrite [OF Cons.prems(1), of obj "sr_ID (sw_Reference w)" "sw_Values w" "sw_Priority w"] v by (cases ?w) simp
  have st: "ValidateWrite d1 oid pid vs k = ValidateWrite d oid pid vs k" for oid pid vs k
    by (rule ValidateWrite_stable [OF d1]) (use Cons.prems(3) in simp)
  have inv: "device_inv d1" using device_inv_WriteProperty [OF Cons.prems(1), of obj "sr_ID (sw_Reference w)" "sw_Values w" "sw_Priority w"] d1 by simp
  have "wpm_check_writes d1 obj ws' = wpm_check_writes d obj ws'" for ws'
    by (induction ws') (auto simp: st split: option.splits sum.splits)
  with Cons.IH [OF inv] rest Cons.prems(3) d1 st show ?case by auto
qed simp

lemma wpm_check_cong:
  assumes "\<forall>oid pid vs k. ValidateWrite d' oid pid vs k = ValidateWrite d oid pid vs k"
  shows "wpm_check d' ss = wpm_check d ss"
proof -
  have "wpm_check_writes d' obj ws = wpm_check_writes d obj ws" for obj ws
    using assms by (induction ws) (auto split: option.splits sum.splits)
  then show ?thesis by (induction ss) (auto split: option.splits)
qed

lemma wpm_check_None:
  "wpm_check d ss = None \<Longrightarrow> s \<in> set ss \<Longrightarrow> w \<in> set (ws_Properties s) \<Longrightarrow>
     ValidateWrite d (ws_Object s) (sr_ID (sw_Reference w)) (sw_Values w) (sw_Priority w) = Inr ()"
proof -
  have "wpm_check_writes d obj ws = None \<Longrightarrow> w \<in> set ws \<Longrightarrow> ValidateWrite d obj (sr_ID (sw_Reference w)) (sw_Values w) (sw_Priority w) = Inr ()" for obj ws
    by (induction ws) (auto split: option.splits sum.splits)
  then show "wpm_check d ss = None \<Longrightarrow> s \<in> set ss \<Longrightarrow> w \<in> set (ws_Properties s) \<Longrightarrow>
     ValidateWrite d (ws_Object s) (sr_ID (sw_Reference w)) (sw_Values w) (sw_Priority w) = Inr ()"
    by (induction ss) (auto split: option.splits)
qed

lemma wpm_apply_all:
  assumes "device_inv d" "wpm_check d ss = None" "\<forall>s \<in> set ss. plain s"
  shows "\<exists>changed'. wpm_apply d ss changed = (Inr changed', fold written ss d)"
  using assms
proof (induction ss arbitrary: d changed)
  case (Cons s ss)
  have c: "wpm_check_writes d (ws_Object s) (ws_Properties s) = None" "wpm_check d ss = None"
    using Cons.prems(2) by (auto split: option.splits)
  have p: "\<forall>w \<in> set (ws_Properties s). sr_ID (sw_Reference w) \<noteq> PropertyOutOfService" using Cons.prems(3) by (simp add: plain_def)
  from wpm_apply_writes_all [OF Cons.prems(1) c(1) p] obtain d' where d': "wpm_apply_writes d (ws_Object s) (ws_Properties s) = (None, d')"
    "device_inv d'" "d' = written s d" "\<forall>oid pid vs k. ValidateWrite d' oid pid vs k = ValidateWrite d oid pid vs k"
    by (auto simp: written_def)
  have "wpm_check d' ss = None" using wpm_check_cong [OF d'(4)] c(2) by simp
  from Cons.IH [OF d'(2) this] Cons.prems(3) d'(1,3) show ?case by auto
qed simp


lemma notify_all_device: "application_inv ids a \<Longrightarrow> \<exists>ns a'. notify_all now oids a = (Inr ns, a') \<and> ap_Device a' = ap_Device a"
proof (induction oids arbitrary: a)
  case (Cons oid oids)
  from notifications_return [OF Cons.prems, of now oid] obtain ns a1 where n: "notifications now oid a = (Inr ns, a1)" "ap_Device a1 = ap_Device a" by blast
  have "application_inv ids a1" using notifications_inv [OF Cons.prems n(1)] by blast
  from Cons.IH [OF this] n show ?case by force
qed simp

section \<open>Properties\<close>

text \<open>A device with one binary input that is out of service and not writable.\<close>

definition out_of_service :: Scenario where
  "out_of_service = \<lparr>sc_Version = 1, sc_Network = \<lparr>nc_Mode = ascii ''single-device'', nc_Interface = [], nc_Port = 47808\<rparr>,
     sc_Devices = [\<lparr>ds_ID = 5, ds_Address = [], ds_Port = 47808, ds_Name = ascii ''d'', ds_VendorID = 1, ds_VendorName = [],
        ds_ModelName = [], ds_ProtocolRevision = 14,
        ds_Objects = [\<lparr>os_Type = ascii ''binary-input'', os_Instance = 1, os_Name = ascii ''m'', os_Description = [],
          os_PresentValue = VNil, os_Units = 0, os_Writable = False, os_Commandable = False, os_RelinquishDefault = VNil,
          os_InitialPriority = 0, os_NumberOfStates = 0, os_COVIncrement = 0, os_OutOfService = True\<rparr>]\<rparr>]\<rparr>"

definition input_1 :: ObjectID where
  "input_1 = \<lparr>id_Type = 3, id_Instance = 1\<rparr>"

lemma input_type: "objectTypeNumber (ascii ''binary-input'') = Inr 3" by code_simp

lemma out_of_service_builds: "\<exists>n d. BuildNetwork out_of_service = Inr n \<and> Network_Device n 5 = Inr d"
  by (simp add: out_of_service_def build_defs one_device_parts f64_zero input_type Let_def normalize_binary_def)

lemma out_of_service_object:
  assumes "BuildNetwork out_of_service = Inr n" "Network_Device n 5 = Inr d"
  shows "map_of (sd_Objects d) input_1 = Some (set_property 85 (scalarProperty 85 9 (Any (VUint32 0)) False\<lparr>sp_COVIncrement := 0\<rparr>)
    (addCommonProperties (ascii ''m'') [] \<lparr>so_ID = input_1, so_Name = ascii ''m'', so_Properties = [], so_OutOfService = True\<rparr>))"
  using assms by (auto simp add: input_1_def out_of_service_def build_defs one_device_parts f64_zero input_type Let_def normalize_binary_def)

text \<open>A request with given service parameters.\<close>

definition carrying :: "bytes \<Rightarrow> RRequest" where
  "carrying payload = \<lparr>rr_Packet = Request_Reset\<lparr>r_Apdu := Apdu_Reset\<lparr>a_Payload := payload\<rparr>\<rparr>,
     rr_Source = NewEndpoint [10, 0, 0, 9] 47808, rr_Destination = NewEndpoint [10, 0, 0, 1] 47808\<rparr>"

lemma payload_carrying: "payload_of (carrying payload) = payload"
  by (simp add: carrying_def)

text \<open>Out_Of_Service to false, then Present_Value to active, in one request.\<close>

definition leave_service :: bytes where
  "leave_service = [0x0c, 0, 0xc0, 0, 1, 0x1e, 9, 81, 0x2e, 0x10, 0x2f, 9, 85, 0x2e, 0x91, 1, 0x2f, 0x1f]"

lemma leave_service_decoded:
  "decodeWritePropertyMultiple leave_service = Inr [\<lparr>ws_Object = input_1, ws_Properties =
     [\<lparr>sw_Reference = \<lparr>sr_ID = 81, sr_ArrayIndex = None\<rparr>, sw_Values = [\<lparr>v_Tag = 1, v_Value = Any (VBool False)\<rparr>], sw_Priority = 0\<rparr>,
      \<lparr>sw_Reference = \<lparr>sr_ID = 85, sr_ArrayIndex = None\<rparr>, sw_Values = [\<lparr>v_Tag = 9, v_Value = Any (VUint32 1)\<rparr>], sw_Priority = 0\<rparr>]\<rparr>]"
  by code_simp

text \<open>C7. Writing several properties at once, when none of them is Out_Of_Service: either the first write that is not valid is refused and nothing
  has changed, or every write has been performed, in the order of the request, and the answer is an acknowledgement.\<close>

theorem write_multiple_atomic:
  assumes "application_inv ids a" "decodeWritePropertyMultiple (payload_of request) = Inr specs" "\<forall>s \<in> set specs. plain s"
  shows "(\<exists>r. handleWritePropertyMultiple now request a = (single r, a) \<and> wpm_check (ap_Device a) specs = Some r)
    \<or> (\<exists>ns a'. handleWritePropertyMultiple now request a = (Inr (SimpleACK # ns), a') \<and> ap_Device a' = fold written specs (ap_Device a)
        \<and> (\<forall>s \<in> set specs. \<forall>w \<in> set (ws_Properties s).
             ValidateWrite (ap_Device a) (ws_Object s) (sr_ID (sw_Reference w)) (sw_Values w) (sw_Priority w) = Inr ()))"
proof (cases "wpm_check (ap_Device a) specs")
  case (Some r)
  with assms(2) show ?thesis by (simp add: handleWritePropertyMultiple_def)
next
  case None
  have dp: "device_profile (ap_Device a)" using assms(1) by (simp add: application_inv_def)
  obtain changed where w: "wpm_apply (ap_Device a) specs [] = (Inr changed, fold written specs (ap_Device a))"
    using wpm_apply_all [OF device_profile_inv [OF dp] None assms(3)] by blast
  have "application_inv ids (a\<lparr>ap_Device := fold written specs (ap_Device a)\<rparr>)"
    using wpm_apply_ok [OF dp w] assms(1) by (simp add: application_inv_def)
  from notify_all_device [OF this, of now changed] obtain ns a' where
    "notify_all now changed (a\<lparr>ap_Device := fold written specs (ap_Device a)\<rparr>) = (Inr ns, a')" "ap_Device a' = fold written specs (ap_Device a)" by auto
  with assms(2) None w have "handleWritePropertyMultiple now request a = (Inr (SimpleACK # ns), a') \<and> ap_Device a' = fold written specs (ap_Device a)"
    by (simp add: handleWritePropertyMultiple_def)
  moreover have "\<forall>s \<in> set specs. \<forall>w \<in> set (ws_Properties s).
      ValidateWrite (ap_Device a) (ws_Object s) (sr_ID (sw_Reference w)) (sw_Values w) (sw_Priority w) = Inr ()"
    using None wpm_check_None by blast
  ultimately show ?thesis by blast
qed

theorem write_multiple_atomic_witness:
  "\<exists>n d specs. BuildNetwork one_device = Inr n \<and> Network_Device n 5 = Inr d
     \<and> decodeWritePropertyMultiple [0x0c, 4, 0xc0, 0, 1, 0x1e, 9, 85, 0x2e, 0x21, 2, 0x2f, 0x1f] = Inr specs \<and> length specs = 1
     \<and> ((\<exists>r. handleWritePropertyMultiple ManualClock_Now (carrying [0x0c, 4, 0xc0, 0, 1, 0x1e, 9, 85, 0x2e, 0x21, 2, 0x2f, 0x1f])
            (NewApplication d (NewManualClock 0)) = (single r, NewApplication d (NewManualClock 0)))
       \<or> (\<exists>ns a'. handleWritePropertyMultiple ManualClock_Now (carrying [0x0c, 4, 0xc0, 0, 1, 0x1e, 9, 85, 0x2e, 0x21, 2, 0x2f, 0x1f])
            (NewApplication d (NewManualClock 0)) = (Inr (SimpleACK # ns), a') \<and> ap_Device a' = fold written specs d))"
proof -
  let ?p = "[0x0c, 4, 0xc0, 0, 1, 0x1e, 9, 85, 0x2e, 0x21, 2, 0x2f, 0x1f] :: bytes"
  obtain n d where n: "BuildNetwork one_device = Inr n" "Network_Device n 5 = Inr d" using one_device_builds by auto
  have inv: "application_inv (object_ids d) (NewApplication d (NewManualClock 0))"
    by (rule application_inv_init [OF conjunct1 [OF BuildNetwork_profile [OF n]]])
  have "case decodeWritePropertyMultiple ?p of Inr specs \<Rightarrow> length specs = 1 \<and> list_all plain specs | Inl _ \<Rightarrow> False"
    unfolding plain_def by code_simp
  then obtain specs where s: "decodeWritePropertyMultiple (payload_of (carrying ?p)) = Inr specs" "length specs = 1" "\<forall>s \<in> set specs. plain s"
    by (auto simp: payload_carrying list_all_iff split: sum.splits)
  from write_multiple_atomic [OF inv s(1,3), of ManualClock_Now] n s(1,2) show ?thesis
    by (auto simp: payload_carrying NewApplication_def)
qed

lemma wpm_write_denied:
  assumes "id_Instance oid \<le> 0x3fffff"
  shows "\<exists>r. wpm_failure ErrWriteDenied oid pid = Inr r \<and> rs_PDUType r = PduTypeError \<and> rs_ErrorClass r = 2 \<and> rs_ErrorCode r = 40"
  using assms
  by (auto simp: wpm_failure_def modelErrorClassCode_def model_errors writePropertyMultipleError_def toBACnetObjectID_def SetInstanceNumber_def
      WritePropertyMultipleError_MarshalBinary_def marshal_enumerated BacnetMaxInstance_def Let_def)

text \<open>C8. With Out_Of_Service among the properties the request is not atomic, against what the handler and the client call state of themselves: on an
  object whose Present_Value is not writable, a request that puts the object back into service and then writes its Present_Value, and that
  passes the check as a whole, finds the object out of service, performs the first write, and answers with the error that the write access is
  denied.\<close>

theorem write_multiple_not_atomic:
  assumes "device_inv (ap_Device a)" "decodeWritePropertyMultiple (payload_of request) = Inr [\<lparr>ws_Object = oid, ws_Properties = [w1, w2]\<rparr>]"
    and "sr_ID (sw_Reference w1) = PropertyOutOfService" "sw_Values w1 = [\<lparr>v_Tag = TagBoolean, v_Value = Any (VBool False)\<rparr>]"
    and "sr_ID (sw_Reference w2) = PropertyPresentValue"
    and "map_of (sd_Objects (ap_Device a)) oid = Some obj" "get_property obj PropertyOutOfService = None"
    and "get_property obj PropertyPresentValue = Some p" "\<not> sp_Writable p" "id_Instance oid \<le> 0x3fffff"
    and "wpm_check (ap_Device a) [\<lparr>ws_Object = oid, ws_Properties = [w1, w2]\<rparr>] = None"
  shows "so_OutOfService obj \<and> (\<exists>r. handleWritePropertyMultiple now request a
        = (Inr [r], a\<lparr>ap_Device := set_object oid (obj\<lparr>so_OutOfService := False\<rparr>) (ap_Device a)\<rparr>)
      \<and> rs_PDUType r = PduTypeError \<and> rs_ErrorClass r = 2 \<and> rs_ErrorCode r = 40)"
proof -
  let ?d = "ap_Device a" let ?o = "obj\<lparr>so_OutOfService := False\<rparr>" let ?d' = "set_object oid ?o ?d"
  have v: "ValidateWrite ?d oid 81 (sw_Values w1) (sw_Priority w1) = Inr ()" "ValidateWrite ?d oid 85 (sw_Values w2) (sw_Priority w2) = Inr ()"
    using wpm_check_None [OF assms(11)] assms(3,5) by fastforce+
  from v(2) [unfolded ValidateWrite_stored [OF assms(6,8)]] assms(9) have out: "so_OutOfService obj"
    by (auto simp: validateWriteAllowingReadOnly_def write_allowed_def bypasses_writable_def split: if_splits)
  from v(1) have s: "validateSynthesizedWrite obj 81 (sw_Values w1) (sw_Priority w1) = Inr ()" using assms(6,7) by (simp add: ValidateWrite_def)
  have 1: "Device_WriteProperty ?d oid 81 (sw_Values w1) (sw_Priority w1) = (Inr (), ?d')"
    using assms(4,6) s by (simp add: Device_WriteProperty_def Object_WriteProperty_synthesized [OF assms(7)])
  have p: "get_property ?o 85 = Some p" "\<not> write_allowed ?o 85 p" using assms(8,9) by (simp_all add: write_allowed_def bypasses_writable_def)
  have 2: "Device_WriteProperty ?d' oid 85 (sw_Values w2) (sw_Priority w2) = (Inl ErrWriteDenied, ?d')"
    using p(2) by (simp add: Device_WriteProperty_def Object_WriteProperty_stored [OF p(1)] validateWriteAllowingReadOnly_def)
  from wpm_write_denied [OF assms(10), of 85] obtain r where
    r: "wpm_failure ErrWriteDenied oid 85 = Inr r" "rs_PDUType r = PduTypeError" "rs_ErrorClass r = 2" "rs_ErrorCode r = 40" by blast
  have "wpm_apply ?d [\<lparr>ws_Object = oid, ws_Properties = [w1, w2]\<rparr>] [] = (Inl (Inr r), ?d')"
    by (simp add: assms(3,5) 1 2 r(1))
  then have "handleWritePropertyMultiple now request a = (Inr [r], a\<lparr>ap_Device := ?d'\<rparr>)"
    using assms(2,11) by (simp add: handleWritePropertyMultiple_def single_def)
  with out r show ?thesis by blast
qed

theorem write_multiple_not_atomic_witness:
  "\<exists>n d r a'. BuildNetwork out_of_service = Inr n \<and> Network_Device n 5 = Inr d
     \<and> handleWritePropertyMultiple ManualClock_Now (carrying leave_service) (NewApplication d (NewManualClock 0)) = (Inr [r], a')
     \<and> rs_PDUType r = PduTypeError
     \<and> Device_ReadProperty d input_1 PropertyOutOfService None = Inr [\<lparr>v_Tag = TagBoolean, v_Value = Any (VBool True)\<rparr>]
     \<and> Device_ReadProperty (ap_Device a') input_1 PropertyOutOfService None = Inr [\<lparr>v_Tag = TagBoolean, v_Value = Any (VBool False)\<rparr>]"
proof -
  obtain n d where n: "BuildNetwork out_of_service = Inr n" "Network_Device n 5 = Inr d" using out_of_service_builds by auto
  note obj = out_of_service_object [OF n]
  let ?p = "scalarProperty 85 9 (Any (VUint32 0)) False\<lparr>sp_COVIncrement := 0\<rparr>" let ?a = "NewApplication d (NewManualClock 0)"
  let ?o = "set_property 85 ?p (addCommonProperties (ascii ''m'') [] \<lparr>so_ID = input_1, so_Name = ascii ''m'', so_Properties = [], so_OutOfService = True\<rparr>)"
  let ?w1 = "\<lparr>sw_Reference = \<lparr>sr_ID = 81, sr_ArrayIndex = None\<rparr>, sw_Values = [\<lparr>v_Tag = 1, v_Value = Any (VBool False)\<rparr>], sw_Priority = 0\<rparr>"
  let ?w2 = "\<lparr>sw_Reference = \<lparr>sr_ID = 85, sr_ArrayIndex = None\<rparr>, sw_Values = [\<lparr>v_Tag = 9, v_Value = Any (VUint32 1)\<rparr>], sw_Priority = 0\<rparr>"
  have p: "get_property ?o 81 = None" "get_property ?o 85 = Some ?p" "\<not> sp_Writable ?p" by code_simp+
  have "ValidateWrite d input_1 81 [\<lparr>v_Tag = 1, v_Value = Any (VBool False)\<rparr>] 0 = Inr ()"
    "ValidateWrite d input_1 85 [\<lparr>v_Tag = 9, v_Value = Any (VUint32 1)\<rparr>] 0 = Inr ()"
    unfolding ValidateWrite_def obj option.case by code_simp+
  then have c: "wpm_check (ap_Device ?a) [\<lparr>ws_Object = input_1, ws_Properties = [?w1, ?w2]\<rparr>] = None" by (simp add: NewApplication_def)
  have inv: "device_inv (ap_Device ?a)"
    using device_profile_inv [OF conjunct1 [OF BuildNetwork_profile [OF n]]] by (simp add: NewApplication_def)
  have dec: "decodeWritePropertyMultiple (payload_of (carrying leave_service)) = Inr [\<lparr>ws_Object = input_1, ws_Properties = [?w1, ?w2]\<rparr>]"
    by (simp add: payload_carrying leave_service_decoded)
  have o: "map_of (sd_Objects (ap_Device ?a)) input_1 = Some ?o" using obj by (simp add: NewApplication_def)
  let ?d = "set_object input_1 (?o\<lparr>so_OutOfService := False\<rparr>) d"
  have "id_Instance input_1 \<le> 0x3fffff" by (simp add: input_1_def)
  from write_multiple_not_atomic [OF inv dec _ _ _ o p this c, of ManualClock_Now] obtain r where
    "handleWritePropertyMultiple ManualClock_Now (carrying leave_service) ?a = (Inr [r], ?a\<lparr>ap_Device := ?d\<rparr>)" "rs_PDUType r = PduTypeError"
    by (auto simp: NewApplication_def)
  moreover have "Device_ReadProperty d input_1 81 None = Inr [\<lparr>v_Tag = 1, v_Value = Any (VBool True)\<rparr>]"
    unfolding Device_ReadProperty_def obj option.case by code_simp
  moreover have o': "map_of (sd_Objects ?d) input_1 = Some (?o\<lparr>so_OutOfService := False\<rparr>)" by simp
  have "Device_ReadProperty ?d input_1 81 None = Inr [\<lparr>v_Tag = 1, v_Value = Any (VBool False)\<rparr>]"
    unfolding Device_ReadProperty_def o' option.case by code_simp
  ultimately show ?thesis using n by (intro exI conjI) (assumption | simp)+
qed

end
