(* ===== verification/Exchange.thy ===== *)
theory Exchange
  imports Client Sim_Atomicity
begin

text \<open>
  The client and the simulator together: what a request of the client makes the simulated device do, and what the
  call returns after the device's answer has come back over the wire.
\<close>

section \<open>A confirmed request at the device\<close>

text \<open>A transport that delivers: every datagram handed to it goes into a log.\<close>

definition logged :: "(Endpoint \<times> bytes) list conn_writer" where
  "logged destination b sent = (Inr (), sent @ [(destination, b)])"

lemma decodeConfirmed_plain:
  "a_ServiceChoice a \<notin> {ConfirmedServiceReadProperty, ConfirmedServiceCovNotification} \<Longrightarrow> a_PduType a = PduTypeConfirmedServiceRequest
    \<Longrightarrow> decodeConfirmedApdu a data = Inr a"
  by (auto simp: decodeConfirmedApdu_def)

text \<open>Service parameters that the parser of the responder accepts in a confirmed request.\<close>

definition acceptable :: "u8 \<Rightarrow> bytes \<Rightarrow> bool" where
  "acceptable c data \<longleftrightarrow> (\<forall>a. a_ServiceChoice a = c \<and> a_PduType a = PduTypeConfirmedServiceRequest
     \<longrightarrow> (\<exists>rd. decodeConfirmedApdu a data = Inr (a\<lparr>a_ResponseData := rd\<rparr>)))"

lemma acceptable_plain: "c \<notin> {ConfirmedServiceReadProperty, ConfirmedServiceCovNotification} \<Longrightarrow> acceptable c data"
proof -
  have "a\<lparr>a_ResponseData := a_ResponseData a\<rparr> = a" for a :: Apdu by simp
  then show "c \<notin> {ConfirmedServiceReadProperty, ConfirmedServiceCovNotification} \<Longrightarrow> acceptable c data"
    unfolding acceptable_def by (metis decodeConfirmed_plain)
qed

lemma request_served:
  assumes "Request_MarshalBinary (SetConfirmedService c (Some d) k) = Inr b" "dg_Payload dg = b"
    and "request_MarshalBinary d = Inr data" "acceptable c data"
    and "routes (PduTypeConfirmedServiceRequest, c) = Some h"
  obtains packet where "a_Payload (r_Apdu packet) = data" "a_InvokeID (r_Apdu packet) = k"
    "a_ServiceChoice (r_Apdu packet) = c" "a_MaxApdu (r_Apdu packet) = 1476" "a_PduType (r_Apdu packet) = PduTypeConfirmedServiceRequest"
    "validateRoutingSource packet = Inr ()"
    "\<forall>responses st'. h \<lparr>rr_Packet = packet, rr_Source = dg_Source dg, rr_Destination = dg_Destination dg\<rparr> st = (Inr responses, st')
      \<longrightarrow> ServeDatagram routes wr dg cst st = (let (r, cst) = writeResponses wr packet (dg_Source dg) responses cst in (r, cst, st'))"
proof -
  let ?ip = "ep_IP (dg_Source dg)" and ?port = "ep_Port (dg_Source dg)" and ?r = "SetConfirmedService c (Some d) k"
  obtain data' hdr n where data: "request_MarshalBinary d = Inr data'" and "\<not> IsBroadcast hdr" "n_ExpectingReply n"
    and n: "n_SourceNet n = 0" and "n_DestinationNet n = 0" and m: "n_SourceMAC n = None" "n_SourceLength n = 0"
    and p: "ParseRequest b (Some (?ip, ?port)) = bind_res (decodeConfirmedApdu
         (received_request ?ip ?port (r_Apdu ?r) data') data') (\<lambda>a. Inr \<lparr>r_Header = hdr, r_Npci = n, r_Apdu = a\<rparr>)"
    using assms(1) by (rule confirmed_request_received)
  have [simp]: "data' = data" using data assms(3) by simp
  let ?a = "received_request ?ip ?port (r_Apdu ?r) data"
  have q: "a_InvokeID ?a = k" "a_ServiceChoice ?a = c" "a_MaxApdu ?a = 1476" "a_PduType ?a = PduTypeConfirmedServiceRequest"
    "\<not> a_Segmented ?a" "a_Payload ?a = data"
    by (simp_all add: received_request_def received_def SetConfirmedService_def Request_Reset_def Apdu_Reset_def)
  obtain rd where rd: "decodeConfirmedApdu ?a data = Inr (?a\<lparr>a_ResponseData := rd\<rparr>)"
    using assms(4) q(2,4) by (auto simp: acceptable_def)
  let ?p = "\<lparr>r_Header = hdr, r_Npci = n, r_Apdu = ?a\<lparr>a_ResponseData := rd\<rparr>\<rparr>"
  have p': "ParseRequest b (Some (?ip, ?port)) = Inr ?p" using p rd by simp
  then have l: "unat (h_BvlcLength hdr) = length b" using Request_length_field(1) by (fastforce simp: ParseRequest_def)
  have v: "validateRoutingSource ?p = Inr ()" using n m by (simp add: validateRoutingSource_def mac_bytes_def)
  show ?thesis
  proof (rule that [of ?p])
    show "\<forall>responses st'. h \<lparr>rr_Packet = ?p, rr_Source = dg_Source dg, rr_Destination = dg_Destination dg\<rparr> st = (Inr responses, st')
      \<longrightarrow> ServeDatagram routes wr dg cst st = (let (r, cst) = writeResponses wr ?p (dg_Source dg) responses cst in (r, cst, st'))"
      using p' l v q assms(2,5) by (simp add: ServeDatagram_def serve_packet_def Let_def)
  qed (use q v in simp_all)
qed

section \<open>Acknowledgements and errors at the client\<close>

lemma answer_delivered:
  assumes "response_apdu (r_Apdu incoming) response = Inr a" "Apdu_MarshalBinary a = Inr apdu" "length apdu \<le> 1476"
    and "a_MaxApdu (r_Apdu incoming) = 1476" "validateRoutingSource incoming = Inr ()" "rs_Destination response = None"
  obtains b hdr n where "writeResponse logged incoming source response sent = (Inr (), sent @ [(source, b)])"
    "ParseRequest b (Some sender) = bind_res (Apdu_UnmarshalBinary (fst sender) (snd sender) apdu) (\<lambda>a. Inr \<lparr>r_Header = hdr, r_Npci = n, r_Apdu = a\<rparr>)"
proof -
  let ?p = "\<lparr>r_Header = (r_Header Request_Reset)\<lparr>h_Function :=
        (if rs_Broadcast response then BvlcFunctionOriginalBroadcastNpdu else BvlcFunctionOriginalUnicastNpdu)\<rparr>,
      r_Npci = response_npci (r_Npci incoming) response, r_Apdu = a\<rparr>"
  have "\<not> unat (1476 :: u16) < length apdu" "\<not> MaxApdu < length apdu" using assms(3) by (simp_all add: MaxApdu_def)
  then have p: "response_packet incoming response = Inr ?p"
    using assms(4) by (simp add: response_packet_def assms(1,2))
  have nd: "source = (case rs_Destination response of Some d \<Rightarrow> d | None \<Rightarrow> source)" using assms(6) by simp
  obtain b apdu' npci where w: "writeResponse logged incoming source response sent
      = (with_text ''responder: write response: %v'' (fst (logged source b sent)), snd (logged source b sent))"
    and m: "Apdu_MarshalBinary (r_Apdu ?p) = Inr apdu'"
    and u: "\<forall>ip port. Request_UnmarshalBinary ip port b = bind_res (Apdu_UnmarshalBinary ip port apdu') (\<lambda>a.
        Inr \<lparr>r_Header = (Request_header ?p (length apdu' + length (npci :: bytes)))\<lparr>h_ProtocolType := BACnetProtocol\<rparr>,
             r_Npci = decoded_npci (r_Npci ?p) (length npci), r_Apdu = a\<rparr>)" by (rule answer_written [OF assms(5) p nd, where wr = logged and c = sent])
  have "apdu' = apdu" using m assms(2) by simp
  with w u [rule_format, of "fst sender" "snd sender"] show ?thesis by (intro that) (simp_all add: logged_def ParseRequest_def case_prod_unfold)
qed

lemma complex_ack_delivered:
  assumes "a_PduType (r_Apdu incoming) = PduTypeConfirmedServiceRequest" "a_MaxApdu (r_Apdu incoming) = 1476" "length payload \<le> 1473"
    and "validateRoutingSource incoming = Inr ()"
  obtains b hdr n where "writeResponse logged incoming source (ComplexACK payload) sent = (Inr (), sent @ [(source, b)])"
    "ParseRequest b (Some sender) = bind_res (decodeConfirmedApdu ((received (fst sender) (snd sender) PduTypeComplexAck)\<lparr>
        a_InvokeID := a_InvokeID (r_Apdu incoming), a_ServiceChoice := a_ServiceChoice (r_Apdu incoming), a_Payload := payload\<rparr>) payload)
      (\<lambda>a. Inr \<lparr>r_Header = hdr, r_Npci = n, r_Apdu = a\<rparr>)"
proof -
  let ?a = "(r_Apdu Request_Reset)\<lparr>a_PduType := PduTypeComplexAck, a_InvokeID := a_InvokeID (r_Apdu incoming),
       a_ServiceChoice := a_ServiceChoice (r_Apdu incoming), a_Payload := payload\<rparr>"
  let ?apdu = "[0x30, a_InvokeID (r_Apdu incoming), a_ServiceChoice (r_Apdu incoming)] @ payload"
  have r: "response_apdu (r_Apdu incoming) (ComplexACK payload) = Inr ?a"
    using assms(1) by (simp add: response_apdu_def ComplexACK_def Response_zero_def correlated_def Request_Reset_def)
  have m: "Apdu_MarshalBinary ?a = Inr ?apdu"
    by (simp add: Apdu_MarshalBinary_def Apdu_header_def Request_Reset_def Apdu_Reset_def Let_def)
  have l: "length ?apdu \<le> 1476" using assms(3) by simp
  have nd: "rs_Destination (ComplexACK payload) = None" by (simp add: ComplexACK_def Response_zero_def)
  obtain b hdr n where b: "writeResponse logged incoming source (ComplexACK payload) sent = (Inr (), sent @ [(source, b)])"
    "ParseRequest b (Some sender) = bind_res (Apdu_UnmarshalBinary (fst sender) (snd sender) ?apdu) (\<lambda>a. Inr \<lparr>r_Header = hdr, r_Npci = n, r_Apdu = a\<rparr>)"
    by (rule answer_delivered [OF r m l assms(2,4) nd])
  from Apdu_complex_ack_received [OF m, of "fst sender" "snd sender"] b show ?thesis
    by (intro that) (auto simp: apdu_body_def Request_Reset_def Apdu_Reset_def)
qed

lemma simple_ack_delivered:
  assumes "a_PduType (r_Apdu incoming) = PduTypeConfirmedServiceRequest" "a_MaxApdu (r_Apdu incoming) = 1476"
    and "validateRoutingSource incoming = Inr ()"
  obtains b hdr n where "writeResponse logged incoming source SimpleACK sent = (Inr (), sent @ [(source, b)])"
    "ParseRequest b (Some sender) = Inr \<lparr>r_Header = hdr, r_Npci = n, r_Apdu = (received (fst sender) (snd sender) PduTypeSimpleAck)\<lparr>
        a_InvokeID := a_InvokeID (r_Apdu incoming), a_ServiceChoice := a_ServiceChoice (r_Apdu incoming)\<rparr>\<rparr>"
proof -
  let ?a = "(r_Apdu Request_Reset)\<lparr>a_PduType := PduTypeSimpleAck, a_InvokeID := a_InvokeID (r_Apdu incoming),
       a_ServiceChoice := a_ServiceChoice (r_Apdu incoming)\<rparr>"
  let ?apdu = "[0x20, a_InvokeID (r_Apdu incoming), a_ServiceChoice (r_Apdu incoming)]"
  have r: "response_apdu (r_Apdu incoming) SimpleACK = Inr ?a"
    using assms(1) by (simp add: response_apdu_def SimpleACK_def Response_zero_def correlated_def Request_Reset_def)
  have m: "Apdu_MarshalBinary ?a = Inr ?apdu"
    by (simp add: Apdu_MarshalBinary_def Apdu_header_def Request_Reset_def Apdu_Reset_def Let_def)
  have l: "length ?apdu \<le> 1476" by simp
  have nd: "rs_Destination SimpleACK = None" by (simp add: SimpleACK_def Response_zero_def)
  obtain b hdr n where b: "writeResponse logged incoming source SimpleACK sent = (Inr (), sent @ [(source, b)])"
    "ParseRequest b (Some sender) = bind_res (Apdu_UnmarshalBinary (fst sender) (snd sender) ?apdu) (\<lambda>a. Inr \<lparr>r_Header = hdr, r_Npci = n, r_Apdu = a\<rparr>)"
    by (rule answer_delivered [OF r m l assms(2,3) nd])
  from Apdu_simple_ack_received [OF m, of "fst sender" "snd sender"] b show ?thesis
    by (intro that) (auto simp: Request_Reset_def Apdu_Reset_def)
qed

lemma error_delivered:
  assumes "a_PduType (r_Apdu incoming) = PduTypeConfirmedServiceRequest" "a_MaxApdu (r_Apdu incoming) = 1476"
    and "validateRoutingSource incoming = Inr ()"
  obtains b hdr n where "writeResponse logged incoming source (ErrorResponse class code) sent = (Inr (), sent @ [(source, b)])"
    "ParseRequest b (Some sender) = Inr \<lparr>r_Header = hdr, r_Npci = n, r_Apdu = (received (fst sender) (snd sender) PduTypeError)\<lparr>
        a_Failed := True, a_Errored := True, a_InvokeID := a_InvokeID (r_Apdu incoming),
        a_ServiceChoice := a_ServiceChoice (r_Apdu incoming), a_ErrorClass := class, a_ErrorCode := code\<rparr>\<rparr>"
proof -
  let ?a = "(r_Apdu Request_Reset)\<lparr>a_PduType := PduTypeError, a_InvokeID := a_InvokeID (r_Apdu incoming),
       a_ServiceChoice := a_ServiceChoice (r_Apdu incoming), a_ErrorClass := class, a_ErrorCode := code\<rparr>"
  let ?apdu = "[0x50, a_InvokeID (r_Apdu incoming), a_ServiceChoice (r_Apdu incoming)] @ error_bytes class code"
  have r: "response_apdu (r_Apdu incoming) (ErrorResponse class code) = Inr ?a"
    using assms(1) by (simp add: response_apdu_def ErrorResponse_def Response_zero_def correlated_def Request_Reset_def Apdu_Reset_def)
  have m: "Apdu_MarshalBinary ?a = Inr ?apdu"
    by (simp add: Apdu_MarshalBinary_def Apdu_header_def Request_Reset_def Apdu_Reset_def Let_def)
  have t: "length (app_tag TagEnumerated (length (EncodeVarUint v))) \<le> 7" for v
    using length_encodeTag(2) [of False "Tag_zero\<lparr>TagNumber := TagEnumerated, LenValue := int (length (EncodeVarUint v))\<rparr>" 0]
    by (simp add: app_tag_def EncodeTag_def Tag_zero_def)
  have "length (app_tag TagEnumerated (length (EncodeVarUint v)) @ EncodeVarUint v) \<le> 7 + 4" for v
    unfolding length_append by (rule add_mono [OF t EncodeVar_length(2)])
  from add_mono [OF this [of "class"] this [of code]] have l: "length ?apdu \<le> 1476" by (simp add: error_bytes_def Let_def)
  have nd: "rs_Destination (ErrorResponse class code) = None" by (simp add: ErrorResponse_def Response_zero_def)
  obtain b hdr n where b: "writeResponse logged incoming source (ErrorResponse class code) sent = (Inr (), sent @ [(source, b)])"
    "ParseRequest b (Some sender) = bind_res (Apdu_UnmarshalBinary (fst sender) (snd sender) ?apdu) (\<lambda>a. Inr \<lparr>r_Header = hdr, r_Npci = n, r_Apdu = a\<rparr>)"
    by (rule answer_delivered [OF r m l assms(2,3) nd])
  from Apdu_error_received [OF m, of "fst sender" "snd sender"] b show ?thesis
    by (intro that) (auto simp: Request_Reset_def Apdu_Reset_def)
qed

text \<open>The message of an error answer.\<close>

definition error_text :: "go_error \<Rightarrow> go_error" where
  "error_text e = (let (class, code) = modelErrorClassCode e in Err (ErrorClass_String class @ '' '' @ ErrorCode_String code))"

lemma error_answer:
  "request_error \<lparr>r_Header = hdr, r_Npci = n, r_Apdu = (received ip port PduTypeError)\<lparr>a_Failed := True, a_Errored := True,
      a_InvokeID := k, a_ServiceChoice := c, a_ErrorClass := fst (modelErrorClassCode e), a_ErrorCode := snd (modelErrorClassCode e)\<rparr>\<rparr> = error_text e"
  by (simp add: request_error_def ErrorMessage_def error_text_def case_prod_unfold Let_def)

lemma modelError_eq: "modelError e = ErrorResponse (fst (modelErrorClassCode e)) (snd (modelErrorClassCode e))"
  by (simp add: modelError_def case_prod_unfold Let_def)

lemma model_error_delivered:
  assumes "a_PduType (r_Apdu incoming) = PduTypeConfirmedServiceRequest" "a_MaxApdu (r_Apdu incoming) = 1476"
    and "validateRoutingSource incoming = Inr ()"
  obtains b resp where "writeResponse logged incoming source (modelError e) sent = (Inr (), sent @ [(source, b)])"
    "ParseRequest b (Some sender) = Inr resp" "a_InvokeID (r_Apdu resp) = a_InvokeID (r_Apdu incoming)"
    "a_ServiceChoice (r_Apdu resp) = a_ServiceChoice (r_Apdu incoming)" "\<not> Successful resp" "request_error resp = error_text e"
proof (rule error_delivered [OF assms, of source "fst (modelErrorClassCode e)" "snd (modelErrorClassCode e)" sent sender])
  fix b hdr n
  assume w: "writeResponse logged incoming source (ErrorResponse (fst (modelErrorClassCode e)) (snd (modelErrorClassCode e))) sent
      = (Inr (), sent @ [(source, b)])"
    and p: "ParseRequest b (Some sender) = Inr \<lparr>r_Header = hdr, r_Npci = n, r_Apdu = (received (fst sender) (snd sender) PduTypeError)\<lparr>
        a_Failed := True, a_Errored := True, a_InvokeID := a_InvokeID (r_Apdu incoming),
        a_ServiceChoice := a_ServiceChoice (r_Apdu incoming), a_ErrorClass := fst (modelErrorClassCode e),
        a_ErrorCode := snd (modelErrorClassCode e)\<rparr>\<rparr>"
  show thesis by (rule that [OF w [folded modelError_eq] p]) (simp_all add: error_answer Successful_def)
qed

section \<open>Requests the client can send\<close>

text \<open>What a call needs of the endpoint: a free invoke ID, an open socket and a network that takes the datagram.\<close>

definition ready :: "writer \<Rightarrow> bytes \<Rightarrow> UDPAddr \<Rightarrow> u8 \<Rightarrow> Server \<Rightarrow> bool" where
  "ready wr x dev k s \<longleftrightarrow> x \<noteq> [] \<and> \<not> empty_ip (Some x) \<and> k \<noteq> 0 \<and> fst (GetInvokeID (srv_tx s) (Some (IP_String x))) = k
     \<and> UnicastConn s \<noteq> None \<and> (\<forall>b. wr b (getUdpAddr (Some x) (BroadcastPort s)) = None)
     \<and> ua_IP dev = Some x \<and> \<not> isLocalSender (Some dev) s"

lemma call_returns:
  assumes "ready wr x dev k s" "Request_MarshalBinary (SetConfirmedService c (Some d) k) = Inr b"
    and "ParseRequest reply (Some (sender_of dev)) = Inr resp" "a_InvokeID (r_Apdu resp) = k" "a_ServiceChoice (r_Apdu resp) = c"
    and "c \<noteq> ConfirmedServiceCovNotification"
  shows "\<exists>s'. confirmed_call wr (handle reply (Some dev)) WData c d (Some x) finish s = Some (finish resp, s')
    \<and> srv_sent s' = srv_sent s @ [(b, getUdpAddr (Some x) (BroadcastPort s))]"
proof -
  obtain tx where tx: "GetInvokeID (srv_tx s) (Some (IP_String x)) = (k, tx)"
    using assms(1) by (cases "GetInvokeID (srv_tx s) (Some (IP_String x))") (auto simp: ready_def)
  have "response_for k resp" using assms by (simp add: response_for_def ready_def)
  with assms confirmed_call_answered [OF tx, of c d b wr dev reply resp finish] show ?thesis by (auto simp: ready_def)
qed

lemma check_object_wf: "oid_wf object \<Longrightarrow> check_object object = Inr ()"
  by (auto simp: check_object_def oid_wf_def BacnetMaxObject_def word_le_nat_alt word_less_nat_alt)

section \<open>Reading\<close>

lemma tag_length_bounds: "n \<le> 4294967295 \<Longrightarrow> length (ctx_tag t n) \<le> 7"
  using length_encodeTag(2) [of False "Tag_zero\<lparr>TagNumber := t, LenValue := int n\<rparr>"]
  by (simp add: ctx_tag_def EncodeContextTag_def Tag_zero_def)

lemma read_request:
  assumes "oid_wf object"
  obtains data where "request_MarshalBinary (read_payload object pid) = Inr data" "length data \<le> 1472"
    "Property_UnmarshalBinary Property_zero data = Inr (decoded_property [] (Property_zero\<lparr>p_ObjectId := Some object, p_ID := pid\<rparr>) [] None (length data))"
proof -
  let ?p = "Property_zero\<lparr>p_ObjectId := Some object, p_ID := pid\<rparr>"
  let ?d = "ctx_tag 0 4 @ ObjectId_MarshalBinary object @ ctx_tag 1 (length (EncodeVarUint pid)) @ EncodeVarUint pid"
  have m: "Property_MarshalBinary ?p = Inr ?d" by (simp add: Property_MarshalBinary_def Property_zero_def Let_def)
  have "length ?d \<le> 1472" 
  proof -
    have "length (ctx_tag 0 4) + (length (ctx_tag 1 (length (EncodeVarUint pid))) + length (EncodeVarUint pid)) \<le> 7 + (7 + 4)"
      by (intro add_mono EncodeVar_length tag_length_bounds) simp_all
    then show ?thesis by simp
  qed
  moreover have "Property_UnmarshalBinary Property_zero ?d = Inr (decoded_property [] ?p [] None (length ?d))"
    using Property_roundtrip_values [of ?p object "[]" ?d "[]" Property_zero] m assms by (simp add: Property_zero_def)
  moreover have "request_MarshalBinary (read_payload object pid) = Inr ?d" using m by (simp add: request_MarshalBinary_def read_payload_def ReadPropertyPdu_MarshalBinary_def)
  ultimately show ?thesis by (intro that)
qed

lemma decodeReadProperty_request:
  assumes "Property_UnmarshalBinary Property_zero data = Inr (decoded_property [] (Property_zero\<lparr>p_ObjectId := Some object, p_ID := pid\<rparr>) [] None (length data))"
  shows "decodeReadProperty data = Inr (fromBACnetObjectID object, \<lparr>sr_ID = pid, sr_ArrayIndex = None\<rparr>)"
  using assms by (simp add: decodeReadProperty_def decoded_property_def property_reference_def has_index_def Property_zero_def)

lemma read_result_received:
  assumes "encodeReadPropertyResult obj \<lparr>sr_ID = pid, sr_ArrayIndex = None\<rparr> vs = Inr payload" "map_res toPropertyValue vs = Inr pvs"
    and "\<forall>v \<in> set pvs. wire_ok v" "vs \<noteq> []" "ucast (id_Type obj) \<le> BacnetMaxObject"
  obtains p where "ReadPropertyPdu_UnmarshalBinary True payload = Inr p" "p_Values p = map (Some \<circ> wire_of) pvs"
proof -
  obtain o1 where o1: "toBACnetObjectID obj = Inr o1" and m: "Property_MarshalBinary (Property_zero\<lparr>p_ObjectId := Some o1, p_ID := pid,
         p_HasIndex := False, p_Index := 0, p_Values := map Some pvs\<rparr>) = Inr payload"
    using assms(1,2) by (auto simp: encodeReadPropertyResult_def bind_res_eq_Inr)
  have wf: "oid_wf o1" using o1 assms(5) SetInstanceNumber_wf(1) by (fastforce simp: toBACnetObjectID_def)
  have "pvs \<noteq> []" using assms(2,4) map_res_length by fastforce
  with Property_roundtrip_values [OF _ wf _ _ assms(3) m, of "[]" Property_zero] show ?thesis
    by (intro that) (auto simp: ReadPropertyPdu_UnmarshalBinary_def Property_zero_def decoded_property_def)
qed

text \<open>C1. A read through the whole stack.  The client's \<^verbatim>\<open>ReadObjectProperty\<close> encodes its request; the simulated device, behind the
  responder, parses it, reads the property and writes one datagram back to where the request came from, without changing
  its state; and the call, when that datagram arrives, returns the values the device holds, as the wire carries them, or,
  when the device cannot read the property, the error the device gave.\<close>

theorem read_end_to_end:
  assumes "ready wr x dev k s" "oid_wf object"
    and "dg_Payload dg = b" "Request_MarshalBinary (SetConfirmedService ConfirmedServiceReadProperty (Some (read_payload object pid)) k) = Inr b"
    and "\<forall>vs. Device_ReadProperty (ap_Device a) (fromBACnetObjectID object) pid None = Inr vs \<longrightarrow>
      vs \<noteq> [] \<and> map_res toPropertyValue vs = Inr pvs \<and> (\<forall>v \<in> set pvs. wire_ok v)
      \<and> encodeReadPropertyResult (fromBACnetObjectID object) \<lparr>sr_ID = pid, sr_ArrayIndex = None\<rparr> vs = Inr payload \<and> length payload \<le> 1473"
  shows "\<exists>reply s'. ServeDatagram (Register now Map.empty) logged dg [] a = (Inr (), [(dg_Source dg, reply)], a)
    \<and> ReadObjectProperty wr (handle reply (Some dev)) WData (Some x) object pid s =
        Some (case Device_ReadProperty (ap_Device a) (fromBACnetObjectID object) pid None of
            Inr vs \<Rightarrow> Inr (map (Some \<circ> wire_of) pvs) | Inl e \<Rightarrow> Inl (error_text e), s')
    \<and> srv_sent s' = srv_sent s @ [(dg_Payload dg, getUdpAddr (Some x) (BroadcastPort s))]"
proof -
  obtain data where data: "request_MarshalBinary (read_payload object pid) = Inr data" "length data \<le> 1472"
    and dec: "Property_UnmarshalBinary Property_zero data = Inr (decoded_property [] (Property_zero\<lparr>p_ObjectId := Some object, p_ID := pid\<rparr>) [] None (length data))"
    using assms(2) by (rule read_request)
  have route: "Register now Map.empty (PduTypeConfirmedServiceRequest, ConfirmedServiceReadProperty) = Some handleReadProperty"
    by (simp add: Register_def Handle_def)
  have ok: "acceptable ConfirmedServiceReadProperty data"
    using dec by (auto simp: acceptable_def decodeConfirmedApdu_def ReadPropertyPdu_UnmarshalBinary_def)
  obtain packet where pk: "a_Payload (r_Apdu packet) = data"
    "a_InvokeID (r_Apdu packet) = k" "a_ServiceChoice (r_Apdu packet) = ConfirmedServiceReadProperty" "a_MaxApdu (r_Apdu packet) = 1476"
    "a_PduType (r_Apdu packet) = PduTypeConfirmedServiceRequest" "validateRoutingSource packet = Inr ()"
    and sv: "\<forall>responses st'. handleReadProperty \<lparr>rr_Packet = packet, rr_Source = dg_Source dg, rr_Destination = dg_Destination dg\<rparr> a = (Inr responses, st')
      \<longrightarrow> ServeDatagram (Register now Map.empty) logged dg [] a =
        (let (r, cst) = writeResponses logged packet (dg_Source dg) responses [] in (r, cst, st'))"
    by (rule request_served [where routes = "Register now Map.empty" and h = handleReadProperty and c = ConfirmedServiceReadProperty
          and st = a and wr = logged and cst = "[]", OF assms(4,3) data(1) ok route])
  let ?d = "Device_ReadProperty (ap_Device a) (fromBACnetObjectID object) pid None"
  have check: "check_object object = Inr ()" using assms(2) by (rule check_object_wf)
  have call: "ReadObjectProperty wr (handle reply (Some dev)) WData (Some x) object pid s =
      confirmed_call wr (handle reply (Some dev)) WData ConfirmedServiceReadProperty (read_payload object pid) (Some x) read_answer s" for reply
    using assms(1) check by (simp add: ReadObjectProperty_def readProperty_def ready_def)
  show ?thesis
  proof (cases ?d)
    case (Inl e)
    then obtain t where t: "e = Err t" using safe_InlD [OF safe_ReadProperty Inl] by (cases e) auto
    obtain reply resp where w: "writeResponse logged packet (dg_Source dg) (modelError e) [] = (Inr (), [] @ [(dg_Source dg, reply)])"
      and p: "ParseRequest reply (Some (sender_of dev)) = Inr resp" "a_InvokeID (r_Apdu resp) = a_InvokeID (r_Apdu packet)"
        "a_ServiceChoice (r_Apdu resp) = a_ServiceChoice (r_Apdu packet)" "\<not> Successful resp" "request_error resp = error_text e"
      using pk(5,4,6) by (rule model_error_delivered)
    have "handleReadProperty \<lparr>rr_Packet = packet, rr_Source = dg_Source dg, rr_Destination = dg_Destination dg\<rparr> a = (Inr [modelError e], a)"
      using Inl t decodeReadProperty_request [OF dec] pk(1) by (simp add: handleReadProperty_def)
    from sv [rule_format, OF this] w have "ServeDatagram (Register now Map.empty) logged dg [] a = (Inr (), [(dg_Source dg, reply)], a)" by simp
    moreover obtain s' where "confirmed_call wr (handle reply (Some dev)) WData ConfirmedServiceReadProperty (read_payload object pid) (Some x) read_answer s
        = Some (Inl (error_text e), s')" "srv_sent s' = srv_sent s @ [(b, getUdpAddr (Some x) (BroadcastPort s))]"
      using call_returns [OF assms(1,4) p(1), of read_answer] p pk(2,3) by (auto simp: read_answer_def)
    ultimately show ?thesis using Inl call assms(3) by auto
  next
    case (Inr vs)
    with assms(5) have vs: "vs \<noteq> []" "map_res toPropertyValue vs = Inr pvs" "\<forall>v \<in> set pvs. wire_ok v" "length payload \<le> 1473"
      "encodeReadPropertyResult (fromBACnetObjectID object) \<lparr>sr_ID = pid, sr_ArrayIndex = None\<rparr> vs = Inr payload" by auto
    have "ucast (id_Type (fromBACnetObjectID object)) \<le> BacnetMaxObject" using assms(2) by (simp add: oid_wf_def fromBACnetObjectID_def)
    from read_result_received [OF vs(5,2,3,1) this] obtain q where
      q: "ReadPropertyPdu_UnmarshalBinary True payload = Inr q" "p_Values q = map (Some \<circ> wire_of) pvs" .
    obtain reply hdr n where w: "writeResponse logged packet (dg_Source dg) (ComplexACK payload) [] = (Inr (), [] @ [(dg_Source dg, reply)])"
      and p: "ParseRequest reply (Some (sender_of dev)) = bind_res (decodeConfirmedApdu
        ((received (fst (sender_of dev)) (snd (sender_of dev)) PduTypeComplexAck)\<lparr>a_InvokeID := a_InvokeID (r_Apdu packet),
          a_ServiceChoice := a_ServiceChoice (r_Apdu packet), a_Payload := payload\<rparr>) payload) (\<lambda>a. Inr \<lparr>r_Header = hdr, r_Npci = n, r_Apdu = a\<rparr>)"
      by (rule complex_ack_delivered [OF pk(5,4) vs(4) pk(6)])
    then obtain resp where resp: "ParseRequest reply (Some (sender_of dev)) = Inr resp" "a_InvokeID (r_Apdu resp) = k"
      "a_ServiceChoice (r_Apdu resp) = ConfirmedServiceReadProperty" "read_answer resp = Inr (map (Some \<circ> wire_of) pvs)"
      using q pk(2,3) by (auto simp: decodeConfirmedApdu_def received_def Apdu_Reset_def read_answer_def Successful_def)
    have "handleReadProperty \<lparr>rr_Packet = packet, rr_Source = dg_Source dg, rr_Destination = dg_Destination dg\<rparr> a = (Inr [ComplexACK payload], a)"
      using Inr vs(5) decodeReadProperty_request [OF dec] pk(1) by (simp add: handleReadProperty_def)
    from sv [rule_format, OF this] w have "ServeDatagram (Register now Map.empty) logged dg [] a = (Inr (), [(dg_Source dg, reply)], a)" by simp
    moreover obtain s' where "confirmed_call wr (handle reply (Some dev)) WData ConfirmedServiceReadProperty (read_payload object pid) (Some x) read_answer s
        = Some (Inr (map (Some \<circ> wire_of) pvs), s')" "srv_sent s' = srv_sent s @ [(b, getUdpAddr (Some x) (BroadcastPort s))]"
      using call_returns [OF assms(1,4) resp(1-3), of read_answer] resp(4) by auto
    ultimately show ?thesis using Inr call assms(3) by auto
  qed
qed

section \<open>Writing\<close>

lemma priority_decodes:
  assumes "1 \<le> priority" "priority \<le> 16"
  shows "decodeContextUnsigned (ctx_tag 4 1 @ [priority]) 4 = Inr (ucast priority, length (ctx_tag 4 1) + 1)"
  using DecodeTag_ctx_tag [of 1 4 "[priority]"]
  by (simp add: decodeContextUnsigned_def decodeContext_def subslice_def DecodeVarUint_def)

lemma write_request:
  assumes "oid_wf object" "wire_ok \<lparr>pv_Type = tag, pv_Value = val\<rparr>" "priority \<le> 16"
    and "request_MarshalBinary (write_payload object pid tag priority val) = Inr data"
    and "fromPropertyValue (Some (wire_of \<lparr>pv_Type = tag, pv_Value = val\<rparr>)) = Inr v"
  shows "decodeWriteProperty data = Inr (fromBACnetObjectID object, \<lparr>sr_ID = pid, sr_ArrayIndex = None\<rparr>, [v], priority)"
proof -
  let ?v = "\<lparr>pv_Type = tag, pv_Value = val\<rparr>"
  let ?p = "Property_zero\<lparr>p_ObjectId := Some object, p_Values := [Some ?v], p_ID := pid\<rparr>"
  let ?rest = "if priority > 0 then ctx_tag 4 1 @ [priority] else []"
  have "\<not> priority > 16" using assms(3) by simp
  then obtain pb where pb: "Property_MarshalBinary ?p = Inr pb" "data = pb @ ?rest"
    using assms(4) by (auto simp: request_MarshalBinary_def write_payload_def WriteProperty_MarshalBinary_def bind_res_eq_Inr split: if_splits)
  from Property_roundtrip_values [of ?p object "[?v]" pb ?rest Property_zero] pb assms(1,2)
  have u: "Property_UnmarshalBinary Property_zero data = Inr (decoded_property [] ?p [Some (wire_of ?v)] None (length pb))"
    by (simp add: Property_zero_def)
  have pr: "1 \<le> priority" if "priority > 0" using that by (simp add: word_le_nat_alt word_less_nat_alt)
  have c: "\<not> (ucast priority < (1 :: u32) \<or> ucast priority > (ucast PrioritySlots :: u32))" if "priority > 0"
    using that assms(3) pr by (simp add: word_le_nat_alt word_less_nat_alt PrioritySlots_def)
  show ?thesis
  proof (cases "priority > 0")
    case True
    with u assms(5) priority_decodes [OF pr assms(3)] c pb(2) show ?thesis
      by (simp add: decodeWriteProperty_def decoded_property_def property_reference_def has_index_def Property_zero_def)
  next
    case False
    then have "priority = 0" using word_neq_0_conv by blast
    with u assms(5) pb(2) show ?thesis
      by (simp add: decodeWriteProperty_def decoded_property_def property_reference_def has_index_def Property_zero_def)
  qed
qed

lemma handleWriteProperty_outcome:
  assumes "application_inv ids a" "decodeWriteProperty (payload_of request) = Inr (obj, \<lparr>sr_ID = pid, sr_ArrayIndex = None\<rparr>, vs, priority)"
  shows "\<exists>ns a'. ap_Device a' = snd (Device_WriteProperty (ap_Device a) obj pid vs priority)
    \<and> handleWriteProperty now request a = (Inr ((case fst (Device_WriteProperty (ap_Device a) obj pid vs priority) of
        Inl e \<Rightarrow> modelError e | Inr _ \<Rightarrow> SimpleACK) # ns), a')"
proof -
  let ?w = "Device_WriteProperty (ap_Device a) obj pid vs priority"
  have dp: "device_profile (ap_Device a)" using assms(1) by (simp add: application_inv_def)
  show ?thesis
  proof (cases "fst ?w")
    case (Inl e)
    with safe_WriteProperty [OF dp, of obj pid vs priority] obtain t where "e = Err t" by (cases e) auto
    with Inl have "handleWriteProperty now request a = (Inr [modelError e], a\<lparr>ap_Device := snd ?w\<rparr>)"
      by (cases ?w) (simp add: handleWriteProperty_def assms(2))
    with Inl show ?thesis by (intro exI [of _ "[]"] exI [of _ "a\<lparr>ap_Device := snd ?w\<rparr>"]) simp
  next
    case (Inr u)
    have "application_inv ids (a\<lparr>ap_Device := snd ?w\<rparr>)"
      using assms(1) dp by (auto simp: application_inv_def intro: device_profile_WriteProperty)
    from notifications_return [OF this] obtain ns a' where
      "notifications now obj (a\<lparr>ap_Device := snd ?w\<rparr>) = (Inr ns, a')" "ap_Device a' = snd ?w" by fastforce
    with Inr show ?thesis
      by (intro exI [of _ ns] exI [of _ a']) (cases ?w, simp add: handleWriteProperty_def assms(2))
  qed
qed

lemma writeResponses_first:
  assumes "writeResponse logged incoming source r sent = (Inr (), sent @ [x])"
  shows "\<exists>res more. writeResponses logged incoming source (r # rs) sent = (res, sent @ x # more)"
proof -
  have "\<exists>res more. writeResponses logged incoming source rs sent = (res, sent @ more)" for sent
  proof (induction rs arbitrary: sent)
    case (Cons r rs)
    have "\<exists>res more. writeResponse logged incoming source r sent = (res, sent @ more)"
      by (auto simp: writeResponse_def logged_def Let_def split: sum.splits)
    then obtain res more where w: "writeResponse logged incoming source r sent = (res, sent @ more)" by blast
    from Cons.IH [of "sent @ more"] w show ?case by (cases res) auto
  qed simp
  from this [of "sent @ [x]"] assms show ?thesis by auto
qed

text \<open>C2. A write through the whole stack.  The client's \<^verbatim>\<open>WriteObjectProperty\<close> encodes the value and the priority; the simulated
  device decodes them and performs the write on its object; its first datagram goes back to where the request came from,
  and the call returns success exactly when the device accepted the write, and the device's error otherwise.\<close>

theorem write_end_to_end:
  assumes "ready wr x dev k s" "oid_wf object" "application_inv ids a" "priority \<le> 16" "wire_ok \<lparr>pv_Type = tag, pv_Value = val\<rparr>"
    and "fromPropertyValue (Some (wire_of \<lparr>pv_Type = tag, pv_Value = val\<rparr>)) = Inr v"
    and "Request_MarshalBinary (SetConfirmedService ConfirmedServiceWriteProperty (Some (write_payload object pid tag priority val)) k) = Inr (dg_Payload dg)"
  shows "\<exists>res reply more a' s'. ServeDatagram (Register now Map.empty) logged dg [] a = (res, (dg_Source dg, reply) # more, a')
    \<and> ap_Device a' = snd (Device_WriteProperty (ap_Device a) (fromBACnetObjectID object) pid [v] priority)
    \<and> WriteObjectProperty wr (handle reply (Some dev)) WData (Some x) object pid tag priority val s =
        Some (case fst (Device_WriteProperty (ap_Device a) (fromBACnetObjectID object) pid [v] priority) of
            Inr _ \<Rightarrow> Inr () | Inl e \<Rightarrow> Inl (error_text e), s')
    \<and> srv_sent s' = srv_sent s @ [(dg_Payload dg, getUdpAddr (Some x) (BroadcastPort s))]"
proof -
  let ?d = "write_payload object pid tag priority val"
  let ?w = "fst (Device_WriteProperty (ap_Device a) (fromBACnetObjectID object) pid [v] priority)"
  obtain data where data: "request_MarshalBinary ?d = Inr data"
    using confirmed_request_received [OF assms(7)] by metis
  note dec = write_request [OF assms(2,5,4) data assms(6)]
  have route: "Register now Map.empty (PduTypeConfirmedServiceRequest, ConfirmedServiceWriteProperty) = Some (handleWriteProperty now)"
    by (simp add: Register_def Handle_def)
  have ok: "acceptable ConfirmedServiceWriteProperty data" by (rule acceptable_plain) simp
  obtain packet where pk: "a_Payload (r_Apdu packet) = data"
    "a_InvokeID (r_Apdu packet) = k" "a_ServiceChoice (r_Apdu packet) = ConfirmedServiceWriteProperty" "a_MaxApdu (r_Apdu packet) = 1476"
    "a_PduType (r_Apdu packet) = PduTypeConfirmedServiceRequest" "validateRoutingSource packet = Inr ()"
    and sv: "\<forall>responses st'. handleWriteProperty now \<lparr>rr_Packet = packet, rr_Source = dg_Source dg, rr_Destination = dg_Destination dg\<rparr> a = (Inr responses, st')
      \<longrightarrow> ServeDatagram (Register now Map.empty) logged dg [] a =
        (let (r, cst) = writeResponses logged packet (dg_Source dg) responses [] in (r, cst, st'))"
    by (rule request_served [where routes = "Register now Map.empty" and h = "handleWriteProperty now" and c = ConfirmedServiceWriteProperty
          and st = a and wr = logged and cst = "[]", OF assms(7) refl data ok route])
  obtain ns a' where a': "ap_Device a' = snd (Device_WriteProperty (ap_Device a) (fromBACnetObjectID object) pid [v] priority)"
    and h: "handleWriteProperty now \<lparr>rr_Packet = packet, rr_Source = dg_Source dg, rr_Destination = dg_Destination dg\<rparr> a
      = (Inr ((case ?w of Inl e \<Rightarrow> modelError e | Inr _ \<Rightarrow> SimpleACK) # ns), a')"
    using handleWriteProperty_outcome [OF assms(3), of "\<lparr>rr_Packet = packet, rr_Source = dg_Source dg, rr_Destination = dg_Destination dg\<rparr>"
        "fromBACnetObjectID object" pid "[v]" priority now] dec pk(1) by auto
  obtain reply resp where w: "writeResponse logged packet (dg_Source dg) (case ?w of Inl e \<Rightarrow> modelError e | Inr _ \<Rightarrow> SimpleACK) []
      = (Inr (), [] @ [(dg_Source dg, reply)])"
    and p: "ParseRequest reply (Some (sender_of dev)) = Inr resp" "a_InvokeID (r_Apdu resp) = k"
      "a_ServiceChoice (r_Apdu resp) = ConfirmedServiceWriteProperty"
    and ans: "done_answer resp = (case ?w of Inr _ \<Rightarrow> Inr () | Inl e \<Rightarrow> Inl (error_text e))"
  proof (cases ?w)
    case (Inl e)
    show thesis
      by (rule model_error_delivered [OF pk(5,4,6), of "dg_Source dg" e "[]" "sender_of dev"])
        (use Inl pk(2,3) in \<open>auto intro!: that simp: done_answer_def\<close>)
  next
    case (Inr u)
    show thesis
      by (rule simple_ack_delivered [OF pk(5,4,6), of "dg_Source dg" "[]" "sender_of dev"])
        (use Inr pk(2,3) in \<open>auto intro!: that simp: done_answer_def Successful_def received_def Apdu_Reset_def\<close>)
  qed
  from writeResponses_first [OF w, of ns] sv h obtain res more where
    "ServeDatagram (Register now Map.empty) logged dg [] a = (res, (dg_Source dg, reply) # more, a')" by fastforce
  moreover have "WriteObjectProperty wr (handle reply (Some dev)) WData (Some x) object pid tag priority val s =
      confirmed_call wr (handle reply (Some dev)) WData ConfirmedServiceWriteProperty ?d (Some x) done_answer s"
    using assms(1) check_object_wf [OF assms(2)] by (simp add: WriteObjectProperty_def writeProperty_def ready_def)
  moreover from call_returns [OF assms(1,7) p, of done_answer] obtain s' where
    "confirmed_call wr (handle reply (Some dev)) WData ConfirmedServiceWriteProperty ?d (Some x) done_answer s = Some (done_answer resp, s')" "srv_sent s' = srv_sent s @ [(dg_Payload dg, getUdpAddr (Some x) (BroadcastPort s))]"
    by auto
  ultimately show ?thesis using a' ans by auto
qed

section \<open>An exchange with the device of the example scenario\<close>

definition demo_client :: Server where
  "demo_client = (Configure 47808 False TxState_init)\<lparr>UnicastConn := Some 47808\<rparr>"

definition demo_address :: bytes where
  "demo_address = [10, 0, 0, 1]"

lemma demo_ready: "ready (\<lambda>_ _. None) demo_address \<lparr>ua_IP = Some demo_address, ua_Port = 47808\<rparr> 1 demo_client"
proof -
  have e: "\<not> empty_ip (Some demo_address)" by code_simp
  show ?thesis
    using e by (simp add: ready_def demo_client_def demo_address_def GetInvokeID_def TryGetInvokeID_init isLocalSender_def Configure_def)
qed

lemma one_device_object:
  assumes "BuildNetwork one_device = Inr n" "Network_Device n 5 = Inr d"
  shows "map_of (sd_Objects d) \<lparr>id_Type = 19, id_Instance = 1\<rparr> = Some (add_scalar 74 2 (Any (VUint32 3))
    (set_property 85 (scalarProperty 85 2 (Any (VUint32 1)) True\<lparr>sp_COVIncrement := 0, sp_MinimumUnsigned := 1, sp_MaximumUnsigned := 3\<rparr>)
      (addCommonProperties (ascii ''m'') [] \<lparr>so_ID = \<lparr>id_Type = 19, id_Instance = 1\<rparr>, so_Name = ascii ''m'', so_Properties = [],
        so_OutOfService = False\<rparr>)))"
  using assms by (auto simp add: build_defs one_device_parts f64_zero Let_def)

lemma one_device_values:
  assumes "BuildNetwork one_device = Inr n" "Network_Device n 5 = Inr d"
  shows "Device_ReadProperty d \<lparr>id_Type = 19, id_Instance = 1\<rparr> 85 None = Inr [\<lparr>v_Tag = 2, v_Value = Any (VUint32 1)\<rparr>]"
    and "fst (Device_WriteProperty d \<lparr>id_Type = 19, id_Instance = 1\<rparr> 85 [\<lparr>v_Tag = 2, v_Value = Any (VUint32 2)\<rparr>] 0) = Inr ()"
  unfolding Device_ReadProperty_def Device_WriteProperty_def one_device_object [OF assms] option.case
  by code_simp+

definition demo_object :: ObjectId where
  "demo_object = \<lparr>oid_Type = 19, oid_Instance = 1, extendedInstance = 0\<rparr>"

definition demo_device :: UDPAddr where
  "demo_device = \<lparr>ua_IP = Some demo_address, ua_Port = 47808\<rparr>"

definition demo_datagram :: "bytes \<Rightarrow> Datagram" where
  "demo_datagram b = \<lparr>dg_Payload = b, dg_Source = NewEndpoint [10, 0, 0, 9] 47808, dg_Destination = NewEndpoint [10, 0, 0, 1] 47808\<rparr>"

lemma demo_octets:
  "request_MarshalBinary (read_payload demo_object 85) = Inr [0x0c, 4, 0xc0, 0, 1, 0x19, 85]"
  "request_MarshalBinary (write_payload demo_object 85 2 0 (VUint32 2)) = Inr [0x0c, 4, 0xc0, 0, 1, 0x19, 85, 0x3e, 0x21, 2, 0x3f]"
  "encodeReadPropertyResult \<lparr>id_Type = 19, id_Instance = 1\<rparr> \<lparr>sr_ID = 85, sr_ArrayIndex = None\<rparr> [\<lparr>v_Tag = 2, v_Value = Any (VUint32 1)\<rparr>]
     = Inr [0x0c, 4, 0xc0, 0, 1, 0x19, 85, 0x3e, 0x21, 1, 0x3f]"
  "oid_wf demo_object" "fromBACnetObjectID demo_object = \<lparr>id_Type = 19, id_Instance = 1\<rparr>"
  "wire_of \<lparr>pv_Type = 2, pv_Value = VUint32 k\<rparr> = \<lparr>pv_Type = 2, pv_Value = VUint32 k\<rparr>"
  "fromPropertyValue (Some \<lparr>pv_Type = 2, pv_Value = VUint32 2\<rparr>) = Inr \<lparr>v_Tag = 2, v_Value = Any (VUint32 2)\<rparr>"
  by code_simp+

theorem read_end_to_end_witness:
  "\<exists>n d b reply s'. BuildNetwork one_device = Inr n \<and> Network_Device n 5 = Inr d
     \<and> ServeDatagram (Register ManualClock_Now Map.empty) logged (demo_datagram b) [] (NewApplication d (NewManualClock 0))
         = (Inr (), [(NewEndpoint [10, 0, 0, 9] 47808, reply)], NewApplication d (NewManualClock 0))
     \<and> ReadObjectProperty (\<lambda>_ _. None) (handle reply (Some demo_device)) WData (Some demo_address) demo_object 85 demo_client
         = Some (Inr [Some \<lparr>pv_Type = 2, pv_Value = VUint32 1\<rparr>], s')
     \<and> srv_sent s' = [(b, demo_device)]"
proof -
  obtain n d where n: "BuildNetwork one_device = Inr n" "Network_Device n 5 = Inr d" using one_device_builds by auto
  note v = one_device_values(1) [OF n]
  obtain b where b: "Request_MarshalBinary (SetConfirmedService ConfirmedServiceReadProperty (Some (read_payload demo_object 85)) 1) = Inr b"
    using confirmed_request_encodes [OF demo_octets(1)] by fastforce
  have "\<exists>reply s'. ServeDatagram (Register ManualClock_Now Map.empty) logged (demo_datagram b) [] (NewApplication d (NewManualClock 0))
         = (Inr (), [(dg_Source (demo_datagram b), reply)], NewApplication d (NewManualClock 0))
     \<and> ReadObjectProperty (\<lambda>_ _. None) (handle reply (Some demo_device)) WData (Some demo_address) demo_object 85 demo_client
         = Some (case Device_ReadProperty (ap_Device (NewApplication d (NewManualClock 0))) (fromBACnetObjectID demo_object) 85 None of
            Inr vs \<Rightarrow> Inr (map (Some \<circ> wire_of) [\<lparr>pv_Type = 2, pv_Value = VUint32 1\<rparr>]) | Inl e \<Rightarrow> Inl (error_text e), s')
     \<and> srv_sent s' = srv_sent demo_client @ [(dg_Payload (demo_datagram b), getUdpAddr (Some demo_address) (BroadcastPort demo_client))]"
    by (rule read_end_to_end [OF demo_ready [folded demo_device_def] demo_octets(4) _ b,
          where payload = "[0x0c, 4, 0xc0, 0, 1, 0x19, 85, 0x3e, 0x21, 1, 0x3f]"])
      (simp_all add: demo_datagram_def NewApplication_def v demo_octets(3,5) toPropertyValue_def wire_ok_def wire_ok_value_def)
  then show ?thesis using n v demo_octets(5,6)
    by (auto simp: demo_datagram_def NewApplication_def demo_client_def demo_device_def Configure_def getUdpAddr_def)
qed

theorem write_end_to_end_witness:
  "\<exists>n d b res reply more a' s'. BuildNetwork one_device = Inr n \<and> Network_Device n 5 = Inr d
     \<and> ServeDatagram (Register ManualClock_Now Map.empty) logged (demo_datagram b) [] (NewApplication d (NewManualClock 0))
         = (res, (NewEndpoint [10, 0, 0, 9] 47808, reply) # more, a')
     \<and> WriteObjectProperty (\<lambda>_ _. None) (handle reply (Some demo_device)) WData (Some demo_address) demo_object 85 2 0 (VUint32 2) demo_client
         = Some (Inr (), s')"
proof -
  obtain n d where n: "BuildNetwork one_device = Inr n" "Network_Device n 5 = Inr d" using one_device_builds by auto
  note v = one_device_values(2) [OF n]
  obtain b where b: "Request_MarshalBinary (SetConfirmedService ConfirmedServiceWriteProperty
      (Some (write_payload demo_object 85 2 0 (VUint32 2))) 1) = Inr b"
    using confirmed_request_encodes [OF demo_octets(2)] by fastforce
  have inv: "application_inv (object_ids d) (NewApplication d (NewManualClock 0))"
    by (rule application_inv_init [OF conjunct1 [OF BuildNetwork_profile [OF n]]])
  from write_end_to_end [OF demo_ready [folded demo_device_def] demo_octets(4) inv, of 0 2 "VUint32 2"
      "\<lparr>v_Tag = 2, v_Value = Any (VUint32 2)\<rparr>" 85 "demo_datagram b" ManualClock_Now] b
  have "\<exists>res reply more a' s'. ServeDatagram (Register ManualClock_Now Map.empty) logged (demo_datagram b) [] (NewApplication d (NewManualClock 0))
         = (res, (NewEndpoint [10, 0, 0, 9] 47808, reply) # more, a')
     \<and> WriteObjectProperty (\<lambda>_ _. None) (handle reply (Some demo_device)) WData (Some demo_address) demo_object 85 2 0 (VUint32 2) demo_client
         = Some (Inr (), s')"
    by (auto simp: demo_octets(5-7) wire_ok_def wire_ok_value_def demo_datagram_def NewApplication_def v)
  with n show ?thesis by blast
qed

end
