(* ===== verification/Lifecycle.thy ===== *)
theory Lifecycle
  imports Client
begin

text \<open>
  Starting and stopping the client endpoint: \<^verbatim>\<open>bacnet/server_posix.go\<close>, \<^verbatim>\<open>server_config.go\<close>, the life-cycle
  part of \<^verbatim>\<open>server.go\<close> and the interface lookup of \<^verbatim>\<open>util.go\<close>.  Every call of \<^verbatim>\<open>Listen\<close> and of \<^verbatim>\<open>Shutdown\<close>
  runs in a goroutine of its own; a state holds the endpoint, the sockets and the point each goroutine has reached,
  and one step is one critical section or one call to the operating system, so that every interleaving is a run.
  A socket is a number.
\<close>

section \<open>Configuration\<close>

record ServerConfig =
  sc_InterfaceName :: string
  sc_DefaultTimeout :: int      \<comment> \<open>nanoseconds\<close>
  sc_ReceiveErrors :: bool
  sc_ServerBBMDPort :: u16
  sc_ListenPort :: u16

definition NewServerConfig :: ServerConfig where
  "NewServerConfig = \<lparr>sc_InterfaceName = ''eno0'', sc_DefaultTimeout = 10 * 10 ^ 9, sc_ReceiveErrors = False,
     sc_ServerBBMDPort = 0xbac0, sc_ListenPort = 0xbac0\<rparr>"

definition SetInterfaceName :: "string \<Rightarrow> ServerConfig \<Rightarrow> ServerConfig" where
  "SetInterfaceName name s = s\<lparr>sc_InterfaceName := name\<rparr>"

definition SetDefaultTimeout :: "int \<Rightarrow> ServerConfig \<Rightarrow> ServerConfig" where
  "SetDefaultTimeout timeout s = s\<lparr>sc_DefaultTimeout := timeout\<rparr>"

definition SetReceiveErrors :: "bool \<Rightarrow> ServerConfig \<Rightarrow> ServerConfig" where
  "SetReceiveErrors receive s = s\<lparr>sc_ReceiveErrors := receive\<rparr>"

definition SetServerBBMDPort :: "u16 \<Rightarrow> ServerConfig \<Rightarrow> ServerConfig" where
  "SetServerBBMDPort port s = s\<lparr>sc_ServerBBMDPort := port\<rparr>"

definition SetListenPort :: "u16 \<Rightarrow> ServerConfig \<Rightarrow> ServerConfig" where
  "SetListenPort port s = s\<lparr>sc_ListenPort := port\<rparr>"

lemmas config_setters = SetInterfaceName_def SetDefaultTimeout_def SetReceiveErrors_def SetServerBBMDPort_def SetListenPort_def

record networkSet =
  ns_InterfaceName :: string
  ns_IPv4 :: bytes
  ns_BroadcastIPv4 :: bytes

text \<open>An address of an interface, as \<^verbatim>\<open>net.ParseCIDR\<close> reads it: the address and the mask, or nothing.\<close>

type_synonym cidr = "(bytes \<times> bytes) option"

fun source_address :: "cidr list \<Rightarrow> (bytes \<times> bytes) result" where
  "source_address [] = Inl (Err ''no valid IPv4 was found'')"
| "source_address (None # addrs) = source_address addrs"
| "source_address (Some (address, netmask) # addrs) =
     (case IP_To4 address of
        None \<Rightarrow> source_address addrs
      | Some ip \<Rightarrow>
          if length netmask < 4 then Inl Panic
          else Inr (ip, map (\<lambda>i. (ip ! i) OR NOT (netmask ! i)) [0, 1, 2, 3]))"

definition getNetworkSet :: "(string \<Rightarrow> cidr list result) \<Rightarrow> string \<Rightarrow> networkSet result" where
  "getNetworkSet lookup ifname =
     (if ifname = [] then Inr \<lparr>ns_InterfaceName = ifname, ns_IPv4 = v4_prefix @ [0, 0, 0, 0],
        ns_BroadcastIPv4 = v4_prefix @ [255, 255, 255, 255]\<rparr>
      else bind_res (lookup ifname) (\<lambda>addrs. bind_res (source_address addrs) (\<lambda>(sourceIP, broadcastIp).
        Inr \<lparr>ns_InterfaceName = ifname, ns_IPv4 = sourceIP, ns_BroadcastIPv4 = broadcastIp\<rparr>)))"

definition NewServer :: "(string \<Rightarrow> cidr list result) \<Rightarrow> TxState \<Rightarrow> ServerConfig option \<Rightarrow> (Server \<times> networkSet) result" where
  "NewServer lookup tx config = (case config of
       None \<Rightarrow> Inl (Err ''server config cannot be nil'')
     | Some c \<Rightarrow> bind_res (getNetworkSet lookup (sc_InterfaceName c)) (\<lambda>ns. Inr (Configure (sc_ListenPort c) (sc_ReceiveErrors c) tx, ns)))"

section \<open>Goroutines\<close>

text \<open>
  The two halves of \<^verbatim>\<open>closeConn\<close>: the critical section, and the closing of the socket it took, with the result of
  \<^verbatim>\<open>conn.Close()\<close>.
\<close>

definition closeConn_begin :: "Server \<Rightarrow> Server" where
  "closeConn_begin s = s\<lparr>closing := True, listening := False\<rparr>"

definition closeConn_end :: "go_error option \<Rightarrow> Server \<Rightarrow> Server" where
  "closeConn_end closeErr s =
     (case (UnicastConn s, closeErr) of (Some _, Some e) \<Rightarrow> reportError e s | _ \<Rightarrow> s)\<lparr>closed := True\<rparr>"

lemma closeConn_halves: "\<not> closed s \<Longrightarrow> closeConn e s = closeConn_end e (closeConn_begin s)"
  by (simp add: closeConn_def closeConn_end_def closeConn_begin_def Let_def split: option.splits)

definition ctx_error :: "go_error \<Rightarrow> bool" where
  "ctx_error e \<longleftrightarrow> e = Err ''context canceled'' \<or> e = Err ''context deadline exceeded''"

datatype phase =
    Idle                        \<comment> \<open>no call, or it has returned\<close>
  | Reserved                    \<comment> \<open>after \<^verbatim>\<open>reserveListener\<close>\<close>
  | Bound nat                   \<comment> \<open>after \<^verbatim>\<open>ListenPacket\<close>, with the socket\<close>
  | Installed                   \<comment> \<open>after \<^verbatim>\<open>installConnections\<close>\<close>
  | Waiting                     \<comment> \<open>in the \<^verbatim>\<open>select\<close> at the end of \<^verbatim>\<open>ListenContext\<close>\<close>
  | Failed go_error             \<comment> \<open>\<^verbatim>\<open>ListenContext\<close> has returned the error to \<^verbatim>\<open>Listen\<close>\<close>
  | Reported go_error           \<comment> \<open>after \<^verbatim>\<open>reportError\<close>\<close>
  | Closing "go_error option"   \<comment> \<open>at \<^verbatim>\<open>closeConn\<close>, to fail with the error afterwards\<close>
  | ClosingConn "go_error option" \<comment> \<open>inside \<^verbatim>\<open>closeOnce\<close>, after the critical section\<close>

record Life =
  lf_srv :: Server
  lf_threads :: "nat \<Rightarrow> phase"
  lf_sockets :: "nat set"       \<comment> \<open>the open sockets\<close>
  lf_next :: nat
  lf_conn :: "nat option"       \<comment> \<open>\<^verbatim>\<open>BroadcastConn\<close>, which is also \<^verbatim>\<open>UnicastConn\<close>\<close>
  lf_once :: bool               \<comment> \<open>\<^verbatim>\<open>closeOnce\<close> has been entered\<close>

definition life_init :: "Server \<Rightarrow> Life" where
  "life_init s = \<lparr>lf_srv = s, lf_threads = (\<lambda>_. Idle), lf_sockets = {}, lf_next = 0, lf_conn = None, lf_once = False\<rparr>"

definition goto :: "nat \<Rightarrow> phase \<Rightarrow> Life \<Rightarrow> Life" where
  "goto i p l = l\<lparr>lf_threads := (lf_threads l)(i := p)\<rparr>"

definition set_srv :: "Server \<Rightarrow> Life \<Rightarrow> Life" where
  "set_srv s l = l\<lparr>lf_srv := s\<rparr>"

definition after_close :: "go_error option \<Rightarrow> phase" where
  "after_close k = (case k of None \<Rightarrow> Idle | Some e \<Rightarrow> Failed e)"

definition do_call :: "nat \<Rightarrow> Life \<Rightarrow> Life" where
  "do_call i l = (case reserveListener (lf_srv l) of
       (Inr _, s) \<Rightarrow> goto i Reserved (set_srv s l)
     | (Inl e, s) \<Rightarrow> goto i (Failed e) (set_srv s l))"

definition do_bind :: "nat \<Rightarrow> Life \<Rightarrow> Life" where
  "do_bind i l = (goto i (Bound (lf_next l)) l)\<lparr>lf_sockets := insert (lf_next l) (lf_sockets l), lf_next := lf_next l + 1\<rparr>"

definition do_install :: "nat \<Rightarrow> nat \<Rightarrow> UDPAddr \<Rightarrow> UDPAddr \<Rightarrow> nat \<Rightarrow> Life \<Rightarrow> Life" where
  "do_install i port serverAddr broadcastAddr c l = (case installConnections port serverAddr broadcastAddr (lf_srv l) of
       (Inr _, s) \<Rightarrow> (goto i Installed (set_srv s l))\<lparr>lf_conn := Some c\<rparr>
     | (Inl e, s) \<Rightarrow> (goto i (Failed e) (set_srv (cancelListenerStart s) l))\<lparr>lf_sockets := lf_sockets l - {c}\<rparr>)"

definition do_close_end :: "nat \<Rightarrow> go_error option \<Rightarrow> go_error option \<Rightarrow> Life \<Rightarrow> Life" where
  "do_close_end i k closeErr l =
     (goto i (after_close k) (set_srv (closeConn_end closeErr (lf_srv l)) l))\<lparr>lf_sockets := lf_sockets l - set_option (lf_conn l)\<rparr>"

text \<open>
  An error of \<^verbatim>\<open>ListenPacket\<close> is a \<^verbatim>\<open>*net.OpError\<close> and so none of the two errors of a context; the receive loop
  reports errors once a socket is installed.
\<close>

inductive life_step :: "Life \<Rightarrow> Life \<Rightarrow> bool" where
  call: "lf_threads l i = Idle \<Longrightarrow> life_step l (do_call i l)"
| bind_fails: "lf_threads l i = Reserved \<Longrightarrow> \<not> ctx_error e \<Longrightarrow> life_step l (goto i (Failed e) (set_srv (cancelListenerStart (lf_srv l)) l))"
| bind: "lf_threads l i = Reserved \<Longrightarrow> life_step l (do_bind i l)"
| install: "lf_threads l i = Bound c \<Longrightarrow> life_step l (do_install i port serverAddr broadcastAddr c l)"
| start: "lf_threads l i = Installed \<Longrightarrow> life_step l (goto i Waiting (set_srv (markStarted (lf_srv l)) l))"
| cancelled: "lf_threads l i = Waiting \<Longrightarrow> ctx_error e \<Longrightarrow> life_step l (goto i (Closing (Some e)) l)"
| was_closed: "lf_threads l i = Waiting \<Longrightarrow> closed (lf_srv l) \<Longrightarrow> life_step l (goto i Idle l)"
| report: "lf_threads l i = Failed e \<Longrightarrow>
    life_step l (goto i (Reported e) (set_srv (if ctx_error e then lf_srv l else reportError e (lf_srv l)) l))"
| fail_start: "lf_threads l i = Reported e \<Longrightarrow>
    life_step l (goto i (if e = ErrServerAlreadyListening then Idle else Closing None) (set_srv (markStarted (lf_srv l)) l))"
| shutdown: "lf_threads l i = Idle \<Longrightarrow> life_step l (goto i (Closing None) l)"
| close_begin: "lf_threads l i = Closing k \<Longrightarrow> \<not> lf_once l \<Longrightarrow>
    life_step l ((goto i (ClosingConn k) (set_srv (closeConn_begin (lf_srv l)) l))\<lparr>lf_once := True\<rparr>)"
| close_end: "lf_threads l i = ClosingConn k \<Longrightarrow> life_step l (do_close_end i k closeErr l)"
| close_again: "lf_threads l i = Closing k \<Longrightarrow> lf_once l \<Longrightarrow> closed (lf_srv l) \<Longrightarrow> life_step l (goto i (after_close k) l)"
| receive_error: "lf_conn l \<noteq> None \<Longrightarrow> life_step l (set_srv (reportError e (lf_srv l)) l)"

text \<open>
  The receive loop: \<open>tu_env\<close> is what the other goroutines do before the turn, and a read that fails has its error,
  whether it is a time-out, and whether the context has ended by then.
\<close>

record turn =
  tu_done :: bool
  tu_env :: "Server \<Rightarrow> Server"
  tu_read :: "(go_error \<times> bool \<times> bool) + (bytes \<times> UDPAddr option)"

text \<open>\<^verbatim>\<open>strings.Contains\<close>.\<close>

definition Contains :: "string \<Rightarrow> string \<Rightarrow> bool" where
  "Contains s t = list_ex (\<lambda>i. take (length t) (drop i s) = t) [0..<length s + 1]"

definition closed_connection :: "go_error \<Rightarrow> bool" where
  "closed_connection e = (case e of Err m \<Rightarrow> Contains m ''use of closed network connection'' | Panic \<Rightarrow> False)"

fun receive :: "turn list \<Rightarrow> Server \<Rightarrow> Server" where
  "receive [] s = s"
| "receive (t # ts) s =
     (let s = tu_env t s in
      if tu_done t then s
      else case tu_read t of
        Inr (data, addr) \<Rightarrow> receive ts (handle data addr s)
      | Inl (e, timeout, ended) \<Rightarrow>
          if closing s \<or> ended then s
          else if timeout then receive ts s
          else if closed_connection e then reportError e s
          else receive ts (reportError e s))"

section \<open>The invariant\<close>

text \<open>A goroutine that listens, from the reservation until it closes the endpoint.\<close>

definition active :: "phase \<Rightarrow> bool" where
  "active p \<longleftrightarrow> p = Reserved \<or> (\<exists>c. p = Bound c) \<or> p = Installed \<or> p = Waiting \<or> (\<exists>e. p = Closing (Some e))"

definition holding :: "phase \<Rightarrow> bool" where
  "holding p \<longleftrightarrow> p = Installed \<or> p = Waiting \<or> (\<exists>e. p = Closing (Some e))"

definition inv_listener :: "Life \<Rightarrow> bool" where
  "inv_listener l \<longleftrightarrow> (\<forall>i j. active (lf_threads l i) \<longrightarrow> active (lf_threads l j) \<longrightarrow> i = j)
     \<and> (\<forall>i. active (lf_threads l i) \<longrightarrow> listening (lf_srv l) \<or> closing (lf_srv l))"

text \<open>The endpoint is closed once, by one goroutine.\<close>

definition inv_close :: "Life \<Rightarrow> bool" where
  "inv_close l \<longleftrightarrow> (closing (lf_srv l) \<longleftrightarrow> lf_once l) \<and> (closed (lf_srv l) \<longrightarrow> lf_once l)
     \<and> (\<forall>i k. lf_threads l i = ClosingConn k \<longrightarrow> lf_once l \<and> \<not> closed (lf_srv l))
     \<and> (\<forall>i j k k'. lf_threads l i = ClosingConn k \<longrightarrow> lf_threads l j = ClosingConn k' \<longrightarrow> i = j)"

text \<open>Every open socket is in the hands of a goroutine that will close or install it, or it is the connection.\<close>

definition inv_sockets :: "Life \<Rightarrow> bool" where
  "inv_sockets l \<longleftrightarrow> lf_sockets l = {c. \<exists>i. lf_threads l i = Bound c} \<union> (if closed (lf_srv l) then {} else set_option (lf_conn l))
     \<and> (lf_conn l \<noteq> None \<longrightarrow> (\<forall>i c. lf_threads l i \<noteq> Reserved \<and> lf_threads l i \<noteq> Bound c))
     \<and> (lf_conn l \<noteq> None \<longrightarrow> closing (lf_srv l) \<or> (\<exists>i. holding (lf_threads l i)))"

text \<open>A goroutine that says the endpoint has started has a connection, or the error is already in the channel.\<close>

definition settled :: "Life \<Rightarrow> bool" where
  "settled l \<longleftrightarrow> lf_conn l \<noteq> None \<or> srv_errors (lf_srv l) \<noteq> [] \<or> \<not> rcvErrors (lf_srv l)"

lemmas life_defs = do_call_def do_bind_def do_install_def do_close_end_def goto_def set_srv_def reserveListener_def installConnections_def
  cancelListenerStart_def markStarted_def closeConn_begin_def closeConn_end_def after_close_def

lemma reportError_sel [simp]:
  "closing (reportError e s) = closing s" "closed (reportError e s) = closed s" "listening (reportError e s) = listening s"
  "started (reportError e s) = started s" "rcvErrors (reportError e s) = rcvErrors s"
  by (simp_all add: reportError_def)

lemma reportError_queued: "rcvErrors s \<Longrightarrow> srv_errors (reportError e s) \<noteq> []" "srv_errors s \<noteq> [] \<Longrightarrow> srv_errors (reportError e s) \<noteq> []"
  by (auto simp: reportError_def)

lemma closeConn_end_sel [simp]:
  "closing (closeConn_end e s) = closing s" "closed (closeConn_end e s)" "listening (closeConn_end e s) = listening s"
  "started (closeConn_end e s) = started s" "rcvErrors (closeConn_end e s) = rcvErrors s"
  by (simp_all add: closeConn_end_def split: option.splits)

lemma closeConn_end_queued: "srv_errors s \<noteq> [] \<Longrightarrow> srv_errors (closeConn_end e s) \<noteq> []"
  using reportError_queued(2) by (simp add: closeConn_end_def split: option.splits)

lemma active_simps [simp]:
  "active Reserved" "active (Bound c)" "active Installed" "active Waiting" "active (Closing (Some e))"
  "\<not> active Idle" "\<not> active (Failed e)" "\<not> active (Reported e)" "\<not> active (Closing None)" "\<not> active (ClosingConn k)"
  "holding Installed" "holding Waiting" "holding (Closing (Some e))" "\<not> holding Reserved" "\<not> holding (Bound c)"
  by (simp_all add: active_def holding_def)

lemma after_close_sel [simp]: "\<not> active (after_close k)" "\<not> holding (after_close k)" "after_close k \<noteq> Bound c" "after_close k \<noteq> Reserved"
  "after_close k \<noteq> ClosingConn k'"
  by (simp_all add: after_close_def active_def holding_def split: option.splits)

lemma inv_close_step: "life_step l l' \<Longrightarrow> inv_close l \<Longrightarrow> inv_close l'"
proof (induction rule: life_step.induct)
  case (close_end l i k closeErr)
  then show ?case unfolding inv_close_def do_close_end_def goto_def set_srv_def by (auto split: if_splits)
qed (auto simp: inv_close_def life_defs split: option.splits if_splits)

lemma inv_listener_step: "life_step l l' \<Longrightarrow> inv_listener l \<Longrightarrow> inv_listener l'"
proof (induction rule: life_step.induct)
  case (close_begin l i k)
  then show ?case by (auto simp: inv_listener_def goto_def set_srv_def closeConn_begin_def split: if_splits)
next
  case (close_end l i k closeErr)
  then show ?case by (auto simp: inv_listener_def goto_def set_srv_def do_close_end_def split: if_splits)
qed (auto simp: inv_listener_def life_defs split: option.splits if_splits, (metis active_simps(1-4))+)

text \<open>A step that moves a goroutine without a socket keeps the sockets.\<close>

definition bound :: "(nat \<Rightarrow> phase) \<Rightarrow> nat set" where
  "bound t = {c. \<exists>i. t i = Bound c}"

lemma bound_update: "(\<And>c. t i \<noteq> Bound c) \<Longrightarrow> (\<And>c. p \<noteq> Bound c) \<Longrightarrow> bound (t(i := p)) = bound t"
  unfolding bound_def by (auto, metis)

lemma inv_sockets_goto:
  assumes "inv_sockets l" "\<And>c. lf_threads l i \<noteq> Bound c" "\<And>c. p \<noteq> Bound c" "p = Reserved \<Longrightarrow> lf_conn l = None"
    and "holding (lf_threads l i) \<Longrightarrow> holding p \<or> closing s" "closing (lf_srv l) \<Longrightarrow> closing s" "closed s = closed (lf_srv l)"
  shows "inv_sockets (goto i p (set_srv s l))"
proof -
  have "\<exists>j. holding (((lf_threads l)(i := p)) j)" if "holding (lf_threads l k)" "\<not> closing s" for k
    using that assms(5) by (cases "k = i") auto
  with assms(1,6) have "lf_conn l \<noteq> None \<longrightarrow> closing s \<or> (\<exists>j. holding (((lf_threads l)(i := p)) j))"
    unfolding inv_sockets_def by blast
  then show ?thesis using assms(1,3,4,7) bound_update [of "lf_threads l" i p, OF assms(2,3)]
    by (auto simp: inv_sockets_def goto_def set_srv_def bound_def)
qed

lemma goto_same: "goto i p l = goto i p (set_srv (lf_srv l) l)"
  by (simp add: goto_def set_srv_def)

lemma inv_sockets_step: "life_step l l' \<Longrightarrow> inv_listener l \<Longrightarrow> inv_close l \<Longrightarrow> inv_sockets l \<Longrightarrow> inv_sockets l'"
proof (induction rule: life_step.induct)
  case (call l i)
  have "lf_conn l = None" if "\<not> closing (lf_srv l)" "\<not> listening (lf_srv l)"
    using call that unfolding inv_sockets_def inv_listener_def holding_def active_def by blast
  with call show ?case by (auto simp: do_call_def reserveListener_def holding_def intro!: inv_sockets_goto)
next
  case (bind l i)
  then have n: "lf_conn l = None" unfolding inv_sockets_def by blast
  have "\<not> active (lf_threads l j)" if "j \<noteq> i" for j using that bind(1,2) active_simps(1) unfolding inv_listener_def by metis
  then have "lf_threads l j \<noteq> Bound c" for j c using bind(1) active_simps(2) by (metis phase.distinct)
  then have "lf_sockets l = {}" "bound ((lf_threads l)(i := Bound (lf_next l))) = {lf_next l}"
    using bind(4) n by (auto simp: inv_sockets_def bound_def split: if_splits)
  with n show ?case by (simp add: inv_sockets_def do_bind_def goto_def bound_def)
next
  case (install l i c port serverAddr broadcastAddr)
  then have n: "lf_conn l = None" unfolding inv_sockets_def by blast
  have "\<not> active (lf_threads l j)" if "j \<noteq> i" for j using that install(1,2) active_simps(2) unfolding inv_listener_def by metis
  then have u: "lf_threads l j \<noteq> Bound c'" "lf_threads l j \<noteq> Reserved" if "j \<noteq> i" for j c' using that active_simps(1,2) by metis+
  have b: "x = c" if "lf_threads l j = Bound x" for j x using u(1) [of j x] install(1) that by (cases "j = i") auto
  from u have k: "lf_sockets l = {c}" "bound ((lf_threads l)(i := p)) = {}" if "\<And>c. p \<noteq> Bound c" for p
    using install(1,4) n that by (auto simp: inv_sockets_def bound_def split: if_splits dest: b)
  show ?case
  proof (cases "closing (lf_srv l)")
    case True
    with k [of "Failed ErrServerShutdown"] n show ?thesis
      by (simp add: inv_sockets_def do_install_def installConnections_def goto_def set_srv_def cancelListenerStart_def bound_def)
  next
    case False
    then have c: "\<not> closed (lf_srv l)" using install(3) unfolding inv_close_def by blast
    have "\<exists>j. holding (((lf_threads l)(i := Installed)) j)" by (rule exI [of _ i]) simp
    with False c k [of Installed] n u show ?thesis
      by (auto simp: inv_sockets_def do_install_def installConnections_def goto_def set_srv_def bound_def)
  qed
next
  case (close_begin l i k)
  have "inv_sockets (goto i (ClosingConn k) (set_srv (closeConn_begin (lf_srv l)) l))"
    by (rule inv_sockets_goto [OF close_begin(5)]) (simp_all add: close_begin(1) closeConn_begin_def)
  then show ?case by (simp add: inv_sockets_def goto_def set_srv_def)
next
  case (close_end l i k closeErr)
  have "closing (lf_srv l)" "\<not> closed (lf_srv l)" using close_end(1,3) by (auto simp: inv_close_def)
  moreover have "bound ((lf_threads l)(i := after_close k)) = bound (lf_threads l)"
    by (rule bound_update) (simp_all add: close_end(1))
  moreover have "lf_conn l \<noteq> None \<Longrightarrow> bound (lf_threads l) = {}" using close_end(4) by (auto simp: inv_sockets_def bound_def)
  ultimately show ?case using close_end(4)
    by (cases "lf_conn l") (auto simp: inv_sockets_def do_close_end_def goto_def set_srv_def bound_def)
next
  case (was_closed l i)
  then show ?case by (subst goto_same) (auto simp: inv_close_def intro!: inv_sockets_goto)
next
  case (receive_error l e)
  then show ?case by (simp add: inv_sockets_def set_srv_def)
next
  case (cancelled l i e)
  then show ?case by (subst goto_same) (auto intro!: inv_sockets_goto)
next
  case (shutdown l i)
  then show ?case by (subst goto_same) (auto simp: holding_def intro!: inv_sockets_goto)
next
  case (close_again l i k)
  then show ?case by (subst goto_same) (auto simp: inv_close_def intro!: inv_sockets_goto)
qed (auto simp: cancelListenerStart_def markStarted_def holding_def intro!: inv_sockets_goto)

definition phase_settled :: "Life \<Rightarrow> phase \<Rightarrow> bool" where
  "phase_settled l p = (case p of
       Installed \<Rightarrow> lf_conn l \<noteq> None
     | Waiting \<Rightarrow> lf_conn l \<noteq> None
     | Closing (Some e) \<Rightarrow> lf_conn l \<noteq> None
     | ClosingConn (Some e) \<Rightarrow> lf_conn l \<noteq> None
     | Failed e \<Rightarrow> ctx_error e \<longrightarrow> lf_conn l \<noteq> None
     | Reported e \<Rightarrow> settled l
     | _ \<Rightarrow> True)"

definition inv_start :: "Life \<Rightarrow> bool" where
  "inv_start l \<longleftrightarrow> (started (lf_srv l) \<longrightarrow> settled l) \<and> (\<forall>i. phase_settled l (lf_threads l i))"

lemma phase_settled_simps [simp]:
  "phase_settled l Idle" "phase_settled l Reserved" "phase_settled l (Bound c)" "phase_settled l (Closing None)" "phase_settled l (ClosingConn None)"
  "phase_settled l Installed \<longleftrightarrow> lf_conn l \<noteq> None" "phase_settled l Waiting \<longleftrightarrow> lf_conn l \<noteq> None"
  "phase_settled l (Closing (Some e)) \<longleftrightarrow> lf_conn l \<noteq> None" "phase_settled l (ClosingConn (Some e)) \<longleftrightarrow> lf_conn l \<noteq> None"
  "phase_settled l (Failed e) \<longleftrightarrow> (ctx_error e \<longrightarrow> lf_conn l \<noteq> None)" "phase_settled l (Reported e) \<longleftrightarrow> settled l"
  by (simp_all add: phase_settled_def)

text \<open>Steps only add to what settles a start.\<close>

lemma phase_settled_mono:
  "phase_settled l p \<Longrightarrow> (lf_conn l \<noteq> None \<Longrightarrow> lf_conn l' \<noteq> None) \<Longrightarrow> (settled l \<Longrightarrow> settled l') \<Longrightarrow> phase_settled l' p"
  by (auto simp: phase_settled_def split: phase.splits option.splits)

lemma inv_start_step:
  assumes inv: "inv_start l" and t: "\<And>j. j \<noteq> i \<Longrightarrow> lf_threads l' j = lf_threads l j"
    and conn: "lf_conn l \<noteq> None \<Longrightarrow> lf_conn l' \<noteq> None" and set: "settled l \<Longrightarrow> settled l'"
    and p: "phase_settled l' (lf_threads l' i)" and st: "started (lf_srv l') \<Longrightarrow> started (lf_srv l) \<or> settled l'"
  shows "inv_start l'"
proof -
  have "phase_settled l' (lf_threads l' j)" for j
    using inv t [of j] p phase_settled_mono [of l "lf_threads l j" l', OF _ conn set] by (cases "j = i") (auto simp: inv_start_def)
  then show ?thesis using inv st set unfolding inv_start_def by blast
qed

lemma inv_startD: "inv_start l \<Longrightarrow> lf_threads l i = p \<Longrightarrow> phase_settled l p"
  by (auto simp: inv_start_def)

lemma inv_start_life_step: "life_step l l' \<Longrightarrow> inv_start l \<Longrightarrow> inv_start l'"
proof (induction rule: life_step.induct)
  case (call l i)
  then show ?case
    by - (rule inv_start_step [where i = i, OF call(2)]; auto simp: do_call_def reserveListener_def goto_def set_srv_def settled_def ctx_error_def
        ErrServerShutdown_def ErrServerAlreadyListening_def split: if_splits)
next
  case (install l i c port serverAddr broadcastAddr)
  then show ?case
    by - (rule inv_start_step [where i = i, OF install(2)]; auto simp: do_install_def installConnections_def goto_def set_srv_def settled_def ctx_error_def
        ErrServerShutdown_def cancelListenerStart_def split: if_splits)
next
  case (start l i)
  have "phase_settled l Installed" by (rule inv_startD [OF start(2,1)])
  with start show ?case by - (rule inv_start_step [where i = i, OF start(2)]; auto simp: goto_def set_srv_def settled_def markStarted_def)
next
  case (cancelled l i e)
  have "phase_settled l Waiting" by (rule inv_startD [OF cancelled(3,1)])
  with cancelled show ?case by - (rule inv_start_step [where i = i, OF cancelled(3)]; auto simp: goto_def settled_def)
next
  case (report l i e)
  have "phase_settled l (Failed e)" by (rule inv_startD [OF report(2,1)])
  with report reportError_queued [of "lf_srv l" e] show ?case
    by - (rule inv_start_step [where i = i, OF report(2)]; auto simp: goto_def set_srv_def settled_def)
next
  case (fail_start l i e)
  have "phase_settled l (Reported e)" by (rule inv_startD [OF fail_start(2,1)])
  with fail_start show ?case by - (rule inv_start_step [where i = i, OF fail_start(2)]; auto simp: goto_def set_srv_def settled_def markStarted_def)
next
  case (close_begin l i k)
  have "phase_settled l (Closing k)" by (rule inv_startD [OF close_begin(3,1)])
  with close_begin show ?case
    by - (rule inv_start_step [where i = i, OF close_begin(3)]; cases k; auto simp: goto_def set_srv_def settled_def closeConn_begin_def)
next
  case (close_end l i k closeErr)
  have "phase_settled l (ClosingConn k)" by (rule inv_startD [OF close_end(2,1)])
  with close_end closeConn_end_queued [of "lf_srv l" closeErr] show ?case
    by - (rule inv_start_step [where i = i, OF close_end(2)]; cases k; auto simp: goto_def set_srv_def settled_def do_close_end_def after_close_def)
next
  case (close_again l i k)
  have "phase_settled l (Closing k)" by (rule inv_startD [OF close_again(4,1)])
  with close_again show ?case
    by - (rule inv_start_step [where i = i, OF close_again(4)]; cases k; auto simp: goto_def settled_def after_close_def)
next
  case (receive_error l e)
  then have "settled (set_srv (reportError e (lf_srv l)) l)" by (simp add: settled_def set_srv_def)
  moreover from receive_error have "phase_settled l (lf_threads l j)" for j by (simp add: inv_start_def)
  then have "phase_settled (set_srv (reportError e (lf_srv l)) l) (lf_threads l j)" for j
    by (rule phase_settled_mono) (simp_all add: calculation, simp add: set_srv_def)
  ultimately show ?case by (simp add: inv_start_def) (simp add: set_srv_def)
next
  case (bind_fails l i e)
  then show ?case by - (rule inv_start_step [where i = i, OF bind_fails(3)]; simp add: goto_def set_srv_def settled_def cancelListenerStart_def)
next
  case (bind l i)
  then show ?case by - (rule inv_start_step [where i = i, OF bind(2)]; simp add: goto_def settled_def do_bind_def)
next
  case (was_closed l i)
  then show ?case by - (rule inv_start_step [where i = i, OF was_closed(3)]; simp add: goto_def settled_def)
next
  case (shutdown l i)
  then show ?case by - (rule inv_start_step [where i = i, OF shutdown(2)]; simp add: goto_def settled_def)
qed

section \<open>Reachable states\<close>

definition life_inv :: "Life \<Rightarrow> bool" where
  "life_inv l \<longleftrightarrow> inv_listener l \<and> inv_close l \<and> inv_sockets l \<and> inv_start l"

lemma life_inv_init: "life_inv (life_init (Configure port errors tx))"
  by (simp add: life_inv_def life_init_def Configure_def inv_listener_def inv_close_def inv_sockets_def inv_start_def)

lemma life_inv_steps: "life_step\<^sup>*\<^sup>* l l' \<Longrightarrow> life_inv l \<Longrightarrow> life_inv l'"
  by (induction rule: rtranclp_induct)
    (use inv_listener_step inv_close_step inv_sockets_step inv_start_life_step in \<open>auto simp: life_inv_def\<close>)

lemma closing_step: "life_step l l' \<Longrightarrow> closing (lf_srv l) \<Longrightarrow> closing (lf_srv l')"
  by (induction rule: life_step.induct) (auto simp: life_defs split: option.splits if_splits)

text \<open>What the state says of the connection is what \<^verbatim>\<open>Send\<close> looks at, and the choice to report errors is kept.\<close>

lemma conn_step:
  "life_step l l' \<Longrightarrow> (lf_conn l = None \<longleftrightarrow> UnicastConn (lf_srv l) = None) \<Longrightarrow> (lf_conn l' = None \<longleftrightarrow> UnicastConn (lf_srv l') = None)"
  by (induction rule: life_step.induct) (auto simp: life_defs reportError_def split: option.splits if_splits)

lemma rcvErrors_step: "life_step l l' \<Longrightarrow> rcvErrors (lf_srv l') = rcvErrors (lf_srv l)"
  by (induction rule: life_step.induct) (auto simp: life_defs split: option.splits if_splits)

lemma life_steps_conn:
  assumes "life_step\<^sup>*\<^sup>* (life_init (Configure port errors tx)) l"
  shows "(lf_conn l = None \<longleftrightarrow> UnicastConn (lf_srv l) = None) \<and> rcvErrors (lf_srv l) = errors"
  using assms
proof (induction rule: rtranclp_induct)
  case (step l l')
  then show ?case using conn_step [of l l'] rcvErrors_step [of l l'] by simp
qed (simp add: life_init_def Configure_def)

text \<open>
  C6: The life cycle of an endpoint, whatever the interleaving of any number of \<^verbatim>\<open>Listen\<close> and \<^verbatim>\<open>Shutdown\<close> calls, of
  failures of the operating system and of cancelled contexts.  At most one call is listening.  When the endpoint signals
  that it has started and it reports errors, it has a connection or the error that kept it from getting one is already in the
  channel.  Once it is closed and no call to \<^verbatim>\<open>Listen\<close> holds a socket of its own, no socket is open, and a later
  \<^verbatim>\<open>Listen\<close> is refused.
\<close>

theorem endpoint_lifecycle:
  assumes "life_step\<^sup>*\<^sup>* (life_init (Configure port errors tx)) l"
  shows "(\<forall>i j. active (lf_threads l i) \<and> active (lf_threads l j) \<longrightarrow> i = j)
    \<and> (started (lf_srv l) \<and> rcvErrors (lf_srv l) \<longrightarrow> lf_conn l \<noteq> None \<or> srv_errors (lf_srv l) \<noteq> [])
    \<and> (closed (lf_srv l) \<and> (\<forall>i c. lf_threads l i \<noteq> Bound c) \<longrightarrow> lf_sockets l = {})
    \<and> (closed (lf_srv l) \<longrightarrow> fst (reserveListener (lf_srv l)) = Inl ErrServerShutdown)
    \<and> (\<forall>c. lf_conn l = Some c \<and> \<not> closed (lf_srv l) \<longrightarrow> lf_sockets l = {c})"
proof -
  have "life_inv l" using life_inv_steps [OF assms life_inv_init] .
  then have i: "inv_listener l" "inv_close l" "inv_sockets l" "inv_start l" by (simp_all add: life_inv_def)
  have "lf_sockets l = {c}" if "lf_conn l = Some c" "\<not> closed (lf_srv l)" for c
    using i(3) that unfolding inv_sockets_def by auto
  moreover have "closed (lf_srv l) \<Longrightarrow> closing (lf_srv l)" using i(2) unfolding inv_close_def by blast
  moreover have "closed (lf_srv l) \<Longrightarrow> \<forall>i c. lf_threads l i \<noteq> Bound c \<Longrightarrow> lf_sockets l = {}"
    using i(3) unfolding inv_sockets_def by auto
  moreover have "started (lf_srv l) \<Longrightarrow> settled l" using i(4) unfolding inv_start_def by blast
  ultimately show ?thesis using i(1) unfolding inv_listener_def settled_def by (auto simp: reserveListener_def)
qed

theorem endpoint_lifecycle_witness:
  "\<exists>l. life_step\<^sup>*\<^sup>* (life_init (Configure 47808 True TxState_init)) l \<and> started (lf_srv l) \<and> lf_conn l = None \<and> srv_errors (lf_srv l) \<noteq> []"
proof -
  let ?s = "Configure 47808 True TxState_init"
  let ?e = "Err ''bind: address already in use''"
  define l0 where "l0 = life_init ?s"
  define l1 where "l1 = do_call 0 l0"
  define l2 where "l2 = goto 0 (Failed ?e) (set_srv (cancelListenerStart (lf_srv l1)) l1)"
  define l3 where "l3 = goto 0 (Reported ?e) (set_srv (if ctx_error ?e then lf_srv l2 else reportError ?e (lf_srv l2)) l2)"
  define l4 where "l4 = goto 0 (if ?e = ErrServerAlreadyListening then Idle else Closing None) (set_srv (markStarted (lf_srv l3)) l3)"
  note d = l1_def l2_def l3_def l4_def l0_def life_init_def Configure_def life_defs ctx_error_def
  have "life_step l0 l1" unfolding l1_def by (rule call) (simp add: l0_def life_init_def)
  moreover have "life_step l1 l2" unfolding l2_def by (rule bind_fails) (simp_all add: d)
  moreover have "life_step l2 l3" unfolding l3_def by (rule report) (simp add: l2_def goto_def)
  moreover have "life_step l3 l4" unfolding l4_def by (rule fail_start) (simp add: l3_def goto_def)
  ultimately have r: "life_step\<^sup>*\<^sup>* (life_init ?s) l4" unfolding l0_def [symmetric] by (meson converse_rtranclp_into_rtranclp rtranclp.rtrancl_refl)
  have "started (lf_srv l4)" "lf_conn l4 = None" "rcvErrors (lf_srv l4)" by (simp_all add: d)
  with endpoint_lifecycle [OF r] r show ?thesis by blast
qed

end
