(* ===== verification/Udp.thy ===== *)
theory Udp
  imports Transport
begin

text \<open>
  UDP connections, \<^verbatim>\<open>bacnet/transport/udp.go\<close>.  The operating system is an argument: what it answers to a bind, to a
  read and to a write.  A host is its open sockets, by number, with their local endpoints.
\<close>

record Host =
  ho_open :: "(nat \<times> Endpoint) list"
  ho_next :: nat

type_synonym listener = "nat \<Rightarrow> UDPAddr \<Rightarrow> UDPAddr result"

definition ListenUDP :: "listener \<Rightarrow> Endpoint \<Rightarrow> Host \<Rightarrow> (nat \<times> Endpoint) result \<times> Host" where
  "ListenUDP listen endpoint h =
     (case listen (ho_next h) (Endpoint_UDPAddr endpoint) of
        Inl e \<Rightarrow> (Inl e, h)
      | Inr address \<Rightarrow>
          (let local = EndpointFromUDP (Some address)
           in (Inr (ho_next h, local), h\<lparr>ho_open := ho_open h @ [(ho_next h, local)], ho_next := ho_next h + 1\<rparr>)))"

definition UDPConn_Close :: "nat \<Rightarrow> Host \<Rightarrow> Host" where
  "UDPConn_Close i h = h\<lparr>ho_open := AList.delete i (ho_open h)\<rparr>"

text \<open>
  What the documentation of \<^verbatim>\<open>net.ListenPacket\<close> promises: the local address is the one asked for, in the form of
  four octets or of sixteen, and the port is the one asked for unless that is zero.
\<close>

definition binds :: "listener \<Rightarrow> bool" where
  "binds listen \<longleftrightarrow> (\<forall>k a l. listen k a = Inr l \<longrightarrow>
     IP_To4 (ip_octets (ua_IP l)) = IP_To4 (ip_octets (ua_IP a)) \<and> (ua_Port a \<noteq> 0 \<longrightarrow> ua_Port l = ua_Port a))"

text \<open>
  One answer to a read: octets with their sender, or an error that is a time-out or not.  With it come the error of the
  context if it has ended by then, and the result of setting the next deadline.
\<close>

datatype os_read = Received bytes "UDPAddr option" | TimedOut go_error | Broken go_error

record read_turn =
  rt_read :: os_read
  rt_done :: "go_error option"
  rt_set :: "unit result"

fun udp_read_loop :: "bool \<Rightarrow> Endpoint \<Rightarrow> read_turn list \<Rightarrow> Datagram result option" where
  "udp_read_loop deadline local [] = None"
| "udp_read_loop deadline local (t # ts) =
     (case rt_read t of
        Received data source \<Rightarrow>
          Some (Inr \<lparr>dg_Payload = data, dg_Source = EndpointFromUDP source, dg_Destination = local\<rparr>)
      | Broken e \<Rightarrow> Some (Inl e)
      | TimedOut e \<Rightarrow>
          (case rt_done t of
             Some c \<Rightarrow> Some (Inl c)
           | None \<Rightarrow>
               if deadline then Some (Inl e)
               else (case rt_set t of Inl e' \<Rightarrow> Some (Inl e') | Inr _ \<Rightarrow> udp_read_loop deadline local ts)))"

definition UDPConn_Read :: "bool \<Rightarrow> unit result \<Rightarrow> Endpoint \<Rightarrow> read_turn list \<Rightarrow> Datagram result option" where
  "UDPConn_Read deadline set_deadline local turns =
     (case set_deadline of Inl e \<Rightarrow> Some (Inl e) | Inr _ \<Rightarrow> udp_read_loop deadline local turns)"

definition UDPConn_Write :: "go_error option \<Rightarrow> unit result \<Rightarrow> (UDPAddr \<Rightarrow> bytes \<Rightarrow> unit result) \<Rightarrow> Endpoint \<Rightarrow> bytes \<Rightarrow> unit result" where
  "UDPConn_Write ctx set_deadline WriteToUDP destination payload =
     (case ctx of
        Some e \<Rightarrow> Inl e
      | None \<Rightarrow> bind_res set_deadline (\<lambda>_. WriteToUDP (Endpoint_UDPAddr destination) payload))"

text \<open>A read that returns a datagram gives the octets and the sender of one the system delivered, after time-outs only.\<close>

lemma UDPConn_Read_datagram:
  assumes "UDPConn_Read deadline set_deadline local turns = Some (Inr d)"
  shows "dg_Destination d = local \<and> (\<exists>t \<in> set turns. \<exists>source. rt_read t = Received (dg_Payload d) source \<and> dg_Source d = EndpointFromUDP source)"
proof -
  have "udp_read_loop deadline local turns = Some (Inr d)" using assms by (auto simp: UDPConn_Read_def split: sum.splits)
  then show ?thesis
    by (induction deadline local turns rule: udp_read_loop.induct) (auto split: os_read.splits option.splits if_splits sum.splits)
qed

section \<open>Sockets of a host\<close>

definition host_inv :: "Host \<Rightarrow> bool" where
  "host_inv h \<longleftrightarrow> distinct (map fst (ho_open h)) \<and> (\<forall>k \<in> fst ` set (ho_open h). k < ho_next h)"

lemma ListenUDP_Inr:
  assumes "ListenUDP listen endpoint h = (Inr (k, local), h')" "host_inv h"
  shows "k = ho_next h" "host_inv h'" "set (ho_open h') = insert (k, local) (set (ho_open h))" "ho_next h' = ho_next h + 1"
  using assms by (fastforce simp: ListenUDP_def host_inv_def Let_def less_Suc_eq split: sum.splits)+

lemma ListenUDP_Inl: "ListenUDP listen endpoint h = (Inl e, h') \<Longrightarrow> h' = h"
  by (auto simp: ListenUDP_def Let_def split: sum.splits)

lemma ListenUDP_local:
  assumes "binds listen" "ListenUDP listen (NewEndpoint x port) h = (Inr (k, local), h')" "x \<noteq> []"
  shows "IP_To4 (ep_IP local) = IP_To4 x" "port \<noteq> 0 \<Longrightarrow> ep_Port local = port"
proof -
  obtain l where l: "listen (ho_next h) (Endpoint_UDPAddr (NewEndpoint x port)) = Inr l" "local = EndpointFromUDP (Some l)"
    using assms(2) by (auto simp: ListenUDP_def Let_def split: sum.splits)
  from assms(1) [unfolded binds_def, rule_format, OF l(1)]
  show "IP_To4 (ep_IP local) = IP_To4 x" "port \<noteq> 0 \<Longrightarrow> ep_Port local = port"
    using assms(3) by (auto simp: l(2) EndpointFromUDP_def NewEndpoint_def Endpoint_UDPAddr_def ip_octets_def unat_eq_zero)
qed

lemma set_close: "set (ho_open (UDPConn_Close i h)) = {x \<in> set (ho_open h). fst x \<noteq> i}"
  by (auto simp: UDPConn_Close_def AList.delete_eq)

lemma set_close_all: "set (ho_open (fold UDPConn_Close ks h)) = {x \<in> set (ho_open h). fst x \<notin> set ks}"
  by (induction ks arbitrary: h) (auto simp: set_close)

lemma host_inv_close: "host_inv h \<Longrightarrow> host_inv (UDPConn_Close i h)"
  by (auto simp: host_inv_def UDPConn_Close_def AList.delete_eq distinct_map inj_on_def)

lemma host_inv_close_all: "host_inv h \<Longrightarrow> host_inv (fold UDPConn_Close ks h)"
  by (induction ks arbitrary: h) (auto simp: host_inv_close)

lemma ho_next_close_all [simp]: "ho_next (fold UDPConn_Close ks h) = ho_next h"
  by (induction ks arbitrary: h) (auto simp: UDPConn_Close_def)

text \<open>The sockets \<open>base\<close> were open before, the client has opened \<open>cs\<close>.\<close>

definition opened :: "(nat \<times> Endpoint) set \<Rightarrow> nat \<Rightarrow> (nat \<times> Endpoint) list \<Rightarrow> Host \<Rightarrow> bool" where
  "opened base k cs h \<longleftrightarrow> host_inv h \<and> k \<le> ho_next h \<and> set (ho_open h) = base \<union> set cs
     \<and> (\<forall>x \<in> base. fst x < k) \<and> (\<forall>x \<in> set cs. k \<le> fst x) \<and> distinct (map fst cs)"

lemma opened_init: "host_inv h \<Longrightarrow> opened (set (ho_open h)) (ho_next h) [] h"
  by (auto simp: opened_def host_inv_def)

lemma opened_listen:
  assumes "opened base k cs h" "ListenUDP listen ep h = (Inr (c, local), h')"
  shows "opened base k (cs @ [(c, local)]) h'"
proof -
  have i: "host_inv h" using assms(1) by (simp add: opened_def)
  have "fst x < ho_next h" if "x \<in> set cs" for x using that assms(1) by (auto simp: opened_def host_inv_def)
  then have "c \<notin> fst ` set cs" using ListenUDP_Inr(1) [OF assms(2) i] by fastforce
  with ListenUDP_Inr [OF assms(2) i] assms(1) show ?thesis by (auto simp: opened_def)
qed

lemma opened_close:
  assumes "opened base k cs h" "fst ` set cs \<subseteq> set ks" "\<forall>c \<in> set ks. k \<le> c"
  shows "set (ho_open (fold UDPConn_Close ks h)) = base"
  using assms by (force simp: opened_def set_close_all)

lemma opened_fresh: "opened base k cs h \<Longrightarrow> (c, local) \<in> set cs \<Longrightarrow> k \<le> c"
  by (auto simp: opened_def)

text \<open>A system that has a socket for every request.\<close>

definition grants :: "listener \<Rightarrow> bool" where
  "grants listen \<longleftrightarrow> (\<forall>k a. \<exists>l. listen k a = Inr l)"

lemma grants_listen: "grants listen \<Longrightarrow> \<exists>c local h'. ListenUDP listen ep h = (Inr (c, local), h')"
  unfolding grants_def ListenUDP_def Let_def by (metis (mono_tags, lifting) sum.simps(6))

end
