(* ===== verification/Listen_Generic.thy ===== *)
theory Listen_Generic
  imports Lifecycle Udp
begin

text \<open>
  The listener of the client endpoint on the systems without a wildcard socket for both kinds of datagrams, \<^verbatim>\<open>bacnet/server_generic.go\<close>: one socket for
  broadcasts and one for the address of the interface.  The sockets are those of a host; what other goroutines do to the endpoint while
  the sockets are opened is the argument \<open>env\<close>.
\<close>

text \<open>A socket for an address; options and the type of the connection are the operating system's.\<close>

definition listenBroadcastUDP :: "listener \<Rightarrow> UDPAddr \<Rightarrow> Host \<Rightarrow> nat result \<times> Host" where
  "listenBroadcastUDP listen a h =
     (case listen (ho_next h) a of
        Inl e \<Rightarrow> (Inl e, h)
      | Inr l \<Rightarrow> (Inr (ho_next h), h\<lparr>ho_open := ho_open h @ [(ho_next h, EndpointFromUDP (Some l))], ho_next := ho_next h + 1\<rparr>))"

text \<open>The connections of an endpoint are its two sockets, the broadcast one first.\<close>

record generic =
  ge_srv :: Server
  ge_conns :: "(nat \<times> nat) option"
  ge_host :: Host

text \<open>\<^verbatim>\<open>ListenContext\<close> up to its \<^verbatim>\<open>select\<close>: \<open>Inr\<close> is an endpoint that waits there.\<close>

definition ListenContext_generic :: "listener \<Rightarrow> (Server \<Rightarrow> Server) \<Rightarrow> networkSet \<Rightarrow> u16 \<Rightarrow> generic \<Rightarrow> unit result \<times> generic" where
  "ListenContext_generic listen env ns serverPort g =
     (case reserveListener (ge_srv g) of
        (Inl e, s) \<Rightarrow> (Inl e, g\<lparr>ge_srv := s\<rparr>)
      | (Inr _, s) \<Rightarrow>
          (let serverAddr = getUdpAddr (Some (ns_IPv4 ns)) serverPort;
               broadcastAddr = getUdpAddr (Some (ns_BroadcastIPv4 ns)) (BroadcastPort s);
               broadcastBindAddr = getUdpAddr (Some (v4_prefix @ [0, 0, 0, 0])) (BroadcastPort s)
           in case listenBroadcastUDP listen broadcastBindAddr (ge_host g) of
                (Inl e, h) \<Rightarrow> (Inl e, g\<lparr>ge_srv := cancelListenerStart (env s), ge_host := h\<rparr>)
              | (Inr broadcastConn, h) \<Rightarrow>
                  (case listenBroadcastUDP listen serverAddr h of
                     (Inl e, h) \<Rightarrow> (Inl e, g\<lparr>ge_srv := cancelListenerStart (env s), ge_host := UDPConn_Close broadcastConn h\<rparr>)
                   | (Inr unicastConn, h) \<Rightarrow>
                       (case installConnections (unat serverPort) serverAddr broadcastAddr (env s) of
                          (Inl e, s) \<Rightarrow> (Inl e, g\<lparr>ge_srv := cancelListenerStart s, ge_host := UDPConn_Close broadcastConn (UDPConn_Close unicastConn h)\<rparr>)
                        | (Inr _, s) \<Rightarrow> (Inr (), g\<lparr>ge_srv := markStarted s, ge_conns := Some (broadcastConn, unicastConn), ge_host := h\<rparr>)))))"

text \<open>The errors of closing the two sockets are arguments.\<close>

definition closeConn_generic :: "go_error option \<Rightarrow> go_error option \<Rightarrow> generic \<Rightarrow> generic" where
  "closeConn_generic unicastErr broadcastErr g =
     (if closed (ge_srv g) then g
      else (let s = (ge_srv g)\<lparr>closing := True, listening := False\<rparr> in
        case ge_conns g of
          None \<Rightarrow> g\<lparr>ge_srv := s\<lparr>closed := True\<rparr>\<rparr>
        | Some (broadcastConn, unicastConn) \<Rightarrow>
            (let report = (\<lambda>e s. case e of None \<Rightarrow> s | Some e \<Rightarrow> reportError e s)
             in g\<lparr>ge_srv := (report broadcastErr (report unicastErr s))\<lparr>closed := True\<rparr>,
                  ge_host := UDPConn_Close broadcastConn (UDPConn_Close unicastConn (ge_host g))\<rparr>)))"

text \<open>\<^verbatim>\<open>Listen\<close> when \<^verbatim>\<open>ListenContext\<close> has returned an error.\<close>

definition Listen_failed :: "go_error option \<Rightarrow> go_error option \<Rightarrow> go_error \<Rightarrow> generic \<Rightarrow> generic" where
  "Listen_failed unicastErr broadcastErr e g =
     (let g = (if ctx_error e then g else g\<lparr>ge_srv := reportError e (ge_srv g)\<rparr>);
          g = g\<lparr>ge_srv := markStarted (ge_srv g)\<rparr>
      in if e \<noteq> ErrServerAlreadyListening then closeConn_generic unicastErr broadcastErr g else g)"

section \<open>No socket is left\<close>

lemma listen_Inl: "listenBroadcastUDP listen a h = (Inl e, h') \<Longrightarrow> h' = h"
  by (auto simp: listenBroadcastUDP_def split: sum.splits)

lemma listen_Inr:
  assumes "host_inv h" "listenBroadcastUDP listen a h = (Inr k, h')"
  shows "host_inv h'" "k \<notin> fst ` set (ho_open h)" "\<exists>local. set (ho_open h') = insert (k, local) (set (ho_open h))"
  using assms by (fastforce simp: listenBroadcastUDP_def host_inv_def less_Suc_eq split: sum.splits)+

text \<open>
  A start that fails, at whichever of its steps and whatever was done to the endpoint meanwhile, leaves the sockets as they were, and the endpoint
  not listening unless it was refused at once.  A start that succeeds opens two new sockets, and closing the endpoint closes exactly these.
\<close>

theorem generic_listener_sockets:
  assumes "host_inv (ge_host g)" "ListenContext_generic listen env ns serverPort g = (r, g')"
  shows "case r of
      Inl e \<Rightarrow> set (ho_open (ge_host g')) = set (ho_open (ge_host g)) \<and> ge_conns g' = ge_conns g
        \<and> (fst (reserveListener (ge_srv g)) = Inl e \<and> g' = g \<or> \<not> listening (ge_srv g'))
    | Inr _ \<Rightarrow> \<exists>b u. ge_conns g' = Some (b, u) \<and> b \<noteq> u \<and> {b, u} \<inter> fst ` set (ho_open (ge_host g)) = {}
        \<and> fst ` set (ho_open (ge_host g')) = {b, u} \<union> fst ` set (ho_open (ge_host g))
        \<and> (\<forall>ue be. \<not> closed (ge_srv g') \<longrightarrow> set (ho_open (ge_host (closeConn_generic ue be g'))) = set (ho_open (ge_host g)))"
proof (cases "fst (reserveListener (ge_srv g))")
  case (Inl e)
  then have "r = Inl e" "g' = g" using assms(2) by (auto simp: ListenContext_generic_def reserveListener_def split: if_splits)
  with Inl show ?thesis by simp
next
  case (Inr x)
  let ?s = "(ge_srv g)\<lparr>listening := True\<rparr>" and ?base = "set (ho_open (ge_host g))"
  let ?sa = "getUdpAddr (Some (ns_IPv4 ns)) serverPort" and ?ba = "getUdpAddr (Some (ns_BroadcastIPv4 ns)) (BroadcastPort (ge_srv g))"
  have s: "reserveListener (ge_srv g) = (Inr (), ?s)" using Inr by (auto simp: reserveListener_def split: if_splits)
  obtain rb h1 where b: "listenBroadcastUDP listen (getUdpAddr (Some (v4_prefix @ [0, 0, 0, 0])) (BroadcastPort (ge_srv g))) (ge_host g) = (rb, h1)" by fastforce
  show ?thesis
  proof (cases rb)
    case (Inl e)
    then have "h1 = ge_host g" using listen_Inl b by blast
    with Inl show ?thesis using assms(2) s b
      by (auto simp: ListenContext_generic_def cancelListenerStart_def Let_def)
  next
    case bc: (Inr bc)
    note b1 = listen_Inr [OF assms(1) b [unfolded bc]]
    obtain ru h2 where u: "listenBroadcastUDP listen ?sa h1 = (ru, h2)" by fastforce
    have closed1: "set (ho_open (UDPConn_Close bc h1)) = ?base" using b1(2,3) by (force simp: set_close)
    show ?thesis
    proof (cases ru)
      case (Inl e)
      then have "h2 = h1" using listen_Inl u by blast
      with Inl show ?thesis using assms(2) s b bc u closed1 by (auto simp: ListenContext_generic_def cancelListenerStart_def Let_def)
    next
      case uc: (Inr uc)
      note u1 = listen_Inr [OF b1(1) u [unfolded uc]]
      have ne: "bc \<noteq> uc" "uc \<notin> fst ` ?base" using u1(2) b1(3) by force+
      have closed2: "set (ho_open (UDPConn_Close bc (UDPConn_Close uc h2))) = ?base"
        using b1(2,3) u1(2,3) by (force simp: set_close)
      have opened: "fst ` set (ho_open h2) = {bc, uc} \<union> fst ` ?base" using b1(3) u1(3) by auto
      show ?thesis
      proof (cases "closing (env ?s)")
        case True
        then show ?thesis using assms(2) s b bc u uc closed2
          by (auto simp: ListenContext_generic_def installConnections_def cancelListenerStart_def Let_def)
      next
        case False
        then have g': "r = Inr ()" "ge_conns g' = Some (bc, uc)" "ge_host g' = h2"
          using assms(2) s b bc u uc by (auto simp: ListenContext_generic_def installConnections_def Let_def)
        then have "set (ho_open (ge_host (closeConn_generic ue be g'))) = ?base" if "\<not> closed (ge_srv g')" for ue be
          using that closed2 by (simp add: closeConn_generic_def Let_def)
        with g' ne b1(2) opened show ?thesis by auto
      qed
    qed
  qed
qed

end
