(* ===== verification/Sim_Validation.thy ===== *)
theory Sim_Validation
  imports Sim_Scenario Safety
begin

text \<open>
  What \<^verbatim>\<open>Scenario.Validate\<close> of \<^verbatim>\<open>simulator/scenario.go\<close> accepts, as a predicate on the scenario, and which scenarios
  \<^verbatim>\<open>BuildNetwork\<close> builds.  The editor of the graphical application relies on both.
\<close>

section \<open>The accepted scenarios\<close>

text \<open>The states of a multi-state object: there is one, and the values the object starts with are among them.\<close>

definition state_ok :: "u16 \<Rightarrow> u32 \<Rightarrow> go_value \<Rightarrow> bool" where
  "state_ok t states v \<longleftrightarrow> (\<exists>tag n. normalizePresentValue t v = Inr (tag, VUint32 n) \<and> n \<le> states)"

definition spec_values_ok :: "u16 \<Rightarrow> ObjectSpec \<Rightarrow> bool" where
  "spec_values_ok t spec \<longleftrightarrow> (\<exists>x. normalizePresentValue t (os_PresentValue spec) = Inr x)
     \<and> (isMultiStateObjectType t \<longrightarrow> os_NumberOfStates spec \<noteq> 0 \<and> state_ok t (os_NumberOfStates spec) (os_PresentValue spec)
          \<and> (os_Commandable spec \<and> os_RelinquishDefault spec \<noteq> VNil \<longrightarrow> state_ok t (os_NumberOfStates spec) (os_RelinquishDefault spec)))"

definition cov_ok :: "ObjectSpec \<Rightarrow> bool" where
  "cov_ok spec \<longleftrightarrow> \<not> f64_less (os_COVIncrement spec) 0 \<and> f64_finite (os_COVIncrement spec)"

definition initial_priority_ok :: "ObjectSpec \<Rightarrow> bool" where
  "initial_priority_ok spec \<longleftrightarrow> os_InitialPriority spec = 0
     \<or> os_Commandable spec \<and> os_PresentValue spec \<noteq> VNil \<and> os_InitialPriority spec \<le> PrioritySlots \<and> os_InitialPriority spec \<noteq> 6"

definition spec_type :: "ObjectSpec \<Rightarrow> u16" where
  "spec_type spec = (case objectTypeNumber (os_Type spec) of Inl _ \<Rightarrow> 0 | Inr t \<Rightarrow> t)"

definition spec_id :: "ObjectSpec \<Rightarrow> ObjectID" where
  "spec_id spec = \<lparr>id_Type = spec_type spec, id_Instance = os_Instance spec\<rparr>"

definition object_shape :: "ObjectSpec \<Rightarrow> bool" where
  "object_shape spec \<longleftrightarrow> objectTypeNumber (os_Type spec) = Inr (spec_type spec) \<and> os_Instance spec \<le> MaxObjectInstance
     \<and> TrimSpace (os_Name spec) \<noteq> [] \<and> cov_ok spec \<and> initial_priority_ok spec"

definition object_valid :: "ObjectSpec \<Rightarrow> bool" where
  "object_valid spec \<longleftrightarrow> object_shape spec \<and> spec_values_ok (spec_type spec) spec"

definition objects_valid :: "ObjectSpec list \<Rightarrow> bool" where
  "objects_valid specs \<longleftrightarrow> (\<forall>spec \<in> set specs. object_valid spec) \<and> distinct (map spec_id specs)"

definition endpoint :: "DeviceSpec \<Rightarrow> bytes" where
  "endpoint spec = ds_Address spec @ ascii '':'' @ ascii (itoa (unat (ds_Port spec)))"

definition device_shape :: "bytes \<Rightarrow> DeviceSpec \<Rightarrow> bool" where
  "device_shape mode spec \<longleftrightarrow> ds_ID spec \<le> MaxObjectInstance \<and> TrimSpace (ds_Name spec) \<noteq> []
     \<and> (mode = ascii ''multi-ip'' \<longrightarrow> TrimSpace (ds_Address spec) \<noteq> [])"

definition devices_shape :: "bytes \<Rightarrow> DeviceSpec list \<Rightarrow> bool" where
  "devices_shape mode specs \<longleftrightarrow> (\<forall>spec \<in> set specs. device_shape mode spec) \<and> distinct (map ds_ID specs)
     \<and> (mode \<noteq> ascii ''single-device'' \<longrightarrow> distinct (map endpoint specs))"

definition network_shape :: "Scenario \<Rightarrow> bool" where
  "network_shape s \<longleftrightarrow> sc_Version s = ScenarioVersion
     \<and> nc_Mode (sc_Network s) \<in> set (map ascii [''single-device'', ''multi-ip'', ''multi-port'']) \<and> sc_Devices s \<noteq> []
     \<and> (nc_Mode (sc_Network s) = ascii ''single-device'' \<longrightarrow> length (sc_Devices s) = 1)"

definition scenario_valid :: "Scenario \<Rightarrow> bool" where
  "scenario_valid s \<longleftrightarrow> network_shape s \<and> devices_shape (nc_Mode (sc_Network s)) (sc_Devices s)
     \<and> (\<forall>spec \<in> set (sc_Devices s). objects_valid (ds_Objects spec))"

text \<open>The effect of an accepting run: commandable objects are writable.\<close>

definition writable_device :: "DeviceSpec \<Rightarrow> DeviceSpec" where
  "writable_device spec = spec\<lparr>ds_Objects := map make_writable (ds_Objects spec)\<rparr>"

definition writable_scenario :: "Scenario \<Rightarrow> Scenario" where
  "writable_scenario s = s\<lparr>sc_Devices := map writable_device (sc_Devices s)\<rparr>"

section \<open>Validation decides the predicate\<close>

lemma wrap_error_Inl [simp]: "(\<exists>e. wrap_error t r = Inl e) \<longleftrightarrow> (\<exists>e. r = Inl e)"
  by (auto simp: wrap_error_def split: sum.splits go_error.splits)

lemma sum_ok: "(\<forall>e. (r :: 'e + unit) \<noteq> Inl e) \<longleftrightarrow> r = Inr ()"
  by (cases r) auto

lemma make_writable_sel [simp]:
  "os_Type (make_writable spec) = os_Type spec" "os_Instance (make_writable spec) = os_Instance spec"
  "os_Name (make_writable spec) = os_Name spec" "os_PresentValue (make_writable spec) = os_PresentValue spec"
  "os_Commandable (make_writable spec) = os_Commandable spec" "os_NumberOfStates (make_writable spec) = os_NumberOfStates spec"
  "os_RelinquishDefault (make_writable spec) = os_RelinquishDefault spec" "os_InitialPriority (make_writable spec) = os_InitialPriority spec"
  "os_COVIncrement (make_writable spec) = os_COVIncrement spec" "make_writable (make_writable spec) = make_writable spec"
  by (simp_all add: make_writable_def)

lemma normalizePresentValue_multistate:
  "isMultiStateObjectType t \<Longrightarrow> normalizePresentValue t v = Inr (tag, x) \<Longrightarrow> \<exists>n. x = VUint32 n"
  using normalizePresentValue_value(3) multistate_tag by fastforce

lemma normalizePresentValue_state:
  assumes "isMultiStateObjectType t"
  obtains e where "normalizePresentValue t v = Inl e" | tag n where "normalizePresentValue t v = Inr (tag, VUint32 n)"
  using normalizePresentValue_multistate [OF assms, of v] by (cases "normalizePresentValue t v") auto

lemma validateObjectSpecValues_iff: "validateObjectSpecValues t spec = Inr () \<longleftrightarrow> spec_values_ok t spec"
proof (cases "isMultiStateObjectType t")
  case True
  note nf = validateObjectSpecValues_def spec_values_ok_def state_ok_def not_less
  show ?thesis
  proof (cases rule: normalizePresentValue_state [OF True, of "os_PresentValue spec"])
    case (2 tag n)
    then show ?thesis using True
      by (cases rule: normalizePresentValue_state [OF True, of "os_RelinquishDefault spec"]) (auto simp: nf as_uint32_def)
  qed (simp add: nf)
qed (auto simp: validateObjectSpecValues_def spec_values_ok_def bind_res_eq_Inr)

lemma object_values_iff:
  "object_values oid spec = Inr () \<longleftrightarrow> cov_ok spec \<and> initial_priority_ok spec \<and> spec_values_ok (id_Type oid) spec"
  by (auto simp: object_values_def cov_ok_def initial_priority_ok_def validateObjectSpecValues_iff not_less split: if_splits)

lemma object_values_writable [simp]: "object_values oid (make_writable spec) = object_values oid spec"
  unfolding object_values_def validateObjectSpecValues_def make_writable_sel ..

lemma object_identity_iff:
  "object_identity seen spec = Inr oid \<longleftrightarrow> objectTypeNumber (os_Type spec) = Inr (spec_type spec) \<and> os_Instance spec \<le> MaxObjectInstance
     \<and> TrimSpace (os_Name spec) \<noteq> [] \<and> oid = spec_id spec \<and> oid \<notin> set seen"
  by (cases "objectTypeNumber (os_Type spec)")
    (auto simp: object_identity_def spec_type_def spec_id_def Let_def wrap_error_def not_less split: go_error.splits)

lemma validate_objects_iff:
  "validate_objects seen specs = (Inr (), specs') \<longleftrightarrow>
     objects_valid specs \<and> spec_id ` set specs \<inter> set seen = {} \<and> specs' = map make_writable specs"
proof (induction seen specs arbitrary: specs' rule: validate_objects.induct)
  case (2 seen spec specs)
  show ?case
  proof (cases "\<exists>oid. object_identity seen spec = Inr oid \<and> object_values oid spec = Inr ()")
    case True
    then obtain oid where o: "object_identity seen spec = Inr oid" "object_values oid spec = Inr ()" by auto
    have ih: "validate_objects (oid # seen) specs = (Inr (), xs) \<longleftrightarrow>
        objects_valid specs \<and> spec_id ` set specs \<inter> set (oid # seen) = {} \<and> xs = map make_writable specs" for xs
      using 2 [OF o(1) refl, of "()"] o by simp
    have v: "object_valid spec" "oid = spec_id spec" "oid \<notin> set seen"
      using o by (auto simp: object_identity_iff object_values_iff object_valid_def object_shape_def spec_id_def)
    have "validate_objects seen (spec # specs) = (Inr (), specs') \<longleftrightarrow>
        (\<exists>xs. validate_objects (oid # seen) specs = (Inr (), xs) \<and> specs' = make_writable spec # xs)"
      using o by (auto simp: Let_def split: prod.splits)
    with v ih show ?thesis by (auto simp: objects_valid_def)
  next
    case False
    then have "\<not> object_valid spec \<or> spec_id spec \<in> set seen"
      by (auto simp: object_identity_iff object_values_iff object_valid_def object_shape_def spec_id_def)
    moreover from False have "validate_objects seen (spec # specs) \<noteq> (Inr (), specs')"
      by (auto simp: Let_def split: sum.splits)
    ultimately show ?thesis by (auto simp: objects_valid_def)
  qed
qed (auto simp: objects_valid_def)

lemma no_device_type: "object_valid spec \<Longrightarrow> spec_id spec \<noteq> \<lparr>id_Type = 8, id_Instance = n\<rparr>"
  using objectTypeNumber_range by (auto simp: object_valid_def object_shape_def spec_id_def)

lemma validate_device_objects:
  "validate_objects [\<lparr>id_Type = 8, id_Instance = n\<rparr>] specs = (Inr (), specs') \<longleftrightarrow> objects_valid specs \<and> specs' = map make_writable specs"
proof -
  have "\<lparr>id_Type = 8, id_Instance = n\<rparr> \<notin> spec_id ` set specs" if "objects_valid specs"
    using that no_device_type by (metis image_iff objects_valid_def)
  then show ?thesis by (auto simp: validate_objects_iff)
qed

lemma device_identity_iff:
  "device_identity mode ids endpoints spec = Inr endpoints' \<longleftrightarrow> device_shape mode spec \<and> ds_ID spec \<notin> set ids
     \<and> (if mode = ascii ''single-device'' then endpoints' = endpoints
        else endpoint spec \<notin> set endpoints \<and> endpoints' = endpoint spec # endpoints)"
  by (auto simp: device_identity_def device_shape_def endpoint_def Let_def not_less)

lemma validate_devices_iff:
  "validate_devices mode ids endpoints specs = (Inr (), specs') \<longleftrightarrow> devices_shape mode specs \<and> (\<forall>spec \<in> set specs. objects_valid (ds_Objects spec))
     \<and> ds_ID ` set specs \<inter> set ids = {} \<and> (mode \<noteq> ascii ''single-device'' \<longrightarrow> endpoint ` set specs \<inter> set endpoints = {})
     \<and> specs' = map writable_device specs"
proof (induction mode ids endpoints specs arbitrary: specs' rule: validate_devices.induct)
  case (2 mode ids endpoints spec specs)
  show ?case
  proof (cases "(\<exists>es. device_identity mode ids endpoints spec = Inr es) \<and> objects_valid (ds_Objects spec)")
    case True
    then obtain es where d: "device_identity mode ids endpoints spec = Inr es"
      and o: "validate_objects [\<lparr>id_Type = 8, id_Instance = ds_ID spec\<rparr>] (ds_Objects spec) = (Inr (), map make_writable (ds_Objects spec))"
      by (auto simp: validate_device_objects)
    note ih = 2 [OF d o [symmetric] refl]
    have "validate_devices mode ids endpoints (spec # specs) = (Inr (), specs') \<longleftrightarrow>
        (\<exists>xs. validate_devices mode (ds_ID spec # ids) es specs = (Inr (), xs) \<and> specs' = writable_device spec # xs)"
      using d o by (auto simp: Let_def writable_device_def split: prod.splits)
    with ih d [unfolded device_identity_iff] True show ?thesis
      by (auto simp: devices_shape_def split: if_splits)
  next
    case False
    then have "validate_devices mode ids endpoints (spec # specs) \<noteq> (Inr (), specs')"
      using validate_device_objects [of "ds_ID spec" "ds_Objects spec"]
      by (auto simp: Let_def split: sum.splits prod.splits)
    moreover have "\<not> (device_shape mode spec \<and> ds_ID spec \<notin> set ids \<and> (mode \<noteq> ascii ''single-device'' \<longrightarrow> endpoint spec \<notin> set endpoints))
        \<or> \<not> objects_valid (ds_Objects spec)"
      using False device_identity_iff [of mode ids endpoints spec] by (auto split: if_splits)
    ultimately show ?thesis by (auto simp: devices_shape_def)
  qed
qed (auto simp: devices_shape_def)

lemma Scenario_Validate_devices:
  "network_shape s \<Longrightarrow> Scenario_Validate s =
     (let (r, devices) = validate_devices (nc_Mode (sc_Network s)) [] [] (sc_Devices s) in (r, s\<lparr>sc_Devices := devices\<rparr>))"
  unfolding Scenario_Validate_def network_shape_def Let_def by auto

lemma Scenario_Validate_refused: "\<not> network_shape s \<Longrightarrow> fst (Scenario_Validate s) \<noteq> Inr ()"
  unfolding Scenario_Validate_def network_shape_def Let_def by auto

lemma Scenario_Validate_iff:
  "Scenario_Validate s = (Inr (), s') \<longleftrightarrow> scenario_valid s \<and> s' = writable_scenario s"
proof (cases "network_shape s")
  case True
  then have "Scenario_Validate s = (Inr (), s') \<longleftrightarrow>
      (\<exists>ds. validate_devices (nc_Mode (sc_Network s)) [] [] (sc_Devices s) = (Inr (), ds) \<and> s' = s\<lparr>sc_Devices := ds\<rparr>)"
    by (auto simp: Scenario_Validate_devices split: prod.splits)
  then show ?thesis using True by (auto simp: validate_devices_iff scenario_valid_def writable_scenario_def)
next
  case False
  then show ?thesis using Scenario_Validate_refused [of s] by (auto simp: scenario_valid_def)
qed

lemma Scenario_Validate_fst: "fst (Scenario_Validate s) = Inr () \<longleftrightarrow> scenario_valid s"
  using Scenario_Validate_iff [of s "snd (Scenario_Validate s)"]
  by (metis Scenario_Validate_iff fst_conv prod.collapse)

section \<open>No panic\<close>

lemma safe_numeric [simp]: "safe (numericUint32 v)" "safe (numericFloat64 v)" "safe (objectTypeNumber name)"
  by (auto simp: numericUint32_def numericFloat64_def objectTypeNumber_def Let_def split: go_value.splits option.splits)

lemma safe_normalizePresentValue [simp]: "safe (normalizePresentValue t v)"
  unfolding normalizePresentValue_def normalize_analog_def normalize_binary_def normalize_multistate_def
  by (auto intro!: safe_intros)

lemma safe_wrap_error [simp]: "safe (wrap_error t r) \<longleftrightarrow> safe r"
  by (auto simp: wrap_error_def safe_def split: sum.splits go_error.splits)

lemma safe_validateObjectSpecValues [simp]: "safe (validateObjectSpecValues t spec)"
proof -
  have state: "safe (as_uint32 x)" if "isMultiStateObjectType t" "normalizePresentValue t v = Inr (tag, x)" for v tag x
    using normalizePresentValue_multistate [OF that] by (auto simp: as_uint32_def)
  show ?thesis unfolding validateObjectSpecValues_def by (auto intro!: safe_intros elim: state)
qed

lemma safe_object_checks [simp]: "safe (object_identity seen spec)" "safe (object_values oid spec)" "safe (device_identity mode ids es d)"
  by (auto simp: object_identity_def object_values_def device_identity_def Let_def intro!: safe_intros)

lemma safe_fst: "p = (r, x) \<Longrightarrow> safe (fst p) \<Longrightarrow> safe r"
  by simp

lemma safe_validate_objects [simp]: "safe (fst (validate_objects seen specs))"
proof (induction seen specs rule: validate_objects.induct)
  case (2 seen spec specs)
  show ?case
  proof (cases "object_identity seen spec")
    case (Inl e)
    then show ?thesis using safe_InlD [OF safe_object_checks(1)] by auto
  next
    case (Inr oid)
    then show ?thesis using safe_InlD [OF safe_object_checks(2)] 2 [OF Inr refl]
      by (auto simp: Let_def split: sum.splits prod.splits dest: safe_fst)
  qed
qed simp

lemma safe_validate_devices [simp]: "safe (fst (validate_devices mode ids es specs))"
proof (induction mode ids es specs rule: validate_devices.induct)
  case (2 mode ids es spec specs)
  obtain r objs where o: "validate_objects [\<lparr>id_Type = 8, id_Instance = ds_ID spec\<rparr>] (ds_Objects spec) = (r, objs)" by force
  have r: "safe r" by (rule safe_fst [OF o safe_validate_objects])
  show ?case
  proof (cases "device_identity mode ids es spec")
    case (Inl e)
    then show ?thesis using safe_InlD [OF safe_object_checks(3)] by auto
  next
    case (Inr es')
    then show ?thesis using r o 2 [OF Inr o [symmetric]]
      by (auto simp: Let_def split: sum.splits prod.splits dest: safe_fst)
  qed
qed simp

lemma safe_Scenario_Validate [simp]: "safe (fst (Scenario_Validate s))"
  using safe_fst [OF _ safe_validate_devices] unfolding Scenario_Validate_def Let_def by (auto split: prod.splits)

section \<open>Building\<close>

text \<open>Validation does not look at the relinquish default of an analog or binary object; building needs it.\<close>

definition default_ok :: "ObjectSpec \<Rightarrow> bool" where
  "default_ok spec \<longleftrightarrow> (os_Commandable spec \<longrightarrow> (\<exists>x. normalizePresentValue (spec_type spec) (os_RelinquishDefault spec) = Inr x))"

definition defaults_ok :: "Scenario \<Rightarrow> bool" where
  "defaults_ok s \<longleftrightarrow> (\<forall>d \<in> set (sc_Devices s). \<forall>spec \<in> set (ds_Objects d). default_ok spec)"

lemma slot_bound: "initial_priority_ok spec \<Longrightarrow> unat ((if os_InitialPriority spec = 0 then PrioritySlots else os_InitialPriority spec) - 1) < 16"
proof (cases "os_InitialPriority spec = 0")
  case False
  assume "initial_priority_ok spec"
  with False have "os_InitialPriority spec \<le> 16" by (simp add: initial_priority_ok_def PrioritySlots_def)
  then have "unat (os_InitialPriority spec) \<le> 16" by (simp add: word_le_nat_alt)
  moreover have "unat (os_InitialPriority spec) \<noteq> 0" using False by (simp add: unat_eq_0)
  ultimately show ?thesis using False by (simp add: unat_minus_one)
qed (simp add: PrioritySlots_def)

lemma present_value_builds:
  assumes "object_valid spec"
  shows "(case present_value (spec_type spec) spec of Inl e \<Rightarrow> \<not> default_ok spec \<and> e \<noteq> Panic | Inr p \<Rightarrow> default_ok spec)"
proof -
  obtain x where x: "normalizePresentValue (spec_type spec) (os_PresentValue spec) = Inr x"
    using assms by (auto simp: object_valid_def spec_values_ok_def)
  have slot: "unat (PrioritySlots - 1) < 16" "os_InitialPriority spec = 0 \<or> unat (os_InitialPriority spec - 1) < 16"
    using slot_bound [of spec] assms by (auto simp: object_valid_def object_shape_def PrioritySlots_def split: if_splits)
  show ?thesis
  proof (cases "normalizePresentValue (spec_type spec) (os_RelinquishDefault spec)")
    case (Inl e)
    then have "e \<noteq> Panic" using safe_InlD [OF safe_normalizePresentValue] by blast
    with x Inl show ?thesis by (simp add: present_value_def default_ok_def Let_def split: prod.splits)
  next
    case (Inr y)
    with x slot show ?thesis by (auto simp: present_value_def default_ok_def Let_def not_le split: prod.splits)
  qed
qed

lemma buildObject_builds:
  assumes "object_valid spec"
  shows "(case buildObject spec of Inl e \<Rightarrow> \<not> default_ok spec \<and> e \<noteq> Panic | Inr obj \<Rightarrow> default_ok spec \<and> so_ID obj = spec_id spec)"
proof -
  have t: "objectTypeNumber (os_Type spec) = Inr (spec_type spec)" using assms by (simp add: object_valid_def object_shape_def)
  show ?thesis using present_value_builds [OF assms]
    by (auto simp: buildObject_def t Let_def spec_id_def set_property_sel split: sum.splits)
qed

lemma map_res_buildObject:
  assumes "\<forall>spec \<in> set specs. object_valid spec"
  shows "(case map_res buildObject specs of Inl e \<Rightarrow> \<not> (\<forall>spec \<in> set specs. default_ok spec) \<and> e \<noteq> Panic
    | Inr objs \<Rightarrow> (\<forall>spec \<in> set specs. default_ok spec) \<and> map so_ID objs = map spec_id specs)"
  using assms
proof (induction specs)
  case (Cons spec specs)
  then have "object_valid spec" by simp
  from buildObject_builds [OF this] Cons show ?case by (auto split: sum.splits)
qed simp

lemma fst_fold_update: "fst ` set (fold (\<lambda>obj. AList.update (k obj) obj) objs al) = k ` set objs \<union> fst ` set al"
proof (induction objs arbitrary: al)
  case (Cons obj objs)
  have "fst ` set (AList.update (k obj) obj al) = insert (k obj) (fst ` set al)"
    unfolding dom_map_of_conv_image_fst [symmetric] by (simp add: update_conv')
  with Cons show ?case by auto
qed simp

definition built_from :: "DeviceSpec \<Rightarrow> SimDevice \<Rightarrow> bool" where
  "built_from spec d \<longleftrightarrow> sd_ID d = ds_ID spec \<and> sd_Name d = ds_Name spec \<and> sd_Address d = ds_Address spec \<and> sd_Port d = ds_Port spec
     \<and> fst ` set (sd_Objects d) = insert \<lparr>id_Type = 8, id_Instance = ds_ID spec\<rparr> (spec_id ` set (ds_Objects spec))"

text \<open>The network a scenario describes: a device for each specification, with its own object and the ones specified.\<close>

definition describes :: "Scenario \<Rightarrow> SimNetwork \<Rightarrow> bool" where
  "describes s n \<longleftrightarrow> (\<forall>i. case Network_Device n i of
       Inl _ \<Rightarrow> i \<notin> ds_ID ` set (sc_Devices s)
     | Inr d \<Rightarrow> \<exists>spec \<in> set (sc_Devices s). i = ds_ID spec \<and> built_from spec d)"

lemma describesI:
  assumes "\<forall>i. i \<notin> ds_ID ` set (sc_Devices s) \<longrightarrow> map_of n i = None"
    and "\<forall>spec \<in> set (sc_Devices s). \<exists>d. map_of n (ds_ID spec) = Some d \<and> built_from spec d"
  shows "describes s n"
  using assms by (fastforce simp: describes_def Network_Device_def split: option.splits)

lemma writable_sel [simp]:
  "spec_type (make_writable spec) = spec_type spec" "spec_id (make_writable spec) = spec_id spec"
  "object_valid (make_writable spec) = object_valid spec" "default_ok (make_writable spec) = default_ok spec"
  "ds_ID (writable_device d) = ds_ID d" "ds_Objects (writable_device d) = map make_writable (ds_Objects d)"
  "endpoint (writable_device d) = endpoint d" "device_shape mode (writable_device d) = device_shape mode d"
  "sc_Devices (writable_scenario s) = map writable_device (sc_Devices s)" "sc_Network (writable_scenario s) = sc_Network s"
  "sc_Version (writable_scenario s) = sc_Version s"
  by (simp_all add: spec_type_def spec_id_def object_valid_def object_shape_def default_ok_def spec_values_ok_def cov_ok_def initial_priority_ok_def
      writable_device_def endpoint_def device_shape_def writable_scenario_def)

lemma built_from_writable: "built_from (writable_device spec) d = built_from spec d"
  by (simp add: built_from_def image_image) (simp add: writable_device_def)

lemma describes_writable: "describes (writable_scenario s) n = describes s n"
  by (simp add: describes_def image_image built_from_writable cong: sum.case_cong)

lemma scenario_valid_writable: "scenario_valid (writable_scenario s) = scenario_valid s"
proof -
  have "objects_valid (ds_Objects (writable_device d)) = objects_valid (ds_Objects d)" for d
    by (simp add: objects_valid_def o_def)
  then show ?thesis by (simp add: scenario_valid_def network_shape_def devices_shape_def o_def)
qed

lemma writable_scenario_idem: "writable_scenario (writable_scenario s) = writable_scenario s"
proof -
  have "writable_device (writable_device d) = writable_device d" for d by (simp add: writable_device_def o_def)
  then show ?thesis by (simp add: writable_scenario_def o_def)
qed

lemma buildDevice_builds:
  assumes "objects_valid (ds_Objects spec)"
  shows "(case buildDevice spec of Inl e \<Rightarrow> \<not> (\<forall>o1 \<in> set (ds_Objects spec). default_ok o1) \<and> e \<noteq> Panic
    | Inr d \<Rightarrow> (\<forall>o1 \<in> set (ds_Objects spec). default_ok o1) \<and> built_from spec d)"
proof -
  have v: "\<forall>o1 \<in> set (ds_Objects spec). object_valid o1" using assms by (simp add: objects_valid_def)
  show ?thesis
  proof (cases "map_res buildObject (ds_Objects spec)")
    case (Inl e)
    with map_res_buildObject [OF v] show ?thesis by (cases e) (simp_all add: buildDevice_def wrap_error_def)
  next
    case (Inr objs)
    with map_res_buildObject [OF v] have i: "map so_ID objs = map spec_id (ds_Objects spec)" "\<forall>o1 \<in> set (ds_Objects spec). default_ok o1" by simp_all
    have "so_ID ` set objs = spec_id ` set (ds_Objects spec)" using arg_cong [OF i(1), of set] by simp
    with Inr i(2) show ?thesis by (simp add: buildDevice_def wrap_error_def built_from_def fst_fold_update Let_def)
  qed
qed

lemma add_devices_builds:
  assumes "\<forall>spec \<in> set specs. objects_valid (ds_Objects spec) \<and> ds_ID spec \<le> MaxObjectInstance"
    and "distinct (map ds_ID specs)" "\<forall>spec \<in> set specs. map_of n (ds_ID spec) = None"
  shows "(case add_devices specs n of Inl e \<Rightarrow> \<not> (\<forall>spec \<in> set specs. \<forall>o1 \<in> set (ds_Objects spec). default_ok o1) \<and> e \<noteq> Panic
    | Inr n' \<Rightarrow> (\<forall>spec \<in> set specs. \<forall>o1 \<in> set (ds_Objects spec). default_ok o1)
        \<and> (\<forall>i. i \<notin> ds_ID ` set specs \<longrightarrow> map_of n' i = map_of n i)
        \<and> (\<forall>spec \<in> set specs. \<exists>d. map_of n' (ds_ID spec) = Some d \<and> built_from spec d))"
  using assms
proof (induction specs arbitrary: n)
  case (Cons spec specs)
  then have o: "objects_valid (ds_Objects spec)" by simp
  show ?case
  proof (cases "buildDevice spec")
    case (Inl e)
    with buildDevice_builds [OF o] show ?thesis by auto
  next
    case (Inr d)
    with buildDevice_builds [OF o] have d: "built_from spec d" "\<forall>o1 \<in> set (ds_Objects spec). default_ok o1" by simp_all
    define n1 where "n1 = AList.update (ds_ID spec) d n"
    have m: "map_of n1 = (map_of n)(ds_ID spec \<mapsto> d)" by (simp add: n1_def update_conv')
    have "add_devices (spec # specs) n = add_devices specs n1"
      using Cons.prems d(1) Inr by (auto simp: AddDevice_def built_from_def n1_def)
    moreover have "map_of n1 (ds_ID d') = None" if "d' \<in> set specs" for d'
    proof -
      have "ds_ID d' \<noteq> ds_ID spec" using that Cons.prems(2) by (metis distinct.simps(2) image_eqI list.map(2) list.set_map)
      then show ?thesis using Cons.prems(3) that by (simp add: m)
    qed
    moreover note Cons.IH [of n1] Cons.prems(1,2) d
    ultimately show ?thesis by (cases "add_devices specs n1") (auto simp: m)
  qed
qed simp

lemma BuildNetwork_outcome:
  "(case BuildNetwork s of
      Inl e \<Rightarrow> \<not> (scenario_valid s \<and> defaults_ok s) \<and> e \<noteq> Panic
    | Inr n \<Rightarrow> scenario_valid s \<and> defaults_ok s \<and> describes s n)"
proof (cases "scenario_valid s")
  case True
  let ?ds = "sc_Devices (writable_scenario s)"
  have v: "BuildNetwork s = add_devices ?ds NewNetwork"
    using True Scenario_Validate_iff [of s "writable_scenario s"] by (simp add: BuildNetwork_def)
  have w: "scenario_valid (writable_scenario s)" using True by (simp add: scenario_valid_writable)
  have d: "(\<forall>spec \<in> set ?ds. \<forall>o1 \<in> set (ds_Objects spec). default_ok o1) \<longleftrightarrow> defaults_ok s"
    by (simp add: defaults_ok_def)
  from w have "\<forall>spec \<in> set ?ds. objects_valid (ds_Objects spec) \<and> ds_ID spec \<le> MaxObjectInstance" "distinct (map ds_ID ?ds)"
    unfolding scenario_valid_def devices_shape_def device_shape_def by blast+
  note b = add_devices_builds [OF this, of NewNetwork, folded v, unfolded d]
  show ?thesis
  proof (cases "BuildNetwork s")
    case (Inl e)
    with b show ?thesis by (simp add: NewNetwork_def)
  next
    case (Inr n)
    with b have "describes (writable_scenario s) n" "defaults_ok s" by (auto simp: NewNetwork_def intro!: describesI)
    with Inr True show ?thesis by (simp add: describes_writable)
  qed
next
  case False
  then obtain e s' where "Scenario_Validate s = (Inl e, s')" "e \<noteq> Panic"
    using Scenario_Validate_iff [of s] safe_Scenario_Validate [of s]
    by (cases "Scenario_Validate s"; cases "fst (Scenario_Validate s)") auto
  with False show ?thesis by (simp add: BuildNetwork_def)
qed

section \<open>Properties\<close>

text \<open>
  C29: \<^verbatim>\<open>Scenario.Validate\<close> succeeds exactly on the valid scenarios (version and mode are supported, device ids and,
  outside single-device mode, endpoints are unique, every object has a known type, an identifier of its own in the
  instance range, a name, and values that fit the type).  It then has made the commandable objects writable and changed
  nothing else, a second run accepts the result unchanged, and it never panics.
\<close>

theorem Validate_decides:
  "fst (Scenario_Validate s) \<noteq> Inl Panic
   \<and> (case Scenario_Validate s of
        (Inr _, s') \<Rightarrow> scenario_valid s \<and> s' = writable_scenario s \<and> Scenario_Validate s' = (Inr (), s')
      | (Inl _, _) \<Rightarrow> \<not> scenario_valid s)"
proof -
  have w: "Scenario_Validate (writable_scenario s) = (Inr (), writable_scenario s)" if "scenario_valid s"
    using that unfolding Scenario_Validate_iff
    by (simp add: scenario_valid_writable writable_scenario_idem)
  obtain r s' where v: "Scenario_Validate s = (r, s')" by force
  show ?thesis
  proof (cases r)
    case (Inl e)
    with v have "\<not> scenario_valid s" using Scenario_Validate_fst [of s] by auto
    with v Inl safe_Scenario_Validate [of s] show ?thesis by simp
  next
    case (Inr u)
    with v have "scenario_valid s" "s' = writable_scenario s" using Scenario_Validate_iff [of s s'] by auto
    with v Inr w show ?thesis by simp
  qed
qed

text \<open>
  C30: \<^verbatim>\<open>BuildNetwork\<close> succeeds exactly on a valid scenario in which every commandable object also has a relinquish
  default of its type: \<^verbatim>\<open>Validate\<close> checks that default for multi-state objects only.  The network it builds has
  one device per specification, with the specified name and endpoint, its device object and exactly the specified objects;
  a failure is an error value and no panic.
\<close>

theorem BuildNetwork_total:
  "(case BuildNetwork s of
      Inl e \<Rightarrow> \<not> (scenario_valid s \<and> defaults_ok s) \<and> e \<noteq> Panic
    | Inr n \<Rightarrow> scenario_valid s \<and> defaults_ok s \<and> describes s n)"
  by (rule BuildNetwork_outcome)

end
