(* ===== verification/Gui_Document.thy ===== *)
theory Gui_Document
  imports Sim_Validation
begin

text \<open>
  The scenario editor of the graphical application, \<^verbatim>\<open>gui/internal/scenariodoc\<close>: a document with its path and format,
  loading and saving, and the edits.  The JSON and YAML codecs are arguments.  A file
  system is a map from paths to files; what the operating system answers to each call is an argument, so that every
  failure of a save is a run of the model.  As elsewhere, a message is its format string.
\<close>

section \<open>Documents\<close>

record Document =
  dc_path :: bytes
  dc_format :: bytes
  dc_scenario :: Scenario
  dc_dirty :: bool

definition ErrNoPath :: go_error where "ErrNoPath = Err ''document has no destination path; use SaveAs''"

definition ObjectSpec_zero :: ObjectSpec where
  "ObjectSpec_zero = \<lparr>os_Type = [], os_Instance = 0, os_Name = [], os_Description = [], os_PresentValue = VNil, os_Units = 0,
     os_Writable = False, os_Commandable = False, os_RelinquishDefault = VNil, os_InitialPriority = 0, os_NumberOfStates = 0,
     os_COVIncrement = 0, os_OutOfService = False\<rparr>"

definition DeviceSpec_zero :: DeviceSpec where
  "DeviceSpec_zero = \<lparr>ds_ID = 0, ds_Address = [], ds_Port = 0, ds_Name = [], ds_VendorID = 0, ds_VendorName = [], ds_ModelName = [],
     ds_ProtocolRevision = 0, ds_Objects = []\<rparr>"

definition New :: Document where
  "New = \<lparr>dc_path = [], dc_format = ascii ''yaml'',
     dc_scenario = \<lparr>sc_Version = ScenarioVersion, sc_Network = \<lparr>nc_Mode = ascii ''single-device'', nc_Interface = [], nc_Port = 0\<rparr>,
       sc_Devices = [DeviceSpec_zero\<lparr>ds_ID := 1, ds_Name := ascii ''device-1''\<rparr>]\<rparr>,
     dc_dirty = False\<rparr>"

definition MarkDirty :: "Document \<Rightarrow> Document" where
  "MarkDirty d = d\<lparr>dc_dirty := True\<rparr>"

text \<open>\<^verbatim>\<open>filepath.Ext\<close>: from the last dot of the last element of the path.\<close>

definition Ext :: "bytes \<Rightarrow> bytes" where
  "Ext path = (let element = takeWhile (\<lambda>c. c \<noteq> 47) (rev path)
     in if 46 \<in> set element then 46 # rev (takeWhile (\<lambda>c. c \<noteq> 46) element) else [])"

definition formatForPath :: "bytes \<Rightarrow> bytes" where
  "formatForPath path = (case ToLower (Ext path) of c # cs \<Rightarrow> if c = 46 then cs else c # cs | [] \<Rightarrow> [])"

record codecs =
  json_MarshalIndent :: "Scenario \<Rightarrow> bytes result"
  yaml_Marshal :: "Scenario \<Rightarrow> bytes result"
  json_Decode :: "bytes \<Rightarrow> Scenario result"
  yaml_UnmarshalStrict :: "bytes \<Rightarrow> Scenario result"

abbreviation Decode :: "codecs \<Rightarrow> bytes \<Rightarrow> bytes \<Rightarrow> Scenario result" where
  "Decode c data \<equiv> DecodeScenario (json_Decode c) (yaml_UnmarshalStrict c) (Inr data)"

section \<open>Files\<close>

record stored =
  f_data :: bytes
  f_mode :: nat

type_synonym files = "bytes \<rightharpoonup> stored"

text \<open>
  The answers of the operating system to one save: the names \<^verbatim>\<open>os.CreateTemp\<close> draws, how many octets a failing write
  still stores, and whether each of the other calls succeeds.
\<close>

record answers =
  an_temps :: "bytes list"
  an_write :: "nat option"
  an_close :: bool
  an_chmod :: bool
  an_rename :: bool
  an_remove :: bool

definition ReadFile :: "bool \<Rightarrow> bytes \<Rightarrow> files \<Rightarrow> bytes result" where
  "ReadFile readable path fs = (case fs path of
       Some f \<Rightarrow> if readable then Inr (f_data f) else Inl (Err ''read'')
     | None \<Rightarrow> Inl (Err ''open: no such file or directory''))"

text \<open>A name is taken only when no file has it (\<^verbatim>\<open>O_EXCL\<close>).\<close>

definition CreateTemp :: "bytes list \<Rightarrow> files \<Rightarrow> (bytes \<times> files) result" where
  "CreateTemp names fs = (case find (\<lambda>n. fs n = None) names of
       None \<Rightarrow> Inl (Err ''createtemp'')
     | Some n \<Rightarrow> Inr (n, fs(n \<mapsto> \<lparr>f_data = [], f_mode = 384\<rparr>)))"

definition write_and_rename :: "answers \<Rightarrow> bytes \<Rightarrow> bytes \<Rightarrow> bytes \<Rightarrow> files \<Rightarrow> unit result \<times> files" where
  "write_and_rename a tmp path data fs = (case an_write a of
       Some n \<Rightarrow> (Inl (Err ''write''), fs(tmp \<mapsto> \<lparr>f_data = take n data, f_mode = 384\<rparr>))
     | None \<Rightarrow>
         (let fs = fs(tmp \<mapsto> \<lparr>f_data = data, f_mode = 384\<rparr>) in
          if \<not> an_close a then (Inl (Err ''close''), fs)
          else if \<not> an_chmod a then (Inl (Err ''chmod''), fs)
          else let fs = fs(tmp \<mapsto> \<lparr>f_data = data, f_mode = 420\<rparr>) in
            if \<not> an_rename a then (Inl (Err ''rename''), fs)
            else (Inr (), (fs(tmp := None))(path := fs tmp))))"

text \<open>The deferred removal runs on every return after the temporary file exists; its own error is dropped.\<close>

definition atomicWrite :: "answers \<Rightarrow> bytes \<Rightarrow> bytes \<Rightarrow> files \<Rightarrow> unit result \<times> files" where
  "atomicWrite a path data fs =
     (case CreateTemp (an_temps a) fs of
        Inl e \<Rightarrow> (Inl e, fs)
      | Inr (tmp, fs) \<Rightarrow>
          (let (r, fs) = write_and_rename a tmp path data fs in (r, if an_remove a then fs(tmp := None) else fs)))"

section \<open>Loading and saving\<close>

definition Load :: "codecs \<Rightarrow> bool \<Rightarrow> bytes \<Rightarrow> files \<Rightarrow> Document result" where
  "Load c readable path fs =
     bind_res (ReadFile readable path fs) (\<lambda>data.
     bind_res (Decode c data (formatForPath path)) (\<lambda>scenario.
       Inr \<lparr>dc_path = path, dc_format = formatForPath path, dc_scenario = scenario, dc_dirty = False\<rparr>))"

definition LoadBytes :: "codecs \<Rightarrow> bytes \<Rightarrow> bytes \<Rightarrow> Document result" where
  "LoadBytes c data format =
     bind_res (Decode c data format) (\<lambda>scenario.
       Inr \<lparr>dc_path = [], dc_format = format, dc_scenario = scenario, dc_dirty = False\<rparr>)"

definition Document_Validate :: "codecs \<Rightarrow> Document \<Rightarrow> unit result" where
  "Document_Validate c d =
     bind_res (yaml_Marshal c (dc_scenario d)) (\<lambda>data.
     bind_res (Decode c data (ascii ''yaml'')) (\<lambda>_. Inr ()))"

definition marshalScenario :: "codecs \<Rightarrow> Scenario \<Rightarrow> bytes \<Rightarrow> bytes result" where
  "marshalScenario c s format = (if ToLower format = ascii ''json'' then json_MarshalIndent c s else yaml_Marshal c s)"

definition writeTo :: "codecs \<Rightarrow> answers \<Rightarrow> bytes \<Rightarrow> bytes \<Rightarrow> Document \<Rightarrow> files \<Rightarrow> unit result \<times> Document \<times> files" where
  "writeTo c a path format d fs =
     (case bind_res (Document_Validate c d) (\<lambda>_.
           bind_res (marshalScenario c (dc_scenario d) format) (\<lambda>data.
           bind_res (wrap_error ''internal error: scenario failed round-trip validation before save: %w'' (Decode c data format)) (\<lambda>_.
             Inr data))) of
        Inl e \<Rightarrow> (Inl e, d, fs)
      | Inr data \<Rightarrow>
          (case atomicWrite a path data fs of
             (Inl e, fs) \<Rightarrow> (Inl e, d, fs)
           | (Inr _, fs) \<Rightarrow> (Inr (), d\<lparr>dc_dirty := False\<rparr>, fs)))"

definition Save :: "codecs \<Rightarrow> answers \<Rightarrow> Document \<Rightarrow> files \<Rightarrow> unit result \<times> Document \<times> files" where
  "Save c a d fs = (if dc_path d = [] then (Inl ErrNoPath, d, fs) else writeTo c a (dc_path d) (dc_format d) d fs)"

definition SaveAs :: "codecs \<Rightarrow> answers \<Rightarrow> bytes \<Rightarrow> Document \<Rightarrow> files \<Rightarrow> unit result \<times> Document \<times> files" where
  "SaveAs c a path d fs =
     (case writeTo c a path (formatForPath path) d fs of
        (Inl e, d, fs) \<Rightarrow> (Inl e, d, fs)
      | (Inr _, d, fs) \<Rightarrow> (Inr (), d\<lparr>dc_path := path, dc_format := formatForPath path\<rparr>, fs))"

section \<open>Edits\<close>

definition objectTypeAliases :: "(string \<times> string) list" where
  "objectTypeAliases =
     [(''analog-input'', ''analog-input''), (''analog-output'', ''analog-output''), (''analog-value'', ''analog-value''),
      (''binary-input'', ''binary-input''), (''binary-output'', ''binary-output''), (''binary-value'', ''binary-value''),
      (''multistate-input'', ''multi-state-input''), (''multistate-output'', ''multi-state-output''),
      (''multistate-value'', ''multi-state-value''), (''multi-state-input'', ''multi-state-input''),
      (''multi-state-output'', ''multi-state-output''), (''multi-state-value'', ''multi-state-value'')]"

definition canonicalObjectType :: "bytes \<Rightarrow> bytes option" where
  "canonicalObjectType name =
     map_of (map (\<lambda>(n, c). (ascii n, ascii c)) objectTypeAliases)
       (ToLower (map (\<lambda>c. if c = 95 then 45 else c) (TrimSpace name)))"

definition isMultiStateType :: "bytes \<Rightarrow> bool" where
  "isMultiStateType canon \<longleftrightarrow> canon \<in> set (map ascii [''multi-state-input'', ''multi-state-output'', ''multi-state-value''])"

definition deviceIDs :: "DeviceSpec list \<Rightarrow> u32 list" where
  "deviceIDs devices = map ds_ID devices"

definition objectInstances :: "ObjectSpec list \<Rightarrow> bytes \<Rightarrow> u32 list" where
  "objectInstances objects canonType = map os_Instance (filter (\<lambda>obj. canonicalObjectType (os_Type obj) = Some canonType) objects)"

text \<open>The search for a free identifier; \<open>None\<close> is a search that does not end.\<close>

partial_function (option) free_from :: "u32 list \<Rightarrow> u32 \<Rightarrow> u32 option" where
  "free_from used i = (if i \<in> set used then free_from used (i + 1) else Some i)"

definition nextFreeID :: "u32 list \<Rightarrow> u32 option" where
  "nextFreeID used = free_from used 1"

definition set_devices :: "DeviceSpec list \<Rightarrow> Document \<Rightarrow> Document" where
  "set_devices ds d = d\<lparr>dc_scenario := (dc_scenario d)\<lparr>sc_Devices := ds\<rparr>\<rparr>"

abbreviation devices :: "Document \<Rightarrow> DeviceSpec list" where
  "devices d \<equiv> sc_Devices (dc_scenario d)"

text \<open>The pointer the edits return is the last element of the list they append to.\<close>

definition Document_AddDevice :: "Document \<Rightarrow> Document option" where
  "Document_AddDevice d =
     map_option (\<lambda>i. MarkDirty (set_devices
       (devices d @ [DeviceSpec_zero\<lparr>ds_ID := i, ds_Name := ascii (''device-'' @ itoa (unat i))\<rparr>]) d))
       (nextFreeID (deviceIDs (devices d)))"

definition RemoveDevice :: "int \<Rightarrow> Document \<Rightarrow> Document" where
  "RemoveDevice i d =
     (if i < 0 \<or> i \<ge> int (length (devices d)) then d
      else MarkDirty (set_devices (take (nat i) (devices d) @ drop (nat i + 1) (devices d)) d))"

definition new_object :: "bytes \<Rightarrow> u32 \<Rightarrow> ObjectSpec" where
  "new_object canon i =
     (let spec = ObjectSpec_zero\<lparr>os_Type := canon, os_Instance := i, os_Name := canon @ ascii (''-'' @ itoa (unat i))\<rparr>
      in if isMultiStateType canon then spec\<lparr>os_NumberOfStates := 2, os_PresentValue := VUint32 1\<rparr> else spec)"

text \<open>The flag tells a returned object from \<^verbatim>\<open>nil\<close>.\<close>

definition AddObject :: "int \<Rightarrow> bytes \<Rightarrow> Document \<Rightarrow> (bool \<times> Document) option" where
  "AddObject devIdx objType d =
     (if devIdx < 0 \<or> devIdx \<ge> int (length (devices d)) then Some (False, d)
      else case canonicalObjectType objType of
        None \<Rightarrow> Some (False, d)
      | Some canon \<Rightarrow>
          (let dev = devices d ! nat devIdx in
           map_option (\<lambda>i. (True, MarkDirty (set_devices
             ((devices d)[nat devIdx := dev\<lparr>ds_Objects := ds_Objects dev @ [new_object canon i]\<rparr>]) d)))
             (nextFreeID (objectInstances (ds_Objects dev) canon))))"

definition RemoveObject :: "int \<Rightarrow> int \<Rightarrow> Document \<Rightarrow> Document" where
  "RemoveObject devIdx objIdx d =
     (if devIdx < 0 \<or> devIdx \<ge> int (length (devices d)) then d
      else let dev = devices d ! nat devIdx in
        if objIdx < 0 \<or> objIdx \<ge> int (length (ds_Objects dev)) then d
        else MarkDirty (set_devices ((devices d)[nat devIdx := dev\<lparr>ds_Objects :=
          take (nat objIdx) (ds_Objects dev) @ drop (nat objIdx + 1) (ds_Objects dev)\<rparr>]) d))"

section \<open>A save is all or nothing\<close>

lemma CreateTemp_cases:
  "CreateTemp names fs = Inr (tmp, fs') \<longleftrightarrow> find (\<lambda>n. fs n = None) names = Some tmp \<and> fs' = fs(tmp \<mapsto> \<lparr>f_data = [], f_mode = 384\<rparr>)"
  by (auto simp: CreateTemp_def split: option.splits)

lemma find_temp: "find P names = Some n \<Longrightarrow> n \<in> set names \<and> P n"
  by (auto simp: find_Some_iff)

text \<open>Outside the temporary file, a write changes nothing unless it succeeds, and then the destination only.\<close>

lemma atomicWrite_effect:
  assumes "atomicWrite a path data fs = (r, fs')" "path \<notin> set (an_temps a)"
  shows "p \<notin> set (an_temps a) \<Longrightarrow> p \<noteq> path \<Longrightarrow> fs' p = fs p"
    and "fs p \<noteq> None \<or> an_remove a \<Longrightarrow> p \<noteq> path \<Longrightarrow> fs' p = fs p"
    and "r = Inl e \<Longrightarrow> fs' path = fs path"
    and "r = Inr u \<Longrightarrow> fs' path = Some \<lparr>f_data = data, f_mode = 420\<rparr>"
    and "r = Inr u \<Longrightarrow> p \<noteq> path \<Longrightarrow> fs' p = fs p"
proof -
  consider (none) e where "CreateTemp (an_temps a) fs = Inl e"
    | (temp) tmp where "CreateTemp (an_temps a) fs = Inr (tmp, fs(tmp \<mapsto> \<lparr>f_data = [], f_mode = 384\<rparr>))" "tmp \<in> set (an_temps a)" "fs tmp = None"
    by (cases "CreateTemp (an_temps a) fs") (auto simp: CreateTemp_cases dest!: find_temp)
  then have "(p \<notin> set (an_temps a) \<longrightarrow> p \<noteq> path \<longrightarrow> fs' p = fs p) \<and> (fs p \<noteq> None \<or> an_remove a \<longrightarrow> p \<noteq> path \<longrightarrow> fs' p = fs p)
    \<and> (r = Inl e \<longrightarrow> fs' path = fs path)
    \<and> (r = Inr u \<longrightarrow> fs' path = Some \<lparr>f_data = data, f_mode = 420\<rparr> \<and> (p \<noteq> path \<longrightarrow> fs' p = fs p))"
  proof cases
    case (temp tmp)
    with assms(2) have "tmp \<noteq> path" by auto
    with temp assms show ?thesis
      by (auto simp: atomicWrite_def write_and_rename_def Let_def split: option.splits if_splits)
  qed (use assms in \<open>auto simp: atomicWrite_def\<close>)
  then show "p \<notin> set (an_temps a) \<Longrightarrow> p \<noteq> path \<Longrightarrow> fs' p = fs p" "fs p \<noteq> None \<or> an_remove a \<Longrightarrow> p \<noteq> path \<Longrightarrow> fs' p = fs p"
    "r = Inl e \<Longrightarrow> fs' path = fs path" "r = Inr u \<Longrightarrow> fs' path = Some \<lparr>f_data = data, f_mode = 420\<rparr>"
    "r = Inr u \<Longrightarrow> p \<noteq> path \<Longrightarrow> fs' p = fs p" by blast+
qed

lemma DecodeScenario_valid: "DecodeScenario j y r format = Inr s \<Longrightarrow> scenario_valid s"
proof -
  assume "DecodeScenario j y r format = Inr s"
  then obtain s0 where "(case Scenario_Validate s0 of (Inl e, _) \<Rightarrow> Inl e | (Inr _, s) \<Rightarrow> Inr s) = Inr s"
    by (auto simp: DecodeScenario_def bind_res_eq_Inr)
  then have "Scenario_Validate s0 = (Inr (), s)" by (cases "Scenario_Validate s0") (auto split: sum.splits)
  then show ?thesis by (simp add: Scenario_Validate_iff scenario_valid_writable)
qed

lemma writeTo_cases:
  assumes "writeTo c a path format d fs = (r, d', fs')"
  obtains (refused) e where "r = Inl e" "d' = d" "fs' = fs"
  | (written) data s r0 where "marshalScenario c (dc_scenario d) format = Inr data" "Decode c data format = Inr s"
      "atomicWrite a path data fs = (r0, fs')" "r = r0" "d' = (case r0 of Inl _ \<Rightarrow> d | Inr _ \<Rightarrow> d\<lparr>dc_dirty := False\<rparr>)"
proof (cases "bind_res (Document_Validate c d) (\<lambda>_. bind_res (marshalScenario c (dc_scenario d) format) (\<lambda>data.
    bind_res (wrap_error ''internal error: scenario failed round-trip validation before save: %w'' (Decode c data format)) (\<lambda>_. Inr data)))")
  case (Inl e)
  with assms that(1) show thesis by (auto simp: writeTo_def)
next
  case (Inr data)
  then obtain s where "marshalScenario c (dc_scenario d) format = Inr data" "Decode c data format = Inr s"
    by (auto simp: bind_res_eq_Inr)
  with Inr assms that(2) show thesis by (auto simp: writeTo_def split: prod.splits sum.splits)
qed

text \<open>What a document and the file system look like after a save to \<open>path\<close>.\<close>

definition save_result :: "codecs \<Rightarrow> answers \<Rightarrow> bytes \<Rightarrow> bytes \<Rightarrow> Document \<Rightarrow> files \<Rightarrow> unit result \<times> Document \<times> files \<Rightarrow> bool" where
  "save_result c a path format d fs = (\<lambda>(r, d', fs').
     (\<forall>p. p \<noteq> path \<longrightarrow> fs p \<noteq> None \<or> an_remove a \<longrightarrow> fs' p = fs p)
     \<and> (case r of
          Inl _ \<Rightarrow> d' = d \<and> fs' path = fs path
        | Inr _ \<Rightarrow> d' = d\<lparr>dc_path := path, dc_format := format, dc_dirty := False\<rparr> \<and> (\<forall>p. p \<noteq> path \<longrightarrow> fs' p = fs p)
            \<and> (\<exists>data s. marshalScenario c (dc_scenario d) format = Inr data \<and> fs' path = Some \<lparr>f_data = data, f_mode = 420\<rparr>
                 \<and> Decode c data format = Inr s \<and> scenario_valid s)))"

lemma writeTo_result:
  assumes "writeTo c a path format d fs = (r, d', fs')" "path \<notin> set (an_temps a)"
  shows "save_result c a path format d fs (r, case r of Inl _ \<Rightarrow> d' | Inr _ \<Rightarrow> d'\<lparr>dc_path := path, dc_format := format\<rparr>, fs')"
  using assms(1)
proof (cases rule: writeTo_cases)
  case (written data s r0)
  note eff = atomicWrite_effect [OF written(3) assms(2)]
  show ?thesis
  proof (cases r0)
    case (Inl e)
    with eff(2,3) written show ?thesis by (simp add: save_result_def)
  next
    case (Inr u)
    with eff(2,4,5) written DecodeScenario_valid [OF written(2)] show ?thesis by (simp add: save_result_def)
  qed
qed (simp add: save_result_def)

lemma save_result_load:
  assumes "save_result c a path (formatForPath path) d fs (Inr u, d', fs')"
  shows "\<exists>d''. Load c True path fs' = Inr d'' \<and> dc_path d'' = path \<and> \<not> dc_dirty d'' \<and> scenario_valid (dc_scenario d'')"
  using assms by (auto simp: save_result_def Load_def ReadFile_def)

text \<open>The formats \<^verbatim>\<open>DecodeScenario\<close> knows.\<close>

definition known_format :: "bytes \<Rightarrow> bool" where
  "known_format format \<longleftrightarrow> ToLower format \<in> set (map ascii [''json'', ''yaml'', ''yml'', []])"

lemma Decode_unknown: "\<not> known_format format \<Longrightarrow> Decode c data format = Inl (Err ''unsupported scenario format %q'')"
  by (simp add: DecodeScenario_def known_format_def ascii_def)

text \<open>
  C27: Saving a document is all or nothing.  Whatever fails (a scenario that does not validate, the codec, or any call to
  the operating system), an error leaves the document as it was, with its unsaved changes, and leaves every file that existed,
  the destination included, with the same contents; at most a temporary file is left over, and only if its removal fails.
  On success the destination holds the encoded scenario, no other file changed, the document is clean and remembers the
  path, and loading that path gives a scenario the simulator accepts.
\<close>

theorem save_all_or_nothing:
  assumes "path \<notin> set (an_temps a)"
  shows "save_result c a path (formatForPath path) d fs (SaveAs c a path d fs)
    \<and> (\<forall>d' fs'. SaveAs c a path d fs = (Inr (), d', fs') \<longrightarrow>
         (\<exists>d''. Load c True path fs' = Inr d'' \<and> dc_path d'' = path \<and> \<not> dc_dirty d'' \<and> scenario_valid (dc_scenario d'')))
    \<and> (dc_path d = path \<longrightarrow> save_result c a path (dc_format d) d fs (Save c a d fs))"
proof -
  obtain r d' fs' where w: "writeTo c a path (formatForPath path) d fs = (r, d', fs')" by (metis surj_pair)
  note as = writeTo_result [OF w assms]
  have sa: "SaveAs c a path d fs = (r, case r of Inl _ \<Rightarrow> d' | Inr _ \<Rightarrow> d'\<lparr>dc_path := path, dc_format := formatForPath path\<rparr>, fs')"
    using w by (auto simp: SaveAs_def split: sum.splits)
  have "save_result c a path (dc_format d) d fs (Save c a d fs)" if "dc_path d = path"
  proof (cases "path = []")
    case False
    obtain r d' fs' where w: "writeTo c a path (dc_format d) d fs = (r, d', fs')" by (metis surj_pair)
    from writeTo_result [OF w assms] w False that show ?thesis
      by (auto simp: Save_def save_result_def elim!: writeTo_cases split: sum.splits)
  qed (use that in \<open>simp add: Save_def save_result_def\<close>)
  with as sa save_result_load show ?thesis by (metis sum.case(2))
qed

definition demo_codecs :: codecs where
  "demo_codecs = \<lparr>json_MarshalIndent = (\<lambda>_. Inl (Err ''json'')), yaml_Marshal = (\<lambda>s. if s = dc_scenario New then Inr [118, 49] else Inl (Err ''yaml'')),
     json_Decode = (\<lambda>_. Inl (Err ''json'')), yaml_UnmarshalStrict = (\<lambda>b. if b = [118, 49] then Inr (dc_scenario New) else Inl (Err ''yaml''))\<rparr>"

definition demo_answers :: answers where
  "demo_answers = \<lparr>an_temps = [[116]], an_write = None, an_close = True, an_chmod = True, an_rename = True, an_remove = True\<rparr>"

lemma New_valid: "scenario_valid (applyScenarioDefaults (dc_scenario New))"
proof -
  have "TrimSpace (ascii ''device-1'') \<noteq> []" "ascii ''single-device'' \<noteq> ascii ''multi-ip''" "ascii ''single-device'' \<noteq> []" by code_simp+
  then show ?thesis
    by (simp add: scenario_valid_def network_shape_def devices_shape_def device_shape_def objects_valid_def applyScenarioDefaults_def
        default_device_def New_def DeviceSpec_zero_def ScenarioVersion_def MaxObjectInstance_def)
qed

lemma demo_format: "formatForPath (ascii ''a.yaml'') = ascii ''yaml''" "ToLower (ascii ''yaml'') = ascii ''yaml''" "ascii ''yaml'' \<noteq> ascii ''json''"
  by code_simp+

lemma demo_decoded: "Decode demo_codecs [118, 49] (ascii ''yaml'') = Inr (writable_scenario (applyScenarioDefaults (dc_scenario New)))"
  using iffD2 [OF Scenario_Validate_iff, OF conjI [OF New_valid refl]]
  by (simp add: DecodeScenario_def demo_format demo_codecs_def)

theorem save_all_or_nothing_witness:
  "\<exists>d fs d''. SaveAs demo_codecs demo_answers (ascii ''a.yaml'') New Map.empty = (Inr (), d, fs)
     \<and> fs (ascii ''a.yaml'') = Some \<lparr>f_data = [118, 49], f_mode = 420\<rparr> \<and> \<not> dc_dirty d
     \<and> Load demo_codecs True (ascii ''a.yaml'') fs = Inr d'' \<and> scenario_valid (dc_scenario d'')"
proof -
  have t: "ascii ''a.yaml'' \<notin> set (an_temps demo_answers)" by (simp add: demo_answers_def ascii_def)
  have v: "Document_Validate demo_codecs New = Inr ()" "marshalScenario demo_codecs (dc_scenario New) (ascii ''yaml'') = Inr [118, 49]"
    using demo_decoded by (simp_all add: Document_Validate_def demo_codecs_def marshalScenario_def demo_format)
  have "\<exists>d fs. SaveAs demo_codecs demo_answers (ascii ''a.yaml'') New Map.empty = (Inr (), d, fs)"
    by (simp add: SaveAs_def writeTo_def v demo_format demo_decoded wrap_error_def atomicWrite_def CreateTemp_def demo_answers_def
        write_and_rename_def Let_def)
  then obtain d fs where s: "SaveAs demo_codecs demo_answers (ascii ''a.yaml'') New Map.empty = (Inr (), d, fs)" by blast
  from save_all_or_nothing [OF t, of demo_codecs New Map.empty] show ?thesis
    unfolding s by (auto simp: save_result_def demo_format v)
qed

text \<open>
  A path whose extension is none of json, yaml and yml (and not empty) can be neither loaded nor saved to: both
  calls return an error, the document and the files are unchanged.
\<close>

theorem unknown_extension_refused:
  assumes "\<not> known_format (formatForPath path)"
  shows "(\<exists>e. Load c readable path fs = Inl e) \<and> (\<exists>e. SaveAs c a path d fs = (Inl e, d, fs))"
proof -
  have "writeTo c a path (formatForPath path) d fs = (r, d', fs') \<Longrightarrow> (\<exists>e. r = Inl e) \<and> d' = d \<and> fs' = fs" for r d' fs'
    by (erule writeTo_cases) (simp_all add: Decode_unknown [OF assms])
  then have "\<exists>e. SaveAs c a path d fs = (Inl e, d, fs)"
    by (cases "writeTo c a path (formatForPath path) d fs") (auto simp: SaveAs_def)
  moreover have "\<exists>e. Load c readable path fs = Inl e"
    by (cases "ReadFile readable path fs") (simp_all add: Load_def Decode_unknown [OF assms])
  ultimately show ?thesis by blast
qed

theorem unknown_extension_refused_witness:
  "\<exists>e. Load demo_codecs True (ascii ''a.txt'') [ascii ''a.txt'' \<mapsto> \<lparr>f_data = [118, 49], f_mode = 420\<rparr>] = Inl e"
proof -
  have "\<not> known_format (formatForPath (ascii ''a.txt''))" by code_simp
  from unknown_extension_refused [OF this] show ?thesis by blast
qed

end
