(* ===== verification/Gui_Fields.thy ===== *)
theory Gui_Fields
  imports Gui_Document
begin

text \<open>
  The field errors the scenario editor shows, \<^verbatim>\<open>gui/internal/scenariodoc/check.go\<close>: a second implementation of the
  rules of \<^verbatim>\<open>Scenario.Validate\<close> that collects one message per field.
\<close>

section \<open>Field errors\<close>

definition toUint32 :: "go_value \<Rightarrow> u32 option" where
  "toUint32 v = (case v of
       VUint32 n \<Rightarrow> Some n
     | VUint64 n \<Rightarrow> if n > 0xffffffff then None else Some (ucast n)
     | VInt n \<Rightarrow> if sint n < 0 \<or> n > 0xffffffff then None else Some (ucast n)
     | VFloat64 f \<Rightarrow> if f64_less f 0 \<or> f64_less (int_to_f64 4294967295) f \<or> \<not> f64_integral f then None else Some (f64_to_uint32 f)
     | _ \<Rightarrow> None)"

type_synonym field_errors = "(string \<times> string) list"

definition put :: "bool \<Rightarrow> string \<Rightarrow> string \<Rightarrow> field_errors \<Rightarrow> field_errors" where
  "put c key message errs = (if c then AList.update key message errs else errs)"

definition multistate_errors :: "string \<Rightarrow> ObjectSpec \<Rightarrow> field_errors \<Rightarrow> field_errors" where
  "multistate_errors p obj errs =
     (if os_NumberOfStates obj = 0
      then put True (p @ ''.number_of_states'') ''device %d object %s number_of_states must be greater than zero'' errs
      else let errs = put (case toUint32 (os_PresentValue obj) of Some n \<Rightarrow> n > os_NumberOfStates obj | None \<Rightarrow> False)
                 (p @ ''.present_value'') ''device %d object %s present_value exceeds number_of_states'' errs
           in put (os_Commandable obj \<and> os_RelinquishDefault obj \<noteq> VNil
                  \<and> (case toUint32 (os_RelinquishDefault obj) of Some n \<Rightarrow> n > os_NumberOfStates obj | None \<Rightarrow> False))
                (p @ ''.relinquish_default'') ''device %d object %s relinquish_default exceeds number_of_states'' errs)"

definition object_errors :: "string \<Rightarrow> ObjectSpec \<Rightarrow> bytes list \<Rightarrow> field_errors \<Rightarrow> field_errors \<times> bytes list" where
  "object_errors p obj keys errs =
     (case canonicalObjectType (os_Type obj) of
        None \<Rightarrow> (put True (p @ ''.type'') ''object type %q is not supported'' errs, keys)
      | Some canon \<Rightarrow>
          (let errs = put (os_Instance obj > MaxObjectInstance) (p @ ''.instance'') ''device %d object %s instance is out of range'' errs;
               key = canon @ ascii '':'' @ ascii (itoa (unat (os_Instance obj)));
               errs = put (key \<in> set keys) (p @ ''.instance'') ''device %d has duplicate object %s %d'' errs;
               keys = (if key \<in> set keys then keys else key # keys);
               errs = put (TrimSpace (os_Name obj) = []) (p @ ''.name'') ''device %d object %d name is required'' errs;
               errs = put (f64_less (os_COVIncrement obj) 0 \<or> \<not> f64_finite (os_COVIncrement obj))
                 (p @ ''.cov_increment'') ''device %d object %s has an invalid cov_increment'' errs;
               errs = (if os_InitialPriority obj = 0 then errs
                 else if \<not> os_Commandable obj \<or> os_PresentValue obj = VNil
                 then put True (p @ ''.initial_priority'') ''device %d object %s initial_priority requires commandable and present_value'' errs
                 else put (os_InitialPriority obj > PrioritySlots \<or> os_InitialPriority obj = 6)
                   (p @ ''.initial_priority'') ''device %d object %s has an invalid initial_priority (%d)'' errs)
           in (if isMultiStateType canon then multistate_errors p obj errs else errs, keys)))"

fun objects_errors :: "string \<Rightarrow> nat \<Rightarrow> ObjectSpec list \<Rightarrow> bytes list \<Rightarrow> field_errors \<Rightarrow> field_errors" where
  "objects_errors devPrefix j [] keys errs = errs"
| "objects_errors devPrefix j (obj # objs) keys errs =
     (let (errs, keys) = object_errors (devPrefix @ ''.objects['' @ itoa j @ '']'') obj keys errs
      in objects_errors devPrefix (j + 1) objs keys errs)"

definition device_errors :: "bytes \<Rightarrow> string \<Rightarrow> DeviceSpec \<Rightarrow> u32 list \<Rightarrow> bytes list \<Rightarrow> field_errors \<Rightarrow> field_errors \<times> u32 list \<times> bytes list" where
  "device_errors mode p dev ids endpoints errs =
     (let errs = put (ds_ID dev > MaxObjectInstance) (p @ ''.id'') ''device %d exceeds BACnet object-instance range'' errs;
          errs = put (ds_ID dev \<in> set ids) (p @ ''.id'') ''duplicate device id %d'' errs;
          ids = (if ds_ID dev \<in> set ids then ids else ds_ID dev # ids);
          errs = put (TrimSpace (ds_Name dev) = []) (p @ ''.name'') ''device %d name is required'' errs;
          errs = put (mode = ascii ''multi-ip'' \<and> TrimSpace (ds_Address dev) = []) (p @ ''.address'')
            ''device %d address is required in multi-ip mode'' errs
      in if mode = ascii ''single-device'' then (errs, ids, endpoints)
         else let endpoint = ds_Address dev @ ascii '':'' @ ascii (itoa (unat (ds_Port dev)))
           in (put (endpoint \<in> set endpoints) (p @ ''.port'') ''duplicate device endpoint %s'' errs, ids,
               if endpoint \<in> set endpoints then endpoints else endpoint # endpoints))"

fun devices_errors :: "bytes \<Rightarrow> nat \<Rightarrow> DeviceSpec list \<Rightarrow> u32 list \<Rightarrow> bytes list \<Rightarrow> field_errors \<Rightarrow> field_errors" where
  "devices_errors mode i [] ids endpoints errs = errs"
| "devices_errors mode i (dev # devs) ids endpoints errs =
     (let devPrefix = ''devices['' @ itoa i @ '']'';
          (errs, ids, endpoints) = device_errors mode devPrefix dev ids endpoints errs;
          errs = objects_errors devPrefix 0 (ds_Objects dev) [] errs
      in devices_errors mode (i + 1) devs ids endpoints errs)"

definition FieldErrors :: "Scenario \<Rightarrow> field_errors" where
  "FieldErrors s =
     (let mode = nc_Mode (sc_Network s);
          errs = put (sc_Version s \<noteq> ScenarioVersion) ''version'' ''scenario version %d is not supported'' [];
          errs = put (mode \<notin> set (map ascii [''single-device'', ''multi-ip'', ''multi-port''])) ''network.mode'' ''network mode %q is not supported'' errs;
          errs = (if length (sc_Devices s) = 0 then put True ''devices'' ''at least one device is required'' errs
            else put (mode = ascii ''single-device'' \<and> length (sc_Devices s) \<noteq> 1) ''devices'' ''single-device mode requires exactly one device'' errs)
      in devices_errors mode 0 (sc_Devices s) [] [] errs)"

section \<open>Field errors mirror validation\<close>

lemma put_empty [simp]: "put c key message errs = [] \<longleftrightarrow> \<not> c \<and> errs = []"
  by (cases errs) (auto simp: put_def)

text \<open>Both tables of type names recognise the same names and tell the same types apart.\<close>

lemma canonical_number:
  "(canonicalObjectType name = None \<and> (\<exists>e. objectTypeNumber name = Inl e)) \<or>
   (\<exists>canon t. canonicalObjectType name = Some canon \<and> objectTypeNumber name = Inr t
     \<and> (canon, t) \<in> set (map2 (\<lambda>(n, c) (n', t). (ascii c, t)) objectTypeAliases object_type_names))"
proof -
  define n where "n = ToLower (map (\<lambda>c. if c = 95 then 45 else c) (TrimSpace name))"
  have "canonicalObjectType name = map_of (map (\<lambda>(n, c). (ascii n, ascii c)) objectTypeAliases) n"
    "objectTypeNumber name = (case map_of (map (\<lambda>(n, t). (ascii n, t)) object_type_names) n of
        None \<Rightarrow> Inl (Err ''object type %q is not supported'') | Some t \<Rightarrow> Inr t)"
    by (simp_all add: canonicalObjectType_def objectTypeNumber_def n_def Let_def)
  then show ?thesis by (simp add: objectTypeAliases_def object_type_names_def)
qed

definition type_pairs :: "(bytes \<times> u16) list" where
  "type_pairs = map2 (\<lambda>(n, c) (n', t). (ascii c, t)) objectTypeAliases object_type_names"

lemma type_pairs_bij: "\<forall>(c, t) \<in> set type_pairs. \<forall>(c', t') \<in> set type_pairs. (c = c') = (t = t')"
  by code_simp

lemma type_pairs_multistate: "\<forall>(c, t) \<in> set type_pairs. isMultiStateType c = isMultiStateObjectType t"
  by code_simp

lemma type_pairs_colon: "\<forall>(c, t) \<in> set type_pairs. 58 \<notin> set c"
  by code_simp

lemma canonical_pair:
  "(canonicalObjectType name = None \<and> (\<exists>e. objectTypeNumber name = Inl e)) \<or>
   (\<exists>canon t. canonicalObjectType name = Some canon \<and> objectTypeNumber name = Inr t \<and> (canon, t) \<in> set type_pairs)"
  using canonical_number [of name] unfolding type_pairs_def .

lemma ascii_inj [simp]: "ascii s = ascii t \<longleftrightarrow> s = t"
proof -
  have "unat (of_char c :: 8 word) = of_char c" for c
  proof -
    have "(of_char c :: 8 word) = word_of_nat (of_char c)" by (simp only: of_nat_of_char)
    moreover have "of_char c < (256 :: nat)" by simp
    ultimately show ?thesis by (simp add: unsigned_of_nat take_bit_nat_eq_self)
  qed
  then have "inj (of_char :: char \<Rightarrow> 8 word)" by (metis char_of_char injI)
  then show ?thesis by (simp add: ascii_def inj_map_eq_map)
qed

text \<open>The key under which the form remembers an object identifies it.\<close>

definition object_key :: "bytes \<Rightarrow> ObjectSpec \<Rightarrow> bytes" where
  "object_key canon obj = canon @ ascii '':'' @ ascii (itoa (unat (os_Instance obj)))"

lemma split_colon: "58 \<notin> set a \<Longrightarrow> 58 \<notin> set b \<Longrightarrow> a @ 58 # x = b @ 58 # y \<longleftrightarrow> a = b \<and> (x :: bytes) = y"
proof (induction a arbitrary: b)
  case Nil
  then show ?case by (cases b) auto
next
  case (Cons c a)
  then show ?case by (cases b) auto
qed

lemma object_key_eq:
  assumes "canonicalObjectType (os_Type obj) = Some canon" "canonicalObjectType (os_Type obj') = Some canon'"
  shows "object_key canon obj = object_key canon' obj' \<longleftrightarrow> spec_id obj = spec_id obj'"
proof -
  obtain t t' where t: "objectTypeNumber (os_Type obj) = Inr t" "(canon, t) \<in> set type_pairs"
    "objectTypeNumber (os_Type obj') = Inr t'" "(canon', t') \<in> set type_pairs"
    using canonical_pair [of "os_Type obj"] canonical_pair [of "os_Type obj'"] assms by auto
  have c: "58 \<notin> set canon" "58 \<notin> set canon'" using type_pairs_colon t by auto
  have "(canon = canon') = (t = t')" using type_pairs_bij t by fastforce
  then show ?thesis using split_colon [OF c] t
    by (auto simp: object_key_def spec_id_def spec_type_def itoa_inj word_unat_eq_iff ascii_def [of "'':''"])
qed

lemma toUint32_numeric: "toUint32 v = (case numericUint32 v of Inl _ \<Rightarrow> None | Inr n \<Rightarrow> Some n)"
  by (simp add: toUint32_def numericUint32_def split: go_value.splits)

definition field_values_ok :: "ObjectSpec \<Rightarrow> bool" where
  "field_values_ok obj \<longleftrightarrow> os_NumberOfStates obj \<noteq> 0
     \<and> (\<forall>n. toUint32 (os_PresentValue obj) = Some n \<longrightarrow> n \<le> os_NumberOfStates obj)
     \<and> (os_Commandable obj \<and> os_RelinquishDefault obj \<noteq> VNil \<longrightarrow>
          (\<forall>n. toUint32 (os_RelinquishDefault obj) = Some n \<longrightarrow> n \<le> os_NumberOfStates obj))"

lemma multistate_errors_empty: "multistate_errors p obj errs = [] \<longleftrightarrow> errs = [] \<and> field_values_ok obj"
  by (auto simp: multistate_errors_def field_values_ok_def Let_def not_less split: option.splits)

lemma object_errors_empty:
  "fst (object_errors p obj keys errs) = [] \<longleftrightarrow> errs = [] \<and> object_shape obj
     \<and> (\<exists>canon. canonicalObjectType (os_Type obj) = Some canon \<and> object_key canon obj \<notin> set keys
          \<and> (isMultiStateObjectType (spec_type obj) \<longrightarrow> field_values_ok obj))"
  using canonical_pair [of "os_Type obj"]
proof (elim disjE exE conjE)
  fix canon t
  assume c: "canonicalObjectType (os_Type obj) = Some canon" "objectTypeNumber (os_Type obj) = Inr t" "(canon, t) \<in> set type_pairs"
  then have "isMultiStateType canon = isMultiStateObjectType (spec_type obj)"
    using type_pairs_multistate by (auto simp: spec_type_def)
  with c show ?thesis
    by (auto simp: object_errors_def object_shape_def spec_type_def object_key_def cov_ok_def initial_priority_ok_def
        multistate_errors_empty Let_def not_less)
qed (simp add: object_errors_def object_shape_def)

lemma object_errors_keys:
  "canonicalObjectType (os_Type obj) = Some canon \<Longrightarrow> object_key canon obj \<notin> set keys \<Longrightarrow>
     snd (object_errors p obj keys errs) = object_key canon obj # keys"
  by (simp add: object_errors_def object_key_def Let_def)

definition key_of :: "ObjectSpec \<Rightarrow> bytes" where
  "key_of obj = object_key (the (canonicalObjectType (os_Type obj))) obj"

definition fields_ok :: "ObjectSpec \<Rightarrow> bool" where
  "fields_ok obj \<longleftrightarrow> object_shape obj \<and> (isMultiStateObjectType (spec_type obj) \<longrightarrow> field_values_ok obj)"

lemma shape_canonical: "object_shape obj \<Longrightarrow> \<exists>canon. canonicalObjectType (os_Type obj) = Some canon"
  using canonical_pair [of "os_Type obj"] by (auto simp: object_shape_def)

lemma key_of_eq: "fields_ok obj \<Longrightarrow> fields_ok obj' \<Longrightarrow> key_of obj = key_of obj' \<longleftrightarrow> spec_id obj = spec_id obj'"
  using object_key_eq by (auto simp: key_of_def fields_ok_def dest!: shape_canonical)

lemma object_errors_step:
  "fst (object_errors p obj keys errs) = [] \<longleftrightarrow> errs = [] \<and> fields_ok obj \<and> key_of obj \<notin> set keys"
  "fst (object_errors p obj keys errs) = [] \<Longrightarrow> snd (object_errors p obj keys errs) = key_of obj # keys"
  using object_errors_empty [of p obj keys errs] object_errors_keys [of obj _ keys p errs]
  by (cases "canonicalObjectType (os_Type obj)"; auto simp: fields_ok_def key_of_def dest: shape_canonical)+

lemma errors_kept: "errs \<noteq> [] \<Longrightarrow> objects_errors p j objs keys errs \<noteq> []"
proof (induction objs arbitrary: j keys errs)
  case (Cons obj objs)
  have "fst (object_errors (p @ ''.objects['' @ itoa j @ '']'') obj keys errs) \<noteq> []" using Cons.prems object_errors_step(1) by blast
  with Cons.IH show ?case by (auto split: prod.splits)
qed simp

lemma objects_errors_keys:
  "objects_errors p j objs keys errs = [] \<longleftrightarrow> errs = [] \<and> (\<forall>obj \<in> set objs. fields_ok obj) \<and> distinct (map key_of objs)
     \<and> key_of ` set objs \<inter> set keys = {}"
proof (induction objs arbitrary: j keys errs)
  case (Cons obj objs)
  obtain errs' keys' where o: "object_errors (p @ ''.objects['' @ itoa j @ '']'') obj keys errs = (errs', keys')" by force
  show ?case
  proof (cases "errs' = []")
    case True
    with o object_errors_step [of "p @ ''.objects['' @ itoa j @ '']''" obj keys errs]
    have "errs = []" "fields_ok obj" "key_of obj \<notin> set keys" "keys' = key_of obj # keys" by auto
    with o True Cons.IH [of "j + 1" keys' "[]"] show ?thesis by auto
  next
    case False
    with o object_errors_step(1) [of "p @ ''.objects['' @ itoa j @ '']''" obj keys errs] errors_kept [OF False, of p "j + 1" objs keys']
    show ?thesis by auto
  qed
qed simp

lemma objects_errors_empty:
  "objects_errors p j objs [] errs = [] \<longleftrightarrow> errs = [] \<and> (\<forall>obj \<in> set objs. fields_ok obj) \<and> distinct (map spec_id objs)"
proof -
  have "distinct (map key_of objs) \<longleftrightarrow> distinct (map spec_id objs)" if "\<forall>obj \<in> set objs. fields_ok obj"
    using key_of_eq that by (induction objs) (auto simp: image_iff)
  then show ?thesis by (auto simp: objects_errors_keys)
qed

lemma device_errors_step:
  "fst (device_errors mode p dev ids es errs) = [] \<longleftrightarrow> errs = [] \<and> device_shape mode dev \<and> ds_ID dev \<notin> set ids
     \<and> (mode \<noteq> ascii ''single-device'' \<longrightarrow> endpoint dev \<notin> set es)"
  "fst (device_errors mode p dev ids es errs) = [] \<Longrightarrow> snd (device_errors mode p dev ids es errs) =
     (ds_ID dev # ids, if mode = ascii ''single-device'' then es else endpoint dev # es)"
  by (auto simp: device_errors_def device_shape_def endpoint_def Let_def not_less split: if_splits)

lemma device_errors_kept: "errs \<noteq> [] \<Longrightarrow> devices_errors mode i devs ids es errs \<noteq> []"
proof (induction devs arbitrary: i ids es errs)
  case (Cons dev devs)
  have "fst (device_errors mode (''devices['' @ itoa i @ '']'') dev ids es errs) \<noteq> []" using Cons.prems device_errors_step(1) by blast
  with Cons.IH errors_kept show ?case by (auto simp: Let_def split: prod.splits)
qed simp

definition objects_fields :: "DeviceSpec \<Rightarrow> bool" where
  "objects_fields dev \<longleftrightarrow> (\<forall>obj \<in> set (ds_Objects dev). fields_ok obj) \<and> distinct (map spec_id (ds_Objects dev))"

lemma devices_errors_empty:
  "devices_errors mode i devs ids es errs = [] \<longleftrightarrow> errs = [] \<and> devices_shape mode devs \<and> (\<forall>dev \<in> set devs. objects_fields dev)
     \<and> ds_ID ` set devs \<inter> set ids = {} \<and> (mode \<noteq> ascii ''single-device'' \<longrightarrow> endpoint ` set devs \<inter> set es = {})"
proof (induction devs arbitrary: i ids es errs)
  case (Cons dev devs)
  let ?p = "''devices['' @ itoa i @ '']''"
  obtain e1 ids' es' where d: "device_errors mode ?p dev ids es errs = (e1, ids', es')" by (metis surj_pair)
  define e2 where "e2 = objects_errors ?p 0 (ds_Objects dev) [] e1"
  have r: "devices_errors mode i (dev # devs) ids es errs = devices_errors mode (i + 1) devs ids' es' e2"
    using d by (simp add: Let_def e2_def)
  have e2: "e2 = [] \<longleftrightarrow> e1 = [] \<and> objects_fields dev" by (simp add: e2_def objects_errors_empty objects_fields_def)
  show ?case
  proof (cases "e1 = []")
    case True
    with d device_errors_step [of mode ?p dev ids es errs] have
      "errs = []" "device_shape mode dev" "ds_ID dev \<notin> set ids" "mode \<noteq> ascii ''single-device'' \<longrightarrow> endpoint dev \<notin> set es"
      "ids' = ds_ID dev # ids" "es' = (if mode = ascii ''single-device'' then es else endpoint dev # es)" by auto
    with True e2 show ?thesis unfolding r Cons.IH by (auto simp: devices_shape_def)
  next
    case False
    with e2 have "devices_errors mode (i + 1) devs ids' es' e2 \<noteq> []" by (intro device_errors_kept) simp
    moreover have "\<not> (errs = [] \<and> device_shape mode dev \<and> ds_ID dev \<notin> set ids \<and> (mode \<noteq> ascii ''single-device'' \<longrightarrow> endpoint dev \<notin> set es))"
      using False d device_errors_step(1) [of mode ?p dev ids es errs] by simp
    ultimately show ?thesis unfolding r by (auto simp: devices_shape_def)
  qed
qed (simp add: devices_shape_def)

lemma FieldErrors_empty:
  "FieldErrors s = [] \<longleftrightarrow> network_shape s \<and> devices_shape (nc_Mode (sc_Network s)) (sc_Devices s) \<and> (\<forall>dev \<in> set (sc_Devices s). objects_fields dev)"
  by (auto simp: FieldErrors_def devices_errors_empty network_shape_def Let_def)

text \<open>The values of an object have the type of the object; this is the only rule the form does not check.\<close>

definition values_typed :: "ObjectSpec \<Rightarrow> bool" where
  "values_typed spec \<longleftrightarrow> (\<exists>x. normalizePresentValue (spec_type spec) (os_PresentValue spec) = Inr x)
     \<and> (isMultiStateObjectType (spec_type spec) \<and> os_Commandable spec \<and> os_RelinquishDefault spec \<noteq> VNil \<longrightarrow>
          (\<exists>x. normalizePresentValue (spec_type spec) (os_RelinquishDefault spec) = Inr x))"

lemma state_ok_typed:
  assumes t: "isMultiStateObjectType t" and n: "states \<noteq> 0"
  shows "state_ok t states v \<longleftrightarrow> (\<exists>x. normalizePresentValue t v = Inr x) \<and> (\<forall>n. toUint32 v = Some n \<longrightarrow> n \<le> states)"
proof -
  have m: "normalizePresentValue t v = normalize_multistate v"
    using t by (auto simp: normalizePresentValue_def isMultiStateObjectType_def)
  have "1 \<le> states" using n by (simp add: word_le_nat_alt Suc_le_eq unat_gt_0)
  then show ?thesis using m
    by (cases "v = VNil") (auto simp: state_ok_def normalize_multistate_def toUint32_numeric numericUint32_def [of VNil]
        numericUint32_def [of "VUint32 1"] bind_res_eq_Inr split: sum.splits)
qed

lemma spec_values_ok_fields:
  "object_shape spec \<Longrightarrow> spec_values_ok (spec_type spec) spec \<longleftrightarrow>
     values_typed spec \<and> (isMultiStateObjectType (spec_type spec) \<longrightarrow> field_values_ok spec)"
  by (cases "os_NumberOfStates spec = 0") (auto simp: spec_values_ok_def values_typed_def field_values_ok_def state_ok_typed)

lemma object_valid_fields: "object_valid spec \<longleftrightarrow> fields_ok spec \<and> values_typed spec"
  using spec_values_ok_fields [of spec] by (auto simp: object_valid_def fields_ok_def)

text \<open>
  C31: The form and the simulator agree: \<^verbatim>\<open>FieldErrors\<close> is empty and every value of every object has the type of its object
  exactly when \<^verbatim>\<open>Scenario.Validate\<close> accepts the scenario.
\<close>

theorem FieldErrors_mirror:
  "fst (Scenario_Validate s) = Inr () \<longleftrightarrow>
     FieldErrors s = [] \<and> list_all (\<lambda>dev. list_all values_typed (ds_Objects dev)) (sc_Devices s)"
  unfolding Scenario_Validate_fst FieldErrors_empty scenario_valid_def objects_valid_def objects_fields_def object_valid_fields list_all_iff
  by blast

end
