(* ===== verification/Gui_Edits.thy ===== *)
theory Gui_Edits
  imports Gui_Fields
begin

text \<open>
  What the edits of the scenario editor keep, \<^verbatim>\<open>gui/internal/scenariodoc/mutate.go\<close>: the search for a free identifier
  ends with the least one, which edits leave a scenario that validates, and which do not.
\<close>

section \<open>The search for a free identifier\<close>

lemma free_from_steps: "\<forall>m < k. i + word_of_nat m \<in> set used \<Longrightarrow> i + word_of_nat k \<notin> set used \<Longrightarrow> free_from used i = Some (i + word_of_nat k)"
proof (induction k arbitrary: i)
  case 0
  then show ?case by (subst free_from.simps) simp
next
  case (Suc k)
  have "i \<in> set used" using Suc.prems(1) [rule_format, of 0] by simp
  moreover have "free_from used (i + 1) = Some (i + 1 + word_of_nat k)"
  proof (rule Suc.IH)
    show "\<forall>m < k. i + 1 + word_of_nat m \<in> set used"
    proof (intro allI impI)
      fix m assume "m < k"
      with Suc.prems(1) have "i + word_of_nat (Suc m) \<in> set used" by blast
      then show "i + 1 + word_of_nat m \<in> set used" by (simp add: add.assoc)
    qed
    show "i + 1 + word_of_nat k \<notin> set used" using Suc.prems(2) by (simp add: add.assoc)
  qed
  ultimately show ?case by (subst free_from.simps) (simp add: add.assoc)
qed

lemma free_exists:
  assumes "length used < 2 ^ 32 - 1"
  shows "\<exists>k \<le> length used. (1 + word_of_nat k :: u32) \<notin> set used"
proof (rule ccontr)
  assume "\<not> ?thesis"
  then have "(\<lambda>k. 1 + word_of_nat k) ` {..length used} \<subseteq> set used" by auto
  moreover have "inj_on (\<lambda>k. 1 + word_of_nat k :: u32) {..length used}"
  proof (rule inj_onI)
    fix x y assume xy: "x \<in> {..length used}" "y \<in> {..length used}" "(1 + word_of_nat x :: u32) = 1 + word_of_nat y"
    then have "unat (word_of_nat x :: u32) = unat (word_of_nat y :: u32)" by simp
    moreover have "x < 2 ^ 32" "y < 2 ^ 32" using xy assms by auto
    ultimately show "x = y" by (simp only: unsigned_of_nat) (simp add: take_bit_nat_eq_self)
  qed
  ultimately have "Suc (length used) \<le> card (set used)"
    by (metis card_atMost card_image card_mono List.finite_set)
  with card_length [of used] show False by simp
qed

lemma nextFreeID_total:
  assumes "length used < 2 ^ 32 - 1"
  shows "\<exists>k. k \<le> length used \<and> nextFreeID used = Some (1 + word_of_nat k) \<and> 1 + word_of_nat k \<notin> set used
    \<and> (\<forall>m < k. 1 + word_of_nat m \<in> set used)"
proof -
  define k where "k = (LEAST k. (1 + word_of_nat k :: u32) \<notin> set used)"
  obtain k0 where k0: "k0 \<le> length used" "(1 + word_of_nat k0 :: u32) \<notin> set used" using free_exists [OF assms] by blast
  have "1 + word_of_nat k \<notin> set used" unfolding k_def by (rule LeastI [of _ k0]) (rule k0(2))
  moreover have "k \<le> k0" unfolding k_def by (rule Least_le) (rule k0(2))
  moreover have "\<forall>m < k. 1 + word_of_nat m \<in> set used" using not_less_Least unfolding k_def by blast
  ultimately show ?thesis using k0 free_from_steps [of k 1 used] unfolding nextFreeID_def by (meson le_trans)
qed

lemma unat_id: "k < 2 ^ 32 - 1 \<Longrightarrow> unat (1 + word_of_nat k :: u32) = k + 1"
  by (simp add: unat_word_ariths unsigned_of_nat take_bit_nat_eq_self)

definition least_unused :: "u32 \<Rightarrow> u32 list \<Rightarrow> bool" where
  "least_unused j used \<longleftrightarrow> 1 \<le> j \<and> j \<notin> set used \<and> (\<forall>m. 1 \<le> m \<and> m < j \<longrightarrow> m \<in> set used)"

text \<open>
  \<^verbatim>\<open>nextFreeID\<close> returns, and returns the least identifier from 1 on that is not in use, as long as fewer than
  2^32 - 1 are in use; so it is at most one more than their number.
\<close>

lemma nextFreeID_least:
  assumes "length used < 2 ^ 32 - 1"
  shows "\<exists>j. nextFreeID used = Some j \<and> least_unused j used \<and> unat j \<le> length used + 1"
proof -
  obtain k where k: "k \<le> length used" "nextFreeID used = Some (1 + word_of_nat k)" "1 + word_of_nat k \<notin> set used"
    "\<forall>m < k. 1 + word_of_nat m \<in> set used" using nextFreeID_total [OF assms] by blast
  have u: "unat (1 + word_of_nat k :: u32) = k + 1" using k(1) assms by (intro unat_id) simp
  have "m \<in> set used" if "1 \<le> m" "m < 1 + word_of_nat k" for m :: u32
  proof -
    have "unat m \<ge> 1" "unat m - 1 < k" using that u by (simp_all add: word_le_nat_alt word_less_nat_alt)
    moreover have "m = 1 + word_of_nat (unat m - 1)" using \<open>unat m \<ge> 1\<close> by (simp add: of_nat_diff)
    ultimately show ?thesis using k(4) by metis
  qed
  with k u show ?thesis by (auto simp: least_unused_def word_le_nat_alt)
qed

text \<open>Below the size of the instance range, the identifier found is a BACnet instance.\<close>

lemma nextFreeID_instance:
  assumes "length used < unat MaxObjectInstance"
  shows "\<exists>j. nextFreeID used = Some j \<and> least_unused j used \<and> j \<le> MaxObjectInstance"
proof -
  have "unat MaxObjectInstance = 4194303" by (simp add: MaxObjectInstance_def)
  with assms nextFreeID_least [of used] show ?thesis by (auto simp: word_le_nat_alt)
qed

section \<open>New objects are valid\<close>

lemma trim_front_keeps: "\<forall>w \<in> set ws. c \<notin> set w \<Longrightarrow> c \<in> set b \<Longrightarrow> c \<in> set (trim_front n ws b)"
proof (induction n arbitrary: b)
  case (Suc n)
  show ?case
  proof (cases "find (\<lambda>w. take (length w) b = w) ws")
    case (Some w)
    then have w: "w \<in> set ws" "take (length w) b = w" by (auto simp: find_Some_iff)
    have "c \<in> set (take (length w) b) \<or> c \<in> set (drop (length w) b)"
      using Suc.prems(2) by (metis Un_iff append_take_drop_id set_append)
    with w Suc.prems(1) have "c \<in> set (drop (length w) b)" by auto
    with Suc Some show ?thesis by (simp add: leading_def)
  qed (simp add: leading_def Suc.prems)
qed simp

lemma spaces_dash: "\<forall>w \<in> set spaces. 45 \<notin> set w"
  by code_simp

lemma TrimSpace_dash: "45 \<in> set b \<Longrightarrow> TrimSpace b \<noteq> []"
proof -
  assume b: "45 \<in> set b"
  have r: "\<forall>w \<in> set (map rev spaces). 45 \<notin> set w" using spaces_dash by auto
  have "45 \<in> set (rev (trim_front n spaces b))" for n using trim_front_keeps [OF spaces_dash b] by simp
  from trim_front_keeps [OF r this] have "45 \<in> set (TrimSpace b)" by (simp add: TrimSpace_def Let_def)
  then show ?thesis by auto
qed

lemma type_pairs_canonical: "\<forall>(c, t) \<in> set type_pairs. canonicalObjectType c = Some c \<and> objectTypeNumber c = Inr t"
  by code_simp

lemma zero_double: "f64_finite 0" "\<not> f64_less 0 0" "\<not> f64_less MaxFloat32 0" "\<not> f64_less 0 MinFloat32"
  by (simp_all add: f64_finite_def f64_less_def f64_le_def classify64_def classify_def binary64_def MaxFloat32_def MinFloat32_def scaled_def)

lemma zero_present: "isMultiStateObjectType t \<or> (\<exists>x. normalizePresentValue t VNil = Inr x)"
  using zero_double
  by (simp add: normalizePresentValue_def normalize_analog_def normalize_binary_def normalize_multistate_def numericFloat64_def numericUint32_def)

lemma new_object_valid:
  assumes "(canon, t) \<in> set type_pairs" "i \<le> MaxObjectInstance"
  shows "object_valid (new_object canon i) \<and> spec_id (new_object canon i) = \<lparr>id_Type = t, id_Instance = i\<rparr>"
proof -
  have c: "objectTypeNumber canon = Inr t" using type_pairs_canonical assms(1) by blast
  have m: "isMultiStateType canon = isMultiStateObjectType t" using type_pairs_multistate assms(1) by blast
  note z = zero_double
  have "state_ok t 2 (VUint32 1)" if "isMultiStateObjectType t"
    using that by (simp add: state_ok_typed toUint32_def)
      (auto simp: normalizePresentValue_def isMultiStateObjectType_def normalize_multistate_def numericUint32_def)
  then have v: "spec_values_ok t (new_object canon i)"
    using zero_present [of t] m by (auto simp: new_object_def Let_def spec_values_ok_def ObjectSpec_zero_def state_ok_def)
  have "TrimSpace (canon @ ascii (''-'' @ itoa (unat i))) \<noteq> []" by (rule TrimSpace_dash) (simp add: ascii_def)
  then have "object_shape (new_object canon i)"
    using c z assms(2) by (simp add: object_shape_def spec_type_def new_object_def Let_def ObjectSpec_zero_def cov_ok_def initial_priority_ok_def)
  moreover have "spec_type (new_object canon i) = t" using c by (simp add: spec_type_def new_object_def Let_def)
  ultimately show ?thesis using v by (simp add: object_valid_def spec_id_def new_object_def Let_def)
qed

lemma append_object_valid:
  assumes "objects_valid objs" "(canon, t) \<in> set type_pairs" "i \<le> MaxObjectInstance" "i \<notin> set (objectInstances objs canon)"
  shows "objects_valid (objs @ [new_object canon i])"
proof -
  note n = new_object_valid [OF assms(2,3)]
  have "spec_id obj \<noteq> \<lparr>id_Type = t, id_Instance = i\<rparr>" if o: "obj \<in> set objs" for obj
  proof
    assume s: "spec_id obj = \<lparr>id_Type = t, id_Instance = i\<rparr>"
    from o assms(1) have "objectTypeNumber (os_Type obj) = Inr (spec_type obj)" by (simp add: objects_valid_def object_valid_def object_shape_def)
    with s canonical_pair [of "os_Type obj"] obtain c where "canonicalObjectType (os_Type obj) = Some c" "(c, t) \<in> set type_pairs"
      by (auto simp: spec_id_def)
    then have "canonicalObjectType (os_Type obj) = Some canon" using type_pairs_bij assms(2) by fastforce
    with o s assms(4) show False by (auto simp: objectInstances_def spec_id_def)
  qed
  then have "\<lparr>id_Type = t, id_Instance = i\<rparr> \<notin> spec_id ` set objs" by (metis image_iff)
  with n assms(1) show ?thesis by (auto simp: objects_valid_def)
qed

lemma remove_object_valid: "objects_valid objs \<Longrightarrow> objects_valid (take i objs @ drop (i + 1) objs)"
proof -
  assume v: "objects_valid objs"
  have "distinct (map spec_id (take i objs @ drop (i + 1) objs))"
    using v by (auto simp: objects_valid_def take_map [symmetric] drop_map [symmetric] set_take_disj_set_drop_if_distinct)
  with v show ?thesis unfolding objects_valid_def by (auto dest: in_set_takeD in_set_dropD)
qed

section \<open>Edited documents\<close>

text \<open>What \<^verbatim>\<open>Validate\<close> of a document decides, apart from the codec: the scenario with its defaults is accepted.\<close>

definition document_valid :: "Document \<Rightarrow> bool" where
  "document_valid d \<longleftrightarrow> scenario_valid (applyScenarioDefaults (dc_scenario d))"

lemma defaults_devices:
  "sc_Devices (applyScenarioDefaults s) = map (default_device (nc_Port (sc_Network (applyScenarioDefaults s)))) (sc_Devices s)"
  by (simp add: applyScenarioDefaults_def Let_def)

lemma defaults_objects: "default_device port (dev\<lparr>ds_Objects := objs\<rparr>) = (default_device port dev)\<lparr>ds_Objects := objs\<rparr>"
  "ds_Objects (default_device port dev) = ds_Objects dev"
  by (simp_all add: default_device_def Let_def)

lemma scenario_valid_objects:
  assumes "scenario_valid s" "i < length (sc_Devices s)" "objects_valid objs"
  shows "scenario_valid (s\<lparr>sc_Devices := (sc_Devices s)[i := (sc_Devices s ! i)\<lparr>ds_Objects := objs\<rparr>]\<rparr>)"
proof -
  let ?ds = "(sc_Devices s)[i := (sc_Devices s ! i)\<lparr>ds_Objects := objs\<rparr>]"
  have keep: "map f ?ds = map f (sc_Devices s)" if "\<And>d. f (d\<lparr>ds_Objects := objs\<rparr>) = f d" for f :: "DeviceSpec \<Rightarrow> 'b"
    using that assms(2) by (simp add: map_update list_update_same_conv)
  have shape: "device_shape mode (d\<lparr>ds_Objects := objs\<rparr>) = device_shape mode d" for mode d by (simp add: device_shape_def)
  have "\<forall>d \<in> set ?ds. device_shape (nc_Mode (sc_Network s)) d"
    using assms(1,2) shape by (auto simp: scenario_valid_def devices_shape_def dest!: set_update_subset_insert [THEN subsetD])
  moreover have "\<forall>d \<in> set ?ds. objects_valid (ds_Objects d)"
    using assms by (auto simp: scenario_valid_def dest!: set_update_subset_insert [THEN subsetD])
  ultimately show ?thesis using assms(1) keep [of ds_ID] keep [of endpoint]
    by (auto simp: scenario_valid_def network_shape_def devices_shape_def endpoint_def)
qed

lemma applyScenarioDefaults_objects:
  assumes "i < length (sc_Devices s)"
  shows "applyScenarioDefaults (s\<lparr>sc_Devices := (sc_Devices s)[i := (sc_Devices s ! i)\<lparr>ds_Objects := objs\<rparr>]\<rparr>) =
    (let s' = applyScenarioDefaults s in s'\<lparr>sc_Devices := (sc_Devices s')[i := (sc_Devices s' ! i)\<lparr>ds_Objects := objs\<rparr>]\<rparr>)"
  using assms by (simp add: applyScenarioDefaults_def Let_def map_update defaults_objects)

lemma document_valid_objects:
  assumes "document_valid d" "i < length (devices d)" "objects_valid objs"
  shows "document_valid (MarkDirty (set_devices ((devices d)[i := (devices d ! i)\<lparr>ds_Objects := objs\<rparr>]) d))"
proof -
  have "i < length (sc_Devices (applyScenarioDefaults (dc_scenario d)))" using assms(2) by (simp add: applyScenarioDefaults_def Let_def)
  from scenario_valid_objects [OF assms(1) [unfolded document_valid_def] this assms(3)] assms(2) show ?thesis
    by (simp add: document_valid_def MarkDirty_def set_devices_def applyScenarioDefaults_objects Let_def)
qed

lemma document_objects_valid: "document_valid d \<Longrightarrow> i < length (devices d) \<Longrightarrow> objects_valid (ds_Objects (devices d ! i))"
  by (auto simp: document_valid_def scenario_valid_def applyScenarioDefaults_def Let_def defaults_objects)

text \<open>Without one of several devices: the default mode may fall back to a single device, which demands less.\<close>

lemma remove_nth_shape:
  assumes "devices_shape mode ds" "mode' = mode \<or> mode' = ascii ''single-device''"
  shows "devices_shape mode' (take i ds @ drop (i + 1) ds)"
proof -
  have d: "distinct (map f (take i ds @ drop (i + 1) ds))" if "distinct (map f ds)" for f :: "DeviceSpec \<Rightarrow> 'b"
    using that by (auto simp: take_map [symmetric] drop_map [symmetric] set_take_disj_set_drop_if_distinct)
  have "device_shape mode' dev" if "device_shape mode dev" for dev
    using that assms(2) by (auto simp: device_shape_def)
  moreover have "set (take i ds @ drop (i + 1) ds) \<subseteq> set ds" by (auto dest: in_set_takeD in_set_dropD)
  ultimately show ?thesis using assms d [of ds_ID] d [of endpoint] unfolding devices_shape_def by blast
qed

lemma network_shape_remove:
  assumes "network_shape s" "nc_Mode (sc_Network s') = nc_Mode (sc_Network s)
      \<or> nc_Mode (sc_Network s') = ascii ''single-device'' \<and> length (sc_Devices s') = 1"
    and "nc_Mode (sc_Network s) \<noteq> ascii ''single-device''" "sc_Version s' = sc_Version s" "sc_Devices s' \<noteq> []"
  shows "network_shape s'"
  using assms by (auto simp: network_shape_def)

lemma document_valid_remove:
  assumes "document_valid d" "2 \<le> length (devices d)" "i < length (devices d)"
  shows "document_valid (MarkDirty (set_devices (take i (devices d) @ drop (i + 1) (devices d)) d))"
proof -
  let ?s = "applyScenarioDefaults (dc_scenario d)"
  let ?d' = "MarkDirty (set_devices (take i (devices d) @ drop (i + 1) (devices d)) d)"
  let ?s' = "applyScenarioDefaults (dc_scenario ?d')"
  have v: "scenario_valid ?s" using assms(1) unfolding document_valid_def .
  have len: "length (devices ?d') = length (devices d) - 1" using assms by (simp add: MarkDirty_def set_devices_def)
  have ds: "sc_Devices ?s' = take i (sc_Devices ?s) @ drop (i + 1) (sc_Devices ?s)"
    by (simp add: applyScenarioDefaults_def Let_def MarkDirty_def set_devices_def take_map drop_map)
  have multi: "nc_Mode (sc_Network ?s) \<noteq> ascii ''single-device''"
  proof -
    have "length (sc_Devices ?s) = length (devices d)" by (simp add: applyScenarioDefaults_def Let_def)
    with v assms(2) show ?thesis unfolding scenario_valid_def network_shape_def by linarith
  qed
  have mode: "nc_Mode (sc_Network ?s') = nc_Mode (sc_Network ?s)
      \<or> nc_Mode (sc_Network ?s') = ascii ''single-device'' \<and> length (sc_Devices ?s') = 1"
    using assms(2,3) by (simp add: applyScenarioDefaults_def Let_def MarkDirty_def set_devices_def)
  have ver: "sc_Version ?s' = sc_Version ?s" by (simp add: applyScenarioDefaults_def Let_def MarkDirty_def set_devices_def)
  have ne: "sc_Devices ?s' \<noteq> []" using len assms(2) by (auto simp: applyScenarioDefaults_def Let_def)
  from v have n: "network_shape ?s" and sh: "devices_shape (nc_Mode (sc_Network ?s)) (sc_Devices ?s)"
    and ob: "\<forall>dev \<in> set (sc_Devices ?s). objects_valid (ds_Objects dev)" unfolding scenario_valid_def by blast+
  have "network_shape ?s'" by (rule network_shape_remove [OF n mode multi ver ne])
  moreover have "devices_shape (nc_Mode (sc_Network ?s')) (sc_Devices ?s')"
    unfolding ds using mode by (intro remove_nth_shape [OF sh]) blast
  moreover have "\<forall>dev \<in> set (sc_Devices ?s'). objects_valid (ds_Objects dev)"
    using ob unfolding ds by (auto dest: in_set_takeD in_set_dropD)
  ultimately show ?thesis unfolding document_valid_def scenario_valid_def by blast
qed

lemma AddObject_valid:
  assumes "document_valid d" and few: "\<forall>dev \<in> set (devices d). length (ds_Objects dev) < unat MaxObjectInstance"
    and i: "0 \<le> i" "i < int (length (devices d))" and c: "canonicalObjectType t = Some canon"
  shows "\<exists>j. AddObject i t d = Some (True, MarkDirty (set_devices ((devices d)[nat i := (devices d ! nat i)\<lparr>ds_Objects :=
        ds_Objects (devices d ! nat i) @ [new_object canon j]\<rparr>]) d))
    \<and> least_unused j (objectInstances (ds_Objects (devices d ! nat i)) canon)
    \<and> document_valid (MarkDirty (set_devices ((devices d)[nat i := (devices d ! nat i)\<lparr>ds_Objects :=
        ds_Objects (devices d ! nat i) @ [new_object canon j]\<rparr>]) d))"
proof -
  define dev where "dev = devices d ! nat i"
  have n: "nat i < length (devices d)" using i by auto
  from c canonical_pair [of t] obtain ty where ty: "(canon, ty) \<in> set type_pairs" by auto
  have "length (objectInstances (ds_Objects dev) canon) < unat MaxObjectInstance"
    using few n by (auto simp: dev_def objectInstances_def intro: le_less_trans [OF length_filter_le])
  from nextFreeID_instance [OF this] obtain j where j: "nextFreeID (objectInstances (ds_Objects dev) canon) = Some j"
    "least_unused j (objectInstances (ds_Objects dev) canon)" "j \<le> MaxObjectInstance" by blast
  have "j \<notin> set (objectInstances (ds_Objects dev) canon)" using j(2) by (simp add: least_unused_def)
  note a = append_object_valid [OF document_objects_valid [OF assms(1) n, folded dev_def] ty j(3) this]
  have "AddObject i t d = Some (True, MarkDirty (set_devices ((devices d)[nat i := dev\<lparr>ds_Objects := ds_Objects dev @ [new_object canon j]\<rparr>]) d))"
    using c j(1) i by (simp add: AddObject_def Let_def dev_def)
  with document_valid_objects [OF assms(1) n a, folded dev_def] j(2) show ?thesis unfolding dev_def by blast
qed

section \<open>A new device\<close>

lemma colon_itoa: "58 \<notin> set (ascii (itoa n))"
proof
  assume "58 \<in> set (ascii (itoa n))"
  then obtain c where c: "c \<in> set (itoa n)" "of_char c = (58 :: u8)" by (auto simp: ascii_def)
  from itoa_digits [OF c(1)] obtain k where k: "k < 10" "c = char_of (48 + k :: nat)" by blast
  have "(of_char c :: u8) = word_of_nat (48 + k)" using of_nat_of_char [of c, where 'a = "8 word"] of_char_digit [OF k(1)] k(2) by simp
  then have "unat (word_of_nat (48 + k) :: u8) = 58" using c(2) by simp
  with k(1) show False by (simp add: unat_of_nat del: of_nat_add)
qed

lemma endpoint_bare: "endpoint dev = ascii '':'' @ ascii (itoa n) \<longleftrightarrow> ds_Address dev = [] \<and> unat (ds_Port dev) = n"
proof (cases "ds_Address dev")
  case Nil
  then show ?thesis by (simp add: endpoint_def ascii_inj itoa_inj)
next
  case (Cons c cs)
  have "cs @ ascii '':'' @ ascii (itoa (unat (ds_Port dev))) \<noteq> ascii (itoa n)"
    using colon_itoa [of n] by (auto simp: ascii_def simp del: set_map dest!: arg_cong [where f = set])
  with Cons show ?thesis by (auto simp: endpoint_def ascii_def)
qed

text \<open>The endpoint that a device without address and port gets: the port of the scenario on every interface.\<close>

definition default_endpoint_taken :: "Document \<Rightarrow> bool" where
  "default_endpoint_taken d \<longleftrightarrow> (let s = applyScenarioDefaults (dc_scenario d)
     in \<exists>dev \<in> set (sc_Devices s). ds_Address dev = [] \<and> ds_Port dev = nc_Port (sc_Network s))"

definition new_device :: "u32 \<Rightarrow> DeviceSpec" where
  "new_device i = DeviceSpec_zero\<lparr>ds_ID := i, ds_Name := ascii (''device-'' @ itoa (unat i))\<rparr>"

lemma new_device_default:
  "device_shape mode (default_device port (new_device i)) \<longleftrightarrow> i \<le> MaxObjectInstance \<and> mode \<noteq> ascii ''multi-ip''"
  "endpoint (default_device port (new_device i)) = ascii '':'' @ ascii (itoa (unat port))"
  "ds_ID (new_device i) = i" "objects_valid (ds_Objects (default_device port (new_device i)))"
proof -
  have "TrimSpace (ascii (''device-'' @ itoa (unat i))) \<noteq> []" by (rule TrimSpace_dash) (simp add: ascii_def)
  moreover have "TrimSpace [] = []" by code_simp
  ultimately show "device_shape mode (default_device port (new_device i)) \<longleftrightarrow> i \<le> MaxObjectInstance \<and> mode \<noteq> ascii ''multi-ip''"
    by (simp add: device_shape_def default_device_def new_device_def DeviceSpec_zero_def Let_def)
qed (simp_all add: endpoint_def default_device_def new_device_def DeviceSpec_zero_def Let_def objects_valid_def)

lemma devices_shape_append:
  "devices_shape mode (ds @ [dev]) \<longleftrightarrow> devices_shape mode ds \<and> device_shape mode dev \<and> ds_ID dev \<notin> ds_ID ` set ds
     \<and> (mode \<noteq> ascii ''single-device'' \<longrightarrow> endpoint dev \<notin> endpoint ` set ds)"
  by (auto simp: devices_shape_def)

lemma ds_ID_default [simp]: "ds_ID (default_device port dev) = ds_ID dev"
  by (simp add: default_device_def Let_def)

text \<open>A device can be added to a valid document only when its mode is multi-port and no device has the default endpoint.\<close>

lemma document_valid_add:
  assumes "document_valid d" "i \<le> MaxObjectInstance" "i \<notin> set (deviceIDs (devices d))"
  shows "document_valid (MarkDirty (set_devices (devices d @ [new_device i]) d)) \<longleftrightarrow>
    nc_Mode (sc_Network (dc_scenario d)) = ascii ''multi-port'' \<and> \<not> default_endpoint_taken d"
proof -
  let ?s = "applyScenarioDefaults (dc_scenario d)" and ?m = "nc_Mode (sc_Network (dc_scenario d))"
  let ?s' = "applyScenarioDefaults (dc_scenario (MarkDirty (set_devices (devices d @ [new_device i]) d)))"
  define port where "port = nc_Port (sc_Network ?s)"
  have v: "network_shape ?s" "devices_shape (nc_Mode (sc_Network ?s)) (sc_Devices ?s)" "\<forall>dev \<in> set (sc_Devices ?s). objects_valid (ds_Objects dev)"
    using assms(1) by (simp_all add: document_valid_def scenario_valid_def)
  have ds: "sc_Devices ?s' = sc_Devices ?s @ [default_device port (new_device i)]" and ver: "sc_Version ?s' = sc_Version ?s"
    by (simp_all add: applyScenarioDefaults_def Let_def MarkDirty_def set_devices_def port_def)
  have ne: "devices d \<noteq> []" using v(1) by (auto simp: network_shape_def defaults_devices)
  have mode': "nc_Mode (sc_Network ?s') = (if ?m = [] then ascii ''multi-ip'' else ?m)"
    and mode: "?m \<noteq> [] \<Longrightarrow> nc_Mode (sc_Network ?s) = ?m"
    using ne by (simp_all add: applyScenarioDefaults_def Let_def MarkDirty_def set_devices_def)
  have id: "i \<notin> ds_ID ` set (sc_Devices ?s)" using assms(3) by (auto simp: deviceIDs_def applyScenarioDefaults_def Let_def)
  have taken: "ascii '':'' @ ascii (itoa (unat port)) \<in> endpoint ` set (sc_Devices ?s) \<longleftrightarrow> default_endpoint_taken d"
    by (auto simp: default_endpoint_taken_def Let_def image_iff endpoint_bare port_def eq_commute [of "ascii '':'' @ _"] word_unat_eq_iff [symmetric])
  have d: "ascii ''multi-port'' \<noteq> []" "ascii ''multi-port'' \<noteq> ascii ''multi-ip''" "ascii ''multi-port'' \<noteq> ascii ''single-device''"
    by (simp_all add: ascii_def)
  show ?thesis
  proof (cases "?m = ascii ''multi-port''")
    case True
    then have m: "nc_Mode (sc_Network ?s') = ascii ''multi-port''" "nc_Mode (sc_Network ?s) = ascii ''multi-port''" using mode mode' d(1) by simp_all
    have "network_shape ?s'" using v(1) d(3) unfolding network_shape_def m ver ds by simp
    with True v d(2,3) m assms(2) id taken show ?thesis
      by (simp add: document_valid_def scenario_valid_def ds devices_shape_append new_device_default)
  next
    case False
    have "\<not> scenario_valid ?s'"
    proof
      assume x: "scenario_valid ?s'"
      then have "nc_Mode (sc_Network ?s') \<noteq> ascii ''multi-ip''"
        by (auto simp: scenario_valid_def ds devices_shape_append new_device_default)
      moreover have "length (sc_Devices ?s') \<noteq> 1" using ne by (simp add: ds) (simp add: defaults_devices)
      ultimately have "nc_Mode (sc_Network ?s') = ascii ''multi-port''" using x by (auto simp: scenario_valid_def network_shape_def)
      with mode' False d(2) show False by (auto split: if_splits)
    qed
    with False show ?thesis by (simp add: document_valid_def)
  qed
qed

lemma RemoveDevice_valid:
  assumes "document_valid d" "0 \<le> i" "i < int (length (devices d))"
  shows "document_valid (RemoveDevice i d) \<longleftrightarrow> 2 \<le> length (devices d)"
proof (cases "2 \<le> length (devices d)")
  case True
  with document_valid_remove [OF assms(1) True, of "nat i"] assms(2,3) show ?thesis by (simp add: RemoveDevice_def)
next
  case False
  with assms(2,3) have "devices (RemoveDevice i d) = []" by (simp add: RemoveDevice_def MarkDirty_def set_devices_def)
  with False show ?thesis by (simp add: document_valid_def scenario_valid_def network_shape_def applyScenarioDefaults_def Let_def)
qed

lemma RemoveObject_valid: "document_valid d \<Longrightarrow> document_valid (RemoveObject i j d)"
proof (cases "0 \<le> i \<and> i < int (length (devices d))")
  case True
  assume v: "document_valid d"
  from True have n: "nat i < length (devices d)" by auto
  from True v document_valid_objects [OF v n remove_object_valid [OF document_objects_valid [OF v n]]]
  show ?thesis by (simp add: RemoveObject_def Let_def)
qed (auto simp: RemoveObject_def)

text \<open>
  C32: Edits of a document that validates.  Let it have fewer devices, and fewer objects in each device, than there are instances.
  \<^item> Removing an object of a device leaves the document valid and marks it dirty; without such an object nothing changes.
  \<^item> Removing a device marks it dirty and leaves it valid exactly when another device is left; without such a device nothing changes.
  \<^item> Adding an object always returns.  When the device exists and the type is known it appends to the objects of that device, and to
    nothing else, an object of the canonical type with the least instance from 1 on that the objects of this type leave free, named
    after both, marks the document dirty, and leaves it valid; otherwise nothing changes.
  \<^item> Adding a device always returns, appends a device with the least identifier from 1 on that is free and the name
    \<^verbatim>\<open>device-\<close> with this identifier, and marks the document dirty.  The document is then valid exactly when its mode is multi-port and no
    device without address has the port of the scenario: in the other modes the device that was added has to be edited first.
  A new document is valid.
\<close>

theorem edits_keep_valid:
  assumes "document_valid d" and "\<forall>dev \<in> set (devices d). length (ds_Objects dev) < unat MaxObjectInstance"
    and "length (devices d) < unat MaxObjectInstance"
  shows "document_valid New
    \<and> document_valid (RemoveObject i j d)
    \<and> (if 0 \<le> i \<and> i < int (length (devices d)) \<and> 0 \<le> j \<and> j < int (length (ds_Objects (devices d ! nat i)))
       then dc_dirty (RemoveObject i j d) else RemoveObject i j d = d)
    \<and> (if 0 \<le> i \<and> i < int (length (devices d))
       then dc_dirty (RemoveDevice i d) \<and> (document_valid (RemoveDevice i d) \<longleftrightarrow> 2 \<le> length (devices d)) else RemoveDevice i d = d)
    \<and> (case (0 \<le> i \<and> i < int (length (devices d)), canonicalObjectType t) of
         (True, Some canon) \<Rightarrow> (\<exists>k obj d'. AddObject i t d = Some (True, d') \<and> document_valid d' \<and> dc_dirty d'
           \<and> devices d' = (devices d)[nat i := (devices d ! nat i)\<lparr>ds_Objects := ds_Objects (devices d ! nat i) @ [obj]\<rparr>]
           \<and> least_unused k (objectInstances (ds_Objects (devices d ! nat i)) canon)
           \<and> os_Type obj = canon \<and> os_Instance obj = k \<and> os_Name obj = canon @ ascii (''-'' @ itoa (unat k)))
       | _ \<Rightarrow> AddObject i t d = Some (False, d))
    \<and> (\<exists>k dev d'. Document_AddDevice d = Some d' \<and> dc_dirty d' \<and> devices d' = devices d @ [dev]
         \<and> least_unused k (deviceIDs (devices d)) \<and> ds_ID dev = k \<and> ds_Name dev = ascii (''device-'' @ itoa (unat k))
         \<and> (document_valid d' \<longleftrightarrow> nc_Mode (sc_Network (dc_scenario d)) = ascii ''multi-port'' \<and> \<not> default_endpoint_taken d))"
    (is "_ \<and> _ \<and> ?object \<and> ?device \<and> ?add \<and> ?add_device")
proof (intro conjI)
  show "document_valid New" using New_valid by (simp add: document_valid_def)
  show "document_valid (RemoveObject i j d)" by (rule RemoveObject_valid [OF assms(1)])
  show ?object by (auto simp: RemoveObject_def Let_def MarkDirty_def)
  show ?device using RemoveDevice_valid [OF assms(1), of i] by (auto simp: RemoveDevice_def MarkDirty_def)
  show ?add
  proof (cases "0 \<le> i \<and> i < int (length (devices d))")
    case True
    show ?thesis
    proof (cases "canonicalObjectType t")
      case (Some canon)
      from AddObject_valid [OF assms(1,2) _ _ Some, of i] True obtain k where "AddObject i t d = Some (True, MarkDirty (set_devices
          ((devices d)[nat i := (devices d ! nat i)\<lparr>ds_Objects := ds_Objects (devices d ! nat i) @ [new_object canon k]\<rparr>]) d))"
        "least_unused k (objectInstances (ds_Objects (devices d ! nat i)) canon)"
        "document_valid (MarkDirty (set_devices ((devices d)[nat i := (devices d ! nat i)\<lparr>ds_Objects :=
          ds_Objects (devices d ! nat i) @ [new_object canon k]\<rparr>]) d))" by blast
      with True Some show ?thesis
        by (auto simp: MarkDirty_def set_devices_def new_object_def Let_def intro!: exI [of _ k] exI [of _ "new_object canon k"])
    qed (use True in \<open>simp add: AddObject_def\<close>)
  qed (auto simp: AddObject_def)
  have "length (deviceIDs (devices d)) < unat MaxObjectInstance" using assms(3) by (simp add: deviceIDs_def)
  from nextFreeID_instance [OF this] obtain k where k: "nextFreeID (deviceIDs (devices d)) = Some k" "least_unused k (deviceIDs (devices d))"
    "k \<le> MaxObjectInstance" by blast
  then have "k \<notin> set (deviceIDs (devices d))" by (simp add: least_unused_def)
  from document_valid_add [OF assms(1) k(3) this] k(1,2) show ?add_device
    by (auto simp: Document_AddDevice_def MarkDirty_def set_devices_def new_device_def intro!: exI [of _ k] exI [of _ "new_device k"])
qed

theorem edits_keep_valid_witness:
  "(\<exists>k d'. AddObject 0 (ascii ''multi-state-value'') New = Some (True, d') \<and> document_valid d' \<and> dc_dirty d' \<and> least_unused k [])
    \<and> (\<exists>d'. Document_AddDevice New = Some d' \<and> dc_dirty d' \<and> \<not> document_valid d')
    \<and> \<not> document_valid (RemoveDevice 0 New)"
proof -
  have v: "document_valid New" using New_valid by (simp add: document_valid_def)
  have f: "\<forall>dev \<in> set (devices New). length (ds_Objects dev) < unat MaxObjectInstance"
    by (simp add: New_def DeviceSpec_zero_def MaxObjectInstance_def)
  have n: "length (devices New) = 1" "ds_Objects (devices New ! 0) = []" "objectInstances [] c = []" for c
    by (simp_all add: New_def DeviceSpec_zero_def objectInstances_def)
  have l: "length (devices New) < unat MaxObjectInstance" by (simp add: n MaxObjectInstance_def)
  have c: "canonicalObjectType (ascii ''multi-state-value'') = Some (ascii ''multi-state-value'')" by code_simp
  have m: "nc_Mode (sc_Network (dc_scenario New)) \<noteq> ascii ''multi-port''" by (simp add: New_def ascii_def)
  from edits_keep_valid [OF v f l, of 0 0 "ascii ''multi-state-value''"] show ?thesis
    by (auto simp: n c m)
qed

end
