(* ===== verification/Net_Parse.thy ===== *)
theory Net_Parse
  imports Net Sim_Scenario
begin

text \<open>
  Addresses from text: \<^verbatim>\<open>net.ParseIP\<close> and \<^verbatim>\<open>IP.IsLoopback\<close> as the programs use them.  Text is octets.  An address that
  was read has sixteen octets, IPv4 addresses behind the prefix of mapped addresses.
\<close>

section \<open>IPv4\<close>

definition is_digit :: "u8 \<Rightarrow> bool" where
  "is_digit c \<longleftrightarrow> 48 \<le> c \<and> c \<le> 57"

text \<open>The loop over the text: the value and the number of digits of the current field, and the fields before it.\<close>

fun ipv4_fields :: "nat \<Rightarrow> nat \<Rightarrow> bytes \<Rightarrow> bytes \<Rightarrow> bytes option" where
  "ipv4_fields val digLen fs [] = (if length fs < 3 then None else Some (fs @ [word_of_nat val]))"
| "ipv4_fields val digLen fs (c # cs) =
     (if is_digit c then
        (let val' = val * 10 + (unat c - 48) in
         if digLen = 1 \<and> val = 0 then None
         else if val' > 255 then None else ipv4_fields val' (digLen + 1) fs cs)
      else if c = 46 then
        (if digLen = 0 \<or> cs = [] then None
         else if length fs = 3 then None else ipv4_fields 0 0 (fs @ [word_of_nat val]) cs)
      else None)"

definition parseIPv4 :: "bytes \<Rightarrow> bytes option" where
  "parseIPv4 s = ipv4_fields 0 0 [] s"

section \<open>IPv6\<close>

definition hex_value :: "u8 \<Rightarrow> nat option" where
  "hex_value c =
     (if is_digit c then Some (unat c - 48)
      else if 97 \<le> c \<and> c \<le> 102 then Some (unat c - 97 + 10)
      else if 65 \<le> c \<and> c \<le> 70 then Some (unat c - 65 + 10) else None)"

text \<open>A group of hexadecimal digits: its number of digits, its value and the text behind it.\<close>

fun hex_group :: "nat \<Rightarrow> nat \<Rightarrow> bytes \<Rightarrow> (nat \<times> nat \<times> bytes) option" where
  "hex_group off acc [] = Some (off, acc, [])"
| "hex_group off acc (c # cs) =
     (case hex_value c of
        None \<Rightarrow> Some (off, acc, c # cs)
      | Some v \<Rightarrow> if off > 3 then None else hex_group (off + 1) (acc * 16 + v) cs)"

text \<open>
  The loop over the groups, with the octets read so far, the position of the double colon and the text that is left;
  the first argument counts the groups that still fit.
\<close>

fun ipv6_groups :: "nat \<Rightarrow> bytes \<Rightarrow> nat option \<Rightarrow> bytes \<Rightarrow> (bytes \<times> nat option \<times> bytes) option" where
  "ipv6_groups 0 ip ellipsis s = Some (ip, ellipsis, s)"
| "ipv6_groups (Suc n) ip ellipsis s =
     (case hex_group 0 0 s of
        None \<Rightarrow> None
      | Some (off, acc, rest) \<Rightarrow>
          if off = 0 then None
          else if take 1 rest = [46] then
            (if ellipsis = None \<and> length ip \<noteq> 12 then None
             else if length ip + 4 > 16 then None
             else map_option (\<lambda>v4. (ip @ v4, ellipsis, [])) (parseIPv4 s))
          else
            (let ip = ip @ [word_of_nat (acc div 256), word_of_nat acc] in
             case rest of
               [] \<Rightarrow> Some (ip, ellipsis, [])
             | [c] \<Rightarrow> None
             | c # d # cs \<Rightarrow>
                 if c \<noteq> 58 then None
                 else if d = 58 then
                   (if ellipsis \<noteq> None then None
                    else if cs = [] then Some (ip, Some (length ip), [])
                    else ipv6_groups n ip (Some (length ip)) cs)
                 else ipv6_groups n ip ellipsis (d # cs)))"

definition expand_ellipsis :: "bytes \<times> nat option \<times> bytes \<Rightarrow> bytes option" where
  "expand_ellipsis = (\<lambda>(ip, ellipsis, s).
     if s \<noteq> [] then None
     else case ellipsis of
       None \<Rightarrow> if length ip < 16 then None else Some ip
     | Some e \<Rightarrow> if length ip < 16 then Some (take e ip @ replicate (16 - length ip) 0 @ drop e ip) else None)"

definition parseIPv6 :: "bytes \<Rightarrow> bytes option" where
  "parseIPv6 s =
     (if take 2 s = [58, 58] then
        (if drop 2 s = [] then Some (replicate 16 0) else Option.bind (ipv6_groups 8 [] (Some 0) (drop 2 s)) expand_ellipsis)
      else Option.bind (ipv6_groups 8 [] None s) expand_ellipsis)"

text \<open>The first dot, colon or percent sign decides; an address with a zone is not an \<^verbatim>\<open>net.IP\<close>.\<close>

definition ParseIP :: "bytes \<Rightarrow> bytes option" where
  "ParseIP s =
     (if 37 \<in> set s then None
      else case find (\<lambda>c. c = 46 \<or> c = 58) s of
        None \<Rightarrow> None
      | Some c \<Rightarrow> if c = 46 then map_option (\<lambda>v4. v4_prefix @ v4) (parseIPv4 s) else parseIPv6 s)"

definition IsLoopback :: "bytes \<Rightarrow> bool" where
  "IsLoopback ip = (case IP_To4 ip of Some v4 \<Rightarrow> v4 ! 0 = 127 | None \<Rightarrow> ip = replicate 15 0 @ [1])"

text \<open>An address of an interface by its dynamic type; \<open>IPNet\<close> also carries a mask.\<close>

datatype net_addr = IPNet bytes | IPAddr bytes | OtherAddr

definition addr_v4 :: "net_addr \<Rightarrow> bytes option" where
  "addr_v4 addr = (case addr of IPNet ip \<Rightarrow> IP_To4 ip | IPAddr ip \<Rightarrow> IP_To4 ip | OtherAddr \<Rightarrow> None)"

section \<open>Reading what is written\<close>

lemma ipv4_fields_length: "ipv4_fields val k fs s = Some v \<Longrightarrow> length fs \<le> 3 \<Longrightarrow> length v = 4"
  by (induction val k fs s rule: ipv4_fields.induct) (auto simp: Let_def split: if_splits)

lemma digit_octet:
  assumes "d < 10"
  shows "is_digit (of_char (char_of (48 + d :: nat)))" "unat (of_char (char_of (48 + d :: nat)) :: u8) = 48 + d"
proof -
  have "(of_char (char_of (48 + d :: nat)) :: u8) = word_of_nat (48 + d)"
    using of_nat_of_char [of "char_of (48 + d :: nat)", where 'a = "8 word"] of_char_digit [OF assms] by simp
  moreover have "unat (word_of_nat (48 + d) :: u8) = 48 + d" using assms unat_of_nat [of "48 + d", where 'a = 8] by (simp del: of_nat_add)
  ultimately show "is_digit (of_char (char_of (48 + d :: nat)))" "unat (of_char (char_of (48 + d :: nat)) :: u8) = 48 + d"
    using assms by (simp_all add: is_digit_def word_le_nat_alt)
qed

lemma ascii_itoa_digits: "c \<in> set (ascii (itoa n)) \<Longrightarrow> is_digit c"
  using itoa_digits digit_octet(1) by (auto simp: ascii_def)

lemma ipv4_fields_itoa:
  "n \<le> 255 \<Longrightarrow> ipv4_fields 0 0 fs (ascii (itoa n) @ rest) = ipv4_fields n (length (itoa n)) fs rest"
proof (induction n arbitrary: rest rule: itoa.induct)
  case (1 n)
  show ?case
  proof (cases "n < 10")
    case True
    then have "itoa n = [char_of (48 + n)]" by (subst itoa.simps) simp
    with digit_octet [OF True] 1(2) show ?thesis by (simp add: ascii_def Let_def)
  next
    case False
    then have i: "itoa n = itoa (n div 10) @ [char_of (48 + n mod 10)]" by (subst itoa.simps) simp
    have "n mod 10 < 10" by simp
    note d = digit_octet [OF this]
    have "ipv4_fields 0 0 fs (ascii (itoa n) @ rest)
        = ipv4_fields (n div 10) (length (itoa (n div 10))) fs (of_char (char_of (48 + n mod 10)) # rest)"
      using 1(1) [OF False] 1(2) by (simp add: i ascii_def)
    also have "\<dots> = ipv4_fields n (length (itoa n)) fs rest"
      using d 1(2) False div_greater_zero_iff [of n 10] by (auto simp: Let_def i)
    finally show ?thesis .
  qed
qed

lemma itoa_Cons: "itoa n \<noteq> []"
  by (subst itoa.simps) simp

lemma octet_bound: "unat (b :: u8) \<le> 255"
  using unat_less [of b] by simp

lemma ascii_v4:
  "ascii (IP_String [a, b, c, d])
   = ascii (itoa (unat a)) @ 46 # ascii (itoa (unat b)) @ 46 # ascii (itoa (unat c)) @ 46 # ascii (itoa (unat d))"
  by (simp add: IP_String_v4 ascii_def)

lemma parseIPv4_String: "parseIPv4 (ascii (IP_String [a, b, c, d])) = Some [a, b, c, d]"
proof -
  have dot: "of_char CHR ''.'' = (46 :: u8)" "\<not> is_digit 46" by (simp_all add: is_digit_def)
  have step: "ipv4_fields 0 0 fs (ascii (itoa (unat x)) @ 46 # rest) = ipv4_fields 0 0 (fs @ [x]) rest"
    if "length fs < 3" "rest \<noteq> []" for fs rest and x :: u8
    using that by (simp add: ipv4_fields_itoa octet_bound dot itoa_Cons)
  have last: "ipv4_fields 0 0 fs (ascii (itoa (unat x))) = Some (fs @ [x])" if "length fs = 3" for fs and x :: u8
    using ipv4_fields_itoa [OF octet_bound, of fs x "[]"] that by simp
  have "ascii (itoa n) \<noteq> []" for n by (simp add: ascii_def itoa_Cons)
  then show ?thesis unfolding ascii_v4 parseIPv4_def by (simp add: step last)
qed

lemma v4_text: "c \<in> set (ascii (IP_String [x, y, z, w])) \<Longrightarrow> c = 46 \<or> is_digit c"
  unfolding ascii_v4 by (auto dest: ascii_itoa_digits)

lemma find_only:
  assumes "\<And>c. c \<in> set s \<Longrightarrow> Q c \<Longrightarrow> c = x" "x \<in> set s" "Q x"
  shows "find Q s = Some x"
proof (cases "find Q s")
  case None
  with assms(2,3) show ?thesis by (simp add: find_None_iff)
next
  case (Some c)
  then have "c \<in> set s" "Q c" by (auto simp: find_Some_iff)
  with Some assms(1) show ?thesis by simp
qed

lemma ParseIP_String: "ParseIP (ascii (IP_String [a, b, c, d])) = Some (v4_prefix @ [a, b, c, d])"
proof -
  let ?s = "ascii (IP_String [a, b, c, d])"
  have "37 \<notin> set ?s" "58 \<notin> set ?s" using v4_text [of 37 a b c d] v4_text [of 58 a b c d] by (auto simp: is_digit_def)
  moreover have "46 \<in> set ?s" by (simp add: IP_String_v4 ascii_def)
  ultimately have "find (\<lambda>c. c = 46 \<or> c = 58) ?s = Some 46" by (intro find_only) auto
  with \<open>37 \<notin> set ?s\<close> parseIPv4_String [of a b c d] show ?thesis by (simp add: ParseIP_def)
qed

lemma IP_To4_length: "IP_To4 x = Some v \<Longrightarrow> length v = 4"
  by (auto simp: IP_To4_def split: if_splits)

lemma IP_String_To4: "IP_To4 x = Some v \<Longrightarrow> IP_String x = IP_String v"
  by (auto simp: IP_String_def IP_To4_def split: if_splits)

lemma length_4E:
  assumes "length xs = 4"
  obtains a b c d where "xs = [a, b, c, d]"
  using assms by (auto simp: length_Suc_conv eval_nat_numeral)

lemma IP_String_inj: "IP_To4 x = Some v \<Longrightarrow> IP_To4 y = Some w \<Longrightarrow> IP_String x = IP_String y \<longleftrightarrow> v = w"
proof
  assume x: "IP_To4 x = Some v" "IP_To4 y = Some w" and eq: "IP_String x = IP_String y"
  obtain a b c d where v: "v = [a, b, c, d]" by (rule length_4E [OF IP_To4_length [OF x(1)]])
  obtain a' b' c' d' where w: "w = [a', b', c', d']" by (rule length_4E [OF IP_To4_length [OF x(2)]])
  have "IP_String [a, b, c, d] = IP_String [a', b', c', d']"
    using eq unfolding IP_String_To4 [OF x(1)] IP_String_To4 [OF x(2)] v w .
  then have "Some [a, b, c, d] = Some [a', b', c', d']"
    using parseIPv4_String [of a b c d] parseIPv4_String [of a' b' c' d'] by metis
  then show "v = w" by (simp add: v w)
qed (simp add: IP_String_To4)

end
