(* ===== verification/Gui_Network.thy ===== *)
theory Gui_Network
  imports Net_Parse "HOL-Library.List_Lexorder" "HOL-Library.Char_ord" "HOL-Library.Product_Lexorder"
begin

text \<open>
  The choice of a network interface in the graphical application, \<^verbatim>\<open>gui/internal/netpick/netpick.go\<close>, and the start of a
  session from the settings, \<^verbatim>\<open>gui/internal/session/bootstrap.go\<close>.  The interfaces the operating system reports are an
  argument; names are strings, labels are octets because they hold a dash outside ASCII.
\<close>

section \<open>Candidates\<close>

record net_interface =
  if_Name :: string
  if_Up :: bool
  if_Loopback :: bool
  if_Addrs :: "net_addr list result"

record Candidate =
  cn_Name :: string
  cn_Label :: bytes
  cn_IPv4 :: string
  cn_Loopback :: bool
  cn_Virtual :: bool

definition HasPrefix :: "string \<Rightarrow> string \<Rightarrow> bool" where
  "HasPrefix s p \<longleftrightarrow> take (length p) s = p"

definition virtualPrefixes :: "string list" where
  "virtualPrefixes = [''docker'', ''br-'', ''veth'', ''virbr'', ''cni'', ''flannel'', ''tailscale'', ''tun'', ''tap'', ''wg'', ''zt'']"

fun any_prefix :: "string \<Rightarrow> string list \<Rightarrow> bool" where
  "any_prefix name [] = False"
| "any_prefix name (p # ps) = (if HasPrefix name p then True else any_prefix name ps)"

definition isVirtual :: "string \<Rightarrow> bool" where
  "isVirtual name = any_prefix name virtualPrefixes"

fun firstIPv4 :: "net_addr list \<Rightarrow> string option" where
  "firstIPv4 [] = None"
| "firstIPv4 (addr # addrs) =
     (case addr_v4 addr of
        Some ip4 \<Rightarrow> Some (IP_String ip4)
      | None \<Rightarrow> firstIPv4 addrs)"

definition friendlyName :: "string \<Rightarrow> string" where
  "friendlyName name =
     (if HasPrefix name ''wl'' then ''Wi-Fi''
      else if HasPrefix name ''en'' \<or> HasPrefix name ''eth'' then ''Wired''
      else if HasPrefix name ''lo'' then ''Loopback (testing)'' else ''Network'')"

definition label :: "string \<Rightarrow> string \<Rightarrow> bool \<Rightarrow> bytes" where
  "label name ipv4 loopback =
     (if loopback then map of_char (friendlyName name) @ [32, 0xe2, 0x80, 0x94, 32] @ map of_char ipv4
      else map of_char (friendlyName name @ '' ('' @ name @ '')'') @ [32, 0xe2, 0x80, 0x94, 32] @ map of_char ipv4)"

text \<open>One turn of the loop over the interfaces.\<close>

definition candidate :: "net_interface \<Rightarrow> Candidate option" where
  "candidate ifc =
     (if \<not> if_Up ifc then None
      else case if_Addrs ifc of
        Inl _ \<Rightarrow> None
      | Inr addrs \<Rightarrow>
          (case firstIPv4 addrs of
             None \<Rightarrow> None
           | Some ipv4 \<Rightarrow> Some \<lparr>cn_Name = if_Name ifc, cn_Label = label (if_Name ifc) ipv4 (if_Loopback ifc), cn_IPv4 = ipv4,
               cn_Loopback = if_Loopback ifc, cn_Virtual = isVirtual (if_Name ifc)\<rparr>))"

text \<open>
  \<^verbatim>\<open>sort.SliceStable\<close> with a lexicographic comparison: non-loopback first, then physical, then by name.  The library's
  \<open>sort_key\<close> is stable.
\<close>

definition rank :: "Candidate \<Rightarrow> bool \<times> bool \<times> string" where
  "rank c = (cn_Loopback c, cn_Virtual c, cn_Name c)"

definition sortCandidates :: "Candidate list \<Rightarrow> Candidate list" where
  "sortCandidates cands = sort_key rank cands"

definition Candidates :: "net_interface list result \<Rightarrow> Candidate list" where
  "Candidates interfaces = (case interfaces of
       Inl _ \<Rightarrow> []
     | Inr ifaces \<Rightarrow> sortCandidates (List.map_filter candidate ifaces))"

definition Automatic :: "Candidate list \<Rightarrow> Candidate option" where
  "Automatic cands =
     (case find (\<lambda>c. \<not> cn_Loopback c \<and> \<not> cn_Virtual c) cands of
        Some c \<Rightarrow> Some c
      | None \<Rightarrow>
          (case find (\<lambda>c. \<not> cn_Loopback c) cands of
             Some c \<Rightarrow> Some c
           | None \<Rightarrow> find cn_Loopback cands))"

section \<open>Starting a session from the settings\<close>

record Config =
  cf_Interface :: string
  cf_Port :: u16
  cf_LocalPort :: u16

definition AllNetworksSentinel :: string where "AllNetworksSentinel = ''*''"

definition ConfigFromSettings :: "string \<Rightarrow> int \<Rightarrow> Config" where
  "ConfigFromSettings iface port = (let p = word_of_int port in \<lparr>cf_Interface = iface, cf_Port = p, cf_LocalPort = p\<rparr>)"

definition resolveAutomatic :: "net_interface list result \<Rightarrow> Candidate option" where
  "resolveAutomatic interfaces = Automatic (Candidates interfaces)"

text \<open>The session is its \<^verbatim>\<open>Start\<close>, on a state of any type.\<close>

definition StartFromSettings :: "(Config \<Rightarrow> 's \<Rightarrow> unit result \<times> 's) \<Rightarrow> net_interface list result \<Rightarrow> string \<Rightarrow> int \<Rightarrow> 's \<Rightarrow> unit result \<times> 's" where
  "StartFromSettings Start interfaces iface port s =
     (if iface = AllNetworksSentinel then Start (ConfigFromSettings [] port) s
      else if iface = [] then
        (case resolveAutomatic interfaces of
           None \<Rightarrow> (Inl (Err ''no usable network found''), s)
         | Some c \<Rightarrow> Start (ConfigFromSettings (cn_Name c) port) s)
      else Start (ConfigFromSettings iface port) s)"

definition Shutdown :: "('s \<Rightarrow> unit result \<times> 's) \<Rightarrow> 's \<Rightarrow> unit result \<times> 's" where
  "Shutdown Stop s = Stop s"

section \<open>The automatic choice\<close>

lemma find_sorted:
  assumes "sorted (map f xs)" "\<And>x y. x \<in> set xs \<Longrightarrow> y \<in> set xs \<Longrightarrow> f x \<le> f y \<Longrightarrow> P y \<Longrightarrow> P x" "find P xs = Some c"
  shows "\<exists>rest. xs = c # rest"
proof (cases xs)
  case (Cons x rest)
  from assms(3) have "c \<in> set xs" "P c" by (auto simp: find_Some_iff)
  then have "f x \<le> f c" using assms(1) Cons by auto
  with assms(2) [of x c] \<open>c \<in> set xs\<close> \<open>P c\<close> Cons have "P x" by simp
  with assms(3) Cons show ?thesis by auto
qed (use assms(3) in simp)

lemma Automatic_sorted:
  assumes "sorted (map rank cands)"
  shows "Automatic cands = (case cands of [] \<Rightarrow> None | c # _ \<Rightarrow> Some c)"
proof (cases cands)
  case (Cons c rest)
  have h: "P c" if "find P cands = Some d" "\<And>x y. rank x \<le> rank y \<Longrightarrow> P y \<Longrightarrow> P x" for P d
    using find_sorted [OF assms _ that(1)] that Cons by (force simp: find_Some_iff)
  show ?thesis
  proof (cases "find (\<lambda>c. \<not> cn_Loopback c \<and> \<not> cn_Virtual c) cands")
    case (Some d)
    have "\<not> cn_Loopback c \<and> \<not> cn_Virtual c" by (rule h [OF Some]) (auto simp: rank_def less_eq_prod_def less_prod_def)
    then show ?thesis using Cons by (simp add: Automatic_def)
  next
    case None
    show ?thesis
    proof (cases "find (\<lambda>c. \<not> cn_Loopback c) cands")
      case (Some d)
      have "\<not> cn_Loopback c" by (rule h [OF Some]) (auto simp: rank_def less_eq_prod_def less_prod_def)
      then show ?thesis using Cons None by (simp add: Automatic_def)
    next
      case n: None
      then have "cn_Loopback c" using Cons by (auto split: if_splits)
      then show ?thesis using Cons None n by (simp add: Automatic_def)
    qed
  qed
qed (simp add: Automatic_def)

lemma Candidates_set: "set (Candidates (Inr ifaces)) = {c. \<exists>ifc \<in> set ifaces. candidate ifc = Some c}"
  by (auto simp: Candidates_def sortCandidates_def List.map_filter_def image_iff) force+

lemma Candidates_sorted: "sorted (map rank (Candidates interfaces))"
  by (cases interfaces) (simp_all add: Candidates_def sortCandidates_def)

text \<open>
  With the setting \<open>Automatic\<close> a session is started on the best usable interface: one that is up and has an IPv4 address, a
  real one before a virtual one and both before the loopback, the first by name among equals; it is the first of the list shown.
  The start fails with an error of its own exactly when there is none.  Any other setting is used as it is.
\<close>

theorem automatic_choice:
  "(case resolveAutomatic (Inr ifaces) of
      None \<Rightarrow> list_all (\<lambda>ifc. candidate ifc = None) ifaces
        \<and> StartFromSettings Start (Inr ifaces) [] port s = (Inl (Err ''no usable network found''), s)
    | Some c \<Rightarrow> hd (Candidates (Inr ifaces)) = c \<and> list_ex (\<lambda>ifc. candidate ifc = Some c) ifaces
        \<and> list_all (\<lambda>ifc. case candidate ifc of None \<Rightarrow> True | Some c' \<Rightarrow> rank c \<le> rank c') ifaces
        \<and> StartFromSettings Start (Inr ifaces) [] port s = Start (ConfigFromSettings (cn_Name c) port) s)
   \<and> StartFromSettings Start interfaces ''*'' port s = Start (ConfigFromSettings [] port) s
   \<and> (iface = [] \<or> iface = ''*'' \<or> StartFromSettings Start interfaces iface port s = Start (ConfigFromSettings iface port) s)"
proof -
  let ?cs = "Candidates (Inr ifaces)"
  have a: "resolveAutomatic (Inr ifaces) = (case ?cs of [] \<Rightarrow> None | c # _ \<Rightarrow> Some c)"
    unfolding resolveAutomatic_def by (rule Automatic_sorted [OF Candidates_sorted])
  have "(case resolveAutomatic (Inr ifaces) of
      None \<Rightarrow> list_all (\<lambda>ifc. candidate ifc = None) ifaces
    | Some c \<Rightarrow> hd ?cs = c \<and> list_ex (\<lambda>ifc. candidate ifc = Some c) ifaces
        \<and> list_all (\<lambda>ifc. case candidate ifc of None \<Rightarrow> True | Some c' \<Rightarrow> rank c \<le> rank c') ifaces)"
  proof (cases ?cs)
    case Nil
    then have "{c. \<exists>ifc \<in> set ifaces. candidate ifc = Some c} = {}" using Candidates_set [of ifaces] by simp
    then have "\<forall>ifc \<in> set ifaces. candidate ifc = None" by (metis (mono_tags, lifting) empty_Collect_eq not_None_eq)
    then show ?thesis by (simp add: a Nil list_all_iff)
  next
    case (Cons c rest)
    have "rank c \<le> rank c'" if "c' \<in> set ?cs" for c' using Candidates_sorted [of "Inr ifaces"] that Cons by auto
    moreover have "c \<in> set ?cs" by (simp add: Cons)
    ultimately show ?thesis unfolding a using Cons Candidates_set [of ifaces]
      by (auto simp: list_all_iff list_ex_iff split: option.splits)
  qed
  then show ?thesis by (auto simp: StartFromSettings_def AllNetworksSentinel_def split: option.splits)
qed

end
