(* ===== verification/Gui_Session.thy ===== *)
theory Gui_Session
  imports Lifecycle Gui_Network
begin

text \<open>
  The session of the graphical application, \<^verbatim>\<open>gui/internal/session\<close>: the facade over the client that the views use.
  Starting and stopping is a step relation: every call of \<^verbatim>\<open>Start\<close> and \<^verbatim>\<open>Stop\<close> is a goroutine of its own, one step is one
  critical section, one call or one wait of it, and the endpoints it creates run the goroutines of the theory \<open>Lifecycle\<close>
  in between.  A call of the client runs as in the theory \<open>Client\<close>, where \<open>None\<close> is a call that has not returned; a
  sequence of calls has, for each of them, what arrives while it waits.
\<close>

section \<open>Values\<close>

datatype ObjectRef = ObjectRef (or_Type: u16) (or_Instance: u32)

text \<open>The dynamic type of a value of the facade: what the library decodes, with its named types unwrapped.\<close>

datatype facade_value = Plain go_value | Ref ObjectRef | Bits "bool list"

record Value =
  va_Tag :: u8
  va_Value :: facade_value

record WriteRequest =
  wq_Tag :: u8
  wq_Priority :: u8
  wq_Value :: go_value

record ReadSpec =
  rsp_Object :: ObjectRef
  rsp_Properties :: "u32 list"

record ObjectResult =
  ores_Object :: ObjectRef
  ores_Values :: "Value list"
  ores_Errors :: "(u32 \<times> go_error) list"

record DeviceSummary =
  dsm_Instance :: u32
  dsm_IP :: bytes
  dsm_Port :: u16
  dsm_VendorID :: u32
  dsm_MaxApdu :: u32
  dsm_Segmentation :: u32

definition octet_bits :: "u8 \<Rightarrow> bool list" where
  "octet_bits b = map (\<lambda>i. (drop_bit i b) AND 1 \<noteq> 0) [7, 6, 5, 4, 3, 2, 1, 0]"

definition toValue :: "PropertyValue \<Rightarrow> Value" where
  "toValue v = \<lparr>va_Tag = pv_Type v, va_Value =
     (case pv_Value v of
        VReal r \<Rightarrow> Plain (VFloat32 r)
      | VDouble d \<Rightarrow> Plain (VFloat64 d)
      | VCharacterString cs \<Rightarrow> Plain (VString (cs_Value cs))
      | VObjectId oid \<Rightarrow> Ref (ObjectRef (oid_Type oid) (InstanceNumber oid))
      | VBitString bs \<Rightarrow> Bits (concat (map octet_bits bs))
      | x \<Rightarrow> Plain x)\<rparr>"

text \<open>A nil pointer among the values is dereferenced.\<close>

definition to_values :: "PropertyValue option list \<Rightarrow> Value list result" where
  "to_values = map_res (\<lambda>v. case v of None \<Rightarrow> Inl Panic | Some v \<Rightarrow> Inr (toValue v))"

section \<open>Start and stop\<close>

definition ErrAlreadyStarted :: go_error where "ErrAlreadyStarted = Err ''session already started''"
definition errSessionNotStarted :: go_error where "errSessionNotStarted = Err ''session not started''"
definition maxLegacyInstance :: u32 where "maxLegacyInstance = 65535"

text \<open>
  The point a call has reached; the number is that of the endpoint it works on.
\<close>

datatype live_call =
    LIdle                         \<comment> \<open>no call\<close>
  | LStarting Config              \<comment> \<open>\<^verbatim>\<open>Start\<close> after its check\<close>
  | LAwaiting Config nat          \<comment> \<open>in \<^verbatim>\<open>awaitStart\<close>\<close>
  | LFailing nat go_error         \<comment> \<open>in \<^verbatim>\<open>srv.Shutdown()\<close> of \<^verbatim>\<open>Start\<close>, to return the error\<close>
  | LStarted Config nat           \<comment> \<open>at the second critical section of \<^verbatim>\<open>Start\<close>\<close>
  | LStopping nat                 \<comment> \<open>in \<^verbatim>\<open>srv.Shutdown()\<close> of \<^verbatim>\<open>Stop\<close>\<close>
  | LClosing nat                  \<comment> \<open>at \<^verbatim>\<open><-srv.Close()\<close>\<close>
  | LReturned "unit result"

text \<open>
  \<open>lv_srv\<close> is the number of the endpoint the field \<^verbatim>\<open>srv\<close> points to; \<open>lv_ends\<close> has every endpoint the session has created
  with its goroutines, and \<open>lv_calls\<close> the calls under way.
\<close>

record Live =
  lv_srv :: "nat option"
  lv_port :: u16
  lv_ends :: "nat \<rightharpoonup> Life"
  lv_next :: nat
  lv_calls :: "nat \<Rightarrow> live_call"

definition NewLive :: Live where
  "NewLive = \<lparr>lv_srv = None, lv_port = 0, lv_ends = Map.empty, lv_next = 0, lv_calls = (\<lambda>_. LIdle)\<rparr>"

text \<open>
  The first argument tells which case of the first \<^verbatim>\<open>select\<close> was taken; the second is the error channel at the second
  one.  The error stays in the queue of the model: nobody else reads from it.
\<close>

definition awaitStart :: "bool \<Rightarrow> go_error list \<Rightarrow> unit result" where
  "awaitStart fired errs =
     (if \<not> fired then Inl (Err ''bacnet server did not start'')
      else case errs of [] \<Rightarrow> Inr () | e # _ \<Rightarrow> Inl (Err ''bacnet server failed to start: %w''))"

definition at_call :: "nat \<Rightarrow> live_call \<Rightarrow> Live \<Rightarrow> Live" where
  "at_call t c v = v\<lparr>lv_calls := (lv_calls v)(t := c)\<rparr>"

definition set_end :: "nat \<Rightarrow> Life \<Rightarrow> Live \<Rightarrow> Live" where
  "set_end n l v = v\<lparr>lv_ends := (lv_ends v)(n \<mapsto> l)\<rparr>"

text \<open>
  The pieces of \<^verbatim>\<open>Start\<close>: the check, the new endpoint, what follows \<^verbatim>\<open>awaitStart\<close>, and the assignment.  The call \<open>t\<close>
  of the session runs \<^verbatim>\<open>Shutdown\<close> of an endpoint as its goroutine \<open>Suc t\<close>; the goroutine \<open>0\<close> is \<^verbatim>\<open>Listen\<close>.
\<close>

definition Start_check :: "nat \<Rightarrow> Config \<Rightarrow> Live \<Rightarrow> Live" where
  "Start_check t cfg v = (if lv_srv v \<noteq> None then at_call t (LReturned (Inl ErrAlreadyStarted)) v else at_call t (LStarting cfg) v)"

definition live_config :: "Config \<Rightarrow> ServerConfig" where
  "live_config cfg = SetReceiveErrors True (SetServerBBMDPort (cf_LocalPort cfg)
     (SetListenPort (cf_Port cfg) (SetInterfaceName (cf_Interface cfg) NewServerConfig)))"

definition Start_new :: "(string \<Rightarrow> cidr list result) \<Rightarrow> TxState \<Rightarrow> nat \<Rightarrow> Config \<Rightarrow> Live \<Rightarrow> Live" where
  "Start_new lookup tx t cfg v = (case NewServer lookup tx (Some (live_config cfg)) of
       Inl e \<Rightarrow> at_call t (LReturned (Inl e)) v
     | Inr (srv, _) \<Rightarrow> (at_call t (LAwaiting cfg (lv_next v)) (set_end (lv_next v) (life_init srv) v))\<lparr>lv_next := lv_next v + 1\<rparr>)"

definition Start_awaited :: "bool \<Rightarrow> nat \<Rightarrow> Config \<Rightarrow> nat \<Rightarrow> Life \<Rightarrow> Live \<Rightarrow> Live" where
  "Start_awaited fired t cfg n l v = (case awaitStart fired (srv_errors (lf_srv l)) of
       Inl e \<Rightarrow> at_call t (LFailing n e) (set_end n (goto (Suc t) (Closing None) l) v)
     | Inr _ \<Rightarrow> at_call t (LStarted cfg n) v)"

definition Start_install :: "nat \<Rightarrow> Config \<Rightarrow> nat \<Rightarrow> Live \<Rightarrow> Live" where
  "Start_install t cfg n v = (at_call t (LReturned (Inr ())) v)\<lparr>lv_srv := Some n, lv_port := cf_Port cfg\<rparr>"

definition Stop_take :: "nat \<Rightarrow> Live \<Rightarrow> Live" where
  "Stop_take t v = (case lv_srv v of
       None \<Rightarrow> at_call t (LReturned (Inr ())) v
     | Some n \<Rightarrow> (case lv_ends v n of
           None \<Rightarrow> at_call t (LReturned (Inr ())) v
         | Some l \<Rightarrow> (at_call t (LStopping n) (set_end n (goto (Suc t) (Closing None) l) v))\<lparr>lv_srv := None\<rparr>))"

text \<open>
  What the goroutines of an endpoint do by themselves: any step but a call of \<^verbatim>\<open>Shutdown\<close>.  The client calls and the
  datagrams that arrive do not touch the life cycle.
\<close>

definition own_step :: "Life \<Rightarrow> Life \<Rightarrow> bool" where
  "own_step l l' \<longleftrightarrow> life_step l l' \<and> (\<forall>i. lf_threads l i = Idle \<and> lf_threads l' i \<noteq> Idle \<longrightarrow> i = 0 \<and> l' = do_call 0 l)"

definition life_view :: "Server \<Rightarrow> (bool \<times> bool \<times> bool \<times> bool) \<times> bool \<times> go_error list \<times> nat option" where
  "life_view s = ((closing s, closed s, listening s, started s), rcvErrors s, srv_errors s, UnicastConn s)"

inductive live_step :: "Live \<Rightarrow> Live \<Rightarrow> bool" where
  start: "lv_calls v t = LIdle \<Longrightarrow> live_step v (Start_check t cfg v)"
| new: "lv_calls v t = LStarting cfg \<Longrightarrow> live_step v (Start_new lookup tx t cfg v)"
| awaited: "lv_calls v t = LAwaiting cfg n \<Longrightarrow> lv_ends v n = Some l \<Longrightarrow> (fired \<longrightarrow> started (lf_srv l)) \<Longrightarrow>
    live_step v (Start_awaited fired t cfg n l v)"
| failed: "lv_calls v t = LFailing n e \<Longrightarrow> lv_ends v n = Some l \<Longrightarrow> lf_threads l (Suc t) = Idle \<Longrightarrow> live_step v (at_call t (LReturned (Inl e)) v)"
| install: "lv_calls v t = LStarted cfg n \<Longrightarrow> live_step v (Start_install t cfg n v)"
| stop: "lv_calls v t = LIdle \<Longrightarrow> live_step v (Stop_take t v)"
| stopped: "lv_calls v t = LStopping n \<Longrightarrow> lv_ends v n = Some l \<Longrightarrow> lf_threads l (Suc t) = Idle \<Longrightarrow> live_step v (at_call t (LClosing n) v)"
| wait_closed: "lv_calls v t = LClosing n \<Longrightarrow> lv_ends v n = Some l \<Longrightarrow> closed (lf_srv l) \<Longrightarrow> live_step v (at_call t (LReturned (Inr ())) v)"
| caller: "lv_calls v t = LReturned r \<Longrightarrow> live_step v (at_call t LIdle v)"
| endpoint: "lv_ends v n = Some l \<Longrightarrow> own_step l l' \<Longrightarrow> live_step v (set_end n l' v)"
| work: "lv_ends v n = Some l \<Longrightarrow> life_view s = life_view (lf_srv l) \<Longrightarrow> live_step v (set_end n (set_srv s l) v)"

text \<open>The endpoint the session uses, and the session after a call on it.\<close>

definition live_server :: "Live \<Rightarrow> Server option" where
  "live_server v = Option.bind (lv_srv v) (\<lambda>n. map_option lf_srv (lv_ends v n))"

definition with_live_server :: "Server \<Rightarrow> Live \<Rightarrow> Live" where
  "with_live_server s v = (case lv_srv v of None \<Rightarrow> v | Some n \<Rightarrow> (case lv_ends v n of None \<Rightarrow> v | Some l \<Rightarrow> set_end n (set_srv s l) v))"

section \<open>Discovery\<close>

text \<open>A device without an identifier is a nil dereference in the goroutine that forwards it.\<close>

definition summary :: "u16 \<Rightarrow> Device \<Rightarrow> DeviceSummary result" where
  "summary port dev = (case dev_ObjectId dev of
       None \<Rightarrow> Inl Panic
     | Some oid \<Rightarrow> Inr \<lparr>dsm_Instance = InstanceNumber oid, dsm_IP = dev_IPAddress dev, dsm_Port = port,
         dsm_VendorID = ucast (dev_VendorID dev), dsm_MaxApdu = dev_MaxAPDU dev, dsm_Segmentation = ucast (dev_Segmentation dev)\<rparr>)"

definition Live_Discover :: "writer \<Rightarrow> Live \<Rightarrow> ClientRequest result \<times> Live" where
  "Live_Discover wr l = (case live_server l of
       None \<Rightarrow> (Inl errSessionNotStarted, l)
     | Some srv \<Rightarrow> (let (r, srv) = SendWhoIsBroadcast wr srv in (r, with_live_server srv l)))"

text \<open>What the stream carries for the responses that arrive.\<close>

definition discovered :: "u16 \<Rightarrow> Request list \<Rightarrow> DeviceSummary list result" where
  "discovered port rs = map_res (summary port) (List.map_filter collect_device rs)"

section \<open>Reads and writes\<close>

definition Live_ReadProperty ::
    "writer \<Rightarrow> (Server \<Rightarrow> Server) \<Rightarrow> wait \<Rightarrow> ip \<Rightarrow> ObjectRef \<Rightarrow> u32 \<Rightarrow> Live \<Rightarrow> (Value list result \<times> Live) option" where
  "Live_ReadProperty wr env w dev obj prop l =
     (if or_Instance obj > maxLegacyInstance then Some (Inl (Err ''object instance %d requires library 22-bit support (pending L2)''), l)
      else case live_server l of
        None \<Rightarrow> Some (Inl errSessionNotStarted, l)
      | Some srv \<Rightarrow>
          map_option (\<lambda>(r, srv). (bind_res r to_values, with_live_server srv l))
            (ReadProperty wr env w dev (or_Type obj) (ucast (or_Instance obj)) prop srv))"

type_synonym runs = "nat \<Rightarrow> (Server \<Rightarrow> Server) \<times> wait"

fun read_properties :: "writer \<Rightarrow> runs \<Rightarrow> nat \<Rightarrow> ip \<Rightarrow> ObjectRef \<Rightarrow> u32 list \<Rightarrow> ObjectResult \<Rightarrow> Live \<Rightarrow> (ObjectResult \<times> nat \<times> Live) option" where
  "read_properties wr runs k dev obj [] result l = Some (result, k, l)"
| "read_properties wr runs k dev obj (prop # props) result l =
     (case Live_ReadProperty wr (fst (runs k)) (snd (runs k)) dev obj prop l of
        None \<Rightarrow> None
      | Some (Inl e, l) \<Rightarrow> read_properties wr runs (k + 1) dev obj props (result\<lparr>ores_Errors := AList.update prop e (ores_Errors result)\<rparr>) l
      | Some (Inr vs, l) \<Rightarrow> read_properties wr runs (k + 1) dev obj props (result\<lparr>ores_Values := ores_Values result @ vs\<rparr>) l)"

fun ReadMultiple :: "writer \<Rightarrow> runs \<Rightarrow> nat \<Rightarrow> ip \<Rightarrow> ReadSpec list \<Rightarrow> Live \<Rightarrow> (ObjectResult list \<times> Live) option" where
  "ReadMultiple wr runs k dev [] l = Some ([], l)"
| "ReadMultiple wr runs k dev (spec # specs) l =
     (case read_properties wr runs k dev (rsp_Object spec) (rsp_Properties spec)
             \<lparr>ores_Object = rsp_Object spec, ores_Values = [], ores_Errors = []\<rparr> l of
        None \<Rightarrow> None
      | Some (result, k, l) \<Rightarrow> map_option (\<lambda>(results, l). (result # results, l)) (ReadMultiple wr runs k dev specs l))"

definition wire_value :: "WriteRequest \<Rightarrow> go_value" where
  "wire_value w = (case wq_Value w of
       VString s \<Rightarrow> if wq_Tag w = TagCharacterString then VCharacterString \<lparr>cs_Value = s, cs_Encoding = 0\<rparr> else VString s
     | x \<Rightarrow> x)"

definition Live_Write ::
    "writer \<Rightarrow> (Server \<Rightarrow> Server) \<Rightarrow> wait \<Rightarrow> ip \<Rightarrow> ObjectRef \<Rightarrow> WriteRequest \<Rightarrow> Live \<Rightarrow> (unit result \<times> Live) option" where
  "Live_Write wr env w dev obj req l =
     (if or_Instance obj > maxLegacyInstance then Some (Inl (Err ''object instance %d requires library 22-bit support (pending L2)''), l)
      else case live_server l of
        None \<Rightarrow> Some (Inl errSessionNotStarted, l)
      | Some srv \<Rightarrow>
          map_option (\<lambda>(r, srv). (r, with_live_server srv l))
            (Server_WriteProperty wr env w dev (or_Type obj) (ucast (or_Instance obj)) 85 (wq_Tag req) (wq_Priority req) (wire_value req) srv))"

section \<open>What a session keeps\<close>

definition starting :: "live_call \<Rightarrow> bool" where
  "starting c = (case c of LStarting _ \<Rightarrow> True | LAwaiting _ _ \<Rightarrow> True | LStarted _ _ \<Rightarrow> True | _ \<Rightarrow> False)"

definition works_on :: "live_call \<Rightarrow> nat \<Rightarrow> bool" where
  "works_on c n = (case c of LAwaiting _ m \<Rightarrow> m = n | LFailing m _ \<Rightarrow> m = n | LStarted _ m \<Rightarrow> m = n | LStopping m \<Rightarrow> m = n
     | LClosing m \<Rightarrow> m = n | _ \<Rightarrow> False)"

text \<open>An endpoint somebody still has in hand: it is the session's, or a call works on it.\<close>

definition held :: "Live \<Rightarrow> nat \<Rightarrow> bool" where
  "held v n \<longleftrightarrow> lv_srv v = Some n \<or> (\<exists>t. works_on (lv_calls v t) n)"

text \<open>No two calls of \<^verbatim>\<open>Start\<close> overlap.\<close>

definition one_start :: "Live \<Rightarrow> bool" where
  "one_start v \<longleftrightarrow> (\<forall>t u. starting (lv_calls v t) \<and> starting (lv_calls v u) \<longrightarrow> t = u)"

abbreviation live_run :: "Live \<Rightarrow> Live \<Rightarrow> bool" where
  "live_run \<equiv> (\<lambda>v v'. live_step v v' \<and> one_start v')\<^sup>*\<^sup>*"

definition life_ok :: "Life \<Rightarrow> bool" where
  "life_ok l \<longleftrightarrow> life_inv l \<and> (lf_conn l = None \<longleftrightarrow> UnicastConn (lf_srv l) = None) \<and> rcvErrors (lf_srv l)"

text \<open>The goroutine \<open>i\<close> is in \<^verbatim>\<open>Shutdown\<close>, and has returned from it only when the endpoint is closed.\<close>

definition shutting :: "nat \<Rightarrow> Life \<Rightarrow> bool" where
  "shutting i l \<longleftrightarrow> lf_threads l i = Closing None \<or> lf_threads l i = ClosingConn None \<or> closed (lf_srv l)"

lemma life_ok_step: "life_step l l' \<Longrightarrow> life_ok l \<Longrightarrow> life_ok l'"
  using life_inv_steps [of l l'] conn_step [of l l'] rcvErrors_step [of l l'] by (simp add: life_ok_def r_into_rtranclp)

lemma life_ok_init: "life_ok (life_init (Configure port True tx))"
  using life_inv_init by (simp add: life_ok_def life_init_def Configure_def)

lemma conn_stays: "life_step l l' \<Longrightarrow> UnicastConn (lf_srv l) \<noteq> None \<Longrightarrow> UnicastConn (lf_srv l') \<noteq> None"
  by (induction rule: life_step.induct) (auto simp: life_defs reportError_def split: option.splits if_splits)

lemma closed_stays: "life_step l l' \<Longrightarrow> closed (lf_srv l) \<Longrightarrow> closed (lf_srv l')"
  by (induction rule: life_step.induct) (auto simp: life_defs reportError_def split: option.splits if_splits)

lemma shutting_stays: "life_step l l' \<Longrightarrow> shutting i l \<Longrightarrow> shutting i l'"
  by (induction rule: life_step.induct)
    (auto simp: shutting_def life_defs reportError_def split: option.splits if_splits)

lemma life_ok_view:
  assumes "life_view s = life_view (lf_srv l)" "life_ok l"
  shows "life_ok (set_srv s l)"
proof -
  have e: "closing s = closing (lf_srv l)" "closed s = closed (lf_srv l)" "listening s = listening (lf_srv l)" "started s = started (lf_srv l)"
    "rcvErrors s = rcvErrors (lf_srv l)" "srv_errors s = srv_errors (lf_srv l)" "UnicastConn s = UnicastConn (lf_srv l)"
    using assms(1) by (simp_all add: life_view_def)
  have l: "lf_srv (set_srv s l) = s" "lf_threads (set_srv s l) = lf_threads l" "lf_conn (set_srv s l) = lf_conn l"
    "lf_sockets (set_srv s l) = lf_sockets l" "lf_once (set_srv s l) = lf_once l" by (simp_all add: set_srv_def)
  have st: "settled (set_srv s l) = settled l" by (simp add: settled_def l e)
  have ph: "phase_settled (set_srv s l) p = phase_settled l p" for p unfolding phase_settled_def st l ..
  show ?thesis using assms(2)
    unfolding life_ok_def life_inv_def inv_listener_def inv_close_def inv_sockets_def inv_start_def st l e ph .
qed

definition call_ok :: "Live \<Rightarrow> nat \<Rightarrow> live_call \<Rightarrow> bool" where
  "call_ok v t c = (case c of
       LAwaiting _ n \<Rightarrow> lv_ends v n \<noteq> None
     | LFailing n _ \<Rightarrow> (\<exists>l. lv_ends v n = Some l \<and> shutting (Suc t) l)
     | LStopping n \<Rightarrow> (\<exists>l. lv_ends v n = Some l \<and> shutting (Suc t) l)
     | LStarted _ n \<Rightarrow> (\<exists>l. lv_ends v n = Some l \<and> UnicastConn (lf_srv l) \<noteq> None)
     | LClosing n \<Rightarrow> (\<exists>l. lv_ends v n = Some l \<and> closed (lf_srv l))
     | _ \<Rightarrow> True)"

definition shuts :: "live_call \<Rightarrow> nat \<Rightarrow> bool" where
  "shuts c n = (case c of LFailing m _ \<Rightarrow> m = n | LStopping m \<Rightarrow> m = n | _ \<Rightarrow> False)"

definition live_inv :: "Live \<Rightarrow> bool" where
  "live_inv v \<longleftrightarrow> (\<forall>n l. lv_ends v n = Some l \<longrightarrow> n < lv_next v \<and> life_ok l
        \<and> (\<forall>t. lf_threads l (Suc t) \<noteq> Idle \<longrightarrow> shuts (lv_calls v t) n) \<and> (held v n \<or> closed (lf_srv l)))
     \<and> (\<forall>t. call_ok v t (lv_calls v t) \<and> (starting (lv_calls v t) \<longrightarrow> lv_srv v = None))
     \<and> (\<forall>n. lv_srv v = Some n \<longrightarrow> (\<exists>l. lv_ends v n = Some l \<and> UnicastConn (lf_srv l) \<noteq> None))"

lemma live_inv_init: "live_inv NewLive"
  by (simp add: live_inv_def NewLive_def call_ok_def starting_def)

definition end_ok :: "Live \<Rightarrow> nat \<Rightarrow> Life \<Rightarrow> bool" where
  "end_ok v n l \<longleftrightarrow> n < lv_next v \<and> life_ok l \<and> (\<forall>t. lf_threads l (Suc t) \<noteq> Idle \<longrightarrow> shuts (lv_calls v t) n)
     \<and> (held v n \<or> closed (lf_srv l))"

lemma live_invD:
  assumes "live_inv v"
  shows "lv_ends v n = Some l \<Longrightarrow> end_ok v n l" "call_ok v t (lv_calls v t)" "starting (lv_calls v t) \<Longrightarrow> lv_srv v = None"
    "lv_srv v = Some n \<Longrightarrow> \<exists>l. lv_ends v n = Some l \<and> UnicastConn (lf_srv l) \<noteq> None"
  using assms unfolding live_inv_def end_ok_def by blast+

lemma live_invI:
  assumes "\<And>n l. lv_ends v n = Some l \<Longrightarrow> end_ok v n l" "\<And>t. call_ok v t (lv_calls v t)"
    "\<And>t. starting (lv_calls v t) \<Longrightarrow> lv_srv v = None"
    "\<And>n. lv_srv v = Some n \<Longrightarrow> \<exists>l. lv_ends v n = Some l \<and> UnicastConn (lf_srv l) \<noteq> None"
  shows "live_inv v"
  using assms unfolding live_inv_def end_ok_def by blast

lemma live_sel [simp]:
  "lv_srv (at_call t c v) = lv_srv v" "lv_ends (at_call t c v) = lv_ends v" "lv_next (at_call t c v) = lv_next v"
  "lv_calls (at_call t c v) = (lv_calls v)(t := c)"
  "lv_srv (set_end n l v) = lv_srv v" "lv_ends (set_end n l v) = (lv_ends v)(n \<mapsto> l)" "lv_next (set_end n l v) = lv_next v"
  "lv_calls (set_end n l v) = lv_calls v"
  by (simp_all add: at_call_def set_end_def)

lemma call_ok_mono:
  assumes "call_ok v t c" "\<And>n l. lv_ends v n = Some l \<Longrightarrow> \<exists>l'. lv_ends v' n = Some l' \<and> (shutting (Suc t) l \<longrightarrow> shutting (Suc t) l')
      \<and> (UnicastConn (lf_srv l) \<noteq> None \<longrightarrow> UnicastConn (lf_srv l') \<noteq> None) \<and> (closed (lf_srv l) \<longrightarrow> closed (lf_srv l'))"
  shows "call_ok v' t c"
  using assms(1) unfolding call_ok_def by (cases c; simp) (use assms(2) in \<open>fastforce\<close>)+

text \<open>Steps of an endpoint.\<close>

lemma live_inv_set_end:
  assumes inv: "live_inv v" and n: "lv_ends v n = Some l" and l': "life_ok l'"
    and keep: "UnicastConn (lf_srv l) \<noteq> None \<Longrightarrow> UnicastConn (lf_srv l') \<noteq> None" "closed (lf_srv l) \<Longrightarrow> closed (lf_srv l')"
      "\<And>t. shutting (Suc t) l \<Longrightarrow> shutting (Suc t) l'" "\<And>t. lf_threads l (Suc t) = Idle \<Longrightarrow> lf_threads l' (Suc t) = Idle"
  shows "live_inv (set_end n l' v)"
proof (rule live_invI)
  fix m l2 assume m: "lv_ends (set_end n l' v) m = Some l2"
  have h: "held (set_end n l' v) m = held v m" by (simp add: held_def)
  show "end_ok (set_end n l' v) m l2"
  proof (cases "m = n")
    case True
    with m have "l2 = l'" by simp
    with True h l' keep(2,4) live_invD(1) [OF inv n] show ?thesis by (auto simp: end_ok_def)
  next
    case False
    with m have "end_ok v m l2" by (intro live_invD(1) [OF inv]) simp
    with h show ?thesis by (simp add: end_ok_def)
  qed
next
  fix t show "call_ok (set_end n l' v) t (lv_calls (set_end n l' v) t)"
    unfolding live_sel by (rule call_ok_mono [OF live_invD(2) [OF inv]]) (use n keep in \<open>auto split: if_splits\<close>)
next
  fix m assume "lv_srv (set_end n l' v) = Some m"
  with live_invD(4) [OF inv, of m] n keep(1) show "\<exists>l. lv_ends (set_end n l' v) m = Some l \<and> UnicastConn (lf_srv l) \<noteq> None" by auto
qed (use live_invD(3) [OF inv] in simp)

text \<open>A call goes on, with nothing else changed.\<close>

lemma live_inv_at_call:
  assumes inv: "live_inv v" and ok: "call_ok v t c" and st: "starting c \<Longrightarrow> lv_srv v = None"
    and idle: "\<And>n l. lv_ends v n = Some l \<Longrightarrow> shuts (lv_calls v t) n \<Longrightarrow> shuts c n \<or> lf_threads l (Suc t) = Idle"
    and hold: "\<And>n l. lv_ends v n = Some l \<Longrightarrow> works_on (lv_calls v t) n \<Longrightarrow> works_on c n \<or> lv_srv v = Some n \<or> closed (lf_srv l)"
  shows "live_inv (at_call t c v)"
proof (rule live_invI)
  fix n l assume n: "lv_ends (at_call t c v) n = Some l"
  then have e: "end_ok v n l" using live_invD(1) [OF inv] by simp
  have "held (at_call t c v) n \<or> closed (lf_srv l)"
  proof (cases "closed (lf_srv l)")
    case False
    with e consider "lv_srv v = Some n" | u where "works_on (lv_calls v u) n" by (auto simp: end_ok_def held_def)
    then show ?thesis
    proof cases
      case 2
      then show ?thesis using hold [of n l] n False by (cases "u = t") (auto simp: held_def)
    qed (simp add: held_def)
  qed simp
  with e idle [of n l] n show "end_ok (at_call t c v) n l" by (auto simp: end_ok_def)
next
  fix u show "call_ok (at_call t c v) u (lv_calls (at_call t c v) u)"
    using live_invD(2) [OF inv, of u] ok by (auto simp: call_ok_def split: live_call.splits)
qed (use live_invD(3,4) [OF inv] st in \<open>auto split: if_splits\<close>)

lemma held_mono:
  assumes "held v m" "lv_calls v' = (lv_calls v)(t := c)" "works_on (lv_calls v t) m \<Longrightarrow> held v' m" "lv_srv v = Some m \<Longrightarrow> held v' m"
  shows "held v' m"
proof -
  from assms(1) consider "lv_srv v = Some m" | u where "works_on (lv_calls v u) m" by (auto simp: held_def)
  then show ?thesis
  proof cases
    case (2 u)
    then show ?thesis using assms(2,3) by (cases "u = t") (auto simp: held_def)
  qed (rule assms(4))
qed

text \<open>A call of \<^verbatim>\<open>Shutdown\<close> begins.\<close>

lemma live_inv_shut:
  assumes inv: "live_inv v" and n: "lv_ends v n = Some l" and c: "shuts c n" "\<And>m. shuts c m \<Longrightarrow> m = n"
    and w: "\<And>m. \<not> shuts (lv_calls v t) m" "\<And>m. works_on (lv_calls v t) m \<Longrightarrow> m = n"
    and v': "lv_ends v' = (lv_ends v)(n \<mapsto> goto (Suc t) (Closing None) l)" "lv_calls v' = (lv_calls v)(t := c)" "lv_next v' = lv_next v"
      "lv_srv v' = lv_srv v \<or> lv_srv v = Some n \<and> lv_srv v' = None"
  shows "live_inv v'"
proof -
  let ?l = "goto (Suc t) (Closing None) l"
  have e: "end_ok v n l" by (rule live_invD(1) [OF inv n])
  then have idle: "lf_threads l (Suc t) = Idle" using w(1) by (auto simp: end_ok_def)
  have step: "life_step l ?l" using idle by (rule life_step.shutdown)
  have cw: "works_on c n" "\<not> starting c" using c(1) by (auto simp: shuts_def works_on_def starting_def split: live_call.splits)
  have h: "held v' m" if "held v m" for m
  proof (cases "m = n")
    case True
    then show ?thesis using cw(1) v'(2) by (auto simp: held_def)
  next
    case False
    from that v'(2) show ?thesis by (rule held_mono) (use False v'(4) w(2) in \<open>auto simp: held_def\<close>)
  qed
  show ?thesis
  proof (rule live_invI)
    fix m l2 assume m: "lv_ends v' m = Some l2"
    show "end_ok v' m l2"
    proof (cases "m = n")
      case True
      with m v'(1) have l2: "l2 = ?l" by simp
      have "life_ok ?l" using e life_ok_step [OF step] by (simp add: end_ok_def)
      moreover have "held v' n" using cw(1) v'(2) by (auto simp: held_def)
      ultimately show ?thesis using e True l2 c(1) v'(2,3) by (auto simp: end_ok_def goto_def)
    next
      case False
      with m v'(1) have "end_ok v m l2" by (intro live_invD(1) [OF inv]) simp
      with h v'(2,3) w(1) show ?thesis by (auto simp: end_ok_def)
    qed
  next
    fix u show "call_ok v' u (lv_calls v' u)"
    proof (cases "u = t")
      case True
      have "call_ok v' t c" using c(1) v'(1) by (cases c) (simp_all add: call_ok_def shuts_def shutting_def goto_def)
      with True v'(2) show ?thesis by simp
    next
      case False
      have "call_ok v' u (lv_calls v u)"
        by (rule call_ok_mono [OF live_invD(2) [OF inv]]) (use n v'(1) False in \<open>auto simp: shutting_def goto_def\<close>)
      with False v'(2) show ?thesis by simp
    qed
  next
    fix m assume "lv_srv v' = Some m"
    then have "lv_srv v = Some m" using v'(4) by auto
    from live_invD(4) [OF inv this] show "\<exists>l. lv_ends v' m = Some l \<and> UnicastConn (lf_srv l) \<noteq> None"
      using n v'(1) by (auto simp: goto_def)
  next
    fix u assume "starting (lv_calls v' u)"
    then have "starting (lv_calls v u)" using cw(2) v'(2) by (auto split: if_splits)
    with live_invD(3) [OF inv this] v'(4) show "lv_srv v' = None" by auto
  qed
qed

lemma own_step_idle: "own_step l l' \<Longrightarrow> lf_threads l (Suc t) = Idle \<Longrightarrow> lf_threads l' (Suc t) = Idle"
  by (auto simp: own_step_def)

lemma shutting_returned: "shutting i l \<Longrightarrow> lf_threads l i = Idle \<Longrightarrow> closed (lf_srv l)"
  by (auto simp: shutting_def)

lemma awaited_connection:
  assumes "life_ok l" "awaitStart fired (srv_errors (lf_srv l)) = Inr ()" "fired \<longrightarrow> started (lf_srv l)"
  shows "UnicastConn (lf_srv l) \<noteq> None"
proof -
  have "settled l" "srv_errors (lf_srv l) = []"
    using assms by (auto simp: life_ok_def life_inv_def inv_start_def awaitStart_def split: if_splits list.splits)
  with assms(1) show ?thesis by (auto simp: settled_def life_ok_def)
qed

lemmas call_defs = call_ok_def starting_def shuts_def works_on_def

lemma live_inv_step:
  assumes "live_step v v'" "one_start v" "live_inv v"
  shows "live_inv v'"
  using assms
proof (cases rule: live_step.cases)
  case (start t cfg)
  have "live_inv (at_call t (LStarting cfg) v)" if "lv_srv v = None"
    by (rule live_inv_at_call [OF assms(3)]) (use start that in \<open>simp_all add: call_defs\<close>)
  moreover have "live_inv (at_call t (LReturned (Inl ErrAlreadyStarted)) v)"
    by (rule live_inv_at_call [OF assms(3)]) (use start in \<open>simp_all add: call_defs\<close>)
  ultimately show ?thesis unfolding start(1) Start_check_def by simp
next
  case (new t cfg lookup tx)
  have srv: "lv_srv v = None" using live_invD(3) [OF assms(3), of t] new(2) by (simp add: starting_def)
  show ?thesis
  proof (cases "NewServer lookup tx (Some (live_config cfg))")
    case (Inl e)
    have "live_inv (at_call t (LReturned (Inl e)) v)"
      by (rule live_inv_at_call [OF assms(3)]) (use new in \<open>simp_all add: call_defs\<close>)
    then show ?thesis unfolding new(1) Start_new_def by (simp add: Inl)
  next
    case (Inr p)
    let ?n = "lv_next v" and ?l = "life_init (fst p)"
    have p: "life_ok ?l" "\<And>i. lf_threads ?l i = Idle"
      using Inr life_ok_init by (auto simp: NewServer_def live_config_def config_setters bind_res_eq_Inr) (simp add: life_init_def)
    have v': "v' = (at_call t (LAwaiting cfg ?n) (set_end ?n ?l v))\<lparr>lv_next := ?n + 1\<rparr>"
      unfolding new(1) Start_new_def by (simp add: Inr case_prod_unfold)
    have fresh: "lv_ends v m = Some l \<Longrightarrow> m < ?n" for m l using live_invD(1) [OF assms(3)] by (auto simp: end_ok_def)
    have sh: "held v' m" if "held v m" for m
      by (rule held_mono [OF that]) (use new(2) in \<open>auto simp: v' held_def works_on_def\<close>)
    show ?thesis
    proof (rule live_invI)
      fix m l assume m: "lv_ends v' m = Some l"
      show "end_ok v' m l"
      proof (cases "m = ?n")
        case True
        with m p show ?thesis by (auto simp: end_ok_def held_def works_on_def v')
      next
        case False
        with m have e: "end_ok v m l" by (intro live_invD(1) [OF assms(3)]) (simp add: v')
        have "lf_threads l (Suc t) = Idle" using e new(2) by (auto simp: end_ok_def shuts_def)
        with e sh [of m] show ?thesis by (auto simp: end_ok_def v')
      qed
    next
      fix u
      have "call_ok v' u (lv_calls v u)" by (rule call_ok_mono [OF live_invD(2) [OF assms(3)]]) (use fresh in \<open>fastforce simp: v'\<close>)
      then show "call_ok v' u (lv_calls v' u)" by (auto simp: v' call_ok_def)
    qed (use srv in \<open>simp_all add: v'\<close>)
  qed
next
  case (awaited t cfg n l fired)
  show ?thesis
  proof (cases "awaitStart fired (srv_errors (lf_srv l))")
    case (Inl e)
    show ?thesis
      by (rule live_inv_shut [OF assms(3) awaited(3), of "LFailing n e" t])
        (use awaited(2) in \<open>simp_all add: awaited(1) Start_awaited_def Inl call_defs\<close>)
  next
    case (Inr u)
    have ok: "life_ok l" using live_invD(1) [OF assms(3) awaited(3)] by (simp add: end_ok_def)
    have "live_inv (at_call t (LStarted cfg n) v)"
      by (rule live_inv_at_call [OF assms(3)])
        (use awaited Inr awaited_connection [OF ok] live_invD(3) [OF assms(3), of t] in \<open>auto simp: call_defs\<close>)
    then show ?thesis unfolding awaited(1) Start_awaited_def by (simp add: Inr)
  qed
next
  case (failed t n e l)
  have "shutting (Suc t) l" using live_invD(2) [OF assms(3), of t] failed(2,3) by (auto simp: call_ok_def)
  from shutting_returned [OF this failed(4)] show ?thesis unfolding failed(1)
    by (intro live_inv_at_call [OF assms(3)]) (use failed in \<open>auto simp: call_defs\<close>)
next
  case (install t cfg n)
  have srv: "lv_srv v = None" using live_invD(3) [OF assms(3), of t] install(2) by (simp add: starting_def)
  obtain l where l: "lv_ends v n = Some l" "UnicastConn (lf_srv l) \<noteq> None" using live_invD(2) [OF assms(3), of t] install(2) by (auto simp: call_ok_def)
  have v': "lv_srv v' = Some n" "lv_ends v' = lv_ends v" "lv_next v' = lv_next v" "lv_calls v' = (lv_calls v)(t := LReturned (Inr ()))"
    by (simp_all add: install(1) Start_install_def)
  have h: "held v' m" if "held v m" for m
    by (rule held_mono [OF that v'(4)]) (use srv install(2) v'(1) in \<open>simp_all add: held_def works_on_def\<close>)
  show ?thesis
  proof (rule live_invI)
    fix m l2 assume "lv_ends v' m = Some l2"
    then have e: "end_ok v m l2" using live_invD(1) [OF assms(3)] v'(2) by simp
    then have "lf_threads l2 (Suc t) = Idle" using install(2) by (auto simp: end_ok_def shuts_def)
    with e h [of m] v' show "end_ok v' m l2" by (auto simp: end_ok_def)
  next
    fix u show "call_ok v' u (lv_calls v' u)"
      using live_invD(2) [OF assms(3), of u] v' by (auto simp: call_ok_def split: live_call.splits)
  next
    fix u assume u: "starting (lv_calls v' u)"
    then have "u \<noteq> t" "starting (lv_calls v u)" using v'(4) by (auto simp: starting_def split: if_splits)
    moreover have "starting (lv_calls v t)" using install(2) by (simp add: starting_def)
    ultimately show "lv_srv v' = None" using assms(2) by (auto simp: one_start_def)
  qed (use l v' in auto)
next
  case (stop t)
  show ?thesis
  proof (cases "lv_srv v")
    case None
    have "live_inv (at_call t (LReturned (Inr ())) v)" by (rule live_inv_at_call [OF assms(3)]) (use stop in \<open>simp_all add: call_defs\<close>)
    then show ?thesis unfolding stop(1) Stop_take_def by (simp add: None)
  next
    case (Some n)
    obtain l where l: "lv_ends v n = Some l" using live_invD(4) [OF assms(3) Some] by blast
    show ?thesis
      by (rule live_inv_shut [OF assms(3) l, of "LStopping n" t]) (use stop(2) l Some in \<open>simp_all add: stop(1) Stop_take_def call_defs\<close>)
  qed
next
  case (stopped t n l)
  have "shutting (Suc t) l" using live_invD(2) [OF assms(3), of t] stopped(2,3) by (auto simp: call_ok_def)
  from shutting_returned [OF this stopped(4)] show ?thesis unfolding stopped(1)
    by (intro live_inv_at_call [OF assms(3)]) (use stopped in \<open>auto simp: call_defs\<close>)
next
  case (wait_closed t n l)
  then show ?thesis unfolding wait_closed(1) by (intro live_inv_at_call [OF assms(3)]) (auto simp: call_defs)
next
  case (caller t r)
  then show ?thesis unfolding caller(1) by (intro live_inv_at_call [OF assms(3)]) (auto simp: call_defs)
next
  case (endpoint n l l')
  note s = endpoint(3) [unfolded own_step_def, THEN conjunct1]
  show ?thesis unfolding endpoint(1)
    by (rule live_inv_set_end [OF assms(3) endpoint(2)])
      (use live_invD(1) [OF assms(3) endpoint(2)] life_ok_step [OF s] conn_stays [OF s] closed_stays [OF s] shutting_stays [OF s]
        own_step_idle [OF endpoint(3)] in \<open>auto simp: end_ok_def\<close>)
next
  case (work n l s)
  show ?thesis unfolding work(1)
    by (rule live_inv_set_end [OF assms(3) work(2)])
      (use live_invD(1) [OF assms(3) work(2)] life_ok_view [OF work(3)] work(3) in \<open>auto simp: end_ok_def life_view_def shutting_def set_srv_def\<close>)
qed

lemma live_inv_run: "live_run NewLive v \<Longrightarrow> live_inv v"
proof -
  have "live_run NewLive v \<Longrightarrow> live_inv v \<and> one_start v"
  proof (induction rule: rtranclp_induct)
    case base
    show ?case using live_inv_init by (simp add: one_start_def NewLive_def starting_def)
  qed (use live_inv_step in blast)
  then show "live_run NewLive v \<Longrightarrow> live_inv v" by blast
qed

section \<open>Without an endpoint\<close>

text \<open>Every property of a reading of several is answered with an error, and no datagram is sent.\<close>

lemma live_server_None: "lv_srv v = None \<Longrightarrow> live_server v = None"
  by (simp add: live_server_def)

lemma read_refused: "live_server v = None \<Longrightarrow> \<exists>e. Live_ReadProperty wr env w dev obj prop v = Some (Inl e, v)"
  by (simp add: Live_ReadProperty_def)

lemma read_properties_refused:
  assumes "live_server v = None"
  shows "\<exists>es. read_properties wr runs k dev obj props result v = Some (result\<lparr>ores_Errors := es\<rparr>, k + length props, v)
    \<and> fst ` set es = fst ` set (ores_Errors result) \<union> set props"
proof (induction props arbitrary: k result)
  case Nil
  have "result\<lparr>ores_Errors := ores_Errors result\<rparr> = result" by simp
  then show ?case by (intro exI [of _ "ores_Errors result"]) simp
next
  case (Cons p ps)
  obtain e where e: "Live_ReadProperty wr (fst (runs k)) (snd (runs k)) dev obj p v = Some (Inl e, v)"
    using read_refused [OF assms] by blast
  have keys: "fst ` set (AList.update p e (ores_Errors result)) = insert p (fst ` set (ores_Errors result))"
    unfolding dom_map_of_conv_image_fst [symmetric] by (simp add: update_conv')
  from Cons.IH [of "k + 1" "result\<lparr>ores_Errors := AList.update p e (ores_Errors result)\<rparr>"] e keys show ?case by auto
qed

lemma ReadMultiple_refused:
  assumes "live_server v = None"
  shows "\<exists>rs. ReadMultiple wr runs k dev specs v = Some (rs, v)
    \<and> list_all2 (\<lambda>spec r. ores_Object r = rsp_Object spec \<and> ores_Values r = [] \<and> fst ` set (ores_Errors r) = set (rsp_Properties spec)) specs rs"
proof (induction specs arbitrary: k)
  case (Cons spec specs)
  obtain es where e: "read_properties wr runs k dev (rsp_Object spec) (rsp_Properties spec) \<lparr>ores_Object = rsp_Object spec, ores_Values = [], ores_Errors = []\<rparr> v
      = Some (\<lparr>ores_Object = rsp_Object spec, ores_Values = [], ores_Errors = es\<rparr>, k + length (rsp_Properties spec), v)" "fst ` set es = set (rsp_Properties spec)"
    using read_properties_refused [OF assms, of wr runs k dev "rsp_Object spec" "rsp_Properties spec" "\<lparr>ores_Object = rsp_Object spec, ores_Values = [], ores_Errors = []\<rparr>"]
    by auto
  from Cons.IH [of "k + length (rsp_Properties spec)"] e show ?case by auto
qed simp

section \<open>A session from start to stop\<close>

text \<open>
  C28: The session of the application, whatever the interleaving of any number of \<^verbatim>\<open>Start\<close> and \<^verbatim>\<open>Stop\<close> calls with the goroutines of the
  endpoints, as long as no two calls of \<^verbatim>\<open>Start\<close> overlap.  While the session has an endpoint, that one has its connection, so that \<^verbatim>\<open>Send\<close> does not
  refuse it, and another \<^verbatim>\<open>Start\<close> is refused.  An endpoint that is neither the session's nor in the hands of a call, because its start failed or
  because it was stopped, is closed, and holds no socket unless its \<^verbatim>\<open>Listen\<close> is between binding one and closing it again; and the \<^verbatim>\<open>Stop\<close> that
  waits for it finds it closed.  Without an endpoint, discovery, reads and writes are refused, a reading of several
  properties has an error for every one of them, and the session does not change.
\<close>

theorem session_lifecycle:
  assumes "live_run NewLive v"
  shows "(\<forall>n. lv_srv v = Some n \<longrightarrow> (\<exists>l. lv_ends v n = Some l \<and> UnicastConn (lf_srv l) \<noteq> None)
        \<and> (\<forall>t cfg. Start_check t cfg v = at_call t (LReturned (Inl ErrAlreadyStarted)) v))
    \<and> (\<forall>n l. lv_ends v n = Some l \<and> \<not> held v n \<longrightarrow> closed (lf_srv l) \<and> ((\<forall>i c. lf_threads l i \<noteq> Bound c) \<longrightarrow> lf_sockets l = {}))
    \<and> (\<forall>t n l. lv_calls v t = LClosing n \<and> lv_ends v n = Some l \<longrightarrow> closed (lf_srv l))
    \<and> (lv_srv v = None \<longrightarrow> Live_Discover wr v = (Inl errSessionNotStarted, v)
        \<and> (or_Instance obj \<le> maxLegacyInstance \<longrightarrow>
             Live_ReadProperty wr env w dev obj prop v = Some (Inl errSessionNotStarted, v)
             \<and> Live_Write wr env w dev obj req v = Some (Inl errSessionNotStarted, v))
        \<and> (\<exists>rs. ReadMultiple wr runs k dev specs v = Some (rs, v)
             \<and> list_all2 (\<lambda>spec r. ores_Object r = rsp_Object spec \<and> ores_Values r = [] \<and> fst ` set (ores_Errors r) = set (rsp_Properties spec)) specs rs))"
proof (intro conjI)
  note inv = live_inv_run [OF assms]
  show "\<forall>n. lv_srv v = Some n \<longrightarrow> (\<exists>l. lv_ends v n = Some l \<and> UnicastConn (lf_srv l) \<noteq> None)
      \<and> (\<forall>t cfg. Start_check t cfg v = at_call t (LReturned (Inl ErrAlreadyStarted)) v)"
    using live_invD(4) [OF inv] by (auto simp: Start_check_def)
  show "\<forall>n l. lv_ends v n = Some l \<and> \<not> held v n \<longrightarrow> closed (lf_srv l) \<and> ((\<forall>i c. lf_threads l i \<noteq> Bound c) \<longrightarrow> lf_sockets l = {})"
  proof (intro allI impI)
    fix n l assume a: "lv_ends v n = Some l \<and> \<not> held v n"
    then have "end_ok v n l" using live_invD(1) [OF inv] by blast
    with a show "closed (lf_srv l) \<and> ((\<forall>i c. lf_threads l i \<noteq> Bound c) \<longrightarrow> lf_sockets l = {})"
      by (auto simp: end_ok_def life_ok_def life_inv_def inv_sockets_def)
  qed
  show "\<forall>t n l. lv_calls v t = LClosing n \<and> lv_ends v n = Some l \<longrightarrow> closed (lf_srv l)"
  proof (intro allI impI)
    fix t n l assume "lv_calls v t = LClosing n \<and> lv_ends v n = Some l"
    with live_invD(2) [OF inv, of t] show "closed (lf_srv l)" by (simp add: call_ok_def)
  qed
  show "lv_srv v = None \<longrightarrow> Live_Discover wr v = (Inl errSessionNotStarted, v)
        \<and> (or_Instance obj \<le> maxLegacyInstance \<longrightarrow>
             Live_ReadProperty wr env w dev obj prop v = Some (Inl errSessionNotStarted, v)
             \<and> Live_Write wr env w dev obj req v = Some (Inl errSessionNotStarted, v))
        \<and> (\<exists>rs. ReadMultiple wr runs k dev specs v = Some (rs, v)
             \<and> list_all2 (\<lambda>spec r. ores_Object r = rsp_Object spec \<and> ores_Values r = [] \<and> fst ` set (ores_Errors r) = set (rsp_Properties spec)) specs rs)"
    using ReadMultiple_refused [OF live_server_None]
    by (auto simp: Live_Discover_def Live_ReadProperty_def Live_Write_def live_server_None)
qed

text \<open>An endpoint whose \<^verbatim>\<open>Listen\<close> succeeds.\<close>

definition demo_life :: "Server \<Rightarrow> Life" where
  "demo_life s = (let l = do_install 0 47808 \<lparr>ua_IP = Some [0, 0, 0, 0], ua_Port = 47808\<rparr> \<lparr>ua_IP = Some [255, 255, 255, 255], ua_Port = 47808\<rparr> 0
       (do_bind 0 (do_call 0 (life_init s)))
     in goto 0 Waiting (set_srv (markStarted (lf_srv l)) l))"

lemma demo_life_reached:
  assumes "\<not> closing s" "\<not> listening s"
  shows "own_step\<^sup>*\<^sup>* (life_init s) (demo_life s)"
proof -
  let ?l1 = "do_call 0 (life_init s)" let ?l2 = "do_bind 0 ?l1"
  let ?l3 = "do_install 0 47808 \<lparr>ua_IP = Some [0, 0, 0, 0], ua_Port = 47808\<rparr> \<lparr>ua_IP = Some [255, 255, 255, 255], ua_Port = 47808\<rparr> 0 ?l2"
  have "life_step (life_init s) ?l1" by (rule life_step.call) (simp add: life_init_def)
  then have "own_step (life_init s) ?l1" using assms by (auto simp: own_step_def life_init_def life_defs)
  moreover have "life_step ?l1 ?l2" by (rule life_step.bind) (simp add: do_call_def life_init_def reserveListener_def goto_def assms)
  then have "own_step ?l1 ?l2" using assms by (auto simp: own_step_def life_init_def life_defs)
  moreover have "life_step ?l2 ?l3"
    by (rule life_step.install) (simp add: do_bind_def do_call_def life_init_def reserveListener_def goto_def set_srv_def assms)
  then have "own_step ?l2 ?l3" using assms by (auto simp: own_step_def life_init_def life_defs)
  moreover have "life_step ?l3 (demo_life s)" unfolding demo_life_def Let_def
    by (rule life_step.start) (simp add: life_defs life_init_def assms)
  then have "own_step ?l3 (demo_life s)" using assms by (auto simp: own_step_def demo_life_def life_init_def life_defs Let_def)
  ultimately show ?thesis by (meson converse_rtranclp_into_rtranclp rtranclp.rtrancl_refl)
qed

lemma own_steps_run:
  assumes "own_step\<^sup>*\<^sup>* l l'" "lv_ends v n = Some l" "\<And>m. Q (set_end n m v)"
  shows "(\<lambda>v v'. live_step v v' \<and> Q v')\<^sup>*\<^sup>* v (set_end n l' v)"
  using assms(1)
proof (induction rule: rtranclp_induct)
  case base
  have "set_end n l v = v" using assms(2) by (simp add: set_end_def map_upd_triv)
  then show ?case by simp
next
  case (step l1 l2)
  have "live_step (set_end n l1 v) (set_end n l2 (set_end n l1 v))" by (rule live_step.endpoint [OF _ step(2)]) simp
  moreover have "set_end n l2 (set_end n l1 v) = set_end n l2 v" by (simp add: set_end_def)
  ultimately have "live_step (set_end n l1 v) (set_end n l2 v) \<and> Q (set_end n l2 v)" using assms(3) by simp
  with step.IH show ?case by (rule rtranclp.rtrancl_into_rtrancl)
qed

abbreviation demo_config :: Config where "demo_config \<equiv> ConfigFromSettings [] 47808"

abbreviation demo_server :: Server where "demo_server \<equiv> Configure 47808 True TxState_init"

lemma demo_NewServer: "\<exists>ns. NewServer (\<lambda>_. Inr []) TxState_init (Some (live_config demo_config)) = Inr (demo_server, ns)"
  by (simp add: NewServer_def live_config_def config_setters getNetworkSet_def ConfigFromSettings_def)

lemma demo_life_started:
  "awaitStart True (srv_errors (lf_srv (demo_life demo_server))) = Inr ()" "started (lf_srv (demo_life demo_server))"
  "\<not> closed (lf_srv (demo_life demo_server))" "lf_sockets (demo_life demo_server) = {0}"
  by (simp_all add: awaitStart_def demo_life_def life_defs life_init_def Configure_def Let_def)

text \<open>From its check to its end a call of \<^verbatim>\<open>Start\<close> of its own, with the endpoint of the number \<open>n\<close>.\<close>

lemma demo_new: "Start_new (\<lambda>_. Inr []) TxState_init t demo_config v
   = (at_call t (LAwaiting demo_config (lv_next v)) (set_end (lv_next v) (life_init demo_server) v))\<lparr>lv_next := lv_next v + 1\<rparr>"
  using demo_NewServer by (auto simp: Start_new_def)

lemma demo_awaited: "Start_awaited True t demo_config n (demo_life demo_server) v = at_call t (LStarted demo_config n) v"
  by (simp add: Start_awaited_def demo_life_started)

lemma live_run_step: "live_run u v \<Longrightarrow> live_step v v' \<Longrightarrow> one_start v' \<Longrightarrow> live_run u v'"
  by (erule rtranclp.rtrancl_into_rtrancl) simp

lemma one_start_alone: "(\<And>u. u \<noteq> t \<Longrightarrow> lv_calls v u = LIdle) \<Longrightarrow> one_start v"
proof -
  assume a: "\<And>u. u \<noteq> t \<Longrightarrow> lv_calls v u = LIdle"
  have "u = t" if "starting (lv_calls v u)" for u using a [of u] that by (cases "u = t") (simp_all add: starting_def)
  then show ?thesis by (auto simp: one_start_def)
qed

lemma demo_endpoint_runs:
  assumes "lv_ends v n = Some (life_init demo_server)"
  shows "live_step\<^sup>*\<^sup>* v (set_end n (demo_life demo_server) v)" "one_start v \<Longrightarrow> live_run v (set_end n (demo_life demo_server) v)"
proof -
  have reached: "own_step\<^sup>*\<^sup>* (life_init demo_server) (demo_life demo_server)" by (rule demo_life_reached) (simp_all add: Configure_def)
  show "live_step\<^sup>*\<^sup>* v (set_end n (demo_life demo_server) v)" using own_steps_run [OF reached assms, of "\<lambda>_. True"] by simp
  show "one_start v \<Longrightarrow> live_run v (set_end n (demo_life demo_server) v)"
    by (rule own_steps_run [OF reached assms]) (simp add: one_start_def)
qed

theorem session_lifecycle_witness:
  "\<exists>v l. live_run NewLive v \<and> lv_calls v 0 = LReturned (Inr ()) \<and> lv_srv v = Some 0 \<and> lv_ends v 0 = Some l \<and> UnicastConn (lf_srv l) \<noteq> None"
proof -
  let ?c = demo_config let ?v1 = "Start_check 0 ?c NewLive" let ?v2 = "Start_new (\<lambda>_. Inr []) TxState_init 0 ?c ?v1"
  let ?v3 = "set_end 0 (demo_life demo_server) ?v2" let ?v4 = "Start_awaited True 0 ?c 0 (demo_life demo_server) ?v3" let ?v5 = "Start_install 0 ?c 0 ?v4"
  note d = Start_check_def demo_new demo_awaited Start_install_def NewLive_def
  have alone: "one_start ?v1" "one_start ?v2" "one_start ?v4" "one_start ?v5" by (rule one_start_alone [of 0]; simp add: d)+
  have "live_step NewLive ?v1" by (rule live_step.start) (simp add: NewLive_def)
  note r1 = live_run_step [OF rtranclp.rtrancl_refl this alone(1)]
  have "live_step ?v1 ?v2" by (rule live_step.new) (simp add: d)
  note r2 = live_run_step [OF r1 this alone(2)]
  have "live_run ?v2 ?v3" by (rule demo_endpoint_runs(2)) (simp add: d, rule alone(2))
  with r2 have r3: "live_run NewLive ?v3" by (rule rtranclp_trans)
  have "live_step ?v3 ?v4" by (rule live_step.awaited) (simp_all add: d demo_life_started)
  note r4 = live_run_step [OF r3 this alone(3)]
  have "live_step ?v4 ?v5" by (rule live_step.install) (simp add: d)
  note r5 = live_run_step [OF r4 this alone(4)]
  have "lv_calls ?v5 0 = LReturned (Inr ())" "lv_srv ?v5 = Some 0" by (simp_all add: d)
  with r5 conjunct1 [OF session_lifecycle [OF r5], rule_format, of 0] show ?thesis by blast
qed

section \<open>Overlapping starts\<close>

text \<open>
  The check and the assignment are two critical sections: two calls of \<^verbatim>\<open>Start\<close> that overlap both succeed, and the endpoint of the first
  is neither the session's nor in anybody's hands, and its socket stays open.
\<close>

lemma overlapping_starts_leak:
  "\<exists>v l. live_step\<^sup>*\<^sup>* NewLive v \<and> lv_calls v 0 = LReturned (Inr ()) \<and> lv_calls v 1 = LReturned (Inr ())
     \<and> lv_ends v 0 = Some l \<and> \<not> held v 0 \<and> \<not> closed (lf_srv l) \<and> lf_sockets l = {0}"
proof -
  let ?c = demo_config and ?l = "demo_life demo_server" and ?new = "Start_new (\<lambda>_. Inr []) TxState_init"
  let ?v1 = "Start_check 0 ?c NewLive" let ?v2 = "Start_check 1 ?c ?v1" let ?v3 = "?new 0 ?c ?v2" let ?v4 = "?new 1 ?c ?v3"
  let ?v5 = "set_end 0 ?l ?v4" let ?v6 = "set_end 1 ?l ?v5"
  let ?v7 = "Start_awaited True 0 ?c 0 ?l ?v6" let ?v8 = "Start_awaited True 1 ?c 1 ?l ?v7"
  let ?v9 = "Start_install 0 ?c 0 ?v8" let ?v10 = "Start_install 1 ?c 1 ?v9"
  note d = Start_check_def demo_new demo_awaited Start_install_def NewLive_def
  have "live_step NewLive ?v1" by (rule live_step.start) (simp add: NewLive_def)
  moreover have "live_step ?v1 ?v2" by (rule live_step.start) (simp add: d)
  moreover have "live_step ?v2 ?v3" by (rule live_step.new) (simp add: d)
  moreover have "live_step ?v3 ?v4" by (rule live_step.new) (simp add: d)
  ultimately have a: "live_step\<^sup>*\<^sup>* NewLive ?v4" by (meson converse_rtranclp_into_rtranclp rtranclp.rtrancl_refl)
  have b: "live_step\<^sup>*\<^sup>* ?v4 ?v5" by (rule demo_endpoint_runs(1)) (simp add: d)
  have c: "live_step\<^sup>*\<^sup>* ?v5 ?v6" by (rule demo_endpoint_runs(1)) (simp add: d)
  have "live_step ?v6 ?v7" by (rule live_step.awaited) (simp_all add: d demo_life_started)
  moreover have "live_step ?v7 ?v8" by (rule live_step.awaited) (simp_all add: d demo_life_started)
  moreover have "live_step ?v8 ?v9" by (rule live_step.install) (simp add: d)
  moreover have "live_step ?v9 ?v10" by (rule live_step.install) (simp add: d)
  ultimately have e: "live_step\<^sup>*\<^sup>* ?v6 ?v10" by (meson converse_rtranclp_into_rtranclp rtranclp.rtrancl_refl)
  have "live_step\<^sup>*\<^sup>* NewLive ?v10" using a b c e by (meson rtranclp_trans)
  moreover have "lv_calls ?v10 0 = LReturned (Inr ())" "lv_calls ?v10 1 = LReturned (Inr ())" "lv_ends ?v10 0 = Some ?l" "\<not> held ?v10 0"
    by (simp_all add: d held_def works_on_def)
  ultimately show ?thesis using demo_life_started(3,4) by blast
qed

end
