(* ===== verification/Gui_Store.thy ===== *)
theory Gui_Store
  imports Gui_Session Sim_Subscriptions
begin

text \<open>
  The caches of the graphical application, \<^verbatim>\<open>gui/internal/store\<close>: the table of discovered devices, the objects and
  properties of a device, and the listeners both notify.  A mutex makes every operation one step.  A callback is a value
  of any type; an operation returns the callbacks it calls, after its change.  A map is an association list with
  distinct keys.
\<close>

section \<open>Listeners\<close>

record 'f listenerSet =
  ls_listeners :: "(nat \<times> 'f) list"
  ls_nextID :: nat

definition newListenerSet :: "'f listenerSet" where
  "newListenerSet = \<lparr>ls_listeners = [], ls_nextID = 0\<rparr>"

text \<open>The function that \<^verbatim>\<open>add\<close> returns is \<open>remove\<close> of the identifier.\<close>

definition add :: "'f \<Rightarrow> 'f listenerSet \<Rightarrow> nat \<times> 'f listenerSet" where
  "add fn l = (ls_nextID l, l\<lparr>ls_listeners := AList.update (ls_nextID l) fn (ls_listeners l), ls_nextID := ls_nextID l + 1\<rparr>)"

definition remove :: "nat \<Rightarrow> 'f listenerSet \<Rightarrow> 'f listenerSet" where
  "remove i l = l\<lparr>ls_listeners := AList.delete i (ls_listeners l)\<rparr>"

definition notify :: "'f listenerSet \<Rightarrow> 'f list" where
  "notify l = map snd (ls_listeners l)"

section \<open>Devices\<close>

datatype DeviceKey = DeviceKey (dk_Instance: u32) (dk_IP: string)

text \<open>The order of \<^verbatim>\<open>Snapshot\<close>: by instance, then by address.\<close>

definition row_less :: "DeviceKey \<Rightarrow> DeviceKey \<Rightarrow> bool" where
  "row_less a b = (if dk_Instance a \<noteq> dk_Instance b then dk_Instance a < dk_Instance b else dk_IP a < dk_IP b)"

instantiation DeviceKey :: linorder
begin

definition less_DeviceKey :: "DeviceKey \<Rightarrow> DeviceKey \<Rightarrow> bool" where
  "less_DeviceKey a b = row_less a b"

definition less_eq_DeviceKey :: "DeviceKey \<Rightarrow> DeviceKey \<Rightarrow> bool" where
  "less_eq_DeviceKey a b \<longleftrightarrow> a = b \<or> row_less a b"

instance
proof
  fix a b c :: DeviceKey
  have irrefl: "\<not> row_less a a" for a by (simp add: row_less_def)
  have trans: "row_less a b \<Longrightarrow> row_less b c \<Longrightarrow> row_less a c" for a b c
    by (auto simp: row_less_def split: if_splits)
  have total: "a = b \<or> row_less a b \<or> row_less b a" for a b
    by (cases a; cases b) (auto simp: row_less_def neq_iff)
  show "(a < b) = (a \<le> b \<and> \<not> b \<le> a)" "a \<le> a" "a \<le> b \<Longrightarrow> b \<le> c \<Longrightarrow> a \<le> c"
    "a \<le> b \<Longrightarrow> b \<le> a \<Longrightarrow> a = b" "a \<le> b \<or> b \<le> a"
    using irrefl trans total unfolding less_DeviceKey_def less_eq_DeviceKey_def by blast+
qed

end

record DeviceRow =
  row_Key :: DeviceKey
  row_Port :: u16
  row_VendorID :: u32
  row_MaxApdu :: u32
  row_Segmentation :: u8
  row_Source :: string
  row_Name :: string
  row_LastSeen :: time

record ('c, 'f) DeviceStore =
  sto_rows :: "(DeviceKey \<times> DeviceRow) list"
  sto_listeners :: "'f listenerSet"
  sto_clock :: 'c

definition NewDeviceStore :: "'c \<Rightarrow> ('c, 'f) DeviceStore" where
  "NewDeviceStore c = \<lparr>sto_rows = [], sto_listeners = newListenerSet, sto_clock = c\<rparr>"

definition merge_row :: "DeviceRow option \<Rightarrow> DeviceRow \<Rightarrow> DeviceRow" where
  "merge_row existing row = (case existing of
       None \<Rightarrow> row
     | Some old \<Rightarrow>
         (let row = (if row_Source old = ''simulated'' \<and> row_Source row = ''network'' then row\<lparr>row_Source := ''simulated''\<rparr> else row)
          in if row_Name row = [] \<and> row_Name old \<noteq> [] then row\<lparr>row_Name := row_Name old\<rparr> else row))"

text \<open>\<open>Now\<close> is the injected clock, or \<^verbatim>\<open>time.Now\<close>.\<close>

definition Upsert :: "('c \<Rightarrow> time \<times> 'c) \<Rightarrow> DeviceRow \<Rightarrow> ('c, 'f) DeviceStore \<Rightarrow> 'f list \<times> ('c, 'f) DeviceStore" where
  "Upsert Now row s =
     (let row = merge_row (map_of (sto_rows s) (row_Key row)) row;
          (t, c) = Now (sto_clock s);
          row = row\<lparr>row_LastSeen := t\<rparr>
      in (notify (sto_listeners s), s\<lparr>sto_rows := AList.update (row_Key row) row (sto_rows s), sto_clock := c\<rparr>))"

definition Remove :: "DeviceKey \<Rightarrow> ('c, 'f) DeviceStore \<Rightarrow> 'f list \<times> ('c, 'f) DeviceStore" where
  "Remove key s = (notify (sto_listeners s), s\<lparr>sto_rows := AList.delete key (sto_rows s)\<rparr>)"

definition Clear :: "('c, 'f) DeviceStore \<Rightarrow> 'f list \<times> ('c, 'f) DeviceStore" where
  "Clear s = (notify (sto_listeners s), s\<lparr>sto_rows := []\<rparr>)"

definition Snapshot :: "('c, 'f) DeviceStore \<Rightarrow> DeviceRow list" where
  "Snapshot s = sort_key row_Key (map snd (sto_rows s))"

definition Len :: "('c, 'f) DeviceStore \<Rightarrow> nat" where
  "Len s = length (sto_rows s)"

definition AddListener :: "'f \<Rightarrow> ('c, 'f) DeviceStore \<Rightarrow> nat \<times> ('c, 'f) DeviceStore" where
  "AddListener fn s = (let (i, l) = add fn (sto_listeners s) in (i, s\<lparr>sto_listeners := l\<rparr>))"

definition RemoveListener :: "nat \<Rightarrow> ('c, 'f) DeviceStore \<Rightarrow> ('c, 'f) DeviceStore" where
  "RemoveListener i s = s\<lparr>sto_listeners := remove i (sto_listeners s)\<rparr>"

section \<open>Objects and properties\<close>

record ObjectEntry =
  oe_Type :: u16
  oe_Instance :: u32
  oe_Name :: string

record PropertyEntry =
  pe_ID :: u32
  pe_Values :: "Value list"
  pe_Err :: string

type_synonym objectKey = "DeviceKey \<times> u16 \<times> u32"

record 'f ObjectCache =
  oc_objects :: "DeviceKey \<rightharpoonup> ObjectEntry list"
  oc_properties :: "objectKey \<rightharpoonup> PropertyEntry list"
  oc_listeners :: "'f listenerSet"

definition NewObjectCache :: "'f ObjectCache" where
  "NewObjectCache = \<lparr>oc_objects = Map.empty, oc_properties = Map.empty, oc_listeners = newListenerSet\<rparr>"

definition SetObjects :: "DeviceKey \<Rightarrow> ObjectEntry list \<Rightarrow> 'f ObjectCache \<Rightarrow> 'f list \<times> 'f ObjectCache" where
  "SetObjects key entries c = (notify (oc_listeners c), c\<lparr>oc_objects := (oc_objects c)(key \<mapsto> entries)\<rparr>)"

definition Objects :: "DeviceKey \<Rightarrow> 'f ObjectCache \<Rightarrow> ObjectEntry list option" where
  "Objects key c = oc_objects c key"

definition object_key_of :: "DeviceKey \<Rightarrow> ObjectRef \<Rightarrow> objectKey" where
  "object_key_of key obj = (key, or_Type obj, or_Instance obj)"

definition SetProperties :: "DeviceKey \<Rightarrow> ObjectRef \<Rightarrow> PropertyEntry list \<Rightarrow> 'f ObjectCache \<Rightarrow> 'f list \<times> 'f ObjectCache" where
  "SetProperties key obj props c =
     (notify (oc_listeners c), c\<lparr>oc_properties := (oc_properties c)(object_key_of key obj \<mapsto> props)\<rparr>)"

definition Properties :: "DeviceKey \<Rightarrow> ObjectRef \<Rightarrow> 'f ObjectCache \<Rightarrow> PropertyEntry list option" where
  "Properties key obj c = oc_properties c (object_key_of key obj)"

definition Cache_AddListener :: "'f \<Rightarrow> 'f ObjectCache \<Rightarrow> nat \<times> 'f ObjectCache" where
  "Cache_AddListener fn c = (let (i, l) = add fn (oc_listeners c) in (i, c\<lparr>oc_listeners := l\<rparr>))"

definition Cache_RemoveListener :: "nat \<Rightarrow> 'f ObjectCache \<Rightarrow> 'f ObjectCache" where
  "Cache_RemoveListener i c = c\<lparr>oc_listeners := remove i (oc_listeners c)\<rparr>"

section \<open>The device table is a map\<close>

datatype 'f store_op = DoUpsert DeviceRow | DoRemove DeviceKey | DoClear | DoListen 'f | DoUnlisten nat

definition run_store :: "('c \<Rightarrow> time \<times> 'c) \<Rightarrow> 'f store_op \<Rightarrow> ('c, 'f) DeviceStore \<Rightarrow> 'f list \<times> ('c, 'f) DeviceStore" where
  "run_store Now op s = (case op of
       DoUpsert row \<Rightarrow> Upsert Now row s
     | DoRemove key \<Rightarrow> Remove key s
     | DoClear \<Rightarrow> Clear s
     | DoListen fn \<Rightarrow> ([], snd (AddListener fn s))
     | DoUnlisten i \<Rightarrow> ([], RemoveListener i s))"

definition store_after :: "('c \<Rightarrow> time \<times> 'c) \<Rightarrow> 'f store_op list \<Rightarrow> ('c, 'f) DeviceStore \<Rightarrow> ('c, 'f) DeviceStore" where
  "store_after Now ops s = fold (\<lambda>op s. snd (run_store Now op s)) ops s"

text \<open>
  The specification, at the time \<open>t\<close> the clock shows.  A sighting replaces every field of the row, but a simulated device
  seen on the network stays simulated, and a row without a name keeps the name it had.
\<close>

definition sighted :: "time \<Rightarrow> DeviceRow option \<Rightarrow> DeviceRow \<Rightarrow> DeviceRow" where
  "sighted t old row = \<lparr>row_Key = row_Key row, row_Port = row_Port row, row_VendorID = row_VendorID row, row_MaxApdu = row_MaxApdu row,
     row_Segmentation = row_Segmentation row,
     row_Source = (if map_option row_Source old = Some ''simulated'' \<and> row_Source row = ''network'' then ''simulated'' else row_Source row),
     row_Name = (case old of Some prev \<Rightarrow> if row_Name row = [] then row_Name prev else row_Name row | None \<Rightarrow> row_Name row),
     row_LastSeen = t\<rparr>"

definition abstract_op :: "time \<Rightarrow> 'f store_op \<Rightarrow> (DeviceKey \<rightharpoonup> DeviceRow) \<Rightarrow> DeviceKey \<rightharpoonup> DeviceRow" where
  "abstract_op t op m = (case op of
       DoUpsert row \<Rightarrow> m(row_Key row \<mapsto> sighted t (m (row_Key row)) row)
     | DoRemove key \<Rightarrow> m(key := None)
     | DoClear \<Rightarrow> Map.empty
     | _ \<Rightarrow> m)"

text \<open>The registered callbacks by their identifier, and what an operation calls.\<close>

abbreviation listener_at :: "('c, 'f) DeviceStore \<Rightarrow> nat \<rightharpoonup> 'f" where
  "listener_at s \<equiv> map_of (ls_listeners (sto_listeners s))"

definition abstract_listeners :: "nat \<Rightarrow> 'f store_op \<Rightarrow> (nat \<rightharpoonup> 'f) \<Rightarrow> nat \<rightharpoonup> 'f" where
  "abstract_listeners n op m = (case op of DoListen fn \<Rightarrow> m(n \<mapsto> fn) | DoUnlisten i \<Rightarrow> m(i := None) | _ \<Rightarrow> m)"

definition changes_rows :: "'f store_op \<Rightarrow> bool" where
  "changes_rows op = (case op of DoUpsert _ \<Rightarrow> True | DoRemove _ \<Rightarrow> True | DoClear \<Rightarrow> True | _ \<Rightarrow> False)"

abbreviation row_at :: "('c, 'f) DeviceStore \<Rightarrow> DeviceKey \<rightharpoonup> DeviceRow" where
  "row_at s \<equiv> map_of (sto_rows s)"

definition store_inv :: "('c, 'f) DeviceStore \<Rightarrow> bool" where
  "store_inv s \<longleftrightarrow> distinct (map fst (sto_rows s)) \<and> (\<forall>k r. row_at s k = Some r \<longrightarrow> row_Key r = k)
     \<and> distinct (map fst (ls_listeners (sto_listeners s))) \<and> (\<forall>i \<in> fst ` set (ls_listeners (sto_listeners s)). i < ls_nextID (sto_listeners s))"

lemma merge_row_key [simp]: "row_Key (merge_row old row) = row_Key row"
  by (simp add: merge_row_def Let_def split: option.splits)

lemma merge_row_sighted: "(merge_row old row)\<lparr>row_LastSeen := t\<rparr> = sighted t old row"
  by (cases row) (auto simp: merge_row_def sighted_def Let_def split: option.splits)

lemma run_store_refines: "row_at (snd (run_store Now op s)) = abstract_op (fst (Now (sto_clock s))) op (row_at s)"
  by (cases op) (auto simp: merge_row_sighted run_store_def abstract_op_def Upsert_def Remove_def Clear_def AddListener_def RemoveListener_def add_def remove_def
      Let_def update_conv' delete_conv' split: prod.splits)

lemma abstract_key:
  "(\<And>k r. m k = Some r \<Longrightarrow> row_Key r = k) \<Longrightarrow> abstract_op t op m k = Some r \<Longrightarrow> row_Key r = k"
  by (cases op) (auto simp: abstract_op_def sighted_def split: if_splits)

lemma run_store_listeners:
  "listener_at (snd (run_store Now op s)) = abstract_listeners (ls_nextID (sto_listeners s)) op (listener_at s)"
  "fst (run_store Now op s) = (if changes_rows op then map snd (ls_listeners (sto_listeners s)) else [])"
  by (cases op; auto simp: run_store_def abstract_listeners_def changes_rows_def notify_def Upsert_def Remove_def Clear_def AddListener_def
      RemoveListener_def add_def remove_def Let_def update_conv' delete_conv' split: prod.splits)+

lemma listeners_after:
  assumes "distinct (map fst (ls_listeners l))" "\<forall>i \<in> fst ` set (ls_listeners l). i < ls_nextID l"
  shows "distinct (map fst (ls_listeners (snd (add fn l))))" "\<forall>i \<in> fst ` set (ls_listeners (snd (add fn l))). i < ls_nextID (snd (add fn l))"
    "distinct (map fst (ls_listeners (remove j l)))" "\<forall>i \<in> fst ` set (ls_listeners (remove j l)). i < ls_nextID (remove j l)"
proof -
  have "fst ` set (AList.update (ls_nextID l) fn (ls_listeners l)) = insert (ls_nextID l) (fst ` set (ls_listeners l))"
    unfolding dom_map_of_conv_image_fst [symmetric] by (simp add: update_conv')
  then show "\<forall>i \<in> fst ` set (ls_listeners (snd (add fn l))). i < ls_nextID (snd (add fn l))" using assms(2) by (auto simp: add_def)
  show "distinct (map fst (ls_listeners (snd (add fn l))))" "distinct (map fst (ls_listeners (remove j l)))"
    using assms(1) by (simp_all add: add_def remove_def distinct_update distinct_delete)
  show "\<forall>i \<in> fst ` set (ls_listeners (remove j l)). i < ls_nextID (remove j l)"
    using assms(2) by (auto simp: remove_def AList.delete_eq)
qed

lemma store_inv_step: "store_inv s \<Longrightarrow> store_inv (snd (run_store Now op s))"
proof -
  assume i: "store_inv s"
  have keys: "row_Key r = k" if "row_at s k = Some r" for k r using i that unfolding store_inv_def by blast
  have "row_Key r = k" if "row_at (snd (run_store Now op s)) k = Some r" for k r
    using keys that [unfolded run_store_refines] by (rule abstract_key)
  moreover have "distinct (map fst (sto_rows (snd (run_store Now op s))))"
    using i by (cases op) (auto simp: store_inv_def run_store_def Upsert_def Remove_def Clear_def AddListener_def RemoveListener_def
        distinct_update distinct_delete Let_def split: prod.splits)
  moreover have "sto_listeners (snd (run_store Now op s)) = (case op of DoListen fn \<Rightarrow> snd (add fn (sto_listeners s))
      | DoUnlisten j \<Rightarrow> remove j (sto_listeners s) | _ \<Rightarrow> sto_listeners s)"
    by (cases op) (auto simp: run_store_def Upsert_def Remove_def Clear_def AddListener_def RemoveListener_def Let_def split: prod.splits)
  moreover note listeners_after [of "sto_listeners s"]
  ultimately show ?thesis using i unfolding store_inv_def by (cases op) auto
qed

lemma store_inv_after: "store_inv s \<Longrightarrow> store_inv (store_after Now ops s)"
  by (induction ops arbitrary: s) (simp_all add: store_after_def store_inv_step)

lemma store_inv_init: "store_inv (NewDeviceStore c)"
  by (simp add: store_inv_def NewDeviceStore_def newListenerSet_def)

lemma Snapshot_rows:
  assumes "store_inv s"
  shows "r \<in> set (Snapshot s) \<longleftrightarrow> row_at s (row_Key r) = Some r" "sorted_wrt (<) (map row_Key (Snapshot s))" "length (Snapshot s) = Len s"
proof -
  have k: "row_Key r = k" if "(k, r) \<in> set (sto_rows s)" for k r using assms that by (simp add: store_inv_def)
  have "r \<in> set (Snapshot s) \<longleftrightarrow> (\<exists>k. (k, r) \<in> set (sto_rows s))" by (force simp: Snapshot_def)
  also have "\<dots> \<longleftrightarrow> row_at s (row_Key r) = Some r" using k assms by (auto simp: store_inv_def)
  finally show "r \<in> set (Snapshot s) \<longleftrightarrow> row_at s (row_Key r) = Some r" .
  have "map row_Key (map snd (sto_rows s)) = map fst (sto_rows s)" using k by auto
  then have "distinct (map row_Key (map snd (sto_rows s)))" using assms by (simp only: store_inv_def)
  then have "distinct (map row_Key (Snapshot s))" by (metis Snapshot_def distinct_map distinct_sort set_sort)
  moreover have "sorted (map row_Key (Snapshot s))" by (simp add: Snapshot_def)
  ultimately show "sorted_wrt (<) (map row_Key (Snapshot s))" by (simp add: strict_sorted_iff)
  show "length (Snapshot s) = Len s" by (simp add: Snapshot_def Len_def)
qed

text \<open>
  C33: Over any sequence of operations the device table is a map from keys to rows.  A sighting writes the incoming row
  with the time of the clock, except that a simulated device seen on the network stays simulated and that a name is not
  replaced by an empty one; a removal takes out its key and no other; clearing leaves the empty map.  \<^verbatim>\<open>Snapshot\<close> lists
  exactly the rows of the map, each once, by ascending instance and, within an instance, ascending address, and
  \<^verbatim>\<open>Len\<close> is their number.  Each of these changes calls every registered listener once; a listener is registered under an
  identifier that is not in use, until that one is removed.
\<close>

theorem device_store_refines:
  "let s = store_after Now ops (NewDeviceStore c) in
    row_at (snd (run_store Now op s)) = abstract_op (fst (Now (sto_clock s))) op (row_at s)
    \<and> set (Snapshot s) = ran (row_at s) \<and> length (Snapshot s) = card (dom (row_at s)) \<and> Len s = card (dom (row_at s))
    \<and> sorted_wrt (\<lambda>a b. dk_Instance a < dk_Instance b \<or> dk_Instance a = dk_Instance b \<and> dk_IP a < dk_IP b) (map row_Key (Snapshot s))
    \<and> listener_at (snd (run_store Now op s)) = abstract_listeners (ls_nextID (sto_listeners s)) op (listener_at s)
    \<and> listener_at s (ls_nextID (sto_listeners s)) = None
    \<and> (if changes_rows op then set (fst (run_store Now op s)) = ran (listener_at s)
         \<and> length (fst (run_store Now op s)) = card (dom (listener_at s))
       else fst (run_store Now op s) = [])"
proof -
  define s where "s = store_after Now ops (NewDeviceStore c)"
  have i: "store_inv s" unfolding s_def by (rule store_inv_after [OF store_inv_init])
  have "set (Snapshot s) = ran (row_at s)"
  proof (rule set_eqI)
    fix r show "r \<in> set (Snapshot s) \<longleftrightarrow> r \<in> ran (row_at s)"
      unfolding Snapshot_rows(1) [OF i] using i by (auto simp: ran_def store_inv_def)
  qed
  moreover have "Len s = card (dom (row_at s))" "length (ls_listeners (sto_listeners s)) = card (dom (listener_at s))"
    using i distinct_card [of "map fst (sto_rows s)"] distinct_card [of "map fst (ls_listeners (sto_listeners s))"]
    by (simp_all add: Len_def store_inv_def dom_map_of_conv_image_fst)
  moreover have "set (map snd (ls_listeners (sto_listeners s))) = ran (listener_at s)"
    using i ran_distinct [of "ls_listeners (sto_listeners s)"] by (simp add: store_inv_def)
  moreover have "listener_at s (ls_nextID (sto_listeners s)) = None"
    using i by (auto simp: store_inv_def map_of_eq_None_iff)
  moreover have "sorted_wrt (\<lambda>a b. dk_Instance a < dk_Instance b \<or> dk_Instance a = dk_Instance b \<and> dk_IP a < dk_IP b) (map row_Key (Snapshot s))"
    by (rule sorted_wrt_mono_rel [OF _ Snapshot_rows(2) [OF i]]) (auto simp: less_DeviceKey_def row_less_def split: if_splits)
  ultimately show ?thesis unfolding s_def [symmetric]
    using run_store_refines [of Now op s] run_store_listeners [of Now op s] Snapshot_rows(3) [OF i] by (simp add: Let_def)
qed

section \<open>Simulated devices stay marked\<close>

text \<open>Operations that do not take the row of \<open>k\<close> out of the table: sightings on the network or by the simulator, and anything elsewhere.\<close>

definition keeps_row :: "DeviceKey \<Rightarrow> 'f store_op \<Rightarrow> bool" where
  "keeps_row k op = (case op of
       DoUpsert row \<Rightarrow> row_Key row = k \<longrightarrow> row_Source row = ''network'' \<or> row_Source row = ''simulated''
     | DoRemove key \<Rightarrow> key \<noteq> k | DoClear \<Rightarrow> False | _ \<Rightarrow> True)"

lemma simulated_step:
  assumes "row_at s k = Some r" "row_Source r = ''simulated''" "keeps_row k op"
  shows "\<exists>r'. row_at (snd (run_store Now op s)) k = Some r' \<and> row_Source r' = ''simulated'' \<and> (row_Name r \<noteq> [] \<longrightarrow> row_Name r' \<noteq> [])"
  unfolding run_store_refines using assms
  by (cases op) (auto simp: abstract_op_def keeps_row_def sighted_def split: if_splits)

text \<open>
  A device of the simulator stays marked as simulated, and keeps a name once it has one, however often it is seen again,
  on the network or by the simulator, until its row is removed.
\<close>

theorem simulated_stays:
  assumes "row_at s k = Some r" "row_Source r = ''simulated''" "list_all (keeps_row k) ops"
  shows "\<exists>r'. row_at (store_after Now ops s) k = Some r' \<and> row_Source r' = ''simulated'' \<and> (row_Name r \<noteq> [] \<longrightarrow> row_Name r' \<noteq> [])"
  using assms
proof (induction ops arbitrary: s r)
  case (Cons op ops)
  then obtain r1 where r1: "row_at (snd (run_store Now op s)) k = Some r1" "row_Source r1 = ''simulated''" "row_Name r \<noteq> [] \<longrightarrow> row_Name r1 \<noteq> []"
    using simulated_step [of s k r op Now] by auto
  from Cons.IH [OF r1(1,2)] Cons.prems(3) r1(3) show ?case by (auto simp: store_after_def)
qed (simp add: store_after_def)

definition demo_row :: DeviceRow where
  "demo_row = \<lparr>row_Key = DeviceKey 7 ''127.0.0.2'', row_Port = 47809, row_VendorID = 0, row_MaxApdu = 1476, row_Segmentation = 3,
     row_Source = ''simulated'', row_Name = ''chiller'', row_LastSeen = 0\<rparr>"

definition demo_ops :: "nat store_op list" where
  "demo_ops = [DoListen 0, DoUpsert (demo_row\<lparr>row_Source := ''network'', row_Name := []\<rparr>), DoRemove (DeviceKey 8 [])]"

theorem simulated_stays_witness:
  "\<exists>r. row_at (store_after ManualClock_Now demo_ops (snd (Upsert ManualClock_Now demo_row (NewDeviceStore (NewManualClock 5))))) (DeviceKey 7 ''127.0.0.2'') = Some r
     \<and> row_Source r = ''simulated'' \<and> row_Name r \<noteq> []"
proof -
  let ?s = "snd (Upsert ManualClock_Now demo_row (NewDeviceStore (NewManualClock 5)))"
  have s: "row_at ?s (DeviceKey 7 ''127.0.0.2'') = Some (demo_row\<lparr>row_LastSeen := 5\<rparr>)"
    by (simp add: Upsert_def NewDeviceStore_def demo_row_def merge_row_def ManualClock_Now_def NewManualClock_def Let_def)
  have n: "row_Source (demo_row\<lparr>row_LastSeen := 5\<rparr>) = ''simulated''" by (simp add: demo_row_def)
  have k: "list_all (keeps_row (DeviceKey 7 ''127.0.0.2'')) demo_ops" by (simp add: demo_ops_def keeps_row_def)
  from simulated_stays [OF s n k, of ManualClock_Now] show ?thesis by (auto simp: demo_row_def)
qed

end
