(* ===== verification/Sim_Program.thy ===== *)
theory Sim_Program
  imports Gui_Document Net_Parse Udp Sim_System
begin

text \<open>
  The simulator program, \<^verbatim>\<open>cmd/gobac-sim/main.go\<close>: it loads a scenario, checks that its devices can have sockets of
  their own, and serves every device on its socket and the broadcasts of every port on one more.  The operating system is an
  argument: files, interfaces, sockets, and the datagrams that arrive.  The workers take datagrams one at a time; an
  interleaving is the sequence in which sockets deliver them.
\<close>

section \<open>Endpoints\<close>

text \<open>The host's interfaces by name, each with its addresses; both lookups can fail.\<close>

type_synonym interfaces = "bytes \<Rightarrow> net_addr list result result"

fun first_v4 :: "net_addr list \<Rightarrow> bytes option" where
  "first_v4 [] = None"
| "first_v4 (address # addresses) = (case addr_v4 address of Some ipv4 \<Rightarrow> Some ipv4 | None \<Rightarrow> first_v4 addresses)"

definition resolveIPv4 :: "interfaces \<Rightarrow> bytes \<Rightarrow> bytes result" where
  "resolveIPv4 interfaces a =
     (if a = [] then Inr (v4_prefix @ [0, 0, 0, 0])
      else case ParseIP a of
        Some ip \<Rightarrow> (case IP_To4 ip of Some ipv4 \<Rightarrow> Inr ipv4 | None \<Rightarrow> Inl (Err ''%q is not an IPv4 address''))
      | None \<Rightarrow>
          bind_res (wrap_error ''find interface %q: %v'' (interfaces a)) (\<lambda>addrs.
          bind_res (wrap_error ''list addresses for interface %q: %v'' addrs) (\<lambda>addresses.
            case first_v4 addresses of
              Some ipv4 \<Rightarrow> Inr ipv4
            | None \<Rightarrow> Inl (Err ''interface %q has no IPv4 address''))))"

definition deviceEndpoint :: "interfaces \<Rightarrow> Scenario \<Rightarrow> SimDevice \<Rightarrow> Endpoint result" where
  "deviceEndpoint interfaces s device =
     (let a = TrimSpace (sd_Address device);
          a = (if a = [] then TrimSpace (nc_Interface (sc_Network s)) else a)
      in bind_res (resolveIPv4 interfaces a) (\<lambda>ip. Inr (NewEndpoint ip (sd_Port device))))"

definition isWildcardIPv4 :: "bytes \<Rightarrow> bool" where
  "isWildcardIPv4 ip = (case IP_To4 ip of
       None \<Rightarrow> False
     | Some v \<Rightarrow> v ! 0 = 0 \<and> v ! 1 = 0 \<and> v ! 2 = 0 \<and> v ! 3 = 0)"

section \<open>The check of the endpoints\<close>

record Resolved =
  re_endpoints :: "string \<rightharpoonup> u32"
  re_wildcards :: "u16 \<rightharpoonup> u32"
  re_concrete :: "u16 \<rightharpoonup> u32"
  re_modeAddresses :: "string \<rightharpoonup> u32"
  re_modePorts :: "u16 \<rightharpoonup> u32"

definition nothing_resolved :: Resolved where
  "nothing_resolved = \<lparr>re_endpoints = Map.empty, re_wildcards = Map.empty, re_concrete = Map.empty,
     re_modeAddresses = Map.empty, re_modePorts = Map.empty\<rparr>"

definition check_overlap :: "bytes \<Rightarrow> u32 \<Rightarrow> Endpoint \<Rightarrow> Resolved \<Rightarrow> Resolved result" where
  "check_overlap mode i ep m =
     (if isWildcardIPv4 (ep_IP ep) then
        (if mode = ascii ''multi-ip'' then Inl (Err ''device %d must use a concrete IPv4 address in multi-ip mode'')
         else if re_concrete m (ep_Port ep) \<noteq> None then Inl (Err ''wildcard device %d overlaps device %d on port %d'')
         else Inr (m\<lparr>re_wildcards := (re_wildcards m)(ep_Port ep \<mapsto> i)\<rparr>))
      else if re_wildcards m (ep_Port ep) \<noteq> None then Inl (Err ''device %d overlaps wildcard device %d on port %d'')
      else Inr (m\<lparr>re_concrete := (re_concrete m)(ep_Port ep \<mapsto> i)\<rparr>))"

definition check_address :: "bytes \<Rightarrow> u32 \<Rightarrow> Endpoint \<Rightarrow> Resolved \<Rightarrow> Resolved result" where
  "check_address mode i ep m =
     (if mode = ascii ''multi-ip'' then
        (let address = IP_String (ep_IP ep) in
         if re_modeAddresses m address \<noteq> None then Inl (Err ''devices %d and %d share address %s in multi-ip mode'')
         else Inr (m\<lparr>re_modeAddresses := (re_modeAddresses m)(address \<mapsto> i)\<rparr>))
      else Inr m)"

definition check_port :: "bytes \<Rightarrow> u32 \<Rightarrow> Endpoint \<Rightarrow> Resolved \<Rightarrow> Resolved result" where
  "check_port mode i ep m =
     (if mode = ascii ''multi-port'' then
        (if re_modePorts m (ep_Port ep) \<noteq> None then Inl (Err ''devices %d and %d share port %d in multi-port mode'')
         else Inr (m\<lparr>re_modePorts := (re_modePorts m)(ep_Port ep \<mapsto> i)\<rparr>))
      else Inr m)"

definition check_endpoint :: "bytes \<Rightarrow> u32 \<Rightarrow> Endpoint \<Rightarrow> Resolved \<Rightarrow> Resolved result" where
  "check_endpoint mode i ep m =
     (let key = Endpoint_String ep in
      if re_endpoints m key \<noteq> None then Inl (Err ''devices %d and %d resolve to the same endpoint %s'')
      else bind_res (check_overlap mode i ep m) (\<lambda>m.
           bind_res (check_address mode i ep m) (\<lambda>m.
           bind_res (check_port mode i ep m) (\<lambda>m.
             Inr (m\<lparr>re_endpoints := (re_endpoints m)(key \<mapsto> i)\<rparr>)))))"

text \<open>The device of a specification and its ep, with the two texts its errors are given.\<close>

definition device_of :: "string \<Rightarrow> interfaces \<Rightarrow> Scenario \<Rightarrow> SimNetwork \<Rightarrow> DeviceSpec \<Rightarrow> (SimDevice \<times> Endpoint) result" where
  "device_of text interfaces s n spec =
     bind_res (wrap_error ''device %d: %v'' (Network_Device n (ds_ID spec))) (\<lambda>device.
     bind_res (wrap_error text (deviceEndpoint interfaces s device)) (\<lambda>ep. Inr (device, ep)))"

fun check_endpoints :: "interfaces \<Rightarrow> Scenario \<Rightarrow> SimNetwork \<Rightarrow> DeviceSpec list \<Rightarrow> Resolved \<Rightarrow> unit result" where
  "check_endpoints interfaces s n [] m = Inr ()"
| "check_endpoints interfaces s n (spec # specs) m =
     bind_res (device_of ''device %d endpoint: %v'' interfaces s n spec) (\<lambda>(device, ep).
     bind_res (check_endpoint (nc_Mode (sc_Network s)) (sd_ID device) ep m) (\<lambda>m.
       check_endpoints interfaces s n specs m))"

definition validateResolvedEndpoints :: "interfaces \<Rightarrow> Scenario \<Rightarrow> SimNetwork \<Rightarrow> unit result" where
  "validateResolvedEndpoints interfaces s n = check_endpoints interfaces s n (sc_Devices s) nothing_resolved"

definition loadScenario :: "codecs \<Rightarrow> interfaces \<Rightarrow> bool \<Rightarrow> bytes \<Rightarrow> files \<Rightarrow> (Scenario \<times> SimNetwork) result" where
  "loadScenario c interfaces readable path fs =
     bind_res (wrap_error ''open scenario: %v'' (ReadFile readable path fs)) (\<lambda>data.
     bind_res (wrap_error ''decode scenario: %v'' (Decode c data (formatForPath path))) (\<lambda>s.
     bind_res (wrap_error ''build scenario: %v'' (BuildNetwork s)) (\<lambda>n.
     bind_res (validateResolvedEndpoints interfaces s n) (\<lambda>_. Inr (s, n)))))"

section \<open>Sockets\<close>

record 'c runningDevice =
  rd_id :: u32
  rd_app :: "'c Application"
  rd_conn :: nat
  rd_local :: Endpoint

record broadcastListener =
  bl_conn :: nat
  bl_local :: Endpoint
  bl_deviceIndexes :: "nat list"
  bl_wildcardDevice :: int

definition closeDevices :: "'c runningDevice list \<Rightarrow> Host \<Rightarrow> Host" where
  "closeDevices devs h = fold UDPConn_Close (map rd_conn devs) h"

definition closeBroadcastListeners :: "broadcastListener list \<Rightarrow> Host \<Rightarrow> Host" where
  "closeBroadcastListeners ls h = fold UDPConn_Close (map bl_conn ls) h"

fun open_devices :: "interfaces \<Rightarrow> listener \<Rightarrow> 'c \<Rightarrow> Scenario \<Rightarrow> SimNetwork \<Rightarrow> DeviceSpec list \<Rightarrow> 'c runningDevice list \<Rightarrow> Host
    \<Rightarrow> 'c runningDevice list result \<times> Host" where
  "open_devices interfaces listen clk s n [] running h = (Inr running, h)"
| "open_devices interfaces listen clk s n (spec # specs) running h =
     (case device_of ''device %d: %v'' interfaces s n spec of
        Inl e \<Rightarrow> (Inl e, closeDevices running h)
      | Inr (device, ep) \<Rightarrow>
          (case ListenUDP listen ep h of
             (Inl e, h) \<Rightarrow> (wrap_error ''listen for device %d on %s: %v'' (Inl e), closeDevices running h)
           | (Inr (conn, local), h) \<Rightarrow>
               open_devices interfaces listen clk s n specs
                 (running @ [\<lparr>rd_id = sd_ID device, rd_app = NewApplication device clk, rd_conn = conn, rd_local = local\<rparr>]) h))"

definition indexes_on :: "'c runningDevice list \<Rightarrow> nat \<Rightarrow> nat list" where
  "indexes_on devs port = filter (\<lambda>i. unat (ep_Port (rd_local (devs ! i))) = port) [0..<length devs]"

definition used_ports :: "'c runningDevice list \<Rightarrow> nat list" where
  "used_ports devs = sort (remdups (map (\<lambda>d. unat (ep_Port (rd_local d))) devs))"

definition wildcard_index :: "'c runningDevice list \<Rightarrow> nat list \<Rightarrow> int" where
  "wildcard_index devs indexes =
     foldl (\<lambda>w i. if isWildcardIPv4 (ep_IP (rd_local (devs ! i))) then int i else w) (- 1) indexes"

definition has_concrete :: "'c runningDevice list \<Rightarrow> nat list \<Rightarrow> bool" where
  "has_concrete devs indexes = list_ex (\<lambda>i. \<not> isWildcardIPv4 (ep_IP (rd_local (devs ! i)))) indexes"

fun start_listeners :: "listener \<Rightarrow> 'c runningDevice list \<Rightarrow> nat list \<Rightarrow> broadcastListener list \<Rightarrow> Host \<Rightarrow> broadcastListener list result \<times> Host" where
  "start_listeners listen devs [] ls h = (Inr ls, h)"
| "start_listeners listen devs (port # ports) ls h =
     (let indexes = indexes_on devs port; wildcard = wildcard_index devs indexes in
      if \<not> has_concrete devs indexes then start_listeners listen devs ports ls h
      else if wildcard \<ge> 0 then
        start_listeners listen devs ports
          (ls @ [\<lparr>bl_conn = rd_conn (devs ! nat wildcard), bl_local = rd_local (devs ! nat wildcard),
                   bl_deviceIndexes = indexes, bl_wildcardDevice = wildcard\<rparr>]) h
      else (case ListenUDP listen (NewEndpoint (v4_prefix @ [0, 0, 0, 0]) (word_of_nat port)) h of
          (Inl e, h) \<Rightarrow> (wrap_error ''listen for broadcasts on port %d: %v'' (Inl e), closeBroadcastListeners ls h)
        | (Inr (conn, local), h) \<Rightarrow>
            start_listeners listen devs ports
              (ls @ [\<lparr>bl_conn = conn, bl_local = local, bl_deviceIndexes = indexes, bl_wildcardDevice = wildcard\<rparr>]) h))"

definition startBroadcastListeners :: "listener \<Rightarrow> 'c runningDevice list \<Rightarrow> Host \<Rightarrow> broadcastListener list result \<times> Host" where
  "startBroadcastListeners listen devs h = start_listeners listen devs (used_ports devs) [] h"

definition direct_devices :: "'c runningDevice list \<Rightarrow> broadcastListener list \<Rightarrow> bool list" where
  "direct_devices running broadcasts =
     fold (\<lambda>l direct. if bl_wildcardDevice l \<ge> 0 then direct[nat (bl_wildcardDevice l) := False] else direct) broadcasts
       (replicate (length running) True)"

section \<open>Serving\<close>

definition isOriginalBroadcast :: "Datagram \<Rightarrow> bool" where
  "isOriginalBroadcast d =
     (case ParseRequest (dg_Payload d) (Some (ep_IP (dg_Source d), ep_Port (dg_Source d))) of
        Inl _ \<Rightarrow> False
      | Inr packet \<Rightarrow> h_Function (r_Header packet) = BvlcFunctionOriginalBroadcastNpdu)"

text \<open>The state while it serves: the devices, and the world that \<^verbatim>\<open>Write\<close> of a socket changes.\<close>

record ('c, 'w) Program =
  pg_running :: "'c runningDevice list"
  pg_world :: 'w

definition serve_on :: "'c Now \<Rightarrow> (nat \<Rightarrow> 'w conn_writer) \<Rightarrow> Datagram \<Rightarrow> nat \<Rightarrow> ('c, 'w) Program \<Rightarrow> ('c, 'w) Program" where
  "serve_on now wr d i p =
     (let device = pg_running p ! i;
          (r, world, app) = ServeDatagram (Register now Map.empty) (wr (rd_conn device)) d (pg_world p) (rd_app device)
      in p\<lparr>pg_running := (pg_running p)[i := device\<lparr>rd_app := app\<rparr>], pg_world := world\<rparr>)"

text \<open>One turn of each loop, on a datagram that was read.\<close>

definition serveDevice :: "'c Now \<Rightarrow> (nat \<Rightarrow> 'w conn_writer) \<Rightarrow> nat \<Rightarrow> Datagram \<Rightarrow> ('c, 'w) Program \<Rightarrow> ('c, 'w) Program" where
  "serveDevice now wr i d p =
     (let ignoreBroadcast = \<not> isWildcardIPv4 (ep_IP (rd_local (pg_running p ! i))) in
      if ignoreBroadcast \<and> isOriginalBroadcast d then p else serve_on now wr d i p)"

definition serveBroadcasts :: "'c Now \<Rightarrow> (nat \<Rightarrow> 'w conn_writer) \<Rightarrow> broadcastListener \<Rightarrow> Datagram \<Rightarrow> ('c, 'w) Program \<Rightarrow> ('c, 'w) Program" where
  "serveBroadcasts now wr l d p =
     (if isOriginalBroadcast d then
        fold (\<lambda>i p. serve_on now wr (d\<lparr>dg_Destination := rd_local (pg_running p ! i)\<rparr>) i p) (bl_deviceIndexes l) p
      else if bl_wildcardDevice l \<ge> 0 then serve_on now wr d (nat (bl_wildcardDevice l)) p
      else p)"

text \<open>
  A datagram at a socket goes to the worker that reads the socket: the device's own, unless the broadcast listener
  of the port reads it.
\<close>

definition arrive :: "'c Now \<Rightarrow> (nat \<Rightarrow> 'w conn_writer) \<Rightarrow> broadcastListener list \<Rightarrow> bytes \<Rightarrow> Endpoint \<Rightarrow> nat \<Rightarrow> ('c, 'w) Program \<Rightarrow> ('c, 'w) Program" where
  "arrive now wr broadcasts payload source k p =
     (case find (\<lambda>i. direct_devices (pg_running p) broadcasts ! i \<and> rd_conn (pg_running p ! i) = k) [0..<length (pg_running p)] of
        Some i \<Rightarrow> serveDevice now wr i \<lparr>dg_Payload = payload, dg_Source = source, dg_Destination = rd_local (pg_running p ! i)\<rparr> p
      | None \<Rightarrow>
          (case find (\<lambda>l. bl_conn l = k) broadcasts of
             Some l \<Rightarrow> serveBroadcasts now wr l \<lparr>dg_Payload = payload, dg_Source = source, dg_Destination = bl_local l\<rparr> p
           | None \<Rightarrow> p))"

section \<open>The program\<close>

definition serve_start :: "interfaces \<Rightarrow> listener \<Rightarrow> 'c \<Rightarrow> Scenario \<Rightarrow> SimNetwork \<Rightarrow> Host \<Rightarrow> ('c runningDevice list \<times> broadcastListener list) result \<times> Host" where
  "serve_start interfaces listen clk s n h =
     (case open_devices interfaces listen clk s n (sc_Devices s) [] h of
        (Inl e, h) \<Rightarrow> (Inl e, h)
      | (Inr running, h) \<Rightarrow>
          (case startBroadcastListeners listen running h of
             (Inl e, h) \<Rightarrow> (Inl e, closeDevices running h)
           | (Inr broadcasts, h) \<Rightarrow> (Inr (running, broadcasts), h)))"

record serveResult =
  sv_id :: u32
  sv_broadcast :: bool
  sv_err :: go_error

text \<open>
  Serving ends when the context does, or with the first worker that stops (\<open>first\<close>); \<open>ended\<close> tells whether the context
  has ended once the other workers have stopped.
\<close>

definition serve :: "interfaces \<Rightarrow> listener \<Rightarrow> 'c \<Rightarrow> 'c Now \<Rightarrow> (nat \<Rightarrow> 'w conn_writer) \<Rightarrow> Scenario \<Rightarrow> SimNetwork
    \<Rightarrow> (nat \<times> bytes \<times> Endpoint) list \<Rightarrow> serveResult option \<Rightarrow> bool \<Rightarrow> 'w \<Rightarrow> Host \<Rightarrow> unit result \<times> ('c, 'w) Program option \<times> Host" where
  "serve interfaces listen clk now wr s n events first ended world h =
     (case serve_start interfaces listen clk s n h of
        (Inl e, h) \<Rightarrow> (Inl e, None, h)
      | (Inr (running, broadcasts), h) \<Rightarrow>
          (let p = fold (\<lambda>(k, payload, source). arrive now wr broadcasts payload source k) events \<lparr>pg_running = running, pg_world = world\<rparr>;
               h = closeBroadcastListeners broadcasts (closeDevices running h)
           in (case first of
                 None \<Rightarrow> Inr ()
               | Some r \<Rightarrow>
                   if ended then Inr ()
                   else if sv_broadcast r then Inl (Err ''broadcast listener stopped: %v'') else Inl (Err ''device %d stopped: %v''),
               Some p, h)))"

section \<open>The command line\<close>

text \<open>
  The lines a command prints, by their format and its arguments; the lines of \<^verbatim>\<open>serve\<close> that name the sockets are not
  part of the model.
\<close>

datatype line =
    Text string
  | Valid nat bytes
  | Mode bytes
  | Devices nat
  | Device_at u32 bytes string
  | Object_with ObjectID bytes nat

definition object_order :: "ObjectID \<Rightarrow> nat" where
  "object_order i = unat (id_Type i) * 2 ^ 32 + unat (id_Instance i)"

definition inspect_objects :: "SimDevice \<Rightarrow> line list" where
  "inspect_objects device =
     map (\<lambda>(i, obj). Object_with i (so_Name obj) (length (so_Properties obj))) (sort_key (object_order \<circ> fst) (sd_Objects device))"

fun inspect_devices :: "interfaces \<Rightarrow> Scenario \<Rightarrow> SimNetwork \<Rightarrow> nat list \<Rightarrow> line list \<Rightarrow> unit result \<times> line list" where
  "inspect_devices interfaces s n [] out = (Inr (), out)"
| "inspect_devices interfaces s n (rawID # rawIDs) out =
     (case Network_Device n (word_of_nat rawID) of
        Inl e \<Rightarrow> (Inl e, out)
      | Inr device \<Rightarrow>
          (case wrap_error ''device %d: %v'' (deviceEndpoint interfaces s device) of
             Inl e \<Rightarrow> (Inl e, out)
           | Inr ep \<Rightarrow>
               inspect_devices interfaces s n rawIDs
                 (out @ Device_at (sd_ID device) (sd_Name device) (Endpoint_String ep) # inspect_objects device)))"

definition inspectScenario :: "interfaces \<Rightarrow> Scenario \<Rightarrow> SimNetwork \<Rightarrow> unit result \<times> line list" where
  "inspectScenario interfaces s n =
     inspect_devices interfaces s n (sort (map (unat \<circ> fst) n)) [Mode (nc_Mode (sc_Network s)), Devices (length n)]"

text \<open>The result of a command: its exit code, what it prints, and what it prints to the error stream.\<close>

record outcome =
  oc_code :: int
  oc_stdout :: "line list"
  oc_stderr :: "string list"

definition fails :: "go_error \<Rightarrow> line list \<Rightarrow> outcome" where
  "fails e out = \<lparr>oc_code = 1, oc_stdout = out, oc_stderr = [''gobac-sim: %v'']\<rparr>"

definition runCLI :: "codecs \<Rightarrow> interfaces \<Rightarrow> bool \<Rightarrow> files \<Rightarrow> (Scenario \<Rightarrow> SimNetwork \<Rightarrow> unit result) \<Rightarrow> bytes list \<Rightarrow> outcome" where
  "runCLI c interfaces readable fs serving args =
     (if args = [ascii ''--version''] then \<lparr>oc_code = 0, oc_stdout = [Text ''gobac-sim %s''], oc_stderr = []\<rparr>
      else if args \<in> set (map (\<lambda>a. [ascii a]) [''help'', ''--help'', ''-h'']) then \<lparr>oc_code = 0, oc_stdout = [Text ''usage''], oc_stderr = []\<rparr>
      else case args of
        [command, path] \<Rightarrow>
          if command \<notin> set (map ascii [''run'', ''validate'', ''inspect''])
          then \<lparr>oc_code = 2, oc_stdout = [], oc_stderr = [''gobac-sim: unknown command %q'', ''usage'']\<rparr>
          else (case loadScenario c interfaces readable path fs of
              Inl e \<Rightarrow> fails e []
            | Inr (s, n) \<Rightarrow>
                if command = ascii ''validate''
                then \<lparr>oc_code = 0, oc_stdout = [Valid (length n) (nc_Mode (sc_Network s))], oc_stderr = []\<rparr>
                else if command = ascii ''inspect''
                then (case inspectScenario interfaces s n of
                    (Inl e, out) \<Rightarrow> fails e out
                  | (Inr _, out) \<Rightarrow> \<lparr>oc_code = 0, oc_stdout = out, oc_stderr = []\<rparr>)
                else (case serving s n of
                    Inl e \<Rightarrow> fails e []
                  | Inr _ \<Rightarrow> \<lparr>oc_code = 0, oc_stdout = [], oc_stderr = []\<rparr>))
      | _ \<Rightarrow> \<lparr>oc_code = 2, oc_stdout = [], oc_stderr = [''usage'']\<rparr>)"

end
