(* ===== verification/Sim_Endpoints.thy ===== *)
theory Sim_Endpoints
  imports Sim_Program
begin

text \<open>
  What the endpoint check of \<^verbatim>\<open>cmd/gobac-sim\<close> decides: that every device has an IPv4 endpoint, and no two of them get in
  each other's way.
\<close>

section \<open>Text of endpoints\<close>

lemma append_Cons_inj: "xs @ x # ys = xs' @ x # ys' \<Longrightarrow> x \<notin> set xs \<Longrightarrow> x \<notin> set xs' \<Longrightarrow> xs = xs' \<and> ys = ys'"
proof -
  assume eq: "xs @ x # ys = xs' @ x # ys'" and n: "x \<notin> set xs" "x \<notin> set xs'"
  have "takeWhile (\<lambda>c. c \<noteq> x) (xs @ x # ys) = xs" "takeWhile (\<lambda>c. c \<noteq> x) (xs' @ x # ys') = xs'"
    using n by (auto simp: takeWhile_append2 takeWhile_eq_all_conv takeWhile_append)
  with eq show ?thesis by auto
qed

definition addr :: "Endpoint \<Rightarrow> bytes option" where
  "addr e = IP_To4 (ep_IP e)"

definition v4 :: "Endpoint \<Rightarrow> bool" where
  "v4 e \<longleftrightarrow> addr e \<noteq> None \<and> ep_Network e = 0"

abbreviation wild :: "Endpoint \<Rightarrow> bool" where
  "wild e \<equiv> isWildcardIPv4 (ep_IP e)"

lemma wild_addr: "wild e \<longleftrightarrow> addr e = Some [0, 0, 0, 0]"
proof (cases "addr e")
  case (Some v)
  obtain a b c d where "v = [a, b, c, d]" using Some by (auto simp: addr_def elim: length_4E [OF IP_To4_length])
  with Some show ?thesis by (simp add: isWildcardIPv4_def addr_def eval_nat_numeral)
qed (simp add: isWildcardIPv4_def addr_def)

lemma colon_notin_itoa: "CHR '':'' \<notin> set (itoa n)" "CHR ''%'' \<notin> set (itoa n)"
proof -
  have "of_char c \<noteq> (58::nat) \<and> of_char c \<noteq> (37::nat)" if "c \<in> set (itoa n)" for c
    using itoa_digits [OF that] of_char_digit by fastforce
  then show "CHR '':'' \<notin> set (itoa n)" "CHR ''%'' \<notin> set (itoa n)" by fastforce+
qed

lemma IP_String_addr: "addr e = Some v \<Longrightarrow> addr e' = Some v' \<Longrightarrow> IP_String (ep_IP e) = IP_String (ep_IP e') \<longleftrightarrow> v = v'"
  unfolding addr_def by (rule IP_String_inj)

lemma v4_String:
  assumes "v4 e"
  shows "Endpoint_String e = IP_String (ep_IP e) @ CHR '':'' # itoa (unat (ep_Port e)) \<and> CHR '':'' \<notin> set (IP_String (ep_IP e))"
proof -
  obtain v where v: "IP_To4 (ep_IP e) = Some v" "ep_Network e = 0" using assms by (auto simp: v4_def addr_def)
  obtain a b c d where "v = [a, b, c, d]" by (rule length_4E [OF IP_To4_length [OF v(1)]])
  then have "CHR '':'' \<notin> set (IP_String (ep_IP e))" "CHR ''%'' \<notin> set (IP_String (ep_IP e))"
    using colon_notin_itoa by (auto simp: IP_String_To4 [OF v(1)] IP_String_v4)
  with v(2) show ?thesis by (simp add: Endpoint_String_def JoinHostPort_def)
qed

lemma Endpoint_String_inj:
  assumes "v4 a" "v4 b"
  shows "Endpoint_String a = Endpoint_String b \<longleftrightarrow> addr a = addr b \<and> ep_Port a = ep_Port b"
proof -
  obtain x y where "addr a = Some x" "addr b = Some y" using assms by (auto simp: v4_def)
  moreover note IP_String_addr [OF this]
  ultimately show ?thesis
    using v4_String [OF assms(1)] v4_String [OF assms(2)]
      append_Cons_inj [of "IP_String (ep_IP a)" "CHR '':''" "itoa (unat (ep_Port a))" "IP_String (ep_IP b)" "itoa (unat (ep_Port b))"]
    by (auto simp: itoa_inj word_unat_eq_iff)
qed

section \<open>Endpoints that can coexist\<close>

definition compatible :: "bytes \<Rightarrow> Endpoint \<Rightarrow> Endpoint \<Rightarrow> bool" where
  "compatible mode a b \<longleftrightarrow>
     (ep_Port a = ep_Port b \<longrightarrow> addr a \<noteq> addr b \<and> \<not> wild a \<and> \<not> wild b)
     \<and> (mode = ascii ''multi-ip'' \<longrightarrow> addr a \<noteq> addr b)
     \<and> (mode = ascii ''multi-port'' \<longrightarrow> ep_Port a \<noteq> ep_Port b)"

definition placeable :: "bytes \<Rightarrow> Endpoint \<Rightarrow> bool" where
  "placeable mode e \<longleftrightarrow> v4 e \<and> (mode = ascii ''multi-ip'' \<longrightarrow> \<not> wild e)"

definition placed :: "bytes \<Rightarrow> Endpoint list \<Rightarrow> bool" where
  "placed mode es \<longleftrightarrow> sorted_wrt (compatible mode) es \<and> list_all (placeable mode) es"

definition resolved :: "bytes \<Rightarrow> Endpoint set \<Rightarrow> Resolved \<Rightarrow> bool" where
  "resolved mode es m \<longleftrightarrow>
     dom (re_endpoints m) = Endpoint_String ` es
     \<and> dom (re_wildcards m) = ep_Port ` {e \<in> es. wild e} \<and> dom (re_concrete m) = ep_Port ` {e \<in> es. \<not> wild e}
     \<and> dom (re_modeAddresses m) = (if mode = ascii ''multi-ip'' then (IP_String \<circ> ep_IP) ` es else {})
     \<and> dom (re_modePorts m) = (if mode = ascii ''multi-port'' then ep_Port ` es else {})"

lemma resolved_none: "resolved mode {} nothing_resolved"
  by (simp add: resolved_def nothing_resolved_def)

lemma modes_differ: "ascii ''multi-ip'' \<noteq> ascii ''multi-port''"
  by (simp add: ascii_def)

lemma check_endpoint_step:
  assumes r: "resolved mode es m" and v: "v4 ep" "\<And>e. e \<in> es \<Longrightarrow> v4 e"
  shows "case check_endpoint mode i ep m of
      Inr m' \<Rightarrow> placeable mode ep \<and> (\<forall>e \<in> es. compatible mode e ep) \<and> resolved mode (insert ep es) m'
    | Inl _ \<Rightarrow> \<not> (placeable mode ep \<and> (\<forall>e \<in> es. compatible mode e ep))"
proof -
  have inj: "Endpoint_String ep = Endpoint_String e \<longleftrightarrow> addr e = addr ep \<and> ep_Port e = ep_Port ep"
    "IP_String (ep_IP ep) = IP_String (ep_IP e) \<longleftrightarrow> addr e = addr ep" if e: "e \<in> es" for e
  proof -
    obtain x y where xy: "addr ep = Some x" "addr e = Some y" using v(1) v(2) [OF e] by (auto simp: v4_def)
    show "Endpoint_String ep = Endpoint_String e \<longleftrightarrow> addr e = addr ep \<and> ep_Port e = ep_Port ep"
      unfolding Endpoint_String_inj [OF v(1) v(2) [OF e]] by auto
    show "IP_String (ep_IP ep) = IP_String (ep_IP e) \<longleftrightarrow> addr e = addr ep"
      unfolding IP_String_addr [OF xy] xy by auto
  qed
  have none: "f x = None \<longleftrightarrow> x \<notin> dom f" for f :: "'k \<rightharpoonup> u32" and x by (simp add: domIff)
  have maps: "re_endpoints m (Endpoint_String ep) = None \<longleftrightarrow> (\<forall>e \<in> es. \<not> (addr e = addr ep \<and> ep_Port e = ep_Port ep))"
    "re_concrete m (ep_Port ep) = None \<longleftrightarrow> (\<forall>e \<in> es. \<not> wild e \<longrightarrow> ep_Port e \<noteq> ep_Port ep)"
    "re_wildcards m (ep_Port ep) = None \<longleftrightarrow> (\<forall>e \<in> es. wild e \<longrightarrow> ep_Port e \<noteq> ep_Port ep)"
    "mode = ascii ''multi-ip'' \<Longrightarrow> re_modeAddresses m (IP_String (ep_IP ep)) = None \<longleftrightarrow> (\<forall>e \<in> es. addr e \<noteq> addr ep)"
    "mode = ascii ''multi-port'' \<Longrightarrow> re_modePorts m (ep_Port ep) = None \<longleftrightarrow> (\<forall>e \<in> es. ep_Port e \<noteq> ep_Port ep)"
    using r inj unfolding none resolved_def by (auto simp: image_iff)
  let ?ok = "placeable mode ep \<and> (\<forall>e \<in> es. compatible mode e ep)"
  have split: "{e \<in> insert ep es. wild e} = (if wild ep then insert ep {e \<in> es. wild e} else {e \<in> es. wild e})"
    "{e \<in> insert ep es. \<not> wild e} = (if wild ep then {e \<in> es. \<not> wild e} else insert ep {e \<in> es. \<not> wild e})" by auto
  show ?thesis
  proof (cases "check_endpoint mode i ep m")
    case (Inl e)
    then have "\<not> ?ok"
      using maps v(1) unfolding check_endpoint_def check_overlap_def check_address_def check_port_def
      by (auto simp: Let_def bind_res_eq_Inl placeable_def compatible_def wild_addr split: if_splits)
    with Inl show ?thesis by simp
  next
    case (Inr m')
    then have "?ok"
      using maps v(1) unfolding check_endpoint_def check_overlap_def check_address_def check_port_def
      by (auto simp: Let_def bind_res_eq_Inr placeable_def compatible_def wild_addr split: if_splits)
    moreover have "resolved mode (insert ep es) m'"
      using Inr r modes_differ unfolding check_endpoint_def check_overlap_def check_address_def check_port_def resolved_def split
      by (cases "wild ep"; cases "mode = ascii ''multi-ip''"; cases "mode = ascii ''multi-port''";
          simp add: Let_def bind_res_eq_Inr split: if_split_asm; clarsimp)
    ultimately show ?thesis using Inr by simp
  qed
qed

lemma compatible_sym: "compatible mode a b \<longleftrightarrow> compatible mode b a"
  by (auto simp: compatible_def)

definition device_endpoints :: "interfaces \<Rightarrow> Scenario \<Rightarrow> SimNetwork \<Rightarrow> (SimDevice \<times> Endpoint) list result" where
  "device_endpoints interfaces s n = map_res (device_of ''device %d endpoint: %v'' interfaces s n) (sc_Devices s)"

lemma first_v4_To4: "first_v4 addrs = Some v \<Longrightarrow> length v = 4"
  by (induction addrs) (auto simp: addr_v4_def IP_To4_length split: option.splits net_addr.splits)

lemma resolveIPv4_v4: "resolveIPv4 interfaces a = Inr ip \<Longrightarrow> IP_To4 ip \<noteq> None"
  by (auto simp: resolveIPv4_def bind_res_eq_Inr IP_To4_def v4_prefix_def dest: first_v4_To4 IP_To4_length split: if_splits option.splits)

lemma device_of_Inr:
  assumes "device_of text interfaces s n spec = Inr (d, ep)"
  shows "v4 ep" "ep_IP ep \<noteq> []" "Network_Device n (ds_ID spec) = Inr d" "deviceEndpoint interfaces s d = Inr ep" "ep_Port ep = sd_Port d"
    "\<exists>ip. ep = NewEndpoint ip (sd_Port d)"
proof -
  from assms show n: "Network_Device n (ds_ID spec) = Inr d" and e: "deviceEndpoint interfaces s d = Inr ep"
    by (auto simp: device_of_def bind_res_eq_Inr)
  from e obtain a ip where "resolveIPv4 interfaces a = Inr ip" and ep: "ep = NewEndpoint ip (sd_Port d)"
    by (auto simp: deviceEndpoint_def Let_def bind_res_eq_Inr)
  then have "IP_To4 ip \<noteq> None" by (blast dest: resolveIPv4_v4)
  then show "v4 ep" "ep_IP ep \<noteq> []" by (auto simp: ep v4_def addr_def NewEndpoint_def IP_To4_def)
  show "ep_Port ep = sd_Port d" "\<exists>ip. ep = NewEndpoint ip (sd_Port d)" by (auto simp: ep NewEndpoint_def)
qed

lemma check_endpoints_iff:
  assumes "resolved mode es m" "\<And>e. e \<in> es \<Longrightarrow> v4 e" "mode = nc_Mode (sc_Network s)"
  shows "check_endpoints interfaces s n specs m = Inr () \<longleftrightarrow>
    (\<exists>ds. map_res (device_of ''device %d endpoint: %v'' interfaces s n) specs = Inr ds
      \<and> placed mode (map snd ds) \<and> (\<forall>a \<in> es. \<forall>b \<in> set (map snd ds). compatible mode a b))"
  using assms(1,2)
proof (induction specs arbitrary: m es)
  case (Cons spec specs)
  show ?case
  proof (cases "device_of ''device %d endpoint: %v'' interfaces s n spec")
    case (Inr dep)
    obtain d ep where dep: "dep = (d, ep)" by force
    note ep = device_of_Inr(1) [OF Inr [unfolded dep]]
    note step = check_endpoint_step [OF Cons.prems(1) ep Cons.prems(2), of "sd_ID d"]
    show ?thesis
    proof (cases "check_endpoint mode (sd_ID d) ep m")
      case (Inl e)
      with step Inr dep assms(3) show ?thesis by (fastforce simp: placed_def bind_res_eq_Inr)
    next
      case (Inr m')
      then have r: "resolved mode (insert ep es) m'" "placeable mode ep" "\<forall>e \<in> es. compatible mode e ep" using step by auto
      have "check_endpoints interfaces s n specs m' = Inr () \<longleftrightarrow>
          (\<exists>ds. map_res (device_of ''device %d endpoint: %v'' interfaces s n) specs = Inr ds
            \<and> placed mode (map snd ds) \<and> (\<forall>a \<in> insert ep es. \<forall>b \<in> set (map snd ds). compatible mode a b))"
        by (rule Cons.IH [OF r(1)]) (use ep Cons.prems(2) in auto)
      with r(2,3) Inr \<open>device_of _ _ _ _ spec = Inr dep\<close> dep assms(3) show ?thesis
        by (fastforce simp: placed_def bind_res_eq_Inr)
    qed
  qed (simp add: bind_res_eq_Inr)
qed (simp add: placed_def)

lemma validated_endpoints:
  "validateResolvedEndpoints interfaces s n = Inr () \<longleftrightarrow>
     (\<exists>ds. device_endpoints interfaces s n = Inr ds \<and> placed (nc_Mode (sc_Network s)) (map snd ds))"
  using check_endpoints_iff [OF resolved_none _ refl, where s = s and interfaces = interfaces and n = n and specs = "sc_Devices s"]
  by (simp add: validateResolvedEndpoints_def device_endpoints_def)

text \<open>
  C14: The endpoint check of \<^verbatim>\<open>gobac-sim\<close> accepts a scenario exactly when every device resolves to an IPv4 endpoint and
  the endpoints can be served side by side: no two share address and port, a wildcard address has its port alone, in
  multi-ip mode addresses are concrete and distinct and in multi-port mode ports are distinct.
\<close>

theorem endpoints_decided:
  "validateResolvedEndpoints interfaces s n = Inr () \<longleftrightarrow>
     (\<exists>ds. device_endpoints interfaces s n = Inr ds \<and> placed (nc_Mode (sc_Network s)) (map snd ds))"
  by (rule validated_endpoints)

end
