(* ===== verification/Sim_Serving.thy ===== *)
theory Sim_Serving
  imports Sim_Endpoints
begin

text \<open>
  The running simulator program: its sockets are closed whatever happens, and every datagram reaches the devices it is
  meant for, once.
\<close>

section \<open>No socket is left open\<close>

definition conns :: "'c runningDevice list \<Rightarrow> (nat \<times> Endpoint) list" where
  "conns devs = map (\<lambda>r. (rd_conn r, rd_local r)) devs"

definition own :: "broadcastListener list \<Rightarrow> (nat \<times> Endpoint) list" where
  "own ls = map (\<lambda>l. (bl_conn l, bl_local l)) (filter (\<lambda>l. bl_wildcardDevice l < 0) ls)"

lemma conns_fst: "map fst (conns devs) = map rd_conn devs"
  by (simp add: conns_def comp_def)

lemma opened_closeDevices:
  assumes "opened base k (conns devs) h"
  shows "set (ho_open (closeDevices devs h)) = base"
  unfolding closeDevices_def using opened_fresh [OF assms]
  by (intro opened_close [OF assms]) (auto simp: conns_def)

lemma open_devices_opened:
  "opened base k (conns running) h \<Longrightarrow> open_devices interfaces listen clk s n specs running h = (r, h') \<Longrightarrow>
    (case r of Inl _ \<Rightarrow> set (ho_open h') = base | Inr running' \<Rightarrow> opened base k (conns running') h')"
proof (induction specs arbitrary: running h)
  case (Cons spec specs)
  show ?case
  proof (cases "device_of ''device %d: %v'' interfaces s n spec")
    case (Inl e)
    with Cons.prems show ?thesis by (auto simp: opened_closeDevices)
  next
    case (Inr dep)
    obtain d ep where dep: "dep = (d, ep)" by force
    obtain res h1 where l: "ListenUDP listen ep h = (res, h1)" by force
    show ?thesis
    proof (cases res)
      case (Inl e)
      with l ListenUDP_Inl [of listen ep h e h1] have "h1 = h" by simp
      with Cons.prems Inr dep l Inl show ?thesis by (auto simp: opened_closeDevices wrap_error_def split: go_error.splits)
    next
      case (Inr cl)
      obtain c local where cl: "cl = (c, local)" by force
      have "opened base k (conns (running @ [\<lparr>rd_id = sd_ID d, rd_app = NewApplication d clk, rd_conn = c, rd_local = local\<rparr>])) h1"
        using opened_listen [OF Cons.prems(1) l [unfolded Inr cl]] by (simp add: conns_def)
      from Cons.IH [OF this] Cons.prems(2) \<open>device_of _ _ _ _ _ = Inr dep\<close> dep l Inr cl show ?thesis by simp
    qed
  qed
qed auto

lemma wildcard_index_cases:
  "wildcard_index devs indexes = - 1 \<or> (\<exists>i \<in> set indexes. wildcard_index devs indexes = int i \<and> wild (rd_local (devs ! i)))"
  unfolding wildcard_index_def by (induction indexes rule: rev_induct) auto

lemma set_indexes: "i \<in> set (indexes_on devs port) \<longleftrightarrow> i < length devs \<and> unat (ep_Port (rd_local (devs ! i))) = port"
  by (auto simp: indexes_on_def)

definition borrowed :: "'c runningDevice list \<Rightarrow> broadcastListener list \<Rightarrow> bool" where
  "borrowed devs ls \<longleftrightarrow> (\<forall>l \<in> set ls. bl_wildcardDevice l \<ge> 0 \<longrightarrow> bl_conn l \<in> rd_conn ` set devs)"

lemma opened_close_all:
  assumes "opened base k (conns devs @ own ls) h" "borrowed devs ls"
  shows "set (ho_open (closeDevices devs (closeBroadcastListeners ls h))) = base"
    "set (ho_open (closeBroadcastListeners ls (closeDevices devs h))) = base"
proof -
  have k: "k \<le> c" if "c \<in> set (map bl_conn ls @ map rd_conn devs)" for c
  proof -
    have "k \<le> rd_conn r" if "r \<in> set devs" for r
      using that by (intro opened_fresh [OF assms(1), of _ "rd_local r"]) (auto simp: conns_def)
    moreover have "k \<le> bl_conn l" if "l \<in> set ls" "bl_wildcardDevice l < 0" for l
      using that by (intro opened_fresh [OF assms(1), of _ "bl_local l"]) (auto simp: own_def)
    ultimately show ?thesis using that assms(2) by (fastforce simp: borrowed_def not_less)
  qed
  have f: "fst ` set (conns devs @ own ls) \<subseteq> set (map bl_conn ls @ map rd_conn devs)" by (auto simp: conns_def own_def)
  have "set (ho_open (fold UDPConn_Close (map bl_conn ls @ map rd_conn devs) h)) = base"
    by (rule opened_close [OF assms(1) f]) (use k in blast)
  then show "set (ho_open (closeDevices devs (closeBroadcastListeners ls h))) = base"
    by (simp add: closeDevices_def closeBroadcastListeners_def)
  have "set (ho_open (fold UDPConn_Close (map rd_conn devs @ map bl_conn ls) h)) = base"
    by (rule opened_close [OF assms(1)]) (use k f in auto)
  then show "set (ho_open (closeBroadcastListeners ls (closeDevices devs h))) = base"
    by (simp add: closeDevices_def closeBroadcastListeners_def)
qed

lemma start_listeners_opened:
  "opened base k (conns devs @ own ls) h \<Longrightarrow> borrowed devs ls \<Longrightarrow> start_listeners listen devs ports ls h = (r, h') \<Longrightarrow>
    (case r of
       Inl _ \<Rightarrow> set (ho_open (closeDevices devs h')) = base
     | Inr ls' \<Rightarrow> opened base k (conns devs @ own ls') h' \<and> borrowed devs ls')"
proof (induction ports arbitrary: ls h)
  case (Cons port ports)
  let ?w = "wildcard_index devs (indexes_on devs port)"
  show ?case
  proof (cases "has_concrete devs (indexes_on devs port)")
    case False
    with Cons show ?thesis by (simp add: Let_def)
  next
    case conc: True
    show ?thesis
    proof (cases "?w \<ge> 0")
      case True
      let ?l = "\<lparr>bl_conn = rd_conn (devs ! nat ?w), bl_local = rd_local (devs ! nat ?w), bl_deviceIndexes = indexes_on devs port, bl_wildcardDevice = ?w\<rparr>"
      have "nat ?w < length devs" using True wildcard_index_cases [of devs "indexes_on devs port"] by (auto simp: set_indexes)
      then have b: "borrowed devs (ls @ [?l])" using Cons.prems(2) by (auto simp: borrowed_def)
      have "opened base k (conns devs @ own (ls @ [?l])) h" using Cons.prems(1) True by (simp add: own_def)
      from Cons.IH [OF this b] Cons.prems(3) conc True show ?thesis by (simp add: Let_def)
    next
      case False
      let ?ep = "NewEndpoint (v4_prefix @ [0, 0, 0, 0]) (word_of_nat port)"
      obtain res h1 where l: "ListenUDP listen ?ep h = (res, h1)" by force
      show ?thesis
      proof (cases res)
        case (Inl e)
        with l ListenUDP_Inl [of listen ?ep h e h1] have "h1 = h" by simp
        with Cons.prems conc False l Inl opened_close_all(1) [OF Cons.prems(1,2)]
        show ?thesis by (auto simp: wrap_error_def Let_def split: go_error.splits)
      next
        case (Inr cl)
        obtain c local where cl: "cl = (c, local)" by force
        let ?l = "\<lparr>bl_conn = c, bl_local = local, bl_deviceIndexes = indexes_on devs port, bl_wildcardDevice = ?w\<rparr>"
        have "opened base k (conns devs @ own (ls @ [?l])) h1"
          using opened_listen [OF Cons.prems(1) l [unfolded Inr cl]] False by (simp add: own_def)
        moreover have "borrowed devs (ls @ [?l])" using Cons.prems(2) False by (auto simp: borrowed_def)
        ultimately show ?thesis using Cons.IH Cons.prems(3) conc False l Inr cl by (simp add: Let_def)
      qed
    qed
  qed
qed auto

lemma serve_start_opened:
  assumes "host_inv h" "serve_start interfaces listen clk s n h = (r, h')"
  shows "case r of
      Inl _ \<Rightarrow> set (ho_open h') = set (ho_open h)
    | Inr (running, ls) \<Rightarrow> opened (set (ho_open h)) (ho_next h) (conns running @ own ls) h' \<and> borrowed running ls"
proof -
  obtain r1 h1 where o: "open_devices interfaces listen clk s n (sc_Devices s) [] h = (r1, h1)" by force
  have o1: "opened (set (ho_open h)) (ho_next h) (conns []) h" using opened_init [OF assms(1)] by (simp add: conns_def)
  note od = open_devices_opened [OF o1 o]
  show ?thesis
  proof (cases r1)
    case (Inr running)
    then have "opened (set (ho_open h)) (ho_next h) (conns running @ own []) h1" using od by (simp add: own_def)
    note sl = start_listeners_opened [OF this, of listen "used_ports running"]
    obtain r2 h2 where "start_listeners listen running (used_ports running) [] h1 = (r2, h2)" by force
    with sl Inr o assms(2) show ?thesis
      by (auto simp: serve_start_def startBroadcastListeners_def borrowed_def split: sum.splits)
  qed (use od o assms(2) in \<open>auto simp: serve_start_def\<close>)
qed

section \<open>How the sockets are wired\<close>

text \<open>Devices on one port have addresses of their own, none of them the wildcard.\<close>

definition apart :: "'c runningDevice list \<Rightarrow> bool" where
  "apart devs \<longleftrightarrow> (\<forall>i < length devs. \<forall>j < length devs. i \<noteq> j \<longrightarrow> ep_Port (rd_local (devs ! i)) = ep_Port (rd_local (devs ! j)) \<longrightarrow>
     \<not> wild (rd_local (devs ! i)) \<and> \<not> wild (rd_local (devs ! j)))"

definition port_of :: "Endpoint \<Rightarrow> nat" where
  "port_of e = unat (ep_Port e)"

definition wired :: "'c runningDevice list \<Rightarrow> broadcastListener list \<Rightarrow> bool" where
  "wired devs ls \<longleftrightarrow> apart devs \<and> distinct (map rd_conn devs @ map bl_conn ls)
     \<and> distinct (map (port_of \<circ> bl_local) ls)
     \<and> (\<forall>l \<in> set ls. bl_wildcardDevice l = - 1 \<and> wild (bl_local l)
          \<and> bl_deviceIndexes l = indexes_on devs (port_of (bl_local l)) \<and> has_concrete devs (bl_deviceIndexes l))
     \<and> (\<forall>i < length devs. \<not> wild (rd_local (devs ! i)) \<longrightarrow> (\<exists>l \<in> set ls. port_of (bl_local l) = port_of (rd_local (devs ! i))))"

lemma device_of_text: "device_of t interfaces s n spec = Inr x \<longleftrightarrow> device_of t' interfaces s n spec = Inr x"
  by (auto simp: device_of_def bind_res_eq_Inr)

lemma map_res_device_of:
  "map_res (device_of t interfaces s n) specs = Inr ds \<longleftrightarrow> map_res (device_of t' interfaces s n) specs = Inr ds"
  using device_of_text [of t interfaces s n _ _ t'] by (induction specs arbitrary: ds) (auto simp: bind_res_eq_Inr)

definition runs :: "'c runningDevice \<Rightarrow> SimDevice \<times> Endpoint \<Rightarrow> bool" where
  "runs r dep \<longleftrightarrow> addr (rd_local r) = addr (snd dep) \<and> (ep_Port (snd dep) \<noteq> 0 \<longrightarrow> ep_Port (rd_local r) = ep_Port (snd dep))"

lemma open_devices_running:
  assumes "binds listen"
  shows "open_devices interfaces listen clk s n specs running h = (Inr running', h') \<Longrightarrow>
    \<exists>new ds. running' = running @ new \<and> map_res (device_of ''device %d: %v'' interfaces s n) specs = Inr ds \<and> list_all2 runs new ds"
proof (induction specs arbitrary: running h)
  case (Cons spec specs)
  obtain d ep where dep: "device_of ''device %d: %v'' interfaces s n spec = Inr (d, ep)"
    using Cons.prems by (auto split: sum.splits)
  obtain c local h1 where l: "ListenUDP listen ep h = (Inr (c, local), h1)"
    using Cons.prems dep by (auto simp: wrap_error_def split: sum.splits prod.splits go_error.splits)
  let ?r = "\<lparr>rd_id = sd_ID d, rd_app = NewApplication d clk, rd_conn = c, rd_local = local\<rparr>"
  from Cons.IH [of "running @ [?r]" h1] Cons.prems dep l
  obtain new ds where "running' = running @ ?r # new" "map_res (device_of ''device %d: %v'' interfaces s n) specs = Inr ds" "list_all2 runs new ds"
    by auto
  moreover obtain ip where ip: "ep = NewEndpoint ip (sd_Port d)" using device_of_Inr(6) [OF dep] by blast
  then have "ip \<noteq> []" using device_of_Inr(2) [OF dep] by (simp add: NewEndpoint_def)
  then have "runs ?r (d, ep)"
    using ListenUDP_local [OF assms l [unfolded ip]] by (simp add: runs_def addr_def ip NewEndpoint_def)
  ultimately show ?case using dep by (intro exI [of _ "?r # new"] exI [of _ "(d, ep) # ds"]) simp
qed auto

lemma has_concrete_wildcard:
  assumes "apart devs" "has_concrete devs (indexes_on devs q)"
  shows "wildcard_index devs (indexes_on devs q) = - 1"
proof -
  obtain j where j: "j \<in> set (indexes_on devs q)" "\<not> wild (rd_local (devs ! j))"
    using assms(2) by (auto simp: has_concrete_def list_ex_iff)
  have "\<not> wild (rd_local (devs ! i))" if i: "i \<in> set (indexes_on devs q)" for i
  proof
    assume w: "wild (rd_local (devs ! i))"
    then have "i \<noteq> j" using j(2) by auto
    with i j(1) w assms(1) show False by (auto simp: set_indexes apart_def word_unat_eq_iff)
  qed
  then show ?thesis using wildcard_index_cases [of devs "indexes_on devs q"] by blast
qed

definition listener_of :: "'c runningDevice list \<Rightarrow> broadcastListener \<Rightarrow> nat \<Rightarrow> bool" where
  "listener_of devs l q \<longleftrightarrow> bl_deviceIndexes l = indexes_on devs q \<and> bl_wildcardDevice l = - 1 \<and> wild (bl_local l) \<and> port_of (bl_local l) = q"

lemma start_listeners_shape:
  assumes "binds listen" "apart devs"
  shows "start_listeners listen devs ports ls h = (Inr ls', h') \<Longrightarrow> \<forall>q \<in> set ports. 0 < q \<and> q < 2 ^ 16 \<Longrightarrow>
    \<exists>new. ls' = ls @ new \<and> list_all2 (listener_of devs) new (filter (\<lambda>q. has_concrete devs (indexes_on devs q)) ports)"
proof (induction ports arbitrary: ls h)
  case (Cons q ports)
  show ?case
  proof (cases "has_concrete devs (indexes_on devs q)")
    case False
    with Cons show ?thesis by (simp add: Let_def)
  next
    case True
    note w = has_concrete_wildcard [OF assms(2) True]
    let ?ep = "NewEndpoint (v4_prefix @ [0, 0, 0, 0]) (word_of_nat q)"
    obtain c local h1 where l: "ListenUDP listen ?ep h = (Inr (c, local), h1)"
      using Cons.prems(1) True w by (auto simp: Let_def wrap_error_def split: sum.splits prod.splits go_error.splits)
    let ?l = "\<lparr>bl_conn = c, bl_local = local, bl_deviceIndexes = indexes_on devs q, bl_wildcardDevice = - 1\<rparr>"
    from Cons.IH [of "ls @ [?l]" h1] Cons.prems True w l
    obtain new where new: "ls' = ls @ ?l # new" "list_all2 (listener_of devs) new (filter (\<lambda>q. has_concrete devs (indexes_on devs q)) ports)"
      by (auto simp: Let_def)
    have "unat (word_of_nat q :: u16) = q" using Cons.prems(2) by (simp add: unat_of_nat)
    moreover then have "(word_of_nat q :: u16) \<noteq> 0" using Cons.prems(2) by auto
    ultimately have "listener_of devs ?l q"
      using ListenUDP_local [OF assms(1) l]
      by (auto simp: listener_of_def port_of_def v4_prefix_def wild_addr addr_def IP_To4_def)
    with new True show ?thesis by (intro exI [of _ "?l # new"]) simp
  qed
qed auto

lemma Decode_ports:
  assumes "Decode c data format = Inr s" "spec \<in> set (sc_Devices s)"
  shows "ds_Port spec \<noteq> 0"
proof -
  obtain s0 where "(case Scenario_Validate (applyScenarioDefaults s0) of (Inl e, _) \<Rightarrow> Inl e | (Inr _, s) \<Rightarrow> Inr s) = Inr s"
    using assms(1) by (auto simp: DecodeScenario_def bind_res_eq_Inr)
  then have "Scenario_Validate (applyScenarioDefaults s0) = (Inr (), s)" by (auto split: sum.splits prod.splits)
  then have s: "s = writable_scenario (applyScenarioDefaults s0)" using Scenario_Validate_iff by blast
  have "ds_Port (default_device port d) \<noteq> 0" if "port \<noteq> 0" for port d using that by (simp add: default_device_def Let_def)
  with assms(2) s show ?thesis by (auto simp: writable_scenario_def writable_device_def applyScenarioDefaults_def Let_def)
qed

lemma loadScenario_ports:
  assumes "loadScenario c interfaces readable path fs = Inr (s, n)"
  shows "validateResolvedEndpoints interfaces s n = Inr ()"
    "device_of t interfaces s n spec = Inr (d, ep) \<Longrightarrow> ep_Port ep \<noteq> 0"
proof -
  obtain data where d: "Decode c data (formatForPath path) = Inr s" and b: "BuildNetwork s = Inr n"
    and v: "validateResolvedEndpoints interfaces s n = Inr ()"
    using assms by (auto simp: loadScenario_def bind_res_eq_Inr)
  show "validateResolvedEndpoints interfaces s n = Inr ()" by (rule v)
  assume de: "device_of t interfaces s n spec = Inr (d, ep)"
  have "describes s n" using BuildNetwork_outcome [of s] b by simp
  then obtain sp where "sp \<in> set (sc_Devices s)" "built_from sp d"
    using device_of_Inr(3) [OF de] unfolding describes_def by (force split: sum.splits)
  then show "ep_Port ep \<noteq> 0" using Decode_ports [OF d] device_of_Inr(5) [OF de] by (simp add: built_from_def)
qed

lemma apart_running:
  assumes "placed mode (map snd ds)" "list_all2 runs devs ds" "\<forall>dep \<in> set ds. ep_Port (snd dep) \<noteq> 0"
  shows "apart devs"
  unfolding apart_def
proof (intro allI impI)
  fix i j
  assume ij: "i < length devs" "j < length devs" "i \<noteq> j" "ep_Port (rd_local (devs ! i)) = ep_Port (rd_local (devs ! j))"
  have len: "length ds = length devs" using assms(2) by (simp add: list_all2_lengthD)
  have r: "addr (rd_local (devs ! x)) = addr (snd (ds ! x)) \<and> ep_Port (rd_local (devs ! x)) = ep_Port (snd (ds ! x))" if "x < length devs" for x
    using list_all2_nthD [OF assms(2) that] assms(3) that len by (simp add: runs_def)
  have c: "compatible mode (snd (ds ! a)) (snd (ds ! b))" if "a < b" "b < length devs" for a b
    using assms(1) that len by (auto simp: placed_def sorted_wrt_iff_nth_less)
  have "compatible mode (snd (ds ! i)) (snd (ds ! j))"
    using c [of i j] c [of j i] compatible_sym ij by (cases "i < j") auto
  with r [OF ij(1)] r [OF ij(2)] ij(4) show "\<not> wild (rd_local (devs ! i)) \<and> \<not> wild (rd_local (devs ! j))"
    by (simp add: compatible_def wild_addr)
qed

lemma set_used_ports: "set (used_ports devs) = (\<lambda>d. port_of (rd_local d)) ` set devs" "distinct (used_ports devs)"
  by (auto simp: used_ports_def port_of_def)

lemma serve_start_wired:
  assumes load: "loadScenario c interfaces readable path fs = Inr (s, n)"
    and start: "serve_start interfaces listen clk s n h = (Inr (running, ls), h')" and os: "binds listen" "host_inv h"
  shows "wired running ls"
proof -
  obtain h1 where o: "open_devices interfaces listen clk s n (sc_Devices s) [] h = (Inr running, h1)"
    and sl: "start_listeners listen running (used_ports running) [] h1 = (Inr ls, h')"
    using start by (auto simp: serve_start_def startBroadcastListeners_def split: sum.splits prod.splits)
  obtain ds where ds: "map_res (device_of ''device %d: %v'' interfaces s n) (sc_Devices s) = Inr ds" "list_all2 runs running ds"
    using open_devices_running [OF os(1) o] by auto
  have pl: "placed (nc_Mode (sc_Network s)) (map snd ds)"
    using loadScenario_ports(1) [OF load] map_res_device_of [THEN iffD1, OF ds(1), of "''device %d endpoint: %v''"]
    unfolding validated_endpoints device_endpoints_def by auto
  have nz: "\<forall>dep \<in> set ds. ep_Port (snd dep) \<noteq> 0"
    using map_res_nth [OF ds(1)] map_res_length [OF ds(1)] loadScenario_ports(2) [OF load] by (metis in_set_conv_nth prod.collapse)
  note ap = apart_running [OF pl ds(2) nz]
  have ports: "\<forall>q \<in> set (used_ports running). 0 < q \<and> q < 2 ^ 16"
  proof
    fix q assume "q \<in> set (used_ports running)"
    then obtain i where i: "i < length running" "q = port_of (rd_local (running ! i))" by (auto simp: set_used_ports in_set_conv_nth)
    have "ep_Port (rd_local (running ! i)) \<noteq> 0"
      using list_all2_nthD [OF ds(2) i(1)] nz i(1) ds(2) by (auto simp: runs_def list_all2_lengthD)
    with i(2) show "0 < q \<and> q < 2 ^ 16" using unat_less [of "ep_Port (rd_local (running ! i))"] by (simp add: port_of_def unat_gt_0)
  qed
  from start_listeners_shape [OF os(1) ap sl ports]
  have la: "list_all2 (listener_of running) ls (filter (\<lambda>q. has_concrete running (indexes_on running q)) (used_ports running))" by simp
  let ?qs = "filter (\<lambda>q. has_concrete running (indexes_on running q)) (used_ports running)"
  have l: "bl_wildcardDevice l = - 1 \<and> wild (bl_local l) \<and> bl_deviceIndexes l = indexes_on running (port_of (bl_local l))
      \<and> has_concrete running (bl_deviceIndexes l)" if lm: "l \<in> set ls" for l
  proof -
    obtain i where i: "i < length ls" "l = ls ! i" using lm by (auto simp: in_set_conv_nth)
    have "listener_of running l (?qs ! i)" "i < length ?qs" using list_all2_nthD [OF la i(1)] list_all2_lengthD [OF la] i by auto
    moreover from nth_mem [OF this(2)] have "has_concrete running (indexes_on running (?qs ! i))" by simp
    ultimately show ?thesis by (simp add: listener_of_def)
  qed
  have pq: "map (port_of \<circ> bl_local) ls = ?qs"
    using la by (auto simp: list_all2_conv_all_nth listener_of_def intro!: nth_equalityI)
  have "own ls = map (\<lambda>l. (bl_conn l, bl_local l)) ls" using l by (auto simp: own_def filter_id_conv)
  then have eq: "map fst (conns running @ own ls) = map rd_conn running @ map bl_conn ls" by (simp add: conns_def comp_def)
  have "distinct (map fst (conns running @ own ls))" using serve_start_opened [OF os(2) start] by (simp add: opened_def)
  then have "distinct (map rd_conn running @ map bl_conn ls)" unfolding eq .
  moreover have "\<exists>l \<in> set ls. port_of (bl_local l) = port_of (rd_local (running ! i))"
    if i: "i < length running" "\<not> wild (rd_local (running ! i))" for i
  proof -
    have "i \<in> set (indexes_on running (port_of (rd_local (running ! i))))" using i by (simp add: set_indexes port_of_def)
    then have "port_of (rd_local (running ! i)) \<in> set ?qs"
      using i by (auto simp: set_used_ports has_concrete_def list_ex_iff)
    then show ?thesis unfolding pq [symmetric] by auto
  qed
  moreover have "distinct (map (port_of \<circ> bl_local) ls)" unfolding pq using set_used_ports(2) by (rule distinct_filter)
  ultimately show ?thesis unfolding wired_def using ap l by blast
qed

section \<open>A validated scenario starts\<close>

lemma loaded_device:
  assumes "loadScenario c interfaces readable path fs = Inr (s, n)" "spec \<in> set (sc_Devices s)"
  shows "\<exists>d ep. device_of t interfaces s n spec = Inr (d, ep) \<and> sd_ID d = ds_ID spec"
proof -
  obtain ds where "map_res (device_of ''device %d endpoint: %v'' interfaces s n) (sc_Devices s) = Inr ds"
    using loadScenario_ports(1) [OF assms(1)] unfolding validated_endpoints device_endpoints_def by blast
  from map_res_nth [OF this] obtain d ep where de: "device_of ''device %d endpoint: %v'' interfaces s n spec = Inr (d, ep)"
    using assms(2) by (metis in_set_conv_nth prod.collapse)
  have "BuildNetwork s = Inr n" using assms(1) by (auto simp: loadScenario_def bind_res_eq_Inr)
  then have "describes s n" using BuildNetwork_outcome [of s] by simp
  then have "sd_ID d = ds_ID spec" using device_of_Inr(3) [OF de] unfolding describes_def built_from_def by (force split: sum.splits)
  with device_of_text [THEN iffD1, OF de] show ?thesis by blast
qed

lemma open_devices_grants:
  assumes "grants listen" "\<forall>spec \<in> set specs. \<exists>d ep. device_of ''device %d: %v'' interfaces s n spec = Inr (d, ep) \<and> sd_ID d = ds_ID spec"
  shows "\<exists>new h'. open_devices interfaces listen clk s n specs running h = (Inr (running @ new), h') \<and> map rd_id new = map ds_ID specs"
  using assms(2)
proof (induction specs arbitrary: running h)
  case (Cons spec specs)
  then obtain d ep where d: "device_of ''device %d: %v'' interfaces s n spec = Inr (d, ep)" "sd_ID d = ds_ID spec" by auto
  obtain c local h1 where l: "ListenUDP listen ep h = (Inr (c, local), h1)"
    using grants_listen [OF assms(1)] by blast
  let ?r = "\<lparr>rd_id = sd_ID d, rd_app = NewApplication d clk, rd_conn = c, rd_local = local\<rparr>"
  obtain new h' where "open_devices interfaces listen clk s n specs (running @ [?r]) h1 = (Inr ((running @ [?r]) @ new), h')" "map rd_id new = map ds_ID specs"
    using Cons.IH [of "running @ [?r]" h1] Cons.prems by auto
  with d l show ?case by (intro exI [of _ "?r # new"] exI [of _ h']) simp
qed simp

lemma start_listeners_grants:
  assumes "grants listen"
  shows "\<exists>ls' h'. start_listeners listen devs ports ls h = (Inr ls', h')"
proof (induction ports arbitrary: ls h)
  case (Cons port ports)
  obtain c local h1 where "ListenUDP listen (NewEndpoint (v4_prefix @ [0, 0, 0, 0]) (word_of_nat port)) h = (Inr (c, local), h1)"
    using grants_listen [OF assms] by blast
  with Cons.IH show ?case by (auto simp: Let_def)
qed simp

lemma inspect_devices_loaded:
  assumes "\<forall>i \<in> set ids. \<exists>d ep. Network_Device n (word_of_nat i) = Inr d \<and> deviceEndpoint interfaces s d = Inr ep"
  shows "fst (inspect_devices interfaces s n ids out) = Inr ()"
  using assms by (induction ids arbitrary: out) (auto simp: wrap_error_def)

lemma loaded_inspected:
  assumes "loadScenario c interfaces readable path fs = Inr (s, n)"
  shows "fst (inspectScenario interfaces s n) = Inr ()"
proof -
  have "BuildNetwork s = Inr n" using assms by (auto simp: loadScenario_def bind_res_eq_Inr)
  then have ds: "describes s n" using BuildNetwork_outcome [of s] by simp
  have "\<exists>d ep. Network_Device n i = Inr d \<and> deviceEndpoint interfaces s d = Inr ep" if "i \<in> fst ` set n" for i
  proof -
    have "map_of n i \<noteq> None" using that by (simp add: map_of_eq_None_iff)
    then obtain d where d: "Network_Device n i = Inr d" by (auto simp: Network_Device_def)
    then obtain spec where "spec \<in> set (sc_Devices s)" "i = ds_ID spec" using ds unfolding describes_def by (force split: sum.splits)
    then show ?thesis using loaded_device [OF assms, of spec "''device %d: %v''"] device_of_Inr(3,4) by blast
  qed
  then show ?thesis unfolding inspectScenario_def by (intro inspect_devices_loaded) auto
qed

section \<open>Where datagrams go\<close>

text \<open>What serving a datagram does to an application; the state does not depend on how its answers are sent.\<close>

definition served :: "'c Now \<Rightarrow> Datagram \<Rightarrow> 'c Application \<Rightarrow> 'c Application" where
  "served now d app = snd (snd (ServeDatagram (Register now Map.empty) (\<lambda>_ _ c. (Inr (), c)) d () app))"

lemma ServeDatagram_state: "snd (snd (ServeDatagram routes wr d c st)) = snd (snd (ServeDatagram routes wr' d c' st))"
  unfolding ServeDatagram_def serve_packet_def Let_def
  by (auto simp: case_prod_unfold split: sum.splits option.splits)

lemma serve_on_running:
  "pg_running (serve_on now wr d i p)
   = (pg_running p)[i := (pg_running p ! i)\<lparr>rd_app := served now d (rd_app (pg_running p ! i))\<rparr>]"
  unfolding serve_on_def Let_def served_def
  using ServeDatagram_state [of "Register now Map.empty" "wr (rd_conn (pg_running p ! i))" d "pg_world p" "rd_app (pg_running p ! i)" "\<lambda>_ _ c. (Inr (), c)" "()"]
  by (simp add: case_prod_unfold)

lemma conns_serve_on: "conns (pg_running (serve_on now wr d i p)) = conns (pg_running p)"
  by (cases "i < length (pg_running p)") (auto simp: serve_on_running conns_def map_update list_update_same_conv list_update_beyond)

lemma conns_serve_all:
  "conns (pg_running (fold (\<lambda>i p. serve_on now wr (D i p) i p) is p)) = conns (pg_running p)"
  by (induction "is" arbitrary: p) (auto simp: conns_serve_on)

lemma conns_arrive: "conns (pg_running (arrive now wr ls payload source k p)) = conns (pg_running p)"
  by (auto simp: arrive_def serveDevice_def serveBroadcasts_def conns_serve_on conns_serve_all Let_def split: option.splits)

lemma conns_nth:
  assumes "conns a = conns b"
  shows "length a = length b" "i < length a \<Longrightarrow> rd_conn (a ! i) = rd_conn (b ! i) \<and> rd_local (a ! i) = rd_local (b ! i)"
proof -
  show l: "length a = length b" using assms by (metis conns_def length_map)
  assume "i < length a"
  with l show "rd_conn (a ! i) = rd_conn (b ! i) \<and> rd_local (a ! i) = rd_local (b ! i)"
    using arg_cong [OF assms, of "\<lambda>c. c ! i"] by (simp add: conns_def)
qed

lemma indexes_conns: "conns a = conns b \<Longrightarrow> indexes_on a q = indexes_on b q"
  unfolding indexes_on_def using conns_nth [of a b] by (auto intro!: filter_cong)

lemma wired_conns:
  assumes "conns a = conns b" "wired a ls"
  shows "wired b ls"
proof -
  note n = conns_nth [OF assms(1)] and ix = indexes_conns [OF assms(1)]
  have "map rd_conn a = map rd_conn b" using n by (auto intro: nth_equalityI)
  moreover have "apart b" using assms(2) n by (simp add: wired_def apart_def)
  moreover have "has_concrete b (indexes_on a q) = has_concrete a (indexes_on a q)" for q
    using n(2) by (auto simp: has_concrete_def list_ex_iff set_indexes)
  ultimately show ?thesis using assms(2) n ix by (auto simp: wired_def)
qed

lemma serve_all_app:
  assumes "distinct is" "\<forall>i \<in> set is. i < length (pg_running p)" "j < length (pg_running p)"
  shows "rd_app (pg_running (fold (\<lambda>i p. serve_on now wr (d\<lparr>dg_Destination := rd_local (pg_running p ! i)\<rparr>) i p) is p) ! j)
    = (if j \<in> set is then served now (d\<lparr>dg_Destination := rd_local (pg_running p ! j)\<rparr>) (rd_app (pg_running p ! j))
       else rd_app (pg_running p ! j))"
  using assms
proof (induction "is" arbitrary: p)
  case (Cons i "is")
  let ?p = "serve_on now wr (d\<lparr>dg_Destination := rd_local (pg_running p ! i)\<rparr>) i p"
  have l: "length (pg_running ?p) = length (pg_running p)" by (simp add: serve_on_running)
  with Cons.prems Cons.IH [of ?p] show ?case by (auto simp: serve_on_running nth_list_update)
qed simp

lemma direct_all: "\<forall>l \<in> set ls. bl_wildcardDevice l = - 1 \<Longrightarrow> direct_devices devs ls = replicate (length devs) True"
  unfolding direct_devices_def by (induction ls) auto

lemma arrive_device:
  assumes "wired (pg_running p) ls" "i < length (pg_running p)"
  shows "arrive now wr ls payload source (rd_conn (pg_running p ! i)) p
    = serveDevice now wr i \<lparr>dg_Payload = payload, dg_Source = source, dg_Destination = rd_local (pg_running p ! i)\<rparr> p"
proof -
  have d: "direct_devices (pg_running p) ls = replicate (length (pg_running p)) True" using assms(1) by (simp add: direct_all wired_def)
  have "find (\<lambda>j. direct_devices (pg_running p) ls ! j \<and> rd_conn (pg_running p ! j) = rd_conn (pg_running p ! i)) [0..<length (pg_running p)] = Some i"
  proof (rule find_only)
    fix j assume "j \<in> set [0..<length (pg_running p)]" "direct_devices (pg_running p) ls ! j \<and> rd_conn (pg_running p ! j) = rd_conn (pg_running p ! i)"
    moreover have "distinct (map rd_conn (pg_running p))" using assms(1) by (simp add: wired_def)
    ultimately show "j = i" using assms(2) by (auto simp: distinct_conv_nth)
  qed (use assms(2) d in auto)
  then show ?thesis by (simp add: arrive_def)
qed

lemma arrive_listener:
  assumes "wired (pg_running p) ls" "l \<in> set ls"
  shows "arrive now wr ls payload source (bl_conn l) p
    = serveBroadcasts now wr l \<lparr>dg_Payload = payload, dg_Source = source, dg_Destination = bl_local l\<rparr> p"
proof -
  have "find (\<lambda>i. direct_devices (pg_running p) ls ! i \<and> rd_conn (pg_running p ! i) = bl_conn l) [0..<length (pg_running p)] = None"
  proof -
    have "rd_conn r \<noteq> bl_conn l" if "r \<in> set (pg_running p)" for r using that assms by (auto simp: wired_def)
    then show ?thesis by (auto simp: find_None_iff)
  qed
  moreover have "find (\<lambda>l'. bl_conn l' = bl_conn l) ls = Some l"
    by (rule find_only) (use assms in \<open>auto simp: wired_def distinct_map inj_on_def\<close>)
  ultimately show ?thesis by (simp add: arrive_def)
qed

text \<open>The sockets of the program, and the ones the system hands a broadcast to: every wildcard socket of the port, and some others of it.\<close>

definition sockets :: "'c runningDevice list \<Rightarrow> broadcastListener list \<Rightarrow> (nat \<times> Endpoint) set" where
  "sockets devs ls = set (conns devs @ own ls)"

definition broadcast_to :: "'c runningDevice list \<Rightarrow> broadcastListener list \<Rightarrow> u16 \<Rightarrow> nat list \<Rightarrow> bool" where
  "broadcast_to devs ls port ks \<longleftrightarrow> distinct ks
     \<and> (\<forall>k \<in> set ks. \<exists>local. (k, local) \<in> sockets devs ls \<and> ep_Port local = port)
     \<and> (\<forall>(k, local) \<in> sockets devs ls. ep_Port local = port \<and> wild local \<longrightarrow> k \<in> set ks)"

abbreviation dgram :: "bytes \<Rightarrow> Endpoint \<Rightarrow> Endpoint \<Rightarrow> Datagram" where
  "dgram payload source destination \<equiv> \<lparr>dg_Payload = payload, dg_Source = source, dg_Destination = destination\<rparr>"

definition serve_port :: "'c Now \<Rightarrow> (nat \<Rightarrow> 'w conn_writer) \<Rightarrow> bytes \<Rightarrow> Endpoint \<Rightarrow> u16 \<Rightarrow> ('c, 'w) Program \<Rightarrow> ('c, 'w) Program" where
  "serve_port now wr payload source port p =
     fold (\<lambda>i p. serve_on now wr (dgram payload source (rd_local (pg_running p ! i))) i p) (indexes_on (pg_running p) (unat port)) p"

lemma isOriginalBroadcast_destination:
  "isOriginalBroadcast (dgram payload source a) = isOriginalBroadcast (dgram payload source b)"
  by (simp add: isOriginalBroadcast_def)

lemma sockets_cases:
  assumes "(k, local) \<in> sockets devs ls"
  obtains i where "i < length devs" "k = rd_conn (devs ! i)" "local = rd_local (devs ! i)"
    | l where "l \<in> set ls" "k = bl_conn l" "local = bl_local l"
  using assms by (auto simp: sockets_def conns_def own_def in_set_conv_nth)

lemma wildcard_alone:
  assumes "apart devs" "i < length devs" "wild (rd_local (devs ! i))"
  shows "indexes_on devs (unat (ep_Port (rd_local (devs ! i)))) = [i]"
proof -
  let ?is = "indexes_on devs (unat (ep_Port (rd_local (devs ! i))))"
  have "x = i" if "x < length devs" "unat (ep_Port (rd_local (devs ! x))) = unat (ep_Port (rd_local (devs ! i)))" for x
    using that assms unfolding apart_def word_unat_eq_iff by blast
  then have "set ?is = {i}" using assms(2) by (auto simp: set_indexes)
  moreover have "distinct ?is" by (simp add: indexes_on_def)
  ultimately show ?thesis by (cases ?is) (auto dest: subset_singletonD)
qed

lemma arrive_broadcast:
  assumes w: "wired (pg_running p) ls" and b: "isOriginalBroadcast (dgram payload source destination)"
    and k: "(k, local) \<in> sockets (pg_running p) ls"
  shows "arrive now wr ls payload source k p = (if wild local then serve_port now wr payload source (ep_Port local) p else p)"
  using k
proof (cases rule: sockets_cases)
  case (1 i)
  have b': "isOriginalBroadcast (dgram payload source local)" using b isOriginalBroadcast_destination by blast
  show ?thesis
  proof (cases "wild local")
    case True
    then have "indexes_on (pg_running p) (unat (ep_Port local)) = [i]" using wildcard_alone [of "pg_running p" i] w 1 by (simp add: wired_def)
    with arrive_device [OF w 1(1)] True 1 show ?thesis by (simp add: serveDevice_def serve_port_def)
  next
    case False
    with arrive_device [OF w 1(1)] b' 1 show ?thesis by (simp add: serveDevice_def)
  qed
next
  case (2 l)
  have b': "isOriginalBroadcast (dgram payload source local)" using b isOriginalBroadcast_destination by blast
  have l: "wild local" "bl_deviceIndexes l = indexes_on (pg_running p) (unat (ep_Port local))" using w 2 by (auto simp: wired_def port_of_def)
  with arrive_listener [OF w 2(1)] b' 2 show ?thesis by (simp add: serveBroadcasts_def serve_port_def)
qed

text \<open>Exactly one socket of a port that is used takes its broadcasts.\<close>

lemma one_hub:
  assumes w: "wired devs ls" and ks: "(k, local) \<in> sockets devs ls" "(k', local') \<in> sockets devs ls"
    and eq: "ep_Port local = ep_Port local'" "wild local" "wild local'"
  shows "k = k'"
proof -
  have listener: "False" if l: "l \<in> set ls" "port_of (bl_local l) = port_of (rd_local (devs ! i))" and i: "i < length devs" "wild (rd_local (devs ! i))" for l i
  proof -
    have "indexes_on devs (port_of (bl_local l)) = [i]" using wildcard_alone [of devs i] w i l(2) by (simp add: wired_def port_of_def)
    moreover have "has_concrete devs (indexes_on devs (port_of (bl_local l)))" using w l(1) by (auto simp: wired_def)
    ultimately show False using i(2) by (simp add: has_concrete_def)
  qed
  show ?thesis
    using ks(1)
  proof (cases rule: sockets_cases)
    case i: (1 i)
    show ?thesis using ks(2)
    proof (cases rule: sockets_cases)
      case (1 j)
      with i eq w show ?thesis by (auto simp: wired_def apart_def)
    next
      case (2 l)
      with i eq listener [of l i] show ?thesis by (auto simp: port_of_def)
    qed
  next
    case l: (2 l)
    show ?thesis using ks(2)
    proof (cases rule: sockets_cases)
      case (1 j)
      with l eq listener [of l j] show ?thesis by (auto simp: port_of_def)
    next
      case (2 l')
      then have "l = l'" using l eq w by (auto simp: wired_def distinct_map inj_on_def port_of_def)
      with l 2 show ?thesis by simp
    qed
  qed
qed

lemma hub_exists:
  assumes "wired devs ls" "i < length devs"
  shows "\<exists>k local. (k, local) \<in> sockets devs ls \<and> ep_Port local = ep_Port (rd_local (devs ! i)) \<and> wild local"
proof (cases "wild (rd_local (devs ! i))")
  case True
  then show ?thesis using assms(2) by (intro exI [of _ "rd_conn (devs ! i)"] exI [of _ "rd_local (devs ! i)"]) (auto simp: sockets_def conns_def)
next
  case False
  then obtain l where l: "l \<in> set ls" "port_of (bl_local l) = port_of (rd_local (devs ! i))" using assms by (auto simp: wired_def)
  then have "(bl_conn l, bl_local l) \<in> sockets devs ls" using assms(1) by (auto simp: sockets_def own_def wired_def)
  moreover have "wild (bl_local l)" using l assms(1) by (auto simp: wired_def)
  moreover have "ep_Port (bl_local l) = ep_Port (rd_local (devs ! i))" using l(2) by (simp add: port_of_def word_unat_eq_iff)
  ultimately show ?thesis by blast
qed

lemma arrive_idle:
  assumes "wired (pg_running p) ls" "isOriginalBroadcast (dgram payload source destination)"
    and "\<forall>k \<in> set ks. \<exists>local. (k, local) \<in> sockets (pg_running p) ls \<and> \<not> wild local"
  shows "fold (arrive now wr ls payload source) ks p = p"
  using assms(3)
proof (induction ks)
  case (Cons k ks)
  then have "arrive now wr ls payload source k p = p" using arrive_broadcast [OF assms(1,2)] by auto
  with Cons show ?case by simp
qed simp

lemma serve_port_app:
  assumes "j < length (pg_running p)"
  shows "rd_app (pg_running (serve_port now wr payload source port p) ! j)
    = (if ep_Port (rd_local (pg_running p ! j)) = port then served now (dgram payload source (rd_local (pg_running p ! j))) (rd_app (pg_running p ! j))
       else rd_app (pg_running p ! j))"
proof -
  have "distinct (indexes_on (pg_running p) (unat port))" "\<forall>i \<in> set (indexes_on (pg_running p) (unat port)). i < length (pg_running p)"
    by (simp_all add: indexes_on_def)
  from serve_all_app [OF this assms, of now wr "dgram payload source source"] assms show ?thesis
    by (simp add: serve_port_def set_indexes word_unat_eq_iff)
qed

lemma broadcast_served:
  assumes w: "wired (pg_running p) ls" and b: "isOriginalBroadcast (dgram payload source destination)"
    and ks: "broadcast_to (pg_running p) ls port ks" and j: "j < length (pg_running p)"
  shows "rd_app (pg_running (fold (arrive now wr ls payload source) ks p) ! j)
    = (if ep_Port (rd_local (pg_running p ! j)) = port then served now (dgram payload source (rd_local (pg_running p ! j))) (rd_app (pg_running p ! j))
       else rd_app (pg_running p ! j))"
proof (cases "\<exists>k local. (k, local) \<in> sockets (pg_running p) ls \<and> ep_Port local = port \<and> wild local")
  case True
  then obtain k local where k: "(k, local) \<in> sockets (pg_running p) ls" "ep_Port local = port" "wild local" by blast
  then have "k \<in> set ks" using ks by (auto simp: broadcast_to_def)
  then obtain as bs where split: "ks = as @ k # bs" by (auto simp: in_set_conv_decomp)
  have others: "\<exists>local. (k', local) \<in> sockets (pg_running p) ls \<and> \<not> wild local" if "k' \<in> set as \<union> set bs" for k'
  proof -
    have "k' \<noteq> k" "k' \<in> set ks" using that ks split by (auto simp: broadcast_to_def)
    then obtain local' where "(k', local') \<in> sockets (pg_running p) ls" "ep_Port local' = port" using ks by (auto simp: broadcast_to_def)
    with one_hub [OF w k(1) this(1)] k(2,3) \<open>k' \<noteq> k\<close> show ?thesis by auto
  qed
  let ?q = "serve_port now wr payload source port p"
  have cq: "conns (pg_running ?q) = conns (pg_running p)" by (simp add: serve_port_def conns_serve_all)
  then have "sockets (pg_running ?q) ls = sockets (pg_running p) ls" by (simp add: sockets_def)
  then have "fold (arrive now wr ls payload source) bs ?q = ?q"
    using arrive_idle [OF wired_conns [OF cq [symmetric] w] b] others by simp
  moreover have "fold (arrive now wr ls payload source) as p = p" using arrive_idle [OF w b] others by simp
  ultimately have "fold (arrive now wr ls payload source) ks p = ?q" using arrive_broadcast [OF w b k(1)] k(2,3) by (simp add: split)
  then show ?thesis using serve_port_app [OF j] by simp
next
  case False
  then have "fold (arrive now wr ls payload source) ks p = p"
    using ks by (intro arrive_idle [OF w b]) (fastforce simp: broadcast_to_def)
  moreover have "ep_Port (rd_local (pg_running p ! j)) \<noteq> port" using False hub_exists [OF w j] by auto
  ultimately show ?thesis by simp
qed

lemma unicast_served:
  assumes w: "wired (pg_running p) ls" and u: "\<not> isOriginalBroadcast (dgram payload source destination)" and j: "j < length (pg_running p)"
  shows "rd_app (pg_running (arrive now wr ls payload source k p) ! j)
    = (if rd_conn (pg_running p ! j) = k then served now (dgram payload source (rd_local (pg_running p ! j))) (rd_app (pg_running p ! j))
       else rd_app (pg_running p ! j))"
proof -
  have u': "\<not> isOriginalBroadcast (dgram payload source e)" for e using u isOriginalBroadcast_destination by blast
  show ?thesis
  proof (cases "\<exists>i < length (pg_running p). rd_conn (pg_running p ! i) = k")
    case True
    then obtain i where i: "i < length (pg_running p)" "rd_conn (pg_running p ! i) = k" by blast
    have "distinct (map rd_conn (pg_running p))" using w by (simp add: wired_def)
    then have "rd_conn (pg_running p ! j) = k \<longleftrightarrow> j = i" using i j by (auto simp: distinct_conv_nth)
    with arrive_device [OF w i(1), of now wr payload source] u' i j show ?thesis
      by (simp add: serveDevice_def serve_on_running nth_list_update)
  next
    case False
    then have f: "find (\<lambda>i. direct_devices (pg_running p) ls ! i \<and> rd_conn (pg_running p ! i) = k) [0..<length (pg_running p)] = None"
      by (auto simp: find_None_iff)
    have "bl_wildcardDevice l = - 1" if "find (\<lambda>l. bl_conn l = k) ls = Some l" for l
      using that w by (auto simp: find_Some_iff wired_def)
    then have "arrive now wr ls payload source k p = p" using u' f by (auto simp: arrive_def serveBroadcasts_def split: option.splits)
    with False j show ?thesis by auto
  qed
qed

lemma conns_events:
  "conns (pg_running (fold (\<lambda>(k, payload, source). arrive now wr ls payload source k) events p)) = conns (pg_running p)"
  by (induction events arbitrary: p) (auto simp: conns_arrive)

section \<open>Properties\<close>

text \<open>
  C13: Every datagram reaches the devices it is meant for, once, whatever has happened since the start.  When the
  system hands a broadcast for a port to every wildcard socket of the port and, as some systems do, also to any of the concrete
  ones, in any order, then each device on the port serves it exactly once, under its own address, and no other device
  does.  Any other datagram is served by the device whose socket it arrives at, and by nobody when it arrives at a
  socket for broadcasts.
\<close>

theorem datagrams_served_once:
  assumes load: "loadScenario c interfaces readable path fs = Inr (s, n)"
    and start: "serve_start interfaces listen clk s n h = (Inr (running, ls), h')" and os: "binds listen" "host_inv h"
    and p: "p = fold (\<lambda>(k, payload, source). arrive now wr ls payload source k) events \<lparr>pg_running = running, pg_world = world\<rparr>"
    and ks: "broadcast_to running ls port ks" and i: "i < length running"
  shows "if isOriginalBroadcast (dgram payload source destination)
    then rd_app (pg_running (fold (arrive now wr ls payload source) ks p) ! i)
      = (if ep_Port (rd_local (running ! i)) = port then served now (dgram payload source (rd_local (running ! i))) (rd_app (pg_running p ! i))
         else rd_app (pg_running p ! i))
    else rd_app (pg_running (arrive now wr ls payload source k p) ! i)
      = (if rd_conn (running ! i) = k then served now (dgram payload source (rd_local (running ! i))) (rd_app (pg_running p ! i))
         else rd_app (pg_running p ! i))"
proof -
  have c: "conns (pg_running p) = conns running" unfolding p by (simp add: conns_events)
  have w: "wired (pg_running p) ls" using wired_conns [OF c [symmetric] serve_start_wired [OF load start os]] .
  note n = conns_nth [OF c [symmetric]]
  have "broadcast_to (pg_running p) ls port ks" using ks c by (simp add: broadcast_to_def sockets_def)
  with broadcast_served [OF w, of payload source destination port ks i now wr] unicast_served [OF w, of payload source destination i now wr k] n(1) n(2) [OF i] i
  show ?thesis by simp
qed

text \<open>
  C15: A scenario that \<^verbatim>\<open>gobac-sim validate\<close> accepts can be inspected and starts: when the system grants the sockets, the
  program runs exactly the devices of the scenario, in its order.
\<close>

theorem validated_scenario_starts:
  assumes load: "loadScenario c interfaces readable path fs = Inr (s, n)" and grants: "grants listen"
  shows "oc_code (runCLI c interfaces readable fs serving [ascii ''validate'', path]) = 0
    \<and> oc_code (runCLI c interfaces readable fs serving [ascii ''inspect'', path]) = 0
    \<and> (\<exists>running ls h'. serve_start interfaces listen clk s n h = (Inr (running, ls), h') \<and> map rd_id running = map ds_ID (sc_Devices s))"
proof -
  have a: "ascii ''validate'' \<in> set (map ascii [''run'', ''validate'', ''inspect''])" "ascii ''inspect'' \<in> set (map ascii [''run'', ''validate'', ''inspect''])"
    "ascii ''inspect'' \<noteq> ascii ''validate''" by (auto simp: ascii_def)
  obtain out where out: "inspectScenario interfaces s n = (Inr (), out)" using loaded_inspected [OF load] by (metis prod.collapse)
  have "\<forall>spec \<in> set (sc_Devices s). \<exists>d ep. device_of ''device %d: %v'' interfaces s n spec = Inr (d, ep) \<and> sd_ID d = ds_ID spec"
    using loaded_device [OF load] by blast
  from open_devices_grants [OF grants this, where clk = clk and running = "[]" and h = h] obtain running h1
    where "open_devices interfaces listen clk s n (sc_Devices s) [] h = (Inr running, h1)" "map rd_id running = map ds_ID (sc_Devices s)" by auto
  moreover obtain ls h2 where "start_listeners listen running (used_ports running) [] h1 = (Inr ls, h2)"
    using start_listeners_grants [OF grants] by blast
  ultimately show ?thesis using load out a by (auto simp: runCLI_def serve_start_def startBroadcastListeners_def)
qed

text \<open>
  C16: The program leaves no socket open: whichever device does not resolve, whichever socket cannot be bound, and
  however serving ends, the sockets that are open afterwards are the ones that were open before.
\<close>

theorem serve_closes_sockets:
  assumes "host_inv h" "serve interfaces listen clk now wr s n events first ended world h = (r, p, h')"
  shows "set (ho_open h') = set (ho_open h)"
proof -
  obtain r1 h1 where st: "serve_start interfaces listen clk s n h = (r1, h1)" by force
  note o = serve_start_opened [OF assms(1) st]
  show ?thesis
  proof (cases r1)
    case (Inr rl)
    obtain running ls where rl: "rl = (running, ls)" by force
    with Inr o have "opened (set (ho_open h)) (ho_next h) (conns running @ own ls) h1" "borrowed running ls" by auto
    from opened_close_all(2) [OF this] assms(2) st Inr rl show ?thesis by (auto simp: serve_def Let_def)
  qed (use o assms(2) st in \<open>auto simp: serve_def\<close>)
qed

section \<open>Two devices on one port\<close>

definition demo_spec :: "u32 \<Rightarrow> string \<Rightarrow> DeviceSpec" where
  "demo_spec i a = DeviceSpec_zero\<lparr>ds_ID := i, ds_Address := ascii a, ds_Port := 47808, ds_Name := ascii ''d'',
     ds_VendorName := ascii ''v'', ds_ModelName := ascii ''m'', ds_ProtocolRevision := 14\<rparr>"

definition two_devices :: Scenario where
  "two_devices = \<lparr>sc_Version = 1, sc_Network = \<lparr>nc_Mode = ascii ''multi-ip'', nc_Interface = [], nc_Port = 47808\<rparr>,
     sc_Devices = [demo_spec 1 ''10.0.0.1'', demo_spec 2 ''10.0.0.2'']\<rparr>"

definition two_codecs :: codecs where
  "two_codecs = \<lparr>json_MarshalIndent = (\<lambda>_. Inl (Err ''json'')), yaml_Marshal = (\<lambda>_. Inl (Err ''yaml'')),
     json_Decode = (\<lambda>_. Inl (Err ''json'')), yaml_UnmarshalStrict = (\<lambda>_. Inr two_devices)\<rparr>"

lemma two_text:
  "TrimSpace (ascii ''d'') \<noteq> []" "ascii ''multi-ip'' \<noteq> ascii ''single-device''" "ascii ''multi-ip'' \<noteq> []" "ascii ''v'' \<noteq> []" "ascii ''m'' \<noteq> []"
  "TrimSpace (ascii ''10.0.0.1'') = ascii ''10.0.0.1''" "TrimSpace (ascii ''10.0.0.2'') = ascii ''10.0.0.2''"
  "ascii ''10.0.0.1'' \<noteq> []" "ascii ''10.0.0.2'' \<noteq> []" "ascii ''10.0.0.1'' \<noteq> ascii ''10.0.0.2''"
  "ParseIP (ascii ''10.0.0.1'') = Some (v4_prefix @ [10, 0, 0, 1])" "ParseIP (ascii ''10.0.0.2'') = Some (v4_prefix @ [10, 0, 0, 2])"
  by code_simp+

lemma two_defaults: "writable_scenario (applyScenarioDefaults two_devices) = two_devices"
  by (simp add: two_devices_def applyScenarioDefaults_def default_device_def demo_spec_def DeviceSpec_zero_def writable_scenario_def
      writable_device_def two_text Let_def)

lemma two_valid: "scenario_valid two_devices" "defaults_ok two_devices"
  by (simp_all add: scenario_valid_def network_shape_def devices_shape_def device_shape_def objects_valid_def two_devices_def
      demo_spec_def DeviceSpec_zero_def ScenarioVersion_def MaxObjectInstance_def two_text endpoint_def defaults_ok_def)

lemma two_decoded: "Decode two_codecs data (ascii ''yaml'') = Inr two_devices"
proof -
  have "scenario_valid (applyScenarioDefaults two_devices)"
    using two_valid(1) scenario_valid_writable [of "applyScenarioDefaults two_devices"] by (simp add: two_defaults)
  from iffD2 [OF Scenario_Validate_iff, OF conjI [OF this refl]] show ?thesis
    by (simp add: DecodeScenario_def demo_format two_codecs_def two_defaults)
qed

lemma two_endpoint:
  assumes "BuildNetwork two_devices = Inr n" "spec \<in> set (sc_Devices two_devices)"
  shows "\<exists>d. device_of t interfaces two_devices n spec = Inr (d, NewEndpoint [10, 0, 0, if ds_ID spec = 1 then 1 else 2] 47808)
    \<and> sd_ID d = ds_ID spec"
proof -
  have "describes two_devices n" using BuildNetwork_outcome [of two_devices] assms(1) by simp
  then obtain d sp where d: "Network_Device n (ds_ID spec) = Inr d" "sp \<in> set (sc_Devices two_devices)" "ds_ID sp = ds_ID spec" "built_from sp d"
    using assms(2) unfolding describes_def by (fastforce split: sum.splits)
  then have "sp = spec" using assms(2) by (auto simp: two_devices_def demo_spec_def)
  with d(4) have b: "sd_ID d = ds_ID spec" "sd_Address d = ds_Address spec" "sd_Port d = ds_Port spec" by (simp_all add: built_from_def)
  have v: "IP_To4 (v4_prefix @ [10, 0, 0, x]) = Some [10, 0, 0, x]" for x by (simp add: IP_To4_def v4_prefix_def)
  show ?thesis using assms(2) d(1) b
    by (auto simp: device_of_def deviceEndpoint_def resolveIPv4_def two_devices_def demo_spec_def two_text v Let_def wrap_error_def)
qed

definition all_bind :: listener where "all_bind = (\<lambda>_ a. Inr a)"

lemma two_started:
  "\<exists>n d1 d2. loadScenario two_codecs (\<lambda>_. Inl (Err [])) True (ascii ''a.yaml'') [ascii ''a.yaml'' \<mapsto> \<lparr>f_data = [], f_mode = 420\<rparr>] = Inr (two_devices, n)
     \<and> serve_start (\<lambda>_. Inl (Err [])) all_bind clk two_devices n \<lparr>ho_open = [], ho_next = 0\<rparr>
       = (Inr ([\<lparr>rd_id = 1, rd_app = NewApplication d1 clk, rd_conn = 0, rd_local = NewEndpoint [10, 0, 0, 1] 47808\<rparr>,
                \<lparr>rd_id = 2, rd_app = NewApplication d2 clk, rd_conn = 1, rd_local = NewEndpoint [10, 0, 0, 2] 47808\<rparr>],
               [\<lparr>bl_conn = 2, bl_local = NewEndpoint (v4_prefix @ [0, 0, 0, 0]) 47808, bl_deviceIndexes = [0, 1], bl_wildcardDevice = - 1\<rparr>]),
          \<lparr>ho_open = [(0, NewEndpoint [10, 0, 0, 1] 47808), (1, NewEndpoint [10, 0, 0, 2] 47808), (2, NewEndpoint (v4_prefix @ [0, 0, 0, 0]) 47808)],
            ho_next = 3\<rparr>)"
proof -
  let ?ifs = "\<lambda>_ :: bytes. Inl (Err []) :: net_addr list result result"
  obtain n where n: "BuildNetwork two_devices = Inr n"
    using BuildNetwork_outcome [of two_devices] two_valid by (cases "BuildNetwork two_devices") auto
  have m: "demo_spec 1 ''10.0.0.1'' \<in> set (sc_Devices two_devices)" "demo_spec 2 ''10.0.0.2'' \<in> set (sc_Devices two_devices)"
    by (simp_all add: two_devices_def)
  have ids: "ds_ID (demo_spec i a) = i" for i a by (simp add: demo_spec_def)
  obtain d1 where d1: "device_of ''device %d endpoint: %v'' ?ifs two_devices n (demo_spec 1 ''10.0.0.1'') = Inr (d1, NewEndpoint [10, 0, 0, 1] 47808)" "sd_ID d1 = 1"
    using two_endpoint [OF n m(1)] by (auto simp: ids)
  obtain d2 where d2: "device_of ''device %d endpoint: %v'' ?ifs two_devices n (demo_spec 2 ''10.0.0.2'') = Inr (d2, NewEndpoint [10, 0, 0, 2] 47808)" "sd_ID d2 = 2"
    using two_endpoint [OF n m(2)] by (auto simp: ids)
  have ds: "sc_Devices two_devices = [demo_spec 1 ''10.0.0.1'', demo_spec 2 ''10.0.0.2'']" by (simp add: two_devices_def)
  have w: "\<not> isWildcardIPv4 [10, 0, 0, 1]" "\<not> isWildcardIPv4 [10, 0, 0, 2]" by (simp_all add: isWildcardIPv4_def IP_To4_def)
  have "placed (nc_Mode (sc_Network two_devices)) [NewEndpoint [10, 0, 0, 1] 47808, NewEndpoint [10, 0, 0, 2] 47808]"
    by (simp add: placed_def compatible_def placeable_def addr_def v4_def NewEndpoint_def IP_To4_def two_devices_def modes_differ w)
  then have "validateResolvedEndpoints ?ifs two_devices n = Inr ()"
    unfolding validated_endpoints device_endpoints_def by (simp add: ds d1 d2)
  then have "loadScenario two_codecs ?ifs True (ascii ''a.yaml'') [ascii ''a.yaml'' \<mapsto> \<lparr>f_data = [], f_mode = 420\<rparr>] = Inr (two_devices, n)"
    by (simp add: loadScenario_def ReadFile_def demo_format two_decoded n wrap_error_def)
  moreover
  have listen: "ListenUDP all_bind (NewEndpoint x port) h
      = (Inr (ho_next h, NewEndpoint x port), h\<lparr>ho_open := ho_open h @ [(ho_next h, NewEndpoint x port)], ho_next := ho_next h + 1\<rparr>)"
    if "x \<noteq> []" for x port h
    using that by (simp add: ListenUDP_def all_bind_def EndpointFromUDP_def Endpoint_UDPAddr_def NewEndpoint_def ip_octets_def Let_def)
  have sel: "ep_IP (NewEndpoint x port) = x" "ep_Port (NewEndpoint x port) = port" for x port by (simp_all add: NewEndpoint_def)
  note dev = device_of_text [THEN iffD1, OF d1(1), of "''device %d: %v''"] device_of_text [THEN iffD1, OF d2(1), of "''device %d: %v''"]
  have "serve_start ?ifs all_bind clk two_devices n \<lparr>ho_open = [], ho_next = 0\<rparr>
       = (Inr ([\<lparr>rd_id = 1, rd_app = NewApplication d1 clk, rd_conn = 0, rd_local = NewEndpoint [10, 0, 0, 1] 47808\<rparr>,
                \<lparr>rd_id = 2, rd_app = NewApplication d2 clk, rd_conn = 1, rd_local = NewEndpoint [10, 0, 0, 2] 47808\<rparr>],
               [\<lparr>bl_conn = 2, bl_local = NewEndpoint (v4_prefix @ [0, 0, 0, 0]) 47808, bl_deviceIndexes = [0, 1], bl_wildcardDevice = - 1\<rparr>]),
          \<lparr>ho_open = [(0, NewEndpoint [10, 0, 0, 1] 47808), (1, NewEndpoint [10, 0, 0, 2] 47808), (2, NewEndpoint (v4_prefix @ [0, 0, 0, 0]) 47808)],
            ho_next = 3\<rparr>)"
    by (simp add: serve_start_def ds dev d1(2) d2(2) listen sel startBroadcastListeners_def used_ports_def indexes_on_def has_concrete_def
        wildcard_index_def upt_conv_Cons Let_def w)
  ultimately show ?thesis by (intro exI conjI)
qed

theorem datagrams_served_once_witness:
  "\<exists>n running ls h' p. loadScenario two_codecs (\<lambda>_. Inl (Err [])) True (ascii ''a.yaml'') [ascii ''a.yaml'' \<mapsto> \<lparr>f_data = [], f_mode = 420\<rparr>] = Inr (two_devices, n)
     \<and> serve_start (\<lambda>_. Inl (Err [])) all_bind (NewManualClock 0) two_devices n \<lparr>ho_open = [], ho_next = 0\<rparr> = (Inr (running, ls), h')
     \<and> length running = 2
     \<and> fold (arrive ManualClock_Now (\<lambda>_ _ b sent. (Inr (), sent @ [b])) ls [0x81, 11, 0, 8, 1, 0, 0x10, 8] (NewEndpoint [10, 0, 0, 9] 47808)) [2, 0]
         \<lparr>pg_running = running, pg_world = []\<rparr> = p
     \<and> rd_app (pg_running p ! 0) = served ManualClock_Now (dgram [0x81, 11, 0, 8, 1, 0, 0x10, 8] (NewEndpoint [10, 0, 0, 9] 47808) (NewEndpoint [10, 0, 0, 1] 47808)) (rd_app (running ! 0))
     \<and> rd_app (pg_running p ! 1) = served ManualClock_Now (dgram [0x81, 11, 0, 8, 1, 0, 0x10, 8] (NewEndpoint [10, 0, 0, 9] 47808) (NewEndpoint [10, 0, 0, 2] 47808)) (rd_app (running ! 1))"
proof -
  let ?ifs = "\<lambda>_ :: bytes. Inl (Err []) :: net_addr list result result"
  let ?src = "NewEndpoint [10, 0, 0, 9] 47808" and ?x = "[0x81, 11, 0, 8, 1, 0, 0x10, 8] :: bytes"
  let ?wr = "\<lambda>(_ :: nat) (_ :: Endpoint) (b :: bytes) (sent :: bytes list). (Inr () :: unit result, sent @ [b])"
  obtain n d1 d2 running ls h where n: "loadScenario two_codecs ?ifs True (ascii ''a.yaml'') [ascii ''a.yaml'' \<mapsto> \<lparr>f_data = [], f_mode = 420\<rparr>] = Inr (two_devices, n)"
    and st: "serve_start ?ifs all_bind (NewManualClock 0) two_devices n \<lparr>ho_open = [], ho_next = 0\<rparr> = (Inr (running, ls), h)"
    and r: "running = [\<lparr>rd_id = 1, rd_app = NewApplication d1 (NewManualClock 0), rd_conn = 0, rd_local = NewEndpoint [10, 0, 0, 1] 47808\<rparr>,
                \<lparr>rd_id = 2, rd_app = NewApplication d2 (NewManualClock 0), rd_conn = 1, rd_local = NewEndpoint [10, 0, 0, 2] 47808\<rparr>]"
    and l: "ls = [\<lparr>bl_conn = 2, bl_local = NewEndpoint (v4_prefix @ [0, 0, 0, 0]) 47808, bl_deviceIndexes = [0, 1], bl_wildcardDevice = - 1\<rparr>]"
    using two_started [of "NewManualClock 0"] by (elim exE conjE) (rule that; (assumption | rule refl))
  have os: "binds all_bind" "host_inv \<lparr>ho_open = [], ho_next = 0\<rparr>" by (simp_all add: binds_def all_bind_def host_inv_def)
  have wilds: "\<not> isWildcardIPv4 [10, 0, 0, 1]" "\<not> isWildcardIPv4 [10, 0, 0, 2]" by (simp_all add: isWildcardIPv4_def IP_To4_def)
  have ks: "broadcast_to running ls 47808 [2, 0]"
    by (auto simp: broadcast_to_def sockets_def conns_def own_def NewEndpoint_def wilds r l)
  have b: "isOriginalBroadcast (dgram ?x ?src ?src)" by code_simp
  have p: "\<lparr>pg_running = running, pg_world = []\<rparr>
      = fold (\<lambda>(k, payload, source). arrive ManualClock_Now ?wr ls payload source k) [] \<lparr>pg_running = running, pg_world = []\<rparr>" by simp
  have len: "length running = 2" "0 < length running" "1 < length running" by (simp_all add: r)
  have locals: "rd_local (running ! 0) = NewEndpoint [10, 0, 0, 1] 47808" "rd_local (running ! 1) = NewEndpoint [10, 0, 0, 2] 47808"
    "ep_Port (NewEndpoint x 47808) = 47808" for x by (simp_all add: r NewEndpoint_def)
  note once = datagrams_served_once [OF n st os p ks, of _ ?x ?src ?src 0, unfolded if_P [OF b]]
  have "rd_app (pg_running (fold (arrive ManualClock_Now ?wr ls ?x ?src) [2, 0] \<lparr>pg_running = running, pg_world = []\<rparr>) ! 0)
      = served ManualClock_Now (dgram ?x ?src (NewEndpoint [10, 0, 0, 1] 47808)) (rd_app (running ! 0))"
    using once [OF len(2)] unfolding locals by simp
  moreover have "rd_app (pg_running (fold (arrive ManualClock_Now ?wr ls ?x ?src) [2, 0] \<lparr>pg_running = running, pg_world = []\<rparr>) ! 1)
      = served ManualClock_Now (dgram ?x ?src (NewEndpoint [10, 0, 0, 2] 47808)) (rd_app (running ! 1))"
    using once [OF len(3)] unfolding locals by simp
  ultimately show ?thesis using n st len(1) by blast
qed

theorem validated_scenario_starts_witness:
  "\<exists>n running ls h'. oc_code (runCLI two_codecs (\<lambda>_. Inl (Err [])) True [ascii ''a.yaml'' \<mapsto> \<lparr>f_data = [], f_mode = 420\<rparr>] (\<lambda>_ _. Inr ())
       [ascii ''validate'', ascii ''a.yaml'']) = 0
     \<and> serve_start (\<lambda>_. Inl (Err [])) all_bind (NewManualClock 0) two_devices n \<lparr>ho_open = [], ho_next = 0\<rparr> = (Inr (running, ls), h')
     \<and> map rd_id running = [1, 2]"
proof -
  obtain n where n: "loadScenario two_codecs (\<lambda>_. Inl (Err [])) True (ascii ''a.yaml'') [ascii ''a.yaml'' \<mapsto> \<lparr>f_data = [], f_mode = 420\<rparr>] = Inr (two_devices, n)"
    using two_started [of "NewManualClock 0"] by (elim exE conjE) (rule that; assumption)
  have "grants all_bind" by (simp add: all_bind_def grants_def)
  note t = validated_scenario_starts [OF n this, of "\<lambda>_ _. Inr ()" "NewManualClock 0" "\<lparr>ho_open = [], ho_next = 0\<rparr>"]
  have i: "map ds_ID (sc_Devices two_devices) = [1, 2]" by (simp add: two_devices_def demo_spec_def)
  from conjunct2 [OF conjunct2 [OF t], unfolded i] obtain running ls h'
    where "serve_start (\<lambda>_. Inl (Err [])) all_bind (NewManualClock 0) two_devices n \<lparr>ho_open = [], ho_next = 0\<rparr> = (Inr (running, ls), h')"
      "map rd_id running = [1, 2]" by (elim exE conjE)
  then show ?thesis using conjunct1 [OF t] by (intro exI conjI)
qed

theorem serve_closes_sockets_witness:
  "\<exists>n r p h'. serve (\<lambda>_. Inl (Err [])) all_bind (NewManualClock 0) ManualClock_Now (\<lambda>_ _ b sent. (Inr (), sent @ [b])) two_devices n
       [] None False [] \<lparr>ho_open = [], ho_next = 0\<rparr> = (r, p, h') \<and> r = Inr () \<and> ho_open h' = []"
proof -
  let ?ifs = "\<lambda>_ :: bytes. Inl (Err []) :: net_addr list result result"
  let ?wr = "\<lambda>(_ :: nat) (_ :: Endpoint) (b :: bytes) (sent :: bytes list). (Inr () :: unit result, sent @ [b])"
  let ?h = "\<lparr>ho_open = [], ho_next = 0\<rparr>"
  obtain n running ls h1 where st: "serve_start ?ifs all_bind (NewManualClock 0) two_devices n ?h = (Inr (running, ls), h1)"
    using two_started [of "NewManualClock 0"] by blast
  obtain r p h' where s: "serve ?ifs all_bind (NewManualClock 0) ManualClock_Now ?wr two_devices n [] None False [] ?h = (r, p, h')"
    by (metis prod_cases3)
  have "host_inv ?h" by (simp add: host_inv_def)
  from serve_closes_sockets [OF this s] have "ho_open h' = []" by simp
  moreover have "r = Inr ()" using s st by (simp add: serve_def Let_def)
  ultimately show ?thesis using s by blast
qed

end
