(* ===== verification/Gui_Runner.thy ===== *)
theory Gui_Runner
  imports Sim_Serving
begin

text \<open>
  The runner of the graphical application, \<^verbatim>\<open>gui/internal/simrun/runner.go\<close>: it runs the devices of a scenario inside the
  process, each on a loopback socket with a goroutine that serves it.
\<close>

definition ErrUnsupportedScenario :: go_error where
  "ErrUnsupportedScenario = Err ''the simulator requires multi-port loopback scenarios''"

definition deviceIP :: bytes where
  "deviceIP = ascii ''127.0.0.2''"

record RunningDevice =
  rn_ID :: u32
  rn_Name :: bytes
  rn_Addr :: string
  rn_Port :: u16

text \<open>
  A runner with its devices, sockets and applications in the order of the scenario.  \<open>ru_ended\<close> is the cancelled context,
  \<open>ru_stopped\<close> the \<^verbatim>\<open>sync.Once\<close>, \<open>ru_serving\<close> the devices whose goroutine is in its receive loop, and \<open>ru_errCh\<close> the contents of the
  error channel with its capacity \<open>ru_cap\<close>.
\<close>

record 'c Runner =
  ru_devices :: "RunningDevice list"
  ru_conns :: "(nat \<times> Endpoint) list"
  ru_apps :: "'c Application list"
  ru_serving :: "nat list"
  ru_ended :: bool
  ru_stopped :: bool
  ru_cap :: nat
  ru_errCh :: "go_error list"

definition isLoopbackOrEmpty :: "bytes \<Rightarrow> bool" where
  "isLoopbackOrEmpty address = (address = [] \<or> (case ParseIP address of None \<Rightarrow> False | Some ip \<Rightarrow> IsLoopback ip))"

text \<open>\<^verbatim>\<open>Stop\<close> cancels the context, closes the sockets and waits for the goroutines.\<close>

definition Runner_Stop :: "'c Runner \<Rightarrow> Host \<Rightarrow> 'c Runner \<times> Host" where
  "Runner_Stop r h =
     (if ru_stopped r then (r\<lparr>ru_serving := []\<rparr>, h)
      else (r\<lparr>ru_ended := True, ru_stopped := True, ru_serving := []\<rparr>, fold UDPConn_Close (map fst (ru_conns r)) h))"

fun start_devices :: "listener \<Rightarrow> 'c \<Rightarrow> SimNetwork \<Rightarrow> DeviceSpec list \<Rightarrow> 'c Runner \<Rightarrow> Host \<Rightarrow> 'c Runner result \<times> Host" where
  "start_devices listen clk n [] r h = (Inr r, h)"
| "start_devices listen clk n (spec # specs) r h =
     (case wrap_error ''device %d: %v'' (Network_Device n (ds_ID spec)) of
        Inl e \<Rightarrow> (Inl e, snd (Runner_Stop r h))
      | Inr device \<Rightarrow>
          (case ListenUDP listen (NewEndpoint (case ParseIP deviceIP of Some ip \<Rightarrow> ip | None \<Rightarrow> []) (ds_Port spec)) h of
             (Inl e, h) \<Rightarrow> (wrap_error ''listen for device %d: %v'' (Inl e), snd (Runner_Stop r h))
           | (Inr (conn, actual), h) \<Rightarrow>
               start_devices listen clk n specs
                 (r\<lparr>ru_conns := ru_conns r @ [(conn, actual)],
                    ru_devices := ru_devices r @ [\<lparr>rn_ID = ds_ID spec, rn_Name = ds_Name spec, rn_Addr = IP_String (ep_IP actual), rn_Port = ep_Port actual\<rparr>],
                    ru_apps := ru_apps r @ [NewApplication device clk],
                    ru_serving := ru_serving r @ [length (ru_devices r)]\<rparr>) h))"

definition new_runner :: "bool \<Rightarrow> nat \<Rightarrow> 'c Runner" where
  "new_runner ctx_ended cap =
     \<lparr>ru_devices = [], ru_conns = [], ru_apps = [], ru_serving = [], ru_ended = ctx_ended, ru_stopped = False, ru_cap = cap, ru_errCh = []\<rparr>"

text \<open>\<^verbatim>\<open>Start\<close> also returns the scenario: validation makes commandable objects writable in place.\<close>

definition Runner_Start :: "listener \<Rightarrow> 'c \<Rightarrow> Scenario option \<Rightarrow> bool \<Rightarrow> Host \<Rightarrow> 'c Runner result \<times> Scenario option \<times> Host" where
  "Runner_Start listen clk sc ctx_ended h =
     (case sc of
        None \<Rightarrow> (Inl (Err ''scenario is nil''), sc, h)
      | Some s \<Rightarrow>
          if nc_Mode (sc_Network s) \<noteq> ascii ''multi-port'' \<and> nc_Mode (sc_Network s) \<noteq> ascii ''single-device'' then (Inl ErrUnsupportedScenario, sc, h)
          else if \<not> list_all (isLoopbackOrEmpty \<circ> ds_Address) (sc_Devices s) then (Inl ErrUnsupportedScenario, sc, h)
          else (case Scenario_Validate s of
              (Inl e, s) \<Rightarrow> (Inl e, Some s, h)
            | (Inr _, s) \<Rightarrow>
                (case BuildNetwork s of
                   Inl e \<Rightarrow> (Inl e, Some s, h)
                 | Inr n \<Rightarrow>
                     (let (r, h) = start_devices listen clk n (sc_Devices s) (new_runner ctx_ended (length (sc_Devices s))) h
                      in (r, Some s, h)))))"

text \<open>
  The end of a goroutine: \<^verbatim>\<open>Serve\<close> of the responder has returned \<open>result\<close>.  An error is forwarded unless the context has ended.
\<close>

definition Runner_serve :: "nat \<Rightarrow> unit result \<Rightarrow> 'c Runner \<Rightarrow> 'c Runner" where
  "Runner_serve i result r =
     (let r = r\<lparr>ru_serving := removeAll i (ru_serving r)\<rparr> in
      case result of
        Inl e \<Rightarrow>
          if \<not> ru_ended r \<and> length (ru_errCh r) < ru_cap r then r\<lparr>ru_errCh := ru_errCh r @ [e]\<rparr> else r
      | Inr _ \<Rightarrow> r)"

definition Runner_Devices :: "'c Runner \<Rightarrow> RunningDevice list" where
  "Runner_Devices r = ru_devices r"

text \<open>A receive from the channel that \<^verbatim>\<open>Err\<close> returns; \<open>None\<close> is a receive that blocks.\<close>

definition Runner_Err :: "'c Runner \<Rightarrow> (go_error \<times> 'c Runner) option" where
  "Runner_Err r = (case ru_errCh r of [] \<Rightarrow> None | e # es \<Rightarrow> Some (e, r\<lparr>ru_errCh := es\<rparr>))"

section \<open>Histories\<close>

text \<open>
  What can happen to a runner: a datagram for a device that serves, the end of its receive loop, the end of the context, a
  receive from the error channel, and \<^verbatim>\<open>Stop\<close>.  The state has the world that the sockets write to and, for the statements
  below, the errors that were raised while the context was alive and the ones received.
\<close>

datatype run_event =
    Arrives nat Datagram
  | Ends nat "unit result"
  | Context_ends
  | Received_error
  | Stops

record ('c, 'w) running =
  rs_runner :: "'c Runner"
  rs_host :: Host
  rs_world :: 'w
  rs_raised :: "go_error list"
  rs_received :: "go_error list"

fun run_step :: "'c Now \<Rightarrow> (nat \<Rightarrow> 'w conn_writer) \<Rightarrow> run_event \<Rightarrow> ('c, 'w) running \<Rightarrow> ('c, 'w) running" where
  "run_step now wr (Arrives i d) s =
     (let r = rs_runner s in
      if i \<in> set (ru_serving r)
      then (let (_, world, app) = ServeDatagram (Register now Map.empty) (wr (fst (ru_conns r ! i))) d (rs_world s) (ru_apps r ! i)
            in s\<lparr>rs_runner := r\<lparr>ru_apps := (ru_apps r)[i := app]\<rparr>, rs_world := world\<rparr>)
      else s)"
| "run_step now wr (Ends i result) s =
     (let r = rs_runner s in
      if i \<in> set (ru_serving r)
      then s\<lparr>rs_runner := Runner_serve i result r,
             rs_raised := rs_raised s @ (case result of Inl e \<Rightarrow> if ru_ended r then [] else [e] | Inr _ \<Rightarrow> [])\<rparr>
      else s)"
| "run_step now wr Context_ends s = s\<lparr>rs_runner := (rs_runner s)\<lparr>ru_ended := True\<rparr>\<rparr>"
| "run_step now wr Received_error s =
     (case Runner_Err (rs_runner s) of
        None \<Rightarrow> s
      | Some (e, r) \<Rightarrow> s\<lparr>rs_runner := r, rs_received := rs_received s @ [e]\<rparr>)"
| "run_step now wr Stops s = (let (r, h) = Runner_Stop (rs_runner s) (rs_host s) in s\<lparr>rs_runner := r, rs_host := h\<rparr>)"

definition run_events :: "'c Now \<Rightarrow> (nat \<Rightarrow> 'w conn_writer) \<Rightarrow> run_event list \<Rightarrow> ('c, 'w) running \<Rightarrow> ('c, 'w) running" where
  "run_events now wr es s = fold (run_step now wr) es s"

definition runner_init :: "'c Runner \<Rightarrow> Host \<Rightarrow> 'w \<Rightarrow> ('c, 'w) running" where
  "runner_init r h world = \<lparr>rs_runner = r, rs_host = h, rs_world = world, rs_raised = [], rs_received = []\<rparr>"

section \<open>Start\<close>

definition runnable :: "Scenario \<Rightarrow> bool" where
  "runnable s \<longleftrightarrow> nc_Mode (sc_Network s) \<in> {ascii ''multi-port'', ascii ''single-device''}
     \<and> (\<forall>spec \<in> set (sc_Devices s). isLoopbackOrEmpty (ds_Address spec)) \<and> scenario_valid s \<and> defaults_ok s"

lemma deviceIP_parsed: "ParseIP deviceIP = Some (v4_prefix @ [127, 0, 0, 2])"
  unfolding deviceIP_def by code_simp

lemma loopback_text: "IP_String [127, 0, 0, 2] = ''127.0.0.2''"
  by code_simp

text \<open>Where a device of the runner listens.\<close>

definition runs_as :: "DeviceSpec \<Rightarrow> RunningDevice \<Rightarrow> bool" where
  "runs_as spec d \<longleftrightarrow> rn_ID d = ds_ID spec \<and> rn_Name d = ds_Name spec \<and> rn_Addr d = ''127.0.0.2'' \<and> (ds_Port spec \<noteq> 0 \<longrightarrow> rn_Port d = ds_Port spec)"

text \<open>The devices and goroutines a runner has after it started the first of its devices.\<close>

definition all_started :: "nat \<Rightarrow> 'c Runner \<Rightarrow> bool" where
  "all_started cap r \<longleftrightarrow> length (ru_conns r) = length (ru_devices r) \<and> length (ru_apps r) = length (ru_devices r)
     \<and> ru_serving r = [0..<length (ru_devices r)] \<and> \<not> ru_stopped r \<and> ru_errCh r = [] \<and> ru_cap r = cap"

lemma Runner_Stop_opened:
  assumes "opened base k (ru_conns r) h" "\<not> ru_stopped r"
  shows "set (ho_open (snd (Runner_Stop r h))) = base"
  using assms(2) opened_fresh [OF assms(1)] opened_close [OF assms(1), of "map fst (ru_conns r)"] by (force simp: Runner_Stop_def)

lemma start_devices_opened:
  assumes "opened base k (ru_conns r) h" "\<not> ru_stopped r" "start_devices listen clk n specs r h = (res, h')"
  shows "case res of Inl _ \<Rightarrow> set (ho_open h') = base | Inr r' \<Rightarrow> opened base k (ru_conns r') h'"
  using assms
proof (induction specs arbitrary: r h)
  case (Cons spec specs)
  have stop: "set (ho_open (snd (Runner_Stop r h))) = base"
    using Cons.prems(1,2) by (simp add: Runner_Stop_opened)
  show ?case
  proof (cases "Network_Device n (ds_ID spec)")
    case (Inl e)
    with Cons.prems(3) stop show ?thesis by (auto simp: wrap_error_def split: go_error.splits)
  next
    case (Inr device)
    obtain q h1 where l: "ListenUDP listen (NewEndpoint (v4_prefix @ [127, 0, 0, 2]) (ds_Port spec)) h = (q, h1)" by force
    show ?thesis
    proof (cases q)
      case (Inl e)
      with l have "h1 = h" using ListenUDP_Inl by blast
      with Inr Inl l Cons.prems(3) stop show ?thesis by (auto simp: deviceIP_parsed wrap_error_def split: go_error.splits)
    next
      case o: (Inr x)
      obtain c local where x: "x = (c, local)" by force
      let ?r = "r\<lparr>ru_conns := ru_conns r @ [(c, local)], ru_devices := ru_devices r @ [\<lparr>rn_ID = ds_ID spec, rn_Name = ds_Name spec, rn_Addr = IP_String (ep_IP local), rn_Port = ep_Port local\<rparr>],
        ru_apps := ru_apps r @ [NewApplication device clk], ru_serving := ru_serving r @ [length (ru_devices r)]\<rparr>"
      have "start_devices listen clk n specs ?r h1 = (res, h')" using Cons.prems(3) Inr l o x by (simp add: deviceIP_parsed wrap_error_def)
      from Cons.IH [OF _ _ this] opened_listen [OF Cons.prems(1)] l o x Cons.prems(2) show ?thesis by simp
    qed
  qed
qed auto

lemma start_devices_started:
  assumes "binds listen" "all_started cap r" "start_devices listen clk n specs r h = (Inr r', h')"
  shows "all_started cap r' \<and> ru_ended r' = ru_ended r \<and> (\<exists>ds. ru_devices r' = ru_devices r @ ds \<and> list_all2 runs_as specs ds)"
  using assms(2,3)
proof (induction specs arbitrary: r h)
  case (Cons spec specs)
  from Cons.prems(2) obtain device c local h1 where d: "Network_Device n (ds_ID spec) = Inr device"
    and l: "ListenUDP listen (NewEndpoint (v4_prefix @ [127, 0, 0, 2]) (ds_Port spec)) h = (Inr (c, local), h1)"
    by (auto simp: deviceIP_parsed wrap_error_def split: sum.splits prod.splits go_error.splits)
  let ?d = "\<lparr>rn_ID = ds_ID spec, rn_Name = ds_Name spec, rn_Addr = IP_String (ep_IP local), rn_Port = ep_Port local\<rparr>"
  let ?r = "r\<lparr>ru_conns := ru_conns r @ [(c, local)], ru_devices := ru_devices r @ [?d],
    ru_apps := ru_apps r @ [NewApplication device clk], ru_serving := ru_serving r @ [length (ru_devices r)]\<rparr>"
  have "start_devices listen clk n specs ?r h1 = (Inr r', h')" using Cons.prems(2) d l by (simp add: deviceIP_parsed wrap_error_def)
  moreover have "all_started cap ?r" using Cons.prems(1) by (simp add: all_started_def)
  ultimately obtain ds where ih: "all_started cap r'" "ru_ended r' = ru_ended r" "ru_devices r' = (ru_devices r @ [?d]) @ ds" "list_all2 runs_as specs ds"
    using Cons.IH by force
  have "IP_To4 (v4_prefix @ [127, 0, 0, 2]) = Some [127, 0, 0, 2]" by (simp add: IP_To4_def v4_prefix_def)
  with ListenUDP_local [OF assms(1) l] have "IP_To4 (ep_IP local) = Some [127, 0, 0, 2]" "ds_Port spec \<noteq> 0 \<longrightarrow> ep_Port local = ds_Port spec" by (auto simp: v4_prefix_def)
  then have "runs_as spec ?d" using IP_String_To4 [of "ep_IP local"] by (simp add: runs_as_def loopback_text)
  with ih show ?case by (intro conjI exI [of _ "?d # ds"]) simp_all
qed simp

lemma start_devices_grants:
  assumes "grants listen" "\<forall>spec \<in> set specs. \<exists>d. Network_Device n (ds_ID spec) = Inr d"
  shows "\<exists>r' h'. start_devices listen clk n specs r h = (Inr r', h')"
  using assms(2)
proof (induction specs arbitrary: r h)
  case (Cons spec specs)
  then obtain device where d: "Network_Device n (ds_ID spec) = Inr device" by auto
  obtain c local h1 where l: "ListenUDP listen (NewEndpoint (v4_prefix @ [127, 0, 0, 2]) (ds_Port spec)) h = (Inr (c, local), h1)"
    using grants_listen [OF assms(1)] by blast
  show ?case using Cons d l by (simp add: deviceIP_parsed wrap_error_def)
qed simp

text \<open>What \<^verbatim>\<open>Start\<close> does with a scenario it does not run, and with one it runs.\<close>

lemma Runner_Start_cases:
  "if runnable s then
     (\<exists>n. describes (writable_scenario s) n \<and> Runner_Start listen clk (Some s) ended h =
        (let (r, h') = start_devices listen clk n (sc_Devices (writable_scenario s)) (new_runner ended (length (sc_Devices s))) h
         in (r, Some (writable_scenario s), h')))
   else \<exists>e s'. Runner_Start listen clk (Some s) ended h = (Inl e, s', h)"
proof (cases "Scenario_Validate s")
  case (Pair v s')
  note b = BuildNetwork_outcome [of s']
  show ?thesis
  proof (cases v)
    case (Inl e)
    with Pair have "\<not> scenario_valid s" using Scenario_Validate_fst [of s] by auto
    with Pair Inl show ?thesis by (simp add: Runner_Start_def runnable_def)
  next
    case (Inr u)
    with Pair have v: "scenario_valid s" "s' = writable_scenario s" using Scenario_Validate_iff [of s s'] by auto
    have w: "scenario_valid s'" "defaults_ok s' = defaults_ok s" "sc_Devices s' = map writable_device (sc_Devices s)"
      unfolding v(2) using v(1) by (simp_all add: scenario_valid_writable) (simp_all add: defaults_ok_def writable_scenario_def)
    show ?thesis
      using Pair Inr v(1) w b unfolding v(2) [symmetric]
      by (cases "BuildNetwork s'") (auto simp: Runner_Start_def runnable_def list_all_iff)
  qed
qed

lemma runs_writable: "runs_as (writable_device spec) = runs_as spec"
  by (rule ext) (simp add: runs_as_def writable_device_def)

lemma Runner_Start_Inr:
  assumes "host_inv h" "binds listen" "Runner_Start listen clk sc ended h = (Inr r, sc', h')"
  obtains s where "sc = Some s" "runnable s" "sc' = Some (writable_scenario s)" "opened (set (ho_open h)) (ho_next h) (ru_conns r) h'"
    "all_started (length (sc_Devices s)) r" "list_all2 runs_as (sc_Devices s) (ru_devices r)" "ru_ended r = ended"
proof -
  obtain s where s: "sc = Some s" "runnable s" using assms(3) Runner_Start_cases [of _ listen clk ended h]
    by (cases sc) (force simp: Runner_Start_def split: if_splits)+
  let ?r = "new_runner ended (length (sc_Devices s)) :: 'a Runner"
  from s assms(3) Runner_Start_cases [of s listen clk ended h] obtain n
    where go: "start_devices listen clk n (sc_Devices (writable_scenario s)) ?r h = (Inr r, h')" and sc': "sc' = Some (writable_scenario s)"
    by (auto simp: Let_def case_prod_unfold prod_eq_iff)
  have "opened (set (ho_open h)) (ho_next h) (ru_conns ?r) h" "\<not> ru_stopped ?r" "all_started (length (sc_Devices s)) ?r"
    using opened_init [OF assms(1)] by (simp_all add: new_runner_def all_started_def)
  from start_devices_opened [OF this(1,2) go] start_devices_started [OF assms(2) this(3) go]
  have "opened (set (ho_open h)) (ho_next h) (ru_conns r) h'" "all_started (length (sc_Devices s)) r" "list_all2 runs_as (sc_Devices (writable_scenario s)) (ru_devices r)"
    "ru_ended r = ended" by (auto simp: new_runner_def)
  then show thesis using that s sc' by (simp add: writable_scenario_def list_all2_map1 runs_writable)
qed

lemma Runner_Start_grants:
  assumes "grants listen" "runnable s"
  shows "\<exists>r h'. Runner_Start listen clk (Some s) ended h = (Inr r, Some (writable_scenario s), h')"
proof -
  from assms(2) Runner_Start_cases [of s listen clk ended h] obtain n where n: "describes (writable_scenario s) n"
    and st: "Runner_Start listen clk (Some s) ended h = (let (r, h') = start_devices listen clk n (sc_Devices (writable_scenario s))
       (new_runner ended (length (sc_Devices s))) h in (r, Some (writable_scenario s), h'))"
    by auto
  have "\<forall>spec \<in> set (sc_Devices (writable_scenario s)). \<exists>d. Network_Device n (ds_ID spec) = Inr d"
    using n unfolding describes_def by (fastforce split: sum.splits)
  from start_devices_grants [OF assms(1) this, where clk = clk and r = "new_runner ended (length (sc_Devices s))" and h = h] st
  show ?thesis by auto
qed

lemma list_all2_runs: "list_all2 runs_as specs ds \<Longrightarrow> length ds = length specs"
  by (simp add: list_all2_lengthD)

section \<open>Histories of a runner\<close>

text \<open>
  The state after any events: the goroutines that serve are some of the devices, none of them after \<^verbatim>\<open>Stop\<close>; the error channel
  has room for each of them, and holds what was raised and not received yet.
\<close>

definition runner_inv :: "(nat \<times> Endpoint) set \<Rightarrow> nat \<Rightarrow> RunningDevice list \<Rightarrow> ('c, 'w) running \<Rightarrow> bool" where
  "runner_inv base k ds s \<longleftrightarrow> (let r = rs_runner s in
     ru_devices r = ds \<and> length (ru_apps r) = length ds \<and> distinct (ru_serving r) \<and> set (ru_serving r) \<subseteq> {..<length ds}
     \<and> length (rs_raised s) + length (ru_serving r) \<le> ru_cap r \<and> rs_raised s = rs_received s @ ru_errCh r
     \<and> (if ru_stopped r then ru_ended r \<and> ru_serving r = [] \<and> set (ho_open (rs_host s)) = base else opened base k (ru_conns r) (rs_host s)))"

lemma length_removeAll_distinct: "distinct xs \<Longrightarrow> x \<in> set xs \<Longrightarrow> Suc (length (removeAll x xs)) = length xs"
  by (induction xs) auto

lemma Runner_serve_sel [simp]:
  "ru_devices (Runner_serve i res r) = ru_devices r" "ru_apps (Runner_serve i res r) = ru_apps r" "ru_conns (Runner_serve i res r) = ru_conns r"
  "ru_serving (Runner_serve i res r) = removeAll i (ru_serving r)" "ru_cap (Runner_serve i res r) = ru_cap r"
  "ru_stopped (Runner_serve i res r) = ru_stopped r" "ru_ended (Runner_serve i res r) = ru_ended r"
  by (simp_all add: Runner_serve_def Let_def split: sum.splits)

lemma Runner_serve_errCh:
  "length (ru_errCh r) < ru_cap r \<Longrightarrow>
     ru_errCh (Runner_serve i res r) = ru_errCh r @ (case res of Inl e \<Rightarrow> if ru_ended r then [] else [e] | Inr _ \<Rightarrow> [])"
  by (simp add: Runner_serve_def Let_def split: sum.splits)

lemma runner_inv_step:
  assumes inv: "runner_inv base k ds s"
  shows "runner_inv base k ds (run_step now wr e s)"
proof (cases e)
  case (Arrives i d)
  with inv show ?thesis by (auto simp: runner_inv_def Let_def split: prod.splits)
next
  case (Ends i res)
  show ?thesis
  proof (cases "i \<in> set (ru_serving (rs_runner s))")
    case True
    have "Suc (length (removeAll i (ru_serving (rs_runner s)))) = length (ru_serving (rs_runner s))"
      using True inv by (intro length_removeAll_distinct) (simp_all add: runner_inv_def Let_def)
    moreover from inv have "length (rs_raised s) + length (ru_serving (rs_runner s)) \<le> ru_cap (rs_runner s)"
      and "rs_raised s = rs_received s @ ru_errCh (rs_runner s)" unfolding runner_inv_def Let_def by blast+
    moreover from calculation have "length (ru_errCh (rs_runner s)) < ru_cap (rs_runner s)" by simp
    ultimately show ?thesis using inv True Ends
      by (auto simp: runner_inv_def Let_def Runner_serve_errCh distinct_removeAll split: sum.splits)
  qed (use inv Ends in simp)
next
  case Stops
  have "set (ho_open (snd (Runner_Stop (rs_runner s) (rs_host s)))) = base"
    using inv Runner_Stop_opened [of base k "rs_runner s" "rs_host s"] by (auto simp: runner_inv_def Let_def Runner_Stop_def split: if_splits)
  with Stops inv show ?thesis by (auto simp: runner_inv_def Let_def Runner_Stop_def split: if_splits)
qed (use inv in \<open>auto simp: runner_inv_def Let_def Runner_Err_def split: list.splits\<close>)

lemma runner_inv_events: "runner_inv base k ds s \<Longrightarrow> runner_inv base k ds (run_events now wr es s)"
  unfolding run_events_def by (induction es arbitrary: s) (auto intro: runner_inv_step)

lemma stopped_step: "ru_stopped (rs_runner (run_step now wr e s)) \<longleftrightarrow> ru_stopped (rs_runner s) \<or> e = Stops"
  by (cases e) (auto simp: Let_def Runner_Stop_def Runner_Err_def split: prod.splits list.splits)

lemma stopped_events: "ru_stopped (rs_runner (run_events now wr es s)) \<longleftrightarrow> ru_stopped (rs_runner s) \<or> Stops \<in> set es"
  unfolding run_events_def by (induction es arbitrary: s) (auto simp: stopped_step simp del: run_step.simps)

text \<open>A stopped runner is at rest.\<close>

lemma rest_step:
  assumes "ru_serving (rs_runner s) = []" "ru_stopped (rs_runner s)"
  shows "let s' = run_step now wr e s in ru_serving (rs_runner s') = [] \<and> ru_stopped (rs_runner s') \<and> ru_apps (rs_runner s') = ru_apps (rs_runner s)
     \<and> rs_host s' = rs_host s \<and> rs_world s' = rs_world s \<and> rs_raised s' = rs_raised s"
  using assms by (cases e) (auto simp: Let_def Runner_Stop_def Runner_Err_def split: list.splits)

lemma rest_events:
  "ru_serving (rs_runner s) = [] \<Longrightarrow> ru_stopped (rs_runner s) \<Longrightarrow> s' = run_events now wr es s \<Longrightarrow>
     ru_apps (rs_runner s') = ru_apps (rs_runner s) \<and> rs_host s' = rs_host s \<and> rs_world s' = rs_world s \<and> rs_raised s' = rs_raised s"
proof (induction es arbitrary: s)
  case (Cons e es)
  from rest_step [OF Cons.prems(1,2), of now wr e] Cons.IH [of "run_step now wr e s"] Cons.prems(3) show ?case
    by (simp add: run_events_def Let_def del: run_step.simps)
qed (simp add: run_events_def)

section \<open>Ports of multi-port scenarios\<close>

lemma validated_ports:
  assumes "validateResolvedEndpoints interfaces s n = Inr ()" "BuildNetwork s = Inr n" "nc_Mode (sc_Network s) = ascii ''multi-port''"
  shows "distinct (map ds_Port (sc_Devices s))"
proof -
  obtain ds where ds: "device_endpoints interfaces s n = Inr ds" "placed (ascii ''multi-port'') (map snd ds)"
    using assms(1,3) validated_endpoints by auto
  have des: "describes s n" and valid: "scenario_valid s" using BuildNetwork_outcome [of s] assms(2) by simp_all
  from valid have ids: "distinct (map ds_ID (sc_Devices s))" by (simp add: scenario_valid_def devices_shape_def)
  have len: "length ds = length (sc_Devices s)" using ds(1) by (simp add: device_endpoints_def map_res_length)
  have port: "ep_Port (snd (ds ! i)) = ds_Port (sc_Devices s ! i)" if i: "i < length (sc_Devices s)" for i
  proof -
    obtain d ep where dep: "ds ! i = (d, ep)" by force
    have "device_of ''device %d endpoint: %v'' interfaces s n (sc_Devices s ! i) = Inr (d, ep)"
      using map_res_nth [OF ds(1) [unfolded device_endpoints_def] i] dep by simp
    note de = device_of_Inr [OF this]
    obtain sp where sp: "sp \<in> set (sc_Devices s)" "ds_ID (sc_Devices s ! i) = ds_ID sp" "built_from sp d"
      using des de(3) unfolding describes_def by (force split: sum.splits)
    then have "sp = sc_Devices s ! i" using ids i by (auto simp: distinct_map inj_on_def)
    with sp(3) de(5) dep show ?thesis by (simp add: built_from_def)
  qed
  have "ds_Port (sc_Devices s ! i) \<noteq> ds_Port (sc_Devices s ! j)" if "i < j" "j < length (sc_Devices s)" for i j
  proof -
    have "compatible (ascii ''multi-port'') (snd (ds ! i)) (snd (ds ! j))" using ds(2) that len by (auto simp: placed_def sorted_wrt_iff_nth_less)
    then show ?thesis using port [of i] port [of j] that by (simp add: compatible_def)
  qed
  then show ?thesis by (auto simp: distinct_conv_nth) (metis linorder_neqE_nat)
qed

section \<open>Properties\<close>

lemma Runner_Start_Inl:
  assumes "host_inv h" "Runner_Start listen clk (Some s) ended h = (Inl e, s', h')"
  shows "set (ho_open h') = set (ho_open h)"
proof (cases "runnable s")
  case True
  let ?r = "new_runner ended (length (sc_Devices s)) :: 'a Runner"
  from True assms(2) Runner_Start_cases [of s listen clk ended h] obtain n
    where go: "start_devices listen clk n (sc_Devices (writable_scenario s)) ?r h = (Inl e, h')"
    by (auto simp: Let_def case_prod_unfold prod_eq_iff)
  have "opened (set (ho_open h)) (ho_next h) (ru_conns ?r) h" "\<not> ru_stopped ?r" using opened_init [OF assms(1)] by (simp_all add: new_runner_def)
  from start_devices_opened [OF this go] show ?thesis by simp
next
  case False
  with assms(2) Runner_Start_cases [of s listen clk ended h] show ?thesis by auto
qed

lemma Runner_Start_unsupported:
  "nc_Mode (sc_Network s) = ascii ''multi-ip'' \<or> \<not> list_all (isLoopbackOrEmpty \<circ> ds_Address) (sc_Devices s) \<Longrightarrow>
     Runner_Start listen clk (Some s) ended h = (Inl ErrUnsupportedScenario, Some s, h)"
proof -
  have "ascii ''multi-ip'' \<noteq> ascii ''multi-port''" "ascii ''multi-ip'' \<noteq> ascii ''single-device''" by (simp_all add: ascii_def)
  then show "nc_Mode (sc_Network s) = ascii ''multi-ip'' \<or> \<not> list_all (isLoopbackOrEmpty \<circ> ds_Address) (sc_Devices s) \<Longrightarrow> ?thesis"
    by (auto simp: Runner_Start_def)
qed

text \<open>
  C18: What \<^verbatim>\<open>Start\<close> of the runner does, whichever sockets the system grants.  When it succeeds, the scenario has a loopback mode and
  loopback addresses, is valid and builds, and every device of it runs under its id and name, in the order of the scenario, on the address
  127.0.0.2 and on its port, or on a port of the system's choice if it gives none; the open sockets are the ones from before and those of
  the runner.  When it fails, at whichever device, the sockets it had opened are closed again.  A scenario of the mode multi-ip or with
  another address is refused with the error that the view recognizes and is left as it was; and if the system grants every socket,
  each of the runnable scenarios is started.
\<close>

theorem runner_starts:
  assumes "host_inv h" "binds listen"
  shows "(case Runner_Start listen clk (Some s) ended h of
      (Inl e, s', h') \<Rightarrow> set (ho_open h') = set (ho_open h)
    | (Inr r, s', h') \<Rightarrow> runnable s \<and> list_all2 runs_as (sc_Devices s) (Runner_Devices r) \<and> s' = Some (writable_scenario s)
        \<and> ru_serving r = [0..<length (sc_Devices s)] \<and> set (ho_open h') = set (ho_open h) \<union> set (ru_conns r)
        \<and> length (ru_conns r) = length (sc_Devices s))
    \<and> (nc_Mode (sc_Network s) = ascii ''multi-ip'' \<or> \<not> list_all (isLoopbackOrEmpty \<circ> ds_Address) (sc_Devices s) \<longrightarrow>
         Runner_Start listen clk (Some s) ended h = (Inl ErrUnsupportedScenario, Some s, h))
    \<and> (grants listen \<and> runnable s \<longrightarrow> (\<exists>r s' h'. Runner_Start listen clk (Some s) ended h = (Inr r, s', h')))"
proof -
  obtain q s' h' where st: "Runner_Start listen clk (Some s) ended h = (q, s', h')" by (metis surj_pair)
  have "case q of Inl e \<Rightarrow> set (ho_open h') = set (ho_open h)
    | Inr r \<Rightarrow> runnable s \<and> list_all2 runs_as (sc_Devices s) (Runner_Devices r) \<and> s' = Some (writable_scenario s)
        \<and> ru_serving r = [0..<length (sc_Devices s)] \<and> set (ho_open h') = set (ho_open h) \<union> set (ru_conns r)
        \<and> length (ru_conns r) = length (sc_Devices s)"
  proof (cases q)
    case (Inl e)
    with Runner_Start_Inl [OF assms(1) st [unfolded Inl]] show ?thesis by simp
  next
    case (Inr r)
    have "runnable s \<and> list_all2 runs_as (sc_Devices s) (ru_devices r) \<and> s' = Some (writable_scenario s)
        \<and> opened (set (ho_open h)) (ho_next h) (ru_conns r) h' \<and> all_started (length (sc_Devices s)) r"
      by (rule Runner_Start_Inr [OF assms st [unfolded Inr]]) simp
    with Inr list_all2_runs show ?thesis by (auto simp: Runner_Devices_def opened_def all_started_def)
  qed
  then show ?thesis using st Runner_Start_unsupported [of s listen clk ended h] Runner_Start_grants [of listen s clk ended h]
    by (cases q) auto
qed

text \<open>
  C17: Whatever datagrams arrive, whichever goroutine stops with which error, and whenever \<^verbatim>\<open>Stop\<close> is called, a runner loses
  no error and reports none twice: the errors raised before the context ended are, in their order, the ones received followed by
  the ones still in the channel.  After \<^verbatim>\<open>Stop\<close> the sockets of the runner are closed, no device serves, and nothing more is
  written, changed or raised; until then the sockets stay open.
\<close>

theorem runner_lifecycle:
  assumes "host_inv h" "binds listen" and start: "Runner_Start listen clk sc ended h = (Inr r, sc', h')"
    and st: "st = run_events now wr es (runner_init r h' world)" and st': "st' = run_events now wr es' st"
  shows "rs_raised st = rs_received st @ ru_errCh (rs_runner st) \<and> Runner_Devices (rs_runner st) = Runner_Devices r
    \<and> (if Stops \<in> set es
       then set (ho_open (rs_host st)) = set (ho_open h) \<and> ru_serving (rs_runner st) = []
         \<and> ru_apps (rs_runner st') = ru_apps (rs_runner st) \<and> rs_world st' = rs_world st \<and> rs_raised st' = rs_raised st
         \<and> rs_host st' = rs_host st
       else set (ho_open (rs_host st)) = set (ho_open h) \<union> set (ru_conns (rs_runner st)))"
proof -
  obtain s :: Scenario where o: "opened (set (ho_open h)) (ho_next h) (ru_conns r) h'" and d: "list_all2 runs_as (sc_Devices s) (ru_devices r)" "all_started (length (sc_Devices s)) r"
    by (rule Runner_Start_Inr [OF assms(1,2) start]) blast
  note list_all2_runs [OF d(1)]
  with d(2) o have "runner_inv (set (ho_open h)) (ho_next h) (ru_devices r) (runner_init r h' world)"
    by (auto simp: runner_inv_def runner_init_def all_started_def Let_def)
  from runner_inv_events [OF this] have inv: "runner_inv (set (ho_open h)) (ho_next h) (ru_devices r) st" by (simp add: st)
  have stop: "ru_stopped (rs_runner st) \<longleftrightarrow> Stops \<in> set es" using d(2) by (simp add: st stopped_events runner_init_def all_started_def)
  show ?thesis
  proof (cases "Stops \<in> set es")
    case True
    with inv stop rest_events [OF _ _ st'] show ?thesis by (simp add: runner_inv_def Let_def Runner_Devices_def)
  next
    case False
    with inv stop show ?thesis by (simp add: runner_inv_def Let_def Runner_Devices_def opened_def)
  qed
qed

text \<open>
  C0: Two devices of a multi-port scenario that have the same port and different loopback addresses are both started, and on the same
  address and port: the runner binds every device to its own loopback address whatever address the scenario gives.  The
  command line program refuses to run such a scenario.
\<close>

theorem runner_shares_endpoint:
  assumes "host_inv h" "binds listen" "Runner_Start listen clk (Some s) ended h = (Inr r, s', h')" "nc_Mode (sc_Network s) = ascii ''multi-port''"
    and "i < length (sc_Devices s)" "j < length (sc_Devices s)" "i \<noteq> j" "ds_Port (sc_Devices s ! i) = ds_Port (sc_Devices s ! j)" "ds_Port (sc_Devices s ! i) \<noteq> 0"
  shows "rn_Addr (Runner_Devices r ! i) = rn_Addr (Runner_Devices r ! j) \<and> rn_Port (Runner_Devices r ! i) = rn_Port (Runner_Devices r ! j)
    \<and> (\<forall>c interfaces readable path fs n. loadScenario c interfaces readable path fs \<noteq> Inr (s, n))"
proof -
  have d: "list_all2 runs_as (sc_Devices s) (ru_devices r)"
    by (rule Runner_Start_Inr [OF assms(1-3)]) simp
  have "\<not> distinct (map ds_Port (sc_Devices s))" using assms(5-8) by (auto simp: distinct_conv_nth)
  then have "loadScenario c interfaces readable path fs \<noteq> Inr (s, n)" for c interfaces readable path fs n
    using validated_ports [OF _ _ assms(4)] by (auto simp: loadScenario_def bind_res_eq_Inr)
  with list_all2_nthD [OF d assms(5)] list_all2_nthD [OF d assms(6)] assms(8,9) show ?thesis
    by (simp add: runs_as_def Runner_Devices_def)
qed

section \<open>Witnesses\<close>

definition shared_port :: Scenario where
  "shared_port = \<lparr>sc_Version = 1, sc_Network = \<lparr>nc_Mode = ascii ''multi-port'', nc_Interface = [], nc_Port = 47808\<rparr>,
     sc_Devices = [demo_spec 1 ''127.0.0.3'', demo_spec 2 ''127.0.0.4'']\<rparr>"

lemma shared_text:
  "ascii ''multi-port'' \<noteq> ascii ''single-device''" "ascii ''multi-port'' \<noteq> ascii ''multi-ip''" "ascii ''127.0.0.3'' \<noteq> ascii ''127.0.0.4''"
  "isLoopbackOrEmpty (ascii ''127.0.0.3'')" "isLoopbackOrEmpty (ascii ''127.0.0.4'')"
  by code_simp+

lemma shared_runnable: "runnable shared_port"
  by (simp add: runnable_def scenario_valid_def network_shape_def devices_shape_def device_shape_def objects_valid_def shared_port_def
      demo_spec_def DeviceSpec_zero_def ScenarioVersion_def MaxObjectInstance_def two_text shared_text endpoint_def defaults_ok_def)

lemma empty_host: "host_inv \<lparr>ho_open = [], ho_next = 0\<rparr>" "binds all_bind" "grants all_bind"
  by (simp_all add: host_inv_def binds_def grants_def all_bind_def)

text \<open>All sockets are granted, and all but the first are refused.\<close>

theorem runner_starts_witness:
  "(\<exists>r s' h'. Runner_Start all_bind (NewManualClock 0) (Some shared_port) False \<lparr>ho_open = [], ho_next = 0\<rparr> = (Inr r, s', h')
     \<and> map rn_ID (Runner_Devices r) = [1, 2] \<and> set (ho_open h') = set (ru_conns r) \<and> length (ru_conns r) = 2)
   \<and> (\<exists>e s' h'. Runner_Start (\<lambda>k a. if k = 0 then Inr a else Inl (Err ''bind'')) (NewManualClock 0) (Some shared_port) False \<lparr>ho_open = [], ho_next = 0\<rparr>
       = (Inl e, s', h') \<and> ho_open h' = [])"
proof
  let ?start = "Runner_Start all_bind (NewManualClock 0) (Some shared_port) False \<lparr>ho_open = [], ho_next = 0\<rparr>"
  note t = runner_starts [OF empty_host(1,2), where clk = "NewManualClock 0" and s = shared_port and ended = False]
  obtain r h' where st: "?start = (Inr r, Some (writable_scenario shared_port), h')"
    using Runner_Start_grants [OF empty_host(3) shared_runnable, of "NewManualClock 0" False] by blast
  with t have "list_all2 runs_as (sc_Devices shared_port) (Runner_Devices r)" "set (ho_open h') = set (ru_conns r)"
    "length (ru_conns r) = length (sc_Devices shared_port)" by simp_all
  then show "\<exists>r s' h'. ?start = (Inr r, s', h') \<and> map rn_ID (Runner_Devices r) = [1, 2] \<and> set (ho_open h') = set (ru_conns r) \<and> length (ru_conns r) = 2"
    using st by (auto simp: shared_port_def list_all2_Cons1 runs_as_def demo_spec_def)
next
  let ?listen = "\<lambda>k a. if k = 0 then Inr a else Inl (Err ''bind'') :: UDPAddr result"
  let ?start = "Runner_Start ?listen (NewManualClock 0) (Some shared_port) False \<lparr>ho_open = [], ho_next = 0\<rparr>"
  have b: "binds ?listen" by (auto simp: binds_def split: if_splits)
  let ?h = "\<lparr>ho_open = [], ho_next = 0\<rparr>"
  have fails: "\<exists>e h'. start_devices ?listen clk n [x, y] r ?h = (Inl e, h')" for clk :: ManualClock and n x y r
    by (auto simp: wrap_error_def ListenUDP_def Let_def split: sum.splits go_error.splits)
  have two: "sc_Devices (writable_scenario shared_port) = [writable_device (demo_spec 1 ''127.0.0.3''), writable_device (demo_spec 2 ''127.0.0.4'')]"
    by (simp add: shared_port_def writable_scenario_def)
  obtain n where n: "?start = (let (r, h') = start_devices ?listen (NewManualClock 0) n (sc_Devices (writable_scenario shared_port))
      (new_runner False (length (sc_Devices shared_port))) ?h in (r, Some (writable_scenario shared_port), h'))"
    using Runner_Start_cases [of shared_port ?listen "NewManualClock 0" False ?h] shared_runnable by auto
  obtain e h' where "start_devices ?listen (NewManualClock 0) n (sc_Devices (writable_scenario shared_port))
      (new_runner False (length (sc_Devices shared_port))) ?h = (Inl e, h')" unfolding two using fails by blast
  with n have st: "?start = (Inl e, Some (writable_scenario shared_port), h')" by simp
  with runner_starts [OF empty_host(1) b, where clk = "NewManualClock 0" and s = shared_port and ended = False]
  have "ho_open h' = []" by simp
  with st show "\<exists>e s' h'. ?start = (Inl e, s', h') \<and> ho_open h' = []" by blast
qed

theorem runner_lifecycle_witness:
  "\<exists>r s' h'. Runner_Start all_bind (NewManualClock 0) (Some shared_port) False \<lparr>ho_open = [], ho_next = 0\<rparr> = (Inr r, s', h')
     \<and> (let st = run_events ManualClock_Now (\<lambda>_ _ b sent. (Inr (), sent @ [b])) [Ends 0 (Inl (Err [])), Stops] (runner_init r h' [])
        in rs_raised st = [Err []] \<and> ru_errCh (rs_runner st) = [Err []] \<and> ho_open (rs_host st) = [])"
proof -
  let ?wr = "\<lambda>(_ :: nat) (_ :: Endpoint) (b :: bytes) (sent :: bytes list). (Inr () :: unit result, sent @ [b])"
  obtain r h' where st: "Runner_Start all_bind (NewManualClock 0) (Some shared_port) False \<lparr>ho_open = [], ho_next = 0\<rparr> = (Inr r, Some (writable_scenario shared_port), h')"
    using Runner_Start_grants [OF empty_host(3) shared_runnable, of "NewManualClock 0" False] by blast
  let ?s = "run_events ManualClock_Now ?wr [Ends 0 (Inl (Err [])), Stops] (runner_init r h' [])"
  note t = runner_lifecycle [OF empty_host(1,2) st refl refl, where es = "[Ends 0 (Inl (Err [])), Stops]" and wr = ?wr and now = ManualClock_Now and world = "[]" and es' = "[]"]
  have "all_started 2 r \<and> list_all2 runs_as (sc_Devices shared_port) (ru_devices r) \<and> \<not> ru_ended r"
    by (rule Runner_Start_Inr [OF empty_host(1,2) st]) (simp add: shared_port_def numeral_2_eq_2)
  then have "ru_serving r = [0, 1]" "\<not> ru_stopped r" "\<not> ru_ended r" "ru_cap r = 2" "ru_errCh r = []"
    by (auto simp: all_started_def shared_port_def list_all2_Cons1 upt_rec)
  then have "rs_raised ?s = [Err []]" "rs_received ?s = []"
    by (auto simp: run_events_def runner_init_def Let_def Runner_Stop_def Runner_serve_def)
  with t st show ?thesis by (auto simp: Let_def)
qed

theorem runner_shares_endpoint_witness:
  "\<exists>r s' h'. Runner_Start all_bind (NewManualClock 0) (Some shared_port) False \<lparr>ho_open = [], ho_next = 0\<rparr> = (Inr r, s', h')
     \<and> rn_Addr (Runner_Devices r ! 0) = rn_Addr (Runner_Devices r ! 1) \<and> rn_Port (Runner_Devices r ! 0) = rn_Port (Runner_Devices r ! 1)"
proof -
  obtain r h' where st: "Runner_Start all_bind (NewManualClock 0) (Some shared_port) False \<lparr>ho_open = [], ho_next = 0\<rparr> = (Inr r, Some (writable_scenario shared_port), h')"
    using Runner_Start_grants [OF empty_host(3) shared_runnable, of "NewManualClock 0" False] by blast
  have "nc_Mode (sc_Network shared_port) = ascii ''multi-port''" "length (sc_Devices shared_port) = 2"
    "ds_Port (sc_Devices shared_port ! 0) = 47808" "ds_Port (sc_Devices shared_port ! 1) = 47808" by (simp_all add: shared_port_def demo_spec_def)
  then show ?thesis using runner_shares_endpoint [OF empty_host(1,2) st, of 0 1] st by simp
qed

end
