(* ===== verification/Strconv.thy ===== *)
theory Strconv
  imports Net_Parse
begin

text \<open>
  Numbers and truth values as text, the functions of \<^verbatim>\<open>strconv\<close> that the programs use: \<^verbatim>\<open>ParseUint\<close> and \<^verbatim>\<open>Atoi\<close> in base ten,
  \<^verbatim>\<open>ParseBool\<close>, and the functions that write them.  Text is octets, \<^verbatim>\<open>int\<close> has 64 bits.
\<close>

definition ErrSyntax :: go_error where "ErrSyntax = Err ''invalid syntax''"
definition ErrRange :: go_error where "ErrRange = Err ''value out of range''"

fun parse_digits :: "nat \<Rightarrow> nat \<Rightarrow> bytes \<Rightarrow> nat result" where
  "parse_digits maxVal n [] = Inr n"
| "parse_digits maxVal n (c # cs) =
     (if \<not> is_digit c then Inl ErrSyntax
      else (let n1 = n * 10 + (unat c - 48) in if n1 > maxVal then Inl ErrRange else parse_digits maxVal n1 cs))"

definition ParseUint :: "bytes \<Rightarrow> nat \<Rightarrow> nat result" where
  "ParseUint s bitSize = (if s = [] then Inl ErrSyntax else parse_digits (2 ^ bitSize - 1) 0 s)"

definition Atoi :: "bytes \<Rightarrow> int result" where
  "Atoi s =
     (if s = [] then Inl ErrSyntax
      else (let neg = (hd s = 45); digits = (if hd s = 45 \<or> hd s = 43 then tl s else s) in
        bind_res (ParseUint digits 64) (\<lambda>un.
          if \<not> neg \<and> un \<ge> 2 ^ 63 then Inl ErrRange
          else if neg \<and> un > 2 ^ 63 then Inl ErrRange
          else Inr (if neg then - int un else int un))))"

definition ParseBool :: "bytes \<Rightarrow> bool result" where
  "ParseBool s =
     (if s \<in> set (map ascii [''1'', ''t'', ''T'', ''true'', ''TRUE'', ''True'']) then Inr True
      else if s \<in> set (map ascii [''0'', ''f'', ''F'', ''false'', ''FALSE'', ''False'']) then Inr False
      else Inl ErrSyntax)"

definition FormatBool :: "bool \<Rightarrow> bytes" where
  "FormatBool b = ascii (if b then ''true'' else ''false'')"

definition FormatUint :: "nat \<Rightarrow> bytes" where
  "FormatUint n = ascii (itoa n)"

definition FormatInt :: "int \<Rightarrow> bytes" where
  "FormatInt i = (if i < 0 then 45 # FormatUint (nat (- i)) else FormatUint (nat i))"

section \<open>Reading what is written\<close>

lemma parse_digits_append:
  "parse_digits m n (xs @ ys) = bind_res (parse_digits m n xs) (\<lambda>n. parse_digits m n ys)"
  by (induction m n xs rule: parse_digits.induct) (auto simp: Let_def)

lemma parse_digits_itoa: "n \<le> m \<Longrightarrow> parse_digits m 0 (ascii (itoa n)) = Inr n"
proof (induction n rule: itoa.induct)
  case (1 n)
  show ?case
  proof (cases "n < 10")
    case True
    then have "itoa n = [char_of (48 + n)]" by (subst itoa.simps) simp
    with digit_octet [OF True] 1(2) show ?thesis by (simp add: ascii_def Let_def)
  next
    case False
    then have i: "ascii (itoa n) = ascii (itoa (n div 10)) @ [of_char (char_of (48 + n mod 10))]" by (subst itoa.simps) (simp add: ascii_def)
    have "n mod 10 < 10" by simp
    note d = digit_octet [OF this]
    have "parse_digits m 0 (ascii (itoa (n div 10))) = Inr (n div 10)" using 1(1) [OF False] 1(2) by linarith
    then show ?thesis unfolding i parse_digits_append using d 1(2) by (simp add: Let_def)
  qed
qed

lemma FormatUint_digits: "FormatUint n \<noteq> []" "c \<in> set (FormatUint n) \<Longrightarrow> is_digit c"
  using ascii_itoa_digits by (auto simp: FormatUint_def ascii_def itoa_Cons)

lemma ParseUint_Format: "n < 2 ^ k \<Longrightarrow> ParseUint (FormatUint n) k = Inr n"
  using FormatUint_digits(1) [of n] by (simp add: ParseUint_def) (simp add: FormatUint_def parse_digits_itoa)

lemma Atoi_FormatInt:
  assumes "- (2 ^ 63) \<le> i" "i < 2 ^ 63"
  shows "Atoi (FormatInt i) = Inr i"
proof (cases "i < 0")
  case True
  then have "nat (- i) < 2 ^ 64" "\<not> nat (- i) > 2 ^ 63" using assms by (simp_all add: nat_less_iff)
  with True show ?thesis using ParseUint_Format [of "nat (- i)" 64] by (simp add: Atoi_def FormatInt_def Let_def)
next
  case False
  then have n: "nat i < 2 ^ 64" "\<not> nat i \<ge> 2 ^ 63" using assms by (simp_all add: nat_less_iff)
  have "is_digit (hd (FormatUint (nat i)))" using FormatUint_digits(1) [of "nat i"] FormatUint_digits(2) [of "hd (FormatUint (nat i))" "nat i"] by simp
  then have "hd (FormatUint (nat i)) \<noteq> 45" "hd (FormatUint (nat i)) \<noteq> 43" by (auto simp: is_digit_def)
  with False n show ?thesis using ParseUint_Format [of "nat i" 64] FormatUint_digits(1) [of "nat i"] by (simp add: Atoi_def FormatInt_def Let_def)
qed

lemma ParseBool_Format: "ParseBool (FormatBool b) = Inr b"
proof -
  have "ParseBool (FormatBool True) = Inr True" "ParseBool (FormatBool False) = Inr False" by code_simp+
  then show ?thesis by (cases b) simp_all
qed

lemma Atoi_bounds: "Atoi s = Inr i \<Longrightarrow> - (2 ^ 63) \<le> i \<and> i < 2 ^ 63"
  by (auto simp: Atoi_def Let_def bind_res_eq_Inr split: if_splits)

end
