(* ===== verification/Gui_Values.thy ===== *)
theory Gui_Values
  imports Strconv Gui_Session
begin

text \<open>
  Values as text in the object browser, \<^verbatim>\<open>gui/internal/ui/valuefmt.go\<close>: the text shown for a value that was read, and the
  value written for a text that was typed.  The conversions between floating-point numbers and text, and the
  default format of \<^verbatim>\<open>fmt\<close>, are arguments.
\<close>

record float_text =
  ft_Format :: "u64 \<Rightarrow> nat \<Rightarrow> bytes"
  ft_Parse :: "bytes \<Rightarrow> nat \<Rightarrow> u64 result"

text \<open>
  What the documentation of \<^verbatim>\<open>strconv\<close> promises for the precision \<^verbatim>\<open>-1\<close>: the text identifies the number among the numbers of the
  given size.
\<close>

definition exact_text :: "float_text \<Rightarrow> bool" where
  "exact_text ft \<longleftrightarrow> (\<forall>f. \<not> is_NaN64 f \<longrightarrow> ft_Parse ft (ft_Format ft f 64) 64 = Inr f)
     \<and> (\<forall>f. \<not> is_NaN32 f \<longrightarrow> ft_Parse ft (ft_Format ft (f32_to_f64 f) 32) 32 = Inr (f32_to_f64 f))"

definition joined :: "bytes \<Rightarrow> bytes list \<Rightarrow> bytes" where
  "joined sep parts = (case parts of [] \<Rightarrow> [] | p # ps \<Rightarrow> p @ concat (map (\<lambda>q. sep @ q) ps))"

definition FormatValue :: "float_text \<Rightarrow> (go_value \<Rightarrow> bytes) \<Rightarrow> Value \<Rightarrow> bytes" where
  "FormatValue ft sprint v =
     (case va_Value v of
        Plain VNil \<Rightarrow> []
      | Plain (VBool val) \<Rightarrow> FormatBool val
      | Plain (VUint32 val) \<Rightarrow> FormatUint (unat val)
      | Plain (VInt32 val) \<Rightarrow> FormatInt (sint val)
      | Plain (VFloat32 val) \<Rightarrow> ft_Format ft (f32_to_f64 val) 32
      | Plain (VFloat64 val) \<Rightarrow> ft_Format ft val 64
      | Plain (VString val) \<Rightarrow> val
      | Bits val \<Rightarrow> ascii ''{'' @ joined (ascii '' '') (map FormatBool val) @ ascii ''}''
      | Ref val \<Rightarrow> FormatUint (unat (or_Type val)) @ ascii '':'' @ FormatUint (unat (or_Instance val))
      | Plain val \<Rightarrow> sprint val)"

definition ParseWriteValue :: "float_text \<Rightarrow> u8 \<Rightarrow> bytes \<Rightarrow> go_value result" where
  "ParseWriteValue ft tag text =
     (if tag = 0 then Inr VNil
      else if tag = 1 then bind_res (ParseBool text) (\<lambda>b. Inr (VBool b))
      else if tag = 2 \<or> tag = 3 \<or> tag = 9 then bind_res (Atoi text) (\<lambda>i. Inr (VInt (word_of_int i)))
      else if tag = 4 then bind_res (ft_Parse ft text 32) (\<lambda>v. Inr (VFloat32 (f64_to_f32 v)))
      else if tag = 5 then bind_res (ft_Parse ft text 64) (\<lambda>v. Inr (VFloat64 v))
      else if tag = 7 then Inr (VString text)
      else Inl (Err ''unsupported data tag %d''))"

section \<open>Writing back what is shown\<close>

text \<open>The values that a text can stand for: a number that is one, and text in the encoding the facade writes.\<close>

definition editable :: "PropertyValue \<Rightarrow> bool" where
  "editable p \<longleftrightarrow> pv_Type p \<in> {0, 1, 2, 3, 4, 5, 7, 9}
     \<and> (case pv_Value p of VReal f \<Rightarrow> \<not> is_NaN32 f | VDouble f \<Rightarrow> \<not> is_NaN64 f | VCharacterString c \<Rightarrow> cs_Encoding c = 0 | _ \<Rightarrow> True)"

lemma decoded_kind:
  assumes "PropertyValue_UnmarshalBinary b = Inr p"
  shows "pv_Type p = 0 \<Longrightarrow> pv_Value p = VNil"
    "pv_Type p = 1 \<Longrightarrow> \<exists>x. pv_Value p = VBool x"
    "pv_Type p = 2 \<or> pv_Type p = 9 \<Longrightarrow> \<exists>x. pv_Value p = VUint32 x"
    "pv_Type p = 3 \<Longrightarrow> \<exists>x. pv_Value p = VInt32 x"
    "pv_Type p = 4 \<Longrightarrow> \<exists>x. pv_Value p = VReal x"
    "pv_Type p = 5 \<Longrightarrow> \<exists>x. pv_Value p = VDouble x"
    "pv_Type p = 7 \<Longrightarrow> \<exists>x. pv_Value p = VCharacterString x"
  using assms
  by (auto simp: PropertyValue_UnmarshalBinary_def PropertyValue_payload_def Let_def bind_res_eq_Inr split: if_splits prod.splits)

lemma word_of_int_sint32: "ucast (word_of_int (sint (x :: u32)) :: u64) = x"
  by (rule bit_word_eqI) (simp add: bit_simps)

text \<open>The request that the browser sends for the text it shows carries the encoding of the value that was read.\<close>

lemma shown_value_encoded:
  assumes "exact_text ft" "PropertyValue_UnmarshalBinary b = Inr p" "editable p"
  shows "\<exists>v. ParseWriteValue ft (pv_Type p) (FormatValue ft sprint (toValue p)) = Inr v
    \<and> PropertyValue_MarshalBinary \<lparr>pv_Type = pv_Type p, pv_Value = Gui_Session.wire_value \<lparr>wq_Tag = pv_Type p, wq_Priority = prio, wq_Value = v\<rparr>\<rparr>
        = PropertyValue_MarshalBinary p"
proof -
  note d = decoded_kind [OF assms(2)]
  let ?w = "\<lambda>v. PropertyValue_MarshalBinary \<lparr>pv_Type = pv_Type p, pv_Value = Gui_Session.wire_value \<lparr>wq_Tag = pv_Type p, wq_Priority = prio, wq_Value = v\<rparr>\<rparr>"
  note defs = FormatValue_def ParseWriteValue_def toValue_def Gui_Session.wire_value_def PropertyValue_MarshalBinary_def
    PropertyValue_coerce_def PropertyValue_encode_def coerce_number_def ConvertibleTo_def convertible_numeric_def
  have "pv_Type p \<in> {0, 1, 2, 3, 4, 5, 7, 9}" using assms(3) by (simp add: editable_def)
  then consider "pv_Type p = 0" | "pv_Type p = 1" | "pv_Type p = 2 \<or> pv_Type p = 9" | "pv_Type p = 3" | "pv_Type p = 4" | "pv_Type p = 5" | "pv_Type p = 7" by auto
  then show ?thesis
  proof cases
    case 1
    then show ?thesis using d(1) by (simp add: defs)
  next
    case 2
    then obtain x where "pv_Value p = VBool x" using d(2) by blast
    with 2 show ?thesis by (simp add: defs ParseBool_Format)
  next
    case 3
    then obtain x where x: "pv_Value p = VUint32 x" using d(3) by blast
    have "Atoi (FormatUint (unat x)) = Inr (int (unat x))"
      using Atoi_FormatInt [of "uint x"] unsigned_less [of x, where 'a = int] order_trans [OF _ unsigned_greater_eq [of x, where 'a = int], of "- (2 ^ 63)"]
      by (simp add: FormatInt_def)
    moreover have "(ucast (word_of_int (int (unat x)) :: u64) :: u32) = x" by (rule bit_word_eqI) (simp add: bit_simps)
    ultimately show ?thesis using 3 x by (auto simp: defs convert_uint32_def)
  next
    case 4
    then obtain x where x: "pv_Value p = VInt32 x" using d(4) by blast
    have "Atoi (FormatInt (sint x)) = Inr (sint x)"
      using sint_greater_eq [of x] sint_less [of x] by (intro Atoi_FormatInt) simp_all
    with 4 x word_of_int_sint32 [of x] show ?thesis by (simp add: defs convert_int32_def)
  next
    case 5
    then obtain x where x: "pv_Value p = VReal x" using d(5) by blast
    then have "\<not> is_NaN32 x" using assms(3) by (simp add: editable_def)
    with 5 x assms(1) show ?thesis by (simp add: defs exact_text_def convert_float32_def f64_to_f32_f32_to_f64)
  next
    case 6
    then obtain x where x: "pv_Value p = VDouble x" using d(6) by blast
    then have "\<not> is_NaN64 x" using assms(3) by (simp add: editable_def)
    with 6 x assms(1) show ?thesis by (simp add: defs exact_text_def convert_float64_def)
  next
    case 7
    then obtain x where x: "pv_Value p = VCharacterString x" using d(7) by blast
    moreover have "cs_Encoding x = 0" using assms(3) x by (simp add: editable_def)
    ultimately show ?thesis using 7 by (cases x) (simp add: defs)
  qed
qed

lemma editable_no_NaN32: "editable p \<Longrightarrow> no_NaN32 p"
  by (auto simp: editable_def no_NaN32_def split: go_value.splits)

definition demo_text :: float_text where
  "demo_text = \<lparr>ft_Format = (\<lambda>f _. Double_MarshalBinary f), ft_Parse = (\<lambda>s _. Double_UnmarshalBinary s)\<rparr>"

lemma demo_exact: "exact_text demo_text"
  by (simp add: exact_text_def demo_text_def)

text \<open>
  C21: What the browser shows for a value can be written back.  Let the octets \<open>b\<close> decode to a value that is editable: of a tag that
  the browser writes (Null, Boolean, Unsigned, Signed, Real, Double, CharacterString or Enumerated), not a NaN, and with a
  character string in encoding 0.  Then the text shown parses, and the octets sent for it decode to the value that was read, whatever
  follows them.  They are the octets that were read when those are the encoding of the library; a peer that pads a number,
  \<^verbatim>\<open>[0x22, 0, 5]\<close> for 5, is sent the shorter \<^verbatim>\<open>[0x21, 5]\<close>.
\<close>

theorem shown_value_written_back:
  assumes "exact_text ft" "PropertyValue_UnmarshalBinary b = Inr p" "editable p"
  shows "\<exists>v octets. ParseWriteValue ft (pv_Type p) (FormatValue ft sprint (toValue p)) = Inr v
    \<and> PropertyValue_MarshalBinary \<lparr>pv_Type = pv_Type p, pv_Value = Gui_Session.wire_value \<lparr>wq_Tag = pv_Type p, wq_Priority = prio, wq_Value = v\<rparr>\<rparr>
        = Inr octets
    \<and> (\<forall>rest. PropertyValue_UnmarshalBinary (octets @ rest) = Inr p)
    \<and> (PropertyValue_MarshalBinary p = Inr b \<longrightarrow> octets = b)"
proof -
  obtain v where "ParseWriteValue ft (pv_Type p) (FormatValue ft sprint (toValue p)) = Inr v"
    "PropertyValue_MarshalBinary \<lparr>pv_Type = pv_Type p, pv_Value = Gui_Session.wire_value \<lparr>wq_Tag = pv_Type p, wq_Priority = prio, wq_Value = v\<rparr>\<rparr>
      = PropertyValue_MarshalBinary p" using shown_value_encoded [OF assms] by blast
  moreover obtain octets where "PropertyValue_MarshalBinary p = Inr octets" "\<forall>rest. PropertyValue_UnmarshalBinary (octets @ rest) = Inr p"
    using decoded_reencodes [OF Unmarshal_decoded_wf [OF assms(2)] editable_no_NaN32 [OF assms(3)]] by blast
  ultimately show ?thesis by auto
qed

theorem shown_value_written_back_witness:
  "(\<exists>v. ParseWriteValue demo_text 3 (FormatValue demo_text (\<lambda>_. []) (toValue \<lparr>pv_Type = 3, pv_Value = VInt32 (- 200)\<rparr>)) = Inr v
      \<and> PropertyValue_MarshalBinary \<lparr>pv_Type = 3, pv_Value = Gui_Session.wire_value \<lparr>wq_Tag = 3, wq_Priority = 8, wq_Value = v\<rparr>\<rparr>
          = Inr [0x32, 0xFF, 0x38])
    \<and> (\<exists>v octets. ParseWriteValue demo_text 2 (FormatValue demo_text (\<lambda>_. []) (toValue \<lparr>pv_Type = 2, pv_Value = VUint32 5\<rparr>)) = Inr v
      \<and> PropertyValue_MarshalBinary \<lparr>pv_Type = 2, pv_Value = Gui_Session.wire_value \<lparr>wq_Tag = 2, wq_Priority = 8, wq_Value = v\<rparr>\<rparr> = Inr octets
      \<and> PropertyValue_UnmarshalBinary octets = PropertyValue_UnmarshalBinary [0x22, 0, 5])"
proof -
  let ?p = "\<lparr>pv_Type = 3, pv_Value = VInt32 (- 200)\<rparr>" and ?q = "\<lparr>pv_Type = 2, pv_Value = VUint32 5\<rparr>"
  have p: "PropertyValue_UnmarshalBinary [0x32, 0xFF, 0x38] = Inr ?p" and m: "PropertyValue_MarshalBinary ?p = Inr [0x32, 0xFF, 0x38]"
    and q: "PropertyValue_UnmarshalBinary [0x22, 0, 5] = Inr ?q" by code_simp+
  have e: "editable ?p" "editable ?q" by (simp_all add: editable_def)
  from shown_value_written_back [OF demo_exact p e(1), of "\<lambda>_. []" 8] m
  obtain v where "ParseWriteValue demo_text 3 (FormatValue demo_text (\<lambda>_. []) (toValue ?p)) = Inr v"
    "PropertyValue_MarshalBinary \<lparr>pv_Type = 3, pv_Value = Gui_Session.wire_value \<lparr>wq_Tag = 3, wq_Priority = 8, wq_Value = v\<rparr>\<rparr>
      = Inr [0x32, 0xFF, 0x38]" by auto
  moreover from shown_value_written_back [OF demo_exact q e(2), of "\<lambda>_. []" 8]
  obtain w octets where "ParseWriteValue demo_text 2 (FormatValue demo_text (\<lambda>_. []) (toValue ?q)) = Inr w"
    "PropertyValue_MarshalBinary \<lparr>pv_Type = 2, pv_Value = Gui_Session.wire_value \<lparr>wq_Tag = 2, wq_Priority = 8, wq_Value = w\<rparr>\<rparr> = Inr octets"
    "\<forall>rest. PropertyValue_UnmarshalBinary (octets @ rest) = Inr ?q" by auto
  ultimately show ?thesis using q by (metis append_Nil2)
qed

end
