(* ===== verification/Gui_Editor.thy ===== *)
theory Gui_Editor
  imports Gui_Edits Gui_Store Gui_Runner Gui_Values
begin

text \<open>
  The simulator view of the graphical application, \<^verbatim>\<open>gui/internal/ui/editor.go\<close>, without its widgets: the document that is edited, the
  selection, what the view shows of the validation, the buttons that can be pressed, and the running simulation.  A handler
  is a function on the state of the view; a goroutine that a handler starts is a step of its own.
\<close>

section \<open>Values in the forms\<close>

definition networkModes :: "bytes list" where
  "networkModes = map ascii [''single-device'', ''multi-ip'', ''multi-port'']"

definition objectTypeOptions :: "bytes list" where
  "objectTypeOptions = map ascii [''analog-input'', ''analog-output'', ''analog-value'', ''binary-input'', ''binary-output'', ''binary-value'',
     ''multi-state-input'', ''multi-state-output'', ''multi-state-value'']"

datatype category = Analog | Binary | Multistate | NoCategory

definition classifyObjectType :: "bytes \<Rightarrow> category" where
  "classifyObjectType t =
     (let name = ToLower (map (\<lambda>c. if c = 95 then 45 else c) (TrimSpace t)) in
      if name \<in> set (map ascii [''analog-input'', ''analog-output'', ''analog-value'']) then Analog
      else if name \<in> set (map ascii [''binary-input'', ''binary-output'', ''binary-value'']) then Binary
      else if name \<in> set (map ascii [''multistate-input'', ''multistate-output'', ''multistate-value'',
           ''multi-state-input'', ''multi-state-output'', ''multi-state-value'']) then Multistate
      else NoCategory)"

definition parseCategoryValue :: "float_text \<Rightarrow> category \<Rightarrow> bytes \<Rightarrow> go_value option" where
  "parseCategoryValue ft cat text =
     (let text = TrimSpace text in
      case cat of
        Analog \<Rightarrow> (case ft_Parse ft text 64 of Inl _ \<Rightarrow> None | Inr n \<Rightarrow> Some (VFloat64 n))
      | Multistate \<Rightarrow> (case ParseUint text 32 of Inl _ \<Rightarrow> None | Inr n \<Rightarrow> Some (VUint32 (word_of_nat n)))
      | _ \<Rightarrow> None)"

definition toFloat64 :: "go_value \<Rightarrow> u64 option" where
  "toFloat64 val = (case val of
       VFloat64 v \<Rightarrow> Some v | VFloat32 v \<Rightarrow> Some (f32_to_f64 v) | VInt v \<Rightarrow> Some (int_to_f64 (sint v))
     | VUint32 v \<Rightarrow> Some (int_to_f64 (uint v)) | VUint64 v \<Rightarrow> Some (int_to_f64 (uint v)) | _ \<Rightarrow> None)"

definition toUint32Value :: "go_value \<Rightarrow> u32 option" where
  "toUint32Value val = (case val of
       VUint32 v \<Rightarrow> Some v
     | VUint64 v \<Rightarrow> Some (ucast v)
     | VInt v \<Rightarrow> if sint v < 0 then None else Some (ucast v)
     | VFloat64 v \<Rightarrow> if f64_less v 0 then None else Some (f64_to_uint32 v)
     | _ \<Rightarrow> None)"

definition valueEntryText :: "float_text \<Rightarrow> category \<Rightarrow> go_value \<Rightarrow> bytes" where
  "valueEntryText ft cat val =
     (case cat of
        Analog \<Rightarrow> (case toFloat64 val of None \<Rightarrow> [] | Some f \<Rightarrow> ft_Format ft f 64)
      | Multistate \<Rightarrow> (case toUint32Value val of None \<Rightarrow> [] | Some n \<Rightarrow> FormatUint (unat n))
      | _ \<Rightarrow> [])"

definition binaryValueText :: "go_value \<Rightarrow> bytes" where
  "binaryValueText val = ascii (case val of
       VString v \<Rightarrow> if ToLower v \<in> set (map ascii [''active'', ''true'', ''1'']) then ''active'' else ''inactive''
     | VBool v \<Rightarrow> if v then ''active'' else ''inactive''
     | VUint32 v \<Rightarrow> if v = 1 then ''active'' else ''inactive''
     | VInt v \<Rightarrow> if v = 1 then ''active'' else ''inactive''
     | _ \<Rightarrow> ''inactive'')"

text \<open>The text of a number that is left out when it is zero, and the number of such a text.\<close>

definition number_text :: "nat \<Rightarrow> bytes" where
  "number_text n = (if n \<noteq> 0 then FormatUint n else [])"

definition number_or_zero :: "nat \<Rightarrow> bytes \<Rightarrow> nat option" where
  "number_or_zero bits text =
     (let text = TrimSpace text in
      if text = [] then Some 0 else case ParseUint text bits of Inl _ \<Rightarrow> None | Inr n \<Rightarrow> Some n)"

section \<open>The state of the view\<close>

text \<open>
  A hint is the message shown at an entry, by the key of its field.  A start in progress has captured the scenario of the document: \<open>None\<close> as long as
  that is the document of the view, the scenario itself once the view has another document.
\<close>

record ('t, 'k, 'f) EditorView =
  ed_doc :: Document
  ed_devices :: "('k, 'f) DeviceStore"
  ed_fieldErrors :: field_errors
  ed_valid :: bool
  ed_summary :: "go_error option"
  ed_title :: bytes
  ed_saveEnabled :: bool
  ed_runEnabled :: bool
  ed_stopEnabled :: bool
  ed_hints :: "(string \<times> string option) list"
  ed_selectedDevice :: int
  ed_selectedObject :: int
  ed_addressEnabled :: "bool option"
  ed_commandEnabled :: "bool option"
  ed_writableEnabled :: "bool option"
  ed_running :: "'t Runner option"
  ed_rows :: "RunningDevice list"
  ed_status :: string
  ed_host :: Host
  ed_starts :: "Scenario option list"
  ed_stops :: "'t Runner list"

definition currentDevice :: "('t, 'k, 'f) EditorView \<Rightarrow> DeviceSpec option" where
  "currentDevice v =
     (if ed_selectedDevice v < 0 \<or> ed_selectedDevice v \<ge> int (length (devices (ed_doc v))) then None
      else Some (devices (ed_doc v) ! nat (ed_selectedDevice v)))"

definition currentObject :: "('t, 'k, 'f) EditorView \<Rightarrow> ObjectSpec option" where
  "currentObject v =
     (case currentDevice v of
        None \<Rightarrow> None
      | Some dev \<Rightarrow>
          if ed_selectedObject v < 0 \<or> ed_selectedObject v \<ge> int (length (ds_Objects dev)) then None
          else Some (ds_Objects dev ! nat (ed_selectedObject v)))"

section \<open>The lists\<close>

text \<open>The dash between the parts of a line, U+2014 in UTF-8.\<close>

definition dash :: bytes where
  "dash = [32, 226, 128, 148, 32]"

definition deviceListLength :: "('t, 'k, 'f) EditorView \<Rightarrow> nat" where
  "deviceListLength v = length (devices (ed_doc v))"

definition deviceCellText :: "int \<Rightarrow> ('t, 'k, 'f) EditorView \<Rightarrow> bytes" where
  "deviceCellText i v =
     (if i < 0 \<or> i \<ge> int (length (devices (ed_doc v))) then []
      else let d = devices (ed_doc v) ! nat i in FormatUint (unat (ds_ID d)) @ dash @ ds_Name d)"

definition objectListLength :: "('t, 'k, 'f) EditorView \<Rightarrow> nat" where
  "objectListLength v = (case currentDevice v of None \<Rightarrow> 0 | Some dev \<Rightarrow> length (ds_Objects dev))"

definition objectCellText :: "int \<Rightarrow> ('t, 'k, 'f) EditorView \<Rightarrow> bytes" where
  "objectCellText i v =
     (case currentDevice v of
        None \<Rightarrow> []
      | Some dev \<Rightarrow>
          if i < 0 \<or> i \<ge> int (length (ds_Objects dev)) then []
          else let obj = ds_Objects dev ! nat i in os_Type obj @ ascii '' '' @ FormatUint (unat (os_Instance obj)) @ dash @ os_Name obj)"

definition runningRowText :: "RunningDevice \<Rightarrow> bytes" where
  "runningRowText d = FormatUint (unat (rn_ID d)) @ ascii '' '' @ rn_Name d @ dash @ ascii (rn_Addr d) @ ascii '':'' @ FormatUint (unat (rn_Port d))"

text \<open>\<^verbatim>\<open>refreshRunningRows\<close> rebuilds the lines of the strip from the rows.\<close>

definition running_strip :: "('t, 'k, 'f) EditorView \<Rightarrow> bytes list" where
  "running_strip v = map runningRowText (ed_rows v)"

section \<open>Validation\<close>

definition updateRunButtons :: "('t, 'k, 'f) EditorView \<Rightarrow> ('t, 'k, 'f) EditorView" where
  "updateRunButtons v =
     (if ed_running v \<noteq> None then v\<lparr>ed_runEnabled := False, ed_stopEnabled := True\<rparr>
      else v\<lparr>ed_stopEnabled := False, ed_runEnabled := ed_valid v\<rparr>)"

text \<open>The entries of an object form that exist for its category and show a hint.\<close>

definition object_entries :: "category \<Rightarrow> string list" where
  "object_entries cat = [''.name'', ''.instance'', ''.initial_priority'', ''.cov_increment'']
     @ (if cat = Multistate then [''.number_of_states''] else []) @ (if cat = Binary then [] else [''.present_value'', ''.relinquish_default''])"

definition refreshFieldHints :: "('t, 'k, 'f) EditorView \<Rightarrow> ('t, 'k, 'f) EditorView" where
  "refreshFieldHints v =
     (let hint = (\<lambda>prefix field. (field, map_of (ed_fieldErrors v) (prefix @ field)));
          device = (if ed_selectedDevice v \<ge> 0
            then map (hint (''devices['' @ itoa (nat (ed_selectedDevice v)) @ '']'')) [''.id'', ''.name'', ''.address'', ''.port''] else []);
          object = (if ed_selectedDevice v \<ge> 0 \<and> ed_selectedObject v \<ge> 0
            then map (hint (''devices['' @ itoa (nat (ed_selectedDevice v)) @ ''].objects['' @ itoa (nat (ed_selectedObject v)) @ '']''))
              (case currentObject v of None \<Rightarrow> [] | Some obj \<Rightarrow> object_entries (classifyObjectType (os_Type obj))) else [])
      in v\<lparr>ed_hints := device @ object\<rparr>)"

definition refreshTitle :: "('t, 'k, 'f) EditorView \<Rightarrow> ('t, 'k, 'f) EditorView" where
  "refreshTitle v =
     (let path = (if dc_path (ed_doc v) = [] then ascii ''untitled'' else dc_path (ed_doc v))
      in v\<lparr>ed_title := (if dc_dirty (ed_doc v) then path @ ascii '' *'' else path)\<rparr>)"

definition revalidate :: "codecs \<Rightarrow> ('t, 'k, 'f) EditorView \<Rightarrow> ('t, 'k, 'f) EditorView" where
  "revalidate c v =
     (let v = v\<lparr>ed_fieldErrors := FieldErrors (dc_scenario (ed_doc v))\<rparr>;
          v = (case Document_Validate c (ed_doc v) of
                 Inl e \<Rightarrow> v\<lparr>ed_summary := Some e, ed_saveEnabled := False, ed_valid := False\<rparr>
               | Inr _ \<Rightarrow> v\<lparr>ed_summary := None, ed_saveEnabled := True, ed_valid := True\<rparr>)
      in updateRunButtons (refreshTitle (refreshFieldHints v)))"

section \<open>Forms and selection\<close>

definition applyAddressEnablement :: "('t, 'k, 'f) EditorView \<Rightarrow> ('t, 'k, 'f) EditorView" where
  "applyAddressEnablement v =
     (case ed_addressEnabled v of
        None \<Rightarrow> v
      | Some _ \<Rightarrow> v\<lparr>ed_addressEnabled := Some (nc_Mode (sc_Network (dc_scenario (ed_doc v))) = ascii ''multi-ip'')\<rparr>)"

definition applyCommandableEnablement :: "('t, 'k, 'f) EditorView \<Rightarrow> ('t, 'k, 'f) EditorView" where
  "applyCommandableEnablement v =
     (case ed_commandEnabled v of
        None \<Rightarrow> v
      | Some _ \<Rightarrow> v\<lparr>ed_commandEnabled := Some (case currentObject v of None \<Rightarrow> False | Some obj \<Rightarrow> os_Commandable obj)\<rparr>)"

text \<open>What the entries of a form show; a form that is built anew has its entries enabled.\<close>

definition device_texts :: "DeviceSpec \<Rightarrow> (string \<times> bytes) list" where
  "device_texts dev =
     [(''ID'', FormatUint (unat (ds_ID dev))), (''Name'', ds_Name dev), (''Address'', ds_Address dev), (''Port'', number_text (unat (ds_Port dev))),
      (''Vendor ID'', number_text (unat (ds_VendorID dev))), (''Vendor Name'', ds_VendorName dev), (''Model Name'', ds_ModelName dev),
      (''Protocol Revision'', number_text (unat (ds_ProtocolRevision dev)))]"

definition value_text :: "float_text \<Rightarrow> category \<Rightarrow> go_value \<Rightarrow> bytes" where
  "value_text ft cat val = (if cat = Binary then binaryValueText val else valueEntryText ft cat val)"

definition object_texts :: "float_text \<Rightarrow> ObjectSpec \<Rightarrow> (string \<times> bytes) list" where
  "object_texts ft obj =
     (let cat = classifyObjectType (os_Type obj) in
      [(''Instance'', FormatUint (unat (os_Instance obj))), (''Name'', os_Name obj), (''Description'', os_Description obj),
       (''Present Value'', value_text ft cat (os_PresentValue obj)), (''Units'', number_text (unat (os_Units obj))),
       (''Relinquish Default'', value_text ft cat (os_RelinquishDefault obj)), (''Initial Priority'', number_text (unat (os_InitialPriority obj)))]
      @ (if cat = Multistate then [(''Number Of States'', FormatUint (unat (os_NumberOfStates obj)))] else [])
      @ [(''COV Increment'', ft_Format ft (os_COVIncrement obj) 64)])"

definition rebuildDeviceForm :: "('t, 'k, 'f) EditorView \<Rightarrow> ('t, 'k, 'f) EditorView" where
  "rebuildDeviceForm v =
     (case currentDevice v of
        None \<Rightarrow> v\<lparr>ed_addressEnabled := None\<rparr>
      | Some dev \<Rightarrow> applyAddressEnablement (v\<lparr>ed_addressEnabled := Some True\<rparr>))"

definition rebuildObjectForm :: "('t, 'k, 'f) EditorView \<Rightarrow> ('t, 'k, 'f) EditorView" where
  "rebuildObjectForm v =
     (case currentObject v of
        None \<Rightarrow> v\<lparr>ed_commandEnabled := None, ed_writableEnabled := None\<rparr>
      | Some obj \<Rightarrow> applyCommandableEnablement (v\<lparr>ed_commandEnabled := Some True, ed_writableEnabled := Some True\<rparr>))"

definition selectDevice :: "codecs \<Rightarrow> int \<Rightarrow> ('t, 'k, 'f) EditorView \<Rightarrow> ('t, 'k, 'f) EditorView" where
  "selectDevice c idx v =
     revalidate c (rebuildObjectForm (rebuildDeviceForm (v\<lparr>ed_selectedDevice := idx, ed_selectedObject := - 1\<rparr>)))"

definition selectObject :: "codecs \<Rightarrow> int \<Rightarrow> ('t, 'k, 'f) EditorView \<Rightarrow> ('t, 'k, 'f) EditorView" where
  "selectObject c idx v = revalidate c (rebuildObjectForm (v\<lparr>ed_selectedObject := idx\<rparr>))"

section \<open>Devices and objects\<close>

text \<open>
  \<^verbatim>\<open>List.Select\<close> of the toolkit calls the selection handler again, which changes nothing after the call before it; the search for a free
  identifier returns, as \<open>Document_AddDevice\<close> and \<open>AddObject\<close> are defined where it does.
\<close>

definition onAddDevice :: "codecs \<Rightarrow> ('t, 'k, 'f) EditorView \<Rightarrow> ('t, 'k, 'f) EditorView option" where
  "onAddDevice c v =
     map_option (\<lambda>doc. let v = v\<lparr>ed_doc := doc\<rparr>; idx = int (length (devices doc)) - 1 in revalidate c (selectDevice c idx v))
       (Document_AddDevice (ed_doc v))"

definition onRemoveDevice :: "codecs \<Rightarrow> ('t, 'k, 'f) EditorView \<Rightarrow> ('t, 'k, 'f) EditorView" where
  "onRemoveDevice c v =
     (if ed_selectedDevice v < 0 then v
      else let doc = RemoveDevice (ed_selectedDevice v) (ed_doc v);
               n = int (length (devices doc));
               next = (if ed_selectedDevice v \<ge> n then n - 1 else ed_selectedDevice v)
           in revalidate c (selectDevice c next (v\<lparr>ed_doc := doc\<rparr>)))"

definition onAddObject :: "codecs \<Rightarrow> bytes \<Rightarrow> ('t, 'k, 'f) EditorView \<Rightarrow> ('t, 'k, 'f) EditorView option" where
  "onAddObject c selected v =
     (if ed_selectedDevice v < 0 then Some v
      else map_option (\<lambda>(added, doc).
          let v = v\<lparr>ed_doc := doc\<rparr> in
          if \<not> added then v
          else revalidate c (selectObject c (int (length (ds_Objects (devices doc ! nat (ed_selectedDevice v)))) - 1) v))
        (AddObject (ed_selectedDevice v) selected (ed_doc v)))"

definition onRemoveObject :: "codecs \<Rightarrow> ('t, 'k, 'f) EditorView \<Rightarrow> ('t, 'k, 'f) EditorView" where
  "onRemoveObject c v =
     (if ed_selectedDevice v < 0 \<or> ed_selectedObject v < 0 then v
      else let doc = RemoveObject (ed_selectedDevice v) (ed_selectedObject v) (ed_doc v);
               n = int (length (ds_Objects (devices doc ! nat (ed_selectedDevice v))));
               next = (if ed_selectedObject v \<ge> n then n - 1 else ed_selectedObject v)
           in revalidate c (selectObject c next (v\<lparr>ed_doc := doc\<rparr>)))"

section \<open>Changes of a field\<close>

definition edit_network :: "codecs \<Rightarrow> (NetworkConfig \<Rightarrow> NetworkConfig) \<Rightarrow> ('t, 'k, 'f) EditorView \<Rightarrow> ('t, 'k, 'f) EditorView" where
  "edit_network c f v =
     (let s = dc_scenario (ed_doc v) in v\<lparr>ed_doc := MarkDirty ((ed_doc v)\<lparr>dc_scenario := s\<lparr>sc_Network := f (sc_Network s)\<rparr>\<rparr>)\<rparr>)"

definition onModeChanged :: "codecs \<Rightarrow> bytes \<Rightarrow> ('t, 'k, 'f) EditorView \<Rightarrow> ('t, 'k, 'f) EditorView" where
  "onModeChanged c mode v = revalidate c (applyAddressEnablement (edit_network c (\<lambda>n. n\<lparr>nc_Mode := mode\<rparr>) v))"

definition onIfaceChanged :: "codecs \<Rightarrow> bytes \<Rightarrow> ('t, 'k, 'f) EditorView \<Rightarrow> ('t, 'k, 'f) EditorView" where
  "onIfaceChanged c text v = revalidate c (edit_network c (\<lambda>n. n\<lparr>nc_Interface := text\<rparr>) v)"

definition onNetworkPortChanged :: "codecs \<Rightarrow> bytes \<Rightarrow> ('t, 'k, 'f) EditorView \<Rightarrow> ('t, 'k, 'f) EditorView" where
  "onNetworkPortChanged c text v =
     (case number_or_zero 16 text of None \<Rightarrow> v | Some n \<Rightarrow> revalidate c (edit_network c (\<lambda>nw. nw\<lparr>nc_Port := word_of_nat n\<rparr>) v))"

text \<open>A change of the selected device, if there is one; \<open>None\<close> is a text that does not parse, which leaves the document alone.\<close>

definition store_device :: "DeviceSpec \<Rightarrow> ('t, 'k, 'f) EditorView \<Rightarrow> ('t, 'k, 'f) EditorView" where
  "store_device dev v = v\<lparr>ed_doc := MarkDirty (set_devices ((devices (ed_doc v))[nat (ed_selectedDevice v) := dev]) (ed_doc v))\<rparr>"

definition edit_device :: "codecs \<Rightarrow> (DeviceSpec \<Rightarrow> DeviceSpec option) \<Rightarrow> ('t, 'k, 'f) EditorView \<Rightarrow> ('t, 'k, 'f) EditorView" where
  "edit_device c f v =
     (case currentDevice v of
        None \<Rightarrow> v
      | Some dev \<Rightarrow> (case f dev of None \<Rightarrow> v | Some dev \<Rightarrow> revalidate c (store_device dev v)))"

definition parsed :: "nat result \<Rightarrow> nat option" where
  "parsed r = (case r of Inl _ \<Rightarrow> None | Inr n \<Rightarrow> Some n)"

definition onDeviceIDChanged :: "codecs \<Rightarrow> bytes \<Rightarrow> ('t, 'k, 'f) EditorView \<Rightarrow> ('t, 'k, 'f) EditorView" where
  "onDeviceIDChanged c text = edit_device c (\<lambda>dev. map_option (\<lambda>n. dev\<lparr>ds_ID := word_of_nat n\<rparr>) (parsed (ParseUint (TrimSpace text) 32)))"

definition onDeviceNameChanged :: "codecs \<Rightarrow> bytes \<Rightarrow> ('t, 'k, 'f) EditorView \<Rightarrow> ('t, 'k, 'f) EditorView" where
  "onDeviceNameChanged c text = edit_device c (\<lambda>dev. Some (dev\<lparr>ds_Name := text\<rparr>))"

definition onDeviceAddressChanged :: "codecs \<Rightarrow> bytes \<Rightarrow> ('t, 'k, 'f) EditorView \<Rightarrow> ('t, 'k, 'f) EditorView" where
  "onDeviceAddressChanged c text = edit_device c (\<lambda>dev. Some (dev\<lparr>ds_Address := text\<rparr>))"

definition onDevicePortChanged :: "codecs \<Rightarrow> bytes \<Rightarrow> ('t, 'k, 'f) EditorView \<Rightarrow> ('t, 'k, 'f) EditorView" where
  "onDevicePortChanged c text = edit_device c (\<lambda>dev. map_option (\<lambda>n. dev\<lparr>ds_Port := word_of_nat n\<rparr>) (number_or_zero 16 text))"

definition onDeviceVendorIDChanged :: "codecs \<Rightarrow> bytes \<Rightarrow> ('t, 'k, 'f) EditorView \<Rightarrow> ('t, 'k, 'f) EditorView" where
  "onDeviceVendorIDChanged c text = edit_device c (\<lambda>dev. map_option (\<lambda>n. dev\<lparr>ds_VendorID := word_of_nat n\<rparr>) (number_or_zero 16 text))"

definition onDeviceVendorNameChanged :: "codecs \<Rightarrow> bytes \<Rightarrow> ('t, 'k, 'f) EditorView \<Rightarrow> ('t, 'k, 'f) EditorView" where
  "onDeviceVendorNameChanged c text = edit_device c (\<lambda>dev. Some (dev\<lparr>ds_VendorName := text\<rparr>))"

definition onDeviceModelNameChanged :: "codecs \<Rightarrow> bytes \<Rightarrow> ('t, 'k, 'f) EditorView \<Rightarrow> ('t, 'k, 'f) EditorView" where
  "onDeviceModelNameChanged c text = edit_device c (\<lambda>dev. Some (dev\<lparr>ds_ModelName := text\<rparr>))"

definition onDeviceProtocolRevisionChanged :: "codecs \<Rightarrow> bytes \<Rightarrow> ('t, 'k, 'f) EditorView \<Rightarrow> ('t, 'k, 'f) EditorView" where
  "onDeviceProtocolRevisionChanged c text =
     edit_device c (\<lambda>dev. map_option (\<lambda>n. dev\<lparr>ds_ProtocolRevision := word_of_nat n\<rparr>) (number_or_zero 8 text))"

definition store_object :: "ObjectSpec \<Rightarrow> ('t, 'k, 'f) EditorView \<Rightarrow> ('t, 'k, 'f) EditorView" where
  "store_object obj v =
     (let dev = devices (ed_doc v) ! nat (ed_selectedDevice v)
      in store_device (dev\<lparr>ds_Objects := (ds_Objects dev)[nat (ed_selectedObject v) := obj]\<rparr>) v)"

definition edit_object :: "codecs \<Rightarrow> (ObjectSpec \<Rightarrow> ObjectSpec option) \<Rightarrow> ('t, 'k, 'f) EditorView \<Rightarrow> ('t, 'k, 'f) EditorView" where
  "edit_object c f v =
     (case currentObject v of
        None \<Rightarrow> v
      | Some obj \<Rightarrow> (case f obj of None \<Rightarrow> v | Some obj \<Rightarrow> revalidate c (store_object obj v)))"

definition onObjectInstanceChanged :: "codecs \<Rightarrow> bytes \<Rightarrow> ('t, 'k, 'f) EditorView \<Rightarrow> ('t, 'k, 'f) EditorView" where
  "onObjectInstanceChanged c text = edit_object c (\<lambda>obj. map_option (\<lambda>n. obj\<lparr>os_Instance := word_of_nat n\<rparr>) (parsed (ParseUint (TrimSpace text) 32)))"

definition onObjectNameChanged :: "codecs \<Rightarrow> bytes \<Rightarrow> ('t, 'k, 'f) EditorView \<Rightarrow> ('t, 'k, 'f) EditorView" where
  "onObjectNameChanged c text = edit_object c (\<lambda>obj. Some (obj\<lparr>os_Name := text\<rparr>))"

definition onObjectDescriptionChanged :: "codecs \<Rightarrow> bytes \<Rightarrow> ('t, 'k, 'f) EditorView \<Rightarrow> ('t, 'k, 'f) EditorView" where
  "onObjectDescriptionChanged c text = edit_object c (\<lambda>obj. Some (obj\<lparr>os_Description := text\<rparr>))"

definition onObjectUnitsChanged :: "codecs \<Rightarrow> bytes \<Rightarrow> ('t, 'k, 'f) EditorView \<Rightarrow> ('t, 'k, 'f) EditorView" where
  "onObjectUnitsChanged c text = edit_object c (\<lambda>obj. map_option (\<lambda>n. obj\<lparr>os_Units := word_of_nat n\<rparr>) (number_or_zero 32 text))"

definition onObjectWritableChanged :: "codecs \<Rightarrow> bool \<Rightarrow> ('t, 'k, 'f) EditorView \<Rightarrow> ('t, 'k, 'f) EditorView" where
  "onObjectWritableChanged c checked = edit_object c (\<lambda>obj. Some (obj\<lparr>os_Writable := checked\<rparr>))"

definition onObjectCommandableChanged :: "codecs \<Rightarrow> bool \<Rightarrow> ('t, 'k, 'f) EditorView \<Rightarrow> ('t, 'k, 'f) EditorView" where
  "onObjectCommandableChanged c checked v =
     (case currentObject v of
        None \<Rightarrow> v
      | Some obj \<Rightarrow>
          (let obj = obj\<lparr>os_Commandable := checked, os_Writable := (if checked then True else os_Writable obj)\<rparr>
           in revalidate c (applyCommandableEnablement ((store_object obj v)\<lparr>ed_writableEnabled := Some (\<not> checked)\<rparr>))))"

definition onObjectInitialPriorityChanged :: "codecs \<Rightarrow> bytes \<Rightarrow> ('t, 'k, 'f) EditorView \<Rightarrow> ('t, 'k, 'f) EditorView" where
  "onObjectInitialPriorityChanged c text = edit_object c (\<lambda>obj. map_option (\<lambda>n. obj\<lparr>os_InitialPriority := word_of_nat n\<rparr>) (number_or_zero 8 text))"

definition onObjectNumberOfStatesChanged :: "codecs \<Rightarrow> bytes \<Rightarrow> ('t, 'k, 'f) EditorView \<Rightarrow> ('t, 'k, 'f) EditorView" where
  "onObjectNumberOfStatesChanged c text = edit_object c (\<lambda>obj. map_option (\<lambda>n. obj\<lparr>os_NumberOfStates := word_of_nat n\<rparr>) (number_or_zero 32 text))"

definition onObjectCOVIncrementChanged :: "codecs \<Rightarrow> float_text \<Rightarrow> bytes \<Rightarrow> ('t, 'k, 'f) EditorView \<Rightarrow> ('t, 'k, 'f) EditorView" where
  "onObjectCOVIncrementChanged c ft text =
     edit_object c (\<lambda>obj. if TrimSpace text = [] then Some (obj\<lparr>os_COVIncrement := 0\<rparr>)
       else case ft_Parse ft (TrimSpace text) 64 of Inl _ \<Rightarrow> None | Inr n \<Rightarrow> Some (obj\<lparr>os_COVIncrement := n\<rparr>))"

definition onObjectPresentValueEntryChanged :: "codecs \<Rightarrow> float_text \<Rightarrow> bytes \<Rightarrow> ('t, 'k, 'f) EditorView \<Rightarrow> ('t, 'k, 'f) EditorView" where
  "onObjectPresentValueEntryChanged c ft text =
     edit_object c (\<lambda>obj. map_option (\<lambda>val. obj\<lparr>os_PresentValue := val\<rparr>) (parseCategoryValue ft (classifyObjectType (os_Type obj)) text))"

definition onObjectPresentValueSelectChanged :: "codecs \<Rightarrow> bytes \<Rightarrow> ('t, 'k, 'f) EditorView \<Rightarrow> ('t, 'k, 'f) EditorView" where
  "onObjectPresentValueSelectChanged c text = edit_object c (\<lambda>obj. Some (obj\<lparr>os_PresentValue := VString text\<rparr>))"

definition onObjectRelinquishEntryChanged :: "codecs \<Rightarrow> float_text \<Rightarrow> bytes \<Rightarrow> ('t, 'k, 'f) EditorView \<Rightarrow> ('t, 'k, 'f) EditorView" where
  "onObjectRelinquishEntryChanged c ft text =
     edit_object c (\<lambda>obj. if TrimSpace text = [] then Some (obj\<lparr>os_RelinquishDefault := VNil\<rparr>)
       else map_option (\<lambda>val. obj\<lparr>os_RelinquishDefault := val\<rparr>) (parseCategoryValue ft (classifyObjectType (os_Type obj)) text))"

definition onObjectRelinquishSelectChanged :: "codecs \<Rightarrow> bytes \<Rightarrow> ('t, 'k, 'f) EditorView \<Rightarrow> ('t, 'k, 'f) EditorView" where
  "onObjectRelinquishSelectChanged c text = edit_object c (\<lambda>obj. Some (obj\<lparr>os_RelinquishDefault := VString text\<rparr>))"

section \<open>Documents\<close>

text \<open>The starts in progress keep the scenario of the document they were started with.\<close>

definition replaceDocument :: "codecs \<Rightarrow> Document \<Rightarrow> ('t, 'k, 'f) EditorView \<Rightarrow> ('t, 'k, 'f) EditorView" where
  "replaceDocument c doc v =
     (let old = dc_scenario (ed_doc v);
          v = v\<lparr>ed_doc := doc, ed_selectedDevice := - 1, ed_selectedObject := - 1,
                ed_starts := map (\<lambda>s. Some (case s of None \<Rightarrow> old | Some s \<Rightarrow> s)) (ed_starts v)\<rparr>;
          v = applyAddressEnablement v
      in revalidate c (if length (devices doc) > 0 then selectDevice c 0 v else rebuildObjectForm (rebuildDeviceForm v)))"

definition newDocument :: "codecs \<Rightarrow> ('t, 'k, 'f) EditorView \<Rightarrow> ('t, 'k, 'f) EditorView" where
  "newDocument c v = replaceDocument c New v"

definition openPath :: "codecs \<Rightarrow> bool \<Rightarrow> bytes \<Rightarrow> files \<Rightarrow> ('t, 'k, 'f) EditorView \<Rightarrow> unit result \<times> ('t, 'k, 'f) EditorView" where
  "openPath c readable path fs v =
     (case Load c readable path fs of Inl e \<Rightarrow> (Inl e, v) | Inr doc \<Rightarrow> (Inr (), replaceDocument c doc v))"

definition loadExampleScenario :: "codecs \<Rightarrow> bytes \<Rightarrow> ('t, 'k, 'f) EditorView \<Rightarrow> ('t, 'k, 'f) EditorView" where
  "loadExampleScenario c asset v =
     (case LoadBytes c asset (ascii ''yaml'') of
        Inl e \<Rightarrow> v\<lparr>ed_status := ''example scenario invalid: %s''\<rparr>
      | Inr doc \<Rightarrow> replaceDocument c doc v)"

text \<open>The dialog asks before unsaved changes are lost; \<open>confirmed\<close> is its answer, and there is none without a window.\<close>

definition onLoadExample :: "codecs \<Rightarrow> bytes \<Rightarrow> bool option \<Rightarrow> ('t, 'k, 'f) EditorView \<Rightarrow> ('t, 'k, 'f) EditorView" where
  "onLoadExample c asset confirmed v =
     (if dc_dirty (ed_doc v) \<and> confirmed = Some False then v else loadExampleScenario c asset v)"

definition editor_save :: "codecs \<Rightarrow> answers \<Rightarrow> files \<Rightarrow> ('t, 'k, 'f) EditorView \<Rightarrow> unit result \<times> ('t, 'k, 'f) EditorView \<times> files" where
  "editor_save c a fs v = (let (r, doc, fs) = Save c a (ed_doc v) fs in (r, revalidate c (v\<lparr>ed_doc := doc\<rparr>), fs))"

definition editor_saveAs :: "codecs \<Rightarrow> answers \<Rightarrow> bytes \<Rightarrow> files \<Rightarrow> ('t, 'k, 'f) EditorView \<Rightarrow> unit result \<times> ('t, 'k, 'f) EditorView \<times> files" where
  "editor_saveAs c a path fs v = (let (r, doc, fs) = SaveAs c a path (ed_doc v) fs in (r, revalidate c (v\<lparr>ed_doc := doc\<rparr>), fs))"

section \<open>Run and stop\<close>

definition onRun :: "codecs \<Rightarrow> ('t, 'k, 'f) EditorView \<Rightarrow> ('t, 'k, 'f) EditorView" where
  "onRun c v =
     (case Document_Validate c (ed_doc v) of
        Inl e \<Rightarrow> v\<lparr>ed_status := ''scenario is invalid: %s''\<rparr>
      | Inr _ \<Rightarrow> v\<lparr>ed_runEnabled := False, ed_starts := ed_starts v @ [None]\<rparr>)"

definition simulated_row :: "RunningDevice \<Rightarrow> DeviceRow" where
  "simulated_row d = \<lparr>row_Key = DeviceKey (rn_ID d) (rn_Addr d), row_Port = rn_Port d, row_VendorID = 0, row_MaxApdu = 0, row_Segmentation = 0,
     row_Source = ''simulated'', row_Name = map (char_of \<circ> unat) (rn_Name d), row_LastSeen = 0\<rparr>"

definition insert_rows :: "('k \<Rightarrow> time \<times> 'k) \<Rightarrow> RunningDevice list \<Rightarrow> ('k, 'f) DeviceStore \<Rightarrow> ('k, 'f) DeviceStore" where
  "insert_rows Now rows st = fold (\<lambda>d st. snd (Upsert Now (simulated_row d) st)) rows st"

definition remove_rows :: "RunningDevice list \<Rightarrow> ('k, 'f) DeviceStore \<Rightarrow> ('k, 'f) DeviceStore" where
  "remove_rows rows st = fold (\<lambda>d st. snd (Remove (DeviceKey (rn_ID d) (rn_Addr d)) st)) rows st"

text \<open>The goroutine of the oldest start, without the hint on ports that the application appends to its status.  The runner validates the scenario in place, which is the document's own.\<close>

definition start_goroutine :: "('k \<Rightarrow> time \<times> 'k) \<Rightarrow> listener \<Rightarrow> 't \<Rightarrow> ('t, 'k, 'f) EditorView \<Rightarrow> ('t, 'k, 'f) EditorView" where
  "start_goroutine Now listen clk v =
     (case ed_starts v of
        [] \<Rightarrow> v
      | job # jobs \<Rightarrow>
          (let (r, s, h) = Runner_Start listen clk (Some (case job of None \<Rightarrow> dc_scenario (ed_doc v) | Some s \<Rightarrow> s)) False (ed_host v);
               v = v\<lparr>ed_starts := jobs, ed_host := h,
                     ed_doc := (case (job, s) of (None, Some s) \<Rightarrow> (ed_doc v)\<lparr>dc_scenario := s\<rparr> | _ \<Rightarrow> ed_doc v)\<rparr>
           in case r of
                Inl e \<Rightarrow> (updateRunButtons v)\<lparr>ed_status := (if e = ErrUnsupportedScenario
                    then ''Simulations run privately on this computer.'' else ''Couldn't start the simulation - %s'')\<rparr>
              | Inr runner \<Rightarrow>
                  (updateRunButtons (v\<lparr>ed_devices := insert_rows Now (Runner_Devices runner) (ed_devices v), ed_running := Some runner,
                     ed_rows := Runner_Devices runner\<rparr>))\<lparr>ed_status := ''Simulation running - %d devices (ports %s)''\<rparr>))"

text \<open>A fatal error of the runner reaches the status bar as long as the watcher has not been told to stop.\<close>

definition watchErrors :: "bool \<Rightarrow> 't Runner \<Rightarrow> ('t, 'k, 'f) EditorView \<Rightarrow> 't Runner \<times> ('t, 'k, 'f) EditorView" where
  "watchErrors stopped r v =
     (if stopped then (r, v)
      else case Runner_Err r of None \<Rightarrow> (r, v) | Some (e, r) \<Rightarrow> (r, v\<lparr>ed_status := ''simulation error: %s''\<rparr>))"

definition onStop :: "('t, 'k, 'f) EditorView \<Rightarrow> ('t, 'k, 'f) EditorView" where
  "onStop v =
     (let v = v\<lparr>ed_stopEnabled := False\<rparr> in
      case ed_running v of None \<Rightarrow> updateRunButtons v | Some r \<Rightarrow> v\<lparr>ed_stops := ed_stops v @ [r]\<rparr>)"

definition stop_goroutine :: "('t, 'k, 'f) EditorView \<Rightarrow> ('t, 'k, 'f) EditorView" where
  "stop_goroutine v =
     (case ed_stops v of
        [] \<Rightarrow> v
      | r # rs \<Rightarrow>
          (updateRunButtons (v\<lparr>ed_stops := rs, ed_host := snd (Runner_Stop r (ed_host v)), ed_devices := remove_rows (ed_rows v) (ed_devices v),
             ed_running := None, ed_rows := []\<rparr>))\<lparr>ed_status := ''Simulation stopped''\<rparr>)"

definition portsText :: "RunningDevice list \<Rightarrow> bytes" where
  "portsText rows =
     joined (ascii '', '') (map (\<lambda>r. FormatUint (unat (rn_Port r))) rows)"

definition portsOf :: "RunningDevice list \<Rightarrow> u16 list" where
  "portsOf rows = map rn_Port rows"

definition NewEditorView :: "codecs \<Rightarrow> ('k, 'f) DeviceStore \<Rightarrow> Host \<Rightarrow> ('t, 'k, 'f) EditorView" where
  "NewEditorView c st h = revalidate c (selectDevice c 0
     \<lparr>ed_doc = New, ed_devices = st, ed_fieldErrors = [], ed_valid = False, ed_summary = None, ed_title = [], ed_saveEnabled = True,
      ed_runEnabled = True, ed_stopEnabled = False, ed_hints = [], ed_selectedDevice = - 1, ed_selectedObject = - 1, ed_addressEnabled = None,
      ed_commandEnabled = None, ed_writableEnabled = None, ed_running = None, ed_rows = [], ed_status = [], ed_host = h, ed_starts = [], ed_stops = []\<rparr>)"

end
