(* ===== verification/Gui_Editing.thy ===== *)
theory Gui_Editing
  imports Gui_Editor
begin

text \<open>
  What the simulator view shows over any history of its handlers and goroutines, and what a run offered by it does.
\<close>

section \<open>Writability is not shown\<close>

text \<open>
  A run validates the scenario of the document in place, which makes commandable objects writable, and with an error
  only the first of them.  Nothing the view shows depends on that.
\<close>

lemma validate_objects_writable: "map make_writable (snd (validate_objects seen specs)) = map make_writable specs"
  by (induction specs arbitrary: seen) (simp_all add: Let_def split_beta split: sum.split)

lemma validate_devices_writable: "map writable_device (snd (validate_devices mode ids es specs)) = map writable_device specs"
proof (induction specs arbitrary: ids es)
  case (Cons spec specs)
  let ?objs = "validate_objects [\<lparr>id_Type = 8, id_Instance = ds_ID spec\<rparr>] (ds_Objects spec)"
  have "writable_device (spec\<lparr>ds_Objects := snd ?objs\<rparr>) = writable_device spec"
    by (simp add: writable_device_def validate_objects_writable)
  with Cons show ?case by (simp add: split_beta split: sum.split)
qed simp

lemma Scenario_Validate_writable: "writable_scenario (snd (Scenario_Validate s)) = writable_scenario s"
  by (simp add: Scenario_Validate_def writable_scenario_def Let_def split_beta validate_devices_writable)

lemma Runner_Start_writable:
  "\<exists>s'. fst (snd (Runner_Start listen clk (Some s) ended h)) = Some s' \<and> writable_scenario s' = writable_scenario s"
  using Scenario_Validate_writable [of s]
  by (auto simp: Runner_Start_def split: sum.splits prod.splits)

lemma errors_writable [simp]: "objects_errors p j (map make_writable objs) keys errs = objects_errors p j objs keys errs"
proof (induction p j objs keys errs rule: objects_errors.induct)
  case (2 p j obj objs keys errs)
  have "object_errors q (make_writable obj) keys errs = object_errors q obj keys errs" for q
    unfolding object_errors_def multistate_errors_def make_writable_sel ..
  with 2 show ?case by (simp split: prod.splits)
qed simp

lemma writable_texts:
  "ds_ID (writable_device d) = ds_ID d" "ds_Name (writable_device d) = ds_Name d" "ds_Address (writable_device d) = ds_Address d"
  "ds_Port (writable_device d) = ds_Port d"
  by (simp_all add: writable_device_def)

lemma devices_errors_writable [simp]: "devices_errors mode i (map writable_device devs) ids es errs = devices_errors mode i devs ids es errs"
proof (induction devs arbitrary: i ids es errs)
  case (Cons dev devs)
  have "device_errors m p (writable_device dev) ids es errs = device_errors m p dev ids es errs" for m p ids es errs
    unfolding device_errors_def writable_texts ..
  with Cons show ?case by (simp add: Let_def split_beta)
qed simp

lemma FieldErrors_writable [simp]: "FieldErrors (writable_scenario s) = FieldErrors s"
  by (simp add: FieldErrors_def Let_def)

lemma defaults_writable: "applyScenarioDefaults (writable_scenario s) = writable_scenario (applyScenarioDefaults s)"
proof -
  have "default_device port (writable_device d) = writable_device (default_device port d)" for port d
    by (simp add: default_device_def writable_device_def)
  then show ?thesis by (simp add: applyScenarioDefaults_def writable_scenario_def Let_def)
qed

section \<open>A document that validates is accepted as it stands\<close>

text \<open>
  \<^verbatim>\<open>Document.Validate\<close> looks at the scenario with its defaults, the runner at the scenario itself.  With a version and a mode the
  second accepts what the first accepts: a default port is one more way for two endpoints to be the same.
\<close>

definition versioned :: "Scenario \<Rightarrow> bool" where
  "versioned s \<longleftrightarrow> sc_Version s \<noteq> 0 \<and> nc_Mode (sc_Network s) \<noteq> []"

lemma valid_versioned: "scenario_valid s \<Longrightarrow> versioned s"
  by (auto simp: scenario_valid_def network_shape_def versioned_def ScenarioVersion_def ascii_def)

lemma endpoint_default:
  assumes "endpoint d = endpoint d'"
  shows "endpoint (default_device port d) = endpoint (default_device port d')"
proof -
  have digits: "58 \<notin> set (rev (ascii (itoa n)))" for n
    using ascii_itoa_digits [of 58 n] by (auto simp: is_digit_def)
  have "rev (endpoint d) = rev (endpoint d')" using assms by simp
  then have "rev (ascii (itoa (unat (ds_Port d)))) @ 58 # rev (ds_Address d) = rev (ascii (itoa (unat (ds_Port d')))) @ 58 # rev (ds_Address d')"
    by (simp add: endpoint_def ascii_def)
  then have "ds_Port d = ds_Port d'" "ds_Address d = ds_Address d'"
    unfolding split_colon [OF digits digits] by (simp_all add: itoa_inj word_unat_eq_iff)
  then show ?thesis by (simp add: endpoint_def default_device_def Let_def)
qed

lemma document_valid_live:
  assumes "versioned s" "scenario_valid (applyScenarioDefaults s)"
  shows "scenario_valid s"
proof -
  let ?p = "if nc_Port (sc_Network s) = 0 then 0xbac0 else nc_Port (sc_Network s)" and ?s = "applyScenarioDefaults s"
  let ?m = "nc_Mode (sc_Network s)" and ?ds = "sc_Devices s" and ?ds' = "map (default_device ?p) (sc_Devices s)"
  have s: "sc_Version ?s = sc_Version s" "nc_Mode (sc_Network ?s) = ?m" "sc_Devices ?s = ?ds'"
    using assms(1) by (simp_all add: applyScenarioDefaults_def versioned_def Let_def)
  have d: "ds_ID (default_device ?p d) = ds_ID d" "device_shape m (default_device ?p d) = device_shape m d" for m d
    by (simp_all add: default_device_def device_shape_def)
  have "inj_on endpoint (set ?ds)" if "inj_on (\<lambda>d. endpoint (default_device ?p d)) (set ?ds)"
    by (rule inj_onI, rule inj_onD [OF that], rule endpoint_default)
  then have "distinct (map endpoint ?ds)" if "distinct (map endpoint ?ds')"
    using that by (simp add: distinct_map o_def)
  then have "devices_shape ?m ?ds" if "devices_shape ?m ?ds'"
    using that by (simp add: devices_shape_def d o_def)
  then show ?thesis using assms(2) by (simp add: scenario_valid_def network_shape_def s defaults_objects)
qed

section \<open>Histories\<close>

text \<open>
  The handlers with the arguments the widgets can give them: a list selects one of its lines, the choice of the mode has three
  lines, and the buttons of a run are pressed when they are enabled.  A goroutine that was started runs at some later time.
\<close>

inductive editor_step :: "codecs \<Rightarrow> float_text \<Rightarrow> ('k \<Rightarrow> time \<times> 'k) \<Rightarrow> listener \<Rightarrow> 't
    \<Rightarrow> ('t, 'k, 'f) EditorView \<Rightarrow> ('t, 'k, 'f) EditorView \<Rightarrow> bool" for c ft Now listen clk where
  Mode: "mode \<in> set networkModes \<Longrightarrow> editor_step c ft Now listen clk v (onModeChanged c mode v)"
| Iface: "editor_step c ft Now listen clk v (onIfaceChanged c text v)"
| Port: "editor_step c ft Now listen clk v (onNetworkPortChanged c text v)"
| Pick_device: "0 \<le> i \<Longrightarrow> i < int (deviceListLength v) \<Longrightarrow> editor_step c ft Now listen clk v (selectDevice c i v)"
| Pick_object: "0 \<le> i \<Longrightarrow> i < int (objectListLength v) \<Longrightarrow> editor_step c ft Now listen clk v (selectObject c i v)"
| Add_device: "onAddDevice c v = Some v' \<Longrightarrow> editor_step c ft Now listen clk v v'"
| Remove_device: "editor_step c ft Now listen clk v (onRemoveDevice c v)"
| Add_object: "onAddObject c t v = Some v' \<Longrightarrow> editor_step c ft Now listen clk v v'"
| Remove_object: "editor_step c ft Now listen clk v (onRemoveObject c v)"
| Device_ID: "editor_step c ft Now listen clk v (onDeviceIDChanged c text v)"
| Device_Name: "editor_step c ft Now listen clk v (onDeviceNameChanged c text v)"
| Device_Address: "editor_step c ft Now listen clk v (onDeviceAddressChanged c text v)"
| Device_Port: "editor_step c ft Now listen clk v (onDevicePortChanged c text v)"
| Device_VendorID: "editor_step c ft Now listen clk v (onDeviceVendorIDChanged c text v)"
| Device_VendorName: "editor_step c ft Now listen clk v (onDeviceVendorNameChanged c text v)"
| Device_ModelName: "editor_step c ft Now listen clk v (onDeviceModelNameChanged c text v)"
| Device_Revision: "editor_step c ft Now listen clk v (onDeviceProtocolRevisionChanged c text v)"
| Object_Instance: "editor_step c ft Now listen clk v (onObjectInstanceChanged c text v)"
| Object_Name: "editor_step c ft Now listen clk v (onObjectNameChanged c text v)"
| Object_Description: "editor_step c ft Now listen clk v (onObjectDescriptionChanged c text v)"
| Object_Units: "editor_step c ft Now listen clk v (onObjectUnitsChanged c text v)"
| Object_Writable: "editor_step c ft Now listen clk v (onObjectWritableChanged c checked v)"
| Object_Commandable: "editor_step c ft Now listen clk v (onObjectCommandableChanged c checked v)"
| Object_Priority: "editor_step c ft Now listen clk v (onObjectInitialPriorityChanged c text v)"
| Object_States: "editor_step c ft Now listen clk v (onObjectNumberOfStatesChanged c text v)"
| Object_COV: "editor_step c ft Now listen clk v (onObjectCOVIncrementChanged c ft text v)"
| Object_Value: "editor_step c ft Now listen clk v (onObjectPresentValueEntryChanged c ft text v)"
| Object_Value_choice: "editor_step c ft Now listen clk v (onObjectPresentValueSelectChanged c text v)"
| Object_Default: "editor_step c ft Now listen clk v (onObjectRelinquishEntryChanged c ft text v)"
| Object_Default_choice: "editor_step c ft Now listen clk v (onObjectRelinquishSelectChanged c text v)"
| New_document: "editor_step c ft Now listen clk v (newDocument c v)"
| Open: "editor_step c ft Now listen clk v (snd (openPath c readable path fs v))"
| Example: "editor_step c ft Now listen clk v (onLoadExample c asset confirmed v)"
| Save_document: "editor_step c ft Now listen clk v (fst (snd (editor_save c a fs v)))"
| Save_as: "editor_step c ft Now listen clk v (fst (snd (editor_saveAs c a path fs v)))"
| Run: "ed_runEnabled v \<Longrightarrow> editor_step c ft Now listen clk v (onRun c v)"
| Started: "editor_step c ft Now listen clk v (start_goroutine Now listen clk v)"
| Stop: "ed_stopEnabled v \<Longrightarrow> editor_step c ft Now listen clk v (onStop v)"
| Stopped: "editor_step c ft Now listen clk v (stop_goroutine v)"

section \<open>The invariant of the view\<close>

definition selection_ok :: "('t, 'k, 'f) EditorView \<Rightarrow> bool" where
  "selection_ok v \<longleftrightarrow> - 1 \<le> ed_selectedDevice v \<and> ed_selectedDevice v < int (deviceListLength v)
     \<and> - 1 \<le> ed_selectedObject v \<and> ed_selectedObject v < int (objectListLength v)"

definition shown :: "('t, 'k, 'f) EditorView \<Rightarrow> bool" where
  "shown v \<longleftrightarrow> ed_fieldErrors v = FieldErrors (dc_scenario (ed_doc v)) \<and> (ed_valid v \<longleftrightarrow> document_valid (ed_doc v))
     \<and> (ed_saveEnabled v \<longleftrightarrow> ed_valid v) \<and> (ed_summary v = None \<longleftrightarrow> ed_valid v) 
     \<and> ed_title v = ed_title (refreshTitle v) \<and> ed_hints v = ed_hints (refreshFieldHints v)
     \<and> (ed_runEnabled v \<longrightarrow> ed_valid v \<and> ed_running v = None) \<and> (ed_stopEnabled v \<longrightarrow> ed_running v \<noteq> None)"

definition editor_inv :: "('t, 'k, 'f) EditorView \<Rightarrow> bool" where
  "editor_inv v \<longleftrightarrow> versioned (dc_scenario (ed_doc v)) \<and> selection_ok v \<and> shown v"

text \<open>
  The YAML codec as far as validation can tell: it writes every scenario, reads what it wrote, and what it read is accepted
  exactly when the scenario was.
\<close>

definition yaml_faithful :: "codecs \<Rightarrow> bool" where
  "yaml_faithful c \<longleftrightarrow> (\<forall>s. \<exists>data s'. yaml_Marshal c s = Inr data \<and> yaml_UnmarshalStrict c data = Inr s'
     \<and> scenario_valid (applyScenarioDefaults s') = scenario_valid (applyScenarioDefaults s))"

lemma Document_Validate_valid: "yaml_faithful c \<Longrightarrow> (\<exists>u. Document_Validate c d = Inr u) \<longleftrightarrow> document_valid d"
proof -
  assume "yaml_faithful c"
  then obtain data s where d: "yaml_Marshal c (dc_scenario d) = Inr data" "yaml_UnmarshalStrict c data = Inr s"
    "scenario_valid (applyScenarioDefaults s) = document_valid d" unfolding yaml_faithful_def document_valid_def by blast
  have f: "ascii ''json'' \<noteq> ascii ''yaml''" by simp
  from Scenario_Validate_fst [of "applyScenarioDefaults s"] show ?thesis
    unfolding d(3) using d(1,2) f
    by (cases "Scenario_Validate (applyScenarioDefaults s)") (auto simp: Document_Validate_def DecodeScenario_def demo_format split: sum.splits)
qed

lemma current_cong:
  "ed_doc v = ed_doc w \<Longrightarrow> ed_selectedDevice v = ed_selectedDevice w \<Longrightarrow> currentDevice v = currentDevice w"
  "ed_doc v = ed_doc w \<Longrightarrow> ed_selectedDevice v = ed_selectedDevice w \<Longrightarrow> ed_selectedObject v = ed_selectedObject w \<Longrightarrow> currentObject v = currentObject w"
  by (simp_all add: currentDevice_def currentObject_def)

lemma view_sel [simp]:
  "ed_doc (revalidate c v) = ed_doc v" "ed_selectedDevice (revalidate c v) = ed_selectedDevice v" "ed_selectedObject (revalidate c v) = ed_selectedObject v"
  "ed_doc (rebuildDeviceForm v) = ed_doc v" "ed_selectedDevice (rebuildDeviceForm v) = ed_selectedDevice v" "ed_selectedObject (rebuildDeviceForm v) = ed_selectedObject v"
  "ed_doc (rebuildObjectForm v) = ed_doc v" "ed_selectedDevice (rebuildObjectForm v) = ed_selectedDevice v" "ed_selectedObject (rebuildObjectForm v) = ed_selectedObject v"
  "ed_doc (applyAddressEnablement v) = ed_doc v" "ed_selectedDevice (applyAddressEnablement v) = ed_selectedDevice v" "ed_selectedObject (applyAddressEnablement v) = ed_selectedObject v"
  "ed_doc (applyCommandableEnablement v) = ed_doc v" "ed_selectedDevice (applyCommandableEnablement v) = ed_selectedDevice v" "ed_selectedObject (applyCommandableEnablement v) = ed_selectedObject v"
  by (simp_all add: revalidate_def updateRunButtons_def refreshTitle_def refreshFieldHints_def rebuildDeviceForm_def rebuildObjectForm_def applyAddressEnablement_def
      applyCommandableEnablement_def Let_def split: sum.split option.split)

lemma selection_cong:
  "ed_doc v = ed_doc w \<Longrightarrow> ed_selectedDevice v = ed_selectedDevice w \<Longrightarrow> ed_selectedObject v = ed_selectedObject w \<Longrightarrow> selection_ok v = selection_ok w"
  by (simp add: selection_ok_def deviceListLength_def objectListLength_def current_cong(1) [of v w])

lemma title_cong: "ed_doc v = ed_doc w \<Longrightarrow> ed_title (refreshTitle v) = ed_title (refreshTitle w)"
  by (simp add: refreshTitle_def Let_def)

lemma hints_cong:
  assumes "ed_doc v = ed_doc w" "ed_selectedDevice v = ed_selectedDevice w" "ed_selectedObject v = ed_selectedObject w" "ed_fieldErrors v = ed_fieldErrors w"
  shows "ed_hints (refreshFieldHints v) = ed_hints (refreshFieldHints w)"
  by (simp add: refreshFieldHints_def assms(2-4) current_cong(2) [OF assms(1-3)])

lemma revalidate_shows:
  "ed_fieldErrors (revalidate c v) = FieldErrors (dc_scenario (ed_doc v))"
  "ed_valid (revalidate c v) \<longleftrightarrow> (\<exists>u. Document_Validate c (ed_doc v) = Inr u)"
  "ed_saveEnabled (revalidate c v) = ed_valid (revalidate c v)" "ed_summary (revalidate c v) = None \<longleftrightarrow> ed_valid (revalidate c v)"
  "ed_runEnabled (revalidate c v) \<longleftrightarrow> ed_valid (revalidate c v) \<and> ed_running v = None" "ed_stopEnabled (revalidate c v) \<longleftrightarrow> ed_running v \<noteq> None"
  "ed_running (revalidate c v) = ed_running v"
  by (cases "Document_Validate c (ed_doc v)";
      simp add: revalidate_def updateRunButtons_def refreshTitle_def refreshFieldHints_def Let_def)+

lemma revalidate_title: "ed_title (revalidate c v) = ed_title (refreshTitle v)"
  by (cases "Document_Validate c (ed_doc v)") (simp_all add: revalidate_def updateRunButtons_def refreshTitle_def refreshFieldHints_def Let_def)

lemma revalidate_hints: "ed_hints (revalidate c v) = ed_hints (refreshFieldHints (revalidate c v))"
proof -
  let ?w = "case Document_Validate c (ed_doc v) of
      Inl e \<Rightarrow> v\<lparr>ed_fieldErrors := FieldErrors (dc_scenario (ed_doc v)), ed_summary := Some e, ed_saveEnabled := False, ed_valid := False\<rparr>
    | Inr _ \<Rightarrow> v\<lparr>ed_fieldErrors := FieldErrors (dc_scenario (ed_doc v)), ed_summary := None, ed_saveEnabled := True, ed_valid := True\<rparr>"
  have "ed_hints (updateRunButtons (refreshTitle w)) = ed_hints w" for w :: "('a, 'b, 'c) EditorView"
    by (simp add: updateRunButtons_def refreshTitle_def Let_def)
  then have "ed_hints (revalidate c v) = ed_hints (refreshFieldHints ?w)" by (simp add: revalidate_def Let_def)
  also have "\<dots> = ed_hints (refreshFieldHints (revalidate c v))"
    by (rule hints_cong) (simp_all add: revalidate_shows split: sum.split)
  finally show ?thesis .
qed

lemma shown_revalidate: "yaml_faithful c \<Longrightarrow> shown (revalidate c v)"
  using Document_Validate_valid [of c "ed_doc v"] revalidate_hints [of c v] title_cong [of "revalidate c v" v]
  by (simp add: shown_def revalidate_shows revalidate_title)

lemma inv_revalidate:
  assumes "yaml_faithful c" "versioned (dc_scenario (ed_doc v))" "selection_ok v"
  shows "editor_inv (revalidate c v)"
  using assms shown_revalidate selection_cong [of "revalidate c v" v] by (simp add: editor_inv_def)

section \<open>Every step keeps it\<close>

lemma selection_lengths:
  assumes "selection_ok v" "ed_selectedDevice w = ed_selectedDevice v" "ed_selectedObject w = ed_selectedObject v"
    and "map (length \<circ> ds_Objects) (devices (ed_doc w)) = map (length \<circ> ds_Objects) (devices (ed_doc v))"
  shows "selection_ok w"
proof -
  from assms(4) have n: "length (devices (ed_doc w)) = length (devices (ed_doc v))" by (rule map_eq_imp_length_eq)
  have "length (ds_Objects (devices (ed_doc w) ! i)) = length (ds_Objects (devices (ed_doc v) ! i))" if "i < length (devices (ed_doc v))" for i
    using assms(4) that n by (metis comp_apply nth_map)
  then have "objectListLength w = objectListLength v"
    by (auto simp: objectListLength_def currentDevice_def assms(2) n nat_less_iff)
  with assms(1-3) n show ?thesis by (simp add: selection_ok_def deviceListLength_def)
qed

lemma inv_parts:
  "editor_inv v \<Longrightarrow> versioned (dc_scenario (ed_doc v))" "editor_inv v \<Longrightarrow> selection_ok v" "editor_inv v \<Longrightarrow> shown v"
  by (simp_all add: editor_inv_def)

lemma inv_again: "yaml_faithful c \<Longrightarrow> editor_inv v \<Longrightarrow> editor_inv (revalidate c v)"
  by (rule inv_revalidate) (auto dest: inv_parts)

lemma inv_selectDevice:
  assumes "yaml_faithful c" "versioned (dc_scenario (ed_doc v))" "- 1 \<le> i" "i < int (length (devices (ed_doc v)))"
  shows "editor_inv (selectDevice c i v)"
  unfolding selectDevice_def using assms
  by (intro inv_revalidate) (simp_all add: selection_ok_def deviceListLength_def)

lemma inv_selectObject:
  assumes "yaml_faithful c" "editor_inv v" "- 1 \<le> i" "i < int (objectListLength v)"
  shows "editor_inv (selectObject c i v)"
proof -
  let ?w = "rebuildObjectForm (v\<lparr>ed_selectedObject := i\<rparr>)"
  have "currentDevice ?w = currentDevice v" by (rule current_cong) simp_all
  then have "selection_ok ?w" using inv_parts(2) [OF assms(2)] assms(3,4) by (simp add: selection_ok_def deviceListLength_def objectListLength_def)
  then show ?thesis unfolding selectObject_def using assms(1) inv_parts(1) [OF assms(2)] by (intro inv_revalidate) simp_all
qed

lemma edit_network_sel [simp]:
  "ed_selectedDevice (edit_network c f v) = ed_selectedDevice v" "ed_selectedObject (edit_network c f v) = ed_selectedObject v"
  by (simp_all add: edit_network_def Let_def)

lemma inv_edit_network:
  assumes "yaml_faithful c" "editor_inv v" "nc_Mode (f (sc_Network (dc_scenario (ed_doc v)))) \<noteq> []"
    and "ed_doc w = ed_doc (edit_network c f v)" "ed_selectedDevice w = ed_selectedDevice v" "ed_selectedObject w = ed_selectedObject v"
  shows "editor_inv (revalidate c w)"
  using assms inv_parts [OF assms(2)]
  by (intro inv_revalidate selection_lengths [OF inv_parts(2) [OF assms(2)]]) (simp_all add: edit_network_def MarkDirty_def versioned_def Let_def)

lemma current_bounds:
  "currentDevice v = Some dev \<Longrightarrow> nat (ed_selectedDevice v) < length (devices (ed_doc v)) \<and> dev = devices (ed_doc v) ! nat (ed_selectedDevice v)"
  "currentObject v = Some obj \<Longrightarrow> \<exists>dev. currentDevice v = Some dev \<and> nat (ed_selectedObject v) < length (ds_Objects dev)"
  by (auto simp: currentDevice_def currentObject_def split: option.splits if_splits)

lemma inv_set_device:
  assumes "yaml_faithful c" "editor_inv v" "currentDevice v = Some dev" "length (ds_Objects dev') = length (ds_Objects dev)"
    and "ed_doc w = ed_doc (store_device dev' v)" "ed_selectedDevice w = ed_selectedDevice v" "ed_selectedObject w = ed_selectedObject v"
  shows "editor_inv (revalidate c w)"
  using assms inv_parts [OF assms(2)] current_bounds(1) [OF assms(3)]
  by (intro inv_revalidate selection_lengths [OF inv_parts(2) [OF assms(2)]])
    (simp_all add: store_device_def set_devices_def MarkDirty_def versioned_def map_update list_update_same_conv)

lemma inv_edit_device:
  assumes "yaml_faithful c" "editor_inv v" "\<And>dev dev'. f dev = Some dev' \<Longrightarrow> ds_Objects dev' = ds_Objects dev"
  shows "editor_inv (edit_device c f v)"
proof (cases "currentDevice v")
  case (Some dev)
  show ?thesis
  proof (cases "f dev")
    case (Some dev')
    have "editor_inv (revalidate c (store_device dev' v))"
      by (rule inv_set_device [OF assms(1,2) \<open>currentDevice v = Some dev\<close>]) (simp_all add: store_device_def assms(3) [OF Some])
    with Some \<open>currentDevice v = Some dev\<close> show ?thesis by (simp add: edit_device_def)
  qed (simp add: edit_device_def Some assms(2))
qed (simp add: edit_device_def assms(2))

lemma inv_set_object:
  assumes "yaml_faithful c" "editor_inv v" "currentObject v = Some obj"
    and "ed_doc w = ed_doc (store_object obj' v)" "ed_selectedDevice w = ed_selectedDevice v" "ed_selectedObject w = ed_selectedObject v"
  shows "editor_inv (revalidate c w)"
proof -
  obtain dev where d: "currentDevice v = Some dev" using current_bounds(2) [OF assms(3)] by blast
  let ?d = "dev\<lparr>ds_Objects := (ds_Objects dev)[nat (ed_selectedObject v) := obj']\<rparr>"
  have "ed_doc w = ed_doc (store_device ?d v)" using assms(4) current_bounds(1) [OF d] by (simp add: store_object_def Let_def)
  from inv_set_device [OF assms(1,2) d _ this assms(5,6)] show ?thesis by simp
qed

lemma inv_edit_object:
  assumes "yaml_faithful c" "editor_inv v"
  shows "editor_inv (edit_object c f v)"
proof (cases "currentObject v")
  case (Some obj)
  have "editor_inv (revalidate c (store_object obj' v))" for obj'
    by (rule inv_set_object [OF assms Some]) (simp_all add: store_object_def store_device_def Let_def)
  with Some assms(2) show ?thesis by (simp add: edit_object_def split: option.split)
qed (simp add: edit_object_def assms(2))

lemma inv_replaceDocument:
  assumes "yaml_faithful c" "versioned (dc_scenario doc)"
  shows "editor_inv (replaceDocument c doc v)"
proof (cases "devices doc")
  case Nil
  then show ?thesis unfolding replaceDocument_def Let_def using assms
    by (simp, intro inv_revalidate) (simp_all add: selection_ok_def deviceListLength_def)
next
  case (Cons d ds)
  have "editor_inv (selectDevice c 0 w)" if "ed_doc w = doc" for w :: "('a, 'b, 'c) EditorView"
    by (rule inv_selectDevice [OF assms(1)]) (simp_all add: that assms(2) Cons)
  then show ?thesis unfolding replaceDocument_def Let_def using Cons by (simp, intro inv_again [OF assms(1)]) simp
qed

lemma New_versioned: "versioned (dc_scenario New)"
  by (simp add: New_def versioned_def ScenarioVersion_def ascii_def)

lemma Load_versioned:
  "Load c readable path fs = Inr doc \<Longrightarrow> versioned (dc_scenario doc)" "LoadBytes c asset format = Inr doc \<Longrightarrow> versioned (dc_scenario doc)"
  by (auto simp: Load_def LoadBytes_def bind_res_eq_Inr dest!: DecodeScenario_valid intro!: valid_versioned)

lemma save_scenario:
  "dc_scenario (fst (snd (Save c a d fs))) = dc_scenario d" "dc_scenario (fst (snd (SaveAs c a path d fs))) = dc_scenario d"
proof -
  have "dc_scenario (fst (snd (writeTo c a path format d fs))) = dc_scenario d" for path format
    by (simp add: writeTo_def split: sum.split prod.split)
  then show "dc_scenario (fst (snd (Save c a d fs))) = dc_scenario d" "dc_scenario (fst (snd (SaveAs c a path d fs))) = dc_scenario d"
    by (simp_all add: Save_def SaveAs_def split: sum.split prod.split) (metis fst_conv snd_conv)+
qed

lemma inv_save:
  assumes "yaml_faithful c" "editor_inv v" "dc_scenario doc = dc_scenario (ed_doc v)"
  shows "editor_inv (revalidate c (v\<lparr>ed_doc := doc\<rparr>))"
  using assms inv_parts [OF assms(2)] by (intro inv_revalidate selection_lengths [OF inv_parts(2) [OF assms(2)]]) simp_all

text \<open>A step that changes the buttons and, as a run does, the writability of objects.\<close>

lemma current_writable:
  "map_option os_Type (currentObject (v\<lparr>ed_doc := (ed_doc v)\<lparr>dc_scenario := writable_scenario (dc_scenario (ed_doc v))\<rparr>\<rparr>)) = map_option os_Type (currentObject v)"
  by (auto simp: currentObject_def currentDevice_def nat_less_iff split: option.splits)

lemma writable_parts:
  assumes "writable_scenario s = writable_scenario s'"
  shows "versioned s = versioned s'" "map (length \<circ> ds_Objects) (sc_Devices s) = map (length \<circ> ds_Objects) (sc_Devices s')" "FieldErrors s = FieldErrors s'"
    "scenario_valid (applyScenarioDefaults s) = scenario_valid (applyScenarioDefaults s')"
proof -
  have lengths: "map (length \<circ> ds_Objects) (sc_Devices (writable_scenario s)) = map (length \<circ> ds_Objects) (sc_Devices s)" for s by simp
  have versioned: "versioned (writable_scenario s) = versioned s" for s by (simp add: versioned_def)
  show "versioned s = versioned s'" using versioned [of s] versioned [of s'] assms by simp
  show "map (length \<circ> ds_Objects) (sc_Devices s) = map (length \<circ> ds_Objects) (sc_Devices s')" using lengths [of s] lengths [of s'] assms by simp
  show "FieldErrors s = FieldErrors s'" by (metis assms FieldErrors_writable)
  show "scenario_valid (applyScenarioDefaults s) = scenario_valid (applyScenarioDefaults s')" by (metis assms defaults_writable scenario_valid_writable)
qed

lemma inv_run:
  assumes "editor_inv v" "ed_doc w = (ed_doc v)\<lparr>dc_scenario := s\<rparr>" "writable_scenario s = writable_scenario (dc_scenario (ed_doc v))"
    "ed_selectedDevice w = ed_selectedDevice v" "ed_selectedObject w = ed_selectedObject v" "ed_fieldErrors w = ed_fieldErrors v"
    "ed_valid w = ed_valid v" "ed_saveEnabled w = ed_saveEnabled v" "ed_summary w = ed_summary v" "ed_title w = ed_title v" "ed_hints w = ed_hints v"
    "ed_runEnabled w \<longrightarrow> ed_valid w \<and> ed_running w = None" "ed_stopEnabled w \<longrightarrow> ed_running w \<noteq> None"
  shows "editor_inv w"
proof -
  let ?all = "\<lambda>v. v\<lparr>ed_doc := (ed_doc v)\<lparr>dc_scenario := writable_scenario (dc_scenario (ed_doc v))\<rparr>\<rparr>"
  have "currentObject (?all w) = currentObject (?all v)" by (rule current_cong) (simp_all add: assms(2-5))
  then have types: "map_option os_Type (currentObject w) = map_option os_Type (currentObject v)" using current_writable [of v] current_writable [of w] by simp
  have "ed_hints (refreshFieldHints w) = ed_hints (refreshFieldHints v)"
  proof -
    have "(case currentObject v of None \<Rightarrow> [] | Some obj \<Rightarrow> object_entries (classifyObjectType (os_Type obj)))
      = (case currentObject w of None \<Rightarrow> [] | Some obj \<Rightarrow> object_entries (classifyObjectType (os_Type obj)))"
      using types by (auto split: option.split)
    then show ?thesis by (simp add: refreshFieldHints_def assms(4-6))
  qed
  moreover have "ed_title (refreshTitle w) = ed_title (refreshTitle v)" by (simp add: refreshTitle_def assms(2) Let_def)
  ultimately have "shown w" using inv_parts(3) [OF assms(1)] assms(2,6-13) writable_parts(3,4) [OF assms(3)] by (simp add: shown_def document_valid_def)
  moreover have "selection_ok w" using selection_lengths [OF inv_parts(2) [OF assms(1)] assms(4,5)] writable_parts(2) [OF assms(3)] assms(2) by simp
  ultimately show ?thesis using inv_parts(1) [OF assms(1)] writable_parts(1) [OF assms(3)] assms(2) by (simp add: editor_inv_def)
qed

lemma inv_start: "editor_inv v \<Longrightarrow> editor_inv (start_goroutine Now listen clk v)"
proof (cases "ed_starts v")
  case Nil
  then show "editor_inv v \<Longrightarrow> ?thesis" by (simp add: start_goroutine_def)
next
  case (Cons job jobs)
  let ?s = "dc_scenario (ed_doc v)"
  let ?job = "case job of None \<Rightarrow> ?s | Some s \<Rightarrow> s"
  obtain r s' h where start: "Runner_Start listen clk (Some ?job) False (ed_host v) = (r, Some s', h)" and w: "writable_scenario s' = writable_scenario ?job"
    using Runner_Start_writable [of listen clk ?job False "ed_host v"] by (metis fst_conv snd_conv surj_pair)
  let ?s' = "case job of None \<Rightarrow> s' | Some _ \<Rightarrow> ?s"
  have valid: "writable_scenario ?s' = writable_scenario ?s" using w by (cases job) simp_all
  have doc: "ed_doc (start_goroutine Now listen clk v) = (ed_doc v)\<lparr>dc_scenario := ?s'\<rparr>"
    using start by (cases r; cases job) (simp_all add: start_goroutine_def Cons updateRunButtons_def Let_def)
  assume "editor_inv v"
  then show ?thesis
    by (rule inv_run [OF _ doc valid]) (use start in \<open>cases r; cases job; simp add: start_goroutine_def Cons updateRunButtons_def Let_def\<close>)+
qed

lemma shown_buttons:
  "editor_inv v \<Longrightarrow> ed_runEnabled v \<Longrightarrow> ed_valid v" "editor_inv v \<Longrightarrow> ed_runEnabled v \<Longrightarrow> ed_running v = None"
  "editor_inv v \<Longrightarrow> ed_stopEnabled v \<Longrightarrow> ed_running v \<noteq> None"
  by (auto simp: editor_inv_def shown_def)

text \<open>A step that leaves the document alone.\<close>

lemma inv_same:
  assumes "editor_inv v" "ed_doc w = ed_doc v" "ed_selectedDevice w = ed_selectedDevice v" "ed_selectedObject w = ed_selectedObject v"
    "ed_fieldErrors w = ed_fieldErrors v" "ed_valid w = ed_valid v" "ed_saveEnabled w = ed_saveEnabled v" "ed_summary w = ed_summary v" "ed_title w = ed_title v"
    "ed_hints w = ed_hints v" "ed_runEnabled w \<Longrightarrow> ed_valid w \<and> ed_running w = None" "ed_stopEnabled w \<Longrightarrow> ed_running w \<noteq> None"
  shows "editor_inv w"
  by (rule inv_run [of v w "dc_scenario (ed_doc v)"]) (use assms in simp_all)

lemma inv_stop: "editor_inv v \<Longrightarrow> editor_inv (stop_goroutine v)"
  by (cases "ed_stops v") (simp_all add: stop_goroutine_def updateRunButtons_def Let_def, rule inv_same [of v], simp_all)

lemma inv_onStop: "editor_inv v \<Longrightarrow> editor_inv (onStop v)"
  by (cases "ed_running v"; rule inv_same [of v]) (simp_all add: onStop_def updateRunButtons_def Let_def shown_buttons)

lemma inv_onRun: "editor_inv v \<Longrightarrow> editor_inv (onRun c v)"
  by (cases "Document_Validate c (ed_doc v)"; rule inv_same [of v]) (simp_all add: onRun_def shown_buttons)

lemma inv_add_device:
  assumes "yaml_faithful c" "editor_inv v" "onAddDevice c v = Some v'"
  shows "editor_inv v'"
proof -
  obtain doc where d: "Document_AddDevice (ed_doc v) = Some doc" and v': "v' = revalidate c (selectDevice c (int (length (devices doc)) - 1) (v\<lparr>ed_doc := doc\<rparr>))"
    using assms(3) by (auto simp: onAddDevice_def Let_def)
  have "versioned (dc_scenario doc)" using d inv_parts(1) [OF assms(2)] by (auto simp: Document_AddDevice_def MarkDirty_def set_devices_def versioned_def)
  then show ?thesis unfolding v' by (intro inv_again [OF assms(1)] inv_selectDevice [OF assms(1)]) simp_all
qed

lemma inv_remove_device:
  assumes "yaml_faithful c" "editor_inv v"
  shows "editor_inv (onRemoveDevice c v)"
proof (cases "ed_selectedDevice v < 0")
  case False
  let ?doc = "RemoveDevice (ed_selectedDevice v) (ed_doc v)"
  have "versioned (dc_scenario ?doc)" using inv_parts(1) [OF assms(2)] by (simp add: RemoveDevice_def MarkDirty_def set_devices_def versioned_def)
  with False show ?thesis unfolding onRemoveDevice_def Let_def
    by (simp, intro conjI impI inv_again [OF assms(1)] inv_selectDevice [OF assms(1)]) simp_all
qed (simp add: onRemoveDevice_def assms(2))

text \<open>After the objects of the selected device have changed, its list has the new length.\<close>

lemma inv_objects:
  assumes "yaml_faithful c" "editor_inv v" "currentDevice v = Some dev" "- 1 \<le> i" "i < int (length objs)"
    and "doc = MarkDirty (set_devices ((devices (ed_doc v))[nat (ed_selectedDevice v) := dev\<lparr>ds_Objects := objs\<rparr>]) (ed_doc v))"
  shows "editor_inv (selectObject c i (v\<lparr>ed_doc := doc\<rparr>))"
proof -
  let ?w = "rebuildObjectForm (v\<lparr>ed_doc := doc, ed_selectedObject := i\<rparr>)"
  have n: "length (devices doc) = length (devices (ed_doc v))" by (simp add: assms(6) MarkDirty_def set_devices_def)
  have "currentDevice ?w = Some (dev\<lparr>ds_Objects := objs\<rparr>)"
    using assms(3) by (auto simp: currentDevice_def n nat_less_iff assms(6) MarkDirty_def set_devices_def split: if_splits)
  then have "selection_ok ?w" using inv_parts(2) [OF assms(2)] assms(4,5) by (simp add: selection_ok_def objectListLength_def deviceListLength_def n)
  moreover have "versioned (dc_scenario doc)" using inv_parts(1) [OF assms(2)] by (simp add: assms(6) versioned_def MarkDirty_def set_devices_def)
  ultimately show ?thesis unfolding selectObject_def using assms(1) by (intro inv_revalidate) simp_all
qed

lemma inv_add_object:
  assumes "yaml_faithful c" "editor_inv v" "onAddObject c t v = Some v'"
  shows "editor_inv v'"
proof (cases "currentDevice v")
  case None
  then have "v' = v" using assms(3) by (auto simp: onAddObject_def AddObject_def currentDevice_def split: if_splits)
  then show ?thesis using assms(2) by simp
next
  case (Some dev)
  then have i: "\<not> ed_selectedDevice v < 0" "\<not> ed_selectedDevice v \<ge> int (length (devices (ed_doc v)))" "dev = devices (ed_doc v) ! nat (ed_selectedDevice v)"
    by (auto simp: currentDevice_def split: if_splits)
  show ?thesis
  proof (cases "canonicalObjectType t")
    case None
    then have "v' = v" using assms(3) i by (auto simp: onAddObject_def AddObject_def)
    then show ?thesis using assms(2) by simp
  next
    case canon: (Some canon)
    then obtain n where n: "nextFreeID (objectInstances (ds_Objects dev) canon) = Some n"
      using assms(3) i by (auto simp: onAddObject_def AddObject_def Let_def)
    let ?objs = "ds_Objects dev @ [new_object canon n]"
    define doc where "doc = MarkDirty (set_devices ((devices (ed_doc v))[nat (ed_selectedDevice v) := dev\<lparr>ds_Objects := ?objs\<rparr>]) (ed_doc v))"
    have "length (ds_Objects (devices doc ! nat (ed_selectedDevice v))) = Suc (length (ds_Objects dev))"
      using i(1,2) by (simp add: doc_def MarkDirty_def set_devices_def nat_less_iff)
    moreover have "AddObject (ed_selectedDevice v) t (ed_doc v) = Some (True, doc)" using i n canon by (simp add: AddObject_def doc_def Let_def)
    ultimately have "v' = revalidate c (selectObject c (int (length (ds_Objects dev))) (v\<lparr>ed_doc := doc\<rparr>))"
      using assms(3) i(1) by (auto simp: onAddObject_def Let_def)
    then show ?thesis using inv_again [OF assms(1) inv_objects [OF assms(1,2) Some _ _ doc_def]] by simp
  qed
qed

lemma inv_remove_object:
  assumes "yaml_faithful c" "editor_inv v"
  shows "editor_inv (onRemoveObject c v)"
proof (cases "ed_selectedDevice v < 0 \<or> ed_selectedObject v < 0")
  case False
  then have sel: "ed_selectedDevice v < int (length (devices (ed_doc v)))" using inv_parts(2) [OF assms(2)] by (simp add: selection_ok_def deviceListLength_def)
  define dev where "dev = devices (ed_doc v) ! nat (ed_selectedDevice v)"
  have d: "currentDevice v = Some dev" using False sel by (simp add: currentDevice_def dev_def)
  then have o: "ed_selectedObject v < int (length (ds_Objects dev))" using inv_parts(2) [OF assms(2)] by (simp add: selection_ok_def objectListLength_def)
  define objs where "objs = take (nat (ed_selectedObject v)) (ds_Objects dev) @ drop (nat (ed_selectedObject v) + 1) (ds_Objects dev)"
  define doc where "doc = MarkDirty (set_devices ((devices (ed_doc v))[nat (ed_selectedDevice v) := dev\<lparr>ds_Objects := objs\<rparr>]) (ed_doc v))"
  have doc: "RemoveObject (ed_selectedDevice v) (ed_selectedObject v) (ed_doc v) = doc"
    using False sel o by (simp add: RemoveObject_def doc_def dev_def objs_def Let_def)
  have n: "length (ds_Objects (devices doc ! nat (ed_selectedDevice v))) = length objs"
    using False sel by (simp add: doc_def MarkDirty_def set_devices_def nat_less_iff)
  have "editor_inv (selectObject c i (v\<lparr>ed_doc := doc\<rparr>))" if "- 1 \<le> i" "i < int (length objs)" for i
    by (rule inv_objects [OF assms d that doc_def])
  with False show ?thesis by (auto simp: onRemoveObject_def doc n Let_def intro!: inv_again [OF assms(1)])
qed (auto simp: onRemoveObject_def assms(2))

lemma inv_commandable:
  assumes "yaml_faithful c" "editor_inv v"
  shows "editor_inv (onObjectCommandableChanged c checked v)"
proof (cases "currentObject v")
  case (Some obj)
  show ?thesis unfolding onObjectCommandableChanged_def Let_def Some option.case
    by (rule inv_set_object [OF assms Some]) (simp_all add: store_object_def store_device_def Let_def)
qed (simp add: onObjectCommandableChanged_def assms(2))

lemmas field_defs = onDeviceIDChanged_def onDeviceNameChanged_def onDeviceAddressChanged_def onDevicePortChanged_def onDeviceVendorIDChanged_def
  onDeviceVendorNameChanged_def onDeviceModelNameChanged_def onDeviceProtocolRevisionChanged_def onObjectInstanceChanged_def onObjectNameChanged_def
  onObjectDescriptionChanged_def onObjectUnitsChanged_def onObjectWritableChanged_def onObjectInitialPriorityChanged_def onObjectNumberOfStatesChanged_def
  onObjectCOVIncrementChanged_def onObjectPresentValueEntryChanged_def onObjectPresentValueSelectChanged_def onObjectRelinquishEntryChanged_def
  onObjectRelinquishSelectChanged_def

lemma inv_network:
  assumes "yaml_faithful c" "editor_inv v"
  shows "mode \<in> set networkModes \<Longrightarrow> editor_inv (onModeChanged c mode v)" "editor_inv (onIfaceChanged c text v)" "editor_inv (onNetworkPortChanged c text v)"
proof -
  have m: "nc_Mode (sc_Network (dc_scenario (ed_doc v))) \<noteq> []" using inv_parts(1) [OF assms(2)] by (simp add: versioned_def)
  note e = inv_edit_network [OF assms]
  show "editor_inv (onModeChanged c mode v)" if "mode \<in> set networkModes"
    unfolding onModeChanged_def by (rule e [where f = "\<lambda>n. n\<lparr>nc_Mode := mode\<rparr>"]) (use that in \<open>auto simp: networkModes_def ascii_def\<close>)
  show "editor_inv (onIfaceChanged c text v)"
    unfolding onIfaceChanged_def by (rule e [where f = "\<lambda>n. n\<lparr>nc_Interface := text\<rparr>"]) (use m in simp_all)
  show "editor_inv (onNetworkPortChanged c text v)"
  proof (cases "number_or_zero 16 text")
    case (Some n)
    have "editor_inv (revalidate c (edit_network c (\<lambda>nw. nw\<lparr>nc_Port := word_of_nat n\<rparr>) v))"
      by (rule e [where f = "\<lambda>nw. nw\<lparr>nc_Port := word_of_nat n\<rparr>"]) (use m in simp_all)
    with Some show ?thesis by (simp add: onNetworkPortChanged_def)
  qed (simp add: onNetworkPortChanged_def assms(2))
qed

lemma inv_documents:
  assumes "yaml_faithful c" "editor_inv v"
  shows "editor_inv (newDocument c v)" "editor_inv (snd (openPath c readable path fs v))" "editor_inv (onLoadExample c asset confirmed v)"
proof -
  show "editor_inv (newDocument c v)" unfolding newDocument_def by (rule inv_replaceDocument [OF assms(1) New_versioned])
  show "editor_inv (snd (openPath c readable path fs v))"
    using assms inv_replaceDocument [OF assms(1) Load_versioned(1)] by (auto simp: openPath_def split: sum.split)
  have "editor_inv (loadExampleScenario c asset v)"
  proof (cases "LoadBytes c asset (ascii ''yaml'')")
    case (Inl e)
    have "editor_inv (v\<lparr>ed_status := ''example scenario invalid: %s''\<rparr>)"
      by (rule inv_same [OF assms(2)]) (simp_all add: shown_buttons [OF assms(2)])
    with Inl show ?thesis by (simp add: loadExampleScenario_def)
  next
    case (Inr doc)
    with inv_replaceDocument [OF assms(1) Load_versioned(2) [OF Inr]] show ?thesis by (simp add: loadExampleScenario_def)
  qed
  with assms(2) show "editor_inv (onLoadExample c asset confirmed v)" by (simp add: onLoadExample_def)
qed

lemma inv_saves:
  assumes "yaml_faithful c" "editor_inv v"
  shows "editor_inv (fst (snd (editor_save c a fs v)))" "editor_inv (fst (snd (editor_saveAs c a path fs v)))"
  using save_scenario(1) [of c a "ed_doc v" fs] save_scenario(2) [of c a path "ed_doc v" fs]
  by (auto simp: editor_save_def editor_saveAs_def split_beta intro!: inv_save [OF assms])

lemma inv_step:
  assumes "yaml_faithful c" "editor_step c ft Now listen clk v v'" "editor_inv v"
  shows "editor_inv v'"
  using assms(2)
proof cases
  case Mode then show ?thesis using inv_network [OF assms(1,3)] by blast
next
  case (Pick_device i) then show ?thesis using inv_selectDevice [OF assms(1) inv_parts(1) [OF assms(3)], of i] by (simp add: deviceListLength_def)
next
  case (Pick_object i) then show ?thesis using inv_selectObject [OF assms(1,3), of i] by simp
next
  case Add_device then show ?thesis using inv_add_device [OF assms(1,3)] by blast
next
  case (Add_object t) then show ?thesis using inv_add_object [OF assms(1,3)] by blast
qed (auto simp: field_defs intro: inv_network [OF assms(1,3)] inv_remove_device [OF assms(1,3)] inv_remove_object [OF assms(1,3)]
    inv_edit_object [OF assms(1,3)] inv_commandable [OF assms(1,3)] inv_documents [OF assms(1,3)] inv_saves [OF assms(1,3)] inv_start [OF assms(3)] inv_stop [OF assms(3)] inv_onStop [OF assms(3)] inv_onRun [OF assms(3)]
    intro!: inv_edit_device [OF assms(1,3)] split: if_splits)

lemma New_devices: "devices New = [DeviceSpec_zero\<lparr>ds_ID := 1, ds_Name := ascii ''device-1''\<rparr>]"
  by (simp add: New_def)

lemma inv_initial: "yaml_faithful c \<Longrightarrow> editor_inv (NewEditorView c st h)"
  unfolding NewEditorView_def by (intro inv_again inv_selectDevice) (simp_all add: New_versioned New_devices)

abbreviation editor_reaches :: "codecs \<Rightarrow> float_text \<Rightarrow> ('k \<Rightarrow> time \<times> 'k) \<Rightarrow> listener \<Rightarrow> 't
    \<Rightarrow> ('t, 'k, 'f) EditorView \<Rightarrow> ('t, 'k, 'f) EditorView \<Rightarrow> bool" where
  "editor_reaches c ft Now listen clk \<equiv> (editor_step c ft Now listen clk)\<^sup>*\<^sup>*"

lemma inv_reaches:
  assumes "yaml_faithful c" "editor_reaches c ft Now listen clk (NewEditorView c st h) v"
  shows "editor_inv v"
  using assms(2) by (induction rule: rtranclp_induct) (auto intro: inv_initial inv_step assms(1))

lemma valid_scenario:
  assumes "editor_inv v" "ed_valid v"
  shows "scenario_valid (dc_scenario (ed_doc v))"
  using assms document_valid_live by (auto simp: editor_inv_def shown_def document_valid_def)

section \<open>What the view shows\<close>

text \<open>
  C19: Over any history of the simulator view the selection lies in the lists, the hints and the title are those of the document, Save is enabled
  exactly when the document validates, Run only when moreover no simulation is running, and Stop only when one is.  When Run is
  enabled the form shows no error and the scenario as it stands, without the defaults of the codec, is accepted by the validation
  of the runner, which \<^verbatim>\<open>Document.Validate\<close> does not look at.  That does not mean that the runner starts it: a scenario of the mode multi-ip, or
  with an address that is not a loopback address, is refused as unsupported, and one with a relinquish default that does not fit
  its object fails to build, both without a change to the sockets; every other one is started if the system grants the sockets.
\<close>

theorem editor_in_sync:
  assumes "yaml_faithful c" "editor_reaches c ft Now listen clk (NewEditorView c st h) v"
  shows "selection_ok v \<and> shown v
    \<and> (ed_runEnabled v \<longrightarrow> (let s = dc_scenario (ed_doc v); start = Runner_Start listen' clk' (Some s) ended h' in
        ed_fieldErrors v = [] \<and> fst (Scenario_Validate s) = Inr ()
        \<and> (if nc_Mode (sc_Network s) = ascii ''multi-ip'' \<or> \<not> list_all (isLoopbackOrEmpty \<circ> ds_Address) (sc_Devices s)
           then start = (Inl ErrUnsupportedScenario, Some s, h')
           else if \<not> defaults_ok s then \<exists>e s'. start = (Inl e, s', h')
           else grants listen' \<longrightarrow> (\<exists>r s' h''. start = (Inr r, s', h'')))))"
proof -
  note i = inv_reaches [OF assms]
  have "let s = dc_scenario (ed_doc v); start = Runner_Start listen' clk' (Some s) ended h' in
        ed_fieldErrors v = [] \<and> fst (Scenario_Validate s) = Inr ()
        \<and> (if nc_Mode (sc_Network s) = ascii ''multi-ip'' \<or> \<not> list_all (isLoopbackOrEmpty \<circ> ds_Address) (sc_Devices s)
           then start = (Inl ErrUnsupportedScenario, Some s, h')
           else if \<not> defaults_ok s then \<exists>e s'. start = (Inl e, s', h')
           else grants listen' \<longrightarrow> (\<exists>r s' h''. start = (Inr r, s', h'')))" if "ed_runEnabled v"
  proof -
    let ?s = "dc_scenario (ed_doc v)" let ?bad = "nc_Mode (sc_Network ?s) = ascii ''multi-ip'' \<or> \<not> list_all (isLoopbackOrEmpty \<circ> ds_Address) (sc_Devices ?s)"
    have v: "scenario_valid ?s" by (rule valid_scenario [OF i shown_buttons(1) [OF i that]])
    then have fe: "FieldErrors ?s = []"
      by (simp add: FieldErrors_empty scenario_valid_def objects_valid_def objects_fields_def object_valid_fields)
    from v have "nc_Mode (sc_Network ?s) \<in> {ascii ''multi-port'', ascii ''single-device'', ascii ''multi-ip''}"
      by (auto simp: scenario_valid_def network_shape_def)
    moreover have "ascii ''multi-ip'' \<noteq> ascii ''multi-port''" "ascii ''multi-ip'' \<noteq> ascii ''single-device''" by (simp_all add: ascii_def)
    ultimately have r: "runnable ?s \<longleftrightarrow> \<not> ?bad \<and> defaults_ok ?s" using v by (auto simp: runnable_def list_all_iff)
    from r have "\<exists>e s'. Runner_Start listen' clk' (Some ?s) ended h' = (Inl e, s', h')" if "\<not> defaults_ok ?s"
      using that Runner_Start_cases [of ?s listen' clk' ended h'] by simp
    moreover from r have "\<exists>r s' h''. Runner_Start listen' clk' (Some ?s) ended h' = (Inr r, s', h'')" if "\<not> ?bad" "defaults_ok ?s" "grants listen'"
      using that Runner_Start_grants [of listen' ?s clk' ended h'] by blast
    ultimately show ?thesis using v fe inv_parts(3) [OF i] Runner_Start_unsupported [of ?s listen' clk' ended h']
      by (simp add: Scenario_Validate_fst shown_def Let_def)
  qed
  with inv_parts [OF i] show ?thesis by blast
qed

section \<open>A run and its end\<close>

lemma remove_rows_at: "row_at (remove_rows rows st) k = (if k \<in> (\<lambda>d. DeviceKey (rn_ID d) (rn_Addr d)) ` set rows then None else row_at st k)"
  by (induction rows arbitrary: st) (auto simp: remove_rows_def Remove_def delete_conv)

lemma insert_rows_other: "k \<notin> (\<lambda>d. DeviceKey (rn_ID d) (rn_Addr d)) ` set rows \<Longrightarrow> row_at (insert_rows Now rows st) k = row_at st k"
  by (induction rows arbitrary: st) (auto simp: insert_rows_def Upsert_def simulated_row_def update_conv Let_def split_beta)

lemma Upsert_simulated:
  "row_at (snd (Upsert Now (simulated_row d) st)) (DeviceKey (rn_ID d) (rn_Addr d)) = Some r \<Longrightarrow> row_Source r = ''simulated''"
  by (auto simp: Upsert_def simulated_row_def merge_row_def update_conv Let_def split_beta split: option.splits if_splits)

lemma insert_rows_simulated:
  assumes "\<And>r. row_at st k = Some r \<Longrightarrow> row_Source r = ''simulated''" "row_at st k \<noteq> None \<or> k \<in> (\<lambda>d. DeviceKey (rn_ID d) (rn_Addr d)) ` set rows"
  shows "\<exists>r. row_at (insert_rows Now rows st) k = Some r \<and> row_Source r = ''simulated''"
  using assms
proof (induction rows arbitrary: st)
  case Nil
  then show ?case by (auto simp: insert_rows_def)
next
  case (Cons d rows)
  let ?st = "snd (Upsert Now (simulated_row d) st)" and ?k = "DeviceKey (rn_ID d) (rn_Addr d)"
  have at: "k \<noteq> ?k \<Longrightarrow> row_at ?st k = row_at st k" "row_at ?st ?k \<noteq> None"
    by (simp_all add: Upsert_def simulated_row_def update_conv Let_def split_beta)
  have "\<exists>r. row_at (insert_rows Now rows ?st) k = Some r \<and> row_Source r = ''simulated''"
    by (rule Cons.IH) (use Cons.prems at Upsert_simulated [of Now d st] in \<open>cases "k = ?k"; auto\<close>)+
  then show ?case by (simp add: insert_rows_def)
qed

lemma insert_rows_row:
  "k \<in> (\<lambda>d. DeviceKey (rn_ID d) (rn_Addr d)) ` set rows \<Longrightarrow> \<exists>r. row_at (insert_rows Now rows st) k = Some r \<and> row_Source r = ''simulated''"
proof (induction rows arbitrary: st)
  case (Cons d rows)
  let ?st = "snd (Upsert Now (simulated_row d) st)" and ?k = "DeviceKey (rn_ID d) (rn_Addr d)"
  have "row_at ?st ?k \<noteq> None" by (simp add: Upsert_def simulated_row_def update_conv Let_def split_beta)
  then have "\<exists>r. row_at (insert_rows Now rows ?st) k = Some r \<and> row_Source r = ''simulated''"
    using insert_rows_simulated [of ?st k rows Now] Upsert_simulated [of Now d st] Cons by (cases "k = ?k") auto
  then show ?case by (simp add: insert_rows_def)
qed simp

lemma enabled_validates:
  assumes "yaml_faithful c" "editor_inv v" "ed_runEnabled v"
  shows "\<exists>u. Document_Validate c (ed_doc v) = Inr u"
  using shown_buttons(1) [OF assms(2,3)] inv_parts(3) [OF assms(2)] Document_Validate_valid [OF assms(1)] by (simp add: shown_def)

text \<open>
  C20: When Run is enabled and no goroutine is under way, a scenario for loopback sockets (its mode is not \<^verbatim>\<open>multi-ip\<close>, its
  addresses are empty or loopback, its relinquish defaults have the types of their objects) starts when the operating system gives
  the sockets: every device is running, has a socket of its own and a row in the device store.  Stop then
  closes exactly these sockets, removes exactly these rows, and offers Run again.  The run leaves the document marked as it was,
  although commandable objects are now writable in it.
\<close>

theorem editor_run_and_stop:
  fixes v :: "('t, 'k, 'f) EditorView"
  assumes "yaml_faithful c" "editor_reaches c ft Now listen clk (NewEditorView c st h) v" "ed_runEnabled v" "ed_starts v = []" "ed_stops v = []"
    and "host_inv (ed_host v)" "binds listen" "grants listen"
    and "nc_Mode (sc_Network (dc_scenario (ed_doc v))) \<noteq> ascii ''multi-ip''" "list_all (\<lambda>dev. isLoopbackOrEmpty (ds_Address dev)) (devices (ed_doc v))"
    "defaults_ok (dc_scenario (ed_doc v))"
    and "v1 = start_goroutine Now listen clk (onRun c v)" "v2 = stop_goroutine (onStop v1)"
    and "keys = (\<lambda>d. DeviceKey (rn_ID d) (rn_Addr d)) ` set (ed_rows v1)"
  shows "\<exists>r. ed_running v1 = Some r \<and> list_all2 runs_as (devices (ed_doc v)) (ed_rows v1) \<and> ed_stopEnabled v1 \<and> \<not> ed_runEnabled v1
      \<and> set (ho_open (ed_host v1)) = set (ho_open (ed_host v)) \<union> set (ru_conns r) \<and> length (ru_conns r) = length (devices (ed_doc v))
      \<and> (\<forall>k. k \<in> keys \<longrightarrow> (\<exists>row. row_at (ed_devices v1) k = Some row \<and> row_Source row = ''simulated''))
      \<and> ed_doc v1 = (ed_doc v)\<lparr>dc_scenario := writable_scenario (dc_scenario (ed_doc v))\<rparr>
      \<and> ed_running v2 = None \<and> ed_rows v2 = [] \<and> ed_runEnabled v2 \<and> set (ho_open (ed_host v2)) = set (ho_open (ed_host v))
      \<and> (\<forall>k. row_at (ed_devices v2) k = (if k \<in> keys then None else row_at (ed_devices v) k))"
proof -
  let ?s = "dc_scenario (ed_doc v)"
  note i = inv_reaches [OF assms(1,2)]
  have valid: "scenario_valid ?s" "ed_valid v" "ed_running v = None"
    using valid_scenario [OF i] shown_buttons [OF i] assms(3) by auto
  then have run: "runnable ?s" using assms(9-11) by (auto simp: runnable_def list_all_iff scenario_valid_def network_shape_def)
  obtain r h' where start: "Runner_Start listen clk (Some ?s) False (ed_host v) = (Inr r, Some (writable_scenario ?s), h')"
    using Runner_Start_grants [OF assms(8) run, of clk False "ed_host v"] by blast
  have opened: "opened (set (ho_open (ed_host v))) (ho_next (ed_host v)) (ru_conns r) h' \<and> all_started (length (devices (ed_doc v))) r
      \<and> list_all2 runs_as (devices (ed_doc v)) (ru_devices r)"
    by (rule Runner_Start_Inr [OF assms(6,7) start]) simp
  have v1: "v1 = v\<lparr>ed_runEnabled := False, ed_stopEnabled := True, ed_host := h', ed_doc := (ed_doc v)\<lparr>dc_scenario := writable_scenario ?s\<rparr>,
      ed_devices := insert_rows Now (ru_devices r) (ed_devices v), ed_running := Some r, ed_rows := ru_devices r, ed_status := ''Simulation running - %d devices (ports %s)''\<rparr>"
    using enabled_validates [OF assms(1) i assms(3)] start assms(4)
    by (auto simp: assms(12) onRun_def start_goroutine_def updateRunButtons_def Runner_Devices_def)
  have v2: "ed_running v2 = None" "ed_rows v2 = []" "ed_runEnabled v2" "ed_host v2 = snd (Runner_Stop r h')"
    "ed_devices v2 = remove_rows (ru_devices r) (insert_rows Now (ru_devices r) (ed_devices v))"
    using valid(2) assms(5) by (simp_all add: assms(13) v1 onStop_def stop_goroutine_def updateRunButtons_def)
  have keys: "keys = (\<lambda>d. DeviceKey (rn_ID d) (rn_Addr d)) ` set (ru_devices r)" using assms(14) v1 by simp
  have "row_at (ed_devices v2) k = (if k \<in> keys then None else row_at (ed_devices v) k)" for k
    by (simp add: v2(5) remove_rows_at keys insert_rows_other)
  moreover have "\<exists>row. row_at (ed_devices v1) k = Some row \<and> row_Source row = ''simulated''" if "k \<in> keys" for k
    using insert_rows_row that by (simp add: v1 keys)
  moreover have "set (ho_open (ed_host v2)) = set (ho_open (ed_host v))"
    unfolding v2(4) by (rule Runner_Stop_opened [where k = "ho_next (ed_host v)"]) (use opened in \<open>simp_all add: all_started_def\<close>)
  moreover have "length (ru_conns r) = length (devices (ed_doc v))"
    using opened list_all2_runs by (auto simp: all_started_def)
  moreover have "set (ho_open (ed_host v1)) = set (ho_open (ed_host v)) \<union> set (ru_conns r)"
    using opened by (simp add: v1 opened_def)
  ultimately show ?thesis using opened v2(1-3) by (simp add: v1)
qed

section \<open>A second run\<close>

lemma started_step:
  assumes "ed_starts v = None # jobs" "Runner_Start listen clk (Some (dc_scenario (ed_doc v))) False (ed_host v) = (Inr r, Some s', h')"
  shows "ed_running (start_goroutine Now listen clk v) = Some r" "ed_host (start_goroutine Now listen clk v) = h'"
    "dc_scenario (ed_doc (start_goroutine Now listen clk v)) = s'" "ed_starts (start_goroutine Now listen clk v) = jobs"
    "ed_stops (start_goroutine Now listen clk v) = ed_stops v"
  using assms by (simp_all add: start_goroutine_def updateRunButtons_def)

lemma runnable_writable: "runnable (writable_scenario s) = runnable s"
  by (auto simp: runnable_def scenario_valid_writable defaults_ok_def writable_device_def)

lemma select_kept:
  "ed_host (selectDevice c i v) = ed_host v" "ed_starts (selectDevice c i v) = ed_starts v" "ed_stops (selectDevice c i v) = ed_stops v"
  "ed_running (selectDevice c i v) = ed_running v" "ed_doc (selectDevice c i v) = ed_doc v"
  by (simp_all add: selectDevice_def revalidate_def updateRunButtons_def refreshTitle_def refreshFieldHints_def rebuildDeviceForm_def rebuildObjectForm_def
      applyAddressEnablement_def applyCommandableEnablement_def Let_def split: sum.split option.split)

text \<open>
  \<^verbatim>\<open>updateRunButtons\<close> does not know of a start under way: a click on a device enables Run again before the runner is there.  When the second start
  gets its sockets too, as it does for devices without a port, the view keeps the second runner only, and Stop leaves the sockets of the first open.
\<close>

theorem second_run_leaks:
  fixes v :: "('t, 'k, 'f) EditorView"
  assumes "yaml_faithful c" "editor_inv v" "ed_runEnabled v" "ed_starts v = []" "ed_stops v = []" "runnable (dc_scenario (ed_doc v))"
    and "host_inv (ed_host v)" "binds listen" "grants listen" "0 \<le> i" "i < int (length (devices (ed_doc v)))"
    and "w = onRun c (selectDevice c i (onRun c v))" "w' = stop_goroutine (onStop (start_goroutine Now listen clk (start_goroutine Now listen clk w)))"
  shows "ed_runEnabled (selectDevice c i (onRun c v)) \<and> ed_running w' = None \<and> ed_starts w' = [] \<and> ed_stops w' = []
    \<and> (\<exists>leaked. leaked \<noteq> {} \<and> leaked \<inter> set (ho_open (ed_host v)) = {} \<and> set (ho_open (ed_host w')) = set (ho_open (ed_host v)) \<union> leaked)"
proof -
  obtain u where u: "Document_Validate c (ed_doc v) = Inr u" using enabled_validates [OF assms(1-3)] by blast
  let ?v = "selectDevice c i (onRun c v)" and ?base = "set (ho_open (ed_host v))" and ?s = "dc_scenario (ed_doc v)"
  have first: "ed_running ?v = None" "ed_doc ?v = ed_doc v" "ed_host ?v = ed_host v" "ed_starts ?v = [None]" "ed_stops ?v = []"
    using u assms(4,5) shown_buttons(2) [OF assms(2,3)] by (simp_all add: select_kept onRun_def)
  have enabled: "ed_runEnabled ?v" using u first(1) by (simp add: selectDevice_def revalidate_shows onRun_def)
  have w: "ed_doc w = ed_doc v" "ed_host w = ed_host v" "ed_starts w = [None, None]" "ed_stops w = []"
    using u first by (simp_all add: assms(12) onRun_def)
  obtain r h1 where r: "Runner_Start listen clk (Some ?s) False (ed_host v) = (Inr r, Some (writable_scenario ?s), h1)"
    using Runner_Start_grants [OF assms(9,6), of clk False "ed_host v"] by blast
  have o1: "opened ?base (ho_next (ed_host v)) (ru_conns r) h1 \<and> ru_conns r \<noteq> []"
    by (rule Runner_Start_Inr [OF assms(7,8) r]) (use assms(10,11) list_all2_runs in \<open>force simp: all_started_def\<close>)
  let ?w1 = "start_goroutine Now listen clk w"
  note w1 = started_step [of w "[None]" listen clk r "writable_scenario ?s" h1 Now, unfolded w, OF refl r]
  obtain r2 h2 where r2: "Runner_Start listen clk (Some (writable_scenario ?s)) False h1 = (Inr r2, Some (writable_scenario (writable_scenario ?s)), h2)"
    using Runner_Start_grants [OF assms(9), of "writable_scenario ?s" clk False h1] runnable_writable [of ?s] assms(6) by blast
  have "host_inv h1" using o1 by (simp add: opened_def)
  have o2: "opened (set (ho_open h1)) (ho_next h1) (ru_conns r2) h2 \<and> \<not> ru_stopped r2"
    by (rule Runner_Start_Inr [OF \<open>host_inv h1\<close> assms(8) r2]) (simp add: all_started_def)
  note w2 = started_step [of ?w1 "[]" listen clk r2 _ h2 Now, unfolded w1, OF refl r2]
  have w': "ed_running w' = None" "ed_starts w' = []" "ed_stops w' = []" "ed_host w' = snd (Runner_Stop r2 h2)"
    using w2 by (simp_all add: assms(13) onStop_def stop_goroutine_def updateRunButtons_def Let_def)
  have "set (ho_open (ed_host w')) = ?base \<union> set (ru_conns r)"
    using o1 Runner_Stop_opened [of "set (ho_open h1)" "ho_next h1" r2 h2] o2 by (simp add: w'(4) opened_def)
  moreover have "set (ru_conns r) \<inter> ?base = {}" using o1 by (force simp: opened_def)
  ultimately show ?thesis using enabled w' o1 by (intro conjI exI [of _ "set (ru_conns r)"]) auto
qed

section \<open>Witnesses\<close>

text \<open>A codec that keeps of a scenario only whether it is valid.\<close>

definition flag_codecs :: codecs where
  "flag_codecs = \<lparr>json_MarshalIndent = (\<lambda>_. Inl (Err ''json'')),
     yaml_Marshal = (\<lambda>s. Inr (if scenario_valid (applyScenarioDefaults s) then [1] else [0])), json_Decode = (\<lambda>_. Inl (Err ''json'')),
     yaml_UnmarshalStrict = (\<lambda>b. Inr (if b = [1] then dc_scenario New else (dc_scenario New)\<lparr>sc_Devices := []\<rparr>))\<rparr>"

lemma flag_faithful: "yaml_faithful flag_codecs"
proof -
  have "\<not> scenario_valid (applyScenarioDefaults ((dc_scenario New)\<lparr>sc_Devices := []\<rparr>))"
    by (simp add: applyScenarioDefaults_def scenario_valid_def network_shape_def Let_def)
  then show ?thesis using New_valid by (simp add: yaml_faithful_def flag_codecs_def)
qed

definition first_view :: "(ManualClock, unit, unit) EditorView" where
  "first_view = NewEditorView flag_codecs (NewDeviceStore ()) \<lparr>ho_open = [], ho_next = 0\<rparr>"

lemma revalidate_kept:
  "ed_host (revalidate c v) = ed_host v" "ed_starts (revalidate c v) = ed_starts v" "ed_stops (revalidate c v) = ed_stops v" "ed_doc (revalidate c v) = ed_doc v"
  by (simp_all add: revalidate_def updateRunButtons_def refreshTitle_def refreshFieldHints_def Let_def split: sum.split)

lemma first_view_sel:
  "ed_doc first_view = New" "ed_starts first_view = []" "ed_stops first_view = []" "ed_host first_view = \<lparr>ho_open = [], ho_next = 0\<rparr>" "ed_running first_view = None"
  by (simp_all add: first_view_def NewEditorView_def revalidate_kept revalidate_shows select_kept)

lemma first_view_reached: "editor_reaches flag_codecs ft (\<lambda>u. (0, u)) all_bind (NewManualClock 0)
    (NewEditorView flag_codecs (NewDeviceStore ()) \<lparr>ho_open = [], ho_next = 0\<rparr>) first_view"
  by (simp add: first_view_def)

lemma first_view_run: "ed_runEnabled first_view"
proof -
  have "\<exists>u. Document_Validate flag_codecs New = Inr u" using Document_Validate_valid [OF flag_faithful] New_valid by (simp add: document_valid_def)
  then show ?thesis by (simp add: first_view_def NewEditorView_def revalidate_shows select_kept)
qed

theorem editor_in_sync_witness:
  "ed_runEnabled first_view \<and> ed_fieldErrors first_view = [] \<and> ed_title first_view = ascii ''untitled''
     \<and> (\<exists>r s' h'. Runner_Start all_bind (NewManualClock 0) (Some (dc_scenario (ed_doc first_view))) False \<lparr>ho_open = [], ho_next = 0\<rparr> = (Inr r, s', h'))"
proof -
  have t: "ed_title (refreshTitle first_view) = ascii ''untitled''" by (simp add: refreshTitle_def first_view_sel) (simp add: New_def)
  have n: "nc_Mode (sc_Network (dc_scenario New)) \<noteq> ascii ''multi-ip''" "list_all (isLoopbackOrEmpty \<circ> ds_Address) (sc_Devices (dc_scenario New))" "defaults_ok (dc_scenario New)"
    by (simp_all add: New_def DeviceSpec_zero_def isLoopbackOrEmpty_def defaults_ok_def)
  note sync = editor_in_sync [OF flag_faithful first_view_reached, where listen' = all_bind and clk' = "NewManualClock 0" and ended = False
      and h' = "\<lparr>ho_open = [], ho_next = 0\<rparr>"]
  have "ed_title first_view = ascii ''untitled''" using sync t unfolding shown_def by metis
  with sync first_view_run n empty_host(3) show ?thesis by (simp add: first_view_sel Let_def)
qed

theorem editor_run_and_stop_witness:
  "\<exists>v1 v2. v1 = start_goroutine (\<lambda>u. (0, u)) all_bind (NewManualClock 0) (onRun flag_codecs first_view) \<and> v2 = stop_goroutine (onStop v1)
     \<and> map rn_ID (ed_rows v1) = [1] \<and> ed_stopEnabled v1 \<and> ho_open (ed_host v1) \<noteq> [] \<and> ed_running v2 = None \<and> ho_open (ed_host v2) = [] \<and> ed_runEnabled v2"
proof -
  have n: "nc_Mode (sc_Network (dc_scenario New)) \<noteq> ascii ''multi-ip''" "list_all (\<lambda>dev. isLoopbackOrEmpty (ds_Address dev)) (devices New)" "defaults_ok (dc_scenario New)"
    by (simp_all add: New_def DeviceSpec_zero_def isLoopbackOrEmpty_def defaults_ok_def)
  note t = editor_run_and_stop [OF flag_faithful first_view_reached first_view_run, unfolded first_view_sel, OF refl refl empty_host n refl refl refl]
  let ?v1 = "start_goroutine (\<lambda>u. (0, u)) all_bind (NewManualClock 0) (onRun flag_codecs first_view)"
  from t show ?thesis
    by (intro exI [of _ ?v1] exI [of _ "stop_goroutine (onStop ?v1)"]) (auto simp: New_devices list_all2_Cons1 runs_as_def)
qed

end
