(* ===== verification/Gui_Browser.thy ===== *)
theory Gui_Browser
  imports Gui_Store Gui_Values "HOL-Library.Multiset"
begin

text \<open>
  The network explorer of the graphical application without its widgets: the object browser, \<^verbatim>\<open>gui/internal/ui/browser.go\<close>, with its tree,
  its property table and its write dialog, and the device table, \<^verbatim>\<open>gui/internal/ui/discovery.go\<close>.  The session is the live one; a goroutine
  is a step of its own, which may read the view at another time than the handler that started it.
\<close>

section \<open>Names\<close>

definition objectListProperty :: u32 where "objectListProperty = 76"
definition deviceObjectType :: u16 where "deviceObjectType = 8"
definition maxLegacyDeviceInstance :: u32 where "maxLegacyDeviceInstance = 65535"

definition objectTypeNames :: "(u16 \<times> string) list" where
  "objectTypeNames = [(0, ''analog-input''), (1, ''analog-output''), (2, ''analog-value''), (3, ''binary-input''), (4, ''binary-output''),
     (5, ''binary-value''), (8, ''device''), (13, ''multi-state-input''), (14, ''multi-state-output''), (19, ''multi-state-value'')]"

definition objectTypeName :: "u16 \<Rightarrow> string" where
  "objectTypeName t = (case map_of objectTypeNames t of Some name \<Rightarrow> name | None \<Rightarrow> ''type-'' @ itoa (unat t))"

definition wave1PropertyIDs :: "u32 list" where
  "wave1PropertyIDs = [77, 28, 85, 117, 87, 111, 36, 81, 104]"

definition wave1PropertyNames :: "(u32 \<times> string) list" where
  "wave1PropertyNames = [(77, ''Object_Name''), (28, ''Description''), (85, ''Present_Value''), (117, ''Units''), (87, ''Priority_Array''),
     (111, ''Status_Flags''), (36, ''Event_State''), (81, ''Out_Of_Service''), (104, ''Relinquish_Default'')]"

definition propertyName :: "u32 \<Rightarrow> string" where
  "propertyName i = (case map_of wave1PropertyNames i of Some name \<Rightarrow> name | None \<Rightarrow> ''prop-'' @ itoa (unat i))"

definition writeTagValues :: "(string \<times> u8) list" where
  "writeTagValues = [(''Null(0)'', 0), (''Boolean(1)'', 1), (''Unsigned(2)'', 2), (''Signed(3)'', 3), (''Real(4)'', 4), (''Double(5)'', 5),
     (''CharacterString(7)'', 7), (''Enumerated(9)'', 9)]"

definition writeTagOptions :: "string list" where
  "writeTagOptions = [''Null(0)'', ''Boolean(1)'', ''Unsigned(2)'', ''Signed(3)'', ''Real(4)'', ''Double(5)'', ''CharacterString(7)'', ''Enumerated(9)'']"

section \<open>Nodes of the tree\<close>

definition CutPrefix :: "bytes \<Rightarrow> bytes \<Rightarrow> bytes option" where
  "CutPrefix s p = (if take (length p) s = p then Some (drop (length p) s) else None)"

text \<open>\<^verbatim>\<open>strings.SplitN(s, ":", 2)\<close>.\<close>

definition split_first_colon :: "bytes \<Rightarrow> bytes list" where
  "split_first_colon s = (if 58 \<in> set s then [takeWhile (\<lambda>c. c \<noteq> 58) s, tl (dropWhile (\<lambda>c. c \<noteq> 58) s)] else [s])"

definition groupUID :: "u16 \<Rightarrow> bytes" where
  "groupUID t = ascii ''g:'' @ FormatUint (unat t)"

definition parseGroupUID :: "bytes \<Rightarrow> u16 option" where
  "parseGroupUID uid = (case CutPrefix uid (ascii ''g:'') of
       None \<Rightarrow> None
     | Some rest \<Rightarrow> (case ParseUint rest 16 of Inl _ \<Rightarrow> None | Inr n \<Rightarrow> Some (word_of_nat n)))"

definition leafUID :: "u16 \<Rightarrow> u32 \<Rightarrow> bytes" where
  "leafUID t instnc = ascii ''o:'' @ FormatUint (unat t) @ ascii '':'' @ FormatUint (unat instnc)"

definition parseLeafUID :: "bytes \<Rightarrow> (u16 \<times> u32) option" where
  "parseLeafUID uid = (case CutPrefix uid (ascii ''o:'') of
       None \<Rightarrow> None
     | Some rest \<Rightarrow>
         (case split_first_colon rest of
            [a, b] \<Rightarrow> (case (ParseUint a 16, ParseUint b 32) of (Inr t, Inr i) \<Rightarrow> Some (word_of_nat t, word_of_nat i) | _ \<Rightarrow> None)
          | _ \<Rightarrow> None))"

section \<open>The object browser\<close>

text \<open>The dialog holds what its three entries contain; a read under way has the object and what was read.\<close>

record 'f BrowserView =
  br_sess :: Live
  br_objects :: "'f ObjectCache"
  br_deviceKey :: DeviceKey
  br_deviceAddr :: ip
  br_selected :: ObjectRef
  br_hasSelection :: bool
  br_propRows :: "PropertyEntry list"
  br_dialog :: "(bytes \<times> string \<times> bytes) option"
  br_status :: string

definition NewBrowserView :: "Live \<Rightarrow> 'f ObjectCache \<Rightarrow> 'f BrowserView" where
  "NewBrowserView sess objects =
     \<lparr>br_sess = sess, br_objects = objects, br_deviceKey = DeviceKey 0 [], br_deviceAddr = None, br_selected = ObjectRef 0 0, br_hasSelection = False,
      br_propRows = map (\<lambda>i. \<lparr>pe_ID = i, pe_Values = [], pe_Err = []\<rparr>) wave1PropertyIDs, br_dialog = None, br_status = []\<rparr>"

definition entries :: "'f BrowserView \<Rightarrow> ObjectEntry list" where
  "entries v = (case Objects (br_deviceKey v) (br_objects v) of None \<Rightarrow> [] | Some es \<Rightarrow> es)"

text \<open>The types in the order of their first entry, before they are sorted.\<close>

fun seen_types :: "u16 list \<Rightarrow> ObjectEntry list \<Rightarrow> u16 list" where
  "seen_types seen [] = []"
| "seen_types seen (e # es) = (if oe_Type e \<in> set seen then seen_types seen es else oe_Type e # seen_types (oe_Type e # seen) es)"

definition childUIDs :: "bytes \<Rightarrow> 'f BrowserView \<Rightarrow> bytes list" where
  "childUIDs uid v =
     (if uid = [] then map groupUID (sort (seen_types [] (entries v)))
      else case parseGroupUID uid of
        None \<Rightarrow> []
      | Some t \<Rightarrow> map (\<lambda>e. leafUID (oe_Type e) (oe_Instance e)) (sort_key oe_Instance (filter (\<lambda>e. oe_Type e = t) (entries v))))"

definition isBranch :: "bytes \<Rightarrow> bool" where
  "isBranch uid = (uid = [] \<or> parseGroupUID uid \<noteq> None)"

definition updateTreeNode :: "bytes \<Rightarrow> bool \<Rightarrow> string" where
  "updateTreeNode uid branch =
     (if branch then (case parseGroupUID uid of None \<Rightarrow> [] | Some t \<Rightarrow> objectTypeName t)
      else case parseLeafUID uid of None \<Rightarrow> [] | Some (t, i) \<Rightarrow> objectTypeName t @ '' '' @ itoa (unat i))"

section \<open>Reading\<close>

text \<open>The list of objects: the handler, and what its goroutine does with the answer for the row it was started for.\<close>

definition LoadDevice :: "DeviceRow \<Rightarrow> 'f BrowserView \<Rightarrow> bool \<times> 'f BrowserView" where
  "LoadDevice row v =
     (let v = v\<lparr>br_deviceKey := row_Key row, br_deviceAddr := ParseIP (ascii (dk_IP (row_Key row))), br_hasSelection := False\<rparr> in
      if dk_Instance (row_Key row) > maxLegacyDeviceInstance then (False, v\<lparr>br_status := ''device %d needs 22-bit support (pending L2)''\<rparr>)
      else (True, v))"

definition object_entry :: "Value \<Rightarrow> ObjectEntry option" where
  "object_entry val =
     (if va_Tag val \<noteq> 12 then None
      else case va_Value val of Ref r \<Rightarrow> Some \<lparr>oe_Type = or_Type r, oe_Instance = or_Instance r, oe_Name = []\<rparr> | _ \<Rightarrow> None)"

definition load_goroutine :: "writer \<Rightarrow> (Server \<Rightarrow> Server) \<Rightarrow> wait \<Rightarrow> DeviceRow \<Rightarrow> 'f BrowserView \<Rightarrow> 'f BrowserView option" where
  "load_goroutine wr env w row v =
     map_option (\<lambda>(r, sess).
       let v = v\<lparr>br_sess := sess\<rparr> in
       case r of
         Inl e \<Rightarrow> v\<lparr>br_status := ''object list read failed: %s''\<rparr>
       | Inr values \<Rightarrow> v\<lparr>br_objects := snd (SetObjects (row_Key row) (List.map_filter object_entry values) (br_objects v))\<rparr>)
     (Live_ReadProperty wr env w (br_deviceAddr v) (ObjectRef deviceObjectType (dk_Instance (row_Key row))) objectListProperty (br_sess v))"

definition read_specs :: "ObjectRef \<Rightarrow> ReadSpec list" where
  "read_specs ref = map (\<lambda>pid. \<lparr>rsp_Object = ref, rsp_Properties = [pid]\<rparr>) wave1PropertyIDs"

text \<open>The row of the property at position \<open>i\<close> of the table; an error is shown by its text.\<close>

definition property_row :: "ObjectResult list \<Rightarrow> nat \<Rightarrow> u32 \<Rightarrow> PropertyEntry" where
  "property_row results i pid =
     (let entry = \<lparr>pe_ID = pid, pe_Values = [], pe_Err = []\<rparr> in
      if i < length results
      then (case map_of (ores_Errors (results ! i)) pid of
              Some e \<Rightarrow> entry\<lparr>pe_Err := (case e of Err text \<Rightarrow> text | Panic \<Rightarrow> ''panic'')\<rparr>
            | None \<Rightarrow> entry\<lparr>pe_Values := ores_Values (results ! i)\<rparr>)
      else entry)"

definition readProperties :: "writer \<Rightarrow> runs \<Rightarrow> ObjectRef \<Rightarrow> 'f BrowserView \<Rightarrow> (PropertyEntry list \<times> 'f BrowserView) option" where
  "readProperties wr runs ref v =
     map_option (\<lambda>(results, sess).
       (map (\<lambda>(i, pid). property_row results i pid) (enumerate 0 wave1PropertyIDs), v\<lparr>br_sess := sess\<rparr>))
     (ReadMultiple wr runs 0 (br_deviceAddr v) (read_specs ref) (br_sess v))"

definition loadProperties :: "ObjectRef \<Rightarrow> 'f BrowserView \<Rightarrow> 'f BrowserView" where
  "loadProperties ref v = v\<lparr>br_selected := ref, br_hasSelection := True\<rparr>"

text \<open>The end of the goroutine, after \<^verbatim>\<open>readProperties\<close> returned.\<close>

definition store_properties :: "ObjectRef \<Rightarrow> PropertyEntry list \<Rightarrow> 'f BrowserView \<Rightarrow> 'f BrowserView" where
  "store_properties ref rows v =
     v\<lparr>br_objects := snd (SetProperties (br_deviceKey v) ref rows (br_objects v)), br_propRows := rows\<rparr>"

definition selectTreeNode :: "bytes \<Rightarrow> 'f BrowserView \<Rightarrow> 'f BrowserView" where
  "selectTreeNode uid v = (case parseLeafUID uid of None \<Rightarrow> v | Some (t, i) \<Rightarrow> loadProperties (ObjectRef t i) v)"

definition browser_refresh :: "'f BrowserView \<Rightarrow> 'f BrowserView" where
  "browser_refresh v = (if \<not> br_hasSelection v then v else loadProperties (br_selected v) v)"

definition propertyCellText :: "float_text \<Rightarrow> (go_value \<Rightarrow> bytes) \<Rightarrow> int \<Rightarrow> int \<Rightarrow> 'f BrowserView \<Rightarrow> bytes" where
  "propertyCellText ft sprint r col v =
     (if r < 0 \<or> r \<ge> int (length (br_propRows v)) then []
      else let row = br_propRows v ! nat r in
        if col = 0 then ascii (propertyName (pe_ID row))
        else if col = 1 then (if pe_Err row \<noteq> [] then [] else joined (ascii '', '') (map (FormatValue ft sprint) (pe_Values row)))
        else if col = 2 then ascii (pe_Err row)
        else [])"

section \<open>Writing\<close>

definition validateWritePriority :: "bytes \<Rightarrow> unit result" where
  "validateWritePriority text =
     (let text = TrimSpace text in
      if text = [] \<or> text = ascii ''0'' then Inr ()
      else case Atoi text of
        Inl _ \<Rightarrow> Inl (Err ''priority must be a number'')
      | Inr n \<Rightarrow>
          if n = 6 then Inl (Err ''priority 6 is reserved'')
          else if n < 1 \<or> n > 16 then Inl (Err ''priority must be between 1 and 16'')
          else Inr ())"

definition parseWritePriority :: "bytes \<Rightarrow> u8 result" where
  "parseWritePriority text =
     (let text = TrimSpace text in
      if text = [] \<or> text = ascii ''0'' then Inr 0
      else case Atoi text of Inl _ \<Rightarrow> Inl (Err ''priority must be a number'') | Inr n \<Rightarrow> Inr (word_of_int n))"

text \<open>The dialog opens with these entries when the application has a window.\<close>

definition openWriteDialog :: "'f BrowserView \<Rightarrow> 'f BrowserView" where
  "openWriteDialog v =
     (if \<not> br_hasSelection v then v\<lparr>br_status := ''select an object before writing''\<rparr>
      else v\<lparr>br_dialog := Some ([], writeTagOptions ! 4, ascii ''0'')\<rparr>)"

text \<open>The request that is sent, or the status of an entry that is refused.\<close>

definition write_request :: "float_text \<Rightarrow> bytes \<times> string \<times> bytes \<Rightarrow> WriteRequest result" where
  "write_request ft d =
     (let (valueText, tagText, priorityText) = d in
      case map_of writeTagValues tagText of
        None \<Rightarrow> Inl (Err ''select a data tag'')
      | Some tag \<Rightarrow>
          bind_res (validateWritePriority priorityText) (\<lambda>_.
          bind_res (parseWritePriority priorityText) (\<lambda>priority.
          bind_res (wrap_error ''invalid value: %s'' (ParseWriteValue ft tag valueText)) (\<lambda>val.
            Inr \<lparr>wq_Tag = tag, wq_Priority = priority, wq_Value = val\<rparr>))))"

definition submitWrite :: "float_text \<Rightarrow> 'f BrowserView \<Rightarrow> (ObjectRef \<times> WriteRequest) option \<times> 'f BrowserView" where
  "submitWrite ft v =
     (case br_dialog v of
        None \<Rightarrow> (None, v)
      | Some d \<Rightarrow>
          if \<not> br_hasSelection v then (None, v)
          else case write_request ft d of
            Inl e \<Rightarrow> (None, v\<lparr>br_status := (case e of Err text \<Rightarrow> text | Panic \<Rightarrow> ''panic'')\<rparr>)
          | Inr req \<Rightarrow> (Some (br_selected v, req), v))"

definition write_goroutine :: "writer \<Rightarrow> (Server \<Rightarrow> Server) \<Rightarrow> wait \<Rightarrow> runs \<Rightarrow> ObjectRef \<Rightarrow> WriteRequest \<Rightarrow> 'f BrowserView \<Rightarrow> 'f BrowserView option" where
  "write_goroutine wr env w runs ref req v =
     (case Live_Write wr env w (br_deviceAddr v) ref req (br_sess v) of
        None \<Rightarrow> None
      | Some (Inl e, sess) \<Rightarrow> Some (v\<lparr>br_sess := sess, br_status := ''write failed: %s''\<rparr>)
      | Some (Inr _, sess) \<Rightarrow>
          map_option (\<lambda>(rows, v). store_properties ref rows v) (readProperties wr runs ref (v\<lparr>br_sess := sess\<rparr>)))"

section \<open>The device table\<close>

definition sweepDurations :: "string list" where "sweepDurations = [''1s'', ''3s'', ''10s'']"
definition defaultSweepDuration :: string where "defaultSweepDuration = ''3s''"

definition segmentationText :: "(u8 \<times> string) list" where
  "segmentationText = [(0, ''both''), (1, ''transmit''), (2, ''receive''), (3, ''none'')]"

definition sourceText :: "(string \<times> string) list" where
  "sourceText = [(''simulated'', ''Simulated''), (''network'', ''Network'')]"

record ('k, 'f) DiscoveryView =
  di_sess :: Live
  di_devices :: "('k, 'f) DeviceStore"
  di_duration :: string
  di_sweepEnabled :: bool
  di_cached :: "DeviceRow list"
  di_header :: bool
  di_count :: string
  di_placeholder :: bool
  di_status :: string

text \<open>\<^verbatim>\<open>refresh\<close> is the listener of the view: the store calls it after each of its changes.\<close>

definition discovery_refresh :: "('k, 'f) DiscoveryView \<Rightarrow> ('k, 'f) DiscoveryView" where
  "discovery_refresh v =
     (let rows = Snapshot (di_devices v)
      in v\<lparr>di_cached := rows, di_header := rows \<noteq> [], di_count := itoa (length rows) @ '' devices'', di_placeholder := rows = []\<rparr>)"

definition NewDiscoveryView :: "Live \<Rightarrow> 'f \<Rightarrow> ('k, 'f) DeviceStore \<Rightarrow> ('k, 'f) DiscoveryView" where
  "NewDiscoveryView sess refresh devices =
     discovery_refresh \<lparr>di_sess = sess, di_devices = snd (AddListener refresh devices), di_duration = defaultSweepDuration, di_sweepEnabled = True,
       di_cached = [], di_header = True, di_count = ''0 devices'', di_placeholder = True, di_status = []\<rparr>"

text \<open>\<open>clock_text\<close> is the time of day of a sighting, \<^verbatim>\<open>LastSeen.Format("15:04:05")\<close>.\<close>

definition cellText :: "(time \<Rightarrow> string) \<Rightarrow> int \<Rightarrow> int \<Rightarrow> ('k, 'f) DiscoveryView \<Rightarrow> string" where
  "cellText clock_text r col v =
     (if r < 0 \<or> r \<ge> int (length (di_cached v)) then []
      else let row = di_cached v ! nat r in
        if col = 0 then itoa (unat (dk_Instance (row_Key row)))
        else if col = 1 then row_Name row
        else if col = 2 then dk_IP (row_Key row) @ '':'' @ itoa (unat (row_Port row))
        else if col = 3 then itoa (unat (row_VendorID row))
        else if col = 4 then itoa (unat (row_MaxApdu row))
        else if col = 5 then (case map_of segmentationText (row_Segmentation row) of Some text \<Rightarrow> text | None \<Rightarrow> itoa (unat (row_Segmentation row)))
        else if col = 6 then (case map_of sourceText (row_Source row) of Some text \<Rightarrow> text | None \<Rightarrow> row_Source row)
        else if col = 7 then clock_text (row_LastSeen row)
        else [])"

definition discovery_clear :: "('k, 'f) DiscoveryView \<Rightarrow> ('k, 'f) DiscoveryView" where
  "discovery_clear v = discovery_refresh (v\<lparr>di_devices := snd (Clear (di_devices v))\<rparr>)"

text \<open>A sweep: the handler with the duration it asks for, in nanoseconds, and the goroutine over the summaries that its stream carries.\<close>

definition sweep :: "(string \<Rightarrow> nat result) \<Rightarrow> ('k, 'f) DiscoveryView \<Rightarrow> nat \<times> ('k, 'f) DiscoveryView" where
  "sweep ParseDuration v =
     (case ParseDuration (di_duration v) of Inl _ \<Rightarrow> 3000000000 | Inr d \<Rightarrow> d, v\<lparr>di_sweepEnabled := False\<rparr>)"

definition network_row :: "DeviceSummary \<Rightarrow> DeviceRow" where
  "network_row d = \<lparr>row_Key = DeviceKey (dsm_Instance d) (IP_String (dsm_IP d)), row_Port = dsm_Port d, row_VendorID = dsm_VendorID d,
     row_MaxApdu = dsm_MaxApdu d, row_Segmentation = ucast (dsm_Segmentation d), row_Source = ''network'', row_Name = [], row_LastSeen = 0\<rparr>"

definition sweep_goroutine :: "('k \<Rightarrow> time \<times> 'k) \<Rightarrow> writer \<Rightarrow> DeviceSummary list \<Rightarrow> ('k, 'f) DiscoveryView \<Rightarrow> ('k, 'f) DiscoveryView" where
  "sweep_goroutine Now wr summaries v =
     (let (r, sess) = Live_Discover wr (di_sess v); v = v\<lparr>di_sess := sess\<rparr> in
      case r of
        Inl e \<Rightarrow> v\<lparr>di_sweepEnabled := True, di_status := ''Couldn't scan the network - %s''\<rparr>
      | Inr _ \<Rightarrow>
          (let v = fold (\<lambda>d v. discovery_refresh (v\<lparr>di_devices := snd (Upsert Now (network_row d) (di_devices v))\<rparr>)) summaries v
           in v\<lparr>di_sweepEnabled := True, di_status := ''sweep complete: '' @ itoa (Len (di_devices v)) @ '' devices''\<rparr>))"

section \<open>Nodes name objects\<close>

lemma CutPrefix_append [simp]: "CutPrefix (p @ s) p = Some s"
  by (simp add: CutPrefix_def)

lemma FormatUint_colon: "58 \<notin> set (FormatUint n)"
  using FormatUint_digits(2) [of 58 n] by (auto simp: is_digit_def)

lemma parse_word:
  "ParseUint (FormatUint (unat (t :: u16))) 16 = Inr (unat t)" "ParseUint (FormatUint (unat (i :: u32))) 32 = Inr (unat i)"
  using unsigned_less [of t] unsigned_less [of i] by (auto intro!: ParseUint_Format)

lemma group_node: "parseGroupUID (groupUID t) = Some t" "groupUID t \<noteq> []"
  by (simp add: parseGroupUID_def groupUID_def parse_word) (simp add: groupUID_def ascii_def)

lemma leaf_node: "parseLeafUID (leafUID t i) = Some (t, i)" "leafUID t i \<noteq> []" "parseGroupUID (leafUID t i) = None"
proof -
  have "split_first_colon (FormatUint (unat t) @ ascii '':'' @ FormatUint (unat i)) = [FormatUint (unat t), FormatUint (unat i)]"
  proof -
    have "c \<noteq> 58" if "c \<in> set (FormatUint (unat t))" for c using FormatUint_colon that by blast
    then show ?thesis by (simp add: split_first_colon_def ascii_def takeWhile_append2 dropWhile_append2)
  qed
  then show "parseLeafUID (leafUID t i) = Some (t, i)" by (simp add: parseLeafUID_def leafUID_def parse_word)
  show "leafUID t i \<noteq> []" "parseGroupUID (leafUID t i) = None" by (simp_all add: leafUID_def parseGroupUID_def CutPrefix_def ascii_def)
qed

section \<open>The tree shows every object once, in order\<close>

lemma seen_types_set: "set (seen_types seen es) = oe_Type ` set es - set seen"
  by (induction seen es rule: seen_types.induct) auto

lemma seen_types_distinct: "distinct (seen_types seen es)"
  by (induction seen es rule: seen_types.induct) (auto simp: seen_types_set)

lemma mset_groups: "distinct ts \<Longrightarrow> mset (concat (map (\<lambda>t. filter (\<lambda>e. g e = t) es) ts)) = mset (filter (\<lambda>e. g e \<in> set ts) es)"
proof (induction ts)
  case (Cons t ts)
  have "filter_mset (\<lambda>e. g e = t \<or> g e \<in> set ts) (mset xs) = filter_mset (\<lambda>e. g e = t) (mset xs) + filter_mset (\<lambda>e. g e \<in> set ts) (mset xs)"
    if "t \<notin> set ts" for xs using that by (induction xs) auto
  with Cons show ?case by simp
qed simp

lemma sorted_groups:
  "sorted ts \<Longrightarrow> distinct ts \<Longrightarrow> (\<And>t. sorted (b t) \<and> (\<forall>x \<in> set (b t). fst x = (t :: u16))) \<Longrightarrow> sorted (concat (map b ts) :: (u16 \<times> u32) list)"
proof (induction ts)
  case (Cons t ts)
  have "x \<le> y" if "x \<in> set (b t)" "y \<in> set (concat (map b ts))" for x y
  proof -
    from that(2) obtain t' where t': "t' \<in> set ts" "y \<in> set (b t')" by auto
    then have "t < t'" using Cons.prems(1,2) by (auto simp: order.strict_iff_order)
    then show ?thesis using Cons.prems(3) [of t] Cons.prems(3) [of t'] that(1) t'(2) by (auto simp: less_eq_prod_def)
  qed
  with Cons show ?case by (auto simp: sorted_append)
qed simp

definition tree_leaves :: "'f BrowserView \<Rightarrow> bytes list" where
  "tree_leaves v = concat (map (\<lambda>g. childUIDs g v) (childUIDs [] v))"

lemma tree_leaves_objects:
  "map parseLeafUID (tree_leaves v) = map Some (sort (map (\<lambda>e. (oe_Type e, oe_Instance e)) (entries v)))"
proof -
  let ?id = "\<lambda>e. (oe_Type e, oe_Instance e)" and ?es = "entries v"
  let ?ts = "sort (seen_types [] ?es)" and ?b = "\<lambda>t. map ?id (sort_key oe_Instance (filter (\<lambda>e. oe_Type e = t) ?es))"
  have "map parseLeafUID (tree_leaves v) = map Some (concat (map ?b ?ts))"
    by (simp add: tree_leaves_def childUIDs_def group_node leaf_node map_concat o_def)
  moreover have "sort (map ?id ?es) = concat (map ?b ?ts)"
  proof (rule properties_for_sort)
    have b: "sorted (?b t) \<and> (\<forall>x \<in> set (?b t). fst x = t)" for t
    proof -
      have "sorted_wrt (\<lambda>e e'. oe_Instance e \<le> oe_Instance e') (sort_key oe_Instance (filter (\<lambda>e. oe_Type e = t) ?es))"
        using sorted_sort_key [of oe_Instance] by (simp add: sorted_map)
      then have "sorted_wrt (\<lambda>e e'. ?id e \<le> ?id e') (sort_key oe_Instance (filter (\<lambda>e. oe_Type e = t) ?es))"
        by (rule sorted_wrt_mono_rel [rotated]) (auto simp: less_eq_prod_def)
      then show ?thesis by (auto simp: sorted_map)
    qed
    show "sorted (concat (map ?b ?ts))" by (rule sorted_groups [OF _ _ b]) (simp_all add: seen_types_distinct)
    have "mset (concat (map ?b ts)) = image_mset ?id (mset (concat (map (\<lambda>t. filter (\<lambda>e. oe_Type e = t) ?es) ts)))" for ts
      by (induction ts) simp_all
    then show "mset (concat (map ?b ?ts)) = mset (map ?id ?es)"
      by (simp add: mset_groups seen_types_distinct seen_types_set filter_mset_eq_conv)
  qed
  ultimately show ?thesis by simp
qed

lemma entries_set: "entries (v\<lparr>br_objects := snd (SetObjects (br_deviceKey v) es (br_objects v))\<rparr>) = es"
  by (simp add: entries_def Objects_def SetObjects_def)

text \<open>The identifiers of objects among the values of an answer.\<close>

definition listed_objects :: "Value list \<Rightarrow> ObjectRef list" where
  "listed_objects vs = List.map_filter (\<lambda>val. if va_Tag val = 12 then (case va_Value val of Ref r \<Rightarrow> Some r | _ \<Rightarrow> None) else None) vs"

lemma listed_entries:
  "map (\<lambda>e. (oe_Type e, oe_Instance e)) (List.map_filter object_entry vs) = map (\<lambda>r. (or_Type r, or_Instance r)) (listed_objects vs)"
  by (induction vs) (auto simp: listed_objects_def map_filter_simps object_entry_def split: facade_value.split option.split)

text \<open>
  C38: After a device was picked and its list of objects has been read, the leaves of the tree, from top to bottom, are exactly the objects of
  the list in the order of their types and instances, each as often as the device lists it and in a branch that is one; a leaf leads back to its object.
  A read that fails leaves the tree as it is, and one that does not return leaves the view as it is.
\<close>

theorem browser_tree:
  fixes v0 :: "'f BrowserView"
  shows "let v = snd (LoadDevice row v0) in
     case Live_ReadProperty wr env w (br_deviceAddr v) (ObjectRef 8 (dk_Instance (row_Key row))) 76 (br_sess v) of
       None \<Rightarrow> load_goroutine wr env w row v = None
     | Some (Inl e, sess) \<Rightarrow> \<exists>v'. load_goroutine wr env w row v = Some v' \<and> tree_leaves v' = tree_leaves v
     | Some (Inr vs, sess) \<Rightarrow> \<exists>v'. load_goroutine wr env w row v = Some v' \<and> list_all isBranch (childUIDs [] v')
         \<and> map parseLeafUID (tree_leaves v') = map Some (sort (map (\<lambda>r. (or_Type r, or_Instance r)) (listed_objects vs)))"
proof -
  let ?v = "snd (LoadDevice row v0)"
  have key: "br_deviceKey ?v = row_Key row" by (simp add: LoadDevice_def Let_def)
  have branch: "list_all isBranch (childUIDs [] v)" for v :: "'f BrowserView"
    by (auto simp: childUIDs_def isBranch_def group_node list_all_iff)
  have same: "tree_leaves (?v\<lparr>br_sess := sess, br_status := message\<rparr>) = tree_leaves ?v" for sess message
  proof -
    have e: "entries (?v\<lparr>br_sess := sess, br_status := message\<rparr>) = entries ?v" by (simp add: entries_def)
    show ?thesis unfolding tree_leaves_def childUIDs_def e ..
  qed
  have leaves: "map parseLeafUID (tree_leaves (?v\<lparr>br_sess := sess, br_objects := snd (SetObjects (row_Key row) (List.map_filter object_entry vs) (br_objects ?v))\<rparr>))
      = map Some (sort (map (\<lambda>r. (or_Type r, or_Instance r)) (listed_objects vs)))" for sess vs
    using entries_set [of "?v\<lparr>br_sess := sess\<rparr>"] by (simp add: tree_leaves_objects listed_entries key)
  note load = load_goroutine_def deviceObjectType_def objectListProperty_def
  show ?thesis
  proof (cases "Live_ReadProperty wr env w (br_deviceAddr ?v) (ObjectRef 8 (dk_Instance (row_Key row))) 76 (br_sess ?v)")
    case None
    then show ?thesis by (simp add: load)
  next
    case (Some a)
    obtain r sess where a: "a = (r, sess)" by (cases a)
    show ?thesis by (cases r) (use Some a branch same leaves in \<open>simp_all add: load\<close>)
  qed
qed

section \<open>What the dialog sends\<close>

text \<open>
  A write that is sent has one of the eight tags, the value its text stands for, and no priority or one from 1 to 16 other than 6, which is the number of
  its text: the conversion to an octet loses nothing.
\<close>

theorem write_dialog_checked:
  assumes "write_request ft (valueText, tagText, priorityText) = Inr req"
  shows "(tagText, wq_Tag req) \<in> set writeTagValues \<and> ParseWriteValue ft (wq_Tag req) valueText = Inr (wq_Value req)
    \<and> (if TrimSpace priorityText \<in> {[], ascii ''0''} then wq_Priority req = 0
       else Atoi (TrimSpace priorityText) = Inr (uint (wq_Priority req)) \<and> 1 \<le> wq_Priority req \<and> wq_Priority req \<le> 16 \<and> wq_Priority req \<noteq> 6)"
proof -
  have small: "uint (word_of_int n :: u8) = n" if "1 \<le> n" "n \<le> 16" for n using that by (simp add: uint_word_of_int_eq take_bit_int_eq_self)
  show ?thesis using assms
    by (auto simp: write_request_def validateWritePriority_def parseWritePriority_def bind_res_eq_Inr Let_def wrap_error_def word_le_def word_uint_eq_iff small
        dest!: map_of_SomeD split: option.splits if_splits sum.splits go_error.splits)
qed

text \<open>
  The goroutine of a read stores its rows under the device that the view shows when it ends: after another device was picked meanwhile, the
  properties of an object of the first device are filed under the second.
\<close>

lemma rows_misfiled:
  "Properties (row_Key row) ref (br_objects (store_properties ref rows (snd (LoadDevice row v)))) = Some rows"
  by (simp add: Properties_def store_properties_def SetProperties_def LoadDevice_def Let_def)

section \<open>The table shows the store\<close>

lemma table_in_sync:
  assumes "di_cached v = Snapshot (di_devices v)"
  shows "di_cached (sweep_goroutine Now wr summaries v) = Snapshot (di_devices (sweep_goroutine Now wr summaries v))"
    "di_cached (discovery_clear v) = Snapshot (di_devices (discovery_clear v))"
proof -
  let ?f = "\<lambda>d v. discovery_refresh (v\<lparr>di_devices := snd (Upsert Now (network_row d) (di_devices v))\<rparr>)"
  have "di_cached (fold ?f ds w) = Snapshot (di_devices (fold ?f ds w))" if "di_cached w = Snapshot (di_devices w)" for ds w
    using that by (induction ds arbitrary: w) (simp_all add: discovery_refresh_def Let_def)
  from this [of "v\<lparr>di_sess := sess\<rparr>" summaries for sess] assms
  show "di_cached (sweep_goroutine Now wr summaries v) = Snapshot (di_devices (sweep_goroutine Now wr summaries v))"
    by (simp add: sweep_goroutine_def Let_def split: prod.split sum.split)
  show "di_cached (discovery_clear v) = Snapshot (di_devices (discovery_clear v))"
    by (simp add: discovery_clear_def discovery_refresh_def Let_def)
qed

end
