(* ===== verification/Gui_Shell.thy ===== *)
theory Gui_Shell
  imports Gui_Network Strconv Gui_Browser Gui_Editor
begin

text \<open>
  The settings of the graphical application, \<^verbatim>\<open>gui/internal/ui/settings.go\<close>, the frame around its views, \<^verbatim>\<open>gui/internal/ui/shell.go\<close>, and
  what \<^verbatim>\<open>gui/internal/boot/boot.go\<close> composes of them: the start of the session and the navigation.
\<close>

section \<open>Settings\<close>

definition automaticLabel :: bytes where "automaticLabel = ascii ''Automatic (recommended)''"
definition allNetworksLabel :: bytes where "allNetworksLabel = ascii ''All networks''"
definition DefaultPort :: int where "DefaultPort = 47808"

record Settings =
  st_Interface :: string
  st_Port :: int

text \<open>The preferences that the toolkit stores for the application.\<close>

record preferences =
  pf_iface :: "string option"
  pf_port :: "int option"

definition LoadSettings :: "preferences \<Rightarrow> Settings" where
  "LoadSettings p =
     \<lparr>st_Interface = (case pf_iface p of None \<Rightarrow> [] | Some s \<Rightarrow> s), st_Port = (case pf_port p of None \<Rightarrow> DefaultPort | Some n \<Rightarrow> n)\<rparr>"

definition SaveSettings :: "Settings \<Rightarrow> preferences \<Rightarrow> preferences" where
  "SaveSettings s p = p\<lparr>pf_iface := Some (st_Interface s), pf_port := Some (st_Port s)\<rparr>"

definition validatePort :: "bytes \<Rightarrow> unit result" where
  "validatePort t = (case Atoi t of
       Inl _ \<Rightarrow> Inl (Err ''port must be a number'')
     | Inr n \<Rightarrow> if n < 1 \<or> n > 65535 then Inl (Err ''port must be between 1 and 65535'') else Inr ())"

definition trySaveSettings :: "string \<Rightarrow> bytes \<Rightarrow> preferences \<Rightarrow> preferences result" where
  "trySaveSettings iface portText p =
     bind_res (validatePort portText) (\<lambda>_.
     bind_res (Atoi portText) (\<lambda>port.
       Inr (SaveSettings \<lparr>st_Interface = iface, st_Port = port\<rparr> p)))"

definition networkOptions :: "net_interface list result \<Rightarrow> bytes list \<times> (bytes \<rightharpoonup> string)" where
  "networkOptions interfaces =
     (let cands = Candidates interfaces
      in ([allNetworksLabel, automaticLabel] @ map cn_Label cands,
          fold (\<lambda>c m. m(cn_Label c \<mapsto> cn_Name c)) cands [allNetworksLabel \<mapsto> AllNetworksSentinel, automaticLabel \<mapsto> []]))"

definition labelForInterface :: "net_interface list result \<Rightarrow> string \<Rightarrow> bytes" where
  "labelForInterface interfaces iface =
     (if iface = AllNetworksSentinel then allNetworksLabel
      else if iface = [] then automaticLabel
      else case find (\<lambda>c. cn_Name c = iface) (Candidates interfaces) of Some c \<Rightarrow> cn_Label c | None \<Rightarrow> automaticLabel)"

text \<open>The dialog: what it shows when it opens, and what happens when it is confirmed; a label without an entry reads as the empty name.\<close>

definition settings_shown :: "net_interface list result \<Rightarrow> preferences \<Rightarrow> bytes \<times> bytes" where
  "settings_shown interfaces p = (labelForInterface interfaces (st_Interface (LoadSettings p)), FormatInt (st_Port (LoadSettings p)))"

definition settings_confirmed :: "net_interface list result \<Rightarrow> bytes \<times> bytes \<Rightarrow> preferences \<Rightarrow> (preferences \<times> Settings) result" where
  "settings_confirmed interfaces shown_texts p =
     (let iface = (case snd (networkOptions interfaces) (fst shown_texts) of None \<Rightarrow> [] | Some name \<Rightarrow> name) in
      bind_res (trySaveSettings iface (snd shown_texts) p) (\<lambda>p. Inr (p, LoadSettings p)))"

section \<open>The frame\<close>

definition navLabels :: "string list" where "navLabels = [''Home'', ''Network Explorer'', ''Simulator'']"

text \<open>Which of the views are shown.\<close>

record AppShell =
  sh_views :: "bool list"
  sh_selected :: nat
  sh_status :: bytes

definition selectView :: "nat \<Rightarrow> AppShell \<Rightarrow> AppShell" where
  "selectView i s = s\<lparr>sh_selected := i, sh_views := map (\<lambda>j. j = i) [0..<length (sh_views s)]\<rparr>"

definition NewAppShell :: AppShell where
  "NewAppShell = selectView 0 \<lparr>sh_views = replicate (length navLabels) True, sh_selected = 0, sh_status = ascii ''Ready''\<rparr>"

text \<open>An index outside the views panics.\<close>

definition SetView :: "nat \<Rightarrow> AppShell \<Rightarrow> AppShell result" where
  "SetView i s = (if i < length (sh_views s) then Inr (s\<lparr>sh_views := (sh_views s)[i := (i = sh_selected s)]\<rparr>) else Inl Panic)"

definition SetStatus :: "bytes \<Rightarrow> AppShell \<Rightarrow> AppShell" where
  "SetStatus t s = s\<lparr>sh_status := t\<rparr>"

section \<open>The start of the session\<close>

definition interfaceLabel :: "net_interface list result \<Rightarrow> string \<Rightarrow> bytes" where
  "interfaceLabel interfaces iface =
     (if iface = AllNetworksSentinel then ascii ''All networks''
      else let cands = Candidates interfaces in
        if iface = [] then (case Automatic cands of Some c \<Rightarrow> cn_Label c | None \<Rightarrow> ascii ''Automatic'')
        else case find (\<lambda>c. cn_Name c = iface) cands of Some c \<Rightarrow> cn_Label c | None \<Rightarrow> ascii iface)"

definition connected_text :: "bytes \<Rightarrow> int \<Rightarrow> bytes" where
  "connected_text lab port = ascii ''Connected on '' @ lab @ ascii '' (port '' @ FormatInt port @ ascii '')''"

definition startLaunch ::
    "(Config \<Rightarrow> 's \<Rightarrow> unit result \<times> 's) \<Rightarrow> net_interface list result \<Rightarrow> Settings \<Rightarrow> 's \<Rightarrow> AppShell \<Rightarrow> 's \<times> AppShell" where
  "startLaunch start interfaces st sess shell =
     (let lab = interfaceLabel interfaces (st_Interface st) in
      case StartFromSettings start interfaces (st_Interface st) (st_Port st) sess of
        (Inl _, sess) \<Rightarrow> (sess, SetStatus (ascii ''Not connected yet'' @ dash @ ascii ''check Settings'') shell)
      | (Inr _, sess) \<Rightarrow> (sess, SetStatus (connected_text lab (st_Port st)) shell))"

definition startSession ::
    "(Config \<Rightarrow> 's \<Rightarrow> unit result \<times> 's) \<Rightarrow> net_interface list result \<Rightarrow> Settings \<Rightarrow> 's \<Rightarrow> AppShell \<Rightarrow> 's \<times> AppShell" where
  "startSession start interfaces st sess shell =
     (let lab = interfaceLabel interfaces (st_Interface st) in
      case StartFromSettings start interfaces (st_Interface st) (st_Port st) sess of
        (Inl e, sess) \<Rightarrow> (sess, SetStatus (ascii ''Couldn't start on '' @ lab @ ascii '': '' @ (case e of Err t \<Rightarrow> ascii t | Panic \<Rightarrow> [])) shell)
      | (Inr _, sess) \<Rightarrow> (sess, SetStatus (connected_text lab (st_Port st)) shell))"

definition restart ::
    "(Config \<Rightarrow> 's \<Rightarrow> unit result \<times> 's) \<Rightarrow> ('s \<Rightarrow> unit result \<times> 's) \<Rightarrow> net_interface list result \<Rightarrow> Settings \<Rightarrow> 's \<Rightarrow> AppShell \<Rightarrow> 's \<times> AppShell" where
  "restart start stop interfaces st sess shell = startSession start interfaces st (snd (Shutdown stop sess)) shell"

definition sessionPortHint :: "preferences \<Rightarrow> u16 list \<Rightarrow> bytes" where
  "sessionPortHint p ports =
     (case ports of
        [] \<Rightarrow> []
      | first # _ \<Rightarrow>
          if \<exists>q \<in> set ports. uint q = st_Port (LoadSettings p) then []
          else ascii ''Tip: set Settings '' @ [226, 134, 146] @ ascii '' Port to '' @ FormatUint (unat first) @ ascii '' to interact with these devices.'')"

section \<open>Navigation\<close>

definition homeNavIndex :: nat where "homeNavIndex = 0"
definition explorerNavIndex :: nat where "explorerNavIndex = 1"
definition simulatorNavIndex :: nat where "simulatorNavIndex = 2"

record explorerPane =
  ep_list :: bool
  ep_detail :: bool

definition newExplorerPane :: explorerPane where
  "newExplorerPane = \<lparr>ep_list = True, ep_detail = False\<rparr>"

definition showDetail :: "explorerPane \<Rightarrow> explorerPane" where
  "showDetail p = p\<lparr>ep_list := False, ep_detail := True\<rparr>"

definition showList :: "explorerPane \<Rightarrow> explorerPane" where
  "showList p = p\<lparr>ep_detail := False, ep_list := True\<rparr>"

text \<open>
  The parts that navigation touches.  A row of the device table opens its objects; the buttons of the home view go to the simulator, or to the
  device table with a fresh sweep.
\<close>

record ('k, 'f) Desktop =
  dt_shell :: AppShell
  dt_explorer :: explorerPane
  dt_discovery :: "('k, 'f) DiscoveryView"
  dt_browser :: "'f BrowserView"

definition Compose :: "AppShell \<Rightarrow> ('k, 'f) DiscoveryView \<Rightarrow> 'f BrowserView \<Rightarrow> ('k, 'f) Desktop result" where
  "Compose shell discovery browser =
     bind_res (SetView explorerNavIndex shell) (\<lambda>shell.
     bind_res (SetView simulatorNavIndex shell) (\<lambda>shell.
     bind_res (SetView homeNavIndex shell) (\<lambda>shell.
       Inr \<lparr>dt_shell = selectView homeNavIndex shell, dt_explorer = newExplorerPane, dt_discovery = discovery, dt_browser = browser\<rparr>)))"

definition home_simulate :: "('k, 'f) Desktop \<Rightarrow> ('k, 'f) Desktop" where
  "home_simulate d = d\<lparr>dt_shell := selectView simulatorNavIndex (dt_shell d)\<rparr>"

definition home_discover :: "(string \<Rightarrow> nat result) \<Rightarrow> ('k, 'f) Desktop \<Rightarrow> ('k, 'f) Desktop" where
  "home_discover ParseDuration d =
     d\<lparr>dt_explorer := showList (dt_explorer d), dt_shell := selectView explorerNavIndex (dt_shell d),
       dt_discovery := snd (sweep ParseDuration (dt_discovery d))\<rparr>"

text \<open>\<^verbatim>\<open>OnSelected\<close> of the device table with \<^verbatim>\<open>OnSelect\<close> of the composition; the flag tells whether a read of the objects was started.\<close>

definition device_picked :: "int \<Rightarrow> ('k, 'f) Desktop \<Rightarrow> bool \<times> ('k, 'f) Desktop" where
  "device_picked r d =
     (if r < 0 \<or> r \<ge> int (length (di_cached (dt_discovery d))) then (False, d)
      else let (started, browser) = LoadDevice (di_cached (dt_discovery d) ! nat r) (dt_browser d)
           in (started, d\<lparr>dt_browser := browser, dt_explorer := showDetail (dt_explorer d)\<rparr>))"

definition nav_selected :: "nat \<Rightarrow> ('k, 'f) Desktop \<Rightarrow> ('k, 'f) Desktop" where
  "nav_selected i d = d\<lparr>dt_shell := selectView i (dt_shell d)\<rparr>"

definition back_to_results :: "('k, 'f) Desktop \<Rightarrow> ('k, 'f) Desktop" where
  "back_to_results d = d\<lparr>dt_explorer := showList (dt_explorer d)\<rparr>"

section \<open>One view at a time\<close>

inductive navigates :: "(string \<Rightarrow> nat result) \<Rightarrow> ('k, 'f) Desktop \<Rightarrow> ('k, 'f) Desktop \<Rightarrow> bool" for ParseDuration where
  Simulate: "navigates ParseDuration d (home_simulate d)"
| Discover: "navigates ParseDuration d (home_discover ParseDuration d)"
| Pick: "navigates ParseDuration d (snd (device_picked r d))"
| Navigate: "i < length navLabels \<Longrightarrow> navigates ParseDuration d (nav_selected i d)"
| Back: "navigates ParseDuration d (back_to_results d)"

definition one_view :: "('k, 'f) Desktop \<Rightarrow> bool" where
  "one_view d \<longleftrightarrow> sh_selected (dt_shell d) < 3 \<and> sh_views (dt_shell d) = map (\<lambda>j. j = sh_selected (dt_shell d)) [0..<3]
     \<and> ep_list (dt_explorer d) \<noteq> ep_detail (dt_explorer d)"

lemmas nav_defs = one_view_def homeNavIndex_def explorerNavIndex_def simulatorNavIndex_def selectView_def navLabels_def showList_def showDetail_def

theorem navigation_shows_one_view:
  assumes "Compose NewAppShell discovery browser = Inr d0" "(navigates ParseDuration)\<^sup>*\<^sup>* d0 d"
  shows "one_view d"
proof -
  have "one_view d0" using assms(1)
    by (auto simp: Compose_def SetView_def NewAppShell_def newExplorerPane_def bind_res_eq_Inr nav_defs upt_rec split: if_splits)
  from assms(2) this show ?thesis
  proof (induction rule: rtranclp_induct)
    case (step d d')
    then have "one_view d" by blast
    with step(2) show ?case
      by cases (auto simp: home_simulate_def home_discover_def device_picked_def nav_selected_def back_to_results_def nav_defs Let_def split: prod.split)
  qed
qed

section \<open>The dialog keeps what is set\<close>

lemma label_dash: "0xe2 \<in> set (label name ipv4 loopback)"
  by (simp add: label_def)

lemma fixed_labels: "0xe2 \<notin> set allNetworksLabel" "0xe2 \<notin> set automaticLabel" "allNetworksLabel \<noteq> automaticLabel"
  unfolding allNetworksLabel_def automaticLabel_def by code_simp+

lemma candidate_label: "c \<in> set (Candidates interfaces) \<Longrightarrow> cn_Label c \<noteq> allNetworksLabel \<and> cn_Label c \<noteq> automaticLabel"
proof -
  assume "c \<in> set (Candidates interfaces)"
  then have "0xe2 \<in> set (cn_Label c)" using label_dash
    by (fastforce simp: Candidates_def sortCandidates_def candidate_def List.map_filter_def split: sum.splits option.splits if_splits)
  with fixed_labels show ?thesis by auto
qed

lemma names_by_label:
  "l \<notin> cn_Label ` set cands \<Longrightarrow> fold (\<lambda>c m. m(cn_Label c \<mapsto> cn_Name c)) cands m l = m l"
  "distinct (map cn_Label cands) \<Longrightarrow> c \<in> set cands \<Longrightarrow> fold (\<lambda>c m. m(cn_Label c \<mapsto> cn_Name c)) cands m (cn_Label c) = Some (cn_Name c)"
proof -
  show other: "fold (\<lambda>c m. m(cn_Label c \<mapsto> cn_Name c)) cands m l = m l" if "l \<notin> cn_Label ` set cands" for cands m l
    using that by (induction cands arbitrary: m) auto
  show "distinct (map cn_Label cands) \<Longrightarrow> c \<in> set cands \<Longrightarrow> fold (\<lambda>c m. m(cn_Label c \<mapsto> cn_Name c)) cands m (cn_Label c) = Some (cn_Name c)"
    by (induction cands arbitrary: m) (auto simp: other)
qed

text \<open>
  Settings that are confirmed as the dialog shows them are saved as they were, provided the interface is one the dialog can show, no two interfaces
  have the same label, and the port is one.
\<close>

theorem settings_kept:
  assumes "1 \<le> st_Port (LoadSettings p)" "st_Port (LoadSettings p) \<le> 65535" "distinct (map cn_Label (Candidates interfaces))"
    and "st_Interface (LoadSettings p) \<in> {AllNetworksSentinel, []} \<union> cn_Name ` set (Candidates interfaces)"
  shows "\<exists>p'. settings_confirmed interfaces (settings_shown interfaces p) p = Inr (p', LoadSettings p)"
proof -
  let ?s = "LoadSettings p" and ?cands = "Candidates interfaces"
  let ?m = "snd (networkOptions interfaces)"
  have fixed: "?m allNetworksLabel = Some AllNetworksSentinel" "?m automaticLabel = Some []"
  proof -
    have "allNetworksLabel \<notin> cn_Label ` set ?cands" "automaticLabel \<notin> cn_Label ` set ?cands" using candidate_label by force+
    then show "?m allNetworksLabel = Some AllNetworksSentinel" "?m automaticLabel = Some []"
      using fixed_labels(3) by (simp_all add: networkOptions_def Let_def names_by_label(1))
  qed
  have "?m (labelForInterface interfaces (st_Interface ?s)) = Some (st_Interface ?s)"
  proof (cases "st_Interface ?s \<in> {AllNetworksSentinel, []}")
    case True
    then show ?thesis using fixed by (auto simp: labelForInterface_def)
  next
    case False
    with assms(4) obtain c where c: "find (\<lambda>c. cn_Name c = st_Interface ?s) ?cands = Some c"
      by (cases "find (\<lambda>c. cn_Name c = st_Interface ?s) ?cands") (auto simp: find_None_iff)
    then have "c \<in> set ?cands" "cn_Name c = st_Interface ?s" by (auto simp: find_Some_iff)
    with names_by_label(2) [OF assms(3)] False c show ?thesis by (simp add: labelForInterface_def networkOptions_def Let_def)
  qed
  moreover have "Atoi (FormatInt (st_Port ?s)) = Inr (st_Port ?s)" by (rule Atoi_FormatInt) (use assms(1,2) in simp_all)
  ultimately show ?thesis using assms(1,2)
    by (simp add: settings_confirmed_def settings_shown_def trySaveSettings_def validatePort_def) (simp add: LoadSettings_def SaveSettings_def Let_def)
qed

text \<open>What a confirmed dialog saves is a port.\<close>

lemma saved_port: "trySaveSettings iface t p = Inr p' \<Longrightarrow> 1 \<le> st_Port (LoadSettings p') \<and> st_Port (LoadSettings p') \<le> 65535"
  by (auto simp: trySaveSettings_def validatePort_def bind_res_eq_Inr SaveSettings_def LoadSettings_def split: sum.splits if_splits)

end
