(* ===== verification/Display.thy ===== *)
theory Display
  imports Strconv Property
begin

text \<open>
  Values as text in \<^verbatim>\<open>bacnet/types\<close>: the \<^verbatim>\<open>String\<close> methods of dates, times and identifiers and \<^verbatim>\<open>ReadAsString\<close> of a property value.
  The verbs of \<^verbatim>\<open>fmt\<close> other than decimal numbers are an argument.
\<close>

text \<open>The verb \<^verbatim>\<open>%0wd\<close>.\<close>

definition padded :: "nat \<Rightarrow> nat \<Rightarrow> bytes" where
  "padded w n = replicate (w - length (FormatUint n)) 48 @ FormatUint n"

definition Date_String :: "Date \<Rightarrow> bytes" where
  "Date_String d = padded 4 (unat (d_Year d)) @ ascii ''-'' @ padded 2 (unat (d_Month d)) @ ascii ''-'' @ padded 2 (unat (d_Day d))"

definition Time_String :: "Time \<Rightarrow> bytes" where
  "Time_String t = padded 2 (unat (t_Hour t)) @ ascii '':'' @ padded 2 (unat (t_Min t)) @ ascii '':'' @ padded 2 (unat (t_Sec t))
     @ ascii ''.'' @ padded 2 (unat (t_Hundredths t))"

record DateTime =
  dt_Date :: Date
  dt_Time :: Time

definition DateTime_String :: "DateTime \<Rightarrow> bytes" where
  "DateTime_String dt = Date_String (dt_Date dt) @ ascii ''T'' @ Time_String (dt_Time dt)"

definition ObjectId_String :: "ObjectId \<Rightarrow> bytes" where
  "ObjectId_String o1 = ascii ''type: '' @ FormatUint (unat (oid_Type o1)) @ ascii '', instance: '' @ FormatUint (unat (InstanceNumber o1))"

text \<open>\<^verbatim>\<open>time.Weekday.String\<close> has a text for every number.\<close>

definition time_Weekday :: "nat \<Rightarrow> bytes" where
  "time_Weekday n =
     (if n < 7 then ascii ([''Sunday'', ''Monday'', ''Tuesday'', ''Wednesday'', ''Thursday'', ''Friday'', ''Saturday''] ! n)
      else ascii ''%!Weekday('' @ FormatUint n @ ascii '')'')"

definition Weekday_String :: "u8 \<Rightarrow> bytes" where
  "Weekday_String d = (let day = unat d in time_Weekday (if day = 7 then 0 else day))"

text \<open>
  \<^verbatim>\<open>ReadAsString\<close>: \<open>fmt\<close> is \<^verbatim>\<open>fmt.Sprintf\<close> with one verb.  A pointer that is nil has no method to call; the remaining integer types convert to a
  string of one rune, which is \<open>rune\<close>.
\<close>

definition ReadAsString :: "(string \<Rightarrow> go_value \<Rightarrow> bytes) \<Rightarrow> (go_value \<Rightarrow> bytes) \<Rightarrow> PropertyValue \<Rightarrow> bytes result" where
  "ReadAsString fmt rune p =
     (case pv_Value p of
        VNil \<Rightarrow> Inr (ascii ''NULL'')
      | VCharacterString v \<Rightarrow> Inr (cs_Value v)
      | VString v \<Rightarrow> Inr v
      | VBool v \<Rightarrow> Inr (if v then ascii ''true'' else ascii ''false'')
      | VUint32 v \<Rightarrow> Inr (FormatUint (unat v))
      | VInt32 v \<Rightarrow> Inr (FormatInt (sint v))
      | VFloat32 v \<Rightarrow> Inr (fmt ''%f'' (VFloat32 v))
      | VFloat64 v \<Rightarrow> Inr (fmt ''%f'' (VFloat64 v))
      | VReal v \<Rightarrow> Inr (fmt ''%f'' (VReal v))
      | VDouble v \<Rightarrow> Inr (fmt ''%f'' (VDouble v))
      | VBitString v \<Rightarrow> Inr (fmt ''%b'' (VBitString v))
      | VBytes v \<Rightarrow> Inr (fmt ''%x'' (VBytes v))
      | VDate v \<Rightarrow> Inr (Date_String v)
      | VDatePtr v \<Rightarrow> (case v of None \<Rightarrow> Inl Panic | Some v \<Rightarrow> Inr (Date_String v))
      | VTime v \<Rightarrow> Inr (Time_String v)
      | VTimePtr v \<Rightarrow> (case v of None \<Rightarrow> Inl Panic | Some v \<Rightarrow> Inr (Time_String v))
      | VObjectId v \<Rightarrow> Inr (ObjectId_String v)
      | VObjectIdPtr v \<Rightarrow> (case v of None \<Rightarrow> Inl Panic | Some v \<Rightarrow> Inr (ObjectId_String v))
      | VInt v \<Rightarrow> Inr (rune (VInt v))
      | VUint v \<Rightarrow> Inr (rune (VUint v))
      | VUint64 v \<Rightarrow> Inr (rune (VUint64 v))
      | VUint16 v \<Rightarrow> Inr (rune (VUint16 v))
      | VUint8 v \<Rightarrow> Inr (rune (VUint8 v))
      | VOther n \<Rightarrow> Inr (fmt ''%s'' (VOther n)))"

text \<open>Every value that was decoded has a text.\<close>

lemma decoded_shown:
  assumes "PropertyValue_UnmarshalBinary b = Inr p"
  shows "\<exists>s. ReadAsString fmt rune p = Inr s"
  using assms
  by (auto simp: ReadAsString_def PropertyValue_UnmarshalBinary_def PropertyValue_payload_def Let_def bind_res_eq_Inr split: if_splits prod.splits)

end
