(* ===== verification/Controllers.thy ===== *)
theory Controllers
  imports Client "HOL-Library.Sublist"
begin

text \<open>
  Controllers of devices, objects and properties, \<^verbatim>\<open>bacnet/device_ctrl.go\<close>, \<^verbatim>\<open>object_ctrl.go\<close> and \<^verbatim>\<open>property_ctrl.go\<close>: calls of the client for a
  property, an object or a device that was found.  A sequence of calls has, for each of them, what arrives while it waits
  and how its wait ends.
\<close>

type_synonym call_runs = "nat \<Rightarrow> (Server \<Rightarrow> Server) \<times> wait"

record Object =
  ob_IPAddress :: bytes
  ob_ObjectId :: "ObjectId option"
  ob_PresentValue :: "PropertyValue option"
  ob_Name :: bytes
  ob_Description :: bytes
  ob_DeviceID :: u16
  ob_DeviceInstance :: u32
  ob_StateValues :: "(bytes \<times> bytes) list"

definition Object_zero :: Object where
  "Object_zero = \<lparr>ob_IPAddress = [], ob_ObjectId = None, ob_PresentValue = None, ob_Name = [], ob_Description = [], ob_DeviceID = 0,
     ob_DeviceInstance = 0, ob_StateValues = []\<rparr>"

definition net_ip :: "bytes \<Rightarrow> ip" where
  "net_ip b = (if b = [] then None else Some b)"

section \<open>Properties\<close>

definition GetValue :: "writer \<Rightarrow> (Server \<Rightarrow> Server) \<Rightarrow> wait \<Rightarrow> Property \<Rightarrow> Server \<Rightarrow> (unit result \<times> Property \<times> Server) option" where
  "GetValue wr env w p s =
     (case p_ObjectId p of
        None \<Rightarrow> Some (Inl Panic, p, s)
      | Some oid \<Rightarrow>
          map_option (\<lambda>(r, s). case r of Inl e \<Rightarrow> (Inl e, p, s) | Inr prop \<Rightarrow> (Inr (), p\<lparr>p_Values := prop\<rparr>, s))
            (ReadProperty wr env w (net_ip (p_IPAddress p)) (oid_Type oid) (oid_Instance oid) (p_ID p) s))"

definition SetValue :: "writer \<Rightarrow> (Server \<Rightarrow> Server) \<Rightarrow> wait \<Rightarrow> u8 \<Rightarrow> go_value \<Rightarrow> Property \<Rightarrow> Server \<Rightarrow> (unit result \<times> Server) option" where
  "SetValue wr env w dataType val p s =
     (case p_ObjectId p of
        None \<Rightarrow> Some (Inl Panic, s)
      | Some oid \<Rightarrow> Server_WriteProperty wr env w (net_ip (p_IPAddress p)) (oid_Type oid) (oid_Instance oid) (p_ID p) dataType 7 val s)"

section \<open>Objects\<close>

definition GetProperty :: "writer \<Rightarrow> (Server \<Rightarrow> Server) \<Rightarrow> wait \<Rightarrow> u32 \<Rightarrow> Object \<Rightarrow> Server \<Rightarrow> (Property result \<times> Server) option" where
  "GetProperty wr env w pid o1 s =
     map_option (\<lambda>(r, p, s). (bind_res r (\<lambda>_. Inr p), s))
       (GetValue wr env w (Property_zero\<lparr>p_ObjectId := ob_ObjectId o1, p_ID := pid, p_Index := 0, p_IPAddress := ob_IPAddress o1\<rparr>) s)"

text \<open>\<^verbatim>\<open>strings.Contains\<close>.\<close>

definition contains :: "string \<Rightarrow> string \<Rightarrow> bool" where
  "contains s t \<longleftrightarrow> t \<in> set (map (\<lambda>i. take (length t) (drop i s)) [0..<length s + 1])"

text \<open>Object_Name, Object_List, Description, Present_Value, Model_Name, Vendor_Name, Vendor_Identifier, System_Status, Location, Firmware_Revision,
  Application_Software_Version and State_Text.\<close>

definition known_properties :: "u32 list" where
  "known_properties = [77, 76, 28, 85, 70, 121, 120, 112, 58, 44, 12, 110]"

fun listed_ids :: "PropertyValue option list \<Rightarrow> u32 list result" where
  "listed_ids [] = Inr []"
| "listed_ids (None # vs) = Inl Panic"
| "listed_ids (Some v # vs) =
     bind_res (listed_ids vs) (\<lambda>ids. Inr (case pv_Value v of VUint32 n \<Rightarrow> n # ids | _ \<Rightarrow> ids))"

definition property_ids :: "Property result \<Rightarrow> u32 list result option" where
  "property_ids r =
     (case r of
        Inl Panic \<Rightarrow> Some (Inl Panic)
      | Inl (Err e) \<Rightarrow> if contains e ''ErrorCodeUnknownProperty'' then Some (Inr known_properties) else Some (Inl (Err e))
      | Inr p \<Rightarrow>
          if p_Values p = [] then None
          else Some (bind_res (listed_ids (p_Values p)) (\<lambda>ids. Inr (if 77 \<in> set ids then ids else ids @ [77]))))"

fun get_properties :: "writer \<Rightarrow> call_runs \<Rightarrow> nat \<Rightarrow> Object \<Rightarrow> u32 list \<Rightarrow> Property list \<Rightarrow> Server \<Rightarrow> (Property list result \<times> Server) option" where
  "get_properties wr runs k o1 [] acc s = Some (Inr acc, s)"
| "get_properties wr runs k o1 (pid # ids) acc s =
     (case GetProperty wr (fst (runs k)) (snd (runs k)) pid o1 s of
        None \<Rightarrow> None
      | Some (Inl Panic, s) \<Rightarrow> Some (Inl Panic, s)
      | Some (Inl (Err _), s) \<Rightarrow> get_properties wr runs (k + 1) o1 ids acc s
      | Some (Inr p, s) \<Rightarrow> get_properties wr runs (k + 1) o1 ids (acc @ [p]) s)"

text \<open>An empty list of values is a nil slice: then the code returns neither properties nor an error.\<close>

definition GetAllProperties :: "writer \<Rightarrow> call_runs \<Rightarrow> Object \<Rightarrow> Server \<Rightarrow> (Property list result \<times> Server) option" where
  "GetAllProperties wr runs o1 s =
     (case GetProperty wr (fst (runs 0)) (snd (runs 0)) 371 o1 s of
        None \<Rightarrow> None
      | Some (r, s) \<Rightarrow>
          (case property_ids r of
             None \<Rightarrow> Some (Inr [], s)
           | Some (Inl e) \<Rightarrow> Some (Inl e, s)
           | Some (Inr ids) \<Rightarrow> get_properties wr runs 1 o1 ids [] s))"

definition GetPresentValue :: "writer \<Rightarrow> (Server \<Rightarrow> Server) \<Rightarrow> wait \<Rightarrow> Object \<Rightarrow> Server \<Rightarrow> (PropertyValue option result \<times> Server) option" where
  "GetPresentValue wr env w o1 s =
     map_option (\<lambda>(r, s). (bind_res r (\<lambda>p. Inr (case p_Values p of [] \<Rightarrow> None | v # _ \<Rightarrow> v)), s)) (GetProperty wr env w 85 o1 s)"

section \<open>Devices\<close>

definition object_of_device :: "Device \<Rightarrow> Object" where
  "object_of_device d = Object_zero\<lparr>ob_IPAddress := dev_IPAddress d, ob_ObjectId := dev_ObjectId d, ob_DeviceID := dev_DeviceID d,
     ob_DeviceInstance := dev_DeviceInstance d\<rparr>"

definition object_of :: "Device \<Rightarrow> ObjectId option \<Rightarrow> Object result" where
  "object_of d oid = (case dev_ObjectId d of
       None \<Rightarrow> Inl Panic
     | Some i \<Rightarrow> Inr (Object_zero\<lparr>ob_ObjectId := oid, ob_IPAddress := dev_IPAddress d, ob_DeviceID := oid_Instance i\<rparr>))"

definition GetObjects :: "writer \<Rightarrow> (Server \<Rightarrow> Server) \<Rightarrow> wait \<Rightarrow> Device \<Rightarrow> Server \<Rightarrow> (Object list result \<times> Server) option" where
  "GetObjects wr env w d s =
     map_option (\<lambda>(r, s). (bind_res r (\<lambda>prop.
         if p_Values prop = [] then Inl (Err ''property value is nil'')
         else bind_res (ReadValuesAsObjects prop) (map_res (object_of d))), s))
       (GetProperty wr env w 76 (object_of_device d) s)"

section \<open>What the controllers return\<close>

lemma GetProperty_Inr:
  assumes "GetProperty wr env w pid o1 s = Some (Inr p, s')"
  shows "p_ID p = pid \<and> p_ObjectId p = ob_ObjectId o1 \<and> p_IPAddress p = ob_IPAddress o1"
proof (cases "ob_ObjectId o1")
  case None
  with assms show ?thesis by (simp add: GetProperty_def GetValue_def Property_zero_def)
next
  case (Some oid)
  obtain r s1 where rd: "ReadProperty wr env w (net_ip (ob_IPAddress o1)) (oid_Type oid) (oid_Instance oid) pid s = Some (r, s1)"
    using assms Some by (auto simp: GetProperty_def GetValue_def Property_zero_def)
  with assms Some show ?thesis by (cases r) (auto simp: GetProperty_def GetValue_def Property_zero_def)
qed

lemma get_properties_Inr:
  "get_properties wr runs k o1 ids acc s = Some (Inr ps, s') \<Longrightarrow>
     \<exists>new. ps = acc @ new \<and> subseq (map p_ID new) ids \<and> (\<forall>p \<in> set new. p_ObjectId p = ob_ObjectId o1)"
proof (induction wr runs k o1 ids acc s rule: get_properties.induct)
  case (2 wr runs k o1 pid ids acc s)
  show ?case
  proof (cases "GetProperty wr (fst (runs k)) (snd (runs k)) pid o1 s")
    case (Some rs)
    obtain r s1 where rs: "rs = (r, s1)" by force
    show ?thesis
    proof (cases r)
      case (Inl e)
      then obtain t where "e = Err t" using 2(3) Some rs by (cases e) auto
      with 2(1) [OF Some [unfolded rs Inl]] 2(3) Some rs Inl show ?thesis by fastforce
    next
      case (Inr p)
      note g = GetProperty_Inr [OF Some [unfolded rs Inr]]
      from 2(2) [OF Some [unfolded rs Inr]] 2(3) Some rs Inr obtain new
        where "ps = (acc @ [p]) @ new" "subseq (map p_ID new) ids" "\<forall>p \<in> set new. p_ObjectId p = ob_ObjectId o1" by auto
      with g show ?thesis by (intro exI [of _ "p # new"]) simp
    qed
  qed (use 2(3) in simp)
qed simp

text \<open>The properties of an object come in the order of its list, each once for every mention, under the identifier of the object.\<close>

lemma GetAllProperties_Inr:
  assumes "GetAllProperties wr runs o1 s = Some (Inr ps, s')"
  shows "\<exists>ids. subseq (map p_ID ps) ids \<and> (\<forall>p \<in> set ps. p_ObjectId p = ob_ObjectId o1)
    \<and> (ids = [] \<or> ids = known_properties \<or> 77 \<in> set ids)"
proof -
  obtain r s1 where g: "GetProperty wr (fst (runs 0)) (snd (runs 0)) 371 o1 s = Some (r, s1)"
    using assms by (auto simp: GetAllProperties_def split: option.splits)
  show ?thesis
  proof (cases "property_ids r")
    case None
    with g assms show ?thesis by (intro exI [of _ "[]"]) (auto simp: GetAllProperties_def)
  next
    case (Some q)
    then obtain ids where ids: "q = Inr ids" "get_properties wr runs 1 o1 ids [] s1 = Some (Inr ps, s')"
      using g assms by (cases q) (auto simp: GetAllProperties_def)
    have "ids = known_properties \<or> 77 \<in> set ids"
      using Some ids(1) by (auto simp: property_ids_def bind_res_eq_Inr split: sum.splits go_error.splits if_splits)
    with get_properties_Inr [OF ids(2)] show ?thesis by auto
  qed
qed

lemma InstanceNumber_narrow: "InstanceNumber (ObjectId_zero\<lparr>oid_Type := t, oid_Instance := i\<rparr>) = ucast i"
  by (simp add: InstanceNumber_def ObjectId_zero_def)

text \<open>
  C40: The controllers pass on the sixteen-bit instance of an identifier only: a property whose object has a larger instance is read from, and
  written to, the object whose instance is the remainder modulo 65536, although the calls for full identifiers take every
  instance.
\<close>

theorem controllers_narrow_instance:
  assumes "p_ObjectId p = Some oid" "oid_wf oid"
  shows "\<exists>narrow. GetValue wr env w p s =
      map_option (\<lambda>(r, s). case r of Inl e \<Rightarrow> (Inl e, p, s) | Inr vs \<Rightarrow> (Inr (), p\<lparr>p_Values := vs\<rparr>, s))
        (ReadObjectProperty wr env w (net_ip (p_IPAddress p)) narrow (p_ID p) s)
    \<and> SetValue wr env w tag val p s = WriteObjectProperty wr env w (net_ip (p_IPAddress p)) narrow (p_ID p) tag 7 val s
    \<and> oid_Type narrow = oid_Type oid \<and> unat (InstanceNumber narrow) = unat (InstanceNumber oid) mod 2 ^ 16
    \<and> (InstanceNumber narrow = InstanceNumber oid \<longleftrightarrow> InstanceNumber oid \<le> 65535)"
proof -
  let ?n = "ObjectId_zero\<lparr>oid_Type := oid_Type oid, oid_Instance := oid_Instance oid\<rparr>"
  have low: "ucast (InstanceNumber oid) = oid_Instance oid" by (simp add: InstanceNumber_def)
  have n: "InstanceNumber ?n = ucast (oid_Instance oid)" by (rule InstanceNumber_narrow)
  have u: "unat (InstanceNumber ?n) = unat (InstanceNumber oid) mod 2 ^ 16"
    unfolding n by (simp add: unsigned_ucast_eq take_bit_eq_mod unat_mod flip: low)
  then have "unat (InstanceNumber ?n) < 2 ^ 16" by simp
  then have "InstanceNumber ?n \<le> BacnetMaxInstance" by (simp add: word_le_nat_alt BacnetMaxInstance_def)
  moreover have "ucast (oid_Type oid) \<le> BacnetMaxObject" using assms(2) by (simp add: oid_wf_def)
  then have "ucast (oid_Type oid) < BacnetMaxObject + 1" by (simp add: BacnetMaxObject_def word_le_nat_alt word_less_nat_alt)
  ultimately have c: "check_object ?n = Inr ()" by (simp add: check_object_def ObjectId_zero_def not_less not_le)
  have "InstanceNumber ?n = InstanceNumber oid \<longleftrightarrow> InstanceNumber oid \<le> 65535"
    unfolding word_unat_eq_iff u word_le_nat_alt using mod_eq_self_iff_div_eq_0 [of "unat (InstanceNumber oid)" "2 ^ 16"]
    by (simp add: div_eq_0_iff) linarith
  with c u assms(1) show ?thesis
    by (intro exI [of _ ?n]) (simp add: GetValue_def SetValue_def ReadProperty_def Server_WriteProperty_def ReadObjectProperty_def WriteObjectProperty_def)
qed

definition big_property :: Property where
  "big_property = Property_zero\<lparr>p_ObjectId := Some \<lparr>oid_Type = 0, oid_Instance = 4464, extendedInstance = 70000\<rparr>, p_ID := 85, p_IPAddress := [10, 0, 0, 1]\<rparr>"

theorem controllers_narrow_instance_witness:
  "\<forall>wr env w s. \<exists>narrow. SetValue wr env w 4 (VReal 0) big_property s = WriteObjectProperty wr env w (Some [10, 0, 0, 1]) narrow 85 4 7 (VReal 0) s
     \<and> unat (InstanceNumber narrow) = 4464"
proof (intro allI)
  fix wr env w s
  let ?oid = "\<lparr>oid_Type = 0, oid_Instance = 4464, extendedInstance = 70000\<rparr>"
  have "p_ObjectId big_property = Some ?oid" "oid_wf ?oid" "InstanceNumber ?oid = 70000"
    by (simp_all add: big_property_def oid_wf_def InstanceNumber_def BacnetMaxObject_def BacnetMaxInstance_def)
  with controllers_narrow_instance [OF this(1,2), of wr env w s 4 "VReal 0"]
  show "\<exists>narrow. SetValue wr env w 4 (VReal 0) big_property s = WriteObjectProperty wr env w (Some [10, 0, 0, 1]) narrow 85 4 7 (VReal 0) s
     \<and> unat (InstanceNumber narrow) = 4464"
    by (auto simp: big_property_def net_ip_def)
qed

end
