(* ===== verification/Cli.thy ===== *)
theory Cli
  imports Display Controllers Gui_Values
begin

text \<open>
  The command line client, \<^verbatim>\<open>cmd/gobac/actions\<close>: the configuration of its endpoint, and the commands that read, write and discover.
  The arguments are octets; the flags are arguments of the definitions.
\<close>

section \<open>Before a command\<close>

definition hasHelpArgument :: "bytes list \<Rightarrow> bool" where
  "hasHelpArgument args =
     (if args = [] \<or> hd args = ascii ''help'' then True
      else length args > 1 \<and> (args ! 1 = ascii ''--help'' \<or> args ! 1 = ascii ''-h''))"

record cli_flags =
  fl_timeout :: int       \<comment> \<open>the duration computed from the flag, in nanoseconds\<close>
  fl_interface :: string
  fl_port :: u64
  fl_server_port :: u64

definition Before :: "(string \<Rightarrow> cidr list result) \<Rightarrow> TxState \<Rightarrow> cli_flags \<Rightarrow> bytes list \<Rightarrow> (Server \<times> networkSet) option result" where
  "Before lookup tx fl args =
     (if length args = 0 \<or> hasHelpArgument args then Inr None
      else bind_res (NewServer lookup tx (Some
          (SetServerBBMDPort (ucast (fl_server_port fl)) (SetListenPort (ucast (fl_port fl)) (SetReceiveErrors True
            (SetInterfaceName (fl_interface fl) (SetDefaultTimeout (fl_timeout fl) NewServerConfig)))))))
        (\<lambda>s. Inr (Some s)))"

section \<open>Arguments\<close>

text \<open>\<^verbatim>\<open>Args.Get\<close> of the command line package gives an empty text for an argument that is not there.\<close>

definition Args_Get :: "bytes list \<Rightarrow> nat \<Rightarrow> bytes" where
  "Args_Get args i = (if i < length args then args ! i else [])"

definition parseObjectInstance :: "bytes \<Rightarrow> u32 result" where
  "parseObjectInstance arg =
     bind_res (ParseUint arg 32) (\<lambda>v.
       if v > unat BacnetMaxInstance then Inl (Err ''object instance %d exceeds maximum of %d'') else Inr (word_of_nat v))"

text \<open>The object and the property that a command names; a number is converted to the type of its field.\<close>

definition object_argument :: "bytes list \<Rightarrow> (ObjectId \<times> u32) result" where
  "object_argument args =
     bind_res (Atoi (Args_Get args 1)) (\<lambda>objectType.
     bind_res (parseObjectInstance (Args_Get args 2)) (\<lambda>instance1.
     bind_res (SetInstanceNumber (ObjectId_zero\<lparr>oid_Type := word_of_int objectType\<rparr>) instance1) (\<lambda>object.
     bind_res (Atoi (Args_Get args 3)) (\<lambda>propertyId. Inr (object, word_of_int propertyId)))))"

section \<open>Reading\<close>

text \<open>The values that are printed: the number of each, its type and its text.\<close>

definition print_values :: "(PropertyValue \<Rightarrow> bytes result) \<Rightarrow> PropertyValue option list \<Rightarrow> (nat \<times> u8 \<times> bytes) list result" where
  "print_values text vs =
     map_res (\<lambda>(i, v). case v of None \<Rightarrow> Inl Panic | Some v \<Rightarrow> bind_res (text v) (\<lambda>t. Inr (i + 1, pv_Type v, t))) (enumerate 0 vs)"

definition ReadProp ::
    "(PropertyValue \<Rightarrow> bytes result) \<Rightarrow> writer \<Rightarrow> (Server \<Rightarrow> Server) \<Rightarrow> wait \<Rightarrow> bytes list \<Rightarrow> Server \<Rightarrow>
     ((nat \<times> u8 \<times> bytes) list result \<times> Server) option" where
  "ReadProp text wr env w args s =
     (if length args < 4 then Some (Inl (Err ''Invalid number of arguments. Expected 4 and got %d.''), s)
      else case object_argument args of
        Inl e \<Rightarrow> Some (Inl e, s)
      | Inr (object, propertyId) \<Rightarrow>
          map_option (\<lambda>(r, s). (bind_res r (print_values text), s))
            (ReadObjectProperty wr env w (ParseIP (Args_Get args 0)) object propertyId s))"

section \<open>Writing\<close>

definition write_argument :: "float_text \<Rightarrow> u8 \<Rightarrow> bytes \<Rightarrow> go_value result" where
  "write_argument ft tag val =
     (if tag = TagBoolean then bind_res (ParseBool val) (\<lambda>b. Inr (VBool b))
      else if tag = TagUnsigned \<or> tag = TagEnumerated \<or> tag = TagSigned then bind_res (Atoi val) (\<lambda>i. Inr (VInt (word_of_int i)))
      else if tag = TagReal then bind_res (ft_Parse ft val 32) (\<lambda>v. Inr (VFloat64 v))
      else if tag = TagDouble then bind_res (ft_Parse ft val 64) (\<lambda>v. Inr (VFloat64 v))
      else if tag = TagCharacterString then Inr (VCharacterString \<lparr>cs_Value = val, cs_Encoding = 0\<rparr>)
      else if tag = TagNull then Inr VNil
      else Inl (Err ''unsupported data type (by the CLI)''))"

definition WritePropAction ::
    "float_text \<Rightarrow> writer \<Rightarrow> (Server \<Rightarrow> Server) \<Rightarrow> wait \<Rightarrow> u64 \<Rightarrow> bytes list \<Rightarrow> Server \<Rightarrow> (unit result \<times> Server) option" where
  "WritePropAction ft wr env w priority args s =
     (if length args < 5 then Some (Inl (Err ''Invalid number of arguments. Expected 5-6 and got %d.''), s)
      else case bind_res (object_argument args) (\<lambda>op. bind_res (Atoi (Args_Get args 4)) (\<lambda>t.
          bind_res (write_argument ft (word_of_int t) (Args_Get args 5)) (\<lambda>val. Inr (op, word_of_int t, val)))) of
        Inl e \<Rightarrow> Some (Inl e, s)
      | Inr ((object, propertyId), tag, val) \<Rightarrow>
          WriteObjectProperty wr env w (ParseIP (Args_Get args 0)) object propertyId tag (ucast priority) val s)"

section \<open>Discovery\<close>

text \<open>
  The devices that the request delivers before its channel is closed.  \<^verbatim>\<open>sort.Slice\<close> may permute devices with the same
  instance; the model keeps their order.
\<close>

definition whois :: "Device option list result \<Rightarrow> Device list result" where
  "whois delivered =
     bind_res delivered (\<lambda>ds.
       let devs = List.map_filter (\<lambda>d. d) ds in
       if length devs = 0 then Inl (Err ''no devices found'') else Inr (sort_key dev_DeviceInstance devs))"

section \<open>Scanning\<close>

record ExtendedObject =
  eo_Object :: Object
  eo_Properties :: "Property list"
  eo_FloatValue :: u64
  eo_StringValue :: bytes

definition first_value :: "Property \<Rightarrow> PropertyValue result" where
  "first_value p = (case p_Values p of Some v # _ \<Rightarrow> Inr v | _ \<Rightarrow> Inl Panic)"

definition extend_with :: "(PropertyValue \<Rightarrow> bytes result) \<Rightarrow> Property \<Rightarrow> ExtendedObject \<Rightarrow> ExtendedObject result" where
  "extend_with text p e =
     (if p_ID p = 77 then bind_res (first_value p) (\<lambda>v. bind_res (text v) (\<lambda>t. Inr (e\<lparr>eo_Object := (eo_Object e)\<lparr>ob_Name := t\<rparr>\<rparr>)))
      else if p_ID p = 28 then bind_res (first_value p) (\<lambda>v. bind_res (text v) (\<lambda>t. Inr (e\<lparr>eo_Object := (eo_Object e)\<lparr>ob_Description := t\<rparr>\<rparr>)))
      else if p_ID p = 85 then
        bind_res (first_value p) (\<lambda>v. bind_res (ReadAsFloat64 v) (\<lambda>f. bind_res (text v) (\<lambda>t.
          Inr (e\<lparr>eo_Object := (eo_Object e)\<lparr>ob_PresentValue := Some v\<rparr>, eo_FloatValue := f, eo_StringValue := t\<rparr>))))
      else Inr e)"

fun extend_object :: "(PropertyValue \<Rightarrow> bytes result) \<Rightarrow> Property list \<Rightarrow> ExtendedObject \<Rightarrow> ExtendedObject result" where
  "extend_object text [] e = Inr e"
| "extend_object text (p # ps) e = bind_res (extend_with text p e) (extend_object text ps)"

definition scan_object :: "(PropertyValue \<Rightarrow> bytes result) \<Rightarrow> writer \<Rightarrow> call_runs \<Rightarrow> Object \<Rightarrow> Server \<Rightarrow> (ExtendedObject result \<times> Server) option" where
  "scan_object text wr runs o1 s =
     map_option (\<lambda>(r, s). (bind_res r (\<lambda>props. extend_object text props
          \<lparr>eo_Object = o1, eo_Properties = props, eo_FloatValue = 0, eo_StringValue = []\<rparr>), s))
       (GetAllProperties wr runs o1 s)"

section \<open>Numbers on the command line\<close>

lemma word_of_int_cong: "i mod 2 ^ LENGTH('a) = j mod 2 ^ LENGTH('a) \<Longrightarrow> (word_of_int i :: 'a :: len word) = word_of_int j"
  by (simp add: word_of_int_eq_iff take_bit_eq_mod)

text \<open>
  The object type, the property and the tag are not checked: numbers that agree in the low bits of their field name the same
  request.
\<close>

lemma cli_numbers_narrowed:
  assumes "Atoi t = Inr i" "Atoi t' = Inr i'" "i mod 2 ^ 16 = i' mod 2 ^ 16"
    and "Atoi p = Inr j" "Atoi p' = Inr j'" "j mod 2 ^ 32 = j' mod 2 ^ 32"
    and "Atoi g = Inr k" "Atoi g' = Inr k'" "k mod 2 ^ 8 = k' mod 2 ^ 8"
  shows "WritePropAction ft wr env w priority [address, t, n, p, g, val] s = WritePropAction ft wr env w priority [address, t', n, p', g', val] s"
  using assms(1,2,4,5,7,8) word_of_int_cong [where 'a = 16, of i i'] word_of_int_cong [where 'a = 32, of j j']
    word_of_int_cong [where 'a = 8, of k k'] assms(3,6,9)
  by (simp add: WritePropAction_def object_argument_def Args_Get_def numeral_nat split: sum.split prod.split)

text \<open>An instance is checked: it is kept whole within the twenty-two bits and refused outside them.\<close>

lemma parseObjectInstance_bound:
  assumes "object_argument args = Inr (object, pid)"
  shows "InstanceNumber object \<le> BacnetMaxInstance" "Inr (InstanceNumber object) = parseObjectInstance (Args_Get args 2)"
proof -
  obtain t i where t: "parseObjectInstance (Args_Get args 2) = Inr i" "SetInstanceNumber (ObjectId_zero\<lparr>oid_Type := t\<rparr>) i = Inr object"
    using assms by (auto simp: object_argument_def bind_res_eq_Inr)
  then have "i \<le> BacnetMaxInstance" by (auto simp: SetInstanceNumber_def split: if_splits)
  with SetInstanceNumber_eq [OF this, of "ObjectId_zero\<lparr>oid_Type := t\<rparr>"] t
  show "InstanceNumber object \<le> BacnetMaxInstance" "Inr (InstanceNumber object) = parseObjectInstance (Args_Get args 2)" by auto
qed

text \<open>The devices found come in the order of their instances, and all of them.\<close>

lemma whois_sorted:
  assumes "whois (Inr ds) = Inr devs"
  shows "sorted (map dev_DeviceInstance devs)" "Some ` set devs = set ds - {None}" "devs \<noteq> []"
proof -
  have d: "devs = sort_key dev_DeviceInstance (List.map_filter (\<lambda>d. d) ds)" "List.map_filter (\<lambda>d. d) ds \<noteq> []"
    using assms by (auto simp: whois_def Let_def split: if_splits)
  show "sorted (map dev_DeviceInstance devs)" by (simp add: d(1))
  show "Some ` set devs = set ds - {None}" by (force simp: d(1) List.map_filter_def image_iff)
  show "devs \<noteq> []" using d by (metis length_0_conv length_sort)
qed

section \<open>A scan and the value Null\<close>

text \<open>
  Describing an object panics exactly if its present value is Null: \<^verbatim>\<open>ReadAsFloat64\<close> asks for the type of a nil value.  The values
  of a property that was read are not empty and have a text.
\<close>

lemma scan_panics_on_null:
  assumes "\<forall>p \<in> set props. \<exists>v vs t. p_Values p = Some v # vs \<and> text v = Inr t"
  shows "extend_object text props e = Inl Panic \<longleftrightarrow> (\<exists>p \<in> set props. p_ID p = 85 \<and> (\<exists>v. first_value p = Inr v \<and> pv_Value v = VNil))"
  using assms
proof (induction props arbitrary: e)
  case (Cons p props)
  then obtain v vs t where v: "p_Values p = Some v # vs" "text v = Inr t" by auto
  show ?case
  proof (cases "p_ID p = 85 \<and> pv_Value v = VNil")
    case True
    then have "extend_with text p e = Inl Panic" using v
      by (simp add: extend_with_def first_value_def ReadAsFloat64_def IsNumeric_def ConvertibleTo_def)
    with True v show ?thesis by (auto simp: first_value_def)
  next
    case False
    then have "\<exists>e1. extend_with text p e = Inr e1" using v
      by (simp add: extend_with_def first_value_def ReadAsFloat64_def IsNumeric_def ConvertibleTo_def)
    then obtain e1 where "extend_with text p e = Inr e1" ..
    with False v Cons.IH [of e1] Cons.prems show ?thesis by (auto simp: first_value_def)
  qed
qed simp

section \<open>Command line and browser\<close>

text \<open>
  C39: The browser of the graphical application and the command line write the same octets for the same text and tag, and refuse the same
  texts, for every text that is not a NaN.
\<close>

theorem cli_gui_agree:
  assumes "\<And>v. tag = 4 \<Longrightarrow> ft_Parse ft val 32 = Inr v \<Longrightarrow> \<not> is_NaN32 (f64_to_f32 v)"
  shows "case (write_argument ft tag val, ParseWriteValue ft tag val) of
      (Inr a, Inr b) \<Rightarrow> PropertyValue_MarshalBinary \<lparr>pv_Type = tag, pv_Value = a\<rparr>
        = PropertyValue_MarshalBinary \<lparr>pv_Type = tag, pv_Value = Gui_Session.wire_value \<lparr>wq_Tag = tag, wq_Priority = prio, wq_Value = b\<rparr>\<rparr>
    | (Inl _, Inl _) \<Rightarrow> True
    | _ \<Rightarrow> False"
proof (cases "tag = 4")
  case True
  with assms show ?thesis
    by (cases "ft_Parse ft val 32") (simp_all add: write_argument_def ParseWriteValue_def Gui_Session.wire_value_def PropertyValue_MarshalBinary_def
        PropertyValue_coerce_def coerce_number_def ConvertibleTo_def convertible_numeric_def convert_float32_def convert_float64_def f64_to_f32_f32_to_f64)
next
  case False
  have w: "Gui_Session.wire_value \<lparr>wq_Tag = t, wq_Priority = prio, wq_Value = v\<rparr> = v" if "v \<in> {VNil, VBool b, VInt i, VFloat64 f}" for t v b i f
    using that by (auto simp: Gui_Session.wire_value_def)
  have "tag = 7 \<Longrightarrow> ?thesis" by (simp add: write_argument_def ParseWriteValue_def Gui_Session.wire_value_def)
  moreover have "tag \<noteq> 7 \<Longrightarrow> ?thesis" using False
    by (cases "ParseBool val"; cases "Atoi val"; cases "ft_Parse ft val 64") (simp_all add: write_argument_def ParseWriteValue_def w)
  ultimately show ?thesis by blast
qed

theorem cli_gui_agree_witness:
  "\<exists>a b. write_argument demo_text 3 (ascii ''-200'') = Inr a \<and> ParseWriteValue demo_text 3 (ascii ''-200'') = Inr b
     \<and> PropertyValue_MarshalBinary \<lparr>pv_Type = 3, pv_Value = a\<rparr>
        = PropertyValue_MarshalBinary \<lparr>pv_Type = 3, pv_Value = Gui_Session.wire_value \<lparr>wq_Tag = 3, wq_Priority = 8, wq_Value = b\<rparr>\<rparr>"
proof -
  have "ascii ''-200'' = FormatInt (- 200)" by code_simp
  then have "Atoi (ascii ''-200'') = Inr (- 200)" using Atoi_FormatInt [of "- 200"] by simp
  with cli_gui_agree [of 3 demo_text "ascii ''-200''" 8] show ?thesis by (simp add: write_argument_def ParseWriteValue_def)
qed

end
