(* ===== verification/Spec2Isabelle.thy ===== *)
theory Spec2Isabelle
  imports Exchange Listen_Generic Gui_Edits Gui_Store Gui_Editing Gui_Shell Cli
begin

text \<open>
  \<^bold>\<open>A verification of gobac\<close>: a BACnet/IP client library, a responder, a device simulator, and the programs around them, written in Go.

  \<^bold>\<open>Parts of the program.\<close>  \<^verbatim>\<open>bacnet/types\<close> and \<^verbatim>\<open>bacnet/pdu\<close> hold the wire formats: integers, tags, primitive and
  property values, service parameters, APDU, NPCI and BVLC headers.  \<^verbatim>\<open>bacnet\<close> is the client: packets, the table of
  invoke identifiers, an endpoint that sends requests and hands received datagrams to the calls that wait for them, and the
  calls themselves.  \<^verbatim>\<open>bacnet/transport\<close> has endpoints and an in-memory network, \<^verbatim>\<open>bacnet/responder\<close> the server side: it parses a
  datagram, calls the handler of its service and writes the responses.  \<^verbatim>\<open>simulator\<close> is an application of the
  responder: scenarios describe devices, the model keeps their objects and properties, and the handlers serve reads,
  writes, subscriptions and discovery.  \<^verbatim>\<open>cmd/gobac\<close> and \<^verbatim>\<open>cmd/gobac-sim\<close> are the command lines of the client and of the simulator.
  \<^verbatim>\<open>gui\<close> is a graphical application: an editor of scenarios that can run them inside the process, a table of the devices on the network, and
  a browser of their objects.

  \<^bold>\<open>Theories, in the order of the dependencies.\<close>

  \<^item> \<open>Prelude\<close>: results (\<open>Inl\<close> an error or a Go panic, \<open>Inr\<close> a value), their monad, octets, generic lemmas.
  \<^item> \<open>Integers\<close>, \<open>Tags\<close>, \<open>Primitives\<close>, \<open>Go_Float\<close>, \<open>Property_Value\<close>, \<open>Property\<close>: \<^verbatim>\<open>bacnet/types\<close>.  Machine integers are words of
    their width; floating-point numbers are their IEEE bit patterns; a Go interface value is a datatype with one
    constructor for every dynamic type the code distinguishes.
  \<^item> \<open>Cursor\<close>, \<open>Npdu\<close>, \<open>Service_Pdus\<close>, \<open>Pdu_Multiple\<close>, \<open>Apdu\<close>, \<open>Request\<close>: \<^verbatim>\<open>bacnet/pdu\<close> and the packets of \<^verbatim>\<open>bacnet/request.go\<close>.
    Encoders and decoders are functions on octet lists, with a branch for every error return; an index outside a
    slice is the value \<open>Panic\<close>.  The locales \<open>element_decoder\<close> and \<open>element_codec\<close> carry the proofs about sequences of
    elements and are interpreted on the three kinds of access specifications.
  \<^item> \<open>Safety\<close>: no decoder and no encoder of values that came from the wire panics.
  \<^item> \<open>Transaction\<close>, \<open>Net\<close>, \<open>Server\<close>, \<open>Client\<close>: the client.  The table of invoke identifiers is used by the step relation \<open>tx_step\<close> with both releases of a call.  The mutexes make every operation one step, so the endpoint is a
    record that operations return updated: handler tables, channels with their contents, the invoke table and the
    datagrams sent.  A call that waits is a function of what the endpoint receives meanwhile (\<open>env\<close>) and of
    the case of the \<^verbatim>\<open>select\<close> that fires; \<open>None\<close> is a call that is still waiting.  The locale \<open>background\<close> states what a call relies on
    while it waits and is interpreted on the reception of any datagrams.
  \<^item> \<open>Transport\<close>, \<open>Responder\<close>: the in-memory network as a store of connections, and the server side as a function from
    a datagram and the state of the application to responses.  The locale \<open>application\<close> is the contract between the
    responder and its handlers.
  \<^item> \<open>Sim_Model\<close>, \<open>Sim_Subscriptions\<close>, \<open>Sim_Services\<close>, \<open>Sim_Application\<close>, \<open>Sim_Scenario\<close>: \<^verbatim>\<open>simulator\<close>, file by file.  The locale
    \<open>clock\<close> is the clock interface, interpreted on both clocks of the code.
  \<^item> \<open>Sim_System\<close>, \<open>Sim_Atomicity\<close>, \<open>Exchange\<close>: properties that span components, the last one of client and simulator together.
  \<^item> \<open>Lifecycle\<close>: start and shutdown of a client endpoint, with the operating system, the receive goroutines and any number of callers as an
    \<open>inductive\<close> step relation; \<open>Listen_Generic\<close>: the start with two sockets of the systems other than Linux and FreeBSD.  \<open>Sim_Validation\<close>: what the validation of a scenario decides and that valid scenarios build.
  \<^item> \<open>Net_Parse\<close>, \<open>Strconv\<close>, \<open>Udp\<close>: the functions of the standard library that the programs use on addresses, numbers and UDP sockets.  A socket is
    an entry in the table of the host; which bind the system grants is the argument \<open>listener\<close>, with the named hypotheses \<open>binds\<close> (it
    binds what was asked) and \<open>grants\<close> (it has a socket for every request).
  \<^item> \<open>Sim_Program\<close>, \<open>Sim_Endpoints\<close>, \<open>Sim_Serving\<close>: \<^verbatim>\<open>cmd/gobac-sim/main.go\<close>, its commands, sockets and workers; the check of the endpoints;
    and the datagrams it serves.
  \<^item> \<open>Display\<close>, \<open>Controllers\<close>, \<open>Cli\<close>: values as text, \<^verbatim>\<open>device_ctrl.go\<close>, \<^verbatim>\<open>object_ctrl.go\<close> and \<^verbatim>\<open>property_ctrl.go\<close>, and \<^verbatim>\<open>cmd/gobac/actions\<close>.
  \<^item> \<open>Gui_Document\<close>, \<open>Gui_Fields\<close>, \<open>Gui_Edits\<close>: \<^verbatim>\<open>gui/internal/scenariodoc\<close>, documents on a file system whose every failure is a run of the model.
    \<open>Gui_Network\<close>, \<open>Gui_Session\<close>, \<open>Gui_Store\<close>, \<open>Gui_Runner\<close>: \<^verbatim>\<open>netpick\<close>, \<^verbatim>\<open>session\<close>, \<^verbatim>\<open>store\<close> and \<^verbatim>\<open>simrun\<close>.  \<^verbatim>\<open>Start\<close> and \<^verbatim>\<open>Stop\<close>
    of the session are the step relation \<open>live_step\<close>, whose endpoints run the steps of \<open>Lifecycle\<close>.
  \<^item> \<open>Gui_Values\<close>, \<open>Gui_Browser\<close>, \<open>Gui_Editor\<close>, \<open>Gui_Editing\<close>, \<open>Gui_Shell\<close>: \<^verbatim>\<open>gui/internal/ui\<close> and \<^verbatim>\<open>gui/internal/boot\<close> without the widgets.  A view is a record of what it
    shows and holds; a handler is a function on it, and a goroutine that a handler starts is a step of its own.  \<open>editor_step\<close> has one
    rule for every handler and goroutine of the scenario editor.

  \<^bold>\<open>What is shown.\<close>  Every wire format round trips, in the fewest octets where the code promises it, decoders stay inside their
  input, terminate, and do not panic on any octets.  The invoke identifiers of the calls under way to a peer
  are distinct as long as no call outlives 254 others, although every call gives its identifier back twice; \<open>late_release_shares_id\<close> shows what
  happens beyond that.  A call succeeds only on a datagram from its peer with its identifier, of its service but for a write, which a confirmed
  request of the peer completes as well (\<open>request_completes_write\<close>); it leaves neither handlers nor identifiers behind.  Responses go to the requester or to the
  destination they name, carry the identifier of the request and fit the peer's maximum, with the abort or reject the standard asks for otherwise.  The subscription registry refines a map from keys to
  unexpired subscriptions for every history of a clock, and the sixteen command slots refine a table of
  commands in which the lowest number wins.  A write succeeds exactly when its validation does and changes nothing
  otherwise; a request with several writes is all or nothing unless one of them writes Out_Of_Service.  A device built from a scenario keeps its objects and their types and ranges whatever
  datagrams arrive.  A read or a write through client, wire and simulator returns what the device holds or did.

  Shutting an endpoint down closes every socket that was or is being opened.  \<^verbatim>\<open>gobac-sim\<close> starts exactly the scenarios whose endpoints can be bound side by side, serves
  every datagram once, also a broadcast that several sockets receive, and closes its sockets however it ends.  A save of a scenario
  replaces the file by one that loads, or leaves it alone; the errors of the form and the validation agree; it is decided which edits keep a valid document
  valid (a device that was added mostly has to be edited first); over any history of the editor what it shows is what its document is, and for what it offers to run it is decided
  whether the runner starts it; a run and a stop leave the sockets and the device table as they were, and a failed start closes what it had opened.  The session
  of the application has an endpoint with a connection or refuses its calls, and shuts down every endpoint it gives up, unless two starts overlap
  (\<open>overlapping_starts_leak\<close>).  The device table is a map of merged rows.  The text the browser shows for an editable value can be written back, and means the same on the command
  line.  The tree of the browser is the object list of the device.

  \<^bold>\<open>Bounds and fuel.\<close>  The loop that looks for an invoke identifier has the 255 turns of the code, which visit every identifier.  The loops over
  the elements of a property-multiple service have the number of octets as fuel, which they are shown never to
  use up; trimming white space has the length of the text.  The search for a free identifier in a document is a
  \<^verbatim>\<open>partial_function\<close>, and \<open>nextFreeID_total\<close> shows that it returns.  The remaining loops recurse on the input that is left.  A call
  that waits for the network has the result \<open>None\<close> as long as it waits.

  \<^bold>\<open>Not modelled.\<close>  The system calls behind sockets and the interfaces of the host, whose answers are arguments; the interleaving of goroutines inside a step,
  and data races there; object pools; the codecs for JSON and YAML and the conversions between floating-point numbers and text, which are
  arguments with named hypotheses; the widgets of the graphical toolkit, their layout and the file dialogs; printing and the
  tables of the command line; tables of constants that nothing computes with, such as the names of properties and units; and \<^verbatim>\<open>GoTime\<close>,
  which formats with a layout of the standard library.
\<close>

end
